(* ===== verification/Prelude.thy ===== *)
theory Prelude
  imports Main "HOL-Library.Word"
begin

unbundle bit_operations_syntax

section \<open>Shared vocabulary of the development\<close>

text \<open>
  Machine integers of the C++ sources, the byte encodings they use, and the few
  facts on lists used as byte arrays that every component needs.
  \<open>window off n xs\<close> is the slice a \<open>memcpy\<close> of \<open>n\<close> bytes reads,
  \<open>patch off bs xs\<close> is what a \<open>memcpy\<close> of \<open>bs\<close> to offset \<open>off\<close>
  leaves in the array \<open>xs\<close>.
\<close>

named_theorems byte_simps \<open>byte encodings and byte arrays\<close>

type_synonym u8 = "8 word"
type_synonym u16 = "16 word"
type_synonym u32 = "32 word"
type_synonym u64 = "64 word"

subsection \<open>Big-endian encodings\<close>

definition be16 :: "u16 \<Rightarrow> u8 list" where
  "be16 x = [ucast (drop_bit 8 x), ucast x]"

definition be32 :: "u32 \<Rightarrow> u8 list" where
  "be32 x = [ucast (drop_bit 24 x), ucast (drop_bit 16 x), ucast (drop_bit 8 x), ucast x]"

definition of_be16 :: "u8 \<Rightarrow> u8 \<Rightarrow> u32" where
  "of_be16 a b = push_bit 8 (ucast a) OR ucast b"

definition of_be24 :: "u8 \<Rightarrow> u8 \<Rightarrow> u8 \<Rightarrow> u32" where
  "of_be24 a b c = push_bit 16 (ucast a) OR push_bit 8 (ucast b) OR ucast c"

definition of_be32 :: "u8 \<Rightarrow> u8 \<Rightarrow> u8 \<Rightarrow> u8 \<Rightarrow> u32" where
  "of_be32 a b c d = push_bit 24 (ucast a) OR push_bit 16 (ucast b) OR push_bit 8 (ucast c) OR ucast d"

lemma length_be16 [simp]: "length (be16 x) = 2"
  by (simp add: be16_def)

lemma length_be32 [simp]: "length (be32 x) = 4"
  by (simp add: be32_def)

lemma of_be32_be32 [byte_simps]:
  "of_be32 (ucast (drop_bit 24 x)) (ucast (drop_bit 16 x)) (ucast (drop_bit 8 x)) (ucast (x :: u32)) = x"
proof (rule bit_word_eqI)
  fix n assume "n < LENGTH(32)"
  then consider "n < 8" | "8 \<le> n" "n < 16" | "16 \<le> n" "n < 24" | "24 \<le> n" "n < 32"
    by fastforce
  then show "bit (of_be32 (ucast (drop_bit 24 x)) (ucast (drop_bit 16 x)) (ucast (drop_bit 8 x)) (ucast x)) n = bit x n"
    by cases (auto simp: of_be32_def bit_simps)
qed

lemma of_be16_be16 [byte_simps]:
  "of_be16 (ucast (drop_bit 8 x)) (ucast (x :: u16)) = ucast x"
proof (rule bit_word_eqI)
  fix n assume "n < LENGTH(32)"
  then consider "n < 8" | "8 \<le> n" "n < 16" | "16 \<le> n" "n < 32"
    by fastforce
  then show "bit (of_be16 (ucast (drop_bit 8 x)) (ucast x)) n = bit (ucast x :: u32) n"
    by cases (auto simp: of_be16_def bit_simps dest: bit_imp_le_length)
qed

lemma of_be16_bound: "unat (of_be16 a b) < 65536"
proof -
  have "take_bit 16 (of_be16 a b) = of_be16 a b"
    by (rule bit_word_eqI) (auto simp: of_be16_def bit_simps dest: bit_imp_le_length)
  then have "unat (of_be16 a b) = take_bit 16 (unat (of_be16 a b))"
    by (metis unsigned_take_bit_eq)
  also have "\<dots> < 2 ^ 16" by (rule take_bit_nat_less_exp)
  finally show ?thesis by simp
qed

subsection \<open>Byte arrays\<close>

definition window :: "nat \<Rightarrow> nat \<Rightarrow> 'a list \<Rightarrow> 'a list" where
  "window off n xs = take n (drop off xs)"

definition patch :: "nat \<Rightarrow> 'a list \<Rightarrow> 'a list \<Rightarrow> 'a list" where
  "patch off bs xs = take off xs @ bs @ drop (off + length bs) xs"

lemma length_window [byte_simps]: "length (window off n xs) = min n (length xs - off)"
  by (simp add: window_def)

lemma length_patch [byte_simps]: "off + length bs \<le> length xs \<Longrightarrow> length (patch off bs xs) = length xs"
  by (simp add: patch_def)

lemma window_patch_same [byte_simps]:
  "off \<le> length xs \<Longrightarrow> window off (length bs) (patch off bs xs) = bs"
  by (simp add: window_def patch_def)

lemma window_patch_before [byte_simps]:
  "a + n \<le> off \<Longrightarrow> off \<le> length xs \<Longrightarrow> window a n (patch off bs xs) = window a n xs"
  by (simp add: window_def patch_def min_def take_drop)

lemma window_patch_after [byte_simps]:
  "off + length bs \<le> a \<Longrightarrow> off + length bs \<le> length xs \<Longrightarrow> window a n (patch off bs xs) = window a n xs"
  by (simp add: window_def patch_def)

lemma window_append [byte_simps]: "window a (m + n) xs = window a m xs @ window (a + m) n xs"
  by (simp add: window_def take_add add.commute)

lemma patch_Nil [simp]: "patch off [] xs = xs"
  by (simp add: patch_def)

lemma patch_append [byte_simps]:
  "off \<le> length xs \<Longrightarrow> patch off (as @ bs) xs = patch (off + length as) bs (patch off as xs)"
  by (simp add: patch_def ac_simps)

lemma nth_patch:
  "off + length bs \<le> length xs \<Longrightarrow> i < length xs \<Longrightarrow>
   patch off bs xs ! i = (if off \<le> i \<and> i < off + length bs then bs ! (i - off) else xs ! i)"
  by (auto simp: patch_def nth_append min_def)

lemma take_patch_zero [byte_simps]: "take (length bs) (patch 0 bs xs) = bs"
  by (simp add: patch_def)

subsection \<open>Counting down on words\<close>

lemma unat_minus_one_less: "(x :: 'a::len word) \<noteq> 0 \<Longrightarrow> unat (x - 1) < unat x"
  by (simp add: unat_minus_one unat_gt_0)

lemma unat_plus_no_wrap: "unat x + unat y < 2 ^ LENGTH('a) \<Longrightarrow> unat (x + y) = unat x + unat (y :: 'a::len word)"
  by (simp add: unat_word_ariths)

subsection \<open>Sizes passed as signed 32-bit integers\<close>

lemma sint_eq_unat: "unat (x :: u32) < 2147483648 \<Longrightarrow> sint x = int (unat x)"
proof -
  assume a: "unat x < 2147483648"
  have u: "uint x = int (unat x)" by simp
  have "uint x < 2147483648" using a unfolding u by linarith
  moreover have "- 2147483648 \<le> uint x" by (rule order_trans [of _ 0]) simp_all
  ultimately have "signed_take_bit 31 (uint x) = uint x"
    by (intro signed_take_bit_int_eq_self) simp_all
  moreover have "sint x = signed_take_bit 31 (uint x)" by (simp add: sint_uint)
  ultimately show ?thesis by (simp only: u)
qed

lemma uint_le_int_iff: "uint (x :: 'a::len word) \<le> int k \<longleftrightarrow> unat x \<le> k"
  by (metis of_nat_le_iff of_nat_unat)

lemma unat_of_nat_small: "n < 4294967296 \<Longrightarrow> unat (of_nat n :: u32) = n"
  by (simp add: unat_of_nat take_bit_nat_eq_self)

lemma sint_of_nat_small: "n < 2147483648 \<Longrightarrow> sint (of_nat n :: u32) = int n"
  by (simp add: unat_of_nat_small sint_eq_unat)

lemma unat_ucast_u8_small: "unat (x :: u32) < 256 \<Longrightarrow> unat (ucast x :: u8) = unat x"
  by (simp add: unsigned_ucast_eq take_bit_nat_eq_self)

lemma unat_u8_less: "unat (b :: u8) < 256"
  using unsigned_less [where 'a = nat, of b] by simp

lemma unat_ucast_up: "unat (ucast (b :: u8) :: u32) = unat b"
  using unat_u8_less [of b] by (simp add: unsigned_ucast_eq take_bit_nat_eq_self)

subsection \<open>Searching a list\<close>

lemma find_SomeD: "find P xs = Some x \<Longrightarrow> x \<in> set xs \<and> P x"
  by (induction xs) (auto split: if_splits)

lemma find_NoneD: "find P xs = None \<Longrightarrow> x \<in> set xs \<Longrightarrow> \<not> P x"
  by (induction xs) (auto split: if_splits)

end
