(* ===== verification/SCC.thy ===== *)
theory SCC
  imports Prelude
begin

section \<open>The serial controller and LocalTalk\<close>

text \<open>
  \<open>BasiliskII/scc.cpp\<close>: the registers of the Z8530 and the LocalTalk link layer behind
  channel B, which sends and receives frames as UDP datagrams. The network is the list
  \<open>inbox\<close> of datagrams not yet received and the list \<open>outbox\<close> of datagrams sent.
  \<open>lt_tx\<close> is the part of \<open>LT_TxBuffer\<close> in use, its length is \<open>LT_TxBuffSz\<close>.
  \<open>LT_RxBuffer\<close> points into \<open>MyRxBuffer\<close>, at \<open>MyCTSBuffer\<close> or nowhere.
  \<open>triggers\<close> counts the calls of \<open>TriggerInterrupt\<close>. Debug output is left out.
\<close>

datatype chan = ChA | ChB

record channel =
  TxEnable :: bool
  RxEnable :: bool
  TxIE :: bool
  TxUnderrun :: bool
  SyncHunt :: bool
  TxIP :: bool
  ExtIP :: bool
  RxBuff :: u32
  TxBufferEmpty :: bool
  ExtIE :: bool
  AddrSrchMd :: bool
  RxIntMode :: u32
  FirstChar :: bool
  SyncMode :: u32
  RxChrAvail :: bool
  EndOfFrame :: bool
  BreakAbort :: bool
  SendBreak :: bool
  BaudLo :: u32
  BaudHi :: u32
  WR15 :: u32

datatype rx_source = RxNone | RxPacket | RxCTS

record scc =
  ch :: "chan \<Rightarrow> channel"
  SCC_Interrupt_Type :: nat
  PointerBits :: u32
  InterruptVector :: u8
  MIE :: bool
  SCCInterruptRequest :: bool
  triggers :: nat
  scc_initialized :: bool
  ltoudp_active :: bool
  udp_ok :: bool
  lt_tx :: "u8 list"
  LT_RxBuffer :: rx_source
  LT_RxBuffSz :: nat
  rx_data_offset :: nat
  MyRxBuffer :: "u8 list"
  MyCTSBuffer :: "u8 list"
  LT_MyStamp :: u32
  LT_NodeHint :: u8
  CTSpacketPending :: bool
  CTSpacketRxDA :: u8
  CTSpacketRxSA :: u8
  my_node_address :: u8
  LTAddrSrchMd :: bool
  inbox :: "u8 list list"
  outbox :: "u8 list list"

definition SCC_A_Tx_Empty :: nat where "SCC_A_Tx_Empty = 6"
definition SCC_B_Rx :: nat where "SCC_B_Rx = 4"
definition SCC_B_Rx_Spec :: nat where "SCC_B_Rx_Spec = 3"
definition SCC_B_Tx_Empty :: nat where "SCC_B_Tx_Empty = 2"
definition SCC_B_Ext :: nat where "SCC_B_Ext = 1"

lemmas scc_types = SCC_A_Tx_Empty_def SCC_B_Rx_def SCC_B_Rx_Spec_def SCC_B_Tx_Empty_def SCC_B_Ext_def

definition LT_TxBfMxSz :: nat where "LT_TxBfMxSz = 1800"
definition RX_BUFFER_ALLOCATION :: nat where "RX_BUFFER_ALLOCATION = 1800"

definition upd_ch :: "chan \<Rightarrow> (channel \<Rightarrow> channel) \<Rightarrow> scc \<Rightarrow> scc" where
  "upd_ch c f s = s\<lparr>ch := (ch s)(c := f (ch s c))\<rparr>"

subsection \<open>Datagrams\<close>

definition LT_TransmitPacket :: "scc \<Rightarrow> scc" where
  "LT_TransmitPacket s = (if udp_ok s then s\<lparr>outbox := outbox s @ [be32 (LT_MyStamp s) @ lt_tx s]\<rparr> else s)"

definition pidInPacketIsMine :: "scc \<Rightarrow> bool" where
  "pidInPacketIsMine s = (take 4 (MyRxBuffer s) = be32 (LT_MyStamp s))"

text \<open>The number of bytes received (absent when there is no datagram) and the new buffer.\<close>

definition GetNextPacket :: "scc \<Rightarrow> nat option \<times> scc" where
  "GetNextPacket s =
     (if \<not> udp_ok s then (None, s)
      else (case inbox s of
              [] \<Rightarrow> (None, s)
            | p # ps \<Rightarrow>
                (let q = take RX_BUFFER_ALLOCATION p
                 in (Some (length q), s\<lparr>inbox := ps, MyRxBuffer := patch 0 q (MyRxBuffer s)\<rparr>))))"

lemma GetNextPacket_shrinks: "GetNextPacket s = (Some n, t) \<Longrightarrow> length (inbox t) < length (inbox s)"
  by (auto simp: GetNextPacket_def Let_def split: if_splits list.splits)

function LT_ReceivePacket :: "scc \<Rightarrow> scc" where
  "LT_ReceivePacket s =
     (case GetNextPacket s of
        (None, t) \<Rightarrow> t
      | (Some bytes, t) \<Rightarrow>
          if bytes = 0 then t
          else if pidInPacketIsMine t then LT_ReceivePacket t
          else if bytes \<ge> 4 then t\<lparr>LT_RxBuffer := RxPacket, LT_RxBuffSz := bytes - 4\<rparr>
          else t)"
  by pat_completeness auto
termination
  by (relation "measure (\<lambda>s. length (inbox s))") (auto dest: GetNextPacket_shrinks [OF sym])

declare LT_ReceivePacket.simps [simp del]

text \<open>The bytes behind \<open>LT_RxBuffer\<close>.\<close>

definition rx_bytes :: "scc \<Rightarrow> u8 list" where
  "rx_bytes s =
     (case LT_RxBuffer s of RxNone \<Rightarrow> [] | RxPacket \<Rightarrow> drop 4 (MyRxBuffer s) | RxCTS \<Rightarrow> MyCTSBuffer s)"

definition not_for_me :: "scc \<Rightarrow> bool" where
  "not_for_me s =
     (let dst = rx_bytes s ! 0
      in LTAddrSrchMd s \<and> my_node_address s \<noteq> 0 \<and> dst \<noteq> my_node_address s \<and> dst \<noteq> 0xFF)"

lemma LT_ReceivePacket_progress:
  "length (inbox (LT_ReceivePacket s)) < length (inbox s) \<or>
   inbox (LT_ReceivePacket s) = inbox s \<and> LT_RxBuffer (LT_ReceivePacket s) = LT_RxBuffer s"
proof (induction s rule: LT_ReceivePacket.induct)
  case (1 s)
  obtain r t where g: "GetNextPacket s = (r, t)" by force
  show ?case
  proof (cases r)
    case None
    then have "t = s" using g by (auto simp: GetNextPacket_def Let_def split: if_splits list.splits)
    then show ?thesis using g None by (simp add: LT_ReceivePacket.simps [of s])
  next
    case (Some n)
    then have l: "length (inbox t) < length (inbox s)" using g GetNextPacket_shrinks by simp
    show ?thesis
      using 1 [OF g [symmetric] Some] l g Some by (auto simp: LT_ReceivePacket.simps [of s])
  qed
qed

function GetNextPacketForMe :: "scc \<Rightarrow> scc" where
  "GetNextPacketForMe s =
     (let t = LT_ReceivePacket s
      in if LT_RxBuffer t \<noteq> RxNone \<and> not_for_me t
         then GetNextPacketForMe (t\<lparr>LT_RxBuffer := RxNone\<rparr>) else t)"
  by pat_completeness auto
termination
proof (relation "measure (\<lambda>s. 2 * length (inbox s) + (if LT_RxBuffer s = RxNone then 0 else 1))")
  fix s t
  assume t: "t = LT_ReceivePacket s" and n: "LT_RxBuffer t \<noteq> RxNone \<and> not_for_me t"
  show "(t\<lparr>LT_RxBuffer := RxNone\<rparr>, s) \<in> measure (\<lambda>s. 2 * length (inbox s) + (if LT_RxBuffer s = RxNone then 0 else 1))"
    using LT_ReceivePacket_progress [of s] n t by auto
qed simp

declare GetNextPacketForMe.simps [simp del]

definition GetCTSpacket :: "scc \<Rightarrow> scc" where
  "GetCTSpacket s =
     s\<lparr>MyCTSBuffer := patch 0 [CTSpacketRxDA s, CTSpacketRxSA s, 0x85] (MyCTSBuffer s),
       LT_RxBuffer := RxCTS, LT_RxBuffSz := 3, CTSpacketPending := False\<rparr>"

definition LT_ReceivePacket1 :: "scc \<Rightarrow> scc" where
  "LT_ReceivePacket1 s = (if CTSpacketPending s then GetCTSpacket s else GetNextPacketForMe s)"

subsection \<open>Interrupts\<close>

definition CheckSCCInterruptFlag :: "scc \<Rightarrow> scc" where
  "CheckSCCInterruptFlag s =
     (let a = ch s ChA; b = ch s ChB; mode = RxIntMode b;
          ReceiveB = (if mode = 1 then RxChrAvail b \<and> FirstChar b else if mode = 2 then RxChrAvail b else False);
          RxSpclB = (EndOfFrame b \<and> mode \<noteq> 0);
          ExtB = (ExtIE b \<and> ExtIP b);
          ty = (if \<not> MIE s then 0
                else if TxIP a \<and> TxIE a then SCC_A_Tx_Empty
                else if ReceiveB then SCC_B_Rx
                else if RxSpclB then SCC_B_Rx_Spec
                else if TxIP b \<and> TxIE b then SCC_B_Tx_Empty
                else if ExtB then SCC_B_Ext else 0);
          req = (ty \<noteq> 0)
      in if req \<noteq> SCCInterruptRequest s \<or> SCC_Interrupt_Type s \<noteq> ty
         then s\<lparr>SCC_Interrupt_Type := ty, SCCInterruptRequest := req, triggers := Suc (triggers s)\<rparr>
         else s\<lparr>SCC_Interrupt_Type := ty\<rparr>)"

subsection \<open>Receiving\<close>

definition rx_complete :: "scc \<Rightarrow> scc" where
  "rx_complete s =
     upd_ch ChB (\<lambda>b. b\<lparr>EndOfFrame := True, SyncHunt := True, RxChrAvail := False, RxBuff := 0x7E\<rparr>)
       (s\<lparr>LT_RxBuffer := RxNone, LT_RxBuffSz := 0, rx_data_offset := 0\<rparr>)"

definition SCC_RxBuffAdvance :: "scc \<Rightarrow> scc" where
  "SCC_RxBuffAdvance s =
     (let next = (\<lambda>t. t\<lparr>rx_data_offset := Suc (rx_data_offset t)\<rparr>)
      in if LT_RxBuffer s = RxNone then upd_ch ChB (\<lambda>b. b\<lparr>RxBuff := 0x7E, RxChrAvail := False\<rparr>) s
         else if rx_data_offset s < LT_RxBuffSz s
         then next (upd_ch ChB (\<lambda>b. b\<lparr>RxBuff := ucast (rx_bytes s ! rx_data_offset s), RxChrAvail := True\<rparr>) s)
         else if rx_data_offset s = LT_RxBuffSz s
         then next (upd_ch ChB (\<lambda>b. b\<lparr>RxBuff := 0, RxChrAvail := True\<rparr>) s)
         else if rx_data_offset s = Suc (LT_RxBuffSz s)
         then next (upd_ch ChB (\<lambda>b. b\<lparr>RxBuff := 0, RxChrAvail := True, EndOfFrame := True, SyncHunt := True\<rparr>) s)
         else rx_complete s)"

definition start_frame :: "scc \<Rightarrow> scc" where
  "start_frame s =
     SCC_RxBuffAdvance
       (upd_ch ChB (\<lambda>b. b\<lparr>EndOfFrame := False, RxChrAvail := True, FirstChar := True\<rparr>) (s\<lparr>rx_data_offset := 0\<rparr>))"

definition LocalTalkTick :: "scc \<Rightarrow> scc" where
  "LocalTalkTick s =
     (if ltoudp_active s \<and> RxEnable (ch s ChB) \<and> \<not> RxChrAvail (ch s ChB)
      then (let t = (if LT_RxBuffer s = RxNone then LT_ReceivePacket1 s else s)
            in if LT_RxBuffer t \<noteq> RxNone then CheckSCCInterruptFlag (start_frame t) else t)
      else s)"

subsection \<open>Transmitting\<close>

text \<open>An RTS is answered at once by a CTS of its own; a CTS never goes to the network.\<close>

definition fake_CTS :: "u8 \<Rightarrow> u8 \<Rightarrow> scc \<Rightarrow> scc" where
  "fake_CTS dst src s =
     (let s1 = s\<lparr>CTSpacketRxDA := src, CTSpacketRxSA := dst, CTSpacketPending := True\<rparr>
      in if RxEnable (ch s1 ChB)
         then CheckSCCInterruptFlag
                (start_frame (upd_ch ChB (\<lambda>b. b\<lparr>SyncHunt := False\<rparr>) (GetCTSpacket s1)))
         else s1)"

definition LT_TransmitPacket1 :: "scc \<Rightarrow> scc" where
  "LT_TransmitPacket1 s =
     (let dst = lt_tx s ! 0; src = lt_tx s ! 1; type = lt_tx s ! 2;
          s1 = (if src \<noteq> 0 \<and> src \<noteq> 0xFF then s\<lparr>my_node_address := src\<rparr> else s);
          s2 = (if length (lt_tx s) < 3 then s
                else if type < 0x80 then LT_TransmitPacket s1
                else if type = 0x84 then fake_CTS dst src s1
                else if type = 0x85 then s1
                else LT_TransmitPacket s1)
      in s2\<lparr>lt_tx := []\<rparr>)"

definition ddp_length :: "u8 list \<Rightarrow> nat" where
  "ddp_length p = unat (p ! 3 AND 3) * 256 + unat (p ! 4)"

definition expected_length :: "u8 list \<Rightarrow> nat option" where
  "expected_length p =
     (if length p < 3 then None
      else if p ! 2 \<ge> 0x80 then Some 3
      else if length p < 5 then None
      else if ddp_length p = 0 \<or> ddp_length p > 600 then None
      else Some (3 + ddp_length p))"

definition try_extract_tx_packets :: "scc \<Rightarrow> scc" where
  "try_extract_tx_packets s =
     (case expected_length (lt_tx s) of
        None \<Rightarrow> s
      | Some n \<Rightarrow> if n \<le> length (lt_tx s) then LT_TransmitPacket1 s else s)"

definition SCC_TxBuffPut :: "u32 \<Rightarrow> scc \<Rightarrow> scc" where
  "SCC_TxBuffPut d s =
     try_extract_tx_packets
       (if length (lt_tx s) < LT_TxBfMxSz then s\<lparr>lt_tx := lt_tx s @ [ucast d]\<rparr> else s)"

subsection \<open>Resets\<close>

definition SCC_InitChannel :: "chan \<Rightarrow> scc \<Rightarrow> scc" where
  "SCC_InitChannel c =
     upd_ch c (\<lambda>x. x\<lparr>SyncHunt := True, BaudLo := 0, BaudHi := 0, WR15 := 0, RxIntMode := 0, RxEnable := False,
                     TxEnable := False, TxIP := False, TxIE := False, ExtIE := False, ExtIP := False,
                     BreakAbort := False, SendBreak := False\<rparr>)"

definition SCC_ResetChannel :: "chan \<Rightarrow> scc \<Rightarrow> scc" where
  "SCC_ResetChannel c s =
     (let t = upd_ch c (\<lambda>x. x\<lparr>RxBuff := 0, RxChrAvail := False, TxBufferEmpty := True, TxUnderrun := True,
                              TxIP := False, TxIE := False, RxIntMode := 0, RxEnable := False, TxEnable := False,
                              EndOfFrame := False, ExtIE := False, ExtIP := False, FirstChar := True,
                              BreakAbort := False, SendBreak := False\<rparr>) s
      in if c = ChB
         then t\<lparr>LT_RxBuffer := RxNone, LT_RxBuffSz := 0, rx_data_offset := 0, CTSpacketPending := False\<rparr>
         else t)"

definition SCC_Reset :: "scc \<Rightarrow> scc" where
  "SCC_Reset s =
     SCC_ResetChannel ChA (SCC_ResetChannel ChB (SCC_InitChannel ChA (SCC_InitChannel ChB
       (s\<lparr>PointerBits := 0, MIE := False, InterruptVector := 0, SCCInterruptRequest := False\<rparr>))))"

subsection \<open>Read registers\<close>

definition flag :: "bool \<Rightarrow> u32 \<Rightarrow> u32" where
  "flag b v = (if b then v else 0)"

definition SCC_GetRR0 :: "chan \<Rightarrow> scc \<Rightarrow> u32 \<times> scc" where
  "SCC_GetRR0 c s0 =
     (let s = (if c = ChB then LocalTalkTick s0 else s0); x = ch s c
      in (flag (BreakAbort x) 0x80 OR flag (TxUnderrun x) 0x40 OR 0x20 OR flag (SyncHunt x) 0x10 OR 0x08 OR
          flag (TxBufferEmpty x) 0x04 OR flag (RxChrAvail x) 0x01, s))"

definition SCC_GetRR1 :: "chan \<Rightarrow> scc \<Rightarrow> u32" where
  "SCC_GetRR1 c s = 1 OR flag (EndOfFrame (ch s c)) 0x80"

text \<open>Reading the vector of channel B acknowledges the interrupt it reports.\<close>

definition rr2_code :: "nat \<Rightarrow> u32" where
  "rr2_code ty =
     (if ty = 7 then 14 else if ty = 8 then 12 else if ty = 5 then 10 else if ty = SCC_A_Tx_Empty then 8
      else if ty = SCC_B_Rx_Spec then 6 else if ty = SCC_B_Rx then 4 else if ty = SCC_B_Ext then 2
      else if ty = SCC_B_Tx_Empty then 0 else 6)"

definition acknowledge :: "nat \<Rightarrow> channel \<Rightarrow> channel" where
  "acknowledge ty b =
     (if ty = SCC_B_Rx_Spec then b\<lparr>EndOfFrame := False\<rparr>
      else if ty = SCC_B_Rx then b\<lparr>FirstChar := False\<rparr>
      else if ty = SCC_B_Ext then b\<lparr>ExtIP := False\<rparr>
      else if ty = SCC_B_Tx_Empty then b\<lparr>TxIP := False\<rparr> else b)"

definition SCC_GetRR2 :: "chan \<Rightarrow> scc \<Rightarrow> u32 \<times> scc" where
  "SCC_GetRR2 c s =
     (if c = ChA then (ucast (InterruptVector s), s)
      else (ucast (InterruptVector s AND 0xF0) OR rr2_code (SCC_Interrupt_Type s),
            CheckSCCInterruptFlag (upd_ch ChB (acknowledge (SCC_Interrupt_Type s)) s)))"

definition SCC_GetRR3 :: "chan \<Rightarrow> scc \<Rightarrow> u32" where
  "SCC_GetRR3 c s =
     (let a = ch s ChA; b = ch s ChB
      in if c = ChA
         then flag (RxChrAvail a) 0x20 OR flag (TxIP a \<and> TxIE a) 0x10 OR flag (ExtIP a \<and> ExtIE a) 0x08 OR
              flag (RxChrAvail b) 0x04 OR flag (TxIP b \<and> TxIE b) 0x02 OR flag (ExtIP b \<and> ExtIE b) 0x01
         else 0)"

definition SCC_GetRR8 :: "chan \<Rightarrow> scc \<Rightarrow> u32 \<times> scc" where
  "SCC_GetRR8 c s =
     (if RxEnable (ch s c)
      then (if c = ChB
            then (RxBuff (ch s ChB), SCC_RxBuffAdvance (upd_ch ChB (\<lambda>b. b\<lparr>FirstChar := False\<rparr>) s))
            else (0x7E, s))
      else (0, s))"

definition SCC_GetReg :: "chan \<Rightarrow> u32 \<Rightarrow> scc \<Rightarrow> u32 \<times> scc" where
  "SCC_GetReg c r s =
     (let (v, t) =
        (if r = 0 then SCC_GetRR0 c s
         else if r = 1 then (SCC_GetRR1 c s, s)
         else if r = 2 then SCC_GetRR2 c s
         else if r = 3 then (SCC_GetRR3 c s, s)
         else if r = 8 then SCC_GetRR8 c s
         else if r = 10 then (0, s)
         else if r = 12 then (BaudLo (ch s c), s)
         else if r = 13 then (BaudHi (ch s c), s)
         else if r = 15 then (WR15 (ch s c), s)
         else (0, s))
      in (v, CheckSCCInterruptFlag t))"

subsection \<open>Write registers\<close>

definition forget_packet :: "scc \<Rightarrow> scc" where
  "forget_packet s = s\<lparr>LT_RxBuffer := RxNone, LT_RxBuffSz := 0, rx_data_offset := 0\<rparr>"

definition wr0_command :: "u32 \<Rightarrow> chan \<Rightarrow> scc \<Rightarrow> scc" where
  "wr0_command cmd c s =
     (if cmd = 1 then s\<lparr>PointerBits := PointerBits s OR 8\<rparr>
      else if cmd = 2 then
        CheckSCCInterruptFlag
          (upd_ch c (\<lambda>x. x\<lparr>SyncHunt := False, EndOfFrame := False, ExtIP := False,
                          BreakAbort := (if SendBreak x then BreakAbort x else False)\<rparr>) s)
      else if cmd = 3 then upd_ch c (\<lambda>x. x\<lparr>BreakAbort := True, TxBufferEmpty := True\<rparr>) s
      else if cmd = 4 then
        (let s1 = upd_ch c (\<lambda>x. x\<lparr>FirstChar := True, SyncHunt := True\<rparr>) s;
             s2 = (if c = ChB \<and> LT_RxBuffer s1 \<noteq> RxNone
                   then upd_ch ChB (\<lambda>b. b\<lparr>RxChrAvail := False, RxBuff := 0x7E, EndOfFrame := False\<rparr>) (forget_packet s1)
                   else s1)
         in LocalTalkTick s2)
      else if cmd = 5 then CheckSCCInterruptFlag (upd_ch c (\<lambda>x. x\<lparr>TxIP := False\<rparr>) s)
      else if cmd = 6 then CheckSCCInterruptFlag (upd_ch c (\<lambda>x. x\<lparr>EndOfFrame := False\<rparr>) s)
      else s)"

definition SCC_PutWR0 :: "u32 \<Rightarrow> chan \<Rightarrow> scc \<Rightarrow> scc" where
  "SCC_PutWR0 d c s =
     (let s1 = (if drop_bit 6 d AND 3 = 3 \<and> c = ChB then LT_TransmitPacket1 s else s)
      in wr0_command (drop_bit 3 d AND 7) c (s1\<lparr>PointerBits := d AND 7\<rparr>))"

definition SCC_PutWR1 :: "u32 \<Rightarrow> chan \<Rightarrow> scc \<Rightarrow> scc" where
  "SCC_PutWR1 d c =
     upd_ch c (\<lambda>x. x\<lparr>ExtIE := d AND 1 \<noteq> 0, TxIE := d AND 2 \<noteq> 0, RxIntMode := drop_bit 3 d AND 3,
                     FirstChar := (if drop_bit 3 d AND 3 = 1 then True else FirstChar x)\<rparr>)"

definition SCC_PutWR2 :: "u32 \<Rightarrow> scc \<Rightarrow> scc" where
  "SCC_PutWR2 d s = s\<lparr>InterruptVector := ucast d\<rparr>"

definition SCC_PutWR3 :: "u32 \<Rightarrow> chan \<Rightarrow> scc \<Rightarrow> scc" where
  "SCC_PutWR3 d c s =
     (let s1 = upd_ch c (\<lambda>x. x\<lparr>RxEnable := d AND 1 \<noteq> 0, AddrSrchMd := d AND 4 \<noteq> 0\<rparr>) s;
          s2 = (if d AND 16 \<noteq> 0
                then upd_ch c (\<lambda>x. x\<lparr>SyncHunt := True,
                                    EndOfFrame := (if c = ChB \<and> LT_RxBuffer s1 = RxNone then False else EndOfFrame x)\<rparr>) s1
                else s1)
      in if c = ChA then s2
         else (let s3 = s2\<lparr>LTAddrSrchMd := AddrSrchMd (ch s2 ChB)\<rparr>
               in if d AND 1 = 0
                  then forget_packet (upd_ch ChB (\<lambda>b. b\<lparr>EndOfFrame := False, RxChrAvail := False, SyncHunt := True\<rparr>) s3)
                  else LocalTalkTick s3))"

definition SCC_PutWR4 :: "u32 \<Rightarrow> chan \<Rightarrow> scc \<Rightarrow> scc" where
  "SCC_PutWR4 d c = upd_ch c (\<lambda>x. x\<lparr>SyncMode := drop_bit 4 d AND 3\<rparr>)"

definition SCC_PutWR5 :: "u32 \<Rightarrow> chan \<Rightarrow> scc \<Rightarrow> scc" where
  "SCC_PutWR5 d c s =
     (let t = upd_ch c (\<lambda>x. x\<lparr>TxEnable := d AND 8 \<noteq> 0, SendBreak := d AND 16 \<noteq> 0, BreakAbort := d AND 16 \<noteq> 0\<rparr>) s
      in if d AND 8 = 0 \<and> c = ChB \<and> length (lt_tx t) \<ge> 3 then LT_TransmitPacket1 t else t)"

definition SCC_PutWR6 :: "u32 \<Rightarrow> chan \<Rightarrow> scc \<Rightarrow> scc" where
  "SCC_PutWR6 d c s = (if SyncMode (ch s c) = 2 \<and> c = ChB then s\<lparr>my_node_address := ucast d\<rparr> else s)"

definition SCC_PutWR8 :: "u32 \<Rightarrow> chan \<Rightarrow> scc \<Rightarrow> scc" where
  "SCC_PutWR8 d c s =
     CheckSCCInterruptFlag
       (upd_ch c (\<lambda>x. x\<lparr>TxIP := True, TxBufferEmpty := True\<rparr>) (if c = ChB then SCC_TxBuffPut d s else s))"

definition SCC_PutWR9 :: "u32 \<Rightarrow> scc \<Rightarrow> scc" where
  "SCC_PutWR9 d s =
     (let m = drop_bit 6 d AND 3;
          t = (if m = 1 then SCC_ResetChannel ChB s else if m = 2 then SCC_ResetChannel ChA s
               else if m = 3 then SCC_Reset s else s)
      in CheckSCCInterruptFlag (t\<lparr>MIE := d AND 8 \<noteq> 0\<rparr>))"

definition SCC_PutReg :: "u32 \<Rightarrow> chan \<Rightarrow> u32 \<Rightarrow> scc \<Rightarrow> scc" where
  "SCC_PutReg d c r s =
     CheckSCCInterruptFlag
       (if r = 0 then SCC_PutWR0 d c s
        else if r = 1 then SCC_PutWR1 d c s
        else if r = 2 then SCC_PutWR2 d s
        else if r = 3 then SCC_PutWR3 d c s
        else if r = 4 then SCC_PutWR4 d c s
        else if r = 5 then SCC_PutWR5 d c s
        else if r = 6 then SCC_PutWR6 d c s
        else if r = 8 then SCC_PutWR8 d c s
        else if r = 9 then SCC_PutWR9 d s
        else if r = 12 then upd_ch c (\<lambda>x. x\<lparr>BaudLo := d\<rparr>) s
        else if r = 13 then upd_ch c (\<lambda>x. x\<lparr>BaudHi := d\<rparr>) s
        else if r = 15 then upd_ch c (\<lambda>x. x\<lparr>WR15 := d\<rparr>) s
        else s)"

subsection \<open>Access from the guest\<close>

definition SCC_Access :: "u32 \<Rightarrow> bool \<Rightarrow> u32 \<Rightarrow> scc \<Rightarrow> u32 \<times> scc" where
  "SCC_Access d wr addr s =
     (let c = (if NOT addr AND 1 = 0 then ChA else ChB);
          is_data = (drop_bit 1 addr AND 1 \<noteq> 0);
          r = (if is_data then 8 else PointerBits s);
          s1 = (if is_data then s else s\<lparr>PointerBits := 0\<rparr>)
      in if wr then (d, SCC_PutReg d c r s1) else SCC_GetReg c r s1)"

definition scc_bget :: "u32 \<Rightarrow> scc \<Rightarrow> u32 \<times> scc" where
  "scc_bget addr s = SCC_Access 0 False (drop_bit 1 addr AND 3) s"

definition scc_bput :: "u32 \<Rightarrow> u32 \<Rightarrow> scc \<Rightarrow> scc" where
  "scc_bput addr b s = snd (SCC_Access (b AND 0xFF) True (drop_bit 1 addr AND 3) s)"

definition SCC_InterruptsEnabled :: "scc \<Rightarrow> bool" where
  "SCC_InterruptsEnabled = MIE"

text \<open>
  Start and end. The random stamp and node hint, the block from \<open>malloc\<close> (if any) and
  whether the socket could be opened are arguments.
\<close>

definition InitLocalTalk :: "u32 \<Rightarrow> u8 \<Rightarrow> u8 list option \<Rightarrow> bool \<Rightarrow> scc \<Rightarrow> bool \<times> scc" where
  "InitLocalTalk stamp hint block sock s =
     (let s1 = s\<lparr>LT_MyStamp := stamp, LT_NodeHint := hint, lt_tx := [], LT_RxBuffer := RxNone, LT_RxBuffSz := 0\<rparr>;
          s2 = (if MyRxBuffer s1 = [] then s1\<lparr>MyRxBuffer := (case block of None \<Rightarrow> [] | Some b \<Rightarrow> b)\<rparr> else s1)
      in if MyRxBuffer s2 = [] then (False, s2)
         else (let s3 = (if sock then s2\<lparr>udp_ok := True\<rparr> else s2) in (udp_ok s3, s3)))"

definition SCCInit :: "bool \<Rightarrow> u32 \<Rightarrow> u8 \<Rightarrow> u8 list option \<Rightarrow> bool \<Rightarrow> scc \<Rightarrow> scc" where
  "SCCInit ltoudp_pref stamp hint block sock s =
     (if ltoudp_pref
      then (let (ok, s1) = InitLocalTalk stamp hint block sock s
            in (SCC_Reset (s1\<lparr>ltoudp_active := ok\<rparr>))\<lparr>scc_initialized := True\<rparr>)
      else s)"

definition SCCExit :: "scc \<Rightarrow> scc" where
  "SCCExit s =
     (if scc_initialized s
      then (let s1 = (if ltoudp_active s then s\<lparr>udp_ok := False, MyRxBuffer := [], ltoudp_active := False\<rparr> else s)
            in s1\<lparr>scc_initialized := False\<rparr>)
      else s)"

end
