(* ===== verification/SCC_Facts.thy ===== *)
theory SCC_Facts
  imports SCC
begin

section \<open>Facts about the serial controller\<close>

text \<open>
  The interrupt the chip reports is the first pending one of a fixed order; the events of the
  chip (accesses of the guest, ticks, arriving datagrams) keep an invariant that bounds the
  transmit buffer and the receive pointer; frames pass through it byte for byte.
\<close>

subsection \<open>What the interrupt logic leaves alone\<close>

lemma Check_fields [simp]:
  "ch (CheckSCCInterruptFlag s) = ch s"
  "MIE (CheckSCCInterruptFlag s) = MIE s"
  "PointerBits (CheckSCCInterruptFlag s) = PointerBits s"
  "lt_tx (CheckSCCInterruptFlag s) = lt_tx s"
  "LT_RxBuffer (CheckSCCInterruptFlag s) = LT_RxBuffer s"
  "LT_RxBuffSz (CheckSCCInterruptFlag s) = LT_RxBuffSz s"
  "rx_data_offset (CheckSCCInterruptFlag s) = rx_data_offset s"
  "MyRxBuffer (CheckSCCInterruptFlag s) = MyRxBuffer s"
  "MyCTSBuffer (CheckSCCInterruptFlag s) = MyCTSBuffer s"
  "LT_MyStamp (CheckSCCInterruptFlag s) = LT_MyStamp s"
  "udp_ok (CheckSCCInterruptFlag s) = udp_ok s"
  "ltoudp_active (CheckSCCInterruptFlag s) = ltoudp_active s"
  "inbox (CheckSCCInterruptFlag s) = inbox s"
  "outbox (CheckSCCInterruptFlag s) = outbox s"
  "CTSpacketPending (CheckSCCInterruptFlag s) = CTSpacketPending s"
  "CTSpacketRxDA (CheckSCCInterruptFlag s) = CTSpacketRxDA s"
  "CTSpacketRxSA (CheckSCCInterruptFlag s) = CTSpacketRxSA s"
  "my_node_address (CheckSCCInterruptFlag s) = my_node_address s"
  "LTAddrSrchMd (CheckSCCInterruptFlag s) = LTAddrSrchMd s"
  "InterruptVector (CheckSCCInterruptFlag s) = InterruptVector s"
  by (simp_all add: CheckSCCInterruptFlag_def Let_def)

lemma Check_pointer: "CheckSCCInterruptFlag (s\<lparr>PointerBits := p\<rparr>) = (CheckSCCInterruptFlag s)\<lparr>PointerBits := p\<rparr>"
  by (simp add: CheckSCCInterruptFlag_def Let_def)

lemma upd_ch_fields [simp]:
  "ch (upd_ch c f s) = (ch s)(c := f (ch s c))"
  "MIE (upd_ch c f s) = MIE s"
  "PointerBits (upd_ch c f s) = PointerBits s"
  "lt_tx (upd_ch c f s) = lt_tx s"
  "LT_RxBuffer (upd_ch c f s) = LT_RxBuffer s"
  "LT_RxBuffSz (upd_ch c f s) = LT_RxBuffSz s"
  "rx_data_offset (upd_ch c f s) = rx_data_offset s"
  "MyRxBuffer (upd_ch c f s) = MyRxBuffer s"
  "MyCTSBuffer (upd_ch c f s) = MyCTSBuffer s"
  "LT_MyStamp (upd_ch c f s) = LT_MyStamp s"
  "udp_ok (upd_ch c f s) = udp_ok s"
  "ltoudp_active (upd_ch c f s) = ltoudp_active s"
  "inbox (upd_ch c f s) = inbox s"
  "outbox (upd_ch c f s) = outbox s"
  "CTSpacketPending (upd_ch c f s) = CTSpacketPending s"
  "CTSpacketRxDA (upd_ch c f s) = CTSpacketRxDA s"
  "CTSpacketRxSA (upd_ch c f s) = CTSpacketRxSA s"
  "my_node_address (upd_ch c f s) = my_node_address s"
  "LTAddrSrchMd (upd_ch c f s) = LTAddrSrchMd s"
  "SCC_Interrupt_Type (upd_ch c f s) = SCC_Interrupt_Type s"
  "SCCInterruptRequest (upd_ch c f s) = SCCInterruptRequest s"
  "InterruptVector (upd_ch c f s) = InterruptVector s"
  by (simp_all add: upd_ch_def)

subsection \<open>The pending interrupt\<close>

text \<open>The specification: the conditions of the chip in the order of their priority.\<close>

definition rx_char_irq :: "channel \<Rightarrow> bool" where
  "rx_char_irq b = (RxChrAvail b \<and> (RxIntMode b = 1 \<and> FirstChar b \<or> RxIntMode b = 2))"

definition irq_sources :: "scc \<Rightarrow> (nat \<times> bool) list" where
  "irq_sources s =
     [(SCC_A_Tx_Empty, TxIP (ch s ChA) \<and> TxIE (ch s ChA)),
      (SCC_B_Rx, rx_char_irq (ch s ChB)),
      (SCC_B_Rx_Spec, EndOfFrame (ch s ChB) \<and> RxIntMode (ch s ChB) \<noteq> 0),
      (SCC_B_Tx_Empty, TxIP (ch s ChB) \<and> TxIE (ch s ChB)),
      (SCC_B_Ext, ExtIP (ch s ChB) \<and> ExtIE (ch s ChB))]"

definition pending_irq :: "scc \<Rightarrow> nat" where
  "pending_irq s = (if MIE s then case find snd (irq_sources s) of None \<Rightarrow> 0 | Some (ty, _) \<Rightarrow> ty else 0)"

definition irq_ok :: "scc \<Rightarrow> bool" where
  "irq_ok s \<longleftrightarrow> SCC_Interrupt_Type s = pending_irq s \<and> SCCInterruptRequest s = (pending_irq s \<noteq> 0)"

lemma Check_irq_ok: "irq_ok (CheckSCCInterruptFlag s)"
proof -
  have e: "pending_irq (CheckSCCInterruptFlag s) = pending_irq s" by (simp add: pending_irq_def irq_sources_def)
  show ?thesis
    unfolding irq_ok_def e
    by (auto simp: CheckSCCInterruptFlag_def Let_def pending_irq_def irq_sources_def rx_char_irq_def scc_types)
qed

lemma irq_ok_cong:
  "irq_ok s \<Longrightarrow> ch t = ch s \<Longrightarrow> MIE t = MIE s \<Longrightarrow> SCC_Interrupt_Type t = SCC_Interrupt_Type s \<Longrightarrow>
   SCCInterruptRequest t = SCCInterruptRequest s \<Longrightarrow> irq_ok t"
  by (simp add: irq_ok_def pending_irq_def irq_sources_def)

lemma GetReg_irq_ok: "irq_ok (snd (SCC_GetReg c r s))"
  by (simp add: SCC_GetReg_def Check_irq_ok split_beta)

lemma Access_irq_ok: "irq_ok (snd (SCC_Access d w a s))"
  by (simp add: SCC_Access_def Let_def SCC_PutReg_def Check_irq_ok GetReg_irq_ok)

lemma Receive_keeps:
  "ch (LT_ReceivePacket s) = ch s \<and> MIE (LT_ReceivePacket s) = MIE s \<and>
   SCC_Interrupt_Type (LT_ReceivePacket s) = SCC_Interrupt_Type s \<and>
   SCCInterruptRequest (LT_ReceivePacket s) = SCCInterruptRequest s"
proof (induction s rule: LT_ReceivePacket.induct)
  case (1 s)
  obtain r t where g: "GetNextPacket s = (r, t)" by force
  have k: "ch t = ch s" "MIE t = MIE s" "SCC_Interrupt_Type t = SCC_Interrupt_Type s"
    "SCCInterruptRequest t = SCCInterruptRequest s"
    using g by (auto simp: GetNextPacket_def Let_def split: if_splits list.splits)
  then show ?case
    using 1 [OF g [symmetric]] g by (cases r) (auto simp: LT_ReceivePacket.simps [of s])
qed

lemma GetNext_unfold: "GetNextPacketForMe s =
   (if LT_RxBuffer (LT_ReceivePacket s) \<noteq> RxNone \<and> not_for_me (LT_ReceivePacket s)
    then GetNextPacketForMe ((LT_ReceivePacket s)\<lparr>LT_RxBuffer := RxNone\<rparr>) else LT_ReceivePacket s)"
  by (subst GetNextPacketForMe.simps) (simp add: Let_def)

lemma GetNext_keeps:
  "ch (GetNextPacketForMe s) = ch s \<and> MIE (GetNextPacketForMe s) = MIE s \<and>
   SCC_Interrupt_Type (GetNextPacketForMe s) = SCC_Interrupt_Type s \<and>
   SCCInterruptRequest (GetNextPacketForMe s) = SCCInterruptRequest s"
proof (induction s rule: GetNextPacketForMe.induct)
  case (1 s)
  show ?case using 1 [OF refl] Receive_keeps [of s] by (subst (1 2 3 4) GetNext_unfold) auto
qed

lemma Receive1_keeps:
  "ch (LT_ReceivePacket1 s) = ch s \<and> MIE (LT_ReceivePacket1 s) = MIE s \<and>
   SCC_Interrupt_Type (LT_ReceivePacket1 s) = SCC_Interrupt_Type s \<and>
   SCCInterruptRequest (LT_ReceivePacket1 s) = SCCInterruptRequest s"
  using GetNext_keeps [of s] by (simp add: LT_ReceivePacket1_def GetCTSpacket_def)

lemma Tick_irq_ok:
  assumes "irq_ok s"
  shows "irq_ok (LocalTalkTick s)"
  using Receive1_keeps [of s] assms
  by (auto simp: LocalTalkTick_def Let_def Check_irq_ok intro: irq_ok_cong)

subsection \<open>The events of the chip and its invariant\<close>

datatype scc_event = Access u32 bool u32 | Tick | Arrive "u8 list"

fun scc_step :: "scc_event \<Rightarrow> scc \<Rightarrow> scc" where
  "scc_step (Access d w a) s = snd (SCC_Access d w a s)"
| "scc_step Tick s = LocalTalkTick s"
| "scc_step (Arrive p) s = s\<lparr>inbox := inbox s @ [p]\<rparr>"

definition scc_run :: "scc_event list \<Rightarrow> scc \<Rightarrow> scc" where
  "scc_run es s = fold scc_step es s"

lemma run_irq_ok: "irq_ok s \<Longrightarrow> irq_ok (scc_run es s)"
proof (induction es arbitrary: s)
  case (Cons e es)
  have "irq_ok (scc_step e s)"
    using Cons.prems by (cases e) (auto simp: Access_irq_ok Tick_irq_ok intro: irq_ok_cong)
  then show ?case using Cons.IH by (simp add: scc_run_def)
qed (simp add: scc_run_def)

text \<open>The buffers are as large as their indices need.\<close>

definition rx_room :: "scc \<Rightarrow> bool" where
  "rx_room s \<longleftrightarrow> length (MyCTSBuffer s) = 4 \<and> (udp_ok s \<longrightarrow> length (MyRxBuffer s) = RX_BUFFER_ALLOCATION) \<and>
     (LT_RxBuffer s \<noteq> RxNone \<longrightarrow> LT_RxBuffSz s \<le> length (rx_bytes s)) \<and> length (lt_tx s) \<le> LT_TxBfMxSz"

definition scc_inv :: "scc \<Rightarrow> bool" where
  "scc_inv s \<longleftrightarrow> rx_room s \<and> (LT_RxBuffer s \<noteq> RxNone \<longrightarrow> rx_data_offset s \<le> LT_RxBuffSz s + 2) \<and>
     PointerBits s < 16"

lemma rx_bytes_cong:
  "LT_RxBuffer t = LT_RxBuffer s \<Longrightarrow> MyRxBuffer t = MyRxBuffer s \<Longrightarrow> MyCTSBuffer t = MyCTSBuffer s \<Longrightarrow>
   rx_bytes t = rx_bytes s"
  by (simp add: rx_bytes_def split: rx_source.splits)

lemma rx_bytes_same [simp]:
  "rx_bytes (upd_ch c f s) = rx_bytes s" "rx_bytes (s\<lparr>rx_data_offset := n\<rparr>) = rx_bytes s"
  "rx_bytes (CheckSCCInterruptFlag s) = rx_bytes s"
  by (rule rx_bytes_cong; simp)+

lemma rx_room_cong:
  "rx_room s \<Longrightarrow> MyCTSBuffer t = MyCTSBuffer s \<Longrightarrow> MyRxBuffer t = MyRxBuffer s \<Longrightarrow> udp_ok t = udp_ok s \<Longrightarrow>
   LT_RxBuffer t = LT_RxBuffer s \<Longrightarrow> LT_RxBuffSz t = LT_RxBuffSz s \<Longrightarrow> lt_tx t = lt_tx s \<Longrightarrow> rx_room t"
  using rx_bytes_cong [of t s] by (simp add: rx_room_def)

lemma scc_inv_cong:
  "scc_inv s \<Longrightarrow> MyCTSBuffer t = MyCTSBuffer s \<Longrightarrow> MyRxBuffer t = MyRxBuffer s \<Longrightarrow> udp_ok t = udp_ok s \<Longrightarrow>
   LT_RxBuffer t = LT_RxBuffer s \<Longrightarrow> LT_RxBuffSz t = LT_RxBuffSz s \<Longrightarrow> rx_data_offset t = rx_data_offset s \<Longrightarrow>
   length (lt_tx t) \<le> LT_TxBfMxSz \<Longrightarrow> PointerBits t < 16 \<Longrightarrow> scc_inv t"
  using rx_bytes_cong [of t s] by (simp add: scc_inv_def rx_room_def)

lemma scc_inv_same:
  "scc_inv s \<Longrightarrow> MyCTSBuffer t = MyCTSBuffer s \<Longrightarrow> MyRxBuffer t = MyRxBuffer s \<Longrightarrow> udp_ok t = udp_ok s \<Longrightarrow>
   LT_RxBuffer t = LT_RxBuffer s \<Longrightarrow> LT_RxBuffSz t = LT_RxBuffSz s \<Longrightarrow> rx_data_offset t = rx_data_offset s \<Longrightarrow>
   lt_tx t = lt_tx s \<Longrightarrow> PointerBits t = PointerBits s \<Longrightarrow> scc_inv t"
  by (rule scc_inv_cong [of s]) (simp_all add: scc_inv_def rx_room_def)

lemma GetNextPacket_room:
  assumes "rx_room s" "GetNextPacket s = (r, t)"
  shows "rx_room t \<and> (\<forall>n. r = Some n \<longrightarrow> n \<le> RX_BUFFER_ALLOCATION \<and> udp_ok t)"
proof (cases "udp_ok s \<and> inbox s \<noteq> []")
  case True
  then have l: "length (patch 0 (take RX_BUFFER_ALLOCATION (hd (inbox s))) (MyRxBuffer s)) = length (MyRxBuffer s)"
    using assms(1) by (intro length_patch) (simp add: rx_room_def)
  then show ?thesis
    using assms True
    by (auto simp: GetNextPacket_def Let_def rx_room_def rx_bytes_def split: list.splits rx_source.splits)
next
  case False
  then show ?thesis using assms by (auto simp: GetNextPacket_def split: list.splits if_splits)
qed

lemma Receive_room: "rx_room s \<Longrightarrow> rx_room (LT_ReceivePacket s)"
proof (induction s rule: LT_ReceivePacket.induct)
  case (1 s)
  obtain r t where g: "GetNextPacket s = (r, t)" by force
  note k = GetNextPacket_room [OF 1(2) g]
  have p: "rx_room (t\<lparr>LT_RxBuffer := RxPacket, LT_RxBuffSz := n - 4\<rparr>)" if "r = Some n" for n
    using k that by (simp add: rx_room_def rx_bytes_def) linarith
  show ?case
  proof (cases r)
    case None
    then show ?thesis using k g by (simp add: LT_ReceivePacket.simps [of s])
  next
    case (Some n)
    then show ?thesis using 1(1) [OF g [symmetric] Some] k g p by (simp add: LT_ReceivePacket.simps [of s])
  qed
qed

lemma GetNext_room: "rx_room s \<Longrightarrow> rx_room (GetNextPacketForMe s)"
proof (induction s rule: GetNextPacketForMe.induct)
  case (1 s)
  have r: "rx_room (LT_ReceivePacket s)" using 1(2) by (rule Receive_room)
  then have "rx_room ((LT_ReceivePacket s)\<lparr>LT_RxBuffer := RxNone\<rparr>)" by (simp add: rx_room_def)
  then show ?case using 1(1) [OF refl] r by (subst GetNext_unfold) auto
qed

lemma GetCTS_room: "rx_room s \<Longrightarrow> rx_room (GetCTSpacket s)"
  by (simp add: rx_room_def GetCTSpacket_def rx_bytes_def patch_def)

lemma Receive1_room: "rx_room s \<Longrightarrow> rx_room (LT_ReceivePacket1 s)"
  by (simp add: LT_ReceivePacket1_def GetCTS_room GetNext_room)

lemma RxBuffAdvance_inv:
  "scc_inv s \<Longrightarrow> scc_inv (SCC_RxBuffAdvance s)"
  by (auto simp: SCC_RxBuffAdvance_def Let_def rx_complete_def scc_inv_def rx_room_def)

lemma start_frame_inv:
  assumes "rx_room s" "PointerBits s < 16"
  shows "scc_inv (start_frame s)"
  unfolding start_frame_def
  by (rule RxBuffAdvance_inv) (use assms in \<open>auto simp: scc_inv_def rx_room_def\<close>)

lemma Receive_pointer: "PointerBits (LT_ReceivePacket s) = PointerBits s"
proof (induction s rule: LT_ReceivePacket.induct)
  case (1 s)
  obtain r t where g: "GetNextPacket s = (r, t)" by force
  have k: "PointerBits t = PointerBits s"
    using g by (auto simp: GetNextPacket_def Let_def split: if_splits list.splits)
  then show ?case using 1 [OF g [symmetric]] g by (cases r) (auto simp: LT_ReceivePacket.simps [of s])
qed

lemma GetNext_pointer: "PointerBits (GetNextPacketForMe s) = PointerBits s"
proof (induction s rule: GetNextPacketForMe.induct)
  case (1 s)
  show ?case using 1 [OF refl] Receive_pointer [of s] by (subst GetNext_unfold) auto
qed

lemma Receive1_pointer: "PointerBits (LT_ReceivePacket1 s) = PointerBits s"
  by (simp add: LT_ReceivePacket1_def GetNext_pointer GetCTSpacket_def)

text \<open>A received frame starts at offset 0, whatever was there before.\<close>

lemma Check_inv: "scc_inv s \<Longrightarrow> scc_inv (CheckSCCInterruptFlag s)"
  by (erule scc_inv_same) simp_all

lemma upd_ch_inv: "scc_inv s \<Longrightarrow> scc_inv (upd_ch c f s)"
  by (erule scc_inv_same) simp_all

lemma Tick_inv:
  assumes i: "scc_inv s"
  shows "scc_inv (LocalTalkTick s)"
proof -
  define t where "t = (if LT_RxBuffer s = RxNone then LT_ReceivePacket1 s else s)"
  have r: "rx_room t" using i Receive1_room [of s] by (simp add: t_def scc_inv_def)
  have p: "PointerBits t < 16" using i Receive1_pointer [of s] by (simp add: t_def scc_inv_def)
  have n: "LT_RxBuffer t = RxNone \<Longrightarrow> scc_inv t" using r p by (simp add: scc_inv_def)
  show ?thesis
    using i n Check_inv [OF start_frame_inv [OF r p]] by (simp add: LocalTalkTick_def t_def [symmetric] Let_def)
qed

lemma forget_inv: "scc_inv s \<Longrightarrow> scc_inv (forget_packet s)"
  by (simp add: scc_inv_def rx_room_def forget_packet_def)

lemma Reset_inv: "scc_inv s \<Longrightarrow> scc_inv (SCC_Reset s)"
  by (simp add: scc_inv_def rx_room_def SCC_Reset_def SCC_ResetChannel_def SCC_InitChannel_def Let_def upd_ch_def)

lemma ResetChannel_inv: "scc_inv s \<Longrightarrow> scc_inv (SCC_ResetChannel c s)"
  by (cases c) (simp_all add: scc_inv_def rx_room_def SCC_ResetChannel_def Let_def)

lemma fake_CTS_inv:
  assumes "scc_inv s"
  shows "scc_inv (fake_CTS dst src s)"
proof -
  let ?s = "s\<lparr>CTSpacketRxDA := src, CTSpacketRxSA := dst, CTSpacketPending := True\<rparr>"
  have i: "scc_inv ?s" using assms by (rule scc_inv_cong) (use assms in \<open>auto simp: scc_inv_def rx_room_def\<close>)
  have r: "rx_room (GetCTSpacket ?s)" using i by (intro GetCTS_room) (simp add: scc_inv_def)
  have "rx_room (upd_ch ChB (\<lambda>b. b\<lparr>SyncHunt := False\<rparr>) (GetCTSpacket ?s))"
    by (rule rx_room_cong [OF r]) simp_all
  moreover have "PointerBits (GetCTSpacket ?s) < 16" using assms by (simp add: GetCTSpacket_def scc_inv_def)
  ultimately show ?thesis
    using i by (auto simp: fake_CTS_def Let_def intro!: Check_inv start_frame_inv)
qed

lemma TransmitPacket1_inv:
  assumes "scc_inv s"
  shows "scc_inv (LT_TransmitPacket1 s)"
proof -
  have e: "scc_inv (t\<lparr>lt_tx := []\<rparr>)" if "scc_inv t" for t
    using that by (rule scc_inv_cong) (use that in \<open>auto simp: scc_inv_def\<close>)
  have a: "scc_inv (s\<lparr>my_node_address := x\<rparr>)" for x using assms by (rule scc_inv_same) simp_all
  have t: "scc_inv (LT_TransmitPacket t)" if "scc_inv t" for t
    using that unfolding LT_TransmitPacket_def by (auto intro: scc_inv_same)
  show ?thesis
    unfolding LT_TransmitPacket1_def Let_def by (rule e) (auto intro!: t a fake_CTS_inv assms)
qed

lemma TxBuffPut_inv:
  assumes "scc_inv s"
  shows "scc_inv (SCC_TxBuffPut d s)"
proof -
  have "scc_inv (if length (lt_tx s) < LT_TxBfMxSz then s\<lparr>lt_tx := lt_tx s @ [ucast d]\<rparr> else s)"
    using assms scc_inv_cong [OF assms, of "s\<lparr>lt_tx := lt_tx s @ [ucast d]\<rparr>"] by (auto simp: scc_inv_def)
  then show ?thesis
    unfolding SCC_TxBuffPut_def try_extract_tx_packets_def by (auto split: option.splits intro: TransmitPacket1_inv)
qed

lemma small_word_cases:
  assumes "unat (x :: u32) < 16"
  shows "x \<in> {0, 1, 2, 3, 4, 5, 6, 7, 8, 9, 10, 11, 12, 13, 14, 15}"
proof -
  have "unat x \<in> {0, 1, 2, 3, 4, 5, 6, 7, 8, 9, 10, 11, 12, 13, 14, 15}"
    if "unat x = n" for n using assms that by (simp only: insert_iff empty_iff) presburger
  from this [OF refl] have "word_of_nat (unat x) \<in> (word_of_nat ` {0, 1, 2, 3, 4, 5, 6, 7, 8, 9, 10, 11, 12, 13, 14, 15} :: u32 set)"
    by (rule imageI)
  then show ?thesis by simp
qed

lemma word_low_bits: "d AND 7 < (16 :: u32)" "(d AND 7) OR 8 < (16 :: u32)"
proof -
  have a: "d AND 7 \<le> 7" by (rule word_and_le1)
  then have "unat (d AND 7) \<le> unat (7 :: u32)" by (simp only: word_le_nat_alt)
  then have "unat (d AND 7) < 16" by simp
  from small_word_cases [OF this] a show "(d AND 7) OR 8 < (16 :: u32)"
    by auto
  show "d AND 7 < (16 :: u32)" using a by (rule order.strict_trans1) simp
qed

lemma pointer_inv: "scc_inv s \<Longrightarrow> p < 16 \<Longrightarrow> scc_inv (s\<lparr>PointerBits := p\<rparr>)"
  by (simp add: scc_inv_def rx_room_def rx_bytes_def split: rx_source.splits)

lemma wr0_command_inv:
  assumes i: "scc_inv s" and p: "PointerBits s OR 8 < 16"
  shows "scc_inv (wr0_command cmd c s)"
proof -
  note f = upd_ch_inv [OF forget_inv]
  show ?thesis
    unfolding wr0_command_def Let_def
    by (auto intro!: Check_inv upd_ch_inv Tick_inv pointer_inv forget_inv i p)
qed

lemma PutWR0_inv: "scc_inv s \<Longrightarrow> scc_inv (SCC_PutWR0 d c s)"
  unfolding SCC_PutWR0_def Let_def
  by (rule wr0_command_inv) (auto intro!: pointer_inv TransmitPacket1_inv simp: word_low_bits)

lemma PutWR3_inv: "scc_inv s \<Longrightarrow> scc_inv (SCC_PutWR3 d c s)"
proof -
  assume i: "scc_inv s"
  have l: "scc_inv (t\<lparr>LTAddrSrchMd := x\<rparr>)" if "scc_inv t" for t x using that by (rule scc_inv_same) simp_all
  show ?thesis
    unfolding SCC_PutWR3_def Let_def by (auto intro!: l upd_ch_inv forget_inv Tick_inv i)
qed

lemma PutReg_inv:
  assumes i: "scc_inv s"
  shows "scc_inv (SCC_PutReg d c r s)"
proof -
  have v: "scc_inv (t\<lparr>InterruptVector := x\<rparr>)" "scc_inv (t\<lparr>MIE := y\<rparr>)" "scc_inv (t\<lparr>my_node_address := x\<rparr>)"
    if "scc_inv t" for t x y using that by (auto intro: scc_inv_same)
  have "scc_inv (SCC_PutWR9 d s)"
    unfolding SCC_PutWR9_def Let_def by (auto intro!: Check_inv v ResetChannel_inv Reset_inv i)
  moreover have "scc_inv (SCC_PutWR8 d c s)"
    unfolding SCC_PutWR8_def by (auto intro!: Check_inv upd_ch_inv TxBuffPut_inv i)
  moreover have "scc_inv (SCC_PutWR5 d c s)"
    unfolding SCC_PutWR5_def Let_def by (auto intro!: TransmitPacket1_inv upd_ch_inv i)
  ultimately show ?thesis
    unfolding SCC_PutReg_def SCC_PutWR1_def SCC_PutWR2_def SCC_PutWR4_def SCC_PutWR6_def
    by (auto intro!: Check_inv upd_ch_inv PutWR0_inv PutWR3_inv v i)
qed

lemma GetReg_inv:
  assumes i: "scc_inv s"
  shows "scc_inv (snd (SCC_GetReg c r s))"
  unfolding SCC_GetReg_def SCC_GetRR0_def SCC_GetRR2_def SCC_GetRR8_def Let_def
  by (auto simp: split_beta intro!: Check_inv upd_ch_inv Tick_inv RxBuffAdvance_inv i)

lemma scc_step_inv: "scc_inv s \<Longrightarrow> scc_inv (scc_step e s)"
proof (cases e)
  case (Access d w a)
  assume "scc_inv s"
  then show ?thesis
    unfolding Access scc_step.simps SCC_Access_def Let_def
    by (auto intro!: PutReg_inv GetReg_inv pointer_inv)
qed (auto intro: Tick_inv scc_inv_same)

lemma scc_run_inv: "scc_inv s \<Longrightarrow> scc_inv (scc_run es s)"
  by (induction es arbitrary: s) (auto simp: scc_run_def scc_step_inv)

subsection \<open>Start-up\<close>

definition power_on :: "scc \<Rightarrow> bool" where
  "power_on s \<longleftrightarrow> length (MyCTSBuffer s) = 4 \<and> MyRxBuffer s = [] \<and> \<not> udp_ok s \<and> LT_RxBuffer s = RxNone \<and>
     lt_tx s = [] \<and> PointerBits s = 0"

lemma SCCInit_inv:
  assumes "power_on s" "block = None \<or> (\<exists>b. block = Some b \<and> length b = RX_BUFFER_ALLOCATION)"
  shows "scc_inv (SCCInit pref stamp hint block sock s)"
proof -
  have n: "[] \<noteq> b" if "length b = RX_BUFFER_ALLOCATION" for b :: "u8 list"
    using that by (auto simp: RX_BUFFER_ALLOCATION_def)
  obtain ok t where t: "InitLocalTalk stamp hint block sock s = (ok, t)" by force
  have "scc_inv t"
    using t assms n by (auto simp: InitLocalTalk_def Let_def power_on_def scc_inv_def rx_room_def split: if_splits)
  then have "scc_inv (t\<lparr>ltoudp_active := ok\<rparr>)" by (rule scc_inv_same) simp_all
  then have "scc_inv ((SCC_Reset (t\<lparr>ltoudp_active := ok\<rparr>))\<lparr>scc_initialized := True\<rparr>)"
    by (rule scc_inv_same [OF Reset_inv]) simp_all
  moreover have "scc_inv s" using assms(1) by (simp add: power_on_def scc_inv_def rx_room_def)
  ultimately show ?thesis using t by (simp add: SCCInit_def)
qed

subsection \<open>The register pointer\<close>

definition ctl :: "chan \<Rightarrow> u32" where
  "ctl c = (if c = ChA then 1 else 0)"

lemma access_ctl:
  "SCC_Access d True (ctl c) s = (d, SCC_PutReg d c (PointerBits s) (s\<lparr>PointerBits := 0\<rparr>))"
  "SCC_Access d False (ctl c) s = SCC_GetReg c (PointerBits s) (s\<lparr>PointerBits := 0\<rparr>)"
  by (cases c; simp add: SCC_Access_def ctl_def Let_def)+

lemma select_register:
  assumes "unat r < 16"
  shows "SCC_PutReg r c 0 s = CheckSCCInterruptFlag (s\<lparr>PointerBits := r\<rparr>)"
proof -
  have b: "drop_bit 6 r AND 3 = 0 \<and> (drop_bit 3 r AND 7 = 0 \<and> r AND 7 = r \<or> drop_bit 3 r AND 7 = 1 \<and> (r AND 7) OR 8 = r)"
    using small_word_cases [OF assms] by (elim insertE; simp)
  have "SCC_PutWR0 r c s = s\<lparr>PointerBits := r\<rparr>"
    using b by (elim conjE disjE) (simp_all add: SCC_PutWR0_def wr0_command_def)
  then show ?thesis by (simp add: SCC_PutReg_def)
qed

lemma Tick_pointer: "PointerBits (LocalTalkTick s) = PointerBits s"
  by (auto simp: LocalTalkTick_def Let_def start_frame_def SCC_RxBuffAdvance_def rx_complete_def Receive1_pointer)

lemma Transmit_pointer: "PointerBits (LT_TransmitPacket1 s) = PointerBits s"
  by (simp add: LT_TransmitPacket1_def Let_def LT_TransmitPacket_def fake_CTS_def GetCTSpacket_def start_frame_def
      SCC_RxBuffAdvance_def rx_complete_def)

lemma PutReg_pointer:
  assumes "PointerBits s = 0" "r \<noteq> 0"
  shows "PointerBits (SCC_PutReg d c r s) = 0"
proof -
  have "PointerBits (SCC_TxBuffPut d s) = 0"
    using assms(1) by (auto simp: SCC_TxBuffPut_def try_extract_tx_packets_def Transmit_pointer split: option.split)
  then show ?thesis
    using assms
    by (simp add: SCC_PutReg_def SCC_PutWR1_def SCC_PutWR2_def SCC_PutWR3_def SCC_PutWR4_def SCC_PutWR5_def
        SCC_PutWR6_def SCC_PutWR8_def SCC_PutWR9_def Let_def Tick_pointer Transmit_pointer forget_packet_def
        SCC_ResetChannel_def SCC_Reset_def SCC_InitChannel_def)
qed

end
