(* ===== verification/SCC_Frames.thy ===== *)
theory SCC_Frames
  imports SCC_Facts
begin

section \<open>Frames through the serial controller\<close>

text \<open>
  What the guest reads from the data register of channel B while a frame is being received,
  and what leaves the machine when the guest writes a frame to it byte by byte. Address 2 is
  the data register of channel B (bit 0 clear: channel B, bit 1 set: data).
\<close>

primrec data_reads :: "nat \<Rightarrow> scc \<Rightarrow> u32 list \<times> scc" where
  "data_reads 0 s = ([], s)"
| "data_reads (Suc n) s =
     (let (v, t) = SCC_Access 0 False 2 s; (vs, u) = data_reads n t in (v # vs, u))"

definition data_write :: "u8 \<Rightarrow> scc \<Rightarrow> scc" where
  "data_write b s = snd (SCC_Access (ucast b) True 2 s)"

definition data_writes :: "u8 list \<Rightarrow> scc \<Rightarrow> scc" where
  "data_writes bs s = fold data_write bs s"

subsection \<open>Reading a frame\<close>

text \<open>\<open>k\<close> bytes of the frame \<open>f\<close> have been read, byte \<open>k\<close> is in the receive register.\<close>

definition frame_at :: "u8 list \<Rightarrow> nat \<Rightarrow> scc \<Rightarrow> bool" where
  "frame_at f k s \<longleftrightarrow>
     LT_RxBuffer s \<noteq> RxNone \<and> LT_RxBuffSz s = length f \<and> length f \<le> length (rx_bytes s) \<and>
     take (length f) (rx_bytes s) = f \<and> rx_data_offset s = Suc k \<and> RxEnable (ch s ChB) \<and> RxChrAvail (ch s ChB) \<and>
     RxBuff (ch s ChB) = (if k < length f then ucast (f ! k) else 0) \<and>
     EndOfFrame (ch s ChB) = (k = Suc (length f))"

lemma data_read:
  "RxEnable (ch s ChB) \<Longrightarrow>
   SCC_Access 0 False 2 s =
     (RxBuff (ch s ChB), CheckSCCInterruptFlag (SCC_RxBuffAdvance (upd_ch ChB (\<lambda>b. b\<lparr>FirstChar := False\<rparr>) s)))"
  by (simp add: SCC_Access_def SCC_GetReg_def SCC_GetRR8_def Let_def)

lemma frame_at_Check: "frame_at f k (CheckSCCInterruptFlag s) = frame_at f k s"
  by (simp add: frame_at_def)

lemma advance_frame:
  assumes "LT_RxBuffer s \<noteq> RxNone" "LT_RxBuffSz s = length f" "length f \<le> length (rx_bytes s)"
    "take (length f) (rx_bytes s) = f" "rx_data_offset s = k" "k \<le> Suc (length f)"
    "RxEnable (ch s ChB)" "\<not> EndOfFrame (ch s ChB)"
  shows "frame_at f k (SCC_RxBuffAdvance s)"
proof -
  have "rx_bytes s ! k = f ! k" if "k < length f" using assms(4) that by (metis nth_take)
  moreover consider "k < length f" | "k = length f" | "k = Suc (length f)" using assms(6) by linarith
  ultimately show ?thesis
    using assms by cases (auto simp: frame_at_def SCC_RxBuffAdvance_def Let_def)
qed

lemma frame_at_read:
  assumes "frame_at f k s" "k \<le> length f"
  shows "\<exists>t. SCC_Access 0 False 2 s = (if k < length f then ucast (f ! k) else 0, t) \<and> frame_at f (Suc k) t"
proof -
  have "frame_at f (Suc k) (SCC_RxBuffAdvance (upd_ch ChB (\<lambda>b. b\<lparr>FirstChar := False\<rparr>) s))"
    using assms by (intro advance_frame) (auto simp: frame_at_def)
  then show ?thesis using assms by (simp add: data_read frame_at_Check frame_at_def [of f k])
qed

lemma frame_end:
  assumes "frame_at f (Suc (length f)) s"
  shows "\<exists>t. SCC_Access 0 False 2 s = (0, t) \<and> LT_RxBuffer t = RxNone \<and> EndOfFrame (ch t ChB) \<and>
             \<not> RxChrAvail (ch t ChB) \<and> irq_ok t"
  using assms
  by (auto simp: data_read frame_at_def SCC_RxBuffAdvance_def Let_def rx_complete_def Check_irq_ok)

lemma reads_from:
  assumes "frame_at f k s" "k \<le> Suc (length f)"
  shows "\<exists>t. data_reads (length f + 2 - k) s = (map ucast (drop k f) @ replicate (length f + 2 - max k (length f)) 0, t) \<and>
             LT_RxBuffer t = RxNone \<and> EndOfFrame (ch t ChB) \<and> \<not> RxChrAvail (ch t ChB) \<and> irq_ok t"
  using assms
proof (induction "length f + 1 - k" arbitrary: k s)
  case 0
  then have "k = Suc (length f)" by simp
  with frame_end [of f s] 0(2) show ?case by auto
next
  case (Suc n)
  then have k: "k \<le> length f" by simp
  obtain t where t: "SCC_Access 0 False 2 s = (if k < length f then ucast (f ! k) else 0, t)" "frame_at f (Suc k) t"
    using frame_at_read [OF Suc(3) k] by blast
  have n: "n = length f + 1 - Suc k" "Suc k \<le> Suc (length f)" using Suc(2) k by linarith+
  have r: "data_reads (length f + 2 - k) s = data_reads (Suc (length f + 2 - Suc k)) s"
    using k by (simp add: Suc_diff_le)
  have d: "drop k f = f ! k # drop (Suc k) f" "length f + 2 - max k (length f) = length f + 2 - max (Suc k) (length f)"
    if "k < length f" using that by (simp_all add: Cons_nth_drop_Suc)
  have e: "length f + 2 - max k (length f) = 2" "length f + 2 - max (Suc k) (length f) = 1" if "\<not> k < length f"
    using k that by simp_all
  show ?case
    using Suc(1) [OF n(1) t(2) n(2)] t(1) k unfolding r
    by (cases "k < length f") (auto simp: d e numeral_2_eq_2)
qed

lemma frame_reads:
  assumes "frame_at f 0 s"
  shows "\<exists>t. data_reads (length f + 2) s = (map ucast f @ [0, 0], t) \<and> LT_RxBuffer t = RxNone \<and>
             EndOfFrame (ch t ChB) \<and> \<not> RxChrAvail (ch t ChB) \<and> irq_ok t"
  using reads_from [OF assms] by (simp add: numeral_2_eq_2)

lemma start_frame_at:
  assumes "LT_RxBuffer s \<noteq> RxNone" "LT_RxBuffSz s = length f" "length f \<le> length (rx_bytes s)"
    "take (length f) (rx_bytes s) = f" "RxEnable (ch s ChB)"
  shows "frame_at f 0 (start_frame s)"
  unfolding start_frame_def by (rule advance_frame) (use assms in auto)

subsection \<open>A frame from the network\<close>

lemma be32_inject: "be32 a = be32 b \<longleftrightarrow> a = b"
proof
  assume "be32 a = be32 b"
  then have "of_be32 (be32 a ! 0) (be32 a ! 1) (be32 a ! 2) (be32 a ! 3) =
             of_be32 (be32 b ! 0) (be32 b ! 1) (be32 b ! 2) (be32 b ! 3)" by simp
  then show "a = b" by (simp add: be32_def of_be32_be32 numeral_2_eq_2 numeral_3_eq_3)
qed simp

text \<open>The receiver is on and idle, and the next datagram is the frame \<open>f\<close> of another node.\<close>

definition listening :: "scc \<Rightarrow> bool" where
  "listening s \<longleftrightarrow> scc_inv s \<and> ltoudp_active s \<and> udp_ok s \<and> RxEnable (ch s ChB) \<and> \<not> RxChrAvail (ch s ChB) \<and>
     LT_RxBuffer s = RxNone \<and> \<not> CTSpacketPending s"

definition addressed :: "scc \<Rightarrow> u8 \<Rightarrow> bool" where
  "addressed s dst \<longleftrightarrow> \<not> LTAddrSrchMd s \<or> my_node_address s = 0 \<or> dst = my_node_address s \<or> dst = 0xFF"

lemma receive_one:
  assumes l: "listening s" and b: "inbox s = (be32 st @ f) # ps" and st: "st \<noteq> LT_MyStamp s"
    and f: "f \<noteq> []" "length f \<le> 1796" and a: "addressed s (f ! 0)"
  shows "frame_at f 0 (LocalTalkTick s) \<and> inbox (LocalTalkTick s) = ps"
proof -
  let ?q = "be32 st @ f"
  let ?t = "s\<lparr>inbox := ps, MyRxBuffer := patch 0 ?q (MyRxBuffer s), LT_RxBuffer := RxPacket, LT_RxBuffSz := length f\<rparr>"
  have len: "length (MyRxBuffer s) = 1800" "length ?q \<le> 1800"
    using l f by (simp_all add: listening_def scc_inv_def rx_room_def RX_BUFFER_ALLOCATION_def)
  have m: "take 4 (patch 0 ?q (MyRxBuffer s)) = be32 st" by (simp add: patch_def)
  have rx: "rx_bytes ?t = f @ drop (4 + length f) (MyRxBuffer s)" by (simp add: rx_bytes_def patch_def)
  have g: "GetNextPacket s = (Some (4 + length f), s\<lparr>inbox := ps, MyRxBuffer := patch 0 ?q (MyRxBuffer s)\<rparr>)"
    using l b len(2) by (simp add: GetNextPacket_def listening_def Let_def RX_BUFFER_ALLOCATION_def)
  have r: "LT_ReceivePacket s = ?t"
    by (subst LT_ReceivePacket.simps) (simp add: g pidInPacketIsMine_def m be32_inject st)
  have n: "\<not> not_for_me ?t"
    using a f(1) unfolding not_for_me_def Let_def rx by (simp add: nth_append addressed_def)
  have nx: "GetNextPacketForMe s = ?t" by (subst GetNext_unfold) (simp only: r n simp_thms if_False)
  have e: "LocalTalkTick s = CheckSCCInterruptFlag (start_frame ?t)"
    using l by (simp add: LocalTalkTick_def listening_def LT_ReceivePacket1_def nx)
  have "frame_at f 0 (start_frame ?t)"
    by (rule start_frame_at) (use l in \<open>simp_all add: rx listening_def\<close>)
  moreover have "inbox (start_frame ?t) = ps"
    by (simp add: start_frame_def SCC_RxBuffAdvance_def Let_def rx_complete_def)
  ultimately show ?thesis by (simp add: e frame_at_Check)
qed

text \<open>What \<open>GetNextPacketForMe\<close> accepts.\<close>

definition acceptable :: "scc \<Rightarrow> u8 list \<Rightarrow> bool" where
  "acceptable s p \<longleftrightarrow> 4 \<le> length p \<and> take 4 p \<noteq> be32 (LT_MyStamp s) \<and> (4 < length p \<longrightarrow> addressed s (p ! 4))"

lemma GetNextPacket_kept:
  "GetNextPacket s = (r, t) \<Longrightarrow>
   LT_MyStamp t = LT_MyStamp s \<and> LTAddrSrchMd t = LTAddrSrchMd s \<and> my_node_address t = my_node_address s \<and>
   LT_RxBuffer t = LT_RxBuffer s \<and>
   set (inbox t) \<subseteq> set (inbox s)"
  by (auto simp: GetNextPacket_def Let_def split: if_splits list.splits)

lemma Receive_kept:
  "LT_MyStamp (LT_ReceivePacket s) = LT_MyStamp s \<and> LTAddrSrchMd (LT_ReceivePacket s) = LTAddrSrchMd s \<and>
   my_node_address (LT_ReceivePacket s) = my_node_address s \<and> set (inbox (LT_ReceivePacket s)) \<subseteq> set (inbox s)"
proof (induction s rule: LT_ReceivePacket.induct)
  case (1 s)
  obtain r t where g: "GetNextPacket s = (r, t)" by force
  note k = GetNextPacket_kept [OF g]
  show ?case
  proof (cases "\<exists>n. r = Some n \<and> n \<noteq> 0 \<and> pidInPacketIsMine t")
    case True
    then obtain n where n: "r = Some n" "n \<noteq> 0" "pidInPacketIsMine t" by blast
    have "LT_ReceivePacket s = LT_ReceivePacket t" using n by (simp add: LT_ReceivePacket.simps [of s] g)
    then show ?thesis
      using 1 [OF g [symmetric] n(1,2,3)] k order_trans [of "set (inbox (LT_ReceivePacket t))" "set (inbox t)"]
      by simp
  next
    case False
    then show ?thesis using k by (cases r) (auto simp: LT_ReceivePacket.simps [of s] g)
  qed
qed

definition holds_packet :: "scc \<Rightarrow> u8 list \<Rightarrow> bool" where
  "holds_packet s p \<longleftrightarrow>
     4 \<le> length p \<and> length p \<le> length (MyRxBuffer s) \<and> LT_RxBuffSz s = length p - 4 \<and> take (length p) (MyRxBuffer s) = p"

lemma Receive_packet:
  "rx_room s \<Longrightarrow> LT_RxBuffer s = RxNone \<Longrightarrow> LT_RxBuffer (LT_ReceivePacket s) \<noteq> RxNone \<Longrightarrow>
   LT_RxBuffer (LT_ReceivePacket s) = RxPacket \<and>
   (\<exists>p \<in> set (inbox s). take 4 p \<noteq> be32 (LT_MyStamp s) \<and>
      holds_packet (LT_ReceivePacket s) (take RX_BUFFER_ALLOCATION p))"
proof (induction s rule: LT_ReceivePacket.induct)
  case (1 s)
  obtain r t where g: "GetNextPacket s = (r, t)" by force
  note k = GetNextPacket_kept [OF g] and room = GetNextPacket_room [OF 1(2) g]
  have u: "udp_ok s" "inbox s \<noteq> []" "r \<noteq> None"
    using 1(3,4) g by (auto simp: LT_ReceivePacket.simps [of s] GetNextPacket_def split: if_splits list.splits)
  define q where "q = take RX_BUFFER_ALLOCATION (hd (inbox s))"
  have b: "length q \<le> length (MyRxBuffer s)" using 1(2) u by (simp add: q_def rx_room_def)
  have t: "r = Some (length q)" "t = s\<lparr>inbox := tl (inbox s), MyRxBuffer := patch 0 q (MyRxBuffer s)\<rparr>"
    using g u by (auto simp: GetNextPacket_def Let_def q_def split: list.splits)
  have tq: "take (length q) (patch 0 q (MyRxBuffer s)) = q" by (rule take_patch_zero)
  have in_set: "hd (inbox s) \<in> set (inbox s)" using u(2) by simp
  show ?case
  proof (cases "length q \<noteq> 0 \<and> pidInPacketIsMine t")
    case True
    then have e: "LT_ReceivePacket s = LT_ReceivePacket t" by (simp add: LT_ReceivePacket.simps [of s] g t(1))
    show ?thesis
      using 1(1) [OF g [symmetric] t(1)] True room k 1(3,4) unfolding e by auto
  next
    case False
    have l: "length q \<ge> 4"
      using 1(3,4) False k by (auto simp: LT_ReceivePacket.simps [of s] g t(1) split: if_splits)
    then have e: "LT_ReceivePacket s = t\<lparr>LT_RxBuffer := RxPacket, LT_RxBuffSz := length q - 4\<rparr>"
      using False by (auto simp: LT_ReceivePacket.simps [of s] g t(1))
    have "take 4 (patch 0 q (MyRxBuffer s)) = take 4 (hd (inbox s))"
      using l tq by (metis min.absorb1 q_def take_take RX_BUFFER_ALLOCATION_def min_def numeral_le_iff semiring_norm(68,71,72,73,79))
    then have "take 4 (hd (inbox s)) \<noteq> be32 (LT_MyStamp s)"
      using False l by (auto simp: pidInPacketIsMine_def t(2))
    moreover have "holds_packet (LT_ReceivePacket s) q"
      using l tq b unfolding e by (simp add: holds_packet_def t(2) length_patch)
    ultimately show ?thesis using e in_set by (auto simp: q_def)
  qed
qed

lemma holds_packet_bytes:
  assumes "holds_packet s p" "LT_RxBuffer s = RxPacket"
  shows "take (LT_RxBuffSz s) (rx_bytes s) = drop 4 p"
proof -
  have "take (LT_RxBuffSz s) (rx_bytes s) = drop 4 (take (length p) (MyRxBuffer s))"
    using assms(2) drop_take [of 4 "length p" "MyRxBuffer s"] assms(1) by (simp add: holds_packet_def rx_bytes_def)
  then show ?thesis using assms(1) by (simp add: holds_packet_def)
qed

lemma GetNext_packet:
  "rx_room s \<Longrightarrow> LT_RxBuffer s = RxNone \<Longrightarrow> LT_RxBuffer (GetNextPacketForMe s) \<noteq> RxNone \<Longrightarrow>
   (\<exists>p \<in> set (inbox s). acceptable s p \<and>
      take (LT_RxBuffSz (GetNextPacketForMe s)) (rx_bytes (GetNextPacketForMe s)) = drop 4 (take RX_BUFFER_ALLOCATION p))"
proof (induction s rule: GetNextPacketForMe.induct)
  case (1 s)
  let ?t = "LT_ReceivePacket s"
  have k: "LT_MyStamp ?t = LT_MyStamp s" "LTAddrSrchMd ?t = LTAddrSrchMd s"
    "my_node_address ?t = my_node_address s" "set (inbox ?t) \<subseteq> set (inbox s)" using Receive_kept [of s] by auto
  have acc: "acceptable (?t\<lparr>LT_RxBuffer := RxNone\<rparr>) p = acceptable s p" for p
    by (simp add: acceptable_def addressed_def k)
  show ?case
  proof (cases "LT_RxBuffer ?t \<noteq> RxNone \<and> not_for_me ?t")
    case True
    have e: "GetNextPacketForMe s = GetNextPacketForMe (?t\<lparr>LT_RxBuffer := RxNone\<rparr>)" by (subst GetNext_unfold) (simp add: True)
    have "rx_room (?t\<lparr>LT_RxBuffer := RxNone\<rparr>)" using Receive_room [OF 1(2)] by (simp add: rx_room_def)
    from 1(1) [OF refl True this] 1(4) show ?thesis using k(4) by (auto simp: e acc)
  next
    case False
    then have e: "GetNextPacketForMe s = ?t" by (subst GetNext_unfold) (simp only: if_False)
    obtain p where p: "p \<in> set (inbox s)" "take 4 p \<noteq> be32 (LT_MyStamp s)"
      "holds_packet ?t (take RX_BUFFER_ALLOCATION p)" and rx: "LT_RxBuffer ?t = RxPacket"
      using Receive_packet [OF 1(2,3)] 1(4) unfolding e by blast
    have b: "take (LT_RxBuffSz ?t) (rx_bytes ?t) = drop 4 (take RX_BUFFER_ALLOCATION p)"
      using p(3) rx by (rule holds_packet_bytes)
    have "addressed s (p ! 4)" if "4 < length p"
    proof -
      have "rx_bytes ?t ! 0 = take (LT_RxBuffSz ?t) (rx_bytes ?t) ! 0"
        using p(3) that by (simp add: holds_packet_def RX_BUFFER_ALLOCATION_def)
      also have "\<dots> = p ! 4" unfolding b using that by (simp add: RX_BUFFER_ALLOCATION_def)
      finally show ?thesis using False rx by (simp add: not_for_me_def addressed_def Let_def k)
    qed
    then have "acceptable s p" using p by (simp add: acceptable_def holds_packet_def)
    then show ?thesis using p(1) b unfolding e by blast
  qed
qed

subsection \<open>A frame to the network\<close>

lemma put_byte:
  "lt_tx (data_write b s) = lt_tx (SCC_TxBuffPut (ucast b) (s :: scc)) \<and>
   outbox (data_write b s) = outbox (SCC_TxBuffPut (ucast b) s)"
  by (simp add: data_write_def SCC_Access_def SCC_PutReg_def SCC_PutWR8_def Let_def)

lemma ucast_byte: "ucast (ucast (b :: u8) :: u32) = b"
  by (rule bit_word_eqI) (auto simp: bit_simps)

text \<open>A complete frame: its own bytes give its length.\<close>

definition whole_frame :: "u8 list \<Rightarrow> bool" where
  "whole_frame p \<longleftrightarrow> expected_length p = Some (length p)"

lemma whole_frame_bounds: "whole_frame p \<Longrightarrow> 3 \<le> length p \<and> length p \<le> 603"
  by (auto simp: whole_frame_def expected_length_def split: if_splits)

lemma whole_frame_prefix:
  assumes "whole_frame p" "k < length p"
  shows "expected_length (take k p) = None \<or> expected_length (take k p) = Some (length p)"
proof -
  have "take k p ! i = p ! i" if "i < k" for i using that by simp
  then show ?thesis
    using assms by (auto simp: whole_frame_def expected_length_def ddp_length_def min_def split: if_splits)
qed

definition frame_type :: "u8 list \<Rightarrow> u8" where
  "frame_type p = p ! 2"

lemma Transmit1_net:
  assumes "3 \<le> length (lt_tx s)" "frame_type (lt_tx s) \<noteq> 0x84" "frame_type (lt_tx s) \<noteq> 0x85"
  shows "lt_tx (LT_TransmitPacket1 s) = [] \<and>
         outbox (LT_TransmitPacket1 s) = outbox s @ (if udp_ok s then [be32 (LT_MyStamp s) @ lt_tx s] else [])"
  using assms by (simp add: LT_TransmitPacket1_def Let_def LT_TransmitPacket_def frame_type_def)

lemma data_write_kept:
  assumes "length (lt_tx s) < LT_TxBfMxSz"
    "expected_length (lt_tx s @ [b]) = None \<or> expected_length (lt_tx s @ [b]) = Some n \<and> length (lt_tx s) + 1 < n"
  shows "lt_tx (data_write b s) = lt_tx s @ [b] \<and> outbox (data_write b s) = outbox s \<and>
         LT_MyStamp (data_write b s) = LT_MyStamp s \<and> udp_ok (data_write b s) = udp_ok s \<and>
         RxEnable (ch (data_write b s) ChB) = RxEnable (ch s ChB)"
  using assms
  by (auto simp: data_write_def SCC_Access_def SCC_PutReg_def SCC_PutWR8_def SCC_TxBuffPut_def
      try_extract_tx_packets_def ucast_byte)

lemma data_write_last:
  assumes "length (lt_tx s) < LT_TxBfMxSz" "expected_length (lt_tx s @ [b]) = Some (length (lt_tx s) + 1)"
  shows "data_write b s =
    CheckSCCInterruptFlag (CheckSCCInterruptFlag (upd_ch ChB (\<lambda>x. x\<lparr>TxIP := True, TxBufferEmpty := True\<rparr>)
      (LT_TransmitPacket1 (s\<lparr>lt_tx := lt_tx s @ [b]\<rparr>))))"
  using assms
  by (simp add: data_write_def SCC_Access_def SCC_PutReg_def SCC_PutWR8_def SCC_TxBuffPut_def
      try_extract_tx_packets_def ucast_byte)

lemma prefix_writes:
  assumes w: "whole_frame p" and k: "k < length p" and e: "lt_tx s = []"
  shows "lt_tx (data_writes (take k p) s) = take k p \<and> outbox (data_writes (take k p) s) = outbox s \<and>
         LT_MyStamp (data_writes (take k p) s) = LT_MyStamp s \<and> udp_ok (data_writes (take k p) s) = udp_ok s \<and>
         RxEnable (ch (data_writes (take k p) s) ChB) = RxEnable (ch s ChB)"
  using k
proof (induction k)
  case 0
  then show ?case by (simp add: data_writes_def e)
next
  case (Suc k)
  let ?t = "data_writes (take k p) s"
  have t: "lt_tx ?t = take k p" using Suc by simp
  have x: "take k p @ [p ! k] = take (Suc k) p" using Suc.prems by (simp add: take_Suc_conv_app_nth)
  have d: "data_writes (take (Suc k) p) s = data_write (p ! k) ?t"
    using Suc.prems by (simp add: take_Suc_conv_app_nth data_writes_def)
  have l: "length (take k p) + 1 < length p" using Suc.prems by simp
  have m: "length (take k p) < LT_TxBfMxSz"
    using whole_frame_bounds [OF w] Suc.prems by (simp add: LT_TxBfMxSz_def)
  show ?case
    using data_write_kept [of ?t "p ! k" "length p"] whole_frame_prefix [OF w Suc.prems] Suc l m
    unfolding d t x by auto
qed

lemma frame_writes:
  assumes w: "whole_frame p" and e: "lt_tx s = []" and ty: "frame_type p \<noteq> 0x84" "frame_type p \<noteq> 0x85"
  shows "lt_tx (data_writes p s) = [] \<and>
         outbox (data_writes p s) = outbox s @ (if udp_ok s then [be32 (LT_MyStamp s) @ p] else [])"
proof -
  note b = whole_frame_bounds [OF w]
  define k where "k = length p - 1"
  have sk: "Suc k = length p" using b unfolding k_def by linarith
  then have "k < length p" by simp
  with take_Suc_conv_app_nth [OF this] sk have k: "k < length p" "p = take k p @ [p ! k]" by simp_all
  let ?t = "data_writes (take k p) s"
  note t = prefix_writes [OF w k(1) e]
  have d: "data_writes p s = data_write (p ! k) ?t"
    by (subst k(2)) (simp add: data_writes_def)
  have "expected_length (lt_tx ?t @ [p ! k]) = Some (length (lt_tx ?t) + 1)"
    using w t k sk by (simp add: whole_frame_def)
  then show ?thesis
    unfolding d using data_write_last [of ?t "p ! k"] t b k ty
      Transmit1_net [of "?t\<lparr>lt_tx := lt_tx ?t @ [p ! k]\<rparr>"]
    by (simp add: LT_TxBfMxSz_def)
qed

subsection \<open>Requests to send\<close>

lemma frame_at_cong:
  "frame_at f k s \<Longrightarrow> LT_RxBuffer t = LT_RxBuffer s \<Longrightarrow> MyRxBuffer t = MyRxBuffer s \<Longrightarrow> MyCTSBuffer t = MyCTSBuffer s \<Longrightarrow>
   LT_RxBuffSz t = LT_RxBuffSz s \<Longrightarrow> rx_data_offset t = rx_data_offset s \<Longrightarrow>
   RxEnable (ch t ChB) = RxEnable (ch s ChB) \<Longrightarrow> RxChrAvail (ch t ChB) = RxChrAvail (ch s ChB) \<Longrightarrow>
   RxBuff (ch t ChB) = RxBuff (ch s ChB) \<Longrightarrow> EndOfFrame (ch t ChB) = EndOfFrame (ch s ChB) \<Longrightarrow> frame_at f k t"
  using rx_bytes_cong [of t s] by (simp add: frame_at_def)

lemma fake_CTS_frame:
  assumes "RxEnable (ch s ChB)"
  shows "frame_at [src, dst, 0x85] 0 (fake_CTS dst src s) \<and> outbox (fake_CTS dst src s) = outbox s"
proof -
  let ?s = "s\<lparr>CTSpacketRxDA := src, CTSpacketRxSA := dst, CTSpacketPending := True\<rparr>"
  let ?g = "upd_ch ChB (\<lambda>b. b\<lparr>SyncHunt := False\<rparr>) (GetCTSpacket ?s)"
  have "frame_at [src, dst, 0x85] 0 (start_frame ?g)"
    by (rule start_frame_at) (use assms in \<open>simp_all add: GetCTSpacket_def rx_bytes_def patch_def\<close>)
  moreover have "outbox (start_frame ?g) = outbox s"
    by (simp add: start_frame_def SCC_RxBuffAdvance_def Let_def rx_complete_def GetCTSpacket_def)
  ultimately show ?thesis using assms by (simp add: fake_CTS_def Let_def frame_at_Check)
qed

lemma control_frame_parts:
  assumes "0x80 \<le> ty"
  shows "whole_frame [dst, src, ty]" "frame_type [dst, src, ty] = ty"
  using assms by (simp_all add: whole_frame_def expected_length_def frame_type_def)

lemma RTS_answered:
  assumes e: "lt_tx s = []" and r: "RxEnable (ch s ChB)"
  shows "frame_at [src, dst, 0x85] 0 (data_writes [dst, src, 0x84] s) \<and>
         outbox (data_writes [dst, src, 0x84] s) = outbox s \<and> lt_tx (data_writes [dst, src, 0x84] s) = []"
proof -
  let ?t = "data_writes [dst, src] s"
  have w: "whole_frame [dst, src, 0x84]" by (rule control_frame_parts) simp
  have t: "lt_tx ?t = [dst, src]" "outbox ?t = outbox s" "RxEnable (ch ?t ChB)"
    using prefix_writes [OF w _ e, of 2] r by (simp_all add: numeral_2_eq_2)
  let ?u = "?t\<lparr>lt_tx := [dst, src, 0x84]\<rparr>"
  have d: "data_writes [dst, src, 0x84] s =
    CheckSCCInterruptFlag (CheckSCCInterruptFlag (upd_ch ChB (\<lambda>x. x\<lparr>TxIP := True, TxBufferEmpty := True\<rparr>)
      (LT_TransmitPacket1 ?u)))"
    using data_write_last [of ?t "0x84"] t by (simp add: data_writes_def expected_length_def LT_TxBfMxSz_def)
  have n2: "[dst, src, x] ! 2 = x" for x by (simp add: numeral_2_eq_2)
  obtain v where v: "LT_TransmitPacket1 ?u = (fake_CTS dst src v)\<lparr>lt_tx := []\<rparr>" "outbox v = outbox ?t" "ch v = ch ?t"
    using that [of "if src \<noteq> 0 \<and> src \<noteq> 0xFF then ?u\<lparr>my_node_address := src\<rparr> else ?u"]
    by (simp add: LT_TransmitPacket1_def Let_def n2)
  note f = fake_CTS_frame [of v src dst]
  have "frame_at [src, dst, 0x85] 0 (LT_TransmitPacket1 ?u)" "outbox (LT_TransmitPacket1 ?u) = outbox s"
    using f t v by (auto intro: frame_at_cong)
  then show ?thesis unfolding d using v(1) by (auto simp: frame_at_Check intro: frame_at_cong)
qed

end
