(* ===== verification/SCC_Properties.thy ===== *)
theory SCC_Properties
  imports SCC_Frames
begin

section \<open>Properties of the serial controller\<close>

text \<open>
  The properties of \<open>scc.cpp\<close>, each with a run of the model on concrete data. \<open>quiet_chip\<close>
  is the chip after power-on, \<open>node a\<close> a node on the network with the stamp \<open>a\<close> whose
  receiver is on.
\<close>

definition idle_channel :: "bool \<Rightarrow> channel" where
  "idle_channel rx =
     \<lparr>TxEnable = False, RxEnable = rx, TxIE = False, TxUnderrun = False, SyncHunt = False, TxIP = False, ExtIP = False,
      RxBuff = 0, TxBufferEmpty = False, ExtIE = False, AddrSrchMd = False, RxIntMode = 0, FirstChar = False,
      SyncMode = 0, RxChrAvail = False, EndOfFrame = False, BreakAbort = False, SendBreak = False, BaudLo = 0,
      BaudHi = 0, WR15 = 0\<rparr>"

definition quiet_chip :: scc where
  "quiet_chip =
     \<lparr>ch = (\<lambda>c. idle_channel False), SCC_Interrupt_Type = 0, PointerBits = 0, InterruptVector = 0, MIE = False,
      SCCInterruptRequest = False, triggers = 0, scc_initialized = False, ltoudp_active = False, udp_ok = False,
      lt_tx = [], LT_RxBuffer = RxNone, LT_RxBuffSz = 0, rx_data_offset = 0, MyRxBuffer = [],
      MyCTSBuffer = [0, 0, 0, 0], LT_MyStamp = 0, LT_NodeHint = 0, CTSpacketPending = False, CTSpacketRxDA = 0,
      CTSpacketRxSA = 0, my_node_address = 0, LTAddrSrchMd = False, inbox = [], outbox = []\<rparr>"

definition node :: "u32 \<Rightarrow> scc" where
  "node a = quiet_chip\<lparr>ch := (\<lambda>c. idle_channel (c = ChB)), scc_initialized := True, ltoudp_active := True,
                       udp_ok := True, MyRxBuffer := replicate RX_BUFFER_ALLOCATION 0, LT_MyStamp := a\<rparr>"

definition a_frame :: "u8 list" where
  "a_frame = [5, 9, 2, 0, 3, 0x77]"

lemma node_listening: "listening (node a)"
  by (simp add: listening_def node_def quiet_chip_def scc_inv_def rx_room_def idle_channel_def LT_TxBfMxSz_def)

lemma a_frame_whole: "whole_frame a_frame" "frame_type a_frame = 2"
  by (simp_all add: whole_frame_def a_frame_def expected_length_def ddp_length_def frame_type_def)

text \<open>
  C1. After an access of the guest, and through any further accesses, ticks and arriving
  datagrams, the chip reports the pending interrupt of the highest priority (channel A
  transmit, channel B receive, special condition, transmit, external status), or none
  when the master enable is off, and requests an interrupt exactly when there is one.\<close>
theorem highest_pending_interrupt:
  "let t = scc_run es (snd (SCC_Access d w a s))
   in SCC_Interrupt_Type t = pending_irq t \<and> SCCInterruptRequest t = (pending_irq t \<noteq> 0)"
  using run_irq_ok [OF Access_irq_ok, of es d w a s] by (simp add: irq_ok_def Let_def)

text \<open>
  C2. From start-up on, through any accesses, ticks and arriving datagrams, the transmit
  buffer stays within its 1800 bytes, the frame being received lies inside the buffer it
  is read from, the read offset passes its end by at most the two CRC bytes, and the
  register pointer selects one of the 16 registers.\<close>
theorem buffers_stay_in_bounds:
  assumes "power_on s" "block = None \<or> (\<exists>b. block = Some b \<and> length b = RX_BUFFER_ALLOCATION)"
  shows "let t = scc_run es (SCCInit pref stamp hint block sock s)
         in length (lt_tx t) \<le> LT_TxBfMxSz \<and> PointerBits t < 16 \<and>
            (LT_RxBuffer t \<noteq> RxNone \<longrightarrow> LT_RxBuffSz t \<le> length (rx_bytes t) \<and> rx_data_offset t \<le> LT_RxBuffSz t + 2)"
  using scc_run_inv [OF SCCInit_inv [OF assms], of es pref stamp hint sock]
  by (simp add: Let_def scc_inv_def rx_room_def)

theorem buffers_stay_in_bounds_witness:
  "length (lt_tx (scc_run [Access 0x41 True 2, Arrive [1, 2], Tick]
     (SCCInit True 7 1 (Some (replicate RX_BUFFER_ALLOCATION 0)) True quiet_chip))) \<le> LT_TxBfMxSz"
proof -
  have "power_on quiet_chip" by (simp add: power_on_def quiet_chip_def)
  moreover have "Some (replicate RX_BUFFER_ALLOCATION (0 :: u8)) = None \<or>
      (\<exists>b. Some (replicate RX_BUFFER_ALLOCATION (0 :: u8)) = Some b \<and> length b = RX_BUFFER_ALLOCATION)" by simp
  ultimately show ?thesis
    using buffers_stay_in_bounds [of quiet_chip "Some (replicate RX_BUFFER_ALLOCATION 0)"
        "[Access 0x41 True 2, Arrive [1, 2], Tick]" True 7 1 True]
    by (simp add: Let_def)
qed

text \<open>
  Writing \<open>r\<close> (0 to 15) to the control address of a channel selects register \<open>r\<close>: the next
  control access of either direction works on it, nothing but the pointer and the
  interrupt state has changed in between, and after a write to a register other than
  WR0 the pointer is back at 0.\<close>
theorem two_step_register_access:
  assumes "PointerBits s = 0" "unat r < 16"
  shows "let t = snd (SCC_Access r True (ctl c) s)
         in SCC_Access d True (ctl k) t = (d, SCC_PutReg d k r (CheckSCCInterruptFlag s)) \<and>
            SCC_Access x False (ctl k) t = SCC_GetReg k r (CheckSCCInterruptFlag s) \<and>
            (r \<noteq> 0 \<longrightarrow> PointerBits (snd (SCC_Access d True (ctl k) t)) = 0)"
proof -
  have z: "s\<lparr>PointerBits := 0\<rparr> = s" using assms(1) by simp
  have t: "snd (SCC_Access r True (ctl c) s) = CheckSCCInterruptFlag (s\<lparr>PointerBits := r\<rparr>)"
    by (simp add: access_ctl z assms(1) select_register [OF assms(2)])
  have u: "(CheckSCCInterruptFlag (s\<lparr>PointerBits := r\<rparr>))\<lparr>PointerBits := 0\<rparr> = CheckSCCInterruptFlag s"
    using Check_pointer [of r s] Check_pointer [of 0 s] z by simp
  show ?thesis
    unfolding Let_def t unfolding access_ctl u by (simp add: PutReg_pointer assms(1))
qed

theorem two_step_register_access_witness:
  "BaudLo (ch (snd (SCC_Access 0x44 True (ctl ChB) (snd (SCC_Access 12 True (ctl ChB) quiet_chip)))) ChB) = 0x44"
proof -
  have "unat (12 :: u32) < 16" "PointerBits quiet_chip = 0" by (simp_all add: quiet_chip_def)
  from two_step_register_access [OF this(2,1), where c = ChB and d = "0x44" and k = ChB] show ?thesis
    by (simp add: Let_def SCC_PutReg_def)
qed

text \<open>
  C4. A node with an idle receiver takes the next datagram when it carries a frame of another
  stamp for its address: the reads of the data register return the frame byte for byte,
  two zero CRC bytes follow, and then the receiver is idle again and reports the end of
  the frame.\<close>
theorem frame_delivered:
  assumes "listening s" "inbox s = (be32 st @ f) # ps" "st \<noteq> LT_MyStamp s" "f \<noteq> []" "length f \<le> 1796"
    "addressed s (f ! 0)"
  shows "\<exists>t. data_reads (length f + 2) (LocalTalkTick s) = (map ucast f @ [0, 0], t) \<and> LT_RxBuffer t = RxNone \<and>
             EndOfFrame (ch t ChB) \<and> \<not> RxChrAvail (ch t ChB) \<and> inbox (LocalTalkTick s) = ps"
  using frame_reads receive_one [OF assms] by blast

theorem frame_delivered_witness:
  "\<exists>t. data_reads (length a_frame + 2) (LocalTalkTick (scc_step (Arrive (be32 3 @ a_frame)) (node 4))) =
     (map ucast a_frame @ [0, 0], t)"
proof -
  let ?s = "scc_step (Arrive (be32 3 @ a_frame)) (node 4)"
  have "listening ?s"
    using node_listening [of 4] by (auto simp: listening_def intro: scc_inv_same)
  moreover have "inbox ?s = (be32 3 @ a_frame) # []" "3 \<noteq> LT_MyStamp ?s" "addressed ?s (a_frame ! 0)"
    by (simp_all add: node_def quiet_chip_def addressed_def)
  moreover have "a_frame \<noteq> []" "length a_frame \<le> 1796" by (simp_all add: a_frame_def)
  ultimately show ?thesis using frame_delivered [of ?s 3 a_frame "[]"] by blast
qed

text \<open>
  What the receiver takes from the network was in the queue of arriving datagrams, is at
  least four bytes long, does not carry this node's own stamp and, when address search is
  on, is addressed to this node or to all; the bytes the guest will read are the datagram
  without its stamp.\<close>
theorem only_acceptable_frames:
  assumes "rx_room s" "LT_RxBuffer s = RxNone" "LT_RxBuffer (GetNextPacketForMe s) \<noteq> RxNone"
  shows "\<exists>p \<in> set (inbox s). 4 \<le> length p \<and> take 4 p \<noteq> be32 (LT_MyStamp s) \<and>
           (4 < length p \<longrightarrow> addressed s (p ! 4)) \<and>
           take (LT_RxBuffSz (GetNextPacketForMe s)) (rx_bytes (GetNextPacketForMe s)) =
             drop 4 (take RX_BUFFER_ALLOCATION p)"
  using GetNext_packet [OF assms] by (auto simp: acceptable_def)

theorem only_acceptable_frames_witness:
  "\<exists>p \<in> {[0, 0, 0, 3, 0xFF]}. addressed (node 4) (p ! 4)"
proof -
  let ?s = "(node 4)\<lparr>inbox := [[0, 0, 0, 3, 0xFF]]\<rparr>"
  have r: "rx_room ?s" using node_listening [of 4] by (simp add: listening_def scc_inv_def rx_room_def)
  have n: "LT_RxBuffer ?s = RxNone" by (simp add: node_def quiet_chip_def)
  have g: "LT_ReceivePacket ?s = ?s\<lparr>inbox := [], MyRxBuffer := patch 0 [0, 0, 0, 3, 0xFF] (MyRxBuffer ?s),
      LT_RxBuffer := RxPacket, LT_RxBuffSz := 1\<rparr>"
    by (subst LT_ReceivePacket.simps)
      (simp add: GetNextPacket_def Let_def pidInPacketIsMine_def patch_def be32_def node_def quiet_chip_def
        RX_BUFFER_ALLOCATION_def)
  have "\<not> not_for_me (LT_ReceivePacket ?s)" unfolding g by (simp add: not_for_me_def node_def quiet_chip_def Let_def)
  then have "LT_RxBuffer (GetNextPacketForMe ?s) \<noteq> RxNone" by (subst GetNext_unfold) (simp add: g)
  from only_acceptable_frames [OF r n this] show ?thesis by (auto simp: addressed_def)
qed

text \<open>
  C3. A frame written byte by byte to the data register of one node (any whole frame other than
  an RTS or CTS) leaves it as exactly one datagram, and another node that gets this
  datagram and is addressed reads the same frame.\<close>
theorem node_to_node:
  assumes "whole_frame p" "frame_type p \<noteq> 0x84" "frame_type p \<noteq> 0x85" "lt_tx s = []" "udp_ok s"
    and "listening t" "inbox t = []" "LT_MyStamp t \<noteq> LT_MyStamp s" "addressed t (p ! 0)"
  shows "\<exists>d u. outbox (data_writes p s) = outbox s @ [d] \<and> lt_tx (data_writes p s) = [] \<and>
           data_reads (length p + 2) (LocalTalkTick (scc_step (Arrive d) t)) = (map ucast p @ [0, 0], u)"
proof -
  let ?d = "be32 (LT_MyStamp s) @ p" and ?t = "scc_step (Arrive (be32 (LT_MyStamp s) @ p)) t"
  note b = whole_frame_bounds [OF assms(1)]
  have "listening ?t" using assms(6) by (auto simp: listening_def intro: scc_inv_same)
  moreover have "inbox ?t = ?d # []" "LT_MyStamp s \<noteq> LT_MyStamp ?t" "addressed ?t (p ! 0)"
    using assms(7-9) by (simp_all add: addressed_def)
  moreover have "p \<noteq> []" "length p \<le> 1796" using b by auto
  ultimately have "frame_at p 0 (LocalTalkTick ?t)" using receive_one by blast
  then show ?thesis using frame_reads frame_writes [OF assms(1,4,2,3)] assms(5) by fastforce
qed

theorem node_to_node_witness:
  "\<exists>d u. outbox (data_writes a_frame (node 3)) = outbox (node 3) @ [d] \<and>
     data_reads (length a_frame + 2) (LocalTalkTick (scc_step (Arrive d) (node 4))) = (map ucast a_frame @ [0, 0], u)"
proof -
  have "frame_type a_frame \<noteq> 0x84" "frame_type a_frame \<noteq> 0x85" "lt_tx (node 3) = []" "udp_ok (node 3)"
    "inbox (node 4) = []" "LT_MyStamp (node 4) \<noteq> LT_MyStamp (node 3)" "addressed (node 4) (a_frame ! 0)"
    by (simp_all add: a_frame_whole node_def quiet_chip_def addressed_def)
  then show ?thesis
    using node_to_node [OF a_frame_whole(1), of "node 3" "node 4"] node_listening [of 4] by fast
qed

text \<open>
  A request to send (\<open>dst\<close>, \<open>src\<close>, 0x84) is answered inside the machine: nothing goes to the
  network, and the guest reads a clear-to-send from the destination to the source.\<close>
theorem request_to_send_answered:
  assumes "lt_tx s = []" "RxEnable (ch s ChB)"
  shows "\<exists>t. data_reads 5 (data_writes [dst, src, 0x84] s) = ([ucast src, ucast dst, 0x85, 0, 0], t) \<and>
             outbox (data_writes [dst, src, 0x84] s) = outbox s"
proof -
  have e: "length [src, dst, 0x85 :: u8] + 2 = 5" "map ucast [src, dst, 0x85 :: u8] @ [0, 0] = [ucast src, ucast dst, 0x85, 0, 0 :: u32]"
    by simp_all
  show ?thesis
    using frame_reads [of "[src, dst, 0x85]" "data_writes [dst, src, 0x84] s"] RTS_answered [OF assms, of src dst]
    unfolding e by blast
qed

theorem request_to_send_answered_witness:
  "\<exists>t. data_reads 5 (data_writes [5, 9, 0x84] (node 3)) = ([ucast (9 :: u8), ucast (5 :: u8), 0x85, 0, 0], t)"
proof -
  have "lt_tx (node 3) = []" "RxEnable (ch (node 3) ChB)" by (simp_all add: node_def quiet_chip_def idle_channel_def)
  from request_to_send_answered [OF this, of 5 9] show ?thesis by blast
qed

end
