(* ===== verification/Mac_Memory.thy ===== *)
theory Mac_Memory
  imports Prelude
begin

section \<open>The Macintosh address space\<close>

text \<open>
  The 4GB guest window of \<open>BasiliskII/include/cpu_emulation.h\<close>: plain memory, the
  write-protected ROM range and the registry of memory-mapped I/O regions.
  \<open>ram\<close> is the host array \<open>Host_Mem_Base\<close>. A region's read handler is a value of
  the model (\<open>mm_read\<close>, absent for a write-only region); calls of a write handler are
  recorded in \<open>mmio_log\<close>, in order. A multi-byte access that starts in the last three
  bytes of the window wraps in the model, where the host would leave the reservation.
\<close>

record mmio_region =
  mm_base :: u32
  mm_length :: u32
  mm_read :: "(u32 \<Rightarrow> u32) option"
  mm_write :: bool

record mac =
  ram :: "u32 \<Rightarrow> u8"
  rom_base :: u32
  rom_size :: u32
  regions :: "mmio_region list"
  mmio_log :: "(u32 \<times> u32) list"

definition MMIO_MAX_REGIONS :: nat where
  "MMIO_MAX_REGIONS = 4"

definition region_covers :: "u32 \<Rightarrow> mmio_region \<Rightarrow> bool" where
  "region_covers addr r \<longleftrightarrow> mm_base r \<le> addr \<and> addr < mm_base r + mm_length r"

definition FindMMIORegion :: "mac \<Rightarrow> u32 \<Rightarrow> mmio_region option" where
  "FindMMIORegion m addr = find (region_covers addr) (regions m)"

definition is_mmio_addr :: "mac \<Rightarrow> u32 \<Rightarrow> bool" where
  "is_mmio_addr m addr \<longleftrightarrow> FindMMIORegion m addr \<noteq> None"

definition RegisterMMIORegion :: "mmio_region \<Rightarrow> mac \<Rightarrow> mac" where
  "RegisterMMIORegion r m =
     (if length (regions m) \<ge> MMIO_MAX_REGIONS then m else m\<lparr>regions := regions m @ [r]\<rparr>)"

definition ClearMMIORegions :: "mac \<Rightarrow> mac" where
  "ClearMMIORegions m = m\<lparr>regions := []\<rparr>"

definition rom_protected :: "mac \<Rightarrow> u32 \<Rightarrow> bool" where
  "rom_protected m addr \<longleftrightarrow> rom_base m \<le> addr \<and> addr < rom_base m + rom_size m"

text \<open>The handler a read (a write) is routed to, if any.\<close>

definition read_handler :: "mac \<Rightarrow> u32 \<Rightarrow> (u32 \<Rightarrow> u32) option" where
  "read_handler m addr = (case FindMMIORegion m addr of None \<Rightarrow> None | Some r \<Rightarrow> mm_read r)"

definition write_handled :: "mac \<Rightarrow> u32 \<Rightarrow> bool" where
  "write_handled m addr \<longleftrightarrow> (case FindMMIORegion m addr of None \<Rightarrow> False | Some r \<Rightarrow> mm_write r)"

definition mmio_call :: "u32 \<Rightarrow> u32 \<Rightarrow> mac \<Rightarrow> mac" where
  "mmio_call addr v m = m\<lparr>mmio_log := mmio_log m @ [(addr, v)]\<rparr>"

definition poke :: "u32 \<Rightarrow> u8 \<Rightarrow> mac \<Rightarrow> mac" where
  "poke addr b m = m\<lparr>ram := (ram m)(addr := b)\<rparr>"

subsection \<open>Reads\<close>

definition ReadMacInt8 :: "mac \<Rightarrow> u32 \<Rightarrow> u32" where
  "ReadMacInt8 m addr =
     (case read_handler m addr of Some f \<Rightarrow> f addr | None \<Rightarrow> ucast (ram m addr))"

definition ReadMacInt16 :: "mac \<Rightarrow> u32 \<Rightarrow> u32" where
  "ReadMacInt16 m addr =
     (case read_handler m addr of
        Some f \<Rightarrow> push_bit 8 (f addr) OR f (addr + 1)
      | None \<Rightarrow> of_be16 (ram m addr) (ram m (addr + 1)))"

definition ReadMacInt32 :: "mac \<Rightarrow> u32 \<Rightarrow> u32" where
  "ReadMacInt32 m addr =
     (if is_mmio_addr m addr
      then push_bit 16 (ReadMacInt16 m addr) OR ReadMacInt16 m (addr + 2)
      else of_be32 (ram m addr) (ram m (addr + 1)) (ram m (addr + 2)) (ram m (addr + 3)))"

subsection \<open>Writes\<close>

definition WriteMacInt8 :: "u32 \<Rightarrow> u32 \<Rightarrow> mac \<Rightarrow> mac" where
  "WriteMacInt8 addr b m =
     (if write_handled m addr then mmio_call addr b m
      else if rom_protected m addr then m
      else poke addr (ucast b) m)"

definition WriteMacInt16 :: "u32 \<Rightarrow> u32 \<Rightarrow> mac \<Rightarrow> mac" where
  "WriteMacInt16 addr w m =
     (if write_handled m addr then mmio_call (addr + 1) (w AND 0xff) (mmio_call addr (drop_bit 8 w) m)
      else if rom_protected m addr then m
      else poke (addr + 1) (ucast w) (poke addr (ucast (drop_bit 8 w)) m))"

definition WriteMacInt32 :: "u32 \<Rightarrow> u32 \<Rightarrow> mac \<Rightarrow> mac" where
  "WriteMacInt32 addr l m =
     (if is_mmio_addr m addr
      then WriteMacInt16 (addr + 2) (l AND 0xffff) (WriteMacInt16 addr (drop_bit 16 l) m)
      else if rom_protected m addr then m
      else poke (addr + 3) (ucast l)
             (poke (addr + 2) (ucast (drop_bit 8 l))
               (poke (addr + 1) (ucast (drop_bit 16 l))
                 (poke addr (ucast (drop_bit 24 l)) m))))"

text \<open>
  The block copies of \<open>cpu_emulation.h\<close> go to the host array directly: no handler is
  called and the ROM is not protected.
\<close>

definition fetch :: "mac \<Rightarrow> u32 \<Rightarrow> nat \<Rightarrow> u8 list" where
  "fetch m addr n = map (\<lambda>i. ram m (addr + of_nat i)) [0..<n]"

primrec store :: "u32 \<Rightarrow> u8 list \<Rightarrow> mac \<Rightarrow> mac" where
  "store addr [] m = m"
| "store addr (b # bs) m = store (addr + 1) bs (poke addr b m)"

definition Mac2Mac_memcpy :: "u32 \<Rightarrow> u32 \<Rightarrow> nat \<Rightarrow> mac \<Rightarrow> mac" where
  "Mac2Mac_memcpy dest src n m = store dest (fetch m src n) m"

definition Mac_memset :: "u32 \<Rightarrow> u8 \<Rightarrow> nat \<Rightarrow> mac \<Rightarrow> mac" where
  "Mac_memset addr c n m = store addr (replicate n c) m"

text \<open>An address range no device answers and no ROM protects: ordinary memory.\<close>

definition plain :: "mac \<Rightarrow> u32 \<Rightarrow> bool" where
  "plain m addr \<longleftrightarrow> \<not> is_mmio_addr m addr \<and> \<not> rom_protected m addr"

subsection \<open>Frame facts\<close>

named_theorems mac_frame \<open>fields of the memory record that an access leaves alone\<close>

lemma poke_sel [simp]:
  "ram (poke a b m) = (ram m)(a := b)" "rom_base (poke a b m) = rom_base m"
  "rom_size (poke a b m) = rom_size m" "regions (poke a b m) = regions m"
  "mmio_log (poke a b m) = mmio_log m"
  by (simp_all add: poke_def)

lemma mmio_call_sel [simp]:
  "ram (mmio_call a v m) = ram m" "rom_base (mmio_call a v m) = rom_base m"
  "rom_size (mmio_call a v m) = rom_size m" "regions (mmio_call a v m) = regions m"
  "mmio_log (mmio_call a v m) = mmio_log m @ [(a, v)]"
  by (simp_all add: mmio_call_def)

lemma store_sel [simp]:
  "rom_base (store a bs m) = rom_base m" "rom_size (store a bs m) = rom_size m"
  "regions (store a bs m) = regions m" "mmio_log (store a bs m) = mmio_log m"
  by (induction bs arbitrary: a m) simp_all

lemma WriteMacInt8_sel [simp]:
  "rom_base (WriteMacInt8 a v m) = rom_base m" "rom_size (WriteMacInt8 a v m) = rom_size m"
  "regions (WriteMacInt8 a v m) = regions m"
  by (simp_all add: WriteMacInt8_def)

lemma WriteMacInt16_sel [simp]:
  "rom_base (WriteMacInt16 a v m) = rom_base m" "rom_size (WriteMacInt16 a v m) = rom_size m"
  "regions (WriteMacInt16 a v m) = regions m"
  by (simp_all add: WriteMacInt16_def)

lemma WriteMacInt32_sel [simp]:
  "rom_base (WriteMacInt32 a v m) = rom_base m" "rom_size (WriteMacInt32 a v m) = rom_size m"
  "regions (WriteMacInt32 a v m) = regions m"
  by (simp_all add: WriteMacInt32_def)

lemma routing_cong:
  assumes "regions m = regions m'" "rom_base m = rom_base m'" "rom_size m = rom_size m'"
  shows "FindMMIORegion m a = FindMMIORegion m' a" "is_mmio_addr m a = is_mmio_addr m' a"
    "read_handler m a = read_handler m' a" "write_handled m a = write_handled m' a"
    "rom_protected m a = rom_protected m' a" "plain m a = plain m' a"
  using assms
  by (simp_all add: FindMMIORegion_def is_mmio_addr_def read_handler_def write_handled_def
      rom_protected_def plain_def)

lemma plainD [simp]:
  assumes "plain m a"
  shows "is_mmio_addr m a = False" "rom_protected m a = False" "read_handler m a = None"
    "write_handled m a = False"
  using assms by (auto simp: plain_def is_mmio_addr_def read_handler_def write_handled_def)

lemma routing_write [simp]:
  "is_mmio_addr (WriteMacInt8 b v m) a = is_mmio_addr m a"
  "is_mmio_addr (WriteMacInt16 b v m) a = is_mmio_addr m a"
  "is_mmio_addr (WriteMacInt32 b v m) a = is_mmio_addr m a"
  "is_mmio_addr (poke b c m) a = is_mmio_addr m a"
  "is_mmio_addr (store b bs m) a = is_mmio_addr m a"
  "plain (WriteMacInt8 b v m) a = plain m a"
  "plain (WriteMacInt16 b v m) a = plain m a"
  "plain (WriteMacInt32 b v m) a = plain m a"
  "plain (poke b c m) a = plain m a"
  "plain (store b bs m) a = plain m a"
  by (rule routing_cong; simp)+

subsection \<open>Read after write\<close>

lemma ram_WriteMacInt8: "plain m a \<Longrightarrow> ram (WriteMacInt8 a v m) = (ram m)(a := ucast v)"
  by (simp add: WriteMacInt8_def)

lemma ram_WriteMacInt16:
  "plain m a \<Longrightarrow> ram (WriteMacInt16 a v m) = (ram m)(a := ucast (drop_bit 8 v), a + 1 := ucast v)"
  by (simp add: WriteMacInt16_def)

lemma ram_WriteMacInt32:
  "plain m a \<Longrightarrow> ram (WriteMacInt32 a v m) =
     (ram m)(a := ucast (drop_bit 24 v), a + 1 := ucast (drop_bit 16 v),
             a + 2 := ucast (drop_bit 8 v), a + 3 := ucast v)"
  by (simp add: WriteMacInt32_def)

lemmas ram_write [mac_frame] = ram_WriteMacInt8 ram_WriteMacInt16 ram_WriteMacInt32

lemma ReadMacInt8_plain: "plain m a \<Longrightarrow> ReadMacInt8 m a = ucast (ram m a)"
  by (simp add: ReadMacInt8_def)

lemma ReadMacInt16_plain: "plain m a \<Longrightarrow> ReadMacInt16 m a = of_be16 (ram m a) (ram m (a + 1))"
  by (simp add: ReadMacInt16_def)

lemma ReadMacInt32_plain:
  "plain m a \<Longrightarrow> ReadMacInt32 m a = of_be32 (ram m a) (ram m (a + 1)) (ram m (a + 2)) (ram m (a + 3))"
  by (simp add: ReadMacInt32_def)

lemmas read_plain [mac_frame] = ReadMacInt8_plain ReadMacInt16_plain ReadMacInt32_plain

lemma mask_8_u32: "0xff = (mask 8 :: u32)" and mask_16_u32: "0xffff = (mask 16 :: u32)"
  by (simp_all add: mask_eq_exp_minus_1)

lemma ucast_ucast_u8: "ucast (ucast v :: u8) = (v :: u32) AND 0xff"
  unfolding mask_8_u32 by (rule bit_word_eqI) (auto simp: bit_simps)

lemma of_be16_low: "of_be16 (ucast (drop_bit 8 v)) (ucast v) = (v :: u32) AND 0xffff"
proof (unfold mask_16_u32, rule bit_word_eqI)
  fix n assume "n < LENGTH(32)"
  then consider "n < 8" | "8 \<le> n" "n < 16" | "16 \<le> n" "n < 32"
    by fastforce
  then show "bit (of_be16 (ucast (drop_bit 8 v)) (ucast v)) n = bit (v AND mask 16) n"
    by cases (auto simp: of_be16_def bit_simps)
qed

lemma ReadMacInt8_same [mac_frame]:
  "plain m a \<Longrightarrow> ReadMacInt8 (WriteMacInt8 a v m) a = v AND 0xff"
  by (simp add: mac_frame ucast_ucast_u8)

lemma ReadMacInt16_same [mac_frame]:
  "plain m a \<Longrightarrow> ReadMacInt16 (WriteMacInt16 a v m) a = v AND 0xffff"
  by (simp add: mac_frame of_be16_low)

lemma ReadMacInt32_same [mac_frame]:
  "plain m a \<Longrightarrow> ReadMacInt32 (WriteMacInt32 a v m) a = v"
  by (simp add: mac_frame of_be32_be32)

lemma ram_store_other:
  "\<forall>i < length bs. x \<noteq> a + of_nat i \<Longrightarrow> ram (store a bs m) x = ram m x"
proof (induction bs arbitrary: a m)
  case (Cons b bs)
  have "\<forall>i < length bs. x \<noteq> (a + 1) + of_nat i"
    using Cons.prems by (auto simp: add.assoc dest: spec [where x = "Suc _"])
  moreover have "x \<noteq> a" using Cons.prems by (auto dest: spec [where x = 0])
  ultimately show ?case using Cons.IH by simp
qed simp

lemma fetch_store_same:
  "length bs \<le> 2 ^ 32 \<Longrightarrow> fetch (store a bs m) a (length bs) = bs"
proof -
  assume "length bs \<le> 2 ^ 32"
  then show ?thesis
  proof (induction bs arbitrary: a m)
    case (Cons b bs)
    have fst: "ram (store (a + 1) bs (poke a b m)) a = b"
    proof (subst ram_store_other)
      show "\<forall>i < length bs. a \<noteq> a + 1 + of_nat i"
      proof (intro allI impI)
        fix i assume "i < length bs"
        with Cons.prems have "Suc i < 2 ^ 32" by simp
        then have "(of_nat (Suc i) :: u32) \<noteq> 0"
          by (subst word_of_nat_eq_0_iff) (auto dest: dvd_imp_le)
        then show "a \<noteq> a + 1 + of_nat i" by (simp add: add.assoc)
      qed
    qed simp
    have "fetch (store (a + 1) bs (poke a b m)) (a + 1) (length bs) = bs"
      using Cons.prems by (intro Cons.IH) simp
    then show ?case
      using fst by (simp add: fetch_def upt_conv_Cons map_Suc_upt [symmetric] add.assoc o_def del: upt_Suc)
  qed (simp add: fetch_def)
qed

lemma length_fetch [simp]: "length (fetch m a n) = n"
  by (simp add: fetch_def)

end
