(* ===== verification/SCSI_Manager.thy ===== *)
theory SCSI_Manager
  imports Mac_Memory
begin

section \<open>The old SCSI Manager\<close>

text \<open>
  \<open>BasiliskII/scsi.cpp\<close>: the phase machine of a SCSI transaction and the interpreter of
  transfer information blocks (TIBs), which turns the guest's TIB program into the
  scatter/gather table a command is completed with. The target emulation behind the bus
  is the interface of \<open>include/scsi.h\<close>; its four operations are arguments here and
  the laws the manager relies on are the locale \<open>scsi_targets\<close>. Messages
  (\<open>SCSI_LOG\<close>, \<open>ErrorAlert\<close>) are left out. A scatter/gather entry holds the guest
  address; the code holds \<open>Host_Mem_Base\<close> plus that address, so the entries compare
  as unbounded numbers.
\<close>

datatype scsi_phase = PH_FREE | PH_ARBITRATED | PH_SELECTED | PH_TRANSFER

record 'd smgr =
  target_id :: int
  phase :: scsi_phase
  fake_status :: u16
  reading :: bool
  sg :: "(u32 \<times> u32) list"
  sg_total_length :: u32
  mem :: mac
  dev :: 'd

definition scCommErr :: int where "scCommErr = 2"
definition scBadParmsErr :: int where "scBadParmsErr = 4"
definition scPhaseErr :: int where "scPhaseErr = 5"
definition scCompareErr :: int where "scCompareErr = 6"
definition scMgrBusyErr :: int where "scMgrBusyErr = 7"
definition scSequenceErr :: int where "scSequenceErr = 8"

definition scInc :: u16 where "scInc = 1"
definition scNoInc :: u16 where "scNoInc = 2"
definition scAdd :: u16 where "scAdd = 3"
definition scMove :: u16 where "scMove = 4"
definition scLoop :: u16 where "scLoop = 5"
definition scNop :: u16 where "scNop = 6"
definition scStop :: u16 where "scStop = 7"
definition scComp :: u16 where "scComp = 8"

lemmas tib_opcodes = scInc_def scNoInc_def scAdd_def scMove_def scLoop_def scNop_def scStop_def scComp_def
lemmas sc_errors = scCommErr_def scBadParmsErr_def scPhaseErr_def scCompareErr_def scMgrBusyErr_def scSequenceErr_def

definition SG_TABLE_SIZE :: nat where "SG_TABLE_SIZE = 32768"

subsection \<open>The TIB interpreter\<close>

text \<open>
  One scatter/gather entry: merged into the previous entry when it continues it, an
  error when the table is full. The total grows only when an entry was made.
\<close>

definition sg_append :: "u32 \<Rightarrow> u32 \<Rightarrow> 'd smgr \<Rightarrow> int + 'd smgr" where
  "sg_append ptr len s =
     (if sg s \<noteq> [] \<and> unat ptr = unat (fst (last (sg s))) + unat (snd (last (sg s)))
      then Inr (s\<lparr>sg := butlast (sg s) @ [(fst (last (sg s)), snd (last (sg s)) + len)],
                  sg_total_length := sg_total_length s + len\<rparr>)
      else if length (sg s) = SG_TABLE_SIZE then Inl (- 108)
      else Inr (s\<lparr>sg := sg s @ [(ptr, len)], sg_total_length := sg_total_length s + len\<rparr>))"

text \<open>
  One iteration of the loop of \<open>exec_tib\<close>: \<open>Inl\<close> is a \<open>return\<close>, \<open>Inr\<close> goes round
  again at the given TIB address.
\<close>

definition tib_step :: "u32 \<Rightarrow> 'd smgr \<Rightarrow> (int \<times> 'd smgr) + (u32 \<times> 'd smgr)" where
  "tib_step tib0 s =
     (let cmd = (ucast (ReadMacInt16 (mem s) tib0) :: u16);
          ptr = ReadMacInt32 (mem s) (tib0 + 2);
          len = ReadMacInt32 (mem s) (tib0 + 6);
          tib = tib0 + 10
      in if cmd = scInc \<or> cmd = scNoInc then
           (let s1 = (if cmd = scInc then s\<lparr>mem := WriteMacInt32 (tib - 8) (ptr + len) (mem s)\<rparr> else s)
            in case sg_append ptr len s1 of Inl e \<Rightarrow> Inl (e, s1) | Inr s2 \<Rightarrow> Inr (tib, s2))
         else if cmd = scAdd then
           Inr (tib, s\<lparr>mem := WriteMacInt32 ptr (ReadMacInt32 (mem s) ptr + len) (mem s)\<rparr>)
         else if cmd = scMove then
           Inr (tib, s\<lparr>mem := WriteMacInt32 len (ReadMacInt32 (mem s) ptr) (mem s)\<rparr>)
         else if cmd = scLoop then
           Inr (if len - 1 > 0 then tib + (ptr - 10) else tib,
                s\<lparr>mem := WriteMacInt32 (tib - 4) (len - 1) (mem s)\<rparr>)
         else if cmd = scNop then Inr (tib, s)
         else if cmd = scStop then Inl (0, s)
         else if cmd = scComp then Inl (scCompareErr, s)
         else Inl (scBadParmsErr, s))"

text \<open>The loop; a TIB program that never stops makes it run for ever (\<open>None\<close>).\<close>

partial_function (option) exec_tib :: "u32 \<Rightarrow> 'd smgr \<Rightarrow> (int \<times> 'd smgr) option" where
  "exec_tib tib s =
     (case tib_step tib s of Inl r \<Rightarrow> Some r | Inr t \<Rightarrow> exec_tib (fst t) (snd t))"

subsection \<open>The entry points\<close>

definition SCSIReset :: "'d smgr \<Rightarrow> int \<times> 'd smgr" where
  "SCSIReset s = (0, s\<lparr>phase := PH_FREE, fake_status := 0, sg := [], target_id := 8\<rparr>)"

definition SCSIGet :: "'d smgr \<Rightarrow> int \<times> 'd smgr" where
  "SCSIGet s =
     (if phase s \<noteq> PH_FREE then (scMgrBusyErr, s)
      else (0, s\<lparr>phase := PH_ARBITRATED, fake_status := 0x40, reading := False, sg := [],
                 sg_total_length := 0\<rparr>))"

definition SCSISelect :: "('d \<Rightarrow> int \<Rightarrow> bool) \<Rightarrow> int \<Rightarrow> 'd smgr \<Rightarrow> int \<times> 'd smgr" where
  "SCSISelect present i s =
     (if phase s \<noteq> PH_ARBITRATED then (scSequenceErr, s)
      else (let s1 = (if 0 \<le> i \<and> i \<le> 7 then s\<lparr>target_id := i\<rparr> else s)
            in if 0 \<le> i \<and> i \<le> 7 \<and> present (dev s) i
               then (0, s1\<lparr>phase := PH_SELECTED, fake_status := 0x6a\<rparr>)
               else (scCommErr, s1\<lparr>phase := PH_FREE, fake_status := 0\<rparr>)))"

definition cdb_lun :: "u8 list \<Rightarrow> int" where
  "cdb_lun cmd = uint (drop_bit 5 (cmd ! 1) AND 7)"

definition SCSICmd ::
  "(int \<Rightarrow> u8 list \<Rightarrow> 'd \<Rightarrow> 'd) \<Rightarrow> (int \<Rightarrow> int \<Rightarrow> 'd \<Rightarrow> bool \<times> 'd) \<Rightarrow>
   int \<Rightarrow> u8 list \<Rightarrow> 'd smgr \<Rightarrow> int \<times> 'd smgr" where
  "SCSICmd set_cmd set_target cmd_length cmd s =
     (if phase s \<noteq> PH_SELECTED then (scPhaseErr, s)
      else if cmd_length \<noteq> 6 \<and> cmd_length \<noteq> 10 \<and> cmd_length \<noteq> 12 then (scBadParmsErr, s)
      else (let d1 = set_cmd cmd_length cmd (dev s);
                (ok, d2) = set_target (target_id s) (cdb_lun cmd) d1
            in if \<not> ok then (scCommErr, s\<lparr>dev := d2, phase := PH_FREE, fake_status := 0\<rparr>)
               else (0, s\<lparr>dev := d2, phase := PH_TRANSFER, fake_status := 0x6e\<rparr>)))"

definition SCSIRead :: "u32 \<Rightarrow> 'd smgr \<Rightarrow> (int \<times> 'd smgr) option" where
  "SCSIRead tib s =
     (if phase s \<noteq> PH_TRANSFER then Some (scPhaseErr, s) else exec_tib tib (s\<lparr>reading := True\<rparr>))"

definition SCSIWrite :: "u32 \<Rightarrow> 'd smgr \<Rightarrow> (int \<times> 'd smgr) option" where
  "SCSIWrite tib s =
     (if phase s \<noteq> PH_TRANSFER then Some (scPhaseErr, s) else exec_tib tib (s\<lparr>reading := False\<rparr>))"

type_synonym 'd send_fn =
  "u32 \<Rightarrow> bool \<Rightarrow> (u32 \<times> u32) list \<Rightarrow> mac \<Rightarrow> 'd \<Rightarrow> (bool \<times> u16 option \<times> mac \<times> 'd) option"

text \<open>
  The status word starts as 0 and the target sets it; a target that gives up before that
  (\<open>None\<close>) leaves the 0.
\<close>

definition SCSIComplete :: "'d send_fn \<Rightarrow> u32 \<Rightarrow> u32 \<Rightarrow> 'd smgr \<Rightarrow> (int \<times> 'd smgr) option" where
  "SCSIComplete send_cmd message stat s0 =
     (let s = s0\<lparr>mem := WriteMacInt16 message 0 (mem s0)\<rparr>
      in if phase s \<noteq> PH_TRANSFER then Some (scPhaseErr, s)
         else (case send_cmd (sg_total_length s) (reading s) (sg s) (mem s) (dev s) of
                 None \<Rightarrow> None
               | Some (success, st, m, d) \<Rightarrow>
                   Some (if success then 0 else scCommErr,
                         s\<lparr>mem := WriteMacInt16 stat (ucast (case st of None \<Rightarrow> 0 | Some x \<Rightarrow> x)) m,
                           dev := d, phase := PH_FREE, fake_status := 0\<rparr>)))"

definition SCSIStat :: "'d smgr \<Rightarrow> u16" where
  "SCSIStat s = fake_status s"

definition SCSIMgrBusy :: "'d smgr \<Rightarrow> int" where
  "SCSIMgrBusy s = (if phase s \<noteq> PH_FREE then 1 else 0)"

subsection \<open>The phase machine\<close>

definition status_of_phase :: "scsi_phase \<Rightarrow> u16" where
  "status_of_phase p =
     (case p of PH_FREE \<Rightarrow> 0 | PH_ARBITRATED \<Rightarrow> 0x40 | PH_SELECTED \<Rightarrow> 0x6a | PH_TRANSFER \<Rightarrow> 0x6e)"

text \<open>
  What the globals of \<open>scsi.cpp\<close> keep true between calls: the faked status word says the
  phase, the table fits, the total is the (wrapping) sum of its lengths while a
  transaction is open, and a selected target has a valid id.
\<close>

definition mgr_inv :: "'d smgr \<Rightarrow> bool" where
  "mgr_inv s \<longleftrightarrow>
     fake_status s = status_of_phase (phase s) \<and>
     length (sg s) \<le> SG_TABLE_SIZE \<and>
     (phase s \<noteq> PH_FREE \<longrightarrow> sg_total_length s = sum_list (map snd (sg s))) \<and>
     (phase s = PH_SELECTED \<or> phase s = PH_TRANSFER \<longrightarrow> 0 \<le> target_id s \<and> target_id s \<le> 7)"

inductive mgr_step ::
  "('d \<Rightarrow> int \<Rightarrow> bool) \<Rightarrow> (int \<Rightarrow> u8 list \<Rightarrow> 'd \<Rightarrow> 'd) \<Rightarrow> (int \<Rightarrow> int \<Rightarrow> 'd \<Rightarrow> bool \<times> 'd) \<Rightarrow>
   'd send_fn \<Rightarrow> 'd smgr \<Rightarrow> 'd smgr \<Rightarrow> bool"
  for present set_cmd set_target send_cmd where
  reset: "SCSIReset s = (r, t) \<Longrightarrow> mgr_step present set_cmd set_target send_cmd s t"
| get: "SCSIGet s = (r, t) \<Longrightarrow> mgr_step present set_cmd set_target send_cmd s t"
| select: "SCSISelect present i s = (r, t) \<Longrightarrow> mgr_step present set_cmd set_target send_cmd s t"
| cmd: "SCSICmd set_cmd set_target n c s = (r, t) \<Longrightarrow> mgr_step present set_cmd set_target send_cmd s t"
| rd: "SCSIRead tib s = Some (r, t) \<Longrightarrow> mgr_step present set_cmd set_target send_cmd s t"
| wr: "SCSIWrite tib s = Some (r, t) \<Longrightarrow> mgr_step present set_cmd set_target send_cmd s t"
| complete: "SCSIComplete send_cmd msg st s = Some (r, t) \<Longrightarrow>
     mgr_step present set_cmd set_target send_cmd s t"

inductive_cases mgr_stepE: "mgr_step present set_cmd set_target send_cmd s t"

inductive mgr_run ::
  "('d \<Rightarrow> int \<Rightarrow> bool) \<Rightarrow> (int \<Rightarrow> u8 list \<Rightarrow> 'd \<Rightarrow> 'd) \<Rightarrow> (int \<Rightarrow> int \<Rightarrow> 'd \<Rightarrow> bool \<times> 'd) \<Rightarrow>
   'd send_fn \<Rightarrow> 'd smgr \<Rightarrow> 'd smgr \<Rightarrow> bool"
  for present set_cmd set_target send_cmd s where
  start: "mgr_run present set_cmd set_target send_cmd s s"
| step: "mgr_run present set_cmd set_target send_cmd s t \<Longrightarrow>
     mgr_step present set_cmd set_target send_cmd t u \<Longrightarrow> mgr_run present set_cmd set_target send_cmd s u"

lemma sg_append_Inr:
  assumes "sg_append ptr len s = Inr t"
  shows "sum_list (map snd (sg t)) = sum_list (map snd (sg s)) + len"
    and "length (sg s) \<le> SG_TABLE_SIZE \<Longrightarrow> length (sg t) \<le> SG_TABLE_SIZE"
    and "sg_total_length t = sg_total_length s + len"
    and "t = s\<lparr>sg := sg t, sg_total_length := sg_total_length t\<rparr>"
proof -
  have last: "sg s \<noteq> [] \<Longrightarrow> sum_list (map snd (butlast (sg s))) + snd (last (sg s)) = sum_list (map snd (sg s))"
    by (cases "sg s" rule: rev_cases) simp_all
  show "sum_list (map snd (sg t)) = sum_list (map snd (sg s)) + len"
    using assms last by (auto simp: sg_append_def add.assoc [symmetric] split: if_splits)
  show "length (sg s) \<le> SG_TABLE_SIZE \<Longrightarrow> length (sg t) \<le> SG_TABLE_SIZE"
    using assms by (cases "sg s" rule: rev_cases) (auto simp: sg_append_def split: if_splits)
  show "sg_total_length t = sg_total_length s + len" "t = s\<lparr>sg := sg t, sg_total_length := sg_total_length t\<rparr>"
    using assms by (auto simp: sg_append_def split: if_splits)
qed

lemma mgr_inv_cong:
  "mgr_inv s \<Longrightarrow> mgr_inv (s\<lparr>mem := m\<rparr>)" "mgr_inv s \<Longrightarrow> mgr_inv (s\<lparr>reading := b\<rparr>)"
  by (auto simp: mgr_inv_def)

lemma sg_append_inv:
  assumes "sg_append ptr len s = Inr t" "mgr_inv s"
  shows "mgr_inv t" "phase t = phase s"
proof -
  show ph: "phase t = phase s"
    using assms(1) by (auto simp: sg_append_def split: if_splits)
  have "target_id t = target_id s" "fake_status t = fake_status s"
    using assms(1) by (auto simp: sg_append_def split: if_splits)
  then show "mgr_inv t"
    using assms ph sg_append_Inr [OF assms(1)] by (auto simp: mgr_inv_def)
qed

definition tib_post :: "('d smgr \<Rightarrow> bool) \<Rightarrow> (int \<times> 'd smgr) + (u32 \<times> 'd smgr) \<Rightarrow> bool" where
  "tib_post P r \<longleftrightarrow> (case r of Inl (_, t) \<Rightarrow> P t | Inr (_, t) \<Rightarrow> P t)"

lemma tib_post_simps [simp]: "tib_post P (Inl (e, t)) = P t" "tib_post P (Inr (a, t)) = P t"
  by (simp_all add: tib_post_def)

lemma tib_post_if: "tib_post P x \<Longrightarrow> tib_post P y \<Longrightarrow> tib_post P (if c then x else y)"
  by simp

lemma tib_post_append:
  assumes "P u" "\<And>ptr len t. sg_append ptr len u = Inr t \<Longrightarrow> P t"
  shows "tib_post P (case sg_append ptr len u of Inl e \<Rightarrow> Inl (e, u) | Inr t \<Rightarrow> Inr (tib, t))"
  using assms by (auto split: sum.split)

text \<open>A predicate that ignores memory and survives a table entry survives an iteration.\<close>

lemma tib_step_post:
  assumes "P s" and mem: "\<And>u m. P u \<Longrightarrow> P (u\<lparr>mem := m\<rparr>)"
    and app: "\<And>ptr len u t. P u \<Longrightarrow> sg_append ptr len u = Inr t \<Longrightarrow> P t"
  shows "tib_post P (tib_step tib s)"
proof -
  have m: "P (s\<lparr>mem := m\<rparr>)" for m by (rule mem) (rule assms(1))
  have c: "P (if c then s\<lparr>mem := m\<rparr> else s)" for c m
    using m assms(1) by (cases c) simp_all
  have a: "tib_post P (case sg_append ptr len (if c then s\<lparr>mem := m\<rparr> else s) of
      Inl e \<Rightarrow> Inl (e, if c then s\<lparr>mem := m\<rparr> else s) | Inr t \<Rightarrow> Inr (tib', t))" for ptr len c m tib'
    by (rule tib_post_append) (rule c, erule app [OF c])
  show ?thesis
    unfolding tib_step_def Let_def
    by (intro tib_post_if a) (simp_all only: tib_post_simps assms(1) m)
qed

lemma tib_step_inv: "mgr_inv s \<Longrightarrow> tib_post mgr_inv (tib_step tib s)"
  by (erule tib_step_post) (auto intro: mgr_inv_cong sg_append_inv)

text \<open>What every iteration keeps, a returning run keeps.\<close>

lemma exec_tib_rule:
  assumes step: "\<And>tib s. P s \<Longrightarrow> tib_post P (tib_step tib s)"
    and ret: "exec_tib tib s = Some (r, t)" and init: "P s"
  shows "P t"
proof -
  have "P s \<longrightarrow> P (snd rt)" if "exec_tib tib s = Some rt" for rt
  proof (rule exec_tib.raw_induct [where P = "\<lambda>tib s rt. P s \<longrightarrow> P (snd rt)", OF _ that])
    fix f tib s rt
    assume IH: "\<And>tib s rt. f tib s = Some rt \<Longrightarrow> P s \<longrightarrow> P (snd rt)"
      and eq: "(case tib_step tib s of Inl r \<Rightarrow> Some r | Inr t \<Rightarrow> f (fst t) (snd t)) = Some rt"
    show "P s \<longrightarrow> P (snd rt)"
      using eq step [of s tib] by (auto simp: tib_post_def split: sum.splits dest: IH)
  qed
  then show ?thesis using ret init by fastforce
qed

lemma exec_tib_inv: "exec_tib tib s = Some (r, t) \<Longrightarrow> mgr_inv s \<Longrightarrow> mgr_inv t"
  by (rule exec_tib_rule [where P = mgr_inv]) (rule tib_step_inv)

lemma SCSIReset_inv: "SCSIReset s = (r, t) \<Longrightarrow> mgr_inv t"
  by (auto simp: SCSIReset_def mgr_inv_def status_of_phase_def)

lemma SCSIGet_inv: "SCSIGet s = (r, t) \<Longrightarrow> mgr_inv s \<Longrightarrow> mgr_inv t"
  by (auto simp: SCSIGet_def mgr_inv_def status_of_phase_def split: if_splits)

lemma SCSISelect_inv: "SCSISelect present i s = (r, t) \<Longrightarrow> mgr_inv s \<Longrightarrow> mgr_inv t"
  by (auto simp: SCSISelect_def mgr_inv_def status_of_phase_def Let_def split: if_splits)

lemma SCSICmd_inv: "SCSICmd set_cmd set_target n c s = (r, t) \<Longrightarrow> mgr_inv s \<Longrightarrow> mgr_inv t"
  by (auto simp: SCSICmd_def mgr_inv_def status_of_phase_def Let_def split: if_splits prod.splits)

lemma SCSIRead_inv: "SCSIRead tib s = Some (r, t) \<Longrightarrow> mgr_inv s \<Longrightarrow> mgr_inv t"
  by (auto simp: SCSIRead_def split: if_splits intro: exec_tib_inv mgr_inv_cong)

lemma SCSIWrite_inv: "SCSIWrite tib s = Some (r, t) \<Longrightarrow> mgr_inv s \<Longrightarrow> mgr_inv t"
  by (auto simp: SCSIWrite_def split: if_splits intro: exec_tib_inv mgr_inv_cong)

lemma SCSIComplete_inv: "SCSIComplete send_cmd msg st s = Some (r, t) \<Longrightarrow> mgr_inv s \<Longrightarrow> mgr_inv t"
  by (auto simp: SCSIComplete_def mgr_inv_def status_of_phase_def Let_def split: if_splits option.splits)

lemmas mgr_op_inv = SCSIReset_inv SCSIGet_inv SCSISelect_inv SCSICmd_inv SCSIRead_inv SCSIWrite_inv
  SCSIComplete_inv

lemma mgr_step_inv: "mgr_step present set_cmd set_target send_cmd s t \<Longrightarrow> mgr_inv s \<Longrightarrow> mgr_inv t"
  by (erule mgr_stepE) (auto intro: mgr_op_inv)

lemma mgr_run_inv: "mgr_run present set_cmd set_target send_cmd s t \<Longrightarrow> mgr_inv s \<Longrightarrow> mgr_inv t"
  by (induction rule: mgr_run.induct) (auto intro: mgr_step_inv)

subsection \<open>The scatter/gather table as a list of byte addresses\<close>

definition seg_addrs :: "u32 \<Rightarrow> u32 \<Rightarrow> nat list" where
  "seg_addrs ptr len = [unat ptr..<unat ptr + unat len]"

definition sg_addrs :: "(u32 \<times> u32) list \<Rightarrow> nat list" where
  "sg_addrs xs = concat (map (\<lambda>(p, l). seg_addrs p l) xs)"

lemma sg_addrs_simps [simp]:
  "sg_addrs [] = []" "sg_addrs (xs @ ys) = sg_addrs xs @ sg_addrs ys"
  "sg_addrs ((p, l) # xs) = seg_addrs p l @ sg_addrs xs"
  by (simp_all add: sg_addrs_def)

text \<open>No entry is longer than 4GB when the whole transfer is not.\<close>

definition sg_bytes :: "(u32 \<times> u32) list \<Rightarrow> nat" where
  "sg_bytes xs = sum_list (map (\<lambda>e. unat (snd e)) xs)"

lemma sg_append_addrs:
  assumes "sg_append ptr len s = Inr t" and "sg_bytes (sg s) + unat len < 2 ^ 32"
  shows "sg_addrs (sg t) = sg_addrs (sg s) @ seg_addrs ptr len"
    and "sg_bytes (sg t) = sg_bytes (sg s) + unat len"
proof -
  have "sg_addrs (sg t) = sg_addrs (sg s) @ seg_addrs ptr len \<and> sg_bytes (sg t) = sg_bytes (sg s) + unat len"
  proof (cases "sg s" rule: rev_cases)
    case Nil
    with assms(1) show ?thesis by (auto simp: sg_append_def sg_bytes_def split: if_splits)
  next
    case (snoc ys y)
    obtain p l where y: "y = (p, l)" by force
    have "unat l + unat len < 2 ^ 32" using assms(2) snoc y by (simp add: sg_bytes_def)
    then have l: "unat (l + len) = unat l + unat len" by (simp add: unat_plus_no_wrap)
    have m: "seg_addrs p (l + len) = seg_addrs p l @ seg_addrs ptr len" if "unat ptr = unat p + unat l"
      using that l upt_add_eq_append [of "unat p" "unat p + unat l" "unat len"]
      by (simp add: seg_addrs_def add.assoc)
    show ?thesis
      using assms(1) snoc y l m by (auto simp: sg_append_def sg_bytes_def split: if_splits)
  qed
  then show "sg_addrs (sg t) = sg_addrs (sg s) @ seg_addrs ptr len"
    "sg_bytes (sg t) = sg_bytes (sg s) + unat len" by simp_all
qed

subsection \<open>Two TIB programs every driver uses\<close>

definition tib_entry :: "mac \<Rightarrow> u32 \<Rightarrow> u16 \<Rightarrow> u32 \<Rightarrow> u32 \<Rightarrow> bool" where
  "tib_entry m a c ptr len \<longleftrightarrow>
     (ucast (ReadMacInt16 m a) :: u16) = c \<and> ReadMacInt32 m (a + 2) = ptr \<and> ReadMacInt32 m (a + 6) = len"

text \<open>A straight list of segments, then \<open>scStop\<close>.\<close>

primrec noinc_tib :: "mac \<Rightarrow> u32 \<Rightarrow> (u32 \<times> u32) list \<Rightarrow> bool" where
  "noinc_tib m a [] \<longleftrightarrow> (ucast (ReadMacInt16 m a) :: u16) = scStop"
| "noinc_tib m a (e # es) \<longleftrightarrow> tib_entry m a scNoInc (fst e) (snd e) \<and> noinc_tib m (a + 10) es"

lemma tib_step_stop: "(ucast (ReadMacInt16 (mem s) a) :: u16) = scStop \<Longrightarrow> tib_step a s = Inl (0, s)"
  by (simp add: tib_step_def Let_def tib_opcodes)

lemma tib_step_noinc:
  "tib_entry (mem s) a scNoInc ptr len \<Longrightarrow> sg_append ptr len s = Inr t \<Longrightarrow> tib_step a s = Inr (a + 10, t)"
  by (simp add: tib_step_def Let_def tib_opcodes tib_entry_def)

text \<open>A segment at \<open>ptr\<close> continues the last entry of the table.\<close>

definition continues :: "'d smgr \<Rightarrow> u32 \<Rightarrow> bool" where
  "continues s ptr \<longleftrightarrow>
     sg s \<noteq> [] \<and> unat ptr = unat (fst (last (sg s))) + unat (snd (last (sg s)))"

lemma sg_append_room:
  assumes "length (sg s) < SG_TABLE_SIZE \<or> continues s ptr"
  obtains t where "sg_append ptr len s = Inr t" "length (sg t) \<le> Suc (length (sg s))" "mem t = mem s"
proof -
  have "\<exists>t. sg_append ptr len s = Inr t \<and> length (sg t) \<le> Suc (length (sg s)) \<and> mem t = mem s"
    using assms by (cases "continues s ptr") (auto simp: sg_append_def continues_def)
  then show ?thesis using that by blast
qed

lemma sg_append_continues:
  assumes "sg_append ptr len s = Inr t" "sg_bytes (sg s) + unat len < 2 ^ 32" "unat ptr + unat len < 2 ^ 32"
  shows "continues t (ptr + len)"
proof -
  have "unat (snd (last (sg s))) + unat len < 2 ^ 32" if "sg s \<noteq> []"
    using that assms(2) by (cases "sg s" rule: rev_cases) (simp_all add: sg_bytes_def)
  then show ?thesis
    using assms(1,3) by (auto simp: sg_append_def continues_def unat_plus_no_wrap split: if_splits)
qed

lemma exec_tib_noinc:
  assumes "noinc_tib (mem s) a es" "sg_bytes (sg s) + sg_bytes es < 2 ^ 32"
    "length (sg s) + length es \<le> SG_TABLE_SIZE"
  shows "\<exists>t. exec_tib a s = Some (0, t) \<and> sg_addrs (sg t) = sg_addrs (sg s) @ sg_addrs es \<and> mem t = mem s"
  using assms
proof (induction es arbitrary: a s)
  case Nil
  then show ?case by (simp add: exec_tib.simps [of a s] tib_step_stop)
next
  case (Cons e es)
  obtain ptr len where e: "e = (ptr, len)" by force
  have "length (sg s) < SG_TABLE_SIZE" using Cons.prems(3) by simp
  then obtain u where u: "sg_append ptr len s = Inr u" "length (sg u) \<le> Suc (length (sg s))" "mem u = mem s"
    by (rule sg_append_room [OF disjI1])
  have room: "sg_bytes (sg s) + unat len < 2 ^ 32" using Cons.prems(2) e by (simp add: sg_bytes_def)
  note app = sg_append_addrs [OF u(1) room]
  have "\<exists>t. exec_tib (a + 10) u = Some (0, t) \<and> sg_addrs (sg t) = sg_addrs (sg u) @ sg_addrs es \<and> mem t = mem u"
  proof (rule Cons.IH)
    show "noinc_tib (mem u) (a + 10) es" using Cons.prems(1) u(3) by simp
    show "sg_bytes (sg u) + sg_bytes es < 2 ^ 32" using Cons.prems(2) app(2) e by (simp add: sg_bytes_def)
    show "length (sg u) + length es \<le> SG_TABLE_SIZE" using Cons.prems(3) u(2) by simp
  qed
  moreover have "tib_step a s = Inr (a + 10, u)"
    using Cons.prems(1) e by (intro tib_step_noinc [OF _ u(1)]) simp
  ultimately show ?case using app(1) u(3) e by (simp add: exec_tib.simps [of a s])
qed

text \<open>
  The blind transfer loop: \<open>scInc ptr len\<close>, \<open>scLoop -10 n\<close>, \<open>scStop\<close>, in
  ordinary memory. It counts its own second entry down and moves the pointer of its
  first.
\<close>

definition loop_tib :: "mac \<Rightarrow> u32 \<Rightarrow> u32 \<Rightarrow> u32 \<Rightarrow> u32 \<Rightarrow> bool" where
  "loop_tib m a ptr len n \<longleftrightarrow>
     list_all (plain m) [a, a + 2, a + 6, a + 10, a + 12, a + 16, a + 20] \<and>
     tib_entry m a scInc ptr len \<and> tib_entry m (a + 10) scLoop (- 10) n \<and>
     (ucast (ReadMacInt16 m (a + 20)) :: u16) = scStop"

lemma loop_tib_ptr: "loop_tib m a ptr len n \<Longrightarrow> loop_tib (WriteMacInt32 (a + 2) ptr' m) a ptr' len n"
  by (auto simp: loop_tib_def tib_entry_def mac_frame of_be32_be32 add.assoc)

lemma loop_tib_count: "loop_tib m a ptr len n \<Longrightarrow> loop_tib (WriteMacInt32 (a + 16) n' m) a ptr len n'"
  by (auto simp: loop_tib_def tib_entry_def mac_frame of_be32_be32 add.assoc)

lemma tib_offsets: "(a :: u32) + 10 - 8 = a + 2" "(a :: u32) + 10 - 4 = a + 6"
  by simp_all

lemma tib_step_inc:
  assumes "tib_entry (mem s) a scInc ptr len"
    "sg_append ptr len (s\<lparr>mem := WriteMacInt32 (a + 2) (ptr + len) (mem s)\<rparr>) = Inr t"
  shows "tib_step a s = Inr (a + 10, t)"
  using assms by (simp add: tib_step_def Let_def tib_opcodes tib_entry_def tib_offsets)

lemma tib_step_loop:
  assumes "tib_entry (mem s) b scLoop d n"
  shows "tib_step b s = Inr (if 0 < n - 1 then b + 10 + (d - 10) else b + 10,
                             s\<lparr>mem := WriteMacInt32 (b + 6) (n - 1) (mem s)\<rparr>)"
  using assms by (simp add: tib_step_def Let_def tib_opcodes tib_entry_def tib_offsets)

lemma sg_append_mem: "sg_append ptr len s = Inr t \<Longrightarrow> mem t = mem s"
  by (auto simp: sg_append_def split: if_splits)

lemma exec_tib_loop:
  assumes "loop_tib (mem s) a ptr len n" "0 < n"
    "unat ptr + unat n * unat len < 2 ^ 32" "sg_bytes (sg s) + unat n * unat len < 2 ^ 32"
    "length (sg s) < SG_TABLE_SIZE \<or> continues s ptr"
  shows "\<exists>t. exec_tib a s = Some (0, t) \<and>
           sg_addrs (sg t) = sg_addrs (sg s) @ [unat ptr..<unat ptr + unat n * unat len]"
  using assms
proof (induction "unat n" arbitrary: s ptr n rule: less_induct)
  case less
  let ?s1 = "s\<lparr>mem := WriteMacInt32 (a + 2) (ptr + len) (mem s)\<rparr>"
  have n: "unat n = Suc (unat (n - 1))" using less.prems(2) by (simp add: unat_minus_one unat_gt_0)
  then have cnt: "unat n * unat len = unat len + unat (n - 1) * unat len" by simp
  have "length (sg ?s1) < SG_TABLE_SIZE \<or> continues ?s1 ptr"
    using less.prems(5) by (simp add: continues_def)
  then obtain u where u: "sg_append ptr len ?s1 = Inr u" by (rule sg_append_room)
  have room: "sg_bytes (sg ?s1) + unat len < 2 ^ 32" "unat ptr + unat len < 2 ^ 32"
    using less.prems(3,4) cnt by simp_all
  note app = sg_append_addrs [OF u room(1)] and cont = sg_append_continues [OF u room]
  have ptr: "unat (ptr + len) = unat ptr + unat len" using room(2) by (simp add: unat_plus_no_wrap)
  define v where "v = u\<lparr>mem := WriteMacInt32 (a + 16) (n - 1) (mem u)\<rparr>"
  have mem_v: "loop_tib (mem v) a (ptr + len) len (n - 1)"
    using less.prems(1) by (simp add: v_def sg_append_mem [OF u] loop_tib_count [OF loop_tib_ptr])
  have "tib_entry (mem u) (a + 10) scLoop (- 10) n"
    using loop_tib_ptr [OF less.prems(1)] by (simp add: sg_append_mem [OF u] loop_tib_def)
  then have step2: "tib_step (a + 10) u = Inr (if 0 < n - 1 then a else a + 20, v)"
    by (simp add: tib_step_loop v_def add.assoc)
  have step1: "tib_step a s = Inr (a + 10, u)"
    using less.prems(1) by (intro tib_step_inc [OF _ u]) (simp add: loop_tib_def)
  have run: "exec_tib a s = (if 0 < n - 1 then exec_tib a v else exec_tib (a + 20) v)"
    by (simp add: exec_tib.simps [of a s] exec_tib.simps [of "a + 10"] step1 step2)
  have sg_v: "sg v = sg u" and cont_v: "continues v (ptr + len)"
    using cont by (simp_all add: v_def continues_def)
  show ?case
  proof (cases "0 < n - 1")
    case True
    have "\<exists>t. exec_tib a v = Some (0, t) \<and> sg_addrs (sg t) =
        sg_addrs (sg v) @ [unat (ptr + len)..<unat (ptr + len) + unat (n - 1) * unat len]"
      using True less.prems(3,4) cnt cont_v mem_v app(2) sg_v ptr n
      by (intro less.hyps) simp_all
    then show ?thesis
      using True run app(1) sg_v ptr cnt upt_add_eq_append [of "unat ptr" "unat ptr + unat len" "unat (n - 1) * unat len"]
      by (auto simp: seg_addrs_def add.assoc)
  next
    case False
    then have "n - 1 = 0" by (simp add: word_gt_0)
    moreover have "exec_tib (a + 20) v = Some (0, v)"
      using mem_v by (simp add: exec_tib.simps [of "a + 20"] tib_step_stop loop_tib_def)
    ultimately show ?thesis using False run app(1) sg_v cnt by (simp add: seg_addrs_def)
  qed
qed

subsection \<open>The interface of the target emulation\<close>

text \<open>
  What \<open>SCSISelect\<close> and \<open>SCSICmd\<close> rely on: a target can be addressed exactly when it
  is present and the logical unit is 0, taking over a command block changes no presence,
  and addressing makes the target current.
\<close>

locale scsi_targets =
  fixes present :: "'d \<Rightarrow> int \<Rightarrow> bool"
    and set_cmd :: "int \<Rightarrow> u8 list \<Rightarrow> 'd \<Rightarrow> 'd"
    and set_target :: "int \<Rightarrow> int \<Rightarrow> 'd \<Rightarrow> bool \<times> 'd"
    and current :: "'d \<Rightarrow> int"
  assumes set_target_ok: "fst (set_target i l d) \<longleftrightarrow> present d i \<and> l = 0"
    and set_cmd_present: "present (set_cmd n c d) i = present d i"
    and set_target_current: "present d i \<Longrightarrow> l = 0 \<Longrightarrow> current (snd (set_target i l d)) = i"
begin

lemma command_accepted:
  assumes "phase s = PH_SELECTED" "n = 6 \<or> n = 10 \<or> n = 12" "present (dev s) (target_id s)" "cdb_lun c = 0"
  shows "\<exists>t. SCSICmd set_cmd set_target n c s = (0, t) \<and> phase t = PH_TRANSFER \<and>
           fake_status t = 0x6e \<and> current (dev t) = target_id s"
  using assms set_target_ok [of "target_id s" "cdb_lun c" "set_cmd n c (dev s)"]
    set_target_current [of "set_cmd n c (dev s)" "target_id s" "cdb_lun c"] set_cmd_present
  by (auto simp: SCSICmd_def Let_def split: prod.split)

lemma command_refused:
  assumes "phase s = PH_SELECTED" "n = 6 \<or> n = 10 \<or> n = 12" "cdb_lun c \<noteq> 0 \<or> \<not> present (dev s) (target_id s)"
  shows "\<exists>t. SCSICmd set_cmd set_target n c s = (scCommErr, t) \<and> phase t = PH_FREE \<and> fake_status t = 0"
  using assms set_target_ok [of "target_id s" "cdb_lun c" "set_cmd n c (dev s)"] set_cmd_present
  by (auto simp: SCSICmd_def Let_def split: prod.split)

lemma select_and_command:
  assumes "phase s = PH_ARBITRATED" "0 \<le> i" "i \<le> 7" "present (dev s) i"
    "n = 6 \<or> n = 10 \<or> n = 12" "cdb_lun c = 0"
  shows "\<exists>s1 s2. SCSISelect present i s = (0, s1) \<and> SCSICmd set_cmd set_target n c s1 = (0, s2) \<and>
           phase s2 = PH_TRANSFER \<and> current (dev s2) = i"
proof -
  let ?s1 = "s\<lparr>target_id := i, phase := PH_SELECTED, fake_status := 0x6a\<rparr>"
  have "SCSISelect present i s = (0, ?s1)" using assms by (simp add: SCSISelect_def Let_def)
  moreover have "\<exists>t. SCSICmd set_cmd set_target n c ?s1 = (0, t) \<and> phase t = PH_TRANSFER \<and>
      fake_status t = 0x6e \<and> current (dev t) = target_id ?s1"
    using assms by (intro command_accepted) simp_all
  ultimately show ?thesis by auto
qed

end

end
