(* ===== verification/Host_Files.thy ===== *)
theory Host_Files
  imports Prelude
begin

section \<open>Host files behind emulated media\<close>

text \<open>
  The part of C's standard I/O that the disk emulation uses: streams opened for reading
  (\<open>rb\<close>, \<open>r\<close>) or for update (\<open>rb+\<close>), positioned block reads and writes, and closing.
  Every read and write of the sources is preceded by its own \<open>fseek\<close>, so a stream has
  no position here. A short read returns no item. Closing a stream that is not open is
  undefined in C; the model records it in \<open>bad_close\<close>. A write can fail because the
  stream is read-only or because the file would pass \<open>max_file\<close> bytes (a full disk).
\<close>

type_synonym fh = nat

record stream =
  st_path :: string
  st_write :: bool

record host =
  files :: "string \<Rightarrow> u8 list option"
  readonly :: "string \<Rightarrow> bool"
  streams :: "fh \<Rightarrow> stream option"
  next_fh :: fh
  max_file :: nat
  bad_close :: bool

definition open_stream :: "string \<Rightarrow> bool \<Rightarrow> host \<Rightarrow> fh option \<times> host" where
  "open_stream path w h =
     (Some (next_fh h),
      h\<lparr>streams := (streams h)(next_fh h \<mapsto> \<lparr>st_path = path, st_write = w\<rparr>), next_fh := Suc (next_fh h)\<rparr>)"

definition fopen_read :: "string \<Rightarrow> host \<Rightarrow> fh option \<times> host" where
  "fopen_read path h = (if files h path = None then (None, h) else open_stream path False h)"

definition fopen_update :: "string \<Rightarrow> host \<Rightarrow> fh option \<times> host" where
  "fopen_update path h =
     (if files h path = None \<or> readonly h path then (None, h) else open_stream path True h)"

definition fclose :: "fh \<Rightarrow> host \<Rightarrow> host" where
  "fclose f h =
     (if streams h f = None then h\<lparr>bad_close := True\<rparr> else h\<lparr>streams := (streams h)(f := None)\<rparr>)"

definition stream_data :: "host \<Rightarrow> fh \<Rightarrow> u8 list option" where
  "stream_data h f = (case streams h f of None \<Rightarrow> None | Some st \<Rightarrow> files h (st_path st))"

definition stream_size :: "host \<Rightarrow> fh \<Rightarrow> nat" where
  "stream_size h f = (case stream_data h f of None \<Rightarrow> 0 | Some c \<Rightarrow> length c)"

definition fread_block :: "host \<Rightarrow> fh \<Rightarrow> nat \<Rightarrow> nat \<Rightarrow> u8 list option" where
  "fread_block h f pos n =
     (case stream_data h f of
        None \<Rightarrow> None
      | Some c \<Rightarrow> if pos + n \<le> length c then Some (window pos n c) else None)"

text \<open>Writing past the end fills the gap with zero bytes.\<close>

definition file_write :: "nat \<Rightarrow> u8 list \<Rightarrow> u8 list \<Rightarrow> u8 list" where
  "file_write pos bs c =
     (let c' = c @ replicate (pos + length bs - length c) 0 in patch pos bs c')"

definition fwrite_block :: "fh \<Rightarrow> nat \<Rightarrow> u8 list \<Rightarrow> host \<Rightarrow> host option" where
  "fwrite_block f pos bs h =
     (case streams h f of
        None \<Rightarrow> None
      | Some st \<Rightarrow>
          (case files h (st_path st) of
             None \<Rightarrow> None
           | Some c \<Rightarrow>
               if st_write st \<and> pos + length bs \<le> max_file h
               then Some (h\<lparr>files := (files h)(st_path st \<mapsto> file_write pos bs c)\<rparr>) else None))"

subsection \<open>A store of blocks\<close>

text \<open>
  What the emulation relies on when it reads back what the guest wrote: a block store
  returns the block last written at a place and leaves the other places alone. In a
  \<open>seekable_store\<close> every part of a block that can be read can be read, too: streams are one, the drivers' files are not, because
  their seeks end at 4 GB.
\<close>

locale block_store =
  fixes rd :: "'s \<Rightarrow> nat \<Rightarrow> nat \<Rightarrow> 'b list option"
    and wr :: "nat \<Rightarrow> 'b list \<Rightarrow> 's \<Rightarrow> 's option"
  assumes rd_wr_same: "wr pos bs s = Some t \<Longrightarrow> rd t pos (length bs) = Some bs"
    and rd_wr_other: "wr pos bs s = Some t \<Longrightarrow> a + n \<le> pos \<or> pos + length bs \<le> a \<Longrightarrow>
      rd s a n = Some xs \<Longrightarrow> rd t a n = Some xs"
    and rd_length: "rd s a n = Some xs \<Longrightarrow> length xs = n"
    and rd_join: "rd s a m = Some xs \<Longrightarrow> rd s (a + m) n = Some ys \<Longrightarrow> rd s a (m + n) = Some (xs @ ys)"

locale seekable_store = block_store rd wr
  for rd :: "'s \<Rightarrow> nat \<Rightarrow> nat \<Rightarrow> 'b list option" and wr :: "nat \<Rightarrow> 'b list \<Rightarrow> 's \<Rightarrow> 's option" +
  assumes rd_part: "rd s a (m + n) = Some zs \<Longrightarrow> \<exists>xs ys. rd s a m = Some xs \<and> rd s (a + m) n = Some ys"

primrec wr_run :: "(nat \<Rightarrow> 'b list \<Rightarrow> 's \<Rightarrow> 's option) \<Rightarrow> nat \<Rightarrow> 'b list list \<Rightarrow> 's \<Rightarrow> 's option" where
  "wr_run wr pos [] s = Some s"
| "wr_run wr pos (b # bs) s =
     (case wr pos b s of None \<Rightarrow> None | Some t \<Rightarrow> wr_run wr (pos + length b) bs t)"

context block_store
begin

lemma wr_run_before:
  "wr_run wr pos bs s = Some t \<Longrightarrow> a + n \<le> pos \<Longrightarrow> rd s a n = Some xs \<Longrightarrow> rd t a n = Some xs"
proof (induction bs arbitrary: pos s)
  case (Cons b bs)
  then obtain u where "wr pos b s = Some u" "wr_run wr (pos + length b) bs u = Some t"
    by (auto split: option.splits)
  with Cons show ?case using rd_wr_other [of pos b s u a n xs] by simp
qed simp

lemma wr_run_after:
  "wr_run wr pos bs s = Some t \<Longrightarrow> pos + length (concat bs) \<le> a \<Longrightarrow> rd s a n = Some xs \<Longrightarrow>
   rd t a n = Some xs"
proof (induction bs arbitrary: pos s)
  case (Cons b bs)
  then obtain u where "wr pos b s = Some u" "wr_run wr (pos + length b) bs u = Some t"
    by (auto split: option.splits)
  with Cons show ?case using rd_wr_other [of pos b s u a n xs] by simp
qed simp

lemma rd_wr_run:
  "wr_run wr pos bs s = Some t \<Longrightarrow> bs \<noteq> [] \<Longrightarrow> rd t pos (length (concat bs)) = Some (concat bs)"
proof (induction bs arbitrary: pos s)
  case (Cons b bs)
  then obtain u where u: "wr pos b s = Some u" "wr_run wr (pos + length b) bs u = Some t"
    by (auto split: option.splits)
  have b: "rd t pos (length b) = Some b"
    using wr_run_before [OF u(2)] rd_wr_same [OF u(1)] by simp
  show ?case
  proof (cases "bs = []")
    case True
    with b show ?thesis by simp
  next
    case False
    with Cons.IH [OF u(2)] b show ?thesis by (simp add: rd_join)
  qed
qed simp

end

context seekable_store
begin

lemma rd_split: "rd s a (m + n) = Some zs \<longleftrightarrow>
    (\<exists>xs ys. rd s a m = Some xs \<and> rd s (a + m) n = Some ys \<and> zs = xs @ ys)"
proof
  assume z: "rd s a (m + n) = Some zs"
  then obtain xs ys where "rd s a m = Some xs" "rd s (a + m) n = Some ys" using rd_part by blast
  moreover from this have "zs = xs @ ys" using rd_join z by fastforce
  ultimately show "\<exists>xs ys. rd s a m = Some xs \<and> rd s (a + m) n = Some ys \<and> zs = xs @ ys" by blast
qed (auto intro: rd_join)

end

lemma file_write_same: "window pos (length bs) (file_write pos bs c) = bs"
  by (simp add: file_write_def Let_def byte_simps)

lemma length_file_write: "length (file_write pos bs c) = max (length c) (pos + length bs)"
  by (simp add: file_write_def Let_def byte_simps)

lemma file_write_other:
  "a + n \<le> pos \<or> pos + length bs \<le> a \<Longrightarrow> a + n \<le> length c \<Longrightarrow>
   window a n (file_write pos bs c) = window a n c"
proof -
  let ?c = "c @ replicate (pos + length bs - length c) 0"
  assume a: "a + n \<le> pos \<or> pos + length bs \<le> a" and n: "a + n \<le> length c"
  have "window a n (patch pos bs ?c) = window a n ?c"
    using a n by (auto intro: window_patch_before window_patch_after)
  also have "\<dots> = window a n c" using n by (simp add: window_def)
  finally show ?thesis by (simp add: file_write_def Let_def)
qed

interpretation stream_store: seekable_store "\<lambda>h. fread_block h f" "fwrite_block f" for f
proof
  fix pos bs h h'
  assume "fwrite_block f pos bs h = Some h'"
  then show "fread_block h' f pos (length bs) = Some bs"
    by (auto simp: fwrite_block_def fread_block_def stream_data_def file_write_same length_file_write
        split: option.splits if_splits)
next
  fix pos bs h h' a n xs
  assume "fwrite_block f pos bs h = Some h'" "a + n \<le> pos \<or> pos + length bs \<le> a"
    "fread_block h f a n = Some xs"
  then show "fread_block h' f a n = Some xs"
    by (auto simp: fwrite_block_def fread_block_def stream_data_def file_write_other length_file_write
        split: option.splits if_splits)
next
  fix h a n xs
  assume "fread_block h f a n = Some xs"
  then show "length xs = n" by (auto simp: fread_block_def byte_simps split: option.splits if_splits)
next
  fix h a m n xs ys
  assume "fread_block h f a m = Some xs" "fread_block h f (a + m) n = Some ys"
  then show "fread_block h f a (m + n) = Some (xs @ ys)"
    by (auto simp: fread_block_def window_append split: option.splits if_splits)
next
  fix h a m n zs
  assume "fread_block h f a (m + n) = Some zs"
  then show "\<exists>xs ys. fread_block h f a m = Some xs \<and> fread_block h f (a + m) n = Some ys"
    by (auto simp: fread_block_def split: option.splits if_splits)
qed

end
