(* ===== verification/SCSI_Device.thy ===== *)
theory SCSI_Device
  imports Host_Files
begin

section \<open>State of the emulated SCSI targets\<close>

text \<open>
  The data of \<open>BasiliskII/dummy/scsi_dummy.cpp\<close>: the seven devices, the discs in the
  CD-ROM drives, the shared transfer buffer and the host files behind them. The first
  \<open>track_count\<close> entries of the fixed array of tracks are the list \<open>tracks\<close>. The
  transfer buffer is the list \<open>buffer\<close>; its length is \<open>buffer_size\<close>. A copy that
  leaves the buffer is undefined behaviour of the C++ code; the model leaves the buffer
  alone and sets \<open>overrun\<close>. \<open>now_ms\<close> is the steady clock at the time of the
  command, \<open>heap_max\<close> the largest block \<open>realloc\<close> can return.
\<close>

definition ESP_MAX_DEVS :: int where "ESP_MAX_DEVS = 7"
definition BLOCKSIZE :: u32 where "BLOCKSIZE = 512"
definition CDBLOCKSIZE :: u32 where "CDBLOCKSIZE = 2048"

definition STAT_GOOD :: u8 where "STAT_GOOD = 0"
definition STAT_CHECK_COND :: u8 where "STAT_CHECK_COND = 2"

definition SK_NOSENSE :: u8 where "SK_NOSENSE = 0"
definition SK_NOTREADY :: u8 where "SK_NOTREADY = 2"
definition SK_HARDWARE :: u8 where "SK_HARDWARE = 4"
definition SK_ILLEGAL_REQ :: u8 where "SK_ILLEGAL_REQ = 5"
definition SK_UNIT_ATN :: u8 where "SK_UNIT_ATN = 6"
definition SK_DATAPROTECT :: u8 where "SK_DATAPROTECT = 7"

definition SC_NO_ERROR :: u8 where "SC_NO_ERROR = 0"
definition SC_WRITE_FAULT :: u8 where "SC_WRITE_FAULT = 0x03"
definition SC_INVALID_CMD :: u8 where "SC_INVALID_CMD = 0x20"
definition SC_INVALID_LBA :: u8 where "SC_INVALID_LBA = 0x21"
definition SC_INVALID_CDB :: u8 where "SC_INVALID_CDB = 0x24"
definition SC_INVALID_LUN :: u8 where "SC_INVALID_LUN = 0x25"
definition SC_WRITE_PROTECT :: u8 where "SC_WRITE_PROTECT = 0x27"
definition SC_NOT_READY_TO_READY_TRANSITION :: u8 where "SC_NOT_READY_TO_READY_TRANSITION = 0x28"
definition SC_MEDIUM_NOT_PRESENT :: u8 where "SC_MEDIUM_NOT_PRESENT = 0x3A"

lemmas scsi_codes = STAT_GOOD_def STAT_CHECK_COND_def SK_NOSENSE_def SK_NOTREADY_def SK_HARDWARE_def
  SK_ILLEGAL_REQ_def SK_UNIT_ATN_def SK_DATAPROTECT_def SC_NO_ERROR_def SC_WRITE_FAULT_def
  SC_INVALID_CMD_def SC_INVALID_LBA_def SC_INVALID_CDB_def SC_INVALID_LUN_def SC_WRITE_PROTECT_def
  SC_NOT_READY_TO_READY_TRANSITION_def SC_MEDIUM_NOT_PRESENT_def

datatype cd_track_type = CD_MODE_AUDIO | CD_MODE_MODE1_2048 | CD_MODE_MODE1_2352 | CD_MODE_MODE2_2352

record cd_track =
  track_num :: int
  track_type :: cd_track_type
  track_sector_size :: u32
  start_lba :: u32
  data_start_lba :: u32
  length_sectors :: u32
  file_offset :: u64
  track_filename :: string
  track_fh :: "fh option"

definition MAX_TRACKS_PER_DISC :: nat where "MAX_TRACKS_PER_DISC = 100"

record cd_state =
  has_cue :: bool
  tracks :: "cd_track list"
  leadout_lba :: u32
  audio_status :: u8
  audio_start_lba :: u32
  audio_end_lba :: u32
  audio_current_lba :: u32
  audio_start_time_ms :: u64
  audio_paused :: bool
  media_events :: u8
  tray_open :: bool

record sense_data =
  sense_key :: u8
  sense_code :: u8
  sense_ascq :: u8
  sense_valid :: bool
  sense_info :: u32

record scsi_dev =
  dsk :: "fh option"
  dev_size :: u32
  cdrom :: bool
  sector_size :: u32
  lun :: u8
  status :: u8
  message :: u8
  unit_attention :: bool
  sense :: sense_data
  lba :: u32
  blockcounter :: u32

record scsi =
  disks :: "nat \<Rightarrow> scsi_dev"
  discs :: "nat \<Rightarrow> cd_state"
  paths :: "nat \<Rightarrow> string"
  scsi_prefs :: "nat \<Rightarrow> string option"
  buffer :: "u8 list"
  buf_limit :: u32
  buf_size :: u32
  buf_disk :: bool
  cmd_buffer :: "u8 list"
  cmd_len :: int
  target :: nat
  hst :: host
  now_ms :: u64
  heap_max :: nat
  overrun :: bool

subsection \<open>Access to the current target\<close>

definition cur :: "scsi \<Rightarrow> scsi_dev" where
  "cur s = disks s (target s)"

definition disc :: "scsi \<Rightarrow> cd_state" where
  "disc s = discs s (target s)"

definition upd_cur :: "(scsi_dev \<Rightarrow> scsi_dev) \<Rightarrow> scsi \<Rightarrow> scsi" where
  "upd_cur f s = s\<lparr>disks := (disks s)(target s := f (cur s))\<rparr>"

definition upd_disc :: "(cd_state \<Rightarrow> cd_state) \<Rightarrow> scsi \<Rightarrow> scsi" where
  "upd_disc f s = s\<lparr>discs := (discs s)(target s := f (disc s))\<rparr>"

definition set_sense :: "(sense_data \<Rightarrow> sense_data) \<Rightarrow> scsi_dev \<Rightarrow> scsi_dev" where
  "set_sense f d = d\<lparr>sense := f (sense d)\<rparr>"

text \<open>
  The endings the command handlers share. Most of them leave the sense key and the
  additional qualifier as they are.
\<close>

definition good :: "scsi \<Rightarrow> scsi" where
  "good = upd_cur (\<lambda>d. set_sense (\<lambda>x. x\<lparr>sense_code := SC_NO_ERROR, sense_valid := False\<rparr>)
                        (d\<lparr>status := STAT_GOOD\<rparr>))"

definition check_code :: "u8 \<Rightarrow> scsi \<Rightarrow> scsi" where
  "check_code c = upd_cur (\<lambda>d. set_sense (\<lambda>x. x\<lparr>sense_code := c, sense_valid := False\<rparr>)
                                (d\<lparr>status := STAT_CHECK_COND\<rparr>))"

definition check_key :: "u8 \<Rightarrow> u8 \<Rightarrow> scsi \<Rightarrow> scsi" where
  "check_key k c = upd_cur (\<lambda>d. set_sense (\<lambda>x. x\<lparr>sense_key := k, sense_code := c, sense_ascq := 0, sense_valid := False\<rparr>)
                                (d\<lparr>status := STAT_CHECK_COND\<rparr>))"

definition bad_lba :: "u32 \<Rightarrow> scsi \<Rightarrow> scsi" where
  "bad_lba i = upd_cur (\<lambda>d. set_sense (\<lambda>x. x\<lparr>sense_code := SC_INVALID_LBA, sense_valid := True, sense_info := i\<rparr>)
                             (d\<lparr>status := STAT_CHECK_COND\<rparr>))"

definition no_memory :: "scsi \<Rightarrow> scsi" where
  "no_memory = upd_cur (\<lambda>d. set_sense (\<lambda>x. x\<lparr>sense_key := SK_HARDWARE, sense_code := SC_NO_ERROR\<rparr>)
                             (d\<lparr>status := STAT_CHECK_COND\<rparr>))"

definition set_xfer :: "u32 \<Rightarrow> scsi \<Rightarrow> scsi" where
  "set_xfer n s = s\<lparr>buf_limit := n, buf_size := n\<rparr>"

subsection \<open>The transfer buffer\<close>

text \<open>
  \<open>try_buffer(int size)\<close>: the size arrives as a signed 32-bit value, so a request of
  2GB or more is negative and always granted without growing the buffer.
\<close>

definition try_buffer :: "u32 \<Rightarrow> scsi \<Rightarrow> bool \<times> scsi" where
  "try_buffer sz s =
     (if sint sz \<le> sint (of_nat (length (buffer s)) :: u32) then (True, s)
      else if nat (sint sz) > heap_max s then (False, s)
      else (True, s\<lparr>buffer := buffer s @ replicate (nat (sint sz) - length (buffer s)) 0\<rparr>))"

definition put_buffer :: "nat \<Rightarrow> u8 list \<Rightarrow> scsi \<Rightarrow> scsi" where
  "put_buffer off bs s =
     (if off + length bs \<le> length (buffer s) then s\<lparr>buffer := patch off bs (buffer s)\<rparr>
      else s\<lparr>overrun := True\<rparr>)"

definition get_buffer :: "nat \<Rightarrow> nat \<Rightarrow> scsi \<Rightarrow> u8 list \<times> scsi" where
  "get_buffer off n s =
     (if off + n \<le> length (buffer s) then (window off n (buffer s), s)
      else (window off n (buffer s @ replicate (off + n) 0), s\<lparr>overrun := True\<rparr>))"

text \<open>
  How a CD-ROM command answers: at most the allocation length, in a buffer of that size.
\<close>

definition reply :: "nat \<Rightarrow> u8 list \<Rightarrow> scsi \<Rightarrow> scsi" where
  "reply alloc resp s =
     (let n = min (length resp) alloc;
          (ok, s1) = try_buffer (of_nat n) s
      in if \<not> ok then no_memory s1
         else good ((set_xfer (of_nat n) (put_buffer 0 (take n resp) s1))\<lparr>buf_disk := False\<rparr>))"

subsection \<open>Frame facts\<close>

lemma upd_cur_sel [simp]:
  "discs (upd_cur f s) = discs s"
  "paths (upd_cur f s) = paths s"
  "scsi_prefs (upd_cur f s) = scsi_prefs s"
  "buffer (upd_cur f s) = buffer s"
  "buf_limit (upd_cur f s) = buf_limit s"
  "buf_size (upd_cur f s) = buf_size s"
  "buf_disk (upd_cur f s) = buf_disk s"
  "cmd_buffer (upd_cur f s) = cmd_buffer s"
  "cmd_len (upd_cur f s) = cmd_len s"
  "target (upd_cur f s) = target s"
  "hst (upd_cur f s) = hst s"
  "now_ms (upd_cur f s) = now_ms s"
  "heap_max (upd_cur f s) = heap_max s"
  "overrun (upd_cur f s) = overrun s"
  by (simp_all add: upd_cur_def)

lemma upd_disc_sel [simp]:
  "disks (upd_disc f s) = disks s"
  "paths (upd_disc f s) = paths s"
  "scsi_prefs (upd_disc f s) = scsi_prefs s"
  "buffer (upd_disc f s) = buffer s"
  "buf_limit (upd_disc f s) = buf_limit s"
  "buf_size (upd_disc f s) = buf_size s"
  "buf_disk (upd_disc f s) = buf_disk s"
  "cmd_buffer (upd_disc f s) = cmd_buffer s"
  "cmd_len (upd_disc f s) = cmd_len s"
  "target (upd_disc f s) = target s"
  "hst (upd_disc f s) = hst s"
  "now_ms (upd_disc f s) = now_ms s"
  "heap_max (upd_disc f s) = heap_max s"
  "overrun (upd_disc f s) = overrun s"
  by (simp_all add: upd_disc_def)

lemma set_xfer_sel [simp]:
  "disks (set_xfer n s) = disks s"
  "discs (set_xfer n s) = discs s"
  "paths (set_xfer n s) = paths s"
  "scsi_prefs (set_xfer n s) = scsi_prefs s"
  "buffer (set_xfer n s) = buffer s"
  "buf_disk (set_xfer n s) = buf_disk s"
  "cmd_buffer (set_xfer n s) = cmd_buffer s"
  "cmd_len (set_xfer n s) = cmd_len s"
  "target (set_xfer n s) = target s"
  "hst (set_xfer n s) = hst s"
  "now_ms (set_xfer n s) = now_ms s"
  "heap_max (set_xfer n s) = heap_max s"
  "overrun (set_xfer n s) = overrun s"
  by (simp_all add: set_xfer_def)

lemma put_buffer_sel [simp]:
  "disks (put_buffer off bs s) = disks s"
  "discs (put_buffer off bs s) = discs s"
  "paths (put_buffer off bs s) = paths s"
  "scsi_prefs (put_buffer off bs s) = scsi_prefs s"
  "buf_limit (put_buffer off bs s) = buf_limit s"
  "buf_size (put_buffer off bs s) = buf_size s"
  "buf_disk (put_buffer off bs s) = buf_disk s"
  "cmd_buffer (put_buffer off bs s) = cmd_buffer s"
  "cmd_len (put_buffer off bs s) = cmd_len s"
  "target (put_buffer off bs s) = target s"
  "hst (put_buffer off bs s) = hst s"
  "now_ms (put_buffer off bs s) = now_ms s"
  "heap_max (put_buffer off bs s) = heap_max s"
  by (simp_all add: put_buffer_def)

lemma try_buffer_sel [simp]:
  "disks (snd (try_buffer n s)) = disks s"
  "discs (snd (try_buffer n s)) = discs s"
  "paths (snd (try_buffer n s)) = paths s"
  "scsi_prefs (snd (try_buffer n s)) = scsi_prefs s"
  "buf_limit (snd (try_buffer n s)) = buf_limit s"
  "buf_size (snd (try_buffer n s)) = buf_size s"
  "buf_disk (snd (try_buffer n s)) = buf_disk s"
  "cmd_buffer (snd (try_buffer n s)) = cmd_buffer s"
  "cmd_len (snd (try_buffer n s)) = cmd_len s"
  "target (snd (try_buffer n s)) = target s"
  "hst (snd (try_buffer n s)) = hst s"
  "now_ms (snd (try_buffer n s)) = now_ms s"
  "heap_max (snd (try_buffer n s)) = heap_max s"
  "overrun (snd (try_buffer n s)) = overrun s"
  by (simp_all add: try_buffer_def)

lemma get_buffer_sel [simp]:
  "disks (snd (get_buffer off n s)) = disks s"
  "discs (snd (get_buffer off n s)) = discs s"
  "paths (snd (get_buffer off n s)) = paths s"
  "scsi_prefs (snd (get_buffer off n s)) = scsi_prefs s"
  "buffer (snd (get_buffer off n s)) = buffer s"
  "buf_limit (snd (get_buffer off n s)) = buf_limit s"
  "buf_size (snd (get_buffer off n s)) = buf_size s"
  "buf_disk (snd (get_buffer off n s)) = buf_disk s"
  "cmd_buffer (snd (get_buffer off n s)) = cmd_buffer s"
  "cmd_len (snd (get_buffer off n s)) = cmd_len s"
  "target (snd (get_buffer off n s)) = target s"
  "hst (snd (get_buffer off n s)) = hst s"
  "now_ms (snd (get_buffer off n s)) = now_ms s"
  "heap_max (snd (get_buffer off n s)) = heap_max s"
  by (simp_all add: get_buffer_def)

lemma set_xfer_val [simp]: "buf_size (set_xfer n s) = n" "buf_limit (set_xfer n s) = n"
  by (simp_all add: set_xfer_def)

lemma cur_upd_cur [simp]: "cur (upd_cur f s) = f (cur s)" "disc (upd_cur f s) = disc s"
  by (simp_all add: cur_def disc_def upd_cur_def)

lemma disc_upd_disc [simp]: "disc (upd_disc f s) = f (disc s)" "cur (upd_disc f s) = cur s"
  by (simp_all add: cur_def disc_def upd_disc_def)

lemma cur_cong: "disks s = disks t \<Longrightarrow> target s = target t \<Longrightarrow> cur s = cur t"
  by (simp add: cur_def)

lemma disc_cong: "discs s = discs t \<Longrightarrow> target s = target t \<Longrightarrow> disc s = disc t"
  by (simp add: disc_def)

lemma cur_frame [simp]:
  "cur (set_xfer n s) = cur s" "cur (put_buffer off bs s) = cur s" "cur (snd (try_buffer n s)) = cur s"
  "cur (snd (get_buffer off k s)) = cur s"
  "cur (s\<lparr>buf_disk := b\<rparr>) = cur s" "cur (s\<lparr>hst := h\<rparr>) = cur s" "cur (s\<lparr>buf_size := m\<rparr>) = cur s"
  "cur (s\<lparr>buf_limit := m\<rparr>) = cur s" "cur (s\<lparr>overrun := b\<rparr>) = cur s" "cur (s\<lparr>buffer := bs\<rparr>) = cur s"
  by (rule cur_cong; simp)+

lemma disc_frame [simp]:
  "disc (set_xfer n s) = disc s" "disc (put_buffer off bs s) = disc s" "disc (snd (try_buffer n s)) = disc s"
  "disc (snd (get_buffer off k s)) = disc s"
  "disc (s\<lparr>buf_disk := b\<rparr>) = disc s" "disc (s\<lparr>hst := h\<rparr>) = disc s" "disc (s\<lparr>buf_size := m\<rparr>) = disc s"
  "disc (s\<lparr>buf_limit := m\<rparr>) = disc s" "disc (s\<lparr>overrun := b\<rparr>) = disc s" "disc (s\<lparr>buffer := bs\<rparr>) = disc s"
  by (rule disc_cong; simp)+

lemma set_sense_sel [simp]:
  "sense (set_sense f d) = f (sense d)" "status (set_sense f d) = status d" "dsk (set_sense f d) = dsk d"
  "dev_size (set_sense f d) = dev_size d" "cdrom (set_sense f d) = cdrom d"
  "sector_size (set_sense f d) = sector_size d" "lun (set_sense f d) = lun d"
  "message (set_sense f d) = message d" "unit_attention (set_sense f d) = unit_attention d"
  "lba (set_sense f d) = lba d" "blockcounter (set_sense f d) = blockcounter d"
  by (simp_all add: set_sense_def)

named_theorems endings \<open>the shared endings of the command handlers\<close>

lemmas [endings] = good_def check_code_def check_key_def bad_lba_def no_memory_def

lemma try_buffer_fits:
  "length (buffer s) < 2147483648 \<Longrightarrow> unat n \<le> length (buffer s) \<Longrightarrow> try_buffer n s = (True, s)"
  by (simp add: try_buffer_def sint_of_nat_small sint_eq_unat uint_le_int_iff)

text \<open>A grant of less than 2GB really has the room.\<close>

lemma try_buffer_room:
  assumes "try_buffer n s = (True, t)" "unat n < 2147483648" "length (buffer s) < 2147483648"
  shows "unat n \<le> length (buffer t)" "length (buffer s) \<le> length (buffer t)"
    "length (buffer t) < 2147483648"
  using assms by (auto simp: try_buffer_def sint_of_nat_small sint_eq_unat uint_le_int_iff split: if_splits)

end
