(* ===== verification/CD_Image.thy ===== *)
theory CD_Image
  imports SCSI_Device
begin

section \<open>Disc images\<close>

text \<open>
  The disc model of \<open>scsi_dummy.cpp\<close>: LBA/MSF addresses, the clock of audio playback,
  opening and closing of disc images, the layout a CUE sheet describes, and the two ways
  a sector is read.
\<close>

subsection \<open>Addresses\<close>

text \<open>An \<open>int32\<close> block number is the \<open>u32\<close> with the same bits.\<close>

definition LBA_to_MSF :: "u32 \<Rightarrow> bool \<Rightarrow> u8 list" where
  "LBA_to_MSF n relative =
     (let l = (if relative then n else n + 150);
          u = (if sint l < 0 then - l else l)
      in [ucast (u div 75 div 60), ucast (u div 75 mod 60), ucast (u mod 75)])"

definition to_bcd :: "u8 \<Rightarrow> u8" where
  "to_bcd b = push_bit 4 (b div 10) OR (b mod 10)"

definition LBA_to_MSF_BCD :: "u32 \<Rightarrow> bool \<Rightarrow> u8 list" where
  "LBA_to_MSF_BCD n relative = map to_bcd (LBA_to_MSF n relative)"

definition MSF_to_LBA :: "u8 \<Rightarrow> u8 \<Rightarrow> u8 \<Rightarrow> bool \<Rightarrow> u32" where
  "MSF_to_LBA m s f relative =
     (let l = (ucast m * 60 + ucast s) * 75 + ucast f in if relative then l else l - 150)"

subsection \<open>Audio playback\<close>

definition CD_UpdateAudioPlayback :: "u64 \<Rightarrow> cd_state \<Rightarrow> cd_state" where
  "CD_UpdateAudioPlayback now cd =
     (if audio_status cd = 0x11 \<and> \<not> audio_paused cd
      then (let elapsed_ms = (if audio_start_time_ms cd < now then now - audio_start_time_ms cd else 0);
                elapsed_sectors = (ucast (elapsed_ms * 75 div 1000) :: u32);
                c = audio_start_lba cd + elapsed_sectors
            in if audio_end_lba cd \<le> c
               then cd\<lparr>audio_current_lba := audio_end_lba cd, audio_status := 0x15\<rparr>
               else cd\<lparr>audio_current_lba := c\<rparr>)
      else cd)"

subsection \<open>Opening and closing images\<close>

text \<open>Tracks may share a file: a handle closed for one track is dropped from the later ones.\<close>

definition forget_fh :: "fh \<Rightarrow> cd_track \<Rightarrow> cd_track" where
  "forget_fh f t = (if track_fh t = Some f then t\<lparr>track_fh := None\<rparr> else t)"

function close_tracks :: "cd_track list \<Rightarrow> host \<Rightarrow> host" where
  "close_tracks [] h = h"
| "close_tracks (t # ts) h =
     (case track_fh t of
        None \<Rightarrow> close_tracks ts h
      | Some f \<Rightarrow> close_tracks (map (forget_fh f) ts) (fclose f h))"
  by pat_completeness auto
termination by (relation "measure (\<lambda>(ts, h). length ts)") auto

definition no_disc_state :: cd_state where
  "no_disc_state =
     \<lparr>has_cue = False, tracks = [], leadout_lba = 0, audio_status = 0x15, audio_start_lba = 0,
      audio_end_lba = 0, audio_current_lba = 0, audio_start_time_ms = 0, audio_paused = False,
      media_events = 0, tray_open = False\<rparr>"

definition CD_ClearDisc :: "cd_state \<Rightarrow> host \<Rightarrow> cd_state \<times> host" where
  "CD_ClearDisc cd h = (no_disc_state, close_tracks (tracks cd) h)"

definition at_least_one :: "u32 \<Rightarrow> u32" where
  "at_least_one n = (if n = 0 then 1 else n)"

definition CD_SetupSingleFile :: "string \<Rightarrow> fh \<Rightarrow> u64 \<Rightarrow> cd_state \<Rightarrow> host \<Rightarrow> cd_state \<times> host" where
  "CD_SetupSingleFile path f fsize cd h =
     (let (cd0, h1) = CD_ClearDisc cd h;
          n = (ucast (fsize div 2048) :: u32);
          t = \<lparr>track_num = 1, track_type = CD_MODE_MODE1_2048, track_sector_size = 2048, start_lba = 0,
               data_start_lba = 0, length_sectors = n, file_offset = 0,
               track_filename = take 1023 path, track_fh = Some f\<rparr>
      in (cd0\<lparr>has_cue := False, tracks := [t], leadout_lba := at_least_one n, audio_status := 0x15,
              audio_paused := False, media_events := 0x02\<rparr>, h1))"

subsection \<open>Finding and reading sectors\<close>

definition CD_FindTrackForLBA :: "cd_state \<Rightarrow> u32 \<Rightarrow> cd_track option" where
  "CD_FindTrackForLBA cd n =
     (if tracks cd = [] then None
      else case find (\<lambda>t. start_lba t \<le> n \<and> n < start_lba t + length_sectors t) (tracks cd) of
             Some t \<Rightarrow> Some t
           | None \<Rightarrow> if n < leadout_lba cd then Some (last (tracks cd)) else None)"

definition track_file_pos :: "cd_track \<Rightarrow> u32 \<Rightarrow> u64" where
  "track_file_pos t n =
     (if data_start_lba t \<le> n then file_offset t + ucast (n - data_start_lba t) * ucast (track_sector_size t)
      else if start_lba t \<le> n then ucast n * ucast (track_sector_size t)
      else file_offset t)"

text \<open>\<open>fseek\<close> with a negative \<open>long\<close> fails.\<close>

definition cd_fread :: "host \<Rightarrow> fh \<Rightarrow> u64 \<Rightarrow> nat \<Rightarrow> u8 list option" where
  "cd_fread h f pos n = (if sint pos < 0 then None else fread_block h f (unat pos) n)"

text \<open>Where the 2048 user bytes start in a stored sector.\<close>

definition user_offset :: "cd_track_type \<Rightarrow> u64" where
  "user_offset ty = (case ty of CD_MODE_MODE1_2352 \<Rightarrow> 16 | CD_MODE_MODE2_2352 \<Rightarrow> 24 | _ \<Rightarrow> 0)"

definition cd_block :: "host \<Rightarrow> cd_state \<Rightarrow> u32 \<Rightarrow> u8 list option" where
  "cd_block h cd n =
     (case CD_FindTrackForLBA cd n of
        None \<Rightarrow> None
      | Some t \<Rightarrow>
          (case track_fh t of
             None \<Rightarrow> None
           | Some f \<Rightarrow> cd_fread h f (track_file_pos t n + user_offset (track_type t)) 2048))"

text \<open>The bytes read so far, and whether all blocks could be read.\<close>

primrec CD_Read2048 :: "host \<Rightarrow> cd_state \<Rightarrow> u32 \<Rightarrow> nat \<Rightarrow> u8 list \<times> bool" where
  "CD_Read2048 h cd n 0 = ([], True)"
| "CD_Read2048 h cd n (Suc k) =
     (case cd_block h cd n of
        None \<Rightarrow> ([], False)
      | Some bs \<Rightarrow> (let (r, ok) = CD_Read2048 h cd (n + 1) k in (bs @ r, ok)))"

definition CD_ReadRawSector :: "host \<Rightarrow> cd_state \<Rightarrow> u32 \<Rightarrow> u8 list \<times> bool" where
  "CD_ReadRawSector h cd n =
     (case CD_FindTrackForLBA cd n of
        None \<Rightarrow> (replicate 2352 0, False)
      | Some t \<Rightarrow>
          (case track_fh t of
             None \<Rightarrow> (replicate 2352 0, False)
           | Some f \<Rightarrow>
               if track_type t = CD_MODE_MODE1_2048
               then ([0] @ replicate 10 0xFF @ [0] @ LBA_to_MSF_BCD n False @ [1] @
                       (case cd_fread h f (track_file_pos t n) 2048 of
                          None \<Rightarrow> replicate 2048 0 | Some bs \<Rightarrow> bs) @
                       replicate 288 0, True)
               else (case cd_fread h f (track_file_pos t n) 2352 of
                       None \<Rightarrow> (replicate 2352 0, False)
                     | Some bs \<Rightarrow> (bs, True))))"

subsection \<open>Facts about addresses\<close>

lemma unat_MSF_to_LBA_rel: "unat (MSF_to_LBA m s f True) = (unat m * 60 + unat s) * 75 + unat f"
proof -
  have "unat m < 256" "unat s < 256" "unat f < 256"
    by (rule unat_u8_less)+
  then show ?thesis
    by (simp add: MSF_to_LBA_def unat_word_ariths unat_ucast_up)
qed

lemma LBA_to_MSF_rel_back:
  assumes "unat l < 1152000" "LBA_to_MSF l True = [m, s, f]"
  shows "MSF_to_LBA m s f True = l"
proof -
  have "\<not> sint l < 0" using assms(1) by (simp add: sint_eq_unat)
  then have "m = ucast (l div 75 div 60)" "s = ucast (l div 75 mod 60)" "f = ucast (l mod 75)"
    using assms(2) by (simp_all add: LBA_to_MSF_def)
  moreover have "unat l div 75 div 60 < 256" using assms(1) by simp
  ultimately have "unat m = unat l div 75 div 60" "unat s = unat l div 75 mod 60" "unat f = unat l mod 75"
    by (simp_all add: unat_ucast_u8_small unat_div unat_mod)
  then have "unat (MSF_to_LBA m s f True) = unat l"
    by (simp add: unat_MSF_to_LBA_rel)
  then show ?thesis by (rule unsigned_word_eqI)
qed

lemma LBA_to_MSF_back:
  assumes "unat n + 150 < 1152000" "LBA_to_MSF n False = [m, s, f]"
  shows "MSF_to_LBA m s f False = n"
proof -
  have "unat (n + 150) = unat n + 150" using assms(1) by (simp add: unat_plus_no_wrap)
  moreover have "LBA_to_MSF (n + 150) True = [m, s, f]" using assms(2) by (simp add: LBA_to_MSF_def)
  ultimately have "MSF_to_LBA m s f True = n + 150" using assms(1) by (intro LBA_to_MSF_rel_back) simp_all
  then show ?thesis by (simp add: MSF_to_LBA_def Let_def)
qed

subsection \<open>Facts about playback\<close>

lemma audio_update_fields [simp]:
  "tracks (CD_UpdateAudioPlayback now cd) = tracks cd"
  "leadout_lba (CD_UpdateAudioPlayback now cd) = leadout_lba cd"
  "tray_open (CD_UpdateAudioPlayback now cd) = tray_open cd"
  "media_events (CD_UpdateAudioPlayback now cd) = media_events cd"
  "audio_paused (CD_UpdateAudioPlayback now cd) = audio_paused cd"
  "audio_start_lba (CD_UpdateAudioPlayback now cd) = audio_start_lba cd"
  "audio_end_lba (CD_UpdateAudioPlayback now cd) = audio_end_lba cd"
  by (simp_all add: CD_UpdateAudioPlayback_def Let_def)

text \<open>
  The head never passes the end of the play range, and playback is over exactly when it
  has got there.
\<close>

lemma audio_update_playing:
  assumes "audio_status cd = 0x11" "\<not> audio_paused cd"
  shows "audio_current_lba (CD_UpdateAudioPlayback now cd) \<le> audio_end_lba cd"
    and "audio_status (CD_UpdateAudioPlayback now cd) =
      (if audio_current_lba (CD_UpdateAudioPlayback now cd) = audio_end_lba cd then 0x15 else 0x11)"
  using assms by (auto simp: CD_UpdateAudioPlayback_def Let_def)

subsection \<open>Facts about closing\<close>

definition open_fhs :: "cd_track list \<Rightarrow> fh set" where
  "open_fhs ts = {f. \<exists>t \<in> set ts. track_fh t = Some f}"

lemma open_fhs_simps [simp]:
  "open_fhs [] = {}"
  "open_fhs (t # ts) = (case track_fh t of None \<Rightarrow> {} | Some f \<Rightarrow> {f}) \<union> open_fhs ts"
  by (auto simp: open_fhs_def split: option.split)

lemma open_fhs_forget [simp]: "open_fhs (map (forget_fh f) ts) = open_fhs ts - {f}"
  by (auto simp: open_fhs_def forget_fh_def)

lemma close_tracks_streams:
  "streams (close_tracks ts h) = (\<lambda>f. if f \<in> open_fhs ts then None else streams h f)"
  by (induction ts h rule: close_tracks.induct) (auto simp: fclose_def split: option.split)

text \<open>With every handle open at the start, no handle is closed twice.\<close>

lemma close_tracks_once:
  "(\<forall>f \<in> open_fhs ts. streams h f \<noteq> None) \<Longrightarrow> bad_close (close_tracks ts h) = bad_close h"
proof (induction ts h rule: close_tracks.induct)
  case (2 t ts h)
  then show ?case by (cases "track_fh t") (auto simp: fclose_def)
qed simp

lemma close_tracks_files [simp]: "files (close_tracks ts h) = files h"
  by (induction ts h rule: close_tracks.induct) (auto simp: fclose_def split: option.split)

end
