(* ===== verification/C_Text.thy ===== *)
theory C_Text
  imports Main "HOL-Library.Char_ord"
begin

section \<open>Text in the C locale\<close>

text \<open>
  What the readers of text files share: character classes, decimal numbers as \<open>%d\<close> and
  \<open>atoi\<close> read them and as \<open>%d\<close> prints them, and the lines \<open>fgets\<close> returns for a buffer
  with room for \<open>n\<close> characters before the final NUL. Numbers are unbounded here; the callers
  narrow them.
\<close>

definition isspace :: "char \<Rightarrow> bool" where
  "isspace c = (let n = (of_char c :: nat) in 9 \<le> n \<and> n \<le> 13 \<or> n = 32)"

definition isdigit :: "char \<Rightarrow> bool" where
  "isdigit c = (let n = (of_char c :: nat) in 48 \<le> n \<and> n \<le> 57)"

definition skip_spaces :: "string \<Rightarrow> string" where "skip_spaces = dropWhile isspace"

definition decimal :: "string \<Rightarrow> int" where
  "decimal ds = foldl (\<lambda>n c. n * 10 + (of_char c - 48)) 0 ds"

text \<open>The number \<open>%d\<close> reads and the rest of the text; nothing without a digit.\<close>

definition scan_int :: "string \<Rightarrow> (int \<times> string) option" where
  "scan_int p =
     (let q = skip_spaces p;
          r = (case q of c # cs \<Rightarrow> if c = CHR ''-'' \<or> c = CHR ''+'' then cs else q | [] \<Rightarrow> q);
          ds = takeWhile isdigit r
      in if ds = [] then None
         else Some ((if take 1 q = ''-'' then - decimal ds else decimal ds), drop (length ds) r))"

definition atoi :: "string \<Rightarrow> int" where
  "atoi p = (case scan_int p of None \<Rightarrow> 0 | Some (n, _) \<Rightarrow> n)"

subsection \<open>Lines\<close>

fun fgets_line :: "nat \<Rightarrow> string \<Rightarrow> string \<times> string" where
  "fgets_line 0 p = ([], p)"
| "fgets_line (Suc n) [] = ([], [])"
| "fgets_line (Suc n) (c # cs) =
     (if c = CHR 0x0A then ([c], cs) else (let (l, r) = fgets_line n cs in (c # l, r)))"

lemma fgets_line_append: "fgets_line n p = (l, r) \<Longrightarrow> p = l @ r"
  by (induction n p arbitrary: l r rule: fgets_line.induct) (auto split: if_splits prod.splits)

lemma fgets_line_shorter: "p \<noteq> [] \<Longrightarrow> length (snd (fgets_line (Suc n) p)) < length p"
proof -
  assume "p \<noteq> []"
  then have "fst (fgets_line (Suc n) p) \<noteq> []" by (cases p) (auto split: prod.splits)
  moreover have "p = fst (fgets_line (Suc n) p) @ snd (fgets_line (Suc n) p)"
    by (rule fgets_line_append) simp
  ultimately show ?thesis by (metis length_append length_greater_0_conv less_add_same_cancel2)
qed

lemma fgets_line_newline:
  assumes "CHR 0x0A \<notin> set body" "length body < n"
  shows "fgets_line n (body @ CHR 0x0A # rest) = (body @ [CHR 0x0A], rest)"
  using assms
proof (induction body arbitrary: n)
  case Nil
  then show ?case by (cases n) simp_all
next
  case (Cons c body)
  then show ?case by (cases n) auto
qed

text \<open>A C string ends at its first NUL.\<close>

definition cstring :: "string \<Rightarrow> string" where
  "cstring = takeWhile (\<lambda>c. c \<noteq> CHR 0x00)"

function lines_of :: "nat \<Rightarrow> string \<Rightarrow> string list" where
  "lines_of n p =
     (if p = [] \<or> n = 0 then [] else (let (l, r) = fgets_line n p in l # lines_of n r))"
  by pat_completeness auto
termination
proof (relation "measure (\<lambda>(n, p). length p)")
  fix n p l r and x :: "string \<times> string"
  assume "\<not> (p = [] \<or> n = 0)" "x = fgets_line n p" "(l, r) = x"
  then show "((n, r), (n, p)) \<in> measure (\<lambda>(n, p). length p)"
    using fgets_line_shorter [of p "n - 1"] by (cases n) (auto dest: sym)
qed simp

declare lines_of.simps [simp del]

lemma lines_of_Nil [simp]: "lines_of n [] = []"
  by (simp add: lines_of.simps)

lemma lines_of_newline:
  assumes "CHR 0x0A \<notin> set body" "length body < n"
  shows "lines_of n (body @ CHR 0x0A # rest) = (body @ [CHR 0x0A]) # lines_of n rest"
  using assms by (subst lines_of.simps) (simp add: fgets_line_newline)

subsection \<open>Printed numbers\<close>

fun digits :: "nat \<Rightarrow> string" where
  "digits n = (if n < 10 then [char_of (48 + n)] else digits (n div 10) @ [char_of (48 + n mod 10)])"

declare digits.simps [simp del]

definition print_int :: "int \<Rightarrow> string" where
  "print_int k = (if k < 0 then CHR ''-'' # digits (nat (- k)) else digits (nat k))"

lemma of_char_digit: "n < 10 \<Longrightarrow> (of_char (char_of (48 + n) :: char) :: nat) = 48 + n"
  by simp

lemma digits_are_digits: "c \<in> set (digits n) \<Longrightarrow> isdigit c"
proof (induction n rule: digits.induct)
  case (1 n)
  show ?case
  proof (cases "n < 10")
    case True
    then show ?thesis using "1.prems" by (simp add: digits.simps isdigit_def Let_def)
  next
    case False
    then have "c \<in> set (digits (n div 10)) \<or> c = char_of (48 + n mod 10)" using "1.prems" by (subst (asm) digits.simps) auto
    then show ?thesis using "1.IH" False by (auto simp: isdigit_def Let_def)
  qed
qed

lemma digits_not_Nil [simp]: "digits n \<noteq> []"
  by (subst digits.simps) simp

lemma decimal_snoc: "decimal (ds @ [c]) = decimal ds * 10 + (of_char c - 48)"
  by (simp add: decimal_def)

lemma decimal_digits: "decimal (digits n) = int n"
proof (induction n rule: digits.induct)
  case (1 n)
  have o: "(of_char (char_of (48 + k) :: char) :: int) = 48 + int k" if "k < 10" for k :: nat
    using of_nat_of_char [of "char_of (48 + k)", where ?'a = int] of_char_digit [OF that] by simp
  show ?case
  proof (cases "n < 10")
    case True
    then show ?thesis by (subst digits.simps) (simp add: decimal_def o)
  next
    case False
    then have "decimal (digits n) = int (n div 10) * 10 + int (n mod 10)"
      using "1.IH" by (subst digits.simps) (simp add: decimal_snoc o)
    then show ?thesis by (metis div_mult_mod_eq of_nat_add of_nat_mult of_nat_numeral)
  qed
qed

lemma digit_not_space: "isdigit c \<Longrightarrow> \<not> isspace c \<and> c \<noteq> CHR ''-'' \<and> c \<noteq> CHR ''+'' \<and> c \<noteq> CHR 0x0A \<and> c \<noteq> CHR 0x00"
  by (auto simp: isdigit_def isspace_def Let_def)

lemma atoi_digits: "atoi (digits n) = int n"
proof -
  obtain c cs where d: "digits n = c # cs" using digits_not_Nil [of n] by (cases "digits n") auto
  have c: "isdigit c" using digits_are_digits [of c n] d by simp
  have s: "skip_spaces (digits n) = digits n" using digit_not_space [OF c] d by (simp add: skip_spaces_def)
  have t: "takeWhile isdigit (digits n) = digits n" using digits_are_digits by (simp add: takeWhile_eq_all_conv)
  have "take 1 (digits n) \<noteq> ''-''" using digit_not_space [OF c] d by simp
  then show ?thesis
    using digit_not_space [OF c] d s t decimal_digits [of n] by (simp add: atoi_def scan_int_def Let_def)
qed

lemma atoi_print_int: "atoi (print_int k) = k"
proof (cases "k < 0")
  case True
  let ?d = "digits (nat (- k))"
  have s: "skip_spaces (CHR ''-'' # ?d) = CHR ''-'' # ?d" by (simp add: skip_spaces_def isspace_def)
  have t: "takeWhile isdigit ?d = ?d" using digits_are_digits by (simp add: takeWhile_eq_all_conv)
  show ?thesis using True s decimal_digits [of "nat (- k)"]
    by (simp add: print_int_def atoi_def scan_int_def Let_def t)
qed (simp add: print_int_def atoi_digits)

end
