(* ===== verification/Cue_Sheet.thy ===== *)
theory Cue_Sheet
  imports CD_Image C_Text
begin

section \<open>CUE sheets\<close>

text \<open>
  \<open>CD_LoadCueSheet\<close> of \<open>scsi_dummy.cpp\<close>: the text of the sheet is cut into lines of at
  most 1023 characters, each line is read for one of five keywords, and the entries are
  laid out as the tracks of a disc. The C library is modelled in the C locale. A number
  outside the 32-bit range is undefined for \<open>atoi\<close> and \<open>sscanf\<close>; here it wraps.
\<close>

subsection \<open>Characters and numbers\<close>

definition tolower :: "char \<Rightarrow> char" where
  "tolower c = (let n = (of_char c :: nat) in if 65 \<le> n \<and> n \<le> 90 then char_of (n + 32) else c)"

definition starts_ci :: "string \<Rightarrow> string \<Rightarrow> bool" where
  "starts_ci kw p = (map tolower (take (length kw) p) = map tolower kw)"

definition space_at :: "nat \<Rightarrow> string \<Rightarrow> bool" where
  "space_at i p = (i < length p \<and> isspace (p ! i))"

definition word_of_line :: "string \<Rightarrow> string" where "word_of_line = takeWhile (\<lambda>c. \<not> isspace c)"
definition skip_word :: "string \<Rightarrow> string" where
  "skip_word p = skip_spaces (dropWhile (\<lambda>c. \<not> isspace c) p)"

definition scan_colon :: "string \<Rightarrow> (int \<times> string) option" where
  "scan_colon p = (case p of c # cs \<Rightarrow> if c = CHR '':'' then scan_int cs else None | [] \<Rightarrow> None)"

definition scan_msf :: "string \<Rightarrow> (int \<times> int \<times> int) option" where
  "scan_msf p =
     (case scan_int p of None \<Rightarrow> None
      | Some (m, q) \<Rightarrow> (case scan_colon q of None \<Rightarrow> None
        | Some (s, r) \<Rightarrow> (case scan_colon r of None \<Rightarrow> None | Some (f, _) \<Rightarrow> Some (m, s, f))))"

definition msf_index :: "int \<times> int \<times> int \<Rightarrow> int" where
  "msf_index = (\<lambda>(m, s, f). int (unat (MSF_to_LBA (word_of_int m) (word_of_int s) (word_of_int f) True)))"

subsection \<open>Lines\<close>

definition fgets_lines :: "string \<Rightarrow> string list" where
  "fgets_lines p = map cstring (lines_of 1023 p)"

definition trim :: "string \<Rightarrow> string" where
  "trim l = rev (dropWhile isspace (rev (skip_spaces l)))"

definition text_of :: "u8 list \<Rightarrow> string" where
  "text_of = map (\<lambda>b. char_of (unat b))"

text \<open>The part of a path through its last separator, and what follows it.\<close>

definition dir_of :: "string \<Rightarrow> string" where
  "dir_of p = rev (dropWhile (\<lambda>c. c \<noteq> CHR ''/'' \<and> c \<noteq> CHR 0x5C) (rev p))"

definition base_of :: "string \<Rightarrow> string" where
  "base_of p =
     (if CHR ''/'' \<in> set p then rev (takeWhile (\<lambda>c. c \<noteq> CHR ''/'') (rev p))
      else rev (takeWhile (\<lambda>c. c \<noteq> CHR 0x5C) (rev p)))"

subsection \<open>Entries\<close>

record temp_track =
  tt_num :: int
  tt_type :: cd_track_type
  tt_sector :: u32
  tt_file :: nat
  index00 :: int
  index01 :: int
  pregap :: int

record cue_file =
  cf_path :: string
  cf_size :: u64
  cf_fh :: "fh option"

record cue_state =
  cue_files :: "cue_file list"
  cue_tracks :: "temp_track list"

definition cue_file_name :: "string \<Rightarrow> string" where
  "cue_file_name q =
     (case q of
        c # cs \<Rightarrow>
          if c = CHR 0x22
          then (if CHR 0x22 \<in> set cs then take 1023 (takeWhile (\<lambda>x. x \<noteq> CHR 0x22) cs) else [])
          else take 1023 (word_of_line q)
      | [] \<Rightarrow> [])"

definition cue_full_path :: "string \<Rightarrow> string \<Rightarrow> string" where
  "cue_full_path cue_dir fname =
     (if cue_dir \<noteq> [] \<and> take 1 fname \<noteq> ''/'' \<and> take 1 fname \<noteq> [CHR 0x5C] \<and> take 1 (drop 1 fname) \<noteq> '':''
      then take 1023 (cue_dir @ fname) else take 1023 fname)"

definition cue_FILE :: "string \<Rightarrow> string \<Rightarrow> cue_state \<Rightarrow> host \<Rightarrow> cue_state \<times> host" where
  "cue_FILE cue_dir p st h =
     (let fname = cue_file_name (skip_spaces (drop 4 p));
          path1 = cue_full_path cue_dir fname;
          (fh1, h1) = fopen_read path1 h;
          path2 = (if fh1 = None then take 1023 (cue_dir @ base_of fname) else path1);
          (fh2, h2) = (if fh1 = None then fopen_read path2 h1 else (fh1, h1));
          sz = (case fh2 of None \<Rightarrow> 0 | Some f \<Rightarrow> of_nat (stream_size h2 f))
      in (st\<lparr>cue_files := cue_files st @ [\<lparr>cf_path = path2, cf_size = sz, cf_fh = fh2\<rparr>]\<rparr>, h2))"

definition cue_track_mode :: "string \<Rightarrow> cd_track_type \<times> u32" where
  "cue_track_mode q =
     (if starts_ci ''AUDIO'' q then (CD_MODE_AUDIO, 2352)
      else if starts_ci ''MODE1/2048'' q then (CD_MODE_MODE1_2048, 2048)
      else if starts_ci ''MODE1/2352'' q then (CD_MODE_MODE1_2352, 2352)
      else if starts_ci ''MODE2/2352'' q then (CD_MODE_MODE2_2352, 2352)
      else (CD_MODE_MODE1_2048, 2048))"

definition cue_TRACK :: "string \<Rightarrow> cue_state \<Rightarrow> cue_state" where
  "cue_TRACK p st =
     (let q = skip_spaces (drop 5 p);
          (ty, sz) = cue_track_mode (skip_word q);
          t = \<lparr>tt_num = atoi q, tt_type = ty, tt_sector = sz, tt_file = length (cue_files st) - 1,
               index00 = -1, index01 = -1, pregap = 0\<rparr>
      in st\<lparr>cue_tracks := cue_tracks st @ [t]\<rparr>)"

definition update_last :: "('a \<Rightarrow> 'a) \<Rightarrow> 'a list \<Rightarrow> 'a list" where
  "update_last f xs = (if xs = [] then [] else butlast xs @ [f (last xs)])"

definition cue_INDEX :: "string \<Rightarrow> cue_state \<Rightarrow> cue_state" where
  "cue_INDEX p st =
     (let q = skip_spaces (drop 5 p); inum = atoi q
      in case scan_msf (skip_word q) of
           None \<Rightarrow> st
         | Some msf \<Rightarrow>
             if inum = 0 then st\<lparr>cue_tracks := update_last (\<lambda>t. t\<lparr>index00 := msf_index msf\<rparr>) (cue_tracks st)\<rparr>
             else if inum = 1 then st\<lparr>cue_tracks := update_last (\<lambda>t. t\<lparr>index01 := msf_index msf\<rparr>) (cue_tracks st)\<rparr>
             else st)"

definition cue_PREGAP :: "string \<Rightarrow> cue_state \<Rightarrow> cue_state" where
  "cue_PREGAP p st =
     (case scan_msf (skip_spaces (drop 6 p)) of
        None \<Rightarrow> st
      | Some msf \<Rightarrow> st\<lparr>cue_tracks := update_last (\<lambda>t. t\<lparr>pregap := msf_index msf\<rparr>) (cue_tracks st)\<rparr>)"

definition cue_line :: "string \<Rightarrow> string \<Rightarrow> cue_state \<times> host \<Rightarrow> cue_state \<times> host" where
  "cue_line cue_dir l = (\<lambda>(st, h).
     let q = skip_spaces l; p = trim l
     in if q = [] \<or> take 1 q = ''#'' then (st, h)
        else if starts_ci ''REM'' p \<and> (length p = 3 \<or> space_at 3 p) then (st, h)
        else if starts_ci ''FILE'' p \<and> space_at 4 p then cue_FILE cue_dir p st h
        else if starts_ci ''TRACK'' p \<and> space_at 5 p then (cue_TRACK p st, h)
        else if starts_ci ''INDEX'' p \<and> space_at 5 p then (cue_INDEX p st, h)
        else if starts_ci ''PREGAP'' p \<and> space_at 6 p then (cue_PREGAP p st, h)
        else (st, h))"

subsection \<open>Layout\<close>

definition layout_track :: "cue_file list \<Rightarrow> temp_track \<Rightarrow> cd_track" where
  "layout_track fs t =
     (let fe = fs ! tt_file t
      in \<lparr>track_num = tt_num t, track_type = tt_type t, track_sector_size = tt_sector t, start_lba = 0,
          data_start_lba = 0, length_sectors = 0, file_offset = 0, track_filename = take 1023 (cf_path fe),
          track_fh = cf_fh fe\<rparr>)"

definition first_index :: "temp_track \<Rightarrow> int" where
  "first_index t = (if index00 t \<ge> 0 then index00 t else index01 t)"

fun single_layout :: "cue_file list \<Rightarrow> temp_track list \<Rightarrow> cd_track list" where
  "single_layout fs [] = []"
| "single_layout fs (t # ts) =
     (let idx00 = first_index t;
          idx01 = (if index01 t \<ge> 0 then index01 t else 0);
          total = cf_size (fs ! tt_file t) div ucast (tt_sector t);
          len = (case ts of
                   n # _ \<Rightarrow> if first_index n > idx00 then word_of_int (first_index n - idx00) else 0
                 | [] \<Rightarrow> if total > (word_of_int idx00 :: u64) then ucast (total - word_of_int idx00) else 0)
      in (layout_track fs t)\<lparr>start_lba := word_of_int idx00, data_start_lba := word_of_int idx01,
            file_offset := word_of_int idx01 * ucast (tt_sector t), length_sectors := len\<rparr>
         # single_layout fs ts)"

fun multi_layout :: "cue_file list \<Rightarrow> u32 \<Rightarrow> temp_track list \<Rightarrow> cd_track list" where
  "multi_layout fs run [] = []"
| "multi_layout fs run (t # ts) =
     (let start = run + word_of_int (pregap t);
          len = ucast (cf_size (fs ! tt_file t) div ucast (tt_sector t))
      in (layout_track fs t)\<lparr>start_lba := start, data_start_lba := start, file_offset := 0,
            length_sectors := len\<rparr> # multi_layout fs (start + len) ts)"

definition cue_layout :: "cue_state \<Rightarrow> cd_track list" where
  "cue_layout st =
     (let ts = take MAX_TRACKS_PER_DISC (cue_tracks st)
      in if length (cue_files st) > 1 then multi_layout (cue_files st) 0 ts
         else single_layout (cue_files st) ts)"

definition disc_leadout :: "cd_track list \<Rightarrow> u32" where
  "disc_leadout ts = at_least_one (start_lba (last ts) + length_sectors (last ts))"

definition close_cue_files :: "cue_file list \<Rightarrow> host \<Rightarrow> host" where
  "close_cue_files fs h = fold (\<lambda>fe h. case cf_fh fe of None \<Rightarrow> h | Some f \<Rightarrow> fclose f h) fs h"

definition cue_entries :: "string \<Rightarrow> string \<Rightarrow> host \<Rightarrow> cue_state \<times> host" where
  "cue_entries cue_dir content h =
     fold (cue_line cue_dir) (fgets_lines content) (\<lparr>cue_files = [], cue_tracks = []\<rparr>, h)"

definition CD_LoadCueSheet :: "string \<Rightarrow> cd_state \<Rightarrow> host \<Rightarrow> bool \<times> cd_state \<times> host" where
  "CD_LoadCueSheet cue_path cd h =
     (case fopen_read cue_path h of
        (None, h1) \<Rightarrow> (False, cd, h1)
      | (Some fp, h1) \<Rightarrow>
          (let (cd1, h2) = CD_ClearDisc cd h1;
               cd2 = cd1\<lparr>has_cue := True\<rparr>;
               d = dir_of cue_path;
               cue_dir = (if length d < 1024 then d else []);
               content = (case stream_data h2 fp of None \<Rightarrow> [] | Some c \<Rightarrow> text_of c);
               (st, h3) = cue_entries cue_dir content h2;
               h4 = fclose fp h3
           in if cue_tracks st = [] \<or> cue_files st = []
              then (False, cd2, close_cue_files (cue_files st) h4)
              else (True, cd2\<lparr>tracks := cue_layout st, leadout_lba := disc_leadout (cue_layout st),
                              audio_status := 0x15, audio_paused := False, media_events := 0x02\<rparr>, h4)))"

subsection \<open>The handles a sheet opens\<close>

definition cue_handles :: "cue_file list \<Rightarrow> fh list" where
  "cue_handles fs = List.map_filter cf_fh fs"

lemma cue_handles_simps [simp]:
  "cue_handles [] = []"
  "cue_handles (fs @ gs) = cue_handles fs @ cue_handles gs"
  "cue_handles (fe # fs) = (case cf_fh fe of None \<Rightarrow> [] | Some f \<Rightarrow> [f]) @ cue_handles fs"
  by (auto simp: cue_handles_def List.map_filter_def split: option.splits)

definition cue_ok :: "host \<Rightarrow> cue_state \<times> host \<Rightarrow> bool" where
  "cue_ok h0 = (\<lambda>(st, h).
     files h = files h0 \<and> bad_close h = bad_close h0 \<and> next_fh h0 \<le> next_fh h \<and>
     distinct (cue_handles (cue_files st)) \<and>
     set (cue_handles (cue_files st)) \<subseteq> {next_fh h0..<next_fh h} \<and>
     (\<forall>f \<in> set (cue_handles (cue_files st)). streams h f \<noteq> None) \<and>
     (\<forall>f. f \<notin> set (cue_handles (cue_files st)) \<longrightarrow> streams h f = streams h0 f) \<and>
     (\<forall>t \<in> set (cue_tracks st). tt_file t < max 1 (length (cue_files st)) \<and> 0 \<le> pregap t))"

lemma cue_okI_file:
  assumes "cue_ok h0 (st, h)" "fopen_read path h = (r, h1)"
  shows "cue_ok h0 (st\<lparr>cue_files := cue_files st @ [\<lparr>cf_path = p, cf_size = n, cf_fh = r\<rparr>]\<rparr>, h1)"
  using assms
  by (auto simp: cue_ok_def fopen_read_def open_stream_def less_max_iff_disj split: if_splits)

lemma set_update_last: "x \<in> set (update_last f xs) \<Longrightarrow> x \<in> set xs \<or> (\<exists>y \<in> set xs. x = f y)"
  by (cases xs rule: rev_cases) (auto simp: update_last_def)

lemma cue_ok_tracks:
  assumes "cue_ok h0 (st, h)"
    and "\<And>t. t \<in> set (g (cue_tracks st)) \<Longrightarrow> tt_file t < max 1 (length (cue_files st)) \<and> 0 \<le> pregap t"
  shows "cue_ok h0 (st\<lparr>cue_tracks := g (cue_tracks st)\<rparr>, h)"
  using assms by (simp add: cue_ok_def)

lemma cue_ok_FILE: "cue_ok h0 (st, h) \<Longrightarrow> cue_ok h0 (cue_FILE d p st h)"
proof -
  assume a: "cue_ok h0 (st, h)"
  let ?p1 = "cue_full_path d (cue_file_name (skip_spaces (drop 4 p)))"
  obtain r h1 where o: "fopen_read ?p1 h = (r, h1)" by (cases "fopen_read ?p1 h") auto
  have n: "r = None \<Longrightarrow> h1 = h" using o by (auto simp: fopen_read_def open_stream_def split: if_splits)
  show ?thesis
    using cue_okI_file [OF a o] cue_okI_file [OF a] o n
    by (cases r) (auto simp: cue_FILE_def Let_def split: prod.split)
qed

lemma cue_ok_TRACK: "cue_ok h0 (st, h) \<Longrightarrow> cue_ok h0 (cue_TRACK p st, h)"
  unfolding cue_TRACK_def Let_def by (auto simp: cue_ok_def split: prod.split)

lemma cue_ok_update:
  assumes "cue_ok h0 (st, h)" "\<And>t. tt_file (f t) = tt_file t" "\<And>t. 0 \<le> pregap t \<Longrightarrow> 0 \<le> pregap (f t)"
  shows "cue_ok h0 (st\<lparr>cue_tracks := update_last f (cue_tracks st)\<rparr>, h)"
  using assms by (intro cue_ok_tracks) (auto simp: cue_ok_def dest!: set_update_last)

lemma msf_index_nonneg: "0 \<le> msf_index msf"
  by (simp add: msf_index_def split: prod.split)

lemma cue_ok_INDEX: "cue_ok h0 (st, h) \<Longrightarrow> cue_ok h0 (cue_INDEX p st, h)"
  unfolding cue_INDEX_def Let_def by (auto intro!: cue_ok_update split: option.split)

lemma cue_ok_PREGAP: "cue_ok h0 (st, h) \<Longrightarrow> cue_ok h0 (cue_PREGAP p st, h)"
  unfolding cue_PREGAP_def by (auto intro!: cue_ok_update simp: msf_index_nonneg split: option.split)

lemma cue_ok_line: "cue_ok h0 x \<Longrightarrow> cue_ok h0 (cue_line d l x)"
  by (cases x) (simp add: cue_line_def Let_def cue_ok_FILE cue_ok_TRACK cue_ok_INDEX cue_ok_PREGAP)

lemma cue_ok_entries: "cue_ok h (cue_entries d content h)"
proof -
  have "cue_ok h x \<Longrightarrow> cue_ok h (fold (cue_line d) ls x)" for ls x
    by (induction ls arbitrary: x) (simp_all add: cue_ok_line)
  then show ?thesis by (simp add: cue_entries_def cue_ok_def)
qed

lemma close_cue_files_streams:
  "streams (close_cue_files fs h) = (\<lambda>f. if f \<in> set (cue_handles fs) then None else streams h f)"
  unfolding close_cue_files_def
  by (induction fs arbitrary: h) (auto simp: fclose_def split: option.split)

lemma close_cue_files_once:
  "distinct (cue_handles fs) \<Longrightarrow> \<forall>f \<in> set (cue_handles fs). streams h f \<noteq> None \<Longrightarrow>
   bad_close (close_cue_files fs h) = bad_close h"
  unfolding close_cue_files_def
proof (induction fs arbitrary: h)
  case (Cons fe fs)
  show ?case
  proof (cases "cf_fh fe")
    case None
    with Cons show ?thesis by simp
  next
    case (Some f)
    have "bad_close (fold (\<lambda>fe h. case cf_fh fe of None \<Rightarrow> h | Some f \<Rightarrow> fclose f h) fs (fclose f h)) =
        bad_close (fclose f h)"
      using Cons.prems Some by (intro Cons.IH) (auto simp: fclose_def)
    with Some Cons.prems show ?thesis by (auto simp: fclose_def)
  qed
qed simp

subsection \<open>Where sectors lie\<close>

lemma layout_track_sel [simp]:
  "track_type (layout_track fs t) = tt_type t" "track_sector_size (layout_track fs t) = tt_sector t"
  "track_fh (layout_track fs t) = cf_fh (fs ! tt_file t)" "track_num (layout_track fs t) = tt_num t"
  by (simp_all add: layout_track_def Let_def)

lemma length_single_layout [simp]: "length (single_layout fs ts) = length ts"
  by (induction fs ts rule: single_layout.induct) (simp_all add: Let_def)

lemma length_multi_layout [simp]: "length (multi_layout fs run ts) = length ts"
  by (induction fs run ts rule: multi_layout.induct) (simp_all add: Let_def)

text \<open>The disc a multi-file sheet describes is a sequence of disjoint ranges.\<close>

definition track_sectors :: "cue_file list \<Rightarrow> temp_track \<Rightarrow> nat" where
  "track_sectors fs t = unat (cf_size (fs ! tt_file t) div ucast (tt_sector t))"

definition disc_sectors :: "cue_file list \<Rightarrow> temp_track list \<Rightarrow> nat" where
  "disc_sectors fs ts = (\<Sum>t\<leftarrow>ts. nat (pregap t) + track_sectors fs t)"

definition track_end :: "cd_track \<Rightarrow> nat" where
  "track_end t = unat (start_lba t) + unat (length_sectors t)"

lemma unat_ucast_down: "unat (x :: u64) < 4294967296 \<Longrightarrow> unat (ucast x :: u32) = unat x"
  by (simp add: unsigned_ucast_eq take_bit_nat_eq_self)

lemma unat_word_of_int: "0 \<le> i \<Longrightarrow> i < 4294967296 \<Longrightarrow> unat (word_of_int i :: u32) = nat i"
  by (simp add: unsigned_of_int take_bit_int_eq_self)

lemma multi_layout_ranges:
  assumes "unat run + disc_sectors fs ts < 4294967296" "\<forall>t \<in> set ts. 0 \<le> pregap t"
  shows "sorted_wrt (\<lambda>a b. track_end a \<le> unat (start_lba b)) (multi_layout fs run ts) \<and>
    (\<forall>t \<in> set (multi_layout fs run ts). unat run \<le> unat (start_lba t) \<and> track_end t < 4294967296)"
  using assms
proof (induction fs run ts rule: multi_layout.induct)
  case (2 fs run t ts)
  let ?start = "run + word_of_int (pregap t)"
  let ?len = "ucast (cf_size (fs ! tt_file t) div ucast (tt_sector t)) :: u32"
  have b: "unat run + nat (pregap t) + track_sectors fs t + disc_sectors fs ts < 4294967296" "0 \<le> pregap t"
    using 2(2,3) by (simp_all add: disc_sectors_def)
  have len: "unat ?len = track_sectors fs t"
    using b by (simp add: track_sectors_def unat_ucast_down)
  have p: "unat (word_of_int (pregap t) :: u32) = nat (pregap t)"
    using b by (simp add: unat_word_of_int)
  have start: "unat ?start = unat run + nat (pregap t)"
    using b p by (simp add: unat_plus_no_wrap)
  have "unat (?start + ?len) = unat run + nat (pregap t) + track_sectors fs t"
    using b start len by (simp add: unat_plus_no_wrap)
  with 2 b start len show ?case
    by (fastforce simp: Let_def track_end_def)
qed simp_all

lemma find_sorted_ranges:
  assumes "sorted_wrt (\<lambda>a b. track_end a \<le> unat (start_lba b)) ts" "\<forall>t \<in> set ts. track_end t < 4294967296"
    and "t \<in> set ts" "unat (start_lba t) \<le> unat n" "unat n < track_end t"
  shows "find (\<lambda>t. start_lba t \<le> n \<and> n < start_lba t + length_sectors t) ts = Some t"
proof -
  have r: "(start_lba u \<le> n \<and> n < start_lba u + length_sectors u) \<longleftrightarrow> unat (start_lba u) \<le> unat n \<and> unat n < track_end u"
    if "u \<in> set ts" for u
  proof -
    have "unat (start_lba u + length_sectors u) = track_end u"
      using assms(2) that by (simp add: track_end_def unat_plus_no_wrap)
    then show ?thesis by (simp add: word_le_nat_alt word_less_nat_alt)
  qed
  have "find (\<lambda>u. unat (start_lba u) \<le> unat n \<and> unat n < track_end u) ts = Some t"
    using assms(1,3,4,5) by (induction ts) auto
  moreover have "find (\<lambda>t. start_lba t \<le> n \<and> n < start_lba t + length_sectors t) ts =
      find (\<lambda>u. unat (start_lba u) \<le> unat n \<and> unat n < track_end u) ts"
    by (rule find_cong) (simp_all add: r)
  ultimately show ?thesis by simp
qed

lemma single_layout_pos:
  assumes "t \<in> set (single_layout fs ts)" "\<forall>x \<in> set ts. 0 \<le> index01 x \<and> index01 x < 4294967296"
    "start_lba t \<le> n"
  shows "track_file_pos t n = ucast n * ucast (track_sector_size t)"
  using assms
proof (induction fs ts rule: single_layout.induct)
  case (2 fs x ts)
  have d: "(word_of_int (index01 x) :: u64) = ucast (word_of_int (index01 x) :: u32)"
    using 2(3) by (intro unsigned_word_eqI [where ?'a = int])
      (simp add: unsigned_ucast_eq unsigned_of_int take_bit_int_eq_self)
  have c: "ucast (n - m) = (ucast n - ucast m :: u64)" if "m \<le> n" for m :: u32
  proof -
    have e: "uint (ucast x :: u64) = uint x" for x :: u32
      using unsigned_less [where 'a = int, of x]
      by (simp add: unsigned_ucast_eq take_bit_int_eq_self)
    have le: "uint m \<le> uint n" using that by (simp add: word_le_def)
    then have "uint (ucast n - ucast m :: u64) = uint n - uint m"
      using uint_sub_lem [of "ucast m :: u64" "ucast n"] by (simp only: e)
    moreover have "uint (n - m) = uint n - uint m"
      using le uint_sub_lem [of m n] by blast
    ultimately show ?thesis
      by (intro unsigned_word_eqI [where ?'a = int]) (simp only: e)
  qed
  from 2 show ?case
    by (auto simp: Let_def track_file_pos_def d c algebra_simps)
qed simp

end
