(* ===== verification/SCSI_Blocks.thy ===== *)
theory SCSI_Blocks
  imports Cue_Sheet
begin

section \<open>Block devices\<close>

text \<open>
  The commands every target answers: INQUIRY, TEST UNIT READY, START STOP UNIT, READ
  CAPACITY, READ, WRITE, MODE SELECT and REQUEST SENSE. A command block is the list
  \<open>cmd_buffer\<close>; a handler reads it in place. \<open>message\<close> and \<open>lun\<close> are set by the
  dispatcher. A failed \<open>fread\<close> leaves the buffer as it is.
\<close>

subsection \<open>Reading the command block\<close>

definition cdb16 :: "u8 list \<Rightarrow> nat \<Rightarrow> u32" where
  "cdb16 c i = of_be16 (c ! i) (c ! (i + 1))"

definition cdb24 :: "u8 list \<Rightarrow> nat \<Rightarrow> u32" where
  "cdb24 c i = of_be24 (c ! i) (c ! (i + 1)) (c ! (i + 2))"

definition cdb32 :: "u8 list \<Rightarrow> nat \<Rightarrow> u32" where
  "cdb32 c i = of_be32 (c ! i) (c ! (i + 1)) (c ! (i + 2)) (c ! (i + 3))"

definition SCSI_GetTransferLength :: "u8 \<Rightarrow> u8 list \<Rightarrow> u32" where
  "SCSI_GetTransferLength opcode c = (if opcode < 0x20 then ucast (c ! 4) else cdb16 c 7)"

definition SCSI_GetOffset :: "u8 \<Rightarrow> u8 list \<Rightarrow> u32" where
  "SCSI_GetOffset opcode c = (if opcode < 0x20 then cdb24 c 1 AND 0x1FFFFF else cdb32 c 2)"

definition SCSI_GetCount :: "u8 \<Rightarrow> u8 list \<Rightarrow> u32" where
  "SCSI_GetCount opcode c =
     (if opcode < 0x20 then (if c ! 4 = 0 then 0x100 else ucast (c ! 4))
      else if opcode = 0xA8 \<or> opcode = 0xAA then cdb32 c 6 else cdb16 c 7)"

definition blocksize :: "scsi \<Rightarrow> u32" where
  "blocksize s =
     (if cdrom (cur s) then (if sector_size (cur s) \<noteq> 0 then sector_size (cur s) else CDBLOCKSIZE)
      else BLOCKSIZE)"

text \<open>No disc, or a disc whose first track has no file.\<close>

definition first_fh :: "cd_state \<Rightarrow> fh option" where
  "first_fh cd = (case tracks cd of [] \<Rightarrow> None | t # _ \<Rightarrow> track_fh t)"

definition no_disc :: "cd_state \<Rightarrow> bool" where
  "no_disc cd = (tray_open cd \<or> first_fh cd = None)"

definition disc_missing :: "scsi \<Rightarrow> scsi" where
  "disc_missing s = set_xfer 0 (check_key SK_NOTREADY SC_MEDIUM_NOT_PRESENT s)"

subsection \<open>INQUIRY\<close>

definition inquiry_bytes :: "u8 list" where
  "inquiry_bytes =
     [0x00, 0x00, 0x01, 0x01, 0x31, 0x00, 0x00, 0x00,
      0x51, 0x55, 0x41, 0x4E, 0x54, 0x55, 0x4D, 0x20,
      0x56, 0x44, 0x49, 0x53, 0x4B, 0x20, 0x20, 0x20,
      0x20, 0x20, 0x20, 0x20, 0x20, 0x20, 0x20, 0x20,
      0x30, 0x39, 0x30, 0x30, 0x00, 0x00, 0x00, 0xD9,
      0x32, 0x30, 0x31, 0x34, 0x76, 0x30, 0x32, 0x61,
      0x07, 0x00, 0xA0, 0x00, 0x00, 0xFF]"

definition CDinquiry_bytes :: "u8 list" where
  "CDinquiry_bytes =
     [0x05, 0x80, 0x02, 0x02, 0x1F, 0x00, 0x00, 0x18,
      0x53, 0x4F, 0x4E, 0x59, 0x20, 0x20, 0x20, 0x20,
      0x43, 0x44, 0x2D, 0x52, 0x4F, 0x4D, 0x20, 0x43,
      0x44, 0x55, 0x2D, 0x38, 0x30, 0x30, 0x34, 0x20,
      0x31, 0x2E, 0x39, 0x61]"

definition SCSI_Inquiry :: "scsi \<Rightarrow> scsi" where
  "SCSI_Inquiry s =
     (let tab = (if cdrom (cur s) then CDinquiry_bytes else inquiry_bytes);
          req = SCSI_GetTransferLength (cmd_buffer s ! 0) (cmd_buffer s);
          n = (if sint req > int (length tab) then of_nat (length tab) else req);
          s1 = put_buffer 0 (take (unat n) tab) (set_xfer n (s\<lparr>buf_disk := False\<rparr>));
          s2 = (if lun (cur s) \<noteq> 0 then put_buffer 0 [0x7F] s1 else s1)
      in good s2)"

subsection \<open>TEST UNIT READY and START STOP UNIT\<close>

definition SCSI_TestUnitReady :: "scsi \<Rightarrow> scsi" where
  "SCSI_TestUnitReady s =
     (let ready = (if cdrom (cur s) then \<not> no_disc (disc s) else dsk (cur s) \<noteq> None)
      in if \<not> ready then check_key SK_NOTREADY SC_MEDIUM_NOT_PRESENT s
         else upd_cur (\<lambda>d. set_sense (\<lambda>x. x\<lparr>sense_key := SK_NOSENSE, sense_code := SC_NO_ERROR,
                                            sense_ascq := 0, sense_valid := False\<rparr>)
                            (d\<lparr>status := STAT_GOOD\<rparr>)) s)"

definition eject_disc :: "scsi \<Rightarrow> scsi" where
  "eject_disc s =
     (let (cd, h) = CD_ClearDisc (disc s) (hst s);
          s1 = upd_cur (\<lambda>d. d\<lparr>dsk := None, dev_size := 0\<rparr>)
                 (upd_disc (\<lambda>_. cd\<lparr>tray_open := True, media_events := 0x03\<rparr>) (s\<lparr>hst := h\<rparr>))
      in s1\<lparr>paths := (paths s1)(target s := []), scsi_prefs := (scsi_prefs s1)(target s := None)\<rparr>)"

definition SCSI_StartStop :: "scsi \<Rightarrow> scsi" where
  "SCSI_StartStop s =
     (let loej = cmd_buffer s ! 4 AND 2 \<noteq> 0; start = cmd_buffer s ! 4 AND 1 \<noteq> 0;
          s1 = upd_disc (\<lambda>cd. (CD_UpdateAudioPlayback (now_ms s) cd)\<lparr>audio_status := 0x15, audio_paused := False\<rparr>) s
      in good (if \<not> cdrom (cur s) then s
               else if \<not> loej then s1
               else if start then upd_disc (\<lambda>cd. cd\<lparr>tray_open := False, media_events := 0x02\<rparr>) s1
               else eject_disc s1))"

subsection \<open>READ CAPACITY\<close>

definition total_sectors :: "scsi \<Rightarrow> u32" where
  "total_sectors s =
     (if cdrom (cur s) then (if blocksize s = 512 then leadout_lba (disc s) * 4 else leadout_lba (disc s))
      else dev_size (cur s) div blocksize s)"

definition SCSI_ReadCapacity :: "scsi \<Rightarrow> scsi" where
  "SCSI_ReadCapacity s =
     (if cdrom (cur s) \<and> no_disc (disc s) then disc_missing s
      else (let last_lba = (if total_sectors s > 0 then total_sectors s - 1 else 0)
            in good ((set_xfer 8 (put_buffer 0 (be32 last_lba @ be32 (blocksize s)) s))\<lparr>buf_disk := False\<rparr>)))"

subsection \<open>READ\<close>

definition read_no_memory :: "scsi \<Rightarrow> scsi" where
  "read_no_memory = upd_cur (\<lambda>d. set_sense (\<lambda>x. x\<lparr>sense_key := SK_HARDWARE, sense_code := SC_NO_ERROR,
                                                  sense_valid := False\<rparr>)
                                  (d\<lparr>status := STAT_CHECK_COND\<rparr>))"

text \<open>A drive in 512-byte mode: each block is a quarter of a 2048-byte sector.\<close>

primrec cd_read512 :: "host \<Rightarrow> cd_state \<Rightarrow> u32 \<Rightarrow> nat \<Rightarrow> u8 list \<times> u32 option" where
  "cd_read512 h cd n 0 = ([], None)"
| "cd_read512 h cd n (Suc k) =
     (case CD_Read2048 h cd (n div 4) 1 of
        (bs, ok) \<Rightarrow>
          if \<not> ok then ([], Some n)
          else (let (r, e) = cd_read512 h cd (n + 1) k
                in (window (unat (n mod 4) * 512) 512 bs @ r, e)))"

definition read_done :: "u32 \<Rightarrow> u32 \<Rightarrow> scsi \<Rightarrow> scsi" where
  "read_done count sz s =
     set_xfer sz (upd_cur (\<lambda>d. d\<lparr>lba := lba d + count, blockcounter := 0\<rparr>) (good s))"

definition cd_read_sectors :: "scsi \<Rightarrow> scsi" where
  "cd_read_sectors s =
     (let req_lba = lba (cur s); req_count = blockcounter (cur s)
      in if no_disc (disc s) then disc_missing s
         else if blocksize s = 2048 then
           (let (bs, ok) = CD_Read2048 (hst s) (disc s) req_lba (unat req_count); s1 = put_buffer 0 bs s
            in if ok then read_done req_count (req_count * 2048) s1 else set_xfer 0 (bad_lba req_lba s1))
         else if blocksize s = 512 then
           (let (bs, e) = cd_read512 (hst s) (disc s) req_lba (unat req_count); s1 = put_buffer 0 bs s
            in case e of None \<Rightarrow> read_done req_count (req_count * 512) s1 | Some n \<Rightarrow> bad_lba n s1)
         else s)"

definition hd_fread :: "scsi \<Rightarrow> u8 list option" where
  "hd_fread s =
     (case dsk (cur s) of None \<Rightarrow> None
      | Some f \<Rightarrow> fread_block (hst s) f (unat (lba (cur s)) * 512) 512)"

definition next_block :: "scsi \<Rightarrow> scsi" where
  "next_block s = upd_cur (\<lambda>d. d\<lparr>lba := lba d + 1, blockcounter := blockcounter d - 1\<rparr>) (good s)"

lemma next_block_counter: "blockcounter (cur (next_block s)) = blockcounter (cur s) - 1"
  by (simp add: next_block_def good_def)

function hd_read_loop :: "nat \<Rightarrow> scsi \<Rightarrow> nat \<times> scsi" where
  "hd_read_loop loop s =
     (if blockcounter (cur s) = 0 then (loop, s)
      else (case hd_fread s of
              None \<Rightarrow> (loop, bad_lba (lba (cur s)) s)
            | Some bs \<Rightarrow> hd_read_loop (Suc loop) (next_block (put_buffer (loop * 512) bs s))))"
  by pat_completeness auto
termination
  by (relation "measure (\<lambda>(_, s). unat (blockcounter (cur s)))")
    (simp_all add: next_block_counter unat_minus_one_less)

declare hd_read_loop.simps [simp del]

definition scsi_read_sector :: "scsi \<Rightarrow> scsi" where
  "scsi_read_sector s =
     (if blockcounter (cur s) = 0 then s
      else (let (ok, s1) = try_buffer (blockcounter (cur s) * blocksize s) s
            in if \<not> ok then read_no_memory s1
               else if cdrom (cur s1) then cd_read_sectors s1
               else (let (loop, s2) = hd_read_loop 0 s1 in set_xfer (of_nat (loop * 512)) s2)))"

definition set_range :: "scsi \<Rightarrow> scsi" where
  "set_range s =
     upd_cur (\<lambda>d. d\<lparr>lba := SCSI_GetOffset (cmd_buffer s ! 0) (cmd_buffer s),
                    blockcounter := SCSI_GetCount (cmd_buffer s ! 0) (cmd_buffer s)\<rparr>) s"

definition SCSI_ReadSector :: "scsi \<Rightarrow> scsi" where
  "SCSI_ReadSector s = scsi_read_sector ((set_range s)\<lparr>buf_disk := True, buf_size := 0\<rparr>)"

subsection \<open>WRITE\<close>

definition hd_fwrite :: "nat \<Rightarrow> scsi \<Rightarrow> scsi \<times> bool" where
  "hd_fwrite loop s =
     (case dsk (cur s) of
        None \<Rightarrow> (s, False)
      | Some f \<Rightarrow>
          (let (bs, s1) = get_buffer (loop * 512) 512 s;
               s2 = s1\<lparr>buf_limit := BLOCKSIZE, buf_size := 0\<rparr>
           in case fwrite_block f (unat (lba (cur s)) * 512) bs (hst s) of
                None \<Rightarrow> (s2, False)
              | Some h \<Rightarrow> (s2\<lparr>hst := h\<rparr>, True)))"

text \<open>A block that cannot be written is tried again, for ever.\<close>

partial_function (option) scsi_write_sector :: "nat \<Rightarrow> scsi \<Rightarrow> scsi option" where
  "scsi_write_sector loop s =
     (if blockcounter (cur s) = 0 then Some s
      else (let (s1, ok) = hd_fwrite loop s
            in scsi_write_sector (Suc loop) (if ok then next_block s1 else bad_lba (lba (cur s1)) s1)))"

definition SCSI_WriteSector :: "scsi \<Rightarrow> scsi option" where
  "SCSI_WriteSector s0 =
     (let s = set_range s0
      in if cdrom (cur s) then Some (check_code SC_WRITE_PROTECT s)
         else scsi_write_sector 0 (s\<lparr>buf_disk := True, buf_size := 0, buf_limit := BLOCKSIZE\<rparr>))"

subsection \<open>MODE SELECT\<close>

text \<open>The block length of the first block descriptor, when the parameter list has one.\<close>

definition mode_select_block_len :: "scsi \<Rightarrow> u32 option" where
  "mode_select_block_len s =
     (let c = cmd_buffer s; six = (c ! 0 = 0x15);
          param_len = unat (if six then ucast (c ! 4) else cdb16 c 7);
          (bd_len, bd_offset) =
            (if six then (if param_len \<ge> 4 then (unat (buffer s ! 3), 4) else (0, 0))
             else (if param_len \<ge> 8 then (unat (cdb16 (buffer s) 6), 8) else (0, 0)))
      in if param_len > 0 \<and> bd_len \<ge> 8 \<and> bd_offset + 8 \<le> param_len
         then Some (cdb24 (buffer s) (bd_offset + 5)) else None)"

definition SCSI_ModeSelect :: "scsi \<Rightarrow> scsi" where
  "SCSI_ModeSelect s =
     (if \<not> cdrom (cur s) then good s
      else good (case mode_select_block_len s of
                   None \<Rightarrow> s
                 | Some n \<Rightarrow> if n = 512 \<or> n = 2048 \<or> n = 2352
                             then upd_cur (\<lambda>d. d\<lparr>sector_size := n\<rparr>) s else s))"

subsection \<open>REQUEST SENSE\<close>

definition sense_key_for :: "u8 \<Rightarrow> u8" where
  "sense_key_for c =
     (if c = SC_WRITE_FAULT \<or> c = SC_INVALID_CMD \<or> c = SC_INVALID_LBA \<or> c = SC_INVALID_CDB \<or> c = SC_INVALID_LUN
      then SK_ILLEGAL_REQ
      else if c = SC_WRITE_PROTECT then SK_DATAPROTECT
      else if c = SC_NOT_READY_TO_READY_TRANSITION then SK_UNIT_ATN
      else if c = SC_MEDIUM_NOT_PRESENT then SK_NOTREADY
      else SK_HARDWARE)"

definition sense_bytes :: "sense_data \<Rightarrow> u8 list" where
  "sense_bytes x =
     [if sense_valid x then 0xF0 else 0x70, 0,
      if sense_key x = 0 \<and> sense_code x \<noteq> 0 then sense_key_for (sense_code x) else sense_key x] @
     (if sense_valid x then be32 (sense_info x) else [0, 0, 0, 0]) @
     [14, 0, 0, 0, 0, sense_code x, sense_ascq x] @ replicate 8 0"

text \<open>The length to return: the allocation length as a signed number, at most 22, and 18 by default.\<close>

definition sense_length :: "u8 list \<Rightarrow> nat" where
  "sense_length c =
     (let n = sint (SCSI_GetCount (c ! 0) c) in if n \<le> 0 then 18 else if n > 22 then 22 else nat n)"

lemma sense_length_le: "sense_length c \<le> 22"
  by (auto simp: sense_length_def Let_def)

definition SCSI_RequestSense :: "scsi \<Rightarrow> scsi" where
  "SCSI_RequestSense s =
     (let n = sense_length (cmd_buffer s);
          s1 = (put_buffer 0 (take n (sense_bytes (sense (cur s)))) (set_xfer (of_nat n) s))\<lparr>buf_disk := False\<rparr>
      in upd_cur (\<lambda>d. set_sense (\<lambda>x. x\<lparr>sense_key := SK_NOSENSE, sense_code := SC_NO_ERROR, sense_ascq := 0,
                                       sense_valid := False\<rparr>)
                        (d\<lparr>status := STAT_GOOD\<rparr>)) s1)"

end
