(* ===== verification/SCSI_CD.thy ===== *)
theory SCSI_CD
  imports SCSI_Blocks
begin

section \<open>CD-ROM commands\<close>

text \<open>
  The multimedia commands of \<open>scsi_dummy.cpp\<close>: the table of contents and the other
  information commands, raw sector reads, and audio playback. Every information command
  builds a response and answers with at most the allocation length of the command block;
  a zero allocation length stands for a default.
\<close>

definition cd_only :: "(scsi \<Rightarrow> scsi) \<Rightarrow> scsi \<Rightarrow> scsi" where
  "cd_only f s = (if \<not> cdrom (cur s) then check_code SC_INVALID_CMD s else f s)"

definition with_disc :: "(scsi \<Rightarrow> scsi) \<Rightarrow> scsi \<Rightarrow> scsi" where
  "with_disc f = cd_only (\<lambda>s. if no_disc (disc s) then disc_missing s else f s)"

definition alloc_length :: "nat \<Rightarrow> nat \<Rightarrow> scsi \<Rightarrow> nat" where
  "alloc_length i dflt s = (let n = unat (cdb16 (cmd_buffer s) i) in if n = 0 then dflt else n)"

definition update_audio :: "scsi \<Rightarrow> scsi" where
  "update_audio s = upd_disc (CD_UpdateAudioPlayback (now_ms s)) s"

definition msf_bit :: "scsi \<Rightarrow> bool" where
  "msf_bit s = (cmd_buffer s ! 1 AND 2 \<noteq> 0)"

definition control :: "cd_track \<Rightarrow> u8" where
  "control t = (if track_type t = CD_MODE_AUDIO then 0x10 else 0x14)"

definition track_count :: "cd_state \<Rightarrow> nat" where
  "track_count cd = length (tracks cd)"

definition disc_address :: "bool \<Rightarrow> u32 \<Rightarrow> u8 list" where
  "disc_address msf n = (if msf then 0 # LBA_to_MSF n False else be32 n)"

subsection \<open>READ TOC\<close>

definition toc_session :: "cd_state \<Rightarrow> bool \<Rightarrow> u8 list" where
  "toc_session cd msf =
     [0x00, 0x0A, 1, 1, 0x00, control (hd (tracks cd)), 1, 0x00] @ (if msf then [0, 0, 2, 0] else [0, 0, 0, 0])"

definition toc_point :: "u8 \<Rightarrow> u8 \<Rightarrow> u8 list \<Rightarrow> u8 list" where
  "toc_point ctrl point addr = [1, ctrl, 0, point, 0, 0, 0, 0] @ addr"

definition toc_full :: "cd_state \<Rightarrow> bool \<Rightarrow> u8 list" where
  "toc_full cd use_bcd =
     (let to_msf = (\<lambda>n. if use_bcd then LBA_to_MSF_BCD n False else LBA_to_MSF n False);
          points =
            toc_point (control (hd (tracks cd))) 0xA0 [1, 0, 0] @
            toc_point (control (last (tracks cd))) 0xA1 [of_nat (track_count cd), 0, 0] @
            toc_point 0x14 0xA2 (to_msf (leadout_lba cd)) @
            concat (map (\<lambda>t. toc_point (control t) (word_of_int (track_num t)) (to_msf (data_start_lba t))) (tracks cd))
      in be16 (of_nat (4 + length points - 2)) @ [1, 1] @ points)"

definition toc_entry :: "bool \<Rightarrow> u8 \<Rightarrow> u8 \<Rightarrow> u32 \<Rightarrow> u8 list" where
  "toc_entry msf ctrl num n = [0x00, ctrl, num, 0x00] @ disc_address msf n"

definition toc_tracks :: "cd_state \<Rightarrow> bool \<Rightarrow> u8 \<Rightarrow> u8 list" where
  "toc_tracks cd msf start_track =
     (if start_track = 0xAA
      then [0x00, 0x0A, 1, of_nat (track_count cd)] @ toc_entry msf 0x14 0xAA (leadout_lba cd)
      else (let track_idx = min (unat start_track - 1) (track_count cd - 1);
                ts = drop track_idx (tracks cd);
                entries = concat (map (\<lambda>t. toc_entry msf (control t) (word_of_int (track_num t)) (data_start_lba t)) ts) @
                          toc_entry msf 0x14 0xAA (leadout_lba cd)
            in be16 (of_nat (2 + (length ts + 1) * 8)) @ [1, of_nat (track_count cd)] @ entries))"

definition toc_response :: "scsi \<Rightarrow> u8 list" where
  "toc_response s =
     (let c = cmd_buffer s; cd = disc s; format = c ! 2 AND 0x0F;
          fmt = (if format = 0 \<and> c ! 9 = 0x80 then 2 else if format = 0 \<and> c ! 9 = 0x40 then 1 else format);
          use_bcd = (format = 0 \<and> c ! 9 = 0x80)
      in if fmt = 1 then toc_session cd (msf_bit s)
         else if fmt = 2 then toc_full cd use_bcd
         else toc_tracks cd (msf_bit s) (c ! 6))"

definition SCSI_ReadTOC :: "scsi \<Rightarrow> scsi" where
  "SCSI_ReadTOC =
     with_disc (\<lambda>s. let s1 = update_audio s in reply (alloc_length 7 65535 s1) (toc_response s1) s1)"

subsection \<open>READ HEADER\<close>

definition header_mode :: "cd_track option \<Rightarrow> u8" where
  "header_mode t =
     (case t of None \<Rightarrow> 1
      | Some t \<Rightarrow> if track_type t = CD_MODE_AUDIO then 0 else if track_type t = CD_MODE_MODE2_2352 then 2 else 1)"

definition SCSI_ReadHeader :: "scsi \<Rightarrow> scsi" where
  "SCSI_ReadHeader =
     with_disc (\<lambda>s. let n = cdb32 (cmd_buffer s) 2
                    in reply (alloc_length 7 8 s)
                         ([header_mode (CD_FindTrackForLBA (disc s) n), 0, 0, 0] @ disc_address (msf_bit s) n) s)"

subsection \<open>READ DISC INFORMATION and READ TRACK INFORMATION\<close>

definition disc_information :: "cd_state \<Rightarrow> u8 list" where
  "disc_information cd =
     [0x00, 0x20, 0x0E, 1, 1, 1, of_nat (track_count cd), 0x00, 0x00] @ replicate 11 0 @
     be32 (leadout_lba cd) @ replicate 10 0"

definition SCSI_ReadDiscInformation :: "scsi \<Rightarrow> scsi" where
  "SCSI_ReadDiscInformation = with_disc (\<lambda>s. reply (alloc_length 7 34 s) (disc_information (disc s)) s)"

definition requested_track :: "scsi \<Rightarrow> cd_track option" where
  "requested_track s =
     (let n = cdb32 (cmd_buffer s) 2
      in if cmd_buffer s ! 1 AND 1 \<noteq> 0
         then (if 1 \<le> sint n \<and> sint n \<le> int (track_count (disc s)) then Some (tracks (disc s) ! (nat (sint n) - 1)) else None)
         else CD_FindTrackForLBA (disc s) n)"

definition track_information :: "cd_track \<Rightarrow> u8 list" where
  "track_information t =
     [0x00, 0x1A, word_of_int (track_num t), 1, 0x00, if track_type t = CD_MODE_AUDIO then 0x00 else 0x04, 0x8F, 0x00] @
     be32 (start_lba t) @ [0xFF, 0xFF, 0xFF, 0xFF] @ replicate 8 0 @ be32 (length_sectors t)"

definition SCSI_ReadTrackInformation :: "scsi \<Rightarrow> scsi" where
  "SCSI_ReadTrackInformation =
     with_disc (\<lambda>s. case requested_track s of
                      None \<Rightarrow> check_code SC_INVALID_CDB s
                    | Some t \<Rightarrow> reply (alloc_length 7 28 s) (track_information t) s)"

subsection \<open>GET CONFIGURATION\<close>

definition features :: "(nat \<times> u8 list) list" where
  "features =
     [(0x0000, [0x00, 0x00, 0x03, 8, 0x00, 0x08, 0x01, 0x00, 0x00, 0x02, 0x00, 0x00]),
      (0x0001, [0x00, 0x01, 0x0B, 8, 0x00, 0x00, 0x00, 0x01, 0x03, 0x00, 0x00, 0x00]),
      (0x0002, [0x00, 0x02, 0x07, 4, 0x02, 0x00, 0x00, 0x00]),
      (0x0003, [0x00, 0x03, 0x03, 4, 0x28, 0x00, 0x00, 0x00]),
      (0x0010, [0x00, 0x10, 0x01, 8, 0x00, 0x00, 0x08, 0x00, 0x00, 0x01, 0x00, 0x00]),
      (0x001D, [0x00, 0x1D, 0x01, 0]),
      (0x001E, [0x00, 0x1E, 0x09, 4, 0x00, 0x00, 0x00, 0x00]),
      (0x0103, [0x01, 0x03, 0x05, 4, 0x03, 0x00, 0x01, 0x00])]"

definition feature_wanted :: "nat \<Rightarrow> nat \<Rightarrow> nat \<Rightarrow> bool" where
  "feature_wanted rt start code = (rt = 2 \<and> start = code \<or> rt \<le> 1 \<and> start \<le> code)"

definition configuration :: "nat \<Rightarrow> nat \<Rightarrow> u8 list" where
  "configuration rt start =
     (let fs = concat (map snd (filter (\<lambda>(code, _). feature_wanted rt start code) features))
      in be32 (of_nat (8 + length fs - 4)) @ [0, 0, 0x00, 0x08] @ fs)"

definition SCSI_GetConfiguration :: "scsi \<Rightarrow> scsi" where
  "SCSI_GetConfiguration =
     cd_only (\<lambda>s. let rt = unat (cmd_buffer s ! 1 AND 3); start = unat (cdb16 (cmd_buffer s) 2)
                  in if rt > 2 then check_code SC_INVALID_CDB s
                     else reply (alloc_length 7 256 s) (configuration rt start) s)"

subsection \<open>GET EVENT STATUS NOTIFICATION and MECHANISM STATUS\<close>

definition event_status :: "u8 \<Rightarrow> u8 list" where
  "event_status ev = (if ev \<noteq> 0 then [0, 6, 4, 4, ev, 1, 0, 0] else [0, 2, 0, 4, 0, 0, 0, 0])"

definition SCSI_GetEventStatus :: "scsi \<Rightarrow> scsi" where
  "SCSI_GetEventStatus =
     cd_only (\<lambda>s. reply (alloc_length 7 8 s) (event_status (media_events (disc s)))
                    (upd_disc (\<lambda>cd. cd\<lparr>media_events := 0\<rparr>) s))"

definition mechanism_status :: "cd_state \<Rightarrow> u8 list" where
  "mechanism_status cd =
     [0x00, if audio_status cd = 0x11 then 0x20 else 0x00] @ tl (be32 (audio_current_lba cd)) @ [0, 0, 0]"

definition SCSI_MechanismStatus :: "scsi \<Rightarrow> scsi" where
  "SCSI_MechanismStatus =
     cd_only (\<lambda>s. let s1 = update_audio s in reply (alloc_length 8 8 s1) (mechanism_status (disc s1)) s1)"

subsection \<open>READ SUB-CHANNEL\<close>

definition track_start :: "cd_track option \<Rightarrow> u32" where
  "track_start t = (case t of None \<Rightarrow> 0 | Some t \<Rightarrow> data_start_lba t)"

definition track_number :: "cd_track option \<Rightarrow> u8" where
  "track_number t = (case t of None \<Rightarrow> 1 | Some t \<Rightarrow> word_of_int (track_num t))"

definition track_control :: "cd_track option \<Rightarrow> u8" where
  "track_control t = (case t of None \<Rightarrow> 0x14 | Some t \<Rightarrow> control t)"

definition index_number :: "cd_track option \<Rightarrow> u32 \<Rightarrow> u8" where
  "index_number t n = (if track_start t \<le> n then 1 else 0)"

definition subchannel :: "cd_state \<Rightarrow> bool \<Rightarrow> bool \<Rightarrow> u8 \<Rightarrow> u8 list" where
  "subchannel cd msf subq format =
     (let n = audio_current_lba cd; t = CD_FindTrackForLBA cd n; rel = n - track_start t
      in if subq \<and> (format = 0 \<or> format = 1)
         then [0, audio_status cd, 0, 12, 0x01, track_control t, track_number t, index_number t n] @
              disc_address msf n @ (if msf then 0 # LBA_to_MSF rel True else be32 rel)
         else if subq \<and> (format = 2 \<or> format = 3)
         then [0, audio_status cd, 0, 16, format, 0x14] @ replicate 14 0
         else [0, audio_status cd, 0, 0])"

definition SCSI_ReadSubChannel :: "scsi \<Rightarrow> scsi" where
  "SCSI_ReadSubChannel =
     cd_only (\<lambda>s. let s1 = update_audio s; c = cmd_buffer s1
                  in reply (alloc_length 7 16 s1)
                       (subchannel (disc s1) (msf_bit s1) (c ! 2 AND 0x40 \<noteq> 0) (c ! 3)) s1)"

subsection \<open>READ CD and the Apple CD-DA reads\<close>

definition no_blocks :: "scsi \<Rightarrow> scsi" where
  "no_blocks s =
     set_xfer 0 (upd_cur (\<lambda>d. set_sense (\<lambda>x. x\<lparr>sense_code := SC_NO_ERROR\<rparr>) (d\<lparr>status := STAT_GOOD\<rparr>)) s)"

definition msf_range :: "u8 list \<Rightarrow> nat \<Rightarrow> u32 \<times> u32" where
  "msf_range c i =
     (let start = MSF_to_LBA (c ! 3) (c ! 4) (c ! 5) False;
          stop = MSF_to_LBA (c ! i) (c ! (i + 1)) (c ! (i + 2)) False
      in (start, if stop > start then stop - start else 0))"

definition q_channel :: "cd_track option \<Rightarrow> u32 \<Rightarrow> u8 list" where
  "q_channel t n =
     [track_control t, track_number t, index_number t n] @ LBA_to_MSF (n - track_start t) True @ [0x00] @
     LBA_to_MSF n False @ [0, 0, 0, 0, 0, 0]"

definition user_data :: "cd_track option \<Rightarrow> u8 list \<Rightarrow> u8 list" where
  "user_data t raw =
     window (case t of Some t \<Rightarrow> if track_type t = CD_MODE_MODE2_2352 then 24 else 16 | None \<Rightarrow> 16) 2048 raw"

primrec read_cd_blocks :: "host \<Rightarrow> cd_state \<Rightarrow> bool \<Rightarrow> bool \<Rightarrow> u32 \<Rightarrow> nat \<Rightarrow> u8 list \<times> u32 option" where
  "read_cd_blocks h cd raw q n 0 = ([], None)"
| "read_cd_blocks h cd raw q n (Suc k) =
     (let (bs, ok) = CD_ReadRawSector h cd n; t = CD_FindTrackForLBA cd n
      in if \<not> ok then ([], Some n)
         else (let (r, e) = read_cd_blocks h cd raw q (n + 1) k
               in ((if raw then bs else user_data t bs) @ (if q then q_channel t n else []) @ r, e)))"

definition raw_wanted :: "u8 \<Rightarrow> bool" where
  "raw_wanted m = (m AND 0xF8 = 0xF8 \<or> m AND 0xB8 = 0xB8 \<or> m = 0)"

definition read_cd_finish :: "u8 list \<times> u32 option \<Rightarrow> u32 \<Rightarrow> scsi \<Rightarrow> scsi" where
  "read_cd_finish r sz s =
     (let s1 = put_buffer 0 (fst r) s
      in case snd r of
           Some n \<Rightarrow> bad_lba n s1
         | None \<Rightarrow> good ((set_xfer sz s1)\<lparr>buf_disk := False\<rparr>))"

definition SCSI_ReadCD :: "bool \<Rightarrow> scsi \<Rightarrow> scsi" where
  "SCSI_ReadCD is_msf =
     with_disc (\<lambda>s.
       let c = cmd_buffer s;
           (n, blocks) = (if is_msf then msf_range c 6 else (cdb32 c 2, cdb24 c 6));
           raw = raw_wanted (c ! 9); q = (c ! 10 = 0x02);
           total = blocks * ((if raw then 2352 else 2048) + (if q then 16 else 0))
       in if blocks = 0 then no_blocks s
          else (let (ok, s1) = try_buffer total s
                in if \<not> ok then no_memory s1
                   else read_cd_finish (read_cd_blocks (hst s1) (disc s1) raw q n (unat blocks)) total s1))"

primrec cdda_blocks :: "host \<Rightarrow> cd_state \<Rightarrow> u32 \<Rightarrow> nat \<Rightarrow> u8 list \<times> u32 option" where
  "cdda_blocks h cd n 0 = ([], None)"
| "cdda_blocks h cd n (Suc k) =
     (let (bs, ok) = CD_ReadRawSector h cd n
      in if \<not> ok then (bs, Some n)
         else (let (r, e) = cdda_blocks h cd (n + 1) k in (bs @ r, e)))"

definition SCSI_AppleReadCDDA :: "bool \<Rightarrow> scsi \<Rightarrow> scsi" where
  "SCSI_AppleReadCDDA is_msf =
     with_disc (\<lambda>s.
       let c = cmd_buffer s;
           (n, blocks) = (if is_msf then msf_range c 7 else (cdb32 c 2, cdb32 c 6));
           total = blocks * 2352
       in if blocks = 0 then no_blocks s
          else (let (ok, s1) = try_buffer total s
                in if \<not> ok then no_memory s1
                   else read_cd_finish (cdda_blocks (hst s1) (disc s1) n (unat blocks)) total s1))"

subsection \<open>Audio playback\<close>

definition nth_track :: "cd_state \<Rightarrow> u8 \<Rightarrow> cd_track option" where
  "nth_track cd i = (if 1 \<le> i \<and> unat i \<le> track_count cd then Some (tracks cd ! (unat i - 1)) else None)"

definition track_play_range :: "cd_state \<Rightarrow> u8 \<Rightarrow> u8 \<Rightarrow> u32 \<times> u32" where
  "track_play_range cd start_track end_track =
     (let start = (case nth_track cd start_track of None \<Rightarrow> 0 | Some t \<Rightarrow> start_lba t);
          stop = (case nth_track cd end_track of None \<Rightarrow> leadout_lba cd | Some t \<Rightarrow> start_lba t + length_sectors t)
      in (start, if stop > start then stop - start else 0))"

definition play_range :: "cd_state \<Rightarrow> u8 list \<Rightarrow> u32 \<times> u32" where
  "play_range cd c =
     (let opcode = c ! 0
      in if opcode = 0x45 then (cdb32 c 2, cdb16 c 7)
         else if opcode = 0xA5 then (cdb32 c 2, cdb32 c 6)
         else if opcode = 0x47 then msf_range c 6
         else if opcode = 0x48 then track_play_range cd (c ! 4) (c ! 7)
         else (0, 0))"

definition start_audio :: "u64 \<Rightarrow> u32 \<times> u32 \<Rightarrow> cd_state \<Rightarrow> cd_state" where
  "start_audio now r cd =
     (if snd r > 0
      then cd\<lparr>audio_status := 0x11, audio_start_lba := fst r, audio_current_lba := fst r,
              audio_end_lba := fst r + snd r, audio_start_time_ms := now, audio_paused := False\<rparr>
      else cd\<lparr>audio_status := 0x15, audio_current_lba := fst r, audio_paused := False\<rparr>)"

definition SCSI_PlayAudio :: "scsi \<Rightarrow> scsi" where
  "SCSI_PlayAudio =
     cd_only (\<lambda>s. good (upd_disc (start_audio (now_ms s) (play_range (disc s) (cmd_buffer s))) s))"

definition resume_audio :: "u64 \<Rightarrow> cd_state \<Rightarrow> cd_state" where
  "resume_audio now cd =
     (if audio_paused cd
      then cd\<lparr>audio_status := 0x11, audio_paused := False, audio_start_lba := audio_current_lba cd,
              audio_start_time_ms := now\<rparr>
      else cd)"

definition pause_audio :: "u64 \<Rightarrow> cd_state \<Rightarrow> cd_state" where
  "pause_audio now cd = (CD_UpdateAudioPlayback now cd)\<lparr>audio_status := 0x12, audio_paused := True\<rparr>"

definition SCSI_PauseResume :: "scsi \<Rightarrow> scsi" where
  "SCSI_PauseResume =
     cd_only (\<lambda>s. good (upd_disc ((if cmd_buffer s ! 8 AND 1 \<noteq> 0 then resume_audio else pause_audio) (now_ms s)) s))"

definition stop_audio :: "cd_state \<Rightarrow> cd_state" where
  "stop_audio cd = cd\<lparr>audio_status := 0x15, audio_paused := False\<rparr>"

definition SCSI_StopAudio :: "scsi \<Rightarrow> scsi" where
  "SCSI_StopAudio s = good (if cdrom (cur s) then upd_disc stop_audio s else s)"

end
