(* ===== verification/SCSI_Mode.thy ===== *)
theory SCSI_Mode
  imports SCSI_Blocks
begin

section \<open>Mode pages\<close>

text \<open>
  MODE SENSE in its two sizes, the pages it returns and the geometry guessed for a disk.
  A page is the list of its bytes; the empty list is a page that does not exist.
\<close>

definition geometry_candidates :: "(u32 \<times> u32) list" where
  "geometry_candidates = [(of_nat h, of_nat s). h \<leftarrow> rev [1..<17], s \<leftarrow> rev [16..<64]]"

definition SCSI_GuessGeometry :: "u32 \<Rightarrow> u32 \<times> u32 \<times> u32" where
  "SCSI_GuessGeometry sz =
     (case find (\<lambda>(h, s). sz mod (s * h) = 0) geometry_candidates of
        Some (h, s) \<Rightarrow> (sz div (s * h), h, s)
      | None \<Rightarrow> (let h = 16; s = 63; c = sz div (s * h)
                 in (if sz mod (s * h) \<noteq> 0 then c + 1 else c, h, s)))"

definition apple_page :: "u8 list" where
  "apple_page = [0x30, 0x16,
     0x41, 0x50, 0x50, 0x4C, 0x45, 0x20, 0x43, 0x4F, 0x4D, 0x50, 0x55, 0x54, 0x45, 0x52, 0x2C, 0x20,
     0x49, 0x4E, 0x43, 0x20, 0x20, 0x20]"

definition SCSI_GetModePage :: "u8 \<Rightarrow> scsi \<Rightarrow> u8 list" where
  "SCSI_GetModePage pagecode s =
     (let cd = cdrom (cur s)
      in if pagecode = 0x00 then [0x00, 0x02, 0x80, 0x00]
         else if pagecode = 0x01 then [0x01, 0x06, 0x00, 0x1B, 0x0B, 0x00, 0x00, 0xFF]
         else if pagecode = 0x03 then (if cd then [0x03, 0x16] @ replicate 22 0 else [])
         else if pagecode = 0x04 then
           (if cd then []
            else (case SCSI_GuessGeometry (dev_size (cur s) div blocksize s) of
                    (cylinders, heads, _) \<Rightarrow>
                      [0x04, 0x12] @ tl (be32 cylinders) @ [ucast heads] @ replicate 14 0))
         else if pagecode = 0x0D then (if cd then [0x0D, 0x06, 0x00, 0x05, 0x00, 0x3C, 0x00, 0x4B] else [])
         else if pagecode = 0x0E then
           (if cd then [0x0E, 0x0E, 0x04, 0x00, 0x00, 0x4B, 0x01, 0xFF, 0x02, 0xFF] @ replicate 6 0 else [])
         else if pagecode = 0x2A then
           (if cd then [0x2A, 0x14, 0x03, 0x00, 0x7F, 0xFF, 0x2D, 0x00, 0x01, 0x60, 0, 0, 0x08, 0x00,
                        0x01, 0x60, 0x01, 0x60, 0x01, 0x60, 0x01, 0x60] else [])
         else if pagecode = 0x30 then apple_page
         else [])"

text \<open>Page control 1 asks which bytes can be changed: none, after the page header.\<close>

definition controlled_page :: "u8 \<Rightarrow> u8 list \<Rightarrow> u8 list" where
  "controlled_page pc page =
     (if pc = 1 then take 2 page @ replicate (length page - 2) 0 else page)"

definition page_skipped :: "bool \<Rightarrow> u8 \<Rightarrow> bool" where
  "page_skipped cd code =
     (code = 0x04 \<and> cd \<or> (code = 0x03 \<or> code = 0x0D \<or> code = 0x0E \<or> code = 0x2A) \<and> \<not> cd)"

definition supported_pages :: "u8 list" where
  "supported_pages = [0x01, 0x03, 0x04, 0x0D, 0x0E, 0x2A, 0x30]"

text \<open>
  All pages after a header of \<open>off\<close> bytes. The 6-byte command stops at a page that does
  not fit in the 256 bytes, the 10-byte command skips it.
\<close>

primrec all_pages :: "bool \<Rightarrow> scsi \<Rightarrow> u8 \<Rightarrow> nat \<Rightarrow> u8 list \<Rightarrow> u8 list" where
  "all_pages stops s pc off [] = []"
| "all_pages stops s pc off (c # cs) =
     (let page = SCSI_GetModePage c s
      in if page_skipped (cdrom (cur s)) c \<or> page = [] then all_pages stops s pc off cs
         else if off + length page > 256 then (if stops then [] else all_pages stops s pc off cs)
         else controlled_page pc page @ all_pages stops s pc (off + length page) cs)"

definition mode_sectors :: "scsi \<Rightarrow> u32" where
  "mode_sectors = total_sectors"

definition block_descriptor :: "scsi \<Rightarrow> u8 list" where
  "block_descriptor s =
     [if cdrom (cur s) then 0x01 else 0x00] @
     (if cdrom (cur s) then [0, 0, 0] else tl (be32 (mode_sectors s))) @
     [0x00] @ tl (be32 (blocksize s))"

definition page_control :: "scsi \<Rightarrow> u8" where
  "page_control s = drop_bit 6 (cmd_buffer s ! 2) AND 3"

definition page_code :: "scsi \<Rightarrow> u8" where
  "page_code s = cmd_buffer s ! 2 AND 0x3F"

definition no_descriptor :: "scsi \<Rightarrow> bool" where
  "no_descriptor s = (cmd_buffer s ! 1 AND 0x08 \<noteq> 0)"

text \<open>The pages a command asks for, or nothing when it asks for one that is not there.\<close>

definition mode_pages :: "bool \<Rightarrow> scsi \<Rightarrow> nat \<Rightarrow> u8 list option" where
  "mode_pages stops s off =
     (if page_code s = 0x3F then Some (all_pages stops s (page_control s) off supported_pages)
      else if page_code s \<noteq> 0 then
        (let page = SCSI_GetModePage (page_code s) s
         in if page = [] then None else Some (controlled_page (page_control s) page))
      else Some [])"

definition mode_answer :: "nat \<Rightarrow> u8 list \<Rightarrow> scsi \<Rightarrow> scsi" where
  "mode_answer alloc bs s =
     (let n = min (length bs) alloc
      in good (put_buffer 0 (take n bs) (set_xfer (of_nat n) (s\<lparr>buf_disk := False\<rparr>))))"

definition SCSI_ModeSense :: "scsi \<Rightarrow> scsi" where
  "SCSI_ModeSense s =
     (let dbd = no_descriptor s; header_size = (if dbd then 4 else 12)
      in case mode_pages True s header_size of
           None \<Rightarrow> check_code SC_INVALID_CDB s
         | Some pages \<Rightarrow>
             mode_answer (unat (SCSI_GetTransferLength (cmd_buffer s ! 0) (cmd_buffer s)))
               ([of_nat (header_size - 1 + length pages), if cdrom (cur s) then 0x02 else 0x00, 0x00,
                 if dbd then 0x00 else 0x08] @
                (if dbd then [] else block_descriptor s) @ pages) s)"

definition SCSI_ModeSense10 :: "scsi \<Rightarrow> scsi" where
  "SCSI_ModeSense10 s =
     (let dbd = no_descriptor s; header_size = (if dbd then 8 else 16)
      in case mode_pages False s header_size of
           None \<Rightarrow> check_code SC_INVALID_CDB s
         | Some pages \<Rightarrow>
             (let total = header_size + length pages; req = unat (cdb16 (cmd_buffer s) 7)
              in mode_answer (if req = 0 then total else req)
                   (be16 (of_nat (total - 2)) @
                    [if cdrom (cur s) then 0x02 else 0x00, 0x00, 0x00, 0x00, 0x00, if dbd then 0x00 else 0x08] @
                    (if dbd then [] else block_descriptor s) @ pages) s))"

subsection \<open>The guessed geometry\<close>

lemma geometry_candidates_bound:
  assumes "(h, s) \<in> set geometry_candidates"
  shows "1 \<le> unat h \<and> unat h \<le> 16 \<and> 16 \<le> unat s \<and> unat s \<le> 63"
  using assms by (auto simp: geometry_candidates_def unat_of_nat_small)

lemma unat_cyl_mult: "unat (h :: u32) \<le> 16 \<Longrightarrow> unat s \<le> 63 \<Longrightarrow> unat (s * h) = unat s * unat h"
proof -
  assume "unat h \<le> 16" "unat s \<le> 63"
  then have "unat s * unat h \<le> 63 * 16" by (intro mult_le_mono)
  then show ?thesis by (simp add: unat_word_ariths)
qed

lemma GuessGeometry_cases:
  assumes "SCSI_GuessGeometry sz = (c, h, s)"
  obtains "(h, s) \<in> set geometry_candidates" "sz mod (s * h) = 0" "c = sz div (s * h)"
    | "h = 16" "s = 63" "sz mod 1008 \<noteq> 0" "c = sz div 1008 + 1"
proof (cases "find (\<lambda>(h, s). sz mod (s * h) = 0) geometry_candidates")
  case None
  have "(\<lambda>s. (of_nat 16, of_nat s)) 63 \<in> (\<lambda>s. (of_nat 16 :: u32, of_nat s :: u32)) ` {16..<64}"
    by (rule imageI) simp
  then have "(of_nat 16, of_nat 63) \<in> set geometry_candidates"
    unfolding geometry_candidates_def by (auto intro!: bexI [of _ 16])
  then have mem: "(16, 63) \<in> set geometry_candidates" by simp
  have "\<not> (\<lambda>(h, s). sz mod (s * h) = 0) (16, 63)"
    using None mem by (rule find_NoneD)
  then have "sz mod 1008 \<noteq> 0" by simp
  then show ?thesis using None assms that(2) by (simp add: SCSI_GuessGeometry_def Let_def)
next
  case (Some p)
  obtain h' s' where p: "p = (h', s')" by (cases p)
  have "p \<in> set geometry_candidates \<and> (\<lambda>(h, s). sz mod (s * h) = 0) p"
    using Some by (rule find_SomeD)
  then have "(h', s') \<in> set geometry_candidates" "sz mod (s' * h') = 0"
    unfolding p prod.case by (rule conjunct1, rule conjunct2)
  moreover have "c = sz div (s' * h')" "h = h'" "s = s'"
    using Some assms p by (auto simp: SCSI_GuessGeometry_def)
  ultimately show ?thesis using that(1) by simp
qed

lemma round_up: "n = q * k + r \<Longrightarrow> 0 < r \<Longrightarrow> r < k \<Longrightarrow> n \<le> (q + 1) * k \<and> (q + 1) * k < n + k" for n :: nat
  by simp

lemma GuessGeometry_bounds:
  assumes "SCSI_GuessGeometry sz = (c, h, s)"
  shows "1 \<le> unat h \<and> unat h \<le> 16 \<and> 16 \<le> unat s \<and> unat s \<le> 63"
    and "unat sz \<le> unat c * unat s * unat h"
    and "unat c * unat s * unat h < unat sz + 1008"
proof -
  show b: "1 \<le> unat h \<and> unat h \<le> 16 \<and> 16 \<le> unat s \<and> unat s \<le> 63"
    using assms by (cases rule: GuessGeometry_cases) (use geometry_candidates_bound in auto)
  have "unat sz \<le> unat c * unat s * unat h \<and> unat c * unat s * unat h < unat sz + 1008"
    using assms
  proof (cases rule: GuessGeometry_cases)
    case 1
    have m: "unat (s * h) = unat s * unat h" using b by (intro unat_cyl_mult) simp_all
    have "unat sz mod (unat s * unat h) = 0" using 1(2) m by (metis unat_0 unat_mod)
    moreover have "unat c = unat sz div (unat s * unat h)" using 1(3) m by (simp add: unat_div)
    ultimately have "unat c * (unat s * unat h) = unat sz" by auto
    then show ?thesis by (simp add: mult.assoc)
  next
    case 2
    have "unat (sz div 1008) \<le> 4294967295 div 1008"
      using unsigned_less [where 'a = nat, of sz] by (simp add: unat_div div_le_mono)
    then have "unat c = unat sz div 1008 + 1" using 2(4) by (simp add: unat_plus_no_wrap unat_div)
    moreover have "unat sz mod 1008 \<noteq> 0" using 2(3) by (simp add: unat_eq_0 [symmetric] unat_mod)
    ultimately have "unat sz \<le> unat c * 1008 \<and> unat c * 1008 < unat sz + 1008"
      using round_up [of "unat sz" "unat sz div 1008" 1008 "unat sz mod 1008"] by simp
    then show ?thesis using 2(1,2) by simp
  qed
  then show "unat sz \<le> unat c * unat s * unat h" "unat c * unat s * unat h < unat sz + 1008" by simp_all
qed

end
