(* ===== verification/SCSI_Emulation.thy ===== *)
theory SCSI_Emulation
  imports SCSI_Manager SCSI_CD SCSI_Mode
begin

section \<open>The target emulation\<close>

text \<open>
  The dispatcher of \<open>scsi_dummy.cpp\<close>, the transfer between the guest's segments and the
  transfer buffer, and attaching and detaching of images. \<open>None\<close> is a command that never
  returns.
\<close>

subsection \<open>The dispatcher\<close>

definition rezero :: "scsi \<Rightarrow> scsi" where
  "rezero s = good (if cdrom (cur s) then SCSI_StopAudio s else s)"

definition seek_block :: "scsi \<Rightarrow> scsi" where
  "seek_block s = good (if cdrom (cur s) then update_audio s else s)"

definition format_drive :: "scsi \<Rightarrow> scsi" where
  "format_drive s = (if cdrom (cur s) then check_code SC_WRITE_PROTECT s else good s)"

text \<open>RESERVE, RELEASE, SYNCHRONIZE CACHE, SET CD SPEED, Apple FF/REW and PREVENT/ALLOW.\<close>

definition accepted_opcodes :: "u8 list" where
  "accepted_opcodes = [0x16, 0x17, 0x56, 0x57, 0x35, 0xBB, 0xCD, 0x1E]"

definition SCSI_Execute :: "u8 \<Rightarrow> scsi \<Rightarrow> scsi option" where
  "SCSI_Execute opcode s =
     (if opcode = 0x00 then Some (SCSI_TestUnitReady s)
      else if opcode = 0x01 then Some (rezero s)
      else if opcode = 0x25 then Some (SCSI_ReadCapacity s)
      else if opcode \<in> {0x08, 0x28, 0xA8} then Some (SCSI_ReadSector s)
      else if opcode \<in> {0x0A, 0x2A, 0xAA} then SCSI_WriteSector s
      else if opcode \<in> {0x0B, 0x2B} then Some (seek_block s)
      else if opcode = 0x1B then Some (SCSI_StartStop s)
      else if opcode \<in> {0x15, 0x55} then Some (SCSI_ModeSelect s)
      else if opcode = 0x1A then Some (SCSI_ModeSense s)
      else if opcode = 0x5A then Some (SCSI_ModeSense10 s)
      else if opcode \<in> set accepted_opcodes then Some (good s)
      else if opcode = 0x04 then Some (format_drive s)
      else if opcode = 0x43 then Some (SCSI_ReadTOC s)
      else if opcode = 0x44 then Some (SCSI_ReadHeader s)
      else if opcode = 0x42 then Some (SCSI_ReadSubChannel s)
      else if opcode = 0x46 then Some (SCSI_GetConfiguration s)
      else if opcode = 0x4A then Some (SCSI_GetEventStatus s)
      else if opcode = 0x51 then Some (SCSI_ReadDiscInformation s)
      else if opcode = 0x52 then Some (SCSI_ReadTrackInformation s)
      else if opcode = 0xBD then Some (SCSI_MechanismStatus s)
      else if opcode = 0xBE then Some (SCSI_ReadCD False s)
      else if opcode = 0xB9 then Some (SCSI_ReadCD True s)
      else if opcode = 0xD8 then Some (SCSI_AppleReadCDDA False s)
      else if opcode = 0xD9 then Some (SCSI_AppleReadCDDA True s)
      else if opcode \<in> {0x45, 0xA5, 0x47, 0x48, 0x49, 0xA9} then Some (SCSI_PlayAudio s)
      else if opcode = 0x4B then Some (SCSI_PauseResume s)
      else if opcode = 0x4E then Some (SCSI_StopAudio s)
      else Some (check_code SC_INVALID_CMD s))"

definition msg_complete :: "scsi \<Rightarrow> scsi" where
  "msg_complete = upd_cur (\<lambda>d. d\<lparr>message := 0\<rparr>)"

definition wrong_lun :: "scsi \<Rightarrow> scsi" where
  "wrong_lun = upd_cur (\<lambda>d. set_sense (\<lambda>x. x\<lparr>sense_key := SK_ILLEGAL_REQ, sense_code := SC_INVALID_LUN,
                                             sense_valid := False\<rparr>)
                              (d\<lparr>status := STAT_CHECK_COND, message := 0\<rparr>))"

definition attention :: "scsi \<Rightarrow> scsi" where
  "attention s = check_key SK_UNIT_ATN SC_NOT_READY_TO_READY_TRANSITION (upd_cur (\<lambda>d. d\<lparr>unit_attention := False\<rparr>) s)"

definition SCSI_Emulate_Command :: "scsi \<Rightarrow> scsi option" where
  "SCSI_Emulate_Command s =
     (let opcode = cmd_buffer s ! 0
      in if opcode = 0x12 then Some (msg_complete (SCSI_Inquiry s))
         else if opcode = 0x03 then Some (msg_complete (SCSI_RequestSense s))
         else if lun (cur s) \<noteq> 0 then Some (wrong_lun s)
         else if unit_attention (cur s) then Some (attention s)
         else map_option msg_complete (SCSI_Execute opcode s))"

subsection \<open>The interface to the SCSI Manager\<close>

definition scsi_set_cmd :: "int \<Rightarrow> u8 list \<Rightarrow> scsi \<Rightarrow> scsi" where
  "scsi_set_cmd n cmd s = s\<lparr>cmd_buffer := patch 0 (take (nat n) cmd) (cmd_buffer s), cmd_len := n\<rparr>"

definition scsi_is_target_present :: "scsi \<Rightarrow> int \<Rightarrow> bool" where
  "scsi_is_target_present s i =
     (if i < 0 \<or> i \<ge> ESP_MAX_DEVS then False
      else if cdrom (disks s (nat i)) then first_fh (discs s (nat i)) \<noteq> None \<or> paths s (nat i) \<noteq> []
      else dsk (disks s (nat i)) \<noteq> None)"

definition scsi_set_target :: "int \<Rightarrow> int \<Rightarrow> scsi \<Rightarrow> bool \<times> scsi" where
  "scsi_set_target i l s =
     (if 0 \<le> i \<and> i < ESP_MAX_DEVS \<and> scsi_is_target_present s i \<and> l = 0 then (True, s\<lparr>target := nat i\<rparr>)
      else (False, s))"

text \<open>Guest memory is the host array; the copies below go through no handler.\<close>

definition sg_gather :: "mac \<Rightarrow> (u32 \<times> u32) list \<Rightarrow> u8 list" where
  "sg_gather m segs = concat (map (\<lambda>(p, l). fetch m p (unat l)) segs)"

fun sg_scatter :: "(u32 \<times> u32) list \<Rightarrow> u8 list \<Rightarrow> mac \<Rightarrow> mac" where
  "sg_scatter [] bs m = m"
| "sg_scatter ((p, l) # segs) bs m =
     (if unat l \<le> length bs then sg_scatter segs (drop (unat l) bs) (store p (take (unat l) bs) m)
      else sg_scatter segs [] (store p (bs @ replicate (unat l - length bs) 0) m))"

definition scsi_send_cmd :: "scsi send_fn" where
  "scsi_send_cmd data_length rd segs m s0 =
     (let (ok, s1) = try_buffer data_length s0
      in if \<not> ok then Some (False, None, m, s1)
         else (let s2 = s1\<lparr>buf_size := 0, buf_limit := 0\<rparr>;
                   s3 = (if rd then s2 else put_buffer 0 (sg_gather m segs) s2)
               in case SCSI_Emulate_Command s3 of
                    None \<Rightarrow> None
                  | Some s4 \<Rightarrow>
                      (let st = Some (ucast (status (cur s4)))
                       in if \<not> rd then Some (True, st, m, s4)
                          else (let (bs, s5) = get_buffer 0 (min (unat (buf_size s4)) (sg_bytes segs)) s4
                                in Some (True, st, sg_scatter segs bs m, s5)))))"

subsection \<open>Attaching and detaching\<close>

definition upd_dev :: "nat \<Rightarrow> (scsi_dev \<Rightarrow> scsi_dev) \<Rightarrow> scsi \<Rightarrow> scsi" where
  "upd_dev i f s = s\<lparr>disks := (disks s)(i := f (disks s i))\<rparr>"

definition set_disc :: "nat \<Rightarrow> cd_state \<times> host \<Rightarrow> scsi \<Rightarrow> scsi" where
  "set_disc i r s = s\<lparr>discs := (discs s)(i := fst r), hst := snd r\<rparr>"

definition set_path :: "nat \<Rightarrow> string \<Rightarrow> scsi \<Rightarrow> scsi" where
  "set_path i p s = s\<lparr>paths := (paths s)(i := p)\<rparr>"

definition ends_ci :: "string \<Rightarrow> string \<Rightarrow> bool" where
  "ends_ci ext p = (length ext \<le> length p \<and> map tolower (drop (length p - length ext) p) = ext)"

text \<open>Which kind of target a path makes on an id that was no CD-ROM drive.\<close>

definition attach_kind :: "nat \<Rightarrow> string \<Rightarrow> bool" where
  "attach_kind i p =
     (let k1 = (i = 3 \<or> i = 6);
          k2 = (if list_ex (\<lambda>e. ends_ci e p) [''.iso'', ''.cdr'', ''.cue''] then True
                else if list_ex (\<lambda>e. ends_ci e p) [''.hda'', ''.dsk'', ''.img'', ''.vhd''] then False
                else k1)
      in if ends_ci ''.toast'' p then True else k2)"

definition companion_cue :: "string \<Rightarrow> string" where
  "companion_cue p =
     (let q = take 1019 p
      in (if CHR ''.'' \<in> set q then rev (tl (dropWhile (\<lambda>c. c \<noteq> CHR ''.'') (rev q))) else q) @ ''.cue'')"

definition close_current :: "nat \<Rightarrow> scsi \<Rightarrow> scsi" where
  "close_current i s =
     upd_dev i (\<lambda>d. d\<lparr>dsk := None\<rparr>)
       (if cdrom (disks s i) then set_disc i (CD_ClearDisc (discs s i) (hst s)) s
        else (case dsk (disks s i) of None \<Rightarrow> s | Some f \<Rightarrow> s\<lparr>hst := fclose f (hst s)\<rparr>))"

definition load_single :: "nat \<Rightarrow> string \<Rightarrow> scsi \<Rightarrow> bool \<times> scsi" where
  "load_single i p s =
     (case fopen_read p (hst s) of
        (None, h) \<Rightarrow> (False, s\<lparr>hst := h\<rparr>)
      | (Some f, h) \<Rightarrow> (True, set_disc i (CD_SetupSingleFile p f (of_nat (stream_size h f)) (discs s i) h) s))"

definition load_cue :: "nat \<Rightarrow> string \<Rightarrow> scsi \<Rightarrow> bool \<times> scsi" where
  "load_cue i p s =
     (let (ok, cd, h) = CD_LoadCueSheet p (discs s i) (hst s) in (ok, set_disc i (cd, h) s))"

definition load_cd :: "nat \<Rightarrow> string \<Rightarrow> scsi \<Rightarrow> bool \<times> scsi" where
  "load_cd i p s =
     (if ends_ci ''.cue'' p then load_cue i p s
      else (let c = companion_cue p
            in case fopen_read c (hst s) of
                 (Some f, h) \<Rightarrow>
                   (let (ok, s1) = load_cue i c (s\<lparr>hst := fclose f h\<rparr>)
                    in if ok then (True, s1) else load_single i p s1)
               | (None, h) \<Rightarrow> load_single i p (s\<lparr>hst := h\<rparr>)))"

definition load_hd :: "string \<Rightarrow> host \<Rightarrow> fh option \<times> host" where
  "load_hd p h = (case fopen_update p h of (Some f, h1) \<Rightarrow> (Some f, h1) | (None, h1) \<Rightarrow> fopen_read p h1)"

definition attached :: "nat \<Rightarrow> string \<Rightarrow> scsi \<Rightarrow> scsi" where
  "attached i p s =
     (let s1 = set_path i (take 1023 p)
                 (upd_dev i (\<lambda>d. set_sense (\<lambda>x. x\<lparr>sense_code := SC_NO_ERROR, sense_valid := False\<rparr>)
                                   (d\<lparr>lun := 0, status := STAT_GOOD, unit_attention := True\<rparr>)) s)
      in s1\<lparr>scsi_prefs := (scsi_prefs s1)(i := Some p)\<rparr>)"

definition attach_cd :: "nat \<Rightarrow> string \<Rightarrow> scsi \<Rightarrow> bool \<times> scsi" where
  "attach_cd i p s =
     (let (ok, s1) = load_cd i p s
      in if \<not> ok then (False, set_path i [] s1)
         else (True, attached i p
                 (upd_dev i (\<lambda>d. d\<lparr>dsk := first_fh (discs s1 i), dev_size := leadout_lba (discs s1 i) * CDBLOCKSIZE,
                                   cdrom := True, sector_size := CDBLOCKSIZE\<rparr>) s1)))"

definition attach_hd :: "nat \<Rightarrow> string \<Rightarrow> scsi \<Rightarrow> bool \<times> scsi" where
  "attach_hd i p s =
     (let (f, h) = load_hd p (hst s);
          s1 = upd_dev i (\<lambda>d. d\<lparr>dsk := f, cdrom := False, sector_size := BLOCKSIZE\<rparr>) (s\<lparr>hst := h\<rparr>)
      in case f of
           None \<Rightarrow> (False, set_path i [] s1)
         | Some g \<Rightarrow> (True, attached i p (upd_dev i (\<lambda>d. d\<lparr>dev_size := of_nat (stream_size h g)\<rparr>) s1)))"

definition SCSI_Attach :: "int \<Rightarrow> string \<Rightarrow> scsi \<Rightarrow> bool \<times> scsi" where
  "SCSI_Attach i p s =
     (if i < 0 \<or> i \<ge> ESP_MAX_DEVS \<or> p = [] then (False, s)
      else (let n = nat i;
                is_cd = (cdrom (disks s n) \<or> attach_kind n p);
                s1 = upd_dev n (\<lambda>d. d\<lparr>dev_size := 0\<rparr>) (close_current n s)
            in if is_cd then attach_cd n p s1 else attach_hd n p s1))"

definition SCSI_Detach :: "int \<Rightarrow> scsi \<Rightarrow> bool \<times> scsi" where
  "SCSI_Detach i s =
     (if i < 0 \<or> i \<ge> ESP_MAX_DEVS then (False, s)
      else (let n = nat i;
                s1 = close_current n s;
                s2 = (if cdrom (disks s n)
                      then upd_dev n (\<lambda>d. d\<lparr>cdrom := False, unit_attention := False\<rparr>)
                             (s1\<lparr>discs := (discs s1)(n := (discs s1 n)\<lparr>media_events := 0x03\<rparr>)\<rparr>)
                      else s1);
                s3 = set_path n [] (upd_dev n (\<lambda>d. d\<lparr>dev_size := 0\<rparr>) s2)
            in (True, s3\<lparr>scsi_prefs := (scsi_prefs s3)(n := None)\<rparr>)))"

text \<open>Presence, kind and path of a device, for a path buffer of \<open>max_len\<close> bytes.\<close>

definition SCSI_GetDeviceInfo :: "int \<Rightarrow> nat \<Rightarrow> scsi \<Rightarrow> bool \<times> bool \<times> bool \<times> string" where
  "SCSI_GetDeviceInfo i max_len s =
     (if i < 0 \<or> i \<ge> ESP_MAX_DEVS then (False, False, False, [])
      else (let n = nat i;
                present = (if cdrom (disks s n) then first_fh (discs s n) \<noteq> None else dsk (disks s n) \<noteq> None)
            in (True, present, cdrom (disks s n), if present then take (max_len - 1) (paths s n) else [])))"

subsection \<open>Start and end of the emulation\<close>

definition zero_dev :: scsi_dev where
  "zero_dev =
     \<lparr>dsk = None, dev_size = 0, cdrom = False, sector_size = 0, lun = 0, status = 0, message = 0,
      unit_attention = False,
      sense = \<lparr>sense_key = 0, sense_code = 0, sense_ascq = 0, sense_valid = False, sense_info = 0\<rparr>,
      lba = 0, blockcounter = 0\<rparr>"

definition init_clear :: "scsi \<Rightarrow> scsi" where
  "init_clear s =
     fold (\<lambda>i s. upd_dev i (\<lambda>d. d\<lparr>sector_size := BLOCKSIZE\<rparr>) (set_disc i (CD_ClearDisc (discs s i) (hst s)) s))
       [0..<7] (s\<lparr>disks := (\<lambda>i. zero_dev), paths := (\<lambda>i. [])\<rparr>)"

definition init_attach :: "scsi \<Rightarrow> scsi" where
  "init_attach s =
     fold (\<lambda>i s. case scsi_prefs s i of
                   None \<Rightarrow> s | Some p \<Rightarrow> if p = [] then s else snd (SCSI_Attach (int i) p s)) [0..<7] s"

definition SCSIInit :: "nat \<Rightarrow> scsi \<Rightarrow> scsi" where
  "SCSIInit buffer_size s =
     (let s1 = init_attach (init_clear (s\<lparr>buffer := replicate buffer_size 0\<rparr>))
      in s1\<lparr>disks := (\<lambda>i. if i < 7 then (disks s1 i)\<lparr>unit_attention := False\<rparr> else disks s1 i)\<rparr>)"

definition SCSIExit :: "scsi \<Rightarrow> scsi" where
  "SCSIExit s = fold (\<lambda>i s. snd (SCSI_Detach (int i) s)) [0..<7] s"

subsection \<open>The emulation provides what the SCSI Manager needs\<close>

interpretation dummy: scsi_targets scsi_is_target_present scsi_set_cmd scsi_set_target "\<lambda>s. int (target s)"
proof
  fix s :: scsi and i l :: int and n c
  show "fst (scsi_set_target i l s) \<longleftrightarrow> scsi_is_target_present s i \<and> l = 0"
    by (auto simp: scsi_set_target_def scsi_is_target_present_def)
  show "scsi_is_target_present (scsi_set_cmd n c s) i = scsi_is_target_present s i"
    by (simp add: scsi_is_target_present_def scsi_set_cmd_def)
  show "scsi_is_target_present s i \<Longrightarrow> l = 0 \<Longrightarrow> int (target (snd (scsi_set_target i l s))) = i"
    by (auto simp: scsi_set_target_def scsi_is_target_present_def split: if_splits)
qed

end
