(* ===== verification/SCSI_Safety.thy ===== *)
theory SCSI_Safety
  imports SCSI_Emulation
begin

section \<open>What a command leaves alone\<close>

text \<open>
  \<open>quiet s t\<close>: from \<open>s\<close> to \<open>t\<close> no other target has changed, the current target has
  kept its file, its kind and its tracks, and no file was opened or closed.
  \<open>fits s\<close>: the transfer is inside the buffer and no copy has left it.
\<close>

definition same_device :: "scsi_dev \<Rightarrow> scsi_dev \<Rightarrow> bool" where
  "same_device d e \<longleftrightarrow> dsk e = dsk d \<and> dev_size e = dev_size d \<and> cdrom e = cdrom d \<and> lun e = lun d"

definition quiet :: "scsi \<Rightarrow> scsi \<Rightarrow> bool" where
  "quiet s t \<longleftrightarrow>
     target t = target s \<and> (\<forall>i. i \<noteq> target s \<longrightarrow> disks t i = disks s i \<and> discs t i = discs s i) \<and>
     same_device (cur s) (cur t) \<and> tracks (disc t) = tracks (disc s) \<and>
     paths t = paths s \<and> scsi_prefs t = scsi_prefs s \<and> cmd_buffer t = cmd_buffer s \<and> heap_max t = heap_max s \<and>
     streams (hst t) = streams (hst s) \<and> bad_close (hst t) = bad_close (hst s) \<and> next_fh (hst t) = next_fh (hst s)"

named_theorems quiet_intros \<open>what keeps the rest of the state\<close>

lemma quiet_refl [quiet_intros]: "quiet s s"
  by (simp add: quiet_def same_device_def)

lemma quiet_trans: "quiet s t \<Longrightarrow> quiet t u \<Longrightarrow> quiet s u"
  by (simp add: quiet_def same_device_def)

lemma quiet_upd_cur: "quiet s t \<Longrightarrow> same_device (cur t) (f (cur t)) \<Longrightarrow> quiet s (upd_cur f t)"
  by (auto simp: quiet_def same_device_def) (simp_all add: upd_cur_def)

lemma quiet_upd_disc: "quiet s t \<Longrightarrow> tracks (f (disc t)) = tracks (disc t) \<Longrightarrow> quiet s (upd_disc f t)"
  by (auto simp: quiet_def same_device_def) (simp_all add: upd_disc_def)

lemma quiet_cong: "quiet s t \<Longrightarrow> disks u = disks t \<Longrightarrow> discs u = discs t \<Longrightarrow> target u = target t \<Longrightarrow>
    paths u = paths t \<Longrightarrow> scsi_prefs u = scsi_prefs t \<Longrightarrow> cmd_buffer u = cmd_buffer t \<Longrightarrow>
    heap_max u = heap_max t \<Longrightarrow> streams (hst u) = streams (hst t) \<Longrightarrow> bad_close (hst u) = bad_close (hst t) \<Longrightarrow>
    next_fh (hst u) = next_fh (hst t) \<Longrightarrow> quiet s u"
  by (auto simp: quiet_def cur_def disc_def)

lemma quiet_put [quiet_intros]:
  "quiet s t \<Longrightarrow> quiet s (put_buffer off bs t)" "quiet s t \<Longrightarrow> quiet s (set_xfer n t)"
  "quiet s t \<Longrightarrow> quiet s (snd (try_buffer n t))" "quiet s t \<Longrightarrow> quiet s (snd (get_buffer off k t))"
  "quiet s t \<Longrightarrow> quiet s (t\<lparr>buf_disk := b\<rparr>)" "quiet s t \<Longrightarrow> quiet s (t\<lparr>buf_size := n\<rparr>)"
  "quiet s t \<Longrightarrow> quiet s (t\<lparr>buf_limit := n\<rparr>)"
  by (erule quiet_cong; simp)+

lemma quiet_endings [quiet_intros]:
  "quiet s t \<Longrightarrow> quiet s (good t)" "quiet s t \<Longrightarrow> quiet s (check_code c t)"
  "quiet s t \<Longrightarrow> quiet s (check_key k c t)" "quiet s t \<Longrightarrow> quiet s (bad_lba i t)"
  "quiet s t \<Longrightarrow> quiet s (no_memory t)" "quiet s t \<Longrightarrow> quiet s (read_no_memory t)"
  "quiet s t \<Longrightarrow> quiet s (next_block t)" "quiet s t \<Longrightarrow> quiet s (msg_complete t)"
  by (auto simp: endings read_no_memory_def next_block_def msg_complete_def same_device_def intro!: quiet_upd_cur)

lemma quiet_more [quiet_intros]:
  "quiet s t \<Longrightarrow> quiet s (disc_missing t)" "quiet s t \<Longrightarrow> quiet s (no_blocks t)"
  "quiet s t \<Longrightarrow> quiet s (read_done c n t)" "quiet s t \<Longrightarrow> quiet s (reply alloc resp t)"
  "quiet s t \<Longrightarrow> quiet s (update_audio t)" "quiet s t \<Longrightarrow> quiet s (set_range t)"
  "quiet s t \<Longrightarrow> quiet s (mode_answer alloc resp t)"
  unfolding disc_missing_def no_blocks_def read_done_def reply_def update_audio_def set_range_def
    mode_answer_def Let_def split_beta
  by (auto simp: same_device_def intro!: quiet_intros quiet_upd_cur quiet_upd_disc)

lemma quiet_if [quiet_intros]: "(c \<Longrightarrow> quiet s x) \<Longrightarrow> (\<not> c \<Longrightarrow> quiet s y) \<Longrightarrow> quiet s (if c then x else y)"
  by simp

lemma quiet_option [quiet_intros]:
  "(x = None \<Longrightarrow> quiet s a) \<Longrightarrow> (\<And>y. x = Some y \<Longrightarrow> quiet s (f y)) \<Longrightarrow>
   quiet s (case x of None \<Rightarrow> a | Some y \<Rightarrow> f y)"
  by (cases x) simp_all

lemma quiet_cd [quiet_intros]:
  "(\<And>u. quiet s u \<Longrightarrow> quiet s (f u)) \<Longrightarrow> quiet s t \<Longrightarrow> quiet s (cd_only f t)"
  "(\<And>u. quiet s u \<Longrightarrow> quiet s (f u)) \<Longrightarrow> quiet s t \<Longrightarrow> quiet s (with_disc f t)"
  by (simp_all add: with_disc_def cd_only_def quiet_intros)

lemma quiet_loop: "quiet s t \<Longrightarrow> quiet s (snd (hd_read_loop loop t))"
proof (induction loop t rule: hd_read_loop.induct)
  case (1 loop t)
  then show ?case
    by (subst hd_read_loop.simps) (auto simp: quiet_intros split: option.split)
qed

lemma quiet_cd_read: "quiet s t \<Longrightarrow> quiet s (cd_read_sectors t)"
  unfolding cd_read_sectors_def Let_def split_beta by (intro quiet_intros)

lemma quiet_handlers:
  "quiet s (SCSI_Inquiry s)" "quiet s (SCSI_TestUnitReady s)" "quiet s (SCSI_ReadCapacity s)"
  "quiet s (SCSI_ReadSector s)" "quiet s (SCSI_ModeSelect s)" "quiet s (SCSI_RequestSense s)"
  unfolding SCSI_Inquiry_def SCSI_TestUnitReady_def SCSI_ReadCapacity_def SCSI_ReadSector_def scsi_read_sector_def
    SCSI_ModeSelect_def SCSI_RequestSense_def Let_def split_beta
  by (intro quiet_intros quiet_loop quiet_cd_read quiet_upd_cur; simp add: same_device_def)+

lemma quiet_cd_handlers:
  "quiet s (SCSI_ReadTOC s)" "quiet s (SCSI_ReadHeader s)" "quiet s (SCSI_ReadDiscInformation s)"
  "quiet s (SCSI_ReadTrackInformation s)" "quiet s (SCSI_GetConfiguration s)" "quiet s (SCSI_GetEventStatus s)"
  "quiet s (SCSI_MechanismStatus s)" "quiet s (SCSI_ReadSubChannel s)" "quiet s (SCSI_ReadCD b s)"
  "quiet s (SCSI_AppleReadCDDA b s)" "quiet s (SCSI_PlayAudio s)" "quiet s (SCSI_PauseResume s)"
  "quiet s (SCSI_StopAudio s)"
  unfolding SCSI_ReadTOC_def SCSI_ReadHeader_def SCSI_ReadDiscInformation_def SCSI_ReadTrackInformation_def
    SCSI_GetConfiguration_def SCSI_GetEventStatus_def SCSI_MechanismStatus_def SCSI_ReadSubChannel_def
    SCSI_ReadCD_def SCSI_AppleReadCDDA_def SCSI_PlayAudio_def SCSI_PauseResume_def SCSI_StopAudio_def
    read_cd_finish_def Let_def split_beta
  by (intro quiet_intros quiet_upd_disc; simp add: start_audio_def resume_audio_def pause_audio_def stop_audio_def)+

lemma quiet_mode_handlers: "quiet s (SCSI_ModeSense s)" "quiet s (SCSI_ModeSense10 s)"
  unfolding SCSI_ModeSense_def SCSI_ModeSense10_def Let_def by (intro quiet_intros)+

subsection \<open>What the buffer holds\<close>

definition fits :: "scsi \<Rightarrow> bool" where
  "fits s \<longleftrightarrow>
     4096 \<le> length (buffer s) \<and> length (buffer s) < 2147483648 \<and> heap_max s < 2147483648 \<and>
     unat (buf_size s) \<le> length (buffer s) \<and> \<not> overrun s"

named_theorems fits_intros \<open>what stays inside the buffer\<close>

lemma fits_cong: "fits t \<Longrightarrow> length (buffer u) = length (buffer t) \<Longrightarrow> heap_max u = heap_max t \<Longrightarrow>
    buf_size u = buf_size t \<Longrightarrow> overrun u = overrun t \<Longrightarrow> fits u"
  by (simp add: fits_def)

lemma fits_upd [fits_intros]:
  "fits t \<Longrightarrow> fits (upd_cur f t)" "fits t \<Longrightarrow> fits (upd_disc g t)" "fits t \<Longrightarrow> fits (t\<lparr>buf_disk := b\<rparr>)"
  "fits t \<Longrightarrow> fits (t\<lparr>buf_limit := n\<rparr>)" "fits t \<Longrightarrow> fits (t\<lparr>hst := h\<rparr>)"
  by (erule fits_cong; simp)+

lemma fits_endings [fits_intros]:
  "fits t \<Longrightarrow> fits (good t)" "fits t \<Longrightarrow> fits (check_code c t)" "fits t \<Longrightarrow> fits (check_key k c t)"
  "fits t \<Longrightarrow> fits (bad_lba i t)" "fits t \<Longrightarrow> fits (no_memory t)" "fits t \<Longrightarrow> fits (read_no_memory t)"
  "fits t \<Longrightarrow> fits (next_block t)" "fits t \<Longrightarrow> fits (msg_complete t)" "fits t \<Longrightarrow> fits (update_audio t)"
  "fits t \<Longrightarrow> fits (set_range t)"
  by (simp_all add: endings read_no_memory_def next_block_def msg_complete_def update_audio_def set_range_def fits_intros)

lemma fits_put:
  "fits t \<Longrightarrow> off + length bs \<le> length (buffer t) \<Longrightarrow> fits (put_buffer off bs t)"
  by (simp add: fits_def put_buffer_def length_patch)

lemma fits_small: "fits t \<Longrightarrow> off + length bs \<le> 4096 \<Longrightarrow> fits (put_buffer off bs t)"
  by (rule fits_put) (simp_all add: fits_def)

lemma fits_xfer: "fits t \<Longrightarrow> unat n \<le> length (buffer t) \<Longrightarrow> fits (set_xfer n t)"
  by (simp add: fits_def)

lemma fits_xfer_nat [fits_intros]: "fits t \<Longrightarrow> n \<le> 4096 \<Longrightarrow> fits (set_xfer (of_nat n) t)"
  by (rule fits_xfer) (simp_all add: unat_of_nat_small fits_def)

lemma fits_xfer_zero [fits_intros]: "fits t \<Longrightarrow> fits (set_xfer 0 t)" "fits t \<Longrightarrow> fits (t\<lparr>buf_size := 0\<rparr>)"
  by (simp_all add: fits_def)

lemma length_put_buffer [simp]: "length (buffer (put_buffer off bs t)) = length (buffer t)"
  by (simp add: put_buffer_def length_patch)

lemma fits_try [fits_intros]: "fits t \<Longrightarrow> fits (snd (try_buffer n t))"
  by (auto simp: fits_def try_buffer_def sint_of_nat_small not_le)

lemma fits_more [fits_intros]:
  "fits t \<Longrightarrow> fits (disc_missing t)" "fits t \<Longrightarrow> fits (no_blocks t)"
  by (simp_all add: disc_missing_def no_blocks_def fits_intros)

lemma fits_reply [fits_intros]:
  assumes "fits t" "length resp \<le> 4096"
  shows "fits (reply alloc resp t)"
proof -
  have "fits (snd (try_buffer n t))" for n using assms(1) by (rule fits_intros)
  with assms show ?thesis
    unfolding reply_def Let_def split_beta by (auto intro!: fits_intros fits_small)
qed

lemma fits_mode_answer [fits_intros]: "fits t \<Longrightarrow> length resp \<le> 4096 \<Longrightarrow> fits (mode_answer alloc resp t)"
  unfolding mode_answer_def Let_def by (auto intro!: fits_intros fits_small)

lemma fits_if [fits_intros]: "(c \<Longrightarrow> fits x) \<Longrightarrow> (\<not> c \<Longrightarrow> fits y) \<Longrightarrow> fits (if c then x else y)"
  by simp

lemma fits_option [fits_intros]:
  "(x = None \<Longrightarrow> fits a) \<Longrightarrow> (\<And>y. x = Some y \<Longrightarrow> fits (f y)) \<Longrightarrow> fits (case x of None \<Rightarrow> a | Some y \<Rightarrow> f y)"
  by (cases x) simp_all

lemma fits_cd [fits_intros]:
  "(fits u \<Longrightarrow> fits (f u)) \<Longrightarrow> fits u \<Longrightarrow> fits (cd_only f u)"
  "(fits u \<Longrightarrow> fits (f u)) \<Longrightarrow> fits u \<Longrightarrow> fits (with_disc f u)"
  by (simp_all add: with_disc_def cd_only_def fits_intros)

subsection \<open>The length of every answer\<close>

named_theorems answer_length \<open>lengths of the answers\<close>

lemma length_msf [answer_length]: "length (LBA_to_MSF n b) = 3" "length (LBA_to_MSF_BCD n b) = 3"
  by (simp_all add: LBA_to_MSF_BCD_def LBA_to_MSF_def Let_def)

lemma length_address [answer_length]: "length (disc_address msf n) = 4"
  by (simp add: disc_address_def answer_length)

lemma length_concat_map: "(\<And>x. x \<in> set xs \<Longrightarrow> length (f x) = k) \<Longrightarrow> length (concat (map f xs)) = k * length xs"
  by (induction xs) simp_all

lemma length_toc_session [answer_length]: "length (toc_session cd msf) = 12"
  by (simp add: toc_session_def)

lemma length_toc_full [answer_length]: "length (toc_full cd b) = 37 + 11 * track_count cd"
proof -
  have "length (concat (map (\<lambda>t. toc_point (control t) (word_of_int (track_num t))
      (if b then LBA_to_MSF_BCD (data_start_lba t) False else LBA_to_MSF (data_start_lba t) False)) (tracks cd))) =
      11 * length (tracks cd)"
    by (rule length_concat_map) (simp add: toc_point_def answer_length)
  then show ?thesis
    by (simp add: toc_full_def Let_def toc_point_def track_count_def answer_length)
qed

lemma length_toc_entry [answer_length]: "length (toc_entry msf c k n) = 8"
  by (simp add: toc_entry_def answer_length)

lemma length_toc_tracks [answer_length]: "length (toc_tracks cd msf k) \<le> 12 + 8 * track_count cd"
proof -
  have "length (concat (map (\<lambda>t. toc_entry msf (control t) (word_of_int (track_num t)) (data_start_lba t)) ts)) = 8 * length ts"
    for ts by (rule length_concat_map) (simp add: answer_length)
  then show ?thesis
    by (simp add: toc_tracks_def Let_def track_count_def answer_length)
qed

lemma length_toc_response: "length (tracks (disc s)) \<le> 100 \<Longrightarrow> length (toc_response s) \<le> 4096"
  using length_toc_tracks [of "disc s" "msf_bit s" "cmd_buffer s ! 6"]
  by (auto simp: toc_response_def Let_def answer_length track_count_def)

lemma length_answers [answer_length]:
  "length (disc_information cd) = 34" "length (track_information t) = 28" "length (event_status e) = 8"
  "length (mechanism_status cd) = 8" "length (sense_bytes x) = 22"
  by (simp_all add: disc_information_def track_information_def event_status_def mechanism_status_def sense_bytes_def)

lemma length_subchannel [answer_length]: "length (subchannel cd msf subq f) \<le> 20"
  by (simp add: subchannel_def Let_def answer_length)

lemma length_configuration [answer_length]: "length (configuration rt start) \<le> 80"
  by (simp add: configuration_def features_def)

lemma length_mode_page: "length (SCSI_GetModePage c s) \<le> 24"
  by (simp add: SCSI_GetModePage_def Let_def apple_page_def split: prod.split)

lemma length_all_pages: "length (all_pages stops s pc off cs) \<le> 24 * length cs"
proof (induction cs arbitrary: off)
  case (Cons c cs)
  have "length (controlled_page pc (SCSI_GetModePage c s)) \<le> 24"
    using length_mode_page [of c s] by (auto simp: controlled_page_def)
  then show ?case
    using Cons [of off] Cons [of "off + length (SCSI_GetModePage c s)"] by (auto simp: Let_def)
qed simp

lemma length_controlled_page: "length (controlled_page pc page) = (if pc = 1 then max (length page) (min 2 (length page)) else length page)"
  by (auto simp: controlled_page_def)

lemma length_mode_pages:
  assumes "mode_pages stops s off = Some pages"
  shows "length pages \<le> 168"
proof -
  have "length supported_pages = 7" by (simp add: supported_pages_def)
  then have a: "length (all_pages stops s (page_control s) off supported_pages) \<le> 168"
    using length_all_pages [of stops s "page_control s" off supported_pages] by linarith
  have p: "length (controlled_page pc (SCSI_GetModePage (page_code s) s)) \<le> 168" for pc
    using length_mode_page [of "page_code s" s] by (simp add: length_controlled_page)
  from assms consider "pages = all_pages stops s (page_control s) off supported_pages"
    | "pages = controlled_page (page_control s) (SCSI_GetModePage (page_code s) s)" | "pages = []"
    unfolding mode_pages_def Let_def by (metis option.distinct(1) option.inject)
  then show ?thesis by cases (use a p in simp_all)
qed

subsection \<open>Bounded transfers\<close>

text \<open>
  The bytes a command moves, counted without wrap-around. A transfer of less than 2GB,
  and for a WRITE not more than the buffer holds, stays inside the buffer.
\<close>

definition transfer_bytes :: "scsi \<Rightarrow> nat" where
  "transfer_bytes s =
     (let c = cmd_buffer s; opcode = c ! 0
      in if opcode \<in> {0x08, 0x28, 0xA8} then unat (SCSI_GetCount opcode c) * unat (blocksize s)
         else if opcode \<in> {0x0A, 0x2A, 0xAA} then unat (SCSI_GetCount opcode c) * 512
         else if opcode \<in> {0xBE, 0xB9} then
           unat (if opcode = 0xB9 then snd (msf_range c 6) else cdb24 c 6) *
             ((if raw_wanted (c ! 9) then 2352 else 2048) + (if c ! 10 = 0x02 then 16 else 0))
         else if opcode \<in> {0xD8, 0xD9} then
           unat (if opcode = 0xD9 then snd (msf_range c 7) else cdb32 c 6) * 2352
         else 0)"

definition transfer_ok :: "scsi \<Rightarrow> bool" where
  "transfer_ok s \<longleftrightarrow>
     transfer_bytes s < 2147483648 \<and>
     (cmd_buffer s ! 0 \<in> {0x0A, 0x2A, 0xAA} \<longrightarrow> transfer_bytes s \<le> length (buffer s))"

lemma unat_mult_small: "unat (x :: u32) * unat y < 4294967296 \<Longrightarrow> unat (x * y) = unat x * unat y"
  by (simp add: unat_word_ariths)

lemma try_buffer_grant:
  assumes "fits s" "try_buffer n s = (True, t)" "unat n < 2147483648"
  shows "fits t" "unat n \<le> length (buffer t)"
proof -
  show "fits t" using fits_try [OF assms(1), of n] assms(2) by simp
  show "unat n \<le> length (buffer t)"
    by (rule try_buffer_room(1) [OF assms(2,3)]) (use assms(1) in \<open>auto simp: fits_def\<close>)
qed

lemma length_cd_block: "cd_block h cd n = Some bs \<Longrightarrow> length bs = 2048"
  by (auto simp: cd_block_def cd_fread_def split: option.splits if_splits intro: stream_store.rd_length)

lemma length_CD_Read2048:
  "length (fst (CD_Read2048 h cd n k)) \<le> k * 2048"
  "snd (CD_Read2048 h cd n k) \<Longrightarrow> length (fst (CD_Read2048 h cd n k)) = k * 2048"
  by (induction k arbitrary: n) (auto simp: length_cd_block split_beta Let_def split: option.splits)

lemma length_cd_read512: "length (fst (cd_read512 h cd n k)) \<le> k * 512"
proof (induction k arbitrary: n)
  case (Suc k)
  show ?case
    using Suc [of "n + 1"] by (auto simp: byte_simps Let_def split: prod.split)
qed simp

lemma length_raw [simp]: "length (fst (CD_ReadRawSector h cd n)) = 2352"
  by (auto simp: CD_ReadRawSector_def cd_fread_def answer_length split: option.split
      dest: stream_store.rd_length)

lemma length_user_data: "length (user_data t bs) \<le> 2048"
  by (simp add: user_data_def byte_simps)

lemma length_q [answer_length]: "length (q_channel t n) = 16"
  by (simp add: q_channel_def answer_length)

lemma length_read_cd_blocks:
  "length (fst (read_cd_blocks h cd raw q n k)) \<le> k * ((if raw then 2352 else 2048) + (if q then 16 else 0))"
proof (induction k arbitrary: n)
  case (Suc k)
  obtain bs ok where r: "CD_ReadRawSector h cd n = (bs, ok)" by force
  then have "length bs = 2352" using length_raw [of h cd n] by simp
  moreover have "length (user_data (CD_FindTrackForLBA cd n) bs) \<le> 2048" by (rule length_user_data)
  ultimately show ?case
    using Suc [of "n + 1"] r by (auto simp: Let_def answer_length split: prod.split)
qed simp

lemma length_cdda_blocks: "length (fst (cdda_blocks h cd n k)) \<le> k * 2352"
proof (induction k arbitrary: n)
  case (Suc k)
  obtain bs ok where r: "CD_ReadRawSector h cd n = (bs, ok)" by force
  then have "length bs = 2352" using length_raw [of h cd n] by simp
  then show ?case using Suc [of "n + 1"] r by (auto simp: Let_def split: prod.split)
qed simp

lemma fits_read_done: "fits s \<Longrightarrow> unat n \<le> length (buffer s) \<Longrightarrow> fits (read_done c n s)"
  unfolding read_done_def by (auto intro!: fits_xfer fits_intros simp: good_def)

lemma fits_cd_read_sectors:
  assumes f: "fits s" and room: "unat (blockcounter (cur s)) * unat (blocksize s) \<le> length (buffer s)"
  shows "fits (cd_read_sectors s)"
proof -
  let ?n = "blockcounter (cur s)"
  have len: "length (buffer s) < 2147483648" using f by (simp add: fits_def)
  have put: "fits (put_buffer 0 bs s)" if "length bs \<le> length (buffer s)" for bs
    using f that by (intro fits_put) simp_all
  consider "blocksize s = 2048" | "blocksize s = 512" | "blocksize s \<noteq> 2048" "blocksize s \<noteq> 512" by blast
  then show ?thesis
  proof cases
    case 1
    have "length (fst (CD_Read2048 (hst s) (disc s) (lba (cur s)) (unat ?n))) \<le> length (buffer s)"
      using length_CD_Read2048(1) [of "hst s" "disc s" "lba (cur s)" "unat ?n"] room 1 by simp
    moreover have "unat (?n * 2048) \<le> length (buffer s)"
      using room 1 len by (simp add: unat_mult_small)
    ultimately show ?thesis
      using 1 put f unfolding cd_read_sectors_def Let_def split_beta
      by (auto intro!: fits_intros fits_read_done)
  next
    case 2
    have "length (fst (cd_read512 (hst s) (disc s) (lba (cur s)) (unat ?n))) \<le> length (buffer s)"
      using length_cd_read512 [of "hst s" "disc s" "lba (cur s)" "unat ?n"] room 2 by simp
    moreover have "unat (?n * 512) \<le> length (buffer s)"
      using room 2 len by (simp add: unat_mult_small)
    ultimately show ?thesis
      using 2 put f unfolding cd_read_sectors_def Let_def split_beta
      by (auto intro!: fits_intros fits_read_done)
  next
    case 3
    then show ?thesis using f unfolding cd_read_sectors_def Let_def by (simp add: fits_intros)
  qed
qed

lemma length_hd_fread: "hd_fread s = Some bs \<Longrightarrow> length bs = 512"
  by (auto simp: hd_fread_def split: option.splits intro: stream_store.rd_length)

lemma next_block_buffer [simp]: "buffer (next_block s) = buffer s" "hst (next_block s) = hst s"
  by (simp_all add: next_block_def good_def)

lemma unat_next: "x \<noteq> 0 \<Longrightarrow> Suc (unat ((x :: u32) - 1)) = unat x"
  by (simp add: unat_minus_one unat_gt_0)

lemma fits_hd_read_loop:
  assumes "fits s" "(loop + unat (blockcounter (cur s))) * 512 \<le> length (buffer s)"
  shows "fits (snd (hd_read_loop loop s)) \<and>
    fst (hd_read_loop loop s) \<le> loop + unat (blockcounter (cur s)) \<and>
    length (buffer (snd (hd_read_loop loop s))) = length (buffer s)"
  using assms
proof (induction loop s rule: hd_read_loop.induct)
  case (1 loop s)
  show ?case
  proof (cases "blockcounter (cur s) = 0 \<or> hd_fread s = None")
    case True
    then show ?thesis
      using 1(2) by (subst (1 2 3) hd_read_loop.simps) (auto simp: fits_intros bad_lba_def)
  next
    case False
    then obtain bs where bs: "hd_fread s = Some bs" and c: "blockcounter (cur s) \<noteq> 0" by auto
    let ?s = "next_block (put_buffer (loop * 512) bs s)"
    note n = unat_next [OF c]
    have room: "(Suc loop + unat (blockcounter (cur ?s))) * 512 \<le> length (buffer ?s)"
      using 1(3) n by (simp add: next_block_counter)
    have "fits ?s"
      using 1(2,3) n length_hd_fread [OF bs] by (intro fits_intros fits_put) simp_all
    note ih = 1(1) [OF c bs this room]
    have step: "hd_read_loop loop s = hd_read_loop (Suc loop) ?s"
      using bs c by (subst hd_read_loop.simps) simp
    show ?thesis unfolding step using ih n by (simp add: next_block_counter)
  qed
qed

lemma cdrom_try [simp]: "cdrom (cur (snd (try_buffer n s))) = cdrom (cur s)"
  by simp

lemma blocksize_cong: "cur s = cur t \<Longrightarrow> blocksize s = blocksize t"
  by (simp add: blocksize_def)

lemma fits_scsi_read_sector:
  assumes f: "fits s" and small: "unat (blockcounter (cur s)) * unat (blocksize s) < 2147483648"
  shows "fits (scsi_read_sector s)"
proof (cases "blockcounter (cur s) = 0")
  case False
  let ?n = "blockcounter (cur s) * blocksize s"
  obtain ok t where t: "try_buffer ?n s = (ok, t)" by force
  have ft: "fits t" using fits_try [OF f, of ?n] t by simp
  have cur: "cur t = cur s" using cur_frame(3) [of ?n s] t by simp
  have un: "unat ?n = unat (blockcounter (cur s)) * unat (blocksize s)"
    using small by (intro unat_mult_small) simp
  show ?thesis
  proof (cases ok)
    case False
    then show ?thesis using t ft by (simp add: scsi_read_sector_def Let_def fits_intros f)
  next
    case True
    have room: "unat (blockcounter (cur t)) * unat (blocksize t) \<le> length (buffer t)"
      using try_buffer_grant(2) [OF f, of ?n t] t True small un cur blocksize_cong [of t s] by simp
    show ?thesis
    proof (cases "cdrom (cur s)")
      case cd: True
      then have "scsi_read_sector s = cd_read_sectors t"
        using t True \<open>blockcounter (cur s) \<noteq> 0\<close> cur by (simp add: scsi_read_sector_def Let_def)
      then show ?thesis using fits_cd_read_sectors [OF ft room] by simp
    next
      case hd: False
      then have bs: "blocksize t = 512" using cur by (simp add: blocksize_def BLOCKSIZE_def)
      then have r: "(0 + unat (blockcounter (cur t))) * 512 \<le> length (buffer t)"
        using room by simp
      note l = fits_hd_read_loop [OF ft r]
      have eq: "scsi_read_sector s =
          set_xfer (of_nat (fst (hd_read_loop 0 t) * 512)) (snd (hd_read_loop 0 t))"
        using t True \<open>blockcounter (cur s) \<noteq> 0\<close> cur hd by (simp add: scsi_read_sector_def split_beta Let_def)
      have "fst (hd_read_loop 0 t) * 512 \<le> length (buffer t)" "length (buffer t) < 2147483648"
        using l r ft by (simp_all add: fits_def)
      then show ?thesis unfolding eq using l by (intro fits_xfer) (simp_all add: unat_of_nat_small del: of_nat_mult)
    qed
  qed
qed (simp add: scsi_read_sector_def f)

lemma fits_ReadSector:
  assumes "fits s" "unat (SCSI_GetCount (cmd_buffer s ! 0) (cmd_buffer s)) * unat (blocksize s) < 2147483648"
  shows "fits (SCSI_ReadSector s)"
proof -
  let ?s = "(set_range s)\<lparr>buf_disk := True, buf_size := 0\<rparr>"
  have "fits ?s" using assms(1) by (intro fits_intros)
  moreover have "blocksize ?s = blocksize s" "blockcounter (cur ?s) = SCSI_GetCount (cmd_buffer s ! 0) (cmd_buffer s)"
    by (simp_all add: blocksize_def set_range_def)
  ultimately show ?thesis
    unfolding SCSI_ReadSector_def using assms(2) by (intro fits_scsi_read_sector) simp_all
qed

end
