(* ===== verification/SCSI_Bounds.thy ===== *)
theory SCSI_Bounds
  imports SCSI_Safety
begin

section \<open>Every command stays inside the buffer\<close>

text \<open>
  The two facts about the dispatcher that the rest builds on: a command other than START
  STOP UNIT is \<open>quiet\<close>, and a command with a bounded transfer keeps \<open>fits\<close>. The
  write loop is treated here too: when it returns, when it does not, and what it wrote.
\<close>

subsection \<open>The write loop\<close>

text \<open>The current block can be written.\<close>

definition writable :: "scsi \<Rightarrow> bool" where
  "writable s \<longleftrightarrow>
     (case dsk (cur s) of None \<Rightarrow> False
      | Some f \<Rightarrow>
          (case streams (hst s) f of None \<Rightarrow> False
           | Some st \<Rightarrow> files (hst s) (st_path st) \<noteq> None \<and> st_write st \<and>
                       unat (lba (cur s)) * 512 + 512 \<le> max_file (hst s)))"

lemma length_get_buffer [simp]: "length (fst (get_buffer off n s)) = n"
  by (simp add: get_buffer_def byte_simps)

lemma fwrite_block_iff:
  "fwrite_block f pos bs h \<noteq> None \<longleftrightarrow>
   (\<exists>st c. streams h f = Some st \<and> files h (st_path st) = Some c \<and> st_write st \<and> pos + length bs \<le> max_file h)"
  by (auto simp: fwrite_block_def split: option.splits if_splits)

lemma fwrite_block_frame:
  assumes "fwrite_block f pos bs h = Some h'"
  shows "streams h' = streams h" "bad_close h' = bad_close h" "next_fh h' = next_fh h" "max_file h' = max_file h"
    "files h' p = None \<longleftrightarrow> files h p = None"
  using assms by (auto simp: fwrite_block_def split: option.splits if_splits)

lemma hd_fwrite_ok: "snd (hd_fwrite loop s) \<longleftrightarrow> writable s"
proof (cases "dsk (cur s)")
  case (Some f)
  let ?bs = "fst (get_buffer (loop * 512) 512 s)"
  have "snd (hd_fwrite loop s) \<longleftrightarrow> fwrite_block f (unat (lba (cur s)) * 512) ?bs (hst s) \<noteq> None"
    using Some by (auto simp: hd_fwrite_def split_beta Let_def split: option.split)
  then have "snd (hd_fwrite loop s) \<longleftrightarrow>
      (\<exists>st c. streams (hst s) f = Some st \<and> files (hst s) (st_path st) = Some c \<and> st_write st \<and>
        unat (lba (cur s)) * 512 + 512 \<le> max_file (hst s))"
    unfolding fwrite_block_iff by simp
  then show ?thesis using Some by (auto simp: writable_def split: option.splits)
qed (simp add: hd_fwrite_def writable_def)

lemma hd_fwrite_fail:
  "\<not> writable s \<Longrightarrow> cur (fst (hd_fwrite loop s)) = cur s \<and> hst (fst (hd_fwrite loop s)) = hst s"
  using hd_fwrite_ok [of loop s] by (auto simp: hd_fwrite_def split_beta Let_def split: option.splits)

lemma writable_bad_lba: "writable (bad_lba i s) = writable s"
  by (auto simp: writable_def bad_lba_def split: option.split)

lemma writable_cong:
  assumes "cur s = cur t" "hst s = hst t"
  shows "writable s = writable t"
  unfolding writable_def assms ..

lemma hd_fwrite_quiet: "quiet s (fst (hd_fwrite loop s))"
proof -
  have w: "quiet s (t\<lparr>hst := h\<rparr>)" if "quiet s t" "fwrite_block f pos bs (hst s) = Some h" for t h f pos bs
    using that fwrite_block_frame [OF that(2)] by (auto simp: quiet_def cur_def disc_def)
  then show ?thesis
    unfolding hd_fwrite_def split_beta Let_def by (auto intro!: w quiet_intros split: option.split)
qed

lemma fits_get [simp]: "off + n \<le> length (buffer s) \<Longrightarrow> snd (get_buffer off n s) = s"
  "off + n \<le> length (buffer s) \<Longrightarrow> fst (get_buffer off n s) = window off n (buffer s)"
  by (simp_all add: get_buffer_def)

lemma hd_fwrite_fits:
  assumes "fits s" "Suc loop * 512 \<le> length (buffer s)"
  shows "fits (fst (hd_fwrite loop s))" "buffer (fst (hd_fwrite loop s)) = buffer s"
    "blockcounter (cur (fst (hd_fwrite loop s))) = blockcounter (cur s)"
  using assms unfolding hd_fwrite_def split_beta Let_def by (auto simp: fits_def split: option.split)

definition write_post :: "nat \<Rightarrow> scsi \<Rightarrow> scsi \<Rightarrow> bool" where
  "write_post loop s t \<longleftrightarrow>
     (blockcounter (cur s) = 0 \<or> writable s) \<and> quiet s t \<and>
     (fits s \<and> (loop + unat (blockcounter (cur s))) * 512 \<le> length (buffer s) \<longrightarrow> fits t)"

lemma scsi_write_sector_post:
  assumes "scsi_write_sector loop s = Some t"
  shows "write_post loop s t"
proof (rule scsi_write_sector.raw_induct [where P = write_post, OF _ assms])
  fix f loop s t
  assume IH: "\<And>loop s t. f loop s = Some t \<Longrightarrow> write_post loop s t"
    and eq: "(if blockcounter (cur s) = 0 then Some s
      else let (s1, ok) = hd_fwrite loop s
           in f (Suc loop) (if ok then next_block s1 else bad_lba (lba (cur s1)) s1)) = Some t"
  obtain s1 ok where w: "hd_fwrite loop s = (s1, ok)" by force
  have ok: "ok = writable s" using hd_fwrite_ok [of loop s] w by simp
  have q: "quiet s s1" using hd_fwrite_quiet [of s loop] w by simp
  show "write_post loop s t"
  proof (cases "blockcounter (cur s) = 0")
    case True
    then show ?thesis using eq by (simp add: write_post_def quiet_intros)
  next
    case c: False
    show ?thesis
    proof (cases "writable s")
      case True
      then have "f (Suc loop) (next_block s1) = Some t" using eq c w ok by simp
      note p = IH [OF this]
      have "quiet s t" using p quiet_trans [OF quiet_endings(7) [OF q]] by (simp add: write_post_def)
      moreover have "fits t" if f: "fits s" and room: "(loop + unat (blockcounter (cur s))) * 512 \<le> length (buffer s)"
      proof -
        note n = unat_next [OF c]
        have "Suc loop * 512 \<le> length (buffer s)" using room n by simp
        note s1 = hd_fwrite_fits [OF f this]
        have s1': "fits s1" "buffer s1 = buffer s" "blockcounter (cur s1) = blockcounter (cur s)"
          using s1 w by simp_all
        have "fits (next_block s1)" using s1'(1) by (rule fits_intros)
        moreover have "(Suc loop + unat (blockcounter (cur (next_block s1)))) * 512 \<le> length (buffer (next_block s1))"
          using room n s1'(2,3) by (simp add: next_block_counter)
        ultimately show ?thesis using p unfolding write_post_def by blast
      qed
      ultimately show ?thesis using True by (simp add: write_post_def)
    next
      case False
      then have "f (Suc loop) (bad_lba (lba (cur s1)) s1) = Some t" using eq c w ok by simp
      note p = IH [OF this]
      have "blockcounter (cur s1) = blockcounter (cur s)" "writable s1 = writable s"
        using hd_fwrite_fail [OF False, of loop] w writable_cong [of s1 s] by simp_all
      moreover have "blockcounter (cur (bad_lba (lba (cur s1)) s1)) = blockcounter (cur s1)"
        by (simp add: bad_lba_def)
      ultimately have False using p c False unfolding write_post_def writable_bad_lba by simp
      then show ?thesis ..
    qed
  qed
qed

text \<open>A block that cannot be written keeps the loop going for ever.\<close>

lemma scsi_write_sector_stuck:
  assumes "blockcounter (cur s) \<noteq> 0" "\<not> writable s"
  shows "scsi_write_sector loop s = None"
  using scsi_write_sector_post [of loop s] assms by (cases "scsi_write_sector loop s") (auto simp: write_post_def)

subsection \<open>The handlers\<close>

lemma quiet_WriteSector: "SCSI_WriteSector s = Some t \<Longrightarrow> quiet s t"
proof -
  assume w: "SCSI_WriteSector s = Some t"
  let ?s = "(set_range s)\<lparr>buf_disk := True, buf_size := 0, buf_limit := BLOCKSIZE\<rparr>"
  have q: "quiet s ?s" "quiet s (check_code SC_WRITE_PROTECT (set_range s))" by (intro quiet_intros)+
  show ?thesis
  proof (cases "cdrom (cur (set_range s))")
    case True
    then show ?thesis using w q by (simp add: SCSI_WriteSector_def Let_def)
  next
    case False
    then have "write_post 0 ?s t"
      using w by (intro scsi_write_sector_post) (simp add: SCSI_WriteSector_def Let_def)
    then show ?thesis using q(1) quiet_trans by (auto simp: write_post_def)
  qed
qed

lemma fits_WriteSector:
  assumes "SCSI_WriteSector s = Some t" "fits s"
    "unat (SCSI_GetCount (cmd_buffer s ! 0) (cmd_buffer s)) * 512 \<le> length (buffer s)"
  shows "fits t"
proof -
  let ?s = "(set_range s)\<lparr>buf_disk := True, buf_size := 0, buf_limit := BLOCKSIZE\<rparr>"
  have q: "fits ?s" "fits (check_code SC_WRITE_PROTECT (set_range s))"
    using assms(2) by (simp_all add: fits_intros)
  have c: "blockcounter (cur ?s) = SCSI_GetCount (cmd_buffer s ! 0) (cmd_buffer s)" "buffer ?s = buffer s"
    by (simp_all add: set_range_def cur_def upd_cur_def)
  show ?thesis
  proof (cases "cdrom (cur (set_range s))")
    case True
    then show ?thesis using assms(1) q by (simp add: SCSI_WriteSector_def Let_def)
  next
    case False
    then have "write_post 0 ?s t"
      using assms(1) by (intro scsi_write_sector_post) (simp add: SCSI_WriteSector_def Let_def)
    then show ?thesis using q(1) c assms(3) by (simp add: write_post_def)
  qed
qed

lemma transfer_length_bound: "unat (SCSI_GetTransferLength opcode c) < 65536"
proof -
  have "unat (ucast (c ! 4) :: u32) < 65536"
    using unat_u8_less [of "c ! 4"] by (simp add: unat_ucast_up)
  then show ?thesis
    using of_be16_bound by (simp add: SCSI_GetTransferLength_def cdb16_def)
qed

lemma fits_Inquiry: "fits s \<Longrightarrow> fits (SCSI_Inquiry s)"
proof -
  assume f: "fits s"
  let ?tab = "if cdrom (cur s) then CDinquiry_bytes else inquiry_bytes"
  let ?req = "SCSI_GetTransferLength (cmd_buffer s ! 0) (cmd_buffer s)"
  let ?n = "if sint ?req > int (length ?tab) then of_nat (length ?tab) else ?req"
  have tab: "length ?tab \<le> 54" by (simp add: inquiry_bytes_def CDinquiry_bytes_def)
  have "sint ?req = int (unat ?req)"
    using transfer_length_bound [of "cmd_buffer s ! 0" "cmd_buffer s"] by (intro sint_eq_unat) simp
  then have n: "unat ?n \<le> 54" using tab by (auto simp: unat_of_nat_small not_less uint_le_int_iff)
  have x: "fits (set_xfer ?n (s\<lparr>buf_disk := False\<rparr>))"
    using f n by (intro fits_xfer fits_intros) (auto simp: fits_def)
  have p: "fits (put_buffer 0 (take (unat ?n) ?tab) (set_xfer ?n (s\<lparr>buf_disk := False\<rparr>)))"
    using x tab by (intro fits_small) auto
  then have "fits (put_buffer 0 [0x7F] (put_buffer 0 (take (unat ?n) ?tab) (set_xfer ?n (s\<lparr>buf_disk := False\<rparr>))))"
    by (rule fits_small) simp
  with p show ?thesis
    unfolding SCSI_Inquiry_def Let_def by (intro fits_intros) simp_all
qed

lemma fits_RequestSense: "fits s \<Longrightarrow> fits (SCSI_RequestSense s)"
  unfolding SCSI_RequestSense_def Let_def using sense_length_le [of "cmd_buffer s"]
  by (intro fits_intros fits_small) (auto simp: answer_length)

lemma fits_simple_handlers:
  assumes "fits s"
  shows "fits (SCSI_TestUnitReady s)" "fits (SCSI_ReadCapacity s)" "fits (SCSI_ModeSelect s)"
    "fits (SCSI_StopAudio s)" "fits (SCSI_StartStop s)"
proof -
  show "fits (SCSI_TestUnitReady s)" unfolding SCSI_TestUnitReady_def Let_def by (intro fits_intros assms)
  have "fits (set_xfer 8 (put_buffer 0 (be32 a @ be32 b) s))" for a b
    using assms fits_small [OF assms, of 0 "be32 a @ be32 b"] by (intro fits_xfer) (auto simp: fits_def)
  then show "fits (SCSI_ReadCapacity s)" unfolding SCSI_ReadCapacity_def Let_def by (intro fits_intros assms)
  show "fits (SCSI_ModeSelect s)" unfolding SCSI_ModeSelect_def by (intro fits_intros assms)
  show "fits (SCSI_StopAudio s)" unfolding SCSI_StopAudio_def by (intro fits_intros assms)
  have e: "fits (eject_disc t)" if "fits t" for t
    using that by (auto simp: eject_disc_def Let_def split_beta fits_def)
  then show "fits (SCSI_StartStop s)" unfolding SCSI_StartStop_def Let_def by (intro fits_intros e assms)
qed

lemma fits_cd_handlers:
  assumes f: "fits s" and t: "length (tracks (disc s)) \<le> 100"
  shows "fits (SCSI_ReadTOC s)" "fits (SCSI_ReadHeader s)" "fits (SCSI_ReadDiscInformation s)"
    "fits (SCSI_ReadTrackInformation s)" "fits (SCSI_GetConfiguration s)" "fits (SCSI_GetEventStatus s)"
    "fits (SCSI_MechanismStatus s)" "fits (SCSI_ReadSubChannel s)" "fits (SCSI_PlayAudio s)" "fits (SCSI_PauseResume s)"
proof -
  have u: "length (tracks (disc (update_audio s))) \<le> 100" using t by (simp add: update_audio_def)
  show "fits (SCSI_ReadTOC s)"
    unfolding SCSI_ReadTOC_def Let_def using f length_toc_response [OF u] by (intro fits_intros)
  show "fits (SCSI_ReadHeader s)" "fits (SCSI_ReadDiscInformation s)" "fits (SCSI_ReadTrackInformation s)"
    "fits (SCSI_GetEventStatus s)" "fits (SCSI_MechanismStatus s)" "fits (SCSI_PlayAudio s)" "fits (SCSI_PauseResume s)"
    unfolding SCSI_ReadHeader_def SCSI_ReadDiscInformation_def SCSI_ReadTrackInformation_def SCSI_GetEventStatus_def
      SCSI_MechanismStatus_def SCSI_PlayAudio_def SCSI_PauseResume_def Let_def
    by (intro fits_intros f; simp add: answer_length)+
  show "fits (SCSI_GetConfiguration s)"
    unfolding SCSI_GetConfiguration_def Let_def
    by (intro fits_intros f) (rule order_trans [OF length_configuration], simp)
  show "fits (SCSI_ReadSubChannel s)"
    unfolding SCSI_ReadSubChannel_def Let_def
    by (intro fits_intros f) (rule order_trans [OF length_subchannel], simp)
qed

lemma fits_mode_handlers:
  assumes "fits s"
  shows "fits (SCSI_ModeSense s)" "fits (SCSI_ModeSense10 s)"
  unfolding SCSI_ModeSense_def SCSI_ModeSense10_def Let_def
  by (intro fits_intros assms; use length_mode_pages in \<open>fastforce simp: block_descriptor_def\<close>)+

lemma fits_read_cd_finish:
  "fits s \<Longrightarrow> length (fst r) \<le> length (buffer s) \<Longrightarrow> unat n \<le> length (buffer s) \<Longrightarrow> fits (read_cd_finish r n s)"
  unfolding read_cd_finish_def Let_def by (intro fits_intros fits_put fits_xfer) simp_all

lemma fits_finish_blocks:
  assumes "fits s" "unat sz < 2147483648" "length (fst (g (snd (try_buffer sz s)))) \<le> unat sz"
  shows "fits (let (ok, s1) = try_buffer sz s in if \<not> ok then no_memory s1 else read_cd_finish (g s1) sz s1)"
proof -
  obtain ok t where t: "try_buffer sz s = (ok, t)" by force
  have ft: "fits t" using fits_try [OF assms(1), of sz] t by simp
  show ?thesis
  proof (cases ok)
    case True
    then have "unat sz \<le> length (buffer t)"
      using try_buffer_grant(2) [OF assms(1), of sz t] t assms(2) by simp
    then show ?thesis using ft t True assms(3) by (simp add: fits_read_cd_finish)
  qed (simp add: t ft fits_intros)
qed

lemma fits_ReadCD:
  assumes f: "fits s"
    and small: "unat (if msf then snd (msf_range (cmd_buffer s) 6) else cdb24 (cmd_buffer s) 6) *
      ((if raw_wanted (cmd_buffer s ! 9) then 2352 else 2048) + (if cmd_buffer s ! 10 = 0x02 then 16 else 0)) < 2147483648"
  shows "fits (SCSI_ReadCD msf s)"
proof -
  let ?c = "cmd_buffer s"
  let ?raw = "raw_wanted (?c ! 9)" and ?q = "?c ! 10 = 0x02"
  let ?r = "if msf then msf_range ?c 6 else (cdb32 ?c 2, cdb24 ?c 6)"
  let ?k = "(if ?raw then 2352 else 2048) + (if ?q then 16 else 0) :: nat"
  let ?w = "(if ?raw then 2352 else 2048) + (if ?q then 16 else 0) :: u32"
  have w: "unat ?w = ?k" by (auto split: if_splits)
  have "unat (snd ?r) * ?k < 2147483648" using small by (simp split: if_splits)
  then have tot: "unat (snd ?r * ?w) = unat (snd ?r) * ?k"
    using w by (subst unat_mult_small) simp_all
  have "fits (let (ok, s1) = try_buffer (snd ?r * ?w) s
      in if \<not> ok then no_memory s1
         else read_cd_finish (read_cd_blocks (hst s1) (disc s1) ?raw ?q (fst ?r) (unat (snd ?r))) (snd ?r * ?w) s1)"
    using \<open>unat (snd ?r) * ?k < 2147483648\<close> tot length_read_cd_blocks
    by (intro fits_finish_blocks f) (simp_all only:)
  then show ?thesis
    using f unfolding SCSI_ReadCD_def Let_def
    by (cases ?r) (auto intro!: fits_intros simp: split_beta)
qed

lemma fits_AppleReadCDDA:
  assumes f: "fits s"
    and small: "unat (if msf then snd (msf_range (cmd_buffer s) 7) else cdb32 (cmd_buffer s) 6) * 2352 < 2147483648"
  shows "fits (SCSI_AppleReadCDDA msf s)"
proof -
  let ?c = "cmd_buffer s"
  let ?r = "if msf then msf_range ?c 7 else (cdb32 ?c 2, cdb32 ?c 6)"
  have "unat (snd ?r) * 2352 < 2147483648" using small by (simp split: if_splits)
  then have tot: "unat (snd ?r * 2352) = unat (snd ?r) * 2352"
    by (subst unat_mult_small) simp_all
  have "fits (let (ok, s1) = try_buffer (snd ?r * 2352) s
      in if \<not> ok then no_memory s1
         else read_cd_finish (cdda_blocks (hst s1) (disc s1) (fst ?r) (unat (snd ?r))) (snd ?r * 2352) s1)"
    using \<open>unat (snd ?r) * 2352 < 2147483648\<close> tot length_cdda_blocks
    by (intro fits_finish_blocks f) (simp_all only:)
  then show ?thesis
    using f unfolding SCSI_AppleReadCDDA_def Let_def
    by (cases ?r) (auto intro!: fits_intros simp: split_beta)
qed

subsection \<open>The dispatcher\<close>

lemma pred_option_if:
  "(c \<Longrightarrow> pred_option P x) \<Longrightarrow> (\<not> c \<Longrightarrow> pred_option P y) \<Longrightarrow> pred_option P (if c then x else y)"
  by simp

lemma pred_option_Some: "P x \<Longrightarrow> pred_option P (Some x)"
  by simp

lemma pred_optionI: "(\<And>t. x = Some t \<Longrightarrow> P t) \<Longrightarrow> pred_option P x"
  by (cases x) simp_all

lemma execute_quiet:
  assumes "opcode \<noteq> 0x1B"
  shows "pred_option (quiet s) (SCSI_Execute opcode s)"
proof -
  have a: "quiet s (rezero s)" "quiet s (seek_block s)" "quiet s (format_drive s)"
    unfolding rezero_def seek_block_def format_drive_def by (intro quiet_intros quiet_cd_handlers)+
  show ?thesis
    unfolding SCSI_Execute_def
    by (intro pred_option_if pred_option_Some a quiet_handlers quiet_cd_handlers quiet_mode_handlers quiet_intros
        pred_optionI quiet_WriteSector) (use assms in simp_all)
qed

lemma transfer_okD:
  assumes "transfer_ok s"
  shows "cmd_buffer s ! 0 \<in> {0x08, 0x28, 0xA8} \<Longrightarrow>
      unat (SCSI_GetCount (cmd_buffer s ! 0) (cmd_buffer s)) * unat (blocksize s) < 2147483648"
    and "cmd_buffer s ! 0 \<in> {0x0A, 0x2A, 0xAA} \<Longrightarrow>
      unat (SCSI_GetCount (cmd_buffer s ! 0) (cmd_buffer s)) * 512 \<le> length (buffer s)"
    and "cmd_buffer s ! 0 = (if msf then 0xB9 else 0xBE) \<Longrightarrow>
      unat (if msf then snd (msf_range (cmd_buffer s) 6) else cdb24 (cmd_buffer s) 6) *
      ((if raw_wanted (cmd_buffer s ! 9) then 2352 else 2048) + (if cmd_buffer s ! 10 = 0x02 then 16 else 0)) < 2147483648"
    and "cmd_buffer s ! 0 = (if msf then 0xD9 else 0xD8) \<Longrightarrow>
      unat (if msf then snd (msf_range (cmd_buffer s) 7) else cdb32 (cmd_buffer s) 6) * 2352 < 2147483648"
  using assms by (auto simp: transfer_ok_def transfer_bytes_def Let_def)

lemma execute_fits:
  assumes f: "fits s" and ok: "transfer_ok s" and t: "length (tracks (disc s)) \<le> 100"
  shows "pred_option fits (SCSI_Execute (cmd_buffer s ! 0) s)"
proof -
  have a: "fits (rezero s)" "fits (seek_block s)" "fits (format_drive s)"
    unfolding rezero_def seek_block_def format_drive_def
    by (intro fits_intros fits_simple_handlers f)+
  note h = fits_simple_handlers [OF f] fits_cd_handlers [OF f t] fits_mode_handlers [OF f]
  show ?thesis
    unfolding SCSI_Execute_def
    by (intro pred_option_if pred_option_Some a h fits_intros f fits_ReadSector [OF f] fits_ReadCD [OF f]
        fits_AppleReadCDDA [OF f] pred_optionI;
        (rule fits_WriteSector [OF _ f], assumption)?; (rule transfer_okD [OF ok])?; simp)
qed

definition stop_unit :: "u8 list \<Rightarrow> bool" where
  "stop_unit c \<longleftrightarrow> c ! 0 = 0x1B"

lemma emulate_cases:
  assumes "SCSI_Emulate_Command s = Some t"
  obtains "t = msg_complete (SCSI_Inquiry s)" | "t = msg_complete (SCSI_RequestSense s)" | "t = wrong_lun s"
    | "t = attention s" | u where "SCSI_Execute (cmd_buffer s ! 0) s = Some u" "t = msg_complete u"
  using assms unfolding SCSI_Emulate_Command_def Let_def by (auto split: if_splits)

lemma quiet_attention: "quiet s (attention s)" "quiet s (wrong_lun s)"
  by (auto simp: attention_def wrong_lun_def same_device_def intro!: quiet_intros quiet_upd_cur)

lemma emulate_quiet:
  assumes "SCSI_Emulate_Command s = Some t" "cmd_buffer s ! 0 \<noteq> 0x1B"
  shows "quiet s t"
  using assms(1)
proof (cases rule: emulate_cases)
  case (5 u)
  then show ?thesis using execute_quiet [OF assms(2), of s] by (simp add: quiet_intros)
qed (simp_all add: quiet_intros quiet_handlers quiet_attention)

lemma emulate_fits:
  assumes "SCSI_Emulate_Command s = Some t" "fits s" "transfer_ok s" "length (tracks (disc s)) \<le> 100"
  shows "fits t"
  using assms(1)
proof (cases rule: emulate_cases)
  case (5 u)
  then show ?thesis using execute_fits [OF assms(2-4)] by (simp add: fits_intros)
qed (simp_all add: fits_intros fits_Inquiry fits_RequestSense attention_def wrong_lun_def assms(2))

end
