(* ===== verification/SCSI_Ownership.thy ===== *)
theory SCSI_Ownership
  imports SCSI_Bounds
begin

section \<open>Who owns an open file\<close>

text \<open>
  Attaching, ejecting and detaching open and close host files. A handle belongs to at
  most one target, is open as long as it is owned, and is closed once.
\<close>

subsection \<open>Opening files\<close>

definition fresh_host :: "host \<Rightarrow> bool" where
  "fresh_host h \<longleftrightarrow> (\<forall>f \<ge> next_fh h. streams h f = None)"

text \<open>Handles from before are as they were; the new ones are fresh.\<close>

definition grown :: "host \<Rightarrow> host \<Rightarrow> bool" where
  "grown h h' \<longleftrightarrow>
     next_fh h \<le> next_fh h' \<and> (\<forall>f < next_fh h. streams h' f = streams h f) \<and> fresh_host h' \<and>
     bad_close h' = bad_close h \<and> files h' = files h"

definition new_handles :: "host \<Rightarrow> host \<Rightarrow> fh set" where
  "new_handles h h' = {f. next_fh h \<le> f \<and> streams h' f \<noteq> None}"

lemma grown_refl: "fresh_host h \<Longrightarrow> grown h h"
  by (simp add: grown_def)

lemma grown_trans: "grown h h1 \<Longrightarrow> grown h1 h2 \<Longrightarrow> grown h h2"
  by (auto simp: grown_def)

lemma new_handles_mono: "grown h h1 \<Longrightarrow> new_handles h1 h2 \<subseteq> new_handles h h2"
  by (auto simp: grown_def new_handles_def)

lemma fopen_read_cases:
  assumes "fopen_read p h = (r, h')" "fresh_host h"
  shows "grown h h'" "r = None \<Longrightarrow> h' = h" "r = Some f \<Longrightarrow> f = next_fh h \<and> next_fh h' = Suc f \<and> streams h' f \<noteq> None"
  using assms by (auto simp: fopen_read_def open_stream_def grown_def fresh_host_def split: if_splits)

lemma grown_fclose:
  assumes "grown h h1" "next_fh h \<le> f" "streams h1 f \<noteq> None"
  shows "grown h (fclose f h1)"
  using assms by (auto simp: grown_def fclose_def fresh_host_def)

lemma grown_cue_ok:
  assumes "cue_ok h (st, h')" "fresh_host h"
  shows "grown h h'" "set (cue_handles (cue_files st)) \<subseteq> new_handles h h'"
proof -
  let ?H = "set (cue_handles (cue_files st))"
  have c: "?H \<subseteq> {next_fh h..<next_fh h'}" "\<forall>f \<in> ?H. streams h' f \<noteq> None" "next_fh h \<le> next_fh h'"
    "\<forall>f. f \<notin> ?H \<longrightarrow> streams h' f = streams h f" "bad_close h' = bad_close h" "files h' = files h"
    using assms(1) by (simp_all add: cue_ok_def)
  have "f \<notin> ?H" if "next_fh h' \<le> f \<or> f < next_fh h" for f using c(1) that by auto
  then have "streams h' f = streams h f" if "next_fh h' \<le> f \<or> f < next_fh h" for f using c(4) that by blast
  then show "grown h h'"
    using c(3,5,6) assms(2) by (auto simp: grown_def fresh_host_def)
  show "?H \<subseteq> new_handles h h'" using c(1,2) by (auto simp: new_handles_def)
qed

lemma cue_handles_iff: "f \<in> set (cue_handles fs) \<longleftrightarrow> (\<exists>fe \<in> set fs. cf_fh fe = Some f)"
  by (induction fs) (auto split: option.split)

lemma track_fh_layout:
  assumes "t \<in> set (cue_layout st)" "\<forall>x \<in> set (cue_tracks st). tt_file x < length (cue_files st)" "track_fh t = Some f"
  shows "f \<in> set (cue_handles (cue_files st))"
proof -
  have s: "\<exists>x \<in> set ts. track_fh t = cf_fh (fs ! tt_file x)" if "t \<in> set (single_layout fs ts)" for fs ts
    using that by (induction fs ts rule: single_layout.induct) (auto simp: Let_def)
  have m: "\<exists>x \<in> set ts. track_fh t = cf_fh (fs ! tt_file x)" if "t \<in> set (multi_layout fs r ts)" for fs r ts
    using that by (induction fs r ts rule: multi_layout.induct) (auto simp: Let_def)
  have "\<exists>x \<in> set (take MAX_TRACKS_PER_DISC (cue_tracks st)). track_fh t = cf_fh (cue_files st ! tt_file x)"
    using assms(1) s m by (auto simp: cue_layout_def Let_def split: if_splits)
  then obtain x where "x \<in> set (cue_tracks st)" "cf_fh (cue_files st ! tt_file x) = Some f"
    using assms(3) by (auto dest: in_set_takeD)
  then show ?thesis unfolding cue_handles_iff using assms(2) by (meson nth_mem)
qed

lemma length_cue_layout: "length (cue_layout st) \<le> 100"
  by (simp add: cue_layout_def Let_def MAX_TRACKS_PER_DISC_def)

lemma LoadCueSheet_post:
  assumes l: "CD_LoadCueSheet p cd h = (ok, cd', h')" and fr: "fresh_host h" and cd: "tracks cd = []"
  shows "grown h h' \<and> open_fhs (tracks cd') \<subseteq> new_handles h h' \<and> length (tracks cd') \<le> 100 \<and>
    (\<not> ok \<longrightarrow> tracks cd' = [] \<and> new_handles h h' = {}) \<and> (ok \<longrightarrow> tracks cd' \<noteq> [])"
proof (cases "fopen_read p h")
  case (Pair r h1)
  note o = fopen_read_cases [OF Pair fr]
  show ?thesis
  proof (cases r)
    case None
    then show ?thesis
      using l Pair o(2) cd fr by (auto simp: CD_LoadCueSheet_def grown_refl new_handles_def fresh_host_def)
  next
    case (Some fp)
    note fp = o(3) [OF Some]
    have fr1: "fresh_host h1" using o(1) by (simp add: grown_def)
    define x where "x = cue_entries (if length (dir_of p) < 1024 then dir_of p else [])
      (case stream_data h1 fp of None \<Rightarrow> [] | Some c \<Rightarrow> text_of c) h1"
    obtain st h3 where x: "x = (st, h3)" by force
    have c: "cue_ok h1 (st, h3)" using cue_ok_entries unfolding x [symmetric] x_def .
    note g3 = grown_cue_ok [OF c fr1]
    have fp3: "streams h3 fp \<noteq> None" using g3(1) fp by (auto simp: grown_def)
    have g4: "grown h (fclose fp h3)"
      using grown_trans [OF o(1) g3(1)] fp fp3 by (intro grown_fclose) simp_all
    have notin: "fp \<notin> set (cue_handles (cue_files st))" using g3(2) fp by (auto simp: new_handles_def)
    have st4: "streams (fclose fp h3) = (streams h3)(fp := None)" using fp3 by (auto simp: fclose_def)
    let ?bad = "cue_tracks st = [] \<or> cue_files st = []"
    have l': "CD_LoadCueSheet p cd h =
      (if ?bad then (False, no_disc_state\<lparr>has_cue := True\<rparr>, close_cue_files (cue_files st) (fclose fp h3))
       else (True, no_disc_state\<lparr>has_cue := True, tracks := cue_layout st, leadout_lba := disc_leadout (cue_layout st),
               audio_status := 0x15, audio_paused := False, media_events := 0x02\<rparr>, fclose fp h3))"
      using Pair Some x cd by (simp add: CD_LoadCueSheet_def CD_ClearDisc_def x_def Let_def)
    show ?thesis
    proof (cases ?bad)
      case True
      then have h': "h' = close_cue_files (cue_files st) (fclose fp h3)" and "\<not> ok" "tracks cd' = []"
        using l l' by (auto simp: no_disc_state_def)
      let ?H = "set (cue_handles (cue_files st))"
      have s: "streams h' = (\<lambda>f. if f \<in> ?H \<or> f = fp then None else streams h3 f)"
        unfolding h' close_cue_files_streams st4 by auto
      have once: "bad_close h' = bad_close (fclose fp h3)"
        unfolding h' using c notin st4 by (intro close_cue_files_once) (auto simp: cue_ok_def)
      have nf: "next_fh (close_cue_files fs k) = next_fh k" "files (close_cue_files fs k) = files k" for fs k
        unfolding close_cue_files_def by (induction fs arbitrary: k) (auto simp: fclose_def split: option.split)
      have old: "f < next_fh h \<Longrightarrow> f \<notin> ?H \<and> f \<noteq> fp" for f
        using g3(2) fp by (auto simp: new_handles_def)
      have "grown h h'"
        using g4 s once nf old st4 unfolding h' by (auto simp: grown_def fresh_host_def)
      moreover have "new_handles h h' = {}"
        using s c fp fr1 by (auto simp: new_handles_def cue_ok_def fresh_host_def less_Suc_eq_le Suc_le_eq)
      ultimately show ?thesis using \<open>\<not> ok\<close> \<open>tracks cd' = []\<close> by simp
    next
      case False
      then have h': "h' = fclose fp h3" and ok: "ok" and tr: "tracks cd' = cue_layout st"
        using l l' by auto
      have tt: "\<forall>x \<in> set (cue_tracks st). tt_file x < length (cue_files st)"
        using c False by (cases "cue_files st") (auto simp: cue_ok_def)
      have "f \<in> new_handles h h'" if "f \<in> open_fhs (tracks cd')" for f
      proof -
        have f: "f \<in> set (cue_handles (cue_files st))"
          using that track_fh_layout [OF _ tt] unfolding tr by (auto simp: open_fhs_def)
        then have "f \<in> new_handles h h3" using g3(2) new_handles_mono [OF o(1)] by auto
        then show ?thesis using f notin st4 unfolding h' by (auto simp: new_handles_def)
      qed
      moreover have "cue_layout st \<noteq> []"
      proof -
        have "length (cue_layout st) = min (length (cue_tracks st)) 100"
          by (simp add: cue_layout_def Let_def MAX_TRACKS_PER_DISC_def)
        then show ?thesis using False by (metis length_0_conv length_greater_0_conv min_less_iff_conj zero_less_numeral)
      qed
      ultimately show ?thesis using g4 ok tr length_cue_layout unfolding h' by auto
    qed
  qed
qed

subsection \<open>The ownership invariant\<close>

definition dev_handles :: "scsi \<Rightarrow> nat \<Rightarrow> fh set" where
  "dev_handles s i =
     (if cdrom (disks s i) then open_fhs (tracks (discs s i))
      else (case dsk (disks s i) of None \<Rightarrow> {} | Some f \<Rightarrow> {f}))"

definition owned :: "scsi \<Rightarrow> bool" where
  "owned s \<longleftrightarrow>
     fresh_host (hst s) \<and> \<not> bad_close (hst s) \<and> target s < 7 \<and>
     (\<forall>i < 7. \<forall>f \<in> dev_handles s i. streams (hst s) f \<noteq> None) \<and>
     (\<forall>i < 7. \<forall>j < 7. i \<noteq> j \<longrightarrow> dev_handles s i \<inter> dev_handles s j = {}) \<and>
     (\<forall>i < 7. \<not> cdrom (disks s i) \<longrightarrow> tracks (discs s i) = []) \<and>
     (\<forall>i < 7. length (tracks (discs s i)) \<le> 100)"

lemma ownedD:
  assumes "owned s"
  shows "fresh_host (hst s)" "\<not> bad_close (hst s)" "target s < 7"
    "i < 7 \<Longrightarrow> f \<in> dev_handles s i \<Longrightarrow> streams (hst s) f \<noteq> None"
    "i < 7 \<Longrightarrow> j < 7 \<Longrightarrow> i \<noteq> j \<Longrightarrow> dev_handles s i \<inter> dev_handles s j = {}"
    "i < 7 \<Longrightarrow> \<not> cdrom (disks s i) \<Longrightarrow> tracks (discs s i) = []"
    "i < 7 \<Longrightarrow> length (tracks (discs s i)) \<le> 100"
  using assms by (auto simp: owned_def)

text \<open>Only target \<open>i\<close> has changed.\<close>

definition only :: "nat \<Rightarrow> scsi \<Rightarrow> scsi \<Rightarrow> bool" where
  "only i s t \<longleftrightarrow> target t = target s \<and> (\<forall>j. j \<noteq> i \<longrightarrow> disks t j = disks s j \<and> discs t j = discs s j)"

lemma only_handles: "only i s t \<Longrightarrow> j \<noteq> i \<Longrightarrow> dev_handles t j = dev_handles s j"
  by (simp add: only_def dev_handles_def)

lemma only_refl: "only i s s"
  by (simp add: only_def)

lemma only_trans: "only i s t \<Longrightarrow> only i t u \<Longrightarrow> only i s u"
  by (simp add: only_def)

text \<open>Closing the files of a target.\<close>

lemma owned_close:
  assumes o: "owned s" and i: "i < 7" and on: "only i s t"
    and st: "streams (hst t) = (\<lambda>f. if f \<in> dev_handles s i then None else streams (hst s) f)"
    and nf: "next_fh (hst t) = next_fh (hst s)" "bad_close (hst t) = bad_close (hst s)"
    and none: "dev_handles t i = {}" "tracks (discs t i) = []"
  shows "owned t"
  unfolding owned_def
proof (intro conjI allI impI ballI)
  note d = ownedD [OF o]
  show "fresh_host (hst t)" using d(1) nf st by (simp add: fresh_host_def)
  show "\<not> bad_close (hst t)" using d(2) nf by simp
  show "target t < 7" using d(3) on by (simp add: only_def)
  show "streams (hst t) f \<noteq> None" if "j < 7" "f \<in> dev_handles t j" for j f
  proof -
    have ji: "j \<noteq> i" using that none by auto
    then have f: "f \<in> dev_handles s j" using that only_handles [OF on] by simp
    then have "f \<notin> dev_handles s i" using d(5) [OF i that(1)] ji by auto
    then show ?thesis using d(4) [OF that(1) f] st by simp
  qed
  show "dev_handles t j \<inter> dev_handles t k = {}" if "j < 7" "k < 7" "j \<noteq> k" for j k
    using that none d(5) [OF that] only_handles [OF on] by (cases "j = i"; cases "k = i") auto
  show "tracks (discs t j) = []" if "j < 7" "\<not> cdrom (disks t j)" for j
    using that none d(6) [OF that(1)] on by (cases "j = i") (simp_all add: only_def)
  show "length (tracks (discs t j)) \<le> 100" if "j < 7" for j
    using that none d(7) [OF that(1)] on by (cases "j = i") (simp_all add: only_def)
qed

text \<open>Giving freshly opened files to a target that has none.\<close>

lemma owned_open:
  assumes o: "owned s" and i: "i < 7" and on: "only i s t"
    and g: "grown (hst s) (hst t)" and new: "dev_handles t i \<subseteq> new_handles (hst s) (hst t)"
    and hd: "\<not> cdrom (disks t i) \<Longrightarrow> tracks (discs t i) = []" and len: "length (tracks (discs t i)) \<le> 100"
  shows "owned t"
  unfolding owned_def
proof (intro conjI allI impI ballI)
  note d = ownedD [OF o]
  have lt: "f < next_fh (hst s)" if "j < 7" "f \<in> dev_handles s j" for j f
    using d(4) [OF that] d(1) by (auto simp: fresh_host_def not_less [symmetric])
  show "fresh_host (hst t)" "\<not> bad_close (hst t)" using g d(2) by (auto simp: grown_def)
  show "target t < 7" using d(3) on by (simp add: only_def)
  show "streams (hst t) f \<noteq> None" if "j < 7" "f \<in> dev_handles t j" for j f
  proof (cases "j = i")
    case True
    then show ?thesis using that new by (auto simp: new_handles_def)
  next
    case False
    then have f: "f \<in> dev_handles s j" using that only_handles [OF on] by simp
    then show ?thesis using d(4) [OF that(1) f] lt [OF that(1) f] g by (simp add: grown_def)
  qed
  have new_old: "dev_handles t i \<inter> dev_handles s j = {}" if "j < 7" for j
    using new lt [OF that] by (fastforce simp: new_handles_def)
  show "dev_handles t j \<inter> dev_handles t k = {}" if "j < 7" "k < 7" "j \<noteq> k" for j k
    using that new_old d(5) [OF that] only_handles [OF on] by (cases "j = i"; cases "k = i") auto
  show "tracks (discs t j) = []" if "j < 7" "\<not> cdrom (disks t j)" for j
    using that hd d(6) [OF that(1)] on by (cases "j = i") (simp_all add: only_def)
  show "length (tracks (discs t j)) \<le> 100" if "j < 7" for j
    using that len d(7) [OF that(1)] on by (cases "j = i") (simp_all add: only_def)
qed

subsection \<open>Closing the current image\<close>

lemma upd_dev_sel [simp]:
  "discs (upd_dev i f s) = discs s" "hst (upd_dev i f s) = hst s" "target (upd_dev i f s) = target s"
  "disks (upd_dev i f s) = (disks s)(i := f (disks s i))" "paths (upd_dev i f s) = paths s"
  by (simp_all add: upd_dev_def)

lemma set_disc_sel [simp]:
  "disks (set_disc i r s) = disks s" "hst (set_disc i r s) = snd r" "target (set_disc i r s) = target s"
  "discs (set_disc i r s) = (discs s)(i := fst r)" "paths (set_disc i r s) = paths s"
  by (simp_all add: set_disc_def)

lemma set_path_sel [simp]:
  "disks (set_path i p s) = disks s" "hst (set_path i p s) = hst s" "target (set_path i p s) = target s"
  "discs (set_path i p s) = discs s" "paths (set_path i p s) = (paths s)(i := p)"
  by (simp_all add: set_path_def)

lemma close_tracks_next [simp]: "next_fh (close_tracks ts h) = next_fh h"
  by (induction ts h rule: close_tracks.induct) (auto simp: fclose_def split: option.split)

lemma close_current_facts:
  assumes "owned s" "i < 7"
  shows "only i s (close_current i s)"
    "streams (hst (close_current i s)) = (\<lambda>f. if f \<in> dev_handles s i then None else streams (hst s) f)"
    "next_fh (hst (close_current i s)) = next_fh (hst s)" "bad_close (hst (close_current i s)) = bad_close (hst s)"
    "files (hst (close_current i s)) = files (hst s)"
    "tracks (discs (close_current i s) i) = []" "cdrom (disks (close_current i s) i) = cdrom (disks s i)"
    "dsk (disks (close_current i s) i) = None"
proof -
  let ?t = "close_current i s"
  note d = ownedD [OF assms(1)]
  show "only i s ?t" by (auto simp: close_current_def only_def split: option.split)
  show "cdrom (disks ?t i) = cdrom (disks s i)" "dsk (disks ?t i) = None"
    by (auto simp: close_current_def split: option.split)
  show "tracks (discs ?t i) = []"
    using d(6) [OF assms(2)] by (auto simp: close_current_def CD_ClearDisc_def no_disc_state_def split: option.split)
  have h: "hst ?t = (if cdrom (disks s i) then close_tracks (tracks (discs s i)) (hst s)
      else (case dsk (disks s i) of None \<Rightarrow> hst s | Some f \<Rightarrow> fclose f (hst s)))"
    by (auto simp: close_current_def CD_ClearDisc_def split: option.split)
  have ok: "\<forall>f \<in> dev_handles s i. streams (hst s) f \<noteq> None" using d(4) [OF assms(2)] by blast
  show "streams (hst ?t) = (\<lambda>f. if f \<in> dev_handles s i then None else streams (hst s) f)"
    unfolding h by (auto simp: dev_handles_def close_tracks_streams fclose_def split: option.split)
  show "next_fh (hst ?t) = next_fh (hst s)" "files (hst ?t) = files (hst s)"
    unfolding h by (auto simp: fclose_def split: option.split)
  show "bad_close (hst ?t) = bad_close (hst s)"
    unfolding h using ok
    by (auto simp: dev_handles_def fclose_def close_tracks_once split: option.split)
qed

lemma owned_close_current: "owned s \<Longrightarrow> i < 7 \<Longrightarrow> owned (close_current i s)"
  by (rule owned_close; (rule close_current_facts; assumption)?)
    (simp_all add: dev_handles_def close_current_facts)

lemma owned_cong:
  assumes "owned s" "hst t = hst s" "target t = target s" "discs t = discs s"
    "\<And>i. dsk (disks t i) = dsk (disks s i) \<and> cdrom (disks t i) = cdrom (disks s i)"
  shows "owned t"
proof -
  have "dev_handles t i = dev_handles s i" for i using assms(4,5) by (simp add: dev_handles_def)
  then show ?thesis using assms by (simp add: owned_def)
qed

subsection \<open>Loading an image\<close>

text \<open>
  What loading leaves behind: only target \<open>i\<close> is touched, its new tracks own fresh
  handles, and a failed load owns none.
\<close>

definition load_post :: "nat \<Rightarrow> scsi \<Rightarrow> bool \<times> scsi \<Rightarrow> bool" where
  "load_post i s r \<longleftrightarrow>
     only i s (snd r) \<and> grown (hst s) (hst (snd r)) \<and> disks (snd r) = disks s \<and>
     open_fhs (tracks (discs (snd r) i)) \<subseteq> new_handles (hst s) (hst (snd r)) \<and>
     length (tracks (discs (snd r) i)) \<le> 100 \<and>
     (if fst r then tracks (discs (snd r) i) \<noteq> [] else tracks (discs (snd r) i) = [] \<and> new_handles (hst s) (hst (snd r)) = {})"

lemma load_cue_post:
  assumes "fresh_host (hst s)" "tracks (discs s i) = []"
  shows "load_post i s (load_cue i p s)"
proof -
  obtain ok cd h where l: "CD_LoadCueSheet p (discs s i) (hst s) = (ok, cd, h)" by (metis prod_cases3)
  show ?thesis
    using LoadCueSheet_post [OF l assms] l
    by (auto simp: load_post_def load_cue_def only_def)
qed

lemma load_single_post:
  assumes "fresh_host (hst s)" "tracks (discs s i) = []"
  shows "load_post i s (load_single i p s)"
proof -
  obtain r h where o: "fopen_read p (hst s) = (r, h)" by force
  note c = fopen_read_cases [OF o assms(1)]
  show ?thesis
  proof (cases r)
    case None
    then show ?thesis
      using o c(1,2) assms by (auto simp: load_post_def load_single_def only_def new_handles_def fresh_host_def)
  next
    case (Some f)
    then show ?thesis
      using o c(1) c(3) [OF Some] assms(2)
      by (auto simp: load_post_def load_single_def only_def CD_SetupSingleFile_def CD_ClearDisc_def Let_def
          new_handles_def)
  qed
qed

lemma load_post_trans:
  assumes "load_post i s (False, u)" "load_post i u r"
  shows "load_post i s r"
proof -
  have g: "grown (hst s) (hst u)" "new_handles (hst s) (hst u) = {}" "only i s u" "disks u = disks s"
    using assms(1) by (simp_all add: load_post_def)
  have "new_handles (hst s) (hst (snd r)) \<subseteq> new_handles (hst u) (hst (snd r))"
    if "grown (hst u) (hst (snd r))"
  proof
    fix f assume f: "f \<in> new_handles (hst s) (hst (snd r))"
    have "\<not> f < next_fh (hst u)" using f g that by (auto simp: new_handles_def grown_def)
    then show "f \<in> new_handles (hst u) (hst (snd r))" using f by (simp add: new_handles_def)
  qed
  then show ?thesis
    using assms(2) g grown_trans [OF g(1)] only_trans [OF g(3)] new_handles_mono [OF g(1), of "hst (snd r)"]
    by (auto simp: load_post_def split: if_splits)
qed

lemma load_cd_post:
  assumes "fresh_host (hst s)" "tracks (discs s i) = []"
  shows "load_post i s (load_cd i p s)"
proof (cases "ends_ci ''.cue'' p")
  case True
  then show ?thesis using load_cue_post [OF assms] by (simp add: load_cd_def)
next
  case False
  obtain r h where o: "fopen_read (companion_cue p) (hst s) = (r, h)" by force
  note c = fopen_read_cases [OF o assms(1)]
  have "s\<lparr>hst := hst s\<rparr> = s" by simp
  show ?thesis
  proof (cases r)
    case None
    then show ?thesis using False o c(2) load_single_post [OF assms] by (simp add: load_cd_def Let_def)
  next
    case (Some f)
    note f = c(3) [OF Some]
    let ?s = "s\<lparr>hst := fclose f h\<rparr>"
    have g: "grown (hst s) (fclose f h)" using c(1) f by (intro grown_fclose) auto
    have "load_post i s (False, ?s)"
      using g f c(1) assms by (auto simp: load_post_def only_def new_handles_def fclose_def grown_def fresh_host_def)
    moreover have fr: "fresh_host (hst ?s)" "tracks (discs ?s i) = []" using g assms(2) by (simp_all add: grown_def)
    ultimately have l: "load_post i s (load_cue i (companion_cue p) ?s)"
      using load_cue_post load_post_trans by blast
    obtain ok u where u: "load_cue i (companion_cue p) ?s = (ok, u)" by force
    show ?thesis
    proof (cases ok)
      case True
      then show ?thesis using False o Some u l by (simp add: load_cd_def Let_def)
    next
      case nok: False
      then have "load_post i u (load_single i p u)"
        using l u by (intro load_single_post) (simp_all add: load_post_def grown_def)
      then show ?thesis
        using nok False o Some u l load_post_trans by (simp add: load_cd_def Let_def)
    qed
  qed
qed

subsection \<open>Attaching and detaching\<close>

lemma attached_sel [simp]:
  "hst (attached i p s) = hst s" "target (attached i p s) = target s" "discs (attached i p s) = discs s"
  "dsk (disks (attached i p s) j) = dsk (disks s j)" "cdrom (disks (attached i p s) j) = cdrom (disks s j)"
  "dev_size (disks (attached i p s) j) = dev_size (disks s j)"
  "sector_size (disks (attached i p s) j) = sector_size (disks s j)"
  "unit_attention (disks (attached i p s) i)" "lun (disks (attached i p s) i) = 0"
  "paths (attached i p s) i = take 1023 p" "scsi_prefs (attached i p s) i = Some p"
  "j \<noteq> i \<Longrightarrow> disks (attached i p s) j = disks s j"
  by (simp_all add: attached_def Let_def)

lemma owned_attach_cd:
  assumes o: "owned s" and i: "i < 7" and e: "tracks (discs s i) = []" "dsk (disks s i) = None"
  shows "owned (snd (attach_cd i p s))"
    and "fst (attach_cd i p s) \<Longrightarrow> cdrom (disks (snd (attach_cd i p s)) i) \<and> tracks (discs (snd (attach_cd i p s)) i) \<noteq> []"
proof -
  obtain ok u where u: "load_cd i p s = (ok, u)" by force
  have l: "load_post i s (ok, u)" using load_cd_post [OF ownedD(1) [OF o] e(1), of p] u by simp
  let ?f = "\<lambda>d. d\<lparr>dsk := first_fh (discs u i), dev_size := leadout_lba (discs u i) * CDBLOCKSIZE,
                   cdrom := True, sector_size := CDBLOCKSIZE\<rparr>"
  show "owned (snd (attach_cd i p s))"
  proof (cases ok)
    case True
    have t: "snd (attach_cd i p s) = attached i p (upd_dev i ?f u)"
      using u True by (simp add: attach_cd_def Let_def)
    show ?thesis
      unfolding t using o i l True
      by (intro owned_open [OF o i]) (auto simp: load_post_def only_def dev_handles_def)
  next
    case False
    have t: "snd (attach_cd i p s) = set_path i [] u"
      using u False by (simp add: attach_cd_def Let_def)
    show ?thesis
      unfolding t using o i l False e
      by (intro owned_open [OF o i]) (auto simp: load_post_def only_def dev_handles_def split: if_splits)
  qed
  show "cdrom (disks (snd (attach_cd i p s)) i) \<and> tracks (discs (snd (attach_cd i p s)) i) \<noteq> []"
    if "fst (attach_cd i p s)"
    using that u l by (auto simp: attach_cd_def Let_def load_post_def split: if_splits)
qed

lemma load_hd_post:
  assumes "load_hd p h = (r, h')" "fresh_host h"
  shows "grown h h'" "r = Some f \<Longrightarrow> f \<in> new_handles h h'"
proof -
  have "grown h h' \<and> (\<forall>f. r = Some f \<longrightarrow> f \<in> new_handles h h')"
    using assms by (auto simp: load_hd_def fopen_update_def fopen_read_def open_stream_def grown_def new_handles_def
        fresh_host_def split: if_splits)
  then show "grown h h'" "r = Some f \<Longrightarrow> f \<in> new_handles h h'" by simp_all
qed

lemma owned_attach_hd:
  assumes o: "owned s" and i: "i < 7" and e: "tracks (discs s i) = []"
  shows "owned (snd (attach_hd i p s))"
    and "fst (attach_hd i p s) \<Longrightarrow> dsk (disks (snd (attach_hd i p s)) i) \<noteq> None \<and> \<not> cdrom (disks (snd (attach_hd i p s)) i)"
proof -
  obtain r h where u: "load_hd p (hst s) = (r, h)" by force
  note l = load_hd_post [OF u ownedD(1) [OF o]]
  show "owned (snd (attach_hd i p s))"
  proof (rule owned_open [OF o i])
    show "only i s (snd (attach_hd i p s))"
      using u by (auto simp: attach_hd_def Let_def only_def split: option.split)
    have h: "hst (snd (attach_hd i p s)) = h" using u by (auto simp: attach_hd_def Let_def split: option.split)
    show "grown (hst s) (hst (snd (attach_hd i p s)))" unfolding h by (rule l)
    show "dev_handles (snd (attach_hd i p s)) i \<subseteq> new_handles (hst s) (hst (snd (attach_hd i p s)))"
      unfolding h using u l(2) by (auto simp: attach_hd_def Let_def dev_handles_def split: option.split)
    show "tracks (discs (snd (attach_hd i p s)) i) = []" "length (tracks (discs (snd (attach_hd i p s)) i)) \<le> 100"
      using u e by (auto simp: attach_hd_def Let_def split: option.split)
  qed
  show "dsk (disks (snd (attach_hd i p s)) i) \<noteq> None \<and> \<not> cdrom (disks (snd (attach_hd i p s)) i)"
    if "fst (attach_hd i p s)"
    using that u by (auto simp: attach_hd_def Let_def split: option.splits)
qed

lemma owned_Attach: "owned s \<Longrightarrow> owned (snd (SCSI_Attach i p s))"
proof (cases "i < 0 \<or> i \<ge> ESP_MAX_DEVS \<or> p = []")
  case True
  assume "owned s"
  then show ?thesis using True by (auto simp: SCSI_Attach_def)
next
  case False
  assume o: "owned s"
  let ?n = "nat i"
  have n: "?n < 7" using False by (simp add: ESP_MAX_DEVS_def nat_less_iff)
  let ?s = "upd_dev ?n (\<lambda>d. d\<lparr>dev_size := 0\<rparr>) (close_current ?n s)"
  note c = close_current_facts [OF o n]
  have "owned ?s" by (rule owned_cong [OF owned_close_current [OF o n]]) simp_all
  moreover have "tracks (discs ?s ?n) = []" "dsk (disks ?s ?n) = None" using c by simp_all
  moreover have "SCSI_Attach i p s =
      (if cdrom (disks s ?n) \<or> attach_kind ?n p then attach_cd ?n p ?s else attach_hd ?n p ?s)"
    using False by (auto simp: SCSI_Attach_def Let_def)
  ultimately show ?thesis using owned_attach_cd(1) [of ?s ?n p] owned_attach_hd(1) [of ?s ?n p] n by simp
qed

lemma owned_Detach: "owned s \<Longrightarrow> owned (snd (SCSI_Detach i s))"
proof (cases "i < 0 \<or> i \<ge> ESP_MAX_DEVS")
  case True
  assume "owned s"
  then show ?thesis using True by (auto simp: SCSI_Detach_def)
next
  case False
  assume o: "owned s"
  let ?n = "nat i"
  have n: "?n < 7" using False by (simp add: ESP_MAX_DEVS_def nat_less_iff)
  note c = close_current_facts [OF o n]
  show ?thesis
    by (rule owned_close [OF o n])
      (use c False in \<open>auto simp: SCSI_Detach_def Let_def only_def dev_handles_def\<close>)
qed

lemma owned_quiet:
  assumes "owned s" "quiet s t"
  shows "owned t"
proof -
  have q: "target t = target s" "streams (hst t) = streams (hst s)" "bad_close (hst t) = bad_close (hst s)"
    "next_fh (hst t) = next_fh (hst s)" "\<forall>i. i \<noteq> target s \<longrightarrow> disks t i = disks s i \<and> discs t i = discs s i"
    "same_device (cur s) (cur t)" "tracks (disc t) = tracks (disc s)"
    using assms(2) by (auto simp: quiet_def)
  have "tracks (discs t i) = tracks (discs s i) \<and> dsk (disks t i) = dsk (disks s i) \<and> cdrom (disks t i) = cdrom (disks s i)" for i
    using q by (cases "i = target s") (auto simp: same_device_def cur_def disc_def)
  moreover from this have "dev_handles t i = dev_handles s i" for i by (simp add: dev_handles_def)
  ultimately show ?thesis using assms(1) q by (simp add: owned_def fresh_host_def)
qed

lemma owned_StartStop: "owned s \<Longrightarrow> owned (SCSI_StartStop s)"
proof -
  assume o: "owned s"
  let ?u = "upd_disc (\<lambda>cd. (CD_UpdateAudioPlayback (now_ms s) cd)\<lparr>audio_status := 0x15, audio_paused := False\<rparr>) s"
  have qu: "quiet s ?u" by (rule quiet_upd_disc) (simp_all add: quiet_intros)
  have qi: "quiet s (upd_disc (\<lambda>cd. cd\<lparr>tray_open := False, media_events := 0x02\<rparr>) ?u)"
    by (rule quiet_upd_disc [OF qu]) simp
  have ou: "owned ?u" by (rule owned_quiet [OF o qu])
  have tu: "target ?u < 7" using ownedD(3) [OF ou] .
  have ej: "owned (eject_disc ?u)" if "cdrom (cur s)"
  proof (rule owned_close [OF ou tu])
    have cu: "cdrom (disks ?u (target ?u))" using that by (simp add: cur_def)
    have d: "dev_handles ?u (target ?u) = open_fhs (tracks (disc ?u))" using cu by (simp add: dev_handles_def disc_def)
    have ok: "\<forall>f \<in> open_fhs (tracks (disc ?u)). streams (hst ?u) f \<noteq> None"
      using ownedD(4) [OF ou tu] unfolding d by blast
    show "only (target ?u) ?u (eject_disc ?u)"
      by (auto simp: eject_disc_def Let_def split_beta only_def upd_cur_def upd_disc_def)
    have h: "hst (eject_disc ?u) = close_tracks (tracks (disc ?u)) (hst ?u)"
      by (simp add: eject_disc_def Let_def split_beta CD_ClearDisc_def)
    show "streams (hst (eject_disc ?u)) =
        (\<lambda>f. if f \<in> dev_handles ?u (target ?u) then None else streams (hst ?u) f)"
      unfolding h d by (rule close_tracks_streams)
    show "next_fh (hst (eject_disc ?u)) = next_fh (hst ?u)" unfolding h by simp
    show "bad_close (hst (eject_disc ?u)) = bad_close (hst ?u)" unfolding h by (rule close_tracks_once [OF ok])
    show tr: "tracks (discs (eject_disc ?u) (target ?u)) = []"
      by (simp add: eject_disc_def Let_def split_beta CD_ClearDisc_def no_disc_state_def upd_cur_def upd_disc_def)
    have "cdrom (disks (eject_disc ?u) (target ?u))"
      using cu by (simp add: eject_disc_def Let_def split_beta upd_cur_def upd_disc_def cur_def)
    then show "dev_handles (eject_disc ?u) (target ?u) = {}" using tr by (simp add: dev_handles_def)
  qed
  have "owned (good t)" if "owned t" for t
    using that by (rule owned_quiet) (intro quiet_intros)
  then show ?thesis
    unfolding SCSI_StartStop_def Let_def using o ou ej owned_quiet [OF o qi] by simp
qed

lemma emulate_owned:
  assumes "SCSI_Emulate_Command s = Some t" "owned s"
  shows "owned t"
proof (cases "cmd_buffer s ! 0 = 0x1B")
  case False
  then show ?thesis using owned_quiet [OF assms(2)] emulate_quiet [OF assms(1)] by simp
next
  case True
  have q: "owned u \<Longrightarrow> owned (msg_complete u)" for u
    by (erule owned_quiet) (intro quiet_intros)
  show ?thesis
    using assms(1)
  proof (cases rule: emulate_cases)
    case (5 u)
    then show ?thesis using True owned_StartStop [OF assms(2)] q by (simp add: SCSI_Execute_def)
  qed (use assms(2) True q in \<open>auto intro: owned_quiet quiet_handlers quiet_attention\<close>)
qed

end
