(* ===== verification/SCSI_Facts.thy ===== *)
theory SCSI_Facts
  imports SCSI_Bounds
begin

section \<open>What the commands do\<close>

subsection \<open>Reading and writing a hard disk\<close>

lemma next_block_sel [simp]:
  "status (cur (next_block s)) = STAT_GOOD" "lba (cur (next_block s)) = lba (cur s) + 1"
  "dsk (cur (next_block s)) = dsk (cur s)" "cdrom (cur (next_block s)) = cdrom (cur s)"
  by (simp_all add: next_block_def good_def)

lemma unat_Suc_word: "unat (x :: u32) + Suc n < 4294967296 \<Longrightarrow> unat (x + 1) = Suc (unat x)"
  by (subst unat_plus_no_wrap) simp_all

lemma hd_read_loop_ok:
  assumes "dsk (cur s) = Some f" "unat (blockcounter (cur s)) = n"
    "fread_block (hst s) f (unat (lba (cur s)) * 512) (n * 512) = Some bs"
    "(loop + n) * 512 \<le> length (buffer s)" "unat (lba (cur s)) + n < 4294967296"
  shows "\<exists>t. hd_read_loop loop s = (loop + n, t) \<and> buffer t = patch (loop * 512) bs (buffer s) \<and>
           hst t = hst s \<and> cdrom (cur t) = cdrom (cur s) \<and>
           (0 < n \<or> status (cur s) = STAT_GOOD \<longrightarrow> status (cur t) = STAT_GOOD)"
  using assms
proof (induction n arbitrary: loop s bs)
  case 0
  then have "bs = []" using stream_store.rd_length by fastforce
  moreover have "blockcounter (cur s) = 0" using 0(2) by (simp add: unat_eq_0)
  ultimately show ?case by (subst hd_read_loop.simps) simp
next
  case (Suc n)
  have c: "blockcounter (cur s) \<noteq> 0" using Suc.prems(2) by auto
  obtain xs ys where xy: "fread_block (hst s) f (unat (lba (cur s)) * 512) 512 = Some xs"
    "fread_block (hst s) f (unat (lba (cur s)) * 512 + 512) (n * 512) = Some ys" "bs = xs @ ys"
    using Suc.prems(3) stream_store.rd_split [where m = 512 and n = "n * 512"] by auto
  have len: "length xs = 512" "length ys = n * 512"
    using xy stream_store.rd_length by blast+
  let ?s = "next_block (put_buffer (loop * 512) xs s)"
  have buf: "buffer ?s = patch (loop * 512) xs (buffer s)"
    using Suc.prems(4) len by (simp add: put_buffer_def)
  have step: "hd_read_loop loop s = hd_read_loop (Suc loop) ?s"
    using c xy(1) Suc.prems(1) by (subst hd_read_loop.simps) (simp add: hd_fread_def)
  have l: "unat (lba (cur ?s)) = Suc (unat (lba (cur s)))"
    using Suc.prems(5) by (simp add: unat_Suc_word)
  have "\<exists>t. hd_read_loop (Suc loop) ?s = (Suc loop + n, t) \<and> buffer t = patch (Suc loop * 512) ys (buffer ?s) \<and>
      hst t = hst ?s \<and> cdrom (cur t) = cdrom (cur ?s) \<and>
      (0 < n \<or> status (cur ?s) = STAT_GOOD \<longrightarrow> status (cur t) = STAT_GOOD)"
  proof (rule Suc.IH)
    show "unat (blockcounter (cur ?s)) = n"
      using Suc.prems(2) c by (simp add: next_block_counter unat_minus_one)
    show "fread_block (hst ?s) f (unat (lba (cur ?s)) * 512) (n * 512) = Some ys"
      using xy(2) l by (simp add: add.commute)
  qed (use Suc.prems l in \<open>simp_all\<close>)
  moreover have "patch (Suc loop * 512) ys (buffer ?s) = patch (loop * 512) bs (buffer s)"
    using Suc.prems(4) len buf patch_append [of "loop * 512" "buffer s" xs ys]
    by (simp add: xy(3) add.commute)
  ultimately show ?case using step by auto
qed

text \<open>The blocks a WRITE takes from the buffer, from block \<open>loop\<close> on.\<close>

definition write_chunks :: "nat \<Rightarrow> nat \<Rightarrow> u8 list \<Rightarrow> u8 list list" where
  "write_chunks loop n bs = map (\<lambda>i. window ((loop + i) * 512) 512 bs) [0..<n]"

lemma write_chunks_Suc:
  "write_chunks loop (Suc n) bs = window (loop * 512) 512 bs # write_chunks (Suc loop) n bs"
  by (simp add: write_chunks_def map_upt_Suc add_ac del: upt_Suc)

lemma concat_write_chunks: "concat (write_chunks loop n bs) = window (loop * 512) (n * 512) bs"
proof (induction n arbitrary: loop)
  case 0
  then show ?case by (simp add: write_chunks_def window_def)
next
  case (Suc n)
  show ?case
    using Suc [of "Suc loop"] window_append [of "loop * 512" 512 "n * 512" bs]
    by (simp add: write_chunks_Suc add.commute)
qed

lemma scsi_write_sector_ok:
  assumes "dsk (cur s) = Some f" "unat (blockcounter (cur s)) = n" "streams (hst s) f = Some st" "st_write st"
    "files (hst s) (st_path st) \<noteq> None" "(unat (lba (cur s)) + n) * 512 \<le> max_file (hst s)"
    "(loop + n) * 512 \<le> length (buffer s)" "unat (lba (cur s)) + n < 4294967296"
  shows "\<exists>t. scsi_write_sector loop s = Some t \<and>
           wr_run (fwrite_block f) (unat (lba (cur s)) * 512) (write_chunks loop n (buffer s)) (hst s) = Some (hst t) \<and>
           (0 < n \<or> status (cur s) = STAT_GOOD \<longrightarrow> status (cur t) = STAT_GOOD)"
  using assms
proof (induction n arbitrary: loop s)
  case 0
  moreover have "blockcounter (cur s) = 0" using 0(2) by (simp add: unat_eq_0)
  ultimately show ?case by (subst scsi_write_sector.simps) (simp add: write_chunks_def)
next
  case (Suc n)
  have c: "blockcounter (cur s) \<noteq> 0" using Suc.prems(2) by auto
  let ?bs = "window (loop * 512) 512 (buffer s)"
  have room: "loop * 512 + 512 \<le> length (buffer s)" using Suc.prems(7) by simp
  then have len: "length ?bs = 512" by (simp add: byte_simps)
  obtain h where h: "fwrite_block f (unat (lba (cur s)) * 512) ?bs (hst s) = Some h"
    using Suc.prems(3-6) len fwrite_block_iff [of f "unat (lba (cur s)) * 512" ?bs "hst s"] by fastforce
  note fr = fwrite_block_frame [OF h]
  let ?u = "s\<lparr>buf_limit := BLOCKSIZE, buf_size := 0, hst := h\<rparr>"
  have w: "hd_fwrite loop s = (?u, True)"
    using Suc.prems(1) room h by (simp add: hd_fwrite_def split_beta)
  have cu: "cur ?u = cur s" by simp
  let ?s = "next_block ?u"
  have step: "scsi_write_sector loop s = scsi_write_sector (Suc loop) ?s"
    using c w by (subst scsi_write_sector.simps) simp
  have l: "unat (lba (cur ?s)) = Suc (unat (lba (cur s)))"
    using Suc.prems(8) by (simp add: unat_Suc_word)
  have "\<exists>t. scsi_write_sector (Suc loop) ?s = Some t \<and>
      wr_run (fwrite_block f) (unat (lba (cur ?s)) * 512) (write_chunks (Suc loop) n (buffer ?s)) (hst ?s) = Some (hst t) \<and>
      (0 < n \<or> status (cur ?s) = STAT_GOOD \<longrightarrow> status (cur t) = STAT_GOOD)"
  proof (rule Suc.IH)
    show "unat (blockcounter (cur ?s)) = n"
      using Suc.prems(2) c by (simp add: next_block_counter unat_minus_one)
    show "(unat (lba (cur ?s)) + n) * 512 \<le> max_file (hst ?s)"
      unfolding l using Suc.prems(6) fr by simp
    show "files (hst ?s) (st_path st) \<noteq> None" using Suc.prems(5) fr(5) [of "st_path st"] by simp
  qed (use Suc.prems l fr in simp_all)
  moreover have "unat (lba (cur ?s)) * 512 = unat (lba (cur s)) * 512 + 512" using l by simp
  ultimately show ?case
    using step h len by (auto simp: write_chunks_Suc)
qed

subsection \<open>Scatter and gather\<close>

text \<open>A segment does not wrap, and the segments of a table are disjoint.\<close>

definition seg_bytes :: "u32 \<times> u32 \<Rightarrow> nat set" where
  "seg_bytes e = {unat (fst e)..<unat (fst e) + unat (snd e)}"

fun disjoint_segs :: "(u32 \<times> u32) list \<Rightarrow> bool" where
  "disjoint_segs [] \<longleftrightarrow> True"
| "disjoint_segs (e # es) \<longleftrightarrow>
     unat (fst e) + unat (snd e) \<le> 4294967296 \<and> (\<forall>x \<in> set es. seg_bytes e \<inter> seg_bytes x = {}) \<and> disjoint_segs es"

lemma unat_seg:
  "unat (p :: u32) + n \<le> 4294967296 \<Longrightarrow> i < n \<Longrightarrow> unat (p + of_nat i) = unat p + i"
  by (subst unat_plus_no_wrap) (simp_all add: unat_of_nat_small)

lemma fetch_store_disjoint:
  assumes "unat p + length bs \<le> 4294967296" "unat q + n \<le> 4294967296"
    "{unat p..<unat p + length bs} \<inter> {unat q..<unat q + n} = {}"
  shows "fetch (store p bs m) q n = fetch m q n"
proof -
  have "ram (store p bs m) (q + of_nat j) = ram m (q + of_nat j)" if "j < n" for j
  proof (rule ram_store_other, intro allI impI notI)
    fix i assume i: "i < length bs" and eq: "q + of_nat j = p + of_nat i"
    then have "unat q + j = unat p + i"
      using unat_seg [OF assms(1) i] unat_seg [OF assms(2) that] by simp
    moreover have "unat p + i \<in> {unat p..<unat p + length bs}" "unat q + j \<in> {unat q..<unat q + n}"
      using i that by simp_all
    ultimately show False using assms(3) by auto
  qed
  then show ?thesis by (simp add: fetch_def)
qed

lemma scatter_keeps:
  "disjoint_segs segs \<Longrightarrow> unat q + n \<le> 4294967296 \<Longrightarrow>
   \<forall>x \<in> set segs. {unat q..<unat q + n} \<inter> seg_bytes x = {} \<Longrightarrow>
   fetch (sg_scatter segs bs m) q n = fetch m q n"
proof (induction segs bs m rule: sg_scatter.induct)
  case (2 p l segs bs m)
  have other: "fetch (store p xs m) q n = fetch m q n" if "length xs = unat l" for xs
    using 2(3-5) that by (intro fetch_store_disjoint) (auto simp: seg_bytes_def)
  show ?case
  proof (cases "unat l \<le> length bs")
    case True
    then show ?thesis using 2 other [of "take (unat l) bs"] by simp
  next
    case False
    then show ?thesis using 2 other [of "bs @ replicate (unat l - length bs) 0"] by simp
  qed
qed simp

text \<open>What was scattered is what is found in the segments, padded with zero bytes.\<close>

lemma gather_scatter:
  "disjoint_segs segs \<Longrightarrow>
   sg_gather (sg_scatter segs bs m) segs =
     take (sg_bytes segs) bs @ replicate (sg_bytes segs - length bs) 0"
proof (induction segs bs m rule: sg_scatter.induct)
  case (2 p l segs bs m)
  have keep: "fetch (sg_scatter segs cs (store p xs m)) p (unat l) = xs" if "length xs = unat l" for cs xs
  proof -
    have "fetch (sg_scatter segs cs (store p xs m)) p (unat l) = fetch (store p xs m) p (unat l)"
      using 2(3) by (intro scatter_keeps) (simp_all add: seg_bytes_def)
    also have "\<dots> = xs" using fetch_store_same [of xs p m] that 2(3) by simp
    finally show ?thesis .
  qed
  show ?case
  proof (cases "unat l \<le> length bs")
    case True
    then show ?thesis
      using 2 keep [of "take (unat l) bs"]
      by (simp add: sg_gather_def sg_bytes_def take_add)
  next
    case False
    then show ?thesis
      using 2 keep [of "bs @ replicate (unat l - length bs) 0"]
      by (simp add: sg_gather_def sg_bytes_def replicate_add [symmetric])
  qed
qed (simp add: sg_gather_def sg_bytes_def)

end
