(* ===== verification/CD_Facts.thy ===== *)
theory CD_Facts
  imports SCSI_Bounds
begin

section \<open>What a CD-ROM drive reports and reads\<close>

subsection \<open>Quarter sectors\<close>

lemma unat_div4: "unat ((n :: u32) div 4) = unat n div 4" "unat (n mod 4) = unat n mod 4"
  by (simp_all add: unat_div unat_mod)

lemma div4_next:
  assumes "unat (n :: u32) + 1 < 4294967296"
  shows "unat n mod 4 < 3 \<Longrightarrow> (n + 1) div 4 = n div 4" "unat n mod 4 = 3 \<Longrightarrow> (n + 1) div 4 = n div 4 + 1"
    "unat (n + 1) mod 4 = (unat n + 1) mod 4"
proof -
  have n: "unat (n + 1) = unat n + 1" using assms by (subst unat_plus_no_wrap) simp_all
  show "unat (n + 1) mod 4 = (unat n + 1) mod 4" using n by simp
  show "(n + 1) div 4 = n div 4" if "unat n mod 4 < 3"
  proof (rule unsigned_word_eqI [where ?'a = nat])
    have "(unat n + 1) div 4 = unat n div 4" using that by presburger
    then show "unat ((n + 1) div 4) = unat (n div 4)" using n by (simp add: unat_div4)
  qed
  show "(n + 1) div 4 = n div 4 + 1" if "unat n mod 4 = 3"
  proof (rule unsigned_word_eqI [where ?'a = nat])
    have "(unat n + 1) div 4 = unat n div 4 + 1" using that by presburger
    moreover have "unat (n div 4 + 1) = unat (n div 4) + 1"
      using assms by (subst unat_plus_no_wrap) (simp_all add: unat_div4)
    ultimately show "unat ((n + 1) div 4) = unat (n div 4 + 1)" using n by (simp add: unat_div4)
  qed
qed

lemma window_drop: "window (length xs + a) n (xs @ ys) = window a n ys"
  by (simp add: window_def)

lemma window_skip: "length xs = k \<Longrightarrow> window (k + a) n (xs @ ys) = window a n ys"
  by (auto simp: window_def)

lemma window_take: "a + n \<le> length xs \<Longrightarrow> window a n (xs @ ys) = window a n xs"
  by (simp add: window_def)

lemma cd_read512_window:
  assumes "CD_Read2048 h cd (n div 4) k = (bs, True)" "unat n mod 4 + j \<le> 4 * k" "unat n + j < 4294967296"
  shows "cd_read512 h cd n j = (window (unat n mod 4 * 512) (j * 512) bs, None)"
  using assms
proof (induction j arbitrary: n k bs)
  case 0
  then show ?case by (simp add: window_def)
next
  case (Suc j)
  then obtain k' where k: "k = Suc k'" by (cases k) auto
  obtain b r where b: "cd_block h cd (n div 4) = Some b" "CD_Read2048 h cd (n div 4 + 1) k' = (r, True)" "bs = b @ r"
    using Suc.prems(1) k by (auto split: option.splits prod.splits)
  have len: "length b = 2048" using b(1) by (rule length_cd_block)
  have one: "CD_Read2048 h cd (n div 4) 1 = (b, True)" using b(1) by simp
  let ?m = "unat n mod 4"
  have m: "?m < 4" by simp
  have wrap: "unat n + 1 < 4294967296" using Suc.prems(3) by simp
  have n: "unat (n + 1) = unat n + 1" using wrap by (subst unat_plus_no_wrap) simp_all
  have rest: "cd_read512 h cd (n + 1) j = (window ((?m + 1) * 512) (j * 512) bs, None)"
  proof (cases "?m < 3")
    case True
    have "unat (n + 1) mod 4 = ?m + 1" using True n by presburger
    moreover have "cd_read512 h cd (n + 1) j = (window (unat (n + 1) mod 4 * 512) (j * 512) bs, None)"
      using Suc.prems div4_next(1) [OF wrap True] calculation n by (intro Suc.IH [of _ k]) simp_all
    ultimately show ?thesis by simp
  next
    case False
    then have "?m = 3" using m by linarith
    then have z: "unat (n + 1) mod 4 = 0" using n by presburger
    have "cd_read512 h cd (n + 1) j = (window (unat (n + 1) mod 4 * 512) (j * 512) r, None)"
      using Suc.prems div4_next(2) [OF wrap \<open>?m = 3\<close>] b k z n \<open>?m = 3\<close> by (intro Suc.IH [of _ k']) simp_all
    moreover have "window ((?m + 1) * 512) (j * 512) bs = window 0 (j * 512) r"
      using window_drop [of b 0 "j * 512" r] len \<open>?m = 3\<close> b(3) by simp
    ultimately show ?thesis using z by simp
  qed
  have "window (?m * 512) 512 b = window (?m * 512) 512 bs"
    using m len window_take [of "?m * 512" 512 b r] b(3) by simp
  moreover have "window (?m * 512) (512 + j * 512) bs = window (?m * 512) 512 bs @ window ((?m + 1) * 512) (j * 512) bs"
    using window_append [of "?m * 512" 512 "j * 512" bs] by (simp add: add.commute)
  ultimately show ?case
    using one rest by (simp add: unat_div4)
qed

subsection \<open>Raw sectors and user data\<close>

lemma cd_fread_inner:
  assumes "cd_fread h f pos n = Some raw" "cd_fread h f (pos + of_nat off) m = Some bs" "off + m \<le> n" "off < 4096"
  shows "bs = window off m raw"
proof -
  have p: "0 \<le> sint pos" "fread_block h f (unat pos) n = Some raw"
    using assms(1) by (simp_all add: cd_fread_def split: if_splits)
  have lt: "sint pos < 9223372036854775808" using sint_lt [of pos] by simp
  have "take_bit 64 (sint pos) = sint pos"
    by (rule take_bit_int_eq_self [OF p(1)]) (rule less_le_trans [OF lt], simp)
  then have "uint pos = sint pos" using uint_sint [of pos] by simp
  then have "uint pos < 9223372036854775808" using lt by linarith
  then have "unat pos < 9223372036854775808" using unat_eq_nat_uint [of pos] by linarith
  then have "unat (pos + of_nat off) = unat pos + off"
    using assms(4) by (subst unat_plus_no_wrap) (simp_all add: unat_of_nat take_bit_nat_eq_self)
  then have "fread_block h f (unat pos + off) m = Some bs"
    using assms(2) by (simp add: cd_fread_def split: if_splits)
  then show ?thesis
    using p(2) assms(3)
    by (auto simp: fread_block_def window_def take_drop min_def add_ac split: option.splits if_splits)
qed

lemma user_data_cooked:
  assumes t: "CD_FindTrackForLBA cd n = Some t" and ty: "track_type t \<noteq> CD_MODE_AUDIO"
    and raw: "CD_ReadRawSector h cd n = (raw, True)" and b: "cd_block h cd n = Some bs"
  shows "user_data (Some t) raw = bs"
proof -
  obtain f where f: "track_fh t = Some f" using b t by (auto simp: cd_block_def split: option.splits)
  have c: "cd_fread h f (track_file_pos t n + user_offset (track_type t)) 2048 = Some bs"
    using b t f by (simp add: cd_block_def)
  show ?thesis
  proof (cases "track_type t = CD_MODE_MODE1_2048")
    case True
    have "length (LBA_to_MSF_BCD n False) = 3" by (rule length_msf)
    moreover have "raw = [0] @ replicate 10 0xFF @ [0] @ LBA_to_MSF_BCD n False @ [1] @ bs @ replicate 288 0"
      using raw t f c True by (auto simp: CD_ReadRawSector_def user_offset_def split: option.splits)
    ultimately show ?thesis
      using length_cd_block [OF b] True by (simp add: user_data_def window_def)
  next
    case False
    then have r: "cd_fread h f (track_file_pos t n) 2352 = Some raw"
      using raw t f by (auto simp: CD_ReadRawSector_def split: option.splits)
    show ?thesis
      using cd_fread_inner [OF r, of 16 2048 bs] cd_fread_inner [OF r, of 24 2048 bs] c ty False
      by (cases "track_type t") (simp_all add: user_data_def user_offset_def)
  qed
qed

subsection \<open>The table of contents\<close>

lemma window_concat_map:
  assumes "\<And>x. x \<in> set xs \<Longrightarrow> length (f x) = k" "i < length xs"
  shows "window (k * i) k (concat (map f xs) @ ys) = f (xs ! i)"
  using assms
proof (induction xs arbitrary: i)
  case (Cons x xs)
  show ?case
  proof (cases i)
    case 0
    then show ?thesis using Cons.prems(1) by (simp add: window_def)
  next
    case (Suc j)
    have "length (f x) = k" using Cons.prems(1) by simp
    then have "window (k * i) k (f x @ concat (map f xs) @ ys) = window (k * j) k (concat (map f xs) @ ys)"
      using window_drop [of "f x" "k * j" k] Suc by simp
    then show ?thesis using Cons.IH [of j] Cons.prems Suc by simp
  qed
qed simp

lemma of_be16_nat: "n < 65536 \<Longrightarrow> be16 (of_nat n) = [a, b] \<Longrightarrow> unat (of_be16 a b) = n"
proof -
  assume n: "n < 65536" and "be16 (of_nat n) = [a, b]"
  then have "of_be16 a b = ucast (of_nat n :: u16)" by (auto simp: be16_def of_be16_be16)
  then show ?thesis using n by (simp add: unsigned_ucast_eq unat_of_nat take_bit_nat_eq_self)
qed

text \<open>
  What a driver does with the answer: the length field, the first and last track, then
  one entry of eight bytes per track and one for the lead-out.
\<close>

definition toc_field :: "u8 list \<Rightarrow> nat" where
  "toc_field r = unat (of_be16 (r ! 0) (r ! 1))"

lemma toc_tracks_shape:
  assumes "st \<le> 1" "tracks cd \<noteq> []" "length (tracks cd) \<le> 100"
  shows "toc_field (toc_tracks cd msf st) + 2 = length (toc_tracks cd msf st)"
    and "length (toc_tracks cd msf st) = 12 + 8 * track_count cd"
    and "i < track_count cd \<Longrightarrow> window (4 + 8 * i) 8 (toc_tracks cd msf st) =
      toc_entry msf (control (tracks cd ! i)) (word_of_int (track_num (tracks cd ! i))) (data_start_lba (tracks cd ! i))"
    and "window (4 + 8 * track_count cd) 8 (toc_tracks cd msf st) = toc_entry msf 0x14 0xAA (leadout_lba cd)"
proof -
  let ?e = "\<lambda>t. toc_entry msf (control t) (word_of_int (track_num t)) (data_start_lba t)"
  let ?l = "toc_entry msf 0x14 0xAA (leadout_lba cd)"
  have st: "unat st \<le> 1" "st \<noteq> 0xAA" using assms(1) by (auto simp: word_le_nat_alt)
  have z: "min (unat st - 1) (track_count cd - 1) = 0" using st by simp
  let ?n = "2 + (track_count cd + 1) * 8"
  have r: "toc_tracks cd msf st =
      be16 (of_nat ?n) @ [1, of_nat (track_count cd)] @ concat (map ?e (tracks cd)) @ ?l"
    using st z by (simp add: toc_tracks_def Let_def track_count_def)
  have c: "length (concat (map ?e (tracks cd))) = 8 * track_count cd"
    unfolding track_count_def by (rule length_concat_map) (simp add: answer_length)
  show len: "length (toc_tracks cd msf st) = 12 + 8 * track_count cd"
    unfolding r using c by (simp add: answer_length)
  obtain a b where ab: "be16 (of_nat ?n) = [a, b]" by (simp add: be16_def)
  have "?n < 65536" using assms(3) by (simp add: track_count_def)
  then have "unat (of_be16 a b) = ?n" using ab by (rule of_be16_nat)
  then show "toc_field (toc_tracks cd msf st) + 2 = length (toc_tracks cd msf st)"
    unfolding len toc_field_def unfolding r ab by simp
  define hdr where "hdr = [a, b] @ [1, of_nat (track_count cd)]"
  have h: "length hdr = 4" by (simp add: hdr_def)
  have r4: "toc_tracks cd msf st = hdr @ concat (map ?e (tracks cd)) @ ?l"
    unfolding r ab hdr_def by simp
  show "window (4 + 8 * i) 8 (toc_tracks cd msf st) = ?e (tracks cd ! i)" if "i < track_count cd"
    unfolding r4 window_skip [OF h] using that
    by (intro window_concat_map) (simp_all add: track_count_def answer_length)
  show "window (4 + 8 * track_count cd) 8 (toc_tracks cd msf st) = ?l"
    unfolding r4 window_skip [OF h] using window_skip [OF c, of 0 8 ?l]
    by (simp add: window_def answer_length)
qed

subsection \<open>Play ranges\<close>

lemma start_audio_playing:
  assumes "snd r > 0" "unat (fst r) + unat (snd r) < 4294967296"
  shows "audio_status (start_audio now r cd) = 0x11" "\<not> audio_paused (start_audio now r cd)"
    "audio_current_lba (start_audio now r cd) < audio_end_lba (start_audio now r cd)"
proof -
  have "unat (fst r + snd r) = unat (fst r) + unat (snd r)" using assms(2) by (simp add: unat_plus_no_wrap)
  then have "fst r < fst r + snd r" using assms(1) by (simp add: word_less_nat_alt)
  then show "audio_current_lba (start_audio now r cd) < audio_end_lba (start_audio now r cd)"
    using assms(1) by (simp add: start_audio_def)
qed (use assms(1) in \<open>simp_all add: start_audio_def\<close>)

text \<open>Pausing keeps the position; resuming at once changes nothing of the play range's end.\<close>

lemma pause_then_resume:
  "audio_current_lba (resume_audio later (pause_audio now cd)) = audio_current_lba (CD_UpdateAudioPlayback now cd)"
  "audio_start_lba (resume_audio later (pause_audio now cd)) = audio_current_lba (CD_UpdateAudioPlayback now cd)"
  "audio_end_lba (resume_audio later (pause_audio now cd)) = audio_end_lba cd"
  "audio_status (resume_audio later (pause_audio now cd)) = 0x11"
  by (simp_all add: resume_audio_def pause_audio_def)

text \<open>A paused drive does not move.\<close>

lemma paused_stands: "CD_UpdateAudioPlayback t (pause_audio now cd) = pause_audio now cd"
  by (simp add: CD_UpdateAudioPlayback_def pause_audio_def)

text \<open>Where the head is \<open>d\<close> milliseconds after playback of \<open>n\<close> blocks from \<open>l\<close> began.\<close>

lemma unat_ucast_u32: "unat (x :: u64) < 4294967296 \<Longrightarrow> unat (ucast x :: u32) = unat x"
  by (simp add: unsigned_ucast_eq take_bit_nat_eq_self)

lemma elapsed_blocks:
  assumes "unat now + d < 18446744073709551616" "d < 4294967296"
  shows "unat (ucast ((now + of_nat d - now) * 75 div 1000 :: u64) :: u32) = d * 75 div 1000"
proof -
  have d: "unat (of_nat d :: u64) = d" using assms(2) by (simp add: unat_of_nat take_bit_nat_eq_self)
  have "unat (of_nat d * 75 :: u64) = d * 75"
    using assms(2) by (simp add: unat_word_ariths d)
  then have "unat (of_nat d * 75 div 1000 :: u64) = d * 75 div 1000" by (simp add: unat_div)
  moreover have "d * 75 div 1000 < 4294967296" using assms(2) by simp
  ultimately show ?thesis by (simp add: unat_ucast_u32)
qed

lemma audio_position:
  assumes n: "0 < unat n" "unat l + unat n < 4294967296" and t: "unat now + d < 18446744073709551616" "d < 4294967296"
    and w: "unat l + d * 75 div 1000 < 4294967296"
  shows "unat (audio_current_lba (CD_UpdateAudioPlayback (now + of_nat d) (start_audio now (l, n) cd))) =
           min (unat l + d * 75 div 1000) (unat l + unat n)"
    and "audio_status (CD_UpdateAudioPlayback (now + of_nat d) (start_audio now (l, n) cd)) =
           (if d * 75 div 1000 < unat n then 0x11 else 0x15)"
proof -
  let ?p = "start_audio now (l, n) cd"
  let ?e = "ucast ((if now < now + of_nat d then now + of_nat d - now else 0) * 75 div 1000 :: u64) :: u32"
  have "0 < n" using n(1) by (simp add: word_gt_0 unat_gt_0)
  then have p: "audio_status ?p = 0x11" "\<not> audio_paused ?p" "audio_start_lba ?p = l" "audio_end_lba ?p = l + n"
    "audio_start_time_ms ?p = now" by (simp_all add: start_audio_def)
  have u: "unat (now + of_nat d) = unat now + d"
    using t by (subst unat_plus_no_wrap) (simp_all add: unat_of_nat take_bit_nat_eq_self)
  have e: "unat ?e = d * 75 div 1000"
  proof (cases "d = 0")
    case False
    then have "now < now + of_nat d" using u by (simp add: word_less_nat_alt)
    then show ?thesis using elapsed_blocks [OF t] by simp
  qed simp
  have le: "unat (l + ?e) = unat l + d * 75 div 1000" using w e by (simp add: unat_plus_no_wrap)
  have ln: "unat (l + n) = unat l + unat n" using n(2) by (simp add: unat_plus_no_wrap)
  have c: "l + n \<le> l + ?e \<longleftrightarrow> unat n \<le> d * 75 div 1000" unfolding word_le_nat_alt le ln by simp
  have up: "CD_UpdateAudioPlayback (now + of_nat d) ?p =
      (if unat n \<le> d * 75 div 1000 then ?p\<lparr>audio_current_lba := l + n, audio_status := 0x15\<rparr>
       else ?p\<lparr>audio_current_lba := l + ?e\<rparr>)"
    by (simp only: CD_UpdateAudioPlayback_def Let_def p c if_True simp_thms)
  show "unat (audio_current_lba (CD_UpdateAudioPlayback (now + of_nat d) ?p)) =
      min (unat l + d * 75 div 1000) (unat l + unat n)"
    unfolding up using le ln by simp
  show "audio_status (CD_UpdateAudioPlayback (now + of_nat d) ?p) = (if d * 75 div 1000 < unat n then 0x11 else 0x15)"
    unfolding up using p(1) by simp
qed

end
