(* ===== verification/SCSI_Machine.thy ===== *)
theory SCSI_Machine
  imports SCSI_Ownership SCSI_Facts CD_Facts
begin

section \<open>Whole commands\<close>

text \<open>
  Facts about a command as the SCSI Manager sees it: its data phase, the order of its
  status reports, and the machine whose steps are the entry points of \<open>scsi_dummy.cpp\<close>.
\<close>

subsection \<open>The data phase\<close>

lemma length_sg_gather: "length (sg_gather m segs) = sg_bytes segs"
  by (induction segs) (auto simp: sg_gather_def sg_bytes_def)

lemma transfer_bytes_cong:
  assumes "cmd_buffer t = cmd_buffer s" "cur t = cur s"
  shows "transfer_bytes t = transfer_bytes s"
  unfolding transfer_bytes_def blocksize_cong [OF assms(2)] assms(1) ..

lemma transfer_ok_cong:
  "transfer_ok s \<Longrightarrow> cmd_buffer t = cmd_buffer s \<Longrightarrow> cur t = cur s \<Longrightarrow> length (buffer s) \<le> length (buffer t) \<Longrightarrow> transfer_ok t"
  using transfer_bytes_cong [of t s] by (auto simp: transfer_ok_def)

definition data_out :: "bool \<Rightarrow> (u32 \<times> u32) list \<Rightarrow> mac \<Rightarrow> scsi \<Rightarrow> scsi" where
  "data_out rd segs m s =
     (let s2 = s\<lparr>buf_size := 0, buf_limit := 0\<rparr> in if rd then s2 else put_buffer 0 (sg_gather m segs) s2)"

lemma send_cmd_cases:
  assumes "scsi_send_cmd n rd segs m s = Some (ok, st, m', t)"
  obtains "\<not> ok" "st = None" "m' = m" "t = snd (try_buffer n s)" "\<not> fst (try_buffer n s)"
    | u where "ok" "fst (try_buffer n s)" "SCSI_Emulate_Command (data_out rd segs m (snd (try_buffer n s))) = Some u"
        "st = Some (ucast (status (cur u)))"
        "t = (if rd then snd (get_buffer 0 (min (unat (buf_size u)) (sg_bytes segs)) u) else u)"
        "m' = (if rd then sg_scatter segs (fst (get_buffer 0 (min (unat (buf_size u)) (sg_bytes segs)) u)) m else m)"
  using assms
  by (auto simp: scsi_send_cmd_def data_out_def Let_def split_beta split: if_splits option.splits)

lemma quiet_data_out: "quiet s (data_out rd segs m (snd (try_buffer n s)))"
  unfolding data_out_def Let_def by (intro quiet_intros)

lemma send_cmd_owned:
  assumes "scsi_send_cmd n rd segs m s = Some (ok, st, m', t)" "owned s"
  shows "owned t"
  using assms(1)
proof (cases rule: send_cmd_cases)
  case 1
  have "quiet s t" unfolding 1 by (intro quiet_intros)
  then show ?thesis using assms(2) owned_quiet by blast
next
  case (2 u)
  have "owned u" using emulate_owned [OF 2(3)] owned_quiet [OF assms(2) quiet_data_out] by blast
  moreover have "quiet u t" unfolding 2 by (intro quiet_intros)
  ultimately show ?thesis using owned_quiet by blast
qed

lemma send_cmd_fits:
  assumes send: "scsi_send_cmd n rd segs m s = Some (ok, st, m', t)" and f: "fits s" and o: "owned s"
    and n: "unat n = sg_bytes segs" "unat n < 2147483648" and ok: "transfer_ok s"
  shows "fits t"
  using send
proof (cases rule: send_cmd_cases)
  case 1
  then show ?thesis using fits_try [OF f] by simp
next
  case (2 u)
  let ?s = "snd (try_buffer n s)"
  have t: "try_buffer n s = (True, ?s)" using 2(2) by (metis prod.collapse)
  note g = try_buffer_grant [OF f t n(2)] and r = try_buffer_room [OF t n(2)]
  have len: "length (buffer s) < 2147483648" using f by (simp add: fits_def)
  let ?d = "data_out rd segs m ?s"
  have c: "cur ?d = cur s" "cmd_buffer ?d = cmd_buffer s" "buffer ?d = buffer ?s \<or> length (buffer ?d) = length (buffer ?s)"
    by (auto simp: data_out_def Let_def)
  have z: "fits (?s\<lparr>buf_size := 0, buf_limit := 0\<rparr>)" using g(1) by (simp add: fits_def)
  have d: "fits ?d"
    unfolding data_out_def Let_def using z g(2) n
    by (auto intro!: fits_intros fits_put simp: length_sg_gather)
  have ok': "transfer_ok ?d"
    by (rule transfer_ok_cong [OF ok c(2) c(1)]) (use c(3) r(2) len in auto)
  have tr: "length (tracks (disc ?d)) \<le> 100"
    using ownedD(7) [OF owned_quiet [OF o quiet_data_out], of "target ?d"]
      ownedD(3) [OF owned_quiet [OF o quiet_data_out]] by (simp add: disc_def)
  have u: "fits u" by (rule emulate_fits [OF 2(3) d ok' tr])
  then have "unat (buf_size u) \<le> length (buffer u)" by (simp add: fits_def)
  then show ?thesis unfolding 2 using u by simp
qed

subsection \<open>Status reports\<close>

lemma emulate_attention:
  assumes "cmd_buffer s ! 0 \<notin> {0x12, 0x03}" "lun (cur s) = 0" "unit_attention (cur s)"
  shows "SCSI_Emulate_Command s = Some (attention s)"
  using assms by (auto simp: SCSI_Emulate_Command_def Let_def)

lemma attention_sel [simp]:
  "unit_attention (cur (attention s)) = False" "status (cur (attention s)) = STAT_CHECK_COND"
  "lun (cur (attention s)) = lun (cur s)" "cmd_buffer (attention s) = cmd_buffer s" "buffer (attention s) = buffer s"
  "sense_key (sense (cur (attention s))) = SK_UNIT_ATN"
  "sense_code (sense (cur (attention s))) = SC_NOT_READY_TO_READY_TRANSITION"
  "hst (attention s) = hst s"
  by (simp_all add: attention_def check_key_def)

lemma emulate_RequestSense:
  assumes "cmd_buffer s ! 0 = 0x03"
  shows "SCSI_Emulate_Command s = Some (msg_complete (SCSI_RequestSense s))"
  using assms by (simp add: SCSI_Emulate_Command_def Let_def)

lemma RequestSense_buffer:
  assumes "22 \<le> length (buffer s)" "n = sense_length (cmd_buffer s)"
  shows "take n (buffer (SCSI_RequestSense s)) = take n (sense_bytes (sense (cur s)))"
    and "unat (buf_size (SCSI_RequestSense s)) = n"
    and "sense_key (sense (cur (SCSI_RequestSense s))) = 0" "sense_code (sense (cur (SCSI_RequestSense s))) = 0"
    and "status (cur (SCSI_RequestSense s)) = STAT_GOOD"
proof -
  have n: "n \<le> 22" using assms(2) sense_length_le by simp
  let ?bs = "take n (sense_bytes (sense (cur s)))"
  have len: "length ?bs = n" using n by (simp add: answer_length)
  have b: "buffer (SCSI_RequestSense s) = patch 0 ?bs (buffer s)"
    unfolding SCSI_RequestSense_def Let_def assms(2) [symmetric] using assms(1) n
    by (simp add: put_buffer_def answer_length set_xfer_def)
  show "take n (buffer (SCSI_RequestSense s)) = ?bs"
    unfolding b using take_patch_zero [of ?bs "buffer s"] len by simp
  show "unat (buf_size (SCSI_RequestSense s)) = n"
    unfolding SCSI_RequestSense_def Let_def assms(2) [symmetric] using n by (simp add: unat_of_nat_small)
qed (simp_all add: SCSI_RequestSense_def Let_def scsi_codes)

text \<open>An answer is the response, cut at the allocation length.\<close>

lemma reply_answer:
  assumes "length (buffer s) < 2147483648" "length resp \<le> length (buffer s)"
  shows "take (min (length resp) alloc) (buffer (reply alloc resp s)) = take alloc resp"
    and "unat (buf_size (reply alloc resp s)) = min (length resp) alloc"
    and "status (cur (reply alloc resp s)) = STAT_GOOD"
proof -
  let ?n = "min (length resp) alloc"
  have "unat (of_nat ?n :: u32) = ?n" using assms by (simp add: unat_of_nat_small)
  then have t: "try_buffer (of_nat ?n) s = (True, s)"
    using assms by (intro try_buffer_fits) simp_all
  have tk: "take ?n resp = take alloc resp" by (simp add: min_def)
  have len: "length (take alloc resp) = ?n" by simp
  have le: "0 + length (take ?n resp) \<le> length (buffer s)" using assms(2) by simp
  have p: "buffer (put_buffer 0 (take ?n resp) s) = patch 0 (take ?n resp) (buffer s)"
    unfolding put_buffer_def if_P [OF le] by simp
  have r: "reply alloc resp s = good ((set_xfer (of_nat ?n) (put_buffer 0 (take ?n resp) s))\<lparr>buf_disk := False\<rparr>)"
    unfolding reply_def Let_def t by simp
  show "take ?n (buffer (reply alloc resp s)) = take alloc resp"
  proof -
    have "buffer (reply alloc resp s) = patch 0 (take alloc resp) (buffer s)"
      unfolding r good_def using p unfolding tk by (simp add: set_xfer_def)
    then show ?thesis using take_patch_zero [of "take alloc resp" "buffer s"] unfolding len by simp
  qed
  show "unat (buf_size (reply alloc resp s)) = ?n"
    unfolding r good_def using \<open>unat (of_nat ?n :: u32) = ?n\<close> by simp
  show "status (cur (reply alloc resp s)) = STAT_GOOD" unfolding r by (simp add: good_def)
qed

subsection \<open>The last block of a disk\<close>

lemma block_bounds: "n div 512 * 512 \<le> n" "n < (n div 512 + 1) * 512" for n :: nat
  using dividend_less_times_div [of 512 n] by simp_all

lemma ReadCapacity_last:
  assumes "\<not> cdrom (cur s)" "dsk (cur s) = Some f" "unat (dev_size (cur s)) = stream_size (hst s) f"
    "512 \<le> stream_size (hst s) f" "8 \<le> length (buffer s)"
  defines "l \<equiv> dev_size (cur s) div 512 - 1"
  shows "take 8 (buffer (SCSI_ReadCapacity s)) = be32 l @ be32 512"
    and "fread_block (hst s) f (unat l * 512) 512 \<noteq> None"
    and "l < n \<Longrightarrow> fread_block (hst s) f (unat n * 512) 512 = None"
proof -
  let ?q = "stream_size (hst s) f div 512"
  have bs: "blocksize s = 512" using assms(1) by (simp add: blocksize_def BLOCKSIZE_def)
  have d: "unat (dev_size (cur s) div 512) = ?q" using assms(3) by (simp add: unat_div)
  have q: "0 < ?q" using assms(4) by (simp add: div_greater_zero_iff)
  then have pos: "dev_size (cur s) div 512 > 0" using d by (metis unat_gt_0 word_gt_0)
  have l: "unat l = ?q - 1" unfolding l_def using d pos by (simp add: unat_minus_one word_gt_0)
  obtain c where c: "stream_data (hst s) f = Some c" "length c = stream_size (hst s) f"
    using assms(4) by (auto simp: stream_size_def split: option.splits)
  show "take 8 (buffer (SCSI_ReadCapacity s)) = be32 l @ be32 512"
    using assms(1,5) pos bs take_patch_zero [of "be32 l @ be32 512" "buffer s"]
    by (simp add: SCSI_ReadCapacity_def total_sectors_def Let_def good_def put_buffer_def set_xfer_def l_def)
  have "(?q - 1) * 512 + 512 \<le> length c"
    using q c(2) block_bounds(1) [of "stream_size (hst s) f"] by (cases ?q) simp_all
  then show "fread_block (hst s) f (unat l * 512) 512 \<noteq> None"
    using c(1) l by (simp add: fread_block_def)
  show "fread_block (hst s) f (unat n * 512) 512 = None" if "l < n"
  proof -
    have "?q \<le> unat n" using that l q by (simp add: word_less_nat_alt)
    then have "(?q + 1) * 512 \<le> (unat n + 1) * 512" by simp
    then have "length c < (unat n + 1) * 512"
      unfolding c(2) using block_bounds(2) by (rule less_le_trans [rotated])
    then have "length c < unat n * 512 + 512" by simp
    then show ?thesis using c(1) by (simp add: fread_block_def)
  qed
qed

subsection \<open>A read that leaves the buffer\<close>

lemma overrun_put: "overrun s \<Longrightarrow> overrun (put_buffer off bs s)"
  by (simp add: put_buffer_def)

lemma next_block_overrun [simp]: "overrun (next_block s) = overrun s"
  by (simp add: next_block_def good_def)

lemma hd_read_loop_overrun: "overrun s \<Longrightarrow> overrun (snd (hd_read_loop loop s))"
proof (induction loop s rule: hd_read_loop.induct)
  case (1 loop s)
  show ?case
    by (subst hd_read_loop.simps) (use 1 in \<open>auto simp: overrun_put bad_lba_def split: option.split\<close>)
qed

lemma hd_read_loop_overruns:
  assumes "dsk (cur s) = Some f" "j < unat (blockcounter (cur s))"
    "fread_block (hst s) f (unat (lba (cur s)) * 512) (Suc j * 512) = Some bs"
    "length (buffer s) < (loop + Suc j) * 512" "unat (lba (cur s)) + Suc j < 4294967296"
  shows "overrun (snd (hd_read_loop loop s))"
  using assms
proof (induction j arbitrary: loop s bs)
  case 0
  have c: "blockcounter (cur s) \<noteq> 0" using 0(2) by auto
  have r: "hd_fread s = Some bs" using 0 by (simp add: hd_fread_def)
  then have "overrun (put_buffer (loop * 512) bs s)"
    using 0 length_hd_fread [OF r] by (simp add: put_buffer_def)
  then show ?case
    using c r by (subst hd_read_loop.simps) (simp add: hd_read_loop_overrun)
next
  case (Suc j)
  have c: "blockcounter (cur s) \<noteq> 0" using Suc.prems(2) by auto
  obtain xs ys where xy: "fread_block (hst s) f (unat (lba (cur s)) * 512) 512 = Some xs"
    "fread_block (hst s) f (unat (lba (cur s)) * 512 + 512) (Suc j * 512) = Some ys"
    using Suc.prems(3) stream_store.rd_split [where m = 512 and n = "Suc j * 512"] by auto
  have r: "hd_fread s = Some xs" using xy Suc.prems(1) by (simp add: hd_fread_def)
  let ?s = "next_block (put_buffer (loop * 512) xs s)"
  have l: "unat (lba (cur ?s)) = Suc (unat (lba (cur s)))"
    using Suc.prems(5) by (simp add: unat_Suc_word [of _ j])
  have "overrun (snd (hd_read_loop (Suc loop) ?s))"
  proof (rule Suc.IH)
    show "j < unat (blockcounter (cur ?s))"
      using Suc.prems(2) unat_next [OF c] by (simp add: next_block_counter)
    show "fread_block (hst ?s) f (unat (lba (cur ?s)) * 512) (Suc j * 512) = Some ys"
      using xy(2) l by (simp add: add.commute)
  qed (use Suc.prems l in simp_all)
  then show ?case using c r by (subst hd_read_loop.simps) simp
qed

subsection \<open>The machine\<close>

inductive emu_step :: "scsi \<Rightarrow> scsi \<Rightarrow> bool" where
  attach: "emu_step s (snd (SCSI_Attach i p s))"
| detach: "emu_step s (snd (SCSI_Detach i s))"
| command: "emu_step s (scsi_set_cmd n c s)"
| address: "emu_step s (snd (scsi_set_target i l s))"
| send: "scsi_send_cmd n rd segs m s = Some (ok, st, m', t) \<Longrightarrow> emu_step s t"
| tick: "emu_step s (s\<lparr>now_ms := x\<rparr>)"

inductive_cases emu_stepE: "emu_step s t"

inductive emu_run :: "scsi \<Rightarrow> scsi \<Rightarrow> bool" for s where
  start: "emu_run s s"
| step: "emu_run s t \<Longrightarrow> emu_step t u \<Longrightarrow> emu_run s u"

lemma owned_target: "owned s \<Longrightarrow> i < 7 \<Longrightarrow> owned (s\<lparr>target := i\<rparr>)"
proof -
  have "dev_handles (s\<lparr>target := i\<rparr>) j = dev_handles s j" for j by (simp add: dev_handles_def)
  then show "owned s \<Longrightarrow> i < 7 \<Longrightarrow> owned (s\<lparr>target := i\<rparr>)" by (simp add: owned_def)
qed

lemma emu_step_owned:
  assumes "emu_step s t" "owned s"
  shows "owned t"
  using assms(1)
proof (cases rule: emu_step.cases)
  case (address i l)
  then show ?thesis
    using assms(2) by (auto simp: scsi_set_target_def ESP_MAX_DEVS_def nat_less_iff intro: owned_target)
next
  case (send n rd segs m ok st m')
  then show ?thesis using send_cmd_owned assms(2) by blast
qed (use assms(2) in \<open>auto simp: owned_Attach owned_Detach scsi_set_cmd_def elim!: owned_cong\<close>)

lemma emu_run_owned: "emu_run s t \<Longrightarrow> owned s \<Longrightarrow> owned t"
  by (induction rule: emu_run.induct) (auto intro: emu_step_owned)

text \<open>The state after start-up is such a state.\<close>

definition blank :: "scsi \<Rightarrow> bool" where
  "blank s \<longleftrightarrow> (\<forall>i. tracks (discs s i) = [] \<and> dsk (disks s i) = None \<and> \<not> cdrom (disks s i))"

lemma owned_blank: "blank s \<Longrightarrow> fresh_host (hst s) \<Longrightarrow> \<not> bad_close (hst s) \<Longrightarrow> target s < 7 \<Longrightarrow> owned s"
  by (simp add: blank_def owned_def dev_handles_def)

lemma init_clear_blank:
  assumes "\<forall>i. tracks (discs s i) = []"
  shows "blank (init_clear s) \<and> hst (init_clear s) = hst s \<and> target (init_clear s) = target s"
proof -
  let ?f = "\<lambda>i s. upd_dev i (\<lambda>d. d\<lparr>sector_size := BLOCKSIZE\<rparr>) (set_disc i (CD_ClearDisc (discs s i) (hst s)) s)"
  have one: "blank (?f i t) \<and> hst (?f i t) = hst t \<and> target (?f i t) = target t" if "blank t" for i t
    using that by (auto simp: blank_def CD_ClearDisc_def no_disc_state_def)
  have "blank t \<Longrightarrow> blank (fold ?f is t) \<and> hst (fold ?f is t) = hst t \<and> target (fold ?f is t) = target t" for "is" t
  proof (induction "is" arbitrary: t)
    case (Cons i "is")
    then show ?case using one [OF Cons.prems, of i] by simp
  qed simp
  then show ?thesis
    using assms by (simp add: init_clear_def blank_def zero_dev_def)
qed

lemma owned_init_attach: "owned s \<Longrightarrow> owned (init_attach s)"
proof -
  let ?f = "\<lambda>i s. case scsi_prefs s i of None \<Rightarrow> s | Some p \<Rightarrow> if p = [] then s else snd (SCSI_Attach (int i) p s)"
  have "owned t \<Longrightarrow> owned (fold ?f is t)" for "is" t
    by (induction "is" arbitrary: t) (auto simp: owned_Attach split: option.split)
  then show "owned s \<Longrightarrow> owned (init_attach s)" by (simp add: init_attach_def)
qed

lemma SCSIInit_owned:
  assumes "\<forall>i. tracks (discs s i) = []" "fresh_host (hst s)" "\<not> bad_close (hst s)" "target s < 7"
  shows "owned (SCSIInit n s)"
proof -
  have "owned (init_clear (s\<lparr>buffer := replicate n 0\<rparr>))"
    using init_clear_blank [of "s\<lparr>buffer := replicate n 0\<rparr>"] assms by (intro owned_blank) simp_all
  then have "owned (init_attach (init_clear (s\<lparr>buffer := replicate n 0\<rparr>)))" by (rule owned_init_attach)
  then show ?thesis
    unfolding SCSIInit_def Let_def by (rule owned_cong) simp_all
qed

end
