(* ===== verification/SCSI_Disk.thy ===== *)
theory SCSI_Disk
  imports SCSI_Machine
begin

section \<open>Commands to a hard disk and what a drive reports\<close>

text \<open>
  The dispatcher composed with READ, WRITE and REQUEST SENSE: what the guest gets when it
  reads back what it wrote, which writes never end, which reads leave the buffer, and the
  sense data the guest sees after an error.
\<close>

definition command :: "u8 list \<Rightarrow> scsi \<Rightarrow> scsi option" where
  "command c s = SCSI_Emulate_Command (s\<lparr>cmd_buffer := c\<rparr>)"

text \<open>A target that is asked: no attention condition pending, logical unit 0.\<close>

definition ready :: "scsi \<Rightarrow> bool" where
  "ready s \<longleftrightarrow> lun (cur s) = 0 \<and> \<not> unit_attention (cur s)"

lemma cur_cmd [simp]: "cur (s\<lparr>cmd_buffer := c\<rparr>) = cur s" "disc (s\<lparr>cmd_buffer := c\<rparr>) = disc s"
  by (rule cur_cong, simp_all, rule disc_cong, simp_all)

definition read_op :: "u8 \<Rightarrow> bool" where "read_op b \<longleftrightarrow> b \<in> {0x08, 0x28, 0xA8}"
definition write_op :: "u8 \<Rightarrow> bool" where "write_op b \<longleftrightarrow> b \<in> {0x0A, 0x2A, 0xAA}"

lemma command_read:
  "read_op (c ! 0) \<Longrightarrow> ready s \<Longrightarrow> command c s = Some (msg_complete (SCSI_ReadSector (s\<lparr>cmd_buffer := c\<rparr>)))"
  by (auto simp: command_def ready_def read_op_def SCSI_Emulate_Command_def SCSI_Execute_def Let_def)

lemma command_write:
  "write_op (c ! 0) \<Longrightarrow> ready s \<Longrightarrow> command c s = map_option msg_complete (SCSI_WriteSector (s\<lparr>cmd_buffer := c\<rparr>))"
  by (auto simp: command_def ready_def write_op_def SCSI_Emulate_Command_def SCSI_Execute_def Let_def)

lemma msg_complete_sel [simp]:
  "buffer (msg_complete s) = buffer s" "hst (msg_complete s) = hst s" "buf_size (msg_complete s) = buf_size s"
  "status (cur (msg_complete s)) = status (cur s)" "sense (cur (msg_complete s)) = sense (cur s)"
  "unit_attention (cur (msg_complete s)) = unit_attention (cur s)" "lun (cur (msg_complete s)) = lun (cur s)"
  "dsk (cur (msg_complete s)) = dsk (cur s)" "cdrom (cur (msg_complete s)) = cdrom (cur s)"
  "overrun (msg_complete s) = overrun s" "target (msg_complete s) = target s"
  by (simp_all add: msg_complete_def)

lemma set_range_sel [simp]:
  "lba (cur (set_range s)) = SCSI_GetOffset (cmd_buffer s ! 0) (cmd_buffer s)"
  "blockcounter (cur (set_range s)) = SCSI_GetCount (cmd_buffer s ! 0) (cmd_buffer s)"
  "dsk (cur (set_range s)) = dsk (cur s)" "cdrom (cur (set_range s)) = cdrom (cur s)"
  "sector_size (cur (set_range s)) = sector_size (cur s)" "status (cur (set_range s)) = status (cur s)"
  "buffer (set_range s) = buffer s" "hst (set_range s) = hst s" "overrun (set_range s) = overrun s"
  "disc (set_range s) = disc s" "heap_max (set_range s) = heap_max s"
  by (simp_all add: set_range_def)

text \<open>The place of a command on the medium, in blocks.\<close>

definition at_blocks :: "u8 list \<Rightarrow> nat \<Rightarrow> nat \<Rightarrow> bool" where
  "at_blocks c l n \<longleftrightarrow>
     unat (SCSI_GetOffset (c ! 0) c) = l \<and> unat (SCSI_GetCount (c ! 0) c) = n \<and> 0 < n \<and> l + n < 4294967296"

text \<open>A hard disk whose image can be written up to block \<open>k\<close>.\<close>

definition writable_disk :: "scsi \<Rightarrow> fh \<Rightarrow> nat \<Rightarrow> bool" where
  "writable_disk s f k \<longleftrightarrow>
     \<not> cdrom (cur s) \<and> dsk (cur s) = Some f \<and>
     (case streams (hst s) f of None \<Rightarrow> False
      | Some st \<Rightarrow> st_write st \<and> files (hst s) (st_path st) \<noteq> None) \<and> k * 512 \<le> max_file (hst s)"

lemma write_command:
  assumes r: "ready s" and o: "write_op (c ! 0)" and a: "at_blocks c l n" and w: "writable_disk s f (l + n)"
    and b: "n * 512 \<le> length (buffer s)"
  shows "\<exists>t. command c s = Some t \<and> status (cur t) = STAT_GOOD \<and>
           wr_run (fwrite_block f) (l * 512) (write_chunks 0 n (buffer s)) (hst s) = Some (hst t)"
proof -
  let ?s = "(set_range (s\<lparr>cmd_buffer := c\<rparr>))\<lparr>buf_disk := True, buf_size := 0, buf_limit := BLOCKSIZE\<rparr>"
  obtain st where st: "streams (hst s) f = Some st" "st_write st" "files (hst s) (st_path st) \<noteq> None"
    using w by (auto simp: writable_disk_def split: option.splits)
  have "\<exists>t. scsi_write_sector 0 ?s = Some t \<and>
      wr_run (fwrite_block f) (unat (lba (cur ?s)) * 512) (write_chunks 0 n (buffer ?s)) (hst ?s) = Some (hst t) \<and>
      (0 < n \<or> status (cur ?s) = STAT_GOOD \<longrightarrow> status (cur t) = STAT_GOOD)"
    using a b w st by (intro scsi_write_sector_ok) (simp_all add: writable_disk_def at_blocks_def)
  then show ?thesis
    using w a by (auto simp: command_write [OF o r] SCSI_WriteSector_def Let_def writable_disk_def at_blocks_def)
qed

lemma try_blocks:
  assumes f: "fits s" and n: "unat n * 512 \<le> length (buffer s)"
  shows "try_buffer (n * 512) s = (True, s)"
proof (rule try_buffer_fits)
  show l: "length (buffer s) < 2147483648" using f by (simp add: fits_def)
  have "unat n * unat (512 :: u32) < 4294967296" using n l by simp
  then have "unat (n * 512) = unat n * 512" using unat_mult_small [of n 512] by simp
  then show "unat (n * 512) \<le> length (buffer s)" using n by simp
qed

lemma read_command:
  assumes r: "ready s" and o: "read_op (c ! 0)" and a: "at_blocks c l n" and d: "\<not> cdrom (cur s)" "dsk (cur s) = Some f"
    and bs: "fread_block (hst s) f (l * 512) (n * 512) = Some bs" and f: "fits s" and b: "n * 512 \<le> length (buffer s)"
  shows "\<exists>t. command c s = Some t \<and> status (cur t) = STAT_GOOD \<and> unat (buf_size t) = n * 512 \<and>
           take (n * 512) (buffer t) = bs"
proof -
  let ?s = "(set_range (s\<lparr>cmd_buffer := c\<rparr>))\<lparr>buf_disk := True, buf_size := 0\<rparr>"
  have fs: "fits ?s" using f by (simp add: fits_def)
  have bz: "blocksize ?s = 512" using d by (simp add: blocksize_def BLOCKSIZE_def)
  have n: "unat (blockcounter (cur ?s)) = n" "unat (lba (cur ?s)) = l" "0 < n" "l + n < 4294967296"
    using a by (simp_all add: at_blocks_def)
  then have nz: "blockcounter (cur ?s) \<noteq> 0" by auto
  have t: "try_buffer (blockcounter (cur ?s) * blocksize ?s) ?s = (True, ?s)"
    unfolding bz by (rule try_blocks [OF fs]) (use n(1) b in simp)
  obtain u where u: "hd_read_loop 0 ?s = (n, u)" "buffer u = patch 0 bs (buffer s)" "status (cur u) = STAT_GOOD"
    using hd_read_loop_ok [of ?s f n bs 0] n d bs b by auto
  have e: "SCSI_ReadSector (s\<lparr>cmd_buffer := c\<rparr>) = set_xfer (of_nat (n * 512)) u"
    unfolding SCSI_ReadSector_def scsi_read_sector_def using nz t d(1) u(1) by simp
  have "length bs = n * 512" using bs stream_store.rd_length by blast
  then have "take (n * 512) (buffer u) = bs" using u(2) take_patch_zero [of bs "buffer s"] by simp
  moreover have "unat (of_nat (n * 512) :: u32) = n * 512"
    using f b by (intro unat_of_nat_small) (simp add: fits_def)
  ultimately show ?thesis
    unfolding command_read [OF o r] e using u(3) by simp
qed

lemma write_chunks_zero: "n * 512 \<le> length bs \<Longrightarrow> concat (write_chunks 0 n bs) = take (n * 512) bs"
  by (simp add: concat_write_chunks window_def)

lemma write_then_read:
  assumes s: "ready s" "write_op (w ! 0)" "at_blocks w l n" "writable_disk s f (l + n)" "n * 512 \<le> length (buffer s)"
  shows "\<exists>t. command w s = Some t \<and> status (cur t) = STAT_GOOD \<and>
           fread_block (hst t) f (l * 512) (n * 512) = Some (take (n * 512) (buffer s)) \<and>
           (\<forall>a k xs. a + k \<le> l * 512 \<or> (l + n) * 512 \<le> a \<longrightarrow> fread_block (hst s) f a k = Some xs \<longrightarrow>
              fread_block (hst t) f a k = Some xs)"
proof -
  obtain t where t: "command w s = Some t" "status (cur t) = STAT_GOOD"
    "wr_run (fwrite_block f) (l * 512) (write_chunks 0 n (buffer s)) (hst s) = Some (hst t)"
    using write_command [OF s] by blast
  have c: "concat (write_chunks 0 n (buffer s)) = take (n * 512) (buffer s)" using s(5) by (rule write_chunks_zero)
  have len: "length (concat (write_chunks 0 n (buffer s))) = n * 512" unfolding c using s(5) by simp
  have ne: "write_chunks 0 n (buffer s) \<noteq> []" using s(3) by (simp add: write_chunks_def at_blocks_def)
  have "fread_block (hst t) f (l * 512) (n * 512) = Some (take (n * 512) (buffer s))"
    using stream_store.rd_wr_run [OF t(3) ne] unfolding len unfolding c .
  moreover have "fread_block (hst t) f a k = Some xs"
    if "a + k \<le> l * 512 \<or> (l + n) * 512 \<le> a" "fread_block (hst s) f a k = Some xs" for a k xs
    using that stream_store.wr_run_before [OF t(3), of a k xs] stream_store.wr_run_after [OF t(3), of a k xs]
    unfolding len by (auto simp: add_mult_distrib)
  ultimately show ?thesis using t by blast
qed

subsection \<open>Writes that never end, reads that leave the buffer\<close>

lemma write_hangs:
  assumes "ready s" "write_op (c ! 0)" "at_blocks c l n" "\<not> cdrom (cur s)" "dsk (cur s) = Some f"
    and "case streams (hst s) f of None \<Rightarrow> True | Some st \<Rightarrow> \<not> st_write st"
  shows "command c s = None"
proof -
  let ?s = "(set_range (s\<lparr>cmd_buffer := c\<rparr>))\<lparr>buf_disk := True, buf_size := 0, buf_limit := BLOCKSIZE\<rparr>"
  have "\<not> writable ?s" using assms(5,6) by (auto simp: writable_def split: option.splits)
  moreover have "blockcounter (cur ?s) \<noteq> 0" using assms(3) by (auto simp: at_blocks_def)
  ultimately have "scsi_write_sector 0 ?s = None" by (intro scsi_write_sector_stuck)
  then show ?thesis using assms(1,2,4) by (simp add: command_write SCSI_WriteSector_def Let_def)
qed

text \<open>A count whose byte size is a multiple of 4GB is granted without any room.\<close>

lemma read_overruns:
  assumes r: "ready s" and o: "c ! 0 = 0xA8" and a: "at_blocks c l 0x800000"
    and d: "\<not> cdrom (cur s)" "dsk (cur s) = Some f"
    and bs: "fread_block (hst s) f (l * 512) (Suc j * 512) = Some bs" "length (buffer s) < Suc j * 512" "j < 0x800000"
    and f: "fits s"
  shows "\<exists>t. command c s = Some t \<and> overrun t"
proof -
  let ?s = "(set_range (s\<lparr>cmd_buffer := c\<rparr>))\<lparr>buf_disk := True, buf_size := 0\<rparr>"
  have bz: "blocksize ?s = 512" using d by (simp add: blocksize_def BLOCKSIZE_def)
  have n: "unat (blockcounter (cur ?s)) = 0x800000" "unat (lba (cur ?s)) = l" using a by (simp_all add: at_blocks_def)
  have "blockcounter (cur ?s) = of_nat (unat (blockcounter (cur ?s)))" by simp
  then have w: "blockcounter (cur ?s) = 0x800000" unfolding n(1) by simp
  have t: "try_buffer (blockcounter (cur ?s) * blocksize ?s) ?s = (True, ?s)"
    unfolding bz w using f by (intro try_buffer_fits) (simp_all add: fits_def)
  have v: "overrun (snd (hd_read_loop 0 ?s))"
    using d bs a n by (intro hd_read_loop_overruns [where f = f and j = j and bs = bs]) (simp_all add: at_blocks_def)
  have "SCSI_ReadSector (s\<lparr>cmd_buffer := c\<rparr>) = set_xfer (of_nat (fst (hd_read_loop 0 ?s) * 512)) (snd (hd_read_loop 0 ?s))"
    unfolding SCSI_ReadSector_def scsi_read_sector_def using w t d(1) by (simp add: split_beta)
  then show ?thesis
    using v by (simp add: command_read [OF _ r] read_op_def o)
qed

subsection \<open>A drive set to raw sectors\<close>

lemma raw_mode_read:
  assumes r: "ready s" and o: "read_op (c ! 0)" and d: "cdrom (cur s)" "\<not> no_disc (disc s)" "sector_size (cur s) = 2352"
    and f: "fits s" and n: "unat (SCSI_GetCount (c ! 0) c) * 2352 \<le> length (buffer s)"
  shows "\<exists>t. command c s = Some t \<and> buf_size t = 0 \<and> buffer t = buffer s \<and> status (cur t) = status (cur s)"
proof -
  let ?s = "(set_range (s\<lparr>cmd_buffer := c\<rparr>))\<lparr>buf_disk := True, buf_size := 0\<rparr>"
  have bz: "blocksize ?s = 2352" using d by (simp add: blocksize_def)
  have l: "length (buffer s) < 2147483648" using f by (simp add: fits_def)
  then have "unat (blockcounter (cur ?s)) * unat (2352 :: u32) < 4294967296" using n by simp
  then have u: "unat (blockcounter (cur ?s) * 2352) = unat (blockcounter (cur ?s)) * 2352"
    using unat_mult_small [of "blockcounter (cur ?s)" 2352] by simp
  have t: "try_buffer (blockcounter (cur ?s) * blocksize ?s) ?s = (True, ?s)"
    unfolding bz by (rule try_buffer_fits) (use l n u in simp_all)
  have "SCSI_ReadSector (s\<lparr>cmd_buffer := c\<rparr>) = ?s"
    unfolding SCSI_ReadSector_def scsi_read_sector_def using t d bz
    by (simp add: cd_read_sectors_def Let_def)
  then show ?thesis by (simp add: command_read [OF o r])
qed

subsection \<open>Sense data\<close>

text \<open>The opcodes of the dispatcher; all others are refused.\<close>

definition known_opcodes :: "u8 list" where
  "known_opcodes = [0x12, 0x03, 0x00, 0x01, 0x25, 0x08, 0x28, 0xA8, 0x0A, 0x2A, 0xAA, 0x0B, 0x2B, 0x1B, 0x15, 0x55, 0x1A, 0x5A,
     0x04, 0x43, 0x44, 0x42, 0x46, 0x4A, 0x51, 0x52, 0xBD, 0xBE, 0xB9, 0xD8, 0xD9, 0x45, 0xA5, 0x47, 0x48, 0x49, 0xA9,
     0x4B, 0x4E] @ accepted_opcodes"

lemma execute_unknown: "b \<notin> set known_opcodes \<Longrightarrow> SCSI_Execute b s = Some (check_code SC_INVALID_CMD s)"
  by (simp add: SCSI_Execute_def known_opcodes_def)

lemma command_unknown:
  assumes "c ! 0 \<notin> set known_opcodes" "ready s"
  shows "command c s = Some (msg_complete (check_code SC_INVALID_CMD (s\<lparr>cmd_buffer := c\<rparr>)))"
proof -
  have "c ! 0 \<noteq> 0x12" "c ! 0 \<noteq> 0x03" using assms(1) by (auto simp: known_opcodes_def)
  then show ?thesis
    using assms(2) by (simp add: command_def SCSI_Emulate_Command_def Let_def ready_def execute_unknown [OF assms(1)])
qed

lemma check_code_sel [simp]:
  "status (cur (check_code e s)) = STAT_CHECK_COND" "sense_code (sense (cur (check_code e s))) = e"
  "sense_key (sense (cur (check_code e s))) = sense_key (sense (cur s))" "lun (cur (check_code e s)) = lun (cur s)"
  "unit_attention (cur (check_code e s)) = unit_attention (cur s)" "buffer (check_code e s) = buffer s"
  "sense_ascq (sense (cur (check_code e s))) = sense_ascq (sense (cur s))"
  by (simp_all add: check_code_def)

lemma command_attention:
  assumes "c ! 0 \<notin> {0x12, 0x03}" "lun (cur s) = 0" "unit_attention (cur s)"
  shows "command c s = Some (attention (s\<lparr>cmd_buffer := c\<rparr>))"
  unfolding command_def using assms by (intro emulate_attention) simp_all

text \<open>A REQUEST SENSE command for at least the 22 bytes the drive has.\<close>

definition sense_cmd :: "u8 list \<Rightarrow> bool" where
  "sense_cmd c \<longleftrightarrow> c ! 0 = 0x03 \<and> sense_length c = 22"

lemma command_sense:
  assumes c: "sense_cmd c" and b: "22 \<le> length (buffer s)"
  shows "\<exists>t. command c s = Some t \<and> take 22 (buffer t) = sense_bytes (sense (cur s)) \<and> buf_size t = 22 \<and>
           status (cur t) = STAT_GOOD \<and> sense_key (sense (cur t)) = 0 \<and> sense_code (sense (cur t)) = 0 \<and>
           unit_attention (cur t) = unit_attention (cur s) \<and> lun (cur t) = lun (cur s) \<and>
           length (buffer t) = length (buffer s)"
proof -
  let ?s = "s\<lparr>cmd_buffer := c\<rparr>"
  have n: "22 = sense_length (cmd_buffer ?s)"
    using c by (auto simp: sense_cmd_def)
  have b': "22 \<le> length (buffer ?s)" using b by simp
  note r = RequestSense_buffer [OF b' n]
  have e: "command c s = Some (msg_complete (SCSI_RequestSense ?s))"
    unfolding command_def using c by (intro emulate_RequestSense) (simp add: sense_cmd_def)
  have z: "buf_size (SCSI_RequestSense ?s) = 22"
    using r(2) unat_arith_simps(3) [of "buf_size (SCSI_RequestSense ?s)" 22] by simp
  have len: "length (sense_bytes (sense (cur s))) = 22" by (simp add: answer_length)
  have k: "unit_attention (cur (SCSI_RequestSense ?s)) = unit_attention (cur s)"
    "lun (cur (SCSI_RequestSense ?s)) = lun (cur s)" "length (buffer (SCSI_RequestSense ?s)) = length (buffer s)"
    by (simp_all add: SCSI_RequestSense_def Let_def)
  show ?thesis unfolding e using r z len k by simp
qed

lemma sense_bytes_nth:
  "sense_bytes x ! 2 = (if sense_key x = 0 \<and> sense_code x \<noteq> 0 then sense_key_for (sense_code x) else sense_key x)"
  "sense_bytes x ! 12 = sense_code x"
  by (auto simp: sense_bytes_def be32_def numeral_eq_Suc)

lemma sense_reply:
  assumes "take 22 (buffer t) = sense_bytes x"
  shows "buffer t ! 2 = (if sense_key x = 0 \<and> sense_code x \<noteq> 0 then sense_key_for (sense_code x) else sense_key x)"
    "buffer t ! 12 = sense_code x"
proof -
  have "buffer t ! i = sense_bytes x ! i" if "i < 22" for i using assms that by (metis nth_take)
  then show "buffer t ! 2 = (if sense_key x = 0 \<and> sense_code x \<noteq> 0 then sense_key_for (sense_code x) else sense_key x)"
    "buffer t ! 12 = sense_code x" by (simp_all add: sense_bytes_nth)
qed

subsection \<open>Attaching and detaching\<close>

text \<open>A target answers the bus exactly when its image could be opened.\<close>

lemma Attach_present:
  assumes o: "owned s" and i: "i < 7" and p: "p \<noteq> []" and a: "SCSI_Attach (int i) p s = (ok, t)"
  shows "scsi_is_target_present t (int i) = ok"
    and "ok \<Longrightarrow> unit_attention (disks t i) \<and> lun (disks t i) = 0 \<and> paths t i = take 1023 p \<and> scsi_prefs t i = Some p"
proof -
  let ?s = "upd_dev i (\<lambda>d. d\<lparr>dev_size := 0\<rparr>) (close_current i s)"
  note c = close_current_facts [OF o i]
  have os: "owned ?s" by (rule owned_cong [OF owned_close_current [OF o i]]) simp_all
  have e: "tracks (discs ?s i) = []" "dsk (disks ?s i) = None" using c by simp_all
  have r: "(ok, t) = (if cdrom (disks s i) \<or> attach_kind i p then attach_cd i p ?s else attach_hd i p ?s)"
    using a p i by (auto simp: SCSI_Attach_def Let_def ESP_MAX_DEVS_def)
  have "scsi_is_target_present t (int i) = ok \<and>
      (ok \<longrightarrow> unit_attention (disks t i) \<and> lun (disks t i) = 0 \<and> paths t i = take 1023 p \<and> scsi_prefs t i = Some p)"
  proof (cases "cdrom (disks s i) \<or> attach_kind i p")
    case True
    obtain b u where u: "load_cd i p ?s = (b, u)" by force
    have l: "load_post i ?s (b, u)" using load_cd_post [OF ownedD(1) [OF os] e(1), of p] u by simp
    show ?thesis
      using r True u l i p e
      by (auto simp: attach_cd_def Let_def scsi_is_target_present_def ESP_MAX_DEVS_def load_post_def first_fh_def
          split: if_splits list.splits)
  next
    case False
    then show ?thesis
      using r i p c
      by (auto simp: attach_hd_def Let_def scsi_is_target_present_def ESP_MAX_DEVS_def split: option.splits prod.splits)
  qed
  then show "scsi_is_target_present t (int i) = ok"
    "ok \<Longrightarrow> unit_attention (disks t i) \<and> lun (disks t i) = 0 \<and> paths t i = take 1023 p \<and> scsi_prefs t i = Some p" by blast+
qed

text \<open>Detaching closes the files of the target, and only those.\<close>

lemma Detach_closes:
  assumes o: "owned s" and i: "i < 7" and d: "SCSI_Detach (int i) s = (ok, t)"
  shows "ok \<and> \<not> scsi_is_target_present t (int i) \<and> dev_handles t i = {} \<and>
         streams (hst t) = (\<lambda>f. if f \<in> dev_handles s i then None else streams (hst s) f) \<and> only i s t"
proof -
  note c = close_current_facts [OF o i]
  have "first_fh (discs (close_current i s) i) = None" using c(6) by (simp add: first_fh_def)
  then show ?thesis
    using d i c
    by (auto simp: SCSI_Detach_def Let_def ESP_MAX_DEVS_def scsi_is_target_present_def dev_handles_def only_def
        first_fh_def split: if_splits)
qed

subsection \<open>Only the addressed target changes\<close>

definition others_same :: "scsi \<Rightarrow> scsi \<Rightarrow> bool" where
  "others_same s t \<longleftrightarrow> target t = target s \<and>
     (\<forall>i. i \<noteq> target s \<longrightarrow> disks t i = disks s i \<and> discs t i = discs s i \<and> paths t i = paths s i \<and>
        scsi_prefs t i = scsi_prefs s i)"

lemma others_quiet: "quiet s t \<Longrightarrow> others_same s t"
  by (simp add: quiet_def others_same_def)

lemma others_trans: "others_same s t \<Longrightarrow> others_same t u \<Longrightarrow> others_same s u"
  by (simp add: others_same_def)

lemma others_eject: "others_same s (eject_disc s)"
  by (simp add: others_same_def eject_disc_def Let_def split_beta upd_cur_def upd_disc_def)

lemma others_StartStop: "others_same s (SCSI_StartStop s)"
proof -
  let ?f = "\<lambda>cd. (CD_UpdateAudioPlayback (now_ms s) cd)\<lparr>audio_status := 0x15, audio_paused := False\<rparr>"
  have q: "others_same s (upd_disc f s)" for f s by (simp add: others_same_def upd_disc_def)
  have g: "others_same s t \<Longrightarrow> others_same s (good t)" for t by (rule others_trans, assumption, rule others_quiet, intro quiet_intros)
  have "others_same s s" by (simp add: others_same_def)
  then show ?thesis
    unfolding SCSI_StartStop_def Let_def
    by (intro g) (auto intro: q others_trans [OF q [of s ?f] q] others_trans [OF q [of s ?f] others_eject])
qed

lemma emulate_others: "SCSI_Emulate_Command s = Some t \<Longrightarrow> others_same s t"
proof (cases "cmd_buffer s ! 0 = 0x1B")
  case True
  assume e: "SCSI_Emulate_Command s = Some t"
  have m: "others_same u (msg_complete u)" for u by (rule others_quiet) (intro quiet_intros)
  show ?thesis
    using e
  proof (cases rule: emulate_cases)
    case (5 u)
    then have "u = SCSI_StartStop s" using True by (simp add: SCSI_Execute_def)
    then show ?thesis using 5(2) others_trans [OF others_StartStop m] by simp
  qed (simp_all add: others_quiet quiet_intros quiet_handlers quiet_attention)
qed (simp add: others_quiet emulate_quiet)

end
