(* ===== verification/SCSI_Properties.thy ===== *)
theory SCSI_Properties
  imports SCSI_Disk
begin

section \<open>Properties of the target emulation\<close>

text \<open>
  The properties of the block commands and of attaching in \<open>scsi_dummy.cpp\<close>. The witnesses
  run on \<open>demo w\<close>: a disk of 16 blocks at id 0, its image opened for writing when \<open>w\<close>.
\<close>

definition demo_host :: "bool \<Rightarrow> host" where
  "demo_host w =
     \<lparr>files = [''disk'' \<mapsto> replicate 8192 0x55], readonly = (\<lambda>p. \<not> w),
      streams = [0 \<mapsto> \<lparr>st_path = ''disk'', st_write = w\<rparr>], next_fh = 1, max_file = 100000, bad_close = False\<rparr>"

definition demo :: "bool \<Rightarrow> scsi" where
  "demo w =
     \<lparr>disks = (\<lambda>i. if i = 0 then zero_dev\<lparr>dsk := Some 0, dev_size := 8192, sector_size := 512\<rparr> else zero_dev),
      discs = (\<lambda>i. no_disc_state), paths = (\<lambda>i. if i = 0 then ''disk'' else []),
      scsi_prefs = (\<lambda>i. if i = 0 then Some ''disk'' else None), buffer = replicate 4096 0x41, buf_limit = 0,
      buf_size = 0, buf_disk = False, cmd_buffer = [0, 0, 0, 0, 0, 0], cmd_len = 6, target = 0, hst = demo_host w,
      now_ms = 0, heap_max = 100000, overrun = False\<rparr>"

definition demo_mac :: mac where
  "demo_mac = \<lparr>ram = (\<lambda>a. 0), rom_base = 0, rom_size = 0, regions = [], mmio_log = []\<rparr>"

lemma demo_sel [simp]:
  "cur (demo w) = zero_dev\<lparr>dsk := Some 0, dev_size := 8192, sector_size := 512\<rparr>" "disc (demo w) = no_disc_state"
  "buffer (demo w) = replicate 4096 0x41" "hst (demo w) = demo_host w" "cmd_buffer (demo w) = [0, 0, 0, 0, 0, 0]"
  "target (demo w) = 0" "tracks (discs (demo w) i) = []"
  by (simp_all add: demo_def cur_def disc_def no_disc_state_def)

lemma zero_dev_sel [simp]:
  "cdrom zero_dev = False" "lun zero_dev = 0" "unit_attention zero_dev = False" "dsk zero_dev = None"
  "sense_key (sense zero_dev) = 0" "sense_code (sense zero_dev) = 0" "blockcounter zero_dev = 0"
  by (simp_all add: zero_dev_def)

lemma demo_ready: "ready (demo w)"
  by (simp add: ready_def)

lemma demo_fits: "fits (demo w)"
  by (simp add: fits_def demo_def)

lemma demo_owned: "owned (demo w)"
  by (auto simp: owned_def fresh_host_def dev_handles_def demo_def demo_host_def no_disc_state_def)

lemma demo_writable: "k \<le> 100 \<Longrightarrow> writable_disk (demo True) 0 k"
  by (simp add: writable_disk_def demo_host_def)

text \<open>
  C26. A command with a data phase as long as its segments, of less than 2GB and, for a WRITE,
  not longer than the transfer buffer, moves no byte outside the transfer buffer, and the
  size it leaves is within the buffer.\<close>
theorem transfer_stays_in_buffer:
  assumes "scsi_send_cmd n rd segs m s = Some (ok, st, m', t)" "fits s" "owned s" "unat n = sg_bytes segs"
    "unat n < 2147483648" "transfer_ok s"
  shows "\<not> overrun t \<and> unat (buf_size t) \<le> length (buffer t)"
  using send_cmd_fits [OF assms(1,2,3,4,5,6)] by (simp add: fits_def)

theorem transfer_stays_in_buffer_witness:
  "\<exists>ok st m' t. scsi_send_cmd 0 True [] demo_mac (demo True) = Some (ok, st, m', t) \<and> \<not> overrun t"
proof -
  have "transfer_ok (demo True)" by (simp add: transfer_ok_def transfer_bytes_def Let_def)
  moreover have "\<exists>ok st m' t. scsi_send_cmd 0 True [] demo_mac (demo True) = Some (ok, st, m', t)"
    by (auto simp: scsi_send_cmd_def Let_def split_beta SCSI_Emulate_Command_def SCSI_Execute_def)
  moreover have "unat (0 :: u32) = sg_bytes []" "unat (0 :: u32) < 2147483648" by (simp_all add: sg_bytes_def)
  ultimately show ?thesis
    using transfer_stays_in_buffer [of 0 True "[]" demo_mac "demo True"] demo_fits demo_owned by blast
qed

text \<open>
  A READ(12) of 0x800000 blocks, whose byte count is 4GB and wraps to 0, is granted without any
  room: as soon as the image holds more bytes at the place than the transfer buffer, the
  command writes past the end of the buffer.\<close>
theorem huge_read_overruns:
  assumes "ready s" "fits s" "c ! 0 = 0xA8" "at_blocks c l 0x800000" "\<not> cdrom (cur s)" "dsk (cur s) = Some f"
    "fread_block (hst s) f (l * 512) (Suc j * 512) = Some bs" "length (buffer s) < Suc j * 512" "j < 0x800000"
  shows "\<exists>t. command c s = Some t \<and> overrun t"
  using read_overruns [OF assms(1,3,4,5,6,7,8,9,2)] .

theorem huge_read_overruns_witness:
  "\<exists>t. command [0xA8, 0, 0, 0, 0, 0, 0, 0x80, 0, 0, 0, 0] (demo True) = Some t \<and> overrun t"
proof -
  let ?c = "[0xA8, 0, 0, 0, 0, 0, 0, 0x80, 0, 0, 0, 0] :: u8 list"
  have "at_blocks ?c 0 0x800000"
    by (simp add: at_blocks_def SCSI_GetOffset_def SCSI_GetCount_def cdb32_def of_be32_def)
  moreover have "fread_block (hst (demo True)) 0 (0 * 512) (Suc 8 * 512) = Some (window 0 (Suc 8 * 512) (replicate 8192 0x55))"
    by (simp add: fread_block_def stream_data_def demo_host_def)
  moreover have "\<not> cdrom (cur (demo True))" "dsk (cur (demo True)) = Some 0" "?c ! 0 = 0xA8"
    "length (buffer (demo True)) < Suc 8 * 512" "(8 :: nat) < 0x800000" by simp_all
  ultimately show ?thesis
    using huge_read_overruns [OF demo_ready demo_fits, of ?c] by blast
qed

text \<open>
  C36. A WRITE of \<open>n\<close> blocks to a writable image returns GOOD; afterwards, and as long as the image
  is not changed, a READ of the same blocks returns GOOD, \<open>n * 512\<close> bytes, and exactly the
  data that was in the transfer buffer; a READ of any other blocks returns what it
  returned before.\<close>
theorem write_then_read_back:
  assumes "ready s" "write_op (w ! 0)" "at_blocks w l n" "writable_disk s f (l + n)" "n * 512 \<le> length (buffer s)"
    and "ready u" "fits u" "\<not> cdrom (cur u)" "dsk (cur u) = Some f" "read_op (r ! 0)" "at_blocks r k j"
    and "j * 512 \<le> length (buffer u)"
    and "(k = l \<and> j = n \<and> bs = take (n * 512) (buffer s)) \<or>
         ((k + j \<le> l \<or> l + n \<le> k) \<and> fread_block (hst s) f (k * 512) (j * 512) = Some bs)"
  shows "\<exists>t. command w s = Some t \<and> status (cur t) = STAT_GOOD \<and>
           (hst u = hst t \<longrightarrow> (\<exists>v. command r u = Some v \<and> status (cur v) = STAT_GOOD \<and>
              unat (buf_size v) = j * 512 \<and> take (j * 512) (buffer v) = bs))"
proof -
  obtain t where t: "command w s = Some t" "status (cur t) = STAT_GOOD"
    "fread_block (hst t) f (l * 512) (n * 512) = Some (take (n * 512) (buffer s))"
    "\<And>a i xs. a + i \<le> l * 512 \<or> (l + n) * 512 \<le> a \<Longrightarrow> fread_block (hst s) f a i = Some xs \<Longrightarrow>
       fread_block (hst t) f a i = Some xs"
    using write_then_read [OF assms(1-5)] by blast
  have other: "k * 512 + j * 512 \<le> l * 512 \<or> (l + n) * 512 \<le> k * 512" if "k + j \<le> l \<or> l + n \<le> k"
    using that mult_le_mono1 [of "k + j" l 512] mult_le_mono1 [of "l + n" k 512] by (auto simp: add_mult_distrib)
  have b: "fread_block (hst t) f (k * 512) (j * 512) = Some bs"
    using assms(13) t(3) t(4) [OF other] by (elim disjE) simp_all
  have "\<exists>v. command r u = Some v \<and> status (cur v) = STAT_GOOD \<and> unat (buf_size v) = j * 512 \<and> take (j * 512) (buffer v) = bs"
    if h: "hst u = hst t"
    by (rule read_command [OF assms(6,10,11,8,9) _ assms(7,12)]) (simp only: h b)
  then show ?thesis using t(1,2) by blast
qed

theorem write_then_read_back_witness:
  "\<exists>t. command [0x2A, 0, 0, 0, 0, 3, 0, 0, 2, 0] (demo True) = Some t \<and> status (cur t) = STAT_GOOD"
proof -
  let ?w = "[0x2A, 0, 0, 0, 0, 3, 0, 0, 2, 0] :: u8 list" and ?r = "[0x28, 0, 0, 0, 0, 3, 0, 0, 2, 0] :: u8 list"
  have a: "at_blocks ?w 3 2" "at_blocks ?r 3 2"
    by (simp_all add: at_blocks_def SCSI_GetOffset_def SCSI_GetCount_def cdb32_def cdb16_def of_be32_def of_be16_def)
  have o: "write_op (?w ! 0)" "read_op (?r ! 0)" by (simp_all add: write_op_def read_op_def)
  have d: "\<not> cdrom (cur (demo True))" "dsk (cur (demo True)) = Some 0" by simp_all
  have n: "2 * 512 \<le> length (buffer (demo True))" by simp
  show ?thesis
    using write_then_read_back [OF demo_ready o(1) a(1) demo_writable n demo_ready demo_fits d o(2) a(2) n,
        of "take (2 * 512) (buffer (demo True))"] by auto
qed

text \<open>
  A WRITE to an image that was opened read-only, as attaching does when the file cannot be
  opened for update, never returns: the emulator hangs in the command.\<close>
theorem readonly_write_hangs:
  assumes "ready s" "write_op (c ! 0)" "at_blocks c l n" "\<not> cdrom (cur s)" "dsk (cur s) = Some f"
    "streams (hst s) f = Some st" "\<not> st_write st"
  shows "command c s = None"
  using write_hangs [OF assms(1-5)] assms(6,7) by simp

theorem readonly_write_hangs_witness: "command [0x0A, 0, 0, 1, 1, 0] (demo False) = None"
proof (rule readonly_write_hangs [OF demo_ready, where l = 1 and n = 1 and f = 0 and st = "\<lparr>st_path = ''disk'', st_write = False\<rparr>"])
  show "at_blocks [0x0A, 0, 0, 1, 1, 0] 1 1"
    by (simp add: at_blocks_def SCSI_GetOffset_def SCSI_GetCount_def cdb24_def of_be24_def)
qed (simp_all add: write_op_def demo_host_def)

text \<open>
  READ CAPACITY of a hard disk reports 512-byte blocks and the number of the last block of the
  image: this block can be read from the image, and no block after it can.\<close>
theorem capacity_is_last_block:
  assumes "\<not> cdrom (cur s)" "dsk (cur s) = Some f" "unat (dev_size (cur s)) = stream_size (hst s) f"
    "512 \<le> stream_size (hst s) f" "8 \<le> length (buffer s)"
  shows "\<exists>l. take 8 (buffer (SCSI_ReadCapacity s)) = be32 l @ be32 512 \<and>
             fread_block (hst s) f (unat l * 512) 512 \<noteq> None \<and>
             (\<forall>n > l. fread_block (hst s) f (unat n * 512) 512 = None)"
  using ReadCapacity_last [OF assms] by blast

theorem capacity_is_last_block_witness:
  "\<exists>l. take 8 (buffer (SCSI_ReadCapacity (demo True))) = be32 l @ be32 512"
proof -
  have "stream_size (hst (demo True)) 0 = 8192" by (simp add: stream_size_def stream_data_def demo_host_def)
  then show ?thesis using capacity_is_last_block [of "demo True" 0] by auto
qed

text \<open>
  The geometry guessed for a disk of any size is one a drive can have (1 to 16 heads, 16 to
  63 sectors), covers every sector of the disk and wastes less than one cylinder of the
  largest size.\<close>
theorem guessed_geometry_covers:
  assumes "SCSI_GuessGeometry sz = (c, h, sec)"
  shows "1 \<le> unat h \<and> unat h \<le> 16 \<and> 16 \<le> unat sec \<and> unat sec \<le> 63 \<and>
         unat sz \<le> unat c * unat sec * unat h \<and> unat c * unat sec * unat h < unat sz + 1008"
  using GuessGeometry_bounds [OF assms] by blast

theorem guessed_geometry_covers_witness:
  "\<exists>c h sec. SCSI_GuessGeometry 40960 = (c, h, sec) \<and> unat (40960 :: u32) \<le> unat c * unat sec * unat h"
proof -
  obtain c h sec where g: "SCSI_GuessGeometry 40960 = (c, h, sec)" by (metis prod_cases3)
  show ?thesis using guessed_geometry_covers [OF g] g by blast
qed

text \<open>
  Scattering a transfer to disjoint segments of guest memory and gathering it from them again
  gives the transferred bytes, cut at or padded with zero bytes to the size of the segments.\<close>
theorem gather_after_scatter:
  assumes "disjoint_segs segs"
  shows "sg_gather (sg_scatter segs bs m) segs = take (sg_bytes segs) bs @ replicate (sg_bytes segs - length bs) 0"
  using gather_scatter [OF assms] .

theorem gather_after_scatter_witness:
  "sg_gather (sg_scatter [(0x100, 2), (0x80, 2)] [7, 8, 9] demo_mac) [(0x100, 2), (0x80, 2)] = [7, 8, 9, 0]"
proof -
  have "disjoint_segs [(0x100, 2), (0x80, 2)]" by (auto simp: seg_bytes_def)
  from gather_after_scatter [OF this, of "[7, 8, 9]" demo_mac] show ?thesis by (simp add: sg_bytes_def)
qed

text \<open>
  C37. An unknown opcode is refused with CHECK CONDITION; the next REQUEST SENSE (for the whole 22
  bytes) says ILLEGAL REQUEST, invalid command, when no older sense key is pending, and
  the one after it says that there is nothing to report.\<close>
theorem refused_command_is_reported:
  assumes "ready s" "c ! 0 \<notin> set known_opcodes" "sense_cmd r" "22 \<le> length (buffer s)" "sense_key (sense (cur s)) = 0"
  shows "\<exists>t u v. command c s = Some t \<and> command r t = Some u \<and> command r u = Some v \<and>
           status (cur t) = STAT_CHECK_COND \<and>
           buffer u ! 2 = SK_ILLEGAL_REQ \<and> buffer u ! 12 = SC_INVALID_CMD \<and> status (cur u) = STAT_GOOD \<and>
           buffer v ! 2 = SK_NOSENSE \<and> buffer v ! 12 = SC_NO_ERROR \<and> status (cur v) = STAT_GOOD"
proof -
  define t where "t = msg_complete (check_code SC_INVALID_CMD (s\<lparr>cmd_buffer := c\<rparr>))"
  have t: "command c s = Some t" "status (cur t) = STAT_CHECK_COND" "sense_key (sense (cur t)) = 0"
    "sense_code (sense (cur t)) = SC_INVALID_CMD" "22 \<le> length (buffer t)"
    using command_unknown [OF assms(2,1)] assms(4,5) by (simp_all add: t_def)
  obtain u where u: "command r t = Some u" "take 22 (buffer u) = sense_bytes (sense (cur t))" "status (cur u) = STAT_GOOD"
    "sense_key (sense (cur u)) = 0" "sense_code (sense (cur u)) = 0" "22 \<le> length (buffer u)"
    using command_sense [OF assms(3) t(5)] t(5) by auto
  obtain v where v: "command r u = Some v" "take 22 (buffer v) = sense_bytes (sense (cur u))" "status (cur v) = STAT_GOOD"
    using command_sense [OF assms(3) u(6)] by blast
  have "buffer u ! 2 = SK_ILLEGAL_REQ" "buffer u ! 12 = SC_INVALID_CMD"
    using sense_reply [OF u(2)] t(3,4) by (simp_all add: sense_key_for_def scsi_codes)
  moreover have "buffer v ! 2 = SK_NOSENSE" "buffer v ! 12 = SC_NO_ERROR"
    using sense_reply [OF v(2)] u(4,5) by (simp_all add: scsi_codes)
  ultimately show ?thesis using t u v by blast
qed

lemma demo_sense_cmd: "sense_cmd [3, 0, 0, 0, 22, 0]"
  by (simp add: sense_cmd_def sense_length_def SCSI_GetCount_def Let_def)

theorem refused_command_is_reported_witness:
  "\<exists>t u. command [0x99, 0, 0, 0, 0, 0] (demo True) = Some t \<and> command [3, 0, 0, 0, 22, 0] t = Some u \<and>
     buffer u ! 2 = SK_ILLEGAL_REQ"
proof -
  have "[0x99, 0, 0, 0, 0, 0] ! 0 \<notin> set known_opcodes" by (simp add: known_opcodes_def accepted_opcodes_def)
  moreover have "22 \<le> length (buffer (demo True))" "sense_key (sense (cur (demo True))) = 0" by simp_all
  ultimately show ?thesis
    using refused_command_is_reported [OF demo_ready _ demo_sense_cmd, of "[0x99, 0, 0, 0, 0, 0]" True] by blast
qed

text \<open>
  A target whose medium has changed answers the next command other than INQUIRY and REQUEST
  SENSE with a unit attention, whatever the command, and does not execute it; REQUEST SENSE
  then reports it, and the command after that is executed.\<close>
theorem attention_reported_once:
  assumes "lun (cur s) = 0" "unit_attention (cur s)" "c ! 0 \<notin> {0x12, 0x03}" "sense_cmd r" "22 \<le> length (buffer s)"
  shows "\<exists>t u. command c s = Some t \<and> status (cur t) = STAT_CHECK_COND \<and> hst t = hst s \<and> buffer t = buffer s \<and>
           command r t = Some u \<and> buffer u ! 2 = SK_UNIT_ATN \<and> buffer u ! 12 = SC_NOT_READY_TO_READY_TRANSITION \<and>
           ready u \<and>
           command c u = map_option msg_complete (SCSI_Execute (c ! 0) (u\<lparr>cmd_buffer := c\<rparr>))"
proof -
  define t where "t = attention (s\<lparr>cmd_buffer := c\<rparr>)"
  have t: "command c s = Some t" "status (cur t) = STAT_CHECK_COND" "sense_key (sense (cur t)) = SK_UNIT_ATN"
    "sense_code (sense (cur t)) = SC_NOT_READY_TO_READY_TRANSITION" "22 \<le> length (buffer t)"
    "hst t = hst s" "buffer t = buffer s" "\<not> unit_attention (cur t)" "lun (cur t) = 0"
    using command_attention [OF assms(3,1,2)] assms(1,5) by (simp_all add: t_def)
  obtain u where u: "command r t = Some u" "take 22 (buffer u) = sense_bytes (sense (cur t))"
    "unit_attention (cur u) = unit_attention (cur t)" "lun (cur u) = lun (cur t)"
    using command_sense [OF assms(4) t(5)] by blast
  have "buffer u ! 2 = SK_UNIT_ATN" "buffer u ! 12 = SC_NOT_READY_TO_READY_TRANSITION"
    using sense_reply [OF u(2)] t(3,4) by (simp_all add: scsi_codes)
  moreover have r: "ready u" using u t by (simp add: ready_def)
  moreover have "command c u = map_option msg_complete (SCSI_Execute (c ! 0) (u\<lparr>cmd_buffer := c\<rparr>))"
    using r assms(3) by (auto simp: command_def SCSI_Emulate_Command_def Let_def ready_def)
  ultimately show ?thesis using t u(1) by blast
qed

theorem attention_reported_once_witness:
  "\<exists>t u. command [0, 0, 0, 0, 0, 0] (upd_cur (\<lambda>d. d\<lparr>unit_attention := True\<rparr>) (demo True)) = Some t \<and>
     command [3, 0, 0, 0, 22, 0] t = Some u \<and> buffer u ! 2 = SK_UNIT_ATN"
proof -
  let ?s = "upd_cur (\<lambda>d. d\<lparr>unit_attention := True\<rparr>) (demo True)"
  have "lun (cur ?s) = 0" "unit_attention (cur ?s)" "[0, 0, 0, 0, 0, 0 :: u8] ! 0 \<notin> {0x12, 0x03}"
    "22 \<le> length (buffer ?s)" by simp_all
  then show ?thesis using attention_reported_once [OF _ _ _ demo_sense_cmd, of ?s "[0, 0, 0, 0, 0, 0]"] by blast
qed

text \<open>
  A refused command sets the sense code but not the sense key: when a unit attention was
  reported by CHECK CONDITION but not fetched, REQUEST SENSE after the refusal pairs the code
  of the refusal with the stale key of the attention.\<close>
theorem stale_sense_key:
  assumes "lun (cur s) = 0" "unit_attention (cur s)" "c ! 0 \<notin> set known_opcodes" "sense_cmd r" "22 \<le> length (buffer s)"
  shows "\<exists>t u v. command c s = Some t \<and> command c t = Some u \<and> status (cur u) = STAT_CHECK_COND \<and>
           command r u = Some v \<and> buffer v ! 2 = SK_UNIT_ATN \<and> buffer v ! 12 = SC_INVALID_CMD"
proof -
  have c: "c ! 0 \<notin> {0x12, 0x03}" using assms(3) by (auto simp: known_opcodes_def)
  define t where "t = attention (s\<lparr>cmd_buffer := c\<rparr>)"
  have t: "command c s = Some t" "ready t" "sense_key (sense (cur t)) = SK_UNIT_ATN" "22 \<le> length (buffer t)"
    using command_attention [OF c assms(1,2)] assms(1,5) by (simp_all add: t_def ready_def)
  define u where "u = msg_complete (check_code SC_INVALID_CMD (t\<lparr>cmd_buffer := c\<rparr>))"
  have u: "command c t = Some u" "status (cur u) = STAT_CHECK_COND" "sense_key (sense (cur u)) = SK_UNIT_ATN"
    "sense_code (sense (cur u)) = SC_INVALID_CMD" "22 \<le> length (buffer u)"
    using command_unknown [OF assms(3) t(2)] t(3,4) by (simp_all add: u_def)
  obtain v where v: "command r u = Some v" "take 22 (buffer v) = sense_bytes (sense (cur u))"
    using command_sense [OF assms(4) u(5)] by blast
  have "buffer v ! 2 = SK_UNIT_ATN" "buffer v ! 12 = SC_INVALID_CMD"
    using sense_reply [OF v(2)] u(3,4) by (simp_all add: scsi_codes)
  then show ?thesis using t(1) u(1,2) v(1) by blast
qed

theorem stale_sense_key_witness:
  "\<exists>t u v. command [0x99, 0, 0, 0, 0, 0] (upd_cur (\<lambda>d. d\<lparr>unit_attention := True\<rparr>) (demo True)) = Some t \<and>
     command [0x99, 0, 0, 0, 0, 0] t = Some u \<and> command [3, 0, 0, 0, 22, 0] u = Some v \<and> buffer v ! 2 = SK_UNIT_ATN"
proof -
  let ?s = "upd_cur (\<lambda>d. d\<lparr>unit_attention := True\<rparr>) (demo True)"
  have "[0x99, 0, 0, 0, 0, 0] ! 0 \<notin> set known_opcodes" by (simp add: known_opcodes_def accepted_opcodes_def)
  moreover have "lun (cur ?s) = 0" "unit_attention (cur ?s)" "22 \<le> length (buffer ?s)" by simp_all
  ultimately show ?thesis using stale_sense_key [OF _ _ _ demo_sense_cmd, of ?s "[0x99, 0, 0, 0, 0, 0]"] by blast
qed

text \<open>
  A command changes nothing of the targets that are not addressed: neither their device
  state nor their disc, path or preference, whatever the command is.\<close>
theorem other_targets_untouched:
  assumes "SCSI_Emulate_Command s = Some t" "i \<noteq> target s"
  shows "disks t i = disks s i \<and> discs t i = discs s i \<and> paths t i = paths s i \<and> scsi_prefs t i = scsi_prefs s i \<and>
         target t = target s"
  using emulate_others [OF assms(1)] assms(2) by (simp add: others_same_def)

theorem other_targets_untouched_witness:
  "\<exists>t. SCSI_Emulate_Command (demo True) = Some t \<and> disks t 3 = disks (demo True) 3"
proof -
  have e: "SCSI_Emulate_Command (demo True) = Some (msg_complete (SCSI_TestUnitReady (demo True)))"
    by (simp add: SCSI_Emulate_Command_def SCSI_Execute_def)
  have "3 \<noteq> target (demo True)" by simp
  then show ?thesis using other_targets_untouched [OF e] e by blast
qed

text \<open>
  C27. From start-up with no disc loaded, through any attaching, detaching, commands and changes of
  the addressed target: every image file a target holds is open, no two targets share
  one, and no file was ever closed twice.\<close>
theorem image_files_owned:
  assumes "\<forall>i. tracks (discs s0 i) = []" "fresh_host (hst s0)" "\<not> bad_close (hst s0)" "target s0 < 7"
    and "emu_run (SCSIInit n s0) t"
  shows "\<not> bad_close (hst t) \<and>
         (\<forall>i < 7. \<forall>f \<in> dev_handles t i. streams (hst t) f \<noteq> None) \<and>
         (\<forall>i < 7. \<forall>j < 7. i \<noteq> j \<longrightarrow> dev_handles t i \<inter> dev_handles t j = {})"
  using emu_run_owned [OF assms(5) SCSIInit_owned [OF assms(1-4)]] by (simp add: owned_def)

theorem image_files_owned_witness:
  "\<not> bad_close (hst (snd (SCSI_Attach 0 ''disk'' (SCSIInit 4096 (demo True)))))"
proof -
  have "\<forall>i. tracks (discs (demo True) i) = []" "fresh_host (hst (demo True))" "\<not> bad_close (hst (demo True))"
    "target (demo True) < 7"
    by (simp_all add: fresh_host_def demo_host_def)
  moreover have "emu_run (SCSIInit 4096 (demo True)) (snd (SCSI_Attach 0 ''disk'' (SCSIInit 4096 (demo True))))"
    by (rule emu_run.step [OF emu_run.start emu_step.attach])
  ultimately show ?thesis using image_files_owned by blast
qed

text \<open>
  Attaching an image to an id succeeds exactly when the target answers selection afterwards;
  then it raises a unit attention, is at logical unit 0 and has the path recorded. Detaching
  it always succeeds, makes the id silent, closes every file of the target and no other.\<close>
theorem attach_then_detach:
  assumes "owned s" "i < 7" "p \<noteq> []" "SCSI_Attach (int i) p s = (ok, t)" "SCSI_Detach (int i) t = (ok', u)"
  shows "scsi_is_target_present t (int i) = ok \<and>
         (ok \<longrightarrow> unit_attention (disks t i) \<and> lun (disks t i) = 0 \<and> paths t i = take 1023 p \<and> scsi_prefs t i = Some p) \<and>
         ok' \<and> \<not> scsi_is_target_present u (int i) \<and>
         streams (hst u) = (\<lambda>f. if f \<in> dev_handles t i then None else streams (hst t) f)"
proof -
  have "owned t" using owned_Attach [OF assms(1), of "int i" p] assms(4) by simp
  from Detach_closes [OF this assms(2,5)] show ?thesis using Attach_present [OF assms(1-4)] by blast
qed

theorem attach_then_detach_witness:
  "\<exists>ok t. SCSI_Attach (int 2) ''disk'' (demo True) = (ok, t) \<and> scsi_is_target_present t (int 2) = ok"
proof -
  obtain ok t where t: "SCSI_Attach (int 2) ''disk'' (demo True) = (ok, t)" by force
  obtain ok' u where u: "SCSI_Detach (int 2) t = (ok', u)" by force
  have "''disk'' \<noteq> []" "(2 :: nat) < 7" by simp_all
  then show ?thesis using attach_then_detach [OF demo_owned _ _ t u] t by blast
qed

text \<open>
  After a MODE SELECT has set a CD-ROM drive to 2352-byte blocks, which the drive accepts, a
  READ of data transfers nothing and leaves the status of the previous command standing.\<close>
theorem raw_mode_reads_nothing:
  assumes "ready s" "read_op (c ! 0)" "cdrom (cur s)" "\<not> no_disc (disc s)" "sector_size (cur s) = 2352" "fits s"
    "unat (SCSI_GetCount (c ! 0) c) * 2352 \<le> length (buffer s)"
  shows "\<exists>t. command c s = Some t \<and> buf_size t = 0 \<and> buffer t = buffer s \<and> status (cur t) = status (cur s)"
  using raw_mode_read [OF assms] .

definition demo_cd :: "u32 \<Rightarrow> scsi" where
  "demo_cd sz =
     (demo True)\<lparr>disks := (\<lambda>i. zero_dev\<lparr>dsk := Some 0, cdrom := True, sector_size := sz\<rparr>),
       discs := (\<lambda>i. fst (CD_SetupSingleFile ''disk'' 0 8192 no_disc_state (demo_host True)))\<rparr>"

lemma demo_cd_sel [simp]:
  "cur (demo_cd sz) = zero_dev\<lparr>dsk := Some 0, cdrom := True, sector_size := sz\<rparr>"
  "disc (demo_cd sz) = fst (CD_SetupSingleFile ''disk'' 0 8192 no_disc_state (demo_host True))"
  "buffer (demo_cd sz) = replicate 4096 0x41"
  by (simp_all add: demo_cd_def cur_def disc_def demo_def)

theorem raw_mode_reads_nothing_witness:
  "\<exists>t. command [0x28, 0, 0, 0, 0, 0, 0, 0, 1, 0] (demo_cd 2352) = Some t \<and> buf_size t = 0"
proof -
  have "ready (demo_cd 2352)" "cdrom (cur (demo_cd 2352))" "sector_size (cur (demo_cd 2352)) = 2352"
    by (simp_all add: ready_def)
  moreover have "\<not> no_disc (disc (demo_cd 2352))"
    by (simp add: no_disc_def first_fh_def CD_SetupSingleFile_def CD_ClearDisc_def no_disc_state_def)
  moreover have "fits (demo_cd 2352)" by (simp add: fits_def demo_cd_def demo_def)
  moreover have "unat (SCSI_GetCount 0x28 [0x28, 0, 0, 0, 0, 0, 0, 0, 1, 0]) * 2352 \<le> length (buffer (demo_cd 2352))"
    by (simp add: SCSI_GetCount_def cdb16_def of_be16_def)
  ultimately show ?thesis
    using raw_mode_reads_nothing [of "demo_cd 2352" "[0x28, 0, 0, 0, 0, 0, 0, 0, 1, 0]"]
    by (simp add: read_op_def) blast
qed

end
