(* ===== verification/CD_Properties.thy ===== *)
theory CD_Properties
  imports SCSI_Properties
begin

section \<open>Properties of the CD-ROM drive\<close>

text \<open>
  Addresses, CUE layouts, sector reads, the table of contents and audio playback. The
  witnesses use small discs built here.
\<close>

definition a_track :: "int \<Rightarrow> cd_track_type \<Rightarrow> u32 \<Rightarrow> u32 \<Rightarrow> u32 \<Rightarrow> cd_track" where
  "a_track n ty sz start len =
     \<lparr>track_num = n, track_type = ty, track_sector_size = sz, start_lba = start, data_start_lba = start,
      length_sectors = len, file_offset = 0, track_filename = ''disk'', track_fh = Some 0\<rparr>"

definition a_disc :: "cd_track list \<Rightarrow> cd_state" where
  "a_disc ts = no_disc_state\<lparr>tracks := ts, leadout_lba := disc_leadout ts\<rparr>"

text \<open>
  Every block number below 1,151,850 (the 256 minutes the format can write) survives the
  conversion to minute, second and frame and back.\<close>
theorem MSF_round_trip:
  assumes "unat n + 150 < 1152000" "LBA_to_MSF n False = [m, s, f]"
  shows "MSF_to_LBA m s f False = n"
  using LBA_to_MSF_back [OF assms] .

theorem MSF_round_trip_witness: "LBA_to_MSF 0x1234 False = [1, 4, 10] \<and> MSF_to_LBA 1 4 10 False = 0x1234"
proof -
  have "sint (4810 :: u32) = int (unat (4810 :: u32))" by (rule sint_eq_unat) simp
  then have "LBA_to_MSF 0x1234 False = [1, 4, 10]" by (simp add: LBA_to_MSF_def)
  moreover have "unat (0x1234 :: u32) + 150 < 1152000" by simp
  ultimately show ?thesis using MSF_round_trip by blast
qed

text \<open>
  C40. On a disc laid out from a CUE sheet with one file per track, whose tracks together end
  before block 2^32, the tracks are in order without overlap, and the lookup of a block
  returns the track it lies in, for every block of every track.\<close>
theorem cue_lookup:
  assumes "disc_sectors fs ts < 4294967296" "\<forall>x \<in> set ts. 0 \<le> pregap x" "tracks cd = multi_layout fs 0 ts"
    and "t \<in> set (tracks cd)" "unat (start_lba t) \<le> unat n" "unat n < track_end t"
  shows "sorted_wrt (\<lambda>a b. track_end a \<le> unat (start_lba b)) (tracks cd) \<and> CD_FindTrackForLBA cd n = Some t"
proof -
  have r: "sorted_wrt (\<lambda>a b. track_end a \<le> unat (start_lba b)) (tracks cd)" "\<forall>t \<in> set (tracks cd). track_end t < 4294967296"
    using multi_layout_ranges [of 0 fs ts] assms(1-3) by simp_all
  show ?thesis
    using r find_sorted_ranges [OF r assms(4-6)] assms(4) by (auto simp: CD_FindTrackForLBA_def)
qed

definition cue_demo_files :: "cue_file list" where
  "cue_demo_files = [\<lparr>cf_path = ''a'', cf_size = 20480, cf_fh = Some 0\<rparr>, \<lparr>cf_path = ''b'', cf_size = 23520, cf_fh = Some 1\<rparr>]"

definition cue_demo_tracks :: "temp_track list" where
  "cue_demo_tracks =
     [\<lparr>tt_num = 1, tt_type = CD_MODE_MODE1_2048, tt_sector = 2048, tt_file = 0, index00 = -1, index01 = 0, pregap = 0\<rparr>,
      \<lparr>tt_num = 2, tt_type = CD_MODE_AUDIO, tt_sector = 2352, tt_file = 1, index00 = -1, index01 = 0, pregap = 150\<rparr>]"

theorem cue_lookup_witness:
  "CD_FindTrackForLBA (a_disc (multi_layout cue_demo_files 0 cue_demo_tracks)) 165 =
     Some (multi_layout cue_demo_files 0 cue_demo_tracks ! 1)"
proof -
  let ?ts = "multi_layout cue_demo_files 0 cue_demo_tracks"
  have l: "length ?ts = 2" by (simp add: cue_demo_tracks_def Let_def)
  have e: "start_lba (?ts ! 1) = 160" "length_sectors (?ts ! 1) = 10"
    by (simp_all add: cue_demo_tracks_def cue_demo_files_def Let_def)
  have "disc_sectors cue_demo_files cue_demo_tracks < 4294967296"
    by (simp add: disc_sectors_def track_sectors_def cue_demo_files_def cue_demo_tracks_def)
  moreover have "\<forall>x \<in> set cue_demo_tracks. 0 \<le> pregap x" by (simp add: cue_demo_tracks_def)
  moreover have "tracks (a_disc ?ts) = ?ts" by (simp add: a_disc_def)
  moreover have "?ts ! 1 \<in> set (tracks (a_disc ?ts))" using l by (simp add: a_disc_def)
  moreover have "unat (start_lba (?ts ! 1)) \<le> unat (165 :: u32)" "unat (165 :: u32) < track_end (?ts ! 1)"
    unfolding track_end_def e by simp_all
  ultimately show ?thesis using cue_lookup by blast
qed

text \<open>
  On a disc laid out from a CUE sheet with a single file, every block from the start of its
  track on is read at block number times sector size in the file, whatever pregaps and
  indexes the sheet gives.\<close>
theorem single_file_position:
  assumes "t \<in> set (single_layout fs ts)" "\<forall>x \<in> set ts. 0 \<le> index01 x \<and> index01 x < 4294967296" "start_lba t \<le> n"
  shows "track_file_pos t n = ucast n * ucast (track_sector_size t)"
  using single_layout_pos [OF assms] .

theorem single_file_position_witness:
  "track_file_pos (hd (single_layout cue_demo_files (take 1 cue_demo_tracks))) 3 = 3 * 2048"
proof -
  let ?ts = "take 1 cue_demo_tracks"
  let ?t = "hd (single_layout cue_demo_files ?ts)"
  have "single_layout cue_demo_files ?ts \<noteq> []" by (simp add: cue_demo_tracks_def Let_def)
  then have m: "?t \<in> set (single_layout cue_demo_files ?ts)" by (rule hd_in_set)
  have s: "start_lba ?t = 0" "track_sector_size ?t = 2048"
    by (simp_all add: cue_demo_tracks_def cue_demo_files_def first_index_def Let_def layout_track_def)
  have "\<forall>x \<in> set ?ts. 0 \<le> index01 x \<and> index01 x < 4294967296" by (simp add: cue_demo_tracks_def)
  moreover have "start_lba ?t \<le> 3" unfolding s by simp
  ultimately show ?thesis using single_file_position [OF m, of 3] unfolding s by simp
qed

text \<open>
  Loading a CUE sheet leaves the files that were open open; a load that fails leaves no new
  file open and no tracks, and one that succeeds has at most 100 tracks, whose files are
  among the newly opened ones.\<close>
theorem cue_load_leaks_nothing:
  assumes "CD_LoadCueSheet p cd h = (ok, cd', h')" "fresh_host h" "tracks cd = []"
  shows "(\<forall>f < next_fh h. streams h' f = streams h f) \<and> bad_close h' = bad_close h \<and>
         (\<not> ok \<longrightarrow> tracks cd' = [] \<and> (\<forall>f \<ge> next_fh h. streams h' f = None)) \<and>
         (ok \<longrightarrow> tracks cd' \<noteq> [] \<and> length (tracks cd') \<le> 100 \<and>
            (\<forall>f \<in> open_fhs (tracks cd'). next_fh h \<le> f \<and> streams h' f \<noteq> None))"
  using LoadCueSheet_post [OF assms] by (auto simp: grown_def new_handles_def)

theorem cue_load_leaks_nothing_witness:
  "\<exists>ok cd' h'. CD_LoadCueSheet ''disk'' no_disc_state (demo_host True) = (ok, cd', h') \<and> bad_close h' = False"
proof -
  obtain ok cd' h' where l: "CD_LoadCueSheet ''disk'' no_disc_state (demo_host True) = (ok, cd', h')"
    by (metis prod_cases3)
  have "fresh_host (demo_host True)" "tracks no_disc_state = []" "bad_close (demo_host True) = False"
    by (simp_all add: fresh_host_def demo_host_def no_disc_state_def)
  then show ?thesis using cue_load_leaks_nothing [OF l] l by blast
qed

text \<open>
  A drive set to 512-byte blocks returns the bytes of the 2048-byte sectors: \<open>j\<close> blocks from
  block \<open>n\<close> are the \<open>j * 512\<close> bytes that start at the right quarter in what a read of the
  sectors from \<open>n div 4\<close> on returns.\<close>
theorem small_blocks_are_slices:
  assumes "CD_Read2048 h cd (n div 4) k = (bs, True)" "unat n mod 4 + j \<le> 4 * k" "unat n + j < 4294967296"
  shows "cd_read512 h cd n j = (window (unat n mod 4 * 512) (j * 512) bs, None)"
  using cd_read512_window [OF assms] .

definition demo_disc :: cd_state where
  "demo_disc = a_disc [a_track 1 CD_MODE_MODE1_2048 2048 0 4]"

lemma demo_disc_block: "cd_block (demo_host True) demo_disc 1 = Some (replicate 2048 0x55)"
proof -
  have t: "CD_FindTrackForLBA demo_disc 1 = Some (a_track 1 CD_MODE_MODE1_2048 2048 0 4)"
    by (simp add: CD_FindTrackForLBA_def demo_disc_def a_disc_def a_track_def)
  have w: "window 2048 2048 (replicate 8192 (0x55 :: u8)) = replicate 2048 0x55" by (simp add: window_def)
  have p: "track_file_pos (a_track 1 CD_MODE_MODE1_2048 2048 0 4) 1 = 2048"
    by (simp add: a_track_def track_file_pos_def)
  have e: "track_fh (a_track 1 CD_MODE_MODE1_2048 2048 0 4) = Some 0"
    "track_type (a_track 1 CD_MODE_MODE1_2048 2048 0 4) = CD_MODE_MODE1_2048" by (simp_all add: a_track_def)
  show ?thesis
    using e by (simp add: cd_block_def t p user_offset_def cd_fread_def fread_block_def stream_data_def demo_host_def w)
qed

theorem small_blocks_are_slices_witness:
  "cd_read512 (demo_host True) demo_disc 5 2 = (replicate 1024 0x55, None)"
proof -
  have r: "CD_Read2048 (demo_host True) demo_disc (5 div 4) 1 = (replicate 2048 0x55, True)"
    using demo_disc_block by simp
  have m: "unat (5 :: u32) mod 4 + 2 \<le> 4 * 1" "unat (5 :: u32) + 2 < 4294967296" by simp_all
  show ?thesis
    using small_blocks_are_slices [OF r m] by (simp add: window_def)
qed

text \<open>
  On a data track, the user bytes that READ CD takes out of a raw sector are the bytes that READ
  returns for the block, whether the image stores cooked or raw sectors.\<close>
theorem raw_and_cooked_agree:
  assumes "CD_FindTrackForLBA cd n = Some t" "track_type t \<noteq> CD_MODE_AUDIO"
    "CD_ReadRawSector h cd n = (raw, True)" "cd_block h cd n = Some bs"
  shows "user_data (Some t) raw = bs"
  using user_data_cooked [OF assms] .

theorem raw_and_cooked_agree_witness:
  "user_data (Some (a_track 1 CD_MODE_MODE1_2048 2048 0 4)) (fst (CD_ReadRawSector (demo_host True) demo_disc 1)) =
     replicate 2048 0x55"
proof -
  have t: "CD_FindTrackForLBA demo_disc 1 = Some (a_track 1 CD_MODE_MODE1_2048 2048 0 4)"
    by (simp add: CD_FindTrackForLBA_def demo_disc_def a_disc_def a_track_def)
  have ty: "track_type (a_track 1 CD_MODE_MODE1_2048 2048 0 4) \<noteq> CD_MODE_AUDIO" by (simp add: a_track_def)
  have r: "CD_ReadRawSector (demo_host True) demo_disc 1 = (fst (CD_ReadRawSector (demo_host True) demo_disc 1), True)"
    unfolding CD_ReadRawSector_def t by (simp add: a_track_def)
  show ?thesis using raw_and_cooked_agree [OF t ty r] demo_disc_block by simp
qed

text \<open>
  A table of contents from the first track on is well formed: its length field counts the bytes
  that follow it, it has one 8-byte entry per track in order, with the track's number,
  control byte and start, and a last entry for the lead-out.\<close>
theorem toc_well_formed:
  assumes "st \<le> 1" "tracks cd \<noteq> []" "length (tracks cd) \<le> 100"
  shows "toc_field (toc_tracks cd msf st) + 2 = length (toc_tracks cd msf st) \<and>
         (\<forall>i < track_count cd. window (4 + 8 * i) 8 (toc_tracks cd msf st) =
            toc_entry msf (control (tracks cd ! i)) (word_of_int (track_num (tracks cd ! i))) (data_start_lba (tracks cd ! i))) \<and>
         window (4 + 8 * track_count cd) 8 (toc_tracks cd msf st) = toc_entry msf 0x14 0xAA (leadout_lba cd)"
  using toc_tracks_shape [OF assms] by blast

theorem toc_well_formed_witness:
  "window 12 8 (toc_tracks demo_disc False 0) = [0, 0x14, 0xAA, 0, 0, 0, 0, 4]"
proof -
  have "(0 :: u8) \<le> 1" "tracks demo_disc \<noteq> []" "length (tracks demo_disc) \<le> 100" "track_count demo_disc = 1"
    "leadout_lba demo_disc = 4"
    by (simp_all add: demo_disc_def a_disc_def track_count_def disc_leadout_def at_least_one_def a_track_def)
  then show ?thesis
    using toc_well_formed [of 0 demo_disc False] by (simp add: toc_entry_def disc_address_def be32_def)
qed

text \<open>
  \<open>d\<close> milliseconds after playback of \<open>n\<close> blocks from block \<open>l\<close> began, the head is
  \<open>d * 75 / 1000\<close> blocks further, but never past the end of the range, and the drive reports
  that it is playing exactly as long as the end has not been reached.\<close>
theorem audio_head_position:
  assumes "0 < unat n" "unat l + unat n < 4294967296" "unat now + d < 18446744073709551616" "d < 4294967296"
    "unat l + d * 75 div 1000 < 4294967296"
  shows "unat (audio_current_lba (CD_UpdateAudioPlayback (now + of_nat d) (start_audio now (l, n) cd))) =
           min (unat l + d * 75 div 1000) (unat l + unat n) \<and>
         audio_status (CD_UpdateAudioPlayback (now + of_nat d) (start_audio now (l, n) cd)) =
           (if d * 75 div 1000 < unat n then 0x11 else 0x15)"
  using audio_position [OF assms] by blast

theorem audio_head_position_witness:
  "unat (audio_current_lba (CD_UpdateAudioPlayback (5 + of_nat 2000) (start_audio 5 (300, 200) no_disc_state))) = 450"
  using audio_head_position [of 200 300 5 2000 no_disc_state] by simp

text \<open>
  Pausing stops the head: however late the next command comes, the position is the one at the
  pause. Resuming then continues from there to the same end, \<open>d * 75 / 1000\<close> blocks after
  \<open>d\<close> milliseconds.\<close>
theorem pause_holds_position:
  assumes "audio_status cd = 0x11" "\<not> audio_paused cd"
  shows "let p = pause_audio now cd; r = resume_audio later (CD_UpdateAudioPlayback later p)
         in audio_current_lba (CD_UpdateAudioPlayback later p) = audio_current_lba (CD_UpdateAudioPlayback now cd) \<and>
            audio_status r = 0x11 \<and> audio_start_lba r = audio_current_lba (CD_UpdateAudioPlayback now cd) \<and>
            audio_start_time_ms r = later \<and> audio_end_lba r = audio_end_lba cd \<and>
            audio_current_lba p \<le> audio_end_lba cd"
  using assms audio_update_playing(1) [OF assms, of now]
  by (simp add: Let_def paused_stands) (simp add: pause_audio_def resume_audio_def)

theorem pause_holds_position_witness:
  "audio_current_lba (CD_UpdateAudioPlayback 9000 (pause_audio 2005 (start_audio 5 (300, 200) no_disc_state))) =
   audio_current_lba (CD_UpdateAudioPlayback 2005 (start_audio 5 (300, 200) no_disc_state))"
proof -
  have "audio_status (start_audio 5 (300, 200) no_disc_state) = 0x11"
    "\<not> audio_paused (start_audio 5 (300, 200) no_disc_state)" by (simp_all add: start_audio_def)
  from pause_holds_position [OF this, of 2005 9000] show ?thesis by (simp add: Let_def)
qed

end
