(* ===== verification/SCSI_Transaction.thy ===== *)
theory SCSI_Transaction
  imports SCSI_Disk
begin

section \<open>A transaction from selection to the guest's memory\<close>

text \<open>
  The SCSI Manager and the target emulation composed: the TIB the guest hands to
  \<open>SCSIRead\<close> becomes a scatter/gather table, and \<open>SCSIComplete\<close> runs the command and
  scatters the answer to it. What the guest finds is stated over the byte addresses of
  its TIB, in order, so that merged table entries do not show.
\<close>

definition bytes_at :: "mac \<Rightarrow> nat list \<Rightarrow> u8 list" where
  "bytes_at m as = map (\<lambda>a. ram m (of_nat a)) as"

lemma of_nat_unat_add: "of_nat (unat p + i) = (p + of_nat i :: u32)"
  by simp

lemma fetch_bytes: "fetch m p (unat l) = bytes_at m (seg_addrs p l)"
proof -
  have "[unat p..<unat p + unat l] = map (\<lambda>i. unat p + i) [0..<unat l]"
    using map_add_upt [of "unat p" "unat l"] by (simp add: add.commute)
  then show ?thesis by (simp add: fetch_def bytes_at_def seg_addrs_def)
qed

lemma gather_bytes: "sg_gather m segs = bytes_at m (sg_addrs segs)"
  by (induction segs) (auto simp: sg_gather_def fetch_bytes bytes_at_def)

lemma set_seg_addrs: "set (seg_addrs p l) = seg_bytes (p, l)"
  by (simp add: seg_addrs_def seg_bytes_def)

lemma disjoint_from_addrs:
  "distinct (sg_addrs segs) \<Longrightarrow> \<forall>a \<in> set (sg_addrs segs). a < 4294967296 \<Longrightarrow> disjoint_segs segs"
proof (induction segs)
  case (Cons e segs)
  obtain p l where e: "e = (p, l)" by force
  have "unat p + unat l \<le> 4294967296"
  proof (cases "unat l = 0")
    case True
    then show ?thesis using unsigned_less [where 'a = nat, of p] by simp
  next
    case False
    then have "unat p + unat l - 1 \<in> set (seg_addrs p l)" by (simp add: seg_addrs_def)
    then have "unat p + unat l - 1 < 4294967296" using Cons.prems(2) e by simp
    then show ?thesis using False by simp
  qed
  moreover have "seg_bytes e \<inter> seg_bytes x = {}" if "x \<in> set segs" for x
  proof -
    obtain q k where "x = (q, k)" by force
    then have "seg_bytes x \<subseteq> set (sg_addrs segs)"
      using that by (force simp: sg_addrs_def set_seg_addrs)
    then show ?thesis using Cons.prems(1) e by (auto simp: set_seg_addrs)
  qed
  ultimately show ?case using Cons e by simp
qed simp

lemma bytes_at_cong: "(\<And>a. a \<in> set as \<Longrightarrow> ram m (of_nat a) = ram m' (of_nat a)) \<Longrightarrow> bytes_at m as = bytes_at m' as"
  by (simp add: bytes_at_def)

lemma word_write_elsewhere:
  assumes "\<forall>a \<in> set as. of_nat a \<noteq> x \<and> of_nat a \<noteq> x + 1"
  shows "bytes_at (WriteMacInt16 x v m) as = bytes_at m as"
  using assms by (intro bytes_at_cong) (auto simp: WriteMacInt16_def)

subsection \<open>The steps\<close>

lemma exec_tib_frame:
  assumes "exec_tib tib s = Some (r, t)"
  shows "phase t = phase s" "reading t = reading s" "dev t = dev s" "target_id t = target_id s"
proof -
  let ?P = "\<lambda>u. phase u = phase s \<and> reading u = reading s \<and> dev u = dev s \<and> target_id u = target_id s"
  have "?P t"
  proof (rule exec_tib_rule [where P = ?P, OF _ assms])
    show "tib_post ?P (tib_step a u)" if "?P u" for a u
      by (rule tib_step_post [where P = ?P, OF that]) (auto simp: sg_append_def split: if_splits)
  qed simp
  then show "phase t = phase s" "reading t = reading s" "dev t = dev s" "target_id t = target_id s" by blast+
qed

lemma length_sg_addrs: "length (sg_addrs segs) = sg_bytes segs"
  by (induction segs) (auto simp: sg_addrs_def sg_bytes_def seg_addrs_def)

lemma sum_list_unat:
  "sg_bytes segs < 4294967296 \<Longrightarrow> unat (sum_list (map snd segs)) = sg_bytes segs"
proof (induction segs)
  case (Cons e segs)
  then have "unat (snd e) + unat (sum_list (map snd segs)) < 4294967296" by (simp add: sg_bytes_def)
  then show ?case using Cons by (simp add: sg_bytes_def unat_plus_no_wrap)
qed (simp add: sg_bytes_def)

lemma plain_scatter [simp]: "plain (sg_scatter segs bs m) a = plain m a"
  by (induction segs bs m rule: sg_scatter.induct) simp_all

text \<open>Selection and command of a present target, from a free bus.\<close>

definition addressed_dev :: "int \<Rightarrow> int \<Rightarrow> u8 list \<Rightarrow> scsi \<Rightarrow> scsi" where
  "addressed_dev i n c d = (scsi_set_cmd n c d)\<lparr>target := nat i\<rparr>"

lemma command_phase:
  assumes "phase s = PH_FREE" "0 \<le> i" "i < 7" "scsi_is_target_present (dev s) i" "n = 6 \<or> n = 10 \<or> n = 12" "cdb_lun c = 0"
  defines "t \<equiv> s\<lparr>target_id := i, phase := PH_TRANSFER, fake_status := 0x6e, reading := False, sg := [],
                 sg_total_length := 0, dev := addressed_dev i n c (dev s)\<rparr>"
  shows "\<exists>s1 s2. SCSIGet s = (0, s1) \<and> SCSISelect scsi_is_target_present i s1 = (0, s2) \<and>
           SCSICmd scsi_set_cmd scsi_set_target n c s2 = (0, t)"
proof -
  have p: "scsi_is_target_present (scsi_set_cmd n c (dev s)) i" using assms(4) dummy.set_cmd_present by blast
  have "scsi_set_target i 0 (scsi_set_cmd n c (dev s)) = (True, addressed_dev i n c (dev s))"
    using p assms(2,3) by (simp add: scsi_set_target_def addressed_dev_def ESP_MAX_DEVS_def)
  then show ?thesis
    using assms by (auto simp: SCSIGet_def SCSISelect_def SCSICmd_def Let_def)
qed

lemma data_in_phase:
  fixes s :: "scsi smgr"
  assumes ph: "phase s = PH_TRANSFER" and sg: "sg s = []" "mgr_inv s" and tib: "noinc_tib (mem s) tib es"
    and size: "sg_bytes es < 2147483648" "length es \<le> SG_TABLE_SIZE"
    and apart: "distinct (sg_addrs es)" "\<forall>a \<in> set (sg_addrs es). a < 4294967296"
    and stat: "\<forall>a \<in> set (sg_addrs es). of_nat a \<noteq> st \<and> of_nat a \<noteq> st + 1"
    and room: "sg_bytes es \<le> length (buffer (dev s))" "length (buffer (dev s)) < 2147483648"
    and run: "SCSI_Emulate_Command ((dev s)\<lparr>buf_size := 0, buf_limit := 0\<rparr>) = Some u" "unat (buf_size u) \<le> length (buffer u)"
  shows "\<exists>t v. SCSIRead tib s = Some (0, t) \<and> SCSIComplete scsi_send_cmd msg st t = Some (0, v) \<and> phase v = PH_FREE \<and>
           dev v = u \<and>
           bytes_at (mem v) (sg_addrs es) =
             take (sg_bytes es) (take (unat (buf_size u)) (buffer u)) @ replicate (sg_bytes es - unat (buf_size u)) 0 \<and>
           (plain (mem s) st \<longrightarrow> ReadMacInt16 (mem v) st = ucast (status (cur u)))"
proof -
  let ?s = "s\<lparr>reading := True\<rparr>"
  have "sg_bytes (sg ?s) = 0" using sg by (simp add: sg_bytes_def)
  then obtain t where t: "exec_tib tib ?s = Some (0, t)" "sg_addrs (sg t) = sg_addrs es" "mem t = mem s"
    using exec_tib_noinc [of ?s tib es] tib size sg by auto
  note fr = exec_tib_frame [OF t(1)]
  have inv: "mgr_inv t" by (rule exec_tib_inv [OF t(1)]) (simp add: sg mgr_inv_cong)
  have bytes: "sg_bytes (sg t) = sg_bytes es" using arg_cong [OF t(2), of length] by (simp add: length_sg_addrs)
  have n: "unat (sg_total_length t) = sg_bytes es"
    using inv fr(1) ph sum_list_unat [of "sg t"] size(1) bytes by (simp add: mgr_inv_def)
  have dis: "disjoint_segs (sg t)" using apart by (intro disjoint_from_addrs) (simp_all add: t(2))
  have tb: "try_buffer (sg_total_length t) (dev s) = (True, dev s)"
    using room n by (intro try_buffer_fits) simp_all
  define bs where "bs = take (min (unat (buf_size u)) (sg_bytes es)) (buffer u)"
  have gb: "get_buffer 0 (min (unat (buf_size u)) (sg_bytes es)) u = (bs, u)"
    using run(2) by (simp add: get_buffer_def bs_def window_def)
  let ?m = "WriteMacInt16 msg 0 (mem t)"
  have send: "scsi_send_cmd (sg_total_length t) True (sg t) ?m (dev s) =
      Some (True, Some (ucast (status (cur u))), sg_scatter (sg t) bs ?m, u)"
    using tb run(1) gb by (simp add: scsi_send_cmd_def Let_def bytes)
  define v where "v = t\<lparr>mem := WriteMacInt16 st (ucast (ucast (status (cur u)) :: u16)) (sg_scatter (sg t) bs ?m),
      dev := u, phase := PH_FREE, fake_status := 0\<rparr>"
  have c: "SCSIComplete scsi_send_cmd msg st t = Some (0, v)"
    using fr ph send by (simp add: SCSIComplete_def Let_def v_def)
  have rd: "SCSIRead tib s = Some (0, t)" using ph t(1) by (simp add: SCSIRead_def)
  have "bytes_at (mem v) (sg_addrs es) = bytes_at (sg_scatter (sg t) bs ?m) (sg_addrs es)"
    using word_write_elsewhere [OF stat] by (simp add: v_def)
  also have "\<dots> = take (sg_bytes es) bs @ replicate (sg_bytes es - length bs) 0"
    using gather_scatter [OF dis, of bs ?m] by (simp add: gather_bytes t(2) bytes)
  also have "\<dots> = take (sg_bytes es) (take (unat (buf_size u)) (buffer u)) @ replicate (sg_bytes es - unat (buf_size u)) 0"
    using run(2) by (simp add: bs_def min_def)
  finally have b: "bytes_at (mem v) (sg_addrs es) =
      take (sg_bytes es) (take (unat (buf_size u)) (buffer u)) @ replicate (sg_bytes es - unat (buf_size u)) 0" .
  have "ReadMacInt16 (mem v) st = ucast (status (cur u))" if "plain (mem s) st"
  proof -
    have "plain (sg_scatter (sg t) bs ?m) st" using that t(3) by simp
    then have "ReadMacInt16 (mem v) st = ucast (ucast (status (cur u)) :: u16) AND 0xffff"
      by (simp add: v_def ReadMacInt16_same)
    also have "\<dots> = ucast (status (cur u))"
      unfolding mask_16_u32 by (rule bit_word_eqI) (auto simp: bit_simps dest: bit_imp_le_length)
    finally show ?thesis .
  qed
  then show ?thesis using rd c b by (auto simp: v_def)
qed

end
