(* ===== verification/Sys_Files.thy ===== *)
theory Sys_Files
  imports Host_Files
begin

section \<open>Files and devices behind the drivers\<close>

text \<open>
  \<open>SDL/sys_unix_sdl.cpp\<close> on Linux: the \<open>Sys_\<close> functions the disk and floppy drivers call,
  and \<open>FileDiskLayout\<close> of \<open>macos_util.cpp\<close>. A \<open>file_handle\<close> is an object in a store
  (\<open>handles\<close>), a pointer to it is its index and \<open>NULL\<close> is \<open>None\<close>; deleting it leaves a
  pointer that is used like \<open>NULL\<close>. A file descriptor is a stream of \<open>Host_Files\<close>. What the
  kernel answers about a \<open>/dev/\<close> name is data of the host (\<open>devices\<close>): the \<open>ioctl\<close> calls
  and the look into the table of mounted drives. Positions are 64 bits wide and stay far
  below 2^63, so they are unbounded here; but \<open>_llseek\<close>, which the Linux build defines itself,
  refuses every position whose upper 32 bits are not 0.

  \<open>read\<close> and \<open>write\<close> return a short count at the end of the file, on a full disk and at the
  end of a device; \<open>None\<close> stands for -1, which the sources turn into a \<open>size_t\<close> no request
  equals.
\<close>

record devices =
  dv_block :: "string \<Rightarrow> bool"
  dv_floppy :: "string \<Rightarrow> bool"
  dv_blocks :: "string \<Rightarrow> int option"
  dv_writable :: "string \<Rightarrow> bool"
  dv_reports_status :: "string \<Rightarrow> bool"
  dv_disc_ok :: "string \<Rightarrow> bool"
  dv_toc_ok :: "string \<Rightarrow> bool"
  dv_mounted :: "string \<Rightarrow> bool"
  dv_umount_ok :: "string \<Rightarrow> bool"

record file_handle =
  fh_name :: string
  fh_fd :: "fh option"
  fh_is_file :: bool
  fh_is_floppy :: bool
  fh_is_cdrom :: bool
  fh_read_only :: bool
  fh_start_byte :: int
  fh_file_size :: int
  fh_cdrom_cap :: bool

type_synonym sys_fh = "nat option"

record sysfs =
  fs :: host
  devs :: devices
  handles :: "nat \<Rightarrow> file_handle option"
  next_handle :: nat
  first_floppy :: sys_fh
  ejected :: "string list"

definition is_dev :: "string \<Rightarrow> bool" where
  "is_dev name \<longleftrightarrow> take 5 name = ''/dev/''"

subsection \<open>System calls\<close>

definition posix_read :: "host \<Rightarrow> fh option \<Rightarrow> nat \<Rightarrow> nat \<Rightarrow> u8 list option" where
  "posix_read h fd pos n =
     (case fd of None \<Rightarrow> None
      | Some f \<Rightarrow> (case stream_data h f of None \<Rightarrow> None | Some c \<Rightarrow> Some (window pos n c)))"

text \<open>A device cannot grow; a file grows up to \<open>max_file\<close> bytes.\<close>

definition write_room :: "host \<Rightarrow> string \<Rightarrow> u8 list \<Rightarrow> nat" where
  "write_room h path c = (if is_dev path then length c else max_file h)"

definition posix_write :: "fh option \<Rightarrow> nat \<Rightarrow> u8 list \<Rightarrow> host \<Rightarrow> nat option \<times> host" where
  "posix_write fd pos bs h =
     (case fd of None \<Rightarrow> (None, h)
      | Some f \<Rightarrow>
        (case streams h f of None \<Rightarrow> (None, h)
         | Some st \<Rightarrow>
           (case files h (st_path st) of None \<Rightarrow> (None, h)
            | Some c \<Rightarrow>
                (let k = min (length bs) (write_room h (st_path st) c - pos)
                 in if \<not> st_write st then (None, h)
                    else if bs = [] then (Some 0, h)
                    else if k = 0 then (None, h)
                    else (Some k, h\<lparr>files := (files h)(st_path st \<mapsto> file_write pos (take k bs) c)\<rparr>)))))"

definition access_w :: "string \<Rightarrow> host \<Rightarrow> bool" where
  "access_w name h \<longleftrightarrow> files h name \<noteq> None \<and> \<not> readonly h name"

subsection \<open>Layout of disk images\<close>

text \<open>Start of the data and size of the data; the first bytes of the file are not looked at.\<close>

definition FileDiskLayout :: "int \<Rightarrow> int \<times> int" where
  "FileDiskLayout sz =
     (if sz = 419284 \<or> sz = 838484 then (84, (sz - 84) AND NOT 0x1ff)
      else (sz AND 0x1ff, sz - (sz AND 0x1ff)))"

subsection \<open>Reading and writing\<close>

definition llseek_ok :: "int \<Rightarrow> fh option \<Rightarrow> bool" where
  "llseek_ok pos fd \<longleftrightarrow> \<not> (pos div 2 ^ 32 \<noteq> 0) \<and> fd \<noteq> None"

definition Sys_read :: "sys_fh \<Rightarrow> int \<Rightarrow> nat \<Rightarrow> sysfs \<Rightarrow> u8 list option" where
  "Sys_read p offset len s =
     (case p of None \<Rightarrow> Some []
      | Some a \<Rightarrow>
        (case handles s a of None \<Rightarrow> Some []
         | Some f \<Rightarrow>
             (let pos = offset + fh_start_byte f
              in if \<not> llseek_ok pos (fh_fd f) then Some []
                 else posix_read (fs s) (fh_fd f) (nat pos) len)))"

definition Sys_write :: "sys_fh \<Rightarrow> u8 list \<Rightarrow> int \<Rightarrow> sysfs \<Rightarrow> nat option \<times> sysfs" where
  "Sys_write p bs offset s =
     (case p of None \<Rightarrow> (Some 0, s)
      | Some a \<Rightarrow>
        (case handles s a of None \<Rightarrow> (Some 0, s)
         | Some f \<Rightarrow>
             (let pos = offset + fh_start_byte f
              in if \<not> llseek_ok pos (fh_fd f) then (Some 0, s)
                 else (let (r, h) = posix_write (fh_fd f) (nat pos) bs (fs s) in (r, s\<lparr>fs := h\<rparr>)))))"

lemma llseek_ok_iff: "llseek_ok pos fd \<longleftrightarrow> 0 \<le> pos \<and> pos < 2 ^ 32 \<and> fd \<noteq> None"
  by (simp add: llseek_ok_def zdiv_eq_0_iff)

text \<open>
  The search for an HFS partition: the first 64 blocks, up to one that cannot be read, for a
  partition map entry (\<open>PM\<close>) of type \<open>Apple_HFS\<close>. The block number is shifted as a 32-bit
  number.
\<close>

definition hfs_type :: "u8 list" where
  "hfs_type = [0x41, 0x70, 0x70, 0x6c, 0x65, 0x5f, 0x48, 0x46, 0x53, 0]"

definition partition_entry :: "u8 list \<Rightarrow> u32 option" where
  "partition_entry blk =
     (if of_be16 (blk ! 0) (blk ! 1) = 0x504d \<and> window 48 10 blk = hfs_type
      then Some (push_bit 9 (of_be32 (blk ! 8) (blk ! 9) (blk ! 10) (blk ! 11))) else None)"

fun hfs_search :: "(nat \<Rightarrow> u8 list option) \<Rightarrow> nat list \<Rightarrow> int" where
  "hfs_search rd [] = 0"
| "hfs_search rd (i # js) =
     (case rd i of None \<Rightarrow> 0
      | Some blk \<Rightarrow>
          if length blk \<noteq> 512 then 0
          else (case partition_entry blk of Some start \<Rightarrow> uint start | None \<Rightarrow> hfs_search rd js))"

definition set_handle :: "nat \<Rightarrow> file_handle \<Rightarrow> sysfs \<Rightarrow> sysfs" where
  "set_handle a f s = s\<lparr>handles := (handles s)(a \<mapsto> f)\<rparr>"

definition Sys_find_hfs_partition :: "nat \<Rightarrow> sysfs \<Rightarrow> sysfs" where
  "Sys_find_hfs_partition a s =
     (case handles s a of None \<Rightarrow> s
      | Some f \<Rightarrow>
          (let s1 = set_handle a (f\<lparr>fh_start_byte := 0\<rparr>) s
           in set_handle a
                (f\<lparr>fh_start_byte := hfs_search (\<lambda>i. Sys_read (Some a) (int i * 512) 512 s1) [0..<64]\<rparr>) s1))"

subsection \<open>Opening and closing\<close>

definition new_handle :: "string \<Rightarrow> bool \<Rightarrow> fh \<Rightarrow> sysfs \<Rightarrow> file_handle" where
  "new_handle name ro fd s =
     (let blk = is_dev name \<and> dv_block (devs s) name;
          cd = (blk \<and> take 7 name = ''/dev/cd'');
          layout = (if is_dev name then (0, 0) else FileDiskLayout (int (stream_size (fs s) fd)))
      in \<lparr>fh_name = name, fh_fd = Some fd, fh_is_file = (\<not> is_dev name),
         fh_is_floppy = (blk \<and> dv_floppy (devs s) name), fh_is_cdrom = cd, fh_read_only = ro,
         fh_start_byte = fst layout, fh_file_size = snd layout,
         fh_cdrom_cap = (cd \<and> dv_reports_status (devs s) name)\<rparr>)"

definition Sys_umount :: "string \<Rightarrow> sysfs \<Rightarrow> sysfs" where
  "Sys_umount name s = s\<lparr>devs := (devs s)\<lparr>dv_mounted := (dv_mounted (devs s))(name := False)\<rparr>\<rparr>"

text \<open>Opening for update falls back to opening for reading; the flag tells which it was.\<close>

definition open_host :: "string \<Rightarrow> bool \<Rightarrow> host \<Rightarrow> fh option \<times> bool \<times> host" where
  "open_host name ro h =
     (let (fd, h1) = (if ro then fopen_read name h else fopen_update name h)
      in if fd = None \<and> \<not> ro then (let (fd2, h2) = fopen_read name h1 in (fd2, True, h2)) else (fd, ro, h1))"

definition add_handle :: "string \<Rightarrow> bool \<Rightarrow> fh \<Rightarrow> sysfs \<Rightarrow> sys_fh \<times> sysfs" where
  "add_handle name ro fd s =
     (let a = next_handle s; f = new_handle name ro fd s;
          s1 = set_handle a f (s\<lparr>next_handle := Suc a\<rparr>);
          s2 = (if fh_is_file f then Sys_find_hfs_partition a s1 else s1);
          s3 = (if fh_is_floppy f \<and> first_floppy s2 = None then s2\<lparr>first_floppy := Some a\<rparr> else s2)
      in (Some a, s3))"

definition Sys_open :: "string \<Rightarrow> bool \<Rightarrow> sysfs \<Rightarrow> sys_fh \<times> sysfs" where
  "Sys_open name read_only s =
     (let ro = (read_only \<or> \<not> access_w name (fs s));
          busy = (is_dev name \<and> \<not> ro \<and> dv_mounted (devs s) name)
      in if busy \<and> \<not> dv_umount_ok (devs s) name then (None, s)
         else (let s1 = (if busy then Sys_umount name s else s); (fd, ro2, h) = open_host name ro (fs s1)
               in case fd of
                    None \<Rightarrow> (None, s1\<lparr>fs := h\<rparr>)
                  | Some f \<Rightarrow> add_handle name ro2 f (s1\<lparr>fs := h\<rparr>)))"

definition close_fd :: "fh option \<Rightarrow> host \<Rightarrow> host" where
  "close_fd fd h = (case fd of None \<Rightarrow> h | Some f \<Rightarrow> fclose f h)"

definition Sys_close :: "sys_fh \<Rightarrow> sysfs \<Rightarrow> sysfs" where
  "Sys_close p s =
     (case p of None \<Rightarrow> s
      | Some a \<Rightarrow>
        (case handles s a of None \<Rightarrow> s
         | Some f \<Rightarrow> s\<lparr>fs := close_fd (fh_fd f) (fs s), handles := (handles s)(a := None)\<rparr>))"

subsection \<open>Queries and ejecting\<close>

definition handle_at :: "sys_fh \<Rightarrow> sysfs \<Rightarrow> file_handle option" where
  "handle_at p s = (case p of None \<Rightarrow> None | Some a \<Rightarrow> handles s a)"

definition SysGetFileSize :: "sys_fh \<Rightarrow> sysfs \<Rightarrow> int" where
  "SysGetFileSize p s =
     (case handle_at p s of None \<Rightarrow> 1
      | Some f \<Rightarrow>
          if fh_is_file f then fh_file_size f
          else (case dv_blocks (devs s) (fh_name f) of None \<Rightarrow> 0 | Some n \<Rightarrow> n * 512))"

definition SysEject :: "sys_fh \<Rightarrow> sysfs \<Rightarrow> sysfs" where
  "SysEject p s =
     (case p of None \<Rightarrow> s
      | Some a \<Rightarrow>
        (case handles s a of None \<Rightarrow> s
         | Some f \<Rightarrow>
             if fh_is_floppy f then s\<lparr>ejected := ejected s @ [fh_name f]\<rparr>
             else if fh_is_cdrom f then
               (let h1 = close_fd (fh_fd f) (fs s); (fd, h2) = fopen_read (fh_name f) h1
                in set_handle a (f\<lparr>fh_fd := fd\<rparr>) (s\<lparr>ejected := ejected s @ [fh_name f], fs := h2\<rparr>))
             else s))"

definition SysFormat :: "sys_fh \<Rightarrow> sysfs \<Rightarrow> bool" where
  "SysFormat p s \<longleftrightarrow> handle_at p s \<noteq> None"

definition SysIsReadOnly :: "sys_fh \<Rightarrow> sysfs \<Rightarrow> bool" where
  "SysIsReadOnly p s =
     (case handle_at p s of None \<Rightarrow> True
      | Some f \<Rightarrow> if fh_is_floppy f then \<not> dv_writable (devs s) (fh_name f) else fh_read_only f)"

definition SysIsFixedDisk :: "sys_fh \<Rightarrow> sysfs \<Rightarrow> bool" where
  "SysIsFixedDisk p s =
     (case handle_at p s of None \<Rightarrow> True
      | Some f \<Rightarrow> fh_is_file f \<or> \<not> (fh_is_floppy f \<or> fh_is_cdrom f))"

definition SysIsDiskInserted :: "sys_fh \<Rightarrow> sysfs \<Rightarrow> bool" where
  "SysIsDiskInserted p s =
     (case handle_at p s of None \<Rightarrow> False
      | Some f \<Rightarrow>
          if fh_is_file f then True
          else if fh_is_floppy f then
            (case posix_read (fs s) (fh_fd f) 0 512 of None \<Rightarrow> False | Some bs \<Rightarrow> length bs = 512)
          else if fh_is_cdrom f then
            (if fh_cdrom_cap f then dv_disc_ok (devs s) (fh_name f) else dv_toc_ok (devs s) (fh_name f))
          else True)"

end
