(* ===== verification/Device_Manager.thy ===== *)
theory Device_Manager
  imports Sys_Files Mac_Memory "HOL-Library.Signed_Division" "HOL-Library.Monad_Syntax"
begin

section \<open>What the drivers share\<close>

text \<open>
  The Device Manager structures of \<open>include/macos_util.h\<close>, the queue functions of
  \<open>macos_util.cpp\<close>, and the environment of a driver: guest memory, the host files and the
  Mac OS traps it calls. A trap is code of the guest system, not of the emulator, so
  \<open>Execute68kTrap\<close> takes it as an argument (\<open>mac_os\<close>): the trap word, D0 and A0 and the
  memory give the new A0 and memory. Every call is recorded in \<open>traps\<close>. Registers the
  sources leave unset are 0 here; the three traps do not look at them.

  The walks along the drive queue follow links in guest memory and need not end, so they
  are partial functions; \<open>None\<close> is a walk that does not return.
\<close>

subsection \<open>Offsets and error codes\<close>

definition ioTrap :: u32 where "ioTrap = 6"
definition ioVRefNum :: u32 where "ioVRefNum = 22"
definition ioBuffer :: u32 where "ioBuffer = 32"
definition ioReqCount :: u32 where "ioReqCount = 36"
definition ioActCount :: u32 where "ioActCount = 40"
definition ioPosMode :: u32 where "ioPosMode = 44"
definition ioWPosOffset :: u32 where "ioWPosOffset = 46"
definition csCode :: u32 where "csCode = 26"
definition csParam :: u32 where "csParam = 28"
definition dCtlFlags :: u32 where "dCtlFlags = 4"
definition dCtlQHdr :: u32 where "dCtlQHdr = 6"
definition dCtlPosition :: u32 where "dCtlPosition = 16"
definition dsWriteProt :: u32 where "dsWriteProt = 2"
definition dsDiskInPlace :: u32 where "dsDiskInPlace = 3"
definition dsInstalled :: u32 where "dsInstalled = 4"
definition dsSides :: u32 where "dsSides = 5"
definition dsQLink :: u32 where "dsQLink = 6"
definition dsQType :: u32 where "dsQType = 10"
definition dsQDrive :: u32 where "dsQDrive = 12"
definition dsTwoSideFmt :: u32 where "dsTwoSideFmt = 18"
definition dsNewIntf :: u32 where "dsNewIntf = 19"
definition dsMFMDrive :: u32 where "dsMFMDrive = 22"
definition dsMFMDisk :: u32 where "dsMFMDisk = 23"
definition dsTwoMegFmt :: u32 where "dsTwoMegFmt = 24"
definition dsDriveSize :: u32 where "dsDriveSize = 18"
definition dsDriveS1 :: u32 where "dsDriveS1 = 20"
definition SIZEOF_DrvSts :: u32 where "SIZEOF_DrvSts = 30"
definition qHead :: u32 where "qHead = 2"
definition qTail :: u32 where "qTail = 6"

lemmas drv_offsets = ioTrap_def ioVRefNum_def ioBuffer_def ioReqCount_def ioActCount_def ioPosMode_def
  ioWPosOffset_def csCode_def csParam_def dCtlFlags_def dCtlQHdr_def dCtlPosition_def dsWriteProt_def
  dsDiskInPlace_def dsInstalled_def dsSides_def dsQLink_def dsQType_def dsQDrive_def dsTwoSideFmt_def
  dsNewIntf_def dsMFMDrive_def dsMFMDisk_def dsTwoMegFmt_def dsDriveSize_def dsDriveS1_def
  SIZEOF_DrvSts_def qHead_def qTail_def

definition noErr :: int where "noErr = 0"
definition controlErr :: int where "controlErr = -17"
definition statusErr :: int where "statusErr = -18"
definition readErr :: int where "readErr = -19"
definition openErr :: int where "openErr = -23"
definition writErr :: int where "writErr = -20"
definition wPrErr :: int where "wPrErr = -44"
definition paramErr :: int where "paramErr = -50"
definition nsDrvErr :: int where "nsDrvErr = -56"
definition offLinErr :: int where "offLinErr = -65"
definition verErr :: int where "verErr = -84"

lemmas drv_errors = noErr_def controlErr_def statusErr_def readErr_def writErr_def wPrErr_def paramErr_def
  nsDrvErr_def offLinErr_def verErr_def

definition four_cc :: "string \<Rightarrow> u32" where
  "four_cc cs = foldl (\<lambda>w c. w * 256 + of_char c) 0 cs"

subsection \<open>The environment of a driver\<close>

type_synonym mac_os = "u16 \<Rightarrow> u32 \<Rightarrow> u32 \<Rightarrow> mac \<Rightarrow> u32 \<times> mac"

record env =
  dmem :: mac
  sysd :: sysfs
  traps :: "(u16 \<times> u32 \<times> u32) list"

definition Execute68kTrap :: "mac_os \<Rightarrow> u16 \<Rightarrow> u32 \<Rightarrow> u32 \<Rightarrow> 'a env_scheme \<Rightarrow> u32 \<times> 'a env_scheme" where
  "Execute68kTrap os trap d0 a0 s =
     (let (r, m) = os trap d0 a0 (dmem s) in (r, s\<lparr>dmem := m, traps := traps s @ [(trap, d0, a0)]\<rparr>))"

definition wr8 :: "u32 \<Rightarrow> u32 \<Rightarrow> 'a env_scheme \<Rightarrow> 'a env_scheme" where
  "wr8 a v s = s\<lparr>dmem := WriteMacInt8 a v (dmem s)\<rparr>"

definition wr16 :: "u32 \<Rightarrow> u32 \<Rightarrow> 'a env_scheme \<Rightarrow> 'a env_scheme" where
  "wr16 a v s = s\<lparr>dmem := WriteMacInt16 a v (dmem s)\<rparr>"

definition wr32 :: "u32 \<Rightarrow> u32 \<Rightarrow> 'a env_scheme \<Rightarrow> 'a env_scheme" where
  "wr32 a v s = s\<lparr>dmem := WriteMacInt32 a v (dmem s)\<rparr>"

lemma dmem_wr:
  "dmem (wr8 a x s) = WriteMacInt8 a x (dmem s)" "dmem (wr16 a x s) = WriteMacInt16 a x (dmem s)"
  "dmem (wr32 a x s) = WriteMacInt32 a x (dmem s)"
  by (simp_all add: wr8_def wr16_def wr32_def)

definition PostEvent :: "mac_os \<Rightarrow> int \<Rightarrow> 'a env_scheme \<Rightarrow> 'a env_scheme" where
  "PostEvent os num s = snd (Execute68kTrap os 0xa02f (word_of_int num) 7 s)"

subsection \<open>Queues\<close>

definition EnqueueMac :: "u32 \<Rightarrow> u32 \<Rightarrow> mac \<Rightarrow> mac" where
  "EnqueueMac elem lst m0 =
     (let m = WriteMacInt32 elem 0 m0
      in if ReadMacInt32 m (lst + qTail) = 0
         then WriteMacInt32 (lst + qTail) elem (WriteMacInt32 (lst + qHead) elem m)
         else (let m1 = WriteMacInt32 (ReadMacInt32 m (lst + qTail)) elem m
               in WriteMacInt32 (lst + qTail) elem m1))"

definition queue_drive_num :: "mac \<Rightarrow> u32 \<Rightarrow> int" where
  "queue_drive_num m e = uint (ReadMacInt16 m (e - dsQLink + dsQDrive))"

partial_function (option) free_walk :: "mac \<Rightarrow> int \<Rightarrow> u32 \<Rightarrow> bool option" where
  "free_walk m num e =
     (if e = 0 then Some True
      else if queue_drive_num m e = num then Some False
      else free_walk m num (ReadMacInt32 m e))"

definition is_drive_number_free :: "mac \<Rightarrow> int \<Rightarrow> bool option" where
  "is_drive_number_free m num = free_walk m num (ReadMacInt32 m (0x308 + qHead))"

partial_function (option) FindFreeDriveNumber :: "mac \<Rightarrow> int \<Rightarrow> int option" where
  "FindFreeDriveNumber m num =
     Option.bind (is_drive_number_free m num) (\<lambda>free. if free then Some num else FindFreeDriveNumber m (num + 1))"

definition HasMacStarted :: "mac \<Rightarrow> bool" where
  "HasMacStarted m \<longleftrightarrow> ReadMacInt32 m 0xcfc = four_cc ''WLSC''"

text \<open>A loop whose body may not return.\<close>

primrec for_each :: "('i \<Rightarrow> 's \<Rightarrow> 's option) \<Rightarrow> 'i list \<Rightarrow> 's \<Rightarrow> 's option" where
  "for_each f [] s = Some s"
| "for_each f (i # js) s = Option.bind (f i s) (for_each f js)"

subsection \<open>Drives\<close>

record drive =
  dr_num :: int
  dr_fh :: sys_fh
  dr_mount :: bool
  dr_ro :: bool
  dr_status :: u32

text \<open>The prefs item of a drive: a leading asterisk asks for write protection.\<close>

definition drive_pref :: "string \<Rightarrow> string \<times> bool" where
  "drive_pref str = (case str of [] \<Rightarrow> (str, False) | c # cs \<Rightarrow> if c = CHR ''*'' then (cs, True) else (str, False))"

definition find_index :: "('d \<Rightarrow> bool) \<Rightarrow> 'd list \<Rightarrow> nat option" where
  "find_index P ds = find (\<lambda>i. P (ds ! i)) [0..<length ds]"

subsection \<open>The drive queue as a list\<close>

primrec drive_queue :: "mac \<Rightarrow> u32 \<Rightarrow> u32 list \<Rightarrow> bool" where
  "drive_queue m e [] = (e = 0)"
| "drive_queue m e (x # xs) = (e = x \<and> x \<noteq> 0 \<and> drive_queue m (ReadMacInt32 m x) xs)"

definition queued_numbers :: "mac \<Rightarrow> u32 list \<Rightarrow> int set" where
  "queued_numbers m es = queue_drive_num m ` set es"

lemma free_walk_queue:
  "drive_queue m e es \<Longrightarrow> free_walk m num e = Some (num \<notin> queued_numbers m es)"
proof (induction es arbitrary: e)
  case Nil
  then show ?case by (simp add: free_walk.simps [of m num 0] queued_numbers_def)
next
  case (Cons x es)
  then show ?case
    by (cases "queue_drive_num m x = num") (auto simp: free_walk.simps [of m num x] queued_numbers_def)
qed

lemma FindFree_queue:
  assumes "drive_queue m (ReadMacInt32 m (0x308 + qHead)) es"
  shows "\<exists>n. FindFreeDriveNumber m num = Some n \<and> num \<le> n \<and> n \<notin> queued_numbers m es \<and>
           (\<forall>k. num \<le> k \<and> k < n \<longrightarrow> k \<in> queued_numbers m es)"
proof (induction "card {k \<in> queued_numbers m es. num \<le> k}" arbitrary: num rule: less_induct)
  case less
  have fin: "finite {k \<in> queued_numbers m es. num \<le> k}" by (simp add: queued_numbers_def)
  have free: "is_drive_number_free m num = Some (num \<notin> queued_numbers m es)"
    unfolding is_drive_number_free_def by (rule free_walk_queue [OF assms])
  show ?case
  proof (cases "num \<in> queued_numbers m es")
    case False
    then show ?thesis using free by (auto simp: FindFreeDriveNumber.simps [of m num])
  next
    case True
    then have "{k \<in> queued_numbers m es. num + 1 \<le> k} \<subset> {k \<in> queued_numbers m es. num \<le> k}" by force
    then have "card {k \<in> queued_numbers m es. num + 1 \<le> k} < card {k \<in> queued_numbers m es. num \<le> k}"
      by (rule psubset_card_mono [OF fin])
    then obtain n where n: "FindFreeDriveNumber m (num + 1) = Some n" "num + 1 \<le> n" "n \<notin> queued_numbers m es"
        "\<forall>k. num + 1 \<le> k \<and> k < n \<longrightarrow> k \<in> queued_numbers m es"
      using less by blast
    have "k \<in> queued_numbers m es" if "num \<le> k" "k < n" for k
      using n(4) True that by (cases "k = num") auto
    then show ?thesis using n True free by (auto simp: FindFreeDriveNumber.simps [of m num])
  qed
qed

lemma env_frame [simp]:
  "sysd (wr8 a v s) = sysd s" "sysd (wr16 a v s) = sysd s" "sysd (wr32 a v s) = sysd s"
  "traps (wr8 a v s) = traps s" "traps (wr16 a v s) = traps s" "traps (wr32 a v s) = traps s"
  "dmem (wr8 a v s) = WriteMacInt8 a v (dmem s)" "dmem (wr16 a v s) = WriteMacInt16 a v (dmem s)"
  "dmem (wr32 a v s) = WriteMacInt32 a v (dmem s)"
  by (simp_all add: wr8_def wr16_def wr32_def)

lemma find_index_SomeD: "find_index P ds = Some i \<Longrightarrow> i < length ds \<and> P (ds ! i)"
  unfolding find_index_def by (drule find_SomeD) auto

end
