(* ===== verification/Mac_Blocks.thy ===== *)
theory Mac_Blocks
  imports Mac_Memory
begin

section \<open>Blocks of guest memory\<close>

text \<open>
  What the components that fill in parameter blocks and trampolines share: ranges of ordinary
  memory, what a sequence of stores leaves at the start of a block, and ranges that lie apart.
\<close>

subsection \<open>Stores inside a block\<close>

lemma fetch_store_inside:
  assumes "k + length bs \<le> n" "n \<le> 2 ^ 32"
  shows "fetch (store (a + of_nat k) bs m) a n = patch k bs (fetch m a n)"
proof (rule nth_equalityI)
  show "length (fetch (store (a + of_nat k) bs m) a n) = length (patch k bs (fetch m a n))"
    using assms by (simp add: length_patch)
  fix i assume "i < length (fetch (store (a + of_nat k) bs m) a n)"
  then have i: "i < n" by simp
  have ne: "(of_nat i :: u32) \<noteq> of_nat j" if "j < n" "j \<noteq> i" for j
    using that i assms(2) by (simp add: word_of_nat_eq_iff take_bit_nat_eq_self)
  show "fetch (store (a + of_nat k) bs m) a n ! i = patch k bs (fetch m a n) ! i"
  proof (cases "k \<le> i \<and> i < k + length bs")
    case True
    then obtain j where j: "i = k + j" "j < length bs" by (metis le_Suc_ex nat_add_left_cancel_less)
    have "fetch (store (a + of_nat k) bs m) (a + of_nat k) (length bs) = bs" using assms by (intro fetch_store_same) simp
    then have "fetch (store (a + of_nat k) bs m) (a + of_nat k) (length bs) ! j = bs ! j" by simp
    then have "ram (store (a + of_nat k) bs m) (a + of_nat k + of_nat j) = bs ! j" using j(2) by (simp add: fetch_def)
    then show ?thesis using i j assms by (simp add: fetch_def nth_patch ac_simps)
  next
    case False
    have "ram (store (a + of_nat k) bs m) (a + of_nat i) = ram m (a + of_nat i)"
    proof (rule ram_store_other, intro allI impI)
      fix j assume "j < length bs"
      then show "a + of_nat i \<noteq> a + of_nat k + of_nat j" using ne [of "k + j"] False assms(1) by auto
    qed
    then show ?thesis using i False assms by (auto simp: fetch_def nth_patch)
  qed
qed

subsection \<open>Blocks in guest memory\<close>

definition plain_block :: "mac \<Rightarrow> u32 \<Rightarrow> nat \<Rightarrow> bool" where
  "plain_block m a n \<longleftrightarrow> (\<forall>i < n. plain m (a + of_nat i))"

lemma plain_blockD: "plain_block m a n \<Longrightarrow> i < n \<Longrightarrow> plain m (a + of_nat i)"
  by (simp add: plain_block_def)

lemma plain_block_wr [simp]:
  "plain_block (WriteMacInt8 b x m) a n = plain_block m a n" "plain_block (WriteMacInt16 b x m) a n = plain_block m a n"
  "plain_block (WriteMacInt32 b x m) a n = plain_block m a n"
  by (simp_all add: plain_block_def)

subsection \<open>What a block begins with\<close>

lemma fetch_append: "fetch m a (i + j) = fetch m a i @ fetch m (a + of_nat i) j"
  by (rule nth_equalityI) (auto simp: fetch_def nth_append ac_simps)

definition begins :: "mac \<Rightarrow> u32 \<Rightarrow> u8 list \<Rightarrow> bool" where
  "begins m a bs \<longleftrightarrow> fetch m a (length bs) = bs"

lemma begins_append: "begins m a (xs @ ys) \<longleftrightarrow> begins m a xs \<and> begins m (a + of_nat (length xs)) ys"
  by (simp add: begins_def fetch_append)

lemma begins_store:
  assumes "begins m a bs" "length bs + length cs \<le> 2 ^ 32"
  shows "begins (store (a + of_nat (length bs)) cs m) a (bs @ cs)"
proof -
  have "fetch (store (a + of_nat (length bs)) cs m) a (length bs + length cs) = patch (length bs) cs (fetch m a (length bs + length cs))"
    by (rule fetch_store_inside) (use assms(2) in simp_all)
  then show ?thesis using assms(1) by (simp add: begins_def fetch_append patch_def)
qed

lemma write_stores:
  "plain m a \<Longrightarrow> WriteMacInt16 a x m = store a (be16 (ucast x)) m" "plain m a \<Longrightarrow> WriteMacInt32 a x m = store a (be32 x) m"
proof -
  have b: "(ucast (ucast x :: u16) :: u8) = ucast x" "(ucast (drop_bit 8 (ucast x :: u16)) :: u8) = ucast (drop_bit 8 x)"
    by (rule bit_word_eqI; auto simp: bit_simps)+
  show "plain m a \<Longrightarrow> WriteMacInt16 a x m = store a (be16 (ucast x)) m" by (simp add: WriteMacInt16_def be16_def b)
  show "plain m a \<Longrightarrow> WriteMacInt32 a x m = store a (be32 x) m" by (simp add: WriteMacInt32_def be32_def add.assoc)
qed

lemma begins_write16:
  "begins m a bs \<Longrightarrow> b = a + of_nat (length bs) \<Longrightarrow> plain m b \<Longrightarrow> length bs \<le> 1000 \<Longrightarrow> begins (WriteMacInt16 b x m) a (bs @ be16 (ucast x))"
  by (simp add: write_stores begins_store del: store.simps)

lemma begins_write32:
  "begins m a bs \<Longrightarrow> b = a + of_nat (length bs) \<Longrightarrow> plain m b \<Longrightarrow> length bs \<le> 1000 \<Longrightarrow> begins (WriteMacInt32 b x m) a (bs @ be32 x)"
  by (simp add: write_stores begins_store del: store.simps)

lemma begins_Nil: "begins m a []"
  by (simp add: begins_def fetch_def)

lemma begins_store_other:
  assumes "begins m a bs" "\<And>i j. i < length bs \<Longrightarrow> j < length cs \<Longrightarrow> a + of_nat i \<noteq> b + of_nat j"
  shows "begins (store b cs m) a bs"
proof -
  have "fetch (store b cs m) a (length bs) = fetch m a (length bs)"
    unfolding fetch_def by (rule map_cong [OF refl]) (rule ram_store_other, use assms(2) in auto)
  then show ?thesis using assms(1) by (simp add: begins_def)
qed

lemma begins_nth: "begins m a bs \<Longrightarrow> i < length bs \<Longrightarrow> ram m (a + of_nat i) = bs ! i"
proof -
  assume "begins m a bs" "i < length bs"
  then have "fetch m a (length bs) ! i = bs ! i" by (simp add: begins_def)
  then show ?thesis using \<open>i < length bs\<close> by (simp add: fetch_def)
qed

lemma plain_block_append: "plain_block m a (j + k) \<longleftrightarrow> plain_block m a j \<and> plain_block m (a + of_nat j) k"
proof -
  have "(\<forall>i < j + k. P i) \<longleftrightarrow> (\<forall>i < j. P i) \<and> (\<forall>i < k. P (j + i))" for P :: "nat \<Rightarrow> bool"
    by (metis add_less_cancel_left le_Suc_ex linorder_not_less trans_less_add1)
  then show ?thesis by (simp add: plain_block_def add.assoc)
qed

lemma read_be16: "begins m a (be16 x) \<Longrightarrow> plain_block m a 2 \<Longrightarrow> ReadMacInt16 m a = ucast x"
  using begins_nth [of m a "be16 x" 0] begins_nth [of m a "be16 x" 1] plain_blockD [of m a 2 0] of_be16_be16 [of x]
  by (simp add: ReadMacInt16_plain be16_def)

lemma read_be32: "begins m a (be32 x) \<Longrightarrow> plain_block m a 4 \<Longrightarrow> ReadMacInt32 m a = x"
  using begins_nth [of m a "be32 x" 0] begins_nth [of m a "be32 x" 1] begins_nth [of m a "be32 x" 2] begins_nth [of m a "be32 x" 3]
    plain_blockD [of m a 4 0] of_be32_be32 [of x]
  by (simp add: ReadMacInt32_plain be32_def)

subsection \<open>Blocks of a machine without devices\<close>

lemma plain_bare: "regions m = [] \<Longrightarrow> rom_base m = 0x40800000 \<Longrightarrow> a < 0x40000000 \<Longrightarrow> n \<le> 0x10000 \<Longrightarrow> plain_block m a n"
proof -
  assume m: "regions m = []" "rom_base m = 0x40800000" "a < 0x40000000" "n \<le> 0x10000"
  have "a + of_nat i < 0x40800000" if "i < n" for i
  proof -
    have "unat (a + of_nat i) = unat a + i" using m that by (simp add: unat_word_ariths unat_of_nat word_less_nat_alt)
    then show ?thesis using m that by (simp add: word_less_nat_alt)
  qed
  then show "plain_block m a n" using m by (auto simp: plain_block_def plain_def is_mmio_addr_def FindMMIORegion_def rom_protected_def not_le)
qed

lemma apart:
  assumes "unat a + n \<le> unat b" "unat b + k < 2 ^ 32" "i < n" "j < k"
  shows "(a :: u32) + of_nat i \<noteq> b + of_nat j"
proof
  assume "a + of_nat i = b + of_nat j"
  then have "unat (a + of_nat i) = unat (b + of_nat j)" by simp
  moreover have "unat (a + of_nat i) = unat a + i" "unat (b + of_nat j) = unat b + j"
    using assms by (simp_all add: unat_word_ariths unat_of_nat)
  ultimately show False using assms by linarith
qed

end
