(* ===== verification/M68k.thy ===== *)
theory M68k
  imports Device_Manager Mac_Blocks
begin

section \<open>Registers of the 68k\<close>

text \<open>
  The register file \<open>M68kRegisters\<close> that emulator opcodes receive and that calls of guest code
  pass. Running guest code (\<open>Execute68k\<close>) is an argument of the operations that call it: the
  address, the registers and the state give the registers and the state afterwards.
\<close>

record m68k =
  dreg :: "nat \<Rightarrow> u32"
  areg :: "nat \<Rightarrow> u32"
  sreg :: u16

definition set_areg :: "nat \<Rightarrow> u32 \<Rightarrow> m68k \<Rightarrow> m68k" where
  "set_areg n v r = r\<lparr>areg := (areg r)(n := v)\<rparr>"

type_synonym 's guest_code = "u32 \<Rightarrow> m68k \<Rightarrow> 's \<Rightarrow> m68k \<times> 's"

definition zero_regs :: m68k where
  "zero_regs = \<lparr>dreg = (\<lambda>n. 0), areg = (\<lambda>n. 0), sreg = 0\<rparr>"

definition with_d :: "nat \<Rightarrow> u32 \<Rightarrow> m68k \<Rightarrow> m68k" where
  "with_d n v r = r\<lparr>dreg := (dreg r)(n := v)\<rparr>"

section \<open>A machine without devices\<close>

text \<open>
  The empty memory and the host without files on which the concrete examples of the components
  start: no device registers, a ROM of one megabyte at \<open>0x40800000\<close>.
\<close>

definition bare_mac :: mac where
  "bare_mac = \<lparr>ram = (\<lambda>a. 0), rom_base = 0x40800000, rom_size = 0x100000, regions = [], mmio_log = []\<rparr>"

definition bare_host :: sysfs where
  "bare_host = \<lparr>fs = \<lparr>files = (\<lambda>p. None), readonly = (\<lambda>p. False), streams = (\<lambda>f. None), next_fh = 0, max_file = 0, bad_close = False\<rparr>,
     devs = \<lparr>dv_block = (\<lambda>n. False), dv_floppy = (\<lambda>n. False), dv_blocks = (\<lambda>n. None), dv_writable = (\<lambda>n. False),
       dv_reports_status = (\<lambda>n. False), dv_disc_ok = (\<lambda>n. False), dv_toc_ok = (\<lambda>n. False),
       dv_mounted = (\<lambda>n. False), dv_umount_ok = (\<lambda>n. False)\<rparr>,
     handles = (\<lambda>a. None), next_handle = 0, first_floppy = None, ejected = []\<rparr>"

end
