(* ===== verification/SCSI_Dispatch.thy ===== *)
theory SCSI_Dispatch
  imports SCSI_Manager M68k
begin

section \<open>The SCSI trap\<close>

text \<open>
  \<open>M68K_EMUL_OP_SCSI_DISPATCH\<close> of \<open>emul_op.cpp\<close>: the trap through which the guest reaches the SCSI
  Manager. The stack holds the return address, a selector and the arguments in Pascal order, with
  room for the result below them. \<open>None\<close> is a call that does not come back, or the end of
  the emulator for a selector it does not know.
\<close>

definition stack_word :: "'d smgr \<Rightarrow> u32 \<Rightarrow> u32 \<Rightarrow> int" where
  "stack_word s a7 off = uint (ReadMacInt16 (mem s) (a7 + off))"

definition stack_long :: "'d smgr \<Rightarrow> u32 \<Rightarrow> u32 \<Rightarrow> u32" where
  "stack_long s a7 off = ReadMacInt32 (mem s) (a7 + off)"

definition put_result :: "u32 \<Rightarrow> int \<times> 'd smgr \<Rightarrow> 'd smgr" where
  "put_result a rs = (snd rs)\<lparr>mem := WriteMacInt16 a (word_of_int (fst rs)) (mem (snd rs))\<rparr>"

text \<open>The selectors: the state with the result written, and the bytes of arguments to remove.\<close>

definition scsi_call ::
  "('d \<Rightarrow> int \<Rightarrow> bool) \<Rightarrow> (int \<Rightarrow> u8 list \<Rightarrow> 'd \<Rightarrow> 'd) \<Rightarrow> (int \<Rightarrow> int \<Rightarrow> 'd \<Rightarrow> bool \<times> 'd) \<Rightarrow> 'd send_fn \<Rightarrow>
   u32 \<Rightarrow> u32 \<Rightarrow> 'd smgr \<Rightarrow> ('d smgr \<times> u32) option" where
  "scsi_call present set_cmd set_target send_cmd sel a7 s =
     (if sel = 0 then Some (put_result a7 (SCSIReset s), 0)
      else if sel = 1 then Some (put_result a7 (SCSIGet s), 0)
      else if sel = 2 \<or> sel = 11
      then Some (put_result (a7 + 2) (SCSISelect present (uint (ReadMacInt16 (mem s) a7 AND 0xff)) s), 2)
      else if sel = 3
      then Some (put_result (a7 + 6) (SCSICmd set_cmd set_target (stack_word s a7 0) (fetch (mem s) (stack_long s a7 2) 12) s), 6)
      else if sel = 4
      then map_option (\<lambda>rs. (put_result (a7 + 12) rs, 12)) (SCSIComplete send_cmd (stack_long s a7 4) (stack_long s a7 8) s)
      else if sel = 5 \<or> sel = 8 then map_option (\<lambda>rs. (put_result (a7 + 4) rs, 4)) (SCSIRead (stack_long s a7 0) s)
      else if sel = 6 \<or> sel = 9 then map_option (\<lambda>rs. (put_result (a7 + 4) rs, 4)) (SCSIWrite (stack_long s a7 0) s)
      else if sel = 10 then Some (put_result a7 (uint (SCSIStat s), s), 0)
      else if sel = 12 then Some (put_result (a7 + 4) (0, s), 4)
      else if sel = 13 then Some (put_result (a7 + 2) (0, s), 2)
      else if sel = 14 then Some (put_result a7 (SCSIMgrBusy s, s), 0)
      else None)"

definition SCSIDispatch ::
  "('d \<Rightarrow> int \<Rightarrow> bool) \<Rightarrow> (int \<Rightarrow> u8 list \<Rightarrow> 'd \<Rightarrow> 'd) \<Rightarrow> (int \<Rightarrow> int \<Rightarrow> 'd \<Rightarrow> bool \<times> 'd) \<Rightarrow> 'd send_fn \<Rightarrow>
   m68k \<Rightarrow> 'd smgr \<Rightarrow> (m68k \<times> 'd smgr) option" where
  "SCSIDispatch present set_cmd set_target send_cmd r s =
     (let ret = ReadMacInt32 (mem s) (areg r 7);
          sel = ReadMacInt16 (mem s) (areg r 7 + 4);
          r1 = set_areg 7 (areg r 7 + 6) r
      in map_option (\<lambda>(s', stack). (set_areg 1 (areg r1 7 + stack) (set_areg 0 ret r1), s'))
           (scsi_call present set_cmd set_target send_cmd sel (areg r1 7) s))"

subsection \<open>What the trap pushes\<close>

text \<open>
  The bytes of arguments of each routine in the interface of the SCSI Manager: a word for the target,
  a message or a count, a long for a pointer or a number of ticks.
\<close>

definition arg_bytes :: "u32 \<Rightarrow> u32 option" where
  "arg_bytes sel =
     (if sel \<in> {0, 1, 10, 14} then Some 0 else if sel \<in> {2, 11, 13} then Some 2 else if sel \<in> {5, 6, 8, 9, 12} then Some 4
      else if sel = 3 then Some (2 + 4) else if sel = 4 then Some (4 + 4 + 4) else None)"

lemma scsi_call_run:
  assumes "scsi_call present set_cmd set_target send_cmd sel a7 s = Some (s', stack)"
  shows "\<exists>res t. mgr_run present set_cmd set_target send_cmd s t \<and> arg_bytes sel = Some stack \<and> s' = put_result (a7 + stack) (res, t)"
proof -
  have one: "mgr_run present set_cmd set_target send_cmd s t" if "mgr_step present set_cmd set_target send_cmd s t" for t
    by (rule mgr_run.step [OF mgr_run.start that])
  have ops: "mgr_run present set_cmd set_target send_cmd s (snd (SCSIReset s))" "mgr_run present set_cmd set_target send_cmd s (snd (SCSIGet s))"
    "mgr_run present set_cmd set_target send_cmd s (snd (SCSISelect present i s))"
    "mgr_run present set_cmd set_target send_cmd s (snd (SCSICmd set_cmd set_target n c s))"
    "SCSIComplete send_cmd msg st s = Some rs \<Longrightarrow> mgr_run present set_cmd set_target send_cmd s (snd rs)"
    "SCSIRead tib s = Some rs \<Longrightarrow> mgr_run present set_cmd set_target send_cmd s (snd rs)"
    "SCSIWrite tib s = Some rs \<Longrightarrow> mgr_run present set_cmd set_target send_cmd s (snd rs)" for i n c msg st tib rs
    by (rule one; cases rs; force intro: mgr_step.intros prod.collapse [symmetric])+
  have put: "put_result a rs = put_result a (fst rs, snd rs)" for a and rs :: "int \<times> 'a smgr" by simp
  show ?thesis
    using assms mgr_run.start [of present set_cmd set_target send_cmd s]
    unfolding scsi_call_def arg_bytes_def
    by (auto split: if_splits intro: ops put)
qed

lemma SCSIDispatch_inv:
  assumes "SCSIDispatch present set_cmd set_target send_cmd r s = Some (r', s')" "mgr_inv s"
  shows "mgr_inv s'"
proof -
  obtain stack where "scsi_call present set_cmd set_target send_cmd (ReadMacInt16 (mem s) (areg r 7 + 4)) (areg r 7 + 6) s = Some (s', stack)"
    using assms(1) by (auto simp: SCSIDispatch_def Let_def set_areg_def)
  from scsi_call_run [OF this] obtain res t where t: "mgr_run present set_cmd set_target send_cmd s t" "s' = put_result (areg r 7 + 6 + stack) (res, t)"
    by blast
  show ?thesis using mgr_run_inv [OF t(1) assms(2)] mgr_inv_cong(1) [of t] by (simp add: t(2) put_result_def)
qed

subsection \<open>The calls of the SCSI Manager\<close>

text \<open>
  The interface the trap serves, as the guest sees it: a routine and its arguments in the order of
  the Pascal declarations, pushed from left to right, so that the last one lies lowest on the stack.
\<close>

datatype scsi_request =
  Req_Reset | Req_Get | Req_Select u16 | Req_SelAtn u16 | Req_Cmd u32 u16 | Req_Complete u32 u32 u32
  | Req_Read u32 | Req_RBlind u32 | Req_Write u32 | Req_WBlind u32 | Req_Stat | Req_MsgIn u32 | Req_MsgOut u16 | Req_MgrBusy

datatype pushed = Pushed_Word u16 | Pushed_Long u32

fun pushed_bytes :: "pushed \<Rightarrow> u8 list" where
  "pushed_bytes (Pushed_Word w) = be16 w"
| "pushed_bytes (Pushed_Long l) = be32 l"

fun selector :: "scsi_request \<Rightarrow> u16" where
  "selector Req_Reset = 0"
| "selector Req_Get = 1"
| "selector (Req_Select i) = 2"
| "selector (Req_SelAtn i) = 11"
| "selector (Req_Cmd buffer count) = 3"
| "selector (Req_Complete stat message wait) = 4"
| "selector (Req_Read tib) = 5"
| "selector (Req_RBlind tib) = 8"
| "selector (Req_Write tib) = 6"
| "selector (Req_WBlind tib) = 9"
| "selector Req_Stat = 10"
| "selector (Req_MsgIn message) = 12"
| "selector (Req_MsgOut message) = 13"
| "selector Req_MgrBusy = 14"

fun pascal_args :: "scsi_request \<Rightarrow> pushed list" where
  "pascal_args (Req_Select i) = [Pushed_Word i]"
| "pascal_args (Req_SelAtn i) = [Pushed_Word i]"
| "pascal_args (Req_Cmd buffer count) = [Pushed_Long buffer, Pushed_Word count]"
| "pascal_args (Req_Complete stat message wait) = [Pushed_Long stat, Pushed_Long message, Pushed_Long wait]"
| "pascal_args (Req_Read tib) = [Pushed_Long tib]"
| "pascal_args (Req_RBlind tib) = [Pushed_Long tib]"
| "pascal_args (Req_Write tib) = [Pushed_Long tib]"
| "pascal_args (Req_WBlind tib) = [Pushed_Long tib]"
| "pascal_args (Req_MsgIn message) = [Pushed_Long message]"
| "pascal_args (Req_MsgOut message) = [Pushed_Word message]"
| "pascal_args req = []"

definition arg_block :: "scsi_request \<Rightarrow> u8 list" where
  "arg_block req = concat (map pushed_bytes (rev (pascal_args req)))"

definition trap_frame :: "u32 \<Rightarrow> scsi_request \<Rightarrow> u8 list" where
  "trap_frame ret req = be32 ret @ be16 (selector req) @ arg_block req"

text \<open>What each call answers and does; the messages of the bus are accepted and dropped.\<close>

fun served ::
  "('d \<Rightarrow> int \<Rightarrow> bool) \<Rightarrow> (int \<Rightarrow> u8 list \<Rightarrow> 'd \<Rightarrow> 'd) \<Rightarrow> (int \<Rightarrow> int \<Rightarrow> 'd \<Rightarrow> bool \<times> 'd) \<Rightarrow> 'd send_fn \<Rightarrow>
   scsi_request \<Rightarrow> 'd smgr \<Rightarrow> (int \<times> 'd smgr) option" where
  "served present set_cmd set_target send_cmd Req_Reset s = Some (SCSIReset s)"
| "served present set_cmd set_target send_cmd Req_Get s = Some (SCSIGet s)"
| "served present set_cmd set_target send_cmd (Req_Select i) s = Some (SCSISelect present (uint (i AND 0xff)) s)"
| "served present set_cmd set_target send_cmd (Req_SelAtn i) s = Some (SCSISelect present (uint (i AND 0xff)) s)"
| "served present set_cmd set_target send_cmd (Req_Cmd buffer count) s =
     Some (SCSICmd set_cmd set_target (uint count) (fetch (mem s) buffer 12) s)"
| "served present set_cmd set_target send_cmd (Req_Complete stat message wait) s = SCSIComplete send_cmd message stat s"
| "served present set_cmd set_target send_cmd (Req_Read tib) s = SCSIRead tib s"
| "served present set_cmd set_target send_cmd (Req_RBlind tib) s = SCSIRead tib s"
| "served present set_cmd set_target send_cmd (Req_Write tib) s = SCSIWrite tib s"
| "served present set_cmd set_target send_cmd (Req_WBlind tib) s = SCSIWrite tib s"
| "served present set_cmd set_target send_cmd Req_Stat s = Some (uint (SCSIStat s), s)"
| "served present set_cmd set_target send_cmd (Req_MsgIn message) s = Some (0, s)"
| "served present set_cmd set_target send_cmd (Req_MsgOut message) s = Some (0, s)"
| "served present set_cmd set_target send_cmd Req_MgrBusy s = Some (SCSIMgrBusy s, s)"

lemmas trap_args = arg_block_def pushed_bytes.simps pascal_args.simps

lemma uint_widened: "uint (ucast (i :: u16) :: u32) = uint i"
  by (rule bit_eqI) (auto simp: bit_simps dest: bit_imp_le_length)

lemma low_byte_widened: "uint ((ucast (i :: u16) :: u32) AND 0xff) = uint (i AND 0xff)"
proof -
  have m: "(0xff :: u16) = mask 8" by (simp add: mask_eq_exp_minus_1)
  have "(ucast i :: u32) AND 0xff = ucast (i AND 0xff)"
    unfolding mask_8_u32 m by (rule bit_word_eqI) (auto simp: bit_simps)
  then show ?thesis by (simp add: uint_widened)
qed

lemma plain_parts:
  "plain_block m a 6 \<Longrightarrow> plain_block m a 2 \<and> plain_block m (a + 2) 4"
  "plain_block m a 12 \<Longrightarrow> plain_block m a 4 \<and> plain_block m (a + 4) 4 \<and> plain_block m (a + 8) 4"
  using plain_block_append [of m a 2 4] plain_block_append [of m a 4 8] plain_block_append [of m "a + 4" 4 4]
  by (simp_all add: add.commute [of 8 a])

lemma scsi_call_serves:
  assumes "begins (mem s) a (arg_block req)" "plain_block (mem s) a (length (arg_block req))"
  shows "scsi_call present set_cmd set_target send_cmd (ucast (selector req)) a s =
         map_option (\<lambda>rs. (put_result (a + of_nat (length (arg_block req))) rs, of_nat (length (arg_block req))))
           (served present set_cmd set_target send_cmd req s)"
  using assms
  by (cases req)
    (auto simp: scsi_call_def trap_args begins_append read_be16 read_be32 low_byte_widened
      stack_word_def stack_long_def uint_widened add.commute [of 8 a] dest!: plain_parts)

end
