(* ===== verification/Bus_Properties.thy ===== *)
theory Bus_Properties
  imports SCSI_Properties SCSI_Transaction SCSI_Dispatch
begin

section \<open>Properties of guest memory and of the SCSI Manager\<close>

text \<open>
  Guest memory as \<open>include/cpu_emulation.h\<close> accesses it, and the transaction machine of
  \<open>scsi.cpp\<close>. The witnesses run on small memories built here.
\<close>

definition device :: "u32 \<Rightarrow> u32 \<Rightarrow> mmio_region" where
  "device base len = \<lparr>mm_base = base, mm_length = len, mm_read = Some (\<lambda>a. a AND 0xff), mm_write = True\<rparr>"

definition board :: mac where
  "board = \<lparr>ram = (\<lambda>a. 0), rom_base = 0x40800000, rom_size = 0x100000, regions = [device 0x50f04000 0x2000], mmio_log = []\<rparr>"

text \<open>
  In ordinary memory (no device answers at the address, and it is not ROM) a 32-bit value
  written is read back, its bytes are in big-endian order, and no other byte changes.\<close>
theorem long_write_read_back:
  assumes "plain m a"
  shows "ReadMacInt32 (WriteMacInt32 a v m) a = v \<and>
         fetch (WriteMacInt32 a v m) a 4 = be32 v \<and>
         (\<forall>x. x \<notin> {a, a + 1, a + 2, a + 3} \<longrightarrow> ram (WriteMacInt32 a v m) x = ram m x)"
proof -
  have four: "[0..<4] = [0, 1, 2, 3]" by (simp add: upt_rec)
  have "fetch (WriteMacInt32 a v m) a 4 = be32 v"
    using assms four by (simp add: fetch_def be32_def ram_WriteMacInt32)
  then show ?thesis using assms by (simp add: ReadMacInt32_same ram_WriteMacInt32)
qed

theorem long_write_read_back_witness: "ReadMacInt32 (WriteMacInt32 0x1000 0xDEADBEEF board) 0x1000 = 0xDEADBEEF"
proof -
  have "plain board 0x1000"
    by (simp add: plain_def is_mmio_addr_def FindMMIORegion_def region_covers_def board_def device_def rom_protected_def)
  then show ?thesis using long_write_read_back by blast
qed

text \<open>
  Writes of any size that start in the ROM range, where no device answers, change nothing.\<close>
theorem rom_is_write_protected:
  assumes "rom_protected m a" "\<not> is_mmio_addr m a"
  shows "WriteMacInt8 a v m = m \<and> WriteMacInt16 a v m = m \<and> WriteMacInt32 a v m = m"
proof -
  have "\<not> write_handled m a" using assms(2) by (auto simp: write_handled_def is_mmio_addr_def split: option.splits)
  then show ?thesis using assms by (simp add: WriteMacInt8_def WriteMacInt16_def WriteMacInt32_def)
qed

theorem rom_is_write_protected_witness: "WriteMacInt32 0x40800010 7 board = board"
proof -
  have "rom_protected board 0x40800010" "\<not> is_mmio_addr board 0x40800010"
    by (simp_all add: is_mmio_addr_def FindMMIORegion_def region_covers_def board_def device_def rom_protected_def)
  then show ?thesis using rom_is_write_protected by blast
qed

text \<open>
  The ROM check looks at the first byte only: a 32-bit write that starts in ordinary memory just
  below the ROM changes the first bytes of the ROM.\<close>
theorem straddling_write_changes_rom:
  assumes "plain m (rom_base m - 2)" "rom_protected m (rom_base m + 1)"
  shows "ram (WriteMacInt32 (rom_base m - 2) v m) (rom_base m + 1) = ucast v"
proof -
  have "rom_base m - 2 + 3 = rom_base m + 1" by simp
  then show ?thesis using assms by (simp add: ram_WriteMacInt32)
qed

theorem straddling_write_changes_rom_witness:
  "rom_protected board 0x40800001 \<and> ram board 0x40800001 = 0 \<and>
   ram (WriteMacInt32 0x407ffffe 0x11223344 board) 0x40800001 = 0x44"
proof -
  have "plain board (rom_base board - 2)" "rom_protected board (rom_base board + 1)"
    by (simp_all add: plain_def is_mmio_addr_def FindMMIORegion_def region_covers_def board_def device_def rom_protected_def)
  from straddling_write_changes_rom [OF this, of "0x11223344"] this(2) show ?thesis by (simp add: board_def)
qed

lemma low_bytes:
  "drop_bit 8 ((v :: u32) AND 0xffff) = drop_bit 8 v AND 0xff" "drop_bit 24 v AND 0xff = drop_bit 24 v"
  "(v AND 0xffff) AND 0xff = v AND 0xff"
  unfolding mask_8_u32 mask_16_u32 by (rule bit_word_eqI; force simp: bit_simps dest: bit_imp_le_length)+

text \<open>
  A 32-bit write to a device (whose region covers the address and the one two bytes on, with a
  write handler) is four calls of its handler, one per byte in big-endian order, and leaves
  memory alone.\<close>
theorem device_long_write:
  assumes "write_handled m a" "write_handled m (a + 2)"
  shows "WriteMacInt32 a v m =
         m\<lparr>mmio_log := mmio_log m @ zip [a, a + 1, a + 2, a + 3] (map ucast (be32 v))\<rparr>"
proof -
  have i: "is_mmio_addr m a" using assms(1) by (auto simp: write_handled_def is_mmio_addr_def split: option.splits)
  have h: "write_handled (mmio_call x y m') b = write_handled m' b" for x y b m'
    by (rule routing_cong) simp_all
  have w: "a + 2 + 1 = a + 3" by simp
  show ?thesis
    using i assms
    by (simp add: WriteMacInt32_def WriteMacInt16_def h low_bytes be32_def ucast_ucast_u8 w del: add.assoc)
qed

theorem device_long_write_witness:
  "mmio_log (WriteMacInt32 0x50f04010 0x01020304 board) = [(0x50f04010, 1), (0x50f04011, 2), (0x50f04012, 3), (0x50f04013, 4)]"
proof -
  have "write_handled board 0x50f04010" "write_handled board (0x50f04010 + 2)"
    by (simp_all add: write_handled_def FindMMIORegion_def region_covers_def board_def device_def)
  from device_long_write [OF this, of "0x01020304"] show ?thesis by (simp add: be32_def board_def)
qed

section \<open>The SCSI Manager\<close>

text \<open>
  C38. Through any calls of the SCSI Manager, on any targets, after which the calls return: the status
  word always says the phase, the scatter/gather table never passes its 32768 entries, in a
  transaction the total handed to the target is the sum of the entries (modulo 2^32), and a
  selected target has an id from 0 to 7.\<close>
theorem manager_invariant:
  assumes "mgr_run present set_cmd set_target send_cmd s t" "mgr_inv s"
  shows "SCSIStat t = status_of_phase (phase t) \<and> length (sg t) \<le> SG_TABLE_SIZE \<and>
         (phase t \<noteq> PH_FREE \<longrightarrow> sg_total_length t = sum_list (map snd (sg t))) \<and>
         (phase t = PH_SELECTED \<or> phase t = PH_TRANSFER \<longrightarrow> 0 \<le> target_id t \<and> target_id t \<le> 7)"
  using mgr_run_inv [OF assms] by (simp add: mgr_inv_def SCSIStat_def)

definition idle_manager :: "mac \<Rightarrow> scsi \<Rightarrow> scsi smgr" where
  "idle_manager m d =
     \<lparr>target_id = 8, phase = PH_FREE, fake_status = 0, reading = False, sg = [], sg_total_length = 0, mem = m, dev = d\<rparr>"

lemma idle_manager_inv: "mgr_inv (idle_manager m d)"
  by (simp add: mgr_inv_def idle_manager_def status_of_phase_def)

theorem manager_invariant_witness:
  "SCSIStat (snd (SCSISelect scsi_is_target_present 0 (snd (SCSIGet (idle_manager board (demo True)))))) = 0x6a"
proof -
  let ?s1 = "snd (SCSIGet (idle_manager board (demo True)))"
  let ?s2 = "snd (SCSISelect scsi_is_target_present 0 ?s1)"
  have "mgr_run scsi_is_target_present scsi_set_cmd scsi_set_target scsi_send_cmd (idle_manager board (demo True)) ?s2"
    by (rule mgr_run.step [OF mgr_run.step [OF mgr_run.start mgr_step.get] mgr_step.select])
      (rule prod.collapse [symmetric])+
  from manager_invariant [OF this idle_manager_inv] show ?thesis
    by (simp add: SCSIGet_def SCSISelect_def idle_manager_def Let_def scsi_is_target_present_def ESP_MAX_DEVS_def demo_def
        status_of_phase_def)
qed

text \<open>
  A command to a present target at logical unit 0 is accepted and makes that target current; a
  command with another logical unit, or to a target that went away, frees the bus with a
  communication error.\<close>
theorem selected_command:
  assumes "phase s = PH_ARBITRATED" "0 \<le> i" "i \<le> 7" "scsi_is_target_present (dev s) i" "n = 6 \<or> n = 10 \<or> n = 12"
  shows "\<exists>s1 s2 r. SCSISelect scsi_is_target_present i s = (0, s1) \<and>
           SCSICmd scsi_set_cmd scsi_set_target n c s1 = (r, s2) \<and>
           (cdb_lun c = 0 \<longrightarrow> r = 0 \<and> phase s2 = PH_TRANSFER \<and> int (target (dev s2)) = i) \<and>
           (cdb_lun c \<noteq> 0 \<longrightarrow> r = scCommErr \<and> phase s2 = PH_FREE)"
proof -
  obtain s1 where s1: "SCSISelect scsi_is_target_present i s = (0, s1)" "phase s1 = PH_SELECTED"
    using assms by (auto simp: SCSISelect_def Let_def)
  show ?thesis
  proof (cases "cdb_lun c = 0")
    case True
    then show ?thesis using dummy.select_and_command [OF assms True] by auto
  next
    case False
    then show ?thesis using dummy.command_refused [OF s1(2) assms(5)] s1(1) by blast
  qed
qed

theorem selected_command_witness:
  "\<exists>s1 s2. SCSISelect scsi_is_target_present 0 (snd (SCSIGet (idle_manager board (demo True)))) = (0, s1) \<and>
     SCSICmd scsi_set_cmd scsi_set_target 6 [0, 0, 0, 0, 0, 0] s1 = (0, s2) \<and> phase s2 = PH_TRANSFER"
proof -
  let ?s = "snd (SCSIGet (idle_manager board (demo True)))"
  have "phase ?s = PH_ARBITRATED" "scsi_is_target_present (dev ?s) 0"
    by (simp_all add: SCSIGet_def idle_manager_def scsi_is_target_present_def ESP_MAX_DEVS_def demo_def)
  moreover have "cdb_lun [0, 0, 0, 0, 0, 0] = 0" by (simp add: cdb_lun_def)
  ultimately show ?thesis
    using selected_command [of ?s 0 6 "[0, 0, 0, 0, 0, 0]"] by fastforce
qed

text \<open>
  A TIB program that is a straight list of transfers (\<open>scNoInc\<close>) up to \<open>scStop\<close> returns, and
  the scatter/gather table then covers exactly the bytes the program lists, in order,
  after those it covered before.\<close>
theorem straight_tib_is_collected:
  assumes "noinc_tib (mem s) a es" "sg_bytes (sg s) + sg_bytes es < 2 ^ 32" "length (sg s) + length es \<le> SG_TABLE_SIZE"
  shows "\<exists>t. exec_tib a s = Some (0, t) \<and> sg_addrs (sg t) = sg_addrs (sg s) @ sg_addrs es \<and> mem t = mem s"
  using exec_tib_noinc [OF assms] .

definition listing :: "u32 \<Rightarrow> u8 list \<Rightarrow> mac" where
  "listing a bs = board\<lparr>ram := (\<lambda>x. if a \<le> x \<and> unat (x - a) < length bs then bs ! unat (x - a) else 0)\<rparr>"

definition a_tib :: "u8 list" where
  "a_tib = [0, 2, 0, 0, 0x20, 0, 0, 0, 0, 4, 0, 2, 0, 0, 0x30, 0, 0, 0, 0, 4, 0, 7]"

lemma listing_plain: "unat x < 0x40800000 \<Longrightarrow> plain (listing a bs) x"
  by (simp add: plain_def is_mmio_addr_def FindMMIORegion_def region_covers_def board_def device_def rom_protected_def
      listing_def word_le_nat_alt word_less_nat_alt)

lemma a_tib_program: "noinc_tib (listing 0x1000 a_tib) 0x1000 [(0x2000, 4), (0x3000, 4)]"
  by (simp add: tib_entry_def ReadMacInt16_plain ReadMacInt32_plain listing_plain)
    (simp add: listing_def a_tib_def of_be16_def of_be32_def tib_opcodes)

theorem straight_tib_is_collected_witness:
  "\<exists>t. exec_tib 0x1000 (idle_manager (listing 0x1000 a_tib) (demo True)) = Some (0, t) \<and>
     sg_addrs (sg t) = [0x2000..<0x2004] @ [0x3000..<0x3004]"
proof -
  let ?s = "idle_manager (listing 0x1000 a_tib) (demo True)"
  have "mem ?s = listing 0x1000 a_tib" "sg ?s = []" by (simp_all add: idle_manager_def)
  moreover have "sg_addrs [(0x2000, 4), (0x3000, 4)] = [0x2000..<0x2004] @ [0x3000..<0x3004]"
    by (simp add: seg_addrs_def)
  moreover have "sg_bytes [(0x2000, 4), (0x3000, 4)] = 8" by (simp add: sg_bytes_def)
  ultimately show ?thesis
    using straight_tib_is_collected [of ?s "0x1000" "[(0x2000, 4), (0x3000, 4)]"] a_tib_program
    by (auto simp: sg_bytes_def SG_TABLE_SIZE_def)
qed

text \<open>
  C39. The blind-transfer loop of the Macintosh drivers (\<open>scInc\<close>, \<open>scLoop\<close> back to it, \<open>scStop\<close>, in
  ordinary memory), which counts its own second entry down and moves the pointer in its
  first, returns, and the table then covers one contiguous range of \<open>n\<close> times \<open>len\<close> bytes.\<close>
theorem loop_tib_is_collected:
  assumes "loop_tib (mem s) a ptr len n" "0 < n" "unat ptr + unat n * unat len < 2 ^ 32"
    "sg_bytes (sg s) + unat n * unat len < 2 ^ 32" "length (sg s) < SG_TABLE_SIZE"
  shows "\<exists>t. exec_tib a s = Some (0, t) \<and>
           sg_addrs (sg t) = sg_addrs (sg s) @ [unat ptr..<unat ptr + unat n * unat len]"
  using exec_tib_loop [OF assms(1-4) disjI1 [OF assms(5)]] .

definition a_loop :: "u8 list" where
  "a_loop = [0, 1, 0, 0, 0x20, 0, 0, 0, 2, 0, 0, 5, 0xFF, 0xFF, 0xFF, 0xF6, 0, 0, 0, 3, 0, 7]"

lemma a_loop_program: "loop_tib (listing 0x1000 a_loop) 0x1000 0x2000 0x200 3"
  by (simp add: loop_tib_def tib_entry_def ReadMacInt16_plain ReadMacInt32_plain listing_plain)
    (simp add: listing_def a_loop_def of_be16_def of_be32_def tib_opcodes)

theorem loop_tib_is_collected_witness:
  "\<exists>t. exec_tib 0x1000 (idle_manager (listing 0x1000 a_loop) (demo True)) = Some (0, t) \<and>
     sg_addrs (sg t) = [0x2000..<0x2600]"
proof -
  let ?s = "idle_manager (listing 0x1000 a_loop) (demo True)"
  have "mem ?s = listing 0x1000 a_loop" "sg ?s = []" by (simp_all add: idle_manager_def)
  then show ?thesis
    using loop_tib_is_collected [of ?s "0x1000" "0x2000" "0x200" 3] a_loop_program
    by (simp add: sg_bytes_def SG_TABLE_SIZE_def)
qed

text \<open>
  C35. A whole transaction that reads from a present target, from a free bus: selection, command, a
  straight TIB over disjoint bytes and completion all succeed; the bytes the TIB lists then
  hold the target's answer in order, padded with zero bytes, the guest's status word holds
  the target's status, and the bus is free again.\<close>
theorem read_transaction:
  assumes "phase s = PH_FREE" "mgr_inv s" "0 \<le> i" "i < 7" "scsi_is_target_present (dev s) i"
    and "n = 6 \<or> n = 10 \<or> n = 12" "cdb_lun c = 0"
    and "noinc_tib (mem s) tib es" "sg_bytes es < 2147483648" "length es \<le> SG_TABLE_SIZE"
    and "distinct (sg_addrs es)" "\<forall>a \<in> set (sg_addrs es). a < 4294967296"
    and "\<forall>a \<in> set (sg_addrs es). of_nat a \<noteq> st \<and> of_nat a \<noteq> st + 1" "plain (mem s) st"
    and "sg_bytes es \<le> length (buffer (dev s))" "length (buffer (dev s)) < 2147483648"
    and "SCSI_Emulate_Command ((addressed_dev i n c (dev s))\<lparr>buf_size := 0, buf_limit := 0\<rparr>) = Some u"
    and "unat (buf_size u) \<le> length (buffer u)"
  shows "\<exists>s1 s2 s3 s4 v. SCSIGet s = (0, s1) \<and> SCSISelect scsi_is_target_present i s1 = (0, s2) \<and>
           SCSICmd scsi_set_cmd scsi_set_target n c s2 = (0, s3) \<and> SCSIRead tib s3 = Some (0, s4) \<and>
           SCSIComplete scsi_send_cmd msg st s4 = Some (0, v) \<and> SCSIMgrBusy v = 0 \<and>
           bytes_at (mem v) (sg_addrs es) =
             take (sg_bytes es) (take (unat (buf_size u)) (buffer u)) @ replicate (sg_bytes es - unat (buf_size u)) 0 \<and>
           ReadMacInt16 (mem v) st = ucast (status (cur u))"
proof -
  let ?t = "s\<lparr>target_id := i, phase := PH_TRANSFER, fake_status := 0x6e, reading := False, sg := [],
              sg_total_length := 0, dev := addressed_dev i n c (dev s)\<rparr>"
  obtain s1 s2 where c: "SCSIGet s = (0, s1)" "SCSISelect scsi_is_target_present i s1 = (0, s2)"
    "SCSICmd scsi_set_cmd scsi_set_target n c s2 = (0, ?t)"
    using command_phase [OF assms(1,3-7)] by blast
  have inv: "mgr_inv ?t" using assms(3,4) by (simp add: mgr_inv_def status_of_phase_def)
  have b: "buffer (addressed_dev i n c (dev s)) = buffer (dev s)" by (simp add: addressed_dev_def scsi_set_cmd_def)
  have "\<exists>t v. SCSIRead tib ?t = Some (0, t) \<and> SCSIComplete scsi_send_cmd msg st t = Some (0, v) \<and> phase v = PH_FREE \<and>
      dev v = u \<and>
      bytes_at (mem v) (sg_addrs es) =
        take (sg_bytes es) (take (unat (buf_size u)) (buffer u)) @ replicate (sg_bytes es - unat (buf_size u)) 0 \<and>
      (plain (mem ?t) st \<longrightarrow> ReadMacInt16 (mem v) st = ucast (status (cur u)))"
    by (rule data_in_phase) (use assms b inv in simp_all)
  then show ?thesis using c assms(14) by (auto simp: SCSIMgrBusy_def)
qed

theorem read_transaction_witness:
  "\<exists>s3 s4 v. SCSIRead 0x1000 s3 = Some (0, s4) \<and> SCSIComplete scsi_send_cmd 0x4000 0x4002 s4 = Some (0, v) \<and>
     SCSIMgrBusy (v :: scsi smgr) = 0 \<and> ReadMacInt16 (mem v) 0x4002 = 0"
proof -
  let ?s = "idle_manager (listing 0x1000 a_tib) (demo True)"
  let ?c = "[0, 0, 0, 0, 0, 0] :: u8 list" and ?es = "[(0x2000, 4), (0x3000, 4)] :: (u32 \<times> u32) list"
  define d where "d = (addressed_dev 0 6 ?c (dev ?s))\<lparr>buf_size := 0, buf_limit := 0\<rparr>"
  have s: "phase ?s = PH_FREE" "mem ?s = listing 0x1000 a_tib" "dev ?s = demo True" by (simp_all add: idle_manager_def)
  have cd: "cur d = cur (demo True)"
    unfolding d_def s addressed_dev_def scsi_set_cmd_def cur_def by (simp add: demo_def)
  have o: "cmd_buffer d ! 0 = 0" unfolding d_def s by (simp add: addressed_dev_def scsi_set_cmd_def patch_def)
  define u where "u = msg_complete (SCSI_TestUnitReady d)"
  have e: "SCSI_Emulate_Command d = Some u"
    by (simp add: SCSI_Emulate_Command_def Let_def o cd SCSI_Execute_def u_def)
  have bl: "buf_size d = 0" by (simp add: d_def)
  have b: "unat (buf_size u) \<le> length (buffer u)" "status (cur u) = 0"
    by (simp_all add: u_def SCSI_TestUnitReady_def Let_def cd bl scsi_codes)
  have p: "scsi_is_target_present (dev ?s) 0" unfolding s by (simp add: scsi_is_target_present_def ESP_MAX_DEVS_def demo_def)
  have l: "cdb_lun ?c = 0" by (simp add: cdb_lun_def)
  have n: "sg_bytes ?es = 8" "sg_addrs ?es = [0x2000..<0x2004] @ [0x3000..<0x3004]"
    by (simp_all add: sg_bytes_def seg_addrs_def)
  have a: "distinct (sg_addrs ?es)" "\<forall>a \<in> set (sg_addrs ?es). a < 4294967296" unfolding n by auto
  have lt: "a < 0x3004" if "a \<in> set (sg_addrs ?es)" for a using that unfolding n by auto
  have ne: "of_nat a \<noteq> y" if "a < 0x3004" "0x3004 \<le> unat y" for a and y :: u32
    using unat_of_nat_small [of a] that by auto
  have w: "\<forall>a \<in> set (sg_addrs ?es). of_nat a \<noteq> (0x4002 :: u32) \<and> of_nat a \<noteq> (0x4002 + 1 :: u32)"
    using ne [OF lt] by simp
  have r: "sg_bytes ?es \<le> length (buffer (dev ?s))" "length (buffer (dev ?s)) < 2147483648"
    "sg_bytes ?es < 2147483648" "length ?es \<le> SG_TABLE_SIZE" unfolding s n SG_TABLE_SIZE_def by simp_all
  have st: "plain (mem ?s) 0x4002" unfolding s by (rule listing_plain) simp
  have ns: "6 = (6 :: int) \<or> 6 = (10 :: int) \<or> 6 = (12 :: int)" by simp
  have i: "0 \<le> (0 :: int)" "(0 :: int) < 7" by simp_all
  have tib: "noinc_tib (mem ?s) 0x1000 ?es" unfolding s by (rule a_tib_program)
  obtain s1 s2 s3 s4 v where "SCSIRead 0x1000 s3 = Some (0, s4)" "SCSIComplete scsi_send_cmd 0x4000 0x4002 s4 = Some (0, v)"
    "SCSIMgrBusy v = 0" "ReadMacInt16 (mem v) 0x4002 = ucast (status (cur u))"
    using read_transaction [OF s(1) idle_manager_inv i p ns l tib r(3,4) a w st r(1,2) e [unfolded d_def] b(1), of "0x4000"]
    by blast
  then show ?thesis using b(2) by auto
qed

subsection \<open>The trap of the guest\<close>

text \<open>
  C34. The trap calls the routine the guest asked for, on the arguments it pushed. With the stack in
  ordinary memory and the return address, the selector of a request and its arguments on it, the ones declared
  last lowest, the trap comes back just when the routine of that request does: SCSISelect and
  SCSISelAtn select the low byte of the id, SCSICmd hands on the count and the 12 bytes at the
  buffer, SCSIComplete gets the message and status pointers, SCSIRead and SCSIRBlind read and
  SCSIWrite and SCSIWBlind write by the TIB, SCSIStat and SCSIMgrBusy answer the state, and the
  messages answer 0. The state is then the one the routine leaves with its result in the word
  behind the arguments, where A1 points; A0 is the return address, A7 points behind the selector,
  and no other register changes. The invariant of the manager is kept.\<close>
theorem scsi_trap_is_a_manager_call:
  assumes "begins (mem s) (areg r 7) (trap_frame ret req)" "plain_block (mem s) (areg r 7) (length (trap_frame ret req))"
  shows "SCSIDispatch present set_cmd set_target send_cmd r s =
           (case served present set_cmd set_target send_cmd req s of
              None \<Rightarrow> None
            | Some (res, t) \<Rightarrow>
                Some (set_areg 1 (areg r 7 + 6 + of_nat (length (arg_block req))) (set_areg 0 ret (set_areg 7 (areg r 7 + 6) r)),
                      t\<lparr>mem := WriteMacInt16 (areg r 7 + 6 + of_nat (length (arg_block req))) (word_of_int res) (mem t)\<rparr>)) \<and>
         (\<forall>r' s'. SCSIDispatch present set_cmd set_target send_cmd r s = Some (r', s') \<longrightarrow> mgr_inv s \<longrightarrow> mgr_inv s')"
proof -
  have l: "length (trap_frame ret req) = 4 + (2 + length (arg_block req))" by (simp add: trap_frame_def)
  note f = assms [unfolded l plain_block_append, unfolded trap_frame_def begins_append, simplified]
  have w: "areg r 7 + 4 + 2 = areg r 7 + 6" by simp
  have ret: "ReadMacInt32 (mem s) (areg r 7) = ret" using f by (intro read_be32) simp_all
  have sel: "ReadMacInt16 (mem s) (areg r 7 + 4) = ucast (selector req)" using f by (intro read_be16) simp_all
  have args: "begins (mem s) (areg r 7 + 6) (arg_block req)" "plain_block (mem s) (areg r 7 + 6) (length (arg_block req))"
    using f by (simp_all add: add.commute [of 6])
  note d = SCSIDispatch_def [of present set_cmd set_target send_cmd r s, unfolded Let_def ret sel]
  have "SCSIDispatch present set_cmd set_target send_cmd r s =
      map_option (\<lambda>rs. (set_areg 1 (areg r 7 + 6 + of_nat (length (arg_block req))) (set_areg 0 ret (set_areg 7 (areg r 7 + 6) r)),
        put_result (areg r 7 + 6 + of_nat (length (arg_block req))) rs)) (served present set_cmd set_target send_cmd req s)"
    using d scsi_call_serves [OF args] by (simp add: set_areg_def option.map_comp o_def)
  then show ?thesis
    using SCSIDispatch_inv [of present set_cmd set_target send_cmd r s]
    by (auto simp: put_result_def split: option.splits)
qed

definition trap_manager_state :: "scsi smgr" where
  "trap_manager_state = (idle_manager (listing 0x8000 (trap_frame 0x1234 (Req_Select 0x100))) (demo True))\<lparr>phase := PH_ARBITRATED\<rparr>"

theorem scsi_trap_is_a_manager_call_witness:
  "\<exists>r' s'. SCSIDispatch scsi_is_target_present scsi_set_cmd scsi_set_target scsi_send_cmd (set_areg 7 0x8000 zero_regs) trap_manager_state = Some (r', s') \<and>
     areg r' 0 = 0x1234 \<and> areg r' 1 = 0x8008 \<and> phase s' = PH_SELECTED \<and> target_id s' = 0 \<and> ReadMacInt16 (mem s') 0x8008 = 0"
proof -
  let ?m = "listing 0x8000 (trap_frame 0x1234 (Req_Select 0x100))"
  have a: "areg (set_areg 7 0x8000 zero_regs) 7 = 0x8000" by (simp add: set_areg_def)
  have m: "mem trap_manager_state = ?m" by (simp add: trap_manager_state_def idle_manager_def)
  have f: "trap_frame 0x1234 (Req_Select 0x100) = [0, 0, 0x12, 0x34, 0, 2, 1, 0]"
    by (simp add: trap_frame_def trap_args be32_def be16_def)
  have b: "begins ?m 0x8000 (trap_frame 0x1234 (Req_Select 0x100))" "length (arg_block (Req_Select 0x100)) = 2"
    unfolding f begins_def by (simp_all add: fetch_def listing_def upt_rec trap_args be16_def)
  have l: "length (trap_frame 0x1234 (Req_Select 0x100)) = 8" by (simp add: f)
  have n: "i < 8 \<longleftrightarrow> i = 0 \<or> i = 1 \<or> i = 2 \<or> i = 3 \<or> i = 4 \<or> i = 5 \<or> i = 6 \<or> i = 7" for i :: nat by presburger
  have p: "plain_block ?m 0x8000 (length (trap_frame 0x1234 (Req_Select 0x100)))" "plain ?m 0x8008"
    unfolding l plain_block_def n by (auto intro!: listing_plain)
  have s: "served scsi_is_target_present scsi_set_cmd scsi_set_target scsi_send_cmd (Req_Select 0x100) trap_manager_state =
      Some (0, trap_manager_state\<lparr>phase := PH_SELECTED, target_id := 0, fake_status := 0x6a\<rparr>)"
    by (simp add: SCSISelect_def trap_manager_state_def idle_manager_def scsi_is_target_present_def ESP_MAX_DEVS_def demo_def Let_def)
  show ?thesis
    using scsi_trap_is_a_manager_call [of trap_manager_state "set_areg 7 0x8000 zero_regs" "0x1234" "Req_Select 0x100"
        scsi_is_target_present scsi_set_cmd scsi_set_target scsi_send_cmd, unfolded a m, OF b(1) p(1)] b(2) p(2) s
    by (simp add: set_areg_def m ReadMacInt16_same)
qed

end
