(* ===== verification/Time_Manager.thy ===== *)
theory Time_Manager
  imports Prelude "HOL-Library.Signed_Division" Mac_Memory
begin

section \<open>Host time and Macintosh delays\<close>

text \<open>
  The time arithmetic of \<open>SDL/timer_common.cpp\<close> (\<open>HAVE_CLOCK_GETTIME\<close>) and
  \<open>timer_advance_by_emulated_ns\<close> of \<open>timer.cpp\<close>. The fields of a \<open>timespec\<close> are 64 bits
  wide and hold seconds since 1970, so they are unbounded here; the conversions to
  \<open>int\<close> and \<open>int32\<close> that can lose bits are written out. A delay is an \<open>int32\<close>: positive
  for milliseconds, negative for microseconds. The delay \<open>0x80000000\<close>, whose negation
  overflows, is undefined in C++ and wraps here.
\<close>

record tm_time =
  tv_sec :: int
  tv_nsec :: int

definition to_int32 :: "int \<Rightarrow> int" where
  "to_int32 n = sint (word_of_int n :: u32)"

definition timer_add_time :: "tm_time \<Rightarrow> tm_time \<Rightarrow> tm_time" where
  "timer_add_time a b =
     (let s = tv_sec a + tv_sec b; n = tv_nsec a + tv_nsec b
      in if n \<ge> 1000000000 then \<lparr>tv_sec = s + 1, tv_nsec = n - 1000000000\<rparr> else \<lparr>tv_sec = s, tv_nsec = n\<rparr>)"

definition timer_sub_time :: "tm_time \<Rightarrow> tm_time \<Rightarrow> tm_time" where
  "timer_sub_time a b =
     (let s = tv_sec a - tv_sec b; n = tv_nsec a - tv_nsec b
      in if n < 0 then \<lparr>tv_sec = s - 1, tv_nsec = n + 1000000000\<rparr> else \<lparr>tv_sec = s, tv_nsec = n\<rparr>)"

definition timer_cmp_time :: "tm_time \<Rightarrow> tm_time \<Rightarrow> int" where
  "timer_cmp_time a b =
     to_int32 (if tv_sec a = tv_sec b then tv_nsec a - tv_nsec b else tv_sec a - tv_sec b)"

definition timer_mac2host_time :: "u32 \<Rightarrow> tm_time" where
  "timer_mac2host_time m =
     (if sint m > 0 then \<lparr>tv_sec = sint m sdiv 1000, tv_nsec = (sint m smod 1000) * 1000000\<rparr>
      else \<lparr>tv_sec = sint (- m) sdiv 1000000, tv_nsec = (sint (- m) smod 1000000) * 1000\<rparr>)"

definition timer_host2mac_time :: "tm_time \<Rightarrow> u32" where
  "timer_host2mac_time t =
     (if tv_sec t < 0 then 0
      else (let u = (word_of_int (tv_sec t) * 1000000 + word_of_int (tv_nsec t sdiv 1000) :: u64)
            in if u > 0x7fffffff then ucast (u div 1000) else ucast (- u)))"

definition timer_advance_by_emulated_ns :: "u64 \<Rightarrow> tm_time \<Rightarrow> tm_time" where
  "timer_advance_by_emulated_ns ns t =
     (if ns = 0 then t
      else (let us = (ucast (ns div 1000) :: u32); v = (if sint us \<le> 0 then 1 else us)
            in timer_add_time t (timer_mac2host_time (- v))))"

subsection \<open>Time as a number of nanoseconds\<close>

definition nanos :: "tm_time \<Rightarrow> int" where
  "nanos t = tv_sec t * 1000000000 + tv_nsec t"

definition normal_time :: "tm_time \<Rightarrow> bool" where
  "normal_time t \<longleftrightarrow> 0 \<le> tv_nsec t \<and> tv_nsec t < 1000000000"

text \<open>What a delay in the Macintosh format means, in microseconds.\<close>

definition mac_us :: "u32 \<Rightarrow> int" where
  "mac_us m = (if sint m > 0 then sint m * 1000 else - sint m)"

lemma nanos_add [simp]: "nanos (timer_add_time a b) = nanos a + nanos b"
  by (simp add: nanos_def timer_add_time_def Let_def)

lemma nanos_sub [simp]: "nanos (timer_sub_time a b) = nanos a - nanos b"
  by (simp add: nanos_def timer_sub_time_def Let_def)

lemma normal_add: "normal_time a \<Longrightarrow> normal_time b \<Longrightarrow> normal_time (timer_add_time a b)"
  by (simp add: normal_time_def timer_add_time_def Let_def)

lemma normal_sub: "normal_time a \<Longrightarrow> normal_time b \<Longrightarrow> normal_time (timer_sub_time a b)"
  by (simp add: normal_time_def timer_sub_time_def Let_def)

lemma to_int32_id: "- 2147483648 \<le> n \<Longrightarrow> n < 2147483648 \<Longrightarrow> to_int32 n = n"
  by (simp add: to_int32_def sint_sbintrunc' signed_take_bit_int_eq_self)

lemma nanos_less_iff:
  assumes "normal_time a" "normal_time b"
  shows "nanos a < nanos b \<longleftrightarrow> tv_sec a < tv_sec b \<or> tv_sec a = tv_sec b \<and> tv_nsec a < tv_nsec b"
  using assms unfolding nanos_def normal_time_def by linarith

lemma cmp_less_iff:
  assumes "normal_time a" "normal_time b" "\<bar>tv_sec a - tv_sec b\<bar> < 2147483648"
  shows "timer_cmp_time a b < 0 \<longleftrightarrow> nanos a < nanos b"
proof (cases "tv_sec a = tv_sec b")
  case True
  then have "timer_cmp_time a b = tv_nsec a - tv_nsec b"
    using assms unfolding timer_cmp_time_def by (simp add: to_int32_id normal_time_def)
  then show ?thesis using True assms by (simp add: nanos_less_iff)
next
  case False
  then have "timer_cmp_time a b = tv_sec a - tv_sec b"
    using assms(3) unfolding timer_cmp_time_def by (simp add: to_int32_id)
  then show ?thesis using False assms by (simp add: nanos_less_iff)
qed

lemma sint_u32_bounds: "- 2147483648 \<le> sint (m :: u32)" "sint (m :: u32) < 2147483648"
  using sint_ge [of m] sint_lt [of m] by simp_all

lemma sint_minus: "sint (m :: u32) \<noteq> - 2147483648 \<Longrightarrow> sint (- m) = - sint m"
proof -
  assume a: "sint m \<noteq> - 2147483648"
  have m: "m = word_of_int (sint m)" by simp
  have "- m = word_of_int (- sint m)" by (subst m) (simp only: wi_hom_neg)
  then have "sint (- m) = to_int32 (- sint m)" by (simp only: to_int32_def)
  also have "\<dots> = - sint m" using a sint_u32_bounds [of m] by (intro to_int32_id) simp_all
  finally show ?thesis .
qed

lemma nonneg_sdiv_smod: "0 \<le> (a :: int) \<Longrightarrow> 0 < b \<Longrightarrow> a sdiv b = a div b \<and> a smod b = a mod b"
  by (simp add: signed_divide_int_def signed_modulo_int_def sgn_if)

lemma mac2host:
  assumes "m \<noteq> 0x80000000"
  shows "nanos (timer_mac2host_time m) = mac_us m * 1000" "normal_time (timer_mac2host_time m)"
proof -
  have n: "sint m \<noteq> - 2147483648"
  proof
    assume "sint m = - 2147483648"
    then have "(of_int (sint m) :: u32) = of_int (- 2147483648)" by simp
    then show False using assms by simp
  qed
  have "nanos (timer_mac2host_time m) = mac_us m * 1000 \<and> normal_time (timer_mac2host_time m)"
  proof (cases "sint m > 0")
    case True
    define q r where "q = sint m div 1000" and "r = sint m mod 1000"
    have s: "sint m = 1000 * q + r" by (simp add: q_def r_def)
    have r: "0 \<le> r" "r < 1000" by (simp_all add: r_def)
    have t: "timer_mac2host_time m = \<lparr>tv_sec = q, tv_nsec = r * 1000000\<rparr>"
      using True nonneg_sdiv_smod [of "sint m" 1000] by (simp add: timer_mac2host_time_def q_def r_def)
    show ?thesis using True r unfolding t by (simp add: mac_us_def nanos_def normal_time_def s)
  next
    case False
    define q r where "q = - sint m div 1000000" and "r = - sint m mod 1000000"
    have s: "- sint m = 1000000 * q + r" by (simp add: q_def r_def)
    have r: "0 \<le> r" "r < 1000000" by (simp_all add: r_def)
    have t: "timer_mac2host_time m = \<lparr>tv_sec = q, tv_nsec = r * 1000\<rparr>"
      using False nonneg_sdiv_smod [of "- sint m" 1000000] n
      by (simp add: timer_mac2host_time_def sint_minus q_def r_def)
    have "mac_us m = 1000000 * q + r" using False s by (simp add: mac_us_def)
    then show ?thesis using r unfolding t by (simp add: nanos_def normal_time_def)
  qed
  then show "nanos (timer_mac2host_time m) = mac_us m * 1000" "normal_time (timer_mac2host_time m)" by simp_all
qed

lemma ucast_word_of_int: "ucast (word_of_int k :: u64) = (word_of_int k :: u32)"
  by (rule bit_word_eqI) (auto simp: bit_simps)

lemma uint_word_of_int_small: "0 \<le> k \<Longrightarrow> k < 18446744073709551616 \<Longrightarrow> uint (word_of_int k :: u64) = k"
  by (simp add: uint_word_of_int)

lemma host2mac_word:
  assumes "normal_time t" "0 \<le> tv_sec t" "nanos t div 1000 < 18446744073709551616"
  shows "timer_host2mac_time t =
           (let us = nanos t div 1000 in if us > 2147483647 then word_of_int (us div 1000) else word_of_int (- us))"
proof -
  define us where "us = nanos t div 1000"
  define u where "u = (word_of_int us :: u64)"
  have us: "us = tv_sec t * 1000000 + tv_nsec t div 1000" by (simp add: us_def nanos_def)
  have "0 \<le> us" using assms(1,2) unfolding us by (simp add: normal_time_def pos_imp_zdiv_nonneg_iff)
  then have v: "uint u = us" using assms(3) unfolding u_def us_def by (intro uint_word_of_int_small) simp_all
  have s: "tv_nsec t sdiv 1000 = tv_nsec t div 1000"
    using assms(1) nonneg_sdiv_smod [of "tv_nsec t" 1000] by (simp add: normal_time_def)
  have e: "word_of_int (tv_sec t) * 1000000 + word_of_int (tv_nsec t sdiv 1000) = u"
    unfolding s u_def us by simp
  have "(u > 0x7fffffff) = (us > 2147483647)" by (simp add: word_less_def v)
  moreover have "u div 1000 = word_of_int (us div 1000)"
    by (simp add: word_div_def v)
  moreover have "- u = word_of_int (- us)" by (simp only: u_def wi_hom_neg)
  ultimately show ?thesis
    using assms(2) e by (simp add: timer_host2mac_time_def Let_def us_def [symmetric] ucast_word_of_int del: of_int_minus)
qed

text \<open>The conversion keeps microseconds while they fit in 31 bits and drops to milliseconds after.\<close>

lemma host2mac_us:
  assumes "normal_time t" "0 \<le> tv_sec t" "nanos t div 1000 < 2147483648000"
  shows "mac_us (timer_host2mac_time t) =
           (let us = nanos t div 1000 in if us > 2147483647 then us div 1000 * 1000 else us)"
proof -
  define us where "us = nanos t div 1000"
  have "0 \<le> nanos t" using assms(1,2) by (simp add: nanos_def normal_time_def)
  then have us: "0 \<le> us" "us < 2147483648000" using assms(3) by (simp_all add: us_def)
  have w: "timer_host2mac_time t = (if us > 2147483647 then word_of_int (us div 1000) else word_of_int (- us))"
    using host2mac_word [OF assms(1,2)] assms(3) by (simp add: us_def [symmetric] Let_def)
  show ?thesis
  proof (cases "us > 2147483647")
    case True
    have "sint (word_of_int (us div 1000) :: u32) = us div 1000"
      using us True by (intro to_int32_id [unfolded to_int32_def]) auto
    then show ?thesis using True us unfolding w us_def [symmetric] by (simp add: mac_us_def Let_def)
  next
    case False
    have "sint (word_of_int (- us) :: u32) = - us"
      using us False by (intro to_int32_id [unfolded to_int32_def]) auto
    then show ?thesis using False us unfolding w us_def [symmetric]
      by (simp add: mac_us_def Let_def del: of_int_minus)
  qed
qed

lemma advance_nanos:
  assumes "ns \<noteq> 0" "unat ns < 2147483648000"
  shows "nanos (timer_advance_by_emulated_ns ns t) = nanos t + max 1 (int (unat ns) div 1000) * 1000"
    and "normal_time t \<Longrightarrow> normal_time (timer_advance_by_emulated_ns ns t)"
proof -
  define us where "us = (ucast (ns div 1000) :: u32)"
  have n: "unat (ns div 1000) = unat ns div 1000" by (simp add: unat_div)
  have "unat us = unat ns div 1000"
    using assms(2) unfolding us_def by (simp add: unsigned_ucast_eq n take_bit_nat_eq_self)
  then have s: "sint us = int (unat ns div 1000)" using assms(2) by (subst sint_eq_unat) auto
  define v where "v = (if sint us \<le> 0 then 1 else us)"
  have v: "sint v = max 1 (int (unat ns) div 1000)" using s by (auto simp: v_def zdiv_int max_def)
  have "sint v < 2147483648" by (rule sint_u32_bounds)
  then have m: "sint (- v) = - max 1 (int (unat ns) div 1000)" using v by (subst sint_minus) auto
  have d: "- v \<noteq> 0x80000000"
  proof
    assume "- v = 0x80000000"
    then have "sint (- v) = - 2147483648" by simp
    then show False using v m \<open>sint v < 2147483648\<close> by simp
  qed
  have u: "mac_us (- v) = max 1 (int (unat ns) div 1000)" using m by (simp add: mac_us_def max_def)
  have e: "timer_advance_by_emulated_ns ns t = timer_add_time t (timer_mac2host_time (- v))"
    using assms(1) by (simp add: timer_advance_by_emulated_ns_def Let_def us_def v_def)
  show "nanos (timer_advance_by_emulated_ns ns t) = nanos t + max 1 (int (unat ns) div 1000) * 1000"
    unfolding e using mac2host(1) [OF d] u by simp
  show "normal_time t \<Longrightarrow> normal_time (timer_advance_by_emulated_ns ns t)"
    unfolding e by (intro normal_add mac2host(2) [OF d])
qed

section \<open>The Time Manager\<close>

text \<open>
  \<open>timer.cpp\<close>: 64 descriptors that hold the host side of the timer tasks (\<open>TMTask\<close>
  records) the guest installs. The array is a function of its index. The three traps
  always return 0, so only the state is modelled. \<open>now_time\<close> and \<open>emulated_ns\<close> are what
  the host clock and \<open>cpu_engine_emulated_ns\<close> return at the time of the call.
  The code behind \<open>TM_QUEUE\<close> is compiled out, and so is it here.

  The 68k engine is not part of this component: what the routine of a task does
  (\<open>Execute68k\<close>) is an argument \<open>prog\<close>, which gives the Time Manager calls, the stores and
  the time of the routine at an address, for a task and a state. \<open>called\<close> records the
  routines called, each with its task. Interrupts do not nest.
\<close>

definition qType :: u32 where "qType = 4"
definition tmAddr :: u32 where "tmAddr = 6"
definition tmCount :: u32 where "tmCount = 10"
definition tmWakeUp :: u32 where "tmWakeUp = 14"
definition NUM_DESCS :: nat where "NUM_DESCS = 64"

lemmas tm_offsets = qType_def tmAddr_def tmCount_def tmWakeUp_def

record tm_desc =
  task :: u32
  wakeup :: tm_time
  emu_ns :: u64
  in_use :: bool

record tmgr =
  tm_mem :: mac
  descs :: "nat \<Rightarrow> tm_desc"
  now_time :: tm_time
  emulated_ns :: u64
  called :: "(u32 \<times> u32) list"

definition upd_desc :: "nat \<Rightarrow> (tm_desc \<Rightarrow> tm_desc) \<Rightarrow> tmgr \<Rightarrow> tmgr" where
  "upd_desc i f s = s\<lparr>descs := (descs s)(i := f (descs s i))\<rparr>"

definition alloc_desc :: "u32 \<Rightarrow> tmgr \<Rightarrow> nat option \<times> tmgr" where
  "alloc_desc tm s =
     (case find (\<lambda>i. \<not> in_use (descs s i)) [0..<NUM_DESCS] of
        None \<Rightarrow> (None, s)
      | Some i \<Rightarrow> (Some i, upd_desc i (\<lambda>d. d\<lparr>task := tm, in_use := True\<rparr>) s))"

definition free_desc :: "nat \<Rightarrow> tmgr \<Rightarrow> tmgr" where
  "free_desc i = upd_desc i (\<lambda>d. d\<lparr>in_use := False\<rparr>)"

definition find_desc :: "u32 \<Rightarrow> tmgr \<Rightarrow> nat option" where
  "find_desc tm s = find (\<lambda>i. in_use (descs s i) \<and> task (descs s i) = tm) [0..<NUM_DESCS]"

definition TimerInit :: "tmgr \<Rightarrow> tmgr" where
  "TimerInit s = fold free_desc [0..<NUM_DESCS] s"

definition TimerReset :: "tmgr \<Rightarrow> tmgr" where
  "TimerReset s = fold free_desc [0..<NUM_DESCS] s"

text \<open>The type word of a task; bit 15 is set while it is active, bit 14 for an extended task.\<close>

definition tm_type :: "u32 \<Rightarrow> tmgr \<Rightarrow> u32" where
  "tm_type tm s = ReadMacInt16 (tm_mem s) (tm + qType)"

definition set_type :: "u32 \<Rightarrow> u32 \<Rightarrow> tmgr \<Rightarrow> tmgr" where
  "set_type tm w s = s\<lparr>tm_mem := WriteMacInt16 (tm + qType) w (tm_mem s)\<rparr>"

definition set_long :: "u32 \<Rightarrow> u32 \<Rightarrow> tmgr \<Rightarrow> tmgr" where
  "set_long a v s = s\<lparr>tm_mem := WriteMacInt32 a v (tm_mem s)\<rparr>"

definition tm_active :: "u32 \<Rightarrow> tmgr \<Rightarrow> bool" where
  "tm_active tm s \<longleftrightarrow> tm_type tm s AND 0x8000 \<noteq> 0"

definition InsTime :: "u32 \<Rightarrow> u16 \<Rightarrow> tmgr \<Rightarrow> tmgr" where
  "InsTime tm trap s =
     (let s1 = set_type tm ((tm_type tm s AND 0x1fff) OR (push_bit 4 (ucast trap) AND 0x6000)) s
      in case find_desc tm s1 of Some i \<Rightarrow> s1 | None \<Rightarrow> snd (alloc_desc tm s1))"

definition time_left :: "nat \<Rightarrow> tmgr \<Rightarrow> tm_time" where
  "time_left i s =
     (let delta_ns = (if emulated_ns s \<ge> emu_ns (descs s i) then emulated_ns s - emu_ns (descs s i) else 0)
      in timer_sub_time (wakeup (descs s i)) (timer_advance_by_emulated_ns delta_ns (now_time s)))"

definition RmvTime :: "u32 \<Rightarrow> tmgr \<Rightarrow> tmgr" where
  "RmvTime tm s =
     (case find_desc tm s of
        None \<Rightarrow> s
      | Some i \<Rightarrow>
          free_desc i
            (if tm_active tm s
             then set_long (tm + tmCount) (timer_host2mac_time (time_left i s))
                    (set_type tm (tm_type tm s AND 0x7fff) s)
             else set_long (tm + tmCount) 0 s))"

definition set_wakeup :: "nat \<Rightarrow> tm_time \<Rightarrow> tmgr \<Rightarrow> tmgr" where
  "set_wakeup i t = upd_desc i (\<lambda>d. d\<lparr>wakeup := t\<rparr>)"

definition activate :: "u32 \<Rightarrow> tmgr \<Rightarrow> tmgr" where
  "activate tm s = set_type tm (tm_type tm s OR 0x8000) s"

definition PrimeTime :: "u32 \<Rightarrow> u32 \<Rightarrow> tmgr \<Rightarrow> tmgr" where
  "PrimeTime tm time s =
     (case find_desc tm s of
        None \<Rightarrow> s
      | Some i \<Rightarrow>
          (let s1 = upd_desc i (\<lambda>d. d\<lparr>emu_ns := emulated_ns s\<rparr>) s;
               delay = timer_mac2host_time time;
               extended = (tm_type tm s1 AND 0x4000 \<noteq> 0);
               scheduled = (ReadMacInt32 (tm_mem s1) (tm + tmWakeUp) \<noteq> 0)
           in if extended \<and> scheduled \<and> time = 0 then s1
              else if extended
              then activate tm (set_long (tm + tmWakeUp) 0x12345678
                     (set_wakeup i (timer_add_time (if scheduled then wakeup (descs s1 i) else now_time s1) delay) s1))
              else activate tm (set_wakeup i (timer_add_time (now_time s1) delay) s1)))"

subsection \<open>What guest code does\<close>

datatype guest_act = Ins u32 u16 | Rmv u32 | Prime u32 u32 | Store u32 u32 | Elapse tm_time u64

primrec guest_do :: "guest_act \<Rightarrow> tmgr \<Rightarrow> tmgr" where
  "guest_do (Ins tm trap) s = InsTime tm trap s"
| "guest_do (Rmv tm) s = RmvTime tm s"
| "guest_do (Prime tm time) s = PrimeTime tm time s"
| "guest_do (Store a b) s = s\<lparr>tm_mem := WriteMacInt8 a b (tm_mem s)\<rparr>"
| "guest_do (Elapse t ns) s = s\<lparr>now_time := timer_add_time (now_time s) t, emulated_ns := emulated_ns s + ns\<rparr>"

type_synonym guest_prog = "u32 \<Rightarrow> u32 \<Rightarrow> tmgr \<Rightarrow> guest_act list"

definition Execute68k :: "guest_prog \<Rightarrow> u32 \<Rightarrow> u32 \<Rightarrow> tmgr \<Rightarrow> tmgr" where
  "Execute68k prog addr tm s = fold guest_do (prog addr tm s) (s\<lparr>called := called s @ [(addr, tm)]\<rparr>)"

subsection \<open>The timer interrupt\<close>

definition expired :: "tm_time \<Rightarrow> nat \<Rightarrow> tmgr \<Rightarrow> bool" where
  "expired now i s \<longleftrightarrow>
     in_use (descs s i) \<and> tm_active (task (descs s i)) s \<and> timer_cmp_time (wakeup (descs s i)) now < 0"

definition fire :: "guest_prog \<Rightarrow> u32 \<Rightarrow> tmgr \<Rightarrow> tmgr" where
  "fire prog tm s =
     (let s1 = set_type tm (tm_type tm s AND 0x7fff) s; addr = ReadMacInt32 (tm_mem s1) (tm + tmAddr)
      in if addr \<noteq> 0 then Execute68k prog addr tm s1 else s1)"

definition tm_slot :: "guest_prog \<Rightarrow> tm_time \<Rightarrow> nat \<Rightarrow> tmgr \<Rightarrow> tmgr" where
  "tm_slot prog now i s = (if expired now i s then fire prog (task (descs s i)) s else s)"

definition TimerInterrupt :: "guest_prog \<Rightarrow> tmgr \<Rightarrow> tmgr" where
  "TimerInterrupt prog s = fold (tm_slot prog (now_time s)) [0..<NUM_DESCS] s"

end
