(* ===== verification/Timer_Facts.thy ===== *)
theory Timer_Facts
  imports Time_Manager
begin

section \<open>Descriptors and memory of the Time Manager\<close>

text \<open>
  The descriptors as the set of installed tasks, what each operation does to it, and the
  frame of the stores into task records. \<open>tm_run\<close> is a history of calls and interrupts.
\<close>

subsection \<open>Frame of the stores\<close>

lemma tm_frame [simp]:
  "descs (set_type tm w s) = descs s" "descs (set_long a v s) = descs s" "descs (activate tm s) = descs s"
  "now_time (set_type tm w s) = now_time s" "now_time (set_long a v s) = now_time s"
  "now_time (activate tm s) = now_time s"
  "called (set_type tm w s) = called s" "called (set_long a v s) = called s" "called (activate tm s) = called s"
  "tm_mem (upd_desc i f s) = tm_mem s" "now_time (upd_desc i f s) = now_time s" "called (upd_desc i f s) = called s"
  "descs (upd_desc i f s) j = (if j = i then f (descs s i) else descs s j)"
  "tm_mem (set_wakeup i t s) = tm_mem s" "tm_mem (free_desc i s) = tm_mem s"
  "now_time (set_wakeup i t s) = now_time s" "called (set_wakeup i t s) = called s"
  by (simp_all add: set_type_def set_long_def activate_def upd_desc_def set_wakeup_def free_desc_def)

lemma find_desc_cong: "descs s = descs t \<Longrightarrow> find_desc tm s = find_desc tm t"
  by (simp add: find_desc_def)

lemma tm_type_cong: "tm_mem s = tm_mem t \<Longrightarrow> tm_type tm s = tm_type tm t"
  by (simp add: tm_type_def)

lemma tm_active_cong: "tm_mem s = tm_mem t \<Longrightarrow> tm_active tm s = tm_active tm t"
  by (simp add: tm_active_def tm_type_def)

subsection \<open>The set of installed tasks\<close>

definition slots :: "tmgr \<Rightarrow> nat set" where
  "slots s = {i. i < NUM_DESCS \<and> in_use (descs s i)}"

definition installed :: "tmgr \<Rightarrow> u32 set" where
  "installed s = (\<lambda>i. task (descs s i)) ` slots s"

definition tm_inv :: "tmgr \<Rightarrow> bool" where
  "tm_inv s \<longleftrightarrow> inj_on (\<lambda>i. task (descs s i)) (slots s)"

lemma slots_cong: "descs s = descs t \<Longrightarrow> slots s = slots t"
  by (simp add: slots_def)

lemma installed_cong: "descs s = descs t \<Longrightarrow> installed s = installed t"
  by (simp add: installed_def slots_def)

lemma tm_inv_cong: "descs s = descs t \<Longrightarrow> tm_inv s = tm_inv t"
  by (simp add: tm_inv_def slots_def)

lemma finite_slots [simp]: "finite (slots s)"
  by (simp add: slots_def)

lemma find_desc_SomeD: "find_desc tm s = Some i \<Longrightarrow> i \<in> slots s \<and> task (descs s i) = tm"
  unfolding find_desc_def by (drule find_SomeD) (auto simp: slots_def)

lemma find_desc_None: "find_desc tm s = None \<longleftrightarrow> tm \<notin> installed s"
proof
  assume "find_desc tm s = None"
  then show "tm \<notin> installed s"
    unfolding find_desc_def installed_def slots_def by (auto dest: find_NoneD)
next
  assume "tm \<notin> installed s"
  then show "find_desc tm s = None"
    by (cases "find_desc tm s") (auto simp: installed_def dest: find_desc_SomeD)
qed

lemma find_desc_iff: "tm_inv s \<Longrightarrow> find_desc tm s = Some i \<longleftrightarrow> i \<in> slots s \<and> task (descs s i) = tm"
proof
  assume inv: "tm_inv s" and i: "i \<in> slots s \<and> task (descs s i) = tm"
  then obtain j where j: "find_desc tm s = Some j"
    using find_desc_None [of tm s] by (cases "find_desc tm s") (auto simp: installed_def)
  have "j = i" using find_desc_SomeD [OF j] i inv unfolding tm_inv_def by (auto dest: inj_onD)
  then show "find_desc tm s = Some i" using j by simp
qed (rule find_desc_SomeD)

lemma alloc_desc_cases:
  obtains (full) "alloc_desc tm s = (None, s)" "slots s = {..<NUM_DESCS}"
    | (free) i where "i < NUM_DESCS" "i \<notin> slots s"
        "alloc_desc tm s = (Some i, upd_desc i (\<lambda>d. d\<lparr>task := tm, in_use := True\<rparr>) s)"
proof (cases "find (\<lambda>i. \<not> in_use (descs s i)) [0..<NUM_DESCS]")
  case None
  then have "\<forall>i < NUM_DESCS. in_use (descs s i)" by (auto dest: find_NoneD)
  then show ?thesis using None full by (auto simp: alloc_desc_def slots_def)
next
  case (Some i)
  then have "i < NUM_DESCS" "i \<notin> slots s" by (auto simp: slots_def dest: find_SomeD)
  then show ?thesis using Some free by (simp add: alloc_desc_def)
qed

lemma slots_upd: "i < NUM_DESCS \<Longrightarrow>
    slots (upd_desc i f s) = (if in_use (f (descs s i)) then insert i (slots s) else slots s - {i})"
  by (auto simp: slots_def)

lemma installed_alloc:
  assumes "tm_inv s" "tm \<notin> installed s"
  shows "installed (snd (alloc_desc tm s)) = (if card (installed s) < NUM_DESCS then insert tm (installed s) else installed s)"
    and "tm_inv (snd (alloc_desc tm s))"
proof -
  have c: "card (installed s) = card (slots s)"
    using assms(1) unfolding installed_def tm_inv_def by (rule card_image)
  have "installed (snd (alloc_desc tm s)) = (if card (installed s) < NUM_DESCS then insert tm (installed s) else installed s)
      \<and> tm_inv (snd (alloc_desc tm s))"
  proof (cases rule: alloc_desc_cases [of tm s])
    case full
    then show ?thesis using assms(1) c by simp
  next
    case (free i)
    have "slots s \<subset> {..<NUM_DESCS}" using free(1,2) by (auto simp: slots_def)
    then have "card (slots s) < NUM_DESCS" by (metis card_lessThan finite_lessThan psubset_card_mono)
    moreover have eq: "\<forall>j \<in> slots s. j \<noteq> i" using free(2) by auto
    moreover have "installed (upd_desc i (\<lambda>d. d\<lparr>task := tm, in_use := True\<rparr>) s) = insert tm (installed s)"
      using eq free(1) by (auto simp: installed_def slots_upd)
    moreover have "tm_inv (upd_desc i (\<lambda>d. d\<lparr>task := tm, in_use := True\<rparr>) s)"
      using assms eq free(1) unfolding tm_inv_def installed_def
      by (auto simp: slots_upd inj_on_def)
    ultimately show ?thesis using c free(3) by simp
  qed
  then show "installed (snd (alloc_desc tm s)) = (if card (installed s) < NUM_DESCS then insert tm (installed s) else installed s)"
    "tm_inv (snd (alloc_desc tm s))" by simp_all
qed

lemma installed_free:
  assumes "tm_inv s" "i \<in> slots s"
  shows "installed (free_desc i s) = installed s - {task (descs s i)}" and "tm_inv (free_desc i s)"
proof -
  have i: "i < NUM_DESCS" using assms(2) by (simp add: slots_def)
  have s: "slots (free_desc i s) = slots s - {i}" using i unfolding free_desc_def by (simp add: slots_upd)
  have t: "task (descs (free_desc i s) j) = task (descs s j)" for j by (simp add: free_desc_def)
  show "installed (free_desc i s) = installed s - {task (descs s i)}"
    using assms unfolding installed_def s t tm_inv_def by (auto simp: inj_on_def)
  show "tm_inv (free_desc i s)"
    using assms(1) unfolding tm_inv_def s t by (auto simp: inj_on_def)
qed

subsection \<open>The operations on the set\<close>

lemma InsTime_set:
  assumes "tm_inv s"
  shows "installed (InsTime tm trap s) =
      (if tm \<in> installed s \<or> card (installed s) < NUM_DESCS then insert tm (installed s) else installed s)"
    and "tm_inv (InsTime tm trap s)"
proof -
  define s1 where "s1 = set_type tm ((tm_type tm s AND 0x1fff) OR (push_bit 4 (ucast trap) AND 0x6000)) s"
  have d: "descs s1 = descs s" by (simp add: s1_def)
  have i: "tm_inv s1" "installed s1 = installed s" using assms tm_inv_cong [OF d] installed_cong [OF d] by simp_all
  have e: "InsTime tm trap s = (if tm \<in> installed s then s1 else snd (alloc_desc tm s1))"
    using find_desc_None [of tm s1] i(2) unfolding InsTime_def Let_def s1_def [symmetric]
    by (auto split: option.splits)
  show "installed (InsTime tm trap s) =
      (if tm \<in> installed s \<or> card (installed s) < NUM_DESCS then insert tm (installed s) else installed s)"
    using installed_alloc(1) [of s1 tm] i unfolding e by auto
  show "tm_inv (InsTime tm trap s)"
    using installed_alloc(2) [of s1 tm] i unfolding e by auto
qed

lemma RmvTime_set:
  assumes "tm_inv s"
  shows "installed (RmvTime tm s) = installed s - {tm}" and "tm_inv (RmvTime tm s)"
proof -
  have "installed (RmvTime tm s) = installed s - {tm} \<and> tm_inv (RmvTime tm s)"
  proof (cases "find_desc tm s")
    case None
    then show ?thesis using assms find_desc_None [of tm s] by (simp add: RmvTime_def)
  next
    case (Some i)
    define s1 where "s1 = (if tm_active tm s
             then set_long (tm + tmCount) (timer_host2mac_time (time_left i s)) (set_type tm (tm_type tm s AND 0x7fff) s)
             else set_long (tm + tmCount) 0 s)"
    have e: "RmvTime tm s = free_desc i s1" using Some by (simp add: RmvTime_def s1_def)
    have d: "descs s1 = descs s" by (simp add: s1_def)
    have i: "tm_inv s1" "installed s1 = installed s" "i \<in> slots s1" "task (descs s1 i) = tm"
      using assms find_desc_SomeD [OF Some] tm_inv_cong [OF d] installed_cong [OF d] slots_cong [OF d] d by simp_all
    show ?thesis unfolding e using installed_free [OF i(1,3)] i(2,4) by simp
  qed
  then show "installed (RmvTime tm s) = installed s - {tm}" "tm_inv (RmvTime tm s)" by simp_all
qed

lemma PrimeTime_keeps:
  "in_use (descs (PrimeTime tm time s) i) = in_use (descs s i)"
  "task (descs (PrimeTime tm time s) i) = task (descs s i)"
  by (simp_all add: PrimeTime_def Let_def set_wakeup_def split: option.split)

lemma PrimeTime_set: "installed (PrimeTime tm time s) = installed s" "tm_inv (PrimeTime tm time s) = tm_inv s"
  by (simp_all add: installed_def tm_inv_def slots_def PrimeTime_keeps)

lemma guest_do_inv: "tm_inv s \<Longrightarrow> tm_inv (guest_do a s)"
  by (cases a) (simp_all add: InsTime_set RmvTime_set PrimeTime_set, simp_all add: tm_inv_def slots_def)

lemma guest_run_inv: "tm_inv s \<Longrightarrow> tm_inv (fold guest_do as s)"
  by (induction as arbitrary: s) (simp_all add: guest_do_inv)

lemma tm_slot_inv: "tm_inv s \<Longrightarrow> tm_inv (tm_slot prog now i s)"
proof -
  assume s: "tm_inv s"
  have "tm_inv (fire prog tm s)" for tm
  proof -
    define s1 where "s1 = set_type tm (tm_type tm s AND 0x7fff) s"
    have d: "descs s1 = descs s" by (simp add: s1_def)
    then have "tm_inv s1" using s tm_inv_cong [OF d] by simp
    moreover have "tm_inv (s1\<lparr>called := c\<rparr>)" for c
      using \<open>tm_inv s1\<close> tm_inv_cong [of "s1\<lparr>called := c\<rparr>" s1] by simp
    ultimately show ?thesis
      unfolding fire_def Let_def s1_def [symmetric] by (simp add: Execute68k_def guest_run_inv)
  qed
  then show ?thesis using s by (simp add: tm_slot_def)
qed

lemma TimerInterrupt_inv: "tm_inv s \<Longrightarrow> tm_inv (TimerInterrupt prog s)"
proof -
  have "tm_inv t \<Longrightarrow> tm_inv (fold (tm_slot prog now) js t)" for now js t
    by (induction js arbitrary: t) (simp_all add: tm_slot_inv)
  then show "tm_inv s \<Longrightarrow> tm_inv (TimerInterrupt prog s)" by (simp add: TimerInterrupt_def)
qed

datatype tm_event = Guest guest_act | Interrupt | Reset

fun tm_step :: "guest_prog \<Rightarrow> tm_event \<Rightarrow> tmgr \<Rightarrow> tmgr" where
  "tm_step prog (Guest a) s = guest_do a s"
| "tm_step prog Interrupt s = TimerInterrupt prog s"
| "tm_step prog Reset s = TimerReset s"

definition tm_run :: "guest_prog \<Rightarrow> tm_event list \<Rightarrow> tmgr \<Rightarrow> tmgr" where
  "tm_run prog es s = fold (tm_step prog) es s"

lemma free_all: "slots (fold free_desc js s) = slots s - set js"
proof (induction js arbitrary: s)
  case (Cons i js)
  have "slots (free_desc i s) = slots s - {i}" by (auto simp: slots_def free_desc_def)
  then show ?case using Cons by auto
qed simp

lemma TimerReset_empty: "slots (TimerReset s) = {}" "slots (TimerInit s) = {}"
  by (simp_all only: TimerReset_def TimerInit_def free_all) (auto simp: slots_def)

lemma tm_run_inv: "tm_inv s \<Longrightarrow> tm_inv (tm_run prog es s)"
proof (induction es arbitrary: s)
  case (Cons e es)
  have "tm_inv (tm_step prog e s)"
  proof (cases e)
    case Reset
    then show ?thesis by (simp add: tm_inv_def TimerReset_empty)
  qed (use Cons.prems in \<open>simp_all add: guest_do_inv TimerInterrupt_inv\<close>)
  then show ?case using Cons.IH by (simp add: tm_run_def)
qed (simp add: tm_run_def)

end
