(* ===== verification/Timer_Schedule.thy ===== *)
theory Timer_Schedule
  imports Timer_Facts
begin

section \<open>When timer tasks run\<close>

text \<open>
  What the timer interrupt calls, for tasks whose records lie apart in ordinary memory and
  whose routines only let time pass; the wakeup times of extended tasks; the time left that
  \<open>RmvTime\<close> stores.
\<close>

definition task_ok :: "mac \<Rightarrow> u32 \<Rightarrow> bool" where
  "task_ok m tm \<longleftrightarrow> plain m (tm + qType) \<and> plain m (tm + tmAddr) \<and> plain m (tm + tmCount) \<and> plain m (tm + tmWakeUp)"

definition apart :: "u32 \<Rightarrow> u32 \<Rightarrow> bool" where
  "apart tm tm' \<longleftrightarrow> (\<forall>k \<in> set [4, 5]. \<forall>l \<in> set [4, 5, 6, 7, 8, 9]. tm + k \<noteq> tm' + l)"

definition tasks_ok :: "tmgr \<Rightarrow> bool" where
  "tasks_ok s \<longleftrightarrow> (\<forall>i \<in> slots s. task_ok (tm_mem s) (task (descs s i)) \<and>
                     (\<forall>j \<in> slots s. i \<noteq> j \<longrightarrow> apart (task (descs s i)) (task (descs s j))))"

definition quiet :: "guest_prog \<Rightarrow> bool" where
  "quiet prog \<longleftrightarrow> (\<forall>addr tm s. \<forall>a \<in> set (prog addr tm s). case a of Elapse t n \<Rightarrow> True | _ \<Rightarrow> False)"

definition task_addr :: "nat \<Rightarrow> tmgr \<Rightarrow> u32" where
  "task_addr i s = ReadMacInt32 (tm_mem s) (task (descs s i) + tmAddr)"

definition due_calls :: "tm_time \<Rightarrow> nat list \<Rightarrow> tmgr \<Rightarrow> (u32 \<times> u32) list" where
  "due_calls now js s =
     map (\<lambda>i. (task_addr i s, task (descs s i))) (filter (\<lambda>i. expired now i s \<and> task_addr i s \<noteq> 0) js)"

subsection \<open>Stores into one record seen from another\<close>

lemma plain_write [simp]:
  "plain (WriteMacInt16 a v m) b = plain m b" "plain (WriteMacInt32 a v m) b = plain m b"
  by (simp_all add: plain_def rom_protected_def)

lemma task_ok_write [simp]:
  "task_ok (WriteMacInt16 a v m) tm = task_ok m tm" "task_ok (WriteMacInt32 a v m) tm = task_ok m tm"
  by (simp_all add: task_ok_def)

lemma add_neq: "(k :: u32) \<noteq> l \<Longrightarrow> tm + k \<noteq> tm + l"
  by simp

lemma type_after_set_type:
  "task_ok (tm_mem s) tm \<Longrightarrow> tm_type tm (set_type tm w s) = w AND 0xffff"
  by (simp add: tm_type_def set_type_def task_ok_def ReadMacInt16_same)

lemma set_type_other:
  assumes "task_ok (tm_mem s) tm" "task_ok (tm_mem s) tm'" "apart tm tm'"
  shows "tm_type tm' (set_type tm w s) = tm_type tm' s"
    and "ReadMacInt32 (tm_mem (set_type tm w s)) (tm' + tmAddr) = ReadMacInt32 (tm_mem s) (tm' + tmAddr)"
  using assms
  by (simp_all add: tm_type_def set_type_def task_ok_def apart_def ReadMacInt16_plain ReadMacInt32_plain
      ram_WriteMacInt16 tm_offsets add.assoc) (auto simp: fun_upd_def)

lemma set_type_own_addr:
  assumes "task_ok (tm_mem s) tm"
  shows "ReadMacInt32 (tm_mem (set_type tm w s)) (tm + tmAddr) = ReadMacInt32 (tm_mem s) (tm + tmAddr)"
  using assms by (simp add: set_type_def task_ok_def ReadMacInt32_plain ram_WriteMacInt16 tm_offsets add.assoc)

subsection \<open>The interrupt\<close>

lemma quiet_run:
  assumes "\<forall>a \<in> set as. case a of Elapse t n \<Rightarrow> True | _ \<Rightarrow> False"
  shows "descs (fold guest_do as s) = descs s \<and> tm_mem (fold guest_do as s) = tm_mem s \<and>
         called (fold guest_do as s) = called s"
  using assms by (induction as arbitrary: s) (auto split: guest_act.splits)

lemma fire_quiet:
  assumes "quiet prog" "task_ok (tm_mem s) tm"
  shows "descs (fire prog tm s) = descs s"
    and "tm_mem (fire prog tm s) = tm_mem (set_type tm (tm_type tm s AND 0x7fff) s)"
    and "called (fire prog tm s) =
           called s @ (if ReadMacInt32 (tm_mem s) (tm + tmAddr) = 0 then []
                       else [(ReadMacInt32 (tm_mem s) (tm + tmAddr), tm)])"
  using assms quiet_run [of "prog addr tm' t" "t\<lparr>called := c\<rparr>" for addr tm' t c]
  by (simp_all add: fire_def Let_def Execute68k_def quiet_def set_type_own_addr)

lemma inactive: "(w AND 0x7fff :: u32) AND 0x8000 = 0"
  by (simp add: and.assoc)

lemma fire_active:
  assumes "quiet prog" "task_ok (tm_mem s) tm"
  shows "\<not> tm_active tm (fire prog tm s)"
proof -
  have "tm_type tm (fire prog tm s) = tm_type tm s AND 0x7fff"
    using type_after_set_type [OF assms(2)] tm_type_cong [OF fire_quiet(2) [OF assms]]
    by (simp add: and.assoc)
  then show ?thesis by (simp add: tm_active_def inactive)
qed

lemma fire_other:
  assumes "quiet prog" "task_ok (tm_mem s) tm" "task_ok (tm_mem s) tm'" "apart tm tm'"
  shows "tm_active tm' (fire prog tm s) = tm_active tm' s"
    and "ReadMacInt32 (tm_mem (fire prog tm s)) (tm' + tmAddr) = ReadMacInt32 (tm_mem s) (tm' + tmAddr)"
  using set_type_other [OF assms(2-4)] fire_quiet(2) [OF assms(1,2)]
  by (simp_all add: tm_active_def tm_type_def)

lemma slot_step:
  fixes now :: tm_time
  assumes "quiet prog" "tasks_ok s" "i < NUM_DESCS"
  defines "s' \<equiv> tm_slot prog now i s"
  shows "descs s' = descs s" "tasks_ok s'" "called s' = called s @ due_calls now [i] s"
    and "\<And>j. j \<in> slots s \<Longrightarrow> j \<noteq> i \<Longrightarrow> tm_active (task (descs s j)) s' = tm_active (task (descs s j)) s"
    and "\<And>j. j \<in> slots s \<Longrightarrow> j \<noteq> i \<Longrightarrow> task_addr j s' = task_addr j s"
    and "i \<in> slots s \<Longrightarrow> tm_active (task (descs s i)) s' = (tm_active (task (descs s i)) s \<and> \<not> expired now i s)"
proof -
  define tm where "tm = task (descs s i)"
  have all: "descs s' = descs s \<and> tasks_ok s' \<and> called s' = called s @ due_calls now [i] s \<and>
     (\<forall>j \<in> slots s. j \<noteq> i \<longrightarrow> tm_active (task (descs s j)) s' = tm_active (task (descs s j)) s \<and> task_addr j s' = task_addr j s) \<and>
     (i \<in> slots s \<longrightarrow> tm_active tm s' = (tm_active tm s \<and> \<not> expired now i s))"
  proof (cases "expired now i s")
    case False
    then show ?thesis using assms(2) by (simp add: s'_def tm_slot_def due_calls_def tm_def)
  next
    case True
    then have i: "i \<in> slots s" using assms(3) by (simp add: expired_def slots_def)
    have e: "s' = fire prog tm s" using True by (simp add: s'_def tm_slot_def tm_def)
    have ok: "task_ok (tm_mem s) tm" using i assms(2) by (simp add: tasks_ok_def tm_def)
    note q = fire_quiet [OF assms(1) ok]
    have d: "descs s' = descs s" "slots s' = slots s" using q(1) slots_cong [OF q(1)] by (simp_all add: e)
    have t: "tasks_ok s'"
      using assms(2) d unfolding tasks_ok_def by (simp add: q(2) set_type_def e)
    have c: "called s' = called s @ due_calls now [i] s"
      using True by (simp add: e q(3) due_calls_def task_addr_def tm_def [symmetric])
    have o: "tm_active (task (descs s j)) s' = tm_active (task (descs s j)) s \<and> task_addr j s' = task_addr j s"
      if j: "j \<in> slots s" "j \<noteq> i" for j
      using fire_other [OF assms(1) ok, of "task (descs s j)"] assms(2) i j d(1)
      by (simp add: tasks_ok_def tm_def [symmetric] e task_addr_def) (metis tm_def)
    show ?thesis using d t c o fire_active [OF assms(1) ok] True e by simp
  qed
  then show "descs s' = descs s" "tasks_ok s'" "called s' = called s @ due_calls now [i] s"
    "\<And>j. j \<in> slots s \<Longrightarrow> j \<noteq> i \<Longrightarrow> tm_active (task (descs s j)) s' = tm_active (task (descs s j)) s"
    "\<And>j. j \<in> slots s \<Longrightarrow> j \<noteq> i \<Longrightarrow> task_addr j s' = task_addr j s"
    "i \<in> slots s \<Longrightarrow> tm_active (task (descs s i)) s' = (tm_active (task (descs s i)) s \<and> \<not> expired now i s)"
    by (simp_all add: tm_def)
qed

lemma due_calls_cong:
  assumes "\<And>j. j \<in> set js \<Longrightarrow> expired now j s = expired now j t"
    "\<And>j. j \<in> set js \<Longrightarrow> expired now j t \<Longrightarrow> task_addr j s = task_addr j t" "descs s = descs t"
  shows "due_calls now js s = due_calls now js t"
  using assms unfolding due_calls_def
  by (intro arg_cong2 [where f = map] filter_cong ext map_cong) auto

lemma slots_fold:
  assumes "quiet prog" "distinct js" "set js \<subseteq> {..<NUM_DESCS}" "tasks_ok s"
  shows "called (fold (tm_slot prog now) js s) = called s @ due_calls now js s \<and>
         descs (fold (tm_slot prog now) js s) = descs s \<and>
         (\<forall>j \<in> slots s. tm_active (task (descs s j)) (fold (tm_slot prog now) js s) =
            (tm_active (task (descs s j)) s \<and> \<not> (j \<in> set js \<and> expired now j s)))"
  using assms(2-4)
proof (induction js arbitrary: s)
  case (Cons i js)
  define s' where "s' = tm_slot prog now i s"
  have i: "i < NUM_DESCS" using Cons.prems(2) by simp
  note st = slot_step [OF assms(1) Cons.prems(3) i, where now = now, folded s'_def]
  have sl: "slots s' = slots s" using st(1) by (rule slots_cong)
  have ex: "expired now j s' = expired now j s" if "j \<noteq> i" "j < NUM_DESCS" for j
    using st(1,4) that by (cases "j \<in> slots s") (auto simp: expired_def slots_def)
  have js: "j \<noteq> i \<and> j < NUM_DESCS" if "j \<in> set js" for j using Cons.prems that by auto
  have dc: "due_calls now js s' = due_calls now js s"
    using ex js st(1,5) by (intro due_calls_cong) (auto simp: expired_def slots_def)
  note IH = Cons.IH [of s', unfolded sl st(1)]
  have c: "due_calls now (i # js) s = due_calls now [i] s @ due_calls now js s"
    by (simp add: due_calls_def)
  have ih: "called (fold (tm_slot prog now) js s') = called s' @ due_calls now js s' \<and>
         descs (fold (tm_slot prog now) js s') = descs s \<and>
         (\<forall>j \<in> slots s. tm_active (task (descs s j)) (fold (tm_slot prog now) js s') =
            (tm_active (task (descs s j)) s' \<and> \<not> (j \<in> set js \<and> expired now j s')))"
    using IH Cons.prems st(2) by simp
  have "tm_active (task (descs s j)) (fold (tm_slot prog now) js s') =
            (tm_active (task (descs s j)) s \<and> \<not> (j \<in> set (i # js) \<and> expired now j s))" if j: "j \<in> slots s" for j
    using ih j st(4,6) ex js Cons.prems(1) by (cases "j = i") (auto simp: slots_def)
  then show ?case using ih st(3) dc by (simp add: s'_def [symmetric] c)
qed (simp add: due_calls_def)

lemma TimerInterrupt_quiet:
  assumes "quiet prog" "tasks_ok s"
  shows "called (TimerInterrupt prog s) = called s @ due_calls (now_time s) [0..<NUM_DESCS] s"
    and "i \<in> slots s \<Longrightarrow> tm_active (task (descs s i)) (TimerInterrupt prog s) =
           (tm_active (task (descs s i)) s \<and> \<not> expired (now_time s) i s)"
  using slots_fold [OF assms(1) distinct_upt _ assms(2), of 0 NUM_DESCS "now_time s"]
  by (simp_all add: TimerInterrupt_def slots_def atLeastLessThan_def)

subsection \<open>Wakeup times\<close>

lemma set_wakeup_desc: "descs (set_wakeup i t s) j = (if j = i then (descs s i)\<lparr>wakeup := t\<rparr> else descs s j)"
  by (simp add: set_wakeup_def)

lemma mac2host_sec:
  assumes "m \<noteq> 0x80000000"
  shows "0 \<le> tv_sec (timer_mac2host_time m)" "tv_sec (timer_mac2host_time m) < 1000000000"
proof -
  have b: "0 \<le> mac_us m" "mac_us m < 2147483648000"
    using sint_u32_bounds [of m] by (auto simp: mac_us_def)
  then show "0 \<le> tv_sec (timer_mac2host_time m)" "tv_sec (timer_mac2host_time m) < 1000000000"
    using mac2host [OF assms] unfolding nanos_def normal_time_def by linarith+
qed

text \<open>A task that has been primed while extended: it is installed, and its type and tmWakeUp say so.\<close>

definition scheduled :: "u32 \<Rightarrow> nat \<Rightarrow> tmgr \<Rightarrow> bool" where
  "scheduled tm i s \<longleftrightarrow> tm_inv s \<and> i \<in> slots s \<and> task (descs s i) = tm \<and> task_ok (tm_mem s) tm \<and>
     tm_type tm s AND 0x4000 \<noteq> 0 \<and> ReadMacInt32 (tm_mem s) (tm + tmWakeUp) \<noteq> 0"

lemma or_keeps_bit: "(w :: u32) AND m \<noteq> 0 \<Longrightarrow> (w OR k) AND m \<noteq> 0"
proof -
  assume "w AND m \<noteq> 0"
  then obtain n where "bit (w AND m) n" by (auto simp: bit_eq_iff)
  then have "bit ((w OR k) AND m) n" by (simp add: bit_simps)
  then show ?thesis by force
qed

lemma and_ffff: "((w :: u32) AND 0xffff) AND 0x4000 = w AND 0x4000"
  by (simp add: and.assoc)

lemma activate_keeps:
  assumes "task_ok (tm_mem s) tm"
  shows "tm_type tm (activate tm s) = (tm_type tm s OR 0x8000) AND 0xffff"
    and "ReadMacInt32 (tm_mem (activate tm s)) (tm + tmWakeUp) = ReadMacInt32 (tm_mem s) (tm + tmWakeUp)"
    and "task_ok (tm_mem (activate tm s)) tm"
  using assms type_after_set_type [OF assms]
  by (simp_all add: activate_def) (simp_all add: set_type_def task_ok_def ReadMacInt32_plain ram_WriteMacInt16 tm_offsets add.assoc)

lemma set_long_keeps:
  assumes "task_ok (tm_mem s) tm"
  shows "tm_type tm (set_long (tm + tmWakeUp) v s) = tm_type tm s"
    and "ReadMacInt32 (tm_mem (set_long (tm + tmWakeUp) v s)) (tm + tmWakeUp) = v"
    and "task_ok (tm_mem (set_long (tm + tmWakeUp) v s)) tm"
  using assms
  by (simp_all add: tm_type_def set_long_def task_ok_def ReadMacInt16_plain ReadMacInt32_same ram_WriteMacInt32 tm_offsets add.assoc)

lemma PrimeTime_plain:
  assumes "tm_inv s" "find_desc tm s = Some i" "tasks_ok s" "tm_type tm s AND 0x4000 = 0"
  shows "wakeup (descs (PrimeTime tm d s) i) = timer_add_time (now_time s) (timer_mac2host_time d)"
    and "tm_active tm (PrimeTime tm d s)" "task_addr i (PrimeTime tm d s) = task_addr i s"
    and "tasks_ok (PrimeTime tm d s)"
    and "now_time (PrimeTime tm d s) = now_time s" "called (PrimeTime tm d s) = called s"
proof -
  let ?s1 = "upd_desc i (\<lambda>d. d\<lparr>emu_ns := emulated_ns s\<rparr>) s"
  define s2 where "s2 = set_wakeup i (timer_add_time (now_time s) (timer_mac2host_time d)) ?s1"
  have m: "tm_mem ?s1 = tm_mem s" "tm_mem s2 = tm_mem s" by (simp_all add: s2_def)
  have t: "tm_type tm ?s1 = tm_type tm s" using m(1) by (rule tm_type_cong)
  have e: "PrimeTime tm d s = activate tm s2"
    unfolding PrimeTime_def s2_def Let_def using assms(2,4) t by simp
  have i: "i \<in> slots s" "task (descs s i) = tm" using find_desc_SomeD [OF assms(2)] by simp_all
  have ok: "task_ok (tm_mem s2) tm" using assms(3) i m by (auto simp: tasks_ok_def)
  show "wakeup (descs (PrimeTime tm d s) i) = timer_add_time (now_time s) (timer_mac2host_time d)"
    by (simp add: e s2_def set_wakeup_desc)
  have "((tm_type tm s2 OR 0x8000) AND 0xffff) AND 0x8000 \<noteq> 0"
    by (simp add: and.assoc word_ao_dist)
  then show "tm_active tm (PrimeTime tm d s)" unfolding tm_active_def e activate_keeps(1) [OF ok] .
  show "task_addr i (PrimeTime tm d s) = task_addr i s"
    using set_type_own_addr [OF ok] m(2) i(2)
    by (simp add: task_addr_def PrimeTime_keeps) (simp add: e activate_def)
  have mem: "task_ok (tm_mem (PrimeTime tm d s)) = task_ok (tm_mem s)"
    unfolding e by (rule ext) (simp add: activate_def set_type_def m(2))
  have "slots (PrimeTime tm d s) = slots s" by (simp add: slots_def PrimeTime_keeps)
  then show "tasks_ok (PrimeTime tm d s)" using assms(3) mem by (simp add: tasks_ok_def PrimeTime_keeps)
  show "now_time (PrimeTime tm d s) = now_time s" "called (PrimeTime tm d s) = called s"
    by (simp_all add: e s2_def)
qed

lemma PrimeTime_scheduled:
  assumes "scheduled tm i s" "d \<noteq> 0"
  shows "wakeup (descs (PrimeTime tm d s) i) = timer_add_time (wakeup (descs s i)) (timer_mac2host_time d)"
    and "scheduled tm i (PrimeTime tm d s)"
proof -
  let ?s1 = "upd_desc i (\<lambda>d. d\<lparr>emu_ns := emulated_ns s\<rparr>) s"
  define s2 where "s2 = set_wakeup i (timer_add_time (wakeup (descs s i)) (timer_mac2host_time d)) ?s1"
  define s3 where "s3 = set_long (tm + tmWakeUp) 0x12345678 s2"
  have f: "find_desc tm s = Some i" using assms(1) by (simp add: scheduled_def find_desc_iff)
  have m: "tm_mem ?s1 = tm_mem s" "tm_mem s2 = tm_mem s" by (simp_all add: s2_def)
  have t: "tm_type tm ?s1 = tm_type tm s" "tm_type tm s2 = tm_type tm s" using m tm_type_cong by blast+
  have x: "tm_type tm s AND 0x4000 \<noteq> 0" "ReadMacInt32 (tm_mem s) (tm + tmWakeUp) \<noteq> 0"
    using assms(1) by (simp_all add: scheduled_def)
  have e: "PrimeTime tm d s = activate tm s3"
    unfolding PrimeTime_def s3_def s2_def Let_def by (simp only: f option.case t m) (simp add: x assms(2))
  show "wakeup (descs (PrimeTime tm d s) i) = timer_add_time (wakeup (descs s i)) (timer_mac2host_time d)"
    by (simp add: e s3_def s2_def set_wakeup_desc)
  have ok: "task_ok (tm_mem s2) tm" using assms(1) m by (simp add: scheduled_def)
  note k = set_long_keeps [OF ok, where v = "0x12345678", folded s3_def]
  note a = activate_keeps [OF k(3)]
  have "tm_type tm (activate tm s3) AND 0x4000 \<noteq> 0"
    unfolding a(1) k(1) t and_ffff using assms(1) by (intro or_keeps_bit) (simp add: scheduled_def)
  moreover have "i \<in> slots (PrimeTime tm d s)" "task (descs (PrimeTime tm d s) i) = tm"
    using assms(1) by (simp_all add: scheduled_def slots_def PrimeTime_keeps)
  moreover have "tm_inv (PrimeTime tm d s)" using assms(1) by (simp add: scheduled_def PrimeTime_set)
  ultimately show "scheduled tm i (PrimeTime tm d s)"
    using a(2,3) k(2) by (simp add: scheduled_def e)
qed

subsection \<open>The time left of a task\<close>

definition emulated_us :: "nat \<Rightarrow> int" where
  "emulated_us n = (if n = 0 then 0 else max 1 (int n div 1000))"

lemma host2mac_max:
  assumes "normal_time t" "nanos t < 2147483648000"
  shows "mac_us (timer_host2mac_time t) = max 0 (nanos t div 1000)"
proof (cases "tv_sec t < 0")
  case True
  then have "nanos t < 0" using assms(1) by (simp add: nanos_def normal_time_def)
  then have "nanos t div 1000 < 0" by simp
  moreover have "timer_host2mac_time t = 0" using True by (simp add: timer_host2mac_time_def)
  ultimately show ?thesis by (simp add: mac_us_def)
next
  case False
  then have "0 \<le> nanos t" using assms(1) by (simp add: nanos_def normal_time_def)
  then have "0 \<le> nanos t div 1000" "nanos t div 1000 \<le> 2147483647" using assms(2) by auto
  then show ?thesis using host2mac_us [OF assms(1)] False by (simp add: Let_def max_def)
qed

lemma time_left_us:
  assumes "normal_time (now_time s)" "normal_time (wakeup (descs s i))"
    and "unat (emulated_ns s) - unat (emu_ns (descs s i)) < 2147483648000"
    and "nanos (wakeup (descs s i)) - nanos (now_time s) < 2147483648000"
  shows "mac_us (timer_host2mac_time (time_left i s)) =
           max 0 ((nanos (wakeup (descs s i)) - nanos (now_time s)
                   - 1000 * emulated_us (unat (emulated_ns s) - unat (emu_ns (descs s i)))) div 1000)"
proof -
  let ?e = "emulated_ns s" and ?p = "emu_ns (descs s i)"
  define dn where "dn = (if ?e \<ge> ?p then ?e - ?p else 0)"
  have dn: "unat dn = unat ?e - unat ?p"
    by (simp add: dn_def unat_sub word_le_nat_alt)
  define t where "t = timer_advance_by_emulated_ns dn (now_time s)"
  have z: "timer_advance_by_emulated_ns 0 u = u" for u by (simp add: timer_advance_by_emulated_ns_def)
  have t: "nanos t = nanos (now_time s) + 1000 * emulated_us (unat dn) \<and> normal_time t"
    using advance_nanos [of dn "now_time s"] assms(1) assms(3) [folded dn]
    by (cases "dn = 0") (simp_all add: t_def z emulated_us_def unat_eq_zero)
  have l: "time_left i s = timer_sub_time (wakeup (descs s i)) t"
    by (simp add: time_left_def Let_def t_def dn_def)
  have "0 \<le> emulated_us (unat dn)" by (auto simp: emulated_us_def max_def)
  then show ?thesis
    using t assms(2,4) unfolding l dn [symmetric] by (subst host2mac_max) (simp_all add: normal_sub algebra_simps)
qed

lemma RmvTime_count:
  assumes "find_desc tm s = Some i" "task_ok (tm_mem s) tm" "tm_active tm s"
  shows "ReadMacInt32 (tm_mem (RmvTime tm s)) (tm + tmCount) = timer_host2mac_time (time_left i s)"
    and "\<not> tm_active tm (RmvTime tm s)"
proof -
  define s1 where "s1 = set_type tm (tm_type tm s AND 0x7fff) s"
  define s2 where "s2 = set_long (tm + tmCount) (timer_host2mac_time (time_left i s)) s1"
  have e: "tm_mem (RmvTime tm s) = tm_mem s2" using assms by (simp add: RmvTime_def s1_def s2_def)
  have ok: "task_ok (tm_mem s1) tm" using assms(2) by (simp add: s1_def set_type_def)
  then show "ReadMacInt32 (tm_mem (RmvTime tm s)) (tm + tmCount) = timer_host2mac_time (time_left i s)"
    by (simp add: e s2_def set_long_def ReadMacInt32_same task_ok_def)
  have "tm_type tm s2 = tm_type tm s1"
    using ok by (simp add: s2_def tm_type_def set_long_def task_ok_def ReadMacInt16_plain ram_WriteMacInt32 tm_offsets add.assoc)
  also have "\<dots> = tm_type tm s AND 0x7fff"
    using type_after_set_type [OF assms(2)] by (simp add: s1_def and.assoc)
  finally show "\<not> tm_active tm (RmvTime tm s)"
    using tm_type_cong [OF e, of tm] by (simp add: tm_active_def inactive)
qed

end
