(* ===== verification/Timer_Properties.thy ===== *)
theory Timer_Properties
  imports Timer_Schedule
begin

section \<open>Properties of the Time Manager\<close>

text \<open>
  The descriptors refine a set of tasks; the interrupt calls what is due; extended tasks do
  not drift; the time left of a removed task. The witnesses run on one or two tasks built here.
\<close>

definition idle_prog :: guest_prog where
  "idle_prog addr tm s = []"

lemma quiet_idle: "quiet idle_prog"
  by (simp add: quiet_def idle_prog_def)

text \<open>
  C30. After any history of calls, interrupts and resets from start-up, whatever the routines of
  the tasks do, no task has two descriptors, and the three traps act on the set of installed
  tasks: InsTime adds the task unless 64 others are installed, RmvTime takes it out, PrimeTime
  changes nothing, and a reset empties the set.\<close>
theorem installed_tasks_form_a_set:
  "let s = tm_run prog es (TimerInit s0) in
     inj_on (\<lambda>i. task (descs s i)) (slots s) \<and>
     installed (InsTime tm trap s) =
       (if tm \<in> installed s \<or> card (installed s) < 64 then insert tm (installed s) else installed s) \<and>
     installed (RmvTime tm s) = installed s - {tm} \<and>
     installed (PrimeTime tm d s) = installed s \<and> installed (TimerReset s) = {}"
proof -
  have "tm_inv (TimerInit s0)" by (simp add: tm_inv_def TimerReset_empty)
  then have i: "tm_inv (tm_run prog es (TimerInit s0))" by (rule tm_run_inv)
  show ?thesis
    using InsTime_set(1) [OF i, of tm trap] RmvTime_set(1) [OF i] PrimeTime_set(1) i
    by (simp add: Let_def tm_inv_def installed_def TimerReset_empty NUM_DESCS_def)
qed

text \<open>
  For tasks whose records lie apart in ordinary memory and whose routines only let time
  pass, the timer interrupt calls the routine of every active task whose wakeup time lies
  before the time of the interrupt, each once and in the order of the descriptors, makes these
  tasks inactive and leaves the other tasks active.\<close>
theorem interrupt_calls_what_is_due:
  assumes "quiet prog" "tasks_ok s"
  shows "called (TimerInterrupt prog s) = called s @ due_calls (now_time s) [0..<NUM_DESCS] s \<and>
     (\<forall>i \<in> slots s. tm_active (task (descs s i)) (TimerInterrupt prog s) =
        (tm_active (task (descs s i)) s \<and> \<not> expired (now_time s) i s))"
  using TimerInterrupt_quiet [OF assms] by blast

definition demo_desc :: "u32 \<Rightarrow> tm_time \<Rightarrow> tm_desc" where
  "demo_desc tm w = \<lparr>task = tm, wakeup = w, emu_ns = 0, in_use = True\<rparr>"

definition free_demo :: tm_desc where
  "free_demo = \<lparr>task = 0, wakeup = \<lparr>tv_sec = 0, tv_nsec = 0\<rparr>, emu_ns = 0, in_use = False\<rparr>"

definition demo_mem :: "(u32 \<Rightarrow> u8) \<Rightarrow> mac" where
  "demo_mem f = \<lparr>ram = f, rom_base = 0x40800000, rom_size = 0x100000, regions = [], mmio_log = []\<rparr>"

text \<open>Task 0x1000 is active, with its routine at 0x2a; task 0x2000 is extended and was scheduled.\<close>

definition demo_tm :: tmgr where
  "demo_tm = \<lparr>tm_mem = demo_mem ((\<lambda>a. 0)(0x1004 := 0x80, 0x1009 := 0x2a, 0x2004 := 0x40, 0x200e := 1)),
     descs = (\<lambda>i. if i = 0 then demo_desc 0x1000 \<lparr>tv_sec = 5, tv_nsec = 0\<rparr>
                  else if i = 1 then demo_desc 0x2000 \<lparr>tv_sec = 9, tv_nsec = 0\<rparr> else free_demo),
     now_time = \<lparr>tv_sec = 7, tv_nsec = 0\<rparr>, emulated_ns = 0, called = []\<rparr>"

lemma plain_demo: "a < 0x40800000 \<Longrightarrow> plain (demo_mem f) a"
  by (simp add: plain_def is_mmio_addr_def FindMMIORegion_def demo_mem_def rom_protected_def not_le)

lemma slots_demo: "slots demo_tm = {0, 1}"
  by (auto simp: slots_def demo_tm_def demo_desc_def free_demo_def NUM_DESCS_def)

lemma task_demo [simp]: "task (descs demo_tm 0) = 0x1000" "task (descs demo_tm (Suc 0)) = 0x2000"
  by (simp_all add: demo_tm_def demo_desc_def)

lemma tasks_demo: "tasks_ok demo_tm"
  by (simp add: tasks_ok_def slots_demo apart_def task_ok_def tm_offsets)
     (simp add: demo_tm_def plain_demo)

lemma inv_demo: "tm_inv demo_tm"
  by (simp add: tm_inv_def slots_demo)

lemma type_demo: "tm_type 0x1000 demo_tm = 0x8000" "tm_type 0x2000 demo_tm = 0x4000"
  by (simp_all add: tm_type_def tm_offsets ReadMacInt16_plain demo_tm_def plain_demo)
     (simp_all add: of_be16_def demo_mem_def)

theorem interrupt_calls_what_is_due_witness:
  "(0x2a, 0x1000) \<in> set (called (TimerInterrupt idle_prog demo_tm))"
proof -
  have a: "task_addr 0 demo_tm = 0x2a"
    by (simp add: task_addr_def) (simp add: tm_offsets ReadMacInt32_plain demo_tm_def plain_demo,
        simp add: of_be32_def demo_mem_def)
  have "expired (now_time demo_tm) 0 demo_tm"
    by (simp add: expired_def tm_active_def type_demo)
       (simp add: demo_tm_def demo_desc_def timer_cmp_time_def to_int32_def)
  then have "(0x2a, 0x1000) \<in> set (due_calls (now_time demo_tm) [0..<NUM_DESCS] demo_tm)"
    using a by (force simp: due_calls_def NUM_DESCS_def)
  then show ?thesis using interrupt_calls_what_is_due [OF quiet_idle tasks_demo] by simp
qed

text \<open>
  C31. A plain task (bit 14 of its type clear) that is installed, with a routine whose address
  is not 0, is primed with a delay other than -2^31. After a time has passed, the next timer
  interrupt calls it just when that time is longer than the delay, a positive delay being milliseconds and a
  negative one microseconds. This holds where every installed record lies in plain memory
  and apart from the others, no record is installed twice, and the routines of the tasks
  neither call the Time Manager nor store anything but only take time; the clock and the time
  passed have their nanoseconds in range, and the time passed is from 0 up to 10^9 seconds.
  The comment at \<open>SDL/timer_common.cpp:158\<close> calls both signs microseconds; the code, as the
  comments inside it, takes a positive delay as milliseconds, and so does this.\<close>
theorem primed_task_fires:
  assumes "quiet prog" "tasks_ok s" "tm_inv s" "find_desc tm s = Some i" "tm_type tm s AND 0x4000 = 0"
    and "task_addr i s \<noteq> 0" "d \<noteq> 0x80000000" "normal_time (now_time s)" "normal_time dt"
    and "0 \<le> tv_sec dt" "tv_sec dt < 1000000000"
  shows "(task_addr i s, tm) \<in> set (drop (length (called s))
           (called (TimerInterrupt prog (guest_do (Elapse dt n) (PrimeTime tm d s))))) \<longleftrightarrow>
         1000 * mac_us d < nanos dt"
proof -
  note p = PrimeTime_plain [OF assms(3,4,2,5), of d]
  define s2 where "s2 = guest_do (Elapse dt n) (PrimeTime tm d s)"
  have s2: "descs s2 = descs (PrimeTime tm d s)" "tm_mem s2 = tm_mem (PrimeTime tm d s)"
      "now_time s2 = timer_add_time (now_time s) dt" "called s2 = called s"
    by (simp_all add: s2_def p)
  have i: "i \<in> slots s2" "task (descs s2 i) = tm" "i < NUM_DESCS"
    using assms(3,4) by (auto simp: find_desc_iff slots_def s2(1) PrimeTime_keeps)
  have inv: "tm_inv s2" using assms(3) PrimeTime_set(2) tm_inv_cong [OF s2(1)] by simp
  have ok: "tasks_ok s2" using p(4) by (simp add: tasks_ok_def s2 slots_cong [OF s2(1)])
  have addr: "task_addr i s2 = task_addr i s" using p(3) s2 by (simp add: task_addr_def)
  have w: "wakeup (descs s2 i) = timer_add_time (now_time s) (timer_mac2host_time d)" using p(1) s2(1) by simp
  have ex: "expired (now_time s2) i s2 \<longleftrightarrow> 1000 * mac_us d < nanos dt"
  proof -
    have "tm_active tm s2" using p(2) tm_active_cong [OF s2(2)] by simp
    moreover have "in_use (descs s2 i)" using i(1) by (simp add: slots_def)
    moreover have "timer_cmp_time (wakeup (descs s2 i)) (now_time s2) < 0 \<longleftrightarrow>
        nanos (wakeup (descs s2 i)) < nanos (now_time s2)"
      unfolding w s2(3) using assms(8-11) mac2host(2) [OF assms(7)] mac2host_sec [OF assms(7)]
      by (intro cmp_less_iff normal_add) (auto simp: timer_add_time_def Let_def)
    ultimately show ?thesis
      using mac2host(1) [OF assms(7)] by (simp add: expired_def i(2) w s2(3) ac_simps)
  qed
  have "(task_addr i s2, tm) \<in> set (due_calls (now_time s2) [0..<NUM_DESCS] s2) \<longleftrightarrow> expired (now_time s2) i s2"
    using i inv addr assms(6)
    by (auto simp: due_calls_def tm_inv_def slots_def expired_def image_iff inj_on_def)
  then show ?thesis
    using TimerInterrupt_quiet(1) [OF assms(1) ok] ex unfolding s2_def [symmetric] by (simp add: s2(4) addr)
qed

definition demo_plain :: tmgr where
  "demo_plain = demo_tm\<lparr>now_time := \<lparr>tv_sec = 1, tv_nsec = 0\<rparr>\<rparr>"

theorem primed_task_fires_witness:
  "(0x2a, 0x1000) \<in> set (drop (length (called demo_tm)) (called (TimerInterrupt idle_prog
      (guest_do (Elapse \<lparr>tv_sec = 0, tv_nsec = 6000000\<rparr> 0) (PrimeTime 0x1000 5 demo_tm)))))"
proof -
  have f: "find_desc 0x1000 demo_tm = Some 0" by (simp add: find_desc_iff inv_demo slots_demo)
  have a: "task_addr 0 demo_tm = 0x2a"
    by (simp add: task_addr_def) (simp add: tm_offsets ReadMacInt32_plain demo_tm_def plain_demo,
        simp add: of_be32_def demo_mem_def)
  have t: "tm_type 0x1000 demo_tm AND 0x4000 = 0" by (simp add: type_demo)
  have n: "normal_time (now_time demo_tm)" by (simp add: demo_tm_def normal_time_def)
  have "mac_us 5 = 5000" by (simp add: mac_us_def)
  then show ?thesis
    using primed_task_fires [OF quiet_idle tasks_demo inv_demo f t, of 5 "\<lparr>tv_sec = 0, tv_nsec = 6000000\<rparr>" 0] a n
    by (simp add: normal_time_def nanos_def del: guest_do.simps)
qed

text \<open>
  An extended task that was scheduled before keeps to its schedule: however late it is
  primed again and again, each wakeup time is the previous wakeup time plus the delay, so
  after a series of primes it is the first one plus the sum of the delays.\<close>
theorem extended_tasks_do_not_drift:
  assumes "scheduled tm i s" "\<forall>(dt, n, d) \<in> set ps. d \<noteq> 0 \<and> d \<noteq> 0x80000000"
  shows "nanos (wakeup (descs (tm_run prog (concat (map (\<lambda>(dt, n, d). [Guest (Elapse dt n), Guest (Prime tm d)]) ps)) s) i)) =
         nanos (wakeup (descs s i)) + (\<Sum>(dt, n, d) \<leftarrow> ps. 1000 * mac_us d)"
  using assms
proof (induction ps arbitrary: s)
  case (Cons p ps)
  obtain dt n d where p: "p = (dt, n, d)" by (cases p)
  define s1 where "s1 = guest_do (Elapse dt n) s"
  have s1: "scheduled tm i s1" "descs s1 = descs s"
    using Cons.prems(1) by (simp_all add: s1_def scheduled_def tm_type_def tm_inv_def slots_def)
  have d: "d \<noteq> 0" "d \<noteq> 0x80000000" using Cons.prems(2) p by auto
  have st: "tm_run prog (Guest (Elapse dt n) # Guest (Prime tm d) # es) s = tm_run prog es (PrimeTime tm d s1)" for es
    by (simp add: tm_run_def s1_def)
  have w: "nanos (wakeup (descs (PrimeTime tm d s1) i)) = nanos (wakeup (descs s i)) + 1000 * mac_us d"
    using PrimeTime_scheduled(1) [OF s1(1) d(1)] mac2host(1) [OF d(2)] s1(2) by simp
  show ?case
    using Cons.IH [OF PrimeTime_scheduled(2) [OF s1(1) d(1)]] Cons.prems(2)
    by (simp add: p st w del: guest_do.simps)
qed (simp add: tm_run_def)

theorem extended_tasks_do_not_drift_witness:
  "nanos (wakeup (descs (tm_run idle_prog [Guest (Elapse \<lparr>tv_sec = 3, tv_nsec = 0\<rparr> 0), Guest (Prime 0x2000 5)] demo_tm) 1))
   = 9005000000"
proof -
  have "ReadMacInt32 (tm_mem demo_tm) (0x2000 + tmWakeUp) \<noteq> 0"
    by (simp add: tm_offsets ReadMacInt32_plain demo_tm_def plain_demo) (simp add: of_be32_def demo_mem_def)
  moreover have "task_ok (tm_mem demo_tm) 0x2000"
    by (simp add: task_ok_def tm_offsets) (simp add: demo_tm_def plain_demo)
  ultimately have s: "scheduled 0x2000 1 demo_tm"
    by (simp add: scheduled_def inv_demo slots_demo type_demo)
  have "mac_us 5 = 5000" by (simp add: mac_us_def)
  moreover have "nanos (wakeup (descs demo_tm 1)) = 9000000000"
    by (simp add: demo_tm_def demo_desc_def nanos_def)
  ultimately show ?thesis
    using extended_tasks_do_not_drift [OF s, of "[(\<lparr>tv_sec = 3, tv_nsec = 0\<rparr>, 0, 5)]" idle_prog] by simp
qed

text \<open>
  Removing an active task leaves in its tmCount what is left of its delay, in
  microseconds, with the emulated time since it was primed (at least one microsecond when
  there was any) counted as passed, and 0 when nothing is left; the task is inactive then
  and not installed.\<close>
theorem removed_task_keeps_time_left:
  assumes "tm_inv s" "find_desc tm s = Some i" "task_ok (tm_mem s) tm" "tm_active tm s"
    and "normal_time (now_time s)" "normal_time (wakeup (descs s i))"
    and "unat (emulated_ns s) - unat (emu_ns (descs s i)) < 2147483648000"
    and "nanos (wakeup (descs s i)) - nanos (now_time s) < 2147483648000"
  shows "mac_us (ReadMacInt32 (tm_mem (RmvTime tm s)) (tm + tmCount)) =
           max 0 ((nanos (wakeup (descs s i)) - nanos (now_time s)
                   - 1000 * emulated_us (unat (emulated_ns s) - unat (emu_ns (descs s i)))) div 1000) \<and>
         \<not> tm_active tm (RmvTime tm s) \<and> tm \<notin> installed (RmvTime tm s)"
  using RmvTime_count [OF assms(2-4)] time_left_us [OF assms(5-8)] RmvTime_set(1) [OF assms(1)] by simp

theorem removed_task_keeps_time_left_witness:
  "mac_us (ReadMacInt32 (tm_mem (RmvTime 0x1000 demo_plain)) (0x1000 + tmCount)) = 4000000"
proof -
  have d: "descs demo_plain = descs demo_tm" "tm_mem demo_plain = tm_mem demo_tm" by (simp_all add: demo_plain_def)
  have inv: "tm_inv demo_plain" using inv_demo tm_inv_cong [OF d(1)] by simp
  have f: "find_desc 0x1000 demo_plain = Some 0"
    using slots_cong [OF d(1)] by (simp add: find_desc_iff inv slots_demo d(1))
  have ok: "task_ok (tm_mem demo_plain) 0x1000"
    by (simp add: task_ok_def tm_offsets d) (simp add: demo_tm_def plain_demo)
  have a: "tm_active 0x1000 demo_plain" using tm_active_cong [OF d(2)] by (simp add: tm_active_def type_demo)
  have e: "emu_ns (descs demo_plain 0) = 0" "emulated_ns demo_plain = 0" "now_time demo_plain = \<lparr>tv_sec = 1, tv_nsec = 0\<rparr>"
      "wakeup (descs demo_plain 0) = \<lparr>tv_sec = 5, tv_nsec = 0\<rparr>"
    by (simp_all add: demo_plain_def demo_tm_def demo_desc_def)
  show ?thesis
    using removed_task_keeps_time_left [OF inv f ok a] by (simp add: e normal_time_def nanos_def emulated_us_def)
qed

end
