(* ===== verification/Disk_Driver.thy ===== *)
theory Disk_Driver
  imports Device_Manager
begin

section \<open>The disk driver\<close>

text \<open>
  \<open>disk.cpp\<close>: the driver behind disk images and host disks. The linked list of
  \<open>DriveInfo\<close>s is the list \<open>disk_drives\<close>, a pointer into it an index. \<open>num_blocks\<close> is not
  initialised by the constructor; its first value is an argument (\<open>uninit\<close>) of \<open>DiskInit\<close>, like
  the items of the preferences. Results are the error codes of the Device Manager.
\<close>

record disk_drive = drive +
  dr_blocks :: u32

record disk_sys = env +
  disk_drives :: "disk_drive list"
  disk_acc_run :: bool
  disk_ticks :: int
  disk_icon :: u32

definition DiskRefNum :: int where "DiskRefNum = -63"
definition disk_driver_delay :: int where "disk_driver_delay = 120"

definition upd_disk :: "nat \<Rightarrow> (disk_drive \<Rightarrow> disk_drive) \<Rightarrow> 'a disk_sys_scheme \<Rightarrow> 'a disk_sys_scheme" where
  "upd_disk i f s = s\<lparr>disk_drives := (disk_drives s)[i := f (disk_drives s ! i)]\<rparr>"

definition get_drive_info :: "int \<Rightarrow> 'a disk_sys_scheme \<Rightarrow> nat option" where
  "get_drive_info n s = find_index (\<lambda>d. dr_num d = n) (disk_drives s)"

subsection \<open>Start-up, exit and reset\<close>

definition add_drive :: "u32 \<Rightarrow> string \<Rightarrow> 'a disk_sys_scheme \<Rightarrow> 'a disk_sys_scheme" where
  "add_drive uninit str s =
     (let (name, ro) = drive_pref str; (p, y) = Sys_open name ro (sysd s); s1 = s\<lparr>sysd := y\<rparr>
      in if p = None then s1
         else s1\<lparr>disk_drives := disk_drives s1 @
                [\<lparr>dr_num = 0, dr_fh = p, dr_mount = False, dr_ro = SysIsReadOnly p y, dr_status = 0,
                  dr_blocks = uninit\<rparr>]\<rparr>)"

definition DiskInit :: "u32 \<Rightarrow> string list \<Rightarrow> string list \<Rightarrow> 'a disk_sys_scheme \<Rightarrow> 'a disk_sys_scheme" where
  "DiskInit uninit prefs defaults s =
     fold (add_drive uninit) (if prefs = [] then defaults else prefs) (s\<lparr>disk_drives := []\<rparr>)"

definition DiskExit :: "'a disk_sys_scheme \<Rightarrow> 'a disk_sys_scheme" where
  "DiskExit s = s\<lparr>sysd := fold (\<lambda>d. Sys_close (dr_fh d)) (disk_drives s) (sysd s)\<rparr>"

definition DiskReset :: "'a disk_sys_scheme \<Rightarrow> 'a disk_sys_scheme" where
  "DiskReset s = s\<lparr>disk_drives := map (\<lambda>d. d\<lparr>dr_status := 0, dr_mount := False\<rparr>) (disk_drives s),
                   disk_acc_run := False\<rparr>"

subsection \<open>Mounting\<close>

definition drive_blocks :: "sys_fh \<Rightarrow> sysfs \<Rightarrow> u32" where
  "drive_blocks p y = word_of_int (SysGetFileSize p y sdiv 512)"

definition put_size :: "u32 \<Rightarrow> u32 \<Rightarrow> 'a env_scheme \<Rightarrow> 'a env_scheme" where
  "put_size st n s = wr16 (st + dsDriveS1) (drop_bit 16 n) (wr16 (st + dsDriveSize) (n AND 0xffff) s)"

definition disk_in_place :: "disk_drive \<Rightarrow> 'a env_scheme \<Rightarrow> u32" where
  "disk_in_place d s = ReadMacInt8 (dmem s) (dr_status d + dsDiskInPlace)"

definition DiskMountVolume :: "sys_fh \<Rightarrow> 'a disk_sys_scheme \<Rightarrow> bool \<times> 'a disk_sys_scheme" where
  "DiskMountVolume p s =
     (case find_index (\<lambda>d. dr_fh d = p) (disk_drives s) of
        None \<Rightarrow> (False, s)
      | Some i \<Rightarrow>
          (True,
           if SysIsDiskInserted p (sysd s)
           then (let ro = SysIsReadOnly p (sysd s); st = dr_status (disk_drives s ! i); n = drive_blocks p (sysd s);
                     s1 = wr8 (st + dsWriteProt) (if ro then 0xff else 0) (wr8 (st + dsDiskInPlace) 1 s)
                 in upd_disk i (\<lambda>d. d\<lparr>dr_ro := ro, dr_blocks := n, dr_mount := True\<rparr>) (put_size st n s1))
           else s))"

definition mount_drive :: "mac_os \<Rightarrow> nat \<Rightarrow> 'a disk_sys_scheme \<Rightarrow> 'a disk_sys_scheme" where
  "mount_drive os i s =
     (let d = disk_drives s ! i;
          s1 = (if disk_in_place d s = 0 \<and> SysIsDiskInserted (dr_fh d) (sysd s)
                then snd (DiskMountVolume (dr_fh d) s) else s)
      in if dr_mount (disk_drives s1 ! i)
         then upd_disk i (\<lambda>d. d\<lparr>dr_mount := False\<rparr>) (PostEvent os (dr_num (disk_drives s1 ! i)) s1)
         else s1)"

definition mount_mountable_volumes :: "mac_os \<Rightarrow> 'a disk_sys_scheme \<Rightarrow> 'a disk_sys_scheme" where
  "mount_mountable_volumes os s = fold (mount_drive os) [0..<length (disk_drives s)] s"

subsection \<open>Open\<close>

definition set_up_status :: "nat \<Rightarrow> 'a disk_sys_scheme \<Rightarrow> 'a disk_sys_scheme" where
  "set_up_status i s =
     (let d = disk_drives s ! i; st = dr_status d; p = dr_fh d;
          fixed = SysIsFixedDisk p (sysd s); inserted = SysIsDiskInserted p (sysd s);
          s1 = wr8 (st + dsInstalled) 1 (wr16 (st + dsQType) 1 s);
          s2 = (if fixed then wr8 (st + dsDiskInPlace) 8 s1
                else if inserted then wr8 (st + dsDiskInPlace) 1 s1 else s1);
          s3 = (if fixed \<or> inserted
                then upd_disk i (\<lambda>d. d\<lparr>dr_blocks := drive_blocks p (sysd s), dr_mount := True\<rparr>)
                       (wr8 (st + dsWriteProt) (if dr_ro d then 0x80 else 0) s2)
                else s2)
      in put_size st (dr_blocks (disk_drives s3 ! i)) s3)"

definition open_drive :: "mac_os \<Rightarrow> nat \<Rightarrow> 'a disk_sys_scheme \<Rightarrow> 'a disk_sys_scheme option" where
  "open_drive os i s =
     Option.bind (FindFreeDriveNumber (dmem s) 1) (\<lambda>n.
       (let s1 = upd_disk i (\<lambda>d. d\<lparr>dr_num := n, dr_mount := False\<rparr>) s
        in if dr_fh (disk_drives s1 ! i) = None then Some s1
           else (let (a, s2) = Execute68kTrap os 0xa71e SIZEOF_DrvSts 0 s1
                 in if a = 0 then Some s2
                    else (let s3 = set_up_status i (upd_disk i (\<lambda>d. d\<lparr>dr_status := a\<rparr>) s2)
                          in Some (snd (Execute68kTrap os 0xa04e
                               (push_bit 16 (word_of_int n) OR (word_of_int DiskRefNum AND 0xffff))
                               (a + dsQLink) s3))))))"

definition DiskOpen :: "mac_os \<Rightarrow> u32 \<Rightarrow> u32 \<Rightarrow> 'a disk_sys_scheme \<Rightarrow> (int \<times> 'a disk_sys_scheme) option" where
  "DiskOpen os pb dce s =
     (let s1 = (wr32 (dce + dCtlPosition) 0 s)\<lparr>disk_acc_run := False\<rparr>
      in map_option (Pair noErr) (for_each (open_drive os) [0..<length (disk_drives s1)] s1))"

subsection \<open>Prime\<close>

definition prime_position :: "u32 \<Rightarrow> u32 \<Rightarrow> mac \<Rightarrow> int" where
  "prime_position pb dce m =
     (if ReadMacInt16 m (pb + ioPosMode) AND 0x100 \<noteq> 0
      then sint (push_bit 32 (ucast (ReadMacInt32 m (pb + ioWPosOffset))) OR
                 ucast (ReadMacInt32 m (pb + ioWPosOffset + 4)) :: u64)
      else uint (ReadMacInt32 m (dce + dCtlPosition)))"

definition prime_done :: "u32 \<Rightarrow> u32 \<Rightarrow> u32 \<Rightarrow> 'a env_scheme \<Rightarrow> 'a env_scheme" where
  "prime_done pb dce actual s =
     (let s1 = wr32 (pb + ioActCount) actual s
      in wr32 (dce + dCtlPosition) (ReadMacInt32 (dmem s1) (dce + dCtlPosition) + actual) s1)"

definition prime_read :: "u32 \<Rightarrow> u32 \<Rightarrow> sys_fh \<Rightarrow> u32 \<Rightarrow> u32 \<Rightarrow> int \<Rightarrow> 'a env_scheme \<Rightarrow> int \<times> 'a env_scheme" where
  "prime_read pb dce p buffer len pos s =
     (case Sys_read p pos (unat len) (sysd s) of
        None \<Rightarrow> (readErr, s)
      | Some bs \<Rightarrow>
          (let s1 = s\<lparr>dmem := store buffer bs (dmem s)\<rparr>
           in if length bs \<noteq> unat len then (readErr, s1) else (noErr, prime_done pb dce len s1)))"

definition prime_write :: "u32 \<Rightarrow> u32 \<Rightarrow> sys_fh \<Rightarrow> u32 \<Rightarrow> u32 \<Rightarrow> int \<Rightarrow> 'a env_scheme \<Rightarrow> int \<times> 'a env_scheme" where
  "prime_write pb dce p buffer len pos s =
     (let (r, y) = Sys_write p (fetch (dmem s) buffer (unat len)) pos (sysd s); s1 = s\<lparr>sysd := y\<rparr>
      in if r \<noteq> Some (unat len) then (writErr, s1) else (noErr, prime_done pb dce len s1))"

definition DiskPrime :: "u32 \<Rightarrow> u32 \<Rightarrow> 'a disk_sys_scheme \<Rightarrow> int \<times> 'a disk_sys_scheme" where
  "DiskPrime pb dce s0 =
     (let s = wr32 (pb + ioActCount) 0 s0; m = dmem s
      in case get_drive_info (uint (ReadMacInt16 m (pb + ioVRefNum))) s of
           None \<Rightarrow> (nsDrvErr, s)
         | Some i \<Rightarrow>
             (let d = disk_drives s ! i; buffer = ReadMacInt32 m (pb + ioBuffer);
                  len = ReadMacInt32 m (pb + ioReqCount); pos = prime_position pb dce m
              in if disk_in_place d s = 0 then (offLinErr, s)
                 else if len AND 0x1ff \<noteq> 0 \<or> pos AND 0x1ff \<noteq> 0 then (paramErr, s)
                 else if ReadMacInt16 m (pb + ioTrap) AND 0xff = 2 then prime_read pb dce (dr_fh d) buffer len pos s
                 else if dr_ro d then (wPrErr, s)
                 else prime_write pb dce (dr_fh d) buffer len pos s))"

subsection \<open>Control\<close>

definition drive_control :: "mac_os \<Rightarrow> u32 \<Rightarrow> u32 \<Rightarrow> nat \<Rightarrow> 'a disk_sys_scheme \<Rightarrow> int \<times> 'a disk_sys_scheme" where
  "drive_control os code pb i s =
     (let d = disk_drives s ! i; place = disk_in_place d s
      in if code = 5 then (if place > 0 then noErr else offLinErr, s)
         else if code = 6 then (if dr_ro d then wPrErr else if place > 0 then noErr else offLinErr, s)
         else if code = 7 then
           (noErr, if place = 8 then PostEvent os (dr_num d) s
                   else if place > 0 then wr8 (dr_status d + dsDiskInPlace) 0 (s\<lparr>sysd := SysEject (dr_fh d) (sysd s)\<rparr>)
                   else s)
         else if code = 21 \<or> code = 22 then (noErr, wr32 (pb + csParam) (disk_icon s) s)
         else if code = 23 then (noErr, wr32 (pb + csParam) (if place = 8 then 0x0601 else 0x0201) s)
         else if code = 24 then
           (if place > 0 then (noErr, wr32 (pb + csParam) (dr_blocks d) s) else (offLinErr, s))
         else (controlErr, s))"

definition DiskControl :: "mac_os \<Rightarrow> u32 \<Rightarrow> u32 \<Rightarrow> 'a disk_sys_scheme \<Rightarrow> int \<times> 'a disk_sys_scheme" where
  "DiskControl os pb dce s =
     (let code = ReadMacInt16 (dmem s) (pb + csCode)
      in if code = 1 then (noErr, s)
         else if code = 65 then
           (let s1 = mount_mountable_volumes os s;
                s2 = wr16 (dce + dCtlFlags) (ReadMacInt16 (dmem s1) (dce + dCtlFlags) AND NOT 0x2000) s1
            in (noErr, s2\<lparr>disk_acc_run := True\<rparr>))
         else (case get_drive_info (uint (ReadMacInt16 (dmem s) (pb + ioVRefNum))) s of
                 None \<Rightarrow> (nsDrvErr, s)
               | Some i \<Rightarrow> drive_control os code pb i s))"

subsection \<open>Status\<close>

definition driver_gestalt :: "u32 \<Rightarrow> nat option \<Rightarrow> 'a disk_sys_scheme \<Rightarrow> int \<times> 'a disk_sys_scheme" where
  "driver_gestalt pb info s =
     (let sel = ReadMacInt32 (dmem s) (pb + csParam); put = (\<lambda>v. (noErr, wr32 (pb + csParam + 4) v s))
      in if sel = four_cc ''vers'' then put 0x01008000
         else if sel = four_cc ''devt'' then
           put (case info of None \<Rightarrow> four_cc ''disk''
                | Some i \<Rightarrow> if disk_in_place (disk_drives s ! i) s = 8 then four_cc ''disk'' else four_cc ''rdsk'')
         else if sel = four_cc ''intf'' then put (four_cc ''basi'')
         else if sel = four_cc ''sync'' then put 0x01000000
         else if sel = four_cc ''boot'' then
           (noErr,
            wr16 (pb + csParam + 6) (word_of_int DiskRefNum AND 0xffff)
              (wr16 (pb + csParam + 4)
                 (case info of None \<Rightarrow> 0 | Some i \<Rightarrow> word_of_int (dr_num (disk_drives s ! i))) s))
         else if sel = four_cc ''wide'' then (noErr, wr16 (pb + csParam + 4) 0x0100 s)
         else if sel = four_cc ''purg'' then put 0
         else if sel = four_cc ''ejec'' then put 0x00030003
         else if sel = four_cc ''flus'' then (noErr, wr16 (pb + csParam + 4) 0 s)
         else if sel = four_cc ''vmop'' then put 0
         else (statusErr, s))"

definition DiskStatus :: "u32 \<Rightarrow> u32 \<Rightarrow> 'a disk_sys_scheme \<Rightarrow> int \<times> 'a disk_sys_scheme" where
  "DiskStatus pb dce s =
     (let info = get_drive_info (uint (ReadMacInt16 (dmem s) (pb + ioVRefNum))) s;
          code = ReadMacInt16 (dmem s) (pb + csCode)
      in if code = 43 then driver_gestalt pb info s
         else (case info of
                 None \<Rightarrow> (nsDrvErr, s)
               | Some i \<Rightarrow>
                   if code = 8
                   then (noErr, s\<lparr>dmem := Mac2Mac_memcpy (pb + csParam) (dr_status (disk_drives s ! i)) 22 (dmem s)\<rparr>)
                   else (statusErr, s)))"

subsection \<open>Interrupt\<close>

definition DiskInterrupt :: "mac_os \<Rightarrow> 'a disk_sys_scheme \<Rightarrow> 'a disk_sys_scheme" where
  "DiskInterrupt os s =
     (if \<not> disk_acc_run s then s
      else (let s1 = s\<lparr>disk_ticks := disk_ticks s + 1\<rparr>
            in if disk_ticks s1 > disk_driver_delay
               then mount_mountable_volumes os (s1\<lparr>disk_ticks := 0\<rparr>) else s1))"

end
