(* ===== verification/Sony_Driver.thy ===== *)
theory Sony_Driver
  imports Disk_Driver
begin

section \<open>The floppy driver\<close>

text \<open>
  \<open>sony.cpp\<close>: the replacement of the \<open>.Sony\<close> driver (with \<open>DISK_INSERT_CHECK\<close> 0), in a state
  that extends that of the disk driver, and \<open>MountVolume\<close> of \<open>macos_util.cpp\<close>, which asks
  both drivers. What \<open>PatchAfterStartup\<close> does to guest memory is an argument of
  \<open>SonyControl\<close>. \<open>tag_buffer\<close> is not initialised by the constructor and set before any use.
\<close>

record floppy_drive = drive +
  dr_tag :: u32

record sony_sys = disk_sys +
  sony_drives :: "floppy_drive list"
  sony_acc_run :: bool
  sony_ticks :: int
  sony_disk_icon :: u32
  sony_drive_icon :: u32

definition SonyRefNum :: int where "SonyRefNum = -5"
definition sony_driver_delay :: int where "sony_driver_delay = 120"

definition upd_sony :: "nat \<Rightarrow> (floppy_drive \<Rightarrow> floppy_drive) \<Rightarrow> 'a sony_sys_scheme \<Rightarrow> 'a sony_sys_scheme" where
  "upd_sony i f s = s\<lparr>sony_drives := (sony_drives s)[i := f (sony_drives s ! i)]\<rparr>"

definition sony_drive_info :: "int \<Rightarrow> 'a sony_sys_scheme \<Rightarrow> nat option" where
  "sony_drive_info n s = find_index (\<lambda>d. dr_num d = n) (sony_drives s)"

definition sony_in_place :: "floppy_drive \<Rightarrow> 'a env_scheme \<Rightarrow> u32" where
  "sony_in_place d s = ReadMacInt8 (dmem s) (dr_status d + dsDiskInPlace)"

subsection \<open>Start-up, exit and reset\<close>

definition add_floppy :: "string \<Rightarrow> 'a sony_sys_scheme \<Rightarrow> 'a sony_sys_scheme" where
  "add_floppy str s =
     (let (name, ro) = drive_pref str; (p, y) = Sys_open name ro (sysd s); s1 = s\<lparr>sysd := y\<rparr>
      in if p = None then s1
         else s1\<lparr>sony_drives := sony_drives s1 @
                [\<lparr>dr_num = 0, dr_fh = p, dr_mount = False, dr_ro = SysIsReadOnly p y, dr_status = 0, dr_tag = 0\<rparr>]\<rparr>)"

definition SonyInit :: "string list \<Rightarrow> string list \<Rightarrow> 'a sony_sys_scheme \<Rightarrow> 'a sony_sys_scheme" where
  "SonyInit prefs defaults s =
     fold add_floppy (if prefs = [] then defaults else prefs) (s\<lparr>sony_drives := []\<rparr>)"

definition SonyExit :: "'a sony_sys_scheme \<Rightarrow> 'a sony_sys_scheme" where
  "SonyExit s = s\<lparr>sysd := fold (\<lambda>d. Sys_close (dr_fh d)) (sony_drives s) (sysd s)\<rparr>"

definition SonyReset :: "'a sony_sys_scheme \<Rightarrow> 'a sony_sys_scheme" where
  "SonyReset s = s\<lparr>sony_drives := map (\<lambda>d. d\<lparr>dr_status := 0, dr_mount := False, dr_tag := 0\<rparr>) (sony_drives s),
                   sony_acc_run := False\<rparr>"

subsection \<open>Mounting and inserting\<close>

definition put_in_place :: "u32 \<Rightarrow> bool \<Rightarrow> 'a env_scheme \<Rightarrow> 'a env_scheme" where
  "put_in_place st ro s = wr8 (st + dsWriteProt) (if ro then 0xff else 0) (wr8 (st + dsDiskInPlace) 1 s)"

definition SonyMountVolume :: "sys_fh \<Rightarrow> 'a sony_sys_scheme \<Rightarrow> bool \<times> 'a sony_sys_scheme" where
  "SonyMountVolume p s =
     (case find_index (\<lambda>d. dr_fh d = p) (sony_drives s) of
        None \<Rightarrow> (False, s)
      | Some i \<Rightarrow>
          (True,
           if SysIsDiskInserted p (sysd s)
           then (let ro = SysIsReadOnly p (sysd s)
                 in upd_sony i (\<lambda>d. d\<lparr>dr_ro := ro, dr_mount := True\<rparr>)
                      (put_in_place (dr_status (sony_drives s ! i)) ro s))
           else s))"

definition MountVolume :: "sys_fh \<Rightarrow> 'a sony_sys_scheme \<Rightarrow> 'a sony_sys_scheme" where
  "MountVolume p s =
     (let (found, s1) = SonyMountVolume p s in if found then s1 else snd (DiskMountVolume p s1))"

definition floppy_status :: "u32 \<Rightarrow> 'a env_scheme \<Rightarrow> 'a env_scheme" where
  "floppy_status st s =
     wr8 (st + dsTwoMegFmt) 0xff (wr8 (st + dsMFMDisk) 0xff (wr8 (st + dsMFMDrive) 0xff
       (wr8 (st + dsNewIntf) 0xff (wr8 (st + dsTwoSideFmt) 0xff (wr8 (st + dsSides) 0xff
         (wr8 (st + dsInstalled) 1 (wr16 (st + dsQType) 0 s)))))))"

definition add_to_queue :: "mac_os \<Rightarrow> int \<Rightarrow> u32 \<Rightarrow> 'a env_scheme \<Rightarrow> 'a env_scheme" where
  "add_to_queue os num st s =
     snd (Execute68kTrap os 0xa04e (push_bit 16 (word_of_int num) OR (word_of_int SonyRefNum AND 0xffff)) (st + dsQLink) s)"

definition fill_empty_drive :: "mac_os \<Rightarrow> nat \<Rightarrow> sys_fh \<Rightarrow> 'a sony_sys_scheme \<Rightarrow> 'a sony_sys_scheme" where
  "fill_empty_drive os i p s =
     (let d = sony_drives s ! i;
          s1 = (if dr_fh d \<noteq> None then s\<lparr>sysd := Sys_close (dr_fh d) (sysd s)\<rparr> else s);
          ro = SysIsReadOnly p (sysd s1);
          s2 = upd_sony i (\<lambda>d. d\<lparr>dr_fh := p, dr_ro := ro, dr_mount := True\<rparr>) (put_in_place (dr_status d) ro s1)
      in if HasMacStarted (dmem s2)
         then upd_sony i (\<lambda>d. d\<lparr>dr_mount := False\<rparr>) (PostEvent os (dr_num d) s2) else s2)"

definition new_floppy_drive :: "mac_os \<Rightarrow> sys_fh \<Rightarrow> 'a sony_sys_scheme \<Rightarrow> 'a sony_sys_scheme option" where
  "new_floppy_drive os p s =
     Option.bind (FindFreeDriveNumber (dmem s) 1) (\<lambda>n.
       (let ro = SysIsReadOnly p (sysd s); i = length (sony_drives s);
            s1 = s\<lparr>sony_drives := sony_drives s @
                   [\<lparr>dr_num = n, dr_fh = p, dr_mount = False, dr_ro = ro, dr_status = 0, dr_tag = 0\<rparr>]\<rparr>
        in Some (if HasMacStarted (dmem s1)
                 then (let (a, s2) = Execute68kTrap os 0xa71e SIZEOF_DrvSts 0 s1
                       in if a = 0 then s2
                          else PostEvent os n (add_to_queue os n a (put_in_place a ro (floppy_status a
                                 (upd_sony i (\<lambda>d. d\<lparr>dr_status := a\<rparr>) s2)))))
                 else upd_sony i (\<lambda>d. d\<lparr>dr_mount := True\<rparr>) s1)))"

definition SonyInsertFloppy :: "mac_os \<Rightarrow> string \<Rightarrow> 'a sony_sys_scheme \<Rightarrow> (bool \<times> 'a sony_sys_scheme) option" where
  "SonyInsertFloppy os path s =
     (if path = [] then Some (False, s)
      else (let (p, y) = Sys_open path False (sysd s); s1 = s\<lparr>sysd := y\<rparr>
            in if p = None then Some (False, s1)
               else (case find_index (\<lambda>d. dr_status d \<noteq> 0 \<and> sony_in_place d s1 = 0) (sony_drives s1) of
                       Some i \<Rightarrow> Some (True, fill_empty_drive os i p s1)
                     | None \<Rightarrow> map_option (Pair True) (new_floppy_drive os p s1))))"

definition sony_mount_drive :: "mac_os \<Rightarrow> nat \<Rightarrow> 'a sony_sys_scheme \<Rightarrow> 'a sony_sys_scheme" where
  "sony_mount_drive os i s =
     (if dr_mount (sony_drives s ! i)
      then upd_sony i (\<lambda>d. d\<lparr>dr_mount := False\<rparr>) (PostEvent os (dr_num (sony_drives s ! i)) s)
      else s)"

definition sony_mount_volumes :: "mac_os \<Rightarrow> 'a sony_sys_scheme \<Rightarrow> 'a sony_sys_scheme" where
  "sony_mount_volumes os s = fold (sony_mount_drive os) [0..<length (sony_drives s)] s"

subsection \<open>Open\<close>

definition sony_open_drive :: "mac_os \<Rightarrow> nat \<Rightarrow> 'a sony_sys_scheme \<Rightarrow> 'a sony_sys_scheme option" where
  "sony_open_drive os i s =
     Option.bind (FindFreeDriveNumber (dmem s) 1) (\<lambda>n.
       (let s1 = upd_sony i (\<lambda>d. d\<lparr>dr_num := n, dr_mount := False, dr_tag := 0\<rparr>) s; p = dr_fh (sony_drives s1 ! i)
        in if p = None then Some s1
           else (let (a, s2) = Execute68kTrap os 0xa71e SIZEOF_DrvSts 0 s1
                 in if a = 0 then Some s2
                    else (let s3 = floppy_status a (upd_sony i (\<lambda>d. d\<lparr>dr_status := a\<rparr>) s2);
                              s4 = (if SysIsDiskInserted p (sysd s3)
                                    then upd_sony i (\<lambda>d. d\<lparr>dr_mount := True\<rparr>)
                                           (put_in_place a (dr_ro (sony_drives s3 ! i)) s3)
                                    else s3)
                          in Some (add_to_queue os n a s4)))))"

definition SonyOpen :: "mac_os \<Rightarrow> u32 \<Rightarrow> u32 \<Rightarrow> 'a sony_sys_scheme \<Rightarrow> (int \<times> 'a sony_sys_scheme) option" where
  "SonyOpen os pb dce s =
     (let s1 = wr32 (dce + dCtlPosition) 0 s;
          s2 = wr16 (dce + dCtlQHdr) ((ReadMacInt16 (dmem s1) (dce + dCtlQHdr) AND 0xff00) OR 3) s1;
          s3 = s2\<lparr>sony_acc_run := False\<rparr>;
          utab = ReadMacInt32 (dmem s3) 0x11c;
          s4 = wr32 (utab + 4) (ReadMacInt32 (dmem s3) (utab + 16)) s3;
          s5 = wr16 0x142 0 (wr32 0x134 0xdeadbeef s4)
      in map_option (Pair noErr) (for_each (sony_open_drive os) [0..<length (sony_drives s5)] s5))"

subsection \<open>Prime\<close>

definition sony_read :: "u32 \<Rightarrow> u32 \<Rightarrow> sys_fh \<Rightarrow> u32 \<Rightarrow> u32 \<Rightarrow> int \<Rightarrow> 'a env_scheme \<Rightarrow> int \<times> 'a env_scheme" where
  "sony_read pb dce p buffer len pos s =
     (case Sys_read p pos (unat len) (sysd s) of
        None \<Rightarrow> (readErr, s)
      | Some bs \<Rightarrow>
          (let s1 = s\<lparr>dmem := store buffer bs (dmem s)\<rparr>
           in if length bs \<noteq> unat len then (readErr, s1)
              else (noErr, prime_done pb dce len (wr32 0x304 0 (wr32 0x300 0 (wr32 0x2fc 0 s1))))))"

definition SonyPrime :: "u32 \<Rightarrow> u32 \<Rightarrow> 'a sony_sys_scheme \<Rightarrow> int \<times> 'a sony_sys_scheme" where
  "SonyPrime pb dce s0 =
     (let s1 = wr32 (pb + ioActCount) 0 s0
      in case sony_drive_info (uint (ReadMacInt16 (dmem s1) (pb + ioVRefNum))) s1 of
           None \<Rightarrow> (nsDrvErr, s1)
         | Some i \<Rightarrow>
             (let d = sony_drives s1 ! i
              in if sony_in_place d s1 = 0 then (offLinErr, s1)
                 else (let s = wr8 (dr_status d + dsDiskInPlace) 2 s1; m = dmem s;
                           buffer = ReadMacInt32 m (pb + ioBuffer); len = ReadMacInt32 m (pb + ioReqCount);
                           pos = uint (ReadMacInt32 m (dce + dCtlPosition))
                       in if len AND 0x1ff \<noteq> 0 \<or> pos AND 0x1ff \<noteq> 0 then (paramErr, s)
                          else if ReadMacInt16 m (pb + ioTrap) AND 0xff = 2 then sony_read pb dce (dr_fh d) buffer len pos s
                          else if dr_ro d then (wPrErr, s)
                          else prime_write pb dce (dr_fh d) buffer len pos s)))"

subsection \<open>Control and status\<close>

definition floppy_bytes :: nat where "floppy_bytes = 2880 * 512"

definition floppy_control :: "u32 \<Rightarrow> u32 \<Rightarrow> nat \<Rightarrow> 'a sony_sys_scheme \<Rightarrow> int \<times> 'a sony_sys_scheme" where
  "floppy_control code pb i s =
     (let d = sony_drives s ! i; place = sony_in_place d s
      in if code = 5 then (if place > 0 then noErr else verErr, s)
         else if code = 6 then
           (if dr_ro d then wPrErr else if place > 0 then (if SysFormat (dr_fh d) (sysd s) then noErr else writErr)
            else offLinErr, s)
         else if code = 7 then
           (noErr, if place > 0 then wr8 (dr_status d + dsDiskInPlace) 0 (s\<lparr>sysd := SysEject (dr_fh d) (sysd s)\<rparr>) else s)
         else if code = 8 then (noErr, upd_sony i (\<lambda>d. d\<lparr>dr_tag := ReadMacInt32 (dmem s) (pb + csParam)\<rparr>) s)
         else if code = 21 then (noErr, wr32 (pb + csParam) (sony_drive_icon s) s)
         else if code = 22 then (noErr, wr32 (pb + csParam) (sony_disk_icon s) s)
         else if code = 23 then (noErr, wr32 (pb + csParam) (if dr_num d = 1 then 0x0004 else 0x0104) s)
         else if code = 0x5343 then
           (if place = 0 then (offLinErr, s)
            else if dr_ro d then (wPrErr, s)
            else (let (r, y) = Sys_write (dr_fh d)
                                 (fetch (dmem s) (ReadMacInt32 (dmem s) (pb + csParam + 2)) floppy_bytes) 0 (sysd s)
                  in (if r = Some floppy_bytes then noErr else writErr, s\<lparr>sysd := y\<rparr>)))
         else (controlErr, s))"

definition SonyControl :: "mac_os \<Rightarrow> (mac \<Rightarrow> mac) \<Rightarrow> u32 \<Rightarrow> u32 \<Rightarrow> 'a sony_sys_scheme \<Rightarrow> int \<times> 'a sony_sys_scheme" where
  "SonyControl os after pb dce s =
     (let code = ReadMacInt16 (dmem s) (pb + csCode)
      in if code = 1 then (-1, s)
         else if code = 9 then (noErr, s)
         else if code = 65 then
           (let s1 = sony_mount_volumes os s; s2 = s1\<lparr>dmem := after (dmem s1)\<rparr>;
                s3 = wr16 (dce + dCtlFlags) (ReadMacInt16 (dmem s2) (dce + dCtlFlags) AND NOT 0x2000) s2
            in (noErr, s3\<lparr>sony_acc_run := True\<rparr>))
         else (case sony_drive_info (uint (ReadMacInt16 (dmem s) (pb + ioVRefNum))) s of
                 None \<Rightarrow> (nsDrvErr, s)
               | Some i \<Rightarrow> floppy_control code pb i s))"

definition SonyStatus :: "u32 \<Rightarrow> u32 \<Rightarrow> 'a sony_sys_scheme \<Rightarrow> int \<times> 'a sony_sys_scheme" where
  "SonyStatus pb dce s =
     (let code = ReadMacInt16 (dmem s) (pb + csCode); m = dmem s
      in case sony_drive_info (uint (ReadMacInt16 m (pb + ioVRefNum))) s of
           None \<Rightarrow> (nsDrvErr, s)
         | Some i \<Rightarrow>
             (let st = dr_status (sony_drives s ! i)
              in if code = 6 then
                   (if ReadMacInt16 m (pb + csParam) > 0
                    then (let adr = ReadMacInt32 m (pb + csParam + 2)
                          in (noErr, wr32 (adr + 4) 0xd2120050 (wr32 adr 2880 (wr16 (pb + csParam) 1 s))))
                    else (paramErr, s))
                 else if code = 8 then (noErr, s\<lparr>dmem := Mac2Mac_memcpy (pb + csParam) st 22 m\<rparr>)
                 else if code = 10 then
                   (noErr, wr32 (pb + csParam) ((ReadMacInt32 m (st + dsMFMDrive) AND 0xffffff00) OR 0xfe) s)
                 else if code = 0x4456 then (noErr, wr16 (pb + csParam) 0x0410 s)
                 else if code = 0x5343 then (noErr, wr8 (pb + csParam) 0x22 s)
                 else (statusErr, s)))"

definition SonyInterrupt :: "mac_os \<Rightarrow> 'a sony_sys_scheme \<Rightarrow> 'a sony_sys_scheme" where
  "SonyInterrupt os s =
     (if \<not> sony_acc_run s then s
      else (let s1 = s\<lparr>sony_ticks := sony_ticks s + 1\<rparr>
            in if sony_ticks s1 > sony_driver_delay
               then sony_mount_volumes os (s1\<lparr>sony_ticks := 0\<rparr>) else s1))"

end
