(* ===== verification/Drive_Facts.thy ===== *)
theory Drive_Facts
  imports Sony_Driver
begin

section \<open>Facts about the drivers\<close>

text \<open>
  Which operations of the drivers touch the host files and how; histories of driver calls;
  the announcement of inserted disks; disk images as byte arrays.
\<close>

subsection \<open>Frames\<close>

named_theorems drv_frame \<open>fields of the driver state that an operation leaves alone\<close>

lemma upd_frame [simp]:
  "sysd (upd_disk i f s) = sysd s" "dmem (upd_disk i f s) = dmem s" "traps (upd_disk i f s) = traps s"
  "sysd (upd_sony i g t) = sysd t" "dmem (upd_sony i g t) = dmem t" "traps (upd_sony i g t) = traps t"
  by (simp_all add: upd_disk_def upd_sony_def)

lemma trap_sysd [simp]: "sysd (snd (Execute68kTrap os t d a s)) = sysd s"
  by (simp add: Execute68kTrap_def split_beta)

lemma PostEvent_frame [simp]:
  "sysd (PostEvent os n s) = sysd s"
  "traps (PostEvent os n s) = traps s @ [(0xa02f, word_of_int n, 7)]"
  by (simp_all add: PostEvent_def Execute68kTrap_def split_beta)

lemma put_frame [simp]:
  "sysd (put_size st n s) = sysd s" "sysd (put_in_place st ro s) = sysd s" "sysd (floppy_status st s) = sysd s"
  "sysd (add_to_queue os k st s) = sysd s" "sysd (prime_done pb dce a s) = sysd s"
  by (simp_all add: put_size_def put_in_place_def floppy_status_def add_to_queue_def prime_done_def Let_def)

lemma DiskMountVolume_sysd [simp]: "sysd (snd (DiskMountVolume p s)) = sysd s"
  by (simp add: DiskMountVolume_def Let_def split: option.split)

lemma SonyMountVolume_sysd [simp]: "sysd (snd (SonyMountVolume p s)) = sysd s"
  by (simp add: SonyMountVolume_def Let_def split: option.split)

lemma mount_drive_sysd [simp]: "sysd (mount_drive os i s) = sysd s"
  by (simp add: mount_drive_def Let_def)

lemma fold_sysd: "(\<And>i s. sysd (f i s) = sysd s) \<Longrightarrow> sysd (fold f js s) = sysd s"
  by (induction js arbitrary: s) simp_all

lemma mount_volumes_sysd [simp]:
  "sysd (mount_mountable_volumes os s) = sysd s" "sysd (sony_mount_volumes os t) = sysd t"
  by (simp_all add: mount_mountable_volumes_def sony_mount_volumes_def fold_sysd sony_mount_drive_def)

lemma for_each_sysd:
  "for_each f js s = Some t \<Longrightarrow> (\<And>i s t. f i s = Some t \<Longrightarrow> sysd t = sysd s) \<Longrightarrow> sysd t = sysd s"
  by (induction js arbitrary: s) (auto simp: bind_eq_Some_conv)

lemma set_up_status_sysd [simp]: "sysd (set_up_status i s) = sysd s"
  by (simp add: set_up_status_def Let_def)

lemma open_drive_sysd: "open_drive os i s = Some t \<Longrightarrow> sysd t = sysd s"
  by (auto simp: open_drive_def Let_def bind_eq_Some_conv split_beta split: if_splits)

lemma sony_open_drive_sysd: "sony_open_drive os i s = Some t \<Longrightarrow> sysd t = sysd s"
  by (auto simp: sony_open_drive_def Let_def bind_eq_Some_conv split_beta split: if_splits)

lemma DiskOpen_sysd: "DiskOpen os pb dce s = Some (r, t) \<Longrightarrow> sysd t = sysd s"
  using for_each_sysd [OF _ open_drive_sysd] by (fastforce simp: DiskOpen_def Let_def)

lemma SonyOpen_sysd: "SonyOpen os pb dce s = Some (r, t) \<Longrightarrow> sysd t = sysd s"
  using for_each_sysd [OF _ sony_open_drive_sysd] by (fastforce simp: SonyOpen_def Let_def)

lemma DiskStatus_sysd [simp]: "sysd (snd (DiskStatus pb dce s)) = sysd s"
  by (simp add: DiskStatus_def driver_gestalt_def Let_def split: option.split)

lemma SonyStatus_sysd [simp]: "sysd (snd (SonyStatus pb dce s)) = sysd s"
  by (simp add: SonyStatus_def Let_def split: option.split)

lemma interrupt_sysd [simp]: "sysd (DiskInterrupt os s) = sysd s" "sysd (SonyInterrupt os t) = sysd t"
  by (simp_all add: DiskInterrupt_def SonyInterrupt_def Let_def)

lemma reset_sysd [simp]: "sysd (DiskReset s) = sysd s" "sysd (SonyReset t) = sysd t"
  by (simp_all add: DiskReset_def SonyReset_def)

lemma MountVolume_sysd [simp]: "sysd (MountVolume p s) = sysd s"
  by (simp add: MountVolume_def split_beta)

subsection \<open>Files nobody may write\<close>

definition ro_path :: "string \<Rightarrow> host \<Rightarrow> bool" where
  "ro_path p h \<longleftrightarrow> (\<forall>f st. streams h f = Some st \<longrightarrow> st_path st = p \<longrightarrow> \<not> st_write st)"

text \<open>No stream may write \<open>p\<close>, whose content is \<open>c\<close>; \<open>w\<close> tells whether the host file is write-protected.\<close>

definition kept :: "string \<Rightarrow> u8 list option \<Rightarrow> bool \<Rightarrow> sysfs \<Rightarrow> bool" where
  "kept p c w y \<longleftrightarrow> ro_path p (fs y) \<and> files (fs y) p = c \<and> readonly (fs y) p = w"

lemma kept_cong: "fs y = fs z \<Longrightarrow> kept p c w y = kept p c w z"
  by (simp add: kept_def)

lemma Sys_write_kept: "kept p c w y \<Longrightarrow> kept p c w (snd (Sys_write q bs pos y))"
  by (auto simp: kept_def Sys_write_def posix_write_def Let_def ro_path_def split: option.splits if_splits prod.splits)

lemma fopen_read_kept: "kept p c w (y\<lparr>fs := h\<rparr>) \<Longrightarrow> kept p c w (y\<lparr>fs := snd (fopen_read n h)\<rparr>)"
  by (auto simp: kept_def fopen_read_def open_stream_def ro_path_def)

lemma fopen_update_kept:
  "kept p c w (y\<lparr>fs := h\<rparr>) \<Longrightarrow> n \<noteq> p \<or> w \<Longrightarrow> kept p c w (y\<lparr>fs := snd (fopen_update n h)\<rparr>)"
  by (auto simp: kept_def fopen_update_def open_stream_def ro_path_def)

lemma close_fd_kept: "kept p c w (y\<lparr>fs := h\<rparr>) \<Longrightarrow> kept p c w (y\<lparr>fs := close_fd fd h\<rparr>)"
  by (auto simp: kept_def close_fd_def fclose_def ro_path_def split: option.splits)

lemma Sys_close_kept: "kept p c w y \<Longrightarrow> kept p c w (Sys_close q y)"
  using close_fd_kept [where y = y and h = "fs y" and p = p and c = c and w = w]
  by (auto simp: Sys_close_def kept_def split: option.splits)

lemma SysEject_kept: "kept p c w y \<Longrightarrow> kept p c w (SysEject q y)"
proof -
  assume k: "kept p c w y"
  have "kept p c w (y\<lparr>fs := snd (fopen_read n (close_fd fd (fs y)))\<rparr>)" for n fd
    using k by (intro fopen_read_kept close_fd_kept) simp
  then show ?thesis using k
    by (auto simp: SysEject_def Let_def split_beta set_handle_def kept_def split: option.splits)
qed

lemma find_hfs_fs [simp]: "fs (Sys_find_hfs_partition a y) = fs y"
  by (simp add: Sys_find_hfs_partition_def set_handle_def Let_def split: option.split)

lemma add_handle_fs [simp]: "fs (snd (add_handle n ro fd y)) = fs y"
  by (simp add: add_handle_def Let_def set_handle_def)

lemma umount_fs [simp]: "fs (Sys_umount n y) = fs y"
  by (simp add: Sys_umount_def)

lemma open_host_kept:
  assumes "kept p c w y" "ro \<or> n \<noteq> p \<or> w"
  shows "kept p c w (y\<lparr>fs := snd (snd (open_host n ro (fs y)))\<rparr>)"
proof -
  have r: "kept p c w (y\<lparr>fs := h\<rparr>) \<Longrightarrow> kept p c w (y\<lparr>fs := snd (fopen_read n h)\<rparr>)" for h
    by (rule fopen_read_kept)
  have y: "kept p c w (y\<lparr>fs := fs y\<rparr>)" using assms(1) by simp
  show ?thesis
    using r [OF y] fopen_update_kept [OF y, of n] r assms(2)
    by (auto simp: open_host_def Let_def split_beta)
qed

lemma Sys_open_kept:
  assumes "kept p c w y" "ro \<or> n \<noteq> p \<or> w"
  shows "kept p c w (snd (Sys_open n ro y))"
proof -
  define b where "b = (ro \<or> \<not> access_w n (fs y))"
  have "kept p c w (y\<lparr>fs := snd (snd (open_host n b (fs y)))\<rparr>)"
    using assms by (intro open_host_kept) (auto simp: b_def)
  then show ?thesis
    using assms(1) unfolding Sys_open_def Let_def b_def [symmetric] split_beta
    by (auto simp: kept_def split: option.splits)
qed

lemma prime_kept:
  "kept p c w (sysd s) \<Longrightarrow> kept p c w (sysd (snd (prime_read pb dce q buf len pos s)))"
  "kept p c w (sysd s) \<Longrightarrow> kept p c w (sysd (snd (sony_read pb dce q buf len pos s)))"
  "kept p c w (sysd s) \<Longrightarrow> kept p c w (sysd (snd (prime_write pb dce q buf len pos s)))"
  using Sys_write_kept [of p c w "sysd s" q "fetch (dmem s) buf (unat len)" pos]
  by (simp_all add: prime_read_def sony_read_def prime_write_def Let_def split_beta split: option.split)

lemma Prime_kept:
  "kept p c w (sysd s) \<Longrightarrow> kept p c w (sysd (snd (DiskPrime pb dce s)))"
  "kept p c w (sysd t) \<Longrightarrow> kept p c w (sysd (snd (SonyPrime pb dce t)))"
  by (simp_all add: DiskPrime_def SonyPrime_def Let_def prime_kept split: option.split)

lemma Control_kept:
  "kept p c w (sysd s) \<Longrightarrow> kept p c w (sysd (snd (DiskControl os pb dce s)))"
  "kept p c w (sysd t) \<Longrightarrow> kept p c w (sysd (snd (SonyControl os af pb dce t)))"
  by (simp_all add: DiskControl_def drive_control_def SonyControl_def floppy_control_def Let_def split_beta
      SysEject_kept Sys_write_kept split: option.split)

subsection \<open>Histories of driver calls\<close>

datatype drv_event =
    Disk_Open u32 u32 | Disk_Prime u32 u32 | Disk_Control u32 u32 | Disk_Status u32 u32 | Disk_Interrupt | Disk_Reset
  | Sony_Open u32 u32 | Sony_Prime u32 u32 | Sony_Control u32 u32 | Sony_Status u32 u32 | Sony_Interrupt | Sony_Reset
  | Sony_Insert string | Mount sys_fh | Guest_Code mac

primrec drv_step :: "mac_os \<Rightarrow> (mac \<Rightarrow> mac) \<Rightarrow> drv_event \<Rightarrow> sony_sys \<Rightarrow> sony_sys option" where
  "drv_step os af (Disk_Open pb dce) s = map_option snd (DiskOpen os pb dce s)"
| "drv_step os af (Disk_Prime pb dce) s = Some (snd (DiskPrime pb dce s))"
| "drv_step os af (Disk_Control pb dce) s = Some (snd (DiskControl os pb dce s))"
| "drv_step os af (Disk_Status pb dce) s = Some (snd (DiskStatus pb dce s))"
| "drv_step os af Disk_Interrupt s = Some (DiskInterrupt os s)"
| "drv_step os af Disk_Reset s = Some (DiskReset s)"
| "drv_step os af (Sony_Open pb dce) s = map_option snd (SonyOpen os pb dce s)"
| "drv_step os af (Sony_Prime pb dce) s = Some (snd (SonyPrime pb dce s))"
| "drv_step os af (Sony_Control pb dce) s = Some (snd (SonyControl os af pb dce s))"
| "drv_step os af (Sony_Status pb dce) s = Some (snd (SonyStatus pb dce s))"
| "drv_step os af Sony_Interrupt s = Some (SonyInterrupt os s)"
| "drv_step os af Sony_Reset s = Some (SonyReset s)"
| "drv_step os af (Sony_Insert path) s = map_option snd (SonyInsertFloppy os path s)"
| "drv_step os af (Mount p) s = Some (MountVolume p s)"
| "drv_step os af (Guest_Code m) s = Some (s\<lparr>dmem := m\<rparr>)"

lemma fill_empty_kept:
  "kept p c w (sysd s) \<Longrightarrow> kept p c w (sysd (fill_empty_drive os i q s))"
  by (simp add: fill_empty_drive_def Let_def Sys_close_kept)

lemma new_floppy_sysd: "new_floppy_drive os q s = Some t \<Longrightarrow> sysd t = sysd s"
  by (auto simp: new_floppy_drive_def Let_def bind_eq_Some_conv split_beta split: if_splits)

lemma Insert_kept:
  assumes "kept p c w (sysd s)" "SonyInsertFloppy os path s = Some (r, t)" "path \<noteq> p \<or> w"
  shows "kept p c w (sysd t)"
proof -
  have "kept p c w (snd (Sys_open path False (sysd s)))" using assms(1,3) by (intro Sys_open_kept) auto
  then show ?thesis
    using assms(1,2)
    by (auto simp: SonyInsertFloppy_def Let_def split_beta new_floppy_sysd fill_empty_kept split: if_splits option.splits)
qed

lemma drv_step_kept:
  assumes "kept p c w (sysd s)" "drv_step os af e s = Some t" "\<forall>path. e = Sony_Insert path \<longrightarrow> path \<noteq> p \<or> w"
  shows "kept p c w (sysd t)"
  using assms
proof (cases e)
  case (Sony_Insert path)
  then show ?thesis using assms Insert_kept [OF assms(1)] by auto
qed (auto simp: Prime_kept Control_kept dest: DiskOpen_sysd SonyOpen_sysd)

lemma drv_run_kept:
  assumes "kept p c w (sysd s)" "for_each (drv_step os af) es s = Some t" "\<forall>e \<in> set es. e \<noteq> Sony_Insert p \<or> w"
  shows "kept p c w (sysd t)"
  using assms
proof (induction es arbitrary: s)
  case (Cons e es)
  then obtain u where "drv_step os af e s = Some u" "for_each (drv_step os af) es u = Some t"
    by (auto simp: bind_eq_Some_conv)
  moreover from this(1) have "kept p c w (sysd u)"
    using Cons.prems(3) by (intro drv_step_kept [OF Cons.prems(1)]) auto
  ultimately show ?case using Cons.IH Cons.prems(3) by auto
qed simp

lemma add_drive_kept:
  assumes "drive_pref str \<noteq> (p, False) \<or> w"
  shows "kept p c w (sysd s) \<Longrightarrow> kept p c w (sysd (add_drive u str s))"
    and "kept p c w (sysd t) \<Longrightarrow> kept p c w (sysd (add_floppy str t))"
proof -
  have k: "kept p c w (snd (Sys_open (fst (drive_pref str)) (snd (drive_pref str)) y))" if "kept p c w y" for y
    using assms by (intro Sys_open_kept that) (auto simp: prod_eq_iff)
  show "kept p c w (sysd s) \<Longrightarrow> kept p c w (sysd (add_drive u str s))"
    "kept p c w (sysd t) \<Longrightarrow> kept p c w (sysd (add_floppy str t))"
    by (simp_all add: add_drive_def add_floppy_def Let_def split_beta k)
qed

lemma fold_add_kept:
  assumes "\<forall>str \<in> set ps. drive_pref str \<noteq> (p, False) \<or> w"
  shows "kept p c w (sysd s) \<Longrightarrow> kept p c w (sysd (fold (add_drive u) ps s))"
    and "kept p c w (sysd t) \<Longrightarrow> kept p c w (sysd (fold add_floppy ps t))"
  using assms by (induction ps arbitrary: s t) (auto simp: add_drive_kept)

end
