(* ===== verification/Drive_Images.thy ===== *)
theory Drive_Images
  imports Drive_Facts
begin

section \<open>Images as block devices\<close>

text \<open>
  Reading and writing through a file handle seen as access to an array of blocks: the
  \<open>Sys_\<close> functions provide the \<open>block_store\<close> the drivers rely on. The requests a driver
  accepts, and what a successful one does.
\<close>

definition block_rd :: "sys_fh \<Rightarrow> sysfs \<Rightarrow> nat \<Rightarrow> nat \<Rightarrow> u8 list option" where
  "block_rd p y a n =
     (if n = 0 then Some []
      else (case Sys_read p (int a) n y of None \<Rightarrow> None | Some bs \<Rightarrow> if length bs = n then Some bs else None))"

definition block_wr :: "sys_fh \<Rightarrow> nat \<Rightarrow> u8 list \<Rightarrow> sysfs \<Rightarrow> sysfs option" where
  "block_wr p pos bs y =
     (let (r, z) = Sys_write p bs (int pos) y in if r = Some (length bs) then Some z else None)"

subsection \<open>What a successful transfer means\<close>

text \<open>The stream, the content and the first position behind a handle that can be read.\<close>

definition readable :: "sys_fh \<Rightarrow> sysfs \<Rightarrow> fh \<Rightarrow> u8 list \<Rightarrow> int \<Rightarrow> bool" where
  "readable p y fd c base \<longleftrightarrow>
     (\<exists>a f. p = Some a \<and> handles y a = Some f \<and> fh_fd f = Some fd \<and> fh_start_byte f = base \<and>
            stream_data (fs y) fd = Some c)"

lemma readable_unique: "readable p y fd c b \<Longrightarrow> readable p y fd' c' b' \<Longrightarrow> fd' = fd \<and> c' = c \<and> b' = b"
  by (auto simp: readable_def)

lemma Sys_read_readable:
  assumes "readable p y fd c b" "0 \<le> off + b" "off + b < 2 ^ 32"
  shows "Sys_read p off n y = Some (window (nat (off + b)) n c)"
  using assms by (auto simp: readable_def Sys_read_def llseek_ok_iff Let_def posix_read_def)

lemma Sys_read_full:
  assumes "Sys_read p off n y = Some bs" "length bs = n" "n \<noteq> 0"
  obtains fd c b where "readable p y fd c b" "0 \<le> off + b" "off + b < 2 ^ 32" "nat (off + b) + n \<le> length c"
    "bs = window (nat (off + b)) n c"
proof -
  obtain a f fd c where h: "p = Some a" "handles y a = Some f" "fh_fd f = Some fd" "stream_data (fs y) fd = Some c"
      "0 \<le> off + fh_start_byte f" "off + fh_start_byte f < 2 ^ 32" "bs = window (nat (off + fh_start_byte f)) n c"
    using assms by (auto simp: Sys_read_def llseek_ok_iff Let_def posix_read_def split: option.splits if_splits)
  then have "nat (off + fh_start_byte f) + n \<le> length c"
    using assms(2,3) by (simp add: byte_simps)
  then show thesis using h that by (auto simp: readable_def)
qed

lemma Sys_write_full:
  assumes "Sys_write p bs off y = (Some (length bs), z)" "bs \<noteq> []"
  obtains fd c b where "readable p y fd c b" "0 \<le> off + b" "off + b < 2 ^ 32" "readable p z fd (file_write (nat (off + b)) bs c) b"
    "handles z = handles y" "streams (fs z) = streams (fs y)"
proof -
  obtain a f fd st c where h: "p = Some a" "handles y a = Some f" "fh_fd f = Some fd" "streams (fs y) fd = Some st"
      "files (fs y) (st_path st) = Some c" "0 \<le> off + fh_start_byte f" "off + fh_start_byte f < 2 ^ 32" "st_write st"
      "length bs \<le> write_room (fs y) (st_path st) c - nat (off + fh_start_byte f)"
      "z = y\<lparr>fs := (fs y)\<lparr>files := (files (fs y))(st_path st \<mapsto> file_write (nat (off + fh_start_byte f)) bs c)\<rparr>\<rparr>"
    using assms by (auto simp: Sys_write_def llseek_ok_iff Let_def posix_write_def min_def split: option.splits if_splits prod.splits)
  then have "readable p y fd c (fh_start_byte f)"
    "readable p z fd (file_write (nat (off + fh_start_byte f)) bs c) (fh_start_byte f)"
    by (auto simp: readable_def stream_data_def)
  then show thesis using h that by simp
qed

subsection \<open>The block store\<close>

lemma block_rd_0 [simp]: "block_rd p y a 0 = Some []"
  by (simp add: block_rd_def)

lemma block_rd_Some:
  assumes "n \<noteq> 0"
  shows "block_rd p y a n = Some xs \<longleftrightarrow>
    (\<exists>fd c b. readable p y fd c b \<and> 0 \<le> int a + b \<and> int a + b < 2 ^ 32 \<and> nat (int a + b) + n \<le> length c \<and> xs = window (nat (int a + b)) n c)"
proof
  assume "block_rd p y a n = Some xs"
  then have "Sys_read p (int a) n y = Some xs" "length xs = n"
    using assms by (auto simp: block_rd_def split: option.splits if_splits)
  then show "\<exists>fd c b. readable p y fd c b \<and> 0 \<le> int a + b \<and> int a + b < 2 ^ 32 \<and> nat (int a + b) + n \<le> length c \<and> xs = window (nat (int a + b)) n c"
    using Sys_read_full assms by metis
next
  assume "\<exists>fd c b. readable p y fd c b \<and> 0 \<le> int a + b \<and> int a + b < 2 ^ 32 \<and> nat (int a + b) + n \<le> length c \<and> xs = window (nat (int a + b)) n c"
  then show "block_rd p y a n = Some xs"
    using assms Sys_read_readable by (auto simp: block_rd_def byte_simps)
qed

lemma block_wr_Some:
  "block_wr p pos bs y = Some z \<longleftrightarrow> Sys_write p bs (int pos) y = (Some (length bs), z)"
  by (auto simp: block_wr_def Let_def split_beta prod_eq_iff)

interpretation image: block_store "block_rd p" "block_wr p" for p
proof
  fix pos bs y z
  assume w: "block_wr p pos bs y = Some z"
  show "block_rd p z pos (length bs) = Some bs"
  proof (cases "bs = []")
    case False
    from w have "Sys_write p bs (int pos) y = (Some (length bs), z)" by (simp add: block_wr_Some)
    then obtain fd c b where "0 \<le> int pos + b" "int pos + b < 2 ^ 32" "readable p z fd (file_write (nat (int pos + b)) bs c) b"
      using False by (rule Sys_write_full)
    then show ?thesis using False
      by (subst block_rd_Some) (auto simp: file_write_same length_file_write intro!: exI)
  qed (simp add: block_rd_def)
next
  fix pos bs y z a n xs
  assume w: "block_wr p pos bs y = Some z" and d: "a + n \<le> pos \<or> pos + length bs \<le> a"
    and r: "block_rd p y a n = Some xs"
  show "block_rd p z a n = Some xs"
  proof (cases "bs = [] \<or> n = 0")
    case True
    then show ?thesis using w r
      by (auto simp: block_rd_def block_wr_Some Sys_write_def posix_write_def Let_def split: option.splits if_splits prod.splits)
  next
    case False
    from w have "Sys_write p bs (int pos) y = (Some (length bs), z)" by (simp add: block_wr_Some)
    then obtain fd c b where o: "readable p y fd c b" "0 \<le> int pos + b" "readable p z fd (file_write (nat (int pos + b)) bs c) b"
      using False Sys_write_full by metis
    have n: "n \<noteq> 0" using False by simp
    obtain fd' c' b' where q: "readable p y fd' c' b'" "0 \<le> int a + b'" "int a + b' < 2 ^ 32" "nat (int a + b') + n \<le> length c'"
        "xs = window (nat (int a + b')) n c'"
      using r unfolding block_rd_Some [OF n] by blast
    have e: "c' = c" "b' = b" using readable_unique [OF o(1) q(1)] by simp_all
    have "nat (int a + b) + n \<le> nat (int pos + b) \<or> nat (int pos + b) + length bs \<le> nat (int a + b)"
      using d o(2) q(2) e by auto
    then have "window (nat (int a + b)) n (file_write (nat (int pos + b)) bs c) = xs"
      using file_write_other q(4,5) e by simp
    then show ?thesis using o(3) q(2-4) e n
      by (subst block_rd_Some) (auto simp: length_file_write intro!: exI)
  qed
next
  fix y a n xs
  show "block_rd p y a n = Some xs \<Longrightarrow> length xs = n"
    by (auto simp: block_rd_def split: option.splits if_splits)
next
  fix y a m n xs ys
  assume x: "block_rd p y a m = Some xs" "block_rd p y (a + m) n = Some ys"
  show "block_rd p y a (m + n) = Some (xs @ ys)"
  proof (cases "m = 0 \<or> n = 0")
    case True
    then show ?thesis using x by auto
  next
    case False
    then have mn: "m \<noteq> 0" "n \<noteq> 0" "m + n \<noteq> 0" by simp_all
    obtain fd c b where r: "readable p y fd c b" "0 \<le> int a + b" "int a + b < 2 ^ 32" "xs = window (nat (int a + b)) m c"
      using x(1) unfolding block_rd_Some [OF mn(1)] by blast
    obtain fd' c' b' where q: "readable p y fd' c' b'" "nat (int (a + m) + b') + n \<le> length c'"
        "ys = window (nat (int (a + m) + b')) n c'"
      using x(2) unfolding block_rd_Some [OF mn(2)] by blast
    have e: "c' = c" "b' = b" using readable_unique [OF r(1) q(1)] by simp_all
    have s: "nat (int (a + m) + b) = nat (int a + b) + m" using r(2) by simp
    have "nat (int a + b) + (m + n) \<le> length c" "xs @ ys = window (nat (int a + b)) (m + n) c"
      using q(2,3) r(4) s e by (simp_all add: window_append add.assoc)
    then show ?thesis unfolding block_rd_Some [OF mn(3)] using r(1-3) by blast
  qed
qed

subsection \<open>Requests\<close>

text \<open>Memory when the driver looks at its parameter block, and what it finds there.\<close>

definition req_mem :: "u32 \<Rightarrow> 'a env_scheme \<Rightarrow> mac" where
  "req_mem pb s = WriteMacInt32 (pb + ioActCount) 0 (dmem s)"

definition req_buffer :: "u32 \<Rightarrow> 'a env_scheme \<Rightarrow> u32" where
  "req_buffer pb s = ReadMacInt32 (req_mem pb s) (pb + ioBuffer)"

definition req_len :: "u32 \<Rightarrow> 'a env_scheme \<Rightarrow> u32" where
  "req_len pb s = ReadMacInt32 (req_mem pb s) (pb + ioReqCount)"

definition req_pos :: "u32 \<Rightarrow> u32 \<Rightarrow> 'a env_scheme \<Rightarrow> int" where
  "req_pos pb dce s = prime_position pb dce (req_mem pb s)"

definition req_is_read :: "u32 \<Rightarrow> 'a env_scheme \<Rightarrow> bool" where
  "req_is_read pb s \<longleftrightarrow> ReadMacInt16 (req_mem pb s) (pb + ioTrap) AND 0xff = 2"

definition req_drive :: "u32 \<Rightarrow> 'a disk_sys_scheme \<Rightarrow> disk_drive option" where
  "req_drive pb s =
     map_option ((!) (disk_drives s)) (get_drive_info (uint (ReadMacInt16 (req_mem pb s) (pb + ioVRefNum))) s)"

lemma DiskPrime_req:
  "DiskPrime pb dce s0 =
     (let s = wr32 (pb + ioActCount) 0 s0
      in case req_drive pb s0 of
           None \<Rightarrow> (nsDrvErr, s)
         | Some d \<Rightarrow>
             if disk_in_place d s = 0 then (offLinErr, s)
             else if req_len pb s0 AND 0x1ff \<noteq> 0 \<or> req_pos pb dce s0 AND 0x1ff \<noteq> 0 then (paramErr, s)
             else if req_is_read pb s0 then prime_read pb dce (dr_fh d) (req_buffer pb s0) (req_len pb s0) (req_pos pb dce s0) s
             else if dr_ro d then (wPrErr, s)
             else prime_write pb dce (dr_fh d) (req_buffer pb s0) (req_len pb s0) (req_pos pb dce s0) s)"
proof -
  have d: "disk_drives (wr32 a v s0) = disk_drives s0" for a v by (simp add: wr32_def)
  show ?thesis
    by (simp add: DiskPrime_def Let_def req_drive_def req_len_def req_pos_def req_is_read_def req_buffer_def
        req_mem_def get_drive_info_def d split: option.split)
qed

text \<open>What a read that transferred \<open>bs\<close> leaves in guest memory.\<close>

definition delivered :: "u32 \<Rightarrow> u32 \<Rightarrow> u8 list \<Rightarrow> 'a env_scheme \<Rightarrow> mac" where
  "delivered pb dce bs s =
     dmem (prime_done pb dce (req_len pb s) (s\<lparr>dmem := store (req_buffer pb s) bs (req_mem pb s)\<rparr>))"

lemma DiskPrime_read_ok:
  assumes "DiskPrime pb dce s = (noErr, t)" "req_is_read pb s" "req_drive pb s = Some d" "0 \<le> req_pos pb dce s"
  obtains bs where "block_rd (dr_fh d) (sysd s) (nat (req_pos pb dce s)) (unat (req_len pb s)) = Some bs"
    "sysd t = sysd s" "dmem t = delivered pb dce bs s"
proof -
  have e: "dmem (prime_done pb dce n (wr32 a v s\<lparr>dmem := m\<rparr>)) = dmem (prime_done pb dce n (s\<lparr>dmem := m\<rparr>))" for n a v m
    by (simp add: prime_done_def Let_def)
  have r: "prime_read pb dce (dr_fh d) (req_buffer pb s) (req_len pb s) (req_pos pb dce s) (wr32 (pb + ioActCount) 0 s) = (noErr, t)"
    using assms(1-3) by (auto simp: DiskPrime_req Let_def drv_errors split: if_splits)
  then obtain bs where "Sys_read (dr_fh d) (req_pos pb dce s) (unat (req_len pb s)) (sysd s) = Some bs"
      "length bs = unat (req_len pb s)" "sysd t = sysd s"
      "dmem t = dmem (prime_done pb dce (req_len pb s) (s\<lparr>dmem := store (req_buffer pb s) bs (req_mem pb s)\<rparr>))"
    by (auto simp: prime_read_def Let_def drv_errors req_mem_def e split: option.splits if_splits)
  moreover from this(1,2) have "block_rd (dr_fh d) (sysd s) (nat (req_pos pb dce s)) (unat (req_len pb s)) = Some bs"
    using assms(4) by (cases bs) (auto simp: block_rd_def)
  ultimately show thesis using that unfolding delivered_def by blast
qed

lemma DiskPrime_write_ok:
  assumes "DiskPrime pb dce s = (noErr, t)" "\<not> req_is_read pb s" "req_drive pb s = Some d" "0 \<le> req_pos pb dce s"
  shows "block_wr (dr_fh d) (nat (req_pos pb dce s)) (fetch (req_mem pb s) (req_buffer pb s) (unat (req_len pb s)))
           (sysd s) = Some (sysd t)"
proof -
  have r: "prime_write pb dce (dr_fh d) (req_buffer pb s) (req_len pb s) (req_pos pb dce s) (wr32 (pb + ioActCount) 0 s) = (noErr, t)"
    using assms(1-3) by (auto simp: DiskPrime_req Let_def drv_errors split: if_splits)
  then show ?thesis using assms(4)
    by (auto simp: prime_write_def Let_def drv_errors req_mem_def block_wr_Some split: prod.splits if_splits)
qed

lemma DiskPrime_refused:
  assumes "fst (DiskPrime pb dce s) \<in> {nsDrvErr, offLinErr, paramErr, wPrErr}"
  shows "snd (DiskPrime pb dce s) = wr32 (pb + ioActCount) 0 s"
  using assms
  by (auto simp: DiskPrime_req Let_def prime_read_def prime_write_def drv_errors split_beta
      split: option.splits if_splits)

subsection \<open>Opened images\<close>

lemma hfs_search_cong: "(\<And>i. i \<in> set js \<Longrightarrow> rd i = rd' i) \<Longrightarrow> hfs_search rd js = hfs_search rd' js"
  by (induction js) (auto split: option.split)

text \<open>The first byte of the HFS partition of an image, or 0.\<close>

definition image_base :: "u8 list \<Rightarrow> nat" where
  "image_base c = nat (hfs_search (\<lambda>i. Some (window (i * 512) 512 c)) [0..<64])"

lemma hfs_search_nonneg: "0 \<le> hfs_search rd js"
  by (induction js) (auto split: option.split)

lemma hfs_search_none:
  "(\<And>i blk. rd i = Some blk \<Longrightarrow> length blk = 512 \<Longrightarrow> partition_entry blk = None) \<Longrightarrow> hfs_search rd js = 0"
  by (induction js) (auto split: option.split)

text \<open>Where the data of an image that was opened starts, and how large the driver takes it to be.\<close>

lemma Sys_open_image:
  assumes "Sys_open n ro y = (Some a, z)" "\<not> is_dev n" "files (fs y) n = Some c"
  obtains f fd where "handles z a = Some f" "fh_fd f = Some fd" "stream_data (fs z) fd = Some c" "fh_is_file f"
    "fh_start_byte f = int (image_base c)"
    "fh_file_size f = snd (FileDiskLayout (int (length c)))"
proof -
  define b where "b = (ro \<or> \<not> access_w n (fs y))"
  obtain fd ro2 h where o: "open_host n b (fs y) = (fd, ro2, h)" by (metis prod_cases3)
  have f: "files h = files (fs y)" "\<And>k. fd = Some k \<Longrightarrow> \<exists>w. streams h k = Some \<lparr>st_path = n, st_write = w\<rparr>"
    using o by (auto simp: open_host_def fopen_read_def fopen_update_def open_stream_def Let_def split: if_splits)
  obtain k where k: "fd = Some k" "(Some a, z) = add_handle n ro2 k (y\<lparr>fs := h\<rparr>)"
    using assms(1,2) o by (auto simp: Sys_open_def Let_def b_def split: option.splits)
  define f0 where "f0 = new_handle n ro2 k (y\<lparr>fs := h\<rparr>)"
  have d: "stream_data h k = Some c" using f(2) [OF k(1)] f(1) assms(3) by (auto simp: stream_data_def)
  have f0: "fh_is_file f0" "\<not> fh_is_floppy f0" "fh_fd f0 = Some k" "fh_file_size f0 = snd (FileDiskLayout (int (length c)))"
    using assms(2) d by (simp_all add: f0_def new_handle_def Let_def stream_size_def)
  define y1 where "y1 = set_handle a f0 (y\<lparr>fs := h, next_handle := Suc a\<rparr>)"
  have a: "a = next_handle y" and z: "z = Sys_find_hfs_partition a y1"
    using k(2) f0 by (simp_all add: add_handle_def Let_def f0_def [symmetric] y1_def)
  have r: "Sys_read (Some a) (int i * 512) 512 (set_handle a (f0\<lparr>fh_start_byte := 0\<rparr>) y1) = Some (window (i * 512) 512 c)" if i: "i < 64" for i
    using d f0(3) i by (simp add: Sys_read_def llseek_ok_iff Let_def set_handle_def y1_def posix_read_def nat_mult_distrib)
  define f1 where "f1 = f0\<lparr>fh_start_byte := hfs_search (\<lambda>i. Some (window (i * 512) 512 c)) [0..<64]\<rparr>"
  have "handles z a = Some f1 \<and> fs z = h"
    unfolding z using hfs_search_cong [where js = "[0..<64]", OF r [unfolded y1_def]]
    by (simp add: Sys_find_hfs_partition_def Let_def f1_def y1_def del: upt_rec_numeral) (simp add: set_handle_def del: upt_rec_numeral)
  moreover have "fh_start_byte f1 = int (image_base c)"
    unfolding f1_def image_base_def using hfs_search_nonneg by (simp del: upt_rec_numeral)
  ultimately show thesis using that [of f1 k] f0 d by (simp add: f1_def)
qed

lemma layout_size: "0 \<le> sz \<Longrightarrow> snd (FileDiskLayout sz) \<le> sz"
proof -
  assume z: "0 \<le> sz"
  have "0 \<le> sz AND 0x1ff" by simp
  moreover have "(sz - 84) AND NOT 0x1ff \<le> sz" if "84 \<le> sz"
  proof -
    have "(sz - 84) AND NOT 0x1ff \<le> sz - 84" using that by (intro AND_upper1) simp
    then show ?thesis by simp
  qed
  ultimately show ?thesis by (auto simp: FileDiskLayout_def)
qed

subsection \<open>Announcing floppies\<close>

definition disk_event :: "'a drive_scheme \<Rightarrow> u16 \<times> u32 \<times> u32" where
  "disk_event d = (0xa02f, word_of_int (dr_num d), 7)"

lemma sony_mount_fold:
  assumes "distinct js" "set js \<subseteq> {..<length (sony_drives s)}"
  shows "traps (fold (sony_mount_drive os) js s) =
           traps s @ map (\<lambda>i. disk_event (sony_drives s ! i)) (filter (\<lambda>i. dr_mount (sony_drives s ! i)) js) \<and>
         length (sony_drives (fold (sony_mount_drive os) js s)) = length (sony_drives s) \<and>
         (\<forall>i. dr_mount (sony_drives (fold (sony_mount_drive os) js s) ! i) \<longrightarrow> i < length (sony_drives s) \<longrightarrow>
              i \<notin> set js \<and> dr_mount (sony_drives s ! i))"
  using assms
proof (induction js arbitrary: s)
  case (Cons j js)
  define s1 where "s1 = sony_mount_drive os j s"
  have p: "sony_drives (PostEvent os n s) = sony_drives s" for n
    by (simp add: PostEvent_def Execute68kTrap_def split_beta)
  have d: "length (sony_drives s1) = length (sony_drives s)" "\<And>i. i \<noteq> j \<Longrightarrow> sony_drives s1 ! i = sony_drives s ! i"
      "\<not> dr_mount (sony_drives s1 ! j)"
    using Cons.prems(2) by (auto simp: s1_def sony_mount_drive_def upd_sony_def p)
  have t: "traps s1 = traps s @ (if dr_mount (sony_drives s ! j) then [disk_event (sony_drives s ! j)] else [])"
    by (simp add: s1_def sony_mount_drive_def disk_event_def)
  have same: "\<forall>i \<in> set js. sony_drives s1 ! i = sony_drives s ! i" by (metis d(2) Cons.prems(1) distinct.simps(2))
  have e: "filter (\<lambda>i. dr_mount (sony_drives s1 ! i)) js = filter (\<lambda>i. dr_mount (sony_drives s ! i)) js"
      "map (\<lambda>i. disk_event (sony_drives s1 ! i)) (filter (\<lambda>i. dr_mount (sony_drives s ! i)) js) =
       map (\<lambda>i. disk_event (sony_drives s ! i)) (filter (\<lambda>i. dr_mount (sony_drives s ! i)) js)"
    using same by (auto intro!: filter_cong map_cong)
  have "distinct js" "set js \<subseteq> {..<length (sony_drives s1)}" using Cons.prems d(1) by auto
  note IH = Cons.IH [OF this]
  show ?case
  proof (intro conjI allI impI)
    show "traps (fold (sony_mount_drive os) (j # js) s) =
           traps s @ map (\<lambda>i. disk_event (sony_drives s ! i)) (filter (\<lambda>i. dr_mount (sony_drives s ! i)) (j # js))"
      using IH t e by (simp add: s1_def)
    show "length (sony_drives (fold (sony_mount_drive os) (j # js) s)) = length (sony_drives s)"
      using IH d(1) by (simp add: s1_def)
    fix i assume i: "dr_mount (sony_drives (fold (sony_mount_drive os) (j # js) s) ! i)" "i < length (sony_drives s)"
    have k: "i \<notin> set js" "dr_mount (sony_drives s1 ! i)" using IH i d(1) by (auto simp: s1_def)
    then have "i \<noteq> j" using d(3) by auto
    then show "i \<notin> set (j # js)" "dr_mount (sony_drives s ! i)" using k d(2) by simp_all
  qed
qed simp

lemma sony_mount_volumes_traps:
  "traps (sony_mount_volumes os s) = traps s @ map disk_event (filter dr_mount (sony_drives s))"
  "\<forall>d \<in> set (sony_drives (sony_mount_volumes os s)). \<not> dr_mount d"
proof -
  let ?n = "length (sony_drives s)"
  have f: "distinct [0..<?n]" "set [0..<?n] \<subseteq> {..<?n}" by auto
  have "map disk_event (filter dr_mount (map ((!) (sony_drives s)) [0..<?n])) =
        map (\<lambda>i. disk_event (sony_drives s ! i)) (filter (\<lambda>i. dr_mount (sony_drives s ! i)) [0..<?n])"
    by (simp only: filter_map map_map comp_def)
  then show "traps (sony_mount_volumes os s) = traps s @ map disk_event (filter dr_mount (sony_drives s))"
    using sony_mount_fold [OF f, of os] by (simp add: sony_mount_volumes_def map_nth)
  show "\<forall>d \<in> set (sony_drives (sony_mount_volumes os s)). \<not> dr_mount d"
    using sony_mount_fold [OF f, of os] by (auto simp: sony_mount_volumes_def in_set_conv_nth)
qed

lemma SonyInterrupt_tick:
  "sony_acc_run s \<Longrightarrow> sony_ticks s < 120 \<Longrightarrow> SonyInterrupt os s = s\<lparr>sony_ticks := sony_ticks s + 1\<rparr>"
  "sony_acc_run s \<Longrightarrow> sony_ticks s = 120 \<Longrightarrow> SonyInterrupt os s = sony_mount_volumes os (s\<lparr>sony_ticks := 0\<rparr>)"
  by (simp_all add: SonyInterrupt_def Let_def sony_driver_delay_def)

lemma SonyInterrupt_wait:
  assumes "sony_acc_run s" "sony_ticks s + int k \<le> 120"
  shows "(SonyInterrupt os ^^ k) s = s\<lparr>sony_ticks := sony_ticks s + int k\<rparr>"
  using assms(2)
proof (induction k)
  case (Suc k)
  then have "(SonyInterrupt os ^^ k) s = s\<lparr>sony_ticks := sony_ticks s + int k\<rparr>" by simp
  then show ?case using Suc.prems assms(1) by (simp add: SonyInterrupt_tick)
qed simp

end
