(* ===== verification/Drive_Properties.thy ===== *)
theory Drive_Properties
  imports Drive_Images
begin

section \<open>Properties of the disk and floppy drivers\<close>

text \<open>
  What the drivers promise about images: what was written is read back, refused requests
  change nothing, protected images are never written, inserted disks are announced once.
  The witnesses run on one small image and one drive built here.
\<close>

subsection \<open>A small machine\<close>

definition host_with :: "u8 list \<Rightarrow> host" where
  "host_with c = \<lparr>files = [''hd'' \<mapsto> c], readonly = (\<lambda>p. False), streams = (\<lambda>f. None), next_fh = 0,
     max_file = 1000000, bad_close = False\<rparr>"

definition no_devices :: devices where
  "no_devices = \<lparr>dv_block = (\<lambda>n. False), dv_floppy = (\<lambda>n. False), dv_blocks = (\<lambda>n. None), dv_writable = (\<lambda>n. False),
     dv_reports_status = (\<lambda>n. False), dv_disc_ok = (\<lambda>n. False), dv_toc_ok = (\<lambda>n. False),
     dv_mounted = (\<lambda>n. False), dv_umount_ok = (\<lambda>n. False)\<rparr>"

definition idle_sysfs :: "u8 list \<Rightarrow> sysfs" where
  "idle_sysfs c = \<lparr>fs = host_with c, devs = no_devices, handles = (\<lambda>a. None), next_handle = 0, first_floppy = None,
     ejected = []\<rparr>"

definition hd_handle :: file_handle where
  "hd_handle = \<lparr>fh_name = ''hd'', fh_fd = Some 0, fh_is_file = True, fh_is_floppy = False, fh_is_cdrom = False,
     fh_read_only = False, fh_start_byte = 0, fh_file_size = 2048, fh_cdrom_cap = False\<rparr>"

definition open_sysfs :: "u8 list \<Rightarrow> sysfs" where
  "open_sysfs c = (idle_sysfs c)\<lparr>fs := (host_with c)\<lparr>streams := [0 \<mapsto> \<lparr>st_path = ''hd'', st_write = True\<rparr>]\<rparr>,
     handles := [0 \<mapsto> hd_handle]\<rparr>"

definition hd_drive :: disk_drive where
  "hd_drive = \<lparr>dr_num = 1, dr_fh = Some 0, dr_mount = False, dr_ro = False, dr_status = 0x300, dr_blocks = 4\<rparr>"

text \<open>A parameter block at 0x100 that asks for 512 bytes at 0x2000, a device control entry at 0x200
  and the status of drive 1 at 0x300.\<close>

definition pb_ram :: "u8 \<Rightarrow> u32 \<Rightarrow> u8" where
  "pb_ram cmd = (\<lambda>a. if 0x2000 \<le> a \<and> a < 0x2200 then 0xAA else 0)(0x107 := cmd, 0x117 := 1, 0x122 := 0x20, 0x126 := 2, 0x303 := 8)"

definition pb_mem :: "u8 \<Rightarrow> mac" where
  "pb_mem cmd = \<lparr>ram = pb_ram cmd, rom_base = 0x40800000, rom_size = 0x100000, regions = [], mmio_log = []\<rparr>"

definition demo_sys :: "u8 \<Rightarrow> sysfs \<Rightarrow> sony_sys" where
  "demo_sys cmd y = \<lparr>dmem = pb_mem cmd, sysd = y, traps = [], disk_drives = [hd_drive], disk_acc_run = False,
     disk_ticks = 0, disk_icon = 0, sony_drives = [], sony_acc_run = False, sony_ticks = 0, sony_disk_icon = 0,
     sony_drive_icon = 0\<rparr>"

lemma plain_pb: "a < 0x40800000 \<Longrightarrow> plain (pb_mem cmd) a"
  by (simp add: plain_def is_mmio_addr_def FindMMIORegion_def pb_mem_def rom_protected_def not_le)

lemma req_ram: "ram (req_mem 0x100 (demo_sys cmd y)) = (pb_ram cmd)(0x128 := 0, 0x129 := 0, 0x12a := 0, 0x12b := 0)"
  by (simp add: req_mem_def demo_sys_def ram_WriteMacInt32 plain_pb ioActCount_def) (simp add: pb_mem_def)

lemma plain_req: "a < 0x40800000 \<Longrightarrow> plain (req_mem 0x100 (demo_sys cmd y)) a"
  by (simp add: req_mem_def demo_sys_def plain_def rom_protected_def) (auto simp: pb_mem_def is_mmio_addr_def FindMMIORegion_def)

lemmas demo_eval = ReadMacInt8_plain ReadMacInt16_plain ReadMacInt32_plain plain_req plain_pb req_ram drv_offsets
  of_be16_def of_be32_def pb_ram_def

lemma demo_request:
  "req_buffer 0x100 (demo_sys cmd y) = 0x2000" "req_len 0x100 (demo_sys cmd y) = 512"
  "req_pos 0x100 0x200 (demo_sys cmd y) = 0" "req_drive 0x100 (demo_sys cmd y) = Some hd_drive"
  by (simp_all add: req_buffer_def req_len_def req_pos_def prime_position_def req_drive_def demo_eval get_drive_info_def
      find_index_def) (simp_all add: demo_sys_def hd_drive_def)

lemma demo_is_read: "req_is_read 0x100 (demo_sys 2 y)" "\<not> req_is_read 0x100 (demo_sys 3 y)"
  by (simp_all add: req_is_read_def demo_eval)

lemma demo_in_place: "disk_in_place hd_drive (wr32 (0x100 + ioActCount) 0 (demo_sys cmd y)) = 8"
proof -
  have "disk_in_place hd_drive (wr32 (0x100 + ioActCount) 0 (demo_sys cmd y)) = ReadMacInt8 (req_mem 0x100 (demo_sys cmd y)) 0x303"
    by (simp add: disk_in_place_def hd_drive_def req_mem_def drv_offsets)
  also have "\<dots> = 8" by (simp add: demo_eval)
  finally show ?thesis .
qed

lemma demo_sysd [simp]: "sysd (demo_sys cmd y) = y"
  by (simp add: demo_sys_def)

lemma demo_prime:
  "DiskPrime 0x100 0x200 (demo_sys 2 y) = prime_read 0x100 0x200 (Some 0) 0x2000 512 0 (wr32 (0x100 + ioActCount) 0 (demo_sys 2 y))"
  "DiskPrime 0x100 0x200 (demo_sys 3 y) = prime_write 0x100 0x200 (Some 0) 0x2000 512 0 (wr32 (0x100 + ioActCount) 0 (demo_sys 3 y))"
  by (simp_all add: DiskPrime_req demo_request demo_is_read demo_in_place Let_def) (simp_all add: hd_drive_def)

subsection \<open>Transfers\<close>

lemma nat_ranges:
  assumes "0 \<le> p" "0 \<le> q" "p + uint (m :: u32) \<le> q \<or> q + uint (n :: u32) \<le> p"
  shows "nat p + unat m \<le> nat q \<or> nat q + unat n \<le> nat p"
proof -
  have "uint m = int (unat m)" "uint n = int (unat n)" by simp_all
  then show ?thesis using assms by linarith
qed

text \<open>The seek of the Linux build refuses positions from 4 GB on: no request there succeeds.\<close>

lemma request_past_4GB_fails:
  assumes "DiskPrime pb dce s = (e, t)" "req_drive pb s = Some d" "dr_fh d = Some a" "handles (sysd s) a = Some f"
    and "0 \<le> req_pos pb dce s" "2 ^ 32 \<le> req_pos pb dce s + fh_start_byte f" "req_len pb s \<noteq> 0"
  shows "e \<noteq> noErr"
proof
  assume e: "e = noErr"
  have n: "unat (req_len pb s) \<noteq> 0" using assms(7) by (simp add: unat_eq_zero)
  have b: "b = fh_start_byte f" if "readable (dr_fh d) (sysd s) fd c b" for fd c b
    using that assms(3,4) by (auto simp: readable_def)
  show False
  proof (cases "req_is_read pb s")
    case True
    obtain bs where "block_rd (dr_fh d) (sysd s) (nat (req_pos pb dce s)) (unat (req_len pb s)) = Some bs"
      using DiskPrime_read_ok [OF assms(1) [unfolded e] True assms(2,5)] by metis
    then show ?thesis unfolding block_rd_Some [OF n] using b assms(5,6) by fastforce
  next
    case False
    let ?bs = "fetch (req_mem pb s) (req_buffer pb s) (unat (req_len pb s))"
    have w: "Sys_write (dr_fh d) ?bs (int (nat (req_pos pb dce s))) (sysd s) = (Some (length ?bs), sysd t)"
      using DiskPrime_write_ok [OF assms(1) [unfolded e] False assms(2,5)] unfolding block_wr_Some .
    have "?bs \<noteq> []" using n by (metis length_fetch list.size(3))
    then show ?thesis using Sys_write_full [OF w] b assms(5,6) by fastforce
  qed
qed

text \<open>
  C29. The disk driver is a block store: after a successful write request, a successful read
  request for the same drive, position and length, with any parameter block and after any
  change of guest memory, delivers the bytes the written buffer held, and one for a place the
  write does not overlap delivers the bytes that were there before. Requests at 4 GB or beyond in
  the file do not succeed in the Linux build that is modelled (\<open>request_past_4GB_fails\<close>), whose seek refuses them.\<close>
theorem prime_is_a_block_store:
  assumes "DiskPrime pb dce s = (noErr, t)" "\<not> req_is_read pb s" "req_drive pb s = Some d" "0 \<le> req_pos pb dce s"
    and "DiskPrime pb' dce' u = (noErr, v)" "req_is_read pb' u" "req_drive pb' u = Some d'" "0 \<le> req_pos pb' dce' u"
    and "dr_fh d' = dr_fh d" "sysd u = sysd t"
  shows "(req_pos pb' dce' u = req_pos pb dce s \<and> req_len pb' u = req_len pb s \<longrightarrow>
            dmem v = delivered pb' dce' (fetch (req_mem pb s) (req_buffer pb s) (unat (req_len pb s))) u) \<and>
         (\<forall>xs. block_rd (dr_fh d) (sysd s) (nat (req_pos pb' dce' u)) (unat (req_len pb' u)) = Some xs \<and>
               (req_pos pb' dce' u + uint (req_len pb' u) \<le> req_pos pb dce s \<or>
                req_pos pb dce s + uint (req_len pb s) \<le> req_pos pb' dce' u) \<longrightarrow>
               dmem v = delivered pb' dce' xs u)"
proof -
  let ?bs = "fetch (req_mem pb s) (req_buffer pb s) (unat (req_len pb s))"
  have w: "block_wr (dr_fh d) (nat (req_pos pb dce s)) ?bs (sysd s) = Some (sysd t)"
    by (rule DiskPrime_write_ok [OF assms(1-4)])
  obtain xs where r: "block_rd (dr_fh d) (sysd t) (nat (req_pos pb' dce' u)) (unat (req_len pb' u)) = Some xs"
      "dmem v = delivered pb' dce' xs u"
    using DiskPrime_read_ok [OF assms(5-8)] assms(9,10) by metis
  have same: "block_rd (dr_fh d) (sysd t) (nat (req_pos pb dce s)) (unat (req_len pb s)) = Some ?bs"
    using image.rd_wr_same [OF w] by simp
  have other: "ys = xs" if ys: "block_rd (dr_fh d) (sysd s) (nat (req_pos pb' dce' u)) (unat (req_len pb' u)) = Some ys"
      and d: "req_pos pb' dce' u + uint (req_len pb' u) \<le> req_pos pb dce s \<or>
              req_pos pb dce s + uint (req_len pb s) \<le> req_pos pb' dce' u" for ys
  proof -
    have "nat (req_pos pb' dce' u) + unat (req_len pb' u) \<le> nat (req_pos pb dce s) \<or>
          nat (req_pos pb dce s) + length ?bs \<le> nat (req_pos pb' dce' u)"
      unfolding length_fetch by (rule nat_ranges [OF assms(8,4) d])
    then have "block_rd (dr_fh d) (sysd t) (nat (req_pos pb' dce' u)) (unat (req_len pb' u)) = Some ys"
      by (rule image.rd_wr_other [OF w _ ys])
    then show ?thesis using r(1) by simp
  qed
  show ?thesis
  proof (intro conjI impI allI)
    assume "req_pos pb' dce' u = req_pos pb dce s \<and> req_len pb' u = req_len pb s"
    then have "xs = ?bs" using same r(1) by (metis option.inject)
    then show "dmem v = delivered pb' dce' ?bs u" using r(2) by simp
  next
    fix ys
    assume "block_rd (dr_fh d) (sysd s) (nat (req_pos pb' dce' u)) (unat (req_len pb' u)) = Some ys \<and>
               (req_pos pb' dce' u + uint (req_len pb' u) \<le> req_pos pb dce s \<or>
                req_pos pb dce s + uint (req_len pb s) \<le> req_pos pb' dce' u)"
    then have "ys = xs" using other by blast
    then show "dmem v = delivered pb' dce' ys u" using r(2) by simp
  qed
qed

lemma demo_write:
  "fst (DiskPrime 0x100 0x200 (demo_sys 3 (open_sysfs c))) = noErr"
  "\<exists>c'. sysd (snd (DiskPrime 0x100 0x200 (demo_sys 3 (open_sysfs c)))) = open_sysfs c' \<and> 512 \<le> length c'"
proof -
  let ?s = "wr32 (0x100 + ioActCount) 0 (demo_sys 3 (open_sysfs c))"
  let ?bs = "fetch (dmem ?s) 0x2000 512"
  have b: "length ?bs = 512" by simp
  then have "?bs \<noteq> []" by (metis length_0_conv zero_neq_numeral)
  then have "Sys_write (Some 0) ?bs 0 (open_sysfs c) = (Some 512, open_sysfs (file_write 0 ?bs c))"
    using b by (simp add: Sys_write_def llseek_ok_iff open_sysfs_def hd_handle_def posix_write_def write_room_def is_dev_def host_with_def
        idle_sysfs_def)
  then show "fst (DiskPrime 0x100 0x200 (demo_sys 3 (open_sysfs c))) = noErr"
    "\<exists>c'. sysd (snd (DiskPrime 0x100 0x200 (demo_sys 3 (open_sysfs c)))) = open_sysfs c' \<and> 512 \<le> length c'"
    using b unfolding demo_prime prime_write_def by (auto simp: length_file_write)
qed

lemma demo_read: "512 \<le> length c \<Longrightarrow> fst (DiskPrime 0x100 0x200 (demo_sys 2 (open_sysfs c))) = noErr"
  unfolding demo_prime prime_read_def
  by (simp add: Sys_read_def llseek_ok_iff open_sysfs_def hd_handle_def posix_read_def
      stream_data_def host_with_def idle_sysfs_def byte_simps Let_def)

theorem prime_is_a_block_store_witness:
  "\<exists>t v. DiskPrime 0x100 0x200 (demo_sys 3 (open_sysfs (replicate 2048 0))) = (noErr, t) \<and>
     DiskPrime 0x100 0x200 (demo_sys 2 (sysd t)) = (noErr, v) \<and>
     dmem v = delivered 0x100 0x200 (fetch (req_mem 0x100 (demo_sys 3 (open_sysfs (replicate 2048 0)))) 0x2000 512)
                (demo_sys 2 (sysd t))"
proof -
  let ?s = "demo_sys 3 (open_sysfs (replicate 2048 0))"
  define t where "t = snd (DiskPrime 0x100 0x200 ?s)"
  have t: "DiskPrime 0x100 0x200 ?s = (noErr, t)" using demo_write(1) by (simp add: t_def prod_eq_iff)
  define v where "v = snd (DiskPrime 0x100 0x200 (demo_sys 2 (sysd t)))"
  have v: "DiskPrime 0x100 0x200 (demo_sys 2 (sysd t)) = (noErr, v)"
    using demo_write(2) [of "replicate 2048 0"] demo_read by (auto simp: v_def t_def prod_eq_iff)
  have s: "sysd (demo_sys 2 (sysd t)) = sysd t" by simp
  have z: "0 \<le> req_pos 0x100 0x200 ?s" "0 \<le> req_pos 0x100 0x200 (demo_sys 2 (sysd t))" by (simp_all only: demo_request)
  have "dmem v = delivered 0x100 0x200 (fetch (req_mem 0x100 ?s) 0x2000 512) (demo_sys 2 (sysd t))"
    using prime_is_a_block_store [OF t demo_is_read(2) demo_request(4) z(1) v demo_is_read(1) demo_request(4) z(2) refl s]
    by (simp add: demo_request)
  then show ?thesis using t v by blast
qed

text \<open>
  A request the disk driver refuses, because there is no such drive (nsDrvErr), no disk in it
  (offLinErr), the length or position is not a multiple of 512 (paramErr) or the drive is
  write-protected (wPrErr), changes nothing but the count of bytes done, which it clears;
  and a drive marked write-protected refuses every write.\<close>
theorem refused_request_changes_nothing:
  assumes "DiskPrime pb dce s = (e, t)"
  shows "(e \<in> {nsDrvErr, offLinErr, paramErr, wPrErr} \<longrightarrow> t = wr32 (pb + ioActCount) 0 s) \<and>
         (req_drive pb s = Some d \<and> dr_ro d \<and> \<not> req_is_read pb s \<longrightarrow> e \<in> {offLinErr, paramErr, wPrErr})"
  using DiskPrime_refused [of pb dce s] assms by (auto simp: DiskPrime_req Let_def split: if_splits)

theorem refused_request_changes_nothing_witness:
  "snd (DiskPrime 0x100 0x200 ((demo_sys 3 (open_sysfs []))\<lparr>disk_drives := []\<rparr>)) =
   wr32 (0x100 + ioActCount) 0 ((demo_sys 3 (open_sysfs []))\<lparr>disk_drives := []\<rparr>)"
proof -
  let ?s = "(demo_sys 3 (open_sysfs []))\<lparr>disk_drives := []\<rparr>"
  obtain e t where d: "DiskPrime 0x100 0x200 ?s = (e, t)" by fastforce
  have "e = nsDrvErr"
    using d by (auto simp: DiskPrime_req req_drive_def get_drive_info_def find_index_def Let_def)
  then show ?thesis using refused_request_changes_nothing [OF d] d by simp
qed

subsection \<open>Write protection\<close>

text \<open>
  C28. An image the user write-protects, by an asterisk before its name in every disk and floppy
  item of the preferences, never changes: after start-up of both drivers from a host where
  no file is open, no history of driver calls, interrupts, resets, ejections, floppies
  inserted from other files and arbitrary guest code writes to it, whatever the Mac OS traps
  do; nor does an image whose host file is write-protected.\<close>
theorem protected_image_never_changes:
  assumes "for_each (drv_step os af) es (SonyInit fps fds (DiskInit u dps dds s)) = Some t"
    and "\<forall>f. streams (fs (sysd s)) f = None"
    and "(\<forall>str \<in> set (dps @ dds @ fps @ fds). drive_pref str \<noteq> (p, False)) \<and> Sony_Insert p \<notin> set es
         \<or> readonly (fs (sysd s)) p"
  shows "files (fs (sysd t)) p = files (fs (sysd s)) p"
proof -
  define c w where "c = files (fs (sysd s)) p" and "w = readonly (fs (sysd s)) p"
  have k: "kept p c w (sysd s)" using assms(2) by (simp add: kept_def ro_path_def c_def w_def)
  have ps: "\<forall>str \<in> set (if xs = [] then ys else xs). drive_pref str \<noteq> (p, False) \<or> w"
    if "set xs \<union> set ys \<subseteq> set (dps @ dds @ fps @ fds)" for xs ys
    using assms(3) that unfolding w_def by auto
  have "kept p c w (sysd (DiskInit u dps dds s))"
    unfolding DiskInit_def using k by (intro fold_add_kept(1) ps) auto
  then have "kept p c w (sysd (SonyInit fps fds (DiskInit u dps dds s)))"
    unfolding SonyInit_def by (intro fold_add_kept(2) ps) auto
  then have "kept p c w (sysd t)"
    using assms(3) by (intro drv_run_kept [OF _ assms(1)]) (auto simp: w_def)
  then show ?thesis by (simp add: kept_def c_def)
qed

definition no_os :: mac_os where
  "no_os t d a m = (0, m)"

theorem protected_image_never_changes_witness:
  "\<exists>t. for_each (drv_step no_os id) [Disk_Prime 0x100 0x200, Disk_Control 0x100 0x200, Sony_Insert ''b'']
         (SonyInit [] [] (DiskInit 0 [''*hd''] [] (demo_sys 3 (idle_sysfs [1, 2])))) = Some t \<and>
       files (fs (sysd t)) ''hd'' = Some [1, 2]"
proof -
  let ?s = "demo_sys 3 (idle_sysfs [1, 2])"
  let ?es = "[Disk_Prime 0x100 0x200, Disk_Control 0x100 0x200, Sony_Insert ''b'']"
  have o: "fst (Sys_open ''b'' False y) = None" if "files (fs y) ''b'' = None" for y
    using that by (simp add: Sys_open_def open_host_def access_w_def fopen_read_def is_dev_def)
  have f: "files (fs (sysd ?s)) ''b'' = None" "\<forall>f. streams (fs (sysd ?s)) f = None"
      "files (fs (sysd ?s)) ''hd'' = Some [1, 2]"
    by (simp_all add: demo_sys_def idle_sysfs_def host_with_def)
  have k: "kept ''b'' None False (sysd ?s)"
    by (simp add: kept_def ro_path_def demo_sys_def idle_sysfs_def host_with_def)
  have "kept ''b'' None False (sysd (SonyInit [] [] (DiskInit 0 [''*hd''] [] ?s)))"
    using k by (simp add: SonyInit_def DiskInit_def drive_pref_def add_drive_kept(1))
  then have "kept ''b'' None False (sysd (snd (DiskControl no_os 0x100 0x200 (snd (DiskPrime 0x100 0x200
      (SonyInit [] [] (DiskInit 0 [''*hd''] [] ?s)))))))"
    by (intro Control_kept(1) Prime_kept(1))
  then obtain t where t: "for_each (drv_step no_os id) ?es (SonyInit [] [] (DiskInit 0 [''*hd''] [] ?s)) = Some t"
    using o by (auto simp: SonyInsertFloppy_def Let_def split_beta kept_def)
  have "(\<forall>str \<in> set ([''*hd''] @ [] @ [] @ []). drive_pref str \<noteq> (''hd'', False)) \<and> Sony_Insert ''hd'' \<notin> set ?es
         \<or> readonly (fs (sysd ?s)) ''hd''"
    by (simp add: drive_pref_def)
  from protected_image_never_changes [OF t f(2) this] t f(3) show ?thesis by auto
qed

subsection \<open>Drive numbers\<close>

text \<open>
  The search for a drive number returns when the drive queue in guest memory is a finite
  list of elements: it gives the smallest number from the start on that no drive in the
  queue has.\<close>
theorem drive_number_search_ends:
  assumes "drive_queue m (ReadMacInt32 m (0x308 + qHead)) es"
  shows "\<exists>n. FindFreeDriveNumber m start = Some n \<and> start \<le> n \<and> n \<notin> queued_numbers m es \<and>
           (\<forall>k. start \<le> k \<and> k < n \<longrightarrow> k \<in> queued_numbers m es)"
  by (rule FindFree_queue [OF assms])

definition queue_mem :: mac where
  "queue_mem = \<lparr>ram = (\<lambda>a. 0)(0x30c := 0x10, 0x1007 := 1), rom_base = 0x40800000, rom_size = 0x100000, regions = [],
     mmio_log = []\<rparr>"

theorem drive_number_search_ends_witness: "FindFreeDriveNumber queue_mem 1 = Some 2"
proof -
  have pl: "plain queue_mem a" if "a < 0x40800000" for a
    using that by (auto simp: plain_def is_mmio_addr_def FindMMIORegion_def queue_mem_def rom_protected_def)
  have r: "ReadMacInt32 queue_mem 0x30a = 0x1000" "ReadMacInt32 queue_mem 0x1000 = 0" "ReadMacInt16 queue_mem 0x1006 = 1"
    by (simp_all add: ReadMacInt32_plain ReadMacInt16_plain pl) (simp_all add: queue_mem_def of_be32_def of_be16_def)
  have q: "drive_queue queue_mem (ReadMacInt32 queue_mem (0x308 + qHead)) [0x1000]" by (simp add: qHead_def r)
  have n: "queued_numbers queue_mem [0x1000] = {1}" by (simp add: queued_numbers_def queue_drive_num_def drv_offsets r)
  obtain k where k: "FindFreeDriveNumber queue_mem 1 = Some k" "1 \<le> k" "k \<noteq> 1" "\<forall>j. 1 \<le> j \<and> j < k \<longrightarrow> j = 1"
    using drive_number_search_ends [OF q, of 1] unfolding n by auto
  have "\<not> 2 < k" using k(4) [rule_format, of 2] by auto
  then have "k = 2" using k(2,3) by linarith
  then show ?thesis using k(1) by simp
qed

subsection \<open>Announcing disks\<close>

text \<open>
  Once the floppy driver has run its periodic action, floppies to be mounted are announced:
  after 121 interrupts less the ticks already counted, and not before, the driver has posted one disk
  event for each drive that was flagged, in the order of the drives, and no drive is flagged
  any more, whatever the Mac OS does when events are posted.\<close>
theorem floppies_announced_once:
  assumes "sony_acc_run s" "0 \<le> sony_ticks s" "sony_ticks s \<le> 120"
  shows "(\<forall>k < 121 - nat (sony_ticks s). traps ((SonyInterrupt os ^^ k) s) = traps s) \<and>
         traps ((SonyInterrupt os ^^ (121 - nat (sony_ticks s))) s) =
           traps s @ map disk_event (filter dr_mount (sony_drives s)) \<and>
         (\<forall>d \<in> set (sony_drives ((SonyInterrupt os ^^ (121 - nat (sony_ticks s))) s)). \<not> dr_mount d)"
proof -
  define n where "n = 120 - nat (sony_ticks s)"
  have n: "121 - nat (sony_ticks s) = Suc n" "sony_ticks s + int n = 120" using assms(2,3) by (auto simp: n_def)
  have w: "(SonyInterrupt os ^^ k) s = s\<lparr>sony_ticks := sony_ticks s + int k\<rparr>" if "k \<le> n" for k
    using that n(2) by (intro SonyInterrupt_wait [OF assms(1)]) simp
  have l: "(SonyInterrupt os ^^ Suc n) s = sony_mount_volumes os (s\<lparr>sony_ticks := 0\<rparr>)"
    using w [of n] n(2) assms(1) by (simp add: SonyInterrupt_tick)
  show ?thesis
    unfolding n(1) l using w sony_mount_volumes_traps [of os "s\<lparr>sony_ticks := 0\<rparr>"] by simp
qed

definition flagged_floppy :: floppy_drive where
  "flagged_floppy = \<lparr>dr_num = 2, dr_fh = None, dr_mount = True, dr_ro = False, dr_status = 0, dr_tag = 0\<rparr>"

theorem floppies_announced_once_witness:
  "traps ((SonyInterrupt no_os ^^ 121) ((demo_sys 3 (idle_sysfs []))\<lparr>sony_drives := [flagged_floppy], sony_acc_run := True\<rparr>))
   = [(0xa02f, 2, 7)]"
proof -
  let ?s = "(demo_sys 3 (idle_sysfs []))\<lparr>sony_drives := [flagged_floppy], sony_acc_run := True\<rparr>"
  have t: "sony_ticks ?s = 0" "traps ?s = []" by (simp_all add: demo_sys_def)
  have e: "map disk_event (filter dr_mount (sony_drives ?s)) = [(0xa02f, 2, 7)]"
    by (simp add: flagged_floppy_def disk_event_def)
  have "traps ((SonyInterrupt no_os ^^ (121 - nat (sony_ticks ?s))) ?s) =
           traps ?s @ map disk_event (filter dr_mount (sony_drives ?s))"
    using t by (intro floppies_announced_once [THEN conjunct2, THEN conjunct1]) simp_all
  then show ?thesis unfolding t e by simp
qed

subsection \<open>Layout of images\<close>

text \<open>
  An opened image file is read from the first HFS partition its first 64 blocks name, or
  from its first byte when they name none, even when the layout of the file says that its data
  start behind a header, but nothing is read from 4 GB on; the size reported is that of the layout, and without a partition every
  whole block below it is in the file.\<close>
theorem opened_image_layout:
  assumes "Sys_open n ro y = (Some a, z)" "\<not> is_dev n" "files (fs y) n = Some c"
  shows "SysGetFileSize (Some a) z = snd (FileDiskLayout (int (length c))) \<and>
         Sys_read (Some a) (int (k * 512)) 512 z =
           Some (if image_base c + k * 512 < 2 ^ 32 then window (image_base c + k * 512) 512 c else []) \<and>
         (image_base c = 0 \<and> int (k * 512 + 512) \<le> SysGetFileSize (Some a) z \<longrightarrow>
            length (window (image_base c + k * 512) 512 c) = 512)"
proof -
  obtain f fd where f: "handles z a = Some f" "fh_fd f = Some fd" "stream_data (fs z) fd = Some c" "fh_is_file f"
    "fh_start_byte f = int (image_base c)" "fh_file_size f = snd (FileDiskLayout (int (length c)))"
    using Sys_open_image [OF assms] by metis
  define p where "p = image_base c + k * 512"
  have p: "int (k * 512) + fh_start_byte f = int p" by (simp add: p_def f(5))
  have "llseek_ok (int p) (Some fd) \<longleftrightarrow> p < 2 ^ 32" unfolding llseek_ok_iff by simp
  then have r: "Sys_read (Some a) (int (k * 512)) 512 z = Some (if p < 2 ^ 32 then window p 512 c else [])"
    unfolding Sys_read_def Let_def using f(1-3) p by (simp add: posix_read_def)
  have sz: "SysGetFileSize (Some a) z = snd (FileDiskLayout (int (length c)))"
    using f by (simp add: SysGetFileSize_def handle_at_def)
  then have "int (k * 512 + 512) \<le> int (length c)" if "int (k * 512 + 512) \<le> SysGetFileSize (Some a) z"
    using that layout_size [of "int (length c)"] by linarith
  then show ?thesis using r sz unfolding p_def by (auto simp: length_window)
qed

lemma no_partition: "image_base (replicate n 7) = 0"
proof -
  have w: "window i k (replicate n (7 :: u8)) = replicate (min k (n - i)) 7" for i k by (simp add: window_def)
  show ?thesis unfolding image_base_def w
    by (subst hfs_search_none) (auto simp: partition_entry_def of_be16_def)
qed

theorem opened_image_layout_witness:
  "\<exists>a z. Sys_open ''hd'' False (idle_sysfs (replicate 838484 7)) = (Some a, z) \<and>
     FileDiskLayout 838484 = (84, 838144) \<and> Sys_read (Some a) 0 512 z = Some (take 512 (replicate 838484 7))"
proof -
  let ?y = "idle_sysfs (replicate 838484 7)"
  have f: "files (fs ?y) ''hd'' = Some (replicate 838484 7)" by (simp add: idle_sysfs_def host_with_def)
  have "fst (Sys_open ''hd'' False ?y) \<noteq> None"
    by (simp add: Sys_open_def open_host_def fopen_update_def open_stream_def access_w_def is_dev_def add_handle_def Let_def
        idle_sysfs_def host_with_def)
  then obtain a z where o: "Sys_open ''hd'' False ?y = (Some a, z)"
    by (cases "Sys_open ''hd'' False ?y") auto
  have "\<not> is_dev ''hd''" by (simp add: is_dev_def)
  from opened_image_layout [OF o this f, of 0]
  have "Sys_read (Some a) 0 512 z = Some (take 512 (replicate 838484 7))"
    by (simp add: no_partition window_def)
  then show ?thesis using o by (simp add: FileDiskLayout_def)
qed

end
