(* ===== verification/ADB.thy ===== *)
theory ADB
  imports Mac_Memory
begin

section \<open>The Apple Desktop Bus\<close>

text \<open>
  \<open>adb.cpp\<close>: the emulated mouse and keyboard. The host reports movements, buttons and keys;
  the guest reads and sets the device registers with \<open>ADBOp\<close>, and the 60Hz interrupt
  hands the collected input to the guest's ADB handlers. A handler is code of the guest
  system: what its call does to memory is an argument, and \<open>handled\<close> records the
  calls with the handler, its data area, the bytes handed over and the register D0.
  \<open>rand\<close> is an argument of \<open>ADBOp\<close>. The data of an ADB operation is the memory at its
  pointer, indexed from 0, where the length of the answer goes. Positions are C \<open>int\<close>s
  far from overflow. Buttons are numbered 0 to 2 and key codes 0 to 127.
\<close>

definition KEY_BUFFER_SIZE :: nat where
  "KEY_BUFFER_SIZE = 16"

record adb_call =
  call_code :: u32
  call_store :: u32
  call_base :: u32
  call_bytes :: "u8 list"
  call_d0 :: u32

record adb =
  adb_mem :: mac
  mouse_x :: int
  mouse_y :: int
  old_mouse_x :: int
  old_mouse_y :: int
  mouse_button :: "bool list"
  old_mouse_button :: "bool list"
  relative_mouse :: bool
  key_states :: "u8 list"
  key_buffer :: "u8 list"
  key_read_ptr :: nat
  key_write_ptr :: nat
  mouse_reg_3 :: "u8 \<times> u8"
  key_reg_2 :: "u8 \<times> u8"
  key_reg_3 :: "u8 \<times> u8"
  handled :: "adb_call list"

definition adb_start :: "mac \<Rightarrow> adb" where
  "adb_start m = \<lparr>adb_mem = m, mouse_x = 0, mouse_y = 0, old_mouse_x = 0, old_mouse_y = 0,
     mouse_button = replicate 3 False, old_mouse_button = replicate 3 False, relative_mouse = False,
     key_states = replicate 16 0, key_buffer = replicate KEY_BUFFER_SIZE 0, key_read_ptr = 0, key_write_ptr = 0,
     mouse_reg_3 = (0x63, 0x01), key_reg_2 = (0xff, 0xff), key_reg_3 = (0x62, 0x05), handled = []\<rparr>"

definition key_bit :: "nat \<Rightarrow> u8" where
  "key_bit code = push_bit (7 - code mod 8) 1"

definition MATRIX :: "nat \<Rightarrow> adb \<Rightarrow> bool" where
  "MATRIX code s \<longleftrightarrow> key_states s ! (code div 8) AND key_bit code \<noteq> 0"

subsection \<open>Operations of the guest\<close>

definition adb_reset :: "adb \<Rightarrow> adb" where
  "adb_reset s = s\<lparr>mouse_reg_3 := (0x63, 0x01), key_reg_2 := (0xff, 0xff), key_reg_3 := (0x62, 0x05)\<rparr>"

text \<open>What a Listen to register 3 makes of the address byte.\<close>

definition listen_addr :: "(nat \<Rightarrow> u8) \<Rightarrow> u8 \<Rightarrow> u8" where
  "listen_addr data hi =
     (if data 2 = 0xfe then (hi AND 0xf0) OR (data 1 AND 0x0f)
      else if data 2 = 0 then (hi AND 0xd0) OR (data 1 AND 0x2f) else hi)"

definition mouse_listen :: "u8 \<Rightarrow> (nat \<Rightarrow> u8) \<Rightarrow> adb \<Rightarrow> adb" where
  "mouse_listen reg data s =
     (if reg \<noteq> 3 then s
      else (let (hi, lo) = mouse_reg_3 s
            in if data 2 = 0xfe then s\<lparr>mouse_reg_3 := (listen_addr data hi, lo)\<rparr>
               else if data 2 = 1 \<or> data 2 = 2 \<or> data 2 = 4 then s\<lparr>mouse_reg_3 := (hi, data 2)\<rparr>
               else s\<lparr>mouse_reg_3 := (listen_addr data hi, lo)\<rparr>))"

definition key_listen :: "u8 \<Rightarrow> (nat \<Rightarrow> u8) \<Rightarrow> adb \<Rightarrow> adb" where
  "key_listen reg data s =
     (if reg = 2 then s\<lparr>key_reg_2 := (data 1, data 2)\<rparr>
      else if reg = 3 then s\<lparr>key_reg_3 := (listen_addr data (fst (key_reg_3 s)), snd (key_reg_3 s))\<rparr>
      else s)"

definition answer :: "u8 list \<Rightarrow> (nat \<Rightarrow> u8) \<Rightarrow> nat \<Rightarrow> u8" where
  "answer bs data = (\<lambda>i. if i < length bs then bs ! i else data i)"

definition reg_3_answer :: "u8 \<Rightarrow> u8 \<times> u8 \<Rightarrow> u8 list" where
  "reg_3_answer rnd r = [2, (fst r AND 0xf0) OR (rnd AND 0x0f), snd r]"

definition mouse_talk :: "u8 \<Rightarrow> u8 \<Rightarrow> adb \<Rightarrow> u8 list" where
  "mouse_talk rnd reg s =
     (if reg = 1 then [8, 0x61, 0x70, 0x70, 0x6c, 0x01, 0x2c, 1, 3]
      else if reg = 3 then reg_3_answer rnd (mouse_reg_3 s)
      else [0])"

definition clear_if :: "bool \<Rightarrow> u8 \<Rightarrow> u8 \<Rightarrow> u8" where
  "clear_if b m x = (if b then x AND NOT m else x)"

definition modifiers_hi :: "adb \<Rightarrow> u8" where
  "modifiers_hi s =
     clear_if (MATRIX 0x75 s) 0x40 (clear_if (MATRIX 0x39 s) 0x20 (clear_if (MATRIX 0x36 s) 0x08
       (clear_if (MATRIX 0x38 s) 0x04 (clear_if (MATRIX 0x3a s) 0x02 (clear_if (MATRIX 0x37 s) 0x01 0xff)))))"

definition modifiers_lo :: "adb \<Rightarrow> u8" where
  "modifiers_lo s =
     clear_if (MATRIX 0x47 s) 0x80 (clear_if (MATRIX 0x6b s) 0x40 (snd (key_reg_2 s) OR 0xf8))"

definition key_talk :: "u8 \<Rightarrow> u8 \<Rightarrow> adb \<Rightarrow> u8 list" where
  "key_talk rnd reg s =
     (if reg = 2 then [2, modifiers_hi s, modifiers_lo s]
      else if reg = 3 then reg_3_answer rnd (key_reg_3 s)
      else [0])"

definition ADBOp :: "u8 \<Rightarrow> u8 \<Rightarrow> (nat \<Rightarrow> u8) \<Rightarrow> adb \<Rightarrow> (nat \<Rightarrow> u8) \<times> adb" where
  "ADBOp rnd op data s =
     (if op AND 0x0f = 0 then (data, adb_reset s)
      else (let adr = drop_bit 4 op; cmd = drop_bit 2 op AND 3; reg = op AND 3
            in if adr = fst (mouse_reg_3 s) AND 0x0f then
                 (if cmd = 2 then (data, mouse_listen reg data s)
                  else if cmd = 3 then (answer (mouse_talk rnd reg s) data, s)
                  else (data, s))
               else if adr = fst (key_reg_3 s) AND 0x0f then
                 (if cmd = 2 then (data, key_listen reg data s)
                  else if cmd = 3 then (answer (key_talk rnd reg s) data, s)
                  else (data, s))
               else (if cmd = 3 then (answer [0] data, s) else (data, s))))"

subsection \<open>Input from the host\<close>

definition ADBMouseMoved :: "int \<Rightarrow> int \<Rightarrow> adb \<Rightarrow> adb" where
  "ADBMouseMoved x y s =
     (if relative_mouse s then s\<lparr>mouse_x := mouse_x s + x, mouse_y := mouse_y s + y\<rparr>
      else s\<lparr>mouse_x := x, mouse_y := y\<rparr>)"

definition ADBMouseDown :: "nat \<Rightarrow> adb \<Rightarrow> adb" where
  "ADBMouseDown button s = s\<lparr>mouse_button := (mouse_button s)[button := True]\<rparr>"

definition ADBMouseUp :: "nat \<Rightarrow> adb \<Rightarrow> adb" where
  "ADBMouseUp button s = s\<lparr>mouse_button := (mouse_button s)[button := False]\<rparr>"

definition ADBSetRelMouseMode :: "bool \<Rightarrow> adb \<Rightarrow> adb" where
  "ADBSetRelMouseMode relative s = s\<lparr>relative_mouse := relative\<rparr>"

definition put_key :: "u8 \<Rightarrow> adb \<Rightarrow> adb" where
  "put_key b s = s\<lparr>key_buffer := (key_buffer s)[key_write_ptr s := b],
                   key_write_ptr := (key_write_ptr s + 1) mod KEY_BUFFER_SIZE\<rparr>"

definition ADBKeyDown :: "nat \<Rightarrow> adb \<Rightarrow> adb" where
  "ADBKeyDown code s =
     (let s1 = put_key (of_nat code) s
      in s1\<lparr>key_states := (key_states s1)[code div 8 := key_states s1 ! (code div 8) OR key_bit code]\<rparr>)"

definition ADBKeyUp :: "nat \<Rightarrow> adb \<Rightarrow> adb" where
  "ADBKeyUp code s =
     (let s1 = put_key (of_nat code OR 0x80) s
      in s1\<lparr>key_states := (key_states s1)[code div 8 := key_states s1 ! (code div 8) AND NOT (key_bit code)]\<rparr>)"

subsection \<open>The interrupt\<close>

type_synonym adb_handler = "adb_call \<Rightarrow> mac \<Rightarrow> mac"

fun put_bytes :: "u32 \<Rightarrow> u8 list \<Rightarrow> mac \<Rightarrow> mac" where
  "put_bytes a [] m = m"
| "put_bytes a (b # bs) m = put_bytes (a + 1) bs (WriteMacInt8 a (ucast b) m)"

text \<open>
  The bytes (a length and the data) go to the temporary area; the handler and its storage
  address are read from the table entry of the device.
\<close>

definition call_handler :: "adb_handler \<Rightarrow> u32 \<Rightarrow> u32 \<Rightarrow> u8 \<Rightarrow> u8 list \<Rightarrow> adb \<Rightarrow> adb" where
  "call_handler hnd base entry reg bs s =
     (let tmp = base + 0x163; m = put_bytes tmp (of_nat (length bs) # bs) (adb_mem s);
          c = \<lparr>call_code = ReadMacInt32 m entry, call_store = ReadMacInt32 m (entry + 4), call_base = base,
               call_bytes = bs, call_d0 = push_bit 4 (ucast reg) OR 0x0c\<rparr>
      in s\<lparr>adb_mem := hnd c m, handled := handled s @ [c]\<rparr>)"

definition up_bit :: "bool \<Rightarrow> u8" where
  "up_bit down = (if down then 0 else 0x80)"

definition relative_bytes :: "adb \<Rightarrow> u8 list" where
  "relative_bytes s =
     (let mx = mouse_x s; my = mouse_y s; b = (\<lambda>i. mouse_button s ! i);
          first = [(word_of_int my AND 0x7f) OR up_bit (b 0), (word_of_int mx AND 0x7f) OR up_bit (b 1)]
      in if snd (mouse_reg_3 s) = 4
         then first @ [((word_of_int (my div 8) AND 0x70) OR (word_of_int (mx div 128) AND 0x07)) OR
                       (if b 2 then 0x08 else 0x88)]
         else first)"

definition absolute_bytes :: "adb \<Rightarrow> u8 list" where
  "absolute_bytes s =
     (let b = (\<lambda>i. mouse_button s ! i)
      in if snd (mouse_reg_3 s) = 4 then [up_bit (b 0), up_bit (b 1), if b 2 then 0x08 else 0x88]
         else [up_bit (b 0), up_bit (b 1)])"

definition buttons_changed :: "adb \<Rightarrow> bool" where
  "buttons_changed s \<longleftrightarrow> (\<exists>i \<in> set [0, 1, 2]. mouse_button s ! i \<noteq> old_mouse_button s ! i)"

definition relative_step :: "adb_handler \<Rightarrow> u32 \<Rightarrow> adb \<Rightarrow> adb" where
  "relative_step hnd base s =
     (if mouse_x s \<noteq> 0 \<or> mouse_y s \<noteq> 0 \<or> buttons_changed s
      then (call_handler hnd base (base + 16) (fst (mouse_reg_3 s)) (relative_bytes s) s)
             \<lparr>mouse_x := 0, mouse_y := 0, old_mouse_button := mouse_button s\<rparr>
      else s)"

definition move_cursor :: "adb \<Rightarrow> adb" where
  "move_cursor s =
     (if mouse_x s \<noteq> old_mouse_x s \<or> mouse_y s \<noteq> old_mouse_y s
      then (let x = word_of_int (mouse_x s); y = word_of_int (mouse_y s);
                m = WriteMacInt16 0x82c y (WriteMacInt16 0x82e x (WriteMacInt16 0x828 y (WriteMacInt16 0x82a x (adb_mem s))))
            in s\<lparr>adb_mem := WriteMacInt8 0x8ce (ReadMacInt8 m 0x8cf) m, old_mouse_x := mouse_x s, old_mouse_y := mouse_y s\<rparr>)
      else s)"

definition absolute_step :: "adb_handler \<Rightarrow> u32 \<Rightarrow> adb \<Rightarrow> adb" where
  "absolute_step hnd base s0 =
     (let s = move_cursor s0
      in if mouse_button s ! 0 \<noteq> old_mouse_button s ! 0
         then (call_handler hnd base (base + 16) (fst (mouse_reg_3 s)) (absolute_bytes s) s)\<lparr>old_mouse_button := mouse_button s\<rparr>
         else s)"

definition pending_keys :: "adb \<Rightarrow> nat" where
  "pending_keys s = (key_write_ptr s + KEY_BUFFER_SIZE - key_read_ptr s) mod KEY_BUFFER_SIZE"

definition key_step :: "adb_handler \<Rightarrow> u32 \<Rightarrow> adb \<Rightarrow> adb" where
  "key_step hnd base s =
     (let code = key_buffer s ! key_read_ptr s
      in call_handler hnd base (base + 4) (fst (key_reg_3 s)) [code, if code = 0x7f then 0x7f else 0xff]
           (s\<lparr>key_read_ptr := (key_read_ptr s + 1) mod KEY_BUFFER_SIZE\<rparr>))"

text \<open>The loop over the key buffer; the distance of the pointers bounds it.\<close>

fun key_loop :: "nat \<Rightarrow> adb_handler \<Rightarrow> u32 \<Rightarrow> adb \<Rightarrow> adb" where
  "key_loop 0 hnd base s = s"
| "key_loop (Suc n) hnd base s =
     (if key_read_ptr s = key_write_ptr s then s else key_loop n hnd base (key_step hnd base s))"

definition ADBInterrupt :: "adb_handler \<Rightarrow> adb \<Rightarrow> adb" where
  "ADBInterrupt hnd s =
     (let base = ReadMacInt32 (adb_mem s) 0xcf8
      in if base = 0 \<or> base = 0xffffffff then s
         else (let s1 = (if relative_mouse s then relative_step hnd base s else absolute_step hnd base s);
                   s2 = key_loop KEY_BUFFER_SIZE hnd base s1;
                   tmp = base + 0x163
               in s2\<lparr>adb_mem := WriteMacInt32 (tmp + 4) 0 (WriteMacInt32 tmp 0 (adb_mem s2))\<rparr>))"

end
