(* ===== verification/ADB_Facts.thy ===== *)
theory ADB_Facts
  imports ADB Mac_Blocks
begin

section \<open>Facts about the Apple Desktop Bus\<close>

text \<open>
  The key buffer as a queue, the key matrix as a set, addresses of the devices, and what
  the data of a relative mouse means.
\<close>

definition adb_ok :: "adb \<Rightarrow> bool" where
  "adb_ok s \<longleftrightarrow> length (key_buffer s) = 16 \<and> length (key_states s) = 16 \<and> key_read_ptr s < 16 \<and> key_write_ptr s < 16"

type_synonym key_event = "nat \<times> bool"

definition key_event :: "key_event \<Rightarrow> adb \<Rightarrow> adb" where
  "key_event e s = (if snd e then ADBKeyDown (fst e) s else ADBKeyUp (fst e) s)"

definition event_code :: "key_event \<Rightarrow> u8" where
  "event_code e = (if snd e then of_nat (fst e) else of_nat (fst e) OR 0x80)"

definition key_bytes :: "u8 \<Rightarrow> u8 list" where
  "key_bytes code = [code, if code = 0x7f then 0x7f else 0xff]"

subsection \<open>The key buffer\<close>

text \<open>The keys that wait, oldest first.\<close>

definition waiting :: "adb \<Rightarrow> u8 list" where
  "waiting s = map (\<lambda>i. key_buffer s ! ((key_read_ptr s + i) mod 16)) [0..<pending_keys s]"

lemma key_event_buffer:
  assumes "adb_ok s"
  shows "key_buffer (key_event e s) = (key_buffer s)[key_write_ptr s := event_code e]"
    "key_write_ptr (key_event e s) = (key_write_ptr s + 1) mod 16" "key_read_ptr (key_event e s) = key_read_ptr s"
    "adb_ok (key_event e s)" "handled (key_event e s) = handled s" "adb_mem (key_event e s) = adb_mem s"
  using assms
  by (simp_all add: key_event_def event_code_def ADBKeyDown_def ADBKeyUp_def put_key_def adb_ok_def Let_def KEY_BUFFER_SIZE_def)

lemma pending_bound: "pending_keys s < 16"
  by (simp add: pending_keys_def KEY_BUFFER_SIZE_def)

lemma write_ptr:
  assumes "adb_ok s"
  shows "key_write_ptr s = (key_read_ptr s + pending_keys s) mod 16"
proof -
  have "(key_read_ptr s + (key_write_ptr s + 16 - key_read_ptr s)) mod 16 = key_write_ptr s"
    using assms by (simp add: adb_ok_def)
  then show ?thesis by (simp add: pending_keys_def KEY_BUFFER_SIZE_def mod_add_right_eq)
qed

lemma pending_eq:
  assumes "adb_ok s" "key_write_ptr s = (key_read_ptr s + n) mod 16"
  shows "pending_keys s = n mod 16"
proof -
  let ?r = "key_read_ptr s"
  have r: "?r < 16" using assms(1) by (simp add: adb_ok_def)
  have "pending_keys s = ((?r + n) mod 16 + (16 - ?r)) mod 16"
    using r by (simp add: pending_keys_def KEY_BUFFER_SIZE_def assms(2))
  also have "\<dots> = (?r + n + (16 - ?r)) mod 16" by (rule mod_add_left_eq)
  also have "?r + n + (16 - ?r) = n + 16" using r by simp
  finally show ?thesis by simp
qed

text \<open>A key is queued behind the others, but the sixteenth makes the queue look empty.\<close>

lemma waiting_event:
  assumes "adb_ok s"
  shows "waiting (key_event e s) = (if pending_keys s = 15 then [] else waiting s @ [event_code e])"
proof -
  let ?t = "key_event e s" and ?r = "key_read_ptr s" and ?n = "pending_keys s"
  note k = key_event_buffer [OF assms]
  have "key_write_ptr ?t = (key_read_ptr ?t + (?n + 1)) mod 16"
    using write_ptr [OF assms] k(2,3) by (simp add: mod_simps)
  then have p: "pending_keys ?t = (?n + 1) mod 16" by (rule pending_eq [OF k(4)])
  show ?thesis
  proof (cases "?n = 15")
    case True
    then show ?thesis using p by (simp add: waiting_def)
  next
    case False
    then have n: "?n < 15" using pending_bound [of s] by simp
    have w: "key_write_ptr s = (?r + ?n) mod 16" by (rule write_ptr [OF assms])
    have len: "length (key_buffer s) = 16" using assms by (simp add: adb_ok_def)
    have o: "(?r + i) mod 16 \<noteq> (?r + ?n) mod 16" if i: "i < ?n" for i
    proof
      assume "(?r + i) mod 16 = (?r + ?n) mod 16"
      then have "(?r + ?n - (?r + i)) mod 16 = 0" using i by (metis mod_eq_dvd_iff_nat add_le_cancel_left less_imp_le dvd_imp_mod_0)
      then show False using i n by simp
    qed
    have "waiting ?t = map (\<lambda>i. key_buffer ?t ! ((?r + i) mod 16)) [0..<?n] @ [key_buffer ?t ! ((?r + ?n) mod 16)]"
      using n p k(3) by (simp add: waiting_def)
    also have "map (\<lambda>i. key_buffer ?t ! ((?r + i) mod 16)) [0..<?n] = waiting s"
    proof -
      have "key_buffer ?t ! ((?r + i) mod 16) = key_buffer s ! ((?r + i) mod 16)" if "i < ?n" for i
        unfolding k(1) w using o [OF that] by (intro nth_list_update_neq) simp
      then show ?thesis by (simp add: waiting_def)
    qed
    also have "key_buffer ?t ! ((?r + ?n) mod 16) = event_code e" using w len k(1) by simp
    finally show ?thesis using False by simp
  qed
qed

lemma length_waiting [simp]: "length (waiting s) = pending_keys s"
  by (simp add: waiting_def)

lemma events_ok: "adb_ok s \<Longrightarrow> adb_ok (fold key_event es s) \<and> handled (fold key_event es s) = handled s \<and>
    adb_mem (fold key_event es s) = adb_mem s"
  by (induction es arbitrary: s) (simp_all add: key_event_buffer)

lemma events_reg: "key_reg_3 (fold key_event es s) = key_reg_3 s"
  by (induction es arbitrary: s) (simp_all add: key_event_def ADBKeyDown_def ADBKeyUp_def put_key_def Let_def)

lemma waiting_events:
  assumes "adb_ok s" "waiting s = []"
  shows "waiting (fold key_event es s) = map event_code (drop (length es div 16 * 16) es)"
  using assms
proof (induction es rule: rev_induct)
  case (snoc e es)
  let ?s = "fold key_event es s"
  have ok: "adb_ok ?s" using events_ok snoc.prems(1) by blast
  have w: "waiting ?s = map event_code (drop (length es div 16 * 16) es)" using snoc by simp
  have "pending_keys ?s = length (waiting ?s)" by simp
  also have "\<dots> = length es - length es div 16 * 16" by (simp only: w length_map length_drop)
  also have "\<dots> = length es mod 16" by (simp add: minus_div_mult_eq_mod)
  finally have p: "pending_keys ?s = length es mod 16" .
  define m where "m = length es div 16 * 16"
  have m: "m \<le> length es" by (simp add: m_def)
  have f: "waiting (fold key_event (es @ [e]) s) = (if length es mod 16 = 15 then [] else waiting ?s @ [event_code e])"
    using waiting_event [OF ok, of e] p by simp
  show ?case
  proof (cases "length es mod 16 = 15")
    case True
    define q where "q = length es div 16"
    have "length es = 16 * q + 15" using True unfolding q_def by (metis mult_div_mod_eq)
    then have "length (es @ [e]) = 16 * (q + 1)" by simp
    then have "length (es @ [e]) div 16 * 16 = length (es @ [e])" by simp
    then show ?thesis unfolding f using True by simp
  next
    case False
    then have "length (es @ [e]) div 16 = length es div 16" by (simp add: div_Suc mod_Suc)
    then have "length (es @ [e]) div 16 * 16 = m" by (simp only: m_def)
    then have "drop (length (es @ [e]) div 16 * 16) (es @ [e]) = drop m es @ [e]" using m by simp
    then show ?thesis unfolding f w using False by (simp add: m_def)
  qed
qed simp

subsection \<open>Delivery of keys\<close>

lemma call_handler_frame [simp]:
  "key_buffer (call_handler hnd b e r bs s) = key_buffer s" "key_read_ptr (call_handler hnd b e r bs s) = key_read_ptr s"
  "key_write_ptr (call_handler hnd b e r bs s) = key_write_ptr s" "key_states (call_handler hnd b e r bs s) = key_states s"
  "map call_bytes (handled (call_handler hnd b e r bs s)) = map call_bytes (handled s) @ [bs]"
  "key_reg_3 (call_handler hnd b e r bs s) = key_reg_3 s" "mouse_reg_3 (call_handler hnd b e r bs s) = mouse_reg_3 s"
  "mouse_button (call_handler hnd b e r bs s) = mouse_button s" "relative_mouse (call_handler hnd b e r bs s) = relative_mouse s"
  by (simp_all add: call_handler_def Let_def)

lemma key_step_facts:
  assumes "adb_ok s" "pending_keys s \<noteq> 0"
  shows "adb_ok (key_step hnd b s)" "waiting s = key_buffer s ! key_read_ptr s # waiting (key_step hnd b s)"
    "map call_bytes (handled (key_step hnd b s)) = map call_bytes (handled s) @ [key_bytes (key_buffer s ! key_read_ptr s)]"
    "key_write_ptr (key_step hnd b s) = key_write_ptr s"
proof -
  let ?t = "key_step hnd b s" and ?r = "key_read_ptr s" and ?n = "pending_keys s"
  have t: "key_read_ptr ?t = (?r + 1) mod 16" "key_write_ptr ?t = key_write_ptr s" "key_buffer ?t = key_buffer s"
    by (simp_all add: key_step_def Let_def KEY_BUFFER_SIZE_def)
  then show ok: "adb_ok ?t" using assms(1) by (simp add: adb_ok_def key_step_def Let_def)
  show "map call_bytes (handled ?t) = map call_bytes (handled s) @ [key_bytes (key_buffer s ! ?r)]"
    by (simp add: key_step_def Let_def key_bytes_def)
  show "key_write_ptr ?t = key_write_ptr s" by (rule t(2))
  obtain n where n: "?n = Suc n" using assms(2) by (cases ?n) auto
  have "(key_read_ptr ?t + n) mod 16 = (?r + 1 + n) mod 16" unfolding t(1) by (rule mod_add_left_eq)
  then have "key_write_ptr ?t = (key_read_ptr ?t + (?n - 1)) mod 16"
    using write_ptr [OF assms(1)] t(2) by (simp add: n)
  then have "pending_keys ?t = (?n - 1) mod 16" by (rule pending_eq [OF ok])
  then have p: "pending_keys ?t = ?n - 1" using pending_bound [of s] by simp
  have r: "?r mod 16 = ?r" using assms(1) by (simp add: adb_ok_def)
  have "waiting s = map (\<lambda>i. key_buffer s ! ((?r + i) mod 16)) (0 # map Suc [0..<?n - 1])"
    using assms(2) by (simp add: waiting_def upt_conv_Cons map_Suc_upt)
  also have "\<dots> = key_buffer s ! ?r # waiting ?t"
    using r t p by (simp add: waiting_def mod_simps)
  finally show "waiting s = key_buffer s ! ?r # waiting ?t" .
qed

lemma key_loop_delivers:
  assumes "adb_ok s" "pending_keys s \<le> n"
  shows "map call_bytes (handled (key_loop n hnd b s)) = map call_bytes (handled s) @ map key_bytes (waiting s) \<and>
         pending_keys (key_loop n hnd b s) = 0 \<and> adb_ok (key_loop n hnd b s)"
  using assms
proof (induction n arbitrary: s)
  case 0
  then show ?case by (simp add: waiting_def)
next
  case (Suc n)
  show ?case
  proof (cases "key_read_ptr s = key_write_ptr s")
    case True
    then have "pending_keys s = 0" using Suc.prems(1) by (simp add: pending_keys_def adb_ok_def KEY_BUFFER_SIZE_def)
    then show ?thesis using True Suc.prems(1) by (simp add: waiting_def)
  next
    case False
    have p: "pending_keys s \<noteq> 0"
    proof
      assume "pending_keys s = 0"
      then have "key_write_ptr s = key_read_ptr s" using write_ptr [OF Suc.prems(1)] Suc.prems(1) by (simp add: adb_ok_def)
      then show False using False by simp
    qed
    note k = key_step_facts [OF Suc.prems(1) p, of hnd b]
    have "pending_keys (key_step hnd b s) \<le> n" using k(2) Suc.prems(2) length_waiting by (metis length_Cons Suc_le_mono)
    then show ?thesis using Suc.IH [OF k(1)] k(2,3) False by simp
  qed
qed

lemma key_loop_mouse:
  "mouse_x (key_loop n hnd b s) = mouse_x s" "mouse_y (key_loop n hnd b s) = mouse_y s"
  by (induction n arbitrary: s) (simp_all add: key_step_def call_handler_def Let_def)

lemma mouse_step_keys:
  assumes "s1 = (if relative_mouse s then relative_step hnd b s else absolute_step hnd b s)"
  shows "waiting s1 = waiting s" "pending_keys s1 = pending_keys s" "adb_ok s1 = adb_ok s"
    "\<exists>ms. map call_bytes (handled s1) = map call_bytes (handled s) @ ms \<and> length ms \<le> 1"
proof -
  have f: "key_buffer s1 = key_buffer s" "key_read_ptr s1 = key_read_ptr s" "key_write_ptr s1 = key_write_ptr s"
      "key_states s1 = key_states s"
    by (simp_all add: assms relative_step_def absolute_step_def move_cursor_def Let_def)
  then show "pending_keys s1 = pending_keys s" "adb_ok s1 = adb_ok s" by (simp_all add: pending_keys_def adb_ok_def)
  then show "waiting s1 = waiting s" using f by (simp add: waiting_def)
  have m: "handled (move_cursor s) = handled s" by (simp add: move_cursor_def Let_def)
  show "\<exists>ms. map call_bytes (handled s1) = map call_bytes (handled s) @ ms \<and> length ms \<le> 1"
    by (auto simp: assms relative_step_def absolute_step_def Let_def m)
qed

lemma ADBInterrupt_keys:
  assumes "adb_ok s" "ReadMacInt32 (adb_mem s) 0xcf8 \<noteq> 0" "ReadMacInt32 (adb_mem s) 0xcf8 \<noteq> 0xffffffff"
  shows "\<exists>ms. map call_bytes (handled (ADBInterrupt hnd s)) =
           map call_bytes (handled s) @ ms @ map key_bytes (waiting s) \<and> length ms \<le> 1"
    and "waiting (ADBInterrupt hnd s) = []"
proof -
  define b where "b = ReadMacInt32 (adb_mem s) 0xcf8"
  define s1 where "s1 = (if relative_mouse s then relative_step hnd b s else absolute_step hnd b s)"
  define s2 where "s2 = key_loop KEY_BUFFER_SIZE hnd b s1"
  note m = mouse_step_keys [OF s1_def]
  have ok: "adb_ok s1" using m(3) assms(1) by simp
  have "pending_keys s1 \<le> KEY_BUFFER_SIZE" using pending_bound [of s1] by (simp add: KEY_BUFFER_SIZE_def)
  note k = key_loop_delivers [OF ok this, of hnd b, folded s2_def]
  have e: "ADBInterrupt hnd s = s2\<lparr>adb_mem := WriteMacInt32 (b + 0x163 + 4) 0 (WriteMacInt32 (b + 0x163) 0 (adb_mem s2))\<rparr>"
    using assms(2,3) by (simp add: ADBInterrupt_def Let_def b_def [symmetric] s1_def [symmetric] s2_def [symmetric])
  show "\<exists>ms. map call_bytes (handled (ADBInterrupt hnd s)) =
           map call_bytes (handled s) @ ms @ map key_bytes (waiting s) \<and> length ms \<le> 1"
    using m k by (auto simp: e)
  have "pending_keys (ADBInterrupt hnd s) = 0" using k by (simp add: e pending_keys_def)
  then show "waiting (ADBInterrupt hnd s) = []" by (simp add: waiting_def)
qed

subsection \<open>The handler that is called\<close>

text \<open>
  The guest's table of devices at the ADB base: two longs for the keyboard at 4, two for the mouse at 16. The
  interrupt itself does not write there; a handler that leaves it alone is called again with the same entry.
\<close>

definition same_table :: "u32 \<Rightarrow> mac \<Rightarrow> mac \<Rightarrow> bool" where
  "same_table base m n \<longleftrightarrow> regions n = regions m \<and> rom_base n = rom_base m \<and> rom_size n = rom_size m \<and>
     (\<forall>k < 24. ram n (base + of_nat k) = ram m (base + of_nat k))"

definition keeps_table :: "u32 \<Rightarrow> adb_handler \<Rightarrow> bool" where
  "keeps_table base hnd \<longleftrightarrow> (\<forall>c m. same_table base m (hnd c m))"

definition adb_table :: "u32 \<Rightarrow> mac \<Rightarrow> bool" where
  "adb_table base m \<longleftrightarrow> 0x1000 \<le> base \<and> unat base < 0xfffff000 \<and> plain_block m base 24"

definition key_call :: "mac \<Rightarrow> u32 \<Rightarrow> u8 \<times> u8 \<Rightarrow> u8 \<Rightarrow> adb_call" where
  "key_call m base reg code = \<lparr>call_code = ReadMacInt32 m (base + 4), call_store = ReadMacInt32 m (base + 8), call_base = base,
     call_bytes = key_bytes code, call_d0 = push_bit 4 (ucast (fst reg)) OR 0x0c\<rparr>"

lemma same_table_refl: "same_table base m m"
  by (simp add: same_table_def)

lemma same_table_trans: "same_table base m n \<Longrightarrow> same_table base n k \<Longrightarrow> same_table base m k"
  by (simp add: same_table_def)

lemma ram_untouched:
  "x \<noteq> a \<Longrightarrow> ram (WriteMacInt8 a v m) x = ram m x"
  "x \<noteq> a \<Longrightarrow> x \<noteq> a + 1 \<Longrightarrow> ram (WriteMacInt16 a v m) x = ram m x"
  by (simp_all add: WriteMacInt8_def WriteMacInt16_def)

lemma put_bytes_sel: "regions (put_bytes a bs m) = regions m" "rom_base (put_bytes a bs m) = rom_base m" "rom_size (put_bytes a bs m) = rom_size m"
  by (induction bs arbitrary: a m) simp_all

lemma ram_put_bytes: "(\<And>i. i < length bs \<Longrightarrow> x \<noteq> a + of_nat i) \<Longrightarrow> ram (put_bytes a bs m) x = ram m x"
proof (induction bs arbitrary: a m)
  case (Cons b bs)
  have "x \<noteq> a" using Cons.prems [of 0] by simp
  moreover have "x \<noteq> a + 1 + of_nat i" if "i < length bs" for i using Cons.prems [of "Suc i"] that by (simp add: ac_simps)
  ultimately show ?case using Cons.IH [of "a + 1"] by (simp add: ram_untouched)
qed simp

lemma table_put_bytes:
  assumes "length bs \<le> 8"
  shows "same_table base m (put_bytes (base + 0x163) bs m)"
proof -
  have "base + of_nat k \<noteq> base + 0x163 + of_nat i" if "k < 24" "i < length bs" for k i
  proof -
    have "(of_nat k :: u32) \<noteq> of_nat (355 + i)"
      using that assms by (simp add: word_of_nat_eq_iff take_bit_nat_eq_self del: of_nat_add)
    then show ?thesis by (simp add: add.assoc)
  qed
  then show ?thesis by (simp add: same_table_def put_bytes_sel ram_put_bytes)
qed

lemma table_low:
  assumes "adb_table base m" "k < 24" "unat a < 0x1000"
  shows "base + of_nat k \<noteq> a"
proof
  assume "base + of_nat k = a"
  moreover have "unat (base + of_nat k) = unat base + k" "0x1000 \<le> unat base" using assms(1,2)
    by (simp_all add: adb_table_def unat_word_ariths unsigned_of_nat take_bit_nat_eq_self word_le_nat_alt)
  ultimately show False using assms(3) by simp
qed

lemma same_table_plain: "same_table base m n \<Longrightarrow> plain n a = plain m a"
  using routing_cong(2) [of n m a] by (simp add: same_table_def plain_def rom_protected_def)

lemma same_table_adb: "same_table base m n \<Longrightarrow> adb_table base n = adb_table base m"
  using same_table_plain [of base m n] by (simp add: adb_table_def plain_block_def)

lemma same_table_read:
  assumes "same_table base m n" "adb_table base m" "k \<le> 20"
  shows "ReadMacInt32 n (base + of_nat k) = ReadMacInt32 m (base + of_nat k)"
proof -
  have "plain m (base + of_nat k)" using assms(2,3) by (simp add: adb_table_def plain_blockD [of m base 24])
  moreover have "ram n (base + of_nat k + of_nat i) = ram m (base + of_nat k + of_nat i)" if "i < 4" for i
  proof -
    have "k + i < 24" using assms(3) that by simp
    then have "ram n (base + of_nat (k + i)) = ram m (base + of_nat (k + i))" using assms(1) unfolding same_table_def by blast
    then show ?thesis by (simp add: add.assoc)
  qed
  from this [of 0] this [of 1] this [of 2] this [of 3]
  have "ram n (base + of_nat k) = ram m (base + of_nat k)" "ram n (base + of_nat k + 1) = ram m (base + of_nat k + 1)"
    "ram n (base + of_nat k + 2) = ram m (base + of_nat k + 2)" "ram n (base + of_nat k + 3) = ram m (base + of_nat k + 3)" by simp_all
  ultimately show ?thesis using same_table_plain [OF assms(1)] by (simp add: ReadMacInt32_plain)
qed

lemma table_call:
  assumes "keeps_table base hnd" "adb_table base (adb_mem s)" "length bs \<le> 7"
  shows "same_table base (adb_mem s) (adb_mem (call_handler hnd base (base + of_nat k) reg bs s))"
    "k \<le> 16 \<Longrightarrow> handled (call_handler hnd base (base + of_nat k) reg bs s) = handled s @
      [\<lparr>call_code = ReadMacInt32 (adb_mem s) (base + of_nat k), call_store = ReadMacInt32 (adb_mem s) (base + of_nat (k + 4)), call_base = base,
        call_bytes = bs, call_d0 = push_bit 4 (ucast reg) OR 0x0c\<rparr>]"
proof -
  let ?m = "put_bytes (base + 0x163) (of_nat (length bs) # bs) (adb_mem s)"
  have t: "same_table base (adb_mem s) ?m" by (rule table_put_bytes) (use assms(3) in simp)
  have e: "base + of_nat k + 4 = base + of_nat (k + 4)" by simp
  show "same_table base (adb_mem s) (adb_mem (call_handler hnd base (base + of_nat k) reg bs s))"
  proof -
    have "\<exists>c. adb_mem (call_handler hnd base (base + of_nat k) reg bs s) = hnd c ?m"
      unfolding call_handler_def Let_def by (intro exI) (simp del: put_bytes.simps)
    then obtain c where "adb_mem (call_handler hnd base (base + of_nat k) reg bs s) = hnd c ?m" ..
    then show ?thesis using same_table_trans [OF t, of "hnd c ?m"] assms(1) unfolding keeps_table_def by simp
  qed
  show "handled (call_handler hnd base (base + of_nat k) reg bs s) = handled s @
      [\<lparr>call_code = ReadMacInt32 (adb_mem s) (base + of_nat k), call_store = ReadMacInt32 (adb_mem s) (base + of_nat (k + 4)), call_base = base,
        call_bytes = bs, call_d0 = push_bit 4 (ucast reg) OR 0x0c\<rparr>]" if "k \<le> 16"
    unfolding call_handler_def Let_def e using same_table_read [OF t assms(2)] that by (simp del: put_bytes.simps of_nat_add)
qed

lemma key_step_call:
  assumes "keeps_table base hnd" "adb_table base (adb_mem s)"
  shows "same_table base (adb_mem s) (adb_mem (key_step hnd base s))" "key_reg_3 (key_step hnd base s) = key_reg_3 s"
    "handled (key_step hnd base s) = handled s @ [key_call (adb_mem s) base (key_reg_3 s) (key_buffer s ! key_read_ptr s)]"
proof -
  let ?s = "s\<lparr>key_read_ptr := (key_read_ptr s + 1) mod KEY_BUFFER_SIZE\<rparr>"
  have t: "adb_table base (adb_mem ?s)" using assms(2) by simp
  note c = table_call [OF assms(1) t, of "[c, if c = 0x7f then 0x7f else 0xff]" 4 r for c r]
  show "same_table base (adb_mem s) (adb_mem (key_step hnd base s))" "key_reg_3 (key_step hnd base s) = key_reg_3 s"
    "handled (key_step hnd base s) = handled s @ [key_call (adb_mem s) base (key_reg_3 s) (key_buffer s ! key_read_ptr s)]"
    using c by (simp_all add: key_step_def Let_def key_call_def key_bytes_def)
qed

lemma key_call_cong: "same_table base m n \<Longrightarrow> adb_table base m \<Longrightarrow> key_call n base reg = key_call m base reg"
  using same_table_read [of base m n 4] same_table_read [of base m n 8] by (simp add: key_call_def fun_eq_iff)

lemma key_loop_calls:
  assumes "adb_ok s" "pending_keys s \<le> n" "keeps_table base hnd" "adb_table base (adb_mem s)"
  shows "handled (key_loop n hnd base s) = handled s @ map (key_call (adb_mem s) base (key_reg_3 s)) (waiting s)"
  using assms(1,2,4)
proof (induction n arbitrary: s)
  case 0
  then show ?case by (simp add: waiting_def)
next
  case (Suc n)
  show ?case
  proof (cases "pending_keys s = 0")
    case True
    then have "key_write_ptr s = key_read_ptr s" using write_ptr [OF Suc.prems(1)] Suc.prems(1) by (simp add: adb_ok_def)
    then show ?thesis using True by (simp add: waiting_def)
  next
    case False
    then have ne: "key_read_ptr s \<noteq> key_write_ptr s" using Suc.prems(1) by (auto simp: pending_keys_def adb_ok_def KEY_BUFFER_SIZE_def)
    note k = key_step_facts [OF Suc.prems(1) False, of hnd base] and c = key_step_call [OF assms(3) Suc.prems(3)]
    have p: "pending_keys (key_step hnd base s) \<le> n" using k(2) Suc.prems(2) length_waiting by (metis length_Cons Suc_le_mono)
    have t: "adb_table base (adb_mem (key_step hnd base s))" using same_table_adb [OF c(1)] Suc.prems(3) by simp
    show ?thesis using Suc.IH [OF k(1) p t] c(2,3) k(2) key_call_cong [OF c(1) Suc.prems(3)] ne by simp
  qed
qed

definition mouse_call :: "mac \<Rightarrow> u32 \<Rightarrow> adb_call \<Rightarrow> bool" where
  "mouse_call m base c \<longleftrightarrow> call_code c = ReadMacInt32 m (base + 16) \<and> call_store c = ReadMacInt32 m (base + 20) \<and> call_base c = base"

lemma mouse_step_calls:
  assumes "s1 = (if relative_mouse s then relative_step hnd base s else absolute_step hnd base s)"
    and "keeps_table base hnd" "adb_table base (adb_mem s)"
  shows "same_table base (adb_mem s) (adb_mem s1)" "key_reg_3 s1 = key_reg_3 s"
    "\<exists>ms. handled s1 = handled s @ ms \<and> length ms \<le> 1 \<and> list_all (mouse_call (adb_mem s) base) ms"
proof -
  have cm: "same_table base (adb_mem s) (adb_mem (move_cursor s))"
    using table_low [OF assms(3)] by (simp add: move_cursor_def Let_def same_table_def ram_untouched)
  have m: "handled (move_cursor s) = handled s" "key_reg_3 (move_cursor s) = key_reg_3 s" by (simp_all add: move_cursor_def Let_def)
  have b: "length (relative_bytes s) \<le> 7" "length (absolute_bytes (move_cursor s)) \<le> 7"
    by (simp_all add: relative_bytes_def absolute_bytes_def Let_def)
  have t: "adb_table base (adb_mem (move_cursor s))" using same_table_adb [OF cm] assms(3) by simp
  have r: "ReadMacInt32 (adb_mem (move_cursor s)) (base + 16) = ReadMacInt32 (adb_mem s) (base + 16)"
    "ReadMacInt32 (adb_mem (move_cursor s)) (base + 20) = ReadMacInt32 (adb_mem s) (base + 20)"
    using same_table_read [OF cm assms(3), of 16] same_table_read [OF cm assms(3), of 20] by simp_all
  note rel = table_call [OF assms(2,3) b(1), of 16] and abs = table_call [OF assms(2) t b(2), of 16]
  show "same_table base (adb_mem s) (adb_mem s1)"
    using rel(1) abs(1) same_table_trans [OF cm] cm same_table_refl by (simp add: assms(1) relative_step_def absolute_step_def Let_def)
  show "key_reg_3 s1 = key_reg_3 s" using m by (simp add: assms(1) relative_step_def absolute_step_def Let_def)
  show "\<exists>ms. handled s1 = handled s @ ms \<and> length ms \<le> 1 \<and> list_all (mouse_call (adb_mem s) base) ms"
    using rel(2) abs(2) m r by (simp add: assms(1) relative_step_def absolute_step_def Let_def mouse_call_def)
qed

lemma ADBInterrupt_calls:
  assumes "adb_ok s" "base = ReadMacInt32 (adb_mem s) 0xcf8" "keeps_table base hnd" "adb_table base (adb_mem s)" "base \<noteq> 0xffffffff"
  shows "\<exists>ms. handled (ADBInterrupt hnd s) = handled s @ ms @ map (key_call (adb_mem s) base (key_reg_3 s)) (waiting s) \<and>
    length ms \<le> 1 \<and> list_all (mouse_call (adb_mem s) base) ms"
proof -
  define s1 where "s1 = (if relative_mouse s then relative_step hnd base s else absolute_step hnd base s)"
  define s2 where "s2 = key_loop KEY_BUFFER_SIZE hnd base s1"
  note m = mouse_step_keys [OF s1_def] and c = mouse_step_calls [OF s1_def assms(3,4)]
  have ok: "adb_ok s1" using m(3) assms(1) by simp
  have p: "pending_keys s1 \<le> KEY_BUFFER_SIZE" using pending_bound [of s1] by (simp add: KEY_BUFFER_SIZE_def)
  have t: "adb_table base (adb_mem s1)" using same_table_adb [OF c(1)] assms(4) by simp
  have n: "base \<noteq> 0" using assms(4) by (auto simp: adb_table_def)
  have e: "handled (ADBInterrupt hnd s) = handled s2"
    using assms(5) n by (simp add: ADBInterrupt_def Let_def assms(2) [symmetric] s1_def [symmetric] s2_def [symmetric])
  show ?thesis
    using key_loop_calls [OF ok p assms(3) t, folded s2_def] c(2,3) m(1) key_call_cong [OF c(1) assms(4)] by (auto simp: e)
qed

subsection \<open>The key matrix\<close>

fun last_event :: "nat \<Rightarrow> bool \<Rightarrow> key_event list \<Rightarrow> bool" where
  "last_event c b [] = b"
| "last_event c b (e # es) = last_event c (if fst e = c then snd e else b) es"

lemma key_bit_simps: "bit (key_bit c) n \<longleftrightarrow> n = 7 - c mod 8"
  by (auto simp: key_bit_def bit_simps)

lemma and_key_bit: "(w AND key_bit c \<noteq> 0) = bit w (7 - c mod 8)"
proof -
  have "bit (w AND key_bit c) n \<longleftrightarrow> n = 7 - c mod 8 \<and> bit w (7 - c mod 8)" for n
    by (auto simp: bit_simps key_bit_simps)
  then show ?thesis by (auto simp: bit_eq_iff [of "w AND key_bit c" 0])
qed

lemma MATRIX_event:
  assumes "adb_ok s" "fst e < 128" "c < 128"
  shows "MATRIX c (key_event e s) = (if fst e = c then snd e else MATRIX c s)"
proof -
  obtain k d where e: "e = (k, d)" by (cases e)
  have "k = c" if "k div 8 = c div 8" "7 - k mod 8 = 7 - c mod 8"
  proof -
    have "k mod 8 < 8" "c mod 8 < 8" by simp_all
    then have "k mod 8 = c mod 8" using that(2) by linarith
    then show ?thesis using that(1) by (metis div_mult_mod_eq)
  qed
  then show ?thesis using assms e
    by (auto simp: MATRIX_def and_key_bit key_event_def ADBKeyDown_def ADBKeyUp_def put_key_def Let_def adb_ok_def
        nth_list_update bit_simps key_bit_simps)
qed

lemma MATRIX_events:
  assumes "adb_ok s" "\<forall>e \<in> set es. fst e < 128" "c < 128"
  shows "MATRIX c (fold key_event es s) = last_event c (MATRIX c s) es"
  using assms by (induction es arbitrary: s) (simp_all add: key_event_buffer MATRIX_event)

lemma events_regs:
  "mouse_reg_3 (fold key_event es s) = mouse_reg_3 s" "key_reg_3 (fold key_event es s) = key_reg_3 s"
  "key_reg_2 (fold key_event es s) = key_reg_2 s"
  by (induction es arbitrary: s) (simp_all add: key_event_def ADBKeyDown_def ADBKeyUp_def put_key_def Let_def)

lemma bit_clear_if: "bit (clear_if b m x) n \<longleftrightarrow> bit x n \<and> \<not> (b \<and> bit m n)"
  by (cases "n < 8") (auto simp: clear_if_def bit_simps dest: bit_imp_le_length)

subsection \<open>Addresses\<close>

text \<open>The operation byte for an address, a command (2 Listen, 3 Talk) and a register.\<close>

definition adb_op :: "u8 \<Rightarrow> u8 \<Rightarrow> u8 \<Rightarrow> u8" where
  "adb_op adr cmd reg = push_bit 4 adr OR (push_bit 2 cmd OR reg)"

lemma below_16: "(a :: u8) AND 0x0f = a \<Longrightarrow> bit a n \<Longrightarrow> n < 4"
proof -
  assume "a AND 0x0f = a" "bit a n"
  then have "bit (a AND mask 4) n" by (simp add: mask_eq_exp_minus_1)
  then show "n < 4" by (simp add: bit_simps)
qed

lemma adb_op_fields:
  assumes "adr AND 0x0f = adr"
  shows "drop_bit 4 (adb_op adr 3 3) = adr" "drop_bit 2 (adb_op adr 3 3) AND 3 = 3" "adb_op adr 3 3 AND 3 = 3"
    "adb_op adr 3 3 AND 0x0f \<noteq> 0"
proof -
  have op: "adb_op adr 3 3 = push_bit 4 adr OR mask 4" by (simp add: adb_op_def mask_eq_exp_minus_1)
  have m: "(3 :: u8) = mask 2" "(0x0f :: u8) = mask 4" by (simp_all add: mask_eq_exp_minus_1)
  show "drop_bit 4 (adb_op adr 3 3) = adr"
    unfolding op by (rule bit_word_eqI) (use below_16 [OF assms] in \<open>auto simp: bit_simps\<close>)
  have "drop_bit 2 (push_bit 4 adr OR mask 4) AND mask 2 = mask 2" "(push_bit 4 adr OR mask 4) AND mask 2 = mask 2"
    by (rule bit_word_eqI, auto simp: bit_simps)+
  then show "drop_bit 2 (adb_op adr 3 3) AND 3 = 3" "adb_op adr 3 3 AND 3 = 3"
    unfolding op [symmetric] m(1) [symmetric] .
  have "adb_op adr 3 3 AND 0x0f = mask 4"
    unfolding op m(2) by (rule bit_word_eqI) (auto simp: bit_simps)
  then show "adb_op adr 3 3 AND 0x0f \<noteq> 0" by (simp add: mask_eq_exp_minus_1)
qed

lemma talk_3:
  assumes "adr AND 0x0f = adr"
  shows "fst (ADBOp rnd (adb_op adr 3 3) d s) 0 =
     (if adr = fst (mouse_reg_3 s) AND 0x0f \<or> adr = fst (key_reg_3 s) AND 0x0f then 2 else 0)"
  using adb_op_fields [OF assms]
  by (simp add: ADBOp_def Let_def answer_def mouse_talk_def key_talk_def reg_3_answer_def)

lemma new_address: "((hi AND 0xf0) OR (a AND 0x0f)) AND (0x0f :: u8) = a AND 0x0f"
proof -
  have "((hi AND push_bit 4 (mask 4)) OR (a AND mask 4)) AND (mask 4 :: u8) = a AND mask 4"
    by (rule bit_word_eqI) (auto simp: bit_simps)
  then show ?thesis by (simp add: mask_eq_exp_minus_1)
qed

subsection \<open>Relative movement\<close>

text \<open>How an ADB handler reads the data: 7-bit deltas, or 10-bit deltas in the extended protocol.\<close>

definition delta7 :: "u8 \<Rightarrow> int" where
  "delta7 b = sint (ucast b :: 7 word)"

definition delta10 :: "u8 \<Rightarrow> u8 \<Rightarrow> int" where
  "delta10 lo hi = sint (ucast (lo AND 0x7f) OR push_bit 7 (ucast (hi AND 0x07)) :: 10 word)"

lemma bit_bytes:
  "bit (0x80 :: int) n \<longleftrightarrow> n = 7" "bit (0x08 :: int) n \<longleftrightarrow> n = 3" "bit (0x88 :: int) n \<longleftrightarrow> n = 3 \<or> n = 7"
  "bit (0x7f :: int) n \<longleftrightarrow> n < 7" "bit (0x70 :: int) n \<longleftrightarrow> 4 \<le> n \<and> n < 7" "bit (0x07 :: int) n \<longleftrightarrow> n < 3"
proof -
  have e: "(0x80 :: int) = push_bit 7 (mask 1)" "(0x08 :: int) = push_bit 3 (mask 1)"
      "(0x88 :: int) = push_bit 3 (mask 1) OR push_bit 7 (mask 1)"
      "(0x7f :: int) = mask 7" "(0x70 :: int) = push_bit 4 (mask 3)" "(0x07 :: int) = mask 3"
    by (simp_all add: mask_eq_exp_minus_1)
  show "bit (0x80 :: int) n \<longleftrightarrow> n = 7" "bit (0x08 :: int) n \<longleftrightarrow> n = 3" "bit (0x88 :: int) n \<longleftrightarrow> n = 3 \<or> n = 7"
    "bit (0x7f :: int) n \<longleftrightarrow> n < 7" "bit (0x70 :: int) n \<longleftrightarrow> 4 \<le> n \<and> n < 7" "bit (0x07 :: int) n \<longleftrightarrow> n < 3"
    unfolding e bit_or_iff bit_push_bit_iff bit_mask_iff by auto
qed

lemma bit_div: "bit (k div 8 :: int) n \<longleftrightarrow> bit k (n + 3)" "bit (k div 128 :: int) n \<longleftrightarrow> bit k (n + 7)"
proof -
  have "bit (drop_bit 3 k) n \<longleftrightarrow> bit k (n + 3)" "bit (drop_bit 7 k) n \<longleftrightarrow> bit k (n + 7)"
    by (simp_all add: bit_drop_bit_eq comp_def add.commute)
  then show "bit (k div 8 :: int) n \<longleftrightarrow> bit k (n + 3)" "bit (k div 128 :: int) n \<longleftrightarrow> bit k (n + 7)"
    by (simp_all add: drop_bit_eq_div)
qed

lemma up_bit_simps: "bit (up_bit d) n \<longleftrightarrow> n = 7 \<and> \<not> d"
  by (auto simp: up_bit_def bit_bytes)

lemmas delta_bits = bit_simps bit_bytes bit_div up_bit_simps

lemma delta7_byte:
  assumes "- 64 \<le> k" "k < 64"
  shows "delta7 ((word_of_int k AND 0x7f) OR up_bit d) = k"
proof -
  have "ucast ((word_of_int k AND 0x7f) OR up_bit d :: u8) = (word_of_int k :: 7 word)"
    by (rule bit_word_eqI) (auto simp: delta_bits)
  then show ?thesis using assms
    by (simp add: delta7_def sint_sbintrunc' signed_take_bit_int_eq_self)
qed

lemma delta10_bytes:
  assumes "- 512 \<le> k" "k < 512" "hi AND 0x07 = word_of_int (k div 128) AND 0x07"
  shows "delta10 ((word_of_int k AND 0x7f) OR up_bit d) hi = k"
proof -
  have lo: "((word_of_int k AND 0x7f) OR up_bit d) AND 0x7f = (word_of_int k AND 0x7f :: u8)"
    by (rule bit_word_eqI) (auto simp: delta_bits)
  have "ucast (word_of_int k AND 0x7f :: u8) OR push_bit 7 (ucast (word_of_int (k div 128) AND 0x07 :: u8)) = (word_of_int k :: 10 word)"
    by (rule bit_word_eqI) (auto simp: delta_bits)
  then show ?thesis using assms(1,2) unfolding delta10_def lo assms(3)
    by (simp add: sint_sbintrunc' signed_take_bit_int_eq_self)
qed

lemma third_byte:
  "(((word_of_int (y div 8) AND 0x70) OR (word_of_int x AND 0x07)) OR (if d then 0x08 else 0x88)) AND 0x07 =
     (word_of_int x AND 0x07 :: u8)"
  "drop_bit 4 (((word_of_int (y div 8) AND 0x70) OR (word_of_int x AND 0x07)) OR (if d then 0x08 else 0x88)) AND 0x07 =
     (word_of_int (y div 128) AND 0x07 :: u8)"
proof -
  have "(((word_of_int (y div 8) AND 0x70) OR (word_of_int x AND 0x07)) OR b) AND 0x07 = (word_of_int x AND 0x07 :: u8) \<and>
     drop_bit 4 (((word_of_int (y div 8) AND 0x70) OR (word_of_int x AND 0x07)) OR b) AND 0x07 = (word_of_int (y div 128) AND 0x07 :: u8)"
    if "b = 0x08 \<or> b = 0x88" for b :: u8
    using that by (elim disjE; hypsubst; intro conjI bit_word_eqI) (auto simp: delta_bits add.commute)
  then show "(((word_of_int (y div 8) AND 0x70) OR (word_of_int x AND 0x07)) OR (if d then 0x08 else 0x88)) AND 0x07 =
     (word_of_int x AND 0x07 :: u8)"
    "drop_bit 4 (((word_of_int (y div 8) AND 0x70) OR (word_of_int x AND 0x07)) OR (if d then 0x08 else 0x88)) AND 0x07 =
     (word_of_int (y div 128) AND 0x07 :: u8)" by simp_all
qed

end
