(* ===== verification/ADB_Properties.thy ===== *)
theory ADB_Properties
  imports ADB_Facts
begin

section \<open>Properties of the Apple Desktop Bus\<close>

text \<open>
  Keys arrive in order and once, the modifier register shows the keys held down, devices
  answer at the address they were moved to, and relative movements arrive undistorted
  within the range of the protocol.
\<close>

text \<open>
  C32. With no key waiting and the guest's ADB initialised, the interrupt after any series of key
  events calls the keyboard handler (the code and data area of the guest's table at 4 behind the ADB base, the keyboard's address in the command byte) with the codes of the events, each once and in order, after at
  most one call of the mouse handler (the entry at 16), and leaves no key waiting; but only of the events
  since the last multiple of 16: the sixteenth event since the buffer was empty drops all that wait. The table lies in plain memory above
  the low 4 KB, and the handlers leave it alone.\<close>
theorem keys_delivered_in_order:
  assumes "adb_ok s" "waiting s = []" "base = ReadMacInt32 (adb_mem s) 0xcf8" "adb_table base (adb_mem s)" "keeps_table base hnd"
  shows "\<exists>ms. handled (ADBInterrupt hnd (fold key_event es s)) =
            handled s @ ms @
            map (\<lambda>e. \<lparr>call_code = ReadMacInt32 (adb_mem s) (base + 4), call_store = ReadMacInt32 (adb_mem s) (base + 8), call_base = base,
                  call_bytes = key_bytes (event_code e), call_d0 = push_bit 4 (ucast (fst (key_reg_3 s))) OR 0x0c\<rparr>)
              (drop (length es div 16 * 16) es) \<and>
            length ms \<le> 1 \<and> list_all (mouse_call (adb_mem s) base) ms \<and> waiting (ADBInterrupt hnd (fold key_event es s)) = []"
proof -
  have e: "adb_ok (fold key_event es s)" "handled (fold key_event es s) = handled s" "adb_mem (fold key_event es s) = adb_mem s"
    using events_ok [OF assms(1)] by blast+
  have w: "waiting (fold key_event es s) = map event_code (drop (length es div 16 * 16) es)"
    by (rule waiting_events [OF assms(1,2)])
  have k: "key_reg_3 (fold key_event es s) = key_reg_3 s" by (rule events_reg)
  have b: "base \<noteq> 0" "base \<noteq> 0xffffffff" using assms(4) by (auto simp: adb_table_def)
  have "base = ReadMacInt32 (adb_mem (fold key_event es s)) 0xcf8" "adb_table base (adb_mem (fold key_event es s))" using assms(3,4) e(3) by simp_all
  from ADBInterrupt_calls [OF e(1) this(1) assms(5) this(2) b(2)] ADBInterrupt_keys(2) [OF e(1), of hnd] b
  show ?thesis unfolding e w k by (simp add: assms(3) [symmetric] key_call_def comp_def)
qed

definition adb_board :: mac where
  "adb_board = \<lparr>ram = (\<lambda>a. 0)(0xcfa := 0x10), rom_base = 0x40800000, rom_size = 0x100000, regions = [], mmio_log = []\<rparr>"

lemma adb_board_base: "ReadMacInt32 adb_board 0xcf8 = 0x1000"
proof -
  have "plain adb_board 0xcf8"
    by (simp add: plain_def is_mmio_addr_def FindMMIORegion_def adb_board_def rom_protected_def)
  then show ?thesis by (simp add: ReadMacInt32_plain) (simp add: adb_board_def of_be32_def)
qed

lemma adb_start_ok: "adb_ok (adb_start m)" "waiting (adb_start m) = []" "adb_mem (adb_start m) = m"
  by (simp_all add: adb_ok_def adb_start_def waiting_def pending_keys_def KEY_BUFFER_SIZE_def)

theorem keys_delivered_in_order_witness:
  "\<exists>ms. handled (ADBInterrupt (\<lambda>c m. m) (fold key_event [(5, True), (5, False)] (adb_start adb_board))) =
     ms @ map (\<lambda>b. \<lparr>call_code = 0, call_store = 0, call_base = 0x1000, call_bytes = [b, 0xff], call_d0 = 0x62c\<rparr>) [5, 0x85] \<and> length ms \<le> 1"
proof -
  have h: "handled (adb_start adb_board) = []" "fst (key_reg_3 (adb_start adb_board)) = 0x62" by (simp_all add: adb_start_def)
  have pl: "plain_block adb_board 0x1000 24" by (rule plain_bare) (simp_all add: adb_board_def)
  have r: "ReadMacInt32 adb_board 4100 = 0" "ReadMacInt32 adb_board 4104 = 0" by code_simp+
  have t: "adb_table 0x1000 (adb_mem (adb_start adb_board))" "keeps_table 0x1000 (\<lambda>c m. m)"
    using pl by (simp_all add: adb_table_def keeps_table_def same_table_refl adb_start_ok(3))
  have b: "0x1000 = ReadMacInt32 (adb_mem (adb_start adb_board)) 0xcf8" by (simp add: adb_start_ok(3) adb_board_base)
  show ?thesis
    using keys_delivered_in_order [OF adb_start_ok(1,2) b t, of "[(5, True), (5, False)]"]
    unfolding h by (auto simp: adb_start_ok(3) r key_bytes_def event_code_def)
qed

text \<open>
  After any series of key events since start-up, register 2 of the keyboard has the bit
  of a modifier key clear just when the last event of that key was a press.\<close>
theorem modifiers_show_held_keys:
  assumes "\<forall>e \<in> set es. fst e < 128"
  shows "(\<forall>(n, code) \<in> set [(0, 0x37), (1, 0x3a), (2, 0x38), (3, 0x36), (5, 0x39), (6, 0x75)].
           bit (fst (ADBOp rnd 0x2e data (fold key_event es (adb_start m))) 1) n = (\<not> last_event code False es)) \<and>
         (\<forall>(n, code) \<in> set [(6, 0x6b), (7, 0x47)].
           bit (fst (ADBOp rnd 0x2e data (fold key_event es (adb_start m))) 2) n = (\<not> last_event code False es))"
proof -
  define s where "s = fold key_event es (adb_start m)"
  have M: "MATRIX c s = last_event c False es" if "c < 128" for c
  proof -
    have "\<not> MATRIX c (adb_start m)" using that by (simp add: MATRIX_def adb_start_def)
    then show ?thesis using MATRIX_events [OF adb_start_ok(1) assms that, of m] by (simp add: s_def)
  qed
  have r: "mouse_reg_3 s = (0x63, 0x01)" "key_reg_3 s = (0x62, 0x05)" "key_reg_2 s = (0xff, 0xff)"
    unfolding s_def by (simp_all add: events_regs) (simp_all add: adb_start_def)
  have d: "fst (ADBOp rnd 0x2e data s) 1 = modifiers_hi s" "fst (ADBOp rnd 0x2e data s) 2 = modifiers_lo s"
    by (simp_all add: ADBOp_def r Let_def key_talk_def answer_def)
  show ?thesis unfolding s_def [symmetric] d
    by (simp add: modifiers_hi_def modifiers_lo_def bit_clear_if M r)
qed

theorem modifiers_show_held_keys_witness:
  "bit (fst (ADBOp 0 0x2e (\<lambda>i. 0) (fold key_event [(0x38, True)] (adb_start adb_board))) 1) 2 = False"
proof -
  have "\<forall>e \<in> set [(0x38, True)]. fst e < (128 :: nat)" by simp
  from modifiers_show_held_keys [OF this, of 0 "\<lambda>i. 0" adb_board] show ?thesis by simp
qed

text \<open>
  When the guest moves the mouse from address 3 to a free address with a Listen to its register
  3, it answers there and nowhere else, the keyboard still answers at its own address, and a
  reset puts the mouse back at address 3.\<close>
theorem moved_mouse_answers:
  assumes "fst (mouse_reg_3 s) AND 0x0f = 3" "fst (key_reg_3 s) AND 0x0f = 2" "data 2 = 0xfe"
    and "data 1 AND 0x0f = a" "a \<noteq> 2" "a \<noteq> 3" "t = snd (ADBOp rnd 0x3b data s)"
  shows "fst (ADBOp rnd (adb_op a 3 3) d t) 0 = 2 \<and> fst (ADBOp rnd (adb_op 3 3 3) d t) 0 = 0 \<and>
         fst (ADBOp rnd (adb_op 2 3 3) d t) 0 = 2 \<and>
         fst (ADBOp rnd (adb_op 3 3 3) d (snd (ADBOp rnd 0 d t))) 0 = 2"
proof -
  have t: "t = s\<lparr>mouse_reg_3 := ((fst (mouse_reg_3 s) AND 0xf0) OR (data 1 AND 0x0f), snd (mouse_reg_3 s))\<rparr>"
    using assms(1,3) unfolding assms(7)
    by (simp add: ADBOp_def Let_def mouse_listen_def listen_addr_def split_beta)
  have m: "fst (mouse_reg_3 t) AND 0x0f = a" "fst (key_reg_3 t) AND 0x0f = 2"
    using new_address [of "fst (mouse_reg_3 s)" "data 1"] assms(2,4) by (simp_all add: t)
  have a: "a AND 0x0f = a" using assms(4) by (metis and.assoc and.idem)
  have r: "snd (ADBOp rnd 0 d t) = adb_reset t" by (simp add: ADBOp_def)
  have n: "(3 :: u8) AND 0x0f = 3" "(2 :: u8) AND 0x0f = 2" by simp_all
  show ?thesis
    unfolding talk_3 [OF a] talk_3 [OF n(1)] talk_3 [OF n(2)] r using m assms(5,6)
    by (simp add: adb_reset_def)
qed

theorem moved_mouse_answers_witness:
  "fst (ADBOp 0 (adb_op 9 3 3) (\<lambda>i. 0) (snd (ADBOp 0 0x3b ((\<lambda>i. 0)(1 := 9, 2 := 0xfe)) (adb_start adb_board)))) 0 = 2"
proof -
  let ?d = "(\<lambda>i. 0)(1 := 9, 2 := 0xfe) :: nat \<Rightarrow> u8"
  have "fst (mouse_reg_3 (adb_start adb_board)) AND 0x0f = 3" "fst (key_reg_3 (adb_start adb_board)) AND 0x0f = 2"
    by (simp_all add: adb_start_def)
  moreover have "?d 2 = 0xfe" "?d 1 AND 0x0f = 9" by simp_all
  moreover have "(9 :: u8) \<noteq> 2" "(9 :: u8) \<noteq> 3" by simp_all
  ultimately show ?thesis using moved_mouse_answers by blast
qed

text \<open>
  With a relative mouse that was moved, the interrupt calls the mouse handler first with data
  that decode to the movement since the last interrupt, as 7-bit numbers within -64 and 63, or
  as 10-bit numbers within -512 and 511 when the guest chose the extended protocol, and starts
  counting from 0 again; a movement beyond that is reduced modulo 128 or 1024, not split.\<close>
theorem relative_movement_arrives:
  assumes "relative_mouse s" "mouse_x s \<noteq> 0 \<or> mouse_y s \<noteq> 0" "ReadMacInt32 (adb_mem s) 0xcf8 \<noteq> 0"
    and "ReadMacInt32 (adb_mem s) 0xcf8 \<noteq> 0xffffffff" "adb_ok s"
    and "r = (if snd (mouse_reg_3 s) = 4 then 512 else 64)"
    and "- r \<le> mouse_x s" "mouse_x s < r" "- r \<le> mouse_y s" "mouse_y s < r"
  shows "\<exists>bs cs. map call_bytes (handled (ADBInterrupt hnd s)) = map call_bytes (handled s) @ bs # cs \<and>
           (if snd (mouse_reg_3 s) = 4
            then delta10 (bs ! 1) (bs ! 2) = mouse_x s \<and> delta10 (bs ! 0) (drop_bit 4 (bs ! 2)) = mouse_y s
            else delta7 (bs ! 1) = mouse_x s \<and> delta7 (bs ! 0) = mouse_y s) \<and>
           mouse_x (ADBInterrupt hnd s) = 0 \<and> mouse_y (ADBInterrupt hnd s) = 0"
proof -
  define b where "b = ReadMacInt32 (adb_mem s) 0xcf8"
  define s1 where "s1 = relative_step hnd b s"
  define s2 where "s2 = key_loop KEY_BUFFER_SIZE hnd b s1"
  have e: "ADBInterrupt hnd s = s2\<lparr>adb_mem := WriteMacInt32 (b + 0x163 + 4) 0 (WriteMacInt32 (b + 0x163) 0 (adb_mem s2))\<rparr>"
    using assms(1,3,4) by (simp add: ADBInterrupt_def Let_def b_def [symmetric] s1_def [symmetric] s2_def [symmetric])
  have s1: "map call_bytes (handled s1) = map call_bytes (handled s) @ [relative_bytes s]" "mouse_x s1 = 0" "mouse_y s1 = 0"
    using assms(2) by (simp_all add: s1_def relative_step_def)
  have ok: "adb_ok s1" using assms(5) mouse_step_keys(3) [of s1 s hnd b] assms(1) by (simp add: s1_def)
  have "pending_keys s1 \<le> KEY_BUFFER_SIZE" using pending_bound [of s1] by (simp add: KEY_BUFFER_SIZE_def)
  note k = key_loop_delivers [OF ok this, of hnd b, folded s2_def]
  have z: "mouse_x s2 = 0" "mouse_y s2 = 0" using s1(2,3) by (simp_all add: s2_def key_loop_mouse)
  have d: "if snd (mouse_reg_3 s) = 4
            then delta10 (relative_bytes s ! 1) (relative_bytes s ! 2) = mouse_x s \<and>
                 delta10 (relative_bytes s ! 0) (drop_bit 4 (relative_bytes s ! 2)) = mouse_y s
            else delta7 (relative_bytes s ! 1) = mouse_x s \<and> delta7 (relative_bytes s ! 0) = mouse_y s"
  proof (cases "snd (mouse_reg_3 s) = 4")
    case True
    define x3 where "x3 = (((word_of_int (mouse_y s div 8) AND 0x70) OR (word_of_int (mouse_x s div 128) AND 0x07)) OR
                     (if mouse_button s ! 2 then 0x08 else 0x88) :: u8)"
    have x3: "x3 AND 0x07 = word_of_int (mouse_x s div 128) AND 0x07"
        "drop_bit 4 x3 AND 0x07 = word_of_int (mouse_y s div 128) AND 0x07"
      unfolding x3_def by (rule third_byte)+
    have rb: "relative_bytes s = [(word_of_int (mouse_y s) AND 0x7f) OR up_bit (mouse_button s ! 0),
                (word_of_int (mouse_x s) AND 0x7f) OR up_bit (mouse_button s ! 1), x3]"
      using True by (simp add: relative_bytes_def Let_def x3_def)
    show ?thesis
      using True assms(6-10) delta10_bytes [OF _ _ x3(1)] delta10_bytes [OF _ _ x3(2)] by (simp add: rb)
  next
    case False
    then show ?thesis using assms(6-10) by (simp add: relative_bytes_def Let_def delta7_byte)
  qed
  show ?thesis using k s1(1) z d by (auto simp: e)
qed

definition moved_adb :: adb where
  "moved_adb = (adb_start adb_board)\<lparr>relative_mouse := True, mouse_x := - 3, mouse_y := 40\<rparr>"

theorem relative_movement_arrives_witness:
  "\<exists>bs cs. map call_bytes (handled (ADBInterrupt (\<lambda>c m. m) moved_adb)) = bs # cs \<and> delta7 (bs ! 1) = - 3 \<and> delta7 (bs ! 0) = 40"
proof -
  have f: "relative_mouse moved_adb" "mouse_x moved_adb = - 3" "mouse_y moved_adb = 40" "adb_mem moved_adb = adb_board"
    "adb_ok moved_adb" "snd (mouse_reg_3 moved_adb) = 1" "handled moved_adb = []"
    by (simp_all add: moved_adb_def adb_start_def adb_ok_def KEY_BUFFER_SIZE_def)
  have b: "ReadMacInt32 (adb_mem moved_adb) 0xcf8 \<noteq> 0" "ReadMacInt32 (adb_mem moved_adb) 0xcf8 \<noteq> 0xffffffff"
    by (simp_all add: f adb_board_base)
  from relative_movement_arrives [OF f(1) _ b f(5), of 64 "\<lambda>c m. m"] show ?thesis by (auto simp: f)
qed

end
