(* ===== verification/Prefs.thy ===== *)
theory Prefs
  imports C_Text "HOL-Library.Word" "HOL-Library.Monad_Syntax"
begin

section \<open>Preferences\<close>

text \<open>
  \<open>prefs.cpp\<close> with \<open>Unix/prefs_unix.cpp\<close> and \<open>dummy/prefs_dummy.cpp\<close>: the linked list of named and
  typed items is a list of pairs, a node is its position, and the type of an item is the
  constructor of its value. Names are C strings, so no string here holds a NUL. Allocation
  does not fail. \<open>platform\<close> holds the items and defaults of a platform. The settings file is
  its text, if it exists; it can be written.

  The reader looks for the white space after the keyword without looking for the end of the
  line: on a line without white space it runs on into what lies behind the string. The
  result of such a read is \<open>None\<close>.
\<close>

subsection \<open>Items\<close>

datatype prefs_type = TYPE_STRING | TYPE_BOOLEAN | TYPE_INT16 | TYPE_INT32 | TYPE_ANY

datatype pref_val = PString string | PBool bool | PInt16 "16 word" | PInt32 "32 word"

fun type_of :: "pref_val \<Rightarrow> prefs_type" where
  "type_of (PString s) = TYPE_STRING"
| "type_of (PBool b) = TYPE_BOOLEAN"
| "type_of (PInt16 i) = TYPE_INT16"
| "type_of (PInt32 i) = TYPE_INT32"

type_synonym prefs_node = "string \<times> pref_val"
type_synonym prefs = "prefs_node list"
type_synonym prefs_desc = "string \<times> prefs_type \<times> bool"

definition common_prefs_items :: "prefs_desc list" where
  "common_prefs_items = [
     (''disk'', TYPE_STRING, True), (''floppy'', TYPE_STRING, True), (''cdrom'', TYPE_STRING, True),
     (''extfs'', TYPE_STRING, False), (''scsi0'', TYPE_STRING, False), (''scsi1'', TYPE_STRING, False),
     (''scsi2'', TYPE_STRING, False), (''scsi3'', TYPE_STRING, False), (''scsi4'', TYPE_STRING, False),
     (''scsi5'', TYPE_STRING, False), (''scsi6'', TYPE_STRING, False), (''screen'', TYPE_STRING, False),
     (''seriala'', TYPE_STRING, False), (''serialb'', TYPE_STRING, False), (''ether'', TYPE_STRING, False),
     (''rom'', TYPE_STRING, False), (''bootdrive'', TYPE_INT16, False), (''bootdriver'', TYPE_INT16, False),
     (''ramsize'', TYPE_INT32, False), (''frameskip'', TYPE_INT32, False), (''modelid'', TYPE_INT32, False),
     (''cpu'', TYPE_INT32, False), (''cpu_emulator'', TYPE_STRING, False), (''jit'', TYPE_BOOLEAN, False),
     (''jitfpu'', TYPE_BOOLEAN, False), (''jitcachesize'', TYPE_INT32, False), (''m68k_rs_fastmem'', TYPE_STRING, False),
     (''fpu'', TYPE_BOOLEAN, False), (''nocdrom'', TYPE_BOOLEAN, False), (''nosound'', TYPE_BOOLEAN, False),
     (''nogui'', TYPE_BOOLEAN, False), (''idlewait'', TYPE_BOOLEAN, True), (''yearoffset'', TYPE_INT16, False),
     (''ltoudp'', TYPE_BOOLEAN, False), (''dump_memory'', TYPE_BOOLEAN, False), (''dump_file'', TYPE_STRING, False),
     (''scsi_debug'', TYPE_BOOLEAN, False), (''toolbox_hooks'', TYPE_BOOLEAN, False), (''mdi_windows'', TYPE_BOOLEAN, False),
     (''window_redirect'', TYPE_BOOLEAN, False), (''native_alerts'', TYPE_BOOLEAN, False)]"

definition unix_prefs_items :: "prefs_desc list" where
  "unix_prefs_items = [
     (''keycodes'', TYPE_BOOLEAN, False), (''keycodefile'', TYPE_STRING, False), (''fbdevicefile'', TYPE_STRING, False),
     (''mousewheelmode'', TYPE_INT16, False), (''mousewheellines'', TYPE_INT16, False)]"

subsection \<open>The list of items\<close>

definition add_data :: "string \<Rightarrow> pref_val \<Rightarrow> prefs \<Rightarrow> prefs" where
  "add_data name v ps = ps @ [(name, v)]"

definition PrefsAddString :: "string \<Rightarrow> string \<Rightarrow> prefs \<Rightarrow> prefs" where
  "PrefsAddString name s = add_data name (PString s)"

definition PrefsAddBool :: "string \<Rightarrow> bool \<Rightarrow> prefs \<Rightarrow> prefs" where
  "PrefsAddBool name b = add_data name (PBool b)"

definition PrefsAddInt16 :: "string \<Rightarrow> 16 word \<Rightarrow> prefs \<Rightarrow> prefs" where
  "PrefsAddInt16 name i = add_data name (PInt16 i)"

definition PrefsAddInt32 :: "string \<Rightarrow> 32 word \<Rightarrow> prefs \<Rightarrow> prefs" where
  "PrefsAddInt32 name i = add_data name (PInt32 i)"

definition node_matches :: "string \<Rightarrow> prefs_type \<Rightarrow> prefs_node \<Rightarrow> bool" where
  "node_matches name ty p \<longleftrightarrow> (ty = TYPE_ANY \<or> type_of (snd p) = ty) \<and> fst p = name"

definition find_node :: "string \<Rightarrow> prefs_type \<Rightarrow> nat \<Rightarrow> prefs \<Rightarrow> nat option" where
  "find_node name ty index ps =
     (let js = filter (\<lambda>i. node_matches name ty (ps ! i)) [0..<length ps]
      in if index < length js then Some (js ! index) else None)"

definition replace_data :: "string \<Rightarrow> pref_val \<Rightarrow> nat \<Rightarrow> prefs \<Rightarrow> prefs" where
  "replace_data name v index ps =
     (case find_node name (type_of v) index ps of
        Some i \<Rightarrow> ps[i := (fst (ps ! i), v)]
      | None \<Rightarrow> add_data name v ps)"

definition PrefsReplaceString :: "string \<Rightarrow> string option \<Rightarrow> nat \<Rightarrow> prefs \<Rightarrow> prefs" where
  "PrefsReplaceString name s index ps = (case s of None \<Rightarrow> ps | Some t \<Rightarrow> replace_data name (PString t) index ps)"

definition PrefsReplaceBool :: "string \<Rightarrow> bool \<Rightarrow> prefs \<Rightarrow> prefs" where
  "PrefsReplaceBool name b = replace_data name (PBool b) 0"

definition PrefsReplaceInt16 :: "string \<Rightarrow> 16 word \<Rightarrow> prefs \<Rightarrow> prefs" where
  "PrefsReplaceInt16 name i = replace_data name (PInt16 i) 0"

definition PrefsReplaceInt32 :: "string \<Rightarrow> 32 word \<Rightarrow> prefs \<Rightarrow> prefs" where
  "PrefsReplaceInt32 name i = replace_data name (PInt32 i) 0"

definition node_data :: "nat option \<Rightarrow> prefs \<Rightarrow> pref_val option" where
  "node_data i ps = map_option (\<lambda>i. snd (ps ! i)) i"

definition PrefsFindString :: "string \<Rightarrow> nat \<Rightarrow> prefs \<Rightarrow> string option" where
  "PrefsFindString name index ps =
     (case node_data (find_node name TYPE_STRING index ps) ps of Some (PString s) \<Rightarrow> Some s | _ \<Rightarrow> None)"

definition PrefsFindBool :: "string \<Rightarrow> prefs \<Rightarrow> bool" where
  "PrefsFindBool name ps =
     (case node_data (find_node name TYPE_BOOLEAN 0 ps) ps of Some (PBool b) \<Rightarrow> b | _ \<Rightarrow> False)"

definition PrefsFindInt16 :: "string \<Rightarrow> prefs \<Rightarrow> 16 word" where
  "PrefsFindInt16 name ps =
     (case node_data (find_node name TYPE_INT16 0 ps) ps of Some (PInt16 i) \<Rightarrow> i | _ \<Rightarrow> 0)"

definition PrefsFindInt32 :: "string \<Rightarrow> prefs \<Rightarrow> 32 word" where
  "PrefsFindInt32 name ps =
     (case node_data (find_node name TYPE_INT32 0 ps) ps of Some (PInt32 i) \<Rightarrow> i | _ \<Rightarrow> 0)"

definition PrefsRemoveItem :: "string \<Rightarrow> nat \<Rightarrow> prefs \<Rightarrow> prefs" where
  "PrefsRemoveItem name index ps =
     (case find_node name TYPE_ANY index ps of None \<Rightarrow> ps | Some i \<Rightarrow> take i ps @ drop (Suc i) ps)"

definition PrefsExit :: "prefs \<Rightarrow> prefs" where
  "PrefsExit ps = []"

subsection \<open>Loading\<close>

definition find_prefs_desc :: "string \<Rightarrow> prefs_desc list \<Rightarrow> prefs_desc option" where
  "find_prefs_desc name ds = find (\<lambda>d. fst d = name) ds"

definition atol :: "string \<Rightarrow> int" where
  "atol s = max (- (2 ^ 63)) (min (2 ^ 63 - 1) (atoi s))"

definition set_item :: "prefs_desc \<Rightarrow> string \<Rightarrow> string \<Rightarrow> prefs \<Rightarrow> prefs" where
  "set_item d keyword val ps =
     (let i = (word_of_int (atol val) :: 32 word)
      in case fst (snd d) of
           TYPE_STRING \<Rightarrow> if snd (snd d) then PrefsAddString keyword val ps else PrefsReplaceString keyword (Some val) 0 ps
         | TYPE_BOOLEAN \<Rightarrow> PrefsReplaceBool keyword (val = ''true'') ps
         | TYPE_INT16 \<Rightarrow> PrefsReplaceInt16 keyword (ucast i) ps
         | TYPE_INT32 \<Rightarrow> PrefsReplaceInt32 keyword i ps
         | TYPE_ANY \<Rightarrow> ps)"

text \<open>One line as \<open>fgets\<close> returned it; its last character is cut off, whatever it is.\<close>

definition load_line :: "prefs_desc list \<Rightarrow> string \<Rightarrow> prefs \<Rightarrow> prefs option" where
  "load_line platform raw ps =
     (let line = butlast (cstring raw)
      in if line = [] \<or> hd line = CHR ''#'' \<or> hd line = CHR '';'' then Some ps
         else if \<forall>c \<in> set line. \<not> isspace c then None
         else (let keyword = takeWhile (\<lambda>c. \<not> isspace c) line;
                   val = skip_spaces (drop (Suc (length keyword)) line)
               in if val = [] then Some ps
                  else (case find_prefs_desc keyword common_prefs_items of
                          Some d \<Rightarrow> Some (set_item d keyword val ps)
                        | None \<Rightarrow>
                            (case find_prefs_desc keyword platform of
                               Some d \<Rightarrow> Some (set_item d keyword val ps)
                             | None \<Rightarrow> Some ps))))"

fun load_lines :: "prefs_desc list \<Rightarrow> string list \<Rightarrow> prefs \<Rightarrow> prefs option" where
  "load_lines platform [] ps = Some ps"
| "load_lines platform (l # ls) ps = Option.bind (load_line platform l ps) (load_lines platform ls)"

definition LoadPrefsFromStream :: "prefs_desc list \<Rightarrow> string \<Rightarrow> prefs \<Rightarrow> prefs option" where
  "LoadPrefsFromStream platform f ps = load_lines platform (lines_of 2047 f) ps"

subsection \<open>Saving\<close>

definition pref_line :: "string \<Rightarrow> string \<Rightarrow> string" where
  "pref_line name v = name @ '' '' @ v @ [CHR 0x0A]"

text \<open>All strings of a name, in the order of their indices.\<close>

definition all_strings :: "string \<Rightarrow> prefs \<Rightarrow> string list" where
  "all_strings name ps =
     (let n = length (filter (node_matches name TYPE_STRING) ps)
      in map (\<lambda>i. the (PrefsFindString name i ps)) [0..<n])"

definition item_values :: "prefs_desc \<Rightarrow> prefs \<Rightarrow> string list" where
  "item_values d ps =
     (case fst (snd d) of
        TYPE_STRING \<Rightarrow> all_strings (fst d) ps
      | TYPE_BOOLEAN \<Rightarrow> [if PrefsFindBool (fst d) ps then ''true'' else ''false'']
      | TYPE_INT16 \<Rightarrow> [print_int (sint (PrefsFindInt16 (fst d) ps))]
      | TYPE_INT32 \<Rightarrow> [print_int (sint (PrefsFindInt32 (fst d) ps))]
      | TYPE_ANY \<Rightarrow> [])"

definition write_prefs :: "prefs_desc list \<Rightarrow> prefs \<Rightarrow> string" where
  "write_prefs ds ps = concat (map (\<lambda>d. concat (map (pref_line (fst d)) (item_values d ps))) ds)"

definition SavePrefsToStream :: "prefs_desc list \<Rightarrow> prefs \<Rightarrow> string" where
  "SavePrefsToStream platform ps = write_prefs common_prefs_items ps @ write_prefs platform ps"

subsection \<open>Start-up\<close>

record platform =
  platform_items :: "prefs_desc list"
  AddPlatformPrefsDefaults :: "prefs \<Rightarrow> prefs"

definition SysAddSerialPrefs :: "prefs \<Rightarrow> prefs" where
  "SysAddSerialPrefs ps = PrefsAddString ''serialb'' ''/dev/ttyS1'' (PrefsAddString ''seriala'' ''/dev/ttyS0'' ps)"

definition unix_defaults :: "prefs \<Rightarrow> prefs" where
  "unix_defaults ps =
     PrefsReplaceInt16 ''mousewheellines'' 3 (PrefsReplaceInt16 ''mousewheelmode'' 1
       (PrefsReplaceString ''extfs'' (Some ''/'') 0 (PrefsAddBool ''keycodes'' False ps)))"

definition unix_platform :: platform where
  "unix_platform = \<lparr>platform_items = unix_prefs_items, AddPlatformPrefsDefaults = unix_defaults\<rparr>"

definition dummy_platform :: platform where
  "dummy_platform = \<lparr>platform_items = [], AddPlatformPrefsDefaults = id\<rparr>"

definition prefs_defaults :: "prefs \<Rightarrow> prefs" where
  "prefs_defaults ps0 =
     fold (\<lambda>f. f)
       [SysAddSerialPrefs, PrefsAddInt16 ''bootdriver'' (- 33), PrefsAddInt16 ''bootdrive'' 0,
        PrefsAddInt32 ''ramsize'' (64 * 1024 * 1024), PrefsAddInt32 ''frameskip'' 2, PrefsAddInt32 ''modelid'' 29,
        PrefsAddInt32 ''cpu'' 4, PrefsAddString ''cpu_emulator'' ''musashi'', PrefsAddBool ''jit'' False,
        PrefsAddBool ''jitfpu'' False, PrefsAddInt32 ''jitcachesize'' 2048, PrefsAddString ''m68k_rs_fastmem'' ''off'',
        PrefsAddBool ''fpu'' False, PrefsAddBool ''nocdrom'' False, PrefsAddBool ''nosound'' False,
        PrefsAddBool ''nogui'' False, PrefsAddBool ''ltoudp'' False, PrefsAddBool ''dump_memory'' False,
        PrefsAddString ''dump_file'' ''/tmp/memory.bin'', PrefsAddBool ''scsi_debug'' True,
        PrefsAddBool ''toolbox_hooks'' False, PrefsAddBool ''mdi_windows'' False, PrefsAddBool ''window_redirect'' False,
        PrefsAddBool ''native_alerts'' False, PrefsAddString ''screen'' ''win/1152/870'',
        PrefsAddString ''rom'' ''Quadra800.rom'', PrefsAddString ''ether'' ''slirp'', PrefsAddInt16 ''yearoffset'' 0] ps0"

text \<open>The settings file, if there is one, is loaded; otherwise it is created.\<close>

definition SavePrefs :: "platform \<Rightarrow> prefs \<Rightarrow> string option" where
  "SavePrefs pl ps = Some (SavePrefsToStream (platform_items pl) ps)"

definition LoadPrefs :: "platform \<Rightarrow> string option \<Rightarrow> prefs \<Rightarrow> (prefs \<times> string option) option" where
  "LoadPrefs pl f ps =
     (case f of
        Some text \<Rightarrow> map_option (\<lambda>qs. (qs, f)) (LoadPrefsFromStream (platform_items pl) text ps)
      | None \<Rightarrow> Some (ps, SavePrefs pl ps))"

definition PrefsInit :: "platform \<Rightarrow> string option \<Rightarrow> (prefs \<times> string option) option" where
  "PrefsInit pl f = LoadPrefs pl f (AddPlatformPrefsDefaults pl (prefs_defaults []))"

end
