(* ===== verification/Prefs_Facts.thy ===== *)
theory Prefs_Facts
  imports Prefs
begin

section \<open>Facts about the preferences\<close>

text \<open>
  The list of nodes as a map from a name and a type to the list of values, what adding and
  replacing do to it, and loading of what was saved. A locale states what a typed item
  promises: the value set last is found, other items keep theirs.
\<close>

subsection \<open>The values of a name\<close>

definition vals :: "string \<Rightarrow> prefs_type \<Rightarrow> prefs \<Rightarrow> pref_val list" where
  "vals n ty ps = map snd (filter (\<lambda>p. fst p = n \<and> type_of (snd p) = ty) ps)"

lemma vals_add: "vals n ty (add_data m v ps) = vals n ty ps @ (if m = n \<and> type_of v = ty then [v] else [])"
  by (simp add: vals_def add_data_def)

lemma filter_index: "filter P xs = map ((!) xs) (filter (\<lambda>i. P (xs ! i)) [0..<length xs])"
  by (metis (no_types, lifting) filter_cong filter_map map_nth comp_def)

lemma find_node_vals:
  assumes "ty \<noteq> TYPE_ANY"
  shows "find_node n ty k ps = None \<longleftrightarrow> length (vals n ty ps) \<le> k"
    and "find_node n ty k ps = Some i \<Longrightarrow>
           i < length ps \<and> fst (ps ! i) = n \<and> type_of (snd (ps ! i)) = ty \<and> snd (ps ! i) = vals n ty ps ! k"
proof -
  let ?js = "filter (\<lambda>i. node_matches n ty (ps ! i)) [0..<length ps]"
  have m: "node_matches n ty p \<longleftrightarrow> fst p = n \<and> type_of (snd p) = ty" for p using assms by (auto simp: node_matches_def)
  have v: "vals n ty ps = map (\<lambda>i. snd (ps ! i)) ?js"
    by (simp add: vals_def m filter_index [of _ ps] comp_def)
  show "find_node n ty k ps = None \<longleftrightarrow> length (vals n ty ps) \<le> k"
    by (simp add: v find_node_def Let_def not_less)
  assume "find_node n ty k ps = Some i"
  then have "k < length ?js" "i = ?js ! k" by (auto simp: find_node_def Let_def split: if_splits)
  moreover from this have "i \<in> set ?js" by (metis nth_mem)
  ultimately show "i < length ps \<and> fst (ps ! i) = n \<and> type_of (snd (ps ! i)) = ty \<and> snd (ps ! i) = vals n ty ps ! k"
    by (auto simp: v m)
qed

lemma node_data_vals:
  assumes "ty \<noteq> TYPE_ANY"
  shows "node_data (find_node n ty k ps) ps = (if k < length (vals n ty ps) then Some (vals n ty ps ! k) else None)"
proof (cases "find_node n ty k ps")
  case None
  then show ?thesis using find_node_vals(1) [OF assms, of n k ps] by (simp add: node_data_def)
next
  case (Some i)
  then have "k < length (vals n ty ps)" using find_node_vals(1) [OF assms, of n k ps] by simp
  then show ?thesis using find_node_vals(2) [OF assms Some] Some by (simp add: node_data_def)
qed

lemma PrefsFind_vals:
  "PrefsFindString n k ps = (if k < length (vals n TYPE_STRING ps) then (case vals n TYPE_STRING ps ! k of PString s \<Rightarrow> Some s | _ \<Rightarrow> None) else None)"
  "PrefsFindBool n ps = (case vals n TYPE_BOOLEAN ps of PBool b # _ \<Rightarrow> b | _ \<Rightarrow> False)"
  "PrefsFindInt16 n ps = (case vals n TYPE_INT16 ps of PInt16 i # _ \<Rightarrow> i | _ \<Rightarrow> 0)"
  "PrefsFindInt32 n ps = (case vals n TYPE_INT32 ps of PInt32 i # _ \<Rightarrow> i | _ \<Rightarrow> 0)"
  subgoal by (simp add: PrefsFindString_def node_data_vals)
  subgoal by (cases "vals n TYPE_BOOLEAN ps") (simp_all add: PrefsFindBool_def node_data_vals)
  subgoal by (cases "vals n TYPE_INT16 ps") (simp_all add: PrefsFindInt16_def node_data_vals)
  subgoal by (cases "vals n TYPE_INT32 ps") (simp_all add: PrefsFindInt32_def node_data_vals)
  done

lemma find_node_first:
  assumes "find_node n ty 0 ps = Some i" "j < i"
  shows "\<not> node_matches n ty (ps ! j)"
proof
  assume m: "node_matches n ty (ps ! j)"
  let ?js = "filter (\<lambda>i. node_matches n ty (ps ! i)) [0..<length ps]"
  have i: "?js \<noteq> []" "?js ! 0 = i" using assms(1) by (auto simp: find_node_def Let_def split: if_splits)
  then have "i \<in> set ?js" by (metis length_greater_0_conv nth_mem)
  then have "j \<in> set ?js" using assms(2) m by auto
  moreover have "sorted ?js" by (simp add: sorted_wrt_filter)
  ultimately have "?js ! 0 \<le> j" by (metis in_set_conv_nth le0 sorted_nth_mono)
  then show False using i(2) assms(2) by simp
qed

lemma vals_update:
  assumes "i < length ps" "fst (ps ! i) = n" "type_of (snd (ps ! i)) = type_of v" "find_node n (type_of v) 0 ps = Some i"
  shows "vals m ty (ps[i := (n, v)]) = (if m = n \<and> ty = type_of v then v # tl (vals m ty ps) else vals m ty ps)"
proof -
  let ?P = "\<lambda>p. fst p = m \<and> type_of (snd p) = ty"
  have ps: "ps = take i ps @ ps ! i # drop (Suc i) ps" using assms(1) by (rule id_take_nth_drop)
  have up: "ps[i := (n, v)] = take i ps @ (n, v) # drop (Suc i) ps" using assms(1) by (rule upd_conv_take_nth_drop)
  show ?thesis
  proof (cases "m = n \<and> ty = type_of v")
    case True
    have "\<not> ?P p" if p: "p \<in> set (take i ps)" for p
    proof -
      obtain j where j: "j < i" "p = ps ! j" using p by (auto simp: in_set_conv_nth)
      show ?thesis using find_node_first [OF assms(4) j(1)] True unfolding j(2) node_matches_def by blast
    qed
    then have none: "filter ?P (take i ps) = []" by (simp add: filter_empty_conv)
    have "vals m ty (ps[i := (n, v)]) = v # map snd (filter ?P (drop (Suc i) ps))"
      unfolding vals_def up using none True by simp
    moreover have "vals m ty ps = snd (ps ! i) # map snd (filter ?P (drop (Suc i) ps))"
      unfolding vals_def using none True assms(2,3) by (subst ps) simp
    ultimately show ?thesis using True by simp
  next
    case False
    then have "\<not> ?P (n, v)" "\<not> ?P (ps ! i)" using assms(2,3) by auto
    then have "vals m ty (ps[i := (n, v)]) = vals m ty (take i ps @ ps ! i # drop (Suc i) ps)"
      by (simp add: vals_def up)
    then show ?thesis using False ps by auto
  qed
qed

lemma vals_replace:
  "vals m ty (replace_data n v 0 ps) =
     (if m = n \<and> ty = type_of v then v # tl (vals m ty ps) else vals m ty ps)"
proof -
  have a: "type_of v \<noteq> TYPE_ANY" by (cases v) auto
  show ?thesis
  proof (cases "find_node n (type_of v) 0 ps")
    case None
    then have "vals n (type_of v) ps = []" using find_node_vals(1) [OF a, of n 0 ps] by simp
    then show ?thesis using None by (auto simp: replace_data_def vals_add)
  next
    case (Some i)
    have f: "i < length ps" "fst (ps ! i) = n" "type_of (snd (ps ! i)) = type_of v"
      using find_node_vals(2) [OF a Some] by blast+
    then have "replace_data n v 0 ps = ps[i := (n, v)]" using Some by (simp add: replace_data_def)
    moreover have "vals m ty (ps[i := (n, v)]) = (if m = n \<and> ty = type_of v then v # tl (vals m ty ps) else vals m ty ps)"
      by (rule vals_update [OF f Some])
    ultimately show ?thesis by simp
  qed
qed

subsection \<open>Typed items\<close>

text \<open>What the callers rely on: the value set last is found, and other names keep theirs.\<close>

locale typed_items =
  fixes find_item :: "string \<Rightarrow> prefs \<Rightarrow> 'b"
    and set_to :: "string \<Rightarrow> 'a \<Rightarrow> prefs \<Rightarrow> prefs"
    and found :: "'a \<Rightarrow> 'b"
  assumes find_set: "find_item n (set_to m v ps) = (if n = m then found v else find_item n ps)"
begin

lemma last_setting_wins: "find_item n (fold (\<lambda>(m, v). set_to m v) xs ps) = (case map_of (rev xs) n of Some v \<Rightarrow> found v | None \<Rightarrow> find_item n ps)"
  by (induction xs rule: rev_induct) (auto simp: find_set split: option.splits)

lemma set_again: "find_item n (set_to m v (set_to m w ps)) = find_item n (set_to m v ps)"
  by (simp add: find_set)

end

lemma PrefsReplace_vals:
  "vals m ty (PrefsReplaceString n (Some s) 0 ps) = (if m = n \<and> ty = TYPE_STRING then PString s # tl (vals m ty ps) else vals m ty ps)"
  "vals m ty (PrefsReplaceBool n b ps) = (if m = n \<and> ty = TYPE_BOOLEAN then PBool b # tl (vals m ty ps) else vals m ty ps)"
  "vals m ty (PrefsReplaceInt16 n i ps) = (if m = n \<and> ty = TYPE_INT16 then PInt16 i # tl (vals m ty ps) else vals m ty ps)"
  "vals m ty (PrefsReplaceInt32 n j ps) = (if m = n \<and> ty = TYPE_INT32 then PInt32 j # tl (vals m ty ps) else vals m ty ps)"
  by (simp_all add: PrefsReplaceString_def PrefsReplaceBool_def PrefsReplaceInt16_def PrefsReplaceInt32_def vals_replace)

interpretation string_items: typed_items "\<lambda>n. PrefsFindString n 0" "\<lambda>n s. PrefsReplaceString n (Some s) 0" Some
  by unfold_locales (simp add: PrefsFind_vals PrefsReplace_vals)

interpretation bool_items: typed_items PrefsFindBool PrefsReplaceBool id
  by unfold_locales (simp add: PrefsFind_vals PrefsReplace_vals)

interpretation int16_items: typed_items PrefsFindInt16 PrefsReplaceInt16 id
  by unfold_locales (simp add: PrefsFind_vals PrefsReplace_vals)

interpretation int32_items: typed_items PrefsFindInt32 PrefsReplaceInt32 id
  by unfold_locales (simp add: PrefsFind_vals PrefsReplace_vals)

subsection \<open>What a line of the settings file does\<close>

definition item_effect :: "prefs_desc \<Rightarrow> string \<Rightarrow> prefs_type \<Rightarrow> pref_val list \<Rightarrow> pref_val list" where
  "item_effect d v ty vs =
     (if fst (snd d) \<noteq> ty then vs
      else (case ty of
              TYPE_STRING \<Rightarrow> if snd (snd d) then vs @ [PString v] else PString v # tl vs
            | TYPE_BOOLEAN \<Rightarrow> PBool (v = ''true'') # tl vs
            | TYPE_INT16 \<Rightarrow> PInt16 (ucast (word_of_int (atol v) :: 32 word)) # tl vs
            | TYPE_INT32 \<Rightarrow> PInt32 (word_of_int (atol v)) # tl vs
            | TYPE_ANY \<Rightarrow> vs))"

lemma vals_set_item:
  "vals m ty (set_item d n v ps) = (if m = n then item_effect d v ty (vals m ty ps) else vals m ty ps)"
proof (cases "fst (snd d)")
  case TYPE_STRING
  have "vals m ty (PrefsAddString n v ps) = vals m ty ps @ (if m = n \<and> ty = TYPE_STRING then [PString v] else [])"
    by (auto simp: PrefsAddString_def vals_add)
  then show ?thesis using TYPE_STRING by (auto simp: set_item_def item_effect_def PrefsReplace_vals)
qed (simp_all add: set_item_def item_effect_def PrefsReplace_vals split: prefs_type.split)

definition load_items :: "(prefs_desc \<times> string) list \<Rightarrow> prefs \<Rightarrow> prefs" where
  "load_items = fold (\<lambda>(d, v). set_item d (fst d) v)"

lemma vals_load_items:
  "vals m ty (load_items L ps) = fold (\<lambda>(d, v). item_effect d v ty) (filter (\<lambda>(d, v). fst d = m) L) (vals m ty ps)"
  by (induction L arbitrary: ps) (auto simp: load_items_def vals_set_item)

subsection \<open>Reading what was written\<close>

definition good_name :: "string \<Rightarrow> bool" where
  "good_name n \<longleftrightarrow> n \<noteq> [] \<and> hd n \<noteq> CHR ''#'' \<and> hd n \<noteq> CHR '';'' \<and> length n \<le> 64 \<and>
     (\<forall>c \<in> set n. \<not> isspace c \<and> c \<noteq> CHR 0x00)"

definition good_value :: "string \<Rightarrow> bool" where
  "good_value v \<longleftrightarrow> v \<noteq> [] \<and> \<not> isspace (hd v) \<and> CHR 0x0A \<notin> set v \<and> CHR 0x00 \<notin> set v \<and> length v \<le> 1980"

definition good_items :: "prefs_desc list \<Rightarrow> bool" where
  "good_items ds \<longleftrightarrow> distinct (map fst ds) \<and> (\<forall>d \<in> set ds. good_name (fst d) \<and> fst (snd d) \<noteq> TYPE_ANY)"

lemma isspace_chars: "isspace (CHR 0x0A)" "isspace (CHR '' '')"
  by (simp_all add: isspace_def)

lemma good_name_chars: "good_name n \<Longrightarrow> CHR 0x0A \<notin> set n"
  using isspace_chars(1) unfolding good_name_def by blast

lemma find_prefs_desc_append:
  "find_prefs_desc n (xs @ ys) = (case find_prefs_desc n xs of Some d \<Rightarrow> Some d | None \<Rightarrow> find_prefs_desc n ys)"
  by (induction xs) (simp_all add: find_prefs_desc_def)

lemma lines_of_pref_lines:
  assumes "\<forall>(d, v) \<in> set L. good_name (fst d) \<and> good_value v"
  shows "lines_of 2047 (concat (map (\<lambda>(d, v). pref_line (fst d) v) L)) = map (\<lambda>(d, v). pref_line (fst d) v) L"
  using assms
proof (induction L)
  case (Cons x L)
  obtain d v where x: "x = (d, v)" by fastforce
  have g: "good_name (fst d)" "good_value v" using Cons.prems x by auto
  let ?b = "fst d @ '' '' @ v"
  have "CHR 0x0A \<notin> set ?b" "length ?b < 2047"
    using g good_name_chars [OF g(1)] by (auto simp: good_name_def good_value_def)
  from lines_of_newline [OF this] show ?case using Cons by (simp add: x pref_line_def)
qed simp

lemma load_pref_line:
  assumes "good_name n" "good_value v" "find_prefs_desc n (common_prefs_items @ platform) = Some d"
  shows "load_line platform (pref_line n v) ps = Some (set_item d n v ps)"
proof -
  note sp = isspace_chars(2)
  have s: "\<forall>c \<in> set n. \<not> isspace c" using assms(1) by (simp add: good_name_def)
  have "cstring (pref_line n v) = pref_line n v"
    using assms(1,2) by (auto simp: cstring_def takeWhile_eq_all_conv good_name_def good_value_def pref_line_def)
  then have l: "butlast (cstring (pref_line n v)) = n @ CHR '' '' # v" by (simp add: pref_line_def butlast_append)
  have k: "takeWhile (\<lambda>c. \<not> isspace c) (n @ CHR '' '' # v) = n"
    using s sp by (simp add: takeWhile_append2)
  have vl: "skip_spaces (drop (Suc (length n)) (n @ CHR '' '' # v)) = v"
    using assms(2) by (cases v) (auto simp: good_value_def skip_spaces_def)
  have "n \<noteq> []" "v \<noteq> []" "hd n \<noteq> CHR ''#''" "hd n \<noteq> CHR '';''" using assms(1,2) by (auto simp: good_name_def good_value_def)
  then show ?thesis
    using assms(3) sp unfolding load_line_def Let_def l k vl
    by (auto simp: find_prefs_desc_append split: option.splits)
qed

definition saved_items :: "prefs_desc list \<Rightarrow> prefs \<Rightarrow> (prefs_desc \<times> string) list" where
  "saved_items ds ps = concat (map (\<lambda>d. map (Pair d) (item_values d ps)) ds)"

lemma write_prefs_saved: "write_prefs ds ps = concat (map (\<lambda>(d, v). pref_line (fst d) v) (saved_items ds ps))"
  by (induction ds) (simp_all add: write_prefs_def saved_items_def comp_def)

lemma saved_text: "SavePrefsToStream platform ps = concat (map (\<lambda>(d, v). pref_line (fst d) v) (saved_items (common_prefs_items @ platform) ps))"
  by (simp add: SavePrefsToStream_def write_prefs_saved [symmetric] write_prefs_def)

lemma find_listed: "distinct (map fst ds) \<Longrightarrow> d \<in> set ds \<Longrightarrow> find_prefs_desc (fst d) ds = Some d"
  by (induction ds) (auto simp: find_prefs_desc_def image_iff)

lemma saved_values: "(d, v) \<in> set (saved_items ds ps) \<longleftrightarrow> d \<in> set ds \<and> v \<in> set (item_values d ps)"
  by (auto simp: saved_items_def)

lemma filter_saved:
  assumes "distinct (map fst ds)" "d \<in> set ds"
  shows "filter (\<lambda>(e, v). fst e = fst d) (saved_items ds ps) = map (Pair d) (item_values d ps)"
  using assms
proof (induction ds)
  case (Cons e ds)
  have r: "filter (\<lambda>(e, v). fst e = fst d) (saved_items es ps) = []" if "\<forall>e \<in> set es. fst e \<noteq> fst d" for es
    using that by (auto simp: filter_empty_conv saved_values)
  have h: "saved_items (e # ds) ps = map (Pair e) (item_values e ps) @ saved_items ds ps" by (simp add: saved_items_def)
  show ?case
  proof (cases "e = d")
    case True
    have "\<forall>e \<in> set ds. fst e \<noteq> fst d" using Cons.prems(1) True by (auto simp: image_iff)
    then show ?thesis using r [of ds] True unfolding h by (simp add: filter_map comp_def)
  next
    case False
    then have "fst e \<noteq> fst d" "d \<in> set ds" using Cons.prems by (auto simp: image_iff)
    then show ?thesis using Cons by (simp add: h filter_map comp_def)
  qed
qed simp

lemma load_saved:
  assumes ds: "ds = common_prefs_items @ platform" and "good_items ds"
    and "\<forall>d \<in> set ds. \<forall>v \<in> set (item_values d ps). good_value v"
  shows "LoadPrefsFromStream platform (SavePrefsToStream platform ps) qs = Some (load_items (saved_items ds ps) qs)"
proof -
  have run: "load_lines platform (map (\<lambda>(d, v). pref_line (fst d) v) L) qs = Some (load_items L qs)"
    if "\<forall>(d, v) \<in> set L. d \<in> set ds \<and> good_value v" for L
    using that
  proof (induction L arbitrary: qs)
    case (Cons x L)
    obtain d v where x: "x = (d, v)" by fastforce
    have d: "d \<in> set ds" "good_value v" using Cons.prems x by auto
    have f: "find_prefs_desc (fst d) ds = Some d" using assms(2) d(1) by (auto simp: good_items_def intro: find_listed)
    have g: "good_name (fst d)" using assms(2) d(1) unfolding good_items_def by blast
    have ih: "load_lines platform (map (\<lambda>(d, v). pref_line (fst d) v) L) qs' = Some (load_items L qs')" for qs'
      using Cons by simp
    show ?case using load_pref_line [OF g d(2) f [unfolded ds]] ih by (simp add: x load_items_def)
  qed (simp add: load_items_def)
  have L: "\<forall>(d, v) \<in> set (saved_items ds ps). d \<in> set ds \<and> good_value v"
    using assms(3) saved_values by fast
  then have "\<forall>(d, v) \<in> set (saved_items ds ps). good_name (fst d) \<and> good_value v"
    using assms(2) unfolding good_items_def by fast
  from lines_of_pref_lines [OF this] run [OF L] show ?thesis
    unfolding LoadPrefsFromStream_def saved_text ds by simp
qed

lemma vals_loaded:
  assumes "distinct (map fst ds)" "d \<in> set ds"
  shows "vals (fst d) ty (load_items (saved_items ds ps) qs) = fold (\<lambda>v. item_effect d v ty) (item_values d ps) (vals (fst d) ty qs)"
  by (simp add: vals_load_items filter_saved [OF assms] fold_map comp_def)

subsection \<open>Written values\<close>

lemma length_digits: "n < 10 ^ Suc k \<Longrightarrow> length (digits n) \<le> Suc k"
proof (induction k arbitrary: n)
  case (Suc k)
  then have "length (digits (n div 10)) \<le> Suc k" if "10 \<le> n" by (intro Suc.IH) (simp add: less_mult_imp_div_less)
  then show ?case by (subst digits.simps) simp
qed (simp add: digits.simps)

lemma good_print_int:
  assumes "- (2 ^ 31) \<le> k" "k < 2 ^ 31"
  shows "good_value (print_int k)"
proof -
  have ds: "CHR 0x0A \<notin> set (digits n) \<and> CHR 0x00 \<notin> set (digits n) \<and> \<not> isspace (hd (digits n))" for n
    using digits_are_digits digit_not_space by (metis digits_not_Nil hd_in_set)
  have "nat \<bar>k\<bar> < 10 ^ Suc 9" using assms by simp
  then have "length (digits (nat \<bar>k\<bar>)) \<le> 10" using length_digits [of _ 9] by fastforce
  moreover have "\<not> isspace (CHR ''-'')" by (simp add: isspace_def)
  ultimately show ?thesis using ds by (auto simp: good_value_def print_int_def)
qed

lemma atol_print_int: "- (2 ^ 63) \<le> k \<Longrightarrow> k < 2 ^ 63 \<Longrightarrow> atol (print_int k) = k"
  by (simp add: atol_def atoi_print_int)

end
