(* ===== verification/Prefs_Properties.thy ===== *)
theory Prefs_Properties
  imports Prefs_Facts
begin

section \<open>Properties of the preferences\<close>

text \<open>
  What was saved is what is loaded, on every platform and for the first two starts of the
  Unix version.
\<close>

subsection \<open>Facts about single items\<close>

lemma narrow_widened: "ucast (word_of_int (sint w) :: 32 word) = (w :: 16 word)"
  by transfer (simp add: take_bit_signed_take_bit)

fun string_of :: "pref_val \<Rightarrow> string" where
  "string_of (PString s) = s"
| "string_of v = []"

lemma all_strings_vals [code]: "all_strings n ps = map string_of (vals n TYPE_STRING ps)"
proof (rule nth_equalityI)
  have f: "filter (node_matches n TYPE_STRING) ps = filter (\<lambda>p. fst p = n \<and> type_of (snd p) = TYPE_STRING) ps"
    by (rule filter_cong) (auto simp: node_matches_def)
  then show l: "length (all_strings n ps) = length (map string_of (vals n TYPE_STRING ps))"
    by (simp add: all_strings_def vals_def)
  fix i assume "i < length (all_strings n ps)"
  then have i: "i < length (vals n TYPE_STRING ps)" "i < length (filter (node_matches n TYPE_STRING) ps)"
    using l by (simp_all add: all_strings_def)
  then have "type_of (vals n TYPE_STRING ps ! i) = TYPE_STRING"
    using nth_mem [OF i(1)] by (auto simp: vals_def)
  then show "all_strings n ps ! i = map string_of (vals n TYPE_STRING ps) ! i"
    using i by (cases "vals n TYPE_STRING ps ! i") (simp_all add: all_strings_def PrefsFind_vals)
qed

lemma vals_strings: "vals n TYPE_STRING ps = map PString (all_strings n ps)"
proof -
  have "PString (string_of v) = v" if "type_of v = TYPE_STRING" for v using that by (cases v) simp_all
  then show ?thesis unfolding all_strings_vals by (simp add: vals_def)
qed

lemma find_string_all: "PrefsFindString n k ps = (if k < length (all_strings n ps) then Some (all_strings n ps ! k) else None)"
  by (simp add: PrefsFind_vals vals_strings)

lemma fold_multiple:
  "fst (snd d) = TYPE_STRING \<Longrightarrow> snd (snd d) \<Longrightarrow> fold (\<lambda>v. item_effect d v TYPE_STRING) xs ys = ys @ map PString xs"
  by (induction xs arbitrary: ys) (simp_all add: item_effect_def)

text \<open>
  An item comes back if its strings can be written on a line and if nothing the loading side
  has already stands in the way: no strings of an item that may occur several times, no
  string of an absent one.
\<close>

definition reloadable :: "prefs_desc \<Rightarrow> prefs \<Rightarrow> prefs \<Rightarrow> bool" where
  "reloadable d ps qs =
     (fst (snd d) = TYPE_STRING \<longrightarrow>
        (\<forall>s \<in> set (all_strings (fst d) ps). good_value s) \<and>
        (if snd (snd d) then all_strings (fst d) qs = []
         else length (all_strings (fst d) qs) \<le> length (all_strings (fst d) ps) \<and> length (all_strings (fst d) ps) \<le> 1))"

definition same_item :: "prefs_desc \<Rightarrow> prefs \<Rightarrow> prefs \<Rightarrow> bool" where
  "same_item d ps qs =
     (case fst (snd d) of
        TYPE_STRING \<Rightarrow> \<forall>k. PrefsFindString (fst d) k ps = PrefsFindString (fst d) k qs
      | TYPE_BOOLEAN \<Rightarrow> PrefsFindBool (fst d) ps = PrefsFindBool (fst d) qs
      | TYPE_INT16 \<Rightarrow> PrefsFindInt16 (fst d) ps = PrefsFindInt16 (fst d) qs
      | TYPE_INT32 \<Rightarrow> PrefsFindInt32 (fst d) ps = PrefsFindInt32 (fst d) qs
      | TYPE_ANY \<Rightarrow> True)"

lemma item_values_good:
  assumes "reloadable d ps qs" "v \<in> set (item_values d ps)"
  shows "good_value v"
proof (cases "fst (snd d)")
  case TYPE_STRING
  then show ?thesis using assms by (auto simp: item_values_def reloadable_def)
next
  case TYPE_BOOLEAN
  have "good_value ''true''" "good_value ''false''" by (simp_all add: good_value_def isspace_def)
  then show ?thesis using assms(2) TYPE_BOOLEAN by (auto simp: item_values_def)
next
  case TYPE_INT16
  let ?w = "PrefsFindInt16 (fst d) ps"
  have "- (2 ^ 31) \<le> sint ?w" "sint ?w < 2 ^ 31" using sint_ge [of ?w] sint_lt [of ?w] by simp_all
  then show ?thesis using assms(2) TYPE_INT16 by (simp add: item_values_def good_print_int)
next
  case TYPE_INT32
  let ?w = "PrefsFindInt32 (fst d) ps"
  have "- (2 ^ 31) \<le> sint ?w" "sint ?w < 2 ^ 31" using sint_ge [of ?w] sint_lt [of ?w] by simp_all
  then show ?thesis using assms(2) TYPE_INT32 by (simp add: item_values_def good_print_int)
qed (use assms in \<open>simp add: item_values_def\<close>)

lemma item_comes_back:
  assumes d: "distinct (map fst ds)" "d \<in> set ds" and r: "reloadable d ps qs"
  shows "same_item d (load_items (saved_items ds ps) qs) ps"
proof -
  let ?R = "load_items (saved_items ds ps) qs" and ?n = "fst d"
  have v: "vals ?n ty ?R = fold (\<lambda>v. item_effect d v ty) (item_values d ps) (vals ?n ty qs)" for ty
    by (rule vals_loaded [OF d])
  show ?thesis
  proof (cases "fst (snd d)")
    case TYPE_STRING
    have e: "vals ?n TYPE_STRING ?R = vals ?n TYPE_STRING ps"
    proof (cases "snd (snd d)")
      case True
      then have "vals ?n TYPE_STRING ?R = vals ?n TYPE_STRING qs @ map PString (all_strings ?n ps)"
        unfolding v using TYPE_STRING by (simp add: item_values_def fold_multiple)
      then show ?thesis using r TYPE_STRING True by (simp add: reloadable_def vals_strings)
    next
      case False
      then have l: "length (all_strings ?n qs) \<le> length (all_strings ?n ps)" "length (all_strings ?n ps) \<le> 1"
        using r TYPE_STRING by (simp_all add: reloadable_def)
      show ?thesis
        using l False TYPE_STRING unfolding v
        by (cases "all_strings ?n ps"; cases "all_strings ?n qs") (simp_all add: item_effect_def item_values_def vals_strings)
    qed
    then show ?thesis using TYPE_STRING by (simp add: same_item_def PrefsFind_vals)
  next
    case TYPE_BOOLEAN
    then show ?thesis by (simp add: same_item_def PrefsFind_vals(2) [of _ ?R] v item_values_def item_effect_def)
  next
    case TYPE_INT16
    let ?w = "PrefsFindInt16 ?n ps"
    have "ucast (word_of_int (sint ?w) :: 32 word) = ?w"
      by (rule narrow_widened)
    moreover have "atol (print_int (sint ?w)) = sint ?w" using sint_ge [of ?w] sint_lt [of ?w] by (intro atol_print_int) simp_all
    ultimately show ?thesis using TYPE_INT16
      by (simp add: same_item_def PrefsFind_vals(3) [of _ ?R] v item_values_def item_effect_def)
  next
    case TYPE_INT32
    let ?w = "PrefsFindInt32 ?n ps"
    have "atol (print_int (sint ?w)) = sint ?w" using sint_ge [of ?w] sint_lt [of ?w] by (intro atol_print_int) simp_all
    then show ?thesis using TYPE_INT32
      by (simp add: same_item_def PrefsFind_vals(4) [of _ ?R] v item_values_def item_effect_def)
  qed (simp add: same_item_def)
qed

subsection \<open>The properties\<close>

text \<open>
  C33. What \<open>SavePrefs\<close> wrote is what \<open>LoadPrefs\<close> reads: for every listed item the values found
  after loading are those found before saving, strings with spaces and the whole range of
  numbers included. Needed: the items' names are distinct, not empty, of at most 64 characters, without white space or NUL and
  not starting with a comment sign, and no item has type any; every saved string is not empty, does not begin with white space, has no
  newline or NUL and at most 1980 characters; a string item that may repeat is wholly absent
  from the list loaded into; one that may not occurs at most once in the saved list, and not
  more often in the list loaded into. An empty string, which the GTK editor can store for
  \<open>extfs\<close> (\<open>prefs_editor_gtk.cpp:424\<close>), is written but is not read back.\<close>
theorem saved_prefs_load:
  assumes "good_items (common_prefs_items @ platform_items pl)"
    and "\<forall>d \<in> set (common_prefs_items @ platform_items pl). reloadable d ps qs"
  shows "\<exists>rs. LoadPrefs pl (SavePrefs pl ps) qs = Some (rs, SavePrefs pl ps) \<and>
           (\<forall>d \<in> set (common_prefs_items @ platform_items pl). same_item d rs ps)"
proof -
  let ?ds = "common_prefs_items @ platform_items pl"
  have "LoadPrefsFromStream (platform_items pl) (SavePrefsToStream (platform_items pl) ps) qs =
      Some (load_items (saved_items ?ds ps) qs)"
    using assms item_values_good by (intro load_saved [OF refl]) blast+
  moreover have "distinct (map fst ?ds)" using assms(1) by (simp add: good_items_def)
  then have "same_item d (load_items (saved_items ?ds ps) qs) ps" if "d \<in> set ?ds" for d
    using that assms(2) by (intro item_comes_back) auto
  ultimately show ?thesis by (simp add: LoadPrefs_def SavePrefs_def)
qed

lemma unix_good_items: "good_items (common_prefs_items @ unix_prefs_items)"
  by code_simp

lemma reloadable_code [code]:
  "reloadable d ps qs =
     (if fst (snd d) \<noteq> TYPE_STRING then True
      else let ss = all_strings (fst d) ps; ts = all_strings (fst d) qs
           in list_all good_value ss \<and>
              (if snd (snd d) then ts = [] else length ts \<le> length ss \<and> length ss \<le> 1))"
  by (simp add: reloadable_def Let_def list_all_iff)

definition all_reloadable :: "prefs_desc list \<Rightarrow> prefs \<Rightarrow> bool" where
  "all_reloadable ds ps = list_all (\<lambda>d. reloadable d ps ps) ds"

lemma unix_reloadable: "all_reloadable (common_prefs_items @ unix_prefs_items) (unix_defaults (prefs_defaults []))"
  by code_simp

theorem saved_prefs_load_witness:
  "\<exists>ps rs f. PrefsInit unix_platform None = Some (ps, Some f) \<and> PrefsInit unix_platform (Some f) = Some (rs, Some f) \<and>
     (\<forall>d \<in> set (common_prefs_items @ unix_prefs_items). same_item d rs ps)"
proof -
  let ?ps = "unix_defaults (prefs_defaults [])"
  have "\<exists>rs. LoadPrefs unix_platform (SavePrefs unix_platform ?ps) ?ps = Some (rs, SavePrefs unix_platform ?ps) \<and>
      (\<forall>d \<in> set (common_prefs_items @ platform_items unix_platform). same_item d rs ?ps)"
    using unix_good_items unix_reloadable
    by (intro saved_prefs_load) (simp_all add: unix_platform_def all_reloadable_def list_all_iff)
  then show ?thesis by (auto simp: PrefsInit_def unix_platform_def LoadPrefs_def SavePrefs_def)
qed

subsection \<open>What does not come back\<close>

text \<open>An empty string is written as a line with a name only, and such a line is skipped.\<close>

lemma empty_string_is_lost:
  "map_option (\<lambda>(rs, f). PrefsFindString ''extfs'' 0 rs)
     (LoadPrefs unix_platform (SavePrefs unix_platform (PrefsAddString ''extfs'' [] [])) []) = Some None \<and>
   PrefsFindString ''extfs'' 0 (PrefsAddString ''extfs'' [] []) = Some []"
  by code_simp

end
