(* ===== verification/Video_Modes.thy ===== *)
theory Video_Modes
  imports Prelude
begin

section \<open>Video modes\<close>

text \<open>
  What the slot ROM and the video driver share of \<open>include/video.h\<close> and \<open>video.cpp\<close>: depths, the
  description of the monitor and the length of a row. Pixel sizes are C \<open>int\<close>s.
\<close>

definition VMODE_1BIT :: int where "VMODE_1BIT = 0"
definition VMODE_2BIT :: int where "VMODE_2BIT = 1"
definition VMODE_4BIT :: int where "VMODE_4BIT = 2"
definition VMODE_8BIT :: int where "VMODE_8BIT = 3"
definition VMODE_16BIT :: int where "VMODE_16BIT = 4"
definition VMODE_32BIT :: int where "VMODE_32BIT = 5"

lemmas vmodes = VMODE_1BIT_def VMODE_2BIT_def VMODE_4BIT_def VMODE_8BIT_def VMODE_16BIT_def VMODE_32BIT_def

definition IsDirectMode :: "int \<Rightarrow> bool" where
  "IsDirectMode x \<longleftrightarrow> x = VMODE_16BIT \<or> x = VMODE_32BIT"

record video_desc =
  mac_frame_base :: u32
  bytes_per_row :: u32
  mon_x :: u32
  mon_y :: u32
  mon_mode :: int

text \<open>The row of a width at a depth, padded to an even number of bytes.\<close>

definition Video_BytesPerRowForMode :: "int \<Rightarrow> int \<Rightarrow> u32" where
  "Video_BytesPerRowForMode width0 mode =
     (let width = max 0 width0;
          row = (if mode = VMODE_1BIT then word_of_int ((width + 7) div 8)
                 else if mode = VMODE_2BIT then word_of_int ((width + 3) div 4)
                 else if mode = VMODE_4BIT then word_of_int ((width + 1) div 2)
                 else if mode = VMODE_8BIT then word_of_int width
                 else if mode = VMODE_16BIT then word_of_int width * 2
                 else if mode = VMODE_32BIT then word_of_int width * 4
                 else word_of_int width)
      in if row AND 1 \<noteq> 0 then row + 1 else row)"

section \<open>Parameter blocks of the video driver\<close>

text \<open>The offsets, control and status codes of \<open>include/video_defs.h\<close> that the driver uses.\<close>

definition csMode :: u32 where "csMode = 0"
definition csData :: u32 where "csData = 2"
definition csPage :: u32 where "csPage = 6"
definition csBaseAddr :: u32 where "csBaseAddr = 8"
definition csTable :: u32 where "csTable = 0"
definition csStart :: u32 where "csStart = 4"
definition csCount :: u32 where "csCount = 6"
definition csDisplayType :: u32 where "csDisplayType = 0"
definition csConnectTaggedType :: u32 where "csConnectTaggedType = 2"
definition csConnectTaggedData :: u32 where "csConnectTaggedData = 3"
definition csConnectFlags :: u32 where "csConnectFlags = 4"
definition csDisplayComponent :: u32 where "csDisplayComponent = 8"
definition csTimingMode :: u32 where "csTimingMode = 0"
definition csTimingFormat :: u32 where "csTimingFormat = 8"
definition csTimingData :: u32 where "csTimingData = 12"
definition csTimingFlags :: u32 where "csTimingFlags = 16"
definition csPreviousDisplayModeID :: u32 where "csPreviousDisplayModeID = 0"
definition csRIDisplayModeID :: u32 where "csRIDisplayModeID = 4"
definition csHorizontalPixels :: u32 where "csHorizontalPixels = 8"
definition csVerticalLines :: u32 where "csVerticalLines = 12"
definition csRefreshRate :: u32 where "csRefreshRate = 16"
definition csMaxDepthMode :: u32 where "csMaxDepthMode = 20"
definition csResolutionFlags :: u32 where "csResolutionFlags = 22"
definition csDisplayModeID :: u32 where "csDisplayModeID = 0"
definition csDepthMode :: u32 where "csDepthMode = 4"
definition csVPBlockPtr :: u32 where "csVPBlockPtr = 6"
definition csPageCount :: u32 where "csPageCount = 10"
definition csDeviceType :: u32 where "csDeviceType = 14"
definition vpBaseOffset :: u32 where "vpBaseOffset = 0"
definition vpRowBytes :: u32 where "vpRowBytes = 4"
definition vpBounds :: u32 where "vpBounds = 6"
definition vpVersion :: u32 where "vpVersion = 14"
definition vpPackType :: u32 where "vpPackType = 16"
definition vpPackSize :: u32 where "vpPackSize = 18"
definition vpHRes :: u32 where "vpHRes = 22"
definition vpVRes :: u32 where "vpVRes = 26"
definition vpPixelType :: u32 where "vpPixelType = 30"
definition vpPixelSize :: u32 where "vpPixelSize = 32"
definition vpCmpCount :: u32 where "vpCmpCount = 34"
definition vpCmpSize :: u32 where "vpCmpSize = 36"
definition vpPlaneBytes :: u32 where "vpPlaneBytes = 38"
definition spPointer :: u32 where "spPointer = 4"
definition spSlot :: u32 where "spSlot = 49"
definition spID :: u32 where "spID = 50"
definition spExtDev :: u32 where "spExtDev = 51"
definition SIZEOF_SPBlock :: u32 where "SIZEOF_SPBlock = 56"
definition csDisplayCountOrNumber :: u32 where "csDisplayCountOrNumber = 0"
definition csConnectInfo :: u32 where "csConnectInfo = 4"
definition kDisplayModeIDCurrent :: u32 where "kDisplayModeIDCurrent = 0"
definition kDisplayModeIDFindFirstResolution :: u32 where "kDisplayModeIDFindFirstResolution = 0xfffffffe"
definition kDisplayModeIDNoMoreResolutions :: u32 where "kDisplayModeIDNoMoreResolutions = 0xfffffffd"
definition kDeclROMTimingFormat :: u32 where "kDeclROMTimingFormat = 0x6465636c"
definition kModelessConnect :: u32 where "kModelessConnect = 8"
definition cscSetMode :: u32 where "cscSetMode = 2"
definition cscSetEntries :: u32 where "cscSetEntries = 3"
definition cscSetGamma :: u32 where "cscSetGamma = 4"
definition cscGrayPage :: u32 where "cscGrayPage = 5"
definition cscSetGray :: u32 where "cscSetGray = 6"
definition cscSetInterrupt :: u32 where "cscSetInterrupt = 7"
definition cscDirectSetEntries :: u32 where "cscDirectSetEntries = 8"
definition cscSetDefaultMode :: u32 where "cscSetDefaultMode = 9"
definition cscSwitchMode :: u32 where "cscSwitchMode = 10"
definition cscSavePreferredConfiguration :: u32 where "cscSavePreferredConfiguration = 16"
definition cscGetMode :: u32 where "cscGetMode = 2"
definition cscGetPageCnt :: u32 where "cscGetPageCnt = 4"
definition cscGetPageBase :: u32 where "cscGetPageBase = 5"
definition cscGetGray :: u32 where "cscGetGray = 6"
definition cscGetInterrupt :: u32 where "cscGetInterrupt = 7"
definition cscGetDefaultMode :: u32 where "cscGetDefaultMode = 9"
definition cscGetCurMode :: u32 where "cscGetCurMode = 10"
definition cscGetConnection :: u32 where "cscGetConnection = 12"
definition cscGetModeTiming :: u32 where "cscGetModeTiming = 13"
definition cscGetModeBaseAddress :: u32 where "cscGetModeBaseAddress = 14"
definition cscGetPreferredConfiguration :: u32 where "cscGetPreferredConfiguration = 16"
definition cscGetNextResolution :: u32 where "cscGetNextResolution = 17"
definition cscGetVideoParameters :: u32 where "cscGetVideoParameters = 18"
definition cscGetMultiConnect :: u32 where "cscGetMultiConnect = 28"

lemmas video_offsets = csMode_def csData_def csPage_def csBaseAddr_def csTable_def csStart_def csCount_def csDisplayType_def csConnectTaggedType_def csConnectTaggedData_def csConnectFlags_def csDisplayComponent_def csTimingMode_def csTimingFormat_def csTimingData_def csTimingFlags_def csPreviousDisplayModeID_def csRIDisplayModeID_def csHorizontalPixels_def csVerticalLines_def csRefreshRate_def csMaxDepthMode_def csResolutionFlags_def csDisplayModeID_def csDepthMode_def csVPBlockPtr_def csPageCount_def csDeviceType_def vpBaseOffset_def vpRowBytes_def vpBounds_def vpVersion_def vpPackType_def vpPackSize_def vpHRes_def vpVRes_def vpPixelType_def vpPixelSize_def vpCmpCount_def vpCmpSize_def vpPlaneBytes_def spPointer_def spSlot_def spID_def spExtDev_def SIZEOF_SPBlock_def csDisplayCountOrNumber_def csConnectInfo_def kDisplayModeIDCurrent_def kDisplayModeIDFindFirstResolution_def kDisplayModeIDNoMoreResolutions_def kDeclROMTimingFormat_def kModelessConnect_def

lemmas video_codes = cscSetMode_def cscSetEntries_def cscSetGamma_def cscGrayPage_def cscSetGray_def cscSetInterrupt_def cscDirectSetEntries_def cscSetDefaultMode_def cscSwitchMode_def cscSavePreferredConfiguration_def cscGetMode_def cscGetPageCnt_def cscGetPageBase_def cscGetGray_def cscGetInterrupt_def cscGetDefaultMode_def cscGetCurMode_def cscGetConnection_def cscGetModeTiming_def cscGetModeBaseAddress_def cscGetPreferredConfiguration_def cscGetNextResolution_def cscGetVideoParameters_def cscGetMultiConnect_def

end
