(* ===== verification/Slot_ROM.thy ===== *)
theory Slot_ROM
  imports Video_Modes Mac_Memory C_Text
begin

section \<open>The declaration ROM\<close>

text \<open>
  \<open>slot_rom.cpp\<close>: the declaration ROM of the emulated slot card, built byte by byte in
  \<open>srom\<close>, copied to the end of the Mac ROM and given its checksum, and the patch of a depth's
  parameter block when the video mode changes. \<open>srom\<close> is the list of the bytes written so
  far, so the index \<open>p\<close> is its length. The ROM is guest memory from \<open>rom_base\<close> on, written
  through the host pointer: \<open>ROMBaseHost\<close> is set. \<open>__DATE__\<close> is an argument.
\<close>

type_synonym srom = "u8 list"

record slot_rom =
  SlotROMOffset :: u32
  slot_rom_size :: nat
  vmode_parm_off :: "u32 list"

definition slot_rom_start :: slot_rom where
  "slot_rom_start = \<lparr>SlotROMOffset = 0, slot_rom_size = 0, vmode_parm_off = replicate 6 0\<rparr>"

subsection \<open>Writing\<close>

definition at :: "srom \<Rightarrow> u32" where
  "at s = of_nat (length s)"

definition Rsrc :: "u8 \<Rightarrow> u32 \<Rightarrow> srom \<Rightarrow> srom" where
  "Rsrc ty data s = s @ [ty, ucast (drop_bit 16 data), ucast (drop_bit 8 data), ucast data]"

definition Offs :: "u8 \<Rightarrow> u32 \<Rightarrow> srom \<Rightarrow> srom" where
  "Offs ty ptr s =
     (let offs = ptr - at s in s @ [ty, ucast (drop_bit 16 offs), ucast (drop_bit 8 offs), ucast offs])"

definition EndOfList :: "srom \<Rightarrow> srom" where
  "EndOfList s = s @ [0xff, 0, 0, 0]"

definition Long :: "u32 \<Rightarrow> srom \<Rightarrow> srom" where
  "Long data s = s @ be32 data"

definition Word :: "u16 \<Rightarrow> srom \<Rightarrow> srom" where
  "Word data s = s @ be16 data"

definition pad :: "srom \<Rightarrow> srom" where
  "pad s = (if odd (length s) then s @ [0] else s)"

definition chars :: "string \<Rightarrow> u8 list" where
  "chars = map of_char"

definition String' :: "string \<Rightarrow> srom \<Rightarrow> srom" where
  "String' str s = pad (s @ chars str @ [0])"

definition PString :: "string \<Rightarrow> srom \<Rightarrow> srom" where
  "PString str s = pad (s @ of_nat (length str) # chars str)"

definition emit :: "(srom \<Rightarrow> srom) list \<Rightarrow> srom \<Rightarrow> srom" where
  "emit fs s = fold (\<lambda>f. f) fs s"

subsection \<open>Video parameters\<close>

definition pixel_words :: "int \<Rightarrow> u16 list" where
  "pixel_words depth =
     (if depth = VMODE_1BIT then [0, 1, 1, 1]
      else if depth = VMODE_2BIT then [0, 2, 1, 2]
      else if depth = VMODE_4BIT then [0, 4, 1, 4]
      else if depth = VMODE_8BIT then [0, 8, 1, 8]
      else if depth = VMODE_16BIT then [16, 16, 3, 5]
      else if depth = VMODE_32BIT then [16, 32, 3, 8]
      else [0, 8, 1, 8])"

definition VModeParms :: "video_desc \<Rightarrow> int \<Rightarrow> srom \<Rightarrow> u32 \<times> srom" where
  "VModeParms mon depth s =
     (let row_bytes = Video_BytesPerRowForMode (sint (mon_x mon)) depth
      in (at s,
          emit ([Long 50, Long 0, Word (ucast row_bytes), Word 0, Word 0, Word (ucast (mon_y mon)), Word (ucast (mon_x mon)),
                 Word 0, Word 0, Long 0, Long 0x00480000, Long 0x00480000]
                @ map Word (pixel_words depth) @ [Long 0, Long 0]) s))"

definition VModeDesc :: "u32 \<Rightarrow> bool \<Rightarrow> srom \<Rightarrow> u32 \<times> srom" where
  "VModeDesc params direct s =
     (at s, emit [Offs 0x01 params, Rsrc 0x03 1, Rsrc 0x04 (if direct then 2 else 0), EndOfList] s)"

definition add_mode :: "video_desc \<Rightarrow> int \<Rightarrow> u32 list \<times> u32 list \<times> srom \<Rightarrow> u32 list \<times> u32 list \<times> srom" where
  "add_mode mon d st =
     (let (parms, modes, s) = st;
          (params, s1) = VModeParms mon d s;
          (mode, s2) = VModeDesc params (IsDirectMode d) s1
      in (parms @ [params], modes @ [mode], s2))"

subsection \<open>The sResources\<close>

definition slot_version :: string where
  "slot_version = ''V'' @ print_int 0 @ ''.'' @ print_int 5"

definition board_resource :: "string \<Rightarrow> srom \<Rightarrow> u32 \<times> srom" where
  "board_resource date_str s =
     (let boardType = at s; s1 = emit [Word 1, Word 0, Word 0, Word 0] s;
          boardName = at s1; s2 = String' ''Basilisk II Slot ROM'' s1;
          vendorID = at s2; s3 = String' ''Christian Bauer'' s2;
          revLevel = at s3; s4 = String' slot_version s3;
          partNum = at s4; s5 = String' ''BasiliskII'' s4;
          date = at s5; s6 = String' date_str s5;
          vendorInfo = at s6;
          s7 = emit [Offs 0x01 vendorID, Offs 0x03 revLevel, Offs 0x04 partNum, Offs 0x05 date, EndOfList] s6
      in (at s7,
          emit [Offs 0x01 boardType, Offs 0x02 boardName, Rsrc 0x20 0x4232, Offs 0x24 vendorInfo, EndOfList] s7))"

definition video_driver :: "srom \<Rightarrow> srom" where
  "video_driver s =
     emit ([Long 0x72, Word 0x4c00, Word 0, Word 0, Word 0, Word 0x32, Word 0x36, Word 0x3a, Word 0x46, Word 0x6c,
            PString ''.Display_Video_Apple_Basilisk'', Word 1]
           @ map Word [0x7118, 0x4e75, 0x70ff, 0x600e, 0x7119, 0x0c68, 0x0001, 0x001a, 0x6604, 0x4e75,
                       0x711a, 0x3228, 0x0006, 0x0801, 0x0009, 0x670c, 0x4a40, 0x6f02, 0x4240, 0x3140, 0x0010, 0x4e75,
                       0x4a40, 0x6f04, 0x4240, 0x4e75, 0x2f38, 0x08fc, 0x4e75, 0x70e8, 0x4e75]) s"

definition gamma_longs :: "u32 list" where
  "gamma_longs = [
     0x0005090B, 0x0E101315, 0x17191B1D, 0x1E202224, 0x2527282A, 0x2C2D2F30, 0x31333436, 0x37383A3B,
     0x3C3E3F40, 0x42434445, 0x4748494A, 0x4B4D4E4F, 0x50515254, 0x55565758, 0x595A5B5C, 0x5E5F6061,
     0x62636465, 0x66676869, 0x6A6B6C6D, 0x6E6F7071, 0x72737475, 0x76777879, 0x7A7B7C7D, 0x7E7F8081,
     0x81828384, 0x85868788, 0x898A8B8C, 0x8C8D8E8F, 0x90919293, 0x94959596, 0x9798999A, 0x9B9B9C9D,
     0x9E9FA0A1, 0xA1A2A3A4, 0xA5A6A6A7, 0xA8A9AAAB, 0xABACADAE, 0xAFB0B0B1, 0xB2B3B4B4, 0xB5B6B7B8,
     0xB8B9BABB, 0xBCBCBDBE, 0xBFC0C0C1, 0xC2C3C3C4, 0xC5C6C7C7, 0xC8C9CACA, 0xCBCCCDCD, 0xCECFD0D0,
     0xD1D2D3D3, 0xD4D5D6D6, 0xD7D8D9D9, 0xDADBDCDC, 0xDDDEDFDF, 0xE0E1E1E2, 0xE3E4E4E5, 0xE6E7E7E8,
     0xE9E9EAEB, 0xECECEDEE, 0xEEEFF0F1, 0xF1F2F3F3, 0xF4F5F5F6, 0xF7F8F8F9, 0xFAFAFBFC, 0xFCFDFEFF]"

definition gamma_table :: "srom \<Rightarrow> srom" where
  "gamma_table s =
     emit ([Long (38 + 0x100), Word 0x2000, String' ''Mac HiRes Std Gamma'', Word 0, Word 0, Word 0, Word 1, Word 0x0100,
            Word 8] @ map Long gamma_longs) s"

text \<open>The literals of the video sResource, up to the gamma directory.\<close>

definition video_literals :: "video_desc \<Rightarrow> u32 \<Rightarrow> srom \<Rightarrow> (u32 \<times> u32 \<times> u32 \<times> u32 \<times> u32 \<times> u32) \<times> srom" where
  "video_literals mon frame_size s =
     (let videoType = at s; s1 = emit [Word 3, Word 1, Word 1, Word 0x4232] s;
          videoName = at s1; s2 = String' ''Display_Video_Apple_Basilisk'' s1;
          minorBase = at s2; s3 = Long (mac_frame_base mon) s2;
          minorLength = at s3;
          s4 = Long (if frame_size \<noteq> 0 then frame_size else bytes_per_row mon * mon_y mon) s3;
          videoDrvr = at s4; s5 = video_driver s4;
          vidDrvrDir = at s5; s6 = emit [Offs 0x02 videoDrvr, EndOfList] s5;
          defaultGamma = at s6; s7 = gamma_table s6;
          gammaDir = at s7
      in ((videoType, videoName, vidDrvrDir, minorBase, minorLength, gammaDir),
          emit [Offs 0x80 defaultGamma, EndOfList] s7))"

text \<open>The video sResource; the positions of the parameter blocks are kept for later patches.\<close>

definition video_resource :: "video_desc \<Rightarrow> u32 \<Rightarrow> srom \<Rightarrow> u32 list \<times> u32 \<times> srom" where
  "video_resource mon frame_size s =
     (let ((videoType, videoName, vidDrvrDir, minorBase, minorLength, gammaDir), s8) = video_literals mon frame_size s;
          (parms, vidMode, s9) = fold (add_mode mon) [0, 1, 2, 3, 4, 5] ([], [], s8)
      in (parms, at s9,
          emit [Offs 0x01 videoType, Offs 0x02 videoName, Offs 0x04 vidDrvrDir, Rsrc 0x08 0x4232, Offs 0x0a minorBase,
                Offs 0x0b minorLength, Offs 0x40 gammaDir, Rsrc 0x7d 6, Offs 0x80 (vidMode ! 0), Offs 0x81 (vidMode ! 1),
                Offs 0x82 (vidMode ! 2), Offs 0x83 (vidMode ! 3), Offs 0x84 (vidMode ! 4), Offs 0x85 (vidMode ! 5),
                EndOfList] s9))"

definition cpu_resource :: "srom \<Rightarrow> u32 \<times> srom" where
  "cpu_resource s =
     (let cpuType = at s; s1 = emit [Word 10, Word 3, Word 0, Word 24] s;
          cpuName = at s1; s2 = String' ''CPU_68020'' s1;
          cpuMajor = at s2; s3 = emit [Long 0, Long 0x7fffffff] s2;
          cpuMinor = at s3; s4 = emit [Long 0xf0800000, Long 0xf0ffffff] s3
      in (at s4, emit [Offs 0x01 cpuType, Offs 0x02 cpuName, Offs 0x81 cpuMajor, Offs 0x82 cpuMinor, EndOfList] s4))"

definition ether_driver :: "srom \<Rightarrow> srom" where
  "ether_driver s =
     emit ([Long 0x88, Word 0x4400, Word 0, Word 0, Word 0, Word 0x4a, Word 0x4e, Word 0x52, Word 0x4e, Word 0x82,
            PString ''.ENET'', Word 0x0111, Word 0x8000, Word 0, PString ''1.1.1  '',
            PString ''Basilisk II Ethernet Network Driver'']
           @ map Word [0x7120, 0x4e75, 0x70ef, 0x600c, 0x7121, 0x0c68, 0x0001, 0x001a, 0x6602, 0x4e75,
                       0x3228, 0x0006, 0x0801, 0x0009, 0x670c, 0x4a40, 0x6f02, 0x4240, 0x3140, 0x0010, 0x4e75,
                       0x4a40, 0x6f04, 0x4240, 0x4e75, 0x2f38, 0x08fc, 0x4e75, 0x70e8, 0x4e75]) s"

definition ether_resource :: "srom \<Rightarrow> u32 \<times> srom" where
  "ether_resource s =
     (let etherType = at s; s1 = emit [Word 4, Word 1, Word 1, Word 0x4232] s;
          etherName = at s1; s2 = String' ''Network_Ethernet_Apple_BasiliskII'' s1;
          etherDrvr = at s2; s3 = ether_driver s2;
          etherDrvrDir = at s3; s4 = emit [Offs 0x02 etherDrvr, EndOfList] s3
      in (at s4,
          emit [Offs 0x01 etherType, Offs 0x02 etherName, Offs 0x04 etherDrvrDir, Rsrc 0x07 0, Rsrc 0x08 0x4232,
                EndOfList] s4))"

definition format_block :: "u32 \<Rightarrow> srom \<Rightarrow> srom" where
  "format_block sRsrcDir s =
     (let s1 = Offs 0 sRsrcDir s
      in emit [Long (at s1 + 16), Long 0, Word 0x0101, Long 0x5a932bc7, Word 0x000f] s1)"

definition build_slot_rom :: "string \<Rightarrow> video_desc \<Rightarrow> u32 \<Rightarrow> u32 list \<times> srom" where
  "build_slot_rom date_str mon frame_size =
     (let (sRsrcBoard, s1) = board_resource date_str [];
          (parms, sRsrcVideo, s2) = video_resource mon frame_size s1;
          (sRsrcCPU, s3) = cpu_resource s2;
          (sRsrcEther, s4) = ether_resource s3;
          sRsrcDir = at s4;
          s5 = emit [Offs 0x01 sRsrcBoard, Offs 0x80 sRsrcVideo, Offs 0xf0 sRsrcCPU, Offs 0xf1 sRsrcEther, EndOfList] s4
      in (parms, format_block sRsrcDir s5))"

subsection \<open>The copy in the ROM\<close>

definition slot_addr :: "slot_rom \<Rightarrow> mac \<Rightarrow> nat \<Rightarrow> u32" where
  "slot_addr sl m i = rom_base m + SlotROMOffset sl + of_nat i"

definition crc_step :: "u8 \<Rightarrow> u32 \<Rightarrow> u32" where
  "crc_step b crc = (push_bit 1 crc OR drop_bit 31 crc) + ucast b"

definition slot_crc :: "u8 list \<Rightarrow> u32" where
  "slot_crc bs = fold crc_step bs 0"

definition ChecksumSlotROM :: "slot_rom \<Rightarrow> mac \<Rightarrow> mac" where
  "ChecksumSlotROM sl m =
     (if slot_rom_size sl \<le> 12 then m
      else (let field = slot_addr sl m (slot_rom_size sl - 12);
                m1 = store field [0, 0, 0, 0] m;
                crc = slot_crc (fetch m1 (slot_addr sl m 0) (slot_rom_size sl))
            in store field (be32 crc) m1))"

definition SlotROM_PatchMode :: "int \<Rightarrow> int \<Rightarrow> int \<Rightarrow> u32 \<Rightarrow> slot_rom \<Rightarrow> mac \<Rightarrow> mac" where
  "SlotROM_PatchMode mode width height row_bytes sl m =
     (if mode < VMODE_1BIT \<or> mode > VMODE_32BIT \<or> SlotROMOffset sl = 0 then m
      else (let off = vmode_parm_off sl ! nat mode
            in if off = 0 then m
               else (let block = rom_base m + SlotROMOffset sl + off
                     in ChecksumSlotROM sl
                          (store (block + 14) (be16 (word_of_int height) @ be16 (word_of_int width))
                            (store (block + 8) (be16 (ucast row_bytes)) m)))))"

definition InstallSlotROM :: "string \<Rightarrow> video_desc \<Rightarrow> u32 \<Rightarrow> mac \<Rightarrow> slot_rom \<times> mac" where
  "InstallSlotROM date_str mon frame_size m =
     (let (parms, srom) = build_slot_rom date_str mon frame_size;
          sl = \<lparr>SlotROMOffset = rom_size m - at srom, slot_rom_size = length srom, vmode_parm_off = parms\<rparr>
      in (sl, ChecksumSlotROM sl (store (slot_addr sl m 0) srom m)))"

end
