(* ===== verification/Video.thy ===== *)
theory Video
  imports Slot_ROM Video_Modes Device_Manager
begin

section \<open>The video driver\<close>

text \<open>
  \<open>video.cpp\<close> with the SDL backend of its mode switch (\<open>SDL/video_sdl.cpp\<close>): the list of
  resolutions, the current mode, the driver's Open, Control and Status, and switching depth
  and size inside the frame buffer that was reserved at start-up. Control and Status are
  called after Open, so \<open>VidLocal.desc\<close> is the one monitor; \<open>vid_open\<close> says that Open has run.
  Whether SDL can set a mode is an argument (\<open>sdl\<close>: width, height, host depth). The palette
  given to the host is \<open>host_palette\<close>, notifications of the window code are listed in
  \<open>notified\<close>. Screen sizes are small enough for C \<open>int\<close>s.

  A write behind the 256 entries of the palette is undefined; the result of such a call is
  \<open>None\<close>.
\<close>

record video = env +
  VideoMonitor :: video_desc
  VideoPresets :: "(int \<times> int) list"
  max_width :: int
  max_height :: int
  current_id :: u32
  current_apple :: u16
  preferred_apple :: u16
  preferred_id :: u32
  dm_present :: bool
  slot_param :: u32
  dce_slot :: u8
  dce_slot_id :: u8
  vdce :: u32
  cntrl_pb :: u32
  switch_info :: u32
  custom_id :: u32
  custom_width :: int
  custom_height :: int
  vid_open :: bool
  palette :: "u8 list"
  luminance_mapping :: bool
  interrupts_enabled :: bool
  guest_notify :: bool
  notified :: "(int \<times> int) list"
  host_palette :: "u8 list"
  have_palette :: bool
  host_depth :: int
  classic_mode :: bool
  screen_ready :: bool
  in_mode_switch :: bool
  MacFrameSize :: u32
  slot :: slot_rom

type_synonym sdl = "int \<Rightarrow> int \<Rightarrow> int \<Rightarrow> bool"

definition VIDEO_MIN_WIDTH :: int where "VIDEO_MIN_WIDTH = 512"
definition VIDEO_MIN_HEIGHT :: int where "VIDEO_MIN_HEIGHT = 384"
definition VIDEO_DEFAULT_WIDTH :: int where "VIDEO_DEFAULT_WIDTH = 1152"
definition VIDEO_DEFAULT_HEIGHT :: int where "VIDEO_DEFAULT_HEIGHT = 870"
definition VIDEO_MAX_WIDTH :: int where "VIDEO_MAX_WIDTH = 1920"
definition VIDEO_MAX_HEIGHT :: int where "VIDEO_MAX_HEIGHT = 1080"

lemmas video_sizes = VIDEO_MIN_WIDTH_def VIDEO_MIN_HEIGHT_def VIDEO_DEFAULT_WIDTH_def VIDEO_DEFAULT_HEIGHT_def
  VIDEO_MAX_WIDTH_def VIDEO_MAX_HEIGHT_def

definition MacFrameBaseMac :: u32 where "MacFrameBaseMac = 0xa0000000"

subsection \<open>Resolutions and depths\<close>

definition kBasePresets :: "(int \<times> int) list" where
  "kBasePresets = [(640, 480), (800, 600), (1024, 768), (1152, 870), (1280, 720), (1280, 1024), (1600, 900), (1920, 1080)]"

definition kMaxPresets :: nat where
  "kMaxPresets = length kBasePresets + 1"

definition kFirstAppleMode :: u32 where "kFirstAppleMode = 0x80"
definition kCustomDisplayModeID :: u32 where "kCustomDisplayModeID = 0xC0"
definition kLastCustomDisplayModeID :: u32 where "kLastCustomDisplayModeID = 0xCF"

definition Video_BuildPresets :: "int \<Rightarrow> int \<Rightarrow> video \<Rightarrow> video" where
  "Video_BuildPresets host_width0 host_height0 v =
     (let host_width = max host_width0 VIDEO_MIN_WIDTH; host_height = max host_height0 VIDEO_MIN_HEIGHT;
          fit = filter (\<lambda>(w, h). w \<le> host_width \<and> h \<le> host_height) kBasePresets;
          ps = (if (host_width, host_height) \<notin> set fit \<and> length fit < kMaxPresets then fit @ [(host_width, host_height)] else fit)
      in v\<lparr>VideoPresets := ps,
           max_width := fold (\<lambda>(w, h) x. if w > x then w else x) ps VIDEO_MIN_WIDTH,
           max_height := fold (\<lambda>(w, h) x. if h > x then h else x) ps VIDEO_MIN_HEIGHT\<rparr>)"

definition Video_GetPreset :: "int \<Rightarrow> video \<Rightarrow> (int \<times> int) option" where
  "Video_GetPreset index v =
     (if index < 0 \<or> index \<ge> int (length (VideoPresets v)) then None else Some (VideoPresets v ! nat index))"

definition Video_ResolutionIDForSize :: "int \<Rightarrow> int \<Rightarrow> video \<Rightarrow> u32" where
  "Video_ResolutionIDForSize width height v =
     (case find_index (\<lambda>p. p = (width, height)) (VideoPresets v) of
        Some i \<Rightarrow> kFirstAppleMode + of_nat i
      | None \<Rightarrow>
          if custom_id v \<noteq> 0 \<and> custom_width v = width \<and> custom_height v = height then custom_id v else 0)"

definition Video_SizeForResolutionID :: "u32 \<Rightarrow> video \<Rightarrow> (int \<times> int) option" where
  "Video_SizeForResolutionID ident v =
     (if custom_id v \<noteq> 0 \<and> ident = custom_id v \<and> custom_width v > 0 \<and> custom_height v > 0
      then Some (custom_width v, custom_height v)
      else if ident < kFirstAppleMode \<or> ident \<ge> kFirstAppleMode + of_nat (length (VideoPresets v)) then None
      else Some (VideoPresets v ! unat (ident - kFirstAppleMode)))"

definition Video_AppleModeForDepth :: "int \<Rightarrow> u16" where
  "Video_AppleModeForDepth mode = (if mode < VMODE_1BIT \<or> mode > VMODE_32BIT then 0 else ucast (kFirstAppleMode + word_of_int mode))"

definition Video_DepthForAppleMode :: "u16 \<Rightarrow> int" where
  "Video_DepthForAppleMode apple =
     (if uint apple < 0x80 \<or> uint apple > 0x80 + VMODE_32BIT then -1 else uint apple - 0x80)"

definition Video_MaxAppleMode :: u16 where
  "Video_MaxAppleMode = Video_AppleModeForDepth VMODE_32BIT"

definition Video_ReservedFrameBytes :: "video \<Rightarrow> u32" where
  "Video_ReservedFrameBytes v = Video_BytesPerRowForMode (max_width v) VMODE_32BIT * word_of_int (max_height v)"

definition Video_RegisterGuestSize :: "int \<Rightarrow> int \<Rightarrow> video \<Rightarrow> u32 \<times> video" where
  "Video_RegisterGuestSize width height v =
     (let ident = Video_ResolutionIDForSize width height v
      in if ident \<noteq> 0 then (ident, v)
         else (let new = (if custom_id v < kCustomDisplayModeID \<or> custom_id v \<ge> kLastCustomDisplayModeID
                          then kCustomDisplayModeID else custom_id v + 1)
               in (new, v\<lparr>custom_width := width, custom_height := height, custom_id := new\<rparr>)))"

subsection \<open>Switching modes\<close>

definition Video_NoteCurrentMode :: "int \<Rightarrow> int \<Rightarrow> video \<Rightarrow> video" where
  "Video_NoteCurrentMode width height v =
     (let v1 = v\<lparr>current_id := Video_ResolutionIDForSize width height v,
                 current_apple := Video_AppleModeForDepth (mon_mode (VideoMonitor v))\<rparr>
      in if SlotROMOffset (slot v1) \<noteq> 0
         then v1\<lparr>dmem := SlotROM_PatchMode (mon_mode (VideoMonitor v)) width height
                            (Video_BytesPerRowForMode width (mon_mode (VideoMonitor v))) (slot v1) (dmem v1)\<rparr>
         else v1)"

definition video_set_palette :: "u8 list \<Rightarrow> video \<Rightarrow> video" where
  "video_set_palette pal v = v\<lparr>host_palette := pal, have_palette := True\<rparr>"

definition host_depth_for_mode :: "int \<Rightarrow> int" where
  "host_depth_for_mode m = (if m = VMODE_16BIT then 16 else if m = VMODE_32BIT then 32 else 8)"

definition set_video_monitor :: "int \<Rightarrow> int \<Rightarrow> u32 \<Rightarrow> int \<Rightarrow> video \<Rightarrow> video" where
  "set_video_monitor width height row mac_mode v =
     v\<lparr>VideoMonitor := (VideoMonitor v)
        \<lparr>mon_mode := (if mac_mode < VMODE_1BIT \<or> mac_mode > VMODE_32BIT then VMODE_8BIT else mac_mode),
         mon_x := word_of_int width, mon_y := word_of_int height, bytes_per_row := row\<rparr>\<rparr>"

definition set_frame_base :: "video \<Rightarrow> video" where
  "set_frame_base v = v\<lparr>VideoMonitor := (VideoMonitor v)\<lparr>mac_frame_base := MacFrameBaseMac\<rparr>\<rparr>"

definition clamp_mode_size :: "int \<Rightarrow> int \<Rightarrow> video \<Rightarrow> int \<times> int" where
  "clamp_mode_size width height v =
     (min (max width VIDEO_MIN_WIDTH) (max_width v), min (max height VIDEO_MIN_HEIGHT) (max_height v))"

definition new_surface :: "int \<Rightarrow> video \<Rightarrow> video" where
  "new_surface next_host v =
     (let v1 = v\<lparr>host_depth := next_host\<rparr> in if have_palette v1 then video_set_palette (host_palette v1) v1 else v1)"

definition clear_frame :: "u32 \<Rightarrow> int \<Rightarrow> video \<Rightarrow> video" where
  "clear_frame row height v = v\<lparr>dmem := Mac_memset MacFrameBaseMac 0 (unat (row * word_of_int height)) (dmem v)\<rparr>"

definition notify_guest :: "int \<Rightarrow> int \<Rightarrow> video \<Rightarrow> video" where
  "notify_guest width height v = (if guest_notify v then v\<lparr>notified := notified v @ [(width, height)]\<rparr> else v)"

definition change_mode :: "sdl \<Rightarrow> int \<Rightarrow> int \<Rightarrow> int \<Rightarrow> video \<Rightarrow> bool \<times> video" where
  "change_mode sdl width height mode v =
     (let old = VideoMonitor v;
          row = Video_BytesPerRowForMode width mode;
          next_host = host_depth_for_mode mode;
          unchanged = (word_of_int width = mon_x old \<and> word_of_int height = mon_y old \<and> next_host = host_depth v);
          v1 = set_frame_base (set_video_monitor width height row mode v)
      in if \<not> unchanged \<and> \<not> sdl width height next_host
         then (False, set_frame_base (set_video_monitor (sint (mon_x old)) (sint (mon_y old)) (bytes_per_row old) (mon_mode old) v1))
         else (let v2 = (if unchanged then v1 else new_surface next_host v1)
               in (True, notify_guest width height (Video_NoteCurrentMode width height (clear_frame row height v2)))))"

definition Video_SwitchToModeDepth :: "sdl \<Rightarrow> int \<Rightarrow> int \<Rightarrow> int \<Rightarrow> video \<Rightarrow> bool \<times> video" where
  "Video_SwitchToModeDepth sdl width0 height0 mode v =
     (if classic_mode v \<or> \<not> screen_ready v \<or> mode < VMODE_1BIT \<or> mode > VMODE_32BIT then (False, v)
      else (let (width, height) = clamp_mode_size width0 height0 v; old = VideoMonitor v
            in if word_of_int width = mon_x old \<and> word_of_int height = mon_y old \<and> mode = mon_mode old then (True, v)
               else if in_mode_switch v then (False, v)
               else change_mode sdl width height mode v))"

definition Video_SwitchToMode :: "sdl \<Rightarrow> int \<Rightarrow> int \<Rightarrow> video \<Rightarrow> bool \<times> video" where
  "Video_SwitchToMode sdl width height v = Video_SwitchToModeDepth sdl width height (mon_mode (VideoMonitor v)) v"

text \<open>A warm reset: the guest's pointers are dropped and the boot mode is set.\<close>

definition Video_ResetForWarmStart :: "sdl \<Rightarrow> video \<Rightarrow> video" where
  "Video_ResetForWarmStart sdl v =
     (let apple = Video_AppleModeForDepth VMODE_8BIT;
          v1 = v\<lparr>vdce := 0, cntrl_pb := 0, switch_info := 0, slot_param := 0, custom_width := 0, custom_height := 0,
                 custom_id := 0, dm_present := False, current_id := kFirstAppleMode, current_apple := apple,
                 preferred_apple := apple, preferred_id := kFirstAppleMode, guest_notify := False\<rparr>;
          (ok, v2) = Video_SwitchToModeDepth sdl VIDEO_DEFAULT_WIDTH VIDEO_DEFAULT_HEIGHT VMODE_8BIT v1
      in v2\<lparr>guest_notify := guest_notify v\<rparr>)"

subsection \<open>What other parts ask\<close>

definition Video_MaxWidth :: "video \<Rightarrow> int" where "Video_MaxWidth v = max_width v"
definition Video_MaxHeight :: "video \<Rightarrow> int" where "Video_MaxHeight v = max_height v"
definition Video_PresetCount :: "video \<Rightarrow> int" where "Video_PresetCount v = int (length (VideoPresets v))"
definition Video_HasDepth :: "int \<Rightarrow> bool" where "Video_HasDepth mode \<longleftrightarrow> VMODE_1BIT \<le> mode \<and> mode \<le> VMODE_32BIT"
definition Video_CurrentAppleMode :: "video \<Rightarrow> u16" where "Video_CurrentAppleMode v = current_apple v"
definition Video_CurrentResolutionID :: "video \<Rightarrow> u32" where "Video_CurrentResolutionID v = current_id v"
definition Video_EnableGuestNotify :: "bool \<Rightarrow> video \<Rightarrow> video" where "Video_EnableGuestNotify enable v = v\<lparr>guest_notify := enable\<rparr>"
definition Video_GuestNotifyEnabled :: "video \<Rightarrow> bool" where "Video_GuestNotifyEnabled v = guest_notify v"
definition Video_DisplayManagerPresent :: "video \<Rightarrow> bool" where "Video_DisplayManagerPresent v = dm_present v"

definition Video_BytesPerRow :: "int \<Rightarrow> video \<Rightarrow> u32" where
  "Video_BytesPerRow width v = Video_BytesPerRowForMode width (mon_mode (VideoMonitor v))"

end
