(* ===== verification/Video_Driver.thy ===== *)
theory Video_Driver
  imports Video
begin

section \<open>The entry points of the video driver\<close>

text \<open>
  \<open>video.cpp\<close>: Open, Control, Status, the update of the Slot Resource Table and the mode change
  the host asks for; and \<open>VideoInit\<close> of \<open>SDL/video_sdl.cpp\<close>. \<open>os\<close> is the guest's traps. The result
  codes are signed 16-bit numbers.
\<close>

definition ioRefNum :: u32 where "ioRefNum = 24"
definition SIZEOF_IOParam :: u32 where "SIZEOF_IOParam = 50"
definition dCtlRefNum :: u32 where "dCtlRefNum = 24"
definition dCtlSlot :: u32 where "dCtlSlot = 40"
definition dCtlSlotId :: u32 where "dCtlSlotId = 41"
definition dCtlDevBase :: u32 where "dCtlDevBase = 42"

definition grays :: "u8 list" where
  "grays = replicate 768 127"

definition set_cursor_busy :: "u32 \<Rightarrow> video \<Rightarrow> video" where
  "set_cursor_busy busy v = wr8 0x8cd busy v"

definition set_gray_palette :: "video \<Rightarrow> video" where
  "set_gray_palette v = video_set_palette grays (v\<lparr>palette := grays\<rparr>)"

definition frame_base :: "video \<Rightarrow> u32" where
  "frame_base v = mac_frame_base (VideoMonitor v)"

subsection \<open>The Slot Resource Table\<close>

definition rom_range :: "mac \<Rightarrow> u32 \<Rightarrow> u32 \<Rightarrow> bool" where
  "rom_range m ptr n \<longleftrightarrow> ptr \<ge> rom_base m \<and> ptr + n \<le> rom_base m + rom_size m"

definition patch_minor_base :: "u32 \<Rightarrow> video \<Rightarrow> video" where
  "patch_minor_base ptr v =
     (if rom_range (dmem v) ptr 4 then v\<lparr>dmem := store ptr (be32 (frame_base v)) (dmem v)\<rparr> else v)"

definition patch_parms :: "u32 \<Rightarrow> video \<Rightarrow> video" where
  "patch_parms ptr v =
     (if rom_range (dmem v) ptr 18
      then (let mon = VideoMonitor v
            in v\<lparr>dmem := store (ptr + 14) (be16 (ucast (mon_y mon)) @ be16 (ucast (mon_x mon)))
                            (store (ptr + 8) (be16 (ucast (bytes_per_row mon))) (dmem v))\<rparr>)
      else v)"

definition SlotManager :: "mac_os \<Rightarrow> u32 \<Rightarrow> u32 \<Rightarrow> video \<Rightarrow> u32 \<times> video" where
  "SlotManager os d0 a0 v = Execute68kTrap os 0xa06e d0 a0 v"

text \<open>Without the Display Manager the base addresses are set by the driver.\<close>

definition set_screen_base :: "video \<Rightarrow> video" where
  "set_screen_base v =
     (let base = frame_base v; v1 = wr32 0x898 base (wr32 0x824 base v); gdev = ReadMacInt32 (dmem v1) 0x8a4
      in if gdev \<noteq> 0 \<and> gdev \<noteq> 0xffffffff
         then (let gdev1 = ReadMacInt32 (dmem v1) gdev
               in if gdev1 \<noteq> 0
                  then (let pmap = ReadMacInt32 (dmem v1) (gdev1 + 0x16)
                        in if pmap \<noteq> 0 then wr32 (ReadMacInt32 (dmem v1) pmap) base v1 else v1)
                  else v1)
         else v1)"

definition SFindStruct :: "mac_os \<Rightarrow> u32 \<Rightarrow> u32 \<Rightarrow> video \<Rightarrow> u32 \<times> video" where
  "SFindStruct os ident a0 v = SlotManager os 0x0006 a0 (wr8 (slot_param v + spID) ident v)"

definition found_pointer :: "video \<Rightarrow> u32" where
  "found_pointer v = ReadMacInt32 (dmem v) (slot_param v + spPointer)"

text \<open>The calls of the Slot Manager hand on the register A0.\<close>

definition find_minor_base :: "mac_os \<Rightarrow> video \<Rightarrow> u32 \<times> u32 \<times> video" where
  "find_minor_base os v =
     (let sp = slot_param v;
          v1 = wr8 (sp + spExtDev) 0 (wr8 (sp + spID) (ucast (dce_slot_id v)) (wr8 (sp + spSlot) (ucast (dce_slot v)) v));
          (a1, v2) = SlotManager os 0x0016 sp v1;
          (a2, v3) = SFindStruct os 0x0a a1 v2
      in (found_pointer v2, a2, patch_minor_base (found_pointer v3) v3))"

definition find_mode_parms :: "mac_os \<Rightarrow> u32 \<Rightarrow> u32 \<Rightarrow> video \<Rightarrow> u32 \<times> video" where
  "find_mode_parms os rsrc a0 v =
     (let (a1, v1) = SFindStruct os (ucast (ucast (current_apple v) :: u8)) a0 (wr32 (slot_param v + spPointer) rsrc v);
          (a2, v2) = SFindStruct os 0x01 a1 v1
      in (a2, patch_parms (found_pointer v2) v2))"

definition checksum_and_update :: "mac_os \<Rightarrow> u32 \<Rightarrow> video \<Rightarrow> video" where
  "checksum_and_update os a0 v =
     (let v1 = v\<lparr>dmem := ChecksumSlotROM (slot v) (dmem v)\<rparr>
      in snd (SlotManager os 0x002b a0 (wr8 (slot_param v1 + spID) (ucast (dce_slot_id v1)) v1)))"

definition note_slot :: "u32 \<Rightarrow> u32 \<Rightarrow> video \<Rightarrow> video" where
  "note_slot dce param v =
     (let base = frame_base v;
          v1 = (if dce \<noteq> 0
                then wr32 (dce + dCtlDevBase) base
                       (v\<lparr>dce_slot := ucast (ReadMacInt8 (dmem v) (dce + dCtlSlot)),
                          dce_slot_id := ucast (ReadMacInt8 (dmem v) (dce + dCtlSlotId))\<rparr>)
                else v)
      in if param \<noteq> 0 then wr32 (param + csBaseAddr) base v1 else v1)"

definition Video_UpdateSlotTable :: "mac_os \<Rightarrow> u32 \<Rightarrow> u32 \<Rightarrow> video \<Rightarrow> video" where
  "Video_UpdateSlotTable os dce param v0 =
     (let v = note_slot dce param v0
      in if slot_param v = 0 then v
         else (let (rsrc, a1, v1) = find_minor_base os v;
                   (a2, v2) = find_mode_parms os rsrc a1 v1;
                   v3 = checksum_and_update os a2 v2
               in if dm_present v3 then v3 else set_screen_base v3))"

subsection \<open>Open\<close>

definition NewPtrSysClear :: "mac_os \<Rightarrow> u32 \<Rightarrow> video \<Rightarrow> u32 \<times> video" where
  "NewPtrSysClear os n v = Execute68kTrap os 0xa71e n 0 v"

text \<open>Blocks that are not there yet are allocated.\<close>

definition open_blocks :: "mac_os \<Rightarrow> video \<Rightarrow> video" where
  "open_blocks os v1 =
     (let v2 = (if slot_param v1 = 0 then (let (p, w) = NewPtrSysClear os SIZEOF_SPBlock v1 in w\<lparr>slot_param := p\<rparr>) else v1);
          v3 = (if cntrl_pb v2 = 0 then (let (p, w) = NewPtrSysClear os SIZEOF_IOParam v2 in w\<lparr>cntrl_pb := p\<rparr>) else v2)
      in if switch_info v3 = 0 then (let (p, w) = NewPtrSysClear os 16 v3 in w\<lparr>switch_info := p\<rparr>) else v3)"

definition VideoDriverOpen :: "mac_os \<Rightarrow> u32 \<Rightarrow> u32 \<Rightarrow> video \<Rightarrow> int \<times> video" where
  "VideoDriverOpen os pb dce v =
     (let v1 = v\<lparr>vid_open := True, luminance_mapping := False, interrupts_enabled := False, dm_present := False, vdce := dce,
                 dce_slot := (if dce \<noteq> 0 then ucast (ReadMacInt8 (dmem v) (dce + dCtlSlot)) else 0),
                 dce_slot_id := (if dce \<noteq> 0 then ucast (ReadMacInt8 (dmem v) (dce + dCtlSlotId)) else 0x80)\<rparr>;
          v4 = open_blocks os v1;
          mon = VideoMonitor v4; apple = Video_AppleModeForDepth (mon_mode mon);
          v5 = v4\<lparr>current_apple := apple, preferred_apple := apple,
                  preferred_id := Video_ResolutionIDForSize (sint (mon_x mon)) (sint (mon_y mon)) v4\<rparr>;
          v6 = Video_NoteCurrentMode (sint (mon_x mon)) (sint (mon_y mon)) v5
      in (noErr, if IsDirectMode (mon_mode mon) then v6 else set_gray_palette v6))"

subsection \<open>Control\<close>

definition luminance :: "bool \<Rightarrow> u32 \<times> u32 \<times> u32 \<Rightarrow> u8 \<times> u8 \<times> u8" where
  "luminance mapped c =
     (let (r, g, b) = c; y = drop_bit 16 (r * 0x4ccc + g * 0x970a + b * 0x1c29)
      in if mapped then (ucast y, ucast y, ucast y) else (ucast r, ucast g, ucast b))"

definition entry_colour :: "mac \<Rightarrow> u32 \<Rightarrow> u32 \<times> u32 \<times> u32" where
  "entry_colour m s_pal = (drop_bit 8 (ReadMacInt16 m (s_pal + 2)), drop_bit 8 (ReadMacInt16 m (s_pal + 4)), drop_bit 8 (ReadMacInt16 m (s_pal + 6)))"

definition put_colour :: "nat \<Rightarrow> u8 \<times> u8 \<times> u8 \<Rightarrow> u8 list \<Rightarrow> u8 list option" where
  "put_colour i c pal =
     (let (r, g, b) = c in if i * 3 + 3 \<le> length pal then Some (patch (i * 3) [r, g, b] pal) else None)"

fun set_entries :: "mac \<Rightarrow> bool \<Rightarrow> bool \<Rightarrow> nat \<Rightarrow> u32 \<Rightarrow> nat \<Rightarrow> u8 list \<Rightarrow> u8 list option" where
  "set_entries m lum indexed 0 s_pal i pal = Some pal"
| "set_entries m lum indexed (Suc n) s_pal i pal =
     Option.bind (put_colour (if indexed then unat (ReadMacInt16 m s_pal) else i) (luminance lum (entry_colour m s_pal)) pal)
       (set_entries m lum indexed n (s_pal + 8) (i + 1))"

definition SetEntries :: "bool \<Rightarrow> u32 \<Rightarrow> video \<Rightarrow> (int \<times> video) option" where
  "SetEntries direct_call param v =
     (let m = dmem v; direct = IsDirectMode (mon_mode (VideoMonitor v))
      in if direct_call \<noteq> direct then Some (controlErr, v)
         else (let s_pal = ReadMacInt32 m (param + csTable); count = unat (ReadMacInt16 m (param + csCount));
                   start = ReadMacInt16 m (param + csStart)
               in if s_pal = 0 \<or> count > 255 then Some (paramErr, v)
                  else Option.bind (set_entries m (luminance_mapping v) (start = 0xffff) (count + 1) s_pal (unat start) (palette v))
                         (\<lambda>pal. Some (noErr, video_set_palette pal (v\<lparr>palette := pal\<rparr>)))))"

definition gray_pattern :: "int \<Rightarrow> u32" where
  "gray_pattern mode = [0xaaaaaaaa, 0xcccccccc, 0xf0f0f0f0, 0xff00ff00, 0xffff0000, 0xffffffff] ! nat mode"

fun gray_row :: "bool \<Rightarrow> nat \<Rightarrow> u32 \<Rightarrow> u32 \<Rightarrow> mac \<Rightarrow> u32 \<times> mac" where
  "gray_row flip 0 p2 pat m = (pat, m)"
| "gray_row flip (Suc n) p2 pat m = gray_row flip n (p2 + 4) (if flip then NOT pat else pat) (WriteMacInt32 p2 pat m)"

fun gray_rows :: "bool \<Rightarrow> u32 \<Rightarrow> nat \<Rightarrow> u32 \<Rightarrow> u32 \<Rightarrow> mac \<Rightarrow> mac" where
  "gray_rows flip row 0 p pat m = m"
| "gray_rows flip row (Suc n) p pat m =
     (let (pat1, m1) = gray_row flip (unat (row div 4)) p pat m in gray_rows flip row n (p + row) (NOT pat1) m1)"

definition GrayPage :: "video \<Rightarrow> video" where
  "GrayPage v =
     (let mon = VideoMonitor v
      in v\<lparr>dmem := gray_rows (mon_mode mon = VMODE_32BIT) (bytes_per_row mon) (unat (mon_y mon)) (mac_frame_base mon)
                      (gray_pattern (mon_mode mon)) (dmem v)\<rparr>)"

text \<open>The switch itself, with the notification of the window code off.\<close>

definition switch_quietly :: "sdl \<Rightarrow> int \<Rightarrow> int \<Rightarrow> int \<Rightarrow> video \<Rightarrow> bool \<times> video" where
  "switch_quietly sdl width height depth v =
     (let v1 = (set_cursor_busy 1 v)\<lparr>guest_notify := False\<rparr>;
          (ok, v2) = Video_SwitchToModeDepth sdl width height depth v1
      in (ok, set_cursor_busy 0 (v2\<lparr>guest_notify := True\<rparr>)))"

definition SetMode :: "mac_os \<Rightarrow> sdl \<Rightarrow> u32 \<Rightarrow> u32 \<Rightarrow> video \<Rightarrow> int \<times> video" where
  "SetMode os sdl dce param v0 =
     (let apple = ucast (ReadMacInt16 (dmem v0) (param + csMode)); v = wr32 (param + csBaseAddr) (frame_base v0) v0;
          depth = Video_DepthForAppleMode apple
      in if ReadMacInt16 (dmem v) (param + csPage) \<noteq> 0 \<or> depth < 0 then (paramErr, v)
         else if apple \<noteq> current_apple v
         then (let v1 = set_gray_palette v;
                   (ok, v2) = switch_quietly sdl (sint (mon_x (VideoMonitor v1))) (sint (mon_y (VideoMonitor v1))) depth v1
               in if \<not> ok then (controlErr, v2)
                  else (let v3 = Video_UpdateSlotTable os dce param v2 in (noErr, wr32 (param + csBaseAddr) (frame_base v3) v3)))
         else (noErr, wr32 (param + csBaseAddr) (frame_base v) v))"

definition resolution_size :: "u32 \<Rightarrow> video \<Rightarrow> (int \<times> int) option" where
  "resolution_size ident v =
     (if ident = kDisplayModeIDCurrent then Some (sint (mon_x (VideoMonitor v)), sint (mon_y (VideoMonitor v)))
      else Video_SizeForResolutionID ident v)"

definition SwitchMode :: "mac_os \<Rightarrow> sdl \<Rightarrow> u32 \<Rightarrow> u32 \<Rightarrow> video \<Rightarrow> int \<times> video" where
  "SwitchMode os sdl dce param v0 =
     (let apple = ucast (ReadMacInt16 (dmem v0) (param + csMode)); ident = ReadMacInt32 (dmem v0) (param + csData);
          v = wr32 (param + csBaseAddr) (frame_base v0) v0; depth = Video_DepthForAppleMode apple
      in if ReadMacInt16 (dmem v) (param + csPage) \<noteq> 0 \<or> depth < 0 then (paramErr, v)
         else (case resolution_size ident v of
                 None \<Rightarrow> (paramErr, v)
               | Some (width, height) \<Rightarrow>
                   (if apple \<noteq> current_apple v \<or> ident \<noteq> current_id v \<or>
                       width \<noteq> sint (mon_x (VideoMonitor v)) \<or> height \<noteq> sint (mon_y (VideoMonitor v))
                    then (let v1 = (if apple \<noteq> current_apple v then set_gray_palette v else v);
                              (ok, v2) = switch_quietly sdl width height depth v1
                          in if \<not> ok then (controlErr, v2)
                             else (let v3 = Video_UpdateSlotTable os dce param v2
                                   in (noErr, wr32 (param + csBaseAddr) (frame_base v3) v3)))
                    else (noErr, wr32 (param + csBaseAddr) (frame_base v) v))))"

definition SavePreferred :: "u32 \<Rightarrow> video \<Rightarrow> int \<times> video" where
  "SavePreferred param v =
     (let apple = ucast (ReadMacInt16 (dmem v) (param + csMode)); ident = ReadMacInt32 (dmem v) (param + csData)
      in if Video_DepthForAppleMode apple < 0 then (paramErr, v)
         else if ident \<noteq> kDisplayModeIDCurrent \<and> Video_SizeForResolutionID ident v = None then (paramErr, v)
         else (noErr, v\<lparr>preferred_apple := apple,
                        preferred_id := (if ident = kDisplayModeIDCurrent then current_id v else ident)\<rparr>))"

definition VideoDriverControl :: "mac_os \<Rightarrow> sdl \<Rightarrow> u32 \<Rightarrow> u32 \<Rightarrow> video \<Rightarrow> (int \<times> video) option" where
  "VideoDriverControl os sdl pb dce v =
     (let m = dmem v; code = ReadMacInt16 m (pb + csCode); param = ReadMacInt32 m (pb + csParam)
      in if code = cscSetMode then Some (SetMode os sdl dce param v)
         else if code = cscSetEntries then SetEntries False param v
         else if code = cscDirectSetEntries then SetEntries True param v
         else if code = cscSetGamma then Some (noErr, v)
         else if code = cscGrayPage then
           Some (if ReadMacInt16 m (param + csPage) \<noteq> 0 then (paramErr, v) else (noErr, GrayPage v))
         else if code = cscSetGray then Some (noErr, v\<lparr>luminance_mapping := ReadMacInt8 m (param + csMode) \<noteq> 0\<rparr>)
         else if code = cscSetDefaultMode then
           (let apple = ucast (ReadMacInt8 m (param + csMode))
            in Some (if Video_DepthForAppleMode apple < 0 then (paramErr, v) else (noErr, v\<lparr>preferred_apple := apple\<rparr>)))
         else if code = cscSwitchMode then Some (SwitchMode os sdl dce param v)
         else if code = cscSavePreferredConfiguration then Some (SavePreferred param v)
         else if code = cscSetInterrupt then Some (noErr, v\<lparr>interrupts_enabled := ReadMacInt8 m (param + csMode) = 0\<rparr>)
         else Some (controlErr, v))"

definition Video_DriverRefNum :: "video \<Rightarrow> u32" where
  "Video_DriverRefNum v = (if vdce v = 0 then 0 else ReadMacInt16 (dmem v) (vdce v + dCtlRefNum))"

text \<open>A size the host asks for goes through the driver.\<close>

definition Video_GuestSwitchToSize :: "mac_os \<Rightarrow> sdl \<Rightarrow> int \<Rightarrow> int \<Rightarrow> video \<Rightarrow> (int \<times> video) option" where
  "Video_GuestSwitchToSize os sdl width height v =
     (if vdce v = 0 \<or> cntrl_pb v = 0 \<or> switch_info v = 0 \<or> width < VIDEO_MIN_WIDTH \<or> height < VIDEO_MIN_HEIGHT
      then Some (paramErr, v)
      else (let (ident, v1) = Video_RegisterGuestSize width height v;
                si = switch_info v1; pb = cntrl_pb v1;
                v2 = wr16 (si + csMode) (ucast (current_apple v1)) v1;
                v3 = wr32 (si + csData) ident v2;
                v4 = wr16 (si + csPage) 0 v3;
                v5 = wr32 (si + csBaseAddr) (if vid_open v4 then frame_base v4 else 0) v4;
                v6 = wr16 (pb + ioRefNum) (Video_DriverRefNum v5) v5;
                v7 = wr16 (pb + csCode) cscSwitchMode v6;
                v8 = wr32 (pb + csParam) si v7
            in VideoDriverControl os sdl pb (vdce v8) v8))"

subsection \<open>Status\<close>

definition write_resolution_info :: "u32 \<Rightarrow> u32 \<Rightarrow> u32 \<Rightarrow> u32 \<Rightarrow> video \<Rightarrow> video" where
  "write_resolution_info param ident width height v =
     wr32 (param + csResolutionFlags) 0
       (wr16 (param + csMaxDepthMode) (ucast Video_MaxAppleMode)
         (wr32 (param + csRefreshRate) (push_bit 16 75)
           (wr32 (param + csVerticalLines) height
             (wr32 (param + csHorizontalPixels) width
               (wr32 (param + csRIDisplayModeID) ident v)))))"

definition GetNextResolution :: "u32 \<Rightarrow> video \<Rightarrow> int \<times> video" where
  "GetNextResolution param v =
     (let ident = ReadMacInt32 (dmem v) (param + csPreviousDisplayModeID); mon = VideoMonitor v
      in if ident = kDisplayModeIDCurrent then
           (noErr, write_resolution_info param (if current_id v \<noteq> 0 then current_id v else kFirstAppleMode) (mon_x mon) (mon_y mon) v)
         else if ident = kDisplayModeIDFindFirstResolution then
           (let (w, h) = VideoPresets v ! 0
            in (noErr, write_resolution_info param kFirstAppleMode (word_of_int w) (word_of_int h) v))
         else if Video_SizeForResolutionID ident v = None then (paramErr, v)
         else (case Video_SizeForResolutionID (ident + 1) v of
                 None \<Rightarrow> (noErr, wr32 (param + csRIDisplayModeID) kDisplayModeIDNoMoreResolutions v)
               | Some (w, h) \<Rightarrow> (noErr, write_resolution_info param (ident + 1) (word_of_int w) (word_of_int h) v)))"

text \<open>Pixel type, pixel size, components, component size and device type of a depth.\<close>

definition pixel_format :: "int \<Rightarrow> u32 \<times> u32 \<times> u32 \<times> u32 \<times> u32" where
  "pixel_format depth =
     (if depth = VMODE_1BIT then (0, 1, 1, 1, 0)
      else if depth = VMODE_2BIT then (0, 2, 1, 2, 0)
      else if depth = VMODE_4BIT then (0, 4, 1, 4, 0)
      else if depth = VMODE_8BIT then (0, 8, 1, 8, 0)
      else if depth = VMODE_16BIT then (0x10, 16, 3, 5, 2)
      else if depth = VMODE_32BIT then (0x10, 32, 3, 8, 2)
      else (0, 8, 1, 8, 0))"

definition write_vp_block :: "u32 \<Rightarrow> u32 \<Rightarrow> int \<Rightarrow> int \<Rightarrow> int \<Rightarrow> video \<Rightarrow> video" where
  "write_vp_block param vp width height depth v =
     (let row = Video_BytesPerRowForMode width depth; (pix_type, pix_size, cmp_count, cmp_size, dev_type) = pixel_format depth;
          v1 = wr16 (vp + vpBounds + 6) (word_of_int width)
                (wr16 (vp + vpBounds + 4) (word_of_int height)
                  (wr16 (vp + vpBounds + 2) 0
                    (wr16 (vp + vpBounds) 0
                      (wr16 (vp + vpRowBytes) row
                        (wr32 (vp + vpBaseOffset) 0 v)))));
          v2 = wr32 (vp + vpVRes) 0x00480000
                (wr32 (vp + vpHRes) 0x00480000
                  (wr32 (vp + vpPackSize) 0
                    (wr16 (vp + vpPackType) 0
                      (wr16 (vp + vpVersion) 0 v1))));
          v3 = wr32 (vp + vpPlaneBytes) 0
                (wr16 (vp + vpCmpSize) cmp_size
                  (wr16 (vp + vpCmpCount) cmp_count
                    (wr16 (vp + vpPixelSize) pix_size
                      (wr16 (vp + vpPixelType) pix_type v2))))
      in wr32 (param + csDeviceType) dev_type (wr32 (param + csPageCount) 1 v3))"

definition GetVideoParameters :: "u32 \<Rightarrow> video \<Rightarrow> int \<times> video" where
  "GetVideoParameters param v0 =
     (let m = dmem v0; ident = ReadMacInt32 m (param + csDisplayModeID);
          apple = ucast (ReadMacInt16 m (param + csDepthMode)); v = v0\<lparr>dm_present := True\<rparr>;
          depth = Video_DepthForAppleMode apple
      in if depth < 0 then (paramErr, v)
         else (case resolution_size ident v of
                 None \<Rightarrow> (paramErr, v)
               | Some (width, height) \<Rightarrow>
                   (let vp = ReadMacInt32 m (param + csVPBlockPtr)
                    in if vp = 0 then (paramErr, v) else (noErr, write_vp_block param vp width height depth v))))"

definition connect_info :: "u32 \<Rightarrow> video \<Rightarrow> video" where
  "connect_info p v =
     wr32 (p + csDisplayComponent) 0
       (wr32 (p + csConnectFlags) 0x43
         (wr8 (p + csConnectTaggedData) 0
           (wr8 (p + csConnectTaggedType) 0
             (wr16 (p + csDisplayType) kModelessConnect v))))"

definition GetModeTiming :: "u32 \<Rightarrow> video \<Rightarrow> int \<times> video" where
  "GetModeTiming param v =
     (let ident = ReadMacInt32 (dmem v) (param + csTimingMode)
      in if ident \<noteq> kDisplayModeIDCurrent \<and> ident \<noteq> current_id v \<and> Video_SizeForResolutionID ident v = None
         then (paramErr, v)
         else (let flags = (if ident = preferred_id v \<or> (ident = kDisplayModeIDCurrent \<and> current_id v = preferred_id v)
                            then 0x0f else 0x0b)
               in (noErr, wr32 (param + csTimingFlags) flags
                            (wr32 (param + csTimingData) 0 (wr32 (param + csTimingFormat) kDeclROMTimingFormat v)))))"

definition GetMultiConnect :: "u32 \<Rightarrow> video \<Rightarrow> int \<times> video" where
  "GetMultiConnect param v =
     (let conn = ReadMacInt32 (dmem v) (param + csDisplayCountOrNumber)
      in if conn = 0xffffffff then (noErr, wr32 (param + csDisplayCountOrNumber) 1 v)
         else if conn = 1 then (noErr, connect_info (param + csConnectInfo) v)
         else (paramErr, v))"

definition current_page :: "u32 \<Rightarrow> video \<Rightarrow> video" where
  "current_page param v = wr32 (param + csBaseAddr) (frame_base v) (wr16 (param + csPage) 0 v)"

definition VideoDriverStatus :: "u32 \<Rightarrow> u32 \<Rightarrow> video \<Rightarrow> int \<times> video" where
  "VideoDriverStatus pb dce v =
     (let code = ReadMacInt16 (dmem v) (pb + csCode); param = ReadMacInt32 (dmem v) (pb + csParam)
      in if code = cscGetMode then (noErr, current_page param (wr16 (param + csMode) (ucast (current_apple v)) v))
         else if code = cscGetPageCnt then (noErr, wr16 (param + csPage) 1 v)
         else if code = cscGetPageBase then (noErr, wr32 (param + csBaseAddr) (frame_base v) v)
         else if code = cscGetGray then (noErr, wr8 (param + csMode) (if luminance_mapping v then 1 else 0) v)
         else if code = cscGetInterrupt then (noErr, wr8 (param + csMode) (if interrupts_enabled v then 0 else 1) v)
         else if code = cscGetDefaultMode then (noErr, wr8 (param + csMode) (ucast (ucast (preferred_apple v) :: u8)) v)
         else if code = cscGetCurMode then
           (noErr, current_page param
                     (wr32 (param + csData) (if current_id v \<noteq> 0 then current_id v else kFirstAppleMode)
                       (wr16 (param + csMode) (ucast (current_apple v)) v)))
         else if code = cscGetConnection then (noErr, connect_info param (v\<lparr>dm_present := True\<rparr>))
         else if code = cscGetModeTiming then GetModeTiming param v
         else if code = cscGetPreferredConfiguration then
           (noErr, wr32 (param + csData) (preferred_id v) (wr16 (param + csMode) (ucast (preferred_apple v)) v))
         else if code = cscGetModeBaseAddress then (noErr, wr32 (param + csBaseAddr) (frame_base v) v)
         else if code = cscGetNextResolution then GetNextResolution param v
         else if code = cscGetVideoParameters then GetVideoParameters param v
         else if code = cscGetMultiConnect then GetMultiConnect param v
         else (statusErr, v))"

subsection \<open>Start-up\<close>

text \<open>\<open>sscanf\<close> with the format \<open>win/%d/%d\<close>, both numbers read.\<close>

definition scan_win :: "string \<Rightarrow> (int \<times> int) option" where
  "scan_win str =
     (if take 4 str = ''win/''
      then Option.bind (scan_int (drop 4 str))
             (\<lambda>(w, rest). if take 1 rest = ''/'' then map_option (\<lambda>(h, _). (w, h)) (scan_int (drop 1 rest)) else None)
      else None)"

definition init_window :: "sdl \<Rightarrow> int \<Rightarrow> int \<Rightarrow> video \<Rightarrow> video" where
  "init_window sdl width height v =
     set_frame_base
       (set_video_monitor width height (word_of_int width) (if host_depth v = 1 then VMODE_1BIT else VMODE_8BIT)
         (v\<lparr>screen_ready := sdl width height (host_depth v)\<rparr>))"

definition boot_size :: "string option \<Rightarrow> video \<Rightarrow> int \<times> int" where
  "boot_size mode_str v =
     (let (w, h) = (case Option.bind mode_str scan_win of None \<Rightarrow> (VIDEO_DEFAULT_WIDTH, VIDEO_DEFAULT_HEIGHT) | Some p \<Rightarrow> p)
      in (max (min w (max_width v)) VIDEO_MIN_WIDTH, max (min h (max_height v)) VIDEO_MIN_HEIGHT))"

definition VideoInit :: "sdl \<Rightarrow> bool \<Rightarrow> string option \<Rightarrow> int \<times> int \<Rightarrow> video \<Rightarrow> video" where
  "VideoInit sdl classic screen desktop v0 =
     (let mode_str = (if classic then Some ''win/512/342'' else screen);
          (host_w, host_h) = (if fst desktop > 0 \<and> snd desktop > 0 then desktop else (VIDEO_MAX_WIDTH, VIDEO_MAX_HEIGHT));
          v1 = Video_BuildPresets host_w host_h (v0\<lparr>classic_mode := classic, host_depth := (if classic then 1 else 8)\<rparr>);
          (width, height) = boot_size mode_str v1;
          v2 = init_window sdl width height v1;
          v3 = v2\<lparr>MacFrameSize := (if classic then bytes_per_row (VideoMonitor v2) * mon_y (VideoMonitor v2)
                                     else Video_ReservedFrameBytes v2)\<rparr>;
          v4 = Video_NoteCurrentMode width height v3
      in if classic then v4 else video_set_palette grays v4)"

end
