(* ===== verification/Slot_Image.thy ===== *)
theory Slot_Image
  imports Slot_ROM "HOL-Library.Sublist" Mac_Blocks
begin

section \<open>Facts about the declaration ROM\<close>

text \<open>
  A reference reader of declaration ROMs in the manner of the Slot Manager (lists of four-byte
  entries with an id and a 24-bit offset relative to the entry), and what it finds in what the
  builder wrote: building only appends, so a list that was written stays readable.
\<close>

subsection \<open>The reader\<close>

definition rd16 :: "u8 list \<Rightarrow> nat \<Rightarrow> u32" where
  "rd16 r q = of_be16 (r ! q) (r ! (q + 1))"

definition rd32 :: "u8 list \<Rightarrow> nat \<Rightarrow> u32" where
  "rd32 r q = of_be32 (r ! q) (r ! (q + 1)) (r ! (q + 2)) (r ! (q + 3))"

definition resolve :: "u8 list \<Rightarrow> nat \<Rightarrow> nat" where
  "resolve r q = (q + unat (of_be24 (r ! (q + 1)) (r ! (q + 2)) (r ! (q + 3)))) mod 2 ^ 24"

function find_entry :: "u8 list \<Rightarrow> u8 \<Rightarrow> nat \<Rightarrow> nat option" where
  "find_entry r ident q =
     (if length r < q + 4 \<or> r ! q = 0xff then None
      else if r ! q = ident then Some q else find_entry r ident (q + 4))"
  by pat_completeness auto
termination by (relation "measure (\<lambda>(r, ident, q). length r - q)") auto

declare find_entry.simps [simp del]

definition sub :: "u8 list \<Rightarrow> nat \<Rightarrow> u8 \<Rightarrow> nat option" where
  "sub r q ident = map_option (resolve r) (find_entry r ident q)"

lemma subI: "find_entry r ident q = Some e \<Longrightarrow> resolve r e = p \<Longrightarrow> sub r q ident = Some p"
  by (simp add: sub_def)

subsection \<open>Sizes\<close>

named_theorems srom_simps \<open>what the writers append\<close>

lemma emit_Nil [srom_simps]: "emit [] s = s"
  by (simp add: emit_def)

lemma emit_Cons [srom_simps]: "emit (f # fs) s = emit fs (f s)"
  by (simp add: emit_def)

lemma emit_append [srom_simps]: "emit (fs @ gs) s = emit gs (emit fs s)"
  by (simp add: emit_def)

lemma length_writers [srom_simps]:
  "length (Rsrc ty d s) = length s + 4" "length (Offs ty ptr s) = length s + 4"
  "length (EndOfList s) = length s + 4" "length (Long l s) = length s + 4" "length (Word w s) = length s + 2"
  by (simp_all add: Rsrc_def Offs_def EndOfList_def Long_def Word_def Let_def)

lemma length_pad [srom_simps]: "length (pad s) = length s + length s mod 2"
  by (simp add: pad_def odd_iff_mod_2_eq_one)

lemma length_strings [srom_simps]:
  "length (String' str s) = length s + length str + 1 + (length s + length str + 1) mod 2"
  "length (PString str s) = length s + length str + 1 + (length s + length str + 1) mod 2"
  by (simp_all add: String'_def PString_def length_pad chars_def)

lemma length_emit_words [srom_simps]: "length (emit (map Word ws) s) = length s + 2 * length ws"
  by (induction ws arbitrary: s) (simp_all add: srom_simps)

lemma length_emit_longs [srom_simps]: "length (emit (map Long ls) s) = length s + 4 * length ls"
  by (induction ls arbitrary: s) (simp_all add: srom_simps)

subsection \<open>Writing only appends\<close>

lemma prefix_writers:
  "prefix s (Rsrc ty d s)" "prefix s (Offs ty ptr s)" "prefix s (EndOfList s)" "prefix s (Long l s)"
  "prefix s (Word w s)" "prefix s (String' str s)" "prefix s (PString str s)"
  by (simp_all add: Rsrc_def Offs_def EndOfList_def Long_def Word_def String'_def PString_def pad_def Let_def)

lemma prefix_emit: "(\<And>f t. f \<in> set fs \<Longrightarrow> prefix t (f t)) \<Longrightarrow> prefix s (emit fs s)"
proof (induction fs arbitrary: s)
  case (Cons f fs)
  have "prefix s (f s)" "prefix (f s) (emit fs (f s))" using Cons by auto
  then show ?case by (simp add: emit_Cons)
qed (simp add: emit_Nil)

lemma prefix_nth: "prefix s t \<Longrightarrow> i < length s \<Longrightarrow> t ! i = s ! i"
  by (auto simp: prefix_def nth_append)

subsection \<open>Lists of entries\<close>

datatype slot_entry = OffsE u8 u32 | RsrcE u8 u32

fun entry_id :: "slot_entry \<Rightarrow> u8" where
  "entry_id (OffsE i p) = i"
| "entry_id (RsrcE i d) = i"

fun put_entry :: "slot_entry \<Rightarrow> srom \<Rightarrow> srom" where
  "put_entry (OffsE i p) = Offs i p"
| "put_entry (RsrcE i d) = Rsrc i d"

lemma length_put_entry: "length (put_entry e s) = length s + 4"
  by (cases e) (simp_all add: srom_simps)

lemma put_entry_id: "put_entry e s ! length s = entry_id e"
  by (cases e) (simp_all add: Offs_def Rsrc_def Let_def nth_append)

lemma prefix_put_entry: "prefix s (put_entry e s)"
  by (cases e) (simp_all add: prefix_writers)

lemma prefix_put_entries: "prefix s (emit (map put_entry es @ [EndOfList]) s)"
  by (rule prefix_emit) (auto simp: prefix_put_entry prefix_writers)

lemma of_be24_bytes: "unat (of_be24 (ucast (drop_bit 16 x)) (ucast (drop_bit 8 x)) (ucast (x :: u32))) = unat x mod 2 ^ 24"
proof -
  have "of_be24 (ucast (drop_bit 16 x)) (ucast (drop_bit 8 x)) (ucast x) = take_bit 24 x"
  proof (rule bit_word_eqI)
    fix n assume "n < LENGTH(32)"
    then consider "n < 8" | "8 \<le> n" "n < 16" | "16 \<le> n" "n < 24" | "24 \<le> n" "n < 32" by fastforce
    then show "bit (of_be24 (ucast (drop_bit 16 x)) (ucast (drop_bit 8 x)) (ucast x)) n = bit (take_bit 24 x) n"
      by cases (auto simp: of_be24_def bit_simps)
  qed
  then show ?thesis by (metis take_bit_eq_mod unsigned_take_bit_eq)
qed

lemma resolve_Offs:
  assumes "prefix (Offs ty ptr s) r" "unat ptr < 2 ^ 24" "length s < 2 ^ 24"
  shows "resolve r (length s) = unat ptr"
proof -
  let ?t = "Offs ty ptr s" and ?x = "ptr - at s"
  have n: "r ! (length s + k) = ?t ! (length s + k)" if "k < 4" for k
    using that by (intro prefix_nth [OF assms(1)]) (simp add: srom_simps)
  have b: "of_be24 (r ! (length s + 1)) (r ! (length s + 2)) (r ! (length s + 3)) =
      of_be24 (ucast (drop_bit 16 ?x)) (ucast (drop_bit 8 ?x)) (ucast ?x)"
    using n [of 1] n [of 2] n [of 3] by (simp add: Offs_def Let_def nth_append)
  have l: "unat (at s) = length s" using assms(3) by (simp add: at_def unat_of_nat_small)
  have "resolve r (length s) = (length s + unat ?x mod 2 ^ 24) mod 2 ^ 24" by (simp only: resolve_def b of_be24_bytes)
  also have "\<dots> = (length s + unat ?x) mod 2 ^ 24" by (rule mod_add_right_eq)
  also have "\<dots> = (length s + unat ?x) mod 2 ^ 32 mod 2 ^ 24"
    by (rule mod_mod_cancel [symmetric]) (simp add: le_imp_power_dvd)
  also have "(length s + unat ?x) mod 2 ^ 32 = unat (at s + ?x)" by (simp only: unat_word_ariths l len_bit0 len_num1) simp
  finally show ?thesis using assms(2) by simp
qed

lemma find_emitted:
  assumes "prefix (emit (map put_entry es @ [EndOfList]) s) r" "\<forall>e \<in> set es. entry_id e \<noteq> 0xff"
  shows "find_entry r ident (length s) =
           (case find (\<lambda>i. entry_id (es ! i) = ident) [0..<length es] of None \<Rightarrow> None | Some i \<Rightarrow> Some (length s + 4 * i))"
  using assms
proof (induction es arbitrary: s)
  case Nil
  then have p: "prefix (EndOfList s) r" by (simp add: srom_simps)
  have "EndOfList s ! length s = 0xff" by (simp add: EndOfList_def nth_append)
  moreover have "length s < length (EndOfList s)" by (simp add: srom_simps)
  ultimately have "r ! length s = 0xff" using prefix_nth [OF p] by metis
  then show ?case by (subst find_entry.simps) simp
next
  case (Cons e es)
  let ?s' = "put_entry e s"
  have p: "prefix (emit (map put_entry es @ [EndOfList]) ?s') r" using Cons.prems(1) by (simp add: srom_simps)
  have ps: "prefix ?s' r" using prefix_put_entries p by (rule prefix_order.trans)
  have h: "r ! length s = entry_id e"
    using prefix_nth [OF ps, of "length s"] by (simp add: length_put_entry put_entry_id)
  have l: "\<not> length r < length s + 4" using prefix_length_le [OF ps] by (simp add: length_put_entry)
  have ih: "find_entry r ident (length s + 4) =
      (case find (\<lambda>i. entry_id (es ! i) = ident) [0..<length es] of None \<Rightarrow> None | Some i \<Rightarrow> Some (length s + 4 + 4 * i))"
    using Cons.IH [OF p, unfolded length_put_entry] Cons.prems(2) by simp
  have sh: "find P (map Suc xs) = map_option Suc (find (\<lambda>i. P (Suc i)) xs)" for P xs by (induction xs) auto
  show ?case
    using l h Cons.prems(2) ih
    by (subst find_entry.simps)
      (auto simp: upt_conv_Cons map_Suc_upt [symmetric] sh simp del: upt_Suc split: option.split)
qed

lemma entry_emitted:
  assumes "prefix (emit (map put_entry es @ [EndOfList]) s) r" "\<forall>e \<in> set es. entry_id e \<noteq> 0xff"
    and "find (\<lambda>i. entry_id (es ! i) = ident) [0..<length es] = Some i" "es ! i = OffsE ident ptr"
    and "unat ptr < 2 ^ 24" "length r < 2 ^ 24"
  shows "find_entry r ident (length s) = Some (length s + 4 * i)" "resolve r (length s + 4 * i) = unat ptr"
proof -
  have i: "i < length es" using find_SomeD [OF assms(3)] by auto
  show "find_entry r ident (length s) = Some (length s + 4 * i)" using find_emitted [OF assms(1,2)] assms(3) by simp
  let ?t = "emit (map put_entry (take i es)) s"
  have lt: "length (emit (map put_entry xs) s) = length s + 4 * length xs" for xs
    by (induction xs rule: rev_induct) (simp_all add: srom_simps length_put_entry)
  have es: "es = take i es @ es ! i # drop (Suc i) es" using i by (rule id_take_nth_drop)
  have "emit (map put_entry es @ [EndOfList]) s =
      emit (map put_entry (drop (Suc i) es) @ [EndOfList]) (Offs ident ptr ?t)"
    by (subst es) (simp add: srom_simps assms(4))
  then have p: "prefix (Offs ident ptr ?t) r"
    using prefix_order.trans [OF prefix_put_entries] assms(1) by simp
  have "length ?t < 2 ^ 24" using prefix_length_le [OF p] assms(6) by (simp add: srom_simps)
  from resolve_Offs [OF p assms(5) this] show "resolve r (length s + 4 * i) = unat ptr" using i by (simp add: lt)
qed

subsection \<open>Parameter blocks\<close>

definition mode_block :: "video_desc \<Rightarrow> int \<Rightarrow> srom \<Rightarrow> srom" where
  "mode_block mon d s = snd (VModeDesc (at s) (IsDirectMode d) (snd (VModeParms mon d s)))"

lemma length_pixel_words: "length (pixel_words d) = 4"
  by (simp add: pixel_words_def)

lemma length_VModeParms: "length (snd (VModeParms mon d s)) = length s + 50"
  by (simp add: VModeParms_def Let_def srom_simps length_pixel_words)

lemma prefix_VModeParms: "prefix s (snd (VModeParms mon d s))"
  by (simp add: VModeParms_def Let_def) (rule prefix_emit, auto simp: prefix_writers)

lemma VModeDesc_entries:
  "snd (VModeDesc p b s) = emit (map put_entry [OffsE 0x01 p, RsrcE 0x03 1, RsrcE 0x04 (if b then 2 else 0)] @ [EndOfList]) s"
  by (simp add: VModeDesc_def)

lemma length_mode_block: "length (mode_block mon d s) = length s + 66"
  by (simp add: mode_block_def VModeDesc_def srom_simps length_VModeParms)

lemma prefix_mode_block: "prefix s (mode_block mon d s)"
  unfolding mode_block_def VModeDesc_entries
  by (rule prefix_order.trans [OF prefix_VModeParms prefix_put_entries])

lemma add_mode_eq: "add_mode mon d (ps, ms, s) = (ps @ [at s], ms @ [at s + 50], mode_block mon d s)"
  by (simp add: add_mode_def mode_block_def Let_def split_def VModeParms_def VModeDesc_def at_def
      length_VModeParms [unfolded VModeParms_def Let_def, simplified])

text \<open>What a reader finds in a parameter block: row bytes, bounds and pixel size.\<close>

definition vp_block :: "u8 list \<Rightarrow> nat \<Rightarrow> u32 \<times> u32 \<times> u32 \<times> u32 \<times> u32" where
  "vp_block r q = (rd16 r (q + 8), rd32 r (q + 10), rd16 r (q + 14), rd16 r (q + 16), rd16 r (q + 36))"

lemma emit_bytes: "emit (map Word ws) s = s @ concat (map be16 ws)"
  by (induction ws arbitrary: s) (simp_all add: srom_simps Word_def)

lemma VModeParms_bytes:
  "snd (VModeParms mon d s) = s @ be32 50 @ be32 0 @ be16 (ucast (Video_BytesPerRowForMode (sint (mon_x mon)) d)) @ be16 0 @ be16 0 @
     be16 (ucast (mon_y mon)) @ be16 (ucast (mon_x mon)) @ be16 0 @ be16 0 @ be32 0 @ be32 0x00480000 @ be32 0x00480000 @
     concat (map be16 (pixel_words d)) @ be32 0 @ be32 0"
  by (simp add: VModeParms_def Let_def srom_simps emit_bytes Word_def Long_def)

definition depth_bits :: "int \<Rightarrow> u16" where
  "depth_bits d = pixel_words d ! 1"

lemma rd16_append: "rd16 (s @ t) (length s + k) = rd16 t k"
  by (simp add: rd16_def nth_append)

lemma rd32_append: "rd32 (s @ t) (length s + k) = rd32 t k"
  by (simp add: rd32_def nth_append)

lemma rd16_prefix: "prefix t r \<Longrightarrow> q + 2 \<le> length t \<Longrightarrow> rd16 r q = rd16 t q"
  by (auto simp: rd16_def prefix_def nth_append)

lemma rd32_prefix: "prefix t r \<Longrightarrow> q + 4 \<le> length t \<Longrightarrow> rd32 r q = rd32 t q"
  by (auto simp: rd32_def prefix_def nth_append)

lemma vp_block_VModeParms:
  assumes "prefix (snd (VModeParms mon d s)) r"
  shows "vp_block r (length s) = (ucast (ucast (Video_BytesPerRowForMode (sint (mon_x mon)) d) :: u16), 0,
            ucast (ucast (mon_y mon) :: u16), ucast (ucast (mon_x mon) :: u16), ucast (depth_bits d))"
proof -
  let ?t = "snd (VModeParms mon d s)"
  obtain a b c e where w: "pixel_words d = [a, b, c, e]"
    using length_pixel_words [of d] by (auto simp: length_Suc_conv eval_nat_numeral)
  have v: "vp_block r (length s) = vp_block ?t (length s)"
    by (simp add: vp_block_def rd16_prefix [OF assms] rd32_prefix [OF assms] length_VModeParms)
  show ?thesis
    unfolding v
    unfolding vp_block_def VModeParms_bytes rd16_append rd32_append depth_bits_def
    by (simp add: rd16_def rd32_def w be16_def be32_def of_be16_be16 of_be32_def)
qed

lemma mode_block_read:
  assumes "prefix (mode_block mon d s) r" "length r < 2 ^ 24"
  shows "find_entry r 1 (length s + 50) = Some (length s + 50)" "resolve r (length s + 50) = length s"
    and "vp_block r (length s) = (ucast (ucast (Video_BytesPerRowForMode (sint (mon_x mon)) d) :: u16), 0,
            ucast (ucast (mon_y mon) :: u16), ucast (ucast (mon_x mon) :: u16), ucast (depth_bits d))"
proof -
  let ?t = "snd (VModeParms mon d s)"
  have p: "prefix (emit (map put_entry [OffsE 0x01 (at s), RsrcE 0x03 1, RsrcE 0x04 (if IsDirectMode d then 2 else 0)] @ [EndOfList]) ?t) r"
    using assms(1) unfolding mode_block_def VModeDesc_entries .
  have l: "length s < 2 ^ 24" using prefix_length_le [OF assms(1)] assms(2) by (simp add: length_mode_block)
  then have u: "unat (at s) = length s" by (simp add: at_def unat_of_nat_small)
  have "find_entry r 1 (length ?t) = Some (length ?t + 4 * 0)" "resolve r (length ?t + 4 * 0) = unat (at s)"
    using assms(2) l u entry_emitted [OF p, where i = 0 and ident = 1 and ptr = "at s"]
    by (simp_all add: upt_rec)
  then show "find_entry r 1 (length s + 50) = Some (length s + 50)" "resolve r (length s + 50) = length s"
    by (simp_all add: length_VModeParms u)
  have "prefix ?t r" using prefix_put_entries p by (rule prefix_order.trans)
  then show "vp_block r (length s) = (ucast (ucast (Video_BytesPerRowForMode (sint (mon_x mon)) d) :: u16), 0,
            ucast (ucast (mon_y mon) :: u16), ucast (ucast (mon_x mon) :: u16), ucast (depth_bits d))"
    by (rule vp_block_VModeParms)
qed

subsection \<open>The video sResource\<close>

primrec modes_after :: "video_desc \<Rightarrow> srom \<Rightarrow> nat \<Rightarrow> srom" where
  "modes_after mon s 0 = s"
| "modes_after mon s (Suc k) = mode_block mon (int k) (modes_after mon s k)"

lemma fold_add_mode:
  "fold (add_mode mon) [0, 1, 2, 3, 4, 5] ([], [], s) =
     (map (\<lambda>k. at (modes_after mon s k)) [0..<6], map (\<lambda>k. at (modes_after mon s k) + 50) [0..<6], modes_after mon s 6)"
  by (simp add: add_mode_eq upt_rec eval_nat_numeral)

lemma prefix_modes_after: "k \<le> n \<Longrightarrow> prefix (modes_after mon s k) (modes_after mon s n)"
proof (induction n)
  case (Suc n)
  then show ?case using prefix_mode_block by (cases "k = Suc n") (auto intro: prefix_order.trans)
qed simp

lemma length_modes_after: "length (modes_after mon s k) = length s + 66 * k"
  by (induction k) (simp_all add: length_mode_block)

lemma video_entries:
  assumes "prefix (emit (map put_entry
      [OffsE 0x01 a, OffsE 0x02 b, OffsE 0x04 c, RsrcE 0x08 d, OffsE 0x0a e, OffsE 0x0b f, OffsE 0x40 g, RsrcE 0x7d h,
       OffsE 0x80 (m ! 0), OffsE 0x81 (m ! 1), OffsE 0x82 (m ! 2), OffsE 0x83 (m ! 3), OffsE 0x84 (m ! 4), OffsE 0x85 (m ! 5)]
      @ [EndOfList]) s) r"
    and "k < 6" "unat (m ! k) < 2 ^ 24" "length r < 2 ^ 24"
  shows "find_entry r (0x80 + of_nat k) (length s) = Some (length s + 4 * (8 + k)) \<and>
         resolve r (length s + 4 * (8 + k)) = unat (m ! k)"
proof -
  have "k = 0 \<or> k = 1 \<or> k = 2 \<or> k = 3 \<or> k = 4 \<or> k = 5" using assms(2) by linarith
  then show ?thesis
    using assms(3,4)
    by (elim disjE; intro conjI entry_emitted [OF assms(1), where i = "8 + k" and ident = "0x80 + of_nat k"])
      (simp_all add: upt_rec)
qed

lemma video_read:
  assumes v: "video_resource mon fs s = (parms, v, t)" and p: "prefix t r" "length r < 2 ^ 24" and k: "k < 6"
  defines "q \<equiv> length (snd (video_literals mon fs s)) + 66 * k"
  shows "unat v = length (snd (video_literals mon fs s)) + 396"
    and "find_entry r (0x80 + of_nat k) (unat v) = Some (unat v + 4 * (8 + k))" "resolve r (unat v + 4 * (8 + k)) = q + 50"
    and "find_entry r 1 (q + 50) = Some (q + 50)" "resolve r (q + 50) = q" "parms ! k = of_nat q"
    and "vp_block r q = (ucast (ucast (Video_BytesPerRowForMode (sint (mon_x mon)) (int k)) :: u16), 0,
             ucast (ucast (mon_y mon) :: u16), ucast (ucast (mon_x mon) :: u16), ucast (depth_bits (int k)))"
proof -
  obtain a b c d e f s8 where lit: "video_literals mon fs s = ((a, b, c, d, e, f), s8)" by (metis surj_pair)
  let ?M = "\<lambda>k. modes_after mon s8 k"
  let ?m = "map (\<lambda>k. at (?M k) + 50) [0..<6]"
  let ?es = "[OffsE 0x01 a, OffsE 0x02 b, OffsE 0x04 c, RsrcE 0x08 0x4232, OffsE 0x0a d, OffsE 0x0b e, OffsE 0x40 f, RsrcE 0x7d 6,
       OffsE 0x80 (?m ! 0), OffsE 0x81 (?m ! 1), OffsE 0x82 (?m ! 2), OffsE 0x83 (?m ! 3), OffsE 0x84 (?m ! 4), OffsE 0x85 (?m ! 5)]"
  have u: "parms = map (\<lambda>k. at (?M k)) [0..<6]" "v = at (?M 6)" "t = emit (map put_entry ?es @ [EndOfList]) (?M 6)"
    using v unfolding video_resource_def lit Let_def prod.case fold_add_mode by (simp_all add: del: upt_Suc)
  have pr: "prefix (emit (map put_entry ?es @ [EndOfList]) (?M 6)) r" using p(1) u(3) by simp
  have p6: "prefix (?M 6) r" using prefix_put_entries pr by (rule prefix_order.trans)
  have l6: "length (?M 6) < 2 ^ 24" using prefix_length_le [OF p6] p(2) by simp
  have at6: "unat (at (?M 6)) = length (?M 6)" using l6 by (simp add: at_def unat_of_nat_small)
  have lk: "length (?M k) + 50 < 2 ^ 24" using l6 k by (simp add: length_modes_after)
  have atk: "unat (at (?M k) + 50) = length (?M k) + 50"
  proof -
    have "at (?M k) + 50 = of_nat (length (?M k) + 50)" by (simp add: at_def)
    then show ?thesis using lk by (simp add: unat_of_nat_small del: of_nat_add)
  qed
  have mk: "?m ! k = at (?M k) + 50" using k by (simp del: upt_Suc)
  have e: "find_entry r (0x80 + of_nat k) (length (?M 6)) = Some (length (?M 6) + 4 * (8 + k)) \<and>
         resolve r (length (?M 6) + 4 * (8 + k)) = unat (?m ! k)"
    by (rule video_entries [OF pr k _ p(2)]) (simp only: mk atk lk)
  have q: "length (?M k) = q" by (simp add: q_def lit length_modes_after)
  show "unat v = length (snd (video_literals mon fs s)) + 396" by (simp add: u(2) at6 lit length_modes_after del: modes_after.simps)
  show "find_entry r (0x80 + of_nat k) (unat v) = Some (unat v + 4 * (8 + k))" "resolve r (unat v + 4 * (8 + k)) = q + 50"
    using e by (simp_all only: u(2) at6 mk atk q)
  have "prefix (?M (Suc k)) (?M 6)" using k by (intro prefix_modes_after) simp
  then have "prefix (mode_block mon (int k) (?M k)) r" using p6 by (simp add: prefix_order.trans)
  from mode_block_read [OF this p(2)]
  show "find_entry r 1 (q + 50) = Some (q + 50)" "resolve r (q + 50) = q"
    "vp_block r q = (ucast (ucast (Video_BytesPerRowForMode (sint (mon_x mon)) (int k)) :: u16), 0,
             ucast (ucast (mon_y mon) :: u16), ucast (ucast (mon_x mon) :: u16), ucast (depth_bits (int k)))"
    by (simp_all only: q)
  show "parms ! k = of_nat q" using k q unfolding u(1) by (simp add: at_def del: upt_Suc modes_after.simps)
qed

subsection \<open>The whole image\<close>

lemma emit_grows: "prefix s t \<Longrightarrow> \<forall>f \<in> set fs. \<forall>u. prefix u (f u) \<Longrightarrow> prefix s (emit fs t)"
  by (rule prefix_order.trans [OF _ prefix_emit]) auto

lemma writer_grows:
  "prefix s t \<Longrightarrow> prefix s (String' str t)" "prefix s t \<Longrightarrow> prefix s (Long l t)"
  by (rule prefix_order.trans, assumption, rule prefix_writers)+

lemma drivers_grow:
  assumes "prefix s t"
  shows "prefix s (video_driver t)" "prefix s (ether_driver t)" "prefix s (gamma_table t)"
  unfolding video_driver_def ether_driver_def gamma_table_def
  using assms by (rule emit_grows; auto simp: prefix_writers)+

lemma prefix_video: "prefix s (snd (snd (video_resource mon fs s)))"
proof -
  obtain a b c d e f s8 where lit: "video_literals mon fs s = ((a, b, c, d, e, f), s8)" by (metis surj_pair)
  have "prefix s (snd (video_literals mon fs s))"
    unfolding video_literals_def Let_def snd_conv
    by (intro emit_grows drivers_grow writer_grows prefix_order.refl) (simp_all add: prefix_writers)
  moreover have "prefix s8 (modes_after mon s8 6)" using prefix_modes_after [of 0 6 mon s8] by simp
  moreover have "prefix (modes_after mon s8 6) (snd (snd (video_resource mon fs s)))"
    unfolding video_resource_def lit Let_def prod.case fold_add_mode snd_conv
    by (rule prefix_emit) (auto simp: prefix_writers)
  ultimately show ?thesis unfolding lit snd_conv by (meson prefix_order.trans)
qed

lemma prefix_resources: "prefix s (snd (cpu_resource s))" "prefix s (snd (ether_resource s))"
  unfolding cpu_resource_def ether_resource_def Let_def snd_conv
  by (intro emit_grows drivers_grow writer_grows prefix_order.refl; simp add: prefix_writers)+

lemma length_slot_version: "length slot_version = 4"
  by (simp add: slot_version_def print_int_def digits.simps)

lemma length_video: "length (snd (snd (video_resource mon fs s))) = length (snd (video_literals mon fs s)) + 456"
proof -
  obtain a b c d e f s8 where lit: "video_literals mon fs s = ((a, b, c, d, e, f), s8)" by (metis surj_pair)
  show ?thesis
    unfolding video_resource_def lit Let_def prod.case fold_add_mode snd_conv
    by (simp add: srom_simps length_modes_after)
qed

lemma length_drivers:
  assumes "even (length s)"
  shows "length (video_driver s) = length s + 116" "length (ether_driver s) = length s + 138"
    "length (gamma_table s) = length s + 294"
proof -
  obtain n where "length s = 2 * n" using assms by (auto elim: evenE)
  then show "length (video_driver s) = length s + 116" "length (ether_driver s) = length s + 138"
      "length (gamma_table s) = length s + 294"
    by (simp_all add: video_driver_def ether_driver_def gamma_table_def srom_simps) (simp_all add: gamma_longs_def)
qed

lemma length_video_literals: "even (length s) \<Longrightarrow> length (snd (video_literals mon fs s)) = length s + 472"
  by (simp add: video_literals_def Let_def srom_simps length_drivers mod_2_eq_odd)

lemma length_board: "length date = 11 \<Longrightarrow> length (snd (board_resource date [])) = 116"
  by (simp add: board_resource_def Let_def srom_simps length_slot_version)

lemma length_build:
  assumes "length date = 11"
  shows "length (snd (build_slot_rom date mon fs)) = 1350"
  by (simp add: build_slot_rom_def Let_def split_def format_block_def cpu_resource_def ether_resource_def srom_simps
      length_board [OF assms] length_video length_video_literals length_drivers)

text \<open>Where everything is in an image whose date has eleven characters.\<close>

definition slot_layout :: "u8 list \<Rightarrow> bool" where
  "slot_layout r \<longleftrightarrow> length r = 1350 \<and> resolve r 1330 = 1310 \<and> find_entry r 0x80 1310 = Some 1314 \<and> resolve r 1314 = 984 \<and>
     (\<forall>k < 6. find_entry r (0x80 + of_nat k) 984 = Some (1016 + 4 * k) \<and> resolve r (1016 + 4 * k) = 638 + 66 * k \<and>
              find_entry r 1 (638 + 66 * k) = Some (638 + 66 * k) \<and> resolve r (638 + 66 * k) = 588 + 66 * k)"

lemma build_read:
  assumes "length date = 11" "build_slot_rom date mon fs = (parms, r)"
  shows "slot_layout r" "length parms = 6" "k < 6 \<Longrightarrow> parms ! k = of_nat (588 + 66 * k)"
    "k < 6 \<Longrightarrow> vp_block r (588 + 66 * k) = (ucast (ucast (Video_BytesPerRowForMode (sint (mon_x mon)) (int k)) :: u16), 0,
             ucast (ucast (mon_y mon) :: u16), ucast (ucast (mon_x mon) :: u16), ucast (depth_bits (int k)))"
proof -
  obtain vb s1 where b: "board_resource date [] = (vb, s1)" by fastforce
  obtain ps v s2 where vr: "video_resource mon fs s1 = (ps, v, s2)" by (metis surj_pair)
  obtain c s3 where cr: "cpu_resource s2 = (c, s3)" by fastforce
  obtain e s4 where er: "ether_resource s3 = (e, s4)" by fastforce
  let ?es = "[OffsE 0x01 vb, OffsE 0x80 v, OffsE 0xf0 c, OffsE 0xf1 e]"
  let ?s5 = "emit (map put_entry ?es @ [EndOfList]) s4"
  have r: "r = format_block (at s4) ?s5" "parms = ps" using assms(2) by (simp_all add: build_slot_rom_def b vr cr er Let_def)
  have l1: "length s1 = 116" using length_board [OF assms(1)] b by simp
  then have l2: "length (snd (video_literals mon fs s1)) = 588" by (simp add: length_video_literals)
  then have "length s2 = 1044" using length_video [of mon fs s1] vr by simp
  then have l3: "length s3 = 1098" using cr by (auto simp: cpu_resource_def Let_def srom_simps)
  then have l4: "length s4 = 1310" using er by (auto simp: ether_resource_def Let_def srom_simps length_drivers)
  have l5: "length ?s5 = 1330" by (simp add: srom_simps l4)
  have lr: "length r = 1350" using length_build [OF assms(1), of mon fs] assms(2) by simp
  then have lt: "length r < 2 ^ 24" by simp
  have po: "prefix (Offs 0 (at s4) ?s5) r"
    unfolding r(1) format_block_def Let_def by (rule prefix_emit) (auto simp: prefix_writers)
  have p5: "prefix ?s5 r" using prefix_writers(2) po by (rule prefix_order.trans)
  have p4: "prefix s4 r" using prefix_put_entries p5 by (rule prefix_order.trans)
  have p3: "prefix s3 r" using prefix_resources(2) [of s3] er p4 by (auto intro: prefix_order.trans)
  have p2: "prefix s2 r" using prefix_resources(1) [of s2] cr p3 by (auto intro: prefix_order.trans)
  note vid = video_read [OF vr p2 lt, unfolded l2]
  have v: "unat v = 984" using vid(1) [of 0] by simp
  have u4: "unat (at s4) = 1310" by (simp add: at_def l4)
  have "length ?s5 < 2 ^ 24" unfolding l5 by simp
  then have "resolve r (length ?s5) = unat (at s4)" by (intro resolve_Offs [OF po]) (simp_all only: u4, simp)
  then have d1: "resolve r 1330 = 1310" by (simp only: l5 u4)
  have "find_entry r 0x80 (length s4) = Some (length s4 + 4 * 1)" "resolve r (length s4 + 4 * 1) = unat v"
    using lt entry_emitted [OF p5, where i = 1 and ident = "0x80" and ptr = v] by (simp_all add: upt_rec v)
  then have d2: "find_entry r 0x80 1310 = Some 1314" "resolve r 1314 = 984" by (simp_all add: l4 v)
  have d3: "find_entry r (0x80 + of_nat k) 984 = Some (1016 + 4 * k) \<and> resolve r (1016 + 4 * k) = 638 + 66 * k \<and>
              find_entry r 1 (638 + 66 * k) = Some (638 + 66 * k) \<and> resolve r (638 + 66 * k) = 588 + 66 * k" if k: "k < 6" for k
  proof -
    have s: "984 + 4 * (8 + k) = 1016 + 4 * k" "588 + 66 * k + 50 = 638 + 66 * k" by simp_all
    show ?thesis using vid(2-5) [OF k] unfolding v s by blast
  qed
  show "slot_layout r" unfolding slot_layout_def using lr d1 d2 d3 by blast
  show "k < 6 \<Longrightarrow> parms ! k = of_nat (588 + 66 * k)" using vid(6) [of k] r(2) by simp
  show "k < 6 \<Longrightarrow> vp_block r (588 + 66 * k) = (ucast (ucast (Video_BytesPerRowForMode (sint (mon_x mon)) (int k)) :: u16), 0,
             ucast (ucast (mon_y mon) :: u16), ucast (ucast (mon_x mon) :: u16), ucast (depth_bits (int k)))"
    by (rule vid(7))
  obtain a1 a2 a3 a4 a5 a6 s8 where lit: "video_literals mon fs s1 = ((a1, a2, a3, a4, a5, a6), s8)" by (metis surj_pair)
  have "ps = map (\<lambda>k. at (modes_after mon s8 k)) [0..<6]"
    using vr unfolding video_resource_def lit Let_def prod.case fold_add_mode by simp
  then show "length parms = 6" by (simp add: r(2))
qed

section \<open>The declaration ROM in guest memory\<close>

text \<open>
  What installing and patching do to the bytes of the image, as updates of a byte list; the
  checksum is right after either, and a reader still finds every parameter block.
\<close>

subsection \<open>The checksum\<close>

definition slot_image :: "slot_rom \<Rightarrow> mac \<Rightarrow> u8 list" where
  "slot_image sl m = fetch m (slot_addr sl m 0) (slot_rom_size sl)"

definition no_crc :: "u8 list \<Rightarrow> u8 list" where
  "no_crc bs = patch (length bs - 12) [0, 0, 0, 0] bs"

definition with_crc :: "u8 list \<Rightarrow> u8 list" where
  "with_crc bs = patch (length bs - 12) (be32 (slot_crc (no_crc bs))) bs"

definition crc_ok :: "u8 list \<Rightarrow> bool" where
  "crc_ok bs \<longleftrightarrow> rd32 bs (length bs - 12) = slot_crc (no_crc bs)"

lemma patch_patch_same: "length as = length bs \<Longrightarrow> off + length bs \<le> length xs \<Longrightarrow> patch off as (patch off bs xs) = patch off as xs"
  by (simp add: patch_def)

lemma length_with_crc: "12 < length bs \<Longrightarrow> length (with_crc bs) = length bs"
  by (simp add: with_crc_def length_patch)

lemma crc_ok_with_crc:
  assumes "12 < length bs"
  shows "crc_ok (with_crc bs)"
proof -
  let ?c = "slot_crc (no_crc bs)" and ?n = "length bs - 12"
  have n: "no_crc (with_crc bs) = no_crc bs"
    using assms by (simp add: no_crc_def length_with_crc) (simp add: with_crc_def patch_patch_same)
  obtain j where j: "length bs = j + 12" using assms by (metis add.commute le_Suc_ex less_imp_le_nat)
  have "with_crc bs ! (?n + k) = be32 ?c ! k" if "k < 4" for k
    using that by (simp add: with_crc_def nth_patch j)
  from this [of 0] this [of 1] this [of 2] this [of 3]
  have "rd32 (with_crc bs) ?n = ?c" by (simp add: rd32_def be32_def of_be32_be32)
  then show ?thesis by (simp add: crc_ok_def n length_with_crc assms)
qed

lemma slot_addr_store [simp]: "slot_addr sl (store a bs m) i = slot_addr sl m i"
  by (simp add: slot_addr_def)

lemma length_slot_image [simp]: "length (slot_image sl m) = slot_rom_size sl"
  by (simp add: slot_image_def)

lemma slot_image_store:
  assumes "k + length bs \<le> slot_rom_size sl" "slot_rom_size sl \<le> 2 ^ 32"
  shows "slot_image sl (store (slot_addr sl m k) bs m) = patch k bs (slot_image sl m)"
proof -
  have "slot_addr sl m k = slot_addr sl m 0 + of_nat k" by (simp add: slot_addr_def)
  then show ?thesis using fetch_store_inside [OF assms, of "slot_addr sl m 0" m] by (simp add: slot_image_def)
qed

lemma slot_image_checksum:
  assumes "12 < slot_rom_size sl" "slot_rom_size sl \<le> 2 ^ 32"
  shows "slot_image sl (ChecksumSlotROM sl m) = with_crc (slot_image sl m)"
proof -
  let ?n = "slot_rom_size sl"
  let ?m1 = "store (slot_addr sl m (?n - 12)) [0, 0, 0, 0] m"
  have i1: "slot_image sl ?m1 = no_crc (slot_image sl m)" unfolding no_crc_def length_slot_image
    using assms by (intro slot_image_store) (simp_all del: store.simps)
  have c: "ChecksumSlotROM sl m = store (slot_addr sl ?m1 (?n - 12)) (be32 (slot_crc (no_crc (slot_image sl m)))) ?m1"
    using assms i1 by (simp add: ChecksumSlotROM_def Let_def slot_image_def del: store.simps)
  have "slot_image sl (ChecksumSlotROM sl m) = patch (?n - 12) (be32 (slot_crc (no_crc (slot_image sl m)))) (no_crc (slot_image sl m))"
    unfolding c using assms by (subst slot_image_store) (simp_all add: i1 del: store.simps)
  then show ?thesis using assms by (simp add: with_crc_def no_crc_def patch_patch_same)
qed

lemma slot_image_install:
  assumes "build_slot_rom date mon fs = (parms, r)" "InstallSlotROM date mon fs m = (sl, m')" "12 < length r" "length r \<le> 2 ^ 32"
  shows "slot_image sl m' = with_crc r" "slot_rom_size sl = length r" "vmode_parm_off sl = parms"
    "SlotROMOffset sl = rom_size m - of_nat (length r)" "rom_base m' = rom_base m" "rom_size m' = rom_size m"
proof -
  have sl: "sl = \<lparr>SlotROMOffset = rom_size m - at r, slot_rom_size = length r, vmode_parm_off = parms\<rparr>"
    and m': "m' = ChecksumSlotROM sl (store (slot_addr sl m 0) r m)"
    using assms(1,2) by (auto simp: InstallSlotROM_def Let_def)
  show size: "slot_rom_size sl = length r" and "vmode_parm_off sl = parms"
    and "SlotROMOffset sl = rom_size m - of_nat (length r)" by (simp_all add: sl at_def)
  have "slot_image sl (store (slot_addr sl m 0) r m) = patch 0 r (slot_image sl m)" using size assms(4) by (intro slot_image_store) simp_all
  also have "\<dots> = r" using size by (simp add: patch_def)
  finally show "slot_image sl m' = with_crc r" unfolding m' using slot_image_checksum [of sl] size assms(3,4) by simp
  show "rom_base m' = rom_base m" "rom_size m' = rom_size m" unfolding m' by (simp_all add: ChecksumSlotROM_def Let_def)
qed

subsection \<open>Reading after a patch\<close>

lemma find_entry_cong:
  assumes "find_entry r ident q = Some e" "length r' = length r" "\<And>i. q \<le> i \<Longrightarrow> i \<le> e \<Longrightarrow> r' ! i = r ! i"
  shows "find_entry r' ident q = Some e"
  using assms
proof (induction r ident q rule: find_entry.induct)
  case (1 r ident q)
  have le: "q' \<le> e" if "find_entry r ident q' = Some e" for q'
    using that by (induction r ident q' rule: find_entry.induct) (subst (asm) (2) find_entry.simps, auto split: if_splits)
  have q: "q \<le> e" using le "1.prems"(1) .
  then have h: "r' ! q = r ! q" using "1.prems"(3) by simp
  have c: "\<not> (length r < q + 4 \<or> r ! q = 0xff)"
    using "1.prems"(1) unfolding find_entry.simps [of r ident q] by (simp split: if_splits)
  then have n: "find_entry x ident q = (if r ! q = ident then Some q else find_entry x ident (q + 4))" if "x = r \<or> x = r'" for x
    using that h "1.prems"(2) by (subst find_entry.simps) auto
  show ?case
  proof (cases "r ! q = ident")
    case True
    then show ?thesis using "1.prems"(1) n by simp
  next
    case False
    then have e: "find_entry r ident (q + 4) = Some e" using "1.prems"(1) n [of r] by simp
    have "find_entry r' ident (q + 4) = Some e" using "1.IH" [OF c False e "1.prems"(2)] "1.prems"(3) by simp
    then show ?thesis using n [of r'] False by simp
  qed
qed

lemma resolve_cong: "(\<And>i. q < i \<Longrightarrow> i \<le> q + 3 \<Longrightarrow> r' ! i = r ! i) \<Longrightarrow> resolve r' q = resolve r q"
  by (simp add: resolve_def)

text \<open>Bytes that no directory lookup reads: the sizes in the parameter blocks, and the checksum.\<close>

definition volatile :: "nat \<Rightarrow> bool" where
  "volatile i \<longleftrightarrow> (1338 \<le> i \<and> i < 1342) \<or> (\<exists>k < 6. 588 + 66 * k \<le> i \<and> i < 588 + 66 * k + 50)"

lemma layout_cong:
  assumes "slot_layout r" "length r' = length r" "\<And>i. i < 1350 \<Longrightarrow> \<not> volatile i \<Longrightarrow> r' ! i = r ! i"
  shows "slot_layout r'"
proof -
  have v: "\<not> volatile i" if "(984 \<le> i \<and> i < 1338)" for i using that by (auto simp: volatile_def)
  have w: "\<not> volatile i" if k: "k < 6" "638 + 66 * k \<le> i" "i \<le> 641 + 66 * k" for i k
  proof
    assume "volatile i"
    moreover have "\<not> 1338 \<le> i" using k by linarith
    ultimately obtain j where "588 + 66 * j \<le> i" "i < 588 + 66 * j + 50" by (auto simp: volatile_def)
    then show False using k by (cases "j \<le> k") linarith+
  qed
  note r = assms(1)[unfolded slot_layout_def]
  have f: "find_entry r' ident q = Some e" if "find_entry r ident q = Some e" "984 \<le> q" "e < 1338" for ident q e
    by (rule find_entry_cong [OF that(1) assms(2)]) (use that v assms(3) in auto)
  have g: "resolve r' q = resolve r q" if "984 \<le> q" "q < 1334" for q
    by (rule resolve_cong) (use that v assms(3) in auto)
  have modes: "find_entry r' (0x80 + of_nat k) 984 = Some (1016 + 4 * k) \<and> resolve r' (1016 + 4 * k) = 638 + 66 * k \<and>
              find_entry r' 1 (638 + 66 * k) = Some (638 + 66 * k) \<and> resolve r' (638 + 66 * k) = 588 + 66 * k" if k: "k < 6" for k
  proof -
    have a: "find_entry r (0x80 + of_nat k) 984 = Some (1016 + 4 * k)" "resolve r (1016 + 4 * k) = 638 + 66 * k"
      "find_entry r 1 (638 + 66 * k) = Some (638 + 66 * k)" "resolve r (638 + 66 * k) = 588 + 66 * k" using r k by blast+
    have "find_entry r' 1 (638 + 66 * k) = Some (638 + 66 * k)"
      by (rule find_entry_cong [OF a(3) assms(2)]) (use w [OF k] k assms(3) in auto)
    moreover have "resolve r' (638 + 66 * k) = resolve r (638 + 66 * k)"
      by (rule resolve_cong) (use w [OF k] k assms(3) in auto)
    ultimately show ?thesis using f [OF a(1)] g [of "1016 + 4 * k"] a k by simp
  qed
  show ?thesis unfolding slot_layout_def
    using r f [of "0x80" 1310 1314] g [of 1330] g [of 1314] modes assms(2) by simp
qed

subsection \<open>Patching a mode\<close>

definition parm_at :: "nat \<Rightarrow> nat" where
  "parm_at k = 588 + 66 * k"

definition slot_ok :: "slot_rom \<Rightarrow> mac \<Rightarrow> bool" where
  "slot_ok sl m \<longleftrightarrow> slot_rom_size sl = 1350 \<and> SlotROMOffset sl \<noteq> 0 \<and>
     vmode_parm_off sl = map (\<lambda>k. of_nat (parm_at k)) [0..<6] \<and> slot_layout (slot_image sl m) \<and> crc_ok (slot_image sl m)"

lemma with_crc_nth: "length bs = 1350 \<Longrightarrow> i < 1350 \<Longrightarrow> \<not> (1338 \<le> i \<and> i < 1342) \<Longrightarrow> with_crc bs ! i = bs ! i"
  by (auto simp: with_crc_def nth_patch)

definition patched :: "nat \<Rightarrow> u16 \<Rightarrow> u16 \<Rightarrow> u16 \<Rightarrow> u8 list \<Rightarrow> u8 list" where
  "patched q rb h w bs = patch (q + 14) (be16 h @ be16 w) (patch (q + 8) (be16 rb) bs)"

lemma length_patched: "q + 50 \<le> length bs \<Longrightarrow> length (patched q rb h w bs) = length bs"
  by (simp add: patched_def length_patch)

lemma patched_outside: "q + 50 \<le> length bs \<Longrightarrow> i < length bs \<Longrightarrow> \<not> (q + 8 \<le> i \<and> i < q + 18) \<Longrightarrow> patched q rb h w bs ! i = bs ! i"
  by (auto simp: patched_def nth_patch length_patch)

lemma vp_block_cong: "(\<And>i. i < 50 \<Longrightarrow> r' ! (q + i) = r ! (q + i)) \<Longrightarrow> vp_block r' q = vp_block r q"
  unfolding vp_block_def rd16_def rd32_def add.assoc by simp

lemma vp_block_patched:
  assumes "q + 50 \<le> length bs" "vp_block bs q = (a, b, c, d, e)"
  shows "vp_block (patched q rb h w bs) q = (ucast rb, b, ucast h, ucast w, e)"
proof -
  let ?p = "patched q rb h w bs"
  have i: "?p ! (q + 8 + i) = be16 rb ! i" if "i < 2" for i
    using that assms(1) by (simp add: patched_def nth_patch length_patch)
  have j: "?p ! (q + 14 + i) = (be16 h @ be16 w) ! i" if "i < 4" for i
    using that assms(1) by (simp add: patched_def nth_patch length_patch)
  have o: "?p ! (q + i) = bs ! (q + i)" if "i < 50" "\<not> (8 \<le> i \<and> i < 18) \<or> (10 \<le> i \<and> i < 14)" for i
    using that assms(1) by (auto simp: patched_def nth_patch length_patch)
  have "rd16 ?p (q + 8) = ucast rb" using i [of 0] i [of 1] by (simp add: rd16_def be16_def of_be16_be16)
  moreover have "rd16 ?p (q + 14) = ucast h" "rd16 ?p (q + 16) = ucast w"
    using j [of 0] j [of 1] j [of 2] j [of 3] by (simp_all add: rd16_def be16_def of_be16_be16 ac_simps)
  moreover have "rd32 ?p (q + 10) = rd32 bs (q + 10)" "rd16 ?p (q + 36) = rd16 bs (q + 36)"
    using o [of 10] o [of 11] o [of 12] o [of 13] o [of 36] o [of 37] by (simp_all add: rd16_def rd32_def ac_simps)
  ultimately show ?thesis using assms(2) by (simp add: vp_block_def)
qed

lemma patch_mode_image:
  assumes "slot_ok sl m" "k < 6"
  shows "slot_image sl (SlotROM_PatchMode (int k) w h rb sl m) =
           with_crc (patched (parm_at k) (ucast rb) (word_of_int h) (word_of_int w) (slot_image sl m))"
proof -
  have off: "vmode_parm_off sl ! k = of_nat (parm_at k)" and size: "slot_rom_size sl = 1350" and so: "SlotROMOffset sl \<noteq> 0"
    using assms by (simp_all add: slot_ok_def del: upt_Suc)
  have nz: "(of_nat (parm_at k) :: u32) \<noteq> 0"
    using assms(2) by (simp add: parm_at_def word_of_nat_eq_0_iff take_bit_nat_eq_self flip: of_nat_mult of_nat_add)
      (auto dest!: dvd_imp_le)
  have a: "rom_base m + SlotROMOffset sl + of_nat (parm_at k) + 14 = slot_addr sl m (parm_at k + 14)"
    "rom_base m + SlotROMOffset sl + of_nat (parm_at k) + 8 = slot_addr sl m (parm_at k + 8)" by (simp_all add: slot_addr_def)
  let ?m1 = "store (slot_addr sl m (parm_at k + 8)) (be16 (ucast rb)) m"
  let ?m2 = "store (slot_addr sl ?m1 (parm_at k + 14)) (be16 (word_of_int h) @ be16 (word_of_int w)) ?m1"
  have p: "SlotROM_PatchMode (int k) w h rb sl m = ChecksumSlotROM sl ?m2"
    using assms(2) nz so by (simp add: SlotROM_PatchMode_def vmodes Let_def off a)
  have k: "parm_at k + 50 \<le> 1350" using assms(2) by (simp add: parm_at_def)
  have "slot_image sl ?m1 = patch (parm_at k + 8) (be16 (ucast rb)) (slot_image sl m)"
    using k size by (intro slot_image_store) simp_all
  moreover have "slot_image sl ?m2 = patch (parm_at k + 14) (be16 (word_of_int h) @ be16 (word_of_int w)) (slot_image sl ?m1)"
    using k size by (intro slot_image_store) simp_all
  ultimately show ?thesis using size by (simp add: p slot_image_checksum patched_def)
qed

lemma parm_at_disjoint: "j \<noteq> k \<Longrightarrow> i < 50 \<Longrightarrow> \<not> (parm_at k + 8 \<le> parm_at j + i \<and> parm_at j + i < parm_at k + 18)"
  unfolding parm_at_def by (cases "j < k") linarith+

lemma patched_mode_reads:
  fixes w h :: int and rb :: u32
  assumes "slot_ok sl m" "k < 6" "j < 6"
  defines "r \<equiv> slot_image sl m" and "r' \<equiv> slot_image sl (SlotROM_PatchMode (int k) w h rb sl m)"
  shows "slot_ok sl (SlotROM_PatchMode (int k) w h rb sl m)"
    and "vp_block r' (parm_at j) =
           (if j = k then (ucast (ucast rb :: u16), fst (snd (vp_block r (parm_at k))), ucast (word_of_int h :: u16),
                           ucast (word_of_int w :: u16), snd (snd (snd (snd (vp_block r (parm_at k))))))
            else vp_block r (parm_at j))"
proof -
  have l: "length r = 1350" using assms(1) by (simp add: r_def slot_ok_def)
  have b: "parm_at i + 50 \<le> length r" if "i < 6" for i using that l by (simp add: parm_at_def)
  have r': "r' = with_crc (patched (parm_at k) (ucast rb) (word_of_int h) (word_of_int w) r)"
    unfolding r'_def r_def by (rule patch_mode_image [OF assms(1,2)])
  have lp: "length (patched (parm_at k) (ucast rb) (word_of_int h) (word_of_int w) r) = 1350"
    using length_patched [OF b [OF assms(2)]] l by simp
  have n: "r' ! i = patched (parm_at k) (ucast rb) (word_of_int h) (word_of_int w) r ! i" if "i < 1350" "\<not> (1338 \<le> i \<and> i < 1342)" for i
    unfolding r' by (rule with_crc_nth [OF lp that])
  have "crc_ok r'" unfolding r' by (rule crc_ok_with_crc) (simp add: lp)
  moreover have lr: "length r' = length r" unfolding r' using lp l by (simp add: length_with_crc)
  have "slot_layout r'"
  proof (rule layout_cong)
    show "slot_layout r" using assms(1) by (simp add: r_def slot_ok_def)
    show "length r' = length r" by (rule lr)
    fix i assume i: "i < 1350" and v: "\<not> volatile i"
    then have "\<not> (588 + 66 * k \<le> i \<and> i < 588 + 66 * k + 50)" "\<not> (1338 \<le> i \<and> i < 1342)"
      using assms(2) unfolding volatile_def by blast+
    then have nv: "\<not> (1338 \<le> i \<and> i < 1342)" "\<not> (parm_at k + 8 \<le> i \<and> i < parm_at k + 18)"
      unfolding parm_at_def by linarith+
    show "r' ! i = r ! i" using n [OF i nv(1)] patched_outside [OF b [OF assms(2)] _ nv(2)] l i by simp
  qed
  ultimately show "slot_ok sl (SlotROM_PatchMode (int k) w h rb sl m)" using assms(1) by (simp add: slot_ok_def r'_def)
  have c: "parm_at j + i < 1338" if "i < 50" for i using that assms(3) by (simp add: parm_at_def)
  have vc: "vp_block r' (parm_at j) = vp_block (patched (parm_at k) (ucast rb) (word_of_int h) (word_of_int w) r) (parm_at j)"
    by (rule vp_block_cong) (use n c in fastforce)
  show "vp_block r' (parm_at j) =
           (if j = k then (ucast (ucast rb :: u16), fst (snd (vp_block r (parm_at k))), ucast (word_of_int h :: u16),
                           ucast (word_of_int w :: u16), snd (snd (snd (snd (vp_block r (parm_at k))))))
            else vp_block r (parm_at j))"
  proof (cases "j = k")
    case True
    obtain x1 x2 x3 x4 x5 where v: "vp_block r (parm_at k) = (x1, x2, x3, x4, x5)" by (metis surj_pair)
    show ?thesis using True vc vp_block_patched [OF b [OF assms(2)] v] v by simp
  next
    case False
    have "vp_block (patched (parm_at k) (ucast rb) (word_of_int h) (word_of_int w) r) (parm_at j) = vp_block r (parm_at j)"
    proof (rule vp_block_cong)
      fix i :: nat assume i: "i < 50"
      have "parm_at j + i < length r" using c [OF i] l by simp
      from patched_outside [OF b [OF assms(2)] this parm_at_disjoint [OF False i]]
      show "patched (parm_at k) (ucast rb) (word_of_int h) (word_of_int w) r ! (parm_at j + i) = r ! (parm_at j + i)" .
    qed
    then show ?thesis using False vc by simp
  qed
qed

lemma installed_slot_ok:
  assumes "length date = 11" "1350 < unat (rom_size m)" "InstallSlotROM date mon fs m = (sl, m')"
  shows "slot_ok sl m'" "k < 6 \<Longrightarrow> vp_block (slot_image sl m') (parm_at k) =
     (ucast (ucast (Video_BytesPerRowForMode (sint (mon_x mon)) (int k)) :: u16), 0, ucast (ucast (mon_y mon) :: u16),
      ucast (ucast (mon_x mon) :: u16), ucast (depth_bits (int k)))"
proof -
  obtain parms r where bd: "build_slot_rom date mon fs = (parms, r)" by fastforce
  note br = build_read [OF assms(1) bd]
  have lr: "length r = 1350" using br(1) by (simp add: slot_layout_def)
  note ins = slot_image_install [OF bd assms(3), unfolded lr, simplified]
  have nth: "with_crc r ! i = r ! i" if "i < 1350" "\<not> volatile i" for i
    using with_crc_nth [OF lr that(1)] that(2) by (auto simp: volatile_def)
  have "slot_layout (with_crc r)" by (rule layout_cong [OF br(1) _ nth]) (simp_all add: length_with_crc lr)
  moreover have "crc_ok (with_crc r)" by (rule crc_ok_with_crc) (simp add: lr)
  moreover have "parms = map (\<lambda>k. of_nat (parm_at k)) [0..<6]"
    by (rule nth_equalityI) (simp_all add: br(2,3) parm_at_def del: upt_Suc)
  moreover have "rom_size m - 1350 \<noteq> 0" using assms(2) by auto
  ultimately show "slot_ok sl m'" using ins by (simp add: slot_ok_def)
  assume k: "k < 6"
  have "vp_block (with_crc r) (parm_at k) = vp_block r (parm_at k)"
    using k by (intro vp_block_cong with_crc_nth [OF lr]) (auto simp: parm_at_def)
  then show "vp_block (slot_image sl m') (parm_at k) =
     (ucast (ucast (Video_BytesPerRowForMode (sint (mon_x mon)) (int k)) :: u16), 0, ucast (ucast (mon_y mon) :: u16),
      ucast (ucast (mon_x mon) :: u16), ucast (depth_bits (int k)))"
    using br(4) [OF k] ins by (simp add: parm_at_def)
qed

end
