(* ===== verification/Video_Facts.thy ===== *)
theory Video_Facts
  imports Video_Driver Slot_Image
begin

section \<open>Facts about the video driver\<close>

text \<open>
  The invariant of the screen (the current mode is one of the driver's depths, its size lies
  between the smallest size and the reservation, and a frame of it fits into the reserved
  bytes) and its preservation by every entry point; the numbering of resolutions.
\<close>

subsection \<open>Rows\<close>

definition raw_row :: "int \<Rightarrow> int \<Rightarrow> int" where
  "raw_row w mode =
     (if mode = 0 then (w + 7) div 8 else if mode = 1 then (w + 3) div 4 else if mode = 2 then (w + 1) div 2
      else if mode = 3 then w else if mode = 4 then w * 2 else if mode = 5 then w * 4 else w)"

lemma padded_row:
  assumes "0 \<le> r" "r < 2 ^ 31"
  shows "uint (if (word_of_int r :: u32) AND 1 \<noteq> 0 then word_of_int r + 1 else word_of_int r :: u32) = r + r mod 2"
proof -
  have "(word_of_int r :: u32) AND 1 = word_of_int (r AND 1)" by (simp add: of_int_and_eq)
  also have "r AND 1 = r mod 2" by (simp add: and_one_eq)
  finally have a: "(word_of_int r :: u32) AND 1 = word_of_int (r mod 2)" .
  have u: "uint (word_of_int k :: u32) = k" if "0 \<le> k" "k < 2 ^ 32" for k
    using that by (simp add: uint_word_of_int)
  show ?thesis
  proof (cases "r mod 2 = 0")
    case True
    then show ?thesis using a u [of r] assms by simp
  next
    case False
    then have m: "r mod 2 = 1" by presburger
    have "(word_of_int r + 1 :: u32) = word_of_int (r + 1)" by simp
    then show ?thesis using a m u [of "r + 1"] assms by simp
  qed
qed

lemma raw_row_bounds:
  assumes "0 \<le> w"
  shows "0 \<le> raw_row w mode" "raw_row w mode \<le> 4 * w"
proof -
  have d: "0 \<le> (w + 7) div 8" "0 \<le> (w + 3) div 4" "0 \<le> (w + 1) div 2"
    using assms by (simp_all add: pos_imp_zdiv_nonneg_iff)
  have e: "8 * ((w + 7) div 8) \<le> w + 7" "4 * ((w + 3) div 4) \<le> w + 3" "2 * ((w + 1) div 2) \<le> w + 1"
    by presburger+
  show "0 \<le> raw_row w mode" using d assms by (simp add: raw_row_def)
  show "raw_row w mode \<le> 4 * w"
    using d e assms by (auto simp: raw_row_def)
qed

lemma BytesPerRow_int:
  assumes "0 \<le> w" "w \<le> 16384"
  shows "uint (Video_BytesPerRowForMode w mode) = raw_row w mode + raw_row w mode mod 2"
proof -
  have r: "0 \<le> raw_row w mode" "raw_row w mode < 2 ^ 31" using assms raw_row_bounds [of w mode] by simp_all
  have "Video_BytesPerRowForMode w mode =
      (if (word_of_int (raw_row w mode) :: u32) AND 1 \<noteq> 0 then word_of_int (raw_row w mode) + 1 else word_of_int (raw_row w mode))"
    using assms(1) by (simp add: Video_BytesPerRowForMode_def Let_def vmodes raw_row_def)
  then show ?thesis using padded_row [OF r] by simp
qed

lemma raw_row_le:
  assumes "8 \<le> w"
  shows "raw_row w mode + raw_row w mode mod 2 \<le> 4 * w"
proof (cases "mode = 5")
  case True
  then show ?thesis by (simp add: raw_row_def)
next
  case False
  have e: "8 * ((w + 7) div 8) \<le> w + 7" "4 * ((w + 3) div 4) \<le> w + 3" "2 * ((w + 1) div 2) \<le> w + 1"
    by presburger+
  have "raw_row w mode \<le> 2 * w" using False e assms by (auto simp: raw_row_def)
  moreover have "raw_row w mode mod 2 < 2" by simp
  ultimately show ?thesis using assms by linarith
qed

subsection \<open>The invariant of the screen\<close>

definition sizes_ok :: "video \<Rightarrow> bool" where
  "sizes_ok v \<longleftrightarrow> VIDEO_MIN_WIDTH \<le> max_width v \<and> max_width v \<le> 16384 \<and> VIDEO_MIN_HEIGHT \<le> max_height v \<and> max_height v \<le> 16384"

definition presets_ok :: "video \<Rightarrow> bool" where
  "presets_ok v \<longleftrightarrow> VideoPresets v \<noteq> [] \<and> length (VideoPresets v) \<le> kMaxPresets \<and> distinct (VideoPresets v) \<and>
     (\<forall>(w, h) \<in> set (VideoPresets v). VIDEO_MIN_WIDTH \<le> w \<and> w \<le> max_width v \<and> VIDEO_MIN_HEIGHT \<le> h \<and> h \<le> max_height v)"

definition monitor_ok :: "video \<Rightarrow> bool" where
  "monitor_ok v \<longleftrightarrow> (let mon = VideoMonitor v
     in VIDEO_MIN_WIDTH \<le> uint (mon_x mon) \<and> uint (mon_x mon) \<le> max_width v \<and>
        VIDEO_MIN_HEIGHT \<le> uint (mon_y mon) \<and> uint (mon_y mon) \<le> max_height v \<and>
        VMODE_1BIT \<le> mon_mode mon \<and> mon_mode mon \<le> VMODE_32BIT \<and> uint (bytes_per_row mon) \<le> 4 * max_width v \<and>
        mac_frame_base mon = MacFrameBaseMac)"

definition video_ok :: "video \<Rightarrow> bool" where
  "video_ok v \<longleftrightarrow> sizes_ok v \<and> presets_ok v \<and> monitor_ok v \<and> MacFrameSize v = Video_ReservedFrameBytes v \<and> \<not> classic_mode v"

definition custom_ok :: "video \<Rightarrow> bool" where
  "custom_ok v \<longleftrightarrow> custom_id v = 0 \<or> (kCustomDisplayModeID \<le> custom_id v \<and> custom_id v \<le> kLastCustomDisplayModeID)"

definition screen_part :: "video \<Rightarrow> video_desc \<times> (int \<times> int) list \<times> int \<times> int \<times> u32 \<times> bool" where
  "screen_part v = (VideoMonitor v, VideoPresets v, max_width v, max_height v, MacFrameSize v, classic_mode v)"

lemma video_ok_cong: "screen_part v = screen_part w \<Longrightarrow> video_ok v = video_ok w"
  by (simp add: screen_part_def video_ok_def sizes_ok_def presets_ok_def monitor_ok_def Video_ReservedFrameBytes_def)

lemma reserved_int: "sizes_ok v \<Longrightarrow> uint (Video_ReservedFrameBytes v) = 4 * max_width v * max_height v"
proof -
  assume s: "sizes_ok v"
  let ?w = "max_width v" and ?h = "max_height v"
  have b: "0 \<le> ?w" "?w \<le> 16384" "0 \<le> ?h" "?h \<le> 16384" using s by (simp_all add: sizes_ok_def video_sizes)
  have r: "uint (Video_BytesPerRowForMode ?w VMODE_32BIT) = 4 * ?w"
    using BytesPerRow_int [OF b(1,2), of VMODE_32BIT] by (simp add: raw_row_def vmodes)
  have "uint (word_of_int ?h :: u32) = ?h" using b by (simp add: uint_word_of_int)
  moreover have "4 * ?w * ?h \<le> 4 * 16384 * 16384" using b by (intro mult_mono) simp_all
  ultimately show ?thesis using b by (simp add: Video_ReservedFrameBytes_def uint_word_ariths r)
qed

text \<open>A frame of the current mode lies inside the reservation.\<close>

lemma frame_fits:
  assumes "video_ok v"
  shows "uint (bytes_per_row (VideoMonitor v)) * uint (mon_y (VideoMonitor v)) \<le> uint (MacFrameSize v)"
proof -
  have s: "sizes_ok v" and m: "monitor_ok v" and f: "MacFrameSize v = Video_ReservedFrameBytes v"
    using assms by (simp_all add: video_ok_def)
  have "uint (bytes_per_row (VideoMonitor v)) * uint (mon_y (VideoMonitor v)) \<le> (4 * max_width v) * max_height v"
    using m s by (intro mult_mono) (simp_all add: monitor_ok_def Let_def sizes_ok_def video_sizes)
  then show ?thesis by (simp add: f reserved_int [OF s])
qed

lemma screen_trap: "screen_part (snd (Execute68kTrap os t d a v)) = screen_part v" "custom_id (snd (Execute68kTrap os t d a v)) = custom_id v"
  "slot (snd (Execute68kTrap os t d a v)) = slot v"
  by (simp_all add: Execute68kTrap_def Let_def split_def screen_part_def)

lemma screen_wr [simp]:
  "screen_part (wr8 a x v) = screen_part v" "screen_part (wr16 a x v) = screen_part v" "screen_part (wr32 a x v) = screen_part v"
  "custom_id (wr8 a x v) = custom_id v" "custom_id (wr16 a x v) = custom_id v" "custom_id (wr32 a x v) = custom_id v"
  by (simp_all add: screen_part_def wr8_def wr16_def wr32_def)

lemma screen_fields [simp]:
  "screen_part (v\<lparr>dmem := m\<rparr>) = screen_part v" "screen_part (v\<lparr>current_id := i\<rparr>) = screen_part v"
  "screen_part (v\<lparr>current_apple := a\<rparr>) = screen_part v" "screen_part (v\<lparr>preferred_apple := a\<rparr>) = screen_part v"
  "screen_part (v\<lparr>preferred_id := i\<rparr>) = screen_part v" "screen_part (v\<lparr>dm_present := b\<rparr>) = screen_part v"
  "screen_part (v\<lparr>dce_slot := x\<rparr>) = screen_part v" "screen_part (v\<lparr>dce_slot_id := x\<rparr>) = screen_part v"
  "screen_part (v\<lparr>palette := pal\<rparr>) = screen_part v" "screen_part (v\<lparr>host_palette := pal\<rparr>) = screen_part v"
  "screen_part (v\<lparr>have_palette := b\<rparr>) = screen_part v" "screen_part (v\<lparr>guest_notify := b\<rparr>) = screen_part v"
  "screen_part (v\<lparr>notified := ns\<rparr>) = screen_part v" "screen_part (v\<lparr>host_depth := d\<rparr>) = screen_part v"
  "screen_part (v\<lparr>luminance_mapping := b\<rparr>) = screen_part v" "screen_part (v\<lparr>interrupts_enabled := b\<rparr>) = screen_part v"
  "screen_part (v\<lparr>vid_open := b\<rparr>) = screen_part v" "screen_part (v\<lparr>vdce := i\<rparr>) = screen_part v"
  "screen_part (v\<lparr>slot_param := i\<rparr>) = screen_part v" "screen_part (v\<lparr>cntrl_pb := i\<rparr>) = screen_part v"
  "screen_part (v\<lparr>switch_info := i\<rparr>) = screen_part v" "screen_part (v\<lparr>custom_id := i\<rparr>) = screen_part v"
  "screen_part (v\<lparr>custom_width := n\<rparr>) = screen_part v" "screen_part (v\<lparr>custom_height := n\<rparr>) = screen_part v"
  by (simp_all add: screen_part_def)

lemma screen_palette [simp]:
  "screen_part (video_set_palette pal v) = screen_part v" "custom_id (video_set_palette pal v) = custom_id v"
  "screen_part (set_gray_palette v) = screen_part v" "custom_id (set_gray_palette v) = custom_id v"
  by (simp_all add: video_set_palette_def set_gray_palette_def)

lemma screen_note [simp]:
  "screen_part (Video_NoteCurrentMode w h v) = screen_part v" "custom_id (Video_NoteCurrentMode w h v) = custom_id v"
  by (simp_all add: Video_NoteCurrentMode_def Let_def)

lemma screen_patches [simp]:
  "screen_part (patch_minor_base x w) = screen_part w" "screen_part (patch_parms x w) = screen_part w"
  "custom_id (patch_minor_base x w) = custom_id w" "custom_id (patch_parms x w) = custom_id w"
  by (simp_all add: patch_minor_base_def patch_parms_def Let_def)

lemma screen_base [simp]: "screen_part (set_screen_base w) = screen_part w" "custom_id (set_screen_base w) = custom_id w"
  by (simp_all add: set_screen_base_def Let_def)

lemma screen_slot_manager [simp]:
  "screen_part (snd (SlotManager os d a v)) = screen_part v" "custom_id (snd (SlotManager os d a v)) = custom_id v"
  "screen_part (snd (SFindStruct os i a v)) = screen_part v" "custom_id (snd (SFindStruct os i a v)) = custom_id v"
  by (simp_all add: SlotManager_def SFindStruct_def screen_trap)

lemma screen_steps [simp]:
  "screen_part (snd (snd (find_minor_base os v))) = screen_part v" "custom_id (snd (snd (find_minor_base os v))) = custom_id v"
  "screen_part (snd (find_mode_parms os r a v)) = screen_part v" "custom_id (snd (find_mode_parms os r a v)) = custom_id v"
  "screen_part (checksum_and_update os a v) = screen_part v" "custom_id (checksum_and_update os a v) = custom_id v"
  "screen_part (note_slot dce param v) = screen_part v" "custom_id (note_slot dce param v) = custom_id v"
  by (simp_all add: find_minor_base_def find_mode_parms_def checksum_and_update_def note_slot_def Let_def split_def)

lemma screen_slot_table [simp]:
  "screen_part (Video_UpdateSlotTable os dce param v) = screen_part v" "custom_id (Video_UpdateSlotTable os dce param v) = custom_id v"
  by (simp_all add: Video_UpdateSlotTable_def Let_def split_def)

subsection \<open>Switching keeps the invariant\<close>

lemma clamped:
  assumes "sizes_ok v" "clamp_mode_size w0 h0 v = (w, h)"
  shows "VIDEO_MIN_WIDTH \<le> w" "w \<le> max_width v" "VIDEO_MIN_HEIGHT \<le> h" "h \<le> max_height v" "0 \<le> w" "w \<le> 16384" "0 \<le> h" "h \<le> 16384"
  using assms by (auto simp: sizes_ok_def clamp_mode_size_def video_sizes)

lemma small_words:
  "0 \<le> w \<Longrightarrow> w \<le> 16384 \<Longrightarrow> uint (word_of_int w :: u32) = w"
  "0 \<le> w \<Longrightarrow> w \<le> 16384 \<Longrightarrow> sint (word_of_int w :: u32) = w"
proof -
  assume w: "0 \<le> w" "w \<le> 16384"
  then show u: "uint (word_of_int w :: u32) = w" by (simp add: uint_word_of_int)
  have "unat (word_of_int w :: u32) = nat w" using u by (metis nat_uint_eq)
  then show "sint (word_of_int w :: u32) = w" using w sint_eq_unat [of "word_of_int w"] by simp
qed

lemma screen_finish [simp]:
  "screen_part (new_surface d v) = screen_part v" "screen_part (clear_frame row h v) = screen_part v"
  "screen_part (notify_guest w h v) = screen_part v"
  "custom_id (new_surface d v) = custom_id v" "custom_id (clear_frame row h v) = custom_id v"
  "custom_id (notify_guest w h v) = custom_id v"
  by (simp_all add: new_surface_def clear_frame_def notify_guest_def Let_def)

lemma slot_finish [simp]:
  "slot (new_surface d v) = slot v" "slot (clear_frame row h v) = slot v" "slot (notify_guest w h v) = slot v"
  "slot (Video_NoteCurrentMode w h v) = slot v" "slot (set_frame_base v) = slot v" "slot (set_video_monitor w h row m v) = slot v"
  by (simp_all add: new_surface_def clear_frame_def notify_guest_def Let_def Video_NoteCurrentMode_def video_set_palette_def
      set_frame_base_def set_video_monitor_def)

lemma monitor_of_screen: "screen_part v = screen_part w \<Longrightarrow> VideoMonitor v = VideoMonitor w"
  by (simp add: screen_part_def)

lemma set_monitor [simp]:
  "VideoMonitor (set_frame_base v) = (VideoMonitor v)\<lparr>mac_frame_base := MacFrameBaseMac\<rparr>"
  "VideoMonitor (set_video_monitor w h row m v) = (VideoMonitor v)
     \<lparr>mon_mode := (if m < VMODE_1BIT \<or> m > VMODE_32BIT then VMODE_8BIT else m), mon_x := word_of_int w, mon_y := word_of_int h, bytes_per_row := row\<rparr>"
  "snd (screen_part (set_frame_base v)) = snd (screen_part v)" "snd (screen_part (set_video_monitor w h row m v)) = snd (screen_part v)"
  "custom_id (set_frame_base v) = custom_id v" "custom_id (set_video_monitor w h row m v) = custom_id v"
  "dmem (set_frame_base v) = dmem v" "dmem (set_video_monitor w h row m v) = dmem v"
  by (simp_all add: set_frame_base_def set_video_monitor_def screen_part_def)

lemma change_mode_frame:
  "snd (screen_part (snd (change_mode sdl w h m v))) = snd (screen_part v)"
  "custom_id (snd (change_mode sdl w h m v)) = custom_id v" "slot (snd (change_mode sdl w h m v)) = slot v"
  by (simp_all add: change_mode_def Let_def)

lemma change_mode_monitor:
  "fst (change_mode sdl w h m v) \<Longrightarrow> VMODE_1BIT \<le> m \<Longrightarrow> m \<le> VMODE_32BIT \<Longrightarrow> VideoMonitor (snd (change_mode sdl w h m v)) =
     \<lparr>mac_frame_base = MacFrameBaseMac, bytes_per_row = Video_BytesPerRowForMode w m, mon_x = word_of_int w, mon_y = word_of_int h, mon_mode = m\<rparr>"
  "\<not> fst (change_mode sdl w h m v) \<Longrightarrow> monitor_ok v \<Longrightarrow> VideoMonitor (snd (change_mode sdl w h m v)) = VideoMonitor v"
  "\<not> fst (change_mode sdl w h m v) \<Longrightarrow> dmem (snd (change_mode sdl w h m v)) = dmem v"
proof -
  let ?row = "Video_BytesPerRowForMode w m"
  have v1: "VideoMonitor (set_frame_base (set_video_monitor w h ?row m v)) =
     \<lparr>mac_frame_base = MacFrameBaseMac, bytes_per_row = ?row, mon_x = word_of_int w, mon_y = word_of_int h, mon_mode = m\<rparr>"
    if "VMODE_1BIT \<le> m" "m \<le> VMODE_32BIT"
    using that by simp
  show "fst (change_mode sdl w h m v) \<Longrightarrow> VMODE_1BIT \<le> m \<Longrightarrow> m \<le> VMODE_32BIT \<Longrightarrow> VideoMonitor (snd (change_mode sdl w h m v)) =
     \<lparr>mac_frame_base = MacFrameBaseMac, bytes_per_row = ?row, mon_x = word_of_int w, mon_y = word_of_int h, mon_mode = m\<rparr>"
    by (subst v1 [symmetric], assumption+, rule monitor_of_screen) (auto simp: change_mode_def Let_def split: if_splits)
  show "\<not> fst (change_mode sdl w h m v) \<Longrightarrow> monitor_ok v \<Longrightarrow> VideoMonitor (snd (change_mode sdl w h m v)) = VideoMonitor v"
    by (auto simp: change_mode_def Let_def monitor_ok_def split: if_splits)
  show "\<not> fst (change_mode sdl w h m v) \<Longrightarrow> dmem (snd (change_mode sdl w h m v)) = dmem v"
    by (auto simp: change_mode_def Let_def split: if_splits)
qed

lemma switch_cases:
  fixes sdl :: sdl and mode :: int
  assumes c: "clamp_mode_size w0 h0 v = (w, h)"
  defines "r \<equiv> Video_SwitchToModeDepth sdl w0 h0 mode v"
  shows "r = (False, v) \<or>
    (r = (True, v) \<and> word_of_int w = mon_x (VideoMonitor v) \<and> word_of_int h = mon_y (VideoMonitor v) \<and> mode = mon_mode (VideoMonitor v)) \<or>
    (r = change_mode sdl w h mode v \<and> VMODE_1BIT \<le> mode \<and> mode \<le> VMODE_32BIT)"
  unfolding r_def Video_SwitchToModeDepth_def c Let_def prod.case by auto

lemma switch_frame [simp]:
  "snd (screen_part (snd (Video_SwitchToModeDepth sdl w0 h0 mode v))) = snd (screen_part v)"
  "custom_id (snd (Video_SwitchToModeDepth sdl w0 h0 mode v)) = custom_id v"
  "slot (snd (Video_SwitchToModeDepth sdl w0 h0 mode v)) = slot v"
proof -
  obtain w h where c: "clamp_mode_size w0 h0 v = (w, h)" by fastforce
  show "snd (screen_part (snd (Video_SwitchToModeDepth sdl w0 h0 mode v))) = snd (screen_part v)"
    "custom_id (snd (Video_SwitchToModeDepth sdl w0 h0 mode v)) = custom_id v"
    "slot (snd (Video_SwitchToModeDepth sdl w0 h0 mode v)) = slot v"
    using switch_cases [OF c, of sdl mode] by (auto simp: change_mode_frame)
qed

lemma switch_video_ok:
  assumes "video_ok v"
  shows "video_ok (snd (Video_SwitchToModeDepth sdl w0 h0 mode v))"
proof -
  obtain w h where c: "clamp_mode_size w0 h0 v = (w, h)" by fastforce
  have s: "sizes_ok v" and mo: "monitor_ok v" using assms by (simp_all add: video_ok_def)
  note cb = clamped [OF s c]
  let ?r = "Video_SwitchToModeDepth sdl w0 h0 mode v"
  have sc: "snd (screen_part (snd ?r)) = snd (screen_part v)" by simp
  have mw: "max_width (snd ?r) = max_width v" "max_height (snd ?r) = max_height v" using sc by (simp_all add: screen_part_def)
  have "monitor_ok (snd ?r)"
  proof (cases "?r = change_mode sdl w h mode v \<and> VMODE_1BIT \<le> mode \<and> mode \<le> VMODE_32BIT")
    case False
    then have "snd ?r = v" using switch_cases [OF c, of sdl mode] by auto
    then show ?thesis using mo by simp
  next
    case change: True
    show ?thesis
    proof (cases "fst (change_mode sdl w h mode v)")
      case True
      have "uint (Video_BytesPerRowForMode w mode) \<le> 4 * w"
        using raw_row_le [of w mode] cb by (simp add: BytesPerRow_int video_sizes)
      then show ?thesis using change_mode_monitor(1) [OF True] change cb mw
        by (simp add: monitor_ok_def Let_def small_words)
    next
      case False
      then show ?thesis using change_mode_monitor(2) [OF False mo] mo mw change by (simp add: monitor_ok_def)
    qed
  qed
  then show ?thesis using assms sc
    by (simp add: video_ok_def sizes_ok_def presets_ok_def Video_ReservedFrameBytes_def screen_part_def)
qed

subsection \<open>The entry points keep the invariant\<close>

lemma switch_quietly_ok:
  "video_ok v \<Longrightarrow> video_ok (snd (switch_quietly sdl w h d v))"
  "snd (screen_part (snd (switch_quietly sdl w h d v))) = snd (screen_part v)"
  "custom_id (snd (switch_quietly sdl w h d v)) = custom_id v"
proof -
  have c: "video_ok ((set_cursor_busy 1 v)\<lparr>guest_notify := False\<rparr>) = video_ok v"
    by (rule video_ok_cong) (simp add: set_cursor_busy_def)
  have d: "video_ok (set_cursor_busy 0 (x\<lparr>guest_notify := True\<rparr>)) = video_ok x" for x
    by (rule video_ok_cong) (simp add: set_cursor_busy_def)
  show "video_ok v \<Longrightarrow> video_ok (snd (switch_quietly sdl w h d v))"
    by (simp add: switch_quietly_def Let_def split_def c d switch_video_ok)
  show "snd (screen_part (snd (switch_quietly sdl w h d v))) = snd (screen_part v)"
    "custom_id (snd (switch_quietly sdl w h d v)) = custom_id v"
    by (simp_all add: switch_quietly_def Let_def split_def set_cursor_busy_def)
qed

definition kept :: "video \<Rightarrow> video \<Rightarrow> bool" where
  "kept v w \<longleftrightarrow> (video_ok v \<longrightarrow> video_ok w) \<and> (custom_ok v \<longrightarrow> custom_ok w) \<and> snd (screen_part w) = snd (screen_part v)"

lemma kept_same: "screen_part w = screen_part v \<Longrightarrow> custom_id w = custom_id v \<Longrightarrow> kept v w"
  using video_ok_cong [of w v] by (simp add: kept_def custom_ok_def)

lemma kept_trans: "kept u v \<Longrightarrow> kept v w \<Longrightarrow> kept u w"
  by (simp add: kept_def)

lemma kept_switch: "kept v (snd (Video_SwitchToModeDepth sdl w h m v))" "kept v (snd (switch_quietly sdl w h m v))"
  by (simp_all add: kept_def switch_video_ok switch_quietly_ok custom_ok_def)

lemma kept_after_switch:
  assumes "switch_quietly sdl w h m v1 = (ok, v2)" "screen_part v1 = screen_part v" "custom_id v1 = custom_id v"
    "screen_part x = screen_part v2" "custom_id x = custom_id v2"
  shows "kept v x"
proof -
  have "kept v v1" by (rule kept_same [OF assms(2,3)])
  moreover have "kept v1 v2" using kept_switch(2) [of v1 sdl w h m] assms(1) by simp
  moreover have "kept v2 x" by (rule kept_same [OF assms(4,5)])
  ultimately show ?thesis by (blast intro: kept_trans)
qed

lemma kept_SetMode: "kept v (snd (SetMode os sdl dce param v))"
proof -
  obtain ok v2 where q: "switch_quietly sdl (sint (mon_x (VideoMonitor (set_gray_palette (wr32 (param + csBaseAddr) (frame_base v) v)))))
      (sint (mon_y (VideoMonitor (set_gray_palette (wr32 (param + csBaseAddr) (frame_base v) v)))))
      (Video_DepthForAppleMode (ucast (ReadMacInt16 (dmem v) (param + csMode))))
      (set_gray_palette (wr32 (param + csBaseAddr) (frame_base v) v)) = (ok, v2)" by fastforce
  have k: "kept v v2" "kept v (wr32 a b (Video_UpdateSlotTable os dce param v2))" for a b
    by (rule kept_after_switch [OF q]; simp)+
  show ?thesis unfolding SetMode_def Let_def q prod.case by (simp add: kept_same k)
qed

lemma kept_SwitchMode: "kept v (snd (SwitchMode os sdl dce param v))"
proof -
  define v0 where "v0 = wr32 (param + csBaseAddr) (frame_base v) v"
  define apple where "apple = (ucast (ReadMacInt16 (dmem v) (param + csMode)) :: u16)"
  define v1 where "v1 = (if apple \<noteq> current_apple v0 then set_gray_palette v0 else v0)"
  have s: "screen_part v1 = screen_part v" "custom_id v1 = custom_id v" "kept v v0"
    by (auto simp: v1_def v0_def intro: kept_same)
  have k: "kept v v2 \<and> kept v (wr32 a b (Video_UpdateSlotTable os dce param v2))"
    if "switch_quietly sdl w h d v1 = (ok, v2)" for w h d ok v2 a b
    by (intro conjI kept_after_switch [OF that]) (simp_all add: s)
  show ?thesis
    unfolding SwitchMode_def Let_def v0_def [symmetric] apple_def [symmetric] v1_def [symmetric]
    by (auto simp: k s kept_same v0_def split: option.split prod.split)
qed

lemma kept_register: "kept v (snd (Video_RegisterGuestSize w h v))"
proof -
  have n: "custom_id v + 1 \<le> 0xCF \<and> 0xC0 \<le> custom_id v + 1" if "\<not> custom_id v < 0xC0" "\<not> custom_id v \<ge> 0xCF"
  proof -
    have "192 \<le> unat (custom_id v)" "unat (custom_id v) < 207" using that by (simp_all add: word_le_nat_alt word_less_nat_alt)
    then have "unat (custom_id v + 1) = unat (custom_id v) + 1" using unat_plus_no_wrap [of "custom_id v" 1] by simp
    then show ?thesis using \<open>192 \<le> unat (custom_id v)\<close> \<open>unat (custom_id v) < 207\<close> by (simp add: word_le_nat_alt)
  qed
  have "video_ok (snd (Video_RegisterGuestSize w h v)) = video_ok v"
    by (rule video_ok_cong) (simp add: Video_RegisterGuestSize_def Let_def)
  then show ?thesis
    using n by (auto simp: kept_def Video_RegisterGuestSize_def Let_def custom_ok_def kCustomDisplayModeID_def kLastCustomDisplayModeID_def)
qed

lemma kept_SetEntries: "SetEntries d param v = Some (e, w) \<Longrightarrow> kept v w"
  by (auto simp: SetEntries_def Let_def bind_eq_Some_conv intro!: kept_same split: if_splits)

lemma kept_control: "VideoDriverControl os sdl pb dce v = Some (e, w) \<Longrightarrow> kept v w"
  unfolding VideoDriverControl_def Let_def
  using kept_SetMode [of v os sdl dce "ReadMacInt32 (dmem v) (pb + csParam)"]
    kept_SwitchMode [of v os sdl dce "ReadMacInt32 (dmem v) (pb + csParam)"]
  by (auto simp: kept_same GrayPage_def Let_def SavePreferred_def dest: kept_SetEntries split: if_splits)

lemma kept_guest:
  assumes "Video_GuestSwitchToSize os sdl w h v = Some (e, x)"
  shows "kept v x"
proof (cases "vdce v = 0 \<or> cntrl_pb v = 0 \<or> switch_info v = 0 \<or> w < VIDEO_MIN_WIDTH \<or> h < VIDEO_MIN_HEIGHT")
  case True
  then show ?thesis using assms by (auto simp: Video_GuestSwitchToSize_def kept_def)
next
  case False
  obtain i v1 where r: "Video_RegisterGuestSize w h v = (i, v1)" by fastforce
  obtain v8 pb dce where c: "VideoDriverControl os sdl pb dce v8 = Some (e, x)" "screen_part v8 = screen_part v1" "custom_id v8 = custom_id v1"
    using assms False unfolding Video_GuestSwitchToSize_def r Let_def prod.case by (auto split: if_splits)
  have "kept v v1" using kept_register [of v w h] r by simp
  moreover have "kept v1 v8" by (rule kept_same [OF c(2,3)])
  ultimately show ?thesis using kept_control [OF c(1)] by (blast intro: kept_trans)
qed

lemma screen_new_ptr [simp]:
  "screen_part (snd (NewPtrSysClear os n v)) = screen_part v" "custom_id (snd (NewPtrSysClear os n v)) = custom_id v"
  by (simp_all add: NewPtrSysClear_def screen_trap)

lemma screen_open_blocks [simp]: "screen_part (open_blocks os v) = screen_part v" "custom_id (open_blocks os v) = custom_id v"
  by (simp_all add: open_blocks_def Let_def split_def)

lemma kept_open: "kept v (snd (VideoDriverOpen os pb dce v))"
  by (rule kept_same) (simp_all add: VideoDriverOpen_def Let_def)

lemma screen_status [simp]:
  "screen_part (snd (VideoDriverStatus pb dce v)) = screen_part v" "custom_id (snd (VideoDriverStatus pb dce v)) = custom_id v"
proof -
  have r: "screen_part (write_resolution_info p i a b w) = screen_part w" "custom_id (write_resolution_info p i a b w) = custom_id w" for p i a b w
    by (simp_all add: write_resolution_info_def)
  have b: "screen_part (write_vp_block p q a c d w) = screen_part w" "custom_id (write_vp_block p q a c d w) = custom_id w" for p q a c d w
    by (simp_all add: write_vp_block_def Let_def split_def)
  have c: "screen_part (connect_info p w) = screen_part w" "custom_id (connect_info p w) = custom_id w"
    "screen_part (current_page p w) = screen_part w" "custom_id (current_page p w) = custom_id w" for p w
    by (simp_all add: connect_info_def current_page_def)
  have n: "screen_part (snd (GetNextResolution p w)) = screen_part w" "custom_id (snd (GetNextResolution p w)) = custom_id w"
    "screen_part (snd (GetVideoParameters p w)) = screen_part w" "custom_id (snd (GetVideoParameters p w)) = custom_id w"
    "screen_part (snd (GetModeTiming p w)) = screen_part w" "custom_id (snd (GetModeTiming p w)) = custom_id w"
    "screen_part (snd (GetMultiConnect p w)) = screen_part w" "custom_id (snd (GetMultiConnect p w)) = custom_id w" for p w
    by (simp_all add: GetNextResolution_def GetVideoParameters_def GetModeTiming_def GetMultiConnect_def Let_def r b c
        split: prod.split option.split)
  show "screen_part (snd (VideoDriverStatus pb dce v)) = screen_part v" "custom_id (snd (VideoDriverStatus pb dce v)) = custom_id v"
    by (simp_all add: VideoDriverStatus_def Let_def c n)
qed

lemma kept_reset: "kept v (Video_ResetForWarmStart sdl v)"
proof -
  let ?a = "Video_AppleModeForDepth VMODE_8BIT"
  let ?v1 = "v\<lparr>vdce := 0, cntrl_pb := 0, switch_info := 0, slot_param := 0, custom_width := 0, custom_height := 0,
                 custom_id := 0, dm_present := False, current_id := kFirstAppleMode, current_apple := ?a,
                 preferred_apple := ?a, preferred_id := kFirstAppleMode, guest_notify := False\<rparr>"
  have v1: "video_ok ?v1 = video_ok v" by (rule video_ok_cong) simp
  let ?v2 = "snd (Video_SwitchToModeDepth sdl VIDEO_DEFAULT_WIDTH VIDEO_DEFAULT_HEIGHT VMODE_8BIT ?v1)"
  have r: "Video_ResetForWarmStart sdl v = ?v2\<lparr>guest_notify := guest_notify v\<rparr>"
    by (simp add: Video_ResetForWarmStart_def Let_def split_def)
  have "video_ok (?v2\<lparr>guest_notify := guest_notify v\<rparr>) = video_ok ?v2" by (rule video_ok_cong) simp
  moreover have "custom_id ?v2 = 0" by simp
  ultimately show ?thesis unfolding r kept_def using switch_video_ok [of ?v1] v1 by (simp add: custom_ok_def)
qed

subsection \<open>Runs of the driver\<close>

inductive video_step :: "mac_os \<Rightarrow> sdl \<Rightarrow> video \<Rightarrow> video \<Rightarrow> bool" for os sdl where
  open_call: "video_step os sdl v (snd (VideoDriverOpen os pb dce v))"
| control_call: "VideoDriverControl os sdl pb dce v = Some (e, w) \<Longrightarrow> video_step os sdl v w"
| status_call: "video_step os sdl v (snd (VideoDriverStatus pb dce v))"
| host_resize: "Video_GuestSwitchToSize os sdl width height v = Some (e, w) \<Longrightarrow> video_step os sdl v w"
| host_switch: "video_step os sdl v (snd (Video_SwitchToModeDepth sdl width height mode v))"
| warm_start: "video_step os sdl v (Video_ResetForWarmStart sdl v)"
| guest_runs: "video_step os sdl v (v\<lparr>dmem := m\<rparr>)"

lemma video_step_kept: "video_step os sdl v w \<Longrightarrow> kept v w"
proof (induction rule: video_step.induct)
  case (status_call v pb dce)
  then show ?case by (intro kept_same) simp_all
qed (auto intro: kept_open kept_control kept_guest kept_switch kept_reset kept_same)

lemma video_steps_kept: "(video_step os sdl)\<^sup>*\<^sup>* v w \<Longrightarrow> kept v w"
  by (induction rule: rtranclp_induct) (auto simp: kept_def dest: video_step_kept)

subsection \<open>Start-up\<close>

lemma fold_max_le:
  "a \<le> fold (\<lambda>p x. if f p > x then f p else x) ps a \<and> (\<forall>p \<in> set ps. f p \<le> fold (\<lambda>p x. if f p > x then f p else (x :: int)) ps a)"
proof (induction ps arbitrary: a)
  case (Cons p ps)
  from Cons.IH [of "if f p > a then f p else a"] show ?case by (auto split: if_splits)
qed simp

lemma fold_max_bound:
  "a \<le> b \<Longrightarrow> \<forall>p \<in> set ps. f p \<le> b \<Longrightarrow> fold (\<lambda>p x. if f p > x then f p else x) ps a \<le> (b :: int)"
  by (induction ps arbitrary: a) auto

lemma BuildPresets_ok:
  assumes "w \<le> 16384" "h \<le> 16384"
  shows "sizes_ok (Video_BuildPresets w h v)" "presets_ok (Video_BuildPresets w h v)"
proof -
  define hw where "hw = max w VIDEO_MIN_WIDTH"
  define hh where "hh = max h VIDEO_MIN_HEIGHT"
  define fit where "fit = filter (\<lambda>(w, h). w \<le> hw \<and> h \<le> hh) kBasePresets"
  define ps where "ps = (if (hw, hh) \<notin> set fit \<and> length fit < kMaxPresets then fit @ [(hw, hh)] else fit)"
  have mw: "fold (\<lambda>(w, h) x. if w > x then w else x) ps a = fold (\<lambda>p x. if fst p > x then fst p else x) ps a"
    and mh: "fold (\<lambda>(w, h) x. if h > x then h else x) ps a = fold (\<lambda>p x. if snd p > x then snd p else x) ps a" for a
    by (simp_all add: split_def)
  have v: "VideoPresets (Video_BuildPresets w h v) = ps"
    "max_width (Video_BuildPresets w h v) = fold (\<lambda>p x. if fst p > x then fst p else x) ps VIDEO_MIN_WIDTH"
    "max_height (Video_BuildPresets w h v) = fold (\<lambda>p x. if snd p > x then snd p else x) ps VIDEO_MIN_HEIGHT"
    unfolding Video_BuildPresets_def Let_def hw_def [symmetric] hh_def [symmetric] fit_def [symmetric] ps_def [symmetric]
    by (simp_all add: mw mh)
  have b: "VIDEO_MIN_WIDTH \<le> hw" "VIDEO_MIN_HEIGHT \<le> hh" "hw \<le> 16384" "hh \<le> 16384"
    using assms by (simp_all add: hw_def hh_def video_sizes)
  have base: "\<forall>(w, h) \<in> set kBasePresets. VIDEO_MIN_WIDTH \<le> w \<and> VIDEO_MIN_HEIGHT \<le> h" "distinct kBasePresets" "length kBasePresets = 8"
    by (simp_all add: kBasePresets_def video_sizes)
  have lf: "length fit \<le> 8" using length_filter_le [of "\<lambda>(w, h). w \<le> hw \<and> h \<le> hh" kBasePresets] by (simp add: fit_def base(3))
  have df: "distinct fit" using base(2) by (simp add: fit_def)
  have mem: "p \<in> set fit \<or> p = (hw, hh)" if "p \<in> set ps" for p using that by (auto simp: ps_def split: if_splits)
  have lo: "VIDEO_MIN_WIDTH \<le> fst p \<and> VIDEO_MIN_HEIGHT \<le> snd p \<and> fst p \<le> hw \<and> snd p \<le> hh" if "p \<in> set ps" for p
    using mem [OF that] base(1) b by (auto simp: fit_def)
  have "ps \<noteq> []" using lf by (auto simp: ps_def kMaxPresets_def base(3))
  moreover have "distinct ps" "length ps \<le> kMaxPresets" using df lf by (auto simp: ps_def kMaxPresets_def base(3))
  ultimately show "presets_ok (Video_BuildPresets w h v)"
    using lo fold_max_le [of VIDEO_MIN_WIDTH fst ps] fold_max_le [of VIDEO_MIN_HEIGHT snd ps]
    unfolding presets_ok_def v by fastforce
  have "\<forall>p \<in> set ps. fst p \<le> 16384" "\<forall>p \<in> set ps. snd p \<le> 16384" using lo b by fastforce+
  then show "sizes_ok (Video_BuildPresets w h v)"
    using fold_max_le [of VIDEO_MIN_WIDTH fst ps] fold_max_le [of VIDEO_MIN_HEIGHT snd ps]
      fold_max_bound [of VIDEO_MIN_WIDTH 16384 ps fst] fold_max_bound [of VIDEO_MIN_HEIGHT 16384 ps snd]
    unfolding sizes_ok_def v by (simp add: video_sizes)
qed

lemma VideoInit_ok:
  assumes "fst desktop \<le> 16384" "snd desktop \<le> 16384"
  shows "video_ok (VideoInit sdl False screen desktop v0)"
proof -
  obtain hw hh where d: "(if fst desktop > 0 \<and> snd desktop > 0 then desktop else (VIDEO_MAX_WIDTH, VIDEO_MAX_HEIGHT)) = (hw, hh)"
    by (metis surj_pair)
  have hb: "hw \<le> 16384" "hh \<le> 16384" using d assms by (auto simp: video_sizes split: if_splits)
  define v1 where "v1 = Video_BuildPresets hw hh (v0\<lparr>classic_mode := False, host_depth := 8\<rparr>)"
  have o1: "sizes_ok v1" "presets_ok v1" unfolding v1_def by (rule BuildPresets_ok [OF hb])+
  have c1: "\<not> classic_mode v1" "host_depth v1 = 8" by (simp_all add: v1_def Video_BuildPresets_def Let_def)
  obtain w h where b: "boot_size screen v1 = (w, h)" by fastforce
  have wh: "VIDEO_MIN_WIDTH \<le> w" "w \<le> max_width v1" "VIDEO_MIN_HEIGHT \<le> h" "h \<le> max_height v1"
    using b o1(1) by (auto simp: boot_size_def Let_def split_def sizes_ok_def)
  then have wb: "0 \<le> w" "w \<le> 16384" "0 \<le> h" "h \<le> 16384" using o1(1) by (simp_all add: sizes_ok_def video_sizes)
  define v3 where "v3 = (init_window sdl w h v1)\<lparr>MacFrameSize := Video_ReservedFrameBytes (init_window sdl w h v1)\<rparr>"
  have "video_ok v3"
    using o1 c1 wh wb
    by (simp add: video_ok_def v3_def init_window_def set_frame_base_def set_video_monitor_def sizes_ok_def presets_ok_def
        monitor_ok_def Let_def Video_ReservedFrameBytes_def small_words vmodes)
  moreover have "VideoInit sdl False screen desktop v0 = video_set_palette grays (Video_NoteCurrentMode w h v3)"
    unfolding VideoInit_def Let_def if_False d prod.case v1_def [symmetric] b v3_def by simp
  moreover have "video_ok (video_set_palette grays (Video_NoteCurrentMode w h v3)) = video_ok v3"
    by (rule video_ok_cong) simp
  ultimately show ?thesis by simp
qed

lemma VideoInit_custom: "custom_id (VideoInit sdl False screen desktop v0) = custom_id v0"
  by (simp add: VideoInit_def Let_def split_def init_window_def Video_BuildPresets_def)

subsection \<open>Resolution numbers\<close>

lemma find_index_distinct:
  assumes "distinct xs" "i < length xs"
  shows "find_index (\<lambda>p. p = xs ! i) xs = Some i"
  unfolding find_index_def find_Some_iff using assms by (intro exI [of _ i]) (auto simp: nth_eq_iff_index_eq)

lemma preset_range:
  assumes "length ps \<le> kMaxPresets" "i < length ps"
  shows "\<not> kFirstAppleMode + of_nat i < kFirstAppleMode" "kFirstAppleMode + of_nat i < kFirstAppleMode + of_nat (length ps)"
    "kFirstAppleMode + of_nat i < kCustomDisplayModeID" "kFirstAppleMode + of_nat i \<noteq> 0"
proof -
  have b: "length ps \<le> 9" using assms(1) by (simp add: kMaxPresets_def kBasePresets_def)
  have u: "unat (kFirstAppleMode + of_nat n) = 128 + n" if "n \<le> 9" for n
  proof -
    have "kFirstAppleMode + of_nat n = (of_nat (128 + n) :: u32)" by (simp add: kFirstAppleMode_def)
    then show ?thesis using that by (simp add: unat_of_nat_small del: of_nat_add)
  qed
  have i: "i \<le> 9" using b assms(2) by simp
  show "\<not> kFirstAppleMode + of_nat i < kFirstAppleMode" using u [OF i] by (simp add: word_less_nat_alt kFirstAppleMode_def)
  show "kFirstAppleMode + of_nat i < kFirstAppleMode + of_nat (length ps)" using u [OF i] u [OF b] assms(2) by (simp add: word_less_nat_alt)
  show "kFirstAppleMode + of_nat i < kCustomDisplayModeID" using u [OF i] i by (simp add: word_less_nat_alt kCustomDisplayModeID_def)
  show "kFirstAppleMode + of_nat i \<noteq> 0" using u [OF i] by auto
qed

lemma preset_numbers:
  assumes "presets_ok v \<and> custom_ok v" 
  shows "\<forall>i < length (VideoPresets v). Video_SizeForResolutionID (kFirstAppleMode + of_nat i) v = Some (VideoPresets v ! i) \<and>
       Video_ResolutionIDForSize (fst (VideoPresets v ! i)) (snd (VideoPresets v ! i)) v = kFirstAppleMode + of_nat i"
proof (intro allI impI)
  fix i assume i: "i < length (VideoPresets v)"
  have l: "length (VideoPresets v) \<le> kMaxPresets" and d: "distinct (VideoPresets v)" and c: "custom_ok v"
    using assms by (simp_all add: presets_ok_def)
  note r = preset_range [OF l i]
  have n: "custom_id v = 0 \<or> kFirstAppleMode + of_nat i \<noteq> custom_id v" using r(3) c by (auto simp: custom_ok_def)
  have u: "unat (kFirstAppleMode + of_nat i - kFirstAppleMode :: u32) = i"
    using l i by (simp add: unat_of_nat_small kMaxPresets_def kBasePresets_def)
  show "Video_SizeForResolutionID (kFirstAppleMode + of_nat i) v = Some (VideoPresets v ! i) \<and>
       Video_ResolutionIDForSize (fst (VideoPresets v ! i)) (snd (VideoPresets v ! i)) v = kFirstAppleMode + of_nat i"
    using r n u find_index_distinct [OF d i] by (auto simp: Video_SizeForResolutionID_def Video_ResolutionIDForSize_def not_less not_le)
qed

lemma register_presets: "Video_RegisterGuestSize w h v = (ident, v') \<Longrightarrow> VideoPresets v' = VideoPresets v"
  by (auto simp: Video_RegisterGuestSize_def Let_def split: if_splits)

lemma register_kept:
  assumes "presets_ok v" "custom_ok v" "Video_RegisterGuestSize w h v = (ident, v')"
  shows "presets_ok v' \<and> custom_ok v'"
proof -
  have "max_width v' = max_width v" "max_height v' = max_height v"
    using assms(3) by (auto simp: Video_RegisterGuestSize_def Let_def split: if_splits)
  moreover have "custom_ok v'" using kept_register [of v w h] assms(2,3) by (simp add: kept_def)
  ultimately show ?thesis using assms(1) register_presets [OF assms(3)] by (simp add: presets_ok_def)
qed

lemma register_round_trip:
  assumes ok: "presets_ok v" "custom_ok v" and wh: "0 < w" "0 < h" and r: "Video_RegisterGuestSize w h v = (ident, v')"
  shows "ident \<noteq> 0 \<and> Video_SizeForResolutionID ident v' = Some (w, h) \<and> Video_ResolutionIDForSize w h v' = ident"
proof (cases "find_index (\<lambda>p. p = (w, h)) (VideoPresets v)")
  case (Some i)
  then have i: "i < length (VideoPresets v)" "VideoPresets v ! i = (w, h)" using find_index_SomeD [OF Some] by simp_all
  have n: "Video_ResolutionIDForSize w h v = kFirstAppleMode + of_nat i" using Some by (simp add: Video_ResolutionIDForSize_def)
  have "ident = kFirstAppleMode + of_nat i" "v' = v"
    using r n preset_range(4) [OF _ i(1)] ok(1) by (auto simp: Video_RegisterGuestSize_def Let_def presets_ok_def)
  moreover have "Video_SizeForResolutionID (kFirstAppleMode + of_nat i) v = Some (w, h)"
    using preset_numbers [of v] ok i by simp
  ultimately show ?thesis using n preset_range(4) [OF _ i(1)] ok(1) by (simp add: presets_ok_def)
next
  case None
  have n: "Video_ResolutionIDForSize w h x = (if custom_id x \<noteq> 0 \<and> custom_width x = w \<and> custom_height x = h then custom_id x else 0)"
    if "VideoPresets x = VideoPresets v" for x using None that by (simp add: Video_ResolutionIDForSize_def)
  have c: "custom_ok v'" using register_kept [OF ok r] by simp
  have "ident = custom_id v' \<and> custom_id v' \<noteq> 0 \<and> custom_width v' = w \<and> custom_height v' = h"
  proof (cases "Video_ResolutionIDForSize w h v = 0")
    case False
    then show ?thesis using r n [of v] by (auto simp: Video_RegisterGuestSize_def Let_def split: if_splits)
  next
    case True
    have e: "ident = custom_id v'" "custom_width v' = w" "custom_height v' = h"
      using True r by (auto simp: Video_RegisterGuestSize_def Let_def)
    have "custom_id v + 1 \<noteq> 0" if "\<not> custom_id v \<ge> kLastCustomDisplayModeID"
    proof
      assume "custom_id v + 1 = 0"
      then have "custom_id v = - 1" by (metis add_eq_0_iff2 add.commute)
      then show False using that by (simp add: kLastCustomDisplayModeID_def)
    qed
    then have "ident \<noteq> 0" using True r by (auto simp: Video_RegisterGuestSize_def Let_def kCustomDisplayModeID_def split: if_splits)
    then show ?thesis using e by simp
  qed
  then show ?thesis using n [OF register_presets [OF r]] wh by (simp add: Video_SizeForResolutionID_def)
qed

subsection \<open>The palette\<close>

definition palette_colour :: "u8 list \<Rightarrow> nat \<Rightarrow> u8 \<times> u8 \<times> u8" where
  "palette_colour pal j = (pal ! (3 * j), pal ! (3 * j + 1), pal ! (3 * j + 2))"

lemma put_colour_cases:
  assumes "length pal = 768"
  shows "256 \<le> i \<Longrightarrow> put_colour i c pal = None"
    and "i < 256 \<Longrightarrow> \<exists>pal'. put_colour i c pal = Some pal' \<and> length pal' = 768 \<and>
           (\<forall>j < 256. palette_colour pal' j = (if j = i then c else palette_colour pal j))"
proof -
  obtain r g b where c: "c = (r, g, b)" by (metis surj_pair)
  show "256 \<le> i \<Longrightarrow> put_colour i c pal = None" using assms by (simp add: put_colour_def c)
  assume i: "i < 256"
  have n: "patch (i * 3) [r, g, b] pal ! k = (if i * 3 \<le> k \<and> k < i * 3 + 3 then [r, g, b] ! (k - i * 3) else pal ! k)" if "k < 768" for k
    using that i assms by (simp add: nth_patch)
  have "palette_colour (patch (i * 3) [r, g, b] pal) j = (if j = i then c else palette_colour pal j)" if j: "j < 256" for j
  proof (cases "j = i")
    case True
    then show ?thesis using i n [of "3 * i"] n [of "3 * i + 1"] n [of "3 * i + 2"] by (simp add: palette_colour_def c)
  next
    case False
    have "patch (i * 3) [r, g, b] pal ! (3 * j + k) = pal ! (3 * j + k)" if "k < 3" for k
    proof -
      have "\<not> (i * 3 \<le> 3 * j + k \<and> 3 * j + k < i * 3 + 3)" using False that by presburger
      moreover have "3 * j + k < 768" using j that by simp
      ultimately show ?thesis using n [of "3 * j + k"] by (simp only: if_False)
    qed
    from this [of 0] this [of 1] this [of 2] show ?thesis using False by (simp add: palette_colour_def)
  qed
  moreover have "length (patch (i * 3) [r, g, b] pal) = 768" using i assms by (simp add: length_patch)
  ultimately show "\<exists>pal'. put_colour i c pal = Some pal' \<and> length pal' = 768 \<and>
           (\<forall>j < 256. palette_colour pal' j = (if j = i then c else palette_colour pal j))"
    using i assms by (simp add: put_colour_def c)
qed

lemma set_entries_range:
  assumes "length pal = 768" "n \<noteq> 0"
  shows "256 < i + n \<Longrightarrow> set_entries m lum False n s i pal = None"
    and "i + n \<le> 256 \<Longrightarrow> \<exists>pal'. set_entries m lum False n s i pal = Some pal' \<and> length pal' = 768 \<and>
           (\<forall>j < 256. palette_colour pal' j =
              (if i \<le> j \<and> j < i + n then luminance lum (entry_colour m (s + 8 * of_nat (j - i))) else palette_colour pal j))"
proof -
  have "(256 < i + n \<longrightarrow> set_entries m lum False n s i pal = None) \<and> (i + n \<le> 256 \<longrightarrow>
      (\<exists>pal'. set_entries m lum False n s i pal = Some pal' \<and> length pal' = 768 \<and>
           (\<forall>j < 256. palette_colour pal' j =
              (if i \<le> j \<and> j < i + n then luminance lum (entry_colour m (s + 8 * of_nat (j - i))) else palette_colour pal j))))"
    if "length pal = 768" "n \<noteq> 0" for n s i pal
    using that
  proof (induction n arbitrary: s i pal)
    case (Suc n)
    let ?c = "luminance lum (entry_colour m s)"
    show ?case
    proof (cases "i < 256")
      case False
      then show ?thesis using put_colour_cases(1) [OF Suc.prems(1), of i ?c] by simp
    next
      case True
      obtain p1 where p1: "put_colour i ?c pal = Some p1" "length p1 = 768"
        "\<forall>j < 256. palette_colour p1 j = (if j = i then ?c else palette_colour pal j)"
        using put_colour_cases(2) [OF Suc.prems(1) True] by blast
      have e: "set_entries m lum False (Suc n) s i pal = set_entries m lum False n (s + 8) (i + 1) p1" by (simp add: p1(1))
      have o: "s + 8 * of_nat (j - i) = s + 8 + 8 * of_nat (j - (i + 1))" if "i < j" for j
      proof -
        have "j - i = Suc (j - (i + 1))" using that by simp
        then show ?thesis by (simp add: distrib_left)
      qed
      show ?thesis
      proof (cases "n = 0")
        case True
        then show ?thesis using e p1 \<open>i < 256\<close> by auto
      next
        case False
        note ih = Suc.IH [OF p1(2) False, of "i + 1" "s + 8"]
        show ?thesis
        proof (intro conjI impI)
          show "set_entries m lum False (Suc n) s i pal = None" if "256 < i + Suc n"
            unfolding e using ih that by simp
          assume "i + Suc n \<le> 256"
          then obtain p2 where p2: "set_entries m lum False n (s + 8) (i + 1) p1 = Some p2" "length p2 = 768"
            "\<forall>j < 256. palette_colour p2 j = (if i + 1 \<le> j \<and> j < i + 1 + n
               then luminance lum (entry_colour m (s + 8 + 8 * of_nat (j - (i + 1)))) else palette_colour p1 j)"
            using ih by auto
          have "palette_colour p2 j = (if i \<le> j \<and> j < i + Suc n then luminance lum (entry_colour m (s + 8 * of_nat (j - i)))
                   else palette_colour pal j)" if j: "j < 256" for j
            using p2(3) p1(3) j o [of j] by (cases "j = i"; cases "i < j") auto
          then show "\<exists>pal'. set_entries m lum False (Suc n) s i pal = Some pal' \<and> length pal' = 768 \<and>
              (\<forall>j < 256. palette_colour pal' j = (if i \<le> j \<and> j < i + Suc n
                 then luminance lum (entry_colour m (s + 8 * of_nat (j - i))) else palette_colour pal j))"
            using p2(1,2) unfolding e by blast
        qed
      qed
    qed
  qed simp
  then show "256 < i + n \<Longrightarrow> set_entries m lum False n s i pal = None"
    and "i + n \<le> 256 \<Longrightarrow> \<exists>pal'. set_entries m lum False n s i pal = Some pal' \<and> length pal' = 768 \<and>
           (\<forall>j < 256. palette_colour pal' j =
              (if i \<le> j \<and> j < i + n then luminance lum (entry_colour m (s + 8 * of_nat (j - i))) else palette_colour pal j))"
    using assms by blast+
qed

end
