(* ===== verification/Slot_Modes.thy ===== *)
theory Slot_Modes
  imports Video_Facts
begin

section \<open>Reading modes from the declaration ROM\<close>

text \<open>
  The path the Slot Manager takes from the end of the ROM to the parameters of a depth, and what
  a mode switch does to what it finds.
\<close>

definition read_mode :: "u8 list \<Rightarrow> nat \<Rightarrow> (u32 \<times> u32 \<times> u32 \<times> u32 \<times> u32) option" where
  "read_mode r k =
     Option.bind (sub r (resolve r (length r - 20)) 0x80)
       (\<lambda>vid. Option.bind (sub r vid (0x80 + of_nat k)) (\<lambda>mode. map_option (vp_block r) (sub r mode 1)))"

lemma read_mode_layout: "slot_layout r \<Longrightarrow> k < 6 \<Longrightarrow> read_mode r k = Some (vp_block r (parm_at k))"
  by (simp add: slot_layout_def read_mode_def sub_def parm_at_def)

lemma read_mode_ok: "slot_ok sl m \<Longrightarrow> k < 6 \<Longrightarrow> read_mode (slot_image sl m) k = Some (vp_block (slot_image sl m) (parm_at k))"
  by (simp add: slot_ok_def read_mode_layout)

text \<open>The image keeps its shape: every depth has its pixel size, at the top of the frame.\<close>

definition slot_blocks :: "slot_rom \<Rightarrow> mac \<Rightarrow> bool" where
  "slot_blocks sl m \<longleftrightarrow> slot_ok sl m \<and>
     (\<forall>k < 6. \<exists>rb y x. read_mode (slot_image sl m) k = Some (rb, 0, y, x, ucast (depth_bits (int k))))"

definition shows_current :: "video \<Rightarrow> bool" where
  "shows_current v \<longleftrightarrow>
     (let mon = VideoMonitor v
      in read_mode (slot_image (slot v) (dmem v)) (nat (mon_mode mon)) =
           Some (bytes_per_row mon, 0, mon_y mon, mon_x mon, ucast (depth_bits (mon_mode mon))))"

text \<open>The declaration ROM is not in the frame buffer.\<close>

definition slot_below_frame :: "video \<Rightarrow> bool" where
  "slot_below_frame v \<longleftrightarrow> unat (slot_addr (slot v) (dmem v) 0) + slot_rom_size (slot v) \<le> unat MacFrameBaseMac"

lemma ucast_u16_back: "uint (x :: u32) < 65536 \<Longrightarrow> ucast (ucast x :: u16) = x"
  by (simp add: word_uint_eq_iff unsigned_ucast_eq unsigned_take_bit_eq take_bit_int_eq_self)

lemma patch_mode_reads:
  fixes w h :: int and rb :: u32
  assumes b: "slot_blocks sl m" "k < 6" "j < 6"
  defines "m' \<equiv> SlotROM_PatchMode (int k) w h rb sl m"
  shows "slot_blocks sl m'"
    and "read_mode (slot_image sl m') j =
           (if j = k then Some (ucast (ucast rb :: u16), 0, ucast (word_of_int h :: u16), ucast (word_of_int w :: u16), ucast (depth_bits (int k)))
            else read_mode (slot_image sl m) j)"
proof -
  have ok: "slot_ok sl m" using b(1) by (simp add: slot_blocks_def)
  have ok': "slot_ok sl m'" unfolding m'_def by (rule patched_mode_reads(1) [OF ok b(2) b(2)])
  have r: "read_mode (slot_image sl m') i =
           (if i = k then Some (ucast (ucast rb :: u16), 0, ucast (word_of_int h :: u16), ucast (word_of_int w :: u16), ucast (depth_bits (int k)))
            else read_mode (slot_image sl m) i)" if i: "i < 6" for i
  proof -
    obtain rb0 y x where e: "vp_block (slot_image sl m) (parm_at k) = (rb0, 0, y, x, ucast (depth_bits (int k)))"
      using b(1,2) unfolding slot_blocks_def read_mode_ok [OF ok b(2), symmetric] by (metis option.inject read_mode_ok [OF ok b(2)])
    show ?thesis
      unfolding read_mode_ok [OF ok' i] read_mode_ok [OF ok i] unfolding m'_def patched_mode_reads(2) [OF ok b(2) i] e by simp
  qed
  show "read_mode (slot_image sl m') j =
           (if j = k then Some (ucast (ucast rb :: u16), 0, ucast (word_of_int h :: u16), ucast (word_of_int w :: u16), ucast (depth_bits (int k)))
            else read_mode (slot_image sl m) j)" by (rule r [OF b(3)])
  have s: "\<exists>rb y x. read_mode (slot_image sl m') i = Some (rb, 0, y, x, ucast (depth_bits (int i)))" if i: "i < 6" for i
    using r [OF i] b(1) i by (auto simp: slot_blocks_def)
  then show "slot_blocks sl m'" using ok' by (simp add: slot_blocks_def)
qed

subsection \<open>Clearing the frame\<close>

lemma fetch_store_below:
  assumes "unat b + n \<le> unat a" "unat a + length bs \<le> 2 ^ 32"
  shows "fetch (store a bs m) b n = fetch m b n"
  unfolding fetch_def
proof (rule map_cong [OF refl])
  fix i assume "i \<in> set [0..<n]"
  then have i: "i < n" by simp
  have bi: "unat (b + of_nat i) = unat b + i"
    using assms i by (simp add: unat_word_ariths unat_of_nat)
  show "ram (store a bs m) (b + of_nat i) = ram m (b + of_nat i)"
  proof (rule ram_store_other, intro allI impI)
    fix j assume j: "j < length bs"
    have "unat (a + of_nat j) = unat a + j" using assms j by (simp add: unat_word_ariths unat_of_nat)
    then show "b + of_nat i \<noteq> a + of_nat j" using bi i assms(1) by (metis add_less_cancel_left le_add1 leD order_less_le_trans)
  qed
qed

lemma slot_image_clear:
  assumes "slot_below_frame v" "unat (row * word_of_int h) \<le> 2 ^ 30"
  shows "slot_image (slot v) (dmem (clear_frame row h v)) = slot_image (slot v) (dmem v)"
    "rom_base (dmem (clear_frame row h v)) = rom_base (dmem v)"
proof -
  have a: "unat (slot_addr (slot v) (dmem v) 0) + slot_rom_size (slot v) \<le> unat MacFrameBaseMac"
    using assms(1) by (simp add: slot_below_frame_def)
  have "unat MacFrameBaseMac + length (replicate (unat (row * word_of_int h)) (0 :: u8)) \<le> 2 ^ 32"
    using assms(2) by (simp add: MacFrameBaseMac_def)
  from fetch_store_below [OF a this, of "dmem v"]
  show "slot_image (slot v) (dmem (clear_frame row h v)) = slot_image (slot v) (dmem v)"
    by (simp add: slot_image_def clear_frame_def Mac_memset_def)
  show "rom_base (dmem (clear_frame row h v)) = rom_base (dmem v)" by (simp add: clear_frame_def Mac_memset_def)
qed

subsection \<open>A switch\<close>

lemma new_surface_dmem [simp]: "dmem (new_surface d v) = dmem v"
  by (simp add: new_surface_def video_set_palette_def Let_def)

lemma clear_frame_dmem: "dmem u = dmem v \<Longrightarrow> dmem (clear_frame row h u) = dmem (clear_frame row h v)"
  by (simp add: clear_frame_def)

lemma change_mode_dmem:
  assumes "fst (change_mode sdl w h mode v)" "VMODE_1BIT \<le> mode" "mode \<le> VMODE_32BIT" "SlotROMOffset (slot v) \<noteq> 0"
  shows "dmem (snd (change_mode sdl w h mode v)) =
           SlotROM_PatchMode mode w h (Video_BytesPerRowForMode w mode) (slot v) (dmem (clear_frame (Video_BytesPerRowForMode w mode) h v))"
proof -
  let ?row = "Video_BytesPerRowForMode w mode"
  define v1 where "v1 = set_frame_base (set_video_monitor w h ?row mode v)"
  have m1: "mon_mode (VideoMonitor v1) = mode" "slot v1 = slot v" "dmem v1 = dmem v" using assms(2,3) by (simp_all add: v1_def)
  obtain v2 where c: "change_mode sdl w h mode v = (True, notify_guest w h (Video_NoteCurrentMode w h (clear_frame ?row h v2)))"
    and v2: "v2 = v1 \<or> v2 = new_surface (host_depth_for_mode mode) v1"
    using assms(1) unfolding change_mode_def Let_def v1_def [symmetric] by (auto split: if_splits)
  have m2: "mon_mode (VideoMonitor (clear_frame ?row h v2)) = mode" "slot v2 = slot v" "dmem v2 = dmem v"
    using v2 m1 monitor_of_screen [of "clear_frame ?row h v2" v1] by auto
  have n: "dmem (notify_guest w h x) = dmem x" for x by (simp add: notify_guest_def)
  have s: "slot (clear_frame ?row h v2) = slot v" using m2(2) by simp
  have "dmem (Video_NoteCurrentMode w h (clear_frame ?row h v2)) =
      SlotROM_PatchMode mode w h ?row (slot v) (dmem (clear_frame ?row h v2))"
    using assms(4) m2(2) by (simp add: Video_NoteCurrentMode_def Let_def m2(1))
  then show ?thesis unfolding c snd_conv n using clear_frame_dmem [OF m2(3)] by simp
qed

lemma frame_size_bound:
  assumes "0 \<le> w" "w \<le> 16384" "8 \<le> w" "0 \<le> h" "h \<le> 16384"
  shows "unat (Video_BytesPerRowForMode w mode * word_of_int h) \<le> 2 ^ 30"
proof -
  have r: "uint (Video_BytesPerRowForMode w mode) \<le> 4 * 16384"
    using raw_row_le [OF assms(3), of mode] assms by (simp add: BytesPerRow_int)
  have u: "uint (word_of_int h :: u32) = h" using assms by (simp add: small_words)
  have n: "unat x \<le> 2 ^ 30" if "uint x \<le> (4 * 16384) * 16384" for x :: u32
    using nat_mono [OF that] by simp
  have "uint (Video_BytesPerRowForMode w mode * word_of_int h) \<le> uint (Video_BytesPerRowForMode w mode) * h"
    unfolding uint_word_ariths u by (rule zmod_le_nonneg_dividend) (simp add: assms(4))
  also have "\<dots> \<le> (4 * 16384) * 16384" by (rule mult_mono [OF r assms(5)]) (simp_all add: assms(4))
  finally show ?thesis by (rule n)
qed

lemma switch_reads:
  assumes ok: "video_ok v" "max_width v < 16384" "slot_blocks (slot v) (dmem v)" "slot_below_frame v"
    and c: "clamp_mode_size w0 h0 v = (w, h)" and mode: "VMODE_1BIT \<le> mode" "mode \<le> VMODE_32BIT"
    and f: "fst (change_mode sdl w h mode v)" and j: "j < 6"
  defines "v' \<equiv> snd (change_mode sdl w h mode v)"
  shows "slot_blocks (slot v') (dmem v')" "shows_current v'"
    and "j \<noteq> nat mode \<Longrightarrow> read_mode (slot_image (slot v') (dmem v')) j = read_mode (slot_image (slot v) (dmem v)) j"
proof -
  let ?row = "Video_BytesPerRowForMode w mode"
  define m1 where "m1 = dmem (clear_frame ?row h v)"
  have s: "sizes_ok v" using ok(1) by (simp add: video_ok_def)
  note cb = clamped [OF s c]
  have w: "8 \<le> w" "w < 16384" using cb ok(2) by (simp_all add: video_sizes)
  define k where "k = nat mode"
  have k: "mode = int k" "k < 6" using mode by (simp_all add: k_def vmodes)
  have so: "SlotROMOffset (slot v) \<noteq> 0" using ok(3) by (simp add: slot_blocks_def slot_ok_def)
  have sv: "slot v' = slot v" by (simp add: v'_def change_mode_frame)
  have dm: "dmem v' = SlotROM_PatchMode (int k) w h ?row (slot v) m1"
    unfolding v'_def m1_def k(1) [symmetric] by (rule change_mode_dmem [OF f mode so])
  have im: "slot_image (slot v) m1 = slot_image (slot v) (dmem v)"
    unfolding m1_def using cb w by (intro slot_image_clear [OF ok(4)] frame_size_bound) simp_all
  have b1: "slot_blocks (slot v) m1" using ok(3) im by (simp add: slot_blocks_def slot_ok_def)
  show "slot_blocks (slot v') (dmem v')" unfolding sv dm by (rule patch_mode_reads(1) [OF b1 k(2) k(2)])
  note rd = patch_mode_reads(2) [OF b1 k(2), where w = w and h = h and rb = ?row, folded dm]
  have mon: "VideoMonitor v' = \<lparr>mac_frame_base = MacFrameBaseMac, bytes_per_row = ?row, mon_x = word_of_int w, mon_y = word_of_int h, mon_mode = mode\<rparr>"
    unfolding v'_def by (rule change_mode_monitor(1) [OF f mode])
  have row: "uint ?row < 65536" using raw_row_le [OF w(1), of mode] w cb by (simp add: BytesPerRow_int)
  have hw: "word_of_int h = (ucast (word_of_int h :: u16) :: u32)" "word_of_int w = (ucast (word_of_int w :: u16) :: u32)"
    using cb by (simp_all add: unsigned_of_int take_bit_int_eq_self)
  show "shows_current v'"
    using rd [OF k(2)] ucast_u16_back [OF row] hw by (simp add: shows_current_def sv mon k(1))
  show "j \<noteq> nat mode \<Longrightarrow> read_mode (slot_image (slot v') (dmem v')) j = read_mode (slot_image (slot v) (dmem v)) j"
    unfolding sv using rd [OF j] im by (simp add: k(1))
qed

subsection \<open>After installation\<close>

lemma installed_reads:
  assumes "length date = 11" "1350 < unat (rom_size m)" "InstallSlotROM date mon frame m = (sl, m')" "k < 6"
  shows "read_mode (slot_image sl m') k =
     Some (ucast (ucast (Video_BytesPerRowForMode (sint (mon_x mon)) (int k)) :: u16), 0, ucast (ucast (mon_y mon) :: u16),
      ucast (ucast (mon_x mon) :: u16), ucast (depth_bits (int k)))"
  using read_mode_ok [OF installed_slot_ok(1) [OF assms(1,2,3)] assms(4)] installed_slot_ok(2) [OF assms] by simp

lemma installed_blocks:
  assumes "length date = 11" "1350 < unat (rom_size m)" "InstallSlotROM date mon frame m = (sl, m')"
  shows "slot_blocks sl m'"
  using installed_slot_ok(1) [OF assms] installed_reads [OF assms] by (simp add: slot_blocks_def)

lemma installed_place:
  assumes "length date = 11" "1350 < unat (rom_size m)" "InstallSlotROM date mon frame m = (sl, m')"
  shows "slot_rom_size sl = 1350" "slot_addr sl m' 0 = rom_base m + rom_size m - 1350"
proof -
  obtain parms r where bd: "build_slot_rom date mon frame = (parms, r)" by fastforce
  have lr: "length r = 1350" using length_build [OF assms(1), of mon frame] bd by simp
  note ins = slot_image_install [OF bd assms(3), unfolded lr, simplified]
  show "slot_rom_size sl = 1350" "slot_addr sl m' 0 = rom_base m + rom_size m - 1350" using ins by (simp_all add: slot_addr_def)
qed

end
