(* ===== verification/Video_Status.thy ===== *)
theory Video_Status
  imports Slot_Modes
begin

section \<open>What the Display Manager asks\<close>

text \<open>
  The list of resolutions a guest obtains by asking for one after the other, and the parameter
  block of a mode compared with the one in the declaration ROM. The guest's blocks are ordinary
  memory.
\<close>

declare dmem_wr [simp]

subsection \<open>The list of resolutions\<close>

lemma resolution_info_reads:
  fixes ident w h :: u32
  assumes "plain_block (dmem v) p 26"
  defines "m \<equiv> dmem (write_resolution_info p ident w h v)"
  shows "ReadMacInt32 m (p + csRIDisplayModeID) = ident" "ReadMacInt32 m (p + csHorizontalPixels) = w"
    "ReadMacInt32 m (p + csVerticalLines) = h" "plain_block m p 26"
proof -
  have pl: "plain (dmem v) (p + 4)" "plain (dmem v) (p + 8)" "plain (dmem v) (p + 12)" "plain (dmem v) (p + 16)"
    "plain (dmem v) (p + 20)" "plain (dmem v) (p + 22)"
    using plain_blockD [OF assms(1), of 4] plain_blockD [OF assms(1), of 8] plain_blockD [OF assms(1), of 12]
      plain_blockD [OF assms(1), of 16] plain_blockD [OF assms(1), of 20] plain_blockD [OF assms(1), of 22] by simp_all
  show "plain_block m p 26" using assms(1) by (simp add: m_def write_resolution_info_def)
  show "ReadMacInt32 m (p + csRIDisplayModeID) = ident" "ReadMacInt32 m (p + csHorizontalPixels) = w"
    "ReadMacInt32 m (p + csVerticalLines) = h"
    using pl by (simp_all add: m_def write_resolution_info_def video_offsets ReadMacInt32_plain ram_write add.assoc of_be32_be32)
qed

text \<open>A guest that asks for resolutions until there are no more.\<close>

primrec list_resolutions :: "nat \<Rightarrow> u32 \<Rightarrow> u32 \<Rightarrow> video \<Rightarrow> (u32 \<times> u32 \<times> u32) list" where
  "list_resolutions 0 p prev v = []"
| "list_resolutions (Suc n) p prev v =
     (let (e, v1) = GetNextResolution p (wr32 (p + csPreviousDisplayModeID) prev v); m = dmem v1;
          ident = ReadMacInt32 m (p + csRIDisplayModeID)
      in if e \<noteq> noErr \<or> ident = kDisplayModeIDNoMoreResolutions then []
         else (ident, ReadMacInt32 m (p + csHorizontalPixels), ReadMacInt32 m (p + csVerticalLines)) # list_resolutions n p ident v1)"

lemma screen_resolution_info [simp]: "screen_part (write_resolution_info p i w h v) = screen_part v"
  by (simp add: write_resolution_info_def)

declare list_resolutions.simps [simp del]

definition offered :: "video \<Rightarrow> (int \<times> int) list \<times> u32 \<times> int \<times> int" where
  "offered v = (VideoPresets v, custom_id v, custom_width v, custom_height v)"

lemma offered_wr [simp]: "offered (wr32 a x v) = offered v" "offered (write_resolution_info p i w h v) = offered v"
  by (simp_all add: offered_def wr32_def wr16_def write_resolution_info_def)

lemma size_cong: "offered v = offered w \<Longrightarrow> Video_SizeForResolutionID i v = Video_SizeForResolutionID i w"
  by (simp add: offered_def Video_SizeForResolutionID_def)

definition entry_of :: "video \<Rightarrow> nat \<Rightarrow> u32 \<times> u32 \<times> u32" where
  "entry_of v i = (kFirstAppleMode + of_nat i, word_of_int (fst (VideoPresets v ! i)), word_of_int (snd (VideoPresets v ! i)))"

lemma entry_of_cong: "offered v = offered w \<Longrightarrow> entry_of v i = entry_of w i"
  by (simp add: offered_def entry_of_def)

lemma beyond_presets:
  assumes "presets_ok v" "custom_ok v"
  shows "Video_SizeForResolutionID (kFirstAppleMode + of_nat (length (VideoPresets v))) v = None"
proof -
  have l: "length (VideoPresets v) \<le> 9" using assms(1) by (simp add: presets_ok_def kMaxPresets_def kBasePresets_def)
  have "kFirstAppleMode + of_nat (length (VideoPresets v)) = (of_nat (128 + length (VideoPresets v)) :: u32)"
    by (simp add: kFirstAppleMode_def)
  then have "unat (kFirstAppleMode + of_nat (length (VideoPresets v)) :: u32) = 128 + length (VideoPresets v)"
    using l by (simp add: unat_of_nat_small del: of_nat_add)
  then have "kFirstAppleMode + of_nat (length (VideoPresets v)) < kCustomDisplayModeID"
    using l by (simp add: word_less_nat_alt kCustomDisplayModeID_def)
  then have "custom_id v = 0 \<or> custom_id v \<noteq> kFirstAppleMode + of_nat (length (VideoPresets v))"
    using assms(2) by (auto simp: custom_ok_def)
  then show ?thesis by (auto simp: Video_SizeForResolutionID_def)
qed

lemma next_resolution:
  assumes ok: "presets_ok v" "custom_ok v" and p: "plain_block (dmem v) p 26" and prev: "ReadMacInt32 (dmem v) (p + csPreviousDisplayModeID) = prev"
  defines "r \<equiv> GetNextResolution p v" and "m \<equiv> dmem (snd (GetNextResolution p v))"
  shows "plain_block m p 26" "offered (snd r) = offered v" "screen_part (snd r) = screen_part v"
    and "i < length (VideoPresets v) \<Longrightarrow> prev = (if i = 0 then kDisplayModeIDFindFirstResolution else kFirstAppleMode + of_nat (i - 1)) \<Longrightarrow>
      fst r = noErr \<and> (ReadMacInt32 m (p + csRIDisplayModeID), ReadMacInt32 m (p + csHorizontalPixels), ReadMacInt32 m (p + csVerticalLines)) = entry_of v i"
    and "prev = kFirstAppleMode + of_nat (length (VideoPresets v) - 1) \<Longrightarrow> ReadMacInt32 m (p + csRIDisplayModeID) = kDisplayModeIDNoMoreResolutions"
proof -
  have pl: "plain (dmem v) (p + 4)" using plain_blockD [OF p, of 4] by simp
  have l: "length (VideoPresets v) \<le> kMaxPresets" "length (VideoPresets v) \<le> 9" "VideoPresets v \<noteq> []"
    using ok(1) by (simp_all add: presets_ok_def kMaxPresets_def kBasePresets_def)
  show "plain_block m p 26" "offered (snd r) = offered v" "screen_part (snd r) = screen_part v"
    using resolution_info_reads(4) [OF p] p
    by (simp_all add: r_def m_def GetNextResolution_def Let_def split: option.split prod.split)
  have first: "(kDisplayModeIDFindFirstResolution = kDisplayModeIDCurrent) = False" by (simp add: video_offsets)
  have num: "kFirstAppleMode + of_nat j \<noteq> kDisplayModeIDFindFirstResolution" "kFirstAppleMode + of_nat j \<noteq> kDisplayModeIDCurrent"
    if "j < length (VideoPresets v)" for j
    using preset_range(3,4) [OF l(1) that] by (auto simp: video_offsets kCustomDisplayModeID_def word_less_nat_alt)
  have size: "Video_SizeForResolutionID (kFirstAppleMode + of_nat j) v = Some (VideoPresets v ! j)" if "j < length (VideoPresets v)" for j
    using preset_numbers [of v] ok that by simp
  have info: "(ReadMacInt32 x (p + csRIDisplayModeID), ReadMacInt32 x (p + csHorizontalPixels), ReadMacInt32 x (p + csVerticalLines)) = (n, w, h)"
    if "x = dmem (write_resolution_info p n w h v)" for x n w h using resolution_info_reads [OF p] that by simp
  show "fst r = noErr \<and> (ReadMacInt32 m (p + csRIDisplayModeID), ReadMacInt32 m (p + csHorizontalPixels), ReadMacInt32 m (p + csVerticalLines)) = entry_of v i"
    if i: "i < length (VideoPresets v)" and pv: "prev = (if i = 0 then kDisplayModeIDFindFirstResolution else kFirstAppleMode + of_nat (i - 1))"
  proof (cases i)
    case 0
    obtain w h where wh: "VideoPresets v ! 0 = (w, h)" by fastforce
    have e: "r = (noErr, write_resolution_info p kFirstAppleMode (word_of_int w) (word_of_int h) v)"
      using 0 pv by (simp add: r_def GetNextResolution_def prev first wh)
    then show ?thesis using info [of m] 0 wh by (simp add: m_def r_def entry_of_def)
  next
    case (Suc j)
    obtain w h where wh: "VideoPresets v ! Suc j = (w, h)" by fastforce
    have pj: "prev = kFirstAppleMode + of_nat j" using pv Suc by simp
    have s: "kFirstAppleMode + of_nat j + 1 = kFirstAppleMode + of_nat (Suc j)" by simp
    have e: "r = (noErr, write_resolution_info p (kFirstAppleMode + of_nat (Suc j)) (word_of_int w) (word_of_int h) v)"
      using i Suc size [of j] size [of "Suc j"] num [of j] wh
      unfolding r_def GetNextResolution_def prev pj Let_def s by simp
    then show ?thesis using info [of m] Suc wh by (simp add: m_def r_def entry_of_def)
  qed
  show "ReadMacInt32 m (p + csRIDisplayModeID) = kDisplayModeIDNoMoreResolutions"
    if pv: "prev = kFirstAppleMode + of_nat (length (VideoPresets v) - 1)"
  proof -
    obtain j where j: "length (VideoPresets v) = Suc j" using l(3) by (cases "VideoPresets v") auto
    have s: "kFirstAppleMode + of_nat j + 1 = kFirstAppleMode + of_nat (length (VideoPresets v))" using j by simp
    have pj: "prev = kFirstAppleMode + of_nat j" using pv j by simp
    have "r = (noErr, wr32 (p + csRIDisplayModeID) kDisplayModeIDNoMoreResolutions v)"
      using j size [of j] num [of j] beyond_presets [OF ok] unfolding r_def GetNextResolution_def prev pj Let_def s by simp
    then show ?thesis using pl by (simp add: m_def r_def csRIDisplayModeID_def ReadMacInt32_same)
  qed
qed

lemma presets_cong: "screen_part v = screen_part w \<Longrightarrow> offered v = offered w \<Longrightarrow> presets_ok v = presets_ok w \<and> custom_ok v = custom_ok w"
  by (simp add: screen_part_def offered_def presets_ok_def custom_ok_def)

lemma list_from:
  assumes "presets_ok v" "custom_ok v" "plain_block (dmem v) p 26"
    and "prev = (if i = 0 then kDisplayModeIDFindFirstResolution else kFirstAppleMode + of_nat (i - 1))"
    and "i \<le> length (VideoPresets v)" "length (VideoPresets v) - i < n"
  shows "list_resolutions n p prev v = map (entry_of v) [i..<length (VideoPresets v)]"
  using assms
proof (induction n arbitrary: i v prev)
  case (Suc n)
  define u where "u = wr32 (p + csPreviousDisplayModeID) prev v"
  have su: "screen_part u = screen_part v" "offered u = offered v" by (simp_all add: u_def)
  have ok: "presets_ok u" "custom_ok u" using presets_cong [OF su] Suc.prems(1,2) by simp_all
  have ps: "VideoPresets u = VideoPresets v" using su(2) by (simp add: offered_def)
  have pu: "plain_block (dmem u) p 26" using Suc.prems(3) by (simp add: u_def)
  have pr: "ReadMacInt32 (dmem u) (p + csPreviousDisplayModeID) = prev"
    using plain_blockD [OF Suc.prems(3), of 0] by (simp add: u_def csPreviousDisplayModeID_def ReadMacInt32_same)
  obtain e v1 where g: "GetNextResolution p u = (e, v1)" by fastforce
  note nx = next_resolution [OF ok pu pr, unfolded g snd_conv fst_conv ps]
  have unf: "list_resolutions (Suc n) p prev v =
      (if e \<noteq> noErr \<or> ReadMacInt32 (dmem v1) (p + csRIDisplayModeID) = kDisplayModeIDNoMoreResolutions then []
       else (ReadMacInt32 (dmem v1) (p + csRIDisplayModeID), ReadMacInt32 (dmem v1) (p + csHorizontalPixels),
             ReadMacInt32 (dmem v1) (p + csVerticalLines)) # list_resolutions n p (ReadMacInt32 (dmem v1) (p + csRIDisplayModeID)) v1)"
    unfolding list_resolutions.simps(2) u_def [symmetric] g Let_def prod.case ..
  show ?case
  proof (cases "i < length (VideoPresets v)")
    case True
    have en: "entry_of u i = entry_of v i" by (rule entry_of_cong [OF su(2)])
    have a: "e = noErr" "(ReadMacInt32 (dmem v1) (p + csRIDisplayModeID), ReadMacInt32 (dmem v1) (p + csHorizontalPixels),
             ReadMacInt32 (dmem v1) (p + csVerticalLines)) = entry_of v i"
      using nx(4) [OF True Suc.prems(4)] en by simp_all
    have s1: "screen_part v1 = screen_part v" "offered v1 = offered v" using nx(2,3) su by simp_all
    have ps1: "VideoPresets v1 = VideoPresets v" using s1(2) by (simp add: offered_def)
    have l: "length (VideoPresets v) \<le> kMaxPresets" using Suc.prems(1) by (simp add: presets_ok_def)
    have nm: "kFirstAppleMode + of_nat i \<noteq> kDisplayModeIDNoMoreResolutions"
      using preset_range(3) [OF l True] by (auto simp: video_offsets kCustomDisplayModeID_def word_less_nat_alt)
    have id: "ReadMacInt32 (dmem v1) (p + csRIDisplayModeID) = kFirstAppleMode + of_nat i" using a(2) by (simp add: entry_of_def)
    have "list_resolutions n p (kFirstAppleMode + of_nat i) v1 = map (entry_of v1) [Suc i..<length (VideoPresets v1)]"
      using presets_cong [OF s1] Suc.prems True nx(1) by (intro Suc.IH) (simp_all add: ps1)
    also have "\<dots> = map (entry_of v) [Suc i..<length (VideoPresets v)]" using entry_of_cong [OF s1(2)] by (simp add: ps1)
    finally show ?thesis using True a nm by (simp add: unf id upt_conv_Cons)
  next
    case False
    then have i: "i = length (VideoPresets v)" "i \<noteq> 0" using Suc.prems(1,5) by (auto simp: presets_ok_def)
    have "ReadMacInt32 (dmem v1) (p + csRIDisplayModeID) = kDisplayModeIDNoMoreResolutions"
      by (rule nx(5)) (use i Suc.prems(4) in simp)
    then show ?thesis using i by (simp add: unf)
  qed
qed simp

subsection \<open>The parameters of a mode\<close>

text \<open>The bytes of a parameter block of the declaration ROM behind its length.\<close>

definition rom_parameters :: "int \<Rightarrow> int \<Rightarrow> int \<Rightarrow> u8 list" where
  "rom_parameters w h depth =
     take 42 (drop 4 (snd (VModeParms \<lparr>mac_frame_base = MacFrameBaseMac, bytes_per_row = 0, mon_x = word_of_int w, mon_y = word_of_int h,
                                        mon_mode = depth\<rparr> depth [])))"

lemma pixel_format_words:
  "pixel_words d = (case pixel_format d of (t, s, c, z, dt) \<Rightarrow> [ucast t, ucast s, ucast c, ucast z])"
  by (simp add: pixel_words_def pixel_format_def vmodes)

lemma rom_parameters_bytes:
  assumes "0 \<le> w" "w \<le> 16384" "pixel_format depth = (t, s, c, z, dt)"
  shows "rom_parameters w h depth = be32 0 @ be16 (ucast (Video_BytesPerRowForMode w depth)) @ be16 0 @ be16 0 @
     be16 (word_of_int h) @ be16 (word_of_int w) @ be16 0 @ be16 0 @ be32 0 @ be32 0x00480000 @ be32 0x00480000 @
     be16 (ucast t) @ be16 (ucast s) @ be16 (ucast c) @ be16 (ucast z) @ be32 0"
proof -
  have u: "(ucast (word_of_int k :: u32) :: u16) = word_of_int k" for k
    by (rule bit_word_eqI) (simp add: bit_simps)
  show ?thesis
    unfolding rom_parameters_def VModeParms_bytes pixel_format_words assms(3) using assms(1,2)
    by (simp add: small_words u)
qed

lemma vp_bytes:
  fixes w :: int
  assumes "plain_block (dmem v) vp 42" "pixel_format depth = (t, s, c, z, dt)"
  defines "row \<equiv> Video_BytesPerRowForMode w depth"
  shows "begins
     (WriteMacInt32 (vp + vpPlaneBytes) 0 (WriteMacInt16 (vp + vpCmpSize) z (WriteMacInt16 (vp + vpCmpCount) c
       (WriteMacInt16 (vp + vpPixelSize) s (WriteMacInt16 (vp + vpPixelType) t (WriteMacInt32 (vp + vpVRes) 0x00480000
       (WriteMacInt32 (vp + vpHRes) 0x00480000 (WriteMacInt32 (vp + vpPackSize) 0 (WriteMacInt16 (vp + vpPackType) 0
       (WriteMacInt16 (vp + vpVersion) 0 (WriteMacInt16 (vp + vpBounds + 6) x (WriteMacInt16 (vp + vpBounds + 4) y
       (WriteMacInt16 (vp + vpBounds + 2) 0 (WriteMacInt16 (vp + vpBounds) 0 (WriteMacInt16 (vp + vpRowBytes) row
       (WriteMacInt32 (vp + vpBaseOffset) 0 (dmem v))))))))))))))))) vp
     ((((((((((((((((([] @ be32 0) @ be16 (ucast row)) @ be16 (ucast (0 :: u32))) @ be16 (ucast (0 :: u32))) @ be16 (ucast y)) @ be16 (ucast x))
       @ be16 (ucast (0 :: u32))) @ be16 (ucast (0 :: u32))) @ be32 0) @ be32 0x00480000) @ be32 0x00480000) @ be16 (ucast t)) @ be16 (ucast s))
       @ be16 (ucast c)) @ be16 (ucast z)) @ be32 0))"
proof -
  have p: "plain (dmem v) (vp + numeral k)" if "numeral k < (42 :: nat)" for k
    using plain_blockD [OF assms(1) that] by simp
  have z: "plain (dmem v) vp" using plain_blockD [OF assms(1), of 0] by simp
  show ?thesis
    by (intro begins_write32 begins_write16 begins_Nil)
      (simp_all add: vpBaseOffset_def vpRowBytes_def vpBounds_def vpVersion_def vpPackType_def vpPackSize_def vpHRes_def vpVRes_def
        vpPixelType_def vpPixelSize_def vpCmpCount_def vpCmpSize_def vpPlaneBytes_def add.assoc p z)
qed

lemma write_vp_block_bytes:
  assumes "plain_block (dmem v) vp 42" "plain_block (dmem v) param 18" "0 \<le> w" "w \<le> 16384"
    and "\<And>i j. i < 42 \<Longrightarrow> j < 18 \<Longrightarrow> vp + of_nat i \<noteq> param + of_nat j"
  shows "fetch (dmem (write_vp_block param vp w h depth v)) vp 42 = rom_parameters w h depth"
proof -
  obtain t s c z dt where pf: "pixel_format depth = (t, s, c, z, dt)" by (metis surj_pair)
  have pp: "plain (dmem v) (param + 10)" "plain (dmem v) (param + 14)"
    using plain_blockD [OF assms(2), of 10] plain_blockD [OF assms(2), of 14] by simp_all
  have d: "vp + of_nat i \<noteq> param + numeral k + of_nat j" if "i < 42" "numeral k + j < 18" for i j k
    using assms(5) [OF that] by (simp add: add.assoc)
  let ?R = "be32 0 @ be16 (ucast (Video_BytesPerRowForMode w depth)) @ be16 0 @ be16 0 @
     be16 (word_of_int h) @ be16 (word_of_int w) @ be16 0 @ be16 0 @ be32 0 @ be32 0x00480000 @ be32 0x00480000 @
     be16 (ucast t) @ be16 (ucast s) @ be16 (ucast c) @ be16 (ucast z) @ be32 0"
  have u: "(ucast (word_of_int k :: u32) :: u16) = word_of_int k" for k
    by (rule bit_word_eqI) (simp add: bit_simps)
  have o: "begins (WriteMacInt32 (param + csDeviceType) dt (WriteMacInt32 (param + csPageCount) 1 m)) vp ?R"
    if "begins m vp ?R" "plain m (param + 10)" "plain m (param + 14)" for m
    using that unfolding csDeviceType_def csPageCount_def
    by (simp only: write_stores routing_write) (intro begins_store_other; simp add: d)
  have "begins (dmem (write_vp_block param vp w h depth v)) vp ?R"
    unfolding write_vp_block_def Let_def pf prod.case dmem_wr
    using vp_bytes [OF assms(1) pf, where w = w and x = "word_of_int w" and y = "word_of_int h"]
    by (intro o) (simp_all add: pp u)
  then show ?thesis unfolding rom_parameters_bytes [OF assms(3,4) pf] by (simp add: begins_def)
qed

end
