(* ===== verification/Video_Resize.thy ===== *)
theory Video_Resize
  imports Video_Status
begin

section \<open>A size the host asks for\<close>

text \<open>
  The way of a new window size through the guest's control call: the parameter block the
  driver writes is the one it reads back, and the switch sets the size.
\<close>

lemma apple_mode_depth:
  assumes "VMODE_1BIT \<le> mode" "mode \<le> VMODE_32BIT"
  shows "Video_DepthForAppleMode (Video_AppleModeForDepth mode) = mode"
proof -
  have "mode \<in> {0, 1, 2, 3, 4, 5}" using assms by (auto simp: vmodes)
  then show ?thesis by (auto simp: Video_DepthForAppleMode_def Video_AppleModeForDepth_def vmodes kFirstAppleMode_def)
qed

subsection \<open>A quiet switch\<close>

definition shows_size :: "int \<Rightarrow> int \<Rightarrow> int \<Rightarrow> video \<Rightarrow> bool" where
  "shows_size w h mode v \<longleftrightarrow>
     mon_mode (VideoMonitor v) = mode \<and> sint (mon_x (VideoMonitor v)) = w \<and> sint (mon_y (VideoMonitor v)) = h"

lemma switch_result:
  assumes ok: "video_ok v" "screen_ready v" "\<not> in_mode_switch v" and mode: "VMODE_1BIT \<le> mode" "mode \<le> VMODE_32BIT"
    and c: "clamp_mode_size w0 h0 v = (w, h)" and sdl: "sdl w h (host_depth_for_mode mode)"
  shows "fst (Video_SwitchToModeDepth sdl w0 h0 mode v)" "shows_size w h mode (snd (Video_SwitchToModeDepth sdl w0 h0 mode v))"
proof -
  have s: "sizes_ok v" and nc: "\<not> classic_mode v" using ok(1) by (simp_all add: video_ok_def)
  note cb = clamped [OF s c]
  have f: "fst (change_mode sdl w h mode v)" using sdl by (simp add: change_mode_def Let_def)
  note m = change_mode_monitor(1) [OF f mode]
  consider (same) "Video_SwitchToModeDepth sdl w0 h0 mode v = (True, v)" "word_of_int w = mon_x (VideoMonitor v)"
      "word_of_int h = mon_y (VideoMonitor v)" "mode = mon_mode (VideoMonitor v)"
    | (new) "Video_SwitchToModeDepth sdl w0 h0 mode v = change_mode sdl w h mode v"
  proof (cases "word_of_int w = mon_x (VideoMonitor v) \<and> word_of_int h = mon_y (VideoMonitor v) \<and> mode = mon_mode (VideoMonitor v)")
    case True
    then have "Video_SwitchToModeDepth sdl w0 h0 mode v = (True, v)" using ok nc mode by (simp add: Video_SwitchToModeDepth_def c not_less)
    then show ?thesis using that(1) True by blast
  next
    case False
    then have "Video_SwitchToModeDepth sdl w0 h0 mode v = change_mode sdl w h mode v"
      using ok nc mode by (auto simp: Video_SwitchToModeDepth_def c not_less)
    then show ?thesis by (rule that(2))
  qed
  then have "fst (Video_SwitchToModeDepth sdl w0 h0 mode v) \<and> shows_size w h mode (snd (Video_SwitchToModeDepth sdl w0 h0 mode v))"
  proof cases
    case same
    then show ?thesis using small_words(2) [OF cb(5,6)] small_words(2) [OF cb(7,8)] by (simp add: shows_size_def)
  next
    case new
    then show ?thesis using f m cb by (simp add: shows_size_def small_words)
  qed
  then show "fst (Video_SwitchToModeDepth sdl w0 h0 mode v)" "shows_size w h mode (snd (Video_SwitchToModeDepth sdl w0 h0 mode v))" by blast+
qed

lemma size_screen: "screen_part v = screen_part w \<Longrightarrow> shows_size x y m v = shows_size x y m w"
  by (simp add: shows_size_def screen_part_def)

lemma switch_quietly_result:
  assumes ok: "video_ok v" "screen_ready v" "\<not> in_mode_switch v" and mode: "VMODE_1BIT \<le> mode" "mode \<le> VMODE_32BIT"
    and c: "clamp_mode_size w0 h0 v = (w, h)" and sdl: "sdl w h (host_depth_for_mode mode)"
  shows "\<exists>v2. switch_quietly sdl w0 h0 mode v = (True, v2) \<and> shows_size w h mode v2"
proof -
  let ?v1 = "(set_cursor_busy 1 v)\<lparr>guest_notify := False\<rparr>"
  have s: "screen_part ?v1 = screen_part v" by (simp add: set_cursor_busy_def)
  have "video_ok ?v1" using ok(1) video_ok_cong [OF s] by simp
  moreover have "screen_ready ?v1" "\<not> in_mode_switch ?v1" "clamp_mode_size w0 h0 ?v1 = (w, h)"
    using ok(2,3) c by (simp_all add: set_cursor_busy_def wr8_def clamp_mode_size_def)
  ultimately have r: "fst (Video_SwitchToModeDepth sdl w0 h0 mode ?v1)" "shows_size w h mode (snd (Video_SwitchToModeDepth sdl w0 h0 mode ?v1))"
    using switch_result [OF _ _ _ mode, where sdl = sdl and v = ?v1 and ?w0.0 = w0 and ?h0.0 = h0 and w = w and h = h] sdl by blast+
  have k: "shows_size w h mode (set_cursor_busy 0 (x\<lparr>guest_notify := True\<rparr>)) = shows_size w h mode x" for x
    by (rule size_screen) (simp add: set_cursor_busy_def)
  show ?thesis using r k by (simp add: switch_quietly_def Let_def split_def)
qed

subsection \<open>The control call\<close>

text \<open>What the driver reads from the block it wrote: mode, resolution number and page.\<close>

definition switch_block :: "mac \<Rightarrow> u32 \<Rightarrow> u16 \<Rightarrow> u32 \<Rightarrow> bool" where
  "switch_block m si apple ident \<longleftrightarrow> plain_block m si 12 \<and> (\<exists>base. begins m si (be16 apple @ be32 ident @ be16 0 @ be32 base))"

lemma switch_block_reads:
  assumes "switch_block m si apple ident"
  shows "(ucast (ReadMacInt16 m (si + csMode)) :: u16) = apple" "ReadMacInt32 m (si + csData) = ident"
    "ReadMacInt16 (WriteMacInt32 (si + csBaseAddr) x m) (si + csPage) = 0"
proof -
  obtain base where b: "begins m si (be16 apple @ be32 ident @ be16 0 @ be32 base)" using assms by (auto simp: switch_block_def)
  have p: "plain m si" "plain m (si + 2)" "plain m (si + 6)" "plain m (si + 8)"
    using assms plain_blockD [of m si 12 0] plain_blockD [of m si 12 2] plain_blockD [of m si 12 6] plain_blockD [of m si 12 8]
    by (simp_all add: switch_block_def)
  note n = begins_nth [OF b]
  have u: "(ucast (ucast apple :: u32) :: u16) = apple" by (rule bit_word_eqI) (auto simp: bit_simps)
  have r: "ram m si = ucast (drop_bit 8 apple)" "ram m (si + 1) = ucast apple"
    "ram m (si + 2) = ucast (drop_bit 24 ident)" "ram m (si + 3) = ucast (drop_bit 16 ident)" "ram m (si + 4) = ucast (drop_bit 8 ident)"
    "ram m (si + 5) = ucast ident" "ram m (si + 6) = 0" "ram m (si + 7) = 0"
    using n [of 0] n [of 1] n [of 2] n [of 3] n [of 4] n [of 5] n [of 6] n [of 7] by (simp_all add: be16_def be32_def)
  show "(ucast (ReadMacInt16 m (si + csMode)) :: u16) = apple"
    using p r of_be16_be16 [of apple] u by (simp add: ReadMacInt16_plain csMode_def)
  show "ReadMacInt32 m (si + csData) = ident"
    using p r by (simp add: ReadMacInt32_plain csData_def add.assoc of_be32_be32)
  show "ReadMacInt16 (WriteMacInt32 (si + csBaseAddr) x m) (si + csPage) = 0"
    using p r by (simp add: ReadMacInt16_plain csPage_def csBaseAddr_def ram_write add.assoc) (simp add: of_be16_def)
qed

lemma SwitchMode_result:
  assumes b: "switch_block (dmem v) si (current_apple v) ident" and i: "ident \<noteq> 0" "Video_SizeForResolutionID ident v = Some (w0, h0)"
    and ok: "video_ok v" "screen_ready v" "\<not> in_mode_switch v" and a: "current_apple v = Video_AppleModeForDepth (mon_mode (VideoMonitor v))"
    and c: "clamp_mode_size w0 h0 v = (w, h)" and sdl: "sdl w h (host_depth_for_mode (mon_mode (VideoMonitor v)))"
  shows "\<exists>v'. SwitchMode os sdl dce si v = (noErr, v') \<and> shows_size w h (mon_mode (VideoMonitor v)) v'"
proof -
  define v1 where "v1 = wr32 (si + csBaseAddr) (frame_base v) v"
  define mode where "mode = mon_mode (VideoMonitor v)"
  have s1: "screen_part v1 = screen_part v" "current_apple v1 = current_apple v" "current_id v1 = current_id v" "screen_ready v1"
    "\<not> in_mode_switch v1" "VideoMonitor v1 = VideoMonitor v" "clamp_mode_size w0 h0 v1 = (w, h)"
    using ok(2,3) c by (simp_all add: v1_def) (simp_all add: wr32_def clamp_mode_size_def)
  have sz1: "Video_SizeForResolutionID ident v1 = Some (w0, h0)" using i(2) size_cong [of v1 v] by (simp add: v1_def)
  have mo: "monitor_ok v" and sz: "sizes_ok v" using ok(1) by (simp_all add: video_ok_def)
  have mode: "VMODE_1BIT \<le> mode" "mode \<le> VMODE_32BIT" using mo by (simp_all add: monitor_ok_def Let_def mode_def)
  have d: "Video_DepthForAppleMode (current_apple v) = mode"
    unfolding a mode_def [symmetric] using mode apple_mode_depth by blast
  note r = switch_block_reads [OF b]
  have pg: "ReadMacInt16 (dmem v1) (si + csPage) = 0" using r(3) by (simp add: v1_def)
  have rs: "resolution_size ident v1 = Some (w0, h0)" using i(1) sz1 by (simp add: resolution_size_def kDisplayModeIDCurrent_def)
  show ?thesis
  proof (cases "ident \<noteq> current_id v \<or> w0 \<noteq> sint (mon_x (VideoMonitor v)) \<or> h0 \<noteq> sint (mon_y (VideoMonitor v))")
    case False
    have "SwitchMode os sdl dce si v = (noErr, wr32 (si + csBaseAddr) (frame_base v1) v1)"
      using False mode d pg rs s1 unfolding SwitchMode_def r v1_def [symmetric] Let_def by (simp add: vmodes)
    moreover have "shows_size w h mode (wr32 (si + csBaseAddr) (frame_base v1) v1) = shows_size w h mode v"
      by (rule size_screen) (simp add: s1)
    moreover have "shows_size w h mode v"
    proof -
      have x: "sint (mon_x (VideoMonitor v)) = uint (mon_x (VideoMonitor v))" "sint (mon_y (VideoMonitor v)) = uint (mon_y (VideoMonitor v))"
        using mo sz small_words(2) [of "uint (mon_x (VideoMonitor v))"] small_words(2) [of "uint (mon_y (VideoMonitor v))"]
        by (simp_all add: monitor_ok_def sizes_ok_def Let_def)
      then show ?thesis using False c mo by (auto simp: shows_size_def mode_def clamp_mode_size_def monitor_ok_def Let_def)
    qed
    ultimately show ?thesis by (simp add: mode_def)
  next
    case True
    have v1ok: "video_ok v1" using ok(1) video_ok_cong [OF s1(1)] by simp
    obtain v2 where q: "switch_quietly sdl w0 h0 mode v1 = (True, v2)" "shows_size w h mode v2"
      using switch_quietly_result [OF v1ok s1(4,5) mode s1(7)] sdl by (auto simp: mode_def)
    let ?v3 = "Video_UpdateSlotTable os dce si v2"
    have "SwitchMode os sdl dce si v = (noErr, wr32 (si + csBaseAddr) (frame_base ?v3) ?v3)"
      using True mode d pg rs s1 q(1) unfolding SwitchMode_def r v1_def [symmetric] Let_def by (auto simp: vmodes)
    moreover have "shows_size w h mode (wr32 (si + csBaseAddr) (frame_base ?v3) ?v3) = shows_size w h mode v2"
      by (rule size_screen) simp
    ultimately show ?thesis using q(2) by (simp add: mode_def)
  qed
qed

subsection \<open>The driver's own call\<close>

lemma guest_block:
  fixes apple :: u16 and ident base ref :: u32
  assumes p: "plain_block m si 12" "plain_block m pb 32" and d: "\<And>i j. i < 12 \<Longrightarrow> j < 32 \<Longrightarrow> si + of_nat i \<noteq> pb + of_nat j"
  defines "m1 \<equiv> WriteMacInt32 (si + csBaseAddr) base (WriteMacInt16 (si + csPage) 0
      (WriteMacInt32 (si + csData) ident (WriteMacInt16 (si + csMode) (ucast apple) m)))"
  defines "m2 \<equiv> WriteMacInt32 (pb + csParam) si (WriteMacInt16 (pb + csCode) cscSwitchMode (WriteMacInt16 (pb + ioRefNum) ref m1))"
  shows "switch_block m2 si apple ident" "ReadMacInt16 m2 (pb + csCode) = cscSwitchMode" "ReadMacInt32 m2 (pb + csParam) = si"
proof -
  have ps: "plain m si" "plain m (si + 2)" "plain m (si + 6)" "plain m (si + 8)"
    using plain_blockD [OF p(1), of 0] plain_blockD [OF p(1), of 2] plain_blockD [OF p(1), of 6] plain_blockD [OF p(1), of 8] by simp_all
  have pp: "plain m (pb + 24)" "plain m (pb + 26)" "plain m (pb + 28)"
    using plain_blockD [OF p(2), of 24] plain_blockD [OF p(2), of 26] plain_blockD [OF p(2), of 28] by simp_all
  have u: "(ucast (ucast apple :: u32) :: u16) = apple" by (rule bit_word_eqI) (auto simp: bit_simps)
  have "begins m1 si (((([] @ be16 (ucast (ucast apple :: u32))) @ be32 ident) @ be16 (ucast (0 :: u32))) @ be32 base)"
    unfolding m1_def
    by (intro begins_write32 begins_write16 begins_Nil) (simp_all add: csMode_def csData_def csPage_def csBaseAddr_def ps)
  then have b1: "begins m1 si (be16 apple @ be32 ident @ be16 0 @ be32 base)" by (simp add: u)
  have pm: "plain m1 (pb + 24)" "plain m1 (pb + 26)" "plain m1 (pb + 28)" "plain_block m1 si 12" using pp p(1) by (simp_all add: m1_def)
  have dk: "si + of_nat i \<noteq> pb + numeral k + of_nat j" if "i < 12" "numeral k + j < 32" for i j k
    using d [OF that] by (simp add: add.assoc)
  have "begins m2 si (be16 apple @ be32 ident @ be16 0 @ be32 base)"
    unfolding m2_def ioRefNum_def csCode_def csParam_def using b1 pm
    by (simp only: write_stores routing_write) (intro begins_store_other; simp add: dk)
  moreover have "plain_block m2 si 12" using pm by (simp add: m2_def)
  ultimately show "switch_block m2 si apple ident" by (auto simp: switch_block_def)
  show "ReadMacInt16 m2 (pb + csCode) = cscSwitchMode" "ReadMacInt32 m2 (pb + csParam) = si"
    using pm by (simp_all add: m2_def ioRefNum_def csCode_def csParam_def ReadMacInt16_plain ReadMacInt32_plain ram_write
        add.assoc of_be32_be32) (simp add: of_be16_def cscSwitchMode_def)
qed

lemma register_same:
  assumes "Video_RegisterGuestSize w h v = (ident, v1)"
  shows "screen_part v1 = screen_part v" "dmem v1 = dmem v" "current_apple v1 = current_apple v" "screen_ready v1 = screen_ready v"
    "in_mode_switch v1 = in_mode_switch v" "switch_info v1 = switch_info v" "cntrl_pb v1 = cntrl_pb v"
  using assms by (auto simp: Video_RegisterGuestSize_def Let_def split: if_splits)

lemma kept_writes [simp]:
  "current_apple (wr16 a x v) = current_apple v" "current_apple (wr32 a x v) = current_apple v"
  "screen_ready (wr16 a x v) = screen_ready v" "screen_ready (wr32 a x v) = screen_ready v"
  "in_mode_switch (wr16 a x v) = in_mode_switch v" "in_mode_switch (wr32 a x v) = in_mode_switch v"
  "offered (wr16 a x v) = offered v"
  by (simp_all add: wr16_def wr32_def offered_def)

lemma control_switch:
  assumes "ReadMacInt16 (dmem v) (pb + csCode) = cscSwitchMode" "ReadMacInt32 (dmem v) (pb + csParam) = si"
  shows "VideoDriverControl os sdl pb dce v = Some (SwitchMode os sdl dce si v)"
  unfolding VideoDriverControl_def Let_def assms by (simp add: video_codes)

lemma guest_switch:
  assumes ok: "video_ok v" "custom_ok v" "screen_ready v" "\<not> in_mode_switch v"
    and open_done: "vdce v \<noteq> 0" "cntrl_pb v \<noteq> 0" "switch_info v \<noteq> 0"
    and a: "current_apple v = Video_AppleModeForDepth (mon_mode (VideoMonitor v))"
    and wh: "VIDEO_MIN_WIDTH \<le> w0" "VIDEO_MIN_HEIGHT \<le> h0"
    and p: "plain_block (dmem v) (switch_info v) 12" "plain_block (dmem v) (cntrl_pb v) 32"
    and d: "\<And>i j. i < 12 \<Longrightarrow> j < 32 \<Longrightarrow> switch_info v + of_nat i \<noteq> cntrl_pb v + of_nat j"
    and c: "clamp_mode_size w0 h0 v = (w, h)" and sdl: "sdl w h (host_depth_for_mode (mon_mode (VideoMonitor v)))"
  shows "\<exists>v'. Video_GuestSwitchToSize os sdl w0 h0 v = Some (noErr, v') \<and> shows_size w h (mon_mode (VideoMonitor v)) v'"
proof -
  let ?si = "switch_info v" and ?pb = "cntrl_pb v"
  obtain ident v1 where r: "Video_RegisterGuestSize w0 h0 v = (ident, v1)" by fastforce
  note s = register_same [OF r]
  have pos: "0 < w0" "0 < h0" using wh by (simp_all add: video_sizes)
  have pr: "presets_ok v" using ok(1) by (simp add: video_ok_def)
  note rt = register_round_trip [OF pr ok(2) pos r]
  define v5 where "v5 = wr32 (?si + csBaseAddr) (if vid_open (wr16 (?si + csPage) 0 (wr32 (?si + csData) ident (wr16 (?si + csMode) (ucast (current_apple v1)) v1)))
      then frame_base (wr16 (?si + csPage) 0 (wr32 (?si + csData) ident (wr16 (?si + csMode) (ucast (current_apple v1)) v1))) else 0)
      (wr16 (?si + csPage) 0 (wr32 (?si + csData) ident (wr16 (?si + csMode) (ucast (current_apple v1)) v1)))"
  define v8 where "v8 = wr32 (?pb + csParam) ?si (wr16 (?pb + csCode) cscSwitchMode (wr16 (?pb + ioRefNum) (Video_DriverRefNum v5) v5))"
  have s8: "screen_part v8 = screen_part v" "custom_id v8 = custom_id v1" "offered v8 = offered v1" "current_apple v8 = current_apple v" "screen_ready v8" "\<not> in_mode_switch v8"
    using s ok(3,4) by (simp_all add: v8_def v5_def)
  have m8: "VideoMonitor v8 = VideoMonitor v" by (rule monitor_of_screen [OF s8(1)])
  have e: "Video_GuestSwitchToSize os sdl w0 h0 v = VideoDriverControl os sdl ?pb (vdce v8) v8"
    using open_done wh unfolding Video_GuestSwitchToSize_def r Let_def prod.case s(6,7) v5_def [symmetric] v8_def [symmetric] by simp
  have dm: "dmem v8 = WriteMacInt32 (?pb + csParam) ?si (WriteMacInt16 (?pb + csCode) cscSwitchMode (WriteMacInt16 (?pb + ioRefNum) (Video_DriverRefNum v5)
      (WriteMacInt32 (?si + csBaseAddr) (if vid_open (wr16 (?si + csPage) 0 (wr32 (?si + csData) ident (wr16 (?si + csMode) (ucast (current_apple v1)) v1)))
      then frame_base (wr16 (?si + csPage) 0 (wr32 (?si + csData) ident (wr16 (?si + csMode) (ucast (current_apple v1)) v1))) else 0) (WriteMacInt16 (?si + csPage) 0
      (WriteMacInt32 (?si + csData) ident (WriteMacInt16 (?si + csMode) (ucast (current_apple v)) (dmem v)))))))"
    unfolding v8_def dmem_wr v5_def s(2,3) ..
  have ctl: "VideoDriverControl os sdl ?pb (vdce v8) v8 = Some (SwitchMode os sdl (vdce v8) ?si v8)"
  proof (rule control_switch)
    show "ReadMacInt16 (dmem v8) (?pb + csCode) = cscSwitchMode" unfolding dm by (rule guest_block(2) [OF p d])
    show "ReadMacInt32 (dmem v8) (?pb + csParam) = ?si" unfolding dm by (rule guest_block(3) [OF p d])
  qed
  have "\<exists>v'. SwitchMode os sdl (vdce v8) ?si v8 = (noErr, v') \<and> shows_size w h (mon_mode (VideoMonitor v8)) v'"
  proof (rule SwitchMode_result)
    show "switch_block (dmem v8) ?si (current_apple v8) ident" unfolding dm s8(4) by (rule guest_block(1) [OF p d])
    show "Video_SizeForResolutionID ident v8 = Some (w0, h0)" using rt size_cong [OF s8(3)] by simp
    show "video_ok v8" using ok(1) video_ok_cong [OF s8(1)] by simp
    show "clamp_mode_size w0 h0 v8 = (w, h)" using c s8(1) by (simp add: clamp_mode_size_def screen_part_def)
  qed (use rt s8 m8 a sdl in simp_all)
  then show ?thesis unfolding e ctl m8 by auto
qed

end
