(* ===== verification/Video_Properties.thy ===== *)
theory Video_Properties
  imports M68k Video_Resize
begin

section \<open>Properties of the video driver and the declaration ROM\<close>

text \<open>
  What the guest and the host may rely on: a frame never leaves the reserved memory, the
  declaration ROM can be read by the Slot Manager and shows the current mode, resolution
  numbers and colour tables mean what they were set to. The witnesses run on one machine
  without a ROM patch and one with it.
\<close>

subsection \<open>A machine without guest\<close>

definition no_video :: video where
  "no_video = \<lparr>dmem = bare_mac, sysd = bare_host, traps = [],
     VideoMonitor = \<lparr>mac_frame_base = 0, bytes_per_row = 0, mon_x = 0, mon_y = 0, mon_mode = 0\<rparr>, VideoPresets = [],
     max_width = 0, max_height = 0, current_id = 0, current_apple = 0, preferred_apple = 0, preferred_id = 0, dm_present = False,
     slot_param = 0, dce_slot = 0, dce_slot_id = 0x80, vdce = 0, cntrl_pb = 0, switch_info = 0,
     custom_id = 0, custom_width = 0, custom_height = 0, vid_open = False, palette = replicate 768 0,
     luminance_mapping = False, interrupts_enabled = False, guest_notify = True, notified = [],
     host_palette = [], have_palette = False, host_depth = 0, classic_mode = False, screen_ready = False,
     in_mode_switch = False, MacFrameSize = 0, slot = slot_rom_start\<rparr>"

definition no_guest :: mac_os where
  "no_guest t d a m = (0, m)"

definition any_mode :: sdl where
  "any_mode w h d = True"

definition started :: "int \<times> int \<Rightarrow> video" where
  "started desktop = VideoInit any_mode False None desktop no_video"

subsection \<open>The frame buffer\<close>

text \<open>
  C6. Once the screen is set up, no sequence of driver calls, host resizes, warm resets and guest
  activity, whatever SDL accepts or refuses, leads to a mode whose frame is larger than the memory reserved for it at
  start-up: the base address stays, and the size stays between 512x384 and the largest resolution offered.\<close>
theorem frame_stays_in_reservation:
  assumes "fst desktop \<le> 16384" "snd desktop \<le> 16384"
    and "(video_step os sdl)\<^sup>*\<^sup>* (VideoInit sdl False screen desktop v0) v"
  shows "mac_frame_base (VideoMonitor v) = MacFrameBaseMac \<and>
    uint (bytes_per_row (VideoMonitor v)) * uint (mon_y (VideoMonitor v)) \<le> uint (MacFrameSize v) \<and>
    MacFrameSize v = MacFrameSize (VideoInit sdl False screen desktop v0) \<and>
    VIDEO_MIN_WIDTH \<le> uint (mon_x (VideoMonitor v)) \<and> uint (mon_x (VideoMonitor v)) \<le> max_width v \<and>
    VIDEO_MIN_HEIGHT \<le> uint (mon_y (VideoMonitor v)) \<and> uint (mon_y (VideoMonitor v)) \<le> max_height v"
proof -
  have k: "kept (VideoInit sdl False screen desktop v0) v" by (rule video_steps_kept [OF assms(3)])
  then have ok: "video_ok v" using VideoInit_ok [OF assms(1,2)] by (simp add: kept_def)
  show ?thesis using k ok frame_fits [OF ok] by (simp add: kept_def screen_part_def video_ok_def monitor_ok_def Let_def)
qed

lemma frame_stays_in_reservation_witness:
  "uint (bytes_per_row (VideoMonitor (Video_ResetForWarmStart any_mode (started (1920, 1080))))) *
   uint (mon_y (VideoMonitor (Video_ResetForWarmStart any_mode (started (1920, 1080))))) \<le> uint (MacFrameSize (started (1920, 1080)))"
proof -
  have s: "(video_step no_guest any_mode)\<^sup>*\<^sup>* (VideoInit any_mode False None (1920, 1080) no_video)
      (Video_ResetForWarmStart any_mode (VideoInit any_mode False None (1920, 1080) no_video))"
    by (rule r_into_rtranclp) (rule warm_start)
  from frame_stays_in_reservation [OF _ _ s] show ?thesis unfolding started_def by auto
qed

subsection \<open>Resolution numbers\<close>

text \<open>
  Every size the host asks for gets a display mode number, and looking the number up gives the size
  back; registering a size changes no number of the offered resolutions, and the number is found again for the size. This holds after any
  sequence of driver calls.\<close>
theorem resolution_numbers_round_trip:
  assumes "fst desktop \<le> 16384" "snd desktop \<le> 16384" "custom_id v0 = 0"
    and "(video_step os sdl)\<^sup>*\<^sup>* (VideoInit sdl False screen desktop v0) v"
    and "0 < w" "0 < h" "Video_RegisterGuestSize w h v = (ident, v')"
  shows "ident \<noteq> 0 \<and> Video_SizeForResolutionID ident v' = Some (w, h) \<and> Video_ResolutionIDForSize w h v' = ident \<and>
    VideoPresets v' = VideoPresets v \<and>
    (\<forall>i < length (VideoPresets v). Video_SizeForResolutionID (kFirstAppleMode + of_nat i) v' = Some (VideoPresets v ! i) \<and>
       Video_ResolutionIDForSize (fst (VideoPresets v ! i)) (snd (VideoPresets v ! i)) v' = kFirstAppleMode + of_nat i)"
proof -
  have k: "kept (VideoInit sdl False screen desktop v0) v" by (rule video_steps_kept [OF assms(4)])
  then have ok: "presets_ok v" "custom_ok v" using VideoInit_ok [OF assms(1,2)] assms(3)
    by (simp_all add: kept_def video_ok_def custom_ok_def VideoInit_custom)
  show ?thesis using register_round_trip [OF ok assms(5,6,7)] preset_numbers [OF register_kept [OF ok assms(7)]] register_presets [OF assms(7)] by simp
qed

lemma resolution_numbers_round_trip_witness:
  "Video_SizeForResolutionID (fst (Video_RegisterGuestSize 1000 700 (started (1920, 1080)))) (snd (Video_RegisterGuestSize 1000 700 (started (1920, 1080)))) =
     Some (1000, 700)"
  unfolding started_def
  using resolution_numbers_round_trip [of "(1920, 1080)" no_video no_guest any_mode None "VideoInit any_mode False None (1920, 1080) no_video" 1000 700
      "fst (Video_RegisterGuestSize 1000 700 (VideoInit any_mode False None (1920, 1080) no_video))"
      "snd (Video_RegisterGuestSize 1000 700 (VideoInit any_mode False None (1920, 1080) no_video))"]
  by (simp add: no_video_def)

subsection \<open>The declaration ROM\<close>

text \<open>
  The declaration ROM is built inside its buffer of 4096 bytes and, copied to the end of the Mac
  ROM, has a valid checksum; a reader that starts at its last twenty bytes and follows the lists of entries finds, for
  every depth, the row length, the size of the boot monitor and the pixel size.\<close>
theorem slot_rom_readable:
  assumes "length date = 11" "1350 < unat (rom_size m)" "InstallSlotROM date mon frame m = (sl, m')"
  shows "slot_rom_size sl \<le> 4096 \<and> slot_addr sl m' (slot_rom_size sl) = rom_base m + rom_size m \<and> crc_ok (slot_image sl m') \<and>
    (\<forall>k < 6. read_mode (slot_image sl m') k =
       Some (ucast (ucast (Video_BytesPerRowForMode (sint (mon_x mon)) (int k)) :: u16), 0, ucast (ucast (mon_y mon) :: u16),
             ucast (ucast (mon_x mon) :: u16), ucast (depth_bits (int k))))"
  using installed_place [OF assms] installed_slot_ok(1) [OF assms] installed_reads [OF assms]
  by (simp add: slot_ok_def slot_addr_def)

definition demo_monitor :: video_desc where
  "demo_monitor = \<lparr>mac_frame_base = MacFrameBaseMac, bytes_per_row = 1152, mon_x = 1152, mon_y = 870, mon_mode = 3\<rparr>"

definition demo_rom :: "slot_rom \<times> mac" where
  "demo_rom = InstallSlotROM ''Jan  1 2026'' demo_monitor 0 bare_mac"

lemma slot_rom_readable_witness:
  "read_mode (slot_image (fst demo_rom) (snd demo_rom)) 3 = Some (1152, 0, 870, 1152, 8)"
proof -
  have "InstallSlotROM ''Jan  1 2026'' demo_monitor 0 bare_mac = (fst demo_rom, snd demo_rom)" by (simp add: demo_rom_def)
  from slot_rom_readable [OF _ _ this]
  have "read_mode (slot_image (fst demo_rom) (snd demo_rom)) 3 =
      Some (ucast (ucast (Video_BytesPerRowForMode 1152 (int 3)) :: u16), 0, 870, 1152, ucast (depth_bits (int 3)))"
    by (simp add: bare_mac_def demo_monitor_def)
  then show ?thesis by (simp add: Video_BytesPerRowForMode_def vmodes depth_bits_def pixel_words_def)
qed

text \<open>
  C5. Switching the size or the depth keeps the declaration ROM in step with the screen: when the
  switch succeeds the monitor has the requested depth and the requested size, clamped to the reservation, the ROM shows
  row length and size of the new mode under a valid checksum, and the other depths are as before. When it fails, monitor and guest memory are as before.\<close>
theorem switch_updates_slot_rom:
  assumes "video_ok v" "max_width v < 16384" "slot_blocks (slot v) (dmem v)" "shows_current v" "slot_below_frame v"
    and "Video_SwitchToModeDepth sdl w0 h0 mode v = (ok, v')"
  shows "slot_blocks (slot v') (dmem v') \<and> shows_current v' \<and>
    (if ok then mon_mode (VideoMonitor v') = mode \<and>
              (sint (mon_x (VideoMonitor v')), sint (mon_y (VideoMonitor v'))) = clamp_mode_size w0 h0 v \<and>
              (\<forall>j < 6. j \<noteq> nat mode \<longrightarrow> read_mode (slot_image (slot v') (dmem v')) j = read_mode (slot_image (slot v) (dmem v)) j)
     else VideoMonitor v' = VideoMonitor v \<and> dmem v' = dmem v)"
proof -
  obtain w h where c: "clamp_mode_size w0 h0 v = (w, h)" by fastforce
  have ok: "sizes_ok v" "monitor_ok v" using assms(1) by (simp_all add: video_ok_def)
  note cb = clamped [OF ok(1) c]
  consider (same) "v' = v" "ok \<longrightarrow> word_of_int w = mon_x (VideoMonitor v) \<and> word_of_int h = mon_y (VideoMonitor v) \<and> mode = mon_mode (VideoMonitor v)"
    | (new) "(ok, v') = change_mode sdl w h mode v" "VMODE_1BIT \<le> mode" "mode \<le> VMODE_32BIT"
    using switch_cases [OF c, of sdl mode] assms(6) by auto
  then show ?thesis
  proof cases
    case same
    have "sint (mon_x (VideoMonitor v)) = w \<and> sint (mon_y (VideoMonitor v)) = h" if ok
      using same(2) that small_words(2) [OF cb(5,6)] small_words(2) [OF cb(7,8)] by metis
    then show ?thesis using same assms(3,4) c by auto
  next
    case new
    have e: "fst (change_mode sdl w h mode v) = ok" "snd (change_mode sdl w h mode v) = v'" using new(1) by (metis fst_conv snd_conv)+
    show ?thesis
    proof (cases ok)
      case True
      then have f: "fst (change_mode sdl w h mode v)" by (simp add: e)
      note r = switch_reads [OF assms(1,2,3,5) c new(2,3) f, unfolded e]
      show ?thesis using True r(1,2) [of 0] r(3) change_mode_monitor(1) [OF f new(2,3), unfolded e] cb c by (simp add: small_words)
    next
      case False
      then have f: "\<not> fst (change_mode sdl w h mode v)" by (simp add: e)
      have "slot v' = slot v" using change_mode_frame(3) [of sdl w h mode v] e by simp
      then show ?thesis using False change_mode_monitor(2,3) [OF f, unfolded e] ok(2) assms(3,4) by (simp add: shows_current_def)
    qed
  qed
qed

definition with_rom :: video where
  "with_rom = (started (1920, 1080))\<lparr>dmem := snd demo_rom, slot := fst demo_rom\<rparr>"

lemma started_monitor: "VideoMonitor (started (1920, 1080)) = demo_monitor" "max_width (started (1920, 1080)) = 1920"
  "max_height (started (1920, 1080)) = 1080" "screen_ready (started (1920, 1080))" "\<not> in_mode_switch (started (1920, 1080))"
  "host_depth (started (1920, 1080)) = 8" "\<not> classic_mode (started (1920, 1080))"
  by code_simp+

lemma switch_updates_slot_rom_witness:
  "fst (Video_SwitchToModeDepth any_mode 1024 768 4 with_rom) \<and>
   (\<exists>row. read_mode (slot_image (fst demo_rom) (dmem (snd (Video_SwitchToModeDepth any_mode 1024 768 4 with_rom)))) 4 = Some (row, 0, 768, 1024, 16))"
proof -
  obtain ok v' where sw: "Video_SwitchToModeDepth any_mode 1024 768 4 with_rom = (ok, v')" by fastforce
  have ins: "InstallSlotROM ''Jan  1 2026'' demo_monitor 0 bare_mac = (fst demo_rom, snd demo_rom)" by (simp add: demo_rom_def)
  have pl: "length ''Jan  1 2026'' = 11" "1350 < unat (rom_size bare_mac)" by (simp_all add: bare_mac_def)
  have ok0: "video_ok with_rom"
    using VideoInit_ok [of "(1920, 1080)" any_mode None no_video] video_ok_cong [of with_rom "started (1920, 1080)"]
    by (simp add: with_rom_def started_def screen_part_def)
  have mon: "VideoMonitor with_rom = demo_monitor" "max_width with_rom = 1920" "max_height with_rom = 1080"
    "slot with_rom = fst demo_rom" "dmem with_rom = snd demo_rom"
    by (simp_all add: with_rom_def started_monitor)
  have cur: "shows_current with_rom" unfolding shows_current_def mon
    using installed_reads [OF pl ins, of 3]
    by (simp add: demo_monitor_def Video_BytesPerRowForMode_def vmodes)
  have below: "slot_below_frame with_rom" unfolding slot_below_frame_def mon
    using installed_place [OF pl ins] by (simp add: bare_mac_def MacFrameBaseMac_def)
  have cl: "clamp_mode_size 1024 768 with_rom = (1024, 768)" by (simp add: clamp_mode_size_def mon video_sizes)
  have flags: "screen_ready with_rom" "\<not> in_mode_switch with_rom" "\<not> classic_mode with_rom" by (simp_all add: with_rom_def started_monitor)
  have okT: ok
    using arg_cong [OF sw, of fst]
    by (simp add: Video_SwitchToModeDepth_def cl mon flags Let_def demo_monitor_def change_mode_def any_mode_def vmodes)
  have "max_width with_rom < 16384" by (simp add: mon)
  note r = switch_updates_slot_rom [OF ok0 this _ cur below sw, unfolded mon, OF installed_blocks [OF pl ins]]
  have s: "slot v' = fst demo_rom" using switch_frame(3) [of any_mode 1024 768 4 with_rom] sw mon by simp
  have "sint (mon_x (VideoMonitor v')) = sint (1024 :: u32)" "sint (mon_y (VideoMonitor v')) = sint (768 :: u32)"
    "mon_mode (VideoMonitor v') = 4" "shows_current v'"
    using r okT cl by simp_all
  then have "read_mode (slot_image (fst demo_rom) (dmem v')) 4 = Some (bytes_per_row (VideoMonitor v'), 0, 768, 1024, ucast (depth_bits 4))"
    unfolding signed_word_eqI s shows_current_def by (simp add: signed_word_eqI Let_def flip: s)
  moreover have "depth_bits 4 = 16" by (simp add: depth_bits_def pixel_words_def vmodes)
  ultimately show ?thesis using okT sw by simp
qed

subsection \<open>Colours\<close>

text \<open>
  Setting a range of colours sets exactly that range: in an indexed mode, each entry from start to
  start plus count becomes the high bytes of the red, green and blue words of the guest's table (or its gray value when
  luminance mapping is on), the others stay, and the host gets the new palette. A range that ends behind entry 255
  writes behind the palette.\<close>
theorem colours_are_set:
  assumes "length (palette v) = 768" "\<not> IsDirectMode (mon_mode (VideoMonitor v))"
    and "ReadMacInt32 (dmem v) (param + csTable) = table" "table \<noteq> 0"
    and "unat (ReadMacInt16 (dmem v) (param + csCount)) = count" "count \<le> 255"
    and "unat (ReadMacInt16 (dmem v) (param + csStart)) = start" "start \<noteq> 0xffff"
  shows "if start + count \<le> 255
    then (\<exists>v'. SetEntries False param v = Some (noErr, v') \<and> host_palette v' = palette v' \<and> dmem v' = dmem v \<and>
           length (palette v') = 768 \<and>
           (\<forall>j < 256. palette_colour (palette v') j =
              (if start \<le> j \<and> j \<le> start + count then luminance (luminance_mapping v) (entry_colour (dmem v) (table + 8 * of_nat (j - start)))
               else palette_colour (palette v) j)))
    else SetEntries False param v = None"
proof -
  let ?r = "set_entries (dmem v) (luminance_mapping v) False (count + 1) table start (palette v)"
  have n: "ReadMacInt16 (dmem v) (param + csStart) \<noteq> 0xffff" using assms(7,8) by auto
  have e: "SetEntries False param v = Option.bind ?r (\<lambda>pal. Some (noErr, video_set_palette pal (v\<lparr>palette := pal\<rparr>)))"
    using assms n by (simp add: SetEntries_def Let_def)
  show ?thesis
  proof (cases "start + count \<le> 255")
    case False
    then have "?r = None" using set_entries_range(1) [OF assms(1), of "count + 1" start] by simp
    then show ?thesis using False e by simp
  next
    case True
    then have "start + (count + 1) \<le> 256" by simp
    from set_entries_range(2) [OF assms(1) _ this, of "dmem v" "luminance_mapping v" table] obtain pal where
      pal: "?r = Some pal" "length pal = 768" "\<forall>j < 256. palette_colour pal j = (if start \<le> j \<and> j < start + (count + 1)
        then luminance (luminance_mapping v) (entry_colour (dmem v) (table + 8 * of_nat (j - start))) else palette_colour (palette v) j)"
      by auto
    then show ?thesis using True e by (auto simp: video_set_palette_def less_Suc_eq_le)
  qed
qed

text \<open>A table of two colours at 0x2000, for entries 2 and 3.\<close>

definition colour_ram :: "u32 \<Rightarrow> u8" where
  "colour_ram = (\<lambda>a. 0)(0x1002 := 0x20, 0x1005 := 2, 0x1007 := 1, 0x200a := 0xff, 0x200c := 0x80)"

definition colour_video :: video where
  "colour_video = no_video\<lparr>dmem := bare_mac\<lparr>ram := colour_ram\<rparr>, palette := replicate 768 7\<rparr>"

lemma colours_are_set_witness:
  "\<exists>v'. SetEntries False 0x1000 colour_video = Some (noErr, v') \<and> palette_colour (palette v') 2 = (0, 0, 0) \<and>
     palette_colour (palette v') 3 = (0xff, 0x80, 0) \<and> palette_colour (palette v') 4 = (7, 7, 7)"
proof -
  have r: "ReadMacInt16 (bare_mac\<lparr>ram := colour_ram\<rparr>) a = of_be16 (colour_ram a) (colour_ram (a + 1))"
    "ReadMacInt32 (bare_mac\<lparr>ram := colour_ram\<rparr>) a = of_be32 (colour_ram a) (colour_ram (a + 1)) (colour_ram (a + 2)) (colour_ram (a + 3))" for a
    by (simp_all add: ReadMacInt16_def ReadMacInt32_def read_handler_def is_mmio_addr_def FindMMIORegion_def bare_mac_def)
  have c: "length (palette colour_video) = 768" "\<not> IsDirectMode (mon_mode (VideoMonitor colour_video))"
    "ReadMacInt32 (dmem colour_video) (0x1000 + csTable) = 0x2000" "(0x2000 :: u32) \<noteq> 0"
    "unat (ReadMacInt16 (dmem colour_video) (0x1000 + csCount)) = 1" "(1 :: nat) \<le> 255"
    "unat (ReadMacInt16 (dmem colour_video) (0x1000 + csStart)) = 2" "(2 :: nat) \<noteq> 0xffff"
    by (simp_all add: colour_video_def r) (simp_all add: colour_ram_def csTable_def csCount_def csStart_def no_video_def
        IsDirectMode_def vmodes of_be16_def of_be32_def)
  have m: "dmem colour_video = bare_mac\<lparr>ram := colour_ram\<rparr>" "luminance_mapping colour_video = False" "palette colour_video = replicate 768 7"
    by (simp_all add: colour_video_def no_video_def)
  have e: "luminance False (entry_colour (bare_mac\<lparr>ram := colour_ram\<rparr>) 0x2000) = (0, 0, 0)"
    "luminance False (entry_colour (bare_mac\<lparr>ram := colour_ram\<rparr>) 0x2008) = (0xff, 0x80, 0)"
    by (simp_all add: entry_colour_def luminance_def r) (simp_all add: colour_ram_def of_be16_def)
  from colours_are_set [OF c] obtain v' where v: "SetEntries False 0x1000 colour_video = Some (noErr, v')"
    and p: "\<forall>j < 256. palette_colour (palette v') j = (if 2 \<le> j \<and> j \<le> 2 + 1 then luminance False (entry_colour (bare_mac\<lparr>ram := colour_ram\<rparr>) (0x2000 + 8 * of_nat (j - 2)))
       else palette_colour (replicate 768 7) j)" by (auto simp: m)
  show ?thesis using v p [rule_format, of 2] p [rule_format, of 3] p [rule_format, of 4] e by (simp add: palette_colour_def)
qed

subsection \<open>The Display Manager\<close>

lemma reached_ok:
  assumes "fst desktop \<le> 16384" "snd desktop \<le> 16384" "custom_id v0 = 0"
    and "(video_step os sdl)\<^sup>*\<^sup>* (VideoInit sdl False screen desktop v0) v"
  shows "video_ok v" "presets_ok v" "custom_ok v"
  using video_steps_kept [OF assms(4)] VideoInit_ok [OF assms(1,2)] assms(3)
  by (simp_all add: kept_def video_ok_def custom_ok_def VideoInit_custom)

text \<open>
  A guest that asks for the first resolution, then for the one after each answer until there are
  no more, sees every offered resolution once, in order, with its number, width and height, and then the end of the list,
  after any sequence of driver calls.\<close>
theorem resolutions_are_listed:
  assumes "fst desktop \<le> 16384" "snd desktop \<le> 16384" "custom_id v0 = 0"
    and "(video_step os sdl)\<^sup>*\<^sup>* (VideoInit sdl False screen desktop v0) v"
    and "plain_block (dmem v) p 26" "kMaxPresets < n"
  shows "list_resolutions n p kDisplayModeIDFindFirstResolution v =
    map (\<lambda>i. (kFirstAppleMode + of_nat i, word_of_int (fst (VideoPresets v ! i)), word_of_int (snd (VideoPresets v ! i))))
      [0..<length (VideoPresets v)]"
proof -
  note ok = reached_ok [OF assms(1-4)]
  have "length (VideoPresets v) \<le> kMaxPresets" using ok(2) by (simp add: presets_ok_def)
  then have "list_resolutions n p kDisplayModeIDFindFirstResolution v = map (entry_of v) [0..<length (VideoPresets v)]"
    using list_from [OF ok(2,3) assms(5), of kDisplayModeIDFindFirstResolution 0 n] assms(6) by simp
  then show ?thesis by (simp add: entry_of_def [abs_def])
qed

lemma started_presets: "VideoPresets (started (1920, 1080)) =
    [(640, 480), (800, 600), (1024, 768), (1152, 870), (1280, 720), (1280, 1024), (1600, 900), (1920, 1080)]"
  by code_simp

lemma started_mem: "dmem (started (1920, 1080)) = bare_mac"
  by (simp add: started_def VideoInit_def Let_def split_def video_set_palette_def Video_NoteCurrentMode_def init_window_def
      set_frame_base_def set_video_monitor_def Video_BuildPresets_def no_video_def slot_rom_start_def)

lemma resolutions_are_listed_witness:
  "map fst (list_resolutions 10 0x1000 kDisplayModeIDFindFirstResolution (started (1920, 1080))) = [0x80, 0x81, 0x82, 0x83, 0x84, 0x85, 0x86, 0x87]"
proof -
  have st: "(video_step no_guest any_mode)\<^sup>*\<^sup>* (VideoInit any_mode False None (1920, 1080) no_video) (started (1920, 1080))"
    by (simp add: started_def)
  have pl: "plain_block (dmem (started (1920, 1080))) 0x1000 26"
    by (rule plain_bare) (simp_all add: started_mem bare_mac_def)
  have "list_resolutions 10 0x1000 kDisplayModeIDFindFirstResolution (started (1920, 1080)) =
      map (\<lambda>i. (kFirstAppleMode + of_nat i, word_of_int (fst (VideoPresets (started (1920, 1080)) ! i)), word_of_int (snd (VideoPresets (started (1920, 1080)) ! i))))
        [0..<length (VideoPresets (started (1920, 1080)))]"
    using resolutions_are_listed [OF _ _ _ st pl, of 10] by (simp add: no_video_def kMaxPresets_def kBasePresets_def)
  then show ?thesis by (simp add: started_presets kFirstAppleMode_def upt_rec)
qed

text \<open>
  C8. Asking for the parameters of a resolution and depth gives the bytes the declaration ROM has for
  a mode of that size and depth: both descriptions of a mode, in the driver and in the ROM, agree on row length, bounds, resolution and pixel format.\<close>
theorem video_parameters_match_slot_rom:
  assumes "resolution_size (ReadMacInt32 (dmem v) (param + csDisplayModeID)) v = Some (w, h)" "0 \<le> w" "w \<le> 16384"
    and "Video_DepthForAppleMode (ucast (ReadMacInt16 (dmem v) (param + csDepthMode))) = depth" "0 \<le> depth"
    and "ReadMacInt32 (dmem v) (param + csVPBlockPtr) = vp" "vp \<noteq> 0"
    and "plain_block (dmem v) vp 42" "plain_block (dmem v) param 18"
    and "\<And>i j. i < 42 \<Longrightarrow> j < 18 \<Longrightarrow> vp + of_nat i \<noteq> param + of_nat j"
  shows "fst (GetVideoParameters param v) = noErr \<and>
    fetch (dmem (snd (GetVideoParameters param v))) vp 42 =
      take 42 (drop 4 (snd (VModeParms \<lparr>mac_frame_base = MacFrameBaseMac, bytes_per_row = 0, mon_x = word_of_int w, mon_y = word_of_int h,
                                         mon_mode = depth\<rparr> depth [])))"
proof -
  let ?v = "v\<lparr>dm_present := True\<rparr>"
  have rs: "resolution_size i ?v = resolution_size i v" for i by (simp add: resolution_size_def Video_SizeForResolutionID_def)
  have g: "GetVideoParameters param v = (noErr, write_vp_block param vp w h depth ?v)"
    unfolding GetVideoParameters_def Let_def assms(4,6) rs assms(1) using assms(5,7) by simp
  have "fetch (dmem (write_vp_block param vp w h depth ?v)) vp 42 = rom_parameters w h depth"
    by (rule write_vp_block_bytes) (use assms in simp_all)
  then show ?thesis by (simp add: g rom_parameters_def)
qed

text \<open>A request at 0x1000 for the current resolution with 16 bits, to be answered at 0x2000.\<close>

definition ask_ram :: "u32 \<Rightarrow> u8" where
  "ask_ram = (\<lambda>a. 0)(0x1005 := 0x84, 0x1008 := 0x20)"

lemma video_parameters_match_slot_rom_witness:
  "fetch (dmem (snd (GetVideoParameters 0x1000 ((started (1920, 1080))\<lparr>dmem := bare_mac\<lparr>ram := ask_ram\<rparr>\<rparr>)))) 0x2000 42 =
     take 42 (drop 4 (snd (VModeParms \<lparr>mac_frame_base = MacFrameBaseMac, bytes_per_row = 0, mon_x = 1152, mon_y = 870, mon_mode = 4\<rparr> 4 [])))"
proof -
  let ?v = "(started (1920, 1080))\<lparr>dmem := bare_mac\<lparr>ram := ask_ram\<rparr>\<rparr>"
  have r: "ReadMacInt16 (bare_mac\<lparr>ram := ask_ram\<rparr>) a = of_be16 (ask_ram a) (ask_ram (a + 1))"
    "ReadMacInt32 (bare_mac\<lparr>ram := ask_ram\<rparr>) a = of_be32 (ask_ram a) (ask_ram (a + 1)) (ask_ram (a + 2)) (ask_ram (a + 3))" for a
    by (simp_all add: ReadMacInt16_def ReadMacInt32_def read_handler_def is_mmio_addr_def FindMMIORegion_def bare_mac_def)
  have q: "ReadMacInt32 (dmem ?v) (0x1000 + csDisplayModeID) = 0" "ReadMacInt16 (dmem ?v) (0x1000 + csDepthMode) = 0x84"
    "ReadMacInt32 (dmem ?v) (0x1000 + csVPBlockPtr) = 0x2000"
    by (simp_all add: r) (simp_all add: ask_ram_def csDisplayModeID_def csDepthMode_def csVPBlockPtr_def of_be16_def of_be32_def)
  have sz: "resolution_size (ReadMacInt32 (dmem ?v) (0x1000 + csDisplayModeID)) ?v = Some (1152, 870)"
    unfolding q(1) by (simp add: resolution_size_def kDisplayModeIDCurrent_def started_monitor demo_monitor_def)
  have d: "Video_DepthForAppleMode (ucast (ReadMacInt16 (dmem ?v) (0x1000 + csDepthMode))) = 4"
    unfolding q(2) by (simp add: Video_DepthForAppleMode_def vmodes)
  have pl: "plain_block (dmem ?v) a n" if "a < 0x40000000" "n < 1000" for a n
    by (rule plain_bare) (use that in \<open>simp_all add: bare_mac_def\<close>)
  have dj: "(0x2000 :: u32) + of_nat i \<noteq> 0x1000 + of_nat j" if "i < 42" "j < 18" for i j
    by (rule apart [symmetric, of _ 18 _ 42]) (use that in simp_all)
  have pv: "plain_block (dmem ?v) 0x2000 42" "plain_block (dmem ?v) 0x1000 18" using pl by simp_all
  have "(0 :: int) \<le> 1152" "(1152 :: int) \<le> 16384" "(0 :: int) \<le> 4" "(0x2000 :: u32) \<noteq> 0" by simp_all
  from video_parameters_match_slot_rom [OF sz this(1,2) d this(3) q(3) this(4) pv dj] show ?thesis by simp
qed

text \<open>
  C7. When the host asks for a window size after the driver was opened and its three blocks were allocated, a size below 512
  by 384 is refused with paramErr and nothing changes. For any other size the control call the driver makes to itself answers
  noErr and the screen has that size, cut to the largest of the reservation, at the depth in use. This is shown for a driver whose
  record of the depth (the Apple mode) is that of the screen, which a warm reset that SDL refused breaks; outside a switch in
  progress; with the two blocks in plain guest memory and apart; and when SDL accepts every size at that depth.\<close>
theorem host_resize_reaches_screen:
  assumes "fst desktop \<le> 16384" "snd desktop \<le> 16384" "custom_id v0 = 0"
    and "(video_step os sdl)\<^sup>*\<^sup>* (VideoInit sdl False screen desktop v0) v"
    and "screen_ready v" "\<not> in_mode_switch v" "vdce v \<noteq> 0" "cntrl_pb v \<noteq> 0" "switch_info v \<noteq> 0"
    and "current_apple v = Video_AppleModeForDepth (mon_mode (VideoMonitor v))"
    and "plain_block (dmem v) (switch_info v) 12" "plain_block (dmem v) (cntrl_pb v) 32"
    and "\<And>i j. i < 12 \<Longrightarrow> j < 32 \<Longrightarrow> switch_info v + of_nat i \<noteq> cntrl_pb v + of_nat j"
    and "\<And>w h. sdl w h (host_depth_for_mode (mon_mode (VideoMonitor v)))"
  shows "if width < VIDEO_MIN_WIDTH \<or> height < VIDEO_MIN_HEIGHT
    then Video_GuestSwitchToSize os sdl width height v = Some (paramErr, v)
    else \<exists>v'. Video_GuestSwitchToSize os sdl width height v = Some (noErr, v') \<and> mon_mode (VideoMonitor v') = mon_mode (VideoMonitor v) \<and>
      sint (mon_x (VideoMonitor v')) = min width (max_width v) \<and> sint (mon_y (VideoMonitor v')) = min height (max_height v)"
proof (cases "width < VIDEO_MIN_WIDTH \<or> height < VIDEO_MIN_HEIGHT")
  case True
  then show ?thesis by (auto simp: Video_GuestSwitchToSize_def)
next
  case False
  note ok = reached_ok [OF assms(1-4)]
  have c: "clamp_mode_size width height v = (min width (max_width v), min height (max_height v))" using False by (simp add: clamp_mode_size_def)
  have wh: "VIDEO_MIN_WIDTH \<le> width" "VIDEO_MIN_HEIGHT \<le> height" using False by simp_all
  from guest_switch [OF ok(1,3) assms(5-10) wh assms(11-13) c, of sdl os] assms(14) False show ?thesis by (auto simp: shows_size_def)
qed

text \<open>A guest system that gives the three blocks out of low memory.\<close>

definition alloc_os :: mac_os where
  "alloc_os t d a m = (if d = SIZEOF_IOParam then 0x1000 else if d = 16 then 0x2000 else 0x3000, m)"

definition opened :: video where
  "opened = snd (VideoDriverOpen alloc_os 0x900 0x800 (started (1920, 1080)))"

lemma opened_state:
  "screen_ready opened" "\<not> in_mode_switch opened" "vdce opened = 0x800" "cntrl_pb opened = 0x1000" "switch_info opened = 0x2000"
  "current_apple opened = Video_AppleModeForDepth (mon_mode (VideoMonitor opened))"
  "regions (dmem opened) = []" "rom_base (dmem opened) = 0x40800000" "max_width opened = 1920" "max_height opened = 1080"
  by code_simp+

lemma host_resize_reaches_screen_witness:
  "\<exists>v'. Video_GuestSwitchToSize alloc_os any_mode 2000 700 opened = Some (noErr, v') \<and>
     (sint (mon_x (VideoMonitor v')), sint (mon_y (VideoMonitor v'))) = (1920, 700)"
proof -
  have st: "(video_step alloc_os any_mode)\<^sup>*\<^sup>* (VideoInit any_mode False None (1920, 1080) no_video) opened"
    unfolding opened_def started_def by (rule r_into_rtranclp) (rule open_call)
  have pl: "plain_block (dmem opened) 0x2000 12" "plain_block (dmem opened) 0x1000 32"
    by (rule plain_bare; simp add: opened_state)+
  have dj: "(0x2000 :: u32) + of_nat i \<noteq> 0x1000 + of_nat j" if "i < 12" "j < 32" for i j
    by (rule apart [symmetric, of _ 32 _ 12]) (use that in simp_all)
  have sz: "min 2000 (max_width opened) = 1920" "min 700 (max_height opened) = 700" "\<not> ((2000 :: int) < VIDEO_MIN_WIDTH \<or> (700 :: int) < VIDEO_MIN_HEIGHT)"
    by (simp_all add: opened_state video_sizes)
  have "if (2000 :: int) < VIDEO_MIN_WIDTH \<or> (700 :: int) < VIDEO_MIN_HEIGHT
    then Video_GuestSwitchToSize alloc_os any_mode 2000 700 opened = Some (paramErr, opened)
    else \<exists>v'. Video_GuestSwitchToSize alloc_os any_mode 2000 700 opened = Some (noErr, v') \<and> mon_mode (VideoMonitor v') = mon_mode (VideoMonitor opened) \<and>
      sint (mon_x (VideoMonitor v')) = min 2000 (max_width opened) \<and> sint (mon_y (VideoMonitor v')) = min 700 (max_height opened)"
    by (rule host_resize_reaches_screen [OF _ _ _ st opened_state(1,2) _ _ _ opened_state(6)])
      (use pl dj in \<open>simp_all add: opened_state no_video_def any_mode_def\<close>)
  then show ?thesis unfolding if_not_P [OF sz(3)] sz(1,2) by auto
qed

end
