(* ===== verification/Toolbox_Traps.thy ===== *)
theory Toolbox_Traps
  imports M68k Prefs
begin

section \<open>Hooks of the Toolbox\<close>

text \<open>
  \<open>toolbox_traps.cpp\<close> with the stack frames of \<open>include/toolbox_traps.h\<close>: the registry of
  hooked A-line traps, the trampolines in guest memory, their installation through the trap
  table of Mac OS, and the dispatcher the trampolines enter. \<open>'h\<close> names the C++ handlers (with
  their user data, which is NULL in the repository); calling one is an argument of the
  dispatcher. Mac OS answers through \<open>os\<close>. \<open>invalidated\<close> lists the code ranges the CPU engine is
  told to forget; \<open>pc\<close> is the program counter the engine reports.
\<close>

subsection \<open>Registers and stack frames\<close>

datatype toolbox_action = TOOLBOX_ACTION_PASSTHROUGH | TOOLBOX_ACTION_REPLACE | TOOLBOX_ACTION_POST_HOOK

record toolbox_args =
  arg_sp :: u32
  ret_addr :: u32
  arg_cursor :: u32

definition ToolboxArgs :: "m68k \<Rightarrow> mac \<Rightarrow> toolbox_args" where
  "ToolboxArgs r m = \<lparr>arg_sp = areg r 7, ret_addr = ReadMacInt32 m (areg r 7), arg_cursor = areg r 7 + 4\<rparr>"

definition PopInt8 :: "mac \<Rightarrow> toolbox_args \<Rightarrow> u8 \<times> toolbox_args" where
  "PopInt8 m args = (ucast (ReadMacInt8 m (arg_cursor args + 1)), args\<lparr>arg_cursor := arg_cursor args + 2\<rparr>)"

definition PopInt16 :: "mac \<Rightarrow> toolbox_args \<Rightarrow> u16 \<times> toolbox_args" where
  "PopInt16 m args = (ucast (ReadMacInt16 m (arg_cursor args)), args\<lparr>arg_cursor := arg_cursor args + 2\<rparr>)"

definition PopInt32 :: "mac \<Rightarrow> toolbox_args \<Rightarrow> u32 \<times> toolbox_args" where
  "PopInt32 m args = (ReadMacInt32 m (arg_cursor args), args\<lparr>arg_cursor := arg_cursor args + 4\<rparr>)"

definition ReadPascalString :: "mac \<Rightarrow> u32 \<Rightarrow> u8 list" where
  "ReadPascalString m addr =
     (if addr = 0 then []
      else map (\<lambda>i. ucast (ReadMacInt8 m (addr + 1 + of_nat i))) [0..<unat (ucast (ReadMacInt8 m addr) :: u8)])"

definition SetResultInt16 :: "u32 \<Rightarrow> u16 \<Rightarrow> toolbox_args \<Rightarrow> mac \<Rightarrow> mac" where
  "SetResultInt16 arg_bytes v args m = WriteMacInt16 (arg_sp args + 4 + arg_bytes) (ucast v) m"

definition SetResultInt32 :: "u32 \<Rightarrow> u32 \<Rightarrow> toolbox_args \<Rightarrow> mac \<Rightarrow> mac" where
  "SetResultInt32 arg_bytes v args m = WriteMacInt32 (arg_sp args + 4 + arg_bytes) v m"

definition Return :: "u32 \<Rightarrow> toolbox_args \<Rightarrow> m68k \<Rightarrow> toolbox_action \<times> m68k" where
  "Return param_bytes args r =
     (TOOLBOX_ACTION_REPLACE, set_areg 1 (arg_sp args + 4 + param_bytes) (set_areg 0 (ret_addr args) r))"

subsection \<open>The registry\<close>

definition MAX_TOOLBOX_TRAPS :: nat where "MAX_TOOLBOX_TRAPS = 128"
definition TRAMPOLINE_SIZE :: u32 where "TRAMPOLINE_SIZE = 12"
definition OP_MOVE_L_A1_A7 :: u32 where "OP_MOVE_L_A1_A7 = 0x2e49"
definition OP_JMP_A0 :: u32 where "OP_JMP_A0 = 0x4ed0"
definition M68K_EMUL_OP_TOOLBOX_DISPATCH :: u32 where "M68K_EMUL_OP_TOOLBOX_DISPATCH = 0x7130"

lemmas trampoline_words = TRAMPOLINE_SIZE_def OP_MOVE_L_A1_A7_def OP_JMP_A0_def M68K_EMUL_OP_TOOLBOX_DISPATCH_def

record 'h trap_desc =
  trap_num :: u16
  trap_name :: string
  handler :: "'h option"
  stub_addr :: u32
  original_addr :: u32
  is_installed :: bool

record 'h toolbox = env +
  tb_prefs :: prefs
  trap_table :: "'h trap_desc list"
  stub_pool_base :: u32
  stub_pool_cursor :: u32
  traps_installed :: bool
  invalidated :: "(u32 \<times> u32) list"

definition ToolboxTrap_HooksEnabled :: "('h, 'a) toolbox_scheme \<Rightarrow> bool" where
  "ToolboxTrap_HooksEnabled s = PrefsFindBool ''toolbox_hooks'' (tb_prefs s)"

definition find_trap_desc :: "u16 \<Rightarrow> ('h, 'a) toolbox_scheme \<Rightarrow> nat option" where
  "find_trap_desc n s = find_index (\<lambda>d. trap_num d = n) (trap_table s)"

definition trap_label :: "string option \<Rightarrow> string" where
  "trap_label name = (case name of None \<Rightarrow> ''UnknownTrap'' | Some nm \<Rightarrow> nm)"

definition ToolboxTrap_Register :: "u16 \<Rightarrow> string option \<Rightarrow> 'h option \<Rightarrow> ('h, 'a) toolbox_scheme \<Rightarrow> bool \<times> ('h, 'a) toolbox_scheme" where
  "ToolboxTrap_Register n name h s =
     (if \<not> ToolboxTrap_HooksEnabled s then (False, s)
      else if h = None \<or> n AND 0xf000 \<noteq> 0xa000 then (False, s)
      else (case find_trap_desc n s of
              Some i \<Rightarrow> (True, s\<lparr>trap_table := (trap_table s)[i := (trap_table s ! i)\<lparr>trap_name := trap_label name, handler := h\<rparr>]\<rparr>)
            | None \<Rightarrow>
                if length (trap_table s) \<ge> MAX_TOOLBOX_TRAPS then (False, s)
                else (True, s\<lparr>trap_table := trap_table s @
                       [\<lparr>trap_num = n, trap_name = trap_label name, handler = h, stub_addr = 0, original_addr = 0, is_installed = False\<rparr>]\<rparr>)))"

subsection \<open>The trap table of Mac OS\<close>

definition is_tool_trap :: "u16 \<Rightarrow> bool" where
  "is_tool_trap n \<longleftrightarrow> n AND 0x0800 \<noteq> 0"

definition get_trap_word :: "u16 \<Rightarrow> u16" where
  "get_trap_word n = (if is_tool_trap n then 0xa746 else 0xa346)"

definition set_trap_word :: "u16 \<Rightarrow> u16" where
  "set_trap_word n = (if is_tool_trap n then 0xa647 else 0xa247)"

definition get_trap_address :: "mac_os \<Rightarrow> u16 \<Rightarrow> ('h, 'a) toolbox_scheme \<Rightarrow> u32 \<times> ('h, 'a) toolbox_scheme" where
  "get_trap_address os n s = Execute68kTrap os (get_trap_word n) (ucast n) 0 s"

definition set_trap_address :: "mac_os \<Rightarrow> u16 \<Rightarrow> u32 \<Rightarrow> ('h, 'a) toolbox_scheme \<Rightarrow> ('h, 'a) toolbox_scheme" where
  "set_trap_address os n a s = snd (Execute68kTrap os (set_trap_word n) (ucast n) a s)"

definition ToolboxTrap_Unregister :: "mac_os \<Rightarrow> u16 \<Rightarrow> ('h, 'a) toolbox_scheme \<Rightarrow> bool \<times> ('h, 'a) toolbox_scheme" where
  "ToolboxTrap_Unregister os n s =
     (case find_trap_desc n s of
        None \<Rightarrow> (False, s)
      | Some i \<Rightarrow>
          (let d = trap_table s ! i;
               s1 = (if is_installed d \<and> original_addr d \<noteq> 0 then set_trap_address os (trap_num d) (original_addr d) s else s)
           in (True, s1\<lparr>trap_table := take i (trap_table s1) @ drop (Suc i) (trap_table s1)\<rparr>)))"

subsection \<open>Trampolines\<close>

definition ToolboxTrap_SetStubPool :: "u32 \<Rightarrow> ('h, 'a) toolbox_scheme \<Rightarrow> ('h, 'a) toolbox_scheme" where
  "ToolboxTrap_SetStubPool base s = s\<lparr>stub_pool_base := base, stub_pool_cursor := base\<rparr>"

definition ToolboxTrap_WriteTrampoline :: "u32 \<Rightarrow> u16 \<Rightarrow> u32 \<Rightarrow> ('h, 'a) toolbox_scheme \<Rightarrow> ('h, 'a) toolbox_scheme" where
  "ToolboxTrap_WriteTrampoline addr n orig s =
     (let s1 = wr32 (addr + 8) orig
                 (wr16 (addr + 6) (ucast n)
                   (wr16 (addr + 4) OP_JMP_A0
                     (wr16 (addr + 2) OP_MOVE_L_A1_A7
                       (wr16 addr M68K_EMUL_OP_TOOLBOX_DISPATCH s))));
          s2 = s1\<lparr>invalidated := invalidated s1 @ [(addr, TRAMPOLINE_SIZE)]\<rparr>
      in if addr + TRAMPOLINE_SIZE > stub_pool_cursor s2 then s2\<lparr>stub_pool_cursor := addr + TRAMPOLINE_SIZE\<rparr> else s2)"

definition alloc_stub_slot :: "('h, 'a) toolbox_scheme \<Rightarrow> u32 \<times> ('h, 'a) toolbox_scheme" where
  "alloc_stub_slot s =
     (let limit = stub_pool_base s + of_nat MAX_TOOLBOX_TRAPS * TRAMPOLINE_SIZE
      in if stub_pool_base s = 0 \<or> stub_pool_cursor s + TRAMPOLINE_SIZE > limit then (0, s)
         else (stub_pool_cursor s, s\<lparr>stub_pool_cursor := stub_pool_cursor s + TRAMPOLINE_SIZE\<rparr>))"

fun still_ours :: "mac_os \<Rightarrow> 'h trap_desc list \<Rightarrow> ('h, 'a) toolbox_scheme \<Rightarrow> bool \<times> ('h, 'a) toolbox_scheme" where
  "still_ours os [] s = (False, s)"
| "still_ours os (d # ds) s =
     (if \<not> is_installed d \<or> stub_addr d = 0 then still_ours os ds s
      else (let (a, s1) = get_trap_address os (trap_num d) s
            in if a \<noteq> stub_addr d then still_ours os ds s1
               else if ReadMacInt16 (dmem s1) (stub_addr d) = M68K_EMUL_OP_TOOLBOX_DISPATCH \<and>
                       ReadMacInt16 (dmem s1) (stub_addr d + 6) = ucast (trap_num d)
               then (True, s1)
               else still_ours os ds s1))"

definition trap_table_still_ours :: "mac_os \<Rightarrow> ('h, 'a) toolbox_scheme \<Rightarrow> bool \<times> ('h, 'a) toolbox_scheme" where
  "trap_table_still_ours os s = still_ours os (trap_table s) s"

definition forget_previous_installation :: "('h, 'a) toolbox_scheme \<Rightarrow> ('h, 'a) toolbox_scheme" where
  "forget_previous_installation s =
     (ToolboxTrap_SetStubPool 0 s)
       \<lparr>trap_table := map (\<lambda>d. d\<lparr>stub_addr := 0, original_addr := 0, is_installed := False\<rparr>) (trap_table s),
        traps_installed := False\<rparr>"

fun install_loop :: "mac_os \<Rightarrow> 'h trap_desc list \<Rightarrow> ('h, 'a) toolbox_scheme \<Rightarrow> 'h trap_desc list \<times> ('h, 'a) toolbox_scheme" where
  "install_loop os [] s = ([], s)"
| "install_loop os (d # ds) s =
     (if is_installed d then (let (ds', s') = install_loop os ds s in (d # ds', s'))
      else (let (orig, s1) = get_trap_address os (trap_num d) s;
                (slot, s2) = alloc_stub_slot s1;
                d2 = d\<lparr>original_addr := orig, stub_addr := slot\<rparr>
            in if slot = 0 then (d2 # ds, s2)
               else (let s3 = ToolboxTrap_WriteTrampoline slot (trap_num d) orig s2;
                         s4 = set_trap_address os (trap_num d) slot s3;
                         (ds', s') = install_loop os ds s4
                     in (d2\<lparr>is_installed := True\<rparr> # ds', s'))))"

definition install_hooks :: "mac_os \<Rightarrow> ('h, 'a) toolbox_scheme \<Rightarrow> ('h, 'a) toolbox_scheme" where
  "install_hooks os s =
     (let (unimplemented, s1) = get_trap_address os 0xa89f s;
          (ds, s2) = install_loop os (trap_table s1) s1
      in s2\<lparr>trap_table := ds, traps_installed := True\<rparr>)"

definition ToolboxTrap_InstallAll :: "mac_os \<Rightarrow> ('h, 'a) toolbox_scheme \<Rightarrow> ('h, 'a) toolbox_scheme" where
  "ToolboxTrap_InstallAll os s =
     (if \<not> ToolboxTrap_HooksEnabled s \<or> trap_table s = [] then s
      else (let (ours, s1) = (if traps_installed s then trap_table_still_ours os s else (False, s))
            in if ours then s1
               else (let s2 = (if traps_installed s then forget_previous_installation s1 else s1);
                         s3 = (if stub_pool_base s2 = 0
                               then (let (p, s') = Execute68kTrap os 0xa71e (of_nat MAX_TOOLBOX_TRAPS * TRAMPOLINE_SIZE) 0 s2
                                     in ToolboxTrap_SetStubPool p s')
                               else s2)
                     in if stub_pool_base s3 = 0 then s3 else install_hooks os s3)))"

subsection \<open>Dispatch\<close>

definition stub_addr_from_pc :: "u32 \<Rightarrow> ('h, 'a) toolbox_scheme \<Rightarrow> u32" where
  "stub_addr_from_pc pc s =
     (if stub_pool_base s = 0 \<or> pc < stub_pool_base s \<or> pc \<ge> stub_pool_cursor s then 0
      else (let index = (pc - stub_pool_base s) div TRAMPOLINE_SIZE in stub_pool_base s + index * TRAMPOLINE_SIZE))"

type_synonym ('h, 's) call_handler = "'h \<Rightarrow> u16 \<Rightarrow> m68k \<Rightarrow> u32 \<Rightarrow> 's \<Rightarrow> toolbox_action \<times> m68k \<times> 's"

definition pass_through :: "u32 \<Rightarrow> m68k \<Rightarrow> m68k" where
  "pass_through orig r = (let r1 = set_areg 0 orig r in set_areg 1 (areg r1 7) r1)"

definition ToolboxTrap_Dispatch ::
    "('h, ('h, 'a) toolbox_scheme) call_handler \<Rightarrow> u32 \<Rightarrow> m68k \<Rightarrow> ('h, 'a) toolbox_scheme \<Rightarrow> m68k \<times> ('h, 'a) toolbox_scheme" where
  "ToolboxTrap_Dispatch call pc r s =
     (let stub = stub_addr_from_pc pc s
      in if stub = 0 then (r, s)
         else (let n = ucast (ReadMacInt16 (dmem s) (stub + 6)); orig = ReadMacInt32 (dmem s) (stub + 8); r1 = pass_through orig r
               in (case Option.bind (find_trap_desc n s) (\<lambda>i. handler (trap_table s ! i)) of
                     None \<Rightarrow> (r1, s)
                   | Some h \<Rightarrow>
                       (let (action, r2, s2) = call h n r1 orig s
                        in if action = TOOLBOX_ACTION_PASSTHROUGH then (pass_through orig r2, s2) else (r2, s2)))))"

end
