(* ===== verification/Toolbox_Menu.thy ===== *)
theory Toolbox_Menu
  imports Toolbox_Traps
begin

section \<open>The guest's menu bar\<close>

text \<open>
  \<open>toolbox_menu.cpp\<close>: decoding the menu list of the guest, the hooks on the Menu Manager and
  the way a choice made on the host reaches the application. \<open>char\<close> and \<open>int16\<close> values are words,
  read with \<open>sint\<close> where the code compares them. A choice (\<open>s_pending_menu_result\<close>) is an
  \<open>int32\<close>; -1 stands for none. \<open>menu_syncs\<close> counts the calls of the host's callback. The item
  loop ends at the latest 4096 bytes behind the menu record, which \<open>ITEM_ROUNDS\<close> rounds reach
  (\<open>decode_items_rounds\<close>) for every record below \<open>0xffff0000\<close>.
\<close>

definition LM_MenuList :: u32 where "LM_MenuList = 0x0a1c"
definition LM_Ticks :: u32 where "LM_Ticks = 0x016a"
definition kMenuHierCmd :: u8 where "kMenuHierCmd = 27"
definition kMenuEventH :: u32 where "kMenuEventH = 20"
definition kMenuEventV :: u32 where "kMenuEventV = 8"
definition kMenuResultTimeout :: nat where "kMenuResultTimeout = 300"
definition kEvt_What :: u32 where "kEvt_What = 0"
definition kEvt_Message :: u32 where "kEvt_Message = 2"
definition kEvt_When :: u32 where "kEvt_When = 6"
definition kEvt_WhereV :: u32 where "kEvt_WhereV = 10"
definition kEvt_WhereH :: u32 where "kEvt_WhereH = 12"
definition kEvt_Modifiers :: u32 where "kEvt_Modifiers = 14"
definition kEvent_Null :: u32 where "kEvent_Null = 0"
definition kEvent_MouseDown :: u32 where "kEvent_MouseDown = 1"

lemmas event_record = kEvt_What_def kEvt_Message_def kEvt_When_def kEvt_WhereV_def kEvt_WhereH_def kEvt_Modifiers_def
  kEvent_Null_def kEvent_MouseDown_def kMenuEventH_def kMenuEventV_def

datatype toolbox_handler = HookMenuState | HookMenuSelect | HookOther nat

record menu_state = "toolbox_handler toolbox" +
  RAMSize :: u32
  menu_bar_sync_pending :: bool
  pending_menu_result :: u32
  pending_menu_timeout :: nat
  menu_event_posted :: bool
  have_last :: bool
  last_fingerprint :: u32
  announced :: bool
  announced_empty :: bool
  menu_sync_callback :: bool
  menu_syncs :: nat

subsection \<open>Decoding\<close>

record menu_item =
  item_text :: "u8 list"
  item_cmd :: u8
  item_mark :: u8
  is_separator :: bool
  is_submenu :: bool
  item_enabled :: bool
  item_menu :: u16
  item_index :: u16

record menu_snapshot =
  menu_id :: u16
  menu_title :: "u8 list"
  menu_enabled :: bool
  menu_items :: "menu_item list"

definition in_ram :: "u32 \<Rightarrow> menu_state \<Rightarrow> bool" where
  "in_ram a s \<longleftrightarrow> \<not> a < 0x1000 \<and> a < RAMSize s"

definition read_item :: "mac \<Rightarrow> u32 \<Rightarrow> bool \<Rightarrow> u16 \<Rightarrow> u32 \<Rightarrow> u16 \<Rightarrow> menu_item" where
  "read_item m flags enabled ident cursor index =
     (let len = (ucast (ReadMacInt8 m cursor) :: u8);
          txt = map (\<lambda>k. ucast (ReadMacInt8 m (cursor + 1 + of_nat k))) [0..<unat len];
          meta = cursor + 1 + ucast len;
          cmd = ucast (ReadMacInt8 m (meta + 1))
      in \<lparr>item_text = txt, item_cmd = cmd, item_mark = ucast (ReadMacInt8 m (meta + 2)), is_separator = (txt = [0x2d]),
          is_submenu = (cmd = kMenuHierCmd),
          item_enabled = (if sint index \<le> 31 then enabled \<and> bit flags (unat index) else enabled),
          item_menu = ident, item_index = index\<rparr>)"

definition ITEM_ROUNDS :: nat where "ITEM_ROUNDS = 700"

fun decode_items :: "nat \<Rightarrow> mac \<Rightarrow> u32 \<Rightarrow> u32 \<Rightarrow> bool \<Rightarrow> u16 \<Rightarrow> u32 \<Rightarrow> u16 \<Rightarrow> menu_item list" where
  "decode_items 0 m info flags enabled ident cursor index = []"
| "decode_items (Suc rounds) m info flags enabled ident cursor index =
     (if \<not> cursor < info + 4096 then []
      else (let len = (ucast (ReadMacInt8 m cursor) :: u8)
            in if len = 0 then []
               else read_item m flags enabled ident cursor index #
                    decode_items rounds m info flags enabled ident (cursor + 1 + ucast len + 4) (index + 1)))"

definition decode_menu :: "mac \<Rightarrow> u32 \<Rightarrow> menu_snapshot" where
  "decode_menu m info =
     (let ident = ucast (ReadMacInt16 m info); flags = ReadMacInt32 m (info + 10); enabled = flags AND 1 \<noteq> 0;
          title_addr = info + 14; raw = ReadPascalString m title_addr; len = (ucast (ReadMacInt8 m title_addr) :: u8)
      in \<lparr>menu_id = ident, menu_title = (if raw = [0x14] then [0xef, 0xa3, 0xbf] else raw), menu_enabled = enabled,
          menu_items = decode_items ITEM_ROUNDS m info flags enabled ident (title_addr + 1 + ucast len) 1\<rparr>)"

definition menu_entry :: "menu_state \<Rightarrow> u32 \<Rightarrow> menu_snapshot option" where
  "menu_entry s a =
     (let menu_handle = ReadMacInt32 (dmem s) a
      in if \<not> in_ram menu_handle s then None
         else (let info = ReadMacInt32 (dmem s) menu_handle
               in if \<not> in_ram info s then None else Some (decode_menu (dmem s) info)))"

definition list_offsets :: "int \<Rightarrow> u32 list" where
  "list_offsets total_bytes = map (\<lambda>i. of_nat (6 * Suc i)) [0..<nat ((total_bytes - 1) div 6)]"

definition Toolbox_SnapshotMenuBar :: "menu_state \<Rightarrow> menu_snapshot list" where
  "Toolbox_SnapshotMenuBar s =
     (if \<not> ToolboxTrap_HooksEnabled s then []
      else (let menu_list_handle = ReadMacInt32 (dmem s) LM_MenuList
            in if \<not> in_ram menu_list_handle s then []
               else (let list_ptr = ReadMacInt32 (dmem s) menu_list_handle
                     in if \<not> in_ram list_ptr s then []
                        else (let total_bytes = sint (ucast (ReadMacInt16 (dmem s) list_ptr) :: u16)
                              in if total_bytes \<le> 6 \<or> 4096 < total_bytes then []
                                 else List.map_filter (\<lambda>off. menu_entry s (list_ptr + off)) (list_offsets total_bytes)))))"

definition lookup_menu_item :: "u16 \<Rightarrow> u16 \<Rightarrow> menu_state \<Rightarrow> menu_item option" where
  "lookup_menu_item menuID itemIndex s =
     (if sint menuID \<le> 0 \<or> sint itemIndex \<le> 0 then None
      else (case find (\<lambda>g. menu_id g = menuID) (Toolbox_SnapshotMenuBar s) of
              None \<Rightarrow> None
            | Some g \<Rightarrow> find (\<lambda>it. item_index it = itemIndex) (menu_items g)))"

subsection \<open>The choice made on the host\<close>

definition Handle_MenuSelect :: "m68k \<Rightarrow> menu_state \<Rightarrow> toolbox_action \<times> m68k \<times> menu_state" where
  "Handle_MenuSelect r s =
     (if sint (pending_menu_result s) < 0 then (TOOLBOX_ACTION_PASSTHROUGH, r, s)
      else (let result = pending_menu_result s;
                s1 = s\<lparr>pending_menu_result := - 1, pending_menu_timeout := 0, menu_event_posted := False\<rparr>;
                args = ToolboxArgs r (dmem s1);
                s2 = s1\<lparr>dmem := SetResultInt32 4 result args (dmem s1)\<rparr>;
                (action, r1) = Return 4 args r
            in (action, r1, s2)))"

definition Toolbox_MenuSafePoint :: "u32 \<Rightarrow> u32 \<Rightarrow> menu_state \<Rightarrow> bool \<times> menu_state" where
  "Toolbox_MenuSafePoint ev result_addr s =
     (if sint (pending_menu_result s) < 0 \<or> menu_event_posted s then (False, s)
      else if \<not> in_ram ev s then (False, s)
      else if \<not> in_ram result_addr s then (False, s)
      else if ReadMacInt16 (dmem s) (ev + kEvt_What) \<noteq> kEvent_Null then (False, s)
      else (let ident = ucast (drop_bit 16 (pending_menu_result s)); index = ucast (pending_menu_result s AND 0xffff)
            in if lookup_menu_item ident index s = None then (False, s)
               else (let m1 = WriteMacInt32 (ev + kEvt_Message) 0 (WriteMacInt16 (ev + kEvt_What) kEvent_MouseDown (dmem s));
                         m2 = WriteMacInt16 (ev + kEvt_WhereH) kMenuEventH
                                (WriteMacInt16 (ev + kEvt_WhereV) kMenuEventV
                                  (WriteMacInt32 (ev + kEvt_When) (ReadMacInt32 m1 LM_Ticks) m1));
                         m3 = WriteMacInt8 result_addr 1 (WriteMacInt16 (ev + kEvt_Modifiers) 0 m2)
                     in (True, s\<lparr>dmem := m3, menu_event_posted := True\<rparr>))))"

definition tick_pending_menu :: "menu_state \<Rightarrow> menu_state" where
  "tick_pending_menu s =
     (if pending_menu_timeout s > 0
      then (let s1 = s\<lparr>pending_menu_timeout := pending_menu_timeout s - 1\<rparr>
            in if pending_menu_timeout s1 = 0 \<and> \<not> sint (pending_menu_result s1) < 0
               then s1\<lparr>pending_menu_result := - 1, menu_event_posted := False\<rparr> else s1)
      else s)"

definition Toolbox_DispatchGuestMenuSelect :: "u16 \<Rightarrow> u16 \<Rightarrow> menu_state \<Rightarrow> bool \<times> menu_state" where
  "Toolbox_DispatchGuestMenuSelect menuID itemIndex s =
     (if \<not> ToolboxTrap_HooksEnabled s then (False, s)
      else (case lookup_menu_item menuID itemIndex s of
              None \<Rightarrow> (False, s)
            | Some it \<Rightarrow>
                if is_submenu it then (False, s)
                else (True, s\<lparr>pending_menu_result := push_bit 16 (ucast menuID) OR ucast itemIndex,
                              pending_menu_timeout := kMenuResultTimeout, menu_event_posted := False\<rparr>)))"

subsection \<open>Noticing a change\<close>

definition Toolbox_RequestMenuBarSync :: "menu_state \<Rightarrow> menu_state" where
  "Toolbox_RequestMenuBarSync s = s\<lparr>menu_bar_sync_pending := True\<rparr>"

definition Toolbox_SetMenuBarSyncCallback :: "bool \<Rightarrow> menu_state \<Rightarrow> menu_state" where
  "Toolbox_SetMenuBarSyncCallback present s = s\<lparr>menu_sync_callback := present\<rparr>"

definition menu_list_fingerprint :: "menu_state \<Rightarrow> u32" where
  "menu_list_fingerprint s =
     (let hnd = ReadMacInt32 (dmem s) LM_MenuList
      in if \<not> in_ram hnd s then hnd
         else (let list_ptr = ReadMacInt32 (dmem s) hnd
               in if \<not> in_ram list_ptr s then hnd
                  else (let bytes = (ucast (ReadMacInt16 (dmem s) list_ptr) :: u16);
                            f = (hnd * 31 + list_ptr) * 31 + ucast bytes
                        in if 6 < sint bytes \<and> sint bytes \<le> 4096
                           then foldl (\<lambda>f off. f * 31 + ReadMacInt32 (dmem s) (list_ptr + off)) f (list_offsets (sint bytes))
                           else f)))"

definition poll_menu_list :: "menu_state \<Rightarrow> menu_state" where
  "poll_menu_list s =
     (let f = menu_list_fingerprint s
      in if have_last s \<and> f = last_fingerprint s then s
         else (let first = \<not> have_last s; s1 = s\<lparr>have_last := True, last_fingerprint := f\<rparr>
               in if \<not> first then s1\<lparr>menu_bar_sync_pending := True\<rparr> else s1))"

definition announce_menus :: "menu_state \<Rightarrow> menu_state" where
  "announce_menus s =
     (if announced s then s
      else if Toolbox_SnapshotMenuBar s \<noteq> [] then s\<lparr>announced := True\<rparr>
      else if \<not> announced_empty s then s\<lparr>announced_empty := True\<rparr>
      else s)"

definition Toolbox_ProcessPendingMenuBarSync :: "menu_state \<Rightarrow> menu_state" where
  "Toolbox_ProcessPendingMenuBarSync s =
     (if \<not> ToolboxTrap_HooksEnabled s then s
      else (let s1 = poll_menu_list (tick_pending_menu s)
            in if \<not> menu_bar_sync_pending s1 then s1
               else (let s2 = announce_menus (s1\<lparr>menu_bar_sync_pending := False\<rparr>)
                     in if menu_sync_callback s2 then s2\<lparr>menu_syncs := menu_syncs s2 + 1\<rparr> else s2)))"

subsection \<open>Hooks\<close>

definition Handle_MenuStateChange :: "m68k \<Rightarrow> menu_state \<Rightarrow> toolbox_action \<times> m68k \<times> menu_state" where
  "Handle_MenuStateChange r s = (TOOLBOX_ACTION_PASSTHROUGH, r, Toolbox_RequestMenuBarSync s)"

definition menu_call ::
    "(nat \<Rightarrow> u16 \<Rightarrow> m68k \<Rightarrow> u32 \<Rightarrow> menu_state \<Rightarrow> toolbox_action \<times> m68k \<times> menu_state) \<Rightarrow> (toolbox_handler, menu_state) call_handler" where
  "menu_call other h n r orig s =
     (case h of
        HookMenuState \<Rightarrow> Handle_MenuStateChange r s
      | HookMenuSelect \<Rightarrow> Handle_MenuSelect r s
      | HookOther i \<Rightarrow> other i n r orig s)"

definition menu_hooks :: "(u16 \<times> string \<times> toolbox_handler) list" where
  "menu_hooks =
     [(0xa930, ''_InitMenus'', HookMenuState), (0xa933, ''_AppendMenu'', HookMenuState),
      (0xa934, ''_ClearMenuBar'', HookMenuState), (0xa935, ''_InsertMenu'', HookMenuState),
      (0xa936, ''_DeleteMenu'', HookMenuState), (0xa937, ''_DrawMenuBar'', HookMenuState),
      (0xa93c, ''_SetMenuBar'', HookMenuState), (0xa81d, ''_InvalMenuBar'', HookMenuState),
      (0xa826, ''_InsertMenuItem'', HookMenuState), (0xa827, ''_DeleteMenuItem'', HookMenuState),
      (0xa93d, ''_MenuSelect'', HookMenuSelect)]"

definition ToolboxMenu_RegisterTraps :: "menu_state \<Rightarrow> menu_state" where
  "ToolboxMenu_RegisterTraps s =
     (if \<not> ToolboxTrap_HooksEnabled s then s
      else foldl (\<lambda>s (n, name, h). snd (ToolboxTrap_Register n (Some name) (Some h) s)) s menu_hooks)"

end
