(* ===== verification/Toolbox_Facts.thy ===== *)
theory Toolbox_Facts
  imports Toolbox_Traps Mac_Blocks
begin

section \<open>Installing hooks\<close>

text \<open>
  What \<open>ToolboxTrap_InstallAll\<close> leaves in guest memory and in the registry. Mac OS is described
  by \<open>trap_manager\<close>: its trap table is a function \<open>tbl\<close> of the memory at the addresses \<open>T\<close>, read
  by \<open>_GetToolTrapAddress\<close>/\<open>_GetOSTrapAddress\<close> and changed at one slot by
  \<open>_SetToolTrap\<close>/\<open>_SetOSTrapAddress\<close>. A trap number selects its slot by bit 11 and its low ten
  (Toolbox) or eight (OS) bits.
\<close>

declare dmem_wr [simp]

subsection \<open>The Trap Manager\<close>

definition trap_slot :: "u16 \<Rightarrow> bool \<times> u16" where
  "trap_slot n = (is_tool_trap n, n AND (if is_tool_trap n then 0x3ff else 0xff))"

definition same_routing :: "mac \<Rightarrow> mac \<Rightarrow> bool" where
  "same_routing m m' \<longleftrightarrow> regions m = regions m' \<and> rom_base m = rom_base m' \<and> rom_size m = rom_size m'"

definition trap_manager :: "mac_os \<Rightarrow> (mac \<Rightarrow> u16 \<Rightarrow> u32) \<Rightarrow> u32 set \<Rightarrow> bool" where
  "trap_manager os tbl T \<longleftrightarrow>
     (\<forall>m n. os (get_trap_word n) (ucast n) 0 m = (tbl m n, m)) \<and>
     (\<forall>m n a. (\<forall>k. tbl (snd (os (set_trap_word n) (ucast n) a m)) k = (if trap_slot k = trap_slot n then a else tbl m k)) \<and>
              same_routing (snd (os (set_trap_word n) (ucast n) a m)) m \<and>
              (\<forall>x. x \<notin> T \<longrightarrow> ram (snd (os (set_trap_word n) (ucast n) a m)) x = ram m x)) \<and>
     (\<forall>m m'. (\<forall>x \<in> T. ram m x = ram m' x) \<longrightarrow> tbl m = tbl m')"

text \<open>\<open>NewPtrSysClear\<close> hands out a block of the system heap, which is ordinary memory.\<close>

definition pool_at :: "u32 set \<Rightarrow> mac \<Rightarrow> u32 \<Rightarrow> bool" where
  "pool_at T m p \<longleftrightarrow> p \<noteq> 0 \<and> unat p + 1536 < 2 ^ 32 \<and> plain_block m p 1536 \<and> (\<forall>i < 1536. p + of_nat i \<notin> T)"

definition system_heap :: "mac_os \<Rightarrow> (mac \<Rightarrow> u16 \<Rightarrow> u32) \<Rightarrow> u32 set \<Rightarrow> mac \<Rightarrow> u32 \<Rightarrow> bool" where
  "system_heap os tbl T m p \<longleftrightarrow>
     fst (os 0xa71e 1536 0 m) = p \<and> pool_at T m p \<and> same_routing (snd (os 0xa71e 1536 0 m)) m \<and>
     tbl (snd (os 0xa71e 1536 0 m)) = tbl m"

lemma trap_managerD:
  assumes "trap_manager os tbl T"
  shows "os (get_trap_word n) (ucast n) 0 m = (tbl m n, m)"
    "tbl (snd (os (set_trap_word n) (ucast n) a m)) k = (if trap_slot k = trap_slot n then a else tbl m k)"
    "same_routing (snd (os (set_trap_word n) (ucast n) a m)) m"
    "x \<notin> T \<Longrightarrow> ram (snd (os (set_trap_word n) (ucast n) a m)) x = ram m x"
  using assms unfolding trap_manager_def by blast+

lemma tbl_cong: "trap_manager os tbl T \<Longrightarrow> (\<And>x. x \<in> T \<Longrightarrow> ram m x = ram m' x) \<Longrightarrow> tbl m = tbl m'"
  unfolding trap_manager_def by blast

lemma same_routing_trans: "same_routing a b \<Longrightarrow> same_routing b c \<Longrightarrow> same_routing a c"
  by (simp add: same_routing_def)

lemma same_routing_plain:
  "same_routing m m' \<Longrightarrow> plain m a = plain m' a" "same_routing m m' \<Longrightarrow> plain_block m a n = plain_block m' a n"
proof -
  have p: "same_routing m m' \<Longrightarrow> plain m a = plain m' a" for a by (rule routing_cong) (simp_all add: same_routing_def)
  show "same_routing m m' \<Longrightarrow> plain m a = plain m' a" "same_routing m m' \<Longrightarrow> plain_block m a n = plain_block m' a n"
    using p by (simp_all add: plain_block_def)
qed

lemma same_routing_store: "same_routing (store a bs m) m" "same_routing m m"
  by (simp_all add: same_routing_def)

lemma get_trap_result:
  assumes "trap_manager os tbl T"
  shows "get_trap_address os n s = (tbl (dmem s) n, s\<lparr>traps := traps s @ [(get_trap_word n, ucast n, 0)]\<rparr>)"
  by (simp add: get_trap_address_def Execute68kTrap_def trap_managerD(1) [OF assms])

subsection \<open>A trampoline\<close>

definition trampoline :: "u16 \<Rightarrow> u32 \<Rightarrow> u8 list" where
  "trampoline n orig = be16 0x7130 @ be16 0x2e49 @ be16 0x4ed0 @ be16 n @ be32 orig"

lemma length_trampoline [simp]: "length (trampoline n orig) = 12"
  by (simp add: trampoline_def)

lemma trampoline_written:
  assumes "plain_block (dmem s) a 12"
  shows "dmem (ToolboxTrap_WriteTrampoline a n orig s) = store a (trampoline n orig) (dmem s)"
proof -
  have p: "plain (dmem s) a" "plain (dmem s) (a + 2)" "plain (dmem s) (a + 4)" "plain (dmem s) (a + 6)" "plain (dmem s) (a + 8)"
    using plain_blockD [OF assms, of 0] plain_blockD [OF assms, of 2] plain_blockD [OF assms, of 4]
      plain_blockD [OF assms, of 6] plain_blockD [OF assms, of 8] by simp_all
  have u: "(ucast (ucast n :: u32) :: u16) = n" by (rule bit_word_eqI) (auto simp: bit_simps)
  show ?thesis
    by (simp add: ToolboxTrap_WriteTrampoline_def Let_def write_stores p u trampoline_words del: store.simps)
      (simp add: trampoline_def be16_def be32_def add.assoc)
qed

lemma trampoline_reads:
  assumes "begins m a (trampoline n orig)" "plain_block m a 12"
  shows "ReadMacInt16 m a = 0x7130" "ReadMacInt16 m (a + 6) = ucast n" "ReadMacInt32 m (a + 8) = orig"
proof -
  have b: "ram m (a + of_nat i) = trampoline n orig ! i" if "i < 12" for i
    using begins_nth [OF assms(1)] that by simp
  have p: "plain m a" "plain m (a + 6)" "plain m (a + 8)"
    using plain_blockD [OF assms(2), of 0] plain_blockD [OF assms(2), of 6] plain_blockD [OF assms(2), of 8] by simp_all
  have r: "ram m a = 0x71" "ram m (a + 1) = 0x30" "ram m (a + 6) = ucast (drop_bit 8 n)" "ram m (a + 7) = ucast n"
    "ram m (a + 8) = ucast (drop_bit 24 orig)" "ram m (a + 9) = ucast (drop_bit 16 orig)"
    "ram m (a + 10) = ucast (drop_bit 8 orig)" "ram m (a + 11) = ucast orig"
    using b [of 0] b [of 1] b [of 6] b [of 7] b [of 8] b [of 9] b [of 10] b [of 11]
    by (simp_all add: trampoline_def be16_def be32_def)
  show "ReadMacInt16 m a = 0x7130" by (simp add: ReadMacInt16_plain p r of_be16_def)
  show "ReadMacInt16 m (a + 6) = ucast n" using of_be16_be16 [of n] by (simp add: ReadMacInt16_plain p r add.assoc)
  show "ReadMacInt32 m (a + 8) = orig" using of_be32_be32 [of orig] by (simp add: ReadMacInt32_plain p r add.assoc)
qed

subsection \<open>One hook\<close>

text \<open>The state up to guest memory, the logs and the cursor of the pool.\<close>

definition pool_frame :: "('h, 'a) toolbox_scheme \<Rightarrow> ('h, 'a) toolbox_scheme \<Rightarrow> bool" where
  "pool_frame s s' \<longleftrightarrow>
     s' = s\<lparr>dmem := dmem s', traps := traps s', invalidated := invalidated s', stub_pool_cursor := stub_pool_cursor s'\<rparr>"

lemma pool_frame_trans: "pool_frame s1 s2 \<Longrightarrow> pool_frame s2 s3 \<Longrightarrow> pool_frame s1 s3"
  by (cases s1; cases s2; cases s3) (simp add: pool_frame_def)

definition hooked :: "u32 \<Rightarrow> u32 \<Rightarrow> 'h trap_desc \<Rightarrow> 'h trap_desc" where
  "hooked slot orig d = d\<lparr>original_addr := orig, stub_addr := slot, is_installed := True\<rparr>"

definition hook_step :: "mac_os \<Rightarrow> u16 \<Rightarrow> ('h, 'a) toolbox_scheme \<Rightarrow> ('h, 'a) toolbox_scheme" where
  "hook_step os n s =
     (let (orig, s1) = get_trap_address os n s; (slot, s2) = alloc_stub_slot s1
      in set_trap_address os n slot (ToolboxTrap_WriteTrampoline slot n orig s2))"

definition free_slot :: "u32 set \<Rightarrow> u32 \<Rightarrow> ('h, 'a) toolbox_scheme \<Rightarrow> bool" where
  "free_slot T c s \<longleftrightarrow>
     stub_pool_base s \<noteq> 0 \<and> stub_pool_cursor s = c \<and> unat (stub_pool_base s) \<le> unat c \<and>
     unat c + 12 \<le> unat (stub_pool_base s) + 1536 \<and> unat (stub_pool_base s) + 1536 < 2 ^ 32 \<and>
     plain_block (dmem s) c 12 \<and> (\<forall>i < 12. c + of_nat i \<notin> T)"

lemma alloc_free_slot:
  assumes "free_slot T c s"
  shows "alloc_stub_slot s = (c, s\<lparr>stub_pool_cursor := c + 12\<rparr>)" "c \<noteq> 0" "unat (c + 12) = unat c + 12"
proof -
  note f = assms [unfolded free_slot_def]
  have u: "unat (stub_pool_base s + 1536) = unat (stub_pool_base s) + 1536" "unat (c + 12) = unat c + 12"
    using f by (simp_all add: unat_word_ariths)
  then show "unat (c + 12) = unat c + 12" by simp
  show "alloc_stub_slot s = (c, s\<lparr>stub_pool_cursor := c + 12\<rparr>)"
    using f u by (simp add: alloc_stub_slot_def Let_def MAX_TOOLBOX_TRAPS_def TRAMPOLINE_SIZE_def word_less_nat_alt)
  have "stub_pool_base s \<noteq> 0" using f by blast
  then have "0 < unat (stub_pool_base s)" by (simp add: unat_gt_0)
  then show "c \<noteq> 0" using f by auto
qed

lemma hook_step_facts:
  fixes n
  assumes os: "trap_manager os tbl T" and f: "free_slot T c s"
  defines "t \<equiv> hook_step os n s"
  shows "pool_frame s t" "stub_pool_cursor t = c + 12" "same_routing (dmem t) (dmem s)"
    "tbl (dmem t) k = (if trap_slot k = trap_slot n then c else tbl (dmem s) k)"
    "begins (dmem t) c (trampoline n (tbl (dmem s) n))"
    "x \<notin> T \<Longrightarrow> (\<And>i. i < 12 \<Longrightarrow> x \<noteq> c + of_nat i) \<Longrightarrow> ram (dmem t) x = ram (dmem s) x"
proof -
  define s2 where "s2 = s\<lparr>traps := traps s @ [(get_trap_word n, ucast n, 0)], stub_pool_cursor := c + 12\<rparr>"
  define orig where "orig = tbl (dmem s) n"
  define s3 where "s3 = ToolboxTrap_WriteTrampoline c n orig s2"
  have "free_slot T c (s\<lparr>traps := traps s @ [(get_trap_word n, ucast n, 0)]\<rparr>)" using f by (simp add: free_slot_def)
  note al = alloc_free_slot [OF this]
  have t: "t = set_trap_address os n c s3"
    unfolding t_def hook_step_def get_trap_result [OF os] Let_def prod.case al(1) s3_def s2_def orig_def by simp
  have p: "plain_block (dmem s2) c 12" "dmem s2 = dmem s" using f by (simp_all add: s2_def free_slot_def)
  have m3: "dmem s3 = store c (trampoline n orig) (dmem s)" unfolding s3_def trampoline_written [OF p(1)] p(2) ..
  have c3: "stub_pool_cursor s3 = c + 12" "pool_frame s2 s3"
    by (simp_all add: s3_def s2_def ToolboxTrap_WriteTrampoline_def Let_def TRAMPOLINE_SIZE_def pool_frame_def wr16_def wr32_def)
  have nT: "x \<in> T \<Longrightarrow> \<forall>i < length (trampoline n orig). x \<noteq> c + of_nat i" for x using f by (auto simp: free_slot_def)
  have tb3: "tbl (dmem s3) = tbl (dmem s)" unfolding m3 by (rule tbl_cong [OF os], rule ram_store_other, erule nT)
  have dt: "dmem t = snd (os (set_trap_word n) (ucast n) c (dmem s3))"
    by (simp add: t set_trap_address_def Execute68kTrap_def split_def Let_def)
  have "pool_frame s s2" by (simp add: pool_frame_def s2_def)
  moreover have "pool_frame s3 t" by (simp add: t set_trap_address_def Execute68kTrap_def split_def Let_def pool_frame_def)
  ultimately show "pool_frame s t" using c3(2) pool_frame_trans by blast
  show "stub_pool_cursor t = c + 12" using c3(1) by (simp add: t set_trap_address_def Execute68kTrap_def split_def Let_def)
  show "same_routing (dmem t) (dmem s)" unfolding dt
    using trap_managerD(3) [OF os] same_routing_store(1) [of c "trampoline n orig" "dmem s"] by (auto simp: m3 intro: same_routing_trans)
  show "tbl (dmem t) k = (if trap_slot k = trap_slot n then c else tbl (dmem s) k)"
    unfolding dt by (subst trap_managerD(2) [OF os]) (simp only: tb3)
  have "begins (dmem s3) c (trampoline n orig)" unfolding m3 begins_def
    by (rule fetch_store_same) simp
  moreover have "fetch (dmem t) c 12 = fetch (dmem s3) c 12" unfolding dt fetch_def
    using f by (intro map_cong refl trap_managerD(4) [OF os]) (simp add: free_slot_def)
  ultimately show "begins (dmem t) c (trampoline n (tbl (dmem s) n))" by (simp add: begins_def orig_def)
  show "x \<notin> T \<Longrightarrow> (\<And>i. i < 12 \<Longrightarrow> x \<noteq> c + of_nat i) \<Longrightarrow> ram (dmem t) x = ram (dmem s) x"
    unfolding dt using trap_managerD(4) [OF os, of x n c "dmem s3"] ram_store_other [of "trampoline n orig" x c "dmem s"]
    by (simp add: m3)
qed

subsection \<open>All hooks\<close>

definition free_slots :: "u32 set \<Rightarrow> nat \<Rightarrow> ('h, 'a) toolbox_scheme \<Rightarrow> bool" where
  "free_slots T k s \<longleftrightarrow>
     stub_pool_base s \<noteq> 0 \<and> unat (stub_pool_base s) \<le> unat (stub_pool_cursor s) \<and>
     unat (stub_pool_cursor s) + 12 * k \<le> unat (stub_pool_base s) + 1536 \<and> unat (stub_pool_base s) + 1536 < 2 ^ 32 \<and>
     plain_block (dmem s) (stub_pool_cursor s) (12 * k) \<and> (\<forall>i < 12 * k. stub_pool_cursor s + of_nat i \<notin> T)"

lemma free_slots_first: "free_slots T (Suc k) s \<Longrightarrow> free_slot T (stub_pool_cursor s) s"
  by (simp add: free_slots_def free_slot_def plain_block_def)

lemma free_slots_next:
  assumes "free_slots T (Suc k) s" "pool_frame s t" "stub_pool_cursor t = stub_pool_cursor s + 12" "same_routing (dmem t) (dmem s)"
  shows "free_slots T k t"
proof -
  have b: "stub_pool_base t = stub_pool_base s" using assms(2) by (cases s; cases t) (simp add: pool_frame_def)
  have f: "stub_pool_cursor s + 12 + of_nat i = stub_pool_cursor s + of_nat (12 + i)" for i by (simp add: add.assoc)
  have p: "plain_block (dmem s) (stub_pool_cursor s) (12 * Suc k)" using assms(1) unfolding free_slots_def by blast
  have "plain_block (dmem t) (stub_pool_cursor s + 12) (12 * k)" unfolding plain_block_def same_routing_plain(1) [OF assms(4)] f
    by (intro allI impI plain_blockD [OF p]) simp
  moreover have "\<forall>i < 12 * k. stub_pool_cursor s + 12 + of_nat i \<notin> T" unfolding f using assms(1)
    unfolding free_slots_def by (metis add_less_cancel_left mult_Suc_right)
  moreover have "unat (stub_pool_cursor s + 12) = unat (stub_pool_cursor s) + 12"
    by (rule alloc_free_slot(3) [OF free_slots_first [OF assms(1)]])
  ultimately show ?thesis using assms(1) by (simp add: free_slots_def b assms(3))
qed

lemma install_loop_step:
  assumes "trap_manager os tbl T" "free_slot T c s" "\<not> is_installed d"
  shows "install_loop os (d # ds) s =
     (let (ds', s') = install_loop os ds (hook_step os (trap_num d) s) in (hooked c (tbl (dmem s) (trap_num d)) d # ds', s'))"
proof -
  have "free_slot T c (s\<lparr>traps := traps s @ [(get_trap_word (trap_num d), ucast (trap_num d), 0)]\<rparr>)"
    using assms(2) by (simp add: free_slot_def)
  note al = alloc_free_slot [OF this]
  show ?thesis using assms(3) al(2)
    by (simp add: get_trap_result [OF assms(1)] al(1) hook_step_def hooked_def Let_def)
qed

definition slot_of :: "u32 \<Rightarrow> nat \<Rightarrow> u32" where
  "slot_of c i = c + of_nat (12 * i)"

lemma install_loop_hooks:
  assumes "trap_manager os tbl T" "distinct (map (\<lambda>d. trap_slot (trap_num d)) ds)" "\<forall>d \<in> set ds. \<not> is_installed d"
    and "free_slots T (length ds) s" "install_loop os ds s = (ds', s')"
  shows "ds' = map (\<lambda>i. hooked (slot_of (stub_pool_cursor s) i) (tbl (dmem s) (trap_num (ds ! i))) (ds ! i)) [0..<length ds] \<and>
     pool_frame s s' \<and> stub_pool_cursor s' = slot_of (stub_pool_cursor s) (length ds) \<and> same_routing (dmem s') (dmem s) \<and>
     (\<forall>i < length ds. \<forall>k. trap_slot k = trap_slot (trap_num (ds ! i)) \<longrightarrow> tbl (dmem s') k = slot_of (stub_pool_cursor s) i) \<and>
     (\<forall>k. (\<forall>d \<in> set ds. trap_slot k \<noteq> trap_slot (trap_num d)) \<longrightarrow> tbl (dmem s') k = tbl (dmem s) k) \<and>
     (\<forall>i < length ds. begins (dmem s') (slot_of (stub_pool_cursor s) i) (trampoline (trap_num (ds ! i)) (tbl (dmem s) (trap_num (ds ! i))))) \<and>
     (\<forall>x. x \<notin> T \<longrightarrow> (\<forall>i < 12 * length ds. x \<noteq> stub_pool_cursor s + of_nat i) \<longrightarrow> ram (dmem s') x = ram (dmem s) x)"
  using assms(2-5)
proof (induction ds arbitrary: s ds')
  case Nil
  then show ?case by (simp add: slot_of_def pool_frame_def same_routing_def)
next
  case (Cons d ds)
  define c where "c = stub_pool_cursor s"
  define t where "t = hook_step os (trap_num d) s"
  define n where "n = trap_num d"
  have f: "free_slot T c s" unfolding c_def by (rule free_slots_first) (use Cons.prems(3) in simp)
  note st = hook_step_facts [OF assms(1) f, where n = "trap_num d", folded t_def]
  have ct: "stub_pool_cursor t = stub_pool_cursor s + 12" using st(2) by (simp add: c_def)
  have ft: "free_slots T (length ds) t" by (rule free_slots_next [OF _ st(1) ct st(3)]) (use Cons.prems(3) in simp)
  obtain es where es: "install_loop os ds t = (es, s')" "ds' = hooked c (tbl (dmem s) n) d # es"
    using Cons.prems(4) Cons.prems(2)
    by (simp add: install_loop_step [OF assms(1) f] t_def n_def del: install_loop.simps split: prod.splits)
  have dis: "distinct (map (\<lambda>d. trap_slot (trap_num d)) ds)" "\<forall>e \<in> set ds. trap_slot (trap_num e) \<noteq> trap_slot n"
    using Cons.prems(1) by (simp_all add: n_def image_iff) metis
  have IH: "es = map (\<lambda>i. hooked (slot_of (c + 12) i) (tbl (dmem t) (trap_num (ds ! i))) (ds ! i)) [0..<length ds]"
    "pool_frame t s'" "stub_pool_cursor s' = slot_of (c + 12) (length ds)" "same_routing (dmem s') (dmem t)"
    "\<forall>i < length ds. \<forall>k. trap_slot k = trap_slot (trap_num (ds ! i)) \<longrightarrow> tbl (dmem s') k = slot_of (c + 12) i"
    "\<forall>k. (\<forall>d \<in> set ds. trap_slot k \<noteq> trap_slot (trap_num d)) \<longrightarrow> tbl (dmem s') k = tbl (dmem t) k"
    "\<forall>i < length ds. begins (dmem s') (slot_of (c + 12) i) (trampoline (trap_num (ds ! i)) (tbl (dmem t) (trap_num (ds ! i))))"
    "\<forall>x. x \<notin> T \<longrightarrow> (\<forall>i < 12 * length ds. x \<noteq> c + 12 + of_nat i) \<longrightarrow> ram (dmem s') x = ram (dmem t) x"
    using Cons.IH [OF dis(1) _ ft es(1)] Cons.prems(2) st(2) by simp_all
  have sl: "slot_of (c + 12) i = slot_of c (Suc i)" for i by (simp add: slot_of_def add.assoc)
  have tb: "tbl (dmem t) (trap_num (ds ! i)) = tbl (dmem s) (trap_num (ds ! i))" if "i < length ds" for i
    using st(4) dis(2) that by (simp add: n_def)
  have apart: "c + of_nat j \<noteq> c + of_nat i" if "j < 12" "12 \<le> i" "i < 1536" for i j
    using that by (simp add: word_of_nat_eq_iff take_bit_nat_eq_self)
  have lens: "12 * Suc (length ds) \<le> 1536" using Cons.prems(3) by (auto simp: free_slots_def)
  have first: "begins (dmem s') c (trampoline n (tbl (dmem s) n))"
  proof -
    have "fetch (dmem s') c 12 = fetch (dmem t) c 12"
      unfolding fetch_def
    proof (rule map_cong [OF refl])
      fix j assume "j \<in> set [0..<12]"
      then have j: "j < 12" by simp
      have "c + 12 + of_nat i = c + of_nat (12 + i)" for i by (simp add: add.assoc)
      then have "\<forall>i < 12 * length ds. c + of_nat j \<noteq> c + 12 + of_nat i" using apart [OF j] lens by (metis add_leD1 add_less_cancel_left le_add1 less_le_trans mult_Suc_right)
      moreover have "c + of_nat j \<notin> T" using f j by (simp add: free_slot_def)
      ultimately show "ram (dmem s') (c + of_nat j) = ram (dmem t) (c + of_nat j)" using IH(8) by blast
    qed
    then show ?thesis using st(5) by (simp add: begins_def n_def)
  qed
  have "ds' = map (\<lambda>i. hooked (slot_of c i) (tbl (dmem s) (trap_num ((d # ds) ! i))) ((d # ds) ! i)) [0..<length (d # ds)]"
    using tb by (simp add: es(2) IH(1) sl upt_conv_Cons map_Suc_upt [symmetric] n_def del: upt_Suc) (simp add: slot_of_def)
  moreover have "pool_frame s s'" using pool_frame_trans st(1) IH(2) by blast
  moreover have "stub_pool_cursor s' = slot_of c (length (d # ds))" using IH(3) by (simp add: sl)
  moreover have "same_routing (dmem s') (dmem s)" using same_routing_trans IH(4) st(3) by blast
  moreover have "\<forall>i < length (d # ds). \<forall>k. trap_slot k = trap_slot (trap_num ((d # ds) ! i)) \<longrightarrow> tbl (dmem s') k = slot_of c i"
  proof (intro allI impI)
    fix i k assume i: "i < length (d # ds)" "trap_slot k = trap_slot (trap_num ((d # ds) ! i))"
    show "tbl (dmem s') k = slot_of c i"
    proof (cases i)
      case 0
      then have "\<forall>d \<in> set ds. trap_slot k \<noteq> trap_slot (trap_num d)" using i dis(2) by (auto simp: n_def)
      then show ?thesis using IH(6) st(4) i 0 by (simp add: slot_of_def)
    qed (use i IH(5) sl in simp)
  qed
  moreover have "\<forall>k. (\<forall>d \<in> set (d # ds). trap_slot k \<noteq> trap_slot (trap_num d)) \<longrightarrow> tbl (dmem s') k = tbl (dmem s) k"
    using IH(6) st(4) by simp
  moreover have "\<forall>i < length (d # ds). begins (dmem s') (slot_of c i) (trampoline (trap_num ((d # ds) ! i)) (tbl (dmem s) (trap_num ((d # ds) ! i))))"
  proof (intro allI impI)
    fix i assume "i < length (d # ds)"
    then show "begins (dmem s') (slot_of c i) (trampoline (trap_num ((d # ds) ! i)) (tbl (dmem s) (trap_num ((d # ds) ! i))))"
      using first IH(7) tb sl by (cases i) (simp_all add: n_def slot_of_def [of c 0])
  qed
  moreover have "\<forall>x. x \<notin> T \<longrightarrow> (\<forall>i < 12 * length (d # ds). x \<noteq> c + of_nat i) \<longrightarrow> ram (dmem s') x = ram (dmem s) x"
  proof (intro allI impI)
    fix x assume x: "x \<notin> T" "\<forall>i < 12 * length (d # ds). x \<noteq> c + of_nat i"
    have "x \<noteq> c + 12 + of_nat i" if "i < 12 * length ds" for i using x(2) [rule_format, of "12 + i"] that by (simp add: add.assoc)
    then show "ram (dmem s') x = ram (dmem s) x" using IH(8) st(6) [of x] x by simp
  qed
  ultimately show ?case unfolding c_def by blast
qed

subsection \<open>The registry\<close>

definition registry_ok :: "('h, 'a) toolbox_scheme \<Rightarrow> bool" where
  "registry_ok s \<longleftrightarrow>
     length (trap_table s) \<le> MAX_TOOLBOX_TRAPS \<and> distinct (map trap_num (trap_table s)) \<and>
     (\<forall>d \<in> set (trap_table s). trap_num d AND 0xf000 = 0xa000 \<and> handler d \<noteq> None)"

text \<open>A registered trap that reaches its trampoline, and the trampoline the address it had before.\<close>

definition hook_ok :: "(mac \<Rightarrow> u16 \<Rightarrow> u32) \<Rightarrow> (u16 \<Rightarrow> u32) \<Rightarrow> ('h, 'a) toolbox_scheme \<Rightarrow> 'h trap_desc \<Rightarrow> bool" where
  "hook_ok tbl orig s d \<longleftrightarrow>
     is_installed d \<and> original_addr d = orig (trap_num d) \<and> tbl (dmem s) (trap_num d) = stub_addr d \<and>
     (\<exists>j < MAX_TOOLBOX_TRAPS. stub_addr d = slot_of (stub_pool_base s) j \<and> unat (slot_of (stub_pool_base s) j) + 12 \<le> unat (stub_pool_cursor s)) \<and>
     begins (dmem s) (stub_addr d) (trampoline (trap_num d) (orig (trap_num d))) \<and> plain_block (dmem s) (stub_addr d) 12"

definition hooks_installed :: "(mac \<Rightarrow> u16 \<Rightarrow> u32) \<Rightarrow> (u16 \<Rightarrow> u32) \<Rightarrow> ('h, 'a) toolbox_scheme \<Rightarrow> bool" where
  "hooks_installed tbl orig s \<longleftrightarrow>
     traps_installed s \<and> stub_pool_base s \<noteq> 0 \<and> unat (stub_pool_base s) + 1536 < 2 ^ 32 \<and> registry_ok s \<and>
     (\<forall>d \<in> set (trap_table s). hook_ok tbl orig s d)"

lemma find_index_unique:
  assumes "distinct (map f ds)" "i < length ds" "f (ds ! i) = x"
  shows "find_index (\<lambda>d. f d = x) ds = Some i"
proof -
  have u: "j < length ds \<Longrightarrow> f (ds ! j) = x \<longleftrightarrow> j = i" for j
    using assms nth_eq_iff_index_eq [OF assms(1), of j i] by auto
  obtain j where j: "find_index (\<lambda>d. f d = x) ds = Some j"
    using assms(2,3) by (cases "find_index (\<lambda>d. f d = x) ds") (auto simp: find_index_def find_None_iff)
  then show ?thesis using find_index_SomeD [OF j] u [of j] by blast
qed

lemma find_desc:
  assumes "registry_ok s" "d \<in> set (trap_table s)"
  shows "Option.bind (find_trap_desc (trap_num d) s) (\<lambda>i. handler (trap_table s ! i)) = handler d"
    and "\<exists>i < length (trap_table s). find_trap_desc (trap_num d) s = Some i \<and> trap_table s ! i = d"
proof -
  obtain i where i: "i < length (trap_table s)" "trap_table s ! i = d" using assms(2) by (auto simp: in_set_conv_nth)
  then have "find_trap_desc (trap_num d) s = Some i" unfolding find_trap_desc_def
    using assms(1) by (intro find_index_unique) (auto simp: registry_ok_def)
  then show "Option.bind (find_trap_desc (trap_num d) s) (\<lambda>i. handler (trap_table s ! i)) = handler d"
    "\<exists>i < length (trap_table s). find_trap_desc (trap_num d) s = Some i \<and> trap_table s ! i = d" using i by auto
qed

lemma distinct_slots_nums: "distinct (map (\<lambda>d. trap_slot (trap_num d)) ds) \<Longrightarrow> distinct (map trap_num ds)"
  using distinct_map [of trap_slot "map trap_num ds"] by (simp add: o_def)

subsection \<open>The program counter in the pool\<close>

lemma unat_slot_of: "unat b + 1536 < 2 ^ 32 \<Longrightarrow> j \<le> 128 \<Longrightarrow> unat (slot_of b j) = unat b + 12 * j"
  by (simp add: slot_of_def unat_word_ariths unat_of_nat del: of_nat_mult)

lemma pc_in_slot:
  assumes "stub_pool_base s \<noteq> 0" "unat (stub_pool_base s) + 1536 < 2 ^ 32" "j < 128"
    and "unat (slot_of (stub_pool_base s) j) + 12 \<le> unat (stub_pool_cursor s)" "k < 12"
  shows "stub_addr_from_pc (slot_of (stub_pool_base s) j + of_nat k) s = slot_of (stub_pool_base s) j"
proof -
  define b where "b = stub_pool_base s"
  define pc where "pc = slot_of b j + of_nat k"
  note us = unat_slot_of [OF assms(2), of j, folded b_def]
  have up: "unat pc = unat b + 12 * j + k" using us assms by (simp add: pc_def b_def unat_word_ariths unat_of_nat)
  have d: "unat (pc - b) = 12 * j + k" using up by (simp add: unat_sub word_le_nat_alt)
  have q: "(12 * j + k) div 12 = j" using assms(5) by simp
  have "(pc - b) div 12 = of_nat j"
  proof -
    have "unat ((pc - b) div 12) = j" using d q by (simp add: unat_div)
    moreover have "unat (of_nat j :: u32) = j" using assms(3) by (simp add: unat_of_nat_small)
    ultimately show ?thesis by (simp only: word_unat_eq_iff)
  qed
  moreover have "\<not> pc < b" "\<not> stub_pool_cursor s \<le> pc" using up us assms by (simp_all add: word_less_nat_alt word_le_nat_alt b_def)
  ultimately have "stub_addr_from_pc pc s = b + of_nat j * 12"
    using assms(1) by (simp add: stub_addr_from_pc_def b_def TRAMPOLINE_SIZE_def Let_def)
  also have "b + of_nat j * 12 = slot_of b j" by (simp add: slot_of_def mult.commute)
  finally show ?thesis by (simp add: pc_def b_def)
qed

definition finish_dispatch :: "u32 \<Rightarrow> toolbox_action \<times> m68k \<times> 's \<Rightarrow> m68k \<times> 's" where
  "finish_dispatch orig x = (case x of (action, r, s) \<Rightarrow> (if action = TOOLBOX_ACTION_PASSTHROUGH then pass_through orig r else r, s))"

lemma dispatch_hooked:
  assumes "hooks_installed tbl orig s" "d \<in> set (trap_table s)" "k < 12"
  shows "ToolboxTrap_Dispatch call (tbl (dmem s) (trap_num d) + of_nat k) r s =
     finish_dispatch (orig (trap_num d)) (call (the (handler d)) (trap_num d) (pass_through (orig (trap_num d)) r) (orig (trap_num d)) s)"
proof -
  have h: "hook_ok tbl orig s d" and b: "stub_pool_base s \<noteq> 0" "unat (stub_pool_base s) + 1536 < 2 ^ 32" and reg: "registry_ok s"
    using assms by (simp_all add: hooks_installed_def)
  obtain j where j: "j < 128" "stub_addr d = slot_of (stub_pool_base s) j" "unat (slot_of (stub_pool_base s) j) + 12 \<le> unat (stub_pool_cursor s)"
    and t: "tbl (dmem s) (trap_num d) = stub_addr d"
    using h by (auto simp: hook_ok_def MAX_TOOLBOX_TRAPS_def)
  have st: "stub_addr_from_pc (tbl (dmem s) (trap_num d) + of_nat k) s = stub_addr d"
    unfolding t j(2) by (rule pc_in_slot [OF b j(1,3) assms(3)])
  have nz: "stub_addr d \<noteq> 0" using unat_slot_of [OF b(2), of j] j(1) b(1) by (auto simp: j(2) unat_eq_0)
  have rd: "ReadMacInt16 (dmem s) (stub_addr d + 6) = ucast (trap_num d)" "ReadMacInt32 (dmem s) (stub_addr d + 8) = orig (trap_num d)"
    using trampoline_reads [of "dmem s" "stub_addr d"] h by (auto simp: hook_ok_def)
  have u: "(ucast (ucast n :: u32) :: u16) = n" for n by (rule bit_word_eqI) (auto simp: bit_simps)
  obtain hd where hd: "handler d = Some hd" using reg assms(2) by (auto simp: registry_ok_def)
  show ?thesis
    by (simp add: ToolboxTrap_Dispatch_def st nz rd u find_desc(1) [OF reg assms(2)] hd Let_def finish_dispatch_def split_def)
qed

end
