(* ===== verification/Toolbox_Hooks.thy ===== *)
theory Toolbox_Hooks
  imports Toolbox_Facts
begin

section \<open>The hooks over a boot and a reset\<close>

text \<open>
  \<open>ToolboxTrap_InstallAll\<close> on a new registry, called again in the same boot, called again after
  the machine was reset, and \<open>ToolboxTrap_Unregister\<close>.
\<close>

subsection \<open>The first installation\<close>

definition not_yet :: "('h, 'a) toolbox_scheme \<Rightarrow> bool" where
  "not_yet s \<longleftrightarrow> \<not> traps_installed s \<and> stub_pool_base s = 0 \<and> (\<forall>d \<in> set (trap_table s). \<not> is_installed d)"

definition slots_distinct :: "('h, 'a) toolbox_scheme \<Rightarrow> bool" where
  "slots_distinct s \<longleftrightarrow> distinct (map (\<lambda>d. trap_slot (trap_num d)) (trap_table s))"

definition registered :: "('h, 'a) toolbox_scheme \<Rightarrow> (u16 \<times> string \<times> 'h option) list" where
  "registered s = map (\<lambda>d. (trap_num d, trap_name d, handler d)) (trap_table s)"

lemma registry_registered:
  "registry_ok s \<longleftrightarrow> length (registered s) \<le> MAX_TOOLBOX_TRAPS \<and> distinct (map fst (registered s)) \<and>
     (\<forall>x \<in> set (registered s). fst x AND 0xf000 = 0xa000 \<and> snd (snd x) \<noteq> None)"
  by (auto simp: registry_ok_def registered_def o_def)

lemma pool_frame_same:
  assumes "pool_frame s s'"
  shows "trap_table s' = trap_table s" "stub_pool_base s' = stub_pool_base s" "tb_prefs s' = tb_prefs s"
    "toolbox.more s' = toolbox.more s" "sysd s' = sysd s"
  using assms by (cases s; cases s'; simp add: pool_frame_def)+

lemma install_fresh:
  fixes s :: "('h, 'a) toolbox_scheme"
  assumes os: "trap_manager os tbl T" and reg: "registry_ok s" and dis: "slots_distinct s"
    and on: "ToolboxTrap_HooksEnabled s" "trap_table s \<noteq> []" and new: "not_yet s"
    and heap: "system_heap os tbl T (dmem s) p"
  defines "t \<equiv> ToolboxTrap_InstallAll os s"
  shows "hooks_installed tbl (tbl (dmem s)) t" "registered t = registered s"
    "(\<And>d. d \<in> set (trap_table s) \<Longrightarrow> trap_slot k \<noteq> trap_slot (trap_num d)) \<Longrightarrow> tbl (dmem t) k = tbl (dmem s) k"
    "same_routing (dmem t) (dmem s)" "tb_prefs t = tb_prefs s" "toolbox.more t = toolbox.more s" "stub_pool_base t = p"
    "x \<notin> T \<Longrightarrow> (\<And>i. i < 1536 \<Longrightarrow> x \<noteq> p + of_nat i) \<Longrightarrow> ram (dmem t) x = ram (snd (os 0xa71e 1536 0 (dmem s))) x"
proof -
  define m1 where "m1 = snd (os 0xa71e 1536 0 (dmem s))"
  define s1 where "s1 = s\<lparr>dmem := m1, stub_pool_base := p, stub_pool_cursor := p,
                        traps := traps s @ [(0xa71e, 1536, 0), (get_trap_word 0xa89f, 0xa89f, 0)]\<rparr>"
  have h: "pool_at T (dmem s) p" "same_routing m1 (dmem s)" "tbl m1 = tbl (dmem s)" "os 0xa71e 1536 0 (dmem s) = (p, m1)"
    using heap by (auto simp: system_heap_def m1_def)
  obtain ds u where loop: "install_loop os (trap_table s1) s1 = (ds, u)" by fastforce
  have pz: "p \<noteq> 0" using h(1) by (simp add: pool_at_def)
  have t: "t = u\<lparr>trap_table := ds, traps_installed := True\<rparr>"
    using on new pz loop
    by (simp add: t_def ToolboxTrap_InstallAll_def not_yet_def Execute68kTrap_def MAX_TOOLBOX_TRAPS_def TRAMPOLINE_SIZE_def h(4)
        ToolboxTrap_SetStubPool_def install_hooks_def get_trap_result [OF os] Let_def s1_def)
  define n where "n = length (trap_table s)"
  have n: "n \<le> 128" using reg by (simp add: n_def registry_ok_def MAX_TOOLBOX_TRAPS_def)
  have f1: "dmem s1 = m1" "trap_table s1 = trap_table s" "stub_pool_base s1 = p" "stub_pool_cursor s1 = p" by (simp_all add: s1_def)
  have pl: "plain_block m1 p 1536" using h(1,2) same_routing_plain(2) by (auto simp: pool_at_def)
  have fs: "free_slots T (length (trap_table s1)) s1"
    using h(1) pl n by (auto simp: free_slots_def f1 pool_at_def plain_block_def n_def)
  have dis1: "distinct (map (\<lambda>d. trap_slot (trap_num d)) (trap_table s1))" "\<forall>d \<in> set (trap_table s1). \<not> is_installed d"
    using dis new by (simp_all add: f1 slots_distinct_def not_yet_def)
  have L: "ds = map (\<lambda>i. hooked (slot_of p i) (tbl (dmem s) (trap_num (trap_table s ! i))) (trap_table s ! i)) [0..<n]"
    "pool_frame s1 u" "stub_pool_cursor u = slot_of p n" "same_routing (dmem u) m1"
    "\<forall>i < n. \<forall>k. trap_slot k = trap_slot (trap_num (trap_table s ! i)) \<longrightarrow> tbl (dmem u) k = slot_of p i"
    "\<forall>k. (\<forall>d \<in> set (trap_table s). trap_slot k \<noteq> trap_slot (trap_num d)) \<longrightarrow> tbl (dmem u) k = tbl (dmem s) k"
    "\<forall>i < n. begins (dmem u) (slot_of p i) (trampoline (trap_num (trap_table s ! i)) (tbl (dmem s) (trap_num (trap_table s ! i))))"
    "\<forall>x. x \<notin> T \<longrightarrow> (\<forall>i < 12 * n. x \<noteq> p + of_nat i) \<longrightarrow> ram (dmem u) x = ram m1 x"
    using install_loop_hooks [OF os dis1 fs loop] by (simp_all add: f1 h(3) n_def)
  note fr = pool_frame_same [OF L(2)]
  have ln: "length ds = n" by (simp add: L(1))
  have dn: "ds ! i = hooked (slot_of p i) (tbl (dmem s) (trap_num (trap_table s ! i))) (trap_table s ! i)" if "i < n" for i
    using that by (simp add: L(1))
  have keep: "map (\<lambda>d. (trap_num d, trap_name d, handler d)) ds = map (\<lambda>d. (trap_num d, trap_name d, handler d)) (trap_table s)"
    by (rule nth_equalityI) (simp_all add: ln dn hooked_def n_def [symmetric])
  then show rg: "registered t = registered s" by (simp add: registered_def t)
  show "(\<And>d. d \<in> set (trap_table s) \<Longrightarrow> trap_slot k \<noteq> trap_slot (trap_num d)) \<Longrightarrow> tbl (dmem t) k = tbl (dmem s) k"
    using L(6) by (simp add: t)
  show rt: "same_routing (dmem t) (dmem s)" using L(4) h(2) by (auto simp: t intro: same_routing_trans)
  show "tb_prefs t = tb_prefs s" using fr(3) by (simp add: t s1_def)
  show "toolbox.more t = toolbox.more s" using fr(4) by (simp add: t s1_def)
  show "x \<notin> T \<Longrightarrow> (\<And>i. i < 1536 \<Longrightarrow> x \<noteq> p + of_nat i) \<Longrightarrow> ram (dmem t) x = ram (snd (os 0xa71e 1536 0 (dmem s))) x"
    using L(8) n by (simp add: t m1_def)
  show b: "stub_pool_base t = p" using fr(2) by (simp add: t f1)
  have bound: "unat p + 1536 < 2 ^ 32" using h(1) by (simp add: pool_at_def)
  have regt: "registry_ok t" using reg by (simp add: registry_registered rg)
  have "hook_ok tbl (tbl (dmem s)) t (ds ! i)" if i: "i < n" for i
  proof -
    have "slot_of p i + of_nat j = p + of_nat (12 * i + j)" for j by (simp add: slot_of_def add.assoc)
    then have "plain_block m1 (slot_of p i) 12" using pl i n by (simp add: plain_block_def del: of_nat_add of_nat_mult)
    then have "plain_block (dmem u) (slot_of p i) 12" using same_routing_plain(2) [OF L(4)] by simp
    moreover have "unat (slot_of p i) + 12 \<le> unat (slot_of p n)" using unat_slot_of [OF bound] i n by simp
    ultimately show ?thesis using L(5,7) i n
      by (auto simp: hook_ok_def t dn hooked_def L(3) fr(2) f1 MAX_TOOLBOX_TRAPS_def intro!: exI [of _ i])
  qed
  then show "hooks_installed tbl (tbl (dmem s)) t"
    using regt b pz bound ln by (auto simp: hooks_installed_def in_set_conv_nth) (simp_all add: t)
qed

subsection \<open>A second call\<close>

lemma still_ours_first:
  assumes "trap_manager os tbl T" "hook_ok tbl orig s d" "stub_addr d \<noteq> 0"
  shows "still_ours os (d # ds) s = (True, s\<lparr>traps := traps s @ [(get_trap_word (trap_num d), ucast (trap_num d), 0)]\<rparr>)"
  using assms(2,3) trampoline_reads [of "dmem s" "stub_addr d" "trap_num d" "orig (trap_num d)"]
  by (simp add: hook_ok_def get_trap_result [OF assms(1)] M68K_EMUL_OP_TOOLBOX_DISPATCH_def)

lemma hook_stub_nonzero:
  assumes "hooks_installed tbl orig s" "d \<in> set (trap_table s)"
  shows "stub_addr d \<noteq> 0" "\<exists>j < 128. stub_addr d = slot_of (stub_pool_base s) j"
proof -
  have b: "unat (stub_pool_base s) + 1536 < 2 ^ 32" "stub_pool_base s \<noteq> 0" and h: "hook_ok tbl orig s d"
    using assms by (simp_all add: hooks_installed_def)
  then obtain j where j: "j < 128" "stub_addr d = slot_of (stub_pool_base s) j" by (auto simp: hook_ok_def MAX_TOOLBOX_TRAPS_def)
  then show "\<exists>j < 128. stub_addr d = slot_of (stub_pool_base s) j" by blast
  show "stub_addr d \<noteq> 0" using unat_slot_of [OF b(1), of j] j b(2) by (auto simp: unat_eq_0)
qed

lemma install_again:
  assumes os: "trap_manager os tbl T" and h: "hooks_installed tbl orig s" and on: "ToolboxTrap_HooksEnabled s" "trap_table s \<noteq> []"
  shows "ToolboxTrap_InstallAll os s = s\<lparr>traps := traps s @ [(get_trap_word (trap_num (hd (trap_table s))), ucast (trap_num (hd (trap_table s))), 0)]\<rparr>"
proof -
  obtain d ds where d: "trap_table s = d # ds" using on(2) by (cases "trap_table s") auto
  have "hook_ok tbl orig s d" "stub_addr d \<noteq> 0" using h d hook_stub_nonzero [OF h, of d] by (simp_all add: hooks_installed_def)
  note so = still_ours_first [OF os this, of ds]
  have "traps_installed s" using h by (simp add: hooks_installed_def)
  then show ?thesis using on by (simp add: ToolboxTrap_InstallAll_def trap_table_still_ours_def so d Let_def del: still_ours.simps)
qed

subsection \<open>After a reset\<close>

lemma still_ours_none:
  assumes "trap_manager os tbl T" "\<And>d. d \<in> set ds \<Longrightarrow> is_installed d \<Longrightarrow> tbl (dmem s) (trap_num d) \<noteq> stub_addr d"
  shows "\<exists>l. still_ours os ds s = (False, s\<lparr>traps := l\<rparr>)"
  using assms(2)
proof (induction ds arbitrary: s)
  case Nil
  show ?case by (intro exI [of _ "traps s"]) simp
next
  case (Cons d ds)
  show ?case
  proof (cases "\<not> is_installed d \<or> stub_addr d = 0")
    case False
    define u where "u = s\<lparr>traps := traps s @ [(get_trap_word (trap_num d), ucast (trap_num d), 0)]\<rparr>"
    obtain l where "still_ours os ds u = (False, u\<lparr>traps := l\<rparr>)" using Cons.IH [of u] Cons.prems by (auto simp: u_def)
    then have "still_ours os (d # ds) s = (False, u\<lparr>traps := l\<rparr>)"
      using False Cons.prems [of d] by (auto simp: get_trap_result [OF assms(1)] u_def)
    then show ?thesis by (intro exI [of _ l]) (simp add: u_def del: still_ours.simps)
  qed (use Cons in auto)
qed

lemma install_after_reset:
  assumes "trap_manager os tbl T" "traps_installed s"
    and "\<And>d. d \<in> set (trap_table s) \<Longrightarrow> is_installed d \<Longrightarrow> tbl (dmem s) (trap_num d) \<noteq> stub_addr d"
  shows "\<exists>l. ToolboxTrap_InstallAll os s =
     (if ToolboxTrap_HooksEnabled s \<and> trap_table s \<noteq> []
      then ToolboxTrap_InstallAll os (forget_previous_installation (s\<lparr>traps := l\<rparr>)) else s)"
proof -
  obtain l where l: "still_ours os (trap_table s) s = (False, s\<lparr>traps := l\<rparr>)"
    using still_ours_none [OF assms(1,3)] by blast
  define u where "u = forget_previous_installation (s\<lparr>traps := l\<rparr>)"
  have u: "ToolboxTrap_HooksEnabled u = ToolboxTrap_HooksEnabled s" "trap_table u = [] \<longleftrightarrow> trap_table s = []" "\<not> traps_installed u"
    by (simp_all add: u_def forget_previous_installation_def ToolboxTrap_SetStubPool_def ToolboxTrap_HooksEnabled_def)
  have "ToolboxTrap_HooksEnabled s \<Longrightarrow> trap_table s \<noteq> [] \<Longrightarrow> ToolboxTrap_InstallAll os s = ToolboxTrap_InstallAll os u"
    unfolding ToolboxTrap_InstallAll_def [of os s] ToolboxTrap_InstallAll_def [of os u]
    using u assms(2) by (simp add: trap_table_still_ours_def l u_def [symmetric] Let_def)
  then show ?thesis unfolding u_def by (intro exI [of _ l]) (simp add: ToolboxTrap_InstallAll_def)
qed

lemma forgotten:
  "not_yet (forget_previous_installation s)" "registered (forget_previous_installation s) = registered s"
  "registry_ok s \<Longrightarrow> registry_ok (forget_previous_installation s)"
  "slots_distinct s \<Longrightarrow> slots_distinct (forget_previous_installation s)"
  "dmem (forget_previous_installation s) = dmem s" "toolbox.more (forget_previous_installation s) = toolbox.more s"
  "tb_prefs (forget_previous_installation s) = tb_prefs s" "trap_table (forget_previous_installation s) = [] \<longleftrightarrow> trap_table s = []"
  by (auto simp: not_yet_def registered_def registry_ok_def slots_distinct_def forget_previous_installation_def
      ToolboxTrap_SetStubPool_def o_def)

subsection \<open>Registering and unregistering\<close>

lemma register_ok: "registry_ok s \<Longrightarrow> registry_ok (snd (ToolboxTrap_Register n name h s))"
proof -
  assume r: "registry_ok s"
  show ?thesis
  proof (cases "find_trap_desc n s")
    case None
    then have "n \<notin> trap_num ` set (trap_table s)"
      by (auto simp: find_trap_desc_def find_index_def find_None_iff in_set_conv_nth)
    then show ?thesis using r by (auto simp: ToolboxTrap_Register_def registry_ok_def None)
  next
    case (Some i)
    define d where "d = (trap_table s ! i)\<lparr>trap_name := trap_label name, handler := h\<rparr>"
    have i: "i < length (trap_table s)" "trap_num (trap_table s ! i) = n" using find_index_SomeD Some by (auto simp: find_trap_desc_def)
    have nums: "map trap_num ((trap_table s)[i := d]) = map trap_num (trap_table s)"
      by (rule nth_equalityI) (simp_all add: nth_list_update d_def i(1))
    have "registry_ok (s\<lparr>trap_table := (trap_table s)[i := d]\<rparr>)" if "h \<noteq> None" "n AND 0xf000 = 0xa000"
      using r that i nums by (auto simp: registry_ok_def d_def dest!: set_update_subset_insert [THEN subsetD])
    then show ?thesis using r by (simp add: ToolboxTrap_Register_def Some d_def)
  qed
qed

lemma set_without: "distinct (map f ds) \<Longrightarrow> i < length ds \<Longrightarrow> set (take i ds @ drop (Suc i) ds) = {d \<in> set ds. f d \<noteq> f (ds ! i)}"
proof -
  assume a: "distinct (map f ds)" "i < length ds"
  then have ds: "ds = take i ds @ ds ! i # drop (Suc i) ds" by (simp add: id_take_nth_drop [symmetric])
  have "distinct (map f (take i ds @ ds ! i # drop (Suc i) ds))" using a(1) ds by simp
  then have "f (ds ! i) \<notin> f ` set (take i ds @ drop (Suc i) ds)" by (auto simp del: id_take_nth_drop)
  moreover have "set ds = insert (ds ! i) (set (take i ds @ drop (Suc i) ds))" by (subst ds) auto
  ultimately show ?thesis by (auto simp: image_iff) (metis UnI1, metis UnI2)
qed

lemma unregister_result:
  assumes reg: "registry_ok s" and d: "d \<in> set (trap_table s)"
  obtains i where "i < length (trap_table s)" "trap_table s ! i = d"
    "ToolboxTrap_Unregister os (trap_num d) s =
       (True, (if is_installed d \<and> original_addr d \<noteq> 0 then set_trap_address os (trap_num d) (original_addr d) s else s)
                \<lparr>trap_table := take i (trap_table s) @ drop (Suc i) (trap_table s)\<rparr>)"
proof -
  obtain i where i: "i < length (trap_table s)" "find_trap_desc (trap_num d) s = Some i" "trap_table s ! i = d"
    using find_desc(2) [OF assms] by blast
  show ?thesis by (rule that [OF i(1,3)]) (simp add: ToolboxTrap_Unregister_def i Let_def set_trap_address_def Execute68kTrap_def split_def)
qed

lemma unregister_ok: "registry_ok s \<Longrightarrow> registry_ok (snd (ToolboxTrap_Unregister os n s))"
proof -
  assume r: "registry_ok s"
  show ?thesis
  proof (cases "find_trap_desc n s")
    case (Some i)
    then have i: "i < length (trap_table s)" "trap_num (trap_table s ! i) = n" by (auto simp: find_trap_desc_def dest: find_index_SomeD)
    have "map trap_num (trap_table s) = map trap_num (take i (trap_table s)) @ n # map trap_num (drop (Suc i) (trap_table s))"
      using arg_cong [OF id_take_nth_drop [OF i(1)], of "map trap_num"] i(2) by simp
    then have "distinct (map trap_num (take i (trap_table s) @ drop (Suc i) (trap_table s)))" using r by (simp add: registry_ok_def)
    then show ?thesis using r i
      by (auto simp: ToolboxTrap_Unregister_def Some registry_ok_def Let_def set_trap_address_def Execute68kTrap_def split_def dest: in_set_takeD in_set_dropD)
  qed (simp add: ToolboxTrap_Unregister_def r)
qed

lemma unregister_installed:
  fixes s :: "('h, 'a) toolbox_scheme"
  assumes os: "trap_manager os tbl T" and h: "hooks_installed tbl orig s" and dis: "slots_distinct s"
    and T: "\<And>i. i < 1536 \<Longrightarrow> stub_pool_base s + of_nat i \<notin> T" and d: "d \<in> set (trap_table s)" "orig (trap_num d) \<noteq> 0"
  defines "t \<equiv> snd (ToolboxTrap_Unregister os (trap_num d) s)"
  shows "tbl (dmem t) (trap_num d) = orig (trap_num d)" "set (trap_table t) = {e \<in> set (trap_table s). trap_num e \<noteq> trap_num d}"
    "hooks_installed tbl orig t"
    "k < 12 \<Longrightarrow> ToolboxTrap_Dispatch call (stub_addr d + of_nat k) r t = (pass_through (orig (trap_num d)) r, t)"
proof -
  have reg: "registry_ok s" and hd: "hook_ok tbl orig s d" and b: "stub_pool_base s \<noteq> 0" "unat (stub_pool_base s) + 1536 < 2 ^ 32"
    using h d(1) by (simp_all add: hooks_installed_def)
  obtain i where i: "i < length (trap_table s)" "trap_table s ! i = d"
    and un: "ToolboxTrap_Unregister os (trap_num d) s = (True, set_trap_address os (trap_num d) (orig (trap_num d)) s
                \<lparr>trap_table := take i (trap_table s) @ drop (Suc i) (trap_table s)\<rparr>)"
    using unregister_result [OF reg d(1), of os] hd d(2) by (auto simp: hook_ok_def)
  define m where "m = snd (os (set_trap_word (trap_num d)) (ucast (trap_num d)) (orig (trap_num d)) (dmem s))"
  have t: "t = s\<lparr>dmem := m, traps := traps s @ [(set_trap_word (trap_num d), ucast (trap_num d), orig (trap_num d))],
                trap_table := take i (trap_table s) @ drop (Suc i) (trap_table s)\<rparr>"
    unfolding t_def un by (simp add: set_trap_address_def Execute68kTrap_def split_def Let_def m_def)
  note M = trap_managerD(2-4) [OF os, where n = "trap_num d" and a = "orig (trap_num d)" and m = "dmem s", folded m_def]
  show "tbl (dmem t) (trap_num d) = orig (trap_num d)" using M(1) by (simp add: t)
  have dn: "distinct (map trap_num (trap_table s))" using reg by (simp add: registry_ok_def)
  show st: "set (trap_table t) = {e \<in> set (trap_table s). trap_num e \<noteq> trap_num d}"
    using set_without [OF dn i(1)] i(2) by (simp add: t)
  have same: "begins m (stub_addr e) (trampoline n a) = begins (dmem s) (stub_addr e) (trampoline n a)"
    "plain_block m (stub_addr e) 12 = plain_block (dmem s) (stub_addr e) 12" if e: "e \<in> set (trap_table s)" for e n a
  proof -
    obtain j where j: "j < 128" "stub_addr e = slot_of (stub_pool_base s) j" using hook_stub_nonzero(2) [OF h e] by blast
    have "ram m (stub_addr e + of_nat l) = ram (dmem s) (stub_addr e + of_nat l)" if l: "l < 12" for l
    proof (rule M(3))
      have "stub_addr e + of_nat l = stub_pool_base s + of_nat (12 * j + l)" by (simp add: j slot_of_def add.assoc)
      then show "stub_addr e + of_nat l \<notin> T" using T [of "12 * j + l"] j(1) l by (simp del: of_nat_add of_nat_mult)
    qed
    then have "fetch m (stub_addr e) 12 = fetch (dmem s) (stub_addr e) 12" unfolding fetch_def by (intro map_cong) simp_all
    then show "begins m (stub_addr e) (trampoline n a) = begins (dmem s) (stub_addr e) (trampoline n a)" by (simp add: begins_def)
    show "plain_block m (stub_addr e) 12 = plain_block (dmem s) (stub_addr e) 12" by (rule same_routing_plain(2) [OF M(2)])
  qed
  have "hook_ok tbl orig t e" if e: "e \<in> set (trap_table t)" for e
  proof -
    have es: "e \<in> set (trap_table s)" "trap_num e \<noteq> trap_num d" using e st by auto
    have "trap_slot (trap_num e) \<noteq> trap_slot (trap_num d)"
      using dis es d(1) by (auto simp: slots_distinct_def distinct_map dest: inj_onD)
    then have "tbl m (trap_num e) = tbl (dmem s) (trap_num e)" using M(1) by simp
    moreover have "hook_ok tbl orig s e" using h es(1) by (simp add: hooks_installed_def)
    ultimately show ?thesis using same [OF es(1)] by (simp add: hook_ok_def t)
  qed
  moreover have "registry_ok t" unfolding t_def by (rule unregister_ok [OF reg])
  ultimately show "hooks_installed tbl orig t" using h by (simp add: hooks_installed_def t)
  show "ToolboxTrap_Dispatch call (stub_addr d + of_nat k) r t = (pass_through (orig (trap_num d)) r, t)" if k: "k < 12"
  proof -
    obtain j where j: "j < 128" "stub_addr d = slot_of (stub_pool_base s) j" "unat (slot_of (stub_pool_base s) j) + 12 \<le> unat (stub_pool_cursor s)"
      using hd by (auto simp: hook_ok_def MAX_TOOLBOX_TRAPS_def)
    have "stub_addr_from_pc (stub_addr d + of_nat k) t = stub_addr d"
      unfolding j(2) using pc_in_slot [of t j k] b j(1,3) k by (simp add: t)
    moreover have "stub_addr d \<noteq> 0" by (rule hook_stub_nonzero(1) [OF h d(1)])
    moreover have "ReadMacInt16 m (stub_addr d + 6) = ucast (trap_num d)" "ReadMacInt32 m (stub_addr d + 8) = orig (trap_num d)"
      using trampoline_reads [of m "stub_addr d" "trap_num d" "orig (trap_num d)"] same [OF d(1)] hd by (simp_all add: hook_ok_def)
    moreover have "find_trap_desc (trap_num d) t = None"
    proof -
      have "\<forall>j < length (trap_table t). trap_num (trap_table t ! j) \<noteq> trap_num d" using st by (auto simp: set_conv_nth)
      then show ?thesis by (simp add: find_trap_desc_def find_index_def find_None_iff)
    qed
    moreover have "(ucast (ucast n :: u32) :: u16) = n" for n by (rule bit_word_eqI) (auto simp: bit_simps)
    ultimately show ?thesis by (simp add: ToolboxTrap_Dispatch_def Let_def) (simp add: t)
  qed
qed

subsection \<open>Every state of the registry\<close>

text \<open>
  The states the registry can be in, whatever Mac OS answers and whatever the guest does to its
  memory between the calls.
\<close>

definition stubs_ok :: "('h, 'a) toolbox_scheme \<Rightarrow> bool" where
  "stubs_ok s \<longleftrightarrow>
     (\<forall>d \<in> set (trap_table s). is_installed d \<longrightarrow> stub_addr d \<noteq> 0 \<and> stub_pool_base s \<noteq> 0 \<and> traps_installed s)"

inductive registry_reach :: "mac_os \<Rightarrow> ('h, 'a) toolbox_scheme \<Rightarrow> bool" for os where
  boot: "trap_table s = [] \<Longrightarrow> registry_reach os s"
| registers: "registry_reach os s \<Longrightarrow> registry_reach os (snd (ToolboxTrap_Register n name h s))"
| unregisters: "registry_reach os s \<Longrightarrow> registry_reach os (snd (ToolboxTrap_Unregister os n s))"
| installs: "registry_reach os s \<Longrightarrow> registry_reach os (ToolboxTrap_InstallAll os s)"
| guest_runs: "registry_reach os s \<Longrightarrow> registry_reach os (s\<lparr>dmem := m\<rparr>)"

lemma still_ours_frame: "\<exists>m l. snd (still_ours os ds s) = s\<lparr>dmem := m, traps := l\<rparr>"
proof (induction ds arbitrary: s)
  case Nil
  show ?case by (intro exI [of _ "dmem s"] exI [of _ "traps s"]) simp
next
  case (Cons d ds)
  obtain a m l where g: "get_trap_address os (trap_num d) s = (a, s\<lparr>dmem := m, traps := l\<rparr>)"
    by (simp add: get_trap_address_def Execute68kTrap_def Let_def split_def)
  obtain m' l' where "snd (still_ours os ds (s\<lparr>dmem := m, traps := l\<rparr>)) = s\<lparr>dmem := m', traps := l'\<rparr>"
    using Cons [of "s\<lparr>dmem := m, traps := l\<rparr>"] by (auto simp: fun_eq_iff)
  moreover obtain m'' l'' where "snd (still_ours os ds s) = s\<lparr>dmem := m'', traps := l''\<rparr>" using Cons [of s] by blast
  ultimately show ?case by (auto simp: g)
qed

lemma install_loop_frame:
  "pool_frame s (snd (install_loop os ds s)) \<and>
   map (\<lambda>d. (trap_num d, trap_name d, handler d)) (fst (install_loop os ds s)) = map (\<lambda>d. (trap_num d, trap_name d, handler d)) ds \<and>
   (\<forall>d \<in> set (fst (install_loop os ds s)). is_installed d \<longrightarrow> stub_addr d \<noteq> 0 \<or> d \<in> set ds)"
proof (induction ds arbitrary: s)
  case (Cons d ds)
  show ?case
  proof (cases "is_installed d")
    case True
    then show ?thesis using Cons [of s] by (auto simp: split_def Let_def)
  next
    case False
    define s1 where "s1 = snd (get_trap_address os (trap_num d) s)"
    define s2 where "s2 = snd (alloc_stub_slot s1)"
    define slot where "slot = fst (alloc_stub_slot s1)"
    define orig where "orig = fst (get_trap_address os (trap_num d) s)"
    define s4 where "s4 = set_trap_address os (trap_num d) slot (ToolboxTrap_WriteTrampoline slot (trap_num d) orig s2)"
    have g: "get_trap_address os (trap_num d) s = (orig, s1)" "alloc_stub_slot s1 = (slot, s2)"
      by (simp_all add: s1_def s2_def slot_def orig_def)
    have f1: "pool_frame s s1" by (simp add: s1_def get_trap_address_def Execute68kTrap_def split_def Let_def pool_frame_def)
    have f2: "pool_frame s1 s2" by (simp add: s2_def alloc_stub_slot_def Let_def pool_frame_def)
    have f3: "pool_frame s2 s4"
      by (simp add: s4_def set_trap_address_def Execute68kTrap_def split_def Let_def pool_frame_def ToolboxTrap_WriteTrampoline_def wr16_def wr32_def)
    have f: "pool_frame s s2" "pool_frame s s4" using f1 f2 f3 pool_frame_trans by blast+
    have un: "install_loop os (d # ds) s = (if slot = 0 then (d\<lparr>original_addr := orig, stub_addr := slot\<rparr> # ds, s2)
        else (d\<lparr>original_addr := orig, stub_addr := slot, is_installed := True\<rparr> # fst (install_loop os ds s4), snd (install_loop os ds s4)))"
      using False by (simp add: g Let_def s4_def split_def)
    show ?thesis using Cons [of s4] f pool_frame_trans [OF f(2)] False unfolding un by auto
  qed
qed (simp add: pool_frame_def)

lemma install_all_type:
  assumes "registry_ok s" "stubs_ok s"
  shows "registry_ok (ToolboxTrap_InstallAll os s)" "stubs_ok (ToolboxTrap_InstallAll os s)"
proof -
  define P where "P u \<longleftrightarrow> registry_ok u \<and> stubs_ok u" for u :: "('a, 'b) toolbox_scheme"
  have hooks: "P (install_hooks os u)" if u: "P u" "stub_pool_base u \<noteq> 0" for u :: "('a, 'b) toolbox_scheme"
  proof -
    define s1 where "s1 = snd (get_trap_address os 0xa89f u)"
    have f1: "pool_frame u s1" by (simp add: s1_def get_trap_address_def Execute68kTrap_def split_def Let_def pool_frame_def)
    note L = install_loop_frame [of s1 os "trap_table s1"]
    have f: "pool_frame u (snd (install_loop os (trap_table s1) s1))" using f1 L pool_frame_trans by blast
    have t1: "trap_table s1 = trap_table u" using pool_frame_same(1) [OF f1] .
    have un: "install_hooks os u = (snd (install_loop os (trap_table s1) s1))\<lparr>trap_table := fst (install_loop os (trap_table s1) s1), traps_installed := True\<rparr>"
      by (simp add: install_hooks_def Let_def split_def s1_def)
    have "registered (install_hooks os u) = registered u" using L by (simp add: un registered_def t1)
    then have "registry_ok (install_hooks os u)" using u(1) by (simp add: P_def registry_registered)
    moreover have "stubs_ok (install_hooks os u)"
      using L u pool_frame_same(2) [OF f] by (auto simp: stubs_ok_def un P_def t1)
    ultimately show ?thesis by (simp add: P_def)
  qed
  have chg: "P (v\<lparr>dmem := m, traps := l\<rparr>) = P v" for v :: "('a, 'b) toolbox_scheme" and m l
    by (simp add: P_def registry_ok_def stubs_ok_def)
  have "P s" using assms by (simp add: P_def)
  define s1 where "s1 = (if traps_installed s then snd (trap_table_still_ours os s) else s)"
  have P1: "P s1"
  proof -
    obtain m l where "snd (trap_table_still_ours os s) = s\<lparr>dmem := m, traps := l\<rparr>"
      using still_ours_frame [of os "trap_table s" s] by (auto simp: trap_table_still_ours_def)
    then show ?thesis using \<open>P s\<close> chg by (simp add: s1_def)
  qed
  define s2 where "s2 = (if traps_installed s then forget_previous_installation s1 else s1)"
  have P2: "P s2"
    using P1 forgotten(1,3) [of s1] by (auto simp: s2_def P_def stubs_ok_def not_yet_def)
  have no2: "\<forall>d \<in> set (trap_table s2). \<not> is_installed d"
  proof (cases "traps_installed s")
    case True
    then show ?thesis using forgotten(1) [of s1] by (simp add: s2_def not_yet_def)
  next
    case False
    then show ?thesis using assms(2) by (auto simp: s2_def s1_def stubs_ok_def)
  qed
  define s3 where "s3 = (if stub_pool_base s2 = 0 then (let (p, s') = Execute68kTrap os 0xa71e (of_nat MAX_TOOLBOX_TRAPS * TRAMPOLINE_SIZE) 0 s2 in ToolboxTrap_SetStubPool p s') else s2)"
  have "P s3"
  proof (cases "stub_pool_base s2 = 0")
    case True
    then have "trap_table s3 = trap_table s2"
      by (simp add: s3_def Let_def split_def ToolboxTrap_SetStubPool_def Execute68kTrap_def)
    then show ?thesis using P2 no2 by (auto simp: P_def registry_ok_def stubs_ok_def)
  qed (simp add: s3_def P2)
  have un: "ToolboxTrap_InstallAll os s =
     (if \<not> ToolboxTrap_HooksEnabled s \<or> trap_table s = [] then s
      else if traps_installed s \<and> fst (trap_table_still_ours os s) then s1
      else if stub_pool_base s3 = 0 then s3 else install_hooks os s3)"
    by (simp add: ToolboxTrap_InstallAll_def Let_def split_def s1_def s2_def s3_def)
  have "P (ToolboxTrap_InstallAll os s)" unfolding un using \<open>P s\<close> P1 \<open>P s3\<close> hooks by auto
  then show "registry_ok (ToolboxTrap_InstallAll os s)" "stubs_ok (ToolboxTrap_InstallAll os s)" by (simp_all add: P_def)
qed

lemma register_stubs: "stubs_ok s \<Longrightarrow> stubs_ok (snd (ToolboxTrap_Register n name h s))"
  by (cases "find_trap_desc n s")
    (auto simp: ToolboxTrap_Register_def stubs_ok_def find_trap_desc_def dest!: find_index_SomeD set_update_subset_insert [THEN subsetD])

lemma unregister_stubs: "stubs_ok s \<Longrightarrow> stubs_ok (snd (ToolboxTrap_Unregister os n s))"
  by (cases "find_trap_desc n s")
    (auto simp: ToolboxTrap_Unregister_def stubs_ok_def Let_def set_trap_address_def Execute68kTrap_def split_def
      dest!: in_set_takeD in_set_dropD)

lemma reach_type: "registry_reach os s \<Longrightarrow> registry_ok s \<and> stubs_ok s"
proof (induction rule: registry_reach.induct)
  case (boot s)
  then show ?case by (simp add: registry_ok_def stubs_ok_def)
next
  case (guest_runs s m)
  then show ?case by (simp add: registry_ok_def stubs_ok_def)
qed (simp_all add: register_ok register_stubs unregister_ok unregister_stubs install_all_type)

subsection \<open>Clients of the registry\<close>

text \<open>
  A host-side operation of a client neither registers traps nor writes guest memory, so the
  hooks stay as they are however often it runs.
\<close>

definition hook_view :: "('h, 'a) toolbox_scheme \<Rightarrow> mac \<times> 'h trap_desc list \<times> u32 \<times> u32 \<times> bool \<times> prefs" where
  "hook_view s = (dmem s, trap_table s, stub_pool_base s, stub_pool_cursor s, traps_installed s, tb_prefs s)"

lemma hook_view_cong:
  assumes "hook_view s = hook_view t"
  shows "hooks_installed tbl orig s = hooks_installed tbl orig t" "ToolboxTrap_HooksEnabled s = ToolboxTrap_HooksEnabled t"
    "registry_ok s = registry_ok t" "stub_addr_from_pc pc s = stub_addr_from_pc pc t"
  using assms
  by (simp_all add: hook_view_def hooks_installed_def registry_ok_def hook_ok_def ToolboxTrap_HooksEnabled_def stub_addr_from_pc_def)

locale hook_client =
  fixes step :: "('h, 'a) toolbox_scheme \<Rightarrow> ('h, 'a) toolbox_scheme"
  assumes keeps_view: "hook_view (step s) = hook_view s"
begin

lemma view_iterate: "hook_view ((step ^^ n) s) = hook_view s"
  by (induction n) (simp_all add: keeps_view)

lemma memory_iterate: "dmem ((step ^^ n) s) = dmem s"
  using view_iterate [of n s] by (simp add: hook_view_def)

lemma enabled_iterate: "ToolboxTrap_HooksEnabled ((step ^^ n) s) = ToolboxTrap_HooksEnabled s"
  by (rule hook_view_cong(2) [OF view_iterate])

lemma hooks_iterate: "hooks_installed tbl orig ((step ^^ n) s) = hooks_installed tbl orig s"
  by (rule hook_view_cong(1) [OF view_iterate])

lemma dispatch_iterate:
  assumes "hooks_installed tbl orig s" "d \<in> set (trap_table s)" "k < 12"
  shows "ToolboxTrap_Dispatch call (tbl (dmem s) (trap_num d) + of_nat k) r ((step ^^ n) s) =
     finish_dispatch (orig (trap_num d))
       (call (the (handler d)) (trap_num d) (pass_through (orig (trap_num d)) r) (orig (trap_num d)) ((step ^^ n) s))"
proof -
  have "d \<in> set (trap_table ((step ^^ n) s))" using view_iterate [of n s] assms(2) by (simp add: hook_view_def)
  from dispatch_hooked [OF _ this assms(3)] show ?thesis
    using assms(1) hooks_iterate memory_iterate by metis
qed

end

end
