(* ===== verification/Toolbox_Bar.thy ===== *)
theory Toolbox_Bar
  imports Toolbox_Menu Toolbox_Hooks
begin

section \<open>The menu bar as the Menu Manager keeps it\<close>

text \<open>
  The menu records of Inside Macintosh as bytes, what the emulator is to show for them, and the
  proof that decoding the one gives the other. What the operations of the menu component leave
  alone of the registry is the locale \<open>hook_client\<close>.
\<close>

subsection \<open>Menu records\<close>

record guest_item =
  gi_text :: "u8 list"
  gi_icon :: u8
  gi_cmd :: u8
  gi_mark :: u8
  gi_style :: u8

record guest_menu =
  gm_id :: u16
  gm_definition :: "u8 list"
  gm_flags :: u32
  gm_title :: "u8 list"
  gm_items :: "guest_item list"

definition encode_item :: "guest_item \<Rightarrow> u8 list" where
  "encode_item it = of_nat (length (gi_text it)) # gi_text it @ [gi_icon it, gi_cmd it, gi_mark it, gi_style it]"

definition encode_items :: "guest_item list \<Rightarrow> u8 list" where
  "encode_items its = concat (map encode_item its) @ [0]"

definition encode_menu :: "guest_menu \<Rightarrow> u8 list" where
  "encode_menu g =
     be16 (gm_id g) @ gm_definition g @ be32 (gm_flags g) @ [of_nat (length (gm_title g))] @ gm_title g @ encode_items (gm_items g)"

definition item_ok :: "guest_item \<Rightarrow> bool" where
  "item_ok it \<longleftrightarrow> gi_text it \<noteq> [] \<and> length (gi_text it) \<le> 255"

definition menu_ok :: "guest_menu \<Rightarrow> bool" where
  "menu_ok g \<longleftrightarrow>
     length (gm_definition g) = 8 \<and> length (gm_title g) \<le> 255 \<and> (\<forall>it \<in> set (gm_items g). item_ok it) \<and> length (encode_menu g) \<le> 4096"

definition show_item :: "guest_menu \<Rightarrow> nat \<Rightarrow> guest_item \<Rightarrow> menu_item" where
  "show_item g i it =
     \<lparr>item_text = gi_text it, item_cmd = gi_cmd it, item_mark = gi_mark it, is_separator = (gi_text it = [0x2d]),
      is_submenu = (gi_cmd it = kMenuHierCmd), item_enabled = (bit (gm_flags g) 0 \<and> (i \<le> 31 \<longrightarrow> bit (gm_flags g) i)),
      item_menu = gm_id g, item_index = of_nat i\<rparr>"

definition show_menu :: "guest_menu \<Rightarrow> menu_snapshot" where
  "show_menu g =
     \<lparr>menu_id = gm_id g, menu_title = (if gm_title g = [0x14] then [0xef, 0xa3, 0xbf] else gm_title g),
      menu_enabled = bit (gm_flags g) 0, menu_items = map (\<lambda>i. show_item g (Suc i) (gm_items g ! i)) [0..<length (gm_items g)]\<rparr>"

subsection \<open>Reading a block\<close>

lemma read_bytes:
  assumes "begins m a bs" "plain_block m a (length bs)" "i < length bs"
  shows "ReadMacInt8 m (a + of_nat i) = ucast (bs ! i)"
  using begins_nth [OF assms(1,3)] plain_blockD [OF assms(2,3)] by (simp add: ReadMacInt8_plain)

lemma ucast_of_nat_u8: "k \<le> 255 \<Longrightarrow> (ucast (of_nat k :: u8) :: u32) = of_nat k"
  by (simp add: unsigned_of_nat take_bit_nat_eq_self)

lemma read_text:
  assumes "begins m a bs" "plain_block m a (length bs)"
  shows "map (\<lambda>k. ucast (ReadMacInt8 m (a + of_nat k))) [0..<length bs] = bs"
  by (rule nth_equalityI) (simp_all add: read_bytes [OF assms] ucast_ucast_u8 ucast_down_ucast_id is_down)

subsection \<open>Items\<close>

lemma length_encode_items [simp]: "length (encode_items []) = 1"
  "length (encode_items (it # its)) = length (gi_text it) + 5 + length (encode_items its)"
  by (simp_all add: encode_items_def encode_item_def)

lemma length_items_bound: "5 * length its < length (encode_items its)"
  by (induction its) simp_all

lemma read_item_encoded:
  assumes b: "begins m a (encode_item it)" "plain_block m a (length (encode_item it))" and ok: "item_ok it"
    and x: "x = of_nat i" "0 < i" "i < 30000"
  shows "read_item m (gm_flags g) (bit (gm_flags g) 0) (gm_id g) a x = show_item g i it"
    "(ucast (ReadMacInt8 m a) :: u8) = of_nat (length (gi_text it))"
proof -
  let ?n = "length (gi_text it)"
  have n: "?n \<le> 255" "(of_nat ?n :: u8) \<noteq> 0" using ok by (auto simp: item_ok_def word_of_nat_eq_0_iff dest: dvd_imp_le)
  note rd = read_bytes [OF b]
  have u: "(ucast (ucast c :: u32) :: u8) = c" for c by (rule bit_word_eqI) (auto simp: bit_simps)
  have un: "unat (of_nat ?n :: u8) = ?n" using n(1) by (simp add: unat_of_nat take_bit_nat_eq_self)
  show l: "(ucast (ReadMacInt8 m a) :: u8) = of_nat ?n" using rd [of 0] by (simp add: encode_item_def u)
  have sp: "encode_item it = [of_nat ?n] @ gi_text it @ [gi_icon it, gi_cmd it, gi_mark it, gi_style it]" by (simp add: encode_item_def)
  have bt: "begins m (a + 1) (gi_text it)" "plain_block m (a + 1) ?n"
    using b unfolding sp begins_append length_append plain_block_append by simp_all
  have t: "map (\<lambda>k. ucast (ReadMacInt8 m (a + 1 + of_nat k))) [0..<?n] = gi_text it" by (rule read_text [OF bt])
  have c: "(ucast (ReadMacInt8 m (a + 1 + of_nat ?n + 1)) :: u8) = gi_cmd it" "(ucast (ReadMacInt8 m (a + 1 + of_nat ?n + 2)) :: u8) = gi_mark it"
    using rd [of "?n + 2"] rd [of "?n + 3"] by (simp_all add: encode_item_def nth_append u ac_simps)
  have s: "sint x = int i" "unat x = i" unfolding x(1) using x(2,3)
    by (simp_all add: sint_uint unsigned_of_nat signed_take_bit_int_eq_self take_bit_nat_eq_self uint_nat unat_of_nat)
  show "read_item m (gm_flags g) (bit (gm_flags g) 0) (gm_id g) a x = show_item g i it"
    unfolding read_item_def l Let_def un t ucast_of_nat_u8 [OF n(1)] c
    by (auto simp: show_item_def s [unfolded x(1)] x(1))
qed

lemma decode_items_encoded:
  assumes "begins m cursor (encode_items its)" "plain_block m cursor (length (encode_items its))" "\<forall>it \<in> set its. item_ok it"
    and "unat info + 4096 < 2 ^ 32" "unat cursor + length (encode_items its) \<le> unat info + 4096"
    and "length its < rounds" "0 < i" "i + length its < 30000"
  shows "decode_items rounds m info (gm_flags g) (bit (gm_flags g) 0) (gm_id g) cursor (of_nat i) =
     map (\<lambda>j. show_item g (i + j) (its ! j)) [0..<length its]"
  using assms
proof (induction its arbitrary: rounds cursor i)
  case Nil
  then obtain k where k: "rounds = Suc k" by (cases rounds) auto
  have "ReadMacInt8 m cursor = 0" using read_bytes [OF Nil(1,2), of 0] by (simp add: encode_items_def)
  then show ?case by (simp add: k)
next
  case (Cons it its)
  obtain k where k: "rounds = Suc k" using Cons.prems(6) by (cases rounds) auto
  let ?n = "length (gi_text it)"
  have ok: "item_ok it" "?n \<le> 255" "(of_nat ?n :: u8) \<noteq> 0"
    using Cons.prems(3) by (auto simp: item_ok_def word_of_nat_eq_0_iff dest: dvd_imp_le)
  have sp: "encode_items (it # its) = encode_item it @ encode_items its" by (simp add: encode_items_def)
  have b: "begins m cursor (encode_item it)" "plain_block m cursor (length (encode_item it))"
    "begins m (cursor + of_nat (length (encode_item it))) (encode_items its)"
    "plain_block m (cursor + of_nat (length (encode_item it))) (length (encode_items its))"
    using Cons.prems(1,2) unfolding sp begins_append length_append plain_block_append by simp_all
  define next_item where "next_item = cursor + 1 + of_nat ?n + 4"
  have nx: "cursor + of_nat (length (encode_item it)) = next_item" by (simp add: next_item_def encode_item_def ac_simps)
  have un: "unat next_item = unat cursor + ?n + 5"
    using Cons.prems(4,5) by (simp add: next_item_def unat_word_ariths unat_of_nat)
  have lim: "cursor < info + 4096" using Cons.prems(4,5) by (simp add: word_less_nat_alt unat_word_ariths)
  have "decode_items k m info (gm_flags g) (bit (gm_flags g) 0) (gm_id g) next_item (of_nat (Suc i)) =
     map (\<lambda>j. show_item g (Suc i + j) (its ! j)) [0..<length its]"
    using b(3,4) Cons.prems un by (intro Cons.IH) (simp_all add: k nx)
  moreover note read_item_encoded(1) [OF b(1,2) ok(1) refl, where i = i and g = g] read_item_encoded(2) [OF b(1,2) ok(1) refl, where i = i] Cons.prems(7,8)
  ultimately show ?case
    by (simp add: k lim Let_def ok(3) ucast_of_nat_u8 [OF ok(2)] next_item_def [symmetric] add.commute [of 1] upt_conv_Cons
        map_Suc_upt [symmetric] del: upt_Suc)
qed

subsection \<open>Menus\<close>

lemma decode_menu_encoded:
  assumes b: "begins m info (encode_menu g)" "plain_block m info (length (encode_menu g))" and ok: "menu_ok g"
    and lim: "unat info + 4096 < 2 ^ 32"
  shows "decode_menu m info = show_menu g"
proof -
  let ?n = "length (gm_title g)"
  have d: "length (gm_definition g) = 8" "?n \<le> 255" "\<forall>it \<in> set (gm_items g). item_ok it" "length (encode_menu g) \<le> 4096"
    using ok by (auto simp: menu_ok_def)
  have parts: "begins m info (be16 (gm_id g))" "plain_block m info 2" "begins m (info + 10) (be32 (gm_flags g))" "plain_block m (info + 10) 4"
    "begins m (info + 14) [of_nat ?n]" "plain_block m (info + 14) 1" "begins m (info + 15) (gm_title g)" "plain_block m (info + 15) ?n"
    "begins m (info + 15 + of_nat ?n) (encode_items (gm_items g))" "plain_block m (info + 15 + of_nat ?n) (length (encode_items (gm_items g)))"
    using b d(1) unfolding encode_menu_def begins_append length_append plain_block_append by (simp_all add: add.assoc)
  have r: "ReadMacInt16 m info = ucast (gm_id g)" "ReadMacInt32 m (info + 10) = gm_flags g"
    using read_be16 [OF parts(1,2)] read_be32 [OF parts(3,4)] by simp_all
  have u: "(ucast (ucast c :: u32) :: u8) = c" "(ucast (ucast w :: u32) :: u16) = w" for c w
    by (rule bit_word_eqI; auto simp: bit_simps)+
  have l: "(ucast (ReadMacInt8 m (info + 14)) :: u8) = of_nat ?n" using read_bytes [OF parts(5), of 0] parts(6) by (simp add: u)
  have un: "unat (of_nat ?n :: u8) = ?n" using d(2) by (simp add: unat_of_nat take_bit_nat_eq_self)
  have "info + 14 \<noteq> 0" using lim by (auto simp: unat_eq_0 [symmetric] unat_word_ariths)
  then have t: "ReadPascalString m (info + 14) = gm_title g"
    using read_text [OF parts(7,8)] by (simp add: ReadPascalString_def l un add.assoc)
  have e: "(gm_flags g AND 1 \<noteq> 0) = bit (gm_flags g) 0" by (simp add: and_one_eq bit_0 odd_iff_mod_2_eq_one)
  have len: "15 + ?n + length (encode_items (gm_items g)) \<le> 4096"
    using d(1,4) by (simp add: encode_menu_def)
  have li: "length (gm_items g) < ITEM_ROUNDS" "length (gm_items g) < 20000"
  proof -
    have "6 * length its < length (encode_items its)" if "\<forall>it \<in> set its. item_ok it" for its
      using that
    proof (induction its)
      case (Cons it its)
      then have "gi_text it \<noteq> []" by (simp add: item_ok_def)
      then have "1 \<le> length (gi_text it)" by (cases "gi_text it") auto
      then show ?case using Cons by simp
    qed simp
    then have "6 * length (gm_items g) < 4096" using d(3) len by fastforce
    then show "length (gm_items g) < ITEM_ROUNDS" "length (gm_items g) < 20000" by (simp_all add: ITEM_ROUNDS_def)
  qed
  have uc: "unat (info + 15 + of_nat ?n) = unat info + 15 + ?n" using lim d(2) by (simp add: unat_word_ariths unat_of_nat)
  have "decode_items ITEM_ROUNDS m info (gm_flags g) (bit (gm_flags g) 0) (gm_id g) (info + 15 + of_nat ?n) (of_nat 1) =
     map (\<lambda>j. show_item g (1 + j) (gm_items g ! j)) [0..<length (gm_items g)]"
    by (rule decode_items_encoded [OF parts(9,10) d(3) lim _ li(1)]) (use uc len li(2) in simp_all)
  then show ?thesis
    by (simp add: decode_menu_def Let_def r u(2) t l e ucast_of_nat_u8 [OF d(2)] show_menu_def add.assoc)
qed

subsection \<open>The menu bar\<close>

text \<open>
  The menu bar consists of the menus \<open>gs\<close>: \<open>MenuList\<close> is the handle of a list whose first word
  is its length in bytes, six bytes a menu behind a header of six; each entry starts with the
  handle of a menu record.
\<close>

definition menu_at :: "menu_state \<Rightarrow> u32 \<Rightarrow> guest_menu \<Rightarrow> bool" where
  "menu_at s a g \<longleftrightarrow>
     (let hnd = ReadMacInt32 (dmem s) a; info = ReadMacInt32 (dmem s) hnd
      in in_ram hnd s \<and> in_ram info s \<and> menu_ok g \<and> begins (dmem s) info (encode_menu g) \<and>
         plain_block (dmem s) info (length (encode_menu g)))"

definition menu_bar :: "menu_state \<Rightarrow> guest_menu list \<Rightarrow> bool" where
  "menu_bar s gs \<longleftrightarrow>
     (let hnd = ReadMacInt32 (dmem s) LM_MenuList; lst = ReadMacInt32 (dmem s) hnd
      in RAMSize s \<le> 0xffff0000 \<and> in_ram hnd s \<and> in_ram lst s \<and> gs \<noteq> [] \<and> length gs \<le> 681 \<and>
         ReadMacInt16 (dmem s) lst = of_nat (6 * Suc (length gs)) \<and>
         (\<forall>i < length gs. menu_at s (lst + of_nat (6 * Suc i)) (gs ! i)))"

lemma snapshot_menu_bar:
  assumes "ToolboxTrap_HooksEnabled s" "menu_bar s gs"
  shows "Toolbox_SnapshotMenuBar s = map show_menu gs"
proof -
  define hnd where "hnd = ReadMacInt32 (dmem s) LM_MenuList"
  define lst where "lst = ReadMacInt32 (dmem s) hnd"
  have B: "RAMSize s \<le> 0xffff0000" "in_ram hnd s" "in_ram lst s" "gs \<noteq> []" "length gs \<le> 681"
    "ReadMacInt16 (dmem s) lst = of_nat (6 * Suc (length gs))" "\<forall>i < length gs. menu_at s (lst + of_nat (6 * Suc i)) (gs ! i)"
    using assms(2) unfolding menu_bar_def Let_def hnd_def [symmetric] lst_def [symmetric] by blast+
  define total_bytes where "total_bytes = int (6 * Suc (length gs))"
  have "uint (of_nat (6 * Suc (length gs)) :: u16) = total_bytes"
    using B(5) by (simp add: total_bytes_def unsigned_of_nat take_bit_nat_eq_self del: of_nat_mult of_nat_Suc of_nat_add)
  moreover have "total_bytes < 32768" "6 < total_bytes" "total_bytes \<le> 4096" using B(4,5) by (auto simp: total_bytes_def Suc_le_eq)
  ultimately have t: "sint (of_nat (6 * Suc (length gs)) :: u16) = total_bytes" "6 < total_bytes" "total_bytes \<le> 4096"
    by (simp_all add: sint_uint signed_take_bit_int_eq_self del: of_nat_mult of_nat_Suc of_nat_add)
  have w: "(ucast (of_nat (6 * Suc (length gs)) :: u32) :: u16) = of_nat (6 * Suc (length gs))"
    by (rule unsigned_of_nat [THEN trans]) (use B(5) in \<open>simp add: take_bit_nat_eq_self\<close>)
  have off: "list_offsets total_bytes = map (\<lambda>i. of_nat (6 * Suc i)) [0..<length gs]"
  proof -
    have "nat ((total_bytes - 1) div 6) = length gs" by (simp add: total_bytes_def)
    then show ?thesis by (simp add: list_offsets_def)
  qed
  have en: "menu_entry s (lst + of_nat (6 * Suc i)) = Some (show_menu (gs ! i))" if i: "i < length gs" for i
  proof -
    define a where "a = lst + of_nat (6 * Suc i)"
    define info where "info = ReadMacInt32 (dmem s) (ReadMacInt32 (dmem s) a)"
    have A: "in_ram (ReadMacInt32 (dmem s) a) s" "in_ram info s" "menu_ok (gs ! i)" "begins (dmem s) info (encode_menu (gs ! i))"
      "plain_block (dmem s) info (length (encode_menu (gs ! i)))"
      using B(7) i unfolding menu_at_def Let_def info_def a_def by blast+
    have "info < 0xffff0000" using A(2) B(1) by (auto simp: in_ram_def intro: less_le_trans)
    then have "unat info + 4096 < 2 ^ 32" by (simp add: word_less_nat_alt)
    then have "decode_menu (dmem s) info = show_menu (gs ! i)" by (rule decode_menu_encoded [OF A(4,5,3)])
    then show ?thesis using A(1,2) unfolding a_def [symmetric] menu_entry_def Let_def info_def [symmetric] by simp
  qed
  have "Toolbox_SnapshotMenuBar s = List.map_filter (\<lambda>off. menu_entry s (lst + off)) (list_offsets total_bytes)"
    using assms(1) B(2,3) t unfolding Toolbox_SnapshotMenuBar_def Let_def hnd_def [symmetric] lst_def [symmetric] B(6) w
    by simp
  also have "\<dots> = map (\<lambda>i. show_menu (gs ! i)) [0..<length gs]"
    unfolding off map_filter_def using en
    by (intro nth_equalityI) (simp_all add: filter_map o_def del: of_nat_mult of_nat_Suc)
  also have "\<dots> = map show_menu gs" by (rule nth_equalityI) simp_all
  finally show ?thesis .
qed

subsection \<open>Looking an item up\<close>

lemma find_shown_item:
  assumes "i < length (gm_items g)" "length (gm_items g) < 30000"
  shows "find (\<lambda>it. item_index it = of_nat (Suc i)) (menu_items (show_menu g)) = Some (show_item g (Suc i) (gm_items g ! i))"
proof -
  have "(of_nat (Suc j) :: u16) = of_nat (Suc i) \<longleftrightarrow> j = i" if "j < length (gm_items g)" for j
    using that assms by (simp add: word_of_nat_eq_iff take_bit_nat_eq_self del: of_nat_Suc)
  then have "find (\<lambda>it. item_index it = of_nat (Suc i)) (map (\<lambda>j. show_item g (Suc j) (gm_items g ! j)) [0..<length (gm_items g)]) =
      Some (show_item g (Suc i) (gm_items g ! i))"
    unfolding find_Some_iff using assms(1)
    by (intro exI [of _ i]) (simp add: show_item_def del: of_nat_Suc)
  then show ?thesis by (simp add: show_menu_def)
qed

lemma items_short: "menu_ok g \<Longrightarrow> length (gm_items g) < 1000"
proof -
  assume "menu_ok g"
  then have "length (encode_items (gm_items g)) \<le> 4096" by (simp add: menu_ok_def encode_menu_def)
  then show ?thesis using length_items_bound [of "gm_items g"] by simp
qed

lemma menu_bar_menus_ok: "menu_bar s gs \<Longrightarrow> g \<in> set gs \<Longrightarrow> menu_ok g"
  by (auto simp: menu_bar_def menu_at_def Let_def in_set_conv_nth)

lemma lookup_shown:
  assumes "ToolboxTrap_HooksEnabled s" "menu_bar s gs" "distinct (map gm_id gs)" "g \<in> set gs" "0 < sint (gm_id g)"
    and "i < length (gm_items g)"
  shows "lookup_menu_item (gm_id g) (of_nat (Suc i)) s = Some (show_item g (Suc i) (gm_items g ! i))"
proof -
  have l: "length (gm_items g) < 1000" by (rule items_short [OF menu_bar_menus_ok [OF assms(2,4)]])
  have sn: "sint (of_nat (Suc i) :: u16) = int (Suc i)"
    using assms(6) l by (simp add: sint_uint unsigned_of_nat signed_take_bit_int_eq_self take_bit_nat_eq_self del: of_nat_Suc)
  obtain j where j: "j < length gs" "gs ! j = g" using assms(4) by (auto simp: in_set_conv_nth)
  have "find (\<lambda>h. menu_id h = gm_id g) (map show_menu gs) = Some (show_menu g)"
    unfolding find_Some_iff
  proof (intro exI conjI allI impI)
    show "j < length (map show_menu gs)" "menu_id (map show_menu gs ! j) = gm_id g" "show_menu g = map show_menu gs ! j"
      using j by (simp_all add: show_menu_def)
    fix k assume "k < j"
    then show "menu_id (map show_menu gs ! k) \<noteq> gm_id g"
      using assms(3) j by (auto simp: show_menu_def distinct_conv_nth)
  qed
  then show ?thesis
    using assms(5) sn snapshot_menu_bar [OF assms(1,2)] find_shown_item [of i g] assms(6) l
    by (simp add: lookup_menu_item_def)
qed

section \<open>A menu item chosen on the host\<close>

text \<open>
  What the interrupt does to a choice that waits, what the safe point writes, and what the hook
  on \<open>_MenuSelect\<close> answers.
\<close>

subsection \<open>The interrupt\<close>

definition waits :: "menu_state \<Rightarrow> u32 \<times> nat \<times> bool" where
  "waits s = (pending_menu_result s, pending_menu_timeout s, menu_event_posted s)"

lemma tick_view [simp]: "hook_view (tick_pending_menu s) = hook_view s"
  by (simp add: tick_pending_menu_def hook_view_def Let_def)

lemma poll_view [simp]: "hook_view (poll_menu_list s) = hook_view s" "waits (poll_menu_list s) = waits s"
  by (simp_all add: poll_menu_list_def hook_view_def waits_def Let_def)

lemma announce_view [simp]: "hook_view (announce_menus s) = hook_view s" "waits (announce_menus s) = waits s"
  by (simp_all add: announce_menus_def hook_view_def waits_def)

lemma irq_view: "hook_view (Toolbox_ProcessPendingMenuBarSync s) = hook_view s"
proof -
  have p: "hook_view (s\<lparr>menu_bar_sync_pending := b\<rparr>) = hook_view s" "hook_view (s\<lparr>menu_syncs := n\<rparr>) = hook_view s" for s b n
    by (simp_all add: hook_view_def)
  show ?thesis by (simp add: Toolbox_ProcessPendingMenuBarSync_def Let_def p)
qed

lemma irq_waits:
  "ToolboxTrap_HooksEnabled s \<Longrightarrow> waits (Toolbox_ProcessPendingMenuBarSync s) = waits (tick_pending_menu s)"
proof -
  have p: "waits (s\<lparr>menu_bar_sync_pending := b\<rparr>) = waits s" "waits (s\<lparr>menu_syncs := n\<rparr>) = waits s" for s b n
    by (simp_all add: waits_def)
  show "ToolboxTrap_HooksEnabled s \<Longrightarrow> waits (Toolbox_ProcessPendingMenuBarSync s) = waits (tick_pending_menu s)"
    by (simp add: Toolbox_ProcessPendingMenuBarSync_def Let_def p)
qed

interpretation irq: hook_client Toolbox_ProcessPendingMenuBarSync
  by unfold_locales (rule irq_view)

interpretation chosen: hook_client "\<lambda>s. snd (Toolbox_DispatchGuestMenuSelect ident index s)"
  by unfold_locales (simp add: Toolbox_DispatchGuestMenuSelect_def hook_view_def split: option.splits)

lemma waits_iterate:
  assumes "ToolboxTrap_HooksEnabled s" "waits s = (v, kMenuResultTimeout, b)" "\<not> sint v < 0"
  shows "waits ((Toolbox_ProcessPendingMenuBarSync ^^ n) s) =
     (if n < kMenuResultTimeout then (v, kMenuResultTimeout - n, b) else (- 1, 0, False))"
proof (induction n)
  case 0
  show ?case using assms(2) by (simp add: kMenuResultTimeout_def)
next
  case (Suc n)
  define u where "u = (Toolbox_ProcessPendingMenuBarSync ^^ n) s"
  have "ToolboxTrap_HooksEnabled u" unfolding u_def irq.enabled_iterate by (rule assms(1))
  then have "waits ((Toolbox_ProcessPendingMenuBarSync ^^ Suc n) s) = waits (tick_pending_menu u)"
    by (simp add: irq_waits u_def)
  then show ?case using Suc assms(3) unfolding u_def [symmetric]
    by (auto simp: waits_def tick_pending_menu_def Let_def kMenuResultTimeout_def split: if_splits)
qed

subsection \<open>The choice\<close>

definition choice_word :: "u16 \<Rightarrow> u16 \<Rightarrow> u32" where
  "choice_word ident index = push_bit 16 (ucast ident) OR ucast index"

lemma choice_word_parts:
  "(ucast (drop_bit 16 (choice_word a b)) :: u16) = a" "(ucast (choice_word a b AND 0xffff) :: u16) = b"
  "be32 (choice_word a b) = be16 a @ be16 b"
proof -
  show "(ucast (drop_bit 16 (choice_word a b)) :: u16) = a"
    by (rule bit_word_eqI) (auto simp: choice_word_def bit_simps dest: bit_imp_le_length)
  show "(ucast (choice_word a b AND 0xffff) :: u16) = b"
    unfolding mask_16_u32 by (rule bit_word_eqI) (auto simp: choice_word_def bit_simps)
  have "ucast (drop_bit 24 (choice_word a b)) = (ucast (drop_bit 8 a) :: u8)" "ucast (drop_bit 16 (choice_word a b)) = (ucast a :: u8)"
    "ucast (drop_bit 8 (choice_word a b)) = (ucast (drop_bit 8 b) :: u8)" "ucast (choice_word a b) = (ucast b :: u8)"
    by (rule bit_word_eqI; auto simp: choice_word_def bit_simps dest: bit_imp_le_length)+
  then show "be32 (choice_word a b) = be16 a @ be16 b" by (simp add: be32_def be16_def)
qed

lemma choice_word_positive: "0 \<le> sint a \<Longrightarrow> \<not> sint (choice_word a b) < 0"
proof -
  assume "0 \<le> sint a"
  then have "\<not> bit a 15" using bit_last_iff [of a] by simp
  then have "\<not> bit (choice_word a b) 31" by (auto simp: choice_word_def bit_simps dest: bit_imp_le_length)
  then show ?thesis using bit_last_iff [of "choice_word a b"] by simp
qed

lemma choice_taken:
  assumes "fst (Toolbox_DispatchGuestMenuSelect ident index s)"
  shows "ToolboxTrap_HooksEnabled s" "0 < sint ident" "\<exists>it. lookup_menu_item ident index s = Some it \<and> \<not> is_submenu it"
    "waits (snd (Toolbox_DispatchGuestMenuSelect ident index s)) = (choice_word ident index, kMenuResultTimeout, False)"
proof -
  show "ToolboxTrap_HooksEnabled s" "\<exists>it. lookup_menu_item ident index s = Some it \<and> \<not> is_submenu it"
    "waits (snd (Toolbox_DispatchGuestMenuSelect ident index s)) = (choice_word ident index, kMenuResultTimeout, False)"
    using assms by (auto simp: Toolbox_DispatchGuestMenuSelect_def choice_word_def waits_def split: if_splits option.splits)
  then show "0 < sint ident" by (auto simp: lookup_menu_item_def split: if_splits)
qed

subsection \<open>The safe point\<close>

definition mouse_down :: "u32 \<Rightarrow> u8 list" where
  "mouse_down tick_count = be16 1 @ be32 0 @ be32 tick_count @ be16 8 @ be16 20 @ be16 0"

lemma event_bytes:
  assumes "plain_block m ev 16"
  shows "WriteMacInt16 (ev + kEvt_Modifiers) 0 (WriteMacInt16 (ev + kEvt_WhereH) kMenuEventH
      (WriteMacInt16 (ev + kEvt_WhereV) kMenuEventV (WriteMacInt32 (ev + kEvt_When) x
        (WriteMacInt32 (ev + kEvt_Message) 0 (WriteMacInt16 (ev + kEvt_What) kEvent_MouseDown m))))) =
     store ev (mouse_down x) m"
proof -
  have p: "plain m (ev + 0)" "plain m (ev + 2)" "plain m (ev + 6)" "plain m (ev + 10)" "plain m (ev + 12)" "plain m (ev + 14)"
    using plain_blockD [OF assms, of 0] plain_blockD [OF assms, of 2] plain_blockD [OF assms, of 6] plain_blockD [OF assms, of 10]
      plain_blockD [OF assms, of 12] plain_blockD [OF assms, of 14] by simp_all
  show ?thesis unfolding event_record
    by (simp only: write_stores routing_write p) (simp add: mouse_down_def be16_def be32_def add.assoc)
qed

lemma ticks_kept:
  assumes "plain_block m ev 16" "\<not> ev < 0x1000" "unat ev + 16 \<le> 2 ^ 32"
  shows "ReadMacInt32 (WriteMacInt32 (ev + kEvt_Message) 0 (WriteMacInt16 (ev + kEvt_What) kEvent_MouseDown m)) LM_Ticks = ReadMacInt32 m LM_Ticks"
proof -
  define m' where "m' = WriteMacInt32 (ev + kEvt_Message) 0 (WriteMacInt16 (ev + kEvt_What) kEvent_MouseDown m)"
  have p: "plain m ev" "plain m (ev + 2)" using plain_blockD [OF assms(1), of 0] plain_blockD [OF assms(1), of 2] by simp_all
  have m': "m' = store ev (be16 1 @ be32 0) m" unfolding m'_def event_record
    by (simp add: write_stores p del: store.simps) (simp add: be16_def be32_def add.assoc)
  have "ram m' (LM_Ticks + of_nat k) = ram m (LM_Ticks + of_nat k)" if "k < 0x100" for k
    unfolding m'
  proof (rule ram_store_other, intro allI impI)
    fix i assume "i < length (be16 1 @ be32 (0 :: u32))"
    then have "unat (ev + of_nat i) = unat ev + i" using assms(3) by (simp add: unat_word_ariths unat_of_nat)
    moreover have "unat (LM_Ticks + of_nat k) < 0x1000" using that by (simp add: LM_Ticks_def unat_word_ariths unat_of_nat)
    ultimately show "LM_Ticks + of_nat k \<noteq> ev + of_nat i" using assms(2) by (auto simp: word_less_nat_alt)
  qed
  from this [of 0] this [of 1] this [of 2] this [of 3]
  have r: "ram m' LM_Ticks = ram m LM_Ticks" "ram m' (LM_Ticks + 1) = ram m (LM_Ticks + 1)" "ram m' (LM_Ticks + 2) = ram m (LM_Ticks + 2)"
    "ram m' (LM_Ticks + 3) = ram m (LM_Ticks + 3)" "ram m' (LM_Ticks + 2 + 1) = ram m (LM_Ticks + 2 + 1)" by (simp_all add: add.assoc)
  have rt: "regions m' = regions m" "rom_base m' = rom_base m" "rom_size m' = rom_size m" by (simp_all add: m'_def)
  show ?thesis unfolding m'_def [symmetric] ReadMacInt32_def ReadMacInt16_def routing_cong(2,3) [OF rt] r
    by (simp add: r add.assoc)
qed

lemma safe_point_placed:
  assumes "Toolbox_MenuSafePoint ev ra s = (True, t)" and p: "plain_block (dmem s) ev 16" "plain (dmem s) ra" "RAMSize s \<le> 0xffff0000"
  shows "t = s\<lparr>dmem := poke ra 1 (store ev (mouse_down (ReadMacInt32 (dmem s) LM_Ticks)) (dmem s)), menu_event_posted := True\<rparr>"
    "ReadMacInt16 (dmem s) ev = 0" "\<not> sint (pending_menu_result s) < 0" "\<not> menu_event_posted s" "in_ram ev s" "in_ram ra s"
    "lookup_menu_item (ucast (drop_bit 16 (pending_menu_result s))) (ucast (pending_menu_result s AND 0xffff)) s \<noteq> None"
proof -
  have c: "\<not> sint (pending_menu_result s) < 0" "\<not> menu_event_posted s" "in_ram ev s" "in_ram ra s" "ReadMacInt16 (dmem s) (ev + kEvt_What) = kEvent_Null"
    "lookup_menu_item (ucast (drop_bit 16 (pending_menu_result s))) (ucast (pending_menu_result s AND 0xffff)) s \<noteq> None"
    using assms(1) by (auto simp: Toolbox_MenuSafePoint_def Let_def split: if_splits)
  then show "ReadMacInt16 (dmem s) ev = 0" "\<not> sint (pending_menu_result s) < 0" "\<not> menu_event_posted s" "in_ram ev s" "in_ram ra s"
    "lookup_menu_item (ucast (drop_bit 16 (pending_menu_result s))) (ucast (pending_menu_result s AND 0xffff)) s \<noteq> None"
    by (simp_all add: event_record)
  have "ev < 0xffff0000" "\<not> ev < 0x1000" using c(3) p(3) by (auto simp: in_ram_def intro: less_le_trans)
  then have "unat ev + 16 \<le> 2 ^ 32" by (simp add: word_less_nat_alt)
  note tk = ticks_kept [OF p(1) \<open>\<not> ev < 0x1000\<close> this]
  have w: "WriteMacInt8 ra 1 m = poke ra 1 m" if "plain m ra" for m using that by (simp add: WriteMacInt8_def)
  have "t = s\<lparr>dmem := WriteMacInt8 ra 1 (store ev (mouse_down (ReadMacInt32 (dmem s) LM_Ticks)) (dmem s)), menu_event_posted := True\<rparr>"
    using assms(1) c event_bytes [OF p(1)] unfolding Toolbox_MenuSafePoint_def Let_def tk by simp
  then show "t = s\<lparr>dmem := poke ra 1 (store ev (mouse_down (ReadMacInt32 (dmem s) LM_Ticks)) (dmem s)), menu_event_posted := True\<rparr>"
    using w p(2) by simp
qed

lemma safe_point_refused: "\<not> fst (Toolbox_MenuSafePoint ev ra s) \<Longrightarrow> snd (Toolbox_MenuSafePoint ev ra s) = s"
  by (auto simp: Toolbox_MenuSafePoint_def Let_def split: if_splits)

subsection \<open>The answer\<close>

lemma menu_select_answer:
  assumes "\<not> sint (pending_menu_result s) < 0" "plain_block (dmem s) (areg r 7 + 8) 4"
  shows "Handle_MenuSelect r s =
     (TOOLBOX_ACTION_REPLACE, set_areg 1 (areg r 7 + 8) (set_areg 0 (ReadMacInt32 (dmem s) (areg r 7)) r),
      s\<lparr>pending_menu_result := - 1, pending_menu_timeout := 0, menu_event_posted := False,
        dmem := store (areg r 7 + 8) (be32 (pending_menu_result s)) (dmem s)\<rparr>)"
  using assms plain_blockD [OF assms(2), of 0]
  by (simp add: Handle_MenuSelect_def Let_def ToolboxArgs_def SetResultInt32_def Return_def write_stores add.commute [of 8] del: store.simps)

lemma pass_through_twice [simp]: "pass_through a (pass_through b r) = pass_through a r" "areg (pass_through a r) 7 = areg r 7"
  by (simp_all add: pass_through_def set_areg_def Let_def)

end
