(* ===== verification/Toolbox_Properties.thy ===== *)
theory Toolbox_Properties
  imports Toolbox_Bar M68k
begin

section \<open>Properties of the Toolbox bridge\<close>

text \<open>
  A hooked trap reaches its handler and can always get to the routine it replaced, over a second
  call, a reset and unregistering; the menu bar the host shows is the guest's, and a choice made
  on the host is answered once, to the application that owns the menu. The witnesses run on a
  trap manager that keeps its tables where the Macintosh has them, at \<open>0x400\<close> and \<open>0xe00\<close>.
\<close>

subsection \<open>A trap manager\<close>

definition table_addr :: "u16 \<Rightarrow> u32" where
  "table_addr n = (if is_tool_trap n then 0xe00 + 4 * ucast (n AND 0x3ff) else 0x400 + 4 * ucast (n AND 0xff))"

definition demo_tbl :: "mac \<Rightarrow> u16 \<Rightarrow> u32" where
  "demo_tbl m n = of_be32 (ram m (table_addr n)) (ram m (table_addr n + 1)) (ram m (table_addr n + 2)) (ram m (table_addr n + 3))"

definition demo_os :: "u32 \<Rightarrow> mac_os" where
  "demo_os pool word d0 a0 m =
     (if word = 0xa746 \<or> word = 0xa346 then (demo_tbl m (ucast d0), m)
      else if word = 0xa647 \<or> word = 0xa247 then (0, store (table_addr (ucast d0)) (be32 a0) m)
      else if word = 0xa71e then (pool, m)
      else (0, m))"

definition table_area :: "u32 set" where
  "table_area = {x. 0x400 \<le> x \<and> x < 0x800 \<or> 0xe00 \<le> x \<and> x < 0x1e00}"

lemma table_addr_bounds:
  "unat (table_addr n) = (if is_tool_trap n then 0xe00 + 4 * unat (n AND 0x3ff) else 0x400 + 4 * unat (n AND 0xff))"
  "unat (n AND 0x3ff) < 1024" "unat (n AND 0xff) < 256"
proof -
  have m: "(0x3ff :: u16) = mask 10" "(0xff :: u16) = mask 8" by (simp_all add: mask_eq_exp_minus_1)
  have "unat (take_bit 10 n) < 2 ^ 10" "unat (take_bit 8 n) < 2 ^ 8"
    by (simp_all only: unsigned_take_bit_eq take_bit_nat_less_exp)
  then show b: "unat (n AND 0x3ff) < 1024" "unat (n AND 0xff) < 256" by (simp_all add: m take_bit_eq_mask)
  show "unat (table_addr n) = (if is_tool_trap n then 0xe00 + 4 * unat (n AND 0x3ff) else 0x400 + 4 * unat (n AND 0xff))"
    using b by (simp add: table_addr_def unat_word_ariths unsigned_ucast_eq take_bit_nat_eq_self)
qed

lemma table_addr_slot: "trap_slot k = trap_slot n \<Longrightarrow> table_addr k = table_addr n"
  by (auto simp: trap_slot_def table_addr_def)

lemma table_addr_apart:
  assumes "trap_slot k \<noteq> trap_slot n" "i < 4" "j < 4"
  shows "table_addr k + of_nat i \<noteq> table_addr n + of_nat j"
proof
  have u: "unat (table_addr x + of_nat l) = unat (table_addr x) + l" if "l < 4" for x l
    using that table_addr_bounds [of x] by (auto simp: unat_word_ariths unat_of_nat split: if_splits)
  assume "table_addr k + of_nat i = table_addr n + of_nat j"
  then have "unat (table_addr k) + i = unat (table_addr n) + j" using u assms(2,3) by metis
  then have "is_tool_trap k = is_tool_trap n \<and> (if is_tool_trap k then k AND 0x3ff = n AND 0x3ff else k AND 0xff = n AND 0xff)"
    using assms(2,3) table_addr_bounds [of k] table_addr_bounds [of n] by (auto simp: word_unat_eq_iff split: if_splits)
  then show False using assms(1) by (simp add: trap_slot_def split: if_splits)
qed

lemma table_addr_area: "i < 4 \<Longrightarrow> table_addr n + of_nat i \<in> table_area"
proof -
  assume i: "i < 4"
  then have "unat (table_addr n + of_nat i) = unat (table_addr n) + i"
    using table_addr_bounds [of n] by (auto simp: unat_word_ariths unat_of_nat split: if_splits)
  then show ?thesis using i table_addr_bounds [of n] by (auto simp: table_area_def word_le_nat_alt word_less_nat_alt split: if_splits)
qed

lemma demo_tbl_fetch: "demo_tbl m n = (case fetch m (table_addr n) 4 of [a, b, c, d] \<Rightarrow> of_be32 a b c d | _ \<Rightarrow> 0)"
  by (simp add: demo_tbl_def fetch_def upt_rec)

lemma demo_trap_manager: "trap_manager (demo_os pool) demo_tbl table_area"
proof -
  have u: "(ucast (ucast n :: u32) :: u16) = n" for n by (rule bit_word_eqI) (auto simp: bit_simps)
  have "demo_tbl (store (table_addr n) (be32 a) m) k = (if trap_slot k = trap_slot n then a else demo_tbl m k)" for m n a k
  proof (cases "trap_slot k = trap_slot n")
    case True
    have "fetch (store (table_addr n) (be32 a) m) (table_addr n) 4 = be32 a"
      using fetch_store_same [of "be32 a" "table_addr n" m] by simp
    then show ?thesis using True table_addr_slot [OF True] of_be32_be32 [of a] by (simp add: demo_tbl_fetch be32_def)
  next
    case False
    have "fetch (store (table_addr n) (be32 a) m) (table_addr k) 4 = fetch m (table_addr k) 4"
      unfolding fetch_def using table_addr_apart [OF False] by (intro map_cong refl ram_store_other) auto
    then show ?thesis using False by (simp add: demo_tbl_fetch)
  qed
  moreover have "ram (store (table_addr n) (be32 a) m) x = ram m x" if "x \<notin> table_area" for m n a x
    using that table_addr_area by (intro ram_store_other) auto
  moreover have "demo_tbl m = demo_tbl m'" if "\<forall>x \<in> table_area. ram m x = ram m' x" for m m'
  proof
    fix n
    have "ram m (table_addr n + of_nat i) = ram m' (table_addr n + of_nat i)" if "i < 4" for i using table_addr_area [OF that] \<open>\<forall>x \<in> table_area. _ x\<close> by blast
    from this [of 0] this [of 1] this [of 2] this [of 3] show "demo_tbl m n = demo_tbl m' n" by (simp add: demo_tbl_def)
  qed
  ultimately show ?thesis
    unfolding trap_manager_def
    by (intro conjI allI impI) (simp_all add: demo_os_def get_trap_word_def set_trap_word_def u same_routing_store del: store.simps)
qed

subsection \<open>The emulator before the first boot\<close>

definition hooks_on :: prefs where
  "hooks_on = [(''toolbox_hooks'', PBool True)]"

definition no_menus :: "mac \<Rightarrow> menu_state" where
  "no_menus m = \<lparr>dmem = m, sysd = bare_host, traps = [], tb_prefs = hooks_on, trap_table = [], stub_pool_base = 0,
     stub_pool_cursor = 0, traps_installed = False, invalidated = [], RAMSize = 0x1000000, menu_bar_sync_pending = False,
     pending_menu_result = - 1, pending_menu_timeout = 0, menu_event_posted = False, have_last = False, last_fingerprint = 0,
     announced = False, announced_empty = False, menu_sync_callback = True, menu_syncs = 0\<rparr>"

definition menu_hooks_set :: "mac \<Rightarrow> menu_state" where
  "menu_hooks_set m = ToolboxMenu_RegisterTraps (no_menus m)"

definition menu_descs :: "toolbox_handler trap_desc list" where
  "menu_descs = map (\<lambda>(n, name, h). \<lparr>trap_num = n, trap_name = name, handler = Some h, stub_addr = 0, original_addr = 0, is_installed = False\<rparr>) menu_hooks"

lemma menu_hooks_set_eq: "menu_hooks_set m = (no_menus m)\<lparr>trap_table := menu_descs\<rparr>"
proof -
  have on: "ToolboxTrap_HooksEnabled ((no_menus m)\<lparr>trap_table := ds\<rparr>)" "ToolboxTrap_HooksEnabled (no_menus m)" for ds
    by (simp_all add: no_menus_def ToolboxTrap_HooksEnabled_def hooks_on_def PrefsFindBool_def find_node_def node_data_def node_matches_def)
  have reg: "snd (ToolboxTrap_Register n (Some nm) (Some h) ((no_menus m)\<lparr>trap_table := ds\<rparr>)) =
      (no_menus m)\<lparr>trap_table := ds @ [\<lparr>trap_num = n, trap_name = nm, handler = Some h, stub_addr = 0, original_addr = 0, is_installed = False\<rparr>]\<rparr>"
    if "n AND 0xf000 = 0xa000" "find_index (\<lambda>d. trap_num d = n) ds = None" "length ds < 128" for n nm h ds
    using that on by (simp add: ToolboxTrap_Register_def find_trap_desc_def trap_label_def MAX_TOOLBOX_TRAPS_def)
  have start: "no_menus m = (no_menus m)\<lparr>trap_table := []\<rparr>" by (simp add: no_menus_def)
  have "foldl (\<lambda>s (n, name, h). snd (ToolboxTrap_Register n (Some name) (Some h) s)) (no_menus m) menu_hooks = (no_menus m)\<lparr>trap_table := menu_descs\<rparr>"
    by (subst start) (simp add: menu_hooks_def menu_descs_def reg find_index_def upt_rec)
  then show ?thesis using on by (simp add: menu_hooks_set_def ToolboxMenu_RegisterTraps_def)
qed

lemma menu_hooks_set_reach: "registry_reach os (menu_hooks_set m)"
proof -
  have "registry_reach os (foldl (\<lambda>s (n, name, h). snd (ToolboxTrap_Register n (Some name) (Some h) s)) s hs)"
    if "registry_reach os s" for hs and s :: menu_state
    using that by (induction hs arbitrary: s) (auto intro: registry_reach.registers)
  moreover have "registry_reach os (no_menus m)" by (rule registry_reach.boot) (simp add: no_menus_def)
  ultimately show ?thesis by (simp add: menu_hooks_set_def ToolboxMenu_RegisterTraps_def)
qed

lemma menu_hooks_set_facts:
  "registry_ok (menu_hooks_set m)" "slots_distinct (menu_hooks_set m)" "ToolboxTrap_HooksEnabled (menu_hooks_set m)"
  "trap_table (menu_hooks_set m) \<noteq> []" "not_yet (menu_hooks_set m)" "dmem (menu_hooks_set m) = m"
proof -
  show "registry_ok (menu_hooks_set m)" using reach_type [OF menu_hooks_set_reach [of "demo_os 0" m]] by simp
  show "slots_distinct (menu_hooks_set m)"
    unfolding slots_distinct_def menu_hooks_set_eq menu_descs_def menu_hooks_def by (simp, code_simp)
  show "ToolboxTrap_HooksEnabled (menu_hooks_set m)"
    by (simp add: menu_hooks_set_eq no_menus_def ToolboxTrap_HooksEnabled_def hooks_on_def PrefsFindBool_def find_node_def node_data_def node_matches_def)
  show "trap_table (menu_hooks_set m) \<noteq> []" "not_yet (menu_hooks_set m)" "dmem (menu_hooks_set m) = m"
    by (simp_all add: menu_hooks_set_eq no_menus_def not_yet_def menu_descs_def menu_hooks_def)
qed

lemma menu_fields:
  fixes s t :: menu_state
  assumes "toolbox.more s = toolbox.more t"
  shows "pending_menu_result s = pending_menu_result t" "RAMSize s = RAMSize t" "waits s = waits t"
  using assms by (cases s; cases t; simp add: waits_def)+

lemma demo_heap:
  assumes "regions m = []" "rom_base m = 0x40800000" "p = 0x20000 \<or> p = 0x30000"
  shows "system_heap (demo_os p) demo_tbl table_area m p" "pool_at table_area m p"
proof -
  have "plain_block m p 1536" by (rule plain_bare [OF assms(1,2)]) (use assms(3) in auto)
  moreover have "p + of_nat i \<notin> table_area" if "i < 1536" for i
  proof -
    have "unat (p + of_nat i) = unat p + i" using that assms(3) by (auto simp: unat_word_ariths unat_of_nat)
    then show ?thesis using assms(3) by (auto simp: table_area_def word_less_nat_alt)
  qed
  ultimately show "pool_at table_area m p" using assms(3) by (auto simp: pool_at_def)
  then show "system_heap (demo_os p) demo_tbl table_area m p" by (simp add: system_heap_def demo_os_def same_routing_store)
qed

subsection \<open>The registry\<close>



text \<open>
  C9. After the installation the trap table sends every registered trap to a trampoline, at whose
  program counter (before or behind the emulator opcode) the dispatcher finds the trap, its handler
  and the routine the trap had before; a handler that passes through continues there with the
  stack of the caller. Traps nobody registered keep their routine.\<close>
theorem hooked_trap_reaches_handler:
  assumes "trap_manager os tbl T" "registry_ok s" "slots_distinct s" "ToolboxTrap_HooksEnabled s" "not_yet s"
    and "system_heap os tbl T (dmem s) p" "d \<in> set (trap_table s)" "k < 12"
  shows "ToolboxTrap_Dispatch call (tbl (dmem (ToolboxTrap_InstallAll os s)) (trap_num d) + of_nat k) r (ToolboxTrap_InstallAll os s) =
       (case call (the (handler d)) (trap_num d) (pass_through (tbl (dmem s) (trap_num d)) r) (tbl (dmem s) (trap_num d))
               (ToolboxTrap_InstallAll os s) of
          (action, r', s') \<Rightarrow> (if action = TOOLBOX_ACTION_PASSTHROUGH then pass_through (tbl (dmem s) (trap_num d)) r' else r', s')) \<and>
     (\<forall>n. (\<forall>e \<in> set (trap_table s). trap_slot n \<noteq> trap_slot (trap_num e)) \<longrightarrow>
          tbl (dmem (ToolboxTrap_InstallAll os s)) n = tbl (dmem s) n)"
proof -
  have ne: "trap_table s \<noteq> []" using assms(7) by auto
  note I = install_fresh [OF assms(1-4) ne assms(5,6)]
  have "(trap_num d, trap_name d, handler d) \<in> set (registered s)" using assms(7) by (auto simp: registered_def)
  then obtain e where e: "e \<in> set (trap_table (ToolboxTrap_InstallAll os s))" "trap_num e = trap_num d" "handler e = handler d"
    unfolding I(2) [symmetric] by (auto simp: registered_def)
  show ?thesis using dispatch_hooked [OF I(1) e(1) assms(8), of call r] I(3) by (simp add: e finish_dispatch_def)
qed

definition menu_select_desc :: "toolbox_handler trap_desc" where
  "menu_select_desc = \<lparr>trap_num = 0xa93d, trap_name = ''_MenuSelect'', handler = Some HookMenuSelect, stub_addr = 0, original_addr = 0, is_installed = False\<rparr>"

lemma menu_select_desc_in: "menu_select_desc \<in> set (trap_table (menu_hooks_set m))"
  by (simp add: menu_hooks_set_eq menu_descs_def menu_hooks_def menu_select_desc_def)

definition no_other :: "nat \<Rightarrow> u16 \<Rightarrow> m68k \<Rightarrow> u32 \<Rightarrow> menu_state \<Rightarrow> toolbox_action \<times> m68k \<times> menu_state" where
  "no_other i n r orig s = (TOOLBOX_ACTION_PASSTHROUGH, r, s)"

lemma hooked_trap_reaches_handler_witness:
  "areg (fst (ToolboxTrap_Dispatch (menu_call no_other)
      (demo_tbl (dmem (ToolboxTrap_InstallAll (demo_os 0x20000) (menu_hooks_set bare_mac))) 0xa93d + 2) zero_regs
      (ToolboxTrap_InstallAll (demo_os 0x20000) (menu_hooks_set bare_mac)))) 0 = 0"
proof -
  let ?s = "menu_hooks_set bare_mac" and ?os = "demo_os 0x20000"
  note F = menu_hooks_set_facts [of bare_mac]
  have h: "system_heap ?os demo_tbl table_area (dmem ?s) 0x20000" unfolding F(6) by (rule demo_heap) (simp_all add: bare_mac_def)
  have z: "demo_tbl bare_mac n = 0" for n by (simp add: demo_tbl_def bare_mac_def of_be32_def)
  have pr: "toolbox.more (ToolboxTrap_InstallAll ?os ?s) = toolbox.more ?s"
    by (rule install_fresh(6) [OF demo_trap_manager F(1-5) h])
  define t where "t = ToolboxTrap_InstallAll ?os ?s"
  have "pending_menu_result t = pending_menu_result ?s" unfolding t_def by (rule menu_fields(1) [OF pr])
  also have "\<dots> = - 1" by (simp add: menu_hooks_set_eq no_menus_def)
  finally have q: "menu_call no_other HookMenuSelect n r' a t = (TOOLBOX_ACTION_PASSTHROUGH, r', t)" for n r' a
    by (simp add: menu_call_def Handle_MenuSelect_def)
  have c: "trap_num menu_select_desc = 0xa93d" "the (handler menu_select_desc) = HookMenuSelect" by (simp_all add: menu_select_desc_def)
  have "ToolboxTrap_Dispatch (menu_call no_other) (demo_tbl (dmem t) 0xa93d + of_nat 2) zero_regs t = (pass_through 0 (pass_through 0 zero_regs), t)"
    using conjunct1 [OF hooked_trap_reaches_handler [OF demo_trap_manager F(1,2,3,5) h menu_select_desc_in, of 2 "menu_call no_other" zero_regs]]
    unfolding t_def [symmetric] c F(6) z q prod.case by simp
  then show ?thesis unfolding t_def [symmetric] by (simp add: pass_through_def set_areg_def Let_def)
qed

text \<open>The memory of a guest whose traps all lead to one routine of the ROM.\<close>

definition booted_mac :: mac where
  "booted_mac = bare_mac\<lparr>ram := (\<lambda>a. if 0x400 \<le> a \<and> a < 0x800 \<or> 0xe00 \<le> a \<and> a < 0x1e00 then 0x40 else 0)\<rparr>"

lemma booted_tbl:
  assumes "\<And>x. x \<in> table_area \<Longrightarrow> ram m x = 0x40"
  shows "demo_tbl m n = 0x40404040"
proof -
  have "ram m (table_addr n + of_nat i) = 0x40" if "i < 4" for i using assms table_addr_area [OF that] by blast
  from this [of 0] this [of 1] this [of 2] this [of 3] show ?thesis by (simp add: demo_tbl_def of_be32_def)
qed

lemma booted_mac_tbl: "demo_tbl booted_mac n = 0x40404040"
  by (rule booted_tbl) (simp add: booted_mac_def table_area_def)

definition hooked_mac :: menu_state where
  "hooked_mac = ToolboxTrap_InstallAll (demo_os 0x20000) (menu_hooks_set booted_mac)"

lemma hooked_mac_facts:
  "hooks_installed demo_tbl (\<lambda>n. 0x40404040) hooked_mac" "slots_distinct hooked_mac" "ToolboxTrap_HooksEnabled hooked_mac"
  "stub_pool_base hooked_mac = 0x20000" "registered hooked_mac = registered (menu_hooks_set booted_mac)"
proof -
  note F = menu_hooks_set_facts [of booted_mac]
  have "system_heap (demo_os 0x20000) demo_tbl table_area (dmem (menu_hooks_set booted_mac)) 0x20000"
    unfolding F(6) by (rule demo_heap) (simp_all add: booted_mac_def bare_mac_def)
  note I = install_fresh [OF demo_trap_manager F(1-5) this, folded hooked_mac_def]
  show "hooks_installed demo_tbl (\<lambda>n. 0x40404040) hooked_mac" using I(1) by (simp add: F(6) booted_mac_tbl [abs_def])
  show "stub_pool_base hooked_mac = 0x20000" "registered hooked_mac = registered (menu_hooks_set booted_mac)" by (rule I(7), rule I(2))
  have "slots_distinct x \<longleftrightarrow> distinct (map (\<lambda>(n, nm, h). trap_slot n) (registered x))" for x :: menu_state
    by (simp add: slots_distinct_def registered_def o_def)
  then show "slots_distinct hooked_mac" "ToolboxTrap_HooksEnabled hooked_mac"
    using F(2,3) I(2,5) by (simp_all add: ToolboxTrap_HooksEnabled_def)
qed

lemma hooked_mac_select:
  obtains d where "d \<in> set (trap_table hooked_mac)" "trap_num d = 0xa93d" "handler d = Some HookMenuSelect"
proof -
  have "(0xa93d, ''_MenuSelect'', Some HookMenuSelect) \<in> set (registered hooked_mac)"
    unfolding hooked_mac_facts(5) using menu_select_desc_in [of booted_mac] by (force simp: registered_def menu_select_desc_def)
  then show ?thesis using that by (auto simp: registered_def)
qed

text \<open>
  C11. With hooks on, every registered one installed in a trampoline of its own, installing again in the same boot makes exactly one call to Mac OS, which asks for the address of the first
  registered trap (\<open>_GetToolTrapAddress\<close> or \<open>_GetOSTrapAddress\<close> by its number), and changes nothing else. After a reset, when the
  trap table no longer holds the old trampolines, the same call hooks every registered trap again
  in a new pool, with the routines the rebuilt table has. Mac OS is assumed to keep a trap table that can be set and
  read, and to have room for the pool.\<close>
theorem hooks_survive_a_reset:
  assumes "trap_manager os tbl T" "hooks_installed tbl orig s" "slots_distinct s" "ToolboxTrap_HooksEnabled s" "trap_table s \<noteq> []"
    and "\<And>d. d \<in> set (trap_table s) \<Longrightarrow> tbl m (trap_num d) \<noteq> stub_addr d" "system_heap os tbl T m p"
  shows "ToolboxTrap_InstallAll os s =
       s\<lparr>traps := traps s @ [(get_trap_word (trap_num (hd (trap_table s))), ucast (trap_num (hd (trap_table s))), 0)]\<rparr> \<and>
     hooks_installed tbl (tbl m) (ToolboxTrap_InstallAll os (s\<lparr>dmem := m\<rparr>)) \<and>
     registered (ToolboxTrap_InstallAll os (s\<lparr>dmem := m\<rparr>)) = registered s \<and>
     stub_pool_base (ToolboxTrap_InstallAll os (s\<lparr>dmem := m\<rparr>)) = p"
proof -
  let ?s = "s\<lparr>dmem := m\<rparr>"
  have ti: "traps_installed ?s" "registry_ok s" using assms(2) by (simp_all add: hooks_installed_def)
  have on: "ToolboxTrap_HooksEnabled ?s" using assms(4) by (simp add: ToolboxTrap_HooksEnabled_def)
  obtain l where l: "ToolboxTrap_InstallAll os ?s = ToolboxTrap_InstallAll os (forget_previous_installation (?s\<lparr>traps := l\<rparr>))"
    using install_after_reset [OF assms(1) ti(1)] assms(5,6) on by auto
  define v where "v = ?s\<lparr>traps := l\<rparr>"
  define u where "u = forget_previous_installation v"
  have V: "registry_ok v" "slots_distinct v" "ToolboxTrap_HooksEnabled v" "trap_table v \<noteq> []" "dmem v = m" "registered v = registered s"
    using ti(2) assms(3-5) by (simp_all add: v_def registry_ok_def slots_distinct_def ToolboxTrap_HooksEnabled_def registered_def)
  note fg = forgotten [of v, folded u_def]
  have "ToolboxTrap_HooksEnabled u" using V(3) fg(7) by (simp add: ToolboxTrap_HooksEnabled_def)
  then have U: "registry_ok u" "slots_distinct u" "ToolboxTrap_HooksEnabled u" "trap_table u \<noteq> []" "not_yet u" "dmem u = m" "registered u = registered s"
    using fg V by simp_all
  have "system_heap os tbl T (dmem u) p" using assms(7) by (simp add: U(6))
  note I = install_fresh [OF assms(1) U(1-5) this]
  have "ToolboxTrap_InstallAll os s = s\<lparr>traps := traps s @ [(get_trap_word (trap_num (hd (trap_table s))), ucast (trap_num (hd (trap_table s))), 0)]\<rparr>"
    by (rule install_again [OF assms(1,2,4,5)])
  then show ?thesis using I(1,2,7) U(6,7) unfolding l v_def [symmetric] u_def [symmetric] by simp
qed

lemma hooks_survive_a_reset_witness:
  "stub_pool_base (ToolboxTrap_InstallAll (demo_os 0x30000) (hooked_mac\<lparr>dmem := booted_mac\<rparr>)) = 0x30000"
proof -
  note H = hooked_mac_facts
  obtain d where d: "d \<in> set (trap_table hooked_mac)" using hooked_mac_select by blast
  have ne: "demo_tbl booted_mac (trap_num e) \<noteq> stub_addr e" if "e \<in> set (trap_table hooked_mac)" for e
  proof -
    have "\<exists>j < 128. stub_addr e = slot_of 0x20000 j" using hook_stub_nonzero(2) [OF H(1) \<open>e \<in> _\<close>] unfolding H(4) .
    then obtain j where "j < 128" "stub_addr e = slot_of 0x20000 j" by blast
    then have "unat (stub_addr e) < 0x40404040" using unat_slot_of [of "0x20000" j] by simp
    then show ?thesis by (auto simp: booted_mac_tbl)
  qed
  have hp: "system_heap (demo_os 0x30000) demo_tbl table_area booted_mac 0x30000"
    by (rule demo_heap) (simp_all add: booted_mac_def bare_mac_def)
  have nn: "trap_table hooked_mac \<noteq> []" using d by (cases "trap_table hooked_mac") auto
  show ?thesis using hooks_survive_a_reset [OF demo_trap_manager H(1,2,3) nn ne hp] by blast
qed

text \<open>
  Unregistering an installed trap gives the trap table its old routine back, removes exactly its
  entry and leaves the other hooks working; guest code that still enters the old trampoline is
  passed to the old routine.\<close>
theorem unregistered_trap_is_restored:
  assumes "trap_manager os tbl T" "hooks_installed tbl orig s" "slots_distinct s"
    and "\<And>i. i < 1536 \<Longrightarrow> stub_pool_base s + of_nat i \<notin> T" "d \<in> set (trap_table s)" "orig (trap_num d) \<noteq> 0" "k < 12"
  shows "fst (ToolboxTrap_Unregister os (trap_num d) s) \<and>
     tbl (dmem (snd (ToolboxTrap_Unregister os (trap_num d) s))) (trap_num d) = orig (trap_num d) \<and>
     set (trap_table (snd (ToolboxTrap_Unregister os (trap_num d) s))) = {e \<in> set (trap_table s). trap_num e \<noteq> trap_num d} \<and>
     hooks_installed tbl orig (snd (ToolboxTrap_Unregister os (trap_num d) s)) \<and>
     ToolboxTrap_Dispatch call (stub_addr d + of_nat k) r (snd (ToolboxTrap_Unregister os (trap_num d) s)) =
       (pass_through (orig (trap_num d)) r, snd (ToolboxTrap_Unregister os (trap_num d) s))"
proof -
  have "registry_ok s" using assms(2) by (simp add: hooks_installed_def)
  then have "fst (ToolboxTrap_Unregister os (trap_num d) s)" by (rule unregister_result [OF _ assms(5), where os = os]) simp
  then show ?thesis
    using unregister_installed(1-3) [OF assms(1-6)] unregister_installed(4) [OF assms(1-6) assms(7), where call = call and r = r]
    by blast
qed

lemma unregistered_trap_is_restored_witness:
  "demo_tbl (dmem (snd (ToolboxTrap_Unregister (demo_os 0x20000) 0xa93d hooked_mac))) 0xa93d = 0x40404040"
proof -
  note H = hooked_mac_facts
  obtain d where d: "d \<in> set (trap_table hooked_mac)" "trap_num d = 0xa93d" using hooked_mac_select by blast
  have nt: "stub_pool_base hooked_mac + of_nat i \<notin> table_area" if "i < 1536" for i
    using demo_heap(2) [of booted_mac "0x20000"] that by (simp add: H(4) pool_at_def booted_mac_def bare_mac_def)
  show ?thesis using unregistered_trap_is_restored [OF demo_trap_manager H(1,2) nt d(1), of 0] d(2) by simp
qed

end
