(* ===== verification/Toolbox_Menu_Properties.thy ===== *)
theory Toolbox_Menu_Properties
  imports Toolbox_Properties
begin

section \<open>Properties of the menu bar bridge\<close>

text \<open>
  The host's copy of the menu bar, and the way of a choice made on the host: queued, handed to the
  application that owns the menu, answered once or given up after five seconds. The example is a
  guest with one menu of three items, hooked by the installation of \<open>Toolbox_Properties\<close>.
\<close>

subsection \<open>A guest with a menu bar\<close>

definition file_menu :: guest_menu where
  "file_menu = \<lparr>gm_id = 129, gm_definition = [0, 0, 0, 0, 0, 0, 0, 0], gm_flags = 0xfffffffb, gm_title = [0x46, 0x69, 0x6c, 0x65],
     gm_items = [\<lparr>gi_text = [0x4f, 0x70, 0x65, 0x6e], gi_icon = 0, gi_cmd = 0x4f, gi_mark = 0, gi_style = 0\<rparr>,
                 \<lparr>gi_text = [0x2d], gi_icon = 0, gi_cmd = 0, gi_mark = 0, gi_style = 0\<rparr>,
                 \<lparr>gi_text = [0x4d, 0x6f, 0x72, 0x65], gi_icon = 0, gi_cmd = 27, gi_mark = 5, gi_style = 0\<rparr>]\<rparr>"

text \<open>A handle and the master pointers at \<open>0x10000\<close>, the list at \<open>0x10010\<close>, the record at \<open>0x10020\<close>.\<close>

definition bar_bytes :: "u8 list" where
  "bar_bytes = be32 0x10010 @ be32 0x10020 @ replicate 8 0 @ be16 12 @ be32 0 @ be32 0x10004 @ replicate 6 0 @ encode_menu file_menu"

definition bar_mac :: mac where
  "bar_mac = booted_mac\<lparr>ram := (\<lambda>a. if a = 0xa1d then 1
      else if unat (a - 0x10000) < length bar_bytes then bar_bytes ! unat (a - 0x10000) else ram booted_mac a)\<rparr>"

definition bar_guest :: menu_state where
  "bar_guest = ToolboxTrap_InstallAll (demo_os 0x20000) (menu_hooks_set bar_mac)"

lemma bar_ram:
  "ram bar_mac x = (if x = 0xa1d then 1 else if unat (x - 0x10000) < 76 then bar_bytes ! unat (x - 0x10000) else ram booted_mac x)"
proof -
  have "length bar_bytes = 76" by code_simp
  then show ?thesis by (simp add: bar_mac_def)
qed

lemma bar_area: "x \<in> table_area \<Longrightarrow> ram bar_mac x = 0x40"
proof -
  assume x: "x \<in> table_area"
  then have "x < 0x1e00" "x \<noteq> 0xa1d" by (auto simp: table_area_def word_less_nat_alt word_le_nat_alt)
  then have "76 \<le> unat (x - 0x10000)" by (simp add: unat_sub_if' word_less_nat_alt)
  then show "ram bar_mac x = 0x40" using x \<open>x \<noteq> 0xa1d\<close> by (auto simp: bar_ram booted_mac_def table_area_def)
qed

lemma bar_guest_facts:
  "hooks_installed demo_tbl (\<lambda>n. 0x40404040) bar_guest" "ToolboxTrap_HooksEnabled bar_guest" "RAMSize bar_guest = 0x1000000"
  "waits bar_guest = (- 1, 0, False)" "stub_pool_base bar_guest = 0x20000" "registered bar_guest = registered (menu_hooks_set bar_mac)"
  "x \<notin> table_area \<Longrightarrow> x < 0x20000 \<Longrightarrow> ram (dmem bar_guest) x = ram bar_mac x"
  "n \<le> 0x10000 \<Longrightarrow> a < 0x40000000 \<Longrightarrow> plain_block (dmem bar_guest) a n"
proof -
  note F = menu_hooks_set_facts [of bar_mac]
  have b: "regions bar_mac = []" "rom_base bar_mac = 0x40800000" by (simp_all add: bar_mac_def booted_mac_def bare_mac_def)
  have h: "system_heap (demo_os 0x20000) demo_tbl table_area (dmem (menu_hooks_set bar_mac)) 0x20000"
    unfolding F(6) by (rule demo_heap) (simp_all add: b)
  note I = install_fresh [OF demo_trap_manager F(1-5) h, folded bar_guest_def]
  have t: "demo_tbl bar_mac = (\<lambda>n. 0x40404040)" by (rule ext, rule booted_tbl, rule bar_area)
  show "hooks_installed demo_tbl (\<lambda>n. 0x40404040) bar_guest" using I(1) by (simp only: F(6) t)
  show "ToolboxTrap_HooksEnabled bar_guest" using F(3) I(5) by (simp add: ToolboxTrap_HooksEnabled_def)
  have s: "RAMSize (menu_hooks_set bar_mac) = 0x1000000" "waits (menu_hooks_set bar_mac) = (- 1, 0, False)"
    by (simp_all add: menu_hooks_set_eq no_menus_def waits_def)
  show "RAMSize bar_guest = 0x1000000" "waits bar_guest = (- 1, 0, False)"
    using menu_fields(2,3) [OF I(6)] s by simp_all
  show "stub_pool_base bar_guest = 0x20000" "registered bar_guest = registered (menu_hooks_set bar_mac)" by (rule I(7), rule I(2))
  show "ram (dmem bar_guest) x = ram bar_mac x" if x: "x \<notin> table_area" "x < 0x20000"
  proof -
    have ne: "x \<noteq> 0x20000 + of_nat i" if "i < 1536" for i
    proof -
      have "unat (0x20000 + of_nat i :: u32) = 0x20000 + i" using that by (simp add: unat_word_ariths unat_of_nat)
      then show ?thesis using x(2) by (auto simp: word_less_nat_alt)
    qed
    show ?thesis using I(8) [OF x(1) ne] by (simp add: demo_os_def F(6))
  qed
  have r: "regions (dmem bar_guest) = []" "rom_base (dmem bar_guest) = 0x40800000"
    using I(4) b F(6) by (simp_all add: same_routing_def)
  show "n \<le> 0x10000 \<Longrightarrow> a < 0x40000000 \<Longrightarrow> plain_block (dmem bar_guest) a n" by (rule plain_bare [OF r])
qed

lemma bar_guest_select:
  obtains d where "d \<in> set (trap_table bar_guest)" "trap_num d = 0xa93d" "handler d = Some HookMenuSelect"
proof -
  have "(0xa93d, ''_MenuSelect'', Some HookMenuSelect) \<in> set (registered bar_guest)"
    unfolding bar_guest_facts(6) using menu_select_desc_in [of bar_mac] by (force simp: registered_def menu_select_desc_def)
  then show ?thesis using that by (auto simp: registered_def)
qed

lemma bar_guest_menu: "menu_bar bar_guest [file_menu]"
proof -
  let ?m = "dmem bar_guest"
  note G = bar_guest_facts
  have na: "0x10000 + of_nat i \<notin> table_area" "0x10000 + of_nat i < (0x20000 :: u32)" "unat ((0x10000 + of_nat i :: u32) - 0x10000) = i"
      "0x10000 + of_nat i \<noteq> (0xa1d :: u32)" if "i < 76" for i
  proof -
    have u: "unat (0x10000 + of_nat i :: u32) = 0x10000 + i" "unat (of_nat i :: u32) = i" using that by (simp_all add: unat_word_ariths unat_of_nat)
    then show "0x10000 + of_nat i \<notin> table_area" "0x10000 + of_nat i < (0x20000 :: u32)"
      using that by (auto simp: table_area_def word_less_nat_alt word_le_nat_alt)
    have "unat (0x10000 + of_nat i :: u32) \<noteq> unat (0xa1d :: u32)" unfolding u(1) by simp
    then show "0x10000 + of_nat i \<noteq> (0xa1d :: u32)" by metis
    show "unat ((0x10000 + of_nat i :: u32) - 0x10000) = i" using u(2) by simp
  qed
  have "length bar_bytes = 76" by code_simp
  then have "begins ?m 0x10000 bar_bytes" unfolding begins_def
    by (intro nth_equalityI) (simp_all add: fetch_def G(7) na bar_ram unat_of_nat_small)
  then have B: "begins ?m 0x10000 (be32 0x10010)" "begins ?m 0x10004 (be32 0x10020)" "begins ?m 0x10010 (be16 12)"
    "begins ?m 0x10016 (be32 0x10004)" "begins ?m 0x10020 (encode_menu file_menu)"
    unfolding bar_bytes_def begins_append by simp_all
  have P: "plain_block ?m a n" if "a < 0x40000000" "n \<le> 0x10000" for a n using G(8) that by blast
  have lm: "begins ?m 0xa1c (be32 0x10000)"
  proof -
    have "0xa1c + of_nat i \<notin> table_area" "0xa1c + of_nat i < (0x20000 :: u32)" if "i < 4" for i
    proof -
      have "unat (0xa1c + of_nat i :: u32) = 0xa1c + i" using that by (simp add: unat_word_ariths unat_of_nat)
      then show "0xa1c + of_nat i \<notin> table_area" "0xa1c + of_nat i < (0x20000 :: u32)"
        using that by (auto simp: table_area_def word_less_nat_alt word_le_nat_alt)
    qed
    then have "fetch ?m 0xa1c 4 = fetch bar_mac 0xa1c 4" unfolding fetch_def by (intro map_cong refl G(7)) auto
    also have "\<dots> = be32 0x10000" by (simp add: fetch_def upt_rec bar_ram booted_mac_def bare_mac_def be32_def)
    finally show ?thesis by (simp add: begins_def)
  qed
  have R: "ReadMacInt32 ?m LM_MenuList = 0x10000" "ReadMacInt32 ?m 0x10000 = 0x10010" "ReadMacInt32 ?m 0x10004 = 0x10020"
    "ReadMacInt16 ?m 0x10010 = 12" "ReadMacInt32 ?m 0x10016 = 0x10004"
    using read_be32 [OF lm] read_be32 [OF B(1)] read_be32 [OF B(2)] read_be16 [OF B(3)] read_be32 [OF B(4)] P by (simp_all add: LM_MenuList_def)
  have ok: "menu_ok file_menu" unfolding menu_ok_def item_ok_def by code_simp
  have "length (encode_menu file_menu) \<le> 0x10000" using ok by (simp add: menu_ok_def)
  then show ?thesis using R B(5) P ok by (simp add: menu_bar_def menu_at_def Let_def in_ram_def G(3))
qed

subsection \<open>What the host shows\<close>

text \<open>
  C13. The menu bar the host decodes is the one the Menu Manager keeps: menu by menu and item by item
  with text, command, mark, submenu and enabled state; when no two menus share a number, an item of a menu with a
  positive number is found again by its number. With hooks off nothing is read. The header documents titles and texts as UTF-8; the code
  does not convert: what comes back, and what is stated here, are the Mac Roman bytes of the guest (only the title of
  the Apple menu is replaced by a UTF-8 character).\<close>
theorem menu_bar_round_trip:
  assumes "menu_bar s gs" "distinct (map gm_id gs)"
  shows "Toolbox_SnapshotMenuBar s = (if ToolboxTrap_HooksEnabled s then map show_menu gs else []) \<and>
     (ToolboxTrap_HooksEnabled s \<longrightarrow>
       (\<forall>g \<in> set gs. 0 < sint (gm_id g) \<longrightarrow>
         (\<forall>i < length (gm_items g). lookup_menu_item (gm_id g) (of_nat (Suc i)) s = Some (show_item g (Suc i) (gm_items g ! i)))))"
  using snapshot_menu_bar [OF _ assms(1)] lookup_shown [OF _ assms] by (auto simp: Toolbox_SnapshotMenuBar_def)

lemma menu_bar_round_trip_witness:
  "map (\<lambda>it. (item_text it, item_enabled it, is_submenu it)) (menu_items (hd (Toolbox_SnapshotMenuBar bar_guest))) =
     [([0x4f, 0x70, 0x65, 0x6e], True, False), ([0x2d], False, False), ([0x4d, 0x6f, 0x72, 0x65], True, True)]"
proof -
  have "Toolbox_SnapshotMenuBar bar_guest = [show_menu file_menu]"
    using menu_bar_round_trip [OF bar_guest_menu] bar_guest_facts(2) by simp
  moreover have "map (\<lambda>it. (item_text it, item_enabled it, is_submenu it)) (menu_items (show_menu file_menu)) =
     [([0x4f, 0x70, 0x65, 0x6e], True, False), ([0x2d], False, False), ([0x4d, 0x6f, 0x72, 0x65], True, True)]" by code_simp
  ultimately show ?thesis by simp
qed

subsection \<open>A choice\<close>

text \<open>
  C10. With hooks on and installed and menus of different numbers, an item of a menu with a positive number that is chosen on the host (not a submenu
  title) is answered to the next call of \<open>_MenuSelect\<close>: the handler returns to the caller with the argument popped and
  the menu's and item's number in the result slot, which must be plain memory. The choice is then used up: another
  \<open>_MenuSelect\<close> runs the routine of the ROM. The code differs from its header here: \<open>toolbox_menu.h\<close>
  documents that an item without a keyboard shortcut is not dispatched, the code dispatches every such item, and the
  theorem states what the code does, with and without a shortcut.\<close>
theorem choice_is_answered_once:
  assumes "hooks_installed tbl orig s" "d \<in> set (trap_table s)" "trap_num d = 0xa93d" "handler d = Some HookMenuSelect"
    and "ToolboxTrap_HooksEnabled s" "menu_bar s gs" "distinct (map gm_id gs)" "g \<in> set gs" "0 < sint (gm_id g)"
    and "i < length (gm_items g)" "gi_cmd (gm_items g ! i) \<noteq> kMenuHierCmd" "k < 12"
    and "plain_block (dmem s) (areg r 7 + 8) 4"
    and "t = snd (Toolbox_DispatchGuestMenuSelect (gm_id g) (of_nat (Suc i)) s)"
    and "ToolboxTrap_Dispatch (menu_call other) (tbl (dmem t) 0xa93d + of_nat k) r t = (r', u)"
  shows "fst (Toolbox_DispatchGuestMenuSelect (gm_id g) (of_nat (Suc i)) s) \<and>
     areg r' 0 = ReadMacInt32 (dmem s) (areg r 7) \<and> areg r' 1 = areg r 7 + 8 \<and>
     begins (dmem u) (areg r 7 + 8) (be16 (gm_id g) @ be16 (of_nat (Suc i))) \<and>
     (\<forall>r2. menu_call other HookMenuSelect 0xa93d r2 (orig 0xa93d) u = (TOOLBOX_ACTION_PASSTHROUGH, r2, u))"
proof -
  define v where "v = choice_word (gm_id g) (of_nat (Suc i))"
  have "lookup_menu_item (gm_id g) (of_nat (Suc i)) s = Some (show_item g (Suc i) (gm_items g ! i))"
    by (rule lookup_shown [OF assms(5-10)])
  then have f: "fst (Toolbox_DispatchGuestMenuSelect (gm_id g) (of_nat (Suc i)) s)"
    using assms(5,11) by (simp add: Toolbox_DispatchGuestMenuSelect_def show_item_def)
  have w: "pending_menu_result t = v" using choice_taken(4) [OF f] by (simp add: waits_def v_def assms(14))
  have pos: "\<not> sint v < 0" unfolding v_def by (rule choice_word_positive) (use assms(9) in simp)
  have mt: "dmem t = dmem s" using chosen.keeps_view [of "gm_id g" "of_nat (Suc i)" s] by (simp add: assms(14) hook_view_def)
  define q where "q = pass_through (orig 0xa93d) r"
  have q7: "areg q 7 = areg r 7" by (simp add: q_def)
  have "ToolboxTrap_Dispatch (menu_call other) (tbl (dmem s) (trap_num d) + of_nat k) r t =
      finish_dispatch (orig 0xa93d) (menu_call other HookMenuSelect 0xa93d q (orig 0xa93d) t)"
    using chosen.dispatch_iterate [OF assms(1,2,12), of "menu_call other" r 1 "gm_id g" "of_nat (Suc i)"]
    by (simp add: assms(3,4,14) q_def)
  also have "menu_call other HookMenuSelect 0xa93d q (orig 0xa93d) t =
     (TOOLBOX_ACTION_REPLACE, set_areg 1 (areg r 7 + 8) (set_areg 0 (ReadMacInt32 (dmem s) (areg r 7)) q),
      t\<lparr>pending_menu_result := - 1, pending_menu_timeout := 0, menu_event_posted := False, dmem := store (areg r 7 + 8) (be32 v) (dmem s)\<rparr>)"
    using menu_select_answer [of t q] pos assms(13) by (simp add: menu_call_def q7 mt w)
  finally have ru: "r' = set_areg 1 (areg r 7 + 8) (set_areg 0 (ReadMacInt32 (dmem s) (areg r 7)) q)"
    "u = t\<lparr>pending_menu_result := - 1, pending_menu_timeout := 0, menu_event_posted := False, dmem := store (areg r 7 + 8) (be32 v) (dmem s)\<rparr>"
    using assms(15) by (simp_all add: assms(3) mt finish_dispatch_def)
  have "begins (dmem u) (areg r 7 + 8) (be32 v)"
    unfolding begins_def ru(2) using fetch_store_same [of "be32 v" "areg r 7 + 8" "dmem s"] by simp
  then show ?thesis using f by (simp add: ru choice_word_parts(3) v_def set_areg_def menu_call_def Handle_MenuSelect_def)
qed

definition caller_regs :: m68k where
  "caller_regs = \<lparr>dreg = (\<lambda>n. 0), areg = (\<lambda>n. if n = 7 then 0x8000 else 0), sreg = 0\<rparr>"

lemma choice_is_answered_once_witness:
  "fst (Toolbox_DispatchGuestMenuSelect 129 1 bar_guest)"
proof -
  note G = bar_guest_facts
  obtain d where d: "d \<in> set (trap_table bar_guest)" "trap_num d = 0xa93d" "handler d = Some HookMenuSelect"
    using bar_guest_select by blast
  define t where "t = snd (Toolbox_DispatchGuestMenuSelect 129 1 bar_guest)"
  obtain r' u where run: "ToolboxTrap_Dispatch (menu_call no_other) (demo_tbl (dmem t) 0xa93d + of_nat 2) caller_regs t = (r', u)" by fastforce
  have m: "gm_id file_menu = 129" "0 < sint (129 :: u16)" "0 < length (gm_items file_menu)" "gi_cmd (gm_items file_menu ! 0) \<noteq> kMenuHierCmd"
    by (simp_all add: file_menu_def kMenuHierCmd_def)
  have p: "plain_block (dmem bar_guest) (areg caller_regs 7 + 8) 4" by (rule G(8)) (simp_all add: caller_regs_def)
  show ?thesis
    using choice_is_answered_once [OF G(1) d G(2) bar_guest_menu _ _ _ m(3,4) _ p, where t = t and k = 2 and other = no_other and r' = r' and u = u]
      m(1,2) run by (simp add: t_def)
qed

text \<open>
  A choice no application asks about waits for 299 interrupts and is given up by the 300th: until
  then every interrupt leaves it and the hooks alone, from then on \<open>_MenuSelect\<close> runs the routine of the ROM and
  no event is placed.\<close>
theorem choice_expires:
  assumes "fst (Toolbox_DispatchGuestMenuSelect ident index s)"
    and "u = (Toolbox_ProcessPendingMenuBarSync ^^ n) (snd (Toolbox_DispatchGuestMenuSelect ident index s))"
  shows "hook_view u = hook_view s \<and>
     (if n < 300 then pending_menu_result u = push_bit 16 (ucast ident) OR ucast index \<and> pending_menu_timeout u = 300 - n
      else Handle_MenuSelect r u = (TOOLBOX_ACTION_PASSTHROUGH, r, u) \<and> Toolbox_MenuSafePoint ev ra u = (False, u))"
proof -
  define t where "t = snd (Toolbox_DispatchGuestMenuSelect ident index s)"
  note c = choice_taken [OF assms(1), folded t_def]
  have hv: "hook_view t = hook_view s" using chosen.keeps_view by (simp add: t_def)
  have on: "ToolboxTrap_HooksEnabled t" using hook_view_cong(2) [OF hv] c(1) by simp
  have w: "waits u = (if n < kMenuResultTimeout then (choice_word ident index, kMenuResultTimeout - n, False) else (- 1, 0, False))"
    unfolding assms(2) t_def [symmetric] by (rule waits_iterate [OF on c(4) choice_word_positive]) (use c(2) in simp)
  moreover have "hook_view u = hook_view s" unfolding assms(2) t_def [symmetric] irq.view_iterate by (rule hv)
  ultimately show ?thesis
    by (auto simp: waits_def kMenuResultTimeout_def choice_word_def Handle_MenuSelect_def Toolbox_MenuSafePoint_def split: if_splits)
qed

lemma choice_expires_witness:
  "Handle_MenuSelect caller_regs ((Toolbox_ProcessPendingMenuBarSync ^^ 300) (snd (Toolbox_DispatchGuestMenuSelect 129 1 bar_guest))) =
     (TOOLBOX_ACTION_PASSTHROUGH, caller_regs, (Toolbox_ProcessPendingMenuBarSync ^^ 300) (snd (Toolbox_DispatchGuestMenuSelect 129 1 bar_guest)))"
proof -
  have "lookup_menu_item (gm_id file_menu) (of_nat (Suc 0)) bar_guest = Some (show_item file_menu (Suc 0) (gm_items file_menu ! 0))"
    by (rule lookup_shown [OF bar_guest_facts(2) bar_guest_menu]) (simp_all add: file_menu_def)
  then have "fst (Toolbox_DispatchGuestMenuSelect 129 1 bar_guest)"
    using bar_guest_facts(2) by (simp add: Toolbox_DispatchGuestMenuSelect_def show_item_def file_menu_def kMenuHierCmd_def)
  from choice_expires [OF this refl, of 300 caller_regs 0 0] show ?thesis by simp
qed

text \<open>
  The safe point gives an application a mouse click in the menu bar only when a choice waits that was not
  handed over yet, only in place of a null event, and only where the visible menu bar has the chosen
  menu and item; it then writes the sixteen bytes of the event with the current time and the result, nothing
  else, and does so once per choice. Otherwise it changes nothing.\<close>
theorem safe_point_asks_the_owner:
  assumes "Toolbox_MenuSafePoint ev ra s = (placed, t)" "plain_block (dmem s) ev 16" "plain (dmem s) ra" "RAMSize s \<le> 0xffff0000"
    and "\<And>i. i < 16 \<Longrightarrow> ra \<noteq> ev + of_nat i"
  shows "if placed
     then ReadMacInt16 (dmem s) ev = 0 \<and> 0 \<le> sint (pending_menu_result s) \<and> \<not> menu_event_posted s \<and>
       lookup_menu_item (ucast (drop_bit 16 (pending_menu_result s))) (ucast (pending_menu_result s AND 0xffff)) s \<noteq> None \<and>
       begins (dmem t) ev (be16 1 @ be32 0 @ be32 (ReadMacInt32 (dmem s) LM_Ticks) @ be16 8 @ be16 20 @ be16 0) \<and> ram (dmem t) ra = 1 \<and>
       (\<forall>x. x \<noteq> ra \<longrightarrow> (\<forall>i < 16. x \<noteq> ev + of_nat i) \<longrightarrow> ram (dmem t) x = ram (dmem s) x) \<and>
       pending_menu_result t = pending_menu_result s \<and> Toolbox_MenuSafePoint ev' ra' t = (False, t)
     else t = s"
proof (cases placed)
  case True
  define bs where "bs = mouse_down (ReadMacInt32 (dmem s) LM_Ticks)"
  have l: "length bs = 16" by (simp add: bs_def mouse_down_def)
  have "Toolbox_MenuSafePoint ev ra s = (True, t)" using assms(1) True by simp
  note P = safe_point_placed [OF this assms(2-4), folded bs_def]
  have mt: "dmem t = poke ra 1 (store ev bs (dmem s))" by (subst P(1)) simp
  have "fetch (dmem t) ev 16 = fetch (store ev bs (dmem s)) ev 16"
    unfolding mt fetch_def by (intro map_cong refl) (use assms(5) in auto)
  also have "\<dots> = bs" using fetch_store_same [of bs ev "dmem s"] l by simp
  finally have "begins (dmem t) ev bs" by (simp add: begins_def l)
  moreover have "ram (dmem t) x = ram (dmem s) x" if "x \<noteq> ra" "\<forall>i < 16. x \<noteq> ev + of_nat i" for x
    using that l ram_store_other [of bs x ev "dmem s"] by (simp add: mt)
  moreover have "pending_menu_result t = pending_menu_result s" "menu_event_posted t" by (subst P(1), simp)+
  ultimately show ?thesis using P(2-4,7) True
    by (simp add: bs_def mouse_down_def mt Toolbox_MenuSafePoint_def [of ev' ra' t])
next
  case False
  then show ?thesis using assms(1) safe_point_refused [of ev ra s] by simp
qed

definition chosen_guest :: menu_state where
  "chosen_guest = bar_guest\<lparr>pending_menu_result := 0x810001, pending_menu_timeout := 300\<rparr>"

lemma safe_point_asks_the_owner_witness:
  "begins (dmem (snd (Toolbox_MenuSafePoint 0x9000 0x9100 chosen_guest))) 0x9000
     (be16 1 @ be32 0 @ be32 (ReadMacInt32 (dmem chosen_guest) LM_Ticks) @ be16 8 @ be16 20 @ be16 0)"
proof -
  note G = bar_guest_facts
  define t where "t = snd (Toolbox_MenuSafePoint 0x9000 0x9100 chosen_guest)"
  have C: "dmem chosen_guest = dmem bar_guest" "RAMSize chosen_guest = 0x1000000" "ToolboxTrap_HooksEnabled chosen_guest"
    "menu_bar chosen_guest [file_menu]" "pending_menu_result chosen_guest = 0x810001" "\<not> menu_event_posted chosen_guest"
    using G(2-4) bar_guest_menu
    by (simp_all add: chosen_guest_def ToolboxTrap_HooksEnabled_def menu_bar_def menu_at_def in_ram_def Let_def waits_def)
  have "lookup_menu_item (gm_id file_menu) (of_nat (Suc 0)) chosen_guest = Some (show_item file_menu (Suc 0) (gm_items file_menu ! 0))"
    by (rule lookup_shown [OF C(3,4)]) (simp_all add: file_menu_def)
  then have l: "lookup_menu_item 129 1 chosen_guest \<noteq> None" by (simp add: file_menu_def)
  have p: "plain_block (dmem bar_guest) 0x9000 16" "plain_block (dmem bar_guest) 0x9100 1" by (rule G(8); simp)+
  have q: "plain (dmem bar_guest) 0x9000" "plain (dmem bar_guest) 0x9100" using plain_blockD [OF p(1), of 0] plain_blockD [OF p(2), of 0] by simp_all
  have r0: "ram (dmem bar_guest) x = 0" if "x = 0x9000 \<or> x = 0x9001" for x
    using that by (auto simp: G(7) table_area_def bar_ram booted_mac_def bare_mac_def)
  have z: "ReadMacInt16 (dmem bar_guest) 0x9000 = 0" by (simp add: ReadMacInt16_plain q r0 of_be16_def)
  have "fst (Toolbox_MenuSafePoint 0x9000 0x9100 chosen_guest)"
    using C l z by (simp add: Toolbox_MenuSafePoint_def in_ram_def event_record Let_def)
  then have pl: "Toolbox_MenuSafePoint 0x9000 0x9100 chosen_guest = (True, t)" by (simp add: t_def prod_eq_iff)
  have ne: "(0x9100 :: u32) \<noteq> 0x9000 + of_nat i" if "i < 16" for i
    using apart [of "0x9000" 16 "0x9100" 1 i 0] that by simp
  show ?thesis using safe_point_asks_the_owner [OF pl, of 0 0] p(1) q(2) C(1,2) ne by (simp add: t_def)
qed

end
