(* ===== verification/Packet_Queue.thy ===== *)
theory Packet_Queue
  imports Main
begin

section \<open>The queue of received packets\<close>

text \<open>
  \<open>slirp/queue.c\<close>: a ring of 100 slots with the index of its front and the number of elements.
  The locale \<open>bounded_fifo\<close> says what the Ethernet code relies on: a queue of limited size, seen
  as the list of its elements; the ring provides it.
\<close>

definition MAX_QUEUE_SIZE :: nat where "MAX_QUEUE_SIZE = 100"

record 'a queueCDT =
  contents :: "'a option list"
  front :: nat
  count :: nat

definition QueueCreate :: "'a queueCDT" where
  "QueueCreate = \<lparr>contents = replicate MAX_QUEUE_SIZE None, front = 0, count = 0\<rparr>"

definition QueueEnter :: "'a \<Rightarrow> 'a queueCDT \<Rightarrow> 'a queueCDT" where
  "QueueEnter element queue =
     (if count queue \<ge> MAX_QUEUE_SIZE then queue
      else queue\<lparr>contents := (contents queue)[(front queue + count queue) mod MAX_QUEUE_SIZE := Some element],
                 count := count queue + 1\<rparr>)"

definition QueuePeek :: "'a queueCDT \<Rightarrow> nat" where
  "QueuePeek queue = count queue"

definition QueueDelete :: "'a queueCDT \<Rightarrow> 'a option \<times> 'a queueCDT" where
  "QueueDelete queue =
     (if count queue = 0 then (None, queue)
      else (contents queue ! front queue,
            queue\<lparr>front := (front queue + 1) mod MAX_QUEUE_SIZE, count := count queue - 1\<rparr>))"

definition QueueIsEmpty :: "'a queueCDT \<Rightarrow> bool" where
  "QueueIsEmpty queue \<longleftrightarrow> count queue = 0"

definition QueueIsFull :: "'a queueCDT \<Rightarrow> bool" where
  "QueueIsFull queue \<longleftrightarrow> count queue \<ge> MAX_QUEUE_SIZE"

subsection \<open>What its users rely on\<close>

locale bounded_fifo =
  fixes empty :: 'q and enter :: "'a \<Rightarrow> 'q \<Rightarrow> 'q" and delete :: "'q \<Rightarrow> 'a option \<times> 'q" and peek :: "'q \<Rightarrow> nat"
    and elems :: "'q \<Rightarrow> 'a list" and inv :: "'q \<Rightarrow> bool" and bound :: nat
  assumes inv_empty: "inv empty" and elems_empty: "elems empty = []"
    and inv_enter: "inv q \<Longrightarrow> inv (enter x q)"
    and elems_enter: "inv q \<Longrightarrow> elems (enter x q) = (if length (elems q) < bound then elems q @ [x] else elems q)"
    and inv_delete: "inv q \<Longrightarrow> inv (snd (delete q))"
    and delete_empty: "inv q \<Longrightarrow> elems q = [] \<Longrightarrow> fst (delete q) = None"
    and delete_elems: "inv q \<Longrightarrow> elems q = x # xs \<Longrightarrow> fst (delete q) = Some x \<and> elems (snd (delete q)) = xs"
    and peek_elems: "inv q \<Longrightarrow> peek q = length (elems q)"
begin

lemma enter_all:
  assumes "inv q" "length (elems q) + length xs \<le> bound"
  shows "inv (fold enter xs q) \<and> elems (fold enter xs q) = elems q @ xs"
  using assms by (induction xs arbitrary: q) (simp_all add: inv_enter elems_enter)

lemma never_too_long: "inv q \<Longrightarrow> length (elems q) \<le> bound \<Longrightarrow> length (elems (enter x q)) \<le> bound"
  by (simp add: elems_enter)

end

definition queue_ok :: "'a queueCDT \<Rightarrow> bool" where
  "queue_ok q \<longleftrightarrow>
     length (contents q) = MAX_QUEUE_SIZE \<and> front q < MAX_QUEUE_SIZE \<and> count q \<le> MAX_QUEUE_SIZE \<and>
     (\<forall>i < count q. contents q ! ((front q + i) mod MAX_QUEUE_SIZE) \<noteq> None)"

definition queue_list :: "'a queueCDT \<Rightarrow> 'a list" where
  "queue_list q = map (\<lambda>i. the (contents q ! ((front q + i) mod MAX_QUEUE_SIZE))) [0..<count q]"

lemma ring_index:
  assumes "f < MAX_QUEUE_SIZE" "i < MAX_QUEUE_SIZE" "j < MAX_QUEUE_SIZE" "i \<noteq> j"
  shows "(f + i) mod MAX_QUEUE_SIZE \<noteq> (f + j) mod MAX_QUEUE_SIZE"
  using assms by (auto simp: MAX_QUEUE_SIZE_def mod_if split: if_splits)

lemma QueueEnter_list:
  assumes "queue_ok q"
  shows "queue_ok (QueueEnter x q)"
    "queue_list (QueueEnter x q) = (if length (queue_list q) < MAX_QUEUE_SIZE then queue_list q @ [x] else queue_list q)"
proof -
  have q: "length (contents q) = MAX_QUEUE_SIZE" "front q < MAX_QUEUE_SIZE" "count q \<le> MAX_QUEUE_SIZE"
    "\<forall>i < count q. contents q ! ((front q + i) mod MAX_QUEUE_SIZE) \<noteq> None"
    using assms by (simp_all add: queue_ok_def)
  have m: "k mod MAX_QUEUE_SIZE < MAX_QUEUE_SIZE" for k by (simp add: MAX_QUEUE_SIZE_def)
  have "queue_ok (QueueEnter x q) \<and>
    queue_list (QueueEnter x q) = (if length (queue_list q) < MAX_QUEUE_SIZE then queue_list q @ [x] else queue_list q)"
  proof (cases "count q < MAX_QUEUE_SIZE")
    case True
    have old: "(contents q)[(front q + count q) mod MAX_QUEUE_SIZE := Some x] ! ((front q + i) mod MAX_QUEUE_SIZE) =
        contents q ! ((front q + i) mod MAX_QUEUE_SIZE)" if "i < count q" for i
      using ring_index [OF q(2) _ True, of i] that True by simp
    have new: "(contents q)[(front q + count q) mod MAX_QUEUE_SIZE := Some x] ! ((front q + count q) mod MAX_QUEUE_SIZE) = Some x"
      using m q(1) by simp
    have "queue_ok (QueueEnter x q)"
      using True q old new by (auto simp: queue_ok_def QueueEnter_def less_Suc_eq)
    moreover have "queue_list (QueueEnter x q) = queue_list q @ [x]"
      using True old new by (simp add: queue_list_def QueueEnter_def)
    ultimately show ?thesis using True by (simp add: queue_list_def)
  qed (use assms in \<open>simp add: QueueEnter_def queue_list_def\<close>)
  then show "queue_ok (QueueEnter x q)"
    "queue_list (QueueEnter x q) = (if length (queue_list q) < MAX_QUEUE_SIZE then queue_list q @ [x] else queue_list q)" by simp_all
qed

lemma QueueDelete_list:
  assumes "queue_ok q"
  shows "queue_ok (snd (QueueDelete q))" "queue_list q = [] \<Longrightarrow> fst (QueueDelete q) = None"
    "queue_list q = x # xs \<Longrightarrow> fst (QueueDelete q) = Some x \<and> queue_list (snd (QueueDelete q)) = xs"
proof -
  have q: "length (contents q) = MAX_QUEUE_SIZE" "front q < MAX_QUEUE_SIZE" "count q \<le> MAX_QUEUE_SIZE"
    "\<forall>i < count q. contents q ! ((front q + i) mod MAX_QUEUE_SIZE) \<noteq> None"
    using assms by (simp_all add: queue_ok_def)
  have sh: "((front q + 1) mod MAX_QUEUE_SIZE + i) mod MAX_QUEUE_SIZE = (front q + Suc i) mod MAX_QUEUE_SIZE" for i
    by (simp add: mod_simps)
  have m: "k mod MAX_QUEUE_SIZE < MAX_QUEUE_SIZE" for k by (simp add: MAX_QUEUE_SIZE_def)
  have left: "contents q ! ((front q + Suc i) mod MAX_QUEUE_SIZE) \<noteq> None" if "i < count q - 1" for i
    using q(4) [rule_format, of "Suc i"] that by linarith
  show "queue_ok (snd (QueueDelete q))"
    using q(1-3) assms left m [of "front q + 1"] sh by (auto simp: queue_ok_def QueueDelete_def simp del: not_None_eq)
  show "queue_list q = [] \<Longrightarrow> fst (QueueDelete q) = None" by (simp add: queue_list_def QueueDelete_def)
  assume l: "queue_list q = x # xs"
  then obtain k where k: "count q = Suc k" by (cases "count q") (simp_all add: queue_list_def)
  have "contents q ! front q \<noteq> None" using q(2,4) k by (auto dest: spec [where x = 0])
  moreover have "x = the (contents q ! front q)" "xs = map (\<lambda>i. the (contents q ! ((front q + Suc i) mod MAX_QUEUE_SIZE))) [0..<k]"
    using l q(2) unfolding queue_list_def k by (simp_all add: upt_conv_Cons map_Suc_upt [symmetric] o_def del: upt_Suc)
  ultimately show "fst (QueueDelete q) = Some x \<and> queue_list (snd (QueueDelete q)) = xs"
    using k sh by (auto simp: QueueDelete_def queue_list_def)
qed

interpretation ring: bounded_fifo QueueCreate QueueEnter QueueDelete QueuePeek queue_list queue_ok MAX_QUEUE_SIZE
proof (unfold_locales, goal_cases)
  case 1 show ?case by (simp add: queue_ok_def QueueCreate_def MAX_QUEUE_SIZE_def)
next
  case 2 show ?case by (simp add: queue_list_def QueueCreate_def)
next
  case (8 q) show ?case by (simp add: QueuePeek_def queue_list_def)
qed (simp_all add: QueueEnter_list QueueDelete_list)

end
