(* ===== verification/Ether.thy ===== *)
theory Ether
  imports M68k Packet_Queue Prefs Mac_Blocks
begin

section \<open>The Ethernet driver\<close>

text \<open>
  \<open>ether.cpp\<close> (the driver the guest opens and controls) and \<open>SDL/sdl_pcap.cpp\<close> (the host
  side: protocol handlers, transmission, reception). Received frames wait in the ring of
  \<^theory_text>\<open>Packet_Queue\<close>; the interrupt hands each to the handler of its protocol type, which
  fetches the payload through the ReadPacket emulator opcode.

  The host is an argument: \<open>net_host\<close> says which steps of the initialization succeed, and a
  transmission passes its packet to slirp or pcap, recorded in \<open>to_host\<close>, with the answer of
  \<open>pcap_sendpacket\<close> an argument. Mutexes are left out: what they guard is one step here. A copy
  that leaves its host buffer sets \<open>overrun\<close> or \<open>over_read\<close>; what the C code does after that is
  undefined. Operations that may not return (an endless walk, a null queue, a negative length given
  to \<open>memcpy\<close>) give \<open>None\<close>.
\<close>

subsection \<open>Data\<close>

definition ed_DeferredTask :: u32 where "ed_DeferredTask = 0"
definition ed_Code :: u32 where "ed_Code = 20"
definition ed_Result :: u32 where "ed_Result = 30"
definition ed_DCE :: u32 where "ed_DCE = 34"
definition ed_RHA :: u32 where "ed_RHA = 38"
definition ed_ReadPacket :: u32 where "ed_ReadPacket = 52"
definition SIZEOF_etherdata :: u32 where "SIZEOF_etherdata = 76"
definition eProtType :: u32 where "eProtType = 28"
definition ePointer :: u32 where "ePointer = 30"
definition eBuffSize :: u32 where "eBuffSize = 34"
definition eDataSize :: u32 where "eDataSize = 36"

lemmas ether_offsets = ed_DeferredTask_def ed_Code_def ed_Result_def ed_DCE_def ed_RHA_def ed_ReadPacket_def
  SIZEOF_etherdata_def eProtType_def ePointer_def eBuffSize_def eDataSize_def

definition eLenErr :: int where "eLenErr = -92"
definition lapProtErr :: int where "lapProtErr = -94"
definition excessCollsns :: int where "excessCollsns = -95"

record ether_st = env +
  ether_addr :: "u8 list"
  net_open :: bool
  ether_data :: u32
  prot_list :: "(u16 \<times> u32) list"
  slirpq :: "u8 list queueCDT option"
  packet_data :: "(u8 list \<times> nat) option"
  is_ethertap :: bool
  is_pcap :: bool
  is_slirp :: bool
  slirp_inited :: bool
  pcap_open :: bool
  thread_active :: bool
  ether_thread :: bool
  int_ack :: "nat option"
  to_host :: "u8 list list"
  overrun :: bool
  over_read :: bool

record net_host =
  lib_loads :: bool
  symbols_found :: bool
  live_opens :: bool
  thread_starts :: bool

definition PACKET_SIZE :: nat where "PACKET_SIZE = 1516"
definition QUEUE_PACKET_SIZE :: nat where "QUEUE_PACKET_SIZE = 2000"

subsection \<open>Protocol handlers\<close>

definition find_protocol :: "u16 \<Rightarrow> ether_st \<Rightarrow> (u16 \<times> u32) option" where
  "find_protocol type s = (let t = (if type \<le> 1500 then 0 else type) in find (\<lambda>p. fst p = t) (prot_list s))"

definition remove_all_protocols :: "ether_st \<Rightarrow> ether_st" where
  "remove_all_protocols s = s\<lparr>prot_list := []\<rparr>"

definition EtherReset :: "ether_st \<Rightarrow> ether_st" where
  "EtherReset s = remove_all_protocols s"

definition ether_add_multicast :: "u32 \<Rightarrow> ether_st \<Rightarrow> int \<times> ether_st" where
  "ether_add_multicast pb s = (noErr, s)"

definition ether_del_multicast :: "u32 \<Rightarrow> ether_st \<Rightarrow> int \<times> ether_st" where
  "ether_del_multicast pb s = (noErr, s)"

definition ether_attach_ph :: "u16 \<Rightarrow> u32 \<Rightarrow> ether_st \<Rightarrow> int \<times> ether_st" where
  "ether_attach_ph type handler s =
     (if find_protocol type s \<noteq> None then (lapProtErr, s)
      else (noErr, s\<lparr>prot_list := (type, handler) # prot_list s\<rparr>))"

text \<open>The list is singly linked; the found node is the first with its type, and is unlinked.\<close>

primrec unlink :: "u16 \<Rightarrow> (u16 \<times> u32) list \<Rightarrow> (u16 \<times> u32) list" where
  "unlink t [] = []"
| "unlink t (q # qs) = (if fst q = t then qs else q # unlink t qs)"

definition ether_detach_ph :: "u16 \<Rightarrow> ether_st \<Rightarrow> int \<times> ether_st" where
  "ether_detach_ph type s =
     (case find_protocol type s of
        None \<Rightarrow> (lapProtErr, s)
      | Some p \<Rightarrow> (noErr, s\<lparr>prot_list := unlink (fst p) (prot_list s)\<rparr>))"

subsection \<open>Transmission\<close>

text \<open>The write data structure: length and address of each piece, until a length of 0.\<close>

partial_function (option) gather :: "mac \<Rightarrow> u32 \<Rightarrow> u8 list \<Rightarrow> u8 list option" where
  "gather m wds packet =
     (let w = unat (ReadMacInt16 m wds)
      in if w = 0 then Some packet
         else gather m (wds + 6) (packet @ fetch m (ReadMacInt32 m (wds + 2)) w))"

definition ether_write :: "(u8 list \<Rightarrow> bool) \<Rightarrow> u32 \<Rightarrow> ether_st \<Rightarrow> (int \<times> ether_st) option" where
  "ether_write sendpacket_ok wds s0 =
     (let hdr = ReadMacInt32 (dmem s0) (wds + 2);
          s1 = s0\<lparr>dmem := store (hdr + 6) (ether_addr s0) (dmem s0)\<rparr>
      in Option.bind (gather (dmem s1) wds []) (\<lambda>packet.
           let s = s1\<lparr>overrun := overrun s1 \<or> length packet > PACKET_SIZE\<rparr>
           in if is_slirp s then Some (noErr, s\<lparr>to_host := to_host s @ [packet]\<rparr>)
              else if is_pcap s
              then Some (if sendpacket_ok packet then noErr else excessCollsns, s\<lparr>to_host := to_host s @ [packet]\<rparr>)
              else Some (noErr, s)))"

subsection \<open>Open and Control\<close>

definition M68K_EMUL_OP_ETHER_READ_PACKET :: u32 where "M68K_EMUL_OP_ETHER_READ_PACKET = 0x7122"

definition EtherOpen :: "mac_os \<Rightarrow> u32 \<Rightarrow> u32 \<Rightarrow> ether_st \<Rightarrow> int \<times> ether_st" where
  "EtherOpen os pb dce s0 =
     (let (a0, s1) = Execute68kTrap os 0xa71e SIZEOF_etherdata 0 s0
      in if a0 = 0 then (openErr, s1)
         else
           let s2 = s1\<lparr>ether_data := a0\<rparr>;
               s3 = wr32 (a0 + ed_DeferredTask + 12) (a0 + ed_Result)
                      (wr32 (a0 + ed_DeferredTask + 8) (a0 + ed_Code)
                        (wr16 (a0 + ed_DeferredTask + 4) 7 s2));
               s4 = wr16 (a0 + ed_Code + 8) 0x4ed0 (wr32 (a0 + ed_Code + 4) 0x207808fc
                      (wr16 (a0 + ed_Code + 2) 0x2251 (wr16 (a0 + ed_Code) 0x2019 s3)));
               s5 = wr32 (a0 + ed_DCE) dce s4;
               s6 = wr16 (a0 + ed_ReadPacket + 8) 0x6702 (wr16 (a0 + ed_ReadPacket + 6) 0x4a43
                      (wr16 (a0 + ed_ReadPacket + 4) 0x9041 (wr16 (a0 + ed_ReadPacket + 2) 0x3003
                        (wr16 (a0 + ed_ReadPacket) 0x6010 s5))));
               s7 = wr16 (a0 + ed_ReadPacket + 16) 0x4e75 (wr16 (a0 + ed_ReadPacket + 14) 0x7000
                      (wr16 (a0 + ed_ReadPacket + 12) 0x3600
                        (wr16 (a0 + ed_ReadPacket + 10) M68K_EMUL_OP_ETHER_READ_PACKET s6)));
               s8 = wr16 (a0 + ed_ReadPacket + 22) 0x4e75 (wr16 (a0 + ed_ReadPacket + 20) 0x4a43
                      (wr16 (a0 + ed_ReadPacket + 18) M68K_EMUL_OP_ETHER_READ_PACKET s7))
           in (0, s8))"

definition ether_get_info :: "u32 \<Rightarrow> ether_st \<Rightarrow> (int \<times> ether_st) option" where
  "ether_get_info pb s =
     (let buf = patch 0 (ether_addr s) (replicate 18 0);
          asked = sint (ucast (ReadMacInt16 (dmem s) (pb + eBuffSize)) :: u16);
          size = (if asked > 18 then 18 else asked);
          s1 = wr16 (pb + eDataSize) (word_of_int size) s
      in if size < 0 then None
         else Some (noErr, s1\<lparr>dmem := store (ReadMacInt32 (dmem s1) (pb + ePointer)) (take (nat size) buf) (dmem s1)\<rparr>))"

definition EtherControl :: "(u8 list \<Rightarrow> bool) \<Rightarrow> u32 \<Rightarrow> u32 \<Rightarrow> ether_st \<Rightarrow> (int \<times> ether_st) option" where
  "EtherControl sendpacket_ok pb dce s =
     (let code = uint (ReadMacInt16 (dmem s) (pb + csCode));
          prot = ucast (ReadMacInt16 (dmem s) (pb + eProtType)) :: u16;
          ptr = ReadMacInt32 (dmem s) (pb + ePointer)
      in if code = 1 then Some (-1, s)
         else if code = 245 then Some (if net_open s then ether_add_multicast pb s else (noErr, s))
         else if code = 246 then Some (if net_open s then ether_del_multicast pb s else (noErr, s))
         else if code = 247 then Some (if net_open s then ether_attach_ph prot ptr s else (noErr, s))
         else if code = 248 then Some (if net_open s then ether_detach_ph prot s else (noErr, s))
         else if code = 249
         then (if unat (ReadMacInt16 (dmem s) ptr) < 14 then Some (eLenErr, s)
               else if net_open s then ether_write sendpacket_ok ptr s else Some (noErr, s))
         else if code = 252 then ether_get_info pb s
         else if code = 253 then Some (noErr, s)
         else Some (controlErr, s))"

subsection \<open>Reading a packet\<close>

text \<open>A host pointer is an array with an index into it. The emulator opcode passes a null source.\<close>

definition EtherSetPacketData :: "(u8 list \<times> nat) option \<Rightarrow> ether_st \<Rightarrow> ether_st" where
  "EtherSetPacketData ptr s = s\<lparr>packet_data := ptr\<rparr>"

definition advance :: "nat \<Rightarrow> (u8 list \<times> nat) option \<Rightarrow> (u8 list \<times> nat) option" where
  "advance n = map_option (\<lambda>(bytes, i). (bytes, i + n))"

definition EtherReadPacket ::
  "(u8 list \<times> nat) option \<Rightarrow> u32 \<Rightarrow> u32 \<Rightarrow> u32 \<Rightarrow> ether_st \<Rightarrow> ((u8 list \<times> nat) option \<times> u32 \<times> u32 \<times> u32) \<times> ether_st" where
  "EtherReadPacket src dest len remaining s =
     (let p = (if packet_data s \<noteq> None then packet_data s else src);
          todo = (if len > remaining then remaining else len);
          rest = (dest + todo, len - todo, remaining - todo)
      in case p of
           None \<Rightarrow> ((src, rest), s)
         | Some (bytes, i) \<Rightarrow>
             ((advance (unat todo) src, rest),
              s\<lparr>dmem := store dest (take (unat todo) (drop i bytes)) (dmem s),
                packet_data := advance (unat todo) (packet_data s),
                over_read := over_read s \<or> i + unat todo > length bytes\<rparr>))"

definition emul_ether_read_packet :: "m68k \<Rightarrow> ether_st \<Rightarrow> m68k \<times> ether_st" where
  "emul_ether_read_packet r s =
     (let ((_, dest, len, remaining), s') = EtherReadPacket None (areg r 3) (dreg r 3) (dreg r 1) s
      in (with_d 1 remaining (with_d 3 len (set_areg 3 dest r)), s'))"

subsection \<open>The interrupt\<close>

definition handler_regs :: "u32 \<Rightarrow> nat \<Rightarrow> u32 \<Rightarrow> m68k" where
  "handler_regs type len data =
     set_areg 4 (data + ed_ReadPacket) (set_areg 3 (data + ed_RHA + 14) (set_areg 0 0
       (with_d 1 (of_nat len - 14) (with_d 0 type zero_regs))))"

definition with_header :: "u8 list \<Rightarrow> ether_st \<Rightarrow> ether_st" where
  "with_header packet s =
     EtherSetPacketData (Some (packet, 14)) (s\<lparr>dmem := store (ether_data s + ed_RHA) (take 14 packet) (dmem s)\<rparr>)"

definition handle_packet :: "ether_st guest_code \<Rightarrow> u8 list \<Rightarrow> u8 list \<times> ether_st \<Rightarrow> u8 list \<times> ether_st" where
  "handle_packet guest qp ps =
     (if length qp < 14 then ps
      else
        let packet = patch 0 qp (fst ps);
            s1 = (snd ps)\<lparr>overrun := overrun (snd ps) \<or> length qp > PACKET_SIZE\<rparr>;
            type = of_be16 (packet ! 12) (packet ! 13)
        in (packet,
            case find_protocol (ucast type) s1 of
              None \<Rightarrow> s1
            | Some prot \<Rightarrow>
                if snd prot = 0 then s1
                else EtherSetPacketData None
                       (snd (guest (snd prot) (handler_regs type (length qp) (ether_data s1)) (with_header packet s1)))))"

partial_function (option) serve_queue :: "ether_st guest_code \<Rightarrow> u8 list \<times> ether_st \<Rightarrow> (u8 list \<times> ether_st) option" where
  "serve_queue guest ps =
     (case slirpq (snd ps) of
        None \<Rightarrow> None
      | Some q \<Rightarrow>
          if QueuePeek q = 0 then Some ps
          else case QueueDelete q of
                 (None, q') \<Rightarrow> Some (fst ps, (snd ps)\<lparr>slirpq := Some q'\<rparr>)
               | (Some qp, q') \<Rightarrow> serve_queue guest (handle_packet guest qp (fst ps, (snd ps)\<lparr>slirpq := Some q'\<rparr>)))"

definition sem_post :: "ether_st \<Rightarrow> ether_st" where
  "sem_post s = s\<lparr>int_ack := map_option Suc (int_ack s)\<rparr>"

text \<open>The packet array of the interrupt is not initialized in C; here it starts as zeros.\<close>

definition EtherInterrupt :: "ether_st guest_code \<Rightarrow> ether_st \<Rightarrow> ether_st option" where
  "EtherInterrupt guest s =
     (if \<not> is_slirp s \<and> \<not> is_pcap s then Some s
      else map_option (\<lambda>(packet, t). sem_post t) (serve_queue guest (replicate PACKET_SIZE 0, s)))"

subsection \<open>Reception\<close>

text \<open>Both ends of the queue put copies of the frame in it; a full queue drops it.\<close>

definition enqueue :: "u8 list \<Rightarrow> ether_st \<Rightarrow> ether_st" where
  "enqueue pkt s = s\<lparr>slirpq := map_option (QueueEnter pkt) (slirpq s)\<rparr>"

definition slirp_output :: "u8 list \<Rightarrow> ether_st \<Rightarrow> ether_st option" where
  "slirp_output pkt s =
     (if slirpq s = None then None
      else Some ((enqueue pkt s)\<lparr>overrun := overrun s \<or> length pkt > QUEUE_PACKET_SIZE\<rparr>))"

definition slirp_can_output :: "ether_st \<Rightarrow> bool" where
  "slirp_can_output s = slirp_inited s"

text \<open>
  What the reception thread does with one frame of pcap, a buffer and its captured length: the
  result says whether the Ethernet interrupt is raised.
\<close>

definition pcap_frame :: "u8 list \<Rightarrow> nat \<Rightarrow> ether_st \<Rightarrow> bool \<times> ether_st" where
  "pcap_frame data caplen s =
     (if caplen = 0 then (False, s)
      else
        let n = (if caplen > PACKET_SIZE then PACKET_SIZE else caplen);
            s1 = s\<lparr>over_read := over_read s \<or> length data < max 12 n\<rparr>
        in if take 6 (drop 6 data) = ether_addr s then (False, s1)
           else (thread_active s1, enqueue (take n data) s1))"

subsection \<open>Initialization and exit\<close>

definition starts_with :: "string \<Rightarrow> string \<Rightarrow> bool" where
  "starts_with pre name \<longleftrightarrow> take (length pre) name = pre"

definition pid_address :: "u32 \<Rightarrow> u8 list" where
  "pid_address p = [0xfe, 0xfd, ucast (drop_bit 24 p), ucast (drop_bit 16 p), ucast (drop_bit 8 p), ucast p]"

definition ether_start :: "net_host \<Rightarrow> u32 \<Rightarrow> ether_st \<Rightarrow> ether_st" where
  "ether_start h pid s =
     s\<lparr>slirp_inited := slirp_inited s \<or> is_slirp s, ether_addr := pid_address pid,
       slirpq := Some QueueCreate, int_ack := Some 0,
       ether_thread := thread_starts h, thread_active := thread_starts h, net_open := True\<rparr>"

definition EtherInit :: "net_host \<Rightarrow> u32 \<Rightarrow> prefs \<Rightarrow> ether_st \<Rightarrow> ether_st option" where
  "EtherInit h pid ps s0 =
     (case PrefsFindString ''ether'' 0 ps of
        None \<Rightarrow> Some s0
      | Some name \<Rightarrow>
          let tap = starts_with ''tun'' name \<or> starts_with ''tap'' name;
              slirp = starts_with ''slirp'' name;
              s = s0\<lparr>is_ethertap := tap, is_slirp := slirp, is_pcap := is_pcap s0 \<or> \<not> (tap \<or> slirp)\<rparr>
          in if tap then Some s
             else if is_pcap s
             then (if \<not> lib_loads h then Some (s\<lparr>is_pcap := False\<rparr>)
                   else if \<not> symbols_found h then Some (ether_start h pid (s\<lparr>is_pcap := False\<rparr>))
                   else if \<not> live_opens h then None
                   else Some (ether_start h pid (s\<lparr>pcap_open := True\<rparr>)))
             else Some (ether_start h pid s))"

text \<open>The exit in two parts: before and after it waits for the thread to end.\<close>

definition ether_exit_stop :: "ether_st \<Rightarrow> ether_st" where
  "ether_exit_stop s = sem_post (s\<lparr>thread_active := False\<rparr>)"

definition ether_exit_finish :: "ether_st \<Rightarrow> ether_st" where
  "ether_exit_finish s =
     remove_all_protocols
       (s\<lparr>ether_thread := False, int_ack := None, pcap_open := pcap_open s \<and> \<not> is_pcap s, slirpq := None\<rparr>)"

definition EtherExit :: "ether_st \<Rightarrow> ether_st" where
  "EtherExit s = (if thread_active s then ether_exit_finish (ether_exit_stop s) else remove_all_protocols s)"

end
