(* ===== verification/Ether_Facts.thy ===== *)
theory Ether_Facts
  imports Ether
begin

section \<open>Facts about the Ethernet driver\<close>

text \<open>
  What the components and the properties share: the host part of the state that guest code cannot
  reach, the order in which the interrupt serves the queue, the protocol list, the gathering of a
  packet to send and the successive reads of a received one.
\<close>

subsection \<open>Guest code and the host side\<close>

text \<open>
  68k code runs on guest memory and reads packets; the queue, the semaphore and the flags of the
  host are out of its reach, and it does not depend on them.
\<close>

definition leaves_queue :: "ether_st guest_code \<Rightarrow> bool" where
  "leaves_queue guest \<longleftrightarrow>
     (\<forall>a r t x. guest a r (t\<lparr>slirpq := x\<rparr>) = (fst (guest a r t), (snd (guest a r t))\<lparr>slirpq := x\<rparr>))"

definition host_part :: "ether_st \<Rightarrow> bool \<times> bool \<times> bool \<times> bool \<times> bool \<times> nat option" where
  "host_part s = (is_slirp s, is_pcap s, pcap_open s, thread_active s, ether_thread s, int_ack s)"

definition leaves_host :: "ether_st guest_code \<Rightarrow> bool" where
  "leaves_host guest \<longleftrightarrow> (\<forall>a r t. host_part (snd (guest a r t)) = host_part t)"

lemma leaves_queueD:
  assumes "leaves_queue guest"
  shows "fst (guest a r (t\<lparr>slirpq := x\<rparr>)) = fst (guest a r t)"
    "snd (guest a r (t\<lparr>slirpq := x\<rparr>)) = (snd (guest a r t))\<lparr>slirpq := x\<rparr>"
    "slirpq (snd (guest a r t)) = slirpq t"
proof -
  have e: "guest a r (t\<lparr>slirpq := x\<rparr>) = (fst (guest a r t), (snd (guest a r t))\<lparr>slirpq := x\<rparr>)" for x
    using assms by (simp add: leaves_queue_def)
  show "fst (guest a r (t\<lparr>slirpq := x\<rparr>)) = fst (guest a r t)"
    "snd (guest a r (t\<lparr>slirpq := x\<rparr>)) = (snd (guest a r t))\<lparr>slirpq := x\<rparr>" by (simp_all add: e)
  have q0: "slirpq (u\<lparr>slirpq := x\<rparr>) = x" for u :: ether_st and x by simp
  have "guest a r t = (fst (guest a r t), (snd (guest a r t))\<lparr>slirpq := slirpq t\<rparr>)" using e [of "slirpq t"] by simp
  then show "slirpq (snd (guest a r t)) = slirpq t" by (metis q0 snd_conv)
qed

lemma host_side_updates:
  "find_protocol type (t\<lparr>slirpq := x\<rparr>) = find_protocol type t"
  "with_header pk (t\<lparr>slirpq := x\<rparr>) = (with_header pk t)\<lparr>slirpq := x\<rparr>"
  "EtherSetPacketData p (t\<lparr>slirpq := x\<rparr>) = (EtherSetPacketData p t)\<lparr>slirpq := x\<rparr>"
  "(t\<lparr>slirpq := x\<rparr>)\<lparr>overrun := b\<rparr> = (t\<lparr>overrun := b\<rparr>)\<lparr>slirpq := x\<rparr>"
  "slirpq (with_header pk t) = slirpq t" "slirpq (EtherSetPacketData p t) = slirpq t"
  by (simp_all add: find_protocol_def with_header_def EtherSetPacketData_def)

lemma handle_packet_queue:
  assumes "leaves_queue guest"
  shows "handle_packet guest qp (pk, t\<lparr>slirpq := x\<rparr>) =
      (fst (handle_packet guest qp (pk, t)), (snd (handle_packet guest qp (pk, t)))\<lparr>slirpq := x\<rparr>)"
    and "slirpq (snd (handle_packet guest qp (pk, t))) = slirpq t"
  unfolding handle_packet_def Let_def fst_conv snd_conv host_side_updates(4)
  by (simp_all add: host_side_updates(1-3,5,6) leaves_queueD [OF assms] split: option.split del: ether_st.update_convs)

lemma fold_handle_queue:
  assumes "leaves_queue guest"
  shows "fold (handle_packet guest) pkts (pk, t\<lparr>slirpq := x\<rparr>) =
      (fst (fold (handle_packet guest) pkts (pk, t)), (snd (fold (handle_packet guest) pkts (pk, t)))\<lparr>slirpq := x\<rparr>)"
proof (induction pkts arbitrary: pk t)
  case (Cons p ps)
  then show ?case
    using Cons [of "fst (handle_packet guest p (pk, t))" "snd (handle_packet guest p (pk, t))"]
    by (simp add: handle_packet_queue [OF assms])
qed simp

lemma serve_queue_in_order:
  assumes "leaves_queue guest" "slirpq t = Some q" "queue_ok q"
  shows "\<exists>q'. queue_ok q' \<and> queue_list q' = [] \<and>
    serve_queue guest (pk, t) =
      Some (fst (fold (handle_packet guest) (queue_list q) (pk, t)),
            (snd (fold (handle_packet guest) (queue_list q) (pk, t)))\<lparr>slirpq := Some q'\<rparr>)"
  using assms(2,3)
proof (induction "queue_list q" arbitrary: q pk t)
  case Nil
  have "QueuePeek q = 0" using Nil ring.peek_elems [of q] by simp
  then show ?case
    using Nil by (intro exI [of _ q]) (simp add: serve_queue.simps [of guest "(pk, t)"] flip: Nil.hyps)
next
  case (Cons p ps)
  have pk: "QueuePeek q \<noteq> 0" using Cons ring.peek_elems [of q] Cons.hyps(2) [symmetric] by simp
  obtain q1 where q1: "QueueDelete q = (Some p, q1)" "queue_list q1 = ps" "queue_ok q1"
    using ring.delete_elems [of q p ps] ring.inv_delete [of q] Cons by (metis prod.collapse)
  define t1 where "t1 = t\<lparr>slirpq := Some q1\<rparr>"
  obtain pk2 t2 where h: "handle_packet guest p (pk, t1) = (pk2, t2)" by fastforce
  have s2: "slirpq t2 = Some q1" using handle_packet_queue(2) [OF assms(1), of p pk t1] h by (simp add: t1_def)
  obtain q' where q': "queue_ok q'" "queue_list q' = []"
      "serve_queue guest (pk2, t2) = Some (fst (fold (handle_packet guest) ps (pk2, t2)),
         (snd (fold (handle_packet guest) ps (pk2, t2)))\<lparr>slirpq := Some q'\<rparr>)"
    using Cons.hyps(1) [where q = q1 and t = t2 and pk = pk2] s2 q1 by auto
  have step: "serve_queue guest (pk, t) = serve_queue guest (pk2, t2)"
    using Cons.prems pk q1 h by (simp add: serve_queue.simps [of guest "(pk, t)"] t1_def)
  have fold_eq: "fold (handle_packet guest) (queue_list q) (pk, t1) = fold (handle_packet guest) ps (pk2, t2)"
    using h by (simp flip: Cons.hyps(2))
  then have f: "fold (handle_packet guest) ps (pk2, t2) =
      (fst (fold (handle_packet guest) (queue_list q) (pk, t)), (snd (fold (handle_packet guest) (queue_list q) (pk, t)))\<lparr>slirpq := Some q1\<rparr>)"
    using fold_handle_queue [OF assms(1), of "queue_list q" pk "Some q1" t] by (simp add: t1_def)
  show ?case using q' step by (intro exI [of _ q']) (simp add: f)
qed

lemma host_part_frame:
  "host_part (with_header pk t) = host_part t" "host_part (EtherSetPacketData p t) = host_part t"
  "host_part (t\<lparr>overrun := b\<rparr>) = host_part t" "host_part (t\<lparr>slirpq := q\<rparr>) = host_part t"
  by (simp_all add: host_part_def with_header_def EtherSetPacketData_def)

lemma handle_packet_host:
  "leaves_host guest \<Longrightarrow> host_part (snd (handle_packet guest qp ps)) = host_part (snd ps)"
  by (simp add: handle_packet_def Let_def host_part_frame leaves_host_def split: option.split)

lemma fold_handle_host:
  "leaves_host guest \<Longrightarrow> host_part (snd (fold (handle_packet guest) pkts ps)) = host_part (snd ps)"
  by (induction pkts arbitrary: ps) (simp_all add: handle_packet_host)

lemma EtherInterrupt_serves:
  assumes "leaves_queue guest" "leaves_host guest" "is_slirp s \<or> is_pcap s" "slirpq s = Some q" "queue_ok q"
  shows "\<exists>q' t. queue_ok q' \<and> queue_list q' = [] \<and> EtherInterrupt guest s = Some t \<and> slirpq t = Some q' \<and>
    host_part t = (is_slirp s, is_pcap s, pcap_open s, thread_active s, ether_thread s, map_option Suc (int_ack s))"
proof -
  obtain q' where q': "queue_ok q'" "queue_list q' = []"
      "serve_queue guest (replicate PACKET_SIZE 0, s) = Some (fst (fold (handle_packet guest) (queue_list q) (replicate PACKET_SIZE 0, s)),
         (snd (fold (handle_packet guest) (queue_list q) (replicate PACKET_SIZE 0, s)))\<lparr>slirpq := Some q'\<rparr>)"
    using serve_queue_in_order [OF assms(1,4,5)] by blast
  then show ?thesis
    using assms(3) fold_handle_host [OF assms(2), of "queue_list q" "(replicate PACKET_SIZE 0, s)"]
    by (auto simp: EtherInterrupt_def sem_post_def host_part_def)
qed

subsection \<open>The protocol table\<close>

text \<open>
  Types up to 1500 are frame lengths of 802.2 and count as type 0 when a handler is looked for. The
  table seen as a map from types; a type is usable when a lookup can reach it.
\<close>

definition folded_type :: "u16 \<Rightarrow> u16" where
  "folded_type t = (if t \<le> 1500 then 0 else t)"

definition handler_of :: "ether_st \<Rightarrow> u16 \<Rightarrow> u32 option" where
  "handler_of s t = map_option snd (find (\<lambda>p. fst p = t) (prot_list s))"

definition protocols_ok :: "ether_st \<Rightarrow> bool" where
  "protocols_ok s \<longleftrightarrow> (\<forall>t. folded_type t = t \<longrightarrow> length (filter (\<lambda>p. fst p = t) (prot_list s)) \<le> 1)"

lemma find_protocol_handler: "map_option snd (find_protocol t s) = handler_of s (folded_type t)"
  by (simp add: find_protocol_def handler_of_def folded_type_def Let_def)

lemma find_protocol_None: "find_protocol t s = None \<longleftrightarrow> handler_of s (folded_type t) = None"
  by (simp flip: find_protocol_handler)

lemma find_protocol_type: "find_protocol t s = Some p \<Longrightarrow> fst p = folded_type t"
  by (auto simp: find_protocol_def folded_type_def Let_def dest!: find_SomeD split: if_splits)

lemma folded_twice: "folded_type (folded_type t) = folded_type t"
  by (simp add: folded_type_def)

lemma filter_unlink: "filter (\<lambda>p. fst p = u) (unlink t qs) = (if u = t then tl (filter (\<lambda>p. fst p = u) qs) else filter (\<lambda>p. fst p = u) qs)"
  by (induction qs) auto

lemma find_is_hd: "find P xs = (case filter P xs of [] \<Rightarrow> None | y # ys \<Rightarrow> Some y)"
  by (induction xs) auto

lemma find_unlink:
  assumes "length (filter (\<lambda>p. fst p = t) qs) \<le> 1"
  shows "find (\<lambda>p. fst p = u) (unlink t qs) = (if u = t then None else find (\<lambda>p. fst p = u) qs)"
  using assms by (cases "filter (\<lambda>p. fst p = t) qs") (auto simp: find_is_hd filter_unlink)

lemma attach_protocol:
  assumes "protocols_ok s" "handler_of s (folded_type t) = None"
  shows "fst (ether_attach_ph t h s) = noErr" "handler_of (snd (ether_attach_ph t h s)) = (handler_of s)(t \<mapsto> h)"
    "protocols_ok (snd (ether_attach_ph t h s))"
proof -
  have n: "find_protocol t s = None" using assms(2) by (simp add: find_protocol_None)
  show "fst (ether_attach_ph t h s) = noErr" "handler_of (snd (ether_attach_ph t h s)) = (handler_of s)(t \<mapsto> h)"
    using n by (simp_all add: ether_attach_ph_def handler_of_def fun_eq_iff)
  have "filter (\<lambda>p. fst p = t) (prot_list s) = []" if "folded_type t = t"
    using assms(2) that by (force simp: handler_of_def find_None_iff filter_empty_conv)
  then show "protocols_ok (snd (ether_attach_ph t h s))"
    using n assms(1) by (auto simp: ether_attach_ph_def protocols_ok_def)
qed

lemma detach_protocol:
  assumes "protocols_ok s" "handler_of s (folded_type t) \<noteq> None"
  shows "fst (ether_detach_ph t s) = noErr" "handler_of (snd (ether_detach_ph t s)) = (handler_of s)(folded_type t := None)"
    "protocols_ok (snd (ether_detach_ph t s))"
proof -
  obtain p where p: "find_protocol t s = Some p" using assms(2) by (metis find_protocol_None not_Some_eq)
  have f: "fst p = folded_type t" by (rule find_protocol_type [OF p])
  have "length (filter (\<lambda>p. fst p = folded_type t) (prot_list s)) \<le> 1"
    using assms(1) folded_twice by (simp add: protocols_ok_def)
  then show "fst (ether_detach_ph t s) = noErr" "handler_of (snd (ether_detach_ph t s)) = (handler_of s)(folded_type t := None)"
    using p f by (simp_all add: ether_detach_ph_def handler_of_def fun_eq_iff find_unlink)
  show "protocols_ok (snd (ether_detach_ph t s))"
    using p f assms(1) by (fastforce simp: ether_detach_ph_def protocols_ok_def filter_unlink)
qed

subsection \<open>The packet to send\<close>

primrec wds_list :: "mac \<Rightarrow> u32 \<Rightarrow> (u32 \<times> nat) list \<Rightarrow> bool" where
  "wds_list m wds [] = (ReadMacInt16 m wds = 0)"
| "wds_list m wds (seg # segs) =
     (unat (ReadMacInt16 m wds) = snd seg \<and> snd seg \<noteq> 0 \<and> ReadMacInt32 m (wds + 2) = fst seg \<and> wds_list m (wds + 6) segs)"

definition pieces :: "mac \<Rightarrow> (u32 \<times> nat) list \<Rightarrow> u8 list" where
  "pieces m segs = concat (map (\<lambda>(a, n). fetch m a n) segs)"

lemma gather_pieces: "wds_list m wds segs \<Longrightarrow> gather m wds packet = Some (packet @ pieces m segs)"
proof (induction segs arbitrary: wds packet)
  case Nil
  then show ?case by (simp add: gather.simps [of m wds] pieces_def)
next
  case (Cons seg segs)
  then show ?case by (cases seg) (simp add: gather.simps [of m wds packet] pieces_def)
qed

lemma pieces_source:
  assumes "14 \<le> n" "n \<le> 65535" "length addr = 6"
  shows "take 6 (drop 6 (pieces (store (hdr + 6) addr m) ((hdr, n) # segs))) = addr"
proof -
  have "fetch (store (hdr + of_nat 6) addr m) hdr n = patch 6 addr (fetch m hdr n)"
    by (rule fetch_store_inside) (use assms in simp_all)
  then show ?thesis using assms by (simp add: pieces_def patch_def)
qed

subsection \<open>Successive reads\<close>

definition request :: "u32 \<Rightarrow> m68k \<times> ether_st \<Rightarrow> m68k \<times> ether_st" where
  "request n rs = emul_ether_read_packet (with_d 3 n (fst rs)) (snd rs)"

lemma store_append: "store a (xs @ ys) m = store (a + of_nat (length xs)) ys (store a xs m)"
  by (induction xs arbitrary: a m) (simp_all add: add.assoc)

lemma regs_sel [simp]:
  "dreg (with_d i v r) j = (if i = j then v else dreg r j)" "areg (with_d i v r) = areg r"
  "areg (set_areg i v r) j = (if i = j then v else areg r j)" "dreg (set_areg i v r) = dreg r"
  by (simp_all add: with_d_def set_areg_def)

lemma request_once:
  fixes n :: u32
  assumes "packet_data s = Some (bytes, i)" "dreg r 1 = of_nat k" "i + k \<le> length bytes" "k < 2 ^ 32"
  defines "t \<equiv> min (unat n) k"
  shows "snd (request n (r, s)) = s\<lparr>dmem := store (areg r 3) (take t (drop i bytes)) (dmem s), packet_data := Some (bytes, i + t)\<rparr>"
    "dreg (fst (request n (r, s))) 1 = of_nat (k - t)" "areg (fst (request n (r, s))) 3 = areg r 3 + of_nat t"
    "dreg (fst (request n (r, s))) 3 = n - of_nat t"
proof -
  have todo: "(if n > (of_nat k :: u32) then of_nat k else n) = of_nat t"
    using assms(4) unfolding t_def by (auto simp: word_less_nat_alt unat_of_nat_small min_def)
  have t: "unat (of_nat t :: u32) = t" "t \<le> k" using assms(4) unfolding t_def by (simp_all add: unat_of_nat_small)
  show "snd (request n (r, s)) = s\<lparr>dmem := store (areg r 3) (take t (drop i bytes)) (dmem s), packet_data := Some (bytes, i + t)\<rparr>"
    "dreg (fst (request n (r, s))) 1 = of_nat (k - t)" "areg (fst (request n (r, s))) 3 = areg r 3 + of_nat t"
    "dreg (fst (request n (r, s))) 3 = n - of_nat t"
    using assms(1-3) t
    by (simp_all add: request_def emul_ether_read_packet_def EtherReadPacket_def Let_def todo advance_def of_nat_diff)
qed

lemma requests_read:
  fixes ns :: "u32 list"
  assumes "packet_data s = Some (bytes, i)" "dreg r 1 = of_nat k" "i + k \<le> length bytes" "k < 2 ^ 32"
  defines "t \<equiv> min (sum_list (map unat ns)) k"
  shows "snd (fold request ns (r, s)) = s\<lparr>dmem := store (areg r 3) (take t (drop i bytes)) (dmem s), packet_data := Some (bytes, i + t)\<rparr> \<and>
    dreg (fst (fold request ns (r, s))) 1 = of_nat (k - t) \<and> areg (fst (fold request ns (r, s))) 3 = areg r 3 + of_nat t"
  using assms(1-4) unfolding t_def
proof (induction ns arbitrary: r s i k)
  case Nil
  then show ?case by simp
next
  case (Cons n ns)
  define u where "u = min (unat n) k"
  define v where "v = min (sum_list (map unat ns)) (k - u)"
  obtain r1 s1 where rs: "request n (r, s) = (r1, s1)" by fastforce
  note one = request_once [OF Cons.prems, of n, folded u_def, unfolded rs fst_conv snd_conv]
  have bounds: "packet_data s1 = Some (bytes, i + u)" "i + u + (k - u) \<le> length bytes" "k - u < 2 ^ 32"
    using one(1) Cons.prems by (simp_all add: u_def)
  have t: "min (sum_list (map unat (n # ns))) k = u + v" by (auto simp: u_def v_def)
  have len: "length (take u (drop i bytes)) = u" using Cons.prems(3) by (simp add: u_def)
  have glue: "take (u + v) (drop i bytes) = take u (drop i bytes) @ take v (drop (i + u) bytes)"
    by (simp add: take_add add.commute)
  show ?case
    using Cons.IH [OF bounds(1) one(2) bounds(2,3), folded v_def] one(1,3) len
    by (simp only: t glue store_append) (simp add: rs add.assoc)
qed

end
