(* ===== verification/Ether_Thread.thy ===== *)
theory Ether_Thread
  imports Ether_Facts Device_Manager
begin

section \<open>The reception thread\<close>

text \<open>
  \<open>receive_func\<close> runs in a thread of its own: it raises the Ethernet interrupt and waits for
  the acknowledgement the interrupt routine posts. \<open>rx_step\<close> has the moves of the thread, \<open>world_step\<close> those of
  everything else: the emulated CPU (guest code, the Ethernet interrupt, the 60 Hz interrupt, which serves the queue as well once Mac OS has
  started, driver calls and resets), slirp and the exit of the emulator. \<open>net_step\<close> interleaves them.
\<close>

datatype rx_pc = Looping | Awaiting | Ended

record ether_sys =
  eth :: ether_st
  rx :: rx_pc
  irq_flag :: bool

text \<open>After raising the interrupt the thread waits if there is a semaphore.\<close>

definition raise_and_wait :: "ether_sys \<Rightarrow> ether_sys" where
  "raise_and_wait s = s\<lparr>irq_flag := True, rx := (if int_ack (eth s) = None then Looping else Awaiting)\<rparr>"

definition queue_waits :: "ether_st \<Rightarrow> bool" where
  "queue_waits e = (case slirpq e of None \<Rightarrow> False | Some q \<Rightarrow> QueuePeek q > 0)"

inductive rx_step :: "ether_sys \<Rightarrow> ether_sys \<Rightarrow> bool" where
  rx_slirp: "rx s = Looping \<Longrightarrow> thread_active (eth s) \<Longrightarrow> is_slirp (eth s) \<Longrightarrow> queue_waits (eth s) \<Longrightarrow>
    rx_step s (raise_and_wait s)"
| rx_pcap: "rx s = Looping \<Longrightarrow> thread_active (eth s) \<Longrightarrow> is_pcap (eth s) \<Longrightarrow> pcap_open (eth s) \<Longrightarrow>
    pcap_frame data caplen (eth s) = (raised, e) \<Longrightarrow>
    rx_step s (if raised then raise_and_wait (s\<lparr>eth := e\<rparr>) else s\<lparr>eth := e\<rparr>)"
| rx_wake: "rx s = Awaiting \<Longrightarrow> int_ack (eth s) = Some (Suc n) \<Longrightarrow>
    rx_step s (s\<lparr>eth := (eth s)\<lparr>int_ack := Some n\<rparr>, rx := Looping\<rparr>)"
| rx_end: "rx s = Looping \<Longrightarrow> \<not> thread_active (eth s) \<Longrightarrow> rx_step s (s\<lparr>rx := Ended\<rparr>)"

text \<open>The Ethernet part of the 60 Hz interrupt: nothing before Mac OS has started.\<close>

definition sixty_hz :: "ether_st guest_code \<Rightarrow> ether_sys \<Rightarrow> ether_sys option" where
  "sixty_hz guest s =
     (if HasMacStarted (dmem (eth s)) then map_option (\<lambda>e. s\<lparr>eth := e\<rparr>) (EtherInterrupt guest (eth s)) else Some s)"

inductive world_step :: "ether_st guest_code \<Rightarrow> ether_sys \<Rightarrow> ether_sys \<Rightarrow> bool" for guest where
  guest_runs: "world_step guest s (s\<lparr>eth := (eth s)\<lparr>dmem := m\<rparr>\<rparr>)"
| ether_irq: "irq_flag s \<Longrightarrow> ether_thread (eth s) \<Longrightarrow> EtherInterrupt guest (eth s) = Some e \<Longrightarrow>
    world_step guest s (s\<lparr>eth := e, irq_flag := False\<rparr>)"
| tick_60hz: "ether_thread (eth s) \<Longrightarrow> sixty_hz guest s = Some t \<Longrightarrow> world_step guest s t"
| slirp_delivers: "is_slirp (eth s) \<Longrightarrow> slirp_output pkt (eth s) = Some e \<Longrightarrow> world_step guest s (s\<lparr>eth := e\<rparr>)"
| driver_call: "EtherControl sendpacket_ok pb dce (eth s) = Some (err, e) \<Longrightarrow> world_step guest s (s\<lparr>eth := e\<rparr>)"
| mac_reset: "world_step guest s (s\<lparr>eth := EtherReset (eth s), irq_flag := False\<rparr>)"
| exit_stop: "thread_active (eth s) \<Longrightarrow> world_step guest s (s\<lparr>eth := ether_exit_stop (eth s)\<rparr>)"
| exit_finish: "rx s = Ended \<Longrightarrow> ether_thread (eth s) \<Longrightarrow> world_step guest s (s\<lparr>eth := ether_exit_finish (eth s)\<rparr>)"

definition net_step :: "ether_st guest_code \<Rightarrow> ether_sys \<Rightarrow> ether_sys \<Rightarrow> bool" where
  "net_step guest s t \<longleftrightarrow> rx_step s t \<or> world_step guest s t"

inductive_simps rx_step_simps: "rx_step s t"
inductive_simps world_step_simps: "world_step guest s t"

inductive net_reach :: "ether_st guest_code \<Rightarrow> net_host \<Rightarrow> u32 \<Rightarrow> prefs \<Rightarrow> ether_st \<Rightarrow> ether_sys \<Rightarrow> bool"
  for guest h pid ps e0 where
  net_start: "EtherInit h pid ps e0 = Some e \<Longrightarrow>
    net_reach guest h pid ps e0 \<lparr>eth = e, rx = (if ether_thread e then Looping else Ended), irq_flag = False\<rparr>"
| net_more: "net_reach guest h pid ps e0 s \<Longrightarrow> net_step guest s t \<Longrightarrow> net_reach guest h pid ps e0 t"

subsection \<open>What holds in every state\<close>

text \<open>The thread waits and its acknowledgement is there.\<close>

definition acknowledged :: "ether_sys \<Rightarrow> bool" where
  "acknowledged s \<longleftrightarrow> rx s = Awaiting \<and> (\<exists>n. int_ack (eth s) = Some (Suc n))"

definition thread_sound :: "ether_sys \<Rightarrow> bool" where
  "thread_sound s \<longleftrightarrow>
     (thread_active (eth s) \<longrightarrow> ether_thread (eth s)) \<and>
     (rx s \<noteq> Ended \<longrightarrow> ether_thread (eth s)) \<and>
     (rx s = Ended \<longrightarrow> \<not> thread_active (eth s)) \<and>
     (rx s = Awaiting \<longrightarrow> is_slirp (eth s) \<or> is_pcap (eth s)) \<and>
     (rx s = Awaiting \<and> \<not> thread_active (eth s) \<longrightarrow> acknowledged s) \<and>
     (ether_thread (eth s) \<longrightarrow> int_ack (eth s) \<noteq> None \<and> slirpq (eth s) \<noteq> None) \<and>
     (\<forall>q. slirpq (eth s) = Some q \<longrightarrow> queue_ok q)"

text \<open>Which fields an operation must leave for the invariant to carry over.\<close>

definition same_host :: "ether_st \<Rightarrow> ether_st \<Rightarrow> bool" where
  "same_host e f \<longleftrightarrow> is_slirp f = is_slirp e \<and> is_pcap f = is_pcap e \<and> thread_active f = thread_active e \<and>
     ether_thread f = ether_thread e \<and> (int_ack f = None \<longleftrightarrow> int_ack e = None) \<and>
     (\<forall>n. int_ack e = Some n \<longrightarrow> (\<exists>m \<ge> n. int_ack f = Some m)) \<and> (slirpq f = None \<longleftrightarrow> slirpq e = None) \<and>
     ((\<forall>q. slirpq e = Some q \<longrightarrow> queue_ok q) \<longrightarrow> (\<forall>q. slirpq f = Some q \<longrightarrow> queue_ok q))"

lemma acknowledged_same: "acknowledged s \<Longrightarrow> same_host (eth s) e \<Longrightarrow> acknowledged (s\<lparr>eth := e\<rparr>)"
  by (fastforce simp: acknowledged_def same_host_def Suc_le_eq gr0_conv_Suc dest: Suc_le_D)

lemma thread_sound_same: "thread_sound s \<Longrightarrow> same_host (eth s) e \<Longrightarrow> thread_sound (s\<lparr>eth := e\<rparr>)"
  using acknowledged_same [of s e] by (auto simp: thread_sound_def same_host_def)

lemma thread_sound_irq [simp]: "thread_sound (s\<lparr>irq_flag := b\<rparr>) = thread_sound s"
  by (simp add: thread_sound_def acknowledged_def)

lemma same_hostI: "host_part f = host_part e \<Longrightarrow> slirpq f = slirpq e \<Longrightarrow> same_host e f"
  by (simp add: same_host_def host_part_def)

lemma same_enqueue: "host_part f = host_part e \<Longrightarrow> slirpq f = slirpq (enqueue pkt e) \<Longrightarrow> same_host e f"
  by (cases "slirpq e") (simp_all add: same_host_def host_part_def enqueue_def ring.inv_enter)

lemma same_pcap: "pcap_frame data n e = (raised, f) \<Longrightarrow> same_host e f"
  by (auto simp: pcap_frame_def Let_def host_part_def enqueue_def intro: same_hostI same_enqueue [where pkt = "take (if n > PACKET_SIZE then PACKET_SIZE else n) data"] split: if_splits)

lemma same_slirp: "slirp_output pkt e = Some f \<Longrightarrow> same_host e f"
  by (rule same_enqueue [of _ _ pkt]) (auto simp: slirp_output_def host_part_def enqueue_def split: if_splits)

definition untouched :: "ether_st \<Rightarrow> ether_st \<Rightarrow> bool" where
  "untouched e f \<longleftrightarrow> host_part f = host_part e \<and> slirpq f = slirpq e"

lemma untouched_calls:
  "untouched e (snd (ether_attach_ph t h e))" "untouched e (snd (ether_detach_ph t e))"
  "ether_write ok wds e = Some (err, f) \<Longrightarrow> untouched e f" "ether_get_info pb e = Some (err, f) \<Longrightarrow> untouched e f"
  by (auto simp: untouched_def host_part_def ether_attach_ph_def ether_detach_ph_def ether_write_def ether_get_info_def
      Let_def wr16_def split: if_splits option.splits bind_splits)

lemma untouched_control: "EtherControl ok pb dce e = Some (err, f) \<Longrightarrow> untouched e f"
  using untouched_calls(1) [of e "ucast (ReadMacInt16 (dmem e) (pb + eProtType))" "ReadMacInt32 (dmem e) (pb + ePointer)"]
    untouched_calls(2) [of e "ucast (ReadMacInt16 (dmem e) (pb + eProtType))"]
  unfolding EtherControl_def Let_def ether_add_multicast_def ether_del_multicast_def
  by (force simp: untouched_def split: if_splits dest: untouched_calls(3,4))

lemma same_control: "EtherControl ok pb dce e = Some (err, f) \<Longrightarrow> same_host e f"
  by (drule untouched_control) (simp add: untouched_def same_hostI)

lemma same_reset: "same_host e (EtherReset e)"
  by (simp add: same_host_def EtherReset_def remove_all_protocols_def)

lemma same_interrupt:
  assumes "leaves_queue guest" "leaves_host guest" "slirpq e = Some q" "queue_ok q" "EtherInterrupt guest e = Some f"
  shows "same_host e f"
proof (cases "is_slirp e \<or> is_pcap e")
  case True
  obtain q' t where "queue_ok q'" "EtherInterrupt guest e = Some t" "slirpq t = Some q'"
      "host_part t = (is_slirp e, is_pcap e, pcap_open e, thread_active e, ether_thread e, map_option Suc (int_ack e))"
    using EtherInterrupt_serves [OF assms(1,2) True assms(3,4)] by blast
  then have "queue_ok q'" "slirpq f = Some q'"
      "host_part f = (is_slirp e, is_pcap e, pcap_open e, thread_active e, ether_thread e, map_option Suc (int_ack e))"
    using assms(5) by simp_all
  then show ?thesis using assms(3) by (simp add: same_host_def host_part_def)
next
  case False
  then have "f = e" using assms(5) by (auto simp: EtherInterrupt_def)
  then show ?thesis using same_hostI by blast
qed

lemma raise_sound: "thread_sound s \<Longrightarrow> rx s = Looping \<Longrightarrow> thread_active (eth s) \<Longrightarrow> is_slirp (eth s) \<or> is_pcap (eth s) \<Longrightarrow> thread_sound (raise_and_wait s)"
  by (auto simp: thread_sound_def raise_and_wait_def)

lemma rx_step_sound:
  assumes "rx_step s t" "thread_sound s"
  shows "thread_sound t"
  using assms(1)
proof cases
  case rx_slirp
  show ?thesis unfolding rx_slirp(1) by (rule raise_sound [OF assms(2) rx_slirp(2,3)]) (simp add: rx_slirp(4))
next
  case (rx_pcap data caplen raised e)
  have h: "same_host (eth s) e" by (rule same_pcap [OF rx_pcap(6)])
  have sound: "thread_sound (s\<lparr>eth := e\<rparr>)" by (rule thread_sound_same [OF assms(2) h])
  have "thread_active e" "is_pcap e" using h rx_pcap(3,4) unfolding same_host_def by blast+
  then show ?thesis using sound rx_pcap(2) raise_sound [OF sound] unfolding rx_pcap(1) by simp
qed (use assms(2) in \<open>auto simp: thread_sound_def acknowledged_def\<close>)

text \<open>What the rest of the world does to a network that is open: another state of the same host, or the call to stop.\<close>

lemma world_step_host:
  assumes "world_step guest s t" "leaves_queue guest" "leaves_host guest" "thread_sound s"
  shows "(\<exists>b e. t = s\<lparr>eth := e, irq_flag := b\<rparr> \<and> same_host (eth s) e) \<or> t = s\<lparr>eth := ether_exit_stop (eth s)\<rparr> \<and> thread_active (eth s) \<or>
    t = s\<lparr>eth := ether_exit_finish (eth s)\<rparr> \<and> rx s = Ended"
proof -
  have kept: "\<exists>b f. s\<lparr>eth := e\<rparr> = s\<lparr>eth := f, irq_flag := b\<rparr> \<and> same_host (eth s) f" if "same_host (eth s) e" for e
    using that by (intro exI [of _ "irq_flag s"] exI [of _ e]) simp
  have served: "same_host (eth s) e" if th: "ether_thread (eth s)" and irq: "EtherInterrupt guest (eth s) = Some e" for e
  proof -
    obtain q where "slirpq (eth s) = Some q" "queue_ok q" using assms(4) th by (auto simp: thread_sound_def)
    then show ?thesis using same_interrupt [OF assms(2,3)] irq by blast
  qed
  show ?thesis using assms(1)
  proof cases
    case (guest_runs m)
    have "same_host (eth s) ((eth s)\<lparr>dmem := m\<rparr>)" by (rule same_hostI) (simp_all add: host_part_def)
    then show ?thesis using kept unfolding guest_runs by blast
  next
    case (ether_irq e)
    then show ?thesis using served by blast
  next
    case tick_60hz
    have "same_host (eth s) (eth s)" by (rule same_hostI) simp_all
    then have idle: "\<exists>b f. s = s\<lparr>eth := f, irq_flag := b\<rparr> \<and> same_host (eth s) f" using kept [of "eth s"] by simp
    show ?thesis using tick_60hz served kept idle by (cases "HasMacStarted (dmem (eth s))") (auto simp: sixty_hz_def)
  next
    case (slirp_delivers pkt e)
    then show ?thesis using same_slirp kept by blast
  next
    case (driver_call ok pb dce err e)
    then show ?thesis using same_control kept by blast
  next
    case mac_reset
    then show ?thesis using same_reset by blast
  qed simp_all
qed

lemma world_step_sound:
  assumes "world_step guest s t" "leaves_queue guest" "leaves_host guest" "thread_sound s"
  shows "thread_sound t"
  using world_step_host [OF assms]
proof (elim disjE exE conjE)
  fix b e
  assume "t = s\<lparr>eth := e, irq_flag := b\<rparr>" "same_host (eth s) e"
  then show ?thesis using thread_sound_same [OF assms(4)] thread_sound_irq [where s = "s\<lparr>eth := e\<rparr>" and b = b] by simp
qed (use assms(4) in \<open>auto simp: thread_sound_def acknowledged_def ether_exit_stop_def ether_exit_finish_def sem_post_def remove_all_protocols_def\<close>)

text \<open>Only the thread itself takes an acknowledgement, and only it leaves its place.\<close>

lemma world_keeps_thread:
  assumes "world_step guest s t" "leaves_queue guest" "leaves_host guest" "thread_sound s" "rx s \<noteq> Ended"
  shows "rx t = rx s" "ether_thread (eth t)" "\<not> thread_active (eth s) \<Longrightarrow> \<not> thread_active (eth t)" "acknowledged s \<Longrightarrow> acknowledged t"
proof -
  have th: "ether_thread (eth s)" using assms(4,5) by (simp add: thread_sound_def)
  have "rx t = rx s \<and> ether_thread (eth t) \<and> (\<not> thread_active (eth s) \<longrightarrow> \<not> thread_active (eth t)) \<and> (acknowledged s \<longrightarrow> acknowledged t)"
    using world_step_host [OF assms(1-4)]
  proof (elim disjE exE conjE)
    fix b e
    assume t: "t = s\<lparr>eth := e, irq_flag := b\<rparr>" "same_host (eth s) e"
    have "acknowledged t = acknowledged (s\<lparr>eth := e\<rparr>)" by (simp add: t(1) acknowledged_def)
    then show ?thesis using t th acknowledged_same [OF _ t(2)] by (simp add: same_host_def)
  qed (use assms(5) th in \<open>auto simp: acknowledged_def ether_exit_stop_def sem_post_def\<close>)
  then show "rx t = rx s" "ether_thread (eth t)" "\<not> thread_active (eth s) \<Longrightarrow> \<not> thread_active (eth t)" "acknowledged s \<Longrightarrow> acknowledged t" by blast+
qed

text \<open>The moves that are left to a thread that has been told to stop.\<close>

fun moves_left :: "rx_pc \<Rightarrow> nat" where
  "moves_left Awaiting = 2"
| "moves_left Looping = 1"
| "moves_left Ended = 0"

lemma stopped_thread:
  assumes "\<not> thread_active (eth s)" "thread_sound s" "rx s \<noteq> Ended"
  shows "\<exists>t. rx_step s t" "rx_step s t \<Longrightarrow> moves_left (rx t) < moves_left (rx s) \<and> \<not> thread_active (eth t) \<and> ether_thread (eth t)"
proof -
  have th: "ether_thread (eth s)" using assms(2,3) by (simp add: thread_sound_def)
  show "\<exists>t. rx_step s t"
  proof (cases "rx s")
    case Looping
    then show ?thesis using rx_end assms(1) by blast
  next
    case Awaiting
    then show ?thesis using rx_wake assms(1,2) by (auto simp: thread_sound_def acknowledged_def)
  qed (use assms(3) in simp)
  show "moves_left (rx t) < moves_left (rx s) \<and> \<not> thread_active (eth t) \<and> ether_thread (eth t)" if "rx_step s t"
    using that assms(1) th by cases auto
qed

lemma EtherInit_sound:
  assumes "EtherInit h pid ps e0 = Some e" "thread_active e0 = False" "ether_thread e0 = False" "slirpq e0 = None"
  shows "thread_sound \<lparr>eth = e, rx = (if ether_thread e then Looping else Ended), irq_flag = False\<rparr>"
  using assms ring.inv_empty
  by (auto simp: EtherInit_def Let_def ether_start_def thread_sound_def split: option.splits if_splits)

lemma net_reach_sound:
  assumes "net_reach guest h pid ps e0 s" "leaves_queue guest" "leaves_host guest"
    "thread_active e0 = False" "ether_thread e0 = False" "slirpq e0 = None"
  shows "thread_sound s"
  using assms(1)
proof induction
  case (net_start e)
  then show ?case by (rule EtherInit_sound [OF _ assms(4-6)])
next
  case (net_more s t)
  then show ?case using rx_step_sound world_step_sound assms(2,3) unfolding net_step_def by blast
qed

end
