(* ===== verification/Ether_Properties.thy ===== *)
theory Ether_Properties
  imports Ether_Thread M68k
begin

section \<open>Properties of the Ethernet driver\<close>

text \<open>
  Frames are served in the order they arrive, a handler that reads gets the payload and nothing
  else, the protocol table is a map, what is sent is what the guest described with the
  source address of the machine, and the reception thread is always released. The examples run
  on a network that slirp provides.
\<close>

subsection \<open>A network on slirp\<close>

definition no_net :: ether_st where
  "no_net = \<lparr>dmem = bare_mac, sysd = bare_host, traps = [],
     ether_addr = replicate 6 0, net_open = False, ether_data = 0x2000, prot_list = [], slirpq = None, packet_data = None,
     is_ethertap = False, is_pcap = False, is_slirp = False, slirp_inited = False, pcap_open = False, thread_active = False,
     ether_thread = False, int_ack = None, to_host = [], overrun = False, over_read = False\<rparr>"

definition good_host :: net_host where
  "good_host = \<lparr>lib_loads = True, symbols_found = True, live_opens = True, thread_starts = True\<rparr>"

definition slirp_prefs :: prefs where
  "slirp_prefs = PrefsAddString ''ether'' ''slirp'' []"

definition slirp_net :: ether_st where
  "slirp_net = ether_start good_host 0x1234 (no_net\<lparr>is_slirp := True\<rparr>)"

lemma slirp_net_started: "EtherInit good_host 0x1234 slirp_prefs no_net = Some slirp_net"
proof -
  have p: "PrefsFindString ''ether'' 0 slirp_prefs = Some ''slirp''" by code_simp
  show ?thesis
    by (simp add: EtherInit_def p starts_with_def Let_def slirp_net_def no_net_def good_host_def)
qed

lemma slirp_net_sel:
  "slirpq slirp_net = Some QueueCreate" "is_slirp slirp_net" "prot_list slirp_net = []" "net_open slirp_net" "overrun slirp_net = False"
  "int_ack slirp_net = Some 0" "ether_thread slirp_net" "thread_active slirp_net" "dmem slirp_net = bare_mac" "ether_data slirp_net = 0x2000"
  "ether_addr slirp_net = [0xfe, 0xfd, 0, 0, 0x12, 0x34]" "over_read slirp_net = False" "to_host slirp_net = []"
  by (simp_all add: slirp_net_def ether_start_def no_net_def good_host_def pid_address_def, code_simp?)

definition idle_guest :: "ether_st guest_code" where
  "idle_guest = (\<lambda>a r t. (r, t))"

lemma idle_guest_ok: "leaves_queue idle_guest" "leaves_host idle_guest"
  by (simp_all add: idle_guest_def leaves_queue_def leaves_host_def)

subsection \<open>The properties\<close>

lemma outputs_enter:
  assumes "slirpq s = Some q"
  shows "\<exists>s'. for_each slirp_output pkts s = Some s' \<and> slirpq s' = Some (fold QueueEnter pkts q) \<and> is_slirp s' = is_slirp s"
  using assms
proof (induction pkts arbitrary: s q)
  case (Cons p ps)
  define s1 where "s1 = (enqueue p s)\<lparr>overrun := overrun s \<or> length p > QUEUE_PACKET_SIZE\<rparr>"
  have "slirp_output p s = Some s1" "slirpq s1 = Some (QueueEnter p q)" "is_slirp s1 = is_slirp s"
    using Cons.prems by (simp_all add: slirp_output_def s1_def enqueue_def)
  then show ?case using Cons.IH [of s1 "QueueEnter p q"] by simp
qed simp

text \<open>
  C19. packets slirp hands over while there is room wait behind those already there; the next
  Ethernet interrupt passes all of them to \<open>handle_packet\<close>, oldest first, each once, leaves the
  queue empty and acknowledges. Guest code is any code that leaves the host's queue alone.
\<close>
theorem packets_served_in_order:
  assumes "leaves_queue guest" "is_slirp s" "slirpq s = Some q" "queue_ok q" "length (queue_list q) + length pkts \<le> 100"
  shows "\<exists>s' q'. for_each slirp_output pkts s = Some s' \<and> queue_list q' = [] \<and>
    EtherInterrupt guest s' =
      Some (sem_post ((snd (fold (handle_packet guest) (queue_list q @ pkts) (replicate 1516 0, s')))\<lparr>slirpq := Some q'\<rparr>))"
proof -
  obtain s' where s': "for_each slirp_output pkts s = Some s'" "slirpq s' = Some (fold QueueEnter pkts q)" "is_slirp s'"
    using outputs_enter [OF assms(3), of pkts] assms(2) by auto
  have "queue_ok (fold QueueEnter pkts q)" "queue_list (fold QueueEnter pkts q) = queue_list q @ pkts"
    using ring.enter_all [OF assms(4), of pkts] assms(5) by (simp_all add: MAX_QUEUE_SIZE_def)
  then obtain q' where "queue_list q' = []" "serve_queue guest (replicate PACKET_SIZE 0, s') =
      Some (fst (fold (handle_packet guest) (queue_list q @ pkts) (replicate PACKET_SIZE 0, s')),
            (snd (fold (handle_packet guest) (queue_list q @ pkts) (replicate PACKET_SIZE 0, s')))\<lparr>slirpq := Some q'\<rparr>)"
    using serve_queue_in_order [OF assms(1) s'(2)] by metis
  then show ?thesis using s' by (intro exI [of _ s'] exI [of _ q']) (simp add: EtherInterrupt_def PACKET_SIZE_def)
qed

theorem packets_served_in_order_witness:
  "\<exists>s' q'. for_each slirp_output [replicate 20 1, replicate 30 2] slirp_net = Some s' \<and> queue_list q' = [] \<and>
    EtherInterrupt idle_guest s' =
      Some (sem_post ((snd (fold (handle_packet idle_guest) (queue_list QueueCreate @ [replicate 20 1, replicate 30 2])
        (replicate 1516 0, s')))\<lparr>slirpq := Some q'\<rparr>))"
  by (rule packets_served_in_order)
    (simp_all add: idle_guest_ok slirp_net_sel ring.inv_empty ring.elems_empty)

text \<open>
  C20. a frame that fits the packet buffer is handed to the handler of its type. The frame's header is
  behind the driver data; a handler that asks for the rest in pieces of any sizes gets exactly the
  next bytes of the payload, one piece after the other from where A3 points, and once the
  payload is used up nothing more. No request reads past the frame.
\<close>
theorem payload_reaches_handler:
  fixes s :: ether_st and guest :: "ether_st guest_code" and ns :: "u32 list"
  assumes "14 \<le> length qp" "length qp \<le> 1516" "length pk = 1516"
    and "handler_of s (folded_type (ucast (of_be16 (qp ! 12) (qp ! 13)))) = Some h" "h \<noteq> 0"
    and "\<And>r t. guest h r t = fold request ns (set_areg 3 dest r, t)"
  shows "dmem (snd (handle_packet guest qp (pk, s))) =
      store dest (take (sum_list (map unat ns)) (drop 14 qp)) (store (ether_data s + 38) (take 14 qp) (dmem s)) \<and>
    over_read (snd (handle_packet guest qp (pk, s))) = over_read s \<and> overrun (snd (handle_packet guest qp (pk, s))) = overrun s"
proof -
  define packet where "packet = patch 0 qp pk"
  have pk: "packet = qp @ drop (length qp) pk" "length packet = 1516" using assms(2,3) by (simp_all add: packet_def patch_def)
  define type where "type = of_be16 (packet ! 12) (packet ! 13)"
  have ty: "type = of_be16 (qp ! 12) (qp ! 13)" using assms(1) by (simp add: type_def pk(1) nth_append)
  define s1 where "s1 = s\<lparr>overrun := overrun s \<or> length qp > PACKET_SIZE\<rparr>"
  have s1: "s1 = s" using assms(2) by (simp add: s1_def PACKET_SIZE_def)
  obtain p where p: "find_protocol (ucast type) s = Some p" "snd p = h"
    using assms(4) find_protocol_handler [of "ucast type" s] by (auto simp: ty)
  define r where "r = set_areg 3 dest (handler_regs type (length qp) (ether_data s))"
  define t where "t = with_header packet s"
  have h: "snd (handle_packet guest qp (pk, s)) = EtherSetPacketData None (snd (fold request ns (r, t)))"
    using assms(1,5) p unfolding handle_packet_def Let_def fst_conv snd_conv packet_def [symmetric] s1_def [symmetric] s1 type_def [symmetric]
    by (simp add: assms(6) r_def t_def)
  have r: "dreg r 1 = of_nat (length qp - 14)" "areg r 3 = dest"
    using assms(1) by (simp_all add: r_def handler_regs_def of_nat_diff)
  have t: "packet_data t = Some (packet, 14)" "dmem t = store (ether_data s + 38) (take 14 qp) (dmem s)" "over_read t = over_read s" "overrun t = overrun s"
    using assms(1) by (simp_all add: t_def with_header_def EtherSetPacketData_def ed_RHA_def pk(1))
  have reads: "snd (fold request ns (r, t)) = t\<lparr>dmem := store dest (take (min (sum_list (map unat ns)) (length qp - 14)) (drop 14 packet)) (dmem t),
      packet_data := Some (packet, 14 + min (sum_list (map unat ns)) (length qp - 14))\<rparr>"
    using requests_read [OF t(1) r(1), of ns] pk(2) assms(1,2) by (simp add: r(2))
  have "take (min (sum_list (map unat ns)) (length qp - 14)) (drop 14 packet) = take (sum_list (map unat ns)) (drop 14 qp)"
    using assms(1) by (simp add: pk(1) min_def)
  then show ?thesis by (simp add: h reads EtherSetPacketData_def t)
qed

definition demo_frame :: "u8 list" where
  "demo_frame = replicate 6 0xff @ replicate 6 1 @ [0x80, 0x9b] @ [10, 20, 30, 40, 50]"

definition reading_guest :: "ether_st guest_code" where
  "reading_guest = (\<lambda>a r t. fold request [2, 9] (set_areg 3 0x3000 r, t))"

definition listening_net :: ether_st where
  "listening_net = snd (ether_attach_ph 0x809b 0x4000 slirp_net)"

theorem payload_reaches_handler_witness:
  "dmem (snd (handle_packet reading_guest demo_frame (replicate 1516 0, listening_net))) =
      store 0x3000 (take (sum_list (map unat [2, 9 :: u32])) (drop 14 demo_frame))
        (store (ether_data listening_net + 38) (take 14 demo_frame) (dmem listening_net)) \<and>
    over_read (snd (handle_packet reading_guest demo_frame (replicate 1516 0, listening_net))) = over_read listening_net \<and>
    overrun (snd (handle_packet reading_guest demo_frame (replicate 1516 0, listening_net))) = overrun listening_net"
proof (rule payload_reaches_handler [where h = "0x4000"])
  have ty: "folded_type (ucast (of_be16 (demo_frame ! 12) (demo_frame ! 13))) = 0x809b" by code_simp
  show "handler_of listening_net (folded_type (ucast (of_be16 (demo_frame ! 12) (demo_frame ! 13)))) = Some 0x4000"
    unfolding ty by (simp add: listening_net_def ether_attach_ph_def find_protocol_def slirp_net_sel handler_of_def)
qed (simp_all add: demo_frame_def reading_guest_def)

text \<open>
  C21. the calls that attach and detach protocol handlers keep a map from types to handlers. Attaching
  a free type enters it, detaching an attached one takes it out, both report \<open>lapProtErr\<close>
  otherwise and change nothing. Types up to 1500 are looked up as type 0.
\<close>
theorem protocol_table_is_a_map:
  assumes "net_open s" "protocols_ok s" "t = ucast (ReadMacInt16 (dmem s) (pb + 28))" "h = ReadMacInt32 (dmem s) (pb + 30)"
    and "ReadMacInt16 (dmem s) (pb + 26) = code" "code = 247 \<or> code = 248"
  shows "\<exists>s'. EtherControl ok pb dce s =
      Some (if (handler_of s (folded_type t) = None) = (code = 247) then 0 else -94, s') \<and> protocols_ok s' \<and>
    handler_of s' =
      (if handler_of s (folded_type t) = None
       then (if code = 247 then (handler_of s)(t \<mapsto> h) else handler_of s)
       else (if code = 247 then handler_of s else (handler_of s)(folded_type t := None)))"
proof -
  have attach: "EtherControl ok pb dce s = Some (ether_attach_ph t h s)" if "code = 247"
    using assms that by (simp add: EtherControl_def Let_def csCode_def eProtType_def ePointer_def)
  have detach: "EtherControl ok pb dce s = Some (ether_detach_ph t s)" if "code = 248"
    using assms that by (simp add: EtherControl_def Let_def csCode_def eProtType_def ePointer_def)
  show ?thesis
  proof (cases "handler_of s (folded_type t) = None")
    case True
    then have "ether_detach_ph t s = (lapProtErr, s)" by (simp add: ether_detach_ph_def find_protocol_None flip: find_protocol_None)
    then show ?thesis
      using attach_protocol [OF assms(2) True, of h] attach detach assms(2,6) True
      by (cases "ether_attach_ph t h s") (auto simp: noErr_def lapProtErr_def)
  next
    case False
    then have "ether_attach_ph t h s = (lapProtErr, s)" by (simp add: ether_attach_ph_def find_protocol_None)
    then show ?thesis
      using detach_protocol [OF assms(2) False] attach detach assms(2,6) False
      by (cases "ether_detach_ph t s") (auto simp: noErr_def lapProtErr_def)
  qed
qed

definition call_net :: "u8 list \<Rightarrow> ether_st" where
  "call_net bytes = slirp_net\<lparr>dmem := store 0x1000 bytes bare_mac\<rparr>"

lemma call_net_sel:
  "dmem (call_net bytes) = store 0x1000 bytes bare_mac" "net_open (call_net bytes)" "prot_list (call_net bytes) = []" "is_slirp (call_net bytes)"
  "ether_addr (call_net bytes) = [0xfe, 0xfd, 0, 0, 0x12, 0x34]" "overrun (call_net bytes) = False"
  by (simp_all add: call_net_def slirp_net_sel)

definition attach_block :: "u8 list" where
  "attach_block = replicate 26 0 @ be16 247 @ be16 0x800 @ be32 0x4000"

theorem protocol_table_is_a_map_witness:
  "\<exists>s'. EtherControl (\<lambda>p. True) 0x1000 0 (call_net attach_block) =
      Some (if (handler_of (call_net attach_block) (folded_type 0x800) = None) = ((247 :: u32) = 247) then 0 else -94, s') \<and> protocols_ok s' \<and>
    handler_of s' =
      (if handler_of (call_net attach_block) (folded_type 0x800) = None
       then (if (247 :: u32) = 247 then (handler_of (call_net attach_block))(0x800 \<mapsto> 0x4000) else handler_of (call_net attach_block))
       else (if (247 :: u32) = 247 then handler_of (call_net attach_block) else (handler_of (call_net attach_block))(folded_type 0x800 := None)))"
proof (rule protocol_table_is_a_map)
  show "0x800 = ucast (ReadMacInt16 (dmem (call_net attach_block)) (0x1000 + 28))"
    "0x4000 = ReadMacInt32 (dmem (call_net attach_block)) (0x1000 + 30)" "ReadMacInt16 (dmem (call_net attach_block)) (0x1000 + 26) = 247"
    unfolding call_net_sel by code_simp+
qed (simp_all add: call_net_sel protocols_ok_def)

text \<open>
  a write sends one packet, the pieces of the write data structure put together in order, with
  the address of this machine as the source. Slirp always takes it, for pcap the
  answer decides between no error and \<open>excessCollsns\<close>. The 1516 bytes of the packet buffer are exceeded
  exactly when the pieces are longer than that.
\<close>
theorem packet_sent_as_described:
  fixes s :: ether_st
  assumes "net_open s" "is_slirp s \<or> is_pcap s" "length (ether_addr s) = 6" "ReadMacInt16 (dmem s) (pb + 26) = 249"
    and "wds = ReadMacInt32 (dmem s) (pb + 30)" "hdr = ReadMacInt32 (dmem s) (wds + 2)" "n = unat (ReadMacInt16 (dmem s) wds)" "14 \<le> n" "n \<le> 65535"
    and "m = store (hdr + 6) (ether_addr s) (dmem s)" "wds_list m wds ((hdr, n) # segs)"
  shows "\<exists>s' packet. EtherControl ok pb dce s = Some (if is_slirp s \<or> ok packet then 0 else -95, s') \<and>
    packet = pieces m ((hdr, n) # segs) \<and> take 6 (drop 6 packet) = ether_addr s \<and>
    to_host s' = to_host s @ [packet] \<and> dmem s' = m \<and> overrun s' = (overrun s \<or> length packet > 1516)"
proof -
  define packet where "packet = pieces m ((hdr, n) # segs)"
  have g: "gather m wds [] = Some packet" using gather_pieces [OF assms(11), of "[]"] by (simp add: packet_def)
  have src: "take 6 (drop 6 packet) = ether_addr s"
    unfolding packet_def assms(10) by (rule pieces_source [OF assms(8,9,3)])
  have "EtherControl ok pb dce s = ether_write ok wds s"
    using assms(1,4,5,7,8) by (simp add: EtherControl_def Let_def csCode_def ePointer_def)
  moreover have "ether_write ok wds s = Some (if is_slirp s \<or> ok packet then 0 else -95,
      s\<lparr>dmem := m, overrun := overrun s \<or> length packet > 1516, to_host := to_host s @ [packet]\<rparr>)"
    using assms(2) g unfolding ether_write_def Let_def assms(6) [symmetric]
    by (auto simp: PACKET_SIZE_def noErr_def excessCollsns_def simp flip: assms(10))
  ultimately have c: "EtherControl ok pb dce s = Some (if is_slirp s \<or> ok packet then 0 else -95,
      s\<lparr>dmem := m, overrun := overrun s \<or> length packet > 1516, to_host := to_host s @ [packet]\<rparr>)" by simp
  show ?thesis unfolding c using src packet_def by (intro exI conjI) (rule refl, simp_all)
qed

text \<open>The parameter block, then a description of two pieces, then the pieces.\<close>

definition write_block :: "u8 list" where
  "write_block = replicate 26 0 @ be16 249 @ be16 0 @ be32 0x1022 @
     be16 14 @ be32 0x1040 @ be16 3 @ be32 0x1050 @ be16 0 @ replicate 16 0 @ replicate 12 7 @ be16 0x800 @ be16 0 @ [1, 2, 3]"

theorem packet_sent_as_described_witness:
  "\<exists>s' packet. EtherControl (\<lambda>p. True) 0x1000 0 (call_net write_block) =
      Some (if is_slirp (call_net write_block) \<or> True then 0 else -95, s') \<and>
    packet = pieces (store (0x1040 + 6) (ether_addr (call_net write_block)) (dmem (call_net write_block))) [(0x1040, 14), (0x1050, 3)] \<and>
    take 6 (drop 6 packet) = ether_addr (call_net write_block) \<and>
    to_host s' = to_host (call_net write_block) @ [packet] \<and>
    dmem s' = store (0x1040 + 6) (ether_addr (call_net write_block)) (dmem (call_net write_block)) \<and>
    overrun s' = (overrun (call_net write_block) \<or> length packet > 1516)"
proof (rule packet_sent_as_described [where ok = "\<lambda>p. True" and wds = "0x1022"])
  show "wds_list (store (0x1040 + 6) (ether_addr (call_net write_block)) (dmem (call_net write_block))) 0x1022 [(0x1040, 14), (0x1050, 3)]"
    "14 = unat (ReadMacInt16 (dmem (call_net write_block)) 0x1022)" "0x1040 = ReadMacInt32 (dmem (call_net write_block)) (0x1022 + 2)"
    "0x1022 = ReadMacInt32 (dmem (call_net write_block)) (0x1000 + 30)" "ReadMacInt16 (dmem (call_net write_block)) (0x1000 + 26) = 249"
    unfolding call_net_sel by code_simp+
qed (simp_all add: call_net_sel)

text \<open>
  C22. Whatever the order of guest code, interrupts, ticks, driver calls, resets, arriving packets and the exit, as
  long as the thread exists the interrupt routine returns and finds a queue and a semaphore. When the thread waits, even after a reset
  has dropped the interrupt it raised, the next 60 Hz interrupt after Mac OS has started posts its acknowledgement. Once that is there,
  nothing else takes it away, the thread can go on, and its next move is out of the wait. Once the exit
  has told the thread to stop, nothing else moves it, it is never stuck, and each of its moves brings it nearer
  to its end, after at most two. The guest's handlers are assumed to leave the driver's queue and host state alone.\<close>
theorem thread_is_always_released:
  assumes "leaves_queue guest" "leaves_host guest" "thread_active e0 = False" "ether_thread e0 = False" "slirpq e0 = None"
    and "net_reach guest h pid ps e0 s" "ether_thread (eth s)"
  shows "(\<exists>e. EtherInterrupt guest (eth s) = Some e) \<and> slirpq (eth s) \<noteq> None \<and> int_ack (eth s) \<noteq> None \<and>
    (rx s = Awaiting \<and> HasMacStarted (dmem (eth s)) \<longrightarrow>
      (\<exists>t. sixty_hz guest s = Some t \<and> world_step guest s t \<and> acknowledged t)) \<and>
    (acknowledged s \<longrightarrow> (\<forall>t. world_step guest s t \<longrightarrow> acknowledged t) \<and>
      (\<exists>t. rx_step s t) \<and> (\<forall>t. rx_step s t \<longrightarrow> rx t = Looping)) \<and>
    (\<not> thread_active (eth s) \<and> rx s \<noteq> Ended \<longrightarrow>
      (\<forall>t. world_step guest s t \<longrightarrow> rx t = rx s \<and> \<not> thread_active (eth t) \<and> ether_thread (eth t)) \<and>
      (\<exists>t. rx_step s t) \<and>
      (\<forall>t. rx_step s t \<longrightarrow> moves_left (rx t) < moves_left (rx s) \<and> \<not> thread_active (eth t) \<and> ether_thread (eth t)))"
proof -
  have inv: "thread_sound s" by (rule net_reach_sound [OF assms(6,1-5)])
  then obtain q where q: "slirpq (eth s) = Some q" "queue_ok q" using assms(7) by (auto simp: thread_sound_def)
  obtain k where k: "int_ack (eth s) = Some k" using inv assms(7) by (auto simp: thread_sound_def)
  obtain e where e: "EtherInterrupt guest (eth s) = Some e" "is_slirp (eth s) \<or> is_pcap (eth s) \<longrightarrow> int_ack e = Some (Suc k)"
    using EtherInterrupt_serves [OF assms(1,2) _ q] k by (cases "is_slirp (eth s) \<or> is_pcap (eth s)") (auto simp: EtherInterrupt_def host_part_def)
  have tick: "\<exists>t. sixty_hz guest s = Some t \<and> world_step guest s t \<and> acknowledged t" if "rx s = Awaiting" "HasMacStarted (dmem (eth s))"
  proof -
    have "int_ack e = Some (Suc k)" using e(2) inv that(1) by (auto simp: thread_sound_def)
    then have "acknowledged (s\<lparr>eth := e\<rparr>)" using that(1) by (simp add: acknowledged_def)
    moreover have "sixty_hz guest s = Some (s\<lparr>eth := e\<rparr>)" using e(1) that(2) by (simp add: sixty_hz_def)
    ultimately show ?thesis using tick_60hz [OF assms(7)] by blast
  qed
  have woken: "(\<forall>t. world_step guest s t \<longrightarrow> acknowledged t) \<and> (\<exists>t. rx_step s t) \<and> (\<forall>t. rx_step s t \<longrightarrow> rx t = Looping)" if a: "acknowledged s"
  proof -
    have w: "rx s = Awaiting" using a by (simp add: acknowledged_def)
    have "rx t = Looping" if "rx_step s t" for t using that by cases (use w in simp_all)
    moreover have "\<exists>t. rx_step s t" using rx_wake w a unfolding acknowledged_def by blast
    ultimately show ?thesis using world_keeps_thread(4) [OF _ assms(1,2) inv] w a by simp
  qed
  show ?thesis
    using e(1) q k tick woken world_keeps_thread [OF _ assms(1,2) inv] stopped_thread [OF _ inv] by simp
qed

text \<open>A packet has arrived, the thread has raised the interrupt, and the Mac is reset.\<close>

definition started_memory :: mac where
  "started_memory = bare_mac\<lparr>ram := (ram bare_mac)(0xcfc := 0x57, 0xcfd := 0x4c, 0xcfe := 0x53, 0xcff := 0x43)\<rparr>"

lemma mac_has_started: "HasMacStarted started_memory"
  by code_simp

definition reset_while_waiting :: ether_sys where
  "reset_while_waiting = \<lparr>eth = (EtherReset ((enqueue [1, 2, 3] slirp_net)\<lparr>overrun := False\<rparr>))\<lparr>dmem := started_memory\<rparr>, rx = Awaiting, irq_flag = False\<rparr>"

lemma reset_while_waiting_reached: "net_reach idle_guest good_host 0x1234 slirp_prefs no_net reset_while_waiting"
proof -
  let ?s0 = "\<lparr>eth = slirp_net, rx = Looping, irq_flag = False\<rparr>"
  let ?e = "(enqueue [1, 2, 3] slirp_net)\<lparr>overrun := False\<rparr>"
  have more: "net_reach idle_guest good_host 0x1234 slirp_prefs no_net t"
    if "net_reach idle_guest good_host 0x1234 slirp_prefs no_net s" "rx_step s t \<or> world_step idle_guest s t" for s t
    using net_reach.net_more that unfolding net_step_def by blast
  have 0: "net_reach idle_guest good_host 0x1234 slirp_prefs no_net ?s0"
    using net_reach.net_start [OF slirp_net_started, of idle_guest] by (simp add: slirp_net_sel)
  have "slirp_output [1, 2, 3] slirp_net = Some ?e"
    by (simp add: slirp_output_def slirp_net_sel QUEUE_PACKET_SIZE_def)
  then have "world_step idle_guest ?s0 (?s0\<lparr>eth := ?e\<rparr>)" by (intro world_step.slirp_delivers) (simp_all add: slirp_net_sel)
  then have 1: "net_reach idle_guest good_host 0x1234 slirp_prefs no_net (?s0\<lparr>eth := ?e\<rparr>)" using more [OF 0] by blast
  have "queue_waits ?e" by (simp add: queue_waits_def enqueue_def slirp_net_sel QueueEnter_def QueueCreate_def QueuePeek_def MAX_QUEUE_SIZE_def)
  then have "rx_step (?s0\<lparr>eth := ?e\<rparr>) (raise_and_wait (?s0\<lparr>eth := ?e\<rparr>))" by (intro rx_step.rx_slirp) (simp_all add: slirp_net_sel enqueue_def)
  then have 2: "net_reach idle_guest good_host 0x1234 slirp_prefs no_net (raise_and_wait (?s0\<lparr>eth := ?e\<rparr>))" using more [OF 1] by blast
  have "raise_and_wait (?s0\<lparr>eth := ?e\<rparr>) = \<lparr>eth = ?e, rx = Awaiting, irq_flag = True\<rparr>"
    by (simp add: raise_and_wait_def enqueue_def slirp_net_sel)
  then have 3: "net_reach idle_guest good_host 0x1234 slirp_prefs no_net \<lparr>eth = EtherReset ?e, rx = Awaiting, irq_flag = False\<rparr>"
    using more [OF 2] world_step.mac_reset by fastforce
  show ?thesis unfolding reset_while_waiting_def
    using more [OF 3] world_step.guest_runs [of idle_guest "\<lparr>eth = EtherReset ?e, rx = Awaiting, irq_flag = False\<rparr>" started_memory] by simp
qed

theorem thread_is_always_released_witness:
  "(\<exists>e. EtherInterrupt idle_guest (eth reset_while_waiting) = Some e) \<and>
    (\<exists>t. sixty_hz idle_guest reset_while_waiting = Some t \<and> world_step idle_guest reset_while_waiting t \<and> acknowledged t)"
proof -
  have s: "thread_active no_net = False" "ether_thread no_net = False" "slirpq no_net = None" "rx reset_while_waiting = Awaiting"
    "ether_thread (eth reset_while_waiting)"
    by (simp_all add: no_net_def reset_while_waiting_def EtherReset_def remove_all_protocols_def enqueue_def slirp_net_sel)
  have "HasMacStarted (dmem (eth reset_while_waiting))" by (simp add: reset_while_waiting_def mac_has_started)
  then show ?thesis
    using thread_is_always_released [OF idle_guest_ok s(1-3) reset_while_waiting_reached s(5)] s(4) by blast
qed

end
