(* ===== verification/Audio.thy ===== *)
theory Audio
  imports M68k Prefs Mac_Blocks
begin

section \<open>The sound output component\<close>

text \<open>
  \<open>audio.cpp\<close> (the component the guest opens: it keeps a global data area with 68k routines
  that call the Apple Mixer) and \<open>SDL/audio_sdl.cpp\<close> (the sound device of the host and the
  callback that fills its buffers). Guest code (the routines, the mixer) and the answers of SDL
  are arguments; a result is the word that goes to D0.
\<close>

subsection \<open>Data\<close>

definition badComponentSelector :: int where "badComponentSelector = -2147450878"
definition noHardwareErr :: int where "noHardwareErr = -200"
definition badChannel :: int where "badChannel = -205"
definition siInvalidSampleRate :: int where "siInvalidSampleRate = -225"
definition siInvalidSampleSize :: int where "siInvalidSampleSize = -226"
definition siDeviceBusyErr :: int where "siDeviceBusyErr = -227"
definition memFullErr :: int where "memFullErr = -108"

definition adatDelegateCall :: u32 where "adatDelegateCall = 0"
definition adatOpenMixer :: u32 where "adatOpenMixer = 14"
definition adatCloseMixer :: u32 where "adatCloseMixer = 36"
definition adatGetInfo :: u32 where "adatGetInfo = 54"
definition adatSetInfo :: u32 where "adatSetInfo = 78"
definition adatPlaySourceBuffer :: u32 where "adatPlaySourceBuffer = 102"
definition adatGetSourceData :: u32 where "adatGetSourceData = 126"
definition adatStartSource :: u32 where "adatStartSource = 146"
definition adatData :: u32 where "adatData = 168"
definition adatMixer :: u32 where "adatMixer = 196"
definition adatStreamInfo :: u32 where "adatStreamInfo = 200"
definition SIZEOF_adat :: u32 where "SIZEOF_adat = 204"

lemmas adat_offsets = adatDelegateCall_def adatOpenMixer_def adatCloseMixer_def adatGetInfo_def adatSetInfo_def
  adatPlaySourceBuffer_def adatGetSourceData_def adatStartSource_def adatData_def adatMixer_def adatStreamInfo_def SIZEOF_adat_def

definition scd_flags :: u32 where "scd_flags = 0"
definition scd_format :: u32 where "scd_format = 4"
definition scd_numChannels :: u32 where "scd_numChannels = 8"
definition scd_sampleSize :: u32 where "scd_sampleSize = 10"
definition scd_sampleRate :: u32 where "scd_sampleRate = 12"
definition scd_sampleCount :: u32 where "scd_sampleCount = 16"
definition scd_buffer :: u32 where "scd_buffer = 20"
definition scd_reserved :: u32 where "scd_reserved = 24"
definition sil_count :: u32 where "sil_count = 0"
definition sil_infoHandle :: u32 where "sil_infoHandle = 2"
definition cp_what :: u32 where "cp_what = 2"
definition cp_params :: u32 where "cp_params = 4"

lemmas scd_offsets = scd_flags_def scd_format_def scd_numChannels_def scd_sampleSize_def scd_sampleRate_def scd_sampleCount_def
  scd_buffer_def scd_reserved_def sil_count_def sil_infoHandle_def cp_what_def cp_params_def

text \<open>The formats the SDL driver offers; the rate is 16.16 fixed point in 32 bits.\<close>

definition audio_sample_rates :: "u32 list" where "audio_sample_rates = [push_bit 16 44100]"
definition audio_sample_sizes :: "u32 list" where "audio_sample_sizes = [16]"
definition audio_channel_counts :: "u32 list" where "audio_channel_counts = [2]"

record audio_st = env +
  sample_rate :: u32
  sample_size :: u32
  channels :: u32
  mixer :: u32
  num_sources :: int
  audio_open :: bool
  audio_frames_per_block :: u32
  audio_component_flags :: u32
  audio_data :: u32
  open_count :: int
  AudioAvailable :: bool
  audio_sample_rate_index :: nat
  audio_sample_size_index :: nat
  audio_channel_count_index :: nat
  silence_byte :: u8
  audio_irq_done_sem :: "nat option"
  sdl_closes :: nat
  quit_requested :: bool

text \<open>
  The answers of SDL to opening the device: whether the first attempt works, the format it
  gives, whether a second attempt with conversion works, and the value of silence.
\<close>

datatype sdl_format = AUDIO_U8 | AUDIO_S16MSB | AUDIO_OTHER

record sdl_audio =
  opens_device :: bool
  obtained_format :: sdl_format
  opens_converted :: bool
  obtained_silence :: u8

subsection \<open>The sound device\<close>

definition open_sdl_audio :: "sdl_audio \<Rightarrow> audio_st \<Rightarrow> bool \<times> audio_st" where
  "open_sdl_audio h s =
     (if \<not> opens_device h then (False, s)
      else
        let converted = (obtained_format h = AUDIO_OTHER);
            s1 = (if converted then s\<lparr>sdl_closes := sdl_closes s + 1\<rparr> else s)
        in if converted \<and> \<not> opens_converted h then (False, s1)
           else (True, s1\<lparr>silence_byte := obtained_silence h, audio_component_flags := 0x80000c00, audio_frames_per_block := 2048\<rparr>))"

definition open_audio :: "sdl_audio \<Rightarrow> audio_st \<Rightarrow> bool \<times> audio_st" where
  "open_audio h s =
     (let (ok, s1) = open_sdl_audio h s in if ok then (True, s1\<lparr>audio_open := True\<rparr>) else (False, s1))"

definition close_audio :: "audio_st \<Rightarrow> audio_st" where
  "close_audio s = s\<lparr>sdl_closes := sdl_closes s + 1, audio_open := False\<rparr>"

definition AudioInit :: "sdl_audio \<Rightarrow> prefs \<Rightarrow> audio_st \<Rightarrow> audio_st" where
  "AudioInit h ps s0 =
     (let s = s0\<lparr>sample_rate := audio_sample_rates ! 0, sample_size := audio_sample_sizes ! 0, channels := audio_channel_counts ! 0,
            mixer := 0, num_sources := 0, audio_component_flags := 0x80000c00\<rparr>
      in if PrefsFindBool ''nosound'' ps then s
         else snd (open_audio h (s\<lparr>audio_irq_done_sem := Some 0\<rparr>)))"

definition AudioExit :: "audio_st \<Rightarrow> audio_st" where
  "AudioExit s = (close_audio s)\<lparr>audio_irq_done_sem := None\<rparr>"

definition audio_set_sample_rate :: "sdl_audio \<Rightarrow> nat \<Rightarrow> audio_st \<Rightarrow> audio_st" where
  "audio_set_sample_rate h i s = snd (open_audio h ((close_audio s)\<lparr>audio_sample_rate_index := i\<rparr>))"

definition audio_set_sample_size :: "sdl_audio \<Rightarrow> nat \<Rightarrow> audio_st \<Rightarrow> audio_st" where
  "audio_set_sample_size h i s = snd (open_audio h ((close_audio s)\<lparr>audio_sample_size_index := i\<rparr>))"

definition audio_set_channels :: "sdl_audio \<Rightarrow> nat \<Rightarrow> audio_st \<Rightarrow> audio_st" where
  "audio_set_channels h i s = snd (open_audio h ((close_audio s)\<lparr>audio_channel_count_index := i\<rparr>))"

text \<open>The volume and mute controls of this driver do nothing and report full volume.\<close>

definition audio_get_main_mute :: bool where "audio_get_main_mute = False"
definition audio_get_main_volume :: u32 where "audio_get_main_volume = 0x01000100"
definition audio_get_speaker_mute :: bool where "audio_get_speaker_mute = False"
definition audio_get_speaker_volume :: u32 where "audio_get_speaker_volume = 0x01000100"

definition audio_enter_stream :: "audio_st \<Rightarrow> audio_st" where "audio_enter_stream s = s"
definition audio_exit_stream :: "audio_st \<Rightarrow> audio_st" where "audio_exit_stream s = s"

subsection \<open>Asking and setting\<close>

definition result_word :: "int \<Rightarrow> u32" where "result_word e = word_of_int e"

definition delegate_info :: "audio_st guest_code \<Rightarrow> u32 \<Rightarrow> u32 \<Rightarrow> u32 \<Rightarrow> u32 \<Rightarrow> audio_st \<Rightarrow> u32 \<times> audio_st" where
  "delegate_info guest routine infoPtr selector sourceID s =
     (if mixer s = 0 then (result_word badComponentSelector, s)
      else
        let r = set_areg 2 (mixer s) (set_areg 1 sourceID (with_d 0 selector (set_areg 0 infoPtr zero_regs)));
            (r', s') = guest (audio_data s + routine) r s
        in (dreg r' 0, s'))"

primrec put_values :: "(u32 \<Rightarrow> u32 \<Rightarrow> audio_st \<Rightarrow> audio_st) \<Rightarrow> u32 \<Rightarrow> u32 \<Rightarrow> u32 list \<Rightarrow> audio_st \<Rightarrow> audio_st" where
  "put_values wr step p [] s = s"
| "put_values wr step p (v # vs) s = put_values wr step (p + step) vs (wr p v s)"

definition info_list :: "mac_os \<Rightarrow> (u32 \<Rightarrow> u32 \<Rightarrow> audio_st \<Rightarrow> audio_st) \<Rightarrow> u32 \<Rightarrow> u32 list \<Rightarrow> u32 \<Rightarrow> audio_st \<Rightarrow> u32 \<times> audio_st" where
  "info_list os wr step vs infoPtr s0 =
     (let (h, s1) = Execute68kTrap os 0xa122 (of_nat (length vs) * step) 0 s0
      in if h = 0 then (result_word memFullErr, s1)
         else
           let s2 = wr32 (infoPtr + sil_infoHandle) h (wr16 (infoPtr + sil_count) (of_nat (length vs)) s1)
           in (result_word noErr, put_values wr step (ReadMacInt32 (dmem s2) h) vs s2))"

definition AudioGetInfo :: "mac_os \<Rightarrow> audio_st guest_code \<Rightarrow> u32 \<Rightarrow> u32 \<Rightarrow> u32 \<Rightarrow> audio_st \<Rightarrow> u32 \<times> audio_st" where
  "AudioGetInfo os guest infoPtr selector sourceID s =
     (if selector = four_cc ''ssiz'' then (result_word noErr, wr16 infoPtr (sample_size s) s)
      else if selector = four_cc ''ssav'' then info_list os wr16 2 audio_sample_sizes infoPtr s
      else if selector = four_cc ''chan'' then (result_word noErr, wr16 infoPtr (channels s) s)
      else if selector = four_cc ''chav'' then info_list os wr16 2 audio_channel_counts infoPtr s
      else if selector = four_cc ''srat'' then (result_word noErr, wr32 infoPtr (sample_rate s) s)
      else if selector = four_cc ''srav'' then info_list os wr32 4 audio_sample_rates infoPtr s
      else if selector = four_cc ''smut'' then (result_word noErr, wr16 infoPtr (if audio_get_speaker_mute then 1 else 0) s)
      else if selector = four_cc ''svol'' then (result_word noErr, wr32 infoPtr audio_get_speaker_volume s)
      else if selector = four_cc ''pmut'' then (result_word noErr, wr16 infoPtr 0 s)
      else if selector = four_cc ''pvol'' then (result_word noErr, wr32 infoPtr 0x01000100 s)
      else if selector = four_cc ''hdst'' then (result_word noErr, wr16 infoPtr 13 s)
      else if selector = four_cc ''hmut'' then (result_word noErr, wr16 infoPtr (if audio_get_main_mute then 1 else 0) s)
      else if selector = four_cc ''hvol'' then (result_word noErr, wr32 infoPtr audio_get_main_volume s)
      else if selector = four_cc ''hstp'' then (result_word noErr, wr16 infoPtr 13 s)
      else if selector = four_cc ''hwbs'' then (result_word noErr, wr16 infoPtr (if num_sources s \<noteq> 0 then 1 else 0) s)
      else delegate_info guest adatGetInfo infoPtr selector sourceID s)"

definition choose_value ::
  "u32 list \<Rightarrow> u32 \<Rightarrow> (nat \<Rightarrow> audio_st \<Rightarrow> audio_st) \<Rightarrow> int \<Rightarrow> audio_st \<Rightarrow> u32 \<times> audio_st" where
  "choose_value vs v set_index error s =
     (if num_sources s \<noteq> 0 then (result_word siDeviceBusyErr, s)
      else case find_index (\<lambda>x. x = v) vs of
             Some i \<Rightarrow> (result_word noErr, set_index i s)
           | None \<Rightarrow> (result_word error, s))"

definition AudioSetInfo :: "sdl_audio \<Rightarrow> audio_st guest_code \<Rightarrow> u32 \<Rightarrow> u32 \<Rightarrow> u32 \<Rightarrow> audio_st \<Rightarrow> u32 \<times> audio_st" where
  "AudioSetInfo h guest infoPtr selector sourceID s =
     (if selector = four_cc ''ssiz'' then choose_value audio_sample_sizes infoPtr (audio_set_sample_size h) siInvalidSampleSize s
      else if selector = four_cc ''srat'' then choose_value audio_sample_rates infoPtr (audio_set_sample_rate h) siInvalidSampleRate s
      else if selector = four_cc ''chan'' then choose_value audio_channel_counts infoPtr (audio_set_channels h) badChannel s
      else if selector = four_cc ''smut'' \<or> selector = four_cc ''svol'' \<or> selector = four_cc ''pmut'' \<or> selector = four_cc ''pvol'' \<or>
              selector = four_cc ''hmut'' \<or> selector = four_cc ''hvol''
      then (result_word noErr, s)
      else delegate_info guest adatSetInfo infoPtr selector sourceID s)"

subsection \<open>The 68k routines\<close>

text \<open>
  What opening puts into the data area, routine by routine, with the offset each must end at. A
  mismatch ends the emulator in the code.
\<close>

datatype code_word = W16 u32 | W32 u32

definition adat_code :: "(code_word list \<times> u32) list" where
  "adat_code =
    [([W16 0x598f, W16 0x2f09, W16 0x2f08, W16 0x7024, W16 0xa82a, W16 0x201f, W16 0x4e75], adatOpenMixer),
     ([W16 0x558f, W16 0x2f09, W16 0x2f00, W16 0x2f08, W16 0x203c, W32 0x06140018, W16 0xa800, W16 0x301f, W16 0x48c0, W16 0x4e75],
      adatCloseMixer),
     ([W16 0x558f, W16 0x2f08, W16 0x203c, W32 0x02180018, W16 0xa800, W16 0x301f, W16 0x48c0, W16 0x4e75], adatGetInfo),
     ([W16 0x598f, W16 0x2f0a, W16 0x2f09, W16 0x2f00, W16 0x2f08, W16 0x2f3c, W32 0x000c0103, W16 0x7000, W16 0xa82a, W16 0x201f,
       W16 0x4e75], adatSetInfo),
     ([W16 0x598f, W16 0x2f0a, W16 0x2f09, W16 0x2f00, W16 0x2f08, W16 0x2f3c, W32 0x000c0104, W16 0x7000, W16 0xa82a, W16 0x201f,
       W16 0x4e75], adatPlaySourceBuffer),
     ([W16 0x598f, W16 0x2f0a, W16 0x2f09, W16 0x2f08, W16 0x2f00, W16 0x2f3c, W32 0x000c0108, W16 0x7000, W16 0xa82a, W16 0x201f,
       W16 0x4e75], adatGetSourceData),
     ([W16 0x598f, W16 0x2f09, W16 0x2f08, W16 0x2f3c, W32 0x00040004, W16 0x7000, W16 0xa82a, W16 0x201f, W16 0x4e75], adatStartSource),
     ([W16 0x598f, W16 0x2f09, W16 0x3f00, W16 0x2f08, W16 0x2f3c, W32 0x00060105, W16 0x7000, W16 0xa82a, W16 0x201f, W16 0x4e75],
      adatData)]"

primrec write_words :: "u32 \<Rightarrow> code_word list \<Rightarrow> audio_st \<Rightarrow> u32 \<times> audio_st" where
  "write_words p [] s = (p, s)"
| "write_words p (w # ws) s =
     (case w of W16 x \<Rightarrow> write_words (p + 2) ws (wr16 p x s) | W32 x \<Rightarrow> write_words (p + 4) ws (wr32 p x s))"

primrec write_routines :: "u32 \<Rightarrow> (code_word list \<times> u32) list \<Rightarrow> audio_st \<Rightarrow> bool \<times> audio_st" where
  "write_routines p [] s = (True, s)"
| "write_routines p (r # rs) s =
     (let (p', s') = write_words p (fst r) s
      in if p' - audio_data s \<noteq> snd r then (False, s') else write_routines p' rs s')"

subsection \<open>Dispatch\<close>

definition component_open :: "mac_os \<Rightarrow> audio_st \<Rightarrow> u32 \<times> audio_st" where
  "component_open os s0 =
     (let ready = (\<lambda>s. (result_word noErr,
            (if open_count s = 0 then audio_enter_stream s else s)\<lparr>AudioAvailable := True, open_count := open_count s + 1\<rparr>))
      in if audio_data s0 \<noteq> 0 then ready s0
         else
           let (a0, s1) = Execute68kTrap os 0xa040 SIZEOF_adat 0 s0;
               (a, s2) = Execute68kTrap os 0xa31e SIZEOF_adat a0 s1
           in if a = 0 then (result_word memFullErr, s2)
              else
                let (ok, s3) = write_routines (a + adatDelegateCall) adat_code (s2\<lparr>audio_data := a\<rparr>)
                in if ok then ready s3 else (result_word openErr, s3\<lparr>quit_requested := True\<rparr>))"

definition component_close :: "audio_st guest_code \<Rightarrow> audio_st \<Rightarrow> u32 \<times> audio_st" where
  "component_close guest s0 =
     (let s = s0\<lparr>open_count := open_count s0 - 1\<rparr>
      in if open_count s \<noteq> 0 then (result_word noErr, s)
         else if mixer s \<noteq> 0
         then let (r, s1) = guest (audio_data s + adatCloseMixer) (set_areg 0 (mixer s) zero_regs) s
              in (dreg r 0, s1\<lparr>mixer := 0\<rparr>)
         else (result_word noErr, audio_exit_stream (s\<lparr>num_sources := 0\<rparr>)))"

definition init_output_device :: "audio_st guest_code \<Rightarrow> audio_st \<Rightarrow> u32 \<times> audio_st" where
  "init_output_device guest s =
     (if \<not> audio_open s then (result_word noHardwareErr, s)
      else if mixer s \<noteq> 0 then (result_word noErr, s)
      else
        let d = audio_data s + adatData;
            s1 = wr16 (d + scd_numChannels) (channels s)
                   (wr32 (d + scd_format) (if sample_size s = 16 then four_cc ''twos'' else four_cc ''raw '') (wr32 (d + scd_flags) 0 s));
            s2 = wr32 (d + scd_sampleCount) (audio_frames_per_block s)
                   (wr32 (d + scd_sampleRate) (sample_rate s) (wr16 (d + scd_sampleSize) (sample_size s) s1));
            s3 = wr32 (audio_data s + adatStreamInfo) 0 (wr32 (d + scd_reserved) 0 (wr32 (d + scd_buffer) 0 s2));
            (r, s4) = guest (audio_data s + adatOpenMixer) (set_areg 1 d (with_d 0 0 (set_areg 0 (audio_data s + adatMixer) zero_regs))) s3
        in (dreg r 0, s4\<lparr>mixer := ReadMacInt32 (dmem s4) (audio_data s4 + adatMixer)\<rparr>))"

definition delegate_call :: "audio_st guest_code \<Rightarrow> u32 \<Rightarrow> audio_st \<Rightarrow> u32 \<times> audio_st" where
  "delegate_call guest params s =
     (let (r, s') = guest (audio_data s + adatDelegateCall) (set_areg 1 params (set_areg 0 (mixer s) zero_regs)) s in (dreg r 0, s'))"

definition play_source_buffer :: "audio_st guest_code \<Rightarrow> u32 \<Rightarrow> audio_st \<Rightarrow> u32 \<times> audio_st" where
  "play_source_buffer guest p s =
     (let m = dmem s;
          regs = set_areg 2 (mixer s) (set_areg 1 (ReadMacInt32 m (p + 8)) (set_areg 0 (ReadMacInt32 m (p + 4)) (with_d 0 (ReadMacInt32 m p) zero_regs)));
          (r, s') = guest (audio_data s + adatPlaySourceBuffer) regs s
      in (dreg r 0, s'))"

definition AudioDispatch :: "mac_os \<Rightarrow> sdl_audio \<Rightarrow> audio_st guest_code \<Rightarrow> u32 \<Rightarrow> u32 \<Rightarrow> audio_st \<Rightarrow> u32 \<times> audio_st" where
  "AudioDispatch os h guest params globals s =
     (let what = sint (ucast (ReadMacInt16 (dmem s) (params + cp_what)) :: u16);
          p = params + cp_params;
          arg = (\<lambda>i. ReadMacInt32 (dmem s) (p + i))
      in if what = -1 then component_open os s
         else if what = -3 \<or> what = -5 then (result_word noErr, s)
         else if what = -4 then (0x00010003, s)
         else if what = -2 then component_close guest s
         else if what = 1 then init_output_device guest s
         else if what = 0x101 then delegate_call guest params (s\<lparr>num_sources := num_sources s + 1\<rparr>)
         else if what = 0x102 then delegate_call guest params (s\<lparr>num_sources := num_sources s - 1\<rparr>)
         else if what = 0x106 \<or> what = 0x107 then delegate_call guest params s
         else if what = 0x105 then (result_word noErr, s)
         else if what = 0x103 then AudioGetInfo os guest (arg 0) (arg 4) (arg 8) s
         else if what = 0x104 then AudioSetInfo h guest (arg 0) (arg 4) (arg 8) s
         else if what = 0x108 then play_source_buffer guest p s
         else (result_word badComponentSelector, s))"

definition AudioReset :: "audio_st \<Rightarrow> audio_st" where
  "AudioReset s = s\<lparr>mixer := 0, num_sources := 0, audio_data := 0, open_count := 0, AudioAvailable := False\<rparr>"

subsection \<open>The interrupt and the callback\<close>

definition AudioInterrupt :: "audio_st guest_code \<Rightarrow> audio_st \<Rightarrow> audio_st" where
  "AudioInterrupt guest s =
     (let s1 = (if mixer s \<noteq> 0
                then snd (guest (audio_data s + adatGetSourceData) (set_areg 1 (mixer s) (set_areg 0 (audio_data s + adatStreamInfo) zero_regs)) s)
                else wr32 (audio_data s + adatStreamInfo) 0 s)
      in s1\<lparr>audio_irq_done_sem := map_option Suc (audio_irq_done_sem s1)\<rparr>)"

text \<open>
  The second half of \<open>stream_func\<close>, after the acknowledgement: the bytes of the buffer. \<open>None\<close>
  is a copy of negative length.
\<close>

definition stream_fill :: "audio_st \<Rightarrow> nat \<Rightarrow> u8 list option" where
  "stream_fill s stream_len =
     (let silence = replicate stream_len (silence_byte s);
          info = ReadMacInt32 (dmem s) (audio_data s + adatStreamInfo);
          work = sint (ReadMacInt32 (dmem s) (info + scd_sampleCount) * drop_bit 3 (sample_size s) * channels s);
          work_size = (if work > int stream_len then int stream_len else work)
      in if info = 0 then Some silence
         else if work_size = 0 then Some silence
         else if work_size < 0 then None
         else Some (fetch (dmem s) (ReadMacInt32 (dmem s) (info + scd_buffer)) (nat work_size) @
                    replicate (stream_len - nat work_size) (silence_byte s)))"

end
