(* ===== verification/Audio_Thread.thy ===== *)
theory Audio_Thread
  imports Audio
begin

section \<open>The sound callback and the emulated CPU\<close>

text \<open>
  SDL calls \<open>stream_func\<close> from a thread of its own: with sources active it raises the audio
  interrupt, waits for the semaphore the interrupt routine posts, and fills the buffer. The step
  relation interleaves it with the interrupt, the calls of the component and the reset of the
  emulator. \<open>SDL_CloseAudio\<close> waits for a running callback, so a call that closes the device
  needs the callback idle.
\<close>

datatype cb_pc = CB_Idle | CB_Waiting

record audio_sys =
  aud :: audio_st
  cb :: cb_pc
  audio_flag :: bool
  played :: "u8 list list"

inductive audio_step :: "mac_os \<Rightarrow> sdl_audio \<Rightarrow> audio_st guest_code \<Rightarrow> audio_sys \<Rightarrow> audio_sys \<Rightarrow> bool" for os h guest where
  cb_silence: "cb s = CB_Idle \<Longrightarrow> audio_open (aud s) \<Longrightarrow> num_sources (aud s) = 0 \<Longrightarrow>
    audio_step os h guest s (s\<lparr>played := played s @ [replicate stream_len (silence_byte (aud s))]\<rparr>)"
| cb_trigger: "cb s = CB_Idle \<Longrightarrow> audio_open (aud s) \<Longrightarrow> num_sources (aud s) \<noteq> 0 \<Longrightarrow>
    audio_step os h guest s (s\<lparr>cb := CB_Waiting, audio_flag := True\<rparr>)"
| cb_fill: "cb s = CB_Waiting \<Longrightarrow> audio_irq_done_sem (aud s) = Some (Suc n) \<Longrightarrow> stream_fill (aud s) stream_len = Some buf \<Longrightarrow>
    audio_step os h guest s
      (s\<lparr>aud := (aud s)\<lparr>audio_irq_done_sem := Some n\<rparr>, cb := CB_Idle, played := played s @ [buf]\<rparr>)"
| audio_irq: "audio_flag s \<Longrightarrow> audio_step os h guest s (s\<lparr>aud := AudioInterrupt guest (aud s), audio_flag := False\<rparr>)"
| component_call: "AudioDispatch os h guest params globals (aud s) = (r, a) \<Longrightarrow> sdl_closes a = sdl_closes (aud s) \<or> cb s = CB_Idle \<Longrightarrow>
    audio_step os h guest s (s\<lparr>aud := a\<rparr>)"
| mac_reset: "audio_step os h guest s (s\<lparr>aud := AudioReset (aud s), audio_flag := False\<rparr>)"

inductive audio_reach :: "mac_os \<Rightarrow> sdl_audio \<Rightarrow> audio_st guest_code \<Rightarrow> prefs \<Rightarrow> audio_st \<Rightarrow> audio_sys \<Rightarrow> bool"
  for os h guest ps a0 where
  audio_start: "\<not> PrefsFindBool ''nosound'' ps \<Longrightarrow>
    audio_reach os h guest ps a0 \<lparr>aud = AudioInit h ps a0, cb = CB_Idle, audio_flag = False, played = []\<rparr>"
| audio_more: "audio_reach os h guest ps a0 s \<Longrightarrow> audio_step os h guest s t \<Longrightarrow> audio_reach os h guest ps a0 t"

subsection \<open>What guest code and calls leave alone\<close>

definition stream_part :: "audio_st \<Rightarrow> nat option \<times> u32 \<times> u32" where
  "stream_part a = (audio_irq_done_sem a, sample_size a, channels a)"

definition leaves_stream :: "audio_st guest_code \<Rightarrow> bool" where
  "leaves_stream guest \<longleftrightarrow> (\<forall>x r a. stream_part (snd (guest x r a)) = stream_part a)"

lemma stream_part_updates:
  "stream_part (wr16 x v a) = stream_part a" "stream_part (wr32 x v a) = stream_part a" "stream_part (a\<lparr>num_sources := i\<rparr>) = stream_part a"
  "stream_part (a\<lparr>mixer := v\<rparr>) = stream_part a" "stream_part (a\<lparr>open_count := i\<rparr>) = stream_part a"
  "stream_part (a\<lparr>audio_data := v\<rparr>) = stream_part a" "stream_part (a\<lparr>AudioAvailable := b\<rparr>) = stream_part a"
  "stream_part (a\<lparr>quit_requested := b\<rparr>) = stream_part a"
  "stream_part (snd (Execute68kTrap os t d0 x a)) = stream_part a"
  "stream_part (AudioReset a) = stream_part a" "stream_part (audio_enter_stream a) = stream_part a" "stream_part (audio_exit_stream a) = stream_part a"
  by (simp_all add: stream_part_def wr16_def wr32_def Execute68kTrap_def AudioReset_def audio_enter_stream_def audio_exit_stream_def split: prod.split)

lemma stream_part_device:
  "stream_part (snd (open_audio h a)) = stream_part a" "stream_part (close_audio a) = stream_part a"
  "stream_part (audio_set_sample_size h i a) = stream_part a" "stream_part (audio_set_sample_rate h i a) = stream_part a"
  "stream_part (audio_set_channels h i a) = stream_part a"
  by (simp_all add: stream_part_def open_audio_def open_sdl_audio_def close_audio_def audio_set_sample_size_def
      audio_set_sample_rate_def audio_set_channels_def Let_def)

lemma stream_part_put: "(\<And>p v a. stream_part (wr p v a) = stream_part a) \<Longrightarrow> stream_part (put_values wr n p vs a) = stream_part a"
  by (induction vs arbitrary: p a) simp_all

lemma stream_part_words: "stream_part (snd (write_words p ws a)) = stream_part a"
  by (induction ws arbitrary: p a) (simp_all add: stream_part_updates split: code_word.split)

lemma stream_part_routines: "stream_part (snd (write_routines p rs a)) = stream_part a"
proof (induction rs arbitrary: p a)
  case (Cons r rs)
  then show ?case using stream_part_words [of p "fst r" a] by (simp add: split_beta Let_def)
qed simp

lemma stream_part_info:
  assumes "leaves_stream guest"
  shows "stream_part (snd (AudioGetInfo os guest i sel src a)) = stream_part a"
    "stream_part (snd (AudioSetInfo h guest i sel src a)) = stream_part a"
proof -
  have d: "stream_part (snd (delegate_info guest x i sel src a)) = stream_part a" for x
    using assms by (simp add: delegate_info_def leaves_stream_def split_beta Let_def)
  have l: "stream_part (snd (info_list os wr n vs i a)) = stream_part a" if "\<And>p v a. stream_part (wr p v a) = stream_part a" for wr n vs
    using that by (simp add: info_list_def split_beta Let_def stream_part_put stream_part_updates)
  have c: "stream_part (snd (choose_value vs i f e a)) = stream_part a" if "\<And>j. stream_part (f j a) = stream_part a" for vs f e
    using that by (simp add: choose_value_def split: option.split)
  show "stream_part (snd (AudioGetInfo os guest i sel src a)) = stream_part a"
    unfolding AudioGetInfo_def by (simp add: d l stream_part_updates)
  show "stream_part (snd (AudioSetInfo h guest i sel src a)) = stream_part a"
    unfolding AudioSetInfo_def by (simp add: d c stream_part_device)
qed

lemma stream_part_component:
  assumes "leaves_stream guest"
  shows "stream_part (snd (component_open os a)) = stream_part a" "stream_part (snd (component_close guest a)) = stream_part a"
    "stream_part (snd (init_output_device guest a)) = stream_part a"
    "stream_part (snd (delegate_call guest params a)) = stream_part a" "stream_part (snd (play_source_buffer guest p a)) = stream_part a"
  using assms
  by (simp_all add: component_open_def component_close_def init_output_device_def delegate_call_def play_source_buffer_def
      leaves_stream_def split_beta Let_def stream_part_updates stream_part_routines)

lemma stream_part_dispatch:
  assumes "leaves_stream guest" "AudioDispatch os h guest params globals a = (r, b)"
  shows "stream_part b = stream_part a"
proof -
  have "stream_part (snd (AudioDispatch os h guest params globals a)) = stream_part a"
    unfolding AudioDispatch_def Let_def
    by (simp add: stream_part_component [OF assms(1)] stream_part_info [OF assms(1)] stream_part_updates)
  then show ?thesis using assms(2) by simp
qed

lemma AudioInterrupt_part:
  assumes "leaves_stream guest"
  shows "audio_irq_done_sem (AudioInterrupt guest a) = map_option Suc (audio_irq_done_sem a)"
    "sample_size (AudioInterrupt guest a) = sample_size a" "channels (AudioInterrupt guest a) = channels a"
  using assms by (simp_all add: AudioInterrupt_def leaves_stream_def stream_part_def wr32_def Let_def)

subsection \<open>The handshake\<close>

definition handshake :: "audio_sys \<Rightarrow> bool" where
  "handshake s \<longleftrightarrow> sample_size (aud s) = 16 \<and> channels (aud s) = 2 \<and>
     (case cb s of
        CB_Idle \<Rightarrow> \<not> audio_flag s \<and> audio_irq_done_sem (aud s) = Some 0
      | CB_Waiting \<Rightarrow> audio_irq_done_sem (aud s) = Some 0 \<or> audio_irq_done_sem (aud s) = Some 1 \<and> \<not> audio_flag s)"

definition stranded :: "audio_sys \<Rightarrow> bool" where
  "stranded s \<longleftrightarrow> cb s = CB_Waiting \<and> \<not> audio_flag s \<and> audio_irq_done_sem (aud s) = Some 0"

lemma stream_partD:
  "stream_part b = stream_part a \<Longrightarrow> audio_irq_done_sem b = audio_irq_done_sem a \<and> sample_size b = sample_size a \<and> channels b = channels a"
  by (simp add: stream_part_def)

lemma handshake_step:
  assumes "audio_step os h guest s t" "leaves_stream guest" "handshake s"
  shows "handshake t"
  using assms(1)
proof cases
  case (component_call params globals r a)
  then show ?thesis using stream_partD [OF stream_part_dispatch [OF assms(2) component_call(2)]] assms(3) by (simp add: handshake_def split: cb_pc.splits)
next
  case audio_irq
  then show ?thesis using AudioInterrupt_part [OF assms(2)] assms(3) by (auto simp: handshake_def split: cb_pc.splits)
next
  case mac_reset
  then show ?thesis using stream_partD [OF stream_part_updates(10), of "aud s"] assms(3) by (auto simp: handshake_def split: cb_pc.splits)
qed (use assms(3) in \<open>auto simp: handshake_def split: cb_pc.splits\<close>)

lemma handshake_reach:
  assumes "audio_reach os h guest ps a0 s" "leaves_stream guest"
  shows "handshake s"
  using assms(1)
proof induction
  case audio_start
  then have "stream_part (AudioInit h ps a0) = (Some 0, 16, 2)"
    unfolding AudioInit_def Let_def
    by (simp add: stream_part_device(1)) (simp add: stream_part_def audio_sample_sizes_def audio_channel_counts_def)
  then show ?case by (simp add: handshake_def stream_part_def)
next
  case (audio_more s t)
  then show ?case using handshake_step assms(2) by blast
qed

lemma stranded_step:
  assumes "audio_step os h guest s t" "leaves_stream guest" "stranded s"
  shows "stranded t"
  using assms(1)
proof cases
  case (component_call params globals r a)
  then show ?thesis using stream_partD [OF stream_part_dispatch [OF assms(2) component_call(2)]] assms(3) by (simp add: stranded_def)
next
  case mac_reset
  then show ?thesis using stream_partD [OF stream_part_updates(10), of "aud s"] assms(3) by (simp add: stranded_def)
qed (use assms(3) in \<open>auto simp: stranded_def\<close>)

lemma stranded_forever:
  "(audio_step os h guest)\<^sup>*\<^sup>* s t \<Longrightarrow> leaves_stream guest \<Longrightarrow> stranded s \<Longrightarrow> stranded t"
  by (induction rule: rtranclp_induct) (auto dest: stranded_step)

subsection \<open>The routines fit their offsets\<close>

lemma write_words_end: "fst (write_words p ws a) = p + sum_list (map (\<lambda>w. case w of W16 x \<Rightarrow> 2 | W32 x \<Rightarrow> 4) ws)"
  by (induction ws arbitrary: p a) (simp_all add: add.assoc split: code_word.split)

lemma write_words_data: "audio_data (snd (write_words p ws a)) = audio_data a"
  by (induction ws arbitrary: p a) (simp_all add: wr16_def wr32_def split: code_word.split)

primrec offsets_ok :: "u32 \<Rightarrow> (code_word list \<times> u32) list \<Rightarrow> bool" where
  "offsets_ok off [] = True"
| "offsets_ok off (r # rs) = (off + sum_list (map (\<lambda>w. case w of W16 x \<Rightarrow> 2 | W32 x \<Rightarrow> 4) (fst r)) = snd r \<and> offsets_ok (snd r) rs)"

lemma write_routines_fit: "offsets_ok off rs \<Longrightarrow> fst (write_routines (audio_data a + off) rs a)"
proof (induction rs arbitrary: off a)
  case (Cons r rs)
  define b where "b = snd (write_words (audio_data a + off) (fst r) a)"
  have "write_words (audio_data a + off) (fst r) a = (audio_data a + snd r, b)"
    using Cons.prems write_words_end [of "audio_data a + off" "fst r" a] by (auto simp: b_def add.assoc intro: prod_eqI)
  moreover have "audio_data b = audio_data a" by (simp add: b_def write_words_data)
  ultimately show ?case using Cons.IH [of "snd r" b] Cons.prems by simp
qed simp

lemma adat_code_fits: "fst (write_routines (audio_data a + adatDelegateCall) adat_code a)"
proof (rule write_routines_fit)
  show "offsets_ok adatDelegateCall adat_code" by code_simp
qed

end
