(* ===== verification/Audio_Properties.thy ===== *)
theory Audio_Properties
  imports Audio_Thread M68k
begin

section \<open>Properties of the sound output\<close>

text \<open>
  What the callback puts into a buffer, the handshake between callback and interrupt and what a
  reset does to it, and the opening of the component.
\<close>

subsection \<open>A machine with sound\<close>

definition no_sound :: audio_st where
  "no_sound = \<lparr>dmem = store 200 (be32 0x4010) (store 0x4010 (replicate 16 0 @ be32 2 @ be32 0x6000)
       (store 0x6000 [1, 2, 3, 4, 5, 6, 7, 8] (store 0x7102 (be16 0x101) bare_mac))),
     sysd = bare_host, traps = [], sample_rate = 0, sample_size = 0, channels = 0, mixer = 0, num_sources = 0, audio_open = False,
     audio_frames_per_block = 0, audio_component_flags = 0, audio_data = 0, open_count = 0, AudioAvailable = False,
     audio_sample_rate_index = 0, audio_sample_size_index = 0, audio_channel_count_index = 0, silence_byte = 0,
     audio_irq_done_sem = None, sdl_closes = 0, quit_requested = False\<rparr>"

definition good_sdl :: sdl_audio where
  "good_sdl = \<lparr>opens_device = True, obtained_format = AUDIO_S16MSB, opens_converted = True, obtained_silence = 0\<rparr>"

definition quiet_guest :: "audio_st guest_code" where
  "quiet_guest = (\<lambda>x r a. (r, a))"

definition mixer_os :: mac_os where
  "mixer_os trap d0 a0 m = (0x3000, m)"

lemma quiet_guest_leaves: "leaves_stream quiet_guest"
  by (simp add: quiet_guest_def leaves_stream_def)

definition sound_on :: audio_sys where
  "sound_on = \<lparr>aud = AudioInit good_sdl [] no_sound, cb = CB_Idle, audio_flag = False, played = []\<rparr>"

lemma sound_on_reached: "audio_reach mixer_os good_sdl quiet_guest [] no_sound sound_on"
proof -
  have "\<not> PrefsFindBool ''nosound'' []" by code_simp
  then show ?thesis unfolding sound_on_def by (rule audio_start)
qed

lemma sound_on_sel:
  "audio_open (aud sound_on)" "num_sources (aud sound_on) = 0" "dmem (aud sound_on) = dmem no_sound" "audio_data (aud sound_on) = 0"
  "cb sound_on = CB_Idle" "audio_flag sound_on = False" "silence_byte (aud sound_on) = 0"
proof -
  have "\<not> PrefsFindBool ''nosound'' []" by code_simp
  then show "audio_open (aud sound_on)" "num_sources (aud sound_on) = 0" "dmem (aud sound_on) = dmem no_sound" "audio_data (aud sound_on) = 0"
    "cb sound_on = CB_Idle" "audio_flag sound_on = False" "silence_byte (aud sound_on) = 0"
    by (simp_all add: sound_on_def AudioInit_def Let_def open_audio_def open_sdl_audio_def good_sdl_def no_sound_def)
qed

subsection \<open>The properties\<close>

text \<open>
  C23. In every state the machine reaches, an acknowledged callback fills its buffer completely: as many
  bytes of the mixer's block as there are (four per frame, the format never changes) and fit, then
  silence; only silence when the mixer gave nothing. The byte count is a 32-bit product, so only the frame count
  modulo \<open>2^30\<close> matters: a count of \<open>2^30\<close> frames gives silence. When that remainder is \<open>2^29\<close> or more the length is negative and the copy runs wild.
\<close>
theorem stream_buffer_filled:
  assumes "audio_reach os h guest ps a0 s" "leaves_stream guest"
    and "info = ReadMacInt32 (dmem (aud s)) (audio_data (aud s) + 200)" "n = unat (ReadMacInt32 (dmem (aud s)) (info + 16)) mod 2 ^ 30"
    and "k = (if info = 0 then 0 else min (4 * n) stream_len)"
  shows "(n < 2 ^ 29 \<longrightarrow> stream_fill (aud s) stream_len =
      Some (fetch (dmem (aud s)) (ReadMacInt32 (dmem (aud s)) (info + 20)) k @ replicate (stream_len - k) (silence_byte (aud s)))) \<and>
    (info \<noteq> 0 \<and> 2 ^ 29 \<le> n \<longrightarrow> stream_fill (aud s) stream_len = None)"
proof -
  have f: "sample_size (aud s) = 16" "channels (aud s) = 2"
    using handshake_reach [OF assms(1,2)] by (simp_all add: handshake_def)
  define c where "c = ReadMacInt32 (dmem (aud s)) (info + 16)"
  define w where "w = c * drop_bit 3 16 * (2 :: u32)"
  have w: "w = of_nat (4 * n)"
  proof -
    have "w = of_nat (4 * unat c)" by (simp add: w_def word_size drop_bit_eq_div)
    also have "\<dots> = of_nat (4 * (unat c mod 2 ^ 30))" by (rule word_unat_eq_iff [THEN iffD2]) (simp add: unsigned_of_nat take_bit_eq_mod mult_mod_right unat_word_ariths(2))
    finally show ?thesis by (simp add: c_def assms(4))
  qed
  have below: "n < 2 ^ 30" by (simp add: assms(4))
  have small: "sint w = int (4 * n)" if "n < 2 ^ 29" unfolding w by (rule sint_of_nat_small) (use that in simp)
  have neg: "sint w < 0" if "2 ^ 29 \<le> n"
  proof -
    have "unat w = 4 * n" unfolding w by (rule unat_of_nat_small) (use below in simp)
    then have "2 ^ 31 \<le> uint w" using that by (simp add: uint_nat)
    moreover have "uint w < 2 ^ 32" using uint_lt2p [of w] by simp
    ultimately have "uint w div 2147483648 = 1" by simp
    then show ?thesis by (simp add: sint_uint signed_take_bit_eq_if_negative bit_iff_odd take_bit_eq_mod)
  qed
  have fill: "stream_fill (aud s) stream_len =
      (if info = 0 then Some (replicate stream_len (silence_byte (aud s)))
       else let work_size = (if sint w > int stream_len then int stream_len else sint w)
         in if work_size = 0 then Some (replicate stream_len (silence_byte (aud s)))
            else if work_size < 0 then None
            else Some (fetch (dmem (aud s)) (ReadMacInt32 (dmem (aud s)) (info + 20)) (nat work_size) @
                    replicate (stream_len - nat work_size) (silence_byte (aud s))))"
    unfolding stream_fill_def Let_def adatStreamInfo_def scd_sampleCount_def scd_buffer_def assms(3) [symmetric] f c_def [symmetric] w_def [symmetric]
    by (rule refl)
  have "stream_fill (aud s) stream_len =
      Some (fetch (dmem (aud s)) (ReadMacInt32 (dmem (aud s)) (info + 20)) k @ replicate (stream_len - k) (silence_byte (aud s)))" if "n < 2 ^ 29"
    unfolding fill Let_def small [OF that] assms(5) by (auto simp: fetch_def min_def nat_mult_distrib)
  moreover have "stream_fill (aud s) stream_len = None" if "info \<noteq> 0" "2 ^ 29 \<le> n"
    unfolding fill Let_def using neg [OF that(2)] that(1) by simp
  ultimately show ?thesis by blast
qed

theorem stream_buffer_filled_witness:
  "stream_fill (aud sound_on) 10 = Some [1, 2, 3, 4, 5, 6, 7, 8, 0, 0]"
proof -
  have m: "0x4010 = ReadMacInt32 (dmem (aud sound_on)) (audio_data (aud sound_on) + 200)"
    "2 = unat (ReadMacInt32 (dmem (aud sound_on)) (0x4010 + 16))"
    "fetch (dmem (aud sound_on)) (ReadMacInt32 (dmem (aud sound_on)) (0x4010 + 20)) 8 = [1, 2, 3, 4, 5, 6, 7, 8]"
    unfolding sound_on_sel no_sound_def env.select_convs by code_simp+
  have z: "silence_byte (aud sound_on) = 0" "replicate 2 (0 :: u8) = [0, 0]" by (simp_all add: sound_on_sel numeral_2_eq_2)
  have n: "2 = unat (ReadMacInt32 (dmem (aud sound_on)) (0x4010 + 16)) mod 2 ^ 30" unfolding m(2) [symmetric] by simp
  have "stream_fill (aud sound_on) 10 =
      Some (fetch (dmem (aud sound_on)) (ReadMacInt32 (dmem (aud sound_on)) (0x4010 + 20)) 8 @ replicate (10 - 8) (silence_byte (aud sound_on)))"
    using conjunct1 [OF stream_buffer_filled [OF sound_on_reached quiet_guest_leaves m(1) n, of 8 10]] by simp
  then show ?thesis using m(3) z by simp
qed

text \<open>
  C24. A callback that has raised its interrupt goes on once the interrupt has run; but if the emulator
  is reset before, it waits for ever, whatever happens afterwards, since the reset drops the interrupt
  and only the callback itself would raise another.
\<close>
theorem reset_strands_the_callback:
  assumes "audio_reach os h guest ps a0 s" "leaves_stream guest" "cb s = CB_Waiting" "audio_flag s"
  shows "(\<exists>t. audio_step os h guest s t \<and> audio_irq_done_sem (aud t) = Some 1 \<and>
      (\<forall>stream_len buf. stream_fill (aud t) stream_len = Some buf \<longrightarrow>
        (\<exists>u. audio_step os h guest t u \<and> cb u = CB_Idle \<and> played u = played s @ [buf]))) \<and>
    (\<exists>t. audio_step os h guest s t \<and> (\<forall>u. (audio_step os h guest)\<^sup>*\<^sup>* t u \<longrightarrow> cb u = CB_Waiting))"
proof (intro conjI)
  have sem: "audio_irq_done_sem (aud s) = Some 0" using handshake_reach [OF assms(1,2)] assms(3,4) by (simp add: handshake_def)
  define t where "t = s\<lparr>aud := AudioInterrupt guest (aud s), audio_flag := False\<rparr>"
  have t: "audio_step os h guest s t" "audio_irq_done_sem (aud t) = Some (Suc 0)" "cb t = CB_Waiting" "played t = played s"
    using audio_irq [OF assms(4)] AudioInterrupt_part(1) [OF assms(2), of "aud s"] sem assms(3) by (simp_all add: t_def)
  have "\<exists>u. audio_step os h guest t u \<and> cb u = CB_Idle \<and> played u = played s @ [buf]" if "stream_fill (aud t) stream_len = Some buf" for stream_len buf
    using cb_fill [OF t(3,2) that] t(4) by (intro exI conjI) auto
  then show "\<exists>t. audio_step os h guest s t \<and> audio_irq_done_sem (aud t) = Some 1 \<and>
      (\<forall>stream_len buf. stream_fill (aud t) stream_len = Some buf \<longrightarrow>
        (\<exists>u. audio_step os h guest t u \<and> cb u = CB_Idle \<and> played u = played s @ [buf]))"
    using t(1,2) by (intro exI [of _ t]) simp
  define r where "r = s\<lparr>aud := AudioReset (aud s), audio_flag := False\<rparr>"
  have "stranded r" using sem assms(3) stream_partD [OF stream_part_updates(10), of "aud s"] by (simp add: stranded_def r_def)
  then have "cb u = CB_Waiting" if "(audio_step os h guest)\<^sup>*\<^sup>* r u" for u
    using stranded_forever [OF that assms(2)] by (simp add: stranded_def)
  then show "\<exists>t. audio_step os h guest s t \<and> (\<forall>u. (audio_step os h guest)\<^sup>*\<^sup>* t u \<longrightarrow> cb u = CB_Waiting)"
    using mac_reset [of os h guest s] unfolding r_def by blast
qed

text \<open>A source is added and the callback raises its interrupt.\<close>

definition sound_wanted :: audio_sys where
  "sound_wanted = sound_on\<lparr>aud := (aud sound_on)\<lparr>num_sources := 1\<rparr>, cb := CB_Waiting, audio_flag := True\<rparr>"

lemma sound_wanted_reached: "audio_reach mixer_os good_sdl quiet_guest [] no_sound sound_wanted"
proof -
  have "ReadMacInt16 (dmem no_sound) (0x7100 + cp_what) = 0x101" unfolding no_sound_def env.select_convs by code_simp
  then have "AudioDispatch mixer_os good_sdl quiet_guest 0x7100 0 (aud sound_on) = (0, (aud sound_on)\<lparr>num_sources := 1\<rparr>)"
    by (simp add: AudioDispatch_def Let_def sound_on_sel delegate_call_def quiet_guest_def zero_regs_def set_areg_def)
  then have 1: "audio_reach mixer_os good_sdl quiet_guest [] no_sound (sound_on\<lparr>aud := (aud sound_on)\<lparr>num_sources := 1\<rparr>\<rparr>)"
    by (intro audio_more [OF sound_on_reached] component_call) (simp_all add: sound_on_sel)
  show ?thesis
    using audio_more [OF 1 cb_trigger] by (simp add: sound_on_sel sound_wanted_def)
qed

theorem reset_strands_the_callback_witness:
  "(\<exists>t. audio_step mixer_os good_sdl quiet_guest sound_wanted t \<and> audio_irq_done_sem (aud t) = Some 1) \<and>
    (\<exists>t. audio_step mixer_os good_sdl quiet_guest sound_wanted t \<and> cb t = CB_Waiting)"
proof -
  have w: "cb sound_wanted = CB_Waiting" "audio_flag sound_wanted" by (simp_all add: sound_wanted_def)
  show ?thesis using reset_strands_the_callback [OF sound_wanted_reached quiet_guest_leaves w] by blast
qed

text \<open>
  Opening the component the first time: the routines end where their offsets say, so the emulator is
  not ended; without memory it reports \<open>memFullErr\<close> and stays closed.
\<close>

theorem opening_never_quits:
  "quit_requested (snd (component_open os a)) = quit_requested a \<and>
   (fst (component_open os a) = 0 \<and> open_count (snd (component_open os a)) = open_count a + 1 \<and> AudioAvailable (snd (component_open os a)) \<or>
    fst (component_open os a) = -108 \<and> open_count (snd (component_open os a)) = open_count a \<and> audio_data (snd (component_open os a)) = 0)"
proof -
  have q: "quit_requested (snd (write_routines p rs b)) = quit_requested b" "open_count (snd (write_routines p rs b)) = open_count b" for p rs b
  proof -
    have w: "quit_requested (snd (write_words p ws b)) = quit_requested b \<and> open_count (snd (write_words p ws b)) = open_count b" for p ws b
      by (induction ws arbitrary: p b) (simp_all add: wr16_def wr32_def split: code_word.split)
    have "quit_requested (snd (write_routines p rs b)) = quit_requested b \<and> open_count (snd (write_routines p rs b)) = open_count b"
      by (induction rs arbitrary: p b) (simp_all add: split_beta Let_def w)
    then show "quit_requested (snd (write_routines p rs b)) = quit_requested b" "open_count (snd (write_routines p rs b)) = open_count b" by simp_all
  qed
  have fits: "fst (write_routines (x + adatDelegateCall) adat_code (b\<lparr>audio_data := x\<rparr>))" for x b
    using adat_code_fits [of "b\<lparr>audio_data := x\<rparr>"] by simp
  show ?thesis
    by (auto simp: component_open_def Let_def split_beta fits q audio_enter_stream_def result_word_def noErr_def memFullErr_def Execute68kTrap_def)
qed

end
