(* ===== verification/Xpram.thy ===== *)
theory Xpram
  imports M68k Prefs
begin

section \<open>Parameter RAM and clock\<close>

text \<open>
  The 256 bytes of extended parameter RAM (\<open>xpram.cpp\<close>, \<open>Unix/xpram_unix.cpp\<close>) and the emulator
  opcodes through which the guest reads and writes them and the clock (\<open>emul_op.cpp\<close>). The settings
  file is its contents, absent or too short as it may be; the time is an argument.
\<close>

definition ROM_VERSION_32 :: u16 where "ROM_VERSION_32 = 0x067c"

record xpram_st =
  XPRAM :: "u8 list"
  ROMVersion :: u16
  ltoudp :: bool

definition xget :: "xpram_st \<Rightarrow> u8 \<Rightarrow> u8" where
  "xget s reg = XPRAM s ! unat reg"

definition xset :: "u8 \<Rightarrow> u8 \<Rightarrow> xpram_st \<Rightarrow> xpram_st" where
  "xset reg v s = s\<lparr>XPRAM := (XPRAM s)[unat reg := v]\<rparr>"

subsection \<open>The opcodes\<close>

definition xpram_register :: "u32 \<Rightarrow> u8" where
  "xpram_register d1 = ucast ((push_bit 5 d1 AND 0xe0) OR (drop_bit 10 d1 AND 0x1f))"

definition read_extended :: "u8 \<Rightarrow> xpram_st \<Rightarrow> u32" where
  "read_extended reg s =
     (let d2 = ucast (xget s reg) :: u32;
          localtalk = (xget s 0xe0 = 0 \<and> xget s 0xe1 = 0);
          forced = (localtalk \<and> \<not> ltoudp s)
      in if reg = 0x08 then (if ROMVersion s \<noteq> ROM_VERSION_32 then d2 AND 0xf8 else d2)
         else if reg = 0x8a then d2 OR 0x05
         else if reg = 0xe0 then (if forced then 0x00 else d2)
         else if reg = 0xe1 then (if forced then 0xf1 else d2)
         else if reg = 0xe2 then (if forced then 0x00 else d2)
         else if reg = 0xe3 then (if forced then 0x0a else d2)
         else d2)"

definition clock_byte :: "u32 \<Rightarrow> u8 \<Rightarrow> u8" where
  "clock_byte t reg =
     (if reg AND 3 = 1 then ucast (drop_bit 8 t) else if reg AND 3 = 2 then ucast (drop_bit 16 t)
      else if reg AND 3 = 3 then ucast (drop_bit 24 t) else ucast t)"

definition emul_clknomem :: "u32 \<Rightarrow> m68k \<Rightarrow> xpram_st \<Rightarrow> m68k \<times> xpram_st" where
  "emul_clknomem now r s =
     (let d1 = dreg r 1; d2 = dreg r 2; is_read = (d1 AND 0x80 \<noteq> 0);
          (d2', s') =
            (if d1 AND 0x78 = 0x38 then
               (let reg = xpram_register d1
                in if is_read then (read_extended reg s, s)
                   else (let v = (if reg = 0x8a then d2 OR 0x05 else d2) in (v, xset reg (ucast v) s)))
             else
               (let reg = ucast (drop_bit 2 d1 AND 0x1f) :: u8
                in if reg \<ge> 0x10 \<or> (reg \<ge> 0x08 \<and> reg < 0x0c)
                   then (if is_read then (ucast (xget s reg), s) else (d2, xset reg (ucast d2) s))
                   else if reg < 0x08 \<and> is_read then (ucast (clock_byte now reg), s)
                   else (d2, s)))
      in (with_d 1 d2' (with_d 0 0 (with_d 2 d2' r)), s'))"

definition emul_read_xpram :: "m68k \<Rightarrow> xpram_st \<Rightarrow> m68k \<times> xpram_st" where
  "emul_read_xpram r s = (with_d 1 (ucast (xget s (ucast (dreg r 1 AND 0xff)))) r, s)"

definition emul_read_xpram2 :: "m68k \<Rightarrow> xpram_st \<Rightarrow> m68k \<times> xpram_st" where
  "emul_read_xpram2 r s = (with_d 0 (ucast (xget s (ucast (dreg r 0 AND 0xff)))) r, s)"

subsection \<open>The settings file\<close>

definition LoadXPRAM :: "u8 list option \<Rightarrow> xpram_st \<Rightarrow> xpram_st" where
  "LoadXPRAM file s = (case file of None \<Rightarrow> s | Some bytes \<Rightarrow> s\<lparr>XPRAM := patch 0 (take 256 bytes) (XPRAM s)\<rparr>)"

definition SaveXPRAM :: "bool \<Rightarrow> xpram_st \<Rightarrow> u8 list option \<Rightarrow> u8 list option" where
  "SaveXPRAM can_write s file = (if can_write then Some (XPRAM s) else file)"

definition XPRAMInit :: "u8 list option \<Rightarrow> xpram_st \<Rightarrow> xpram_st" where
  "XPRAMInit file s = LoadXPRAM file (s\<lparr>XPRAM := replicate 256 0\<rparr>)"

definition XPRAMExit :: "bool \<Rightarrow> xpram_st \<Rightarrow> u8 list option \<Rightarrow> u8 list option" where
  "XPRAMExit can_write s file = SaveXPRAM can_write s file"

definition ZapPRAM :: "u8 list option \<Rightarrow> u8 list option" where
  "ZapPRAM file = None"

text \<open>The boot volume of the prefs, set after the file was loaded.\<close>

definition set_boot_volume :: "prefs \<Rightarrow> xpram_st \<Rightarrow> xpram_st" where
  "set_boot_volume ps s =
     (let drive = PrefsFindInt16 ''bootdrive'' ps; driver = PrefsFindInt16 ''bootdriver'' ps
      in xset 0x7b (ucast (driver AND 0xff)) (xset 0x7a (ucast (drop_bit 8 driver))
           (xset 0x79 (ucast (drive AND 0xff)) (xset 0x78 (ucast (drop_bit 8 drive)) s))))"

definition start_xpram :: "prefs \<Rightarrow> u8 list option \<Rightarrow> xpram_st \<Rightarrow> xpram_st" where
  "start_xpram ps file s = set_boot_volume ps (XPRAMInit file s)"

section \<open>Properties of the parameter RAM\<close>

text \<open>
  What the guest writes to a register it reads again after the emulator was closed and started. The
  command word names an extended register by three and five of its bits.
\<close>

definition xpram_command :: "bool \<Rightarrow> u8 \<Rightarrow> u32" where
  "xpram_command is_read reg =
     (if is_read then 0x80 else 0) OR 0x38 OR ucast (drop_bit 5 reg) OR push_bit 10 (ucast (reg AND 0x1f))"

definition command_ok :: "u8 \<Rightarrow> bool" where
  "command_ok reg \<longleftrightarrow> xpram_register (xpram_command False reg) = reg \<and> xpram_register (xpram_command True reg) = reg \<and>
     xpram_command False reg AND 0x78 = 0x38 \<and> xpram_command True reg AND 0x78 = 0x38 \<and>
     xpram_command False reg AND 0x80 = 0 \<and> xpram_command True reg AND 0x80 = 0x80"

lemma u8_bits_above: "bit (x :: u8) n \<Longrightarrow> n < 8"
  using bit_imp_le_length [of x n] by simp

lemma bit_cases:
  "n < 8 \<Longrightarrow> n \<in> {0, 1, 2, 3, 4, 5, 6, 7}"
  "n < 32 \<Longrightarrow> n \<in> {0, 1, 2, 3, 4, 5, 6, 7, 8, 9, 10, 11, 12, 13, 14, 15, 16, 17, 18, 19, 20, 21, 22, 23, 24, 25, 26, 27, 28, 29, 30, 31 :: nat}"
  by (simp only: insert_iff empty_iff; presburger)+

lemma command_fields: "command_ok reg"
proof -
  have r: "xpram_register (xpram_command b reg) = reg" for b
  proof (rule bit_word_eqI)
    fix n assume "n < LENGTH(8)"
    then show "bit (xpram_register (xpram_command b reg)) n = bit reg n"
      using bit_cases(1) [of n] by (auto simp: xpram_register_def xpram_command_def bit_simps dest: u8_bits_above)
  qed
  have m: "xpram_command b reg AND 0x78 = 0x38" for b
  proof (rule bit_word_eqI)
    fix n assume "n < LENGTH(32)"
    then show "bit (xpram_command b reg AND 0x78) n = bit (0x38 :: u32) n"
      using bit_cases(2) [of n] by (auto simp: xpram_command_def bit_simps dest: u8_bits_above)
  qed
  have k: "xpram_command b reg AND 0x80 = (if b then 0x80 else 0)" for b
  proof (rule bit_word_eqI)
    fix n assume "n < LENGTH(32)"
    then show "bit (xpram_command b reg AND 0x80) n = bit (if b then 0x80 else 0 :: u32) n"
      using bit_cases(2) [of n] by (auto simp: xpram_command_def bit_simps dest: u8_bits_above)
  qed
  show ?thesis using r m k [of True] k [of False] by (simp add: command_ok_def)
qed

definition stored_byte :: "u8 \<Rightarrow> u32 \<Rightarrow> u8" where
  "stored_byte reg v = ucast (if reg = 0x8a then v OR 0x05 else v)"

lemma write_word:
  assumes "dreg w 1 = xpram_command False reg"
  shows "snd (emul_clknomem now w s) = xset reg (stored_byte reg (dreg w 2)) s"
proof -
  have c: "xpram_command False reg AND 0x78 = 0x38" "xpram_command False reg AND 0x80 = 0" "xpram_register (xpram_command False reg) = reg"
    using command_fields [of reg] by (simp_all add: command_ok_def)
  show ?thesis unfolding emul_clknomem_def Let_def assms c by (simp add: stored_byte_def)
qed

lemma read_word:
  assumes "dreg q 1 = xpram_command True reg"
  shows "dreg (fst (emul_clknomem now q s)) 2 = read_extended reg s"
proof -
  have c: "xpram_command True reg AND 0x78 = 0x38" "xpram_command True reg AND 0x80 = 0x80" "xpram_register (xpram_command True reg) = reg"
    using command_fields [of reg] by (simp_all add: command_ok_def)
  show ?thesis unfolding emul_clknomem_def Let_def assms c by (simp add: with_d_def)
qed

lemma xset_sel:
  "length (XPRAM (xset i v s)) = length (XPRAM s)" "ROMVersion (xset i v s) = ROMVersion s" "ltoudp (xset i v s) = ltoudp s"
  "length (XPRAM s) = 256 \<Longrightarrow> xget (xset i v s) j = (if i = j then v else xget s j)"
  using unat_u8_less by (auto simp: xset_def xget_def nth_list_update word_unat_eq_iff)

lemma restart_xpram:
  assumes "length (XPRAM s) = 256"
  shows "length (XPRAM (start_xpram ps (XPRAMExit True s file) s0)) = 256"
    "ROMVersion (start_xpram ps (XPRAMExit True s file) s0) = ROMVersion s0"
    "ltoudp (start_xpram ps (XPRAMExit True s file) s0) = ltoudp s0"
    "j \<notin> {0x78, 0x79, 0x7a, 0x7b} \<Longrightarrow> xget (start_xpram ps (XPRAMExit True s file) s0) j = xget s j"
proof -
  define t where "t = s0\<lparr>XPRAM := XPRAM s\<rparr>"
  have "XPRAMInit (XPRAMExit True s file) s0 = t"
    using assms by (simp add: XPRAMInit_def LoadXPRAM_def XPRAMExit_def SaveXPRAM_def patch_def t_def)
  then have e: "start_xpram ps (XPRAMExit True s file) s0 = set_boot_volume ps t" by (simp add: start_xpram_def)
  have l: "length (XPRAM t) = 256" "xget t j = xget s j" using assms by (simp_all add: t_def xget_def)
  show "length (XPRAM (start_xpram ps (XPRAMExit True s file) s0)) = 256"
    "ROMVersion (start_xpram ps (XPRAMExit True s file) s0) = ROMVersion s0"
    "ltoudp (start_xpram ps (XPRAMExit True s file) s0) = ltoudp s0"
    unfolding e by (simp_all add: set_boot_volume_def Let_def xset_sel l) (simp_all add: t_def)
  show "j \<notin> {0x78, 0x79, 0x7a, 0x7b} \<Longrightarrow> xget (start_xpram ps (XPRAMExit True s file) s0) j = xget s j"
    unfolding e by (auto simp: set_boot_volume_def Let_def xset_sel l)
qed

text \<open>
  C25. A byte the guest writes to an extended register comes back after the settings were saved and
  loaded again, all registers but the four of the boot volume keep their contents, and what the guest sees differs from the byte
  only where the emulator insists: 32-bit mode is always on, and ROMs other than the 32-bit clean one get the low
  bits of register 8 cleared. The LocalTalk registers are left out; they are given as they
  are only with LocalTalk over UDP.
\<close>
theorem settings_survive_restart:
  assumes "length (XPRAM s) = 256" "dreg w 1 = xpram_command False reg" "dreg q 1 = xpram_command True reg"
    and "s1 = snd (emul_clknomem now w s)" "s2 = start_xpram ps (XPRAMExit True s1 file) s0"
    and "reg \<notin> {0x78, 0x79, 0x7a, 0x7b}" "reg \<notin> {0xe0, 0xe1, 0xe2, 0xe3} \<or> ltoudp s0"
  shows "dreg (fst (emul_clknomem now' q s2)) 2 =
      (if reg = 0x08 \<and> ROMVersion s0 \<noteq> ROM_VERSION_32 then dreg w 2 AND 0xf8
       else if reg = 0x8a then (dreg w 2 AND 0xff) OR 0x05 else dreg w 2 AND 0xff) \<and>
    (\<forall>j. j \<noteq> reg \<and> j \<notin> {0x78, 0x79, 0x7a, 0x7b} \<longrightarrow> xget s2 j = xget s j)"
proof -
  have s1: "s1 = xset reg (stored_byte reg (dreg w 2)) s" unfolding assms(4) by (rule write_word [OF assms(2)])
  then have l: "length (XPRAM s1) = 256" using assms(1) by (simp add: xset_sel)
  have s2: "ROMVersion s2 = ROMVersion s0" "ltoudp s2 = ltoudp s0" "j \<notin> {0x78, 0x79, 0x7a, 0x7b} \<Longrightarrow> xget s2 j = xget s1 j" for j
    unfolding assms(5) by (rule restart_xpram [OF l], assumption?)+
  have got: "xget s2 reg = stored_byte reg (dreg w 2)" using s2(3) [OF assms(6)] assms(1) by (simp add: s1 xset_sel)
  have low: "(x AND 255) AND 248 = x AND 248" "((x OR 5) AND 255) OR 5 = (x AND 255) OR 5" for x :: u32
    by (simp_all add: and.assoc or.assoc bit.conj_disj_distrib2)
  have "read_extended reg s2 =
      (if reg = 0x08 \<and> ROMVersion s0 \<noteq> ROM_VERSION_32 then dreg w 2 AND 0xf8
       else if reg = 0x8a then (dreg w 2 AND 0xff) OR 0x05 else dreg w 2 AND 0xff)"
    using assms(7) by (auto simp: read_extended_def Let_def got stored_byte_def s2(1,2) low ucast_ucast_u8)
  then show ?thesis
    using read_word [OF assms(3)] s2(3) assms(1) by (auto simp: s1 xset_sel)
qed

definition blank_xpram :: xpram_st where
  "blank_xpram = \<lparr>XPRAM = replicate 256 0, ROMVersion = ROM_VERSION_32, ltoudp = False\<rparr>"

definition regs_1_2 :: "u32 \<Rightarrow> u32 \<Rightarrow> m68k" where
  "regs_1_2 d1 d2 = with_d 1 d1 (with_d 2 d2 zero_regs)"

theorem settings_survive_restart_witness:
  "dreg (fst (emul_clknomem 0 (regs_1_2 (xpram_command True 0x8a) 0)
      (start_xpram [] (XPRAMExit True (snd (emul_clknomem 0 (regs_1_2 (xpram_command False 0x8a) 0x140) blank_xpram)) None) blank_xpram))) 2 = 0x45 \<and>
   xget (start_xpram [] (XPRAMExit True (snd (emul_clknomem 0 (regs_1_2 (xpram_command False 0x8a) 0x140) blank_xpram)) None) blank_xpram) 1 = 0"
proof -
  have r: "length (XPRAM blank_xpram) = 256" "dreg (regs_1_2 (xpram_command False 0x8a) 0x140) 1 = xpram_command False 0x8a"
    "dreg (regs_1_2 (xpram_command True 0x8a) 0) 1 = xpram_command True 0x8a" "dreg (regs_1_2 (xpram_command False 0x8a) 0x140) 2 = 0x140"
    "xget blank_xpram 1 = 0"
    by (simp_all add: blank_xpram_def regs_1_2_def with_d_def xget_def)
  show ?thesis
    using settings_survive_restart [OF r(1-3) refl refl] by (simp add: r(4,5))
qed

end
