(* ===== verification/Memory_Map.thy ===== *)
theory Memory_Map
  imports Mac_Memory
begin

section \<open>Committed ranges of the guest window\<close>

text \<open>
  The part of \<open>memory.cpp\<close> that tells committed ranges of the 4GB window from holes and turns a
  host fault in a hole into a jump to the CPU loop. Whether the host grants the pages
  (\<open>mprotect\<close>, \<open>VirtualAlloc\<close>) and the size of a page are the host's answers, fields of the
  state. Addresses are \<open>uint32\<close>, the arithmetic of a commit is \<open>uint64\<close>: the end of the
  window, \<open>0x100000000\<close>, is stored as 0. \<open>host_base\<close> is \<open>Host_Mem_Base\<close>, 0 for NULL. A call
  that aborts the emulator is \<open>None\<close>.
\<close>

definition MEMORY_MAX_RANGES :: nat where "MEMORY_MAX_RANGES = 16"
definition MEMORY_GUARD_MAX :: nat where "MEMORY_GUARD_MAX = 8"

record memory_map =
  host_base :: u64
  page_size :: u64
  pages_granted :: "u64 \<Rightarrow> u64 \<Rightarrow> bool"
  mapped_ranges :: "(u32 \<times> u32) list"
  flat_dummy_window :: bool
  guard_depth :: nat
  guest_fault_addr :: u32

subsection \<open>The table\<close>

definition touches :: "u32 \<Rightarrow> u32 \<Rightarrow> u32 \<times> u32 \<Rightarrow> bool" where
  "touches start stop r \<longleftrightarrow> start \<le> snd r \<and> stop \<ge> fst r"

definition widen :: "u32 \<Rightarrow> u32 \<Rightarrow> u32 \<times> u32 \<Rightarrow> u32 \<times> u32" where
  "widen start stop r = (if start < fst r then start else fst r, if stop > snd r then stop else snd r)"

fun merge_range :: "u32 \<Rightarrow> u32 \<Rightarrow> (u32 \<times> u32) list \<Rightarrow> (u32 \<times> u32) list option" where
  "merge_range start stop [] = None"
| "merge_range start stop (r # rs) =
     (if touches start stop r then Some (widen start stop r # rs)
      else map_option (\<lambda>rs'. r # rs') (merge_range start stop rs))"

definition memory_note_range :: "u32 \<Rightarrow> u32 \<Rightarrow> memory_map \<Rightarrow> memory_map" where
  "memory_note_range start stop mm =
     (case merge_range start stop (mapped_ranges mm) of
        Some rs \<Rightarrow> mm\<lparr>mapped_ranges := rs\<rparr>
      | None \<Rightarrow> if length (mapped_ranges mm) \<ge> MEMORY_MAX_RANGES then mm
                else mm\<lparr>mapped_ranges := mapped_ranges mm @ [(start, stop)]\<rparr>)"

definition memory_commit_range :: "u32 \<Rightarrow> u32 \<Rightarrow> memory_map \<Rightarrow> memory_map" where
  "memory_commit_range mac_addr bytes mm =
     (if host_base mm = 0 \<or> bytes = 0 then mm
      else (let page = page_size mm;
                start = ucast mac_addr AND NOT (page - 1);
                stop0 = (ucast mac_addr + ucast bytes + page - 1) AND NOT (page - 1);
                stop = (if stop0 > 0x100000000 then 0x100000000 else stop0)
            in if stop \<le> start then mm
               else if \<not> pages_granted mm start (stop - start) then mm
               else memory_note_range (ucast start) (ucast stop) mm))"

definition in_range :: "u32 \<Rightarrow> u32 \<times> u32 \<Rightarrow> bool" where
  "in_range a r \<longleftrightarrow> a \<ge> fst r \<and> a < snd r"

definition memory_is_mapped :: "u32 \<Rightarrow> u32 \<Rightarrow> memory_map \<Rightarrow> bool" where
  "memory_is_mapped addr bytes mm =
     (if bytes = 0 then True
      else (let stop = (ucast addr + ucast bytes - 1 :: u64)
            in if stop > 0xffffffff then False
               else list_ex (in_range addr) (mapped_ranges mm) \<and> list_ex (in_range (ucast stop)) (mapped_ranges mm)))"

definition memory_get_mapped_ranges :: "nat \<Rightarrow> memory_map \<Rightarrow> (u32 \<times> u32) list" where
  "memory_get_mapped_ranges max_ranges mm =
     take (if length (mapped_ranges mm) < max_ranges then length (mapped_ranges mm) else max_ranges) (mapped_ranges mm)"

subsection \<open>The window policy\<close>

text \<open>What the policy reads of the other components; \<open>policy_granted\<close> is the host's answer for the whole window.\<close>

record window_layout =
  ram_at :: u32
  ram_bytes :: u32
  rom_at :: u32
  rom_bytes :: u32
  frame_none :: bool
  frame_at :: u32
  frame_bytes :: u32
  policy_granted :: bool

definition commit_frame :: "window_layout \<Rightarrow> memory_map \<Rightarrow> memory_map" where
  "commit_frame l mm =
     (if \<not> frame_none l \<and> frame_bytes l > 0 then memory_commit_range (frame_at l) (frame_bytes l) mm else mm)"

definition memory_apply_window_policy :: "window_layout \<Rightarrow> memory_map \<Rightarrow> memory_map" where
  "memory_apply_window_policy l mm =
     (if host_base mm = 0 \<or> \<not> policy_granted l then mm
      else (let mm1 = mm\<lparr>mapped_ranges := []\<rparr>
            in if flat_dummy_window mm1 then memory_note_range 0 0xffffffff mm1
               else (let mm2 = (if ram_bytes l > 0 then memory_commit_range (ram_at l) (ram_bytes l) mm1 else mm1);
                         rom_commit = (if rom_bytes l > 0x00800000 then rom_bytes l else 0x00800000)
                     in commit_frame l (memory_commit_range (rom_at l) rom_commit mm2))))"

definition memory_register_builtin_mmio :: "(u32 \<Rightarrow> u32) \<Rightarrow> mac \<Rightarrow> mac" where
  "memory_register_builtin_mmio scc m =
     RegisterMMIORegion \<lparr>mm_base = 0x50000000, mm_length = 0x01000000, mm_read = Some scc, mm_write = True\<rparr>
       (ClearMMIORegions m)"

definition memory_map_framebuffer :: "window_layout \<Rightarrow> memory_map \<Rightarrow> memory_map" where
  "memory_map_framebuffer l mm = (if host_base mm = 0 then mm else commit_frame l mm)"

definition memory_set_flat_dummy_window :: "bool \<Rightarrow> memory_map \<Rightarrow> memory_map" where
  "memory_set_flat_dummy_window flat_dummy mm = mm\<lparr>flat_dummy_window := flat_dummy\<rparr>"

subsection \<open>Faults in a hole\<close>

datatype fault_outcome = NotHandled | JumpTo nat

definition memory_guard_enter :: "memory_map \<Rightarrow> (nat \<times> memory_map) option" where
  "memory_guard_enter mm =
     (if guard_depth mm \<ge> MEMORY_GUARD_MAX then None
      else Some (guard_depth mm, mm\<lparr>guard_depth := guard_depth mm + 1\<rparr>))"

definition memory_guard_leave :: "memory_map \<Rightarrow> memory_map" where
  "memory_guard_leave mm = (if guard_depth mm > 0 then mm\<lparr>guard_depth := guard_depth mm - 1\<rparr> else mm)"

definition memory_guard_clear :: "memory_map \<Rightarrow> memory_map" where
  "memory_guard_clear mm = mm\<lparr>guard_depth := 0\<rparr>"

definition memory_raise_guest_fault :: "u32 \<Rightarrow> memory_map \<Rightarrow> fault_outcome \<times> memory_map" where
  "memory_raise_guest_fault addr mm =
     (if guard_depth mm \<le> 0 then (NotHandled, mm)
      else (JumpTo (guard_depth mm - 1), mm\<lparr>guest_fault_addr := addr\<rparr>))"

definition memory_try_handle_guest_fault :: "u64 \<Rightarrow> memory_map \<Rightarrow> fault_outcome \<times> memory_map" where
  "memory_try_handle_guest_fault p mm =
     (if guard_depth mm \<le> 0 \<or> host_base mm = 0 \<or> p = 0 then (NotHandled, mm)
      else if p < host_base mm \<or> p \<ge> host_base mm + 0x100000000 then (NotHandled, mm)
      else (let guest = ucast (p - host_base mm)
            in if memory_is_mapped guest 1 mm then (NotHandled, mm)
               else (JumpTo (guard_depth mm - 1), mm\<lparr>guest_fault_addr := guest\<rparr>)))"

subsection \<open>The table as a set of addresses\<close>

definition committed :: "memory_map \<Rightarrow> u32 set" where
  "committed mm = {a. \<exists>r \<in> set (mapped_ranges mm). in_range a r}"

lemma widen_range: "touches start stop r \<Longrightarrow> start \<le> stop \<Longrightarrow> fst r \<le> snd r \<Longrightarrow>
    in_range a (widen start stop r) \<longleftrightarrow> in_range a (start, stop) \<or> in_range a r"
  by (auto simp: touches_def widen_def in_range_def)

lemma widen_ok: "touches start stop r \<Longrightarrow> start \<le> stop \<Longrightarrow> fst r \<le> snd r \<Longrightarrow> fst (widen start stop r) \<le> snd (widen start stop r)"
  by (auto simp: touches_def widen_def)

lemma merge_range_Some:
  assumes "merge_range start stop rs = Some rs'" "start \<le> stop" "\<forall>r \<in> set rs. fst r \<le> snd r"
  shows "((\<exists>r \<in> set rs'. in_range a r) \<longleftrightarrow> in_range a (start, stop) \<or> (\<exists>r \<in> set rs. in_range a r))
       \<and> (\<forall>r \<in> set rs'. fst r \<le> snd r)"
  using assms
proof (induction rs arbitrary: rs')
  case (Cons r rs)
  then have r: "fst r \<le> snd r" "\<forall>r \<in> set rs. fst r \<le> snd r" by simp_all
  show ?case
  proof (cases "touches start stop r")
    case True
    then show ?thesis using Cons.prems(1) r widen_range [OF True Cons.prems(2) r(1), of a] widen_ok [OF True Cons.prems(2) r(1)]
      by (auto simp del: split_paired_All split_paired_Ex)
  next
    case False
    then obtain ts where ts: "merge_range start stop rs = Some ts" "rs' = r # ts" using Cons.prems(1) by auto
    then show ?thesis using Cons.IH [OF ts(1) Cons.prems(2) r(2)] r(1) by (metis list.set_intros(1) list.set_intros(2) set_ConsD)
  qed
qed simp

lemma noted_range:
  assumes "start \<le> stop" "\<forall>r \<in> set (mapped_ranges mm). fst r \<le> snd r" "length (mapped_ranges mm) < MEMORY_MAX_RANGES"
  shows "committed (memory_note_range start stop mm) = committed mm \<union> {a. start \<le> a \<and> a < stop}"
    "\<forall>r \<in> set (mapped_ranges (memory_note_range start stop mm)). fst r \<le> snd r"
  using assms merge_range_Some [of start stop "mapped_ranges mm"]
  by (auto simp: committed_def memory_note_range_def in_range_def split: option.splits)

lemma unat_u32_less: "unat (a :: u32) < 2 ^ 32"
  using unsigned_less [where 'a = nat, of a] by simp

lemma unat_ucast64: "unat (ucast (a :: u32) :: u64) = unat a"
  using unat_u32_less [of a] by (simp add: unsigned_ucast_eq take_bit_nat_eq_self)

lemma mapped_byte: "memory_is_mapped a 1 mm \<longleftrightarrow> a \<in> committed mm"
proof -
  have "(ucast a :: u64) \<le> 0xffffffff" using unat_u32_less [of a] by (simp add: word_le_nat_alt unat_ucast64)
  moreover have "(ucast (ucast a :: u64) :: u32) = a" by (rule bit_word_eqI) (simp add: bit_simps)
  ultimately show ?thesis by (auto simp: memory_is_mapped_def committed_def list_ex_iff not_less Let_def)
qed

text \<open>The last byte of the window is never mapped: no entry ends behind it.\<close>

lemma mapped_ends: "memory_is_mapped a n mm \<Longrightarrow> n \<noteq> 0 \<Longrightarrow> unat a + unat n < 2 ^ 32"
proof -
  assume a: "memory_is_mapped a n mm" "n \<noteq> 0"
  let ?e = "ucast a + ucast n - 1 :: u64"
  have s: "unat (ucast a + ucast n :: u64) = unat a + unat n"
    using unat_u32_less [of a] unat_u32_less [of n] by (subst unat_plus_no_wrap) (simp_all add: unat_ucast64)
  moreover have n: "unat n \<noteq> 0" using a(2) by (metis unat_eq_zero)
  ultimately have "(ucast a + ucast n :: u64) \<noteq> 0" by (metis add_is_0 unat_0)
  then have e: "unat ?e = unat a + unat n - 1" by (simp add: unat_minus_one s)
  have le: "unat a + unat n \<le> 2 ^ 32" using a n by (simp add: memory_is_mapped_def word_less_nat_alt not_less Let_def e split: if_splits)
  have "list_ex (in_range (ucast ?e)) (mapped_ranges mm)" using a by (simp add: memory_is_mapped_def Let_def split: if_splits)
  then obtain x where "(ucast ?e :: u32) < x" by (auto simp: list_ex_iff in_range_def)
  then have "unat (ucast ?e :: u32) < unat x" by (simp only: word_less_nat_alt)
  moreover have "unat (ucast ?e :: u32) = unat a + unat n - 1"
    using e le n unat_u32_less [of a] by (simp add: unsigned_ucast_eq take_bit_nat_eq_self)
  ultimately show ?thesis using unat_u32_less [of x] n by linarith
qed

end
