(* ===== verification/Window_Bridge.thy ===== *)
theory Window_Bridge
  imports Toolbox_Menu Video_Driver Memory_Map
begin

section \<open>Mirrored windows: state, arena and guest records\<close>

text \<open>
  The first part of \<open>toolbox_window.cpp\<close>: the layout of the guest's window records, the state of
  the bridge and the arena the pixel buffers come from. The state extends that of the menu bar
  bridge, which shares the hooks and the safe point. \<open>int16\<close> values are words, read with \<open>sint\<close>
  where the code compares them. The screen is the video driver's (\<open>screen\<close>), the window of the
  host's memory is \<open>memmap\<close>. Calls of the platform bridge are recorded in \<open>host_calls\<close>, calls of
  the ADB driver in \<open>adb_calls\<close>, both in order. \<open>missing\<close> is a map with 0 for an absent key.
\<close>

definition LM_WindowList :: u32 where "LM_WindowList = 0x09d6"
definition LM_GrayRgn :: u32 where "LM_GrayRgn = 0x09ee"
definition LM_TheGDevice :: u32 where "LM_TheGDevice = 0x0cc8"
definition LM_JGNEFilter :: u32 where "LM_JGNEFilter = 0x029a"
definition LM_ScreenBits :: u32 where "LM_ScreenBits = 0x0260"
definition LM_ScrnBase :: u32 where "LM_ScrnBase = 0x0824"
definition LM_WMgrPort :: u32 where "LM_WMgrPort = 0x09de"
definition LM_WMgrCPort :: u32 where "LM_WMgrCPort = 0x0d2c"
definition LM_ScreenRow :: u32 where "LM_ScreenRow = 0x0106"
definition LM_CrsrPin :: u32 where "LM_CrsrPin = 0x0834"
definition LM_CrsrBase :: u32 where "LM_CrsrBase = 0x0898"
definition LM_CrsrRow :: u32 where "LM_CrsrRow = 0x08ac"
definition LM_CrsrBusy :: u32 where "LM_CrsrBusy = 0x08cd"
definition LM_RowBits :: u32 where "LM_RowBits = 0x0c20"
definition LM_ColLines :: u32 where "LM_ColLines = 0x0c22"
definition LM_ScreenBytes :: u32 where "LM_ScreenBytes = 0x0c24"
definition LM_ChunkyDepth :: u32 where "LM_ChunkyDepth = 0x0d60"

lemmas low_memory = LM_WindowList_def LM_GrayRgn_def LM_TheGDevice_def LM_JGNEFilter_def LM_ScreenBits_def LM_ScrnBase_def
  LM_WMgrPort_def LM_WMgrCPort_def LM_ScreenRow_def LM_CrsrPin_def LM_CrsrBase_def LM_CrsrRow_def LM_CrsrBusy_def
  LM_RowBits_def LM_ColLines_def LM_ScreenBytes_def LM_ChunkyDepth_def

definition kPort_PortPixMap :: u32 where "kPort_PortPixMap = 2"
definition kPort_PortBitsBase :: u32 where "kPort_PortBitsBase = 2"
definition kPort_PortBitsRow :: u32 where "kPort_PortBitsRow = 6"
definition kPort_PortBitsBound :: u32 where "kPort_PortBitsBound = 8"
definition kPort_PortVersion :: u32 where "kPort_PortVersion = 6"
definition kPort_PortRect :: u32 where "kPort_PortRect = 16"
definition kPort_VisRgn :: u32 where "kPort_VisRgn = 24"
definition kPort_TxSize :: u32 where "kPort_TxSize = 74"

lemmas port_fields = kPort_PortPixMap_def kPort_PortBitsBase_def kPort_PortBitsRow_def kPort_PortBitsBound_def
  kPort_PortVersion_def kPort_PortRect_def kPort_VisRgn_def kPort_TxSize_def

definition kWin_WindowKind :: u32 where "kWin_WindowKind = 108"
definition kWin_Visible :: u32 where "kWin_Visible = 110"
definition kWin_Hilited :: u32 where "kWin_Hilited = 111"
definition kWin_GoAwayFlag :: u32 where "kWin_GoAwayFlag = 112"
definition kWin_StrucRgn :: u32 where "kWin_StrucRgn = 114"
definition kWin_ContRgn :: u32 where "kWin_ContRgn = 118"
definition kWin_UpdateRgn :: u32 where "kWin_UpdateRgn = 122"
definition kWin_WindowDefProc :: u32 where "kWin_WindowDefProc = 126"
definition kWin_TitleHandle :: u32 where "kWin_TitleHandle = 134"
definition kWin_NextWindow :: u32 where "kWin_NextWindow = 144"
definition kDlg_Items :: u32 where "kDlg_Items = 156"
definition kDlg_ADefItem :: u32 where "kDlg_ADefItem = 168"

lemmas window_fields = kWin_WindowKind_def kWin_Visible_def kWin_Hilited_def kWin_GoAwayFlag_def kWin_StrucRgn_def
  kWin_ContRgn_def kWin_UpdateRgn_def kWin_WindowDefProc_def kWin_TitleHandle_def kWin_NextWindow_def
  kDlg_Items_def kDlg_ADefItem_def

definition kPix_BaseAddr :: u32 where "kPix_BaseAddr = 0"
definition kPix_RowBytes :: u32 where "kPix_RowBytes = 4"
definition kPix_Bounds :: u32 where "kPix_Bounds = 6"
definition kPix_PixelSize :: u32 where "kPix_PixelSize = 32"
definition kPix_RowBytesFlag :: u16 where "kPix_RowBytesFlag = 0x8000"
definition kGD_PMap :: u32 where "kGD_PMap = 22"
definition kGD_Rect :: u32 where "kGD_Rect = 34"
definition kGD_CCDepth :: u32 where "kGD_CCDepth = 48"
definition kRgn_Size :: u32 where "kRgn_Size = 0"
definition kRgn_BBox :: u32 where "kRgn_BBox = 2"
definition kRect_Top :: u32 where "kRect_Top = 0"
definition kRect_Left :: u32 where "kRect_Left = 2"
definition kRect_Bottom :: u32 where "kRect_Bottom = 4"
definition kRect_Right :: u32 where "kRect_Right = 6"

lemmas pixmap_fields = kPix_BaseAddr_def kPix_RowBytes_def kPix_Bounds_def kPix_PixelSize_def kPix_RowBytesFlag_def
  kGD_PMap_def kGD_Rect_def kGD_CCDepth_def
lemmas region_fields = kRgn_Size_def kRgn_BBox_def kRect_Top_def kRect_Left_def kRect_Bottom_def kRect_Right_def

definition kIsLayer :: u32 where "kIsLayer = 0xdead"
definition kMaxWindows :: nat where "kMaxWindows = 128"
definition kMissingWalksToRetire :: nat where "kMissingWalksToRetire = 600"
definition kWindowKind_Dialog :: u16 where "kWindowKind_Dialog = 2"

subsection \<open>What the bridge keeps\<close>

record rect =
  top :: u16
  left :: u16
  bottom :: u16
  right :: u16

record window_snapshot =
  window_ptr :: u32
  layer_ptr :: u32
  title :: "u8 list"
  content :: rect
  struc :: rect
  window_kind :: u16
  variant :: u16
  go_away :: bool
  is_dialog :: bool
  visible :: bool
  hilited :: bool
  z_order :: nat

record redirected_window =
  rd_window :: u32
  pixmap_addr :: u32
  saved_base :: u32
  saved_row_bytes :: u16
  saved_bounds :: rect
  buffer_addr :: u32
  buffer_size :: u32
  row_bytes :: u32
  rd_width :: u32
  rd_height :: u32
  pixel_size :: u16
  in_update :: bool

record window_buffer =
  buf_base :: u32
  buf_row_bytes :: u32
  buf_width :: u32
  buf_height :: u32
  buf_pixel_size :: u16

record window_callbacks =
  cb_added :: bool
  cb_changed :: bool
  cb_removed :: bool
  cb_present :: bool

datatype host_call =
    WindowAdded window_snapshot
  | WindowChanged window_snapshot
  | WindowRemoved u32
  | WindowPresent u32 window_buffer

datatype adb_call_event = MouseMoved int int | MouseDown | MouseUp | KeyDown int | KeyUp int

datatype window_op_type = OpSelect | OpSize | OpMove | OpClose | OpBringFront | OpHilite | OpSizeNoUpd | OpInvalidate | OpScreenResized

record window_op =
  op_type :: window_op_type
  op_window :: u32
  op_a :: u16
  op_b :: u16

datatype input_kind = InMouseMove | InMouseDown | InMouseUp | InKeyDown | InKeyUp | InOther int

record input_event =
  in_kind :: input_kind
  in_x :: u16
  in_y :: u16
  in_code :: int

record window_state = menu_state +
  screen :: video
  memmap :: memory_map
  win_active :: bool
  safepoint_wanted :: bool
  redirect_enabled :: bool
  callbacks :: "window_callbacks option"
  host_calls :: "host_call list"
  adb_calls :: "adb_call_event list"
  last_snapshot :: "window_snapshot list"
  missing :: "u32 \<Rightarrow> nat"
  desktop_window :: u32
  redirected :: "redirected_window list"
  arena_base :: u32
  arena_cursor :: u32
  arena_frees :: "(u32 \<times> u32) list"
  code_base :: u32
  gne_stub :: u32
  gne_old_filter :: u32
  flag_addr :: u32
  busy_addr :: u32
  done_addr :: u32
  scratch :: u32
  saved_port :: u32
  scratch_seq :: u16
  scratch_reported :: u16
  gne_installed :: bool
  screen_resize_pending :: bool
  applied_w :: u16
  applied_h :: u16
  stalled :: nat
  pending_ops :: "window_op list"
  input_queue :: "input_event list"
  input_delay :: nat
  click_x :: u16
  click_y :: u16
  click_phase :: int
  click_is_key :: bool
  auto_dismiss_alerts :: bool
  auto_dismiss_window :: u32
  auto_dismiss_countdown :: nat
  window_palette :: "u8 list option"

subsection \<open>The arena\<close>

definition kArenaAlign :: u32 where "kArenaAlign = 0x10000"
definition kArenaLimit :: u32 where "kArenaLimit = 0x4000000"

definition arena_round :: "u32 \<Rightarrow> u32" where
  "arena_round n = (n + 15) AND NOT 15"

definition arena_start :: "window_state \<Rightarrow> window_state" where
  "arena_start s =
     (if arena_base s \<noteq> 0 then s
      else (let base = (MacFrameBaseMac + MacFrameSize (screen s) + kArenaAlign - 1) AND NOT (kArenaAlign - 1)
            in s\<lparr>arena_base := base, arena_cursor := base\<rparr>))"

definition arena_alloc :: "u32 \<Rightarrow> window_state \<Rightarrow> u32 \<times> window_state" where
  "arena_alloc bytes s =
     (let n = arena_round bytes
      in case find_index (\<lambda>b. snd b \<ge> n) (arena_frees s) of
           Some i \<Rightarrow> (fst (arena_frees s ! i), s\<lparr>arena_frees := take i (arena_frees s) @ drop (Suc i) (arena_frees s)\<rparr>)
         | None \<Rightarrow>
             (let s1 = arena_start s
              in if arena_cursor s1 + n > arena_base s1 + kArenaLimit then (0, s1)
                 else (let addr = arena_cursor s1; s2 = s1\<lparr>memmap := memory_commit_range addr n (memmap s1)\<rparr>
                       in if \<not> memory_is_mapped addr n (memmap s2) then (0, s2)
                          else (addr, s2\<lparr>arena_cursor := arena_cursor s2 + n\<rparr>))))"

definition arena_alloc_exec :: "u32 \<Rightarrow> window_state \<Rightarrow> u32 \<times> window_state" where
  "arena_alloc_exec bytes s =
     (let (addr, s1) = arena_alloc bytes s
      in if addr = 0 then (0, s1) else (addr, s1\<lparr>memmap := memory_commit_range addr bytes (memmap s1)\<rparr>))"

definition arena_free :: "u32 \<Rightarrow> u32 \<Rightarrow> window_state \<Rightarrow> window_state" where
  "arena_free addr bytes s = (if addr = 0 then s else s\<lparr>arena_frees := arena_frees s @ [(addr, arena_round bytes)]\<rparr>)"

subsection \<open>Reading and writing guest records\<close>

definition valid_guest_ptr :: "u32 \<Rightarrow> window_state \<Rightarrow> bool" where
  "valid_guest_ptr a s \<longleftrightarrow> a \<ge> 0x1000 \<and> a < RAMSize s"

definition read_rect :: "mac \<Rightarrow> u32 \<Rightarrow> rect" where
  "read_rect m a =
     \<lparr>top = ucast (ReadMacInt16 m (a + kRect_Top)), left = ucast (ReadMacInt16 m (a + kRect_Left)),
      bottom = ucast (ReadMacInt16 m (a + kRect_Bottom)), right = ucast (ReadMacInt16 m (a + kRect_Right))\<rparr>"

definition write_rect :: "u32 \<Rightarrow> rect \<Rightarrow> mac \<Rightarrow> mac" where
  "write_rect a r m =
     WriteMacInt16 (a + kRect_Right) (ucast (right r))
       (WriteMacInt16 (a + kRect_Bottom) (ucast (bottom r))
         (WriteMacInt16 (a + kRect_Left) (ucast (left r))
           (WriteMacInt16 (a + kRect_Top) (ucast (top r)) m)))"

text \<open>A handle whose two hops are checked; every double dereference of the file has this shape.\<close>

definition deref_handle :: "u32 \<Rightarrow> window_state \<Rightarrow> u32 option" where
  "deref_handle h s =
     (if \<not> valid_guest_ptr h s then None
      else (let p = ReadMacInt32 (dmem s) h in if \<not> valid_guest_ptr p s then None else Some p))"

definition read_region_bbox :: "u32 \<Rightarrow> window_state \<Rightarrow> rect option" where
  "read_region_bbox rgn_handle s = map_option (\<lambda>rgn. read_rect (dmem s) (rgn + kRgn_BBox)) (deref_handle rgn_handle s)"

definition set_rect_region :: "u32 \<Rightarrow> rect \<Rightarrow> window_state \<Rightarrow> window_state" where
  "set_rect_region rgn_handle r s =
     (case deref_handle rgn_handle s of
        None \<Rightarrow> s
      | Some rgn \<Rightarrow> s\<lparr>dmem := write_rect (rgn + kRgn_BBox) r (WriteMacInt16 (rgn + kRgn_Size) 10 (dmem s))\<rparr>)"

definition port_is_color :: "mac \<Rightarrow> u32 \<Rightarrow> bool" where
  "port_is_color m port \<longleftrightarrow> ReadMacInt16 m (port + kPort_PortVersion) AND 0xc000 = 0xc000"

definition window_is_layer :: "mac \<Rightarrow> u32 \<Rightarrow> bool" where
  "window_is_layer m w \<longleftrightarrow> ReadMacInt16 m (w + kPort_TxSize) = kIsLayer"

definition on_memory :: "(mac \<Rightarrow> mac) \<Rightarrow> 'a env_scheme \<Rightarrow> 'a env_scheme" where
  "on_memory f s = s\<lparr>dmem := f (dmem s)\<rparr>"

definition host_call :: "(window_callbacks \<Rightarrow> bool) \<Rightarrow> host_call \<Rightarrow> window_state \<Rightarrow> window_state" where
  "host_call present call s =
     (case callbacks s of
        None \<Rightarrow> s
      | Some cb \<Rightarrow> if present cb then s\<lparr>host_calls := host_calls s @ [call]\<rparr> else s)"

section \<open>Walking the guest's window list\<close>

text \<open>
  The decoders of \<open>toolbox_window.cpp\<close>: the walk over \<open>WindowList\<close> and the item list of a
  dialog. The walk recurses on its remaining guard (\<open>kMaxWindows\<close> rounds, as in the code).
\<close>

definition find_window :: "window_snapshot list \<Rightarrow> u32 \<Rightarrow> nat option" where
  "find_window ws p = find_index (\<lambda>w. window_ptr w = p) ws"

definition window_changed :: "window_snapshot \<Rightarrow> window_snapshot \<Rightarrow> bool" where
  "window_changed a b \<longleftrightarrow>
     top (content a) \<noteq> top (content b) \<or> left (content a) \<noteq> left (content b) \<or>
     bottom (content a) \<noteq> bottom (content b) \<or> right (content a) \<noteq> right (content b) \<or>
     visible a \<noteq> visible b \<or> hilited a \<noteq> hilited b \<or> z_order a \<noteq> z_order b \<or> layer_ptr a \<noteq> layer_ptr b \<or> title a \<noteq> title b"

definition covers :: "rect \<Rightarrow> rect \<Rightarrow> bool" where
  "covers a b \<longleftrightarrow> sint (top a) \<le> sint (top b) \<and> sint (left a) \<le> sint (left b) \<and>
     sint (bottom a) \<ge> sint (bottom b) \<and> sint (right a) \<ge> sint (right b)"

definition window_is_desktop :: "u32 \<Rightarrow> window_snapshot \<Rightarrow> window_state \<Rightarrow> bool \<times> window_state" where
  "window_is_desktop win w s =
     (if desktop_window s \<noteq> 0 \<and> win = desktop_window s then (True, s)
      else (case read_region_bbox (ReadMacInt32 (dmem s) LM_GrayRgn) s of
              None \<Rightarrow> (False, s)
            | Some gray \<Rightarrow> if covers (content w) gray then (True, s\<lparr>desktop_window := win\<rparr>) else (False, s)))"

definition zero_rect :: rect where "zero_rect = \<lparr>top = 0, left = 0, bottom = 0, right = 0\<rparr>"

definition empty_rect :: "rect \<Rightarrow> bool" where
  "empty_rect r \<longleftrightarrow> sint (right r) \<le> sint (left r) \<or> sint (bottom r) \<le> sint (top r)"

definition window_title :: "u32 \<Rightarrow> window_state \<Rightarrow> u8 list" where
  "window_title win s =
     (case deref_handle (ReadMacInt32 (dmem s) (win + kWin_TitleHandle)) s of
        None \<Rightarrow> []
      | Some p \<Rightarrow> ReadPascalString (dmem s) p)"

definition decode_window :: "u32 \<Rightarrow> u32 \<Rightarrow> nat \<Rightarrow> window_state \<Rightarrow> window_snapshot option" where
  "decode_window win layer z s =
     (let m = dmem s; kind = ucast (ReadMacInt16 m (win + kWin_WindowKind))
      in map_option
           (\<lambda>cont. \<lparr>window_ptr = win, layer_ptr = layer, title = window_title win s, content = cont,
              struc = (case read_region_bbox (ReadMacInt32 m (win + kWin_StrucRgn)) s of None \<Rightarrow> zero_rect | Some r \<Rightarrow> r),
              window_kind = kind, variant = ucast (drop_bit 24 (ReadMacInt32 m (win + kWin_WindowDefProc)) AND 0x0f),
              go_away = ReadMacInt8 m (win + kWin_GoAwayFlag) \<noteq> 0, is_dialog = kind = kWindowKind_Dialog,
              visible = ReadMacInt8 m (win + kWin_Visible) \<noteq> 0, hilited = ReadMacInt8 m (win + kWin_Hilited) \<noteq> 0,
              z_order = z\<rparr>)
           (read_region_bbox (ReadMacInt32 m (win + kWin_ContRgn)) s))"

definition adopt_window :: "u32 \<Rightarrow> u32 \<Rightarrow> nat \<Rightarrow> window_state \<Rightarrow> window_snapshot list \<times> window_state" where
  "adopt_window win layer z s =
     (case decode_window win layer z s of
        None \<Rightarrow> ([], s)
      | Some w \<Rightarrow>
          if empty_rect (content w) then ([], s)
          else (let (desk, s1) = window_is_desktop win w s in (if desk then [] else [w], s1)))"

fun walk :: "nat \<Rightarrow> u32 \<Rightarrow> u32 \<Rightarrow> nat \<Rightarrow> window_state \<Rightarrow> window_snapshot list \<times> window_state" where
  "walk 0 win layer z s = ([], s)"
| "walk (Suc guard) win layer z s =
     (if \<not> valid_guest_ptr win s then ([], s)
      else (let next = ReadMacInt32 (dmem s) (win + kWin_NextWindow)
            in if window_is_layer (dmem s) win then walk guard next win z s
               else if sint (ucast (ReadMacInt16 (dmem s) (win + kWin_WindowKind)) :: u16) \<ge> 0
               then (let (ws, s1) = adopt_window win layer z s; (rest, s2) = walk guard next layer (z + 1) s1
                     in (ws @ rest, s2))
               else walk guard next layer z s))"

definition Toolbox_SnapshotWindowList :: "window_state \<Rightarrow> window_snapshot list \<times> window_state" where
  "Toolbox_SnapshotWindowList s = walk kMaxWindows (ReadMacInt32 (dmem s) LM_WindowList) 0 0 s"

subsection \<open>Dialog items\<close>

definition kDialogItem_Button :: u8 where "kDialogItem_Button = 4"
definition kDialogItem_CheckBox :: u8 where "kDialogItem_CheckBox = 5"
definition kDialogItem_RadioButton :: u8 where "kDialogItem_RadioButton = 6"
definition kDialogItem_StaticText :: u8 where "kDialogItem_StaticText = 8"
definition kDialogItem_EditText :: u8 where "kDialogItem_EditText = 16"
definition kDialogItem_TypeMask :: u8 where "kDialogItem_TypeMask = 0x7f"
definition kDialogItem_DisableBit :: u8 where "kDialogItem_DisableBit = 0x80"

lemmas dialog_item_types = kDialogItem_Button_def kDialogItem_CheckBox_def kDialogItem_RadioButton_def
  kDialogItem_StaticText_def kDialogItem_EditText_def

record dialog_item =
  di_index :: nat
  di_type :: u8
  di_enabled :: bool
  di_text :: "u8 list"
  di_rect :: rect

definition move_rect :: "u16 \<Rightarrow> u16 \<Rightarrow> rect \<Rightarrow> rect" where
  "move_rect dx dy r = \<lparr>top = top r + dy, left = left r + dx, bottom = bottom r + dy, right = right r + dx\<rparr>"

definition bears_text :: "u8 \<Rightarrow> bool" where
  "bears_text t \<longleftrightarrow> t \<in> {kDialogItem_Button, kDialogItem_CheckBox, kDialogItem_RadioButton, kDialogItem_StaticText, kDialogItem_EditText}"

definition read_dialog_item :: "mac \<Rightarrow> u16 \<Rightarrow> u16 \<Rightarrow> nat \<Rightarrow> u32 \<Rightarrow> dialog_item \<times> u32" where
  "read_dialog_item m dx dy i cursor =
     (let c1 = cursor + 4; c2 = c1 + 8; raw_type = (ucast (ReadMacInt8 m c2) :: u8); t = raw_type AND kDialogItem_TypeMask;
          len = (ucast (ReadMacInt8 m (c2 + 1)) :: u8); c3 = c2 + 2; c4 = c3 + ucast len
      in (\<lparr>di_index = i, di_type = t, di_enabled = raw_type AND kDialogItem_DisableBit = 0,
           di_text = (if bears_text t then map (\<lambda>j. ucast (ReadMacInt8 m (c3 + of_nat j))) [0..<unat len] else []),
           di_rect = move_rect dx dy (read_rect m c1)\<rparr>,
          if len AND 1 \<noteq> 0 then c4 + 1 else c4))"

fun read_dialog_items :: "nat \<Rightarrow> u16 \<Rightarrow> u16 \<Rightarrow> nat \<Rightarrow> u32 \<Rightarrow> window_state \<Rightarrow> dialog_item list option" where
  "read_dialog_items 0 dx dy i cursor s = Some []"
| "read_dialog_items (Suc n) dx dy i cursor s =
     (if \<not> valid_guest_ptr cursor s then None
      else (let (item, cursor') = read_dialog_item (dmem s) dx dy i cursor
            in map_option (\<lambda>items. item # items) (read_dialog_items n dx dy (i + 1) cursor' s)))"

text \<open>
  The items and the default item. The C++ function returns false for \<open>None\<close>; its callers then
  look at neither output.
\<close>

definition Toolbox_SnapshotDialogItems :: "u32 \<Rightarrow> window_state \<Rightarrow> (dialog_item list \<times> u16) option" where
  "Toolbox_SnapshotDialogItems win s =
     (if \<not> valid_guest_ptr win s then None
      else if ucast (ReadMacInt16 (dmem s) (win + kWin_WindowKind)) \<noteq> kWindowKind_Dialog then None
      else (case deref_handle (ReadMacInt32 (dmem s) (win + kDlg_Items)) s of
              None \<Rightarrow> None
            | Some ditl \<Rightarrow>
                (case read_region_bbox (ReadMacInt32 (dmem s) (win + kWin_ContRgn)) s of
                   None \<Rightarrow> None
                 | Some cont \<Rightarrow>
                     (let port = read_rect (dmem s) (win + kPort_PortRect); dx = left cont - left port; dy = top cont - top port;
                          count = sint (ucast (ReadMacInt16 (dmem s) ditl) :: u16) + 1
                      in if count \<le> 0 \<or> count > 256 then None
                         else map_option (\<lambda>items. (items, ucast (ReadMacInt16 (dmem s) (win + kDlg_ADefItem))))
                                (read_dialog_items (nat count) dx dy 1 (ditl + 2) s)))))"

section \<open>Calling the Window Manager\<close>

text \<open>
  The safe point of \<open>toolbox_window.cpp\<close>: the queue of window operations, the stub in the
  \<open>jGNEFilter\<close> vector, the routine assembled for it, and the resize of the guest's screen. Code is
  emitted at a program counter into memory, word by word as the source writes it (\<open>code_at\<close>).
  A mode switch can end in a state the C++ code leaves undefined (the video driver's \<open>None\<close>);
  then so does the safe point.
\<close>

definition kCode_DMState :: u32 where "kCode_DMState = 56"
definition kCode_DMDepth :: u32 where "kCode_DMDepth = 60"
definition kCode_Flag :: u32 where "kCode_Flag = 64"
definition kCode_Busy :: u32 where "kCode_Busy = 65"
definition kCode_Done :: u32 where "kCode_Done = 66"
definition kCode_OldFilter :: u32 where "kCode_OldFilter = 68"
definition kCode_SavedPort :: u32 where "kCode_SavedPort = 72"
definition kCode_Scratch :: u32 where "kCode_Scratch = 76"
definition kCode_ScratchMax :: u32 where "kCode_ScratchMax = 180"
definition kCode_Size :: u32 where "kCode_Size = 256"
definition kFilterSavedRegs :: u32 where "kFilterSavedRegs = 60"
definition M68K_EMUL_OP_WINDOW_SAFEPOINT :: u32 where "M68K_EMUL_OP_WINDOW_SAFEPOINT = 0x7131"

lemmas code_layout = kCode_DMState_def kCode_DMDepth_def kCode_Flag_def kCode_Busy_def kCode_Done_def
  kCode_OldFilter_def kCode_SavedPort_def kCode_Scratch_def kCode_ScratchMax_def kCode_Size_def

definition kTrap_SelectWindow :: u16 where "kTrap_SelectWindow = 0xa91f"
definition kTrap_BringToFront :: u16 where "kTrap_BringToFront = 0xa920"
definition kTrap_HiliteWindow :: u16 where "kTrap_HiliteWindow = 0xa91c"
definition kTrap_SizeWindow :: u16 where "kTrap_SizeWindow = 0xa91d"
definition kTrap_MoveWindow :: u16 where "kTrap_MoveWindow = 0xa91b"
definition kTrap_CloseWindow :: u16 where "kTrap_CloseWindow = 0xa92d"
definition kTrap_GetPort :: u16 where "kTrap_GetPort = 0xa874"
definition kTrap_SetPort :: u16 where "kTrap_SetPort = 0xa873"
definition kTrap_InvalRect :: u16 where "kTrap_InvalRect = 0xa928"
definition kTrap_AllocCursor :: u16 where "kTrap_AllocCursor = 0xaa1d"
definition kTrap_DisplayDispatch :: u16 where "kTrap_DisplayDispatch = 0xabeb"

lemmas window_traps = kTrap_SelectWindow_def kTrap_BringToFront_def kTrap_HiliteWindow_def kTrap_SizeWindow_def
  kTrap_MoveWindow_def kTrap_CloseWindow_def kTrap_GetPort_def kTrap_SetPort_def kTrap_InvalRect_def
  kTrap_AllocCursor_def kTrap_DisplayDispatch_def

subsection \<open>The queue\<close>

definition collapses :: "window_op_type \<Rightarrow> bool" where
  "collapses t \<longleftrightarrow> t = OpSize \<or> t = OpSizeNoUpd \<or> t = OpMove \<or> t = OpInvalidate"

definition queue_window_op :: "window_op_type \<Rightarrow> u32 \<Rightarrow> u16 \<Rightarrow> u16 \<Rightarrow> window_state \<Rightarrow> window_state" where
  "queue_window_op t win a b s =
     (if \<not> win_active s \<or> \<not> valid_guest_ptr win s then s
      else (case (if collapses t then find_index (\<lambda>op. op_type op = t \<and> op_window op = win) (pending_ops s) else None) of
              Some i \<Rightarrow> s\<lparr>pending_ops := (pending_ops s)[i := (pending_ops s ! i)\<lparr>op_a := a, op_b := b\<rparr>]\<rparr>
            | None \<Rightarrow> s\<lparr>pending_ops := pending_ops s @ [\<lparr>op_type = t, op_window = win, op_a = a, op_b = b\<rparr>]\<rparr>))"

definition Toolbox_SelectGuestWindow :: "u32 \<Rightarrow> window_state \<Rightarrow> window_state" where
  "Toolbox_SelectGuestWindow win s = queue_window_op OpSelect win 0 0 s"

definition Toolbox_ResizeGuestWindow :: "u32 \<Rightarrow> u16 \<Rightarrow> u16 \<Rightarrow> window_state \<Rightarrow> window_state" where
  "Toolbox_ResizeGuestWindow win w h s =
     queue_window_op OpSize win (if sint w < 64 then 64 else w) (if sint h < 64 then 64 else h) s"

definition Toolbox_MoveGuestWindow :: "u32 \<Rightarrow> u16 \<Rightarrow> u16 \<Rightarrow> window_state \<Rightarrow> window_state" where
  "Toolbox_MoveGuestWindow win x y s = queue_window_op OpMove win x y s"

definition Toolbox_DispatchGuestWindowClose :: "u32 \<Rightarrow> window_state \<Rightarrow> window_state" where
  "Toolbox_DispatchGuestWindowClose win s = queue_window_op OpClose win 0 0 s"

subsection \<open>The stub in the filter vector\<close>

definition set_code_addresses :: "u32 \<Rightarrow> window_state \<Rightarrow> window_state" where
  "set_code_addresses base s =
     s\<lparr>code_base := base, gne_stub := base, flag_addr := base + kCode_Flag, busy_addr := base + kCode_Busy,
       done_addr := base + kCode_Done, gne_old_filter := base + kCode_OldFilter,
       saved_port := base + kCode_SavedPort, scratch := base + kCode_Scratch\<rparr>"

definition stub_words :: "window_state \<Rightarrow> (u32 \<times> u32 + u32 \<times> u32) list" where
  "stub_words s =
     [Inl (0, 0x48e7), Inl (2, 0xfffe), Inl (4, M68K_EMUL_OP_WINDOW_SAFEPOINT),
      Inl (6, 0x4a39), Inr (8, flag_addr s), Inl (12, 0x6718),
      Inl (14, 0x4239), Inr (16, flag_addr s), Inl (20, 0x50f9), Inr (22, busy_addr s),
      Inl (26, 0x4eb9), Inr (28, scratch s), Inl (32, 0x4239), Inr (34, busy_addr s),
      Inl (38, 0x4cdf), Inl (40, 0x7fff), Inl (42, 0x2f39), Inr (44, gne_old_filter s),
      Inl (48, 0x4a97), Inl (50, 0x6602), Inl (52, 0x588f), Inl (54, 0x4e75)]"

primrec write_stub :: "u32 \<Rightarrow> (u32 \<times> u32 + u32 \<times> u32) list \<Rightarrow> mac \<Rightarrow> mac" where
  "write_stub base [] m = m"
| "write_stub base (w # ws) m =
     write_stub base ws (case w of Inl (off, v) \<Rightarrow> WriteMacInt16 (base + off) v m | Inr (off, v) \<Rightarrow> WriteMacInt32 (base + off) v m)"

definition ensure_guest_code :: "window_state \<Rightarrow> bool \<times> window_state" where
  "ensure_guest_code s =
     (if code_base s \<noteq> 0 then (True, s)
      else (let (base, s1) = arena_alloc_exec kCode_Size s
            in if base = 0 then (False, s1)
               else (let s2 = set_code_addresses base s1;
                         m = write_stub base (stub_words s2) (dmem s2);
                         m1 = WriteMacInt16 (scratch s2) 0x4e75
                                (WriteMacInt16 (done_addr s2) 0 (WriteMacInt8 (busy_addr s2) 0 (WriteMacInt8 (flag_addr s2) 0 m)))
                     in (True, s2\<lparr>dmem := m1, invalidated := invalidated s2 @ [(base, kCode_Size)]\<rparr>))))"

definition install_gne_filter :: "window_state \<Rightarrow> window_state" where
  "install_gne_filter s =
     (let previous = ReadMacInt32 (dmem s) LM_JGNEFilter;
          old = (if previous = gne_stub s then 0 else previous)
      in s\<lparr>dmem := WriteMacInt32 LM_JGNEFilter (gne_stub s) (WriteMacInt32 (gne_old_filter s) old (dmem s)), gne_installed := True\<rparr>)"

definition ensure_gne_filter :: "window_state \<Rightarrow> window_state" where
  "ensure_gne_filter s =
     (if \<not> safepoint_wanted s then s
      else (let (ok, s1) = ensure_guest_code s
            in if \<not> ok then s1
               else if gne_installed s1 \<and> ReadMacInt32 (dmem s1) LM_JGNEFilter = gne_stub s1 then s1
               else install_gne_filter (s1\<lparr>gne_installed := False\<rparr>)))"

definition Toolbox_EnableSafePoint :: "window_state \<Rightarrow> window_state" where
  "Toolbox_EnableSafePoint s =
     (if \<not> ToolboxTrap_HooksEnabled s \<and> \<not> screen_resize_pending s then s
      else ensure_gne_filter (s\<lparr>safepoint_wanted := True\<rparr>))"

definition Toolbox_ScreenResizePending :: "window_state \<Rightarrow> bool" where
  "Toolbox_ScreenResizePending s = screen_resize_pending s"

definition Toolbox_NotifyScreenResized :: "u16 \<Rightarrow> u16 \<Rightarrow> window_state \<Rightarrow> window_state" where
  "Toolbox_NotifyScreenResized w h s =
     (let s1 = s\<lparr>screen_resize_pending := True, safepoint_wanted := True\<rparr>
      in ensure_gne_filter
           (case find_index (\<lambda>op. op_type op = OpScreenResized) (pending_ops s1) of
              Some i \<Rightarrow> s1\<lparr>pending_ops := (pending_ops s1)[i := (pending_ops s1 ! i)\<lparr>op_a := w, op_b := h\<rparr>]\<rparr>
            | None \<Rightarrow> s1\<lparr>pending_ops := pending_ops s1 @ [\<lparr>op_type = OpScreenResized, op_window = 0, op_a = w, op_b = h\<rparr>]\<rparr>))"

subsection \<open>The routine\<close>

type_synonym code_at = "u32 \<times> mac"

definition emit_w :: "u32 \<Rightarrow> code_at \<Rightarrow> code_at" where
  "emit_w w c = (fst c + 2, WriteMacInt16 (fst c) w (snd c))"

definition emit_wl :: "u32 \<Rightarrow> u32 \<Rightarrow> code_at \<Rightarrow> code_at" where
  "emit_wl w l c = (fst c + 6, WriteMacInt32 (fst c + 2) l (WriteMacInt16 (fst c) w (snd c)))"

definition emit_ww :: "u32 \<Rightarrow> u32 \<Rightarrow> code_at \<Rightarrow> code_at" where
  "emit_ww w v c = (fst c + 4, WriteMacInt16 (fst c + 2) v (WriteMacInt16 (fst c) w (snd c)))"

definition PUSH_L :: "u32 \<Rightarrow> code_at \<Rightarrow> code_at" where "PUSH_L v = emit_wl 0x2f3c v"
definition PUSH_W :: "u16 \<Rightarrow> code_at \<Rightarrow> code_at" where "PUSH_W v = emit_ww 0x3f3c (ucast v)"
definition TRAP :: "u16 \<Rightarrow> code_at \<Rightarrow> code_at" where "TRAP t = emit_w (ucast t)"

definition emit_invalidate :: "u32 \<Rightarrow> u32 \<Rightarrow> code_at \<Rightarrow> code_at" where
  "emit_invalidate saved win c =
     (let c1 = TRAP kTrap_GetPort (emit_wl 0x4879 saved c);
          c2 = TRAP kTrap_SetPort (PUSH_L win c1);
          c3 = TRAP kTrap_InvalRect (PUSH_L (win + kPort_PortRect) c2)
      in TRAP kTrap_SetPort (emit_wl 0x2f39 saved c3))"

definition emit_display :: "u32 \<Rightarrow> code_at \<Rightarrow> code_at" where
  "emit_display selector c = TRAP kTrap_DisplayDispatch (emit_ww 0x303c selector c)"

definition emit_screen_resized :: "u32 \<Rightarrow> window_op \<Rightarrow> code_at \<Rightarrow> code_at" where
  "emit_screen_resized base op c =
     (let st = base + kCode_DMState; depth = base + kCode_DMDepth;
          c1 = emit_w 0x301f (emit_display 0x0206 (emit_wl 0x4879 st (emit_w 0x4267 c)));
          c2 = emit_wl 0x4879 depth (emit_wl 0x2f3c (op_window op) (emit_wl 0x2f39 LM_TheGDevice (emit_w 0x4267 c1)));
          c3 = emit_w 0x301f (emit_display 0x0a11 (emit_wl 0x2f39 st (emit_w 0x42a7 c2)));
          c4 = emit_w 0x301f (emit_display 0x0207 (emit_wl 0x2f39 st (emit_w 0x4267 c3)));
          c5 = PUSH_W 0 (PUSH_W 0 (PUSH_W (op_b op) (PUSH_W (op_a op) c4)))
      in emit_w 0x508f (emit_display 0x0202 (emit_w 0x4857 c5)))"

definition emit_op :: "window_state \<Rightarrow> window_op \<Rightarrow> code_at \<Rightarrow> code_at" where
  "emit_op s op c =
     (case op_type op of
        OpSelect \<Rightarrow> TRAP kTrap_SelectWindow (PUSH_L (op_window op) c)
      | OpBringFront \<Rightarrow> TRAP kTrap_BringToFront (PUSH_L (op_window op) c)
      | OpHilite \<Rightarrow> TRAP kTrap_HiliteWindow (PUSH_W (op_a op) (PUSH_L (op_window op) c))
      | OpSize \<Rightarrow> TRAP kTrap_SizeWindow (PUSH_W 1 (PUSH_W (op_b op) (PUSH_W (op_a op) (PUSH_L (op_window op) c))))
      | OpSizeNoUpd \<Rightarrow> TRAP kTrap_SizeWindow (PUSH_W 0 (PUSH_W (op_b op) (PUSH_W (op_a op) (PUSH_L (op_window op) c))))
      | OpMove \<Rightarrow> TRAP kTrap_MoveWindow (PUSH_W 0 (PUSH_W (op_b op) (PUSH_W (op_a op) (PUSH_L (op_window op) c))))
      | OpClose \<Rightarrow> TRAP kTrap_CloseWindow (PUSH_L (op_window op) c)
      | OpInvalidate \<Rightarrow> emit_invalidate (saved_port s) (op_window op) c
      | OpScreenResized \<Rightarrow> emit_screen_resized (code_base s) op c)"

definition op_gone :: "window_state \<Rightarrow> window_op \<Rightarrow> bool" where
  "op_gone s op \<longleftrightarrow> op_type op \<noteq> OpScreenResized \<and> find_window (last_snapshot s) (op_window op) = None"

fun assemble_ops :: "window_state \<Rightarrow> u32 \<Rightarrow> window_op list \<Rightarrow> nat \<Rightarrow> code_at \<Rightarrow> nat \<times> code_at" where
  "assemble_ops s limit [] n c = (n, c)"
| "assemble_ops s limit (op # ops) n c =
     (if op_gone s op then assemble_ops s limit ops n c
      else if fst c + 128 > limit then (n, c)
      else assemble_ops s limit ops (n + 1) (emit_op s op c))"

definition assemble_window_calls :: "window_op list \<Rightarrow> window_state \<Rightarrow> bool \<times> window_state" where
  "assemble_window_calls ops s =
     (let (n, c) = assemble_ops s (scratch s + kCode_ScratchMax - 12) ops 0 (scratch s, dmem s)
      in if n = 0 then (False, s\<lparr>dmem := snd c\<rparr>)
         else (let sq = scratch_seq s + 1;
                   c1 = (fst c + 8, WriteMacInt32 (fst c + 4) (done_addr s)
                                      (WriteMacInt16 (fst c + 2) (ucast sq) (WriteMacInt16 (fst c) 0x33fc (snd c))));
                   c2 = emit_w 0x4e75 c1
               in (True, s\<lparr>dmem := snd c2, scratch_seq := sq, invalidated := invalidated s @ [(scratch s, fst c2 - scratch s)]\<rparr>)))"

section \<open>The safe point\<close>

text \<open>
  What the stub in the filter vector enters: the menu bar's event first, then the queued window
  operations, and the resize of the guest's screen either as a routine for the Display Manager
  or by the driver's Control call and direct writes to the guest's globals.
\<close>

definition with_menu :: "(menu_state \<Rightarrow> 'r \<times> menu_state) \<Rightarrow> window_state \<Rightarrow> 'r \<times> window_state" where
  "with_menu f s = (let (r, m) = f (menu_state.truncate s) in (r, menu_state.extend m (menu_state.more s)))"

definition screen_view :: "window_state \<Rightarrow> video" where
  "screen_view s = (screen s)\<lparr>dmem := dmem s, sysd := sysd s, traps := traps s\<rparr>"

definition with_screen :: "video \<Rightarrow> window_state \<Rightarrow> window_state" where
  "with_screen v s = s\<lparr>dmem := dmem v, sysd := sysd v, traps := traps v, screen := v\<rparr>"

definition guest_pixel_size :: "int \<Rightarrow> u16" where
  "guest_pixel_size mode =
     (if mode = VMODE_1BIT then 1 else if mode = VMODE_2BIT then 2 else if mode = VMODE_4BIT then 4
      else if mode = VMODE_8BIT then 8 else if mode = VMODE_16BIT then 16 else if mode = VMODE_32BIT then 32 else 8)"

definition set_pixmap :: "u32 option \<Rightarrow> u32 \<Rightarrow> rect \<Rightarrow> u32 \<Rightarrow> window_state \<Rightarrow> window_state" where
  "set_pixmap base row r pm_handle s =
     (case deref_handle pm_handle s of
        None \<Rightarrow> s
      | Some pixmap \<Rightarrow>
          (let s1 = (case base of None \<Rightarrow> s | Some b \<Rightarrow> wr32 (pixmap + kPix_BaseAddr) b s);
               flags = ReadMacInt16 (dmem s1) (pixmap + kPix_RowBytes) AND 0xc000
           in on_memory (write_rect (pixmap + kPix_Bounds) r)
                (wr16 (pixmap + kPix_RowBytes) (ucast (ucast (row OR flags) :: u16)) s1)))"

definition set_device :: "u32 \<Rightarrow> u32 \<Rightarrow> rect \<Rightarrow> window_state \<Rightarrow> window_state" where
  "set_device base row r s =
     (case deref_handle (ReadMacInt32 (dmem s) LM_TheGDevice) s of
        None \<Rightarrow> s
      | Some gd \<Rightarrow>
          (let s1 = wr16 (gd + kGD_CCDepth) 0 (on_memory (write_rect (gd + kGD_Rect) r) s)
           in set_pixmap (Some base) row r (ReadMacInt32 (dmem s1) (gd + kGD_PMap)) s1))"

definition set_screen_globals :: "u32 \<Rightarrow> u32 \<Rightarrow> rect \<Rightarrow> u16 \<Rightarrow> window_state \<Rightarrow> window_state" where
  "set_screen_globals base row r depth s =
     (let low = ucast (ucast row :: u16);
          s1 = wr16 LM_ScreenRow low (on_memory (write_rect (LM_ScreenBits + 6) r) (wr16 (LM_ScreenBits + 4) low (wr32 LM_ScrnBase base s)));
          s2 = on_memory (write_rect LM_CrsrPin r) (wr16 LM_CrsrRow (row AND 0x7fff) (wr32 LM_CrsrBase base s1))
      in wr32 LM_ScreenBytes (row * ucast (bottom r))
           (wr16 LM_ColLines (ucast (bottom r)) (wr16 LM_RowBits (ucast (right r)) (wr16 LM_ChunkyDepth (ucast depth) s2))))"

definition set_color_port :: "u32 option \<Rightarrow> u32 \<Rightarrow> rect \<Rightarrow> u32 \<Rightarrow> window_state \<Rightarrow> window_state" where
  "set_color_port base row r port s =
     (if \<not> valid_guest_ptr port s then s
      else (let s1 = on_memory (write_rect (port + kPort_PortRect) r) s
            in if port_is_color (dmem s1) port
               then set_pixmap base row r (ReadMacInt32 (dmem s1) (port + kPort_PortPixMap)) s1 else s1))"

definition set_wmgr_port :: "u32 \<Rightarrow> u32 \<Rightarrow> rect \<Rightarrow> window_state \<Rightarrow> window_state" where
  "set_wmgr_port base row r s =
     (let port = ReadMacInt32 (dmem s) LM_WMgrPort
      in if \<not> valid_guest_ptr port s then s
         else on_memory (write_rect (port + kPort_PortRect) r)
                (on_memory (write_rect (port + kPort_PortBitsBound) r)
                  (wr16 (port + kPort_PortBitsRow) (ucast (ucast row :: u16)) (wr32 (port + kPort_PortBitsBase) base s))))"

definition apply_guest_screen_geometry :: "u16 \<Rightarrow> u16 \<Rightarrow> window_state \<Rightarrow> window_state" where
  "apply_guest_screen_geometry w h s =
     (if sint w \<le> 0 \<or> sint h \<le> 0 then s
      else (let mon = VideoMonitor (screen s); row = bytes_per_row mon; base = mac_frame_base mon;
                r = \<lparr>top = 0, left = 0, bottom = h, right = w\<rparr>;
                s1 = set_screen_globals base row r (guest_pixel_size (mon_mode mon)) (set_device base row r s);
                s2 = set_rect_region (ReadMacInt32 (dmem s1) LM_GrayRgn) r s1;
                s3 = set_color_port (Some base) row r (ReadMacInt32 (dmem s2) LM_WMgrCPort) s2;
                s4 = set_wmgr_port base row r s3
            in if desktop_window s4 = 0 then s4 else set_color_port None row r (desktop_window s4) s4))"

subsection \<open>Resizing the screen\<close>

definition wanted_geometry :: "window_op list \<Rightarrow> u16 \<times> u16" where
  "wanted_geometry ops = foldl (\<lambda>g op. if op_type op = OpScreenResized then (op_a op, op_b op) else g) (0, 0) ops"

definition without_resize :: "window_op list \<Rightarrow> window_op list" where
  "without_resize ops = filter (\<lambda>op. op_type op \<noteq> OpScreenResized) ops"

definition display_manager_resize :: "u16 \<Rightarrow> u16 \<Rightarrow> window_op list \<Rightarrow> window_state \<Rightarrow> window_op list \<times> window_state" where
  "display_manager_resize w h ops s =
     (let (ident, v) = Video_RegisterGuestSize (sint w) (sint h) (screen_view s);
          s1 = wr32 (code_base s + kCode_DMDepth) (ucast (Video_CurrentAppleMode v)) (wr32 (code_base s + kCode_DMState) 0 (with_screen v s))
      in (map (\<lambda>op. if op_type op = OpScreenResized then op\<lparr>op_window := ident\<rparr> else op) ops, s1\<lparr>applied_w := w, applied_h := h\<rparr>))"

definition driver_resize :: "mac_os \<Rightarrow> sdl \<Rightarrow> u16 \<Rightarrow> u16 \<Rightarrow> window_state \<Rightarrow> window_state option" where
  "driver_resize os sdl w h s =
     map_option
       (\<lambda>(err, v). let s1 = with_screen v s;
                       s2 = (if err \<noteq> noErr then s1
                             else (snd (Execute68kTrap os kTrap_AllocCursor 0 0 (apply_guest_screen_geometry w h s1)))\<lparr>applied_w := w, applied_h := h\<rparr>)
                   in wr8 LM_CrsrBusy 0 s2)
       (Video_GuestSwitchToSize os sdl (sint w) (sint h) (screen_view (wr8 LM_CrsrBusy 1 s)))"

definition resize_screen :: "mac_os \<Rightarrow> sdl \<Rightarrow> window_op list \<Rightarrow> window_state \<Rightarrow> (window_op list \<times> window_state) option" where
  "resize_screen os sdl ops s =
     (let (w, h) = wanted_geometry ops
      in if \<not> (sint w > 0 \<and> sint h > 0) then Some (ops, s)
         else if w = applied_w s \<and> h = applied_h s then Some (without_resize ops, s)
         else if Video_DisplayManagerPresent (screen s) \<and> code_base s \<noteq> 0 then Some (display_manager_resize w h ops s)
         else map_option (\<lambda>s'. (without_resize ops, s')) (driver_resize os sdl w h s))"

subsection \<open>The handler\<close>

definition menu_event :: "m68k \<Rightarrow> window_state \<Rightarrow> window_state" where
  "menu_event r s = snd (with_menu (Toolbox_MenuSafePoint (areg r 1) (areg r 7 + kFilterSavedRegs + 4)) s)"

definition note_finished :: "window_state \<Rightarrow> window_state" where
  "note_finished s =
     (let finished = ucast (ReadMacInt16 (dmem s) (done_addr s))
      in if finished \<noteq> scratch_reported s then s\<lparr>scratch_reported := finished\<rparr> else s)"

definition routine_running :: "window_state \<Rightarrow> bool" where
  "routine_running s \<longleftrightarrow> ReadMacInt8 (dmem s) (busy_addr s) \<noteq> 0 \<or> ReadMacInt8 (dmem s) (flag_addr s) \<noteq> 0"

definition assemble_pending :: "mac_os \<Rightarrow> sdl \<Rightarrow> window_state \<Rightarrow> window_state option" where
  "assemble_pending os sdl s =
     (let ops = pending_ops s; s1 = s\<lparr>stalled := 0, pending_ops := [], screen_resize_pending := False\<rparr>
      in map_option
           (\<lambda>(kept, s2). let (emitted, s3) = assemble_window_calls kept s2 in if emitted then wr8 (flag_addr s3) 1 s3 else s3)
           (resize_screen os sdl ops s1))"

definition Toolbox_WindowSafePoint :: "mac_os \<Rightarrow> sdl \<Rightarrow> m68k \<Rightarrow> window_state \<Rightarrow> window_state option" where
  "Toolbox_WindowSafePoint os sdl r s =
     (let s1 = menu_event r s
      in if code_base s1 = 0 then Some s1
         else if \<not> win_active s1 \<and> pending_ops s1 = [] then Some s1
         else (let s2 = note_finished s1
               in if pending_ops s2 = [] then Some s2
                  else if routine_running s2
                  then (let s3 = s2\<lparr>stalled := stalled s2 + 1\<rparr>
                        in if stalled s3 < 600 then Some s3
                           else assemble_pending os sdl (wr8 (flag_addr s3) 0 (wr8 (busy_addr s3) 0 s3)))
                  else assemble_pending os sdl s2))"

end
