(* ===== verification/Window_Mirror.thy ===== *)
theory Window_Mirror
  imports Window_Bridge
begin

section \<open>Pixel buffers of mirrored windows\<close>

text \<open>
  Redirection in \<open>toolbox_window.cpp\<close>: a window's port is pointed at a buffer of the arena,
  kept there, and put back. \<open>int32\<close> values are words; the product in \<open>redirected_base_addr\<close>
  wraps as \<open>uint32\<close>. The list \<open>redirected\<close> is searched from its start, as the vector is.
\<close>

definition rect_width :: "rect \<Rightarrow> int" where "rect_width r = sint (right r) - sint (left r)"
definition rect_height :: "rect \<Rightarrow> int" where "rect_height r = sint (bottom r) - sint (top r)"

definition find_redirected :: "u32 \<Rightarrow> window_state \<Rightarrow> nat option" where
  "find_redirected win s = find_index (\<lambda>r. rd_window r = win) (redirected s)"

definition screen_pixmap_handle :: "window_state \<Rightarrow> u32" where
  "screen_pixmap_handle s =
     (case deref_handle (ReadMacInt32 (dmem s) LM_TheGDevice) s of
        None \<Rightarrow> 0
      | Some gd \<Rightarrow> ReadMacInt32 (dmem s) (gd + kGD_PMap))"

definition redirected_base_addr :: "mac \<Rightarrow> u32 \<Rightarrow> u32 \<Rightarrow> u32 \<Rightarrow> u16 \<Rightarrow> u32" where
  "redirected_base_addr m pixmap buffer row px =
     (let b = read_rect m (pixmap + kPix_Bounds)
      in buffer + (scast (top b) * row + scast (left b) * (ucast px div 8)))"

definition buffer_row :: "int \<Rightarrow> u16 \<Rightarrow> u32" where
  "buffer_row width px = word_of_int ((width * sint px + 31) div 32 * 4)"

text \<open>The port of a window that can be redirected: its PixMap, its rectangle and its depth.\<close>

definition redirectable :: "u32 \<Rightarrow> window_state \<Rightarrow> (u32 \<times> rect \<times> u16) option" where
  "redirectable port s =
     (if \<not> redirect_enabled s \<or> find_redirected port s \<noteq> None then None
      else if \<not> port_is_color (dmem s) port then None
      else (let pixmap_handle = ReadMacInt32 (dmem s) (port + kPort_PortPixMap)
            in if \<not> valid_guest_ptr pixmap_handle s \<or> pixmap_handle = screen_pixmap_handle s then None
               else (let pixmap = ReadMacInt32 (dmem s) pixmap_handle; p = read_rect (dmem s) (port + kPort_PortRect);
                         px = ucast (ReadMacInt16 (dmem s) (pixmap + kPix_PixelSize))
                     in if \<not> valid_guest_ptr pixmap s \<or> rect_width p \<le> 0 \<or> rect_height p \<le> 0 \<or> px \<notin> {8, 16, 32} then None
                        else Some (pixmap, p, px))))"

definition new_record :: "mac \<Rightarrow> u32 \<Rightarrow> u32 \<Rightarrow> rect \<Rightarrow> u16 \<Rightarrow> u32 \<Rightarrow> redirected_window" where
  "new_record m port pixmap p px buffer =
     (let row = buffer_row (rect_width p) px
      in \<lparr>rd_window = port, pixmap_addr = pixmap, saved_base = ReadMacInt32 m (pixmap + kPix_BaseAddr),
          saved_row_bytes = ucast (ReadMacInt16 m (pixmap + kPix_RowBytes)), saved_bounds = read_rect m (pixmap + kPix_Bounds),
          buffer_addr = buffer, buffer_size = row * word_of_int (rect_height p), row_bytes = row,
          rd_width = word_of_int (rect_width p), rd_height = word_of_int (rect_height p), pixel_size = px, in_update = False\<rparr>)"

definition row_field :: "u32 \<Rightarrow> u16" where
  "row_field row = ucast row OR kPix_RowBytesFlag"

definition point_port :: "redirected_window \<Rightarrow> mac \<Rightarrow> mac" where
  "point_port rec m =
     WriteMacInt16 (pixmap_addr rec + kPix_RowBytes) (ucast (row_field (row_bytes rec)))
       (WriteMacInt32 (pixmap_addr rec + kPix_BaseAddr)
          (redirected_base_addr m (pixmap_addr rec) (buffer_addr rec) (row_bytes rec) (pixel_size rec)) m)"

definition redirect_window :: "window_snapshot \<Rightarrow> window_state \<Rightarrow> window_state" where
  "redirect_window w s =
     (let port = window_ptr w
      in case redirectable port s of
           None \<Rightarrow> s
         | Some (pixmap, p, px) \<Rightarrow>
             (let bytes = buffer_row (rect_width p) px * word_of_int (rect_height p);
                  (buffer, s1) = arena_alloc bytes s
              in if buffer = 0 then s1
                 else (let s2 = on_memory (Mac_memset buffer (if px = 8 then 0 else 0xff) (unat bytes)) s1;
                           rec = new_record (dmem s2) port pixmap p px buffer;
                           s3 = (on_memory (point_port rec) s2)\<lparr>redirected := redirected s2 @ [rec]\<rparr>;
                           s4 = set_rect_region (ReadMacInt32 (dmem s3) (port + kPort_VisRgn)) p s3;
                           s5 = set_rect_region (ReadMacInt32 (dmem s4) (port + kWin_UpdateRgn)) (content w) s4
                       in queue_window_op OpInvalidate port 0 0 s5)))"

definition unpoint_port :: "redirected_window \<Rightarrow> mac \<Rightarrow> mac" where
  "unpoint_port rec m =
     write_rect (pixmap_addr rec + kPix_Bounds) (saved_bounds rec)
       (WriteMacInt16 (pixmap_addr rec + kPix_RowBytes) (ucast (saved_row_bytes rec))
         (WriteMacInt32 (pixmap_addr rec + kPix_BaseAddr) (saved_base rec) m))"

definition restore_window :: "u32 \<Rightarrow> bool \<Rightarrow> window_state \<Rightarrow> window_state" where
  "restore_window win port_valid s =
     (case find_redirected win s of
        None \<Rightarrow> s
      | Some i \<Rightarrow>
          (let rec = redirected s ! i;
               s1 = (if port_valid \<and> valid_guest_ptr (pixmap_addr rec) s then on_memory (unpoint_port rec) s else s);
               s2 = arena_free (buffer_addr rec) (buffer_size rec) s1
           in s2\<lparr>redirected := take i (redirected s2) @ drop (Suc i) (redirected s2)\<rparr>))"

subsection \<open>Keeping the port there\<close>

definition redirect_still_ours :: "redirected_window \<Rightarrow> window_state \<Rightarrow> bool" where
  "redirect_still_ours rec s \<longleftrightarrow>
     valid_guest_ptr (rd_window rec) s \<and> valid_guest_ptr (pixmap_addr rec) s \<and>
     (let h = ReadMacInt32 (dmem s) (rd_window rec + kPort_PortPixMap)
      in valid_guest_ptr h s \<and> ReadMacInt32 (dmem s) h = pixmap_addr rec) \<and>
     (let b = read_rect (dmem s) (pixmap_addr rec + kPix_Bounds)
      in rect_width b \<ge> 1 \<and> rect_height b \<ge> 1 \<and>
         \<not> (sint (top b) < - 32768 \<or> sint (top b) > 32768 \<or> sint (left b) < - 32768 \<or> sint (left b) > 32768))"

definition reassert_port :: "redirected_window \<Rightarrow> window_state \<Rightarrow> window_state" where
  "reassert_port rec s =
     (if \<not> redirect_still_ours rec s then s
      else (let want_base = redirected_base_addr (dmem s) (pixmap_addr rec) (buffer_addr rec) (row_bytes rec) (pixel_size rec);
                want_row = ucast (row_field (row_bytes rec));
                s1 = (if ReadMacInt32 (dmem s) (pixmap_addr rec + kPix_BaseAddr) \<noteq> want_base
                      then wr32 (pixmap_addr rec + kPix_BaseAddr) want_base s else s)
            in if ReadMacInt16 (dmem s1) (pixmap_addr rec + kPix_RowBytes) \<noteq> want_row
               then wr16 (pixmap_addr rec + kPix_RowBytes) want_row s1 else s1))"

definition reassert_vis_rgn :: "redirected_window \<Rightarrow> window_state \<Rightarrow> window_state" where
  "reassert_vis_rgn rec s =
     (if in_update rec \<or> \<not> valid_guest_ptr (rd_window rec) s then s
      else (let s1 = reassert_port rec s;
                p = read_rect (dmem s1) (rd_window rec + kPort_PortRect);
                vis_rgn = ReadMacInt32 (dmem s1) (rd_window rec + kPort_VisRgn)
            in case read_region_bbox vis_rgn s1 of
                 None \<Rightarrow> s1
               | Some v \<Rightarrow> if v \<noteq> p then set_rect_region vis_rgn p s1 else s1))"

definition reassert_vis_rgns :: "window_state \<Rightarrow> window_state" where
  "reassert_vis_rgns s = fold reassert_vis_rgn (redirected s) s"

subsection \<open>Handing the pixels over\<close>

definition screen_pixel_size :: "int \<Rightarrow> u16" where
  "screen_pixel_size mode = (if mode = VMODE_8BIT then 8 else if mode = VMODE_16BIT then 16 else if mode = VMODE_32BIT then 32 else 0)"

definition screen_buffer :: "video_desc \<Rightarrow> u16 \<Rightarrow> rect \<Rightarrow> window_buffer option" where
  "screen_buffer mon px r =
     (let l = max 0 (sint (left r)); t = max 0 (sint (top r));
          rt = min (sint (right r)) (sint (mon_x mon)); b = min (sint (bottom r)) (sint (mon_y mon))
      in if rt \<le> l \<or> b \<le> t then None
         else Some \<lparr>buf_base = mac_frame_base mon + word_of_int t * bytes_per_row mon + word_of_int l * (ucast px div 8),
                    buf_row_bytes = bytes_per_row mon, buf_width = word_of_int (rt - l), buf_height = word_of_int (b - t),
                    buf_pixel_size = px\<rparr>)"

definition own_buffer :: "redirected_window \<Rightarrow> window_buffer" where
  "own_buffer rec = \<lparr>buf_base = buffer_addr rec, buf_row_bytes = row_bytes rec, buf_width = rd_width rec,
                     buf_height = rd_height rec, buf_pixel_size = pixel_size rec\<rparr>"

definition window_pixels :: "u16 \<Rightarrow> window_snapshot \<Rightarrow> window_state \<Rightarrow> window_buffer option" where
  "window_pixels px w s =
     (if \<not> visible w then None
      else (case find_redirected (window_ptr w) s of
              Some i \<Rightarrow> Some (own_buffer (redirected s ! i))
            | None \<Rightarrow> screen_buffer (VideoMonitor (screen s)) px (content w)))"

definition present_window :: "u16 \<Rightarrow> window_snapshot \<Rightarrow> window_state \<Rightarrow> window_state" where
  "present_window px w s =
     (case window_pixels px w s of
        None \<Rightarrow> s
      | Some buf \<Rightarrow> host_call cb_present (WindowPresent (window_ptr w) buf) s)"

definition Toolbox_PresentWindows :: "window_state \<Rightarrow> window_state" where
  "Toolbox_PresentWindows s =
     (let px = screen_pixel_size (mon_mode (VideoMonitor (screen s)))
      in if \<not> win_active s \<or> (case callbacks s of None \<Rightarrow> True | Some cb \<Rightarrow> \<not> cb_present cb) \<or> px = 0 then s
         else fold (present_window px) (last_snapshot s) s)"

section \<open>Input played into the guest\<close>

text \<open>
  The synthetic click and the input queue of \<open>toolbox_window.cpp\<close>. Both advance by one step per
  interrupt. The loop over leading movements recurses on the queue.
\<close>

definition kKeyReturn :: int where "kKeyReturn = 0x24"

definition call_adb :: "adb_call_event \<Rightarrow> window_state \<Rightarrow> window_state" where
  "call_adb e s = s\<lparr>adb_calls := adb_calls s @ [e]\<rparr>"

subsection \<open>Clicks on dialogs\<close>

definition process_pending_click :: "window_state \<Rightarrow> window_state" where
  "process_pending_click s =
     (let phase = click_phase s
      in if phase < 0 then s
         else if click_is_key s then
           (if phase = 0 then (call_adb (KeyDown kKeyReturn) s)\<lparr>click_phase := phase + 1\<rparr>
            else if phase \<ge> 3 then (call_adb (KeyUp kKeyReturn) s)\<lparr>click_phase := - 1\<rparr>
            else s\<lparr>click_phase := phase + 1\<rparr>)
         else
           (if phase = 0 then (call_adb (MouseMoved (sint (click_x s)) (sint (click_y s))) s)\<lparr>click_phase := phase + 1\<rparr>
            else if phase = 2 then (call_adb MouseDown s)\<lparr>click_phase := phase + 1\<rparr>
            else if phase \<ge> 6 then (call_adb MouseUp s)\<lparr>click_phase := - 1\<rparr>
            else s\<lparr>click_phase := phase + 1\<rparr>))"

definition Toolbox_PressDialogDefault :: "window_state \<Rightarrow> window_state" where
  "Toolbox_PressDialogDefault s = s\<lparr>click_is_key := True, click_phase := 0\<rparr>"

definition Toolbox_ClickDialogItem :: "u32 \<Rightarrow> nat \<Rightarrow> window_state \<Rightarrow> window_state" where
  "Toolbox_ClickDialogItem win wanted s =
     (case Toolbox_SnapshotDialogItems win s of
        None \<Rightarrow> s
      | Some (items, default_item) \<Rightarrow>
          (case find (\<lambda>i. di_index i = wanted) items of
             None \<Rightarrow> s
           | Some i \<Rightarrow>
               s\<lparr>click_x := word_of_int ((sint (left (di_rect i)) + sint (right (di_rect i))) sdiv 2),
                 click_y := word_of_int ((sint (top (di_rect i)) + sint (bottom (di_rect i))) sdiv 2),
                 click_is_key := False, click_phase := 0\<rparr>))"

subsection \<open>The queue\<close>

definition queue_global_input :: "input_event \<Rightarrow> window_state \<Rightarrow> window_state" where
  "queue_global_input ev s =
     (if in_kind ev = InMouseMove \<and> input_queue s \<noteq> [] \<and> in_kind (last (input_queue s)) = InMouseMove
      then s\<lparr>input_queue := butlast (input_queue s) @ [ev]\<rparr>
      else if length (input_queue s) < 128 then s\<lparr>input_queue := input_queue s @ [ev]\<rparr>
      else s)"

definition Toolbox_ForwardGuestInput :: "u32 \<Rightarrow> input_kind \<Rightarrow> u16 \<Rightarrow> u16 \<Rightarrow> int \<Rightarrow> window_state \<Rightarrow> window_state" where
  "Toolbox_ForwardGuestInput win kind x y code s =
     (if kind = InKeyDown \<or> kind = InKeyUp
      then queue_global_input \<lparr>in_kind = kind, in_x = 0, in_y = 0, in_code = code\<rparr> s
      else (case find_window (last_snapshot s) win of
              None \<Rightarrow> s
            | Some i \<Rightarrow>
                queue_global_input \<lparr>in_kind = kind, in_x = left (content (last_snapshot s ! i)) + x,
                  in_y = top (content (last_snapshot s ! i)) + y, in_code = 0\<rparr> s))"

definition moved_to :: "input_event \<Rightarrow> adb_call_event" where
  "moved_to ev = MouseMoved (sint (in_x ev)) (sint (in_y ev))"

definition transition :: "input_event \<Rightarrow> adb_call_event list" where
  "transition ev =
     (case in_kind ev of
        InMouseDown \<Rightarrow> [moved_to ev, MouseDown]
      | InMouseUp \<Rightarrow> [moved_to ev, MouseUp]
      | InKeyDown \<Rightarrow> [KeyDown (in_code ev)]
      | InKeyUp \<Rightarrow> [KeyUp (in_code ev)]
      | _ \<Rightarrow> [])"

text \<open>One pass over the queue: the calls made, the rest of the queue and the new delay.\<close>

fun drain :: "bool \<Rightarrow> input_event list \<Rightarrow> adb_call_event list \<times> input_event list \<times> nat option" where
  "drain moved [] = ([], [], None)"
| "drain moved (ev # evs) =
     (if in_kind ev = InMouseMove
      then (let (calls, rest, delay) = drain True evs in (moved_to ev # calls, rest, delay))
      else if moved then ([], ev # evs, Some 3)
      else (transition ev, evs, Some 5))"

definition process_input_queue :: "window_state \<Rightarrow> window_state" where
  "process_input_queue s =
     (if input_delay s > 0 then s\<lparr>input_delay := input_delay s - 1\<rparr>
      else (let (calls, rest, delay) = drain False (input_queue s)
            in s\<lparr>adb_calls := adb_calls s @ calls, input_queue := rest,
                 input_delay := (case delay of None \<Rightarrow> input_delay s | Some d \<Rightarrow> d)\<rparr>))"

section \<open>Mirroring: the diff of two walks\<close>

text \<open>
  The rest of \<open>toolbox_window.cpp\<close>: the comparison of a walk with the one before, the hooks, the
  reset and the registration. The self test behind \<open>COCKATRICE_WINDOW_SELFTEST\<close>, the dump of a
  window to a file and log output are left out. \<open>auto_dismiss_alerts\<close> is whether
  \<open>COCKATRICE_AUTO_DISMISS_ALERTS\<close> is set.
\<close>

definition auto_dismiss :: "window_state \<Rightarrow> window_state" where
  "auto_dismiss s =
     (if auto_dismiss_countdown s = 0 then s
      else (let s1 = s\<lparr>auto_dismiss_countdown := auto_dismiss_countdown s - 1\<rparr>
            in if auto_dismiss_countdown s1 \<noteq> 0 then s1
               else (let s2 = (if Toolbox_SnapshotDialogItems (auto_dismiss_window s1) s1 = None then s1 else Toolbox_PressDialogDefault s1)
                     in s2\<lparr>auto_dismiss_window := 0\<rparr>)))"

text \<open>One window of the previous walk: it stays, is kept for another round, or is retired.\<close>

definition retire_window :: "window_snapshot \<Rightarrow> window_snapshot list \<times> window_state \<Rightarrow> window_snapshot list \<times> window_state" where
  "retire_window old cs =
     (let (current, s) = cs; p = window_ptr old
      in if find_window current p \<noteq> None then (current, s\<lparr>missing := (missing s)(p := 0)\<rparr>)
         else (let s1 = s\<lparr>missing := (missing s)(p := missing s p + 1)\<rparr>
               in if missing s1 p < kMissingWalksToRetire then (current @ [old], s1)
                  else (current, host_call cb_removed (WindowRemoved p) (restore_window p False (s1\<lparr>missing := (missing s1)(p := 0)\<rparr>)))))"

definition resize_buffer :: "window_snapshot \<Rightarrow> window_state \<Rightarrow> window_state" where
  "resize_buffer w s =
     (case find_redirected (window_ptr w) s of
        None \<Rightarrow> s
      | Some i \<Rightarrow>
          (let p = read_rect (dmem s) (window_ptr w + kPort_PortRect); rec = redirected s ! i
           in if rect_width p \<noteq> sint (rd_width rec) \<or> rect_height p \<noteq> sint (rd_height rec)
              then redirect_window w (restore_window (window_ptr w) True s) else s))"

definition schedule_dismiss :: "window_snapshot \<Rightarrow> window_state \<Rightarrow> window_state" where
  "schedule_dismiss w s =
     (if is_dialog w \<and> auto_dismiss_window s = 0 \<and> auto_dismiss_alerts s
      then s\<lparr>auto_dismiss_window := window_ptr w, auto_dismiss_countdown := 60\<rparr> else s)"

definition report_window :: "window_snapshot \<Rightarrow> window_state \<Rightarrow> window_state" where
  "report_window w s =
     (case find_window (last_snapshot s) (window_ptr w) of
        None \<Rightarrow> schedule_dismiss w (host_call cb_added (WindowAdded w) (redirect_window w s))
      | Some i \<Rightarrow>
          if window_changed (last_snapshot s ! i) w
          then host_call cb_changed (WindowChanged w) (resize_buffer w s) else s)"

definition diff_windows :: "window_snapshot list \<Rightarrow> window_state \<Rightarrow> window_state" where
  "diff_windows walked s =
     (let (current, s1) = fold retire_window (last_snapshot s) (walked, s); s2 = fold report_window current s1
      in s2\<lparr>last_snapshot := current\<rparr>)"

definition Toolbox_ProcessPendingWindowSync :: "window_state \<Rightarrow> window_state" where
  "Toolbox_ProcessPendingWindowSync s =
     (if \<not> win_active s then s
      else if busy_addr s \<noteq> 0 \<and> ReadMacInt8 (dmem s) (busy_addr s) \<noteq> 0 then s
      else (let s1 = reassert_vis_rgns (process_input_queue (process_pending_click (ensure_gne_filter s)));
                (walked, s2) = Toolbox_SnapshotWindowList (auto_dismiss s1)
            in diff_windows walked s2))"

subsection \<open>Hooks, reset and registration\<close>

definition Handle_WindowTeardown :: "m68k \<Rightarrow> window_state \<Rightarrow> toolbox_action \<times> m68k \<times> window_state" where
  "Handle_WindowTeardown r s =
     (let win = fst (PopInt32 (dmem s) (ToolboxArgs r (dmem s)))
      in if \<not> valid_guest_ptr win s then (TOOLBOX_ACTION_PASSTHROUGH, r, s)
         else (let s1 = host_call cb_removed (WindowRemoved win) (restore_window win True s);
                   s2 = (case find_window (last_snapshot s1) win of
                           None \<Rightarrow> s1
                         | Some i \<Rightarrow> s1\<lparr>last_snapshot := take i (last_snapshot s1) @ drop (Suc i) (last_snapshot s1)\<rparr>)
               in (TOOLBOX_ACTION_PASSTHROUGH, r, s2)))"

definition set_in_update :: "bool \<Rightarrow> m68k \<Rightarrow> window_state \<Rightarrow> window_state" where
  "set_in_update flag r s =
     (case find_redirected (fst (PopInt32 (dmem s) (ToolboxArgs r (dmem s)))) s of
        None \<Rightarrow> s
      | Some i \<Rightarrow> s\<lparr>redirected := (redirected s)[i := (redirected s ! i)\<lparr>in_update := flag\<rparr>]\<rparr>)"

definition Handle_BeginUpdate :: "m68k \<Rightarrow> window_state \<Rightarrow> toolbox_action \<times> m68k \<times> window_state" where
  "Handle_BeginUpdate r s = (TOOLBOX_ACTION_PASSTHROUGH, r, set_in_update True r s)"

definition Handle_EndUpdate :: "m68k \<Rightarrow> window_state \<Rightarrow> toolbox_action \<times> m68k \<times> window_state" where
  "Handle_EndUpdate r s = (TOOLBOX_ACTION_PASSTHROUGH, r, set_in_update False r s)"

definition window_call :: "nat \<Rightarrow> u16 \<Rightarrow> m68k \<Rightarrow> u32 \<Rightarrow> window_state \<Rightarrow> toolbox_action \<times> m68k \<times> window_state" where
  "window_call i n r orig s =
     (if i = 0 then Handle_WindowTeardown r s else if i = 1 then Handle_BeginUpdate r s else Handle_EndUpdate r s)"

definition register_hook :: "u16 \<Rightarrow> string \<Rightarrow> nat \<Rightarrow> window_state \<Rightarrow> window_state" where
  "register_hook n name i s = snd (ToolboxTrap_Register n (Some name) (Some (HookOther i)) s)"

definition ToolboxWindow_RegisterTraps :: "window_state \<Rightarrow> window_state" where
  "ToolboxWindow_RegisterTraps s =
     (if \<not> ToolboxTrap_HooksEnabled s then s
      else if \<not> PrefsFindBool ''mdi_windows'' (tb_prefs s) then s
      else (let s1 = register_hook 0xa914 ''_DisposeWindow'' 0 (register_hook 0xa92d ''_CloseWindow'' 0 s);
                s2 = s1\<lparr>redirect_enabled := PrefsFindBool ''window_redirect'' (tb_prefs s1)\<rparr>;
                s3 = (if redirect_enabled s2
                      then register_hook 0xa923 ''_EndUpdate'' 2 (register_hook 0xa922 ''_BeginUpdate'' 1 s2) else s2)
            in s3\<lparr>win_active := True, safepoint_wanted := True\<rparr>))"

definition ToolboxWindow_Reset :: "window_state \<Rightarrow> window_state" where
  "ToolboxWindow_Reset s =
     (fold (\<lambda>w. host_call cb_removed (WindowRemoved (window_ptr w))) (last_snapshot s) s)
       \<lparr>last_snapshot := [], desktop_window := 0, redirected := [], arena_frees := [], arena_cursor := arena_base s,
        input_queue := [], pending_ops := [], missing := (\<lambda>p. 0), screen_resize_pending := False,
        applied_w := 0, applied_h := 0, code_base := 0, gne_stub := 0, scratch := 0, flag_addr := 0, busy_addr := 0,
        done_addr := 0, saved_port := 0, scratch_seq := 0, scratch_reported := 0, gne_installed := False\<rparr>"

definition ToolboxWindow_SetPalette :: "u8 list option \<Rightarrow> window_state \<Rightarrow> window_state" where
  "ToolboxWindow_SetPalette entries s =
     (case entries of None \<Rightarrow> s | Some bytes \<Rightarrow> s\<lparr>window_palette := Some (take 768 bytes)\<rparr>)"

definition ToolboxWindow_GetPalette :: "window_state \<Rightarrow> u8 list option" where
  "ToolboxWindow_GetPalette s = window_palette s"

definition ToolboxWindow_SetCallbacks :: "window_callbacks option \<Rightarrow> window_state \<Rightarrow> window_state" where
  "ToolboxWindow_SetCallbacks cb s = s\<lparr>callbacks := cb\<rparr>"

subsection \<open>The interrupt\<close>

text \<open>The periodic work of \<open>MenuQueue_Drain\<close> (\<open>SDL/menu_bar.cpp\<close>).\<close>

definition window_interrupt :: "window_state \<Rightarrow> window_state" where
  "window_interrupt s =
     (let s1 = (if ToolboxTrap_HooksEnabled s
                then Toolbox_ProcessPendingWindowSync
                       (snd (with_menu (\<lambda>m. ((), Toolbox_ProcessPendingMenuBarSync m)) (Toolbox_EnableSafePoint s))) else s)
      in if Toolbox_ScreenResizePending s1 then Toolbox_EnableSafePoint s1 else s1)"

end
