(* ===== verification/Window_Facts.thy ===== *)
theory Window_Facts
  imports Window_Mirror "HOL-Library.Multiset" Video_Facts
begin

section \<open>The arena keeps blocks apart\<close>

text \<open>
  The contract of an arena (\<open>block_arena\<close>): the blocks handed out and not yet given back are
  disjoint, whatever the order of requests. The arena of \<open>toolbox_window.cpp\<close> fulfils it.
\<close>

definition cells :: "u32 \<times> u32 \<Rightarrow> nat set" where
  "cells b = {unat (fst b)..<unat (fst b) + unat (snd b)}"

definition separate :: "(u32 \<times> u32) list \<Rightarrow> bool" where
  "separate bs \<longleftrightarrow> sorted_wrt (\<lambda>b c. cells b \<inter> cells c = {}) bs"

lemma separate_simps [simp]:
  "separate []" "separate (b # bs) \<longleftrightarrow> (\<forall>c \<in> set bs. cells b \<inter> cells c = {}) \<and> separate bs"
  "separate (bs @ cs) \<longleftrightarrow> separate bs \<and> separate cs \<and> (\<forall>b \<in> set bs. \<forall>c \<in> set cs. cells b \<inter> cells c = {})"
  by (auto simp: separate_def sorted_wrt_append)

lemma separate_perm: "separate bs \<Longrightarrow> mset bs = mset cs \<Longrightarrow> separate cs"
proof (induction bs arbitrary: cs)
  case (Cons b bs)
  then have "b \<in> set cs" by (metis list.set_intros(1) set_mset_mset)
  then obtain xs ys where cs: "cs = xs @ b # ys" by (meson split_list)
  then have m: "mset bs = mset (xs @ ys)" using Cons.prems(2) by simp
  moreover have "separate bs" using Cons.prems(1) by simp
  ultimately have "separate (xs @ ys)" using Cons.IH by blast
  moreover have "set bs = set (xs @ ys)" using m by (metis set_mset_mset)
  ultimately show ?case using Cons.prems(1) unfolding cs by (auto simp: Int_commute)
qed simp

subsection \<open>The contract\<close>

datatype request = Take u32 | Give nat

locale block_arena =
  fixes alloc :: "u32 \<Rightarrow> 's \<Rightarrow> u32 \<times> 's" and release :: "u32 \<Rightarrow> u32 \<Rightarrow> 's \<Rightarrow> 's"
    and extent :: "u32 \<Rightarrow> u32" and owns :: "(u32 \<times> u32) list \<Rightarrow> 's \<Rightarrow> bool"
  assumes owns_separate: "owns live s \<Longrightarrow> separate live"
    and owns_perm: "owns live s \<Longrightarrow> mset live = mset live' \<Longrightarrow> owns live' s"
    and alloc_owns: "owns live s \<Longrightarrow> alloc n s = (a, s') \<Longrightarrow> a \<noteq> 0 \<Longrightarrow> owns ((a, extent n) # live) s'"
    and alloc_fails: "owns live s \<Longrightarrow> alloc n s = (0, s') \<Longrightarrow> owns live s'"
    and release_owns: "owns ((a, extent n) # live) s \<Longrightarrow> owns live (release a n s)"
begin

fun serve :: "request list \<Rightarrow> (u32 \<times> u32) list \<Rightarrow> 's \<Rightarrow> (u32 \<times> u32) list \<times> 's" where
  "serve [] held s = (held, s)"
| "serve (Take n # rs) held s =
     (let (a, s') = alloc n s in serve rs (if a = 0 then held else (a, n) # held) s')"
| "serve (Give i # rs) held s =
     (if i < length held then serve rs (take i held @ drop (Suc i) held) (release (fst (held ! i)) (snd (held ! i)) s)
      else serve rs held s)"

definition extents :: "(u32 \<times> u32) list \<Rightarrow> (u32 \<times> u32) list" where
  "extents held = map (\<lambda>b. (fst b, extent (snd b))) held"

lemma release_nth:
  assumes "owns (extents held) s" "i < length held"
  shows "owns (extents (take i held @ drop (Suc i) held)) (release (fst (held ! i)) (snd (held ! i)) s)"
proof -
  have "extents held = extents (take i held @ held ! i # drop (Suc i) held)"
    using assms(2) by (simp only: id_take_nth_drop [symmetric])
  also have "\<dots> = extents (take i held) @ (fst (held ! i), extent (snd (held ! i))) # extents (drop (Suc i) held)"
    by (simp add: extents_def)
  finally have "extents held = extents (take i held) @ (fst (held ! i), extent (snd (held ! i))) # extents (drop (Suc i) held)" .
  moreover have "extents (take i held @ drop (Suc i) held) = extents (take i held) @ extents (drop (Suc i) held)"
    by (simp add: extents_def)
  ultimately have "mset (extents held) = mset ((fst (held ! i), extent (snd (held ! i))) # extents (take i held @ drop (Suc i) held))"
    by simp
  with assms(1) have "owns ((fst (held ! i), extent (snd (held ! i))) # extents (take i held @ drop (Suc i) held)) s"
    by (rule owns_perm)
  then show ?thesis by (rule release_owns)
qed

lemma serve_owns: "owns (extents held) s \<Longrightarrow> serve rs held s = (held', s') \<Longrightarrow> owns (extents held') s'"
proof (induction rs held s rule: serve.induct)
  case (2 n rs held s)
  obtain a t where a: "alloc n s = (a, t)" by fastforce
  have "owns (extents (if a = 0 then held else (a, n) # held)) t"
    using alloc_owns [OF 2(2) a] alloc_fails [OF 2(2)] a by (auto simp: extents_def)
  then show ?case using 2(1) [of "(a, t)"] 2(3) a by simp
next
  case (3 i rs held s)
  then show ?case using release_nth by (cases "i < length held") auto
qed simp

lemma serve_separate: "owns (extents held) s \<Longrightarrow> serve rs held s = (held', s') \<Longrightarrow> separate (extents held')"
  by (rule owns_separate) (rule serve_owns)

end

subsection \<open>The arena of the bridge\<close>

definition inside :: "u32 \<Rightarrow> u32 \<Rightarrow> u32 \<times> u32 \<Rightarrow> bool" where
  "inside base cur b \<longleftrightarrow> unat base \<le> unat (fst b) \<and> unat (fst b) + unat (snd b) \<le> unat cur"

definition arena_bounds :: "window_state \<Rightarrow> bool" where
  "arena_bounds s \<longleftrightarrow>
     unat MacFrameBaseMac + unat (MacFrameSize (screen s)) \<le> unat (arena_base s) \<and> unat (arena_base s) \<le> 0xb000ffff \<and>
     unat (arena_base s) \<le> unat (arena_cursor s) \<and> unat (arena_cursor s) \<le> unat (arena_base s) + unat kArenaLimit"

definition arena_ok :: "(u32 \<times> u32) list \<Rightarrow> window_state \<Rightarrow> bool" where
  "arena_ok live s \<longleftrightarrow>
     unat MacFrameBaseMac + unat (MacFrameSize (screen s)) \<le> 0xb0000000 \<and>
     (if arena_base s = 0 then live @ arena_frees s = []
      else arena_bounds s \<and> separate (live @ arena_frees s) \<and>
           list_all (inside (arena_base s) (arena_cursor s)) (live @ arena_frees s))"

lemma arena_okD:
  assumes "arena_ok live s" "b \<in> set live"
  shows "unat MacFrameBaseMac + unat (MacFrameSize (screen s)) \<le> unat (fst b)" "unat (fst b) + unat (snd b) \<le> 0xb400ffff" "fst b \<noteq> 0"
proof -
  have z: "arena_base s \<noteq> 0" using assms by (auto simp: arena_ok_def)
  then have b: "arena_bounds s" and i: "inside (arena_base s) (arena_cursor s) b"
    using assms by (auto simp: arena_ok_def list_all_iff)
  have l: "unat kArenaLimit = 0x4000000" by (simp add: kArenaLimit_def)
  show "unat MacFrameBaseMac + unat (MacFrameSize (screen s)) \<le> unat (fst b)" "unat (fst b) + unat (snd b) \<le> 0xb400ffff"
    using b i l unfolding arena_bounds_def inside_def by linarith+
  then show "fst b \<noteq> 0" by (auto simp: MacFrameBaseMac_def)
qed

lemma and_not_diff: "(x :: u32) AND NOT m = x - (x AND m)"
proof -
  have "(x AND m) + (x AND NOT m) = (x AND m) OR (x AND NOT m)"
    by (rule disjunctive_add_eq_or) (auto intro!: bit_eqI simp: bit_simps)
  also have "\<dots> = x" by (rule bit_eqI) (auto simp: bit_simps)
  finally show ?thesis by (metis add_diff_cancel_left')
qed

lemma align_bounds: "unat x \<le> 0xb0000000 \<Longrightarrow> unat x \<le> unat ((x + kArenaAlign - 1) AND NOT (kArenaAlign - 1)) \<and>
    unat ((x + kArenaAlign - 1) AND NOT (kArenaAlign - 1)) \<le> 0xb000ffff"
proof -
  assume x: "unat x \<le> 0xb0000000"
  let ?y = "x + kArenaAlign - 1" and ?m = "kArenaAlign - 1"
  have m: "?m = 0xffff" by (simp add: kArenaAlign_def)
  have "?y = x + 0xffff" using m by (metis add_diff_eq)
  then have "unat ?y = unat x + unat (0xffff :: u32)" using x by (simp only:) (rule unat_plus_no_wrap, simp)
  then have y: "unat ?y = unat x + 0xffff" by simp
  have "?y AND NOT ?m = ?y - (?y AND ?m)" by (rule and_not_diff)
  moreover have "?y AND ?m \<le> ?y" by (rule word_and_le2)
  ultimately have u: "unat (?y AND NOT ?m) = unat ?y - unat (?y AND ?m)" by (simp add: unat_sub)
  have "?y AND ?m \<le> ?m" by (rule word_and_le1)
  then have "unat (?y AND ?m) \<le> 0xffff" by (simp add: word_le_nat_alt m)
  then show ?thesis using u y x by linarith
qed

lemma arena_start_ok:
  assumes "arena_ok live s"
  shows "arena_ok live (arena_start s)" "arena_base (arena_start s) \<noteq> 0"
proof -
  let ?F = "MacFrameBaseMac + MacFrameSize (screen s)"
  let ?b = "(?F + kArenaAlign - 1) AND NOT (kArenaAlign - 1)"
  have l: "unat MacFrameBaseMac + unat (MacFrameSize (screen s)) \<le> 0xb0000000" using assms by (simp add: arena_ok_def)
  then have F: "unat ?F = unat MacFrameBaseMac + unat (MacFrameSize (screen s))" by (intro unat_plus_no_wrap) simp
  then have b: "unat ?F \<le> unat ?b" "unat ?b \<le> 0xb000ffff" using align_bounds [of ?F] l by simp_all
  have z: "?b \<noteq> 0" using b(1) F by (auto simp: MacFrameBaseMac_def simp del: unat_eq_0)
  have "arena_ok live (arena_start s) \<and> arena_base (arena_start s) \<noteq> 0"
  proof (cases "arena_base s = 0")
    case True
    then have e: "live = []" "arena_frees s = []" using assms by (simp_all add: arena_ok_def)
    have s: "arena_start s = s\<lparr>arena_base := ?b, arena_cursor := ?b\<rparr>" using True by (simp add: arena_start_def Let_def)
    show ?thesis unfolding s using z b F l e by (simp add: arena_ok_def arena_bounds_def)
  qed (use assms in \<open>simp add: arena_start_def\<close>)
  then show "arena_ok live (arena_start s)" "arena_base (arena_start s) \<noteq> 0" by simp_all
qed

lemma inside_mono: "inside base cur b \<Longrightarrow> unat cur \<le> unat cur' \<Longrightarrow> inside base cur' b"
  by (simp add: inside_def)

lemma cells_part: "fst b = fst c \<Longrightarrow> snd b \<le> snd c \<Longrightarrow> cells b \<subseteq> cells c"
  by (auto simp: cells_def word_le_nat_alt)

lemma cells_before: "unat (fst b) + unat (snd b) \<le> unat a \<Longrightarrow> cells (a, n) \<inter> cells b = {}"
  by (auto simp: cells_def)

lemma nth_split: "i < length xs \<Longrightarrow> xs = take i xs @ xs ! i # drop (Suc i) xs"
  by (rule id_take_nth_drop)

lemma arena_reuse:
  assumes "arena_ok live s" "i < length (arena_frees s)" "n \<le> snd (arena_frees s ! i)"
  shows "arena_ok ((fst (arena_frees s ! i), n) # live) (s\<lparr>arena_frees := take i (arena_frees s) @ drop (Suc i) (arena_frees s)\<rparr>)"
proof -
  let ?b = "arena_frees s ! i" and ?xs = "take i (arena_frees s)" and ?ys = "drop (Suc i) (arena_frees s)"
  have f: "arena_frees s = ?xs @ ?b # ?ys" using assms(2) by (rule nth_split)
  have z: "arena_base s \<noteq> 0" using assms(1,2) by (auto simp: arena_ok_def)
  then have o: "separate (live @ ?xs @ ?b # ?ys)" "list_all (inside (arena_base s) (arena_cursor s)) (live @ ?xs @ ?b # ?ys)"
    using assms(1) f by (auto simp: arena_ok_def)
  have p: "cells (fst ?b, n) \<subseteq> cells ?b" using assms(3) by (intro cells_part) simp_all
  have "separate (?b # live @ ?xs @ ?ys)" by (rule separate_perm [OF o(1)]) simp
  then have "separate ((fst ?b, n) # live @ ?xs @ ?ys)" using p by (auto simp del: separate_simps(3) simp: separate_simps(2))
  moreover have "list_all (inside (arena_base s) (arena_cursor s)) ((fst ?b, n) # live @ ?xs @ ?ys)"
    using o(2) assms(3) by (auto simp: inside_def word_le_nat_alt)
  ultimately show ?thesis using assms(1) z by (simp add: arena_ok_def arena_bounds_def)
qed

lemma arena_extend:
  assumes "arena_ok live s" "arena_base s \<noteq> 0" "\<not> arena_cursor s + n > arena_base s + kArenaLimit"
    "memory_is_mapped (arena_cursor s) n mm"
  shows "arena_ok ((arena_cursor s, n) # live) (s\<lparr>memmap := mm, arena_cursor := arena_cursor s + n\<rparr>)"
proof -
  let ?c = "arena_cursor s" and ?b = "arena_base s"
  have b: "arena_bounds s" and o: "separate (live @ arena_frees s)" "list_all (inside ?b ?c) (live @ arena_frees s)"
    using assms(1,2) by (simp_all add: arena_ok_def)
  have l: "unat kArenaLimit = 0x4000000" by (simp add: kArenaLimit_def)
  have "unat ?c < 2 ^ 32" by (rule unat_u32_less)
  then have w: "unat ?c + unat n < 2 ^ 32" using mapped_ends [OF assms(4)] by (cases "n = 0") auto
  then have c: "unat (?c + n) = unat ?c + unat n" by (intro unat_plus_no_wrap) simp
  have "unat (?b + kArenaLimit) = unat ?b + unat kArenaLimit" using b l by (intro unat_plus_no_wrap) (simp add: arena_bounds_def)
  then have "unat ?c + unat n \<le> unat ?b + unat kArenaLimit" using assms(3) c by (simp add: word_less_nat_alt not_less)
  moreover have "list_all (inside ?b (?c + n)) ((?c, n) # live @ arena_frees s)"
    using o(2) b c by (auto simp: list_all_iff arena_bounds_def intro: inside_mono) (simp add: inside_def)
  moreover have "separate ((?c, n) # live @ arena_frees s)"
  proof -
    have "cells (?c, n) \<inter> cells b = {}" if "b \<in> set (live @ arena_frees s)" for b
      by (rule cells_before) (use o(2) that in \<open>simp add: list_all_iff inside_def\<close>)
    then show ?thesis using o(1) by (simp del: separate_simps(3))
  qed
  ultimately show ?thesis using assms(1,2) b c by (simp add: arena_ok_def arena_bounds_def)
qed

lemma arena_memmap: "arena_ok live (s\<lparr>memmap := mm\<rparr>) = arena_ok live s"
  by (simp add: arena_ok_def arena_bounds_def)

lemma arena_alloc_ok:
  assumes "arena_ok live s" "arena_alloc n s = (a, s')"
  shows "a \<noteq> 0 \<Longrightarrow> arena_ok ((a, arena_round n) # live) s'" "a = 0 \<Longrightarrow> arena_ok live s'"
proof -
  have st: "arena_ok live (arena_start s)" "arena_base (arena_start s) \<noteq> 0" using arena_start_ok [OF assms(1)] by simp_all
  have "(a \<noteq> 0 \<longrightarrow> arena_ok ((a, arena_round n) # live) s') \<and> (a = 0 \<longrightarrow> arena_ok live s')"
  proof (cases "find_index (\<lambda>b. snd b \<ge> arena_round n) (arena_frees s)")
    case (Some i)
    then have i: "i < length (arena_frees s)" "arena_round n \<le> snd (arena_frees s ! i)" by (auto dest: find_index_SomeD)
    have e: "a = fst (arena_frees s ! i)" "s' = s\<lparr>arena_frees := take i (arena_frees s) @ drop (Suc i) (arena_frees s)\<rparr>"
      using assms(2) Some by (auto simp: arena_alloc_def Let_def)
    have "arena_ok ((a, arena_round n) # live) s'" unfolding e by (rule arena_reuse [OF assms(1) i])
    moreover from this have "a \<noteq> 0" using arena_okD(3) [of "(a, arena_round n) # live" s' "(a, arena_round n)"] by simp
    ultimately show ?thesis by simp
  next
    case None
    have c: "arena_cursor (arena_start s) \<noteq> 0" using st by (auto simp: arena_ok_def arena_bounds_def MacFrameBaseMac_def)
    show ?thesis using None assms(2) st c arena_extend [OF st]
      by (auto simp: arena_alloc_def Let_def arena_memmap split: if_splits)
  qed
  then show "a \<noteq> 0 \<Longrightarrow> arena_ok ((a, arena_round n) # live) s'" "a = 0 \<Longrightarrow> arena_ok live s'" by simp_all
qed

lemma arena_free_ok:
  assumes "arena_ok ((a, arena_round n) # live) s"
  shows "arena_ok live (arena_free a n s)"
proof -
  have z: "arena_base s \<noteq> 0" and a: "a \<noteq> 0" using assms arena_okD(3) [OF assms, of "(a, arena_round n)"] by (auto simp: arena_ok_def)
  have "separate (live @ arena_frees s @ [(a, arena_round n)])"
    by (rule separate_perm [of "((a, arena_round n) # live) @ arena_frees s"]) (use assms z in \<open>auto simp: arena_ok_def\<close>)
  then show ?thesis using assms z a by (auto simp: arena_ok_def arena_free_def arena_bounds_def)
qed

lemma arena_ok_perm:
  assumes "arena_ok live s" "mset live = mset live'"
  shows "arena_ok live' s"
proof -
  have m: "mset (live @ arena_frees s) = mset (live' @ arena_frees s)" using assms(2) by simp
  then have "set (live @ arena_frees s) = set (live' @ arena_frees s)" by (metis set_mset_mset)
  moreover have "separate (live @ arena_frees s) \<Longrightarrow> separate (live' @ arena_frees s)" using separate_perm [OF _ m] .
  moreover have "live @ arena_frees s = [] \<Longrightarrow> live' @ arena_frees s = []" using m by simp
  ultimately show ?thesis using assms(1) by (simp add: arena_ok_def list_all_iff del: separate_simps(3) split: if_splits)
qed

interpretation arena: block_arena arena_alloc arena_free arena_round arena_ok
proof unfold_locales
  show "separate live" if "arena_ok live s" for live s using that by (auto simp: arena_ok_def split: if_splits)
qed (fact arena_ok_perm arena_alloc_ok(1) arena_free_ok | auto dest: arena_alloc_ok(2))+

section \<open>What the operations of the bridge leave alone\<close>

text \<open>
  \<open>held_part\<close> is what the arena's invariant reads of the state; \<open>buffers_ok\<close> is that invariant for
  the blocks the bridge holds, the buffers of its redirected windows and its guest code.
\<close>

definition held :: "window_state \<Rightarrow> (u32 \<times> u32) list" where
  "held s = map (\<lambda>r. (buffer_addr r, arena_round (buffer_size r))) (redirected s) @
     (if code_base s = 0 then [] else [(code_base s, arena_round kCode_Size)])"

definition buffers_ok :: "window_state \<Rightarrow> bool" where
  "buffers_ok s \<longleftrightarrow> arena_ok (held s) s"

definition held_part :: "window_state \<Rightarrow> u32 \<times> u32 \<times> (u32 \<times> u32) list \<times> u32 \<times> (u32 \<times> u32) list" where
  "held_part s = (arena_base s, arena_cursor s, arena_frees s, MacFrameSize (screen s), held s)"

lemma buffers_cong: "held_part s = held_part t \<Longrightarrow> buffers_ok s = buffers_ok t"
  by (simp add: held_part_def buffers_ok_def arena_ok_def arena_bounds_def)

lemma screen_env [simp]:
  "screen (s\<lparr>dmem := m\<rparr>) = screen s" "screen (s\<lparr>traps := tr\<rparr>) = screen s" "screen (s\<lparr>sysd := sy\<rparr>) = screen s"
  by (cases s, simp)+

named_theorems window_frame \<open>parts of the bridge's state an operation leaves alone\<close>

lemma arena_ok_cong:
  "arena_base s = arena_base t \<Longrightarrow> arena_cursor s = arena_cursor t \<Longrightarrow> arena_frees s = arena_frees t \<Longrightarrow>
   MacFrameSize (screen s) = MacFrameSize (screen t) \<Longrightarrow> arena_ok bs s = arena_ok bs t"
  by (simp add: arena_ok_def arena_bounds_def)

lemma held_simps [window_frame]:
  "held_part (s\<lparr>dmem := m\<rparr>) = held_part s" "held_part (s\<lparr>pending_ops := ops\<rparr>) = held_part s"
  "held_part (s\<lparr>host_calls := hc\<rparr>) = held_part s" "held_part (s\<lparr>adb_calls := ac\<rparr>) = held_part s"
  "held_part (s\<lparr>missing := mi\<rparr>) = held_part s" "held_part (s\<lparr>last_snapshot := ws\<rparr>) = held_part s"
  "held_part (s\<lparr>gne_installed := g\<rparr>) = held_part s" "held_part (s\<lparr>safepoint_wanted := g\<rparr>) = held_part s"
  "held_part (s\<lparr>screen_resize_pending := g\<rparr>) = held_part s" "held_part (s\<lparr>desktop_window := w\<rparr>) = held_part s"
  "held_part (s\<lparr>traps := tr\<rparr>) = held_part s" "held_part (s\<lparr>scratch_seq := sq\<rparr>) = held_part s"
  "held_part (s\<lparr>scratch_reported := sq\<rparr>) = held_part s" "held_part (s\<lparr>stalled := n\<rparr>) = held_part s"
  "held_part (s\<lparr>invalidated := iv\<rparr>) = held_part s" "held_part (s\<lparr>input_queue := q\<rparr>) = held_part s"
  "held_part (s\<lparr>input_delay := n\<rparr>) = held_part s" "held_part (s\<lparr>click_phase := p\<rparr>) = held_part s"
  "held_part (s\<lparr>click_is_key := g\<rparr>) = held_part s" "held_part (s\<lparr>click_x := x\<rparr>) = held_part s"
  "held_part (s\<lparr>click_y := x\<rparr>) = held_part s" "held_part (s\<lparr>applied_w := x\<rparr>) = held_part s"
  "held_part (s\<lparr>applied_h := x\<rparr>) = held_part s" "held_part (s\<lparr>auto_dismiss_window := w\<rparr>) = held_part s"
  "held_part (s\<lparr>auto_dismiss_countdown := n\<rparr>) = held_part s" "held_part (s\<lparr>callbacks := cb\<rparr>) = held_part s"
  "held_part (s\<lparr>memmap := mm\<rparr>) = held_part s" "held_part (s\<lparr>redirect_enabled := g\<rparr>) = held_part s"
  "held_part (s\<lparr>win_active := g\<rparr>) = held_part s" "held_part (s\<lparr>trap_table := tt\<rparr>) = held_part s"
  "held_part (s\<lparr>window_palette := wp\<rparr>) = held_part s" "held_part (s\<lparr>sysd := sy\<rparr>) = held_part s"
  by (simp_all add: held_part_def held_def)

lemma held_writes [window_frame]:
  "held_part (wr8 a v s) = held_part s" "held_part (wr16 a v s) = held_part s" "held_part (wr32 a v s) = held_part s"
  "held_part (on_memory f s) = held_part s" "held_part (host_call pr c s) = held_part s" "held_part (call_adb e s) = held_part s"
  "held_part (set_rect_region h r s) = held_part s"
  by (simp_all add: wr8_def wr16_def wr32_def on_memory_def host_call_def call_adb_def set_rect_region_def
      held_simps split: option.splits)

lemma held_queue [window_frame]:
  "held_part (queue_window_op t w a b s) = held_part s"
  by (simp add: queue_window_op_def held_simps split: option.splits)

lemma held_walk [window_frame]: "held_part (snd (walk n w l z s)) = held_part s"
proof (induction n arbitrary: w l z s)
  case (Suc n)
  have "held_part (snd (adopt_window w l z s)) = held_part s"
    by (simp add: adopt_window_def window_is_desktop_def Let_def held_simps split: option.splits)
  then show ?case using Suc.IH by (simp add: Let_def split_def)
qed simp

lemma held_snapshot [window_frame]: "held_part (snd (Toolbox_SnapshotWindowList s)) = held_part s"
  by (simp add: Toolbox_SnapshotWindowList_def held_walk)

lemma held_reassert [window_frame]: "held_part (reassert_vis_rgns s) = held_part s"
proof -
  have p: "held_part (reassert_port rec s) = held_part s" for rec s
    by (simp add: reassert_port_def Let_def held_writes)
  have "held_part (reassert_vis_rgn rec s) = held_part s" for rec s
    by (simp add: reassert_vis_rgn_def Let_def p held_writes split: option.splits)
  then have "held_part (fold reassert_vis_rgn rs s) = held_part s" for rs by (induction rs arbitrary: s) simp_all
  then show ?thesis by (simp add: reassert_vis_rgns_def)
qed

lemma held_input [window_frame]:
  "held_part (process_pending_click s) = held_part s" "held_part (process_input_queue s) = held_part s"
  "held_part (auto_dismiss s) = held_part s" "held_part (queue_global_input ev s) = held_part s"
  by (simp_all add: process_pending_click_def process_input_queue_def auto_dismiss_def queue_global_input_def
      Toolbox_PressDialogDefault_def Let_def split_def held_simps held_writes)

lemma held_menu [window_frame]: "held_part (snd (with_menu f s)) = held_part s"
  by (cases s) (simp add: with_menu_def split_def Let_def held_part_def held_def menu_state.defs)

lemma held_screen: "MacFrameSize v = MacFrameSize (screen s) \<Longrightarrow> held_part (with_screen v s) = held_part s"
  by (simp add: with_screen_def held_part_def held_def)

lemma frame_size_kept: "kept v w \<Longrightarrow> MacFrameSize w = MacFrameSize v"
  by (simp add: kept_def screen_part_def)

lemma screen_view_size [simp]: "MacFrameSize (screen_view s) = MacFrameSize (screen s)"
  by (simp add: screen_view_def)

lemma held_geometry [window_frame]: "held_part (apply_guest_screen_geometry w h s) = held_part s"
proof -
  have p: "held_part (set_pixmap b row r pm t) = held_part t" for b row r pm t
    by (simp add: set_pixmap_def Let_def window_frame split: option.splits)
  have "held_part (set_device b row r t) = held_part t" "held_part (set_color_port ob row r port t) = held_part t"
    "held_part (set_screen_globals b row r d t) = held_part t" "held_part (set_wmgr_port b row r t) = held_part t" for b ob row r d port t
    by (simp_all add: set_device_def set_color_port_def set_screen_globals_def set_wmgr_port_def Let_def window_frame p split: option.splits)
  then show ?thesis by (simp add: apply_guest_screen_geometry_def Let_def window_frame)
qed

lemma held_trap [window_frame]: "held_part (snd (Execute68kTrap os t d a s)) = held_part s"
  by (simp add: Execute68kTrap_def Let_def split_def held_simps)

lemma held_driver_resize: "driver_resize os sdl w h s = Some t \<Longrightarrow> held_part t = held_part s"
proof -
  assume "driver_resize os sdl w h s = Some t"
  then obtain e v where v: "Video_GuestSwitchToSize os sdl (sint w) (sint h) (screen_view (wr8 LM_CrsrBusy 1 s)) = Some (e, v)"
    and t: "t = wr8 LM_CrsrBusy 0 (if e \<noteq> noErr then with_screen v s
        else (snd (Execute68kTrap os kTrap_AllocCursor 0 0 (apply_guest_screen_geometry w h (with_screen v s))))\<lparr>applied_w := w, applied_h := h\<rparr>)"
    by (auto simp: driver_resize_def Let_def)
  have "MacFrameSize v = MacFrameSize (screen s)" using frame_size_kept [OF kept_guest [OF v]] by (simp add: wr8_def)
  then show ?thesis unfolding t by (simp add: window_frame held_screen)
qed

lemma held_resize: "resize_screen os sdl ops s = Some (kept', t) \<Longrightarrow> held_part t = held_part s"
proof -
  assume r: "resize_screen os sdl ops s = Some (kept', t)"
  obtain w h where g: "wanted_geometry ops = (w, h)" by fastforce
  have k: "MacFrameSize (snd (Video_RegisterGuestSize (sint w) (sint h) (screen_view s))) = MacFrameSize (screen s)"
    using frame_size_kept [OF kept_register] by simp
  show ?thesis using r held_driver_resize [of os sdl w h s] k
    by (auto simp: resize_screen_def g display_manager_resize_def Let_def split_def window_frame held_screen split: if_splits)
qed

lemma held_assemble: "held_part (snd (assemble_window_calls ops s)) = held_part s"
  by (simp add: assemble_window_calls_def Let_def split_def window_frame)

lemma held_pending: "assemble_pending os sdl s = Some t \<Longrightarrow> held_part t = held_part s"
  by (auto simp: assemble_pending_def Let_def split_def window_frame held_assemble dest!: held_resize split: if_splits)

lemma held_event [window_frame]: "held_part (menu_event r s) = held_part s" "held_part (note_finished s) = held_part s"
  by (simp_all add: menu_event_def note_finished_def Let_def window_frame)

lemma held_safe_point: "Toolbox_WindowSafePoint os sdl r s = Some t \<Longrightarrow> held_part t = held_part s"
  unfolding Toolbox_WindowSafePoint_def Let_def
  by (auto simp: window_frame dest!: held_pending split: if_splits)

subsection \<open>Operations that take or give blocks\<close>

lemma arena_alloc_keeps:
  "redirected (snd (arena_alloc n s)) = redirected s" "code_base (snd (arena_alloc n s)) = code_base s"
  "dmem (snd (arena_alloc n s)) = dmem s" "RAMSize (snd (arena_alloc n s)) = RAMSize s"
  "last_snapshot (snd (arena_alloc n s)) = last_snapshot s" "host_calls (snd (arena_alloc n s)) = host_calls s"
  "callbacks (snd (arena_alloc n s)) = callbacks s" "win_active (snd (arena_alloc n s)) = win_active s"
  "missing (snd (arena_alloc n s)) = missing s" "screen (snd (arena_alloc n s)) = screen s"
  by (simp_all add: arena_alloc_def arena_start_def Let_def split: option.splits)

lemma held_alloc: "held (snd (arena_alloc n s)) = held s"
  by (simp add: held_def arena_alloc_keeps)

lemma buffers_alloc:
  assumes "buffers_ok s" "arena_alloc n s = (a, t)"
  shows "a \<noteq> 0 \<Longrightarrow> arena_ok ((a, arena_round n) # held s) t" "a = 0 \<Longrightarrow> buffers_ok t"
  using arena_alloc_ok [of "held s" s n a t] assms held_alloc [of n s] by (simp_all add: buffers_ok_def)

lemma buffers_redirect: "buffers_ok s \<Longrightarrow> buffers_ok (redirect_window w s)"
proof (cases "redirectable (window_ptr w) s")
  case (Some q)
  assume ok: "buffers_ok s"
  obtain pixmap p px where q: "q = (pixmap, p, px)" by (metis prod_cases3)
  let ?n = "buffer_row (rect_width p) px * word_of_int (rect_height p)"
  obtain a t where a: "arena_alloc ?n s = (a, t)" by fastforce
  show ?thesis
  proof (cases "a = 0")
    case True
    then show ?thesis using buffers_alloc(2) [OF ok a] Some q a by (simp add: redirect_window_def Let_def)
  next
    case False
    define t2 where "t2 = on_memory (Mac_memset a (if px = 8 then 0 else 0xff) (unat ?n)) t"
    define rec where "rec = new_record (dmem t2) (window_ptr w) pixmap p px a"
    define t3 where "t3 = (on_memory (point_port rec) t2)\<lparr>redirected := redirected t2 @ [rec]\<rparr>"
    have h: "held_part (redirect_window w s) = held_part t3"
      using Some q a False by (simp add: redirect_window_def Let_def t2_def [symmetric] rec_def [symmetric] t3_def [symmetric] window_frame)
    have r: "redirected t2 = redirected s" "code_base t2 = code_base s"
      using arena_alloc_keeps(1,2) [of ?n s] a by (simp_all add: t2_def on_memory_def)
    have rec: "buffer_addr rec = a" "buffer_size rec = ?n" by (simp_all add: rec_def new_record_def Let_def)
    have "held t3 = map (\<lambda>r. (buffer_addr r, arena_round (buffer_size r))) (redirected s) @ (a, arena_round ?n) #
        (if code_base s = 0 then [] else [(code_base s, arena_round kCode_Size)])"
      by (simp add: held_def t3_def on_memory_def r rec)
    then have "mset ((a, arena_round ?n) # held s) = mset (held t3)" by (simp add: held_def)
    moreover have "arena_ok ((a, arena_round ?n) # held s) t" using buffers_alloc(1) [OF ok a False] .
    ultimately have "arena_ok (held t3) t" by (rule arena_ok_perm [rotated])
    moreover have "arena_ok (held t3) t = arena_ok (held t3) t3" by (rule arena_ok_cong) (simp_all add: t3_def t2_def on_memory_def)
    ultimately have "buffers_ok t3" by (simp add: buffers_ok_def)
    then show ?thesis using buffers_cong [OF h] by simp
  qed
qed (simp add: redirect_window_def)

lemma buffers_restore: "buffers_ok s \<Longrightarrow> buffers_ok (restore_window w v s)"
proof (cases "find_redirected w s")
  case (Some i)
  assume ok: "buffers_ok s"
  then have i: "i < length (redirected s)" using Some by (auto simp: find_redirected_def dest: find_index_SomeD)
  let ?rec = "redirected s ! i" and ?ys = "take i (redirected s) @ drop (Suc i) (redirected s)"
  define s1 where "s1 = (if v \<and> valid_guest_ptr (pixmap_addr ?rec) s then on_memory (unpoint_port ?rec) s else s)"
  have s1: "held_part s1 = held_part s" "redirected s1 = redirected s" "code_base s1 = code_base s"
    by (simp_all add: s1_def window_frame) (simp_all add: on_memory_def)
  have t: "restore_window w v s = (arena_free (buffer_addr ?rec) (buffer_size ?rec) s1)\<lparr>redirected := ?ys\<rparr>"
    using Some by (simp add: restore_window_def Let_def s1_def [symmetric] arena_free_def s1(2))
  let ?t = "(arena_free (buffer_addr ?rec) (buffer_size ?rec) s1)\<lparr>redirected := ?ys\<rparr>"
  have "redirected s = take i (redirected s) @ ?rec # drop (Suc i) (redirected s)" using i by (rule nth_split)
  then have "mset (held s) = mset ((buffer_addr ?rec, arena_round (buffer_size ?rec)) # held ?t)"
    using s1 by (simp add: held_def arena_free_def) (metis (no_types, lifting) add_mset_add_single mset.simps(2) mset_append mset_map union_mset_add_mset_right list.simps(9) map_append)
  moreover have "arena_ok (held s) s1"
  proof -
    have "held s1 = held s" using s1(1) by (simp add: held_part_def)
    then show ?thesis using ok buffers_cong [OF s1(1)] by (simp add: buffers_ok_def)
  qed
  ultimately have "arena_ok ((buffer_addr ?rec, arena_round (buffer_size ?rec)) # held ?t) s1" by (rule arena_ok_perm [rotated])
  then have "arena_ok (held ?t) (arena_free (buffer_addr ?rec) (buffer_size ?rec) s1)" by (rule arena_free_ok)
  moreover have "arena_ok (held ?t) (arena_free (buffer_addr ?rec) (buffer_size ?rec) s1) = arena_ok (held ?t) ?t"
    by (rule arena_ok_cong) simp_all
  ultimately show ?thesis unfolding t by (simp add: buffers_ok_def)
qed (simp add: restore_window_def)

lemma buffers_guest_code: "buffers_ok s \<Longrightarrow> buffers_ok (snd (ensure_guest_code s))"
proof (cases "code_base s = 0")
  case True
  assume ok: "buffers_ok s"
  obtain a t where a: "arena_alloc kCode_Size s = (a, t)" by fastforce
  show ?thesis
  proof (cases "a = 0")
    case False
    let ?t = "snd (ensure_guest_code s)"
    have k: "redirected t = redirected s" "code_base t = 0" using arena_alloc_keeps(1,2) [of kCode_Size s] a True by simp_all
    have h: "held ?t = map (\<lambda>r. (buffer_addr r, arena_round (buffer_size r))) (redirected s) @ [(a, arena_round kCode_Size)]"
      using a False True k by (simp add: ensure_guest_code_def arena_alloc_exec_def Let_def set_code_addresses_def held_def)
    have "arena_ok ((a, arena_round kCode_Size) # held s) t" using buffers_alloc(1) [OF ok a False] .
    then have "arena_ok (held ?t) t" by (rule arena_ok_perm) (simp only: h, simp add: held_def True)
    moreover have "arena_ok (held ?t) t = arena_ok (held ?t) ?t"
      by (rule arena_ok_cong)
        (use a False True in \<open>simp_all add: ensure_guest_code_def arena_alloc_exec_def Let_def set_code_addresses_def\<close>)
    ultimately show ?thesis by (simp add: buffers_ok_def)
  qed (use buffers_alloc(2) [OF ok a] a True in \<open>simp add: ensure_guest_code_def arena_alloc_exec_def\<close>)
qed (simp add: ensure_guest_code_def)

lemma buffers_filter:
  assumes "buffers_ok s"
  shows "buffers_ok (ensure_gne_filter s)"
proof -
  let ?t = "snd (ensure_guest_code s)"
  have t: "buffers_ok ?t" by (rule buffers_guest_code) fact
  have h: "held_part (install_gne_filter (?t\<lparr>gne_installed := False\<rparr>)) = held_part ?t"
    by (simp add: install_gne_filter_def Let_def window_frame)
  have i: "buffers_ok (install_gne_filter (?t\<lparr>gne_installed := False\<rparr>))" using t buffers_cong [OF h] by simp
  show ?thesis using assms t i by (simp add: ensure_gne_filter_def split_def Let_def)
qed

lemma fold_keeps: "(\<And>x t. g (f x t) = g t) \<Longrightarrow> g (fold f xs s) = g s"
  by (induction xs arbitrary: s) simp_all

lemma buffers_reset:
  assumes "buffers_ok s"
  shows "buffers_ok (ToolboxWindow_Reset s)"
proof -
  define t where "t = fold (\<lambda>w. host_call cb_removed (WindowRemoved (window_ptr w))) (last_snapshot s) s"
  have "held_part t = held_part s" unfolding t_def by (rule fold_keeps) (simp add: window_frame)
  then have f: "MacFrameSize (screen t) = MacFrameSize (screen s)" "arena_base t = arena_base s" by (simp_all add: held_part_def)
  show ?thesis using assms
    by (simp add: ToolboxWindow_Reset_def t_def [symmetric] f buffers_ok_def held_def arena_ok_def arena_bounds_def split: if_splits)
qed

lemma buffers_hooks: "buffers_ok s \<Longrightarrow> buffers_ok (snd (snd (window_call i n r orig s)))"
proof -
  assume ok: "buffers_ok s"
  have u: "held_part (set_in_update flag r s) = held_part s" for flag
  proof (cases "find_redirected (fst (PopInt32 (dmem s) (ToolboxArgs r (dmem s)))) s")
    case (Some j)
    have "map (\<lambda>r. (buffer_addr r, arena_round (buffer_size r))) ((redirected s)[j := (redirected s ! j)\<lparr>in_update := flag\<rparr>]) =
        map (\<lambda>r. (buffer_addr r, arena_round (buffer_size r))) (redirected s)"
    proof (rule nth_equalityI)
      fix k assume "k < length (map (\<lambda>r. (buffer_addr r, arena_round (buffer_size r))) ((redirected s)[j := (redirected s ! j)\<lparr>in_update := flag\<rparr>]))"
      then show "map (\<lambda>r. (buffer_addr r, arena_round (buffer_size r))) ((redirected s)[j := (redirected s ! j)\<lparr>in_update := flag\<rparr>]) ! k =
          map (\<lambda>r. (buffer_addr r, arena_round (buffer_size r))) (redirected s) ! k" by (cases "k = j") simp_all
    qed simp
    then show ?thesis using Some by (simp add: set_in_update_def held_part_def held_def)
  qed (simp add: set_in_update_def)
  have "buffers_ok (snd (snd (Handle_WindowTeardown r s)))"
    unfolding Handle_WindowTeardown_def Let_def
    using ok buffers_restore [OF ok]
    by (auto simp: buffers_cong [where s = "_\<lparr>last_snapshot := _\<rparr>", OF held_simps(6)] buffers_cong [OF held_writes(5)] split: option.splits)
  then show ?thesis using ok buffers_cong [OF u] by (simp add: window_call_def Handle_BeginUpdate_def Handle_EndUpdate_def)
qed

lemma buffers_report: "buffers_ok s \<Longrightarrow> buffers_ok (report_window w s)"
proof -
  assume ok: "buffers_ok s"
  have d: "held_part (schedule_dismiss w (host_call cb_added c t)) = held_part t" for c t
    by (simp add: schedule_dismiss_def window_frame)
  have "buffers_ok (resize_buffer w s)"
    using ok buffers_redirect [OF buffers_restore [OF ok]] by (simp add: resize_buffer_def Let_def split: option.splits)
  then show ?thesis using ok buffers_redirect [OF ok] buffers_cong [OF d] buffers_cong [OF held_writes(5)]
    by (simp add: report_window_def split: option.splits)
qed

lemma buffers_retire: "buffers_ok (snd cs) \<Longrightarrow> buffers_ok (snd (retire_window w cs))"
proof -
  assume ok: "buffers_ok (snd cs)"
  have m: "buffers_ok ((snd cs)\<lparr>missing := f\<rparr>)" for f using ok buffers_cong [OF held_simps(5)] by blast
  have r: "buffers_ok (host_call cb_removed c (restore_window p False ((snd cs)\<lparr>missing := f\<rparr>)))" for c p f
    using buffers_restore [OF m] buffers_cong [OF held_writes(5)] by blast
  show ?thesis unfolding retire_window_def Let_def split_def using m r by simp
qed

lemma fold_invariant: "I s \<Longrightarrow> (\<And>x t. I t \<Longrightarrow> I (f x t)) \<Longrightarrow> I (fold f xs s)"
  by (induction xs arbitrary: s) simp_all

lemma buffers_diff: "buffers_ok s \<Longrightarrow> buffers_ok (diff_windows walked s)"
proof -
  assume ok: "buffers_ok s"
  let ?c = "fold retire_window (last_snapshot s) (walked, s)"
  have "buffers_ok (snd ?c)" by (rule fold_invariant [where I = "\<lambda>cs. buffers_ok (snd cs)"]) (simp_all add: ok buffers_retire)
  then have "buffers_ok (fold report_window (fst ?c) (snd ?c))" by (rule fold_invariant) (rule buffers_report)
  then show ?thesis unfolding diff_windows_def Let_def split_def using buffers_cong [OF held_simps(6)] by blast
qed

lemma buffers_sync: "buffers_ok s \<Longrightarrow> buffers_ok (Toolbox_ProcessPendingWindowSync s)"
proof -
  assume ok: "buffers_ok s"
  let ?s1 = "reassert_vis_rgns (process_input_queue (process_pending_click (ensure_gne_filter s)))"
  have "held_part (snd (Toolbox_SnapshotWindowList (auto_dismiss ?s1))) = held_part (ensure_gne_filter s)" by (simp add: window_frame)
  then have "buffers_ok (snd (Toolbox_SnapshotWindowList (auto_dismiss ?s1)))" using buffers_filter [OF ok] buffers_cong by blast
  then show ?thesis using ok buffers_diff by (simp add: Toolbox_ProcessPendingWindowSync_def Let_def split_def)
qed

section \<open>Input in order\<close>

definition event_calls :: "input_event \<Rightarrow> adb_call_event list" where
  "event_calls ev = (if in_kind ev = InMouseMove then [moved_to ev] else transition ev)"

fun is_move :: "adb_call_event \<Rightarrow> bool" where
  "is_move (MouseMoved x y) = True"
| "is_move e = False"

lemma drained:
  assumes "drain moved q = (calls, rest, delay)"
  shows "concat (map event_calls q) = calls @ concat (map event_calls rest) \<and> length rest \<le> length q \<and>
    (delay = None \<longrightarrow> rest = []) \<and> (\<forall>d. delay = Some d \<longrightarrow> d \<le> 5) \<and> (\<not> moved \<longrightarrow> q \<noteq> [] \<longrightarrow> length rest < length q) \<and>
    (list_all is_move calls \<or> (\<not> moved \<and> (\<exists>ev. calls = transition ev)))"
  using assms
proof (induction moved q arbitrary: calls rest delay rule: drain.induct)
  case (2 moved ev evs)
  show ?case
  proof (cases "in_kind ev = InMouseMove")
    case True
    obtain cs r d where d: "drain True evs = (cs, r, d)" by (metis prod_cases3)
    show ?thesis using 2(1) [OF True d] 2(2) True d by (auto simp: event_calls_def moved_to_def)
  next
    case False
    then show ?thesis using 2(2) by (cases moved) (auto simp: event_calls_def)
  qed
qed simp

definition input_ticks :: "nat \<Rightarrow> window_state \<Rightarrow> window_state" where
  "input_ticks n s = (process_input_queue ^^ n) s"

lemma input_ticks_simps: "input_ticks 0 s = s" "input_ticks (Suc n) s = input_ticks n (process_input_queue s)"
  by (simp_all add: input_ticks_def funpow_swap1)

lemma input_ticks_add: "input_ticks (a + b) s = input_ticks b (input_ticks a s)"
  by (induction a arbitrary: s) (simp_all add: input_ticks_simps)

lemma tick_waits: "input_delay s = d \<Longrightarrow> input_queue (input_ticks d s) = input_queue s \<and> adb_calls (input_ticks d s) = adb_calls s \<and> input_delay (input_ticks d s) = 0"
proof (induction d arbitrary: s)
  case (Suc d)
  then show ?case using Suc.IH [of "process_input_queue s"] by (simp add: input_ticks_simps process_input_queue_def)
qed (simp add: input_ticks_simps)

lemma input_arrives:
  "\<exists>n \<le> input_delay s + 6 * length (input_queue s).
     input_queue (input_ticks n s) = [] \<and> adb_calls (input_ticks n s) = adb_calls s @ concat (map event_calls (input_queue s))"
proof (induction "length (input_queue s)" arbitrary: s rule: less_induct)
  case less
  show ?case
  proof (cases "input_queue s = []")
    case True
    then show ?thesis by (intro exI [of _ 0]) (simp add: input_ticks_simps)
  next
    case False
    let ?t = "input_ticks (input_delay s) s"
    note w = tick_waits [OF refl, of s]
    obtain cs r d where d: "drain False (input_queue s) = (cs, r, d)" by (metis prod_cases3)
    note f = drained [OF d]
    let ?u = "process_input_queue ?t"
    have u: "input_queue ?u = r" "adb_calls ?u = adb_calls s @ cs" "input_delay ?u \<le> 5"
      using w d f by (auto simp: process_input_queue_def split: option.split)
    have "length (input_queue ?u) < length (input_queue s)" using f False u(1) by simp
    from less [OF this] obtain n where n: "n \<le> input_delay ?u + 6 * length r" "input_queue (input_ticks n ?u) = []"
      "adb_calls (input_ticks n ?u) = adb_calls ?u @ concat (map event_calls r)" unfolding u(1) by blast
    have "input_ticks (input_delay s + Suc n) s = input_ticks n ?u" by (simp only: input_ticks_add input_ticks_simps)
    moreover have "input_delay s + Suc n \<le> input_delay s + 6 * length (input_queue s)"
      using n(1) u(3) f False by simp
    ultimately show ?thesis using n(2,3) u(2) f by (intro exI [of _ "input_delay s + Suc n"]) simp
  qed
qed

section \<open>The windows the host knows\<close>

fun seen :: "host_call \<Rightarrow> u32 set \<Rightarrow> u32 set" where
  "seen (WindowAdded w) ps = insert (window_ptr w) ps"
| "seen (WindowRemoved p) ps = ps - {p}"
| "seen c ps = ps"

definition host_windows :: "host_call list \<Rightarrow> u32 set" where
  "host_windows cs = fold seen cs {}"

lemma host_windows_snoc: "host_windows (cs @ [c]) = seen c (host_windows cs)"
  by (simp add: host_windows_def)

definition listening :: "window_state \<Rightarrow> bool" where
  "listening s \<longleftrightarrow> (\<exists>cb. callbacks s = Some cb \<and> cb_added cb \<and> cb_removed cb)"

abbreviation pointers :: "window_snapshot list \<Rightarrow> u32 list" where
  "pointers ws \<equiv> map window_ptr ws"

definition mirrored :: "window_state \<Rightarrow> bool" where
  "mirrored s \<longleftrightarrow> listening s \<and> distinct (pointers (last_snapshot s)) \<and> host_windows (host_calls s) = set (pointers (last_snapshot s))"

definition host_part :: "window_state \<Rightarrow> window_callbacks option \<times> host_call list \<times> window_snapshot list" where
  "host_part s = (callbacks s, host_calls s, last_snapshot s)"

lemma host_part_writes:
  "host_part (on_memory f s) = host_part s" "host_part (set_rect_region h r s) = host_part s"
  "host_part (queue_window_op t p a b s) = host_part s" "host_part (s\<lparr>redirected := rs\<rparr>) = host_part s"
  "host_part (s\<lparr>missing := m\<rparr>) = host_part s" "host_part (arena_free x n s) = host_part s"
  by (simp_all add: host_part_def on_memory_def set_rect_region_def queue_window_op_def arena_free_def split: option.split)

lemma host_part_redirect: "host_part (redirect_window w s) = host_part s"
proof (cases "redirectable (window_ptr w) s")
  case (Some q)
  obtain pixmap p px where q: "q = (pixmap, p, px)" by (metis prod_cases3)
  have "host_part (snd (arena_alloc n s)) = host_part s" for n by (simp add: host_part_def arena_alloc_keeps)
  then show ?thesis using Some q by (simp add: redirect_window_def Let_def split_def host_part_writes)
qed (simp add: redirect_window_def)

lemma host_part_restore: "host_part (restore_window p v s) = host_part s"
  by (simp add: restore_window_def Let_def host_part_writes split: option.split)

lemma host_part_resize: "host_part (resize_buffer w s) = host_part s"
  by (simp add: resize_buffer_def Let_def host_part_redirect host_part_restore split: option.split)

lemma host_partD: "host_part s = host_part t \<Longrightarrow> callbacks s = callbacks t \<and> host_calls s = host_calls t \<and> last_snapshot s = last_snapshot t \<and> listening s = listening t"
  by (simp add: host_part_def listening_def)

lemma find_window_None: "find_window ws p = None \<longleftrightarrow> p \<notin> set (pointers ws)"
  unfolding find_window_def find_index_def find_None_iff by (simp add: in_set_conv_nth image_iff) (metis nth_mem in_set_conv_nth)

lemma told_removed:
  "listening s \<Longrightarrow> host_calls (host_call cb_removed c s) = host_calls s @ [c] \<and> listening (host_call cb_removed c s) \<and> last_snapshot (host_call cb_removed c s) = last_snapshot s"
  "listening s \<Longrightarrow> host_calls (host_call cb_added c s) = host_calls s @ [c] \<and> listening (host_call cb_added c s) \<and> last_snapshot (host_call cb_added c s) = last_snapshot s"
  by (auto simp: listening_def host_call_def)

lemma retire_step:
  assumes "listening s" "distinct (pointers current)" "retire_window w (current, s) = (current', s')"
  shows "listening s' \<and> last_snapshot s' = last_snapshot s \<and> distinct (pointers current') \<and>
    (if window_ptr w \<in> set (pointers current') then host_windows (host_calls s') = host_windows (host_calls s)
     else host_windows (host_calls s') = host_windows (host_calls s) - {window_ptr w}) \<and>
    (current' = current \<or> (current' = current @ [w] \<and> window_ptr w \<notin> set (pointers current)))"
proof -
  let ?p = "window_ptr w"
  define s1 where "s1 = s\<lparr>missing := (missing s)(?p := missing s ?p + 1)\<rparr>"
  define s2 where "s2 = restore_window ?p False (s1\<lparr>missing := (missing s1)(?p := 0)\<rparr>)"
  have h: "host_part s2 = host_part s" by (simp add: s2_def s1_def host_part_restore host_part_writes)
  have m: "listening (s\<lparr>missing := f\<rparr>) = listening s" for f by (simp add: listening_def)
  consider "?p \<in> set (pointers current)" | "?p \<notin> set (pointers current)" "missing s1 ?p < kMissingWalksToRetire"
    | "?p \<notin> set (pointers current)" "\<not> missing s1 ?p < kMissingWalksToRetire" by blast
  then show ?thesis
  proof cases
    case 1
    then have "current' = current" "s' = s\<lparr>missing := (missing s)(?p := 0)\<rparr>"
      using assms(3) find_window_None [of current ?p] by (auto simp: retire_window_def Let_def)
    then show ?thesis using 1 assms(1,2) m by simp
  next
    case 2
    then have "current' = current @ [w]" "s' = s1"
      using assms(3) find_window_None [of current ?p] by (auto simp: retire_window_def Let_def s1_def)
    then show ?thesis using 2 assms(1,2) m by (simp add: s1_def)
  next
    case 3
    then have e: "current' = current" "s' = host_call cb_removed (WindowRemoved ?p) s2"
      using assms(3) find_window_None [of current ?p] by (auto simp: retire_window_def Let_def s1_def s2_def)
    then show ?thesis using 3 assms(1,2) host_partD [OF h] told_removed(1) [of s2 "WindowRemoved ?p"] by (simp add: host_windows_snoc)
  qed
qed

lemma diff_steps: "(p \<in> D \<longleftrightarrow> p \<in> E) \<Longrightarrow> H - ({p} - D) - (olds - E) = H - (insert p olds - E)"
  by blast

lemma retire_all:
  assumes "listening s" "distinct (pointers current)" "distinct (pointers olds)" "fold retire_window olds (current, s) = (current', s')"
  shows "listening s' \<and> last_snapshot s' = last_snapshot s \<and> distinct (pointers current') \<and>
    set (pointers current) \<subseteq> set (pointers current') \<and> set (pointers current') \<subseteq> set (pointers current) \<union> set (pointers olds) \<and>
    host_windows (host_calls s') = host_windows (host_calls s) - (set (pointers olds) - set (pointers current'))"
  using assms
proof (induction olds arbitrary: current s)
  case (Cons w olds)
  obtain c t where t: "retire_window w (current, s) = (c, t)" by fastforce
  note st = retire_step [OF Cons.prems(1,2) t]
  have f: "fold retire_window olds (c, t) = (current', s')" using Cons.prems(4) t by simp
  have d: "distinct (pointers olds)" "window_ptr w \<notin> set (pointers olds)" using Cons.prems(3) by auto
  have "listening t" "distinct (pointers c)" using st by blast+
  note IH = Cons.IH [OF this d(1) f]
  have c: "set (pointers current) \<subseteq> set (pointers c)" "set (pointers c) \<subseteq> insert (window_ptr w) (set (pointers current))"
    using st by auto
  have "host_windows (host_calls t) = host_windows (host_calls s) - ({window_ptr w} - set (pointers c))"
  proof (cases "window_ptr w \<in> set (pointers c)")
    case True
    then have "{window_ptr w} - set (pointers c) = {}" by blast
    then show ?thesis using st True by (simp only: if_True Diff_empty)
  next
    case False
    then have "{window_ptr w} - set (pointers c) = {window_ptr w}" by blast
    then show ?thesis using st False by (simp only: if_False)
  qed
  note told = this
  have ih: "listening s'" "last_snapshot s' = last_snapshot t" "distinct (pointers current')" "set (pointers c) \<subseteq> set (pointers current')"
    "set (pointers current') \<subseteq> set (pointers c) \<union> set (pointers olds)"
    "host_windows (host_calls s') = host_windows (host_calls t) - (set (pointers olds) - set (pointers current'))"
    using IH by simp_all
  have w: "window_ptr w \<in> set (pointers c) \<longleftrightarrow> window_ptr w \<in> set (pointers current')" using ih(4,5) d(2) by blast
  have "host_windows (host_calls s') = host_windows (host_calls s) - (set (pointers (w # olds)) - set (pointers current'))"
    unfolding ih(6) told using w by (simp only: list.map list.set diff_steps)
  moreover have "set (pointers current') \<subseteq> set (pointers current) \<union> set (pointers (w # olds))" using ih(5) c(2) by auto
  moreover have "set (pointers current) \<subseteq> set (pointers current')" using c(1) ih(4) by (rule subset_trans)
  moreover have "last_snapshot s' = last_snapshot s" using st ih(2) by simp
  ultimately show ?case using ih(1,3) by (intro conjI)
qed simp

lemma report_step:
  assumes "listening s"
  shows "listening (report_window w s) \<and> last_snapshot (report_window w s) = last_snapshot s \<and>
    host_windows (host_calls (report_window w s)) = host_windows (host_calls s) \<union> ({window_ptr w} - set (pointers (last_snapshot s)))"
proof (cases "find_window (last_snapshot s) (window_ptr w)")
  case None
  have h: "host_part (redirect_window w s) = host_part s" by (rule host_part_redirect)
  have d: "host_part (schedule_dismiss w t) = host_part t" for t by (simp add: schedule_dismiss_def host_part_def)
  let ?t = "host_call cb_added (WindowAdded w) (redirect_window w s)"
  have "report_window w s = schedule_dismiss w ?t" using None by (simp add: report_window_def)
  then show ?thesis using host_partD [OF h] host_partD [OF d [of ?t]] told_removed(2) [of "redirect_window w s" "WindowAdded w"] assms None
    by (auto simp: host_windows_snoc find_window_None)
next
  case (Some i)
  have h: "host_part (resize_buffer w s) = host_part s" by (rule host_part_resize)
  have c: "listening (host_call cb_changed (WindowChanged w) t) = listening t \<and> last_snapshot (host_call cb_changed (WindowChanged w) t) = last_snapshot t \<and>
      host_windows (host_calls (host_call cb_changed (WindowChanged w) t)) = host_windows (host_calls t)" for t
    by (auto simp: host_call_def listening_def host_windows_snoc split: option.split)
  have "window_ptr w \<in> set (pointers (last_snapshot s))" using Some find_window_None [of "last_snapshot s" "window_ptr w"] by auto
  then show ?thesis using Some host_partD [OF h] assms c [of "resize_buffer w s"] by (auto simp: report_window_def)
qed

lemma report_all:
  assumes "listening s"
  shows "listening (fold report_window ws s) \<and> last_snapshot (fold report_window ws s) = last_snapshot s \<and>
    host_windows (host_calls (fold report_window ws s)) = host_windows (host_calls s) \<union> (set (pointers ws) - set (pointers (last_snapshot s)))"
  using assms
proof (induction ws arbitrary: s)
  case (Cons w ws)
  note st = report_step [OF Cons.prems, of w]
  then show ?case using Cons.IH [of "report_window w s"] by auto
qed simp

lemma mirrored_diff:
  assumes "mirrored s" "distinct (pointers walked)"
  shows "mirrored (diff_windows walked s)"
    "set (pointers walked) \<subseteq> host_windows (host_calls (diff_windows walked s))"
    "host_windows (host_calls (diff_windows walked s)) \<subseteq> set (pointers walked) \<union> host_windows (host_calls s)"
proof -
  obtain c t where t: "fold retire_window (last_snapshot s) (walked, s) = (c, t)" by fastforce
  have m: "listening s" "distinct (pointers (last_snapshot s))" "host_windows (host_calls s) = set (pointers (last_snapshot s))"
    using assms(1) by (simp_all add: mirrored_def)
  note r = retire_all [OF m(1) assms(2) m(2) t]
  have l: "listening t" using r by blast
  note a = report_all [OF l, of c]
  have h: "host_windows (host_calls (fold report_window c t)) = set (pointers c)" using r a m(3) by auto
  then show "mirrored (diff_windows walked s)" using r a by (simp add: diff_windows_def t mirrored_def listening_def)
  have d: "host_windows (host_calls (diff_windows walked s)) = set (pointers c)" using h by (simp add: diff_windows_def t)
  show "set (pointers walked) \<subseteq> host_windows (host_calls (diff_windows walked s))"
    "host_windows (host_calls (diff_windows walked s)) \<subseteq> set (pointers walked) \<union> host_windows (host_calls s)"
    unfolding d m(3) using r by simp_all
qed

text \<open>
  The records a walk visits. A chain that leads back to a record gives windows twice; otherwise a walk has every window once.\<close>

fun window_chain :: "nat \<Rightarrow> u32 \<Rightarrow> window_state \<Rightarrow> u32 list" where
  "window_chain 0 win s = []"
| "window_chain (Suc n) win s =
     (if valid_guest_ptr win s then win # window_chain n (ReadMacInt32 (dmem s) (win + kWin_NextWindow)) s else [])"

definition guest_part :: "window_state \<Rightarrow> mac \<times> u32 \<times> (u32 \<Rightarrow> nat) \<times> window_callbacks option \<times> host_call list \<times> window_snapshot list" where
  "guest_part s = (dmem s, RAMSize s, missing s, host_part s)"

lemma chain_cong: "guest_part s = guest_part t \<Longrightarrow> window_chain n win s = window_chain n win t"
  by (induction n arbitrary: win) (simp_all add: guest_part_def valid_guest_ptr_def)

lemma decoded_ptr: "decode_window win layer z s = Some w \<Longrightarrow> window_ptr w = win"
  by (auto simp: decode_window_def Let_def)

lemma adopted:
  assumes "adopt_window win layer z s = (ws, t)"
  shows "guest_part t = guest_part s" "ws = [] \<or> pointers ws = [win]"
  using assms by (auto simp: adopt_window_def window_is_desktop_def guest_part_def host_part_def dest: decoded_ptr split: option.splits if_splits)

lemma walk_chain:
  assumes "walk n win layer z s = (ws, t)"
  shows "guest_part t = guest_part s \<and> set (pointers ws) \<subseteq> set (window_chain n win s) \<and>
    (distinct (window_chain n win s) \<longrightarrow> distinct (pointers ws))"
  using assms
proof (induction n arbitrary: win layer z s ws t)
  case (Suc n)
  let ?next = "ReadMacInt32 (dmem s) (win + kWin_NextWindow)"
  show ?case
  proof (cases "valid_guest_ptr win s \<and> \<not> window_is_layer (dmem s) win \<and> sint (ucast (ReadMacInt16 (dmem s) (win + kWin_WindowKind)) :: u16) \<ge> 0")
    case True
    obtain as s1 where a: "adopt_window win layer z s = (as, s1)" by fastforce
    obtain rest s2 where r: "walk n ?next layer (z + 1) s1 = (rest, s2)" by fastforce
    have e: "ws = as @ rest" "t = s2" using Suc.prems True a r by (simp_all add: Let_def)
    note ad = adopted [OF a] and ih = Suc.IH [OF r]
    have c: "window_chain n ?next s1 = window_chain n ?next s" by (rule chain_cong) (rule ad(1))
    show ?thesis using ad ih True unfolding e c by auto
  next
    case False
    then show ?thesis using Suc.prems Suc.IH [of ?next win z s ws t] Suc.IH [of ?next layer z s ws t] by (auto simp: Let_def split: if_splits)
  qed
qed simp

lemma walked_once:
  assumes "Toolbox_SnapshotWindowList s = (walked, t)" "distinct (window_chain kMaxWindows (ReadMacInt32 (dmem s) LM_WindowList) s)"
  shows "distinct (pointers walked)" "host_part t = host_part s"
  using walk_chain [OF assms(1) [unfolded Toolbox_SnapshotWindowList_def]] assms(2) by (simp_all add: guest_part_def)

lemma mirrored_cong: "host_part s = host_part t \<Longrightarrow> mirrored s = mirrored t"
  by (simp add: mirrored_def host_part_def listening_def)

text \<open>A window that such a chain gave twice is retired once and then kept, though the host was told that it is gone.\<close>

lemma repeated_window_outlives_its_removal:
  assumes "listening s" "last_snapshot s = [w, w]" "missing s (window_ptr w) = 599"
  shows "host_calls (diff_windows [] s) = host_calls s @ [WindowRemoved (window_ptr w)] \<and> last_snapshot (diff_windows [] s) = [w]"
proof -
  let ?p = "window_ptr w"
  define u where "u = host_call cb_removed (WindowRemoved ?p) (restore_window ?p False (s\<lparr>missing := (missing s)(?p := 0)\<rparr>))"
  have m: "missing u ?p = 0"
    by (simp add: u_def host_call_def restore_window_def on_memory_def arena_free_def Let_def split: option.split)
  have h: "host_part (restore_window ?p False (s\<lparr>missing := (missing s)(?p := 0)\<rparr>)) = host_part s"
    by (simp add: host_part_restore host_part_writes)
  have u: "host_calls u = host_calls s @ [WindowRemoved ?p]" "last_snapshot u = [w, w]"
    using host_partD [OF h] told_removed(1) [of "restore_window ?p False (s\<lparr>missing := (missing s)(?p := 0)\<rparr>)" "WindowRemoved ?p"] assms(1,2)
    by (simp_all add: u_def)
  have r: "retire_window w ([], s) = ([], u)" "retire_window w ([], u) = ([w], u\<lparr>missing := (missing u)(?p := 1)\<rparr>)"
    using assms(3) m by (simp_all add: retire_window_def Let_def find_window_def find_index_def kMissingWalksToRetire_def u_def)
  have "report_window w (u\<lparr>missing := (missing u)(?p := 1)\<rparr>) = u\<lparr>missing := (missing u)(?p := 1)\<rparr>"
    using u(2) by (simp add: report_window_def find_window_def find_index_def window_changed_def)
  then show ?thesis using r u by (simp add: diff_windows_def assms(2))
qed

lemma mirrored_teardown: "mirrored s \<Longrightarrow> mirrored (snd (snd (Handle_WindowTeardown r s)))"
proof -
  assume m: "mirrored s"
  let ?p = "fst (PopInt32 (dmem s) (ToolboxArgs r (dmem s)))"
  define t where "t = host_call cb_removed (WindowRemoved ?p) (restore_window ?p True s)"
  have h: "host_part (restore_window ?p True s) = host_part s" by (rule host_part_restore)
  have t: "listening t" "last_snapshot t = last_snapshot s" "host_windows (host_calls t) = set (pointers (last_snapshot s)) - {?p}"
    using m host_partD [OF h] told_removed(1) [of "restore_window ?p True s" "WindowRemoved ?p"]
    by (simp_all add: t_def mirrored_def host_windows_snoc)
  show ?thesis
  proof (cases "valid_guest_ptr ?p s")
    case v: True
    show ?thesis
    proof (cases "find_window (last_snapshot t) ?p")
      case None
      then show ?thesis using v t m find_window_None [of "last_snapshot t" ?p]
        by (auto simp: Handle_WindowTeardown_def Let_def t_def [symmetric] mirrored_def)
    next
      case (Some i)
      let ?ws = "take i (last_snapshot t) @ drop (Suc i) (last_snapshot t)"
      have i: "i < length (last_snapshot s)" "window_ptr (last_snapshot s ! i) = ?p"
        using Some t(2) by (auto simp: find_window_def dest: find_index_SomeD)
      have w: "last_snapshot s = take i (last_snapshot s) @ last_snapshot s ! i # drop (Suc i) (last_snapshot s)" by (rule id_take_nth_drop) (rule i)
      have d: "distinct (pointers (take i (last_snapshot s) @ last_snapshot s ! i # drop (Suc i) (last_snapshot s)))"
        using m w by (simp add: mirrored_def)
      have "set (pointers ?ws) = set (pointers (last_snapshot s)) - {?p}"
        using d i(2) arg_cong [OF w, of "\<lambda>ws. set (pointers ws)"] unfolding t(2) by auto
      moreover have "distinct (pointers ?ws)" using d unfolding t(2) by simp
      ultimately have "mirrored (t\<lparr>last_snapshot := ?ws\<rparr>)" using t by (simp add: mirrored_def listening_def)
      then show ?thesis using v Some by (simp add: Handle_WindowTeardown_def Let_def t_def [symmetric])
    qed
  qed (use m in \<open>simp add: Handle_WindowTeardown_def Let_def\<close>)
qed

lemma mirrored_reset: "mirrored s \<Longrightarrow> mirrored (ToolboxWindow_Reset s) \<and> host_windows (host_calls (ToolboxWindow_Reset s)) = {}"
proof -
  assume m: "mirrored s"
  have f: "listening t \<Longrightarrow> listening (fold (\<lambda>w. host_call cb_removed (WindowRemoved (window_ptr w))) ws t) \<and>
      host_windows (host_calls (fold (\<lambda>w. host_call cb_removed (WindowRemoved (window_ptr w))) ws t)) = host_windows (host_calls t) - set (pointers ws)" for ws t
  proof (induction ws arbitrary: t)
    case (Cons w ws)
    then show ?case using told_removed(1) [of t "WindowRemoved (window_ptr w)"] by (auto simp: host_windows_snoc)
  qed simp
  show ?thesis using m f [of s "last_snapshot s"] by (simp add: mirrored_def ToolboxWindow_Reset_def listening_def)
qed

end
