(* ===== verification/Window_Routine.thy ===== *)
theory Window_Routine
  imports Window_Facts
begin

section \<open>What the assembled routine does\<close>

text \<open>
  A decoder for the 68k instructions the bridge writes, and a machine that runs them: a stack of
  words (its top first, the stack pointer at \<open>sp\<close> when it is empty), the low word of D0, the
  traps called and the words stored. A trap takes its parameters off the stack, as many words as
  its declaration in \<open>toolbox_window.h\<close> has (\<open>param_words\<close>; for the Display Manager the high
  byte of D0); it is recorded with the whole stack. What the guest's memory holds while the routine
  runs is unknown: \<open>look n a\<close> is the long at \<open>a\<close> after \<open>n\<close> traps.
\<close>

datatype insn =
    PushLong u32 | PushWord u16 | PushAddress u32 | PushFrom u32 | ClearWord | ClearLong | LoadD0 u16 | PopD0
  | PushSP | DropRect | StoreWord u16 u32 | Rts | Trap u16

fun encode :: "insn \<Rightarrow> u8 list" where
  "encode (PushLong v) = be16 0x2f3c @ be32 v"
| "encode (PushWord v) = be16 0x3f3c @ be16 v"
| "encode (PushAddress a) = be16 0x4879 @ be32 a"
| "encode (PushFrom a) = be16 0x2f39 @ be32 a"
| "encode ClearWord = be16 0x4267"
| "encode ClearLong = be16 0x42a7"
| "encode (LoadD0 v) = be16 0x303c @ be16 v"
| "encode PopD0 = be16 0x301f"
| "encode PushSP = be16 0x4857"
| "encode DropRect = be16 0x508f"
| "encode (StoreWord v a) = be16 0x33fc @ be16 v @ be32 a"
| "encode Rts = be16 0x4e75"
| "encode (Trap t) = be16 t"

definition decode :: "mac \<Rightarrow> u32 \<Rightarrow> insn option" where
  "decode m pc =
     (let w = ReadMacInt16 m pc; v = ucast (ReadMacInt16 m (pc + 2)); l = ReadMacInt32 m (pc + 2)
      in if w = 0x2f3c then Some (PushLong l) else if w = 0x3f3c then Some (PushWord v)
         else if w = 0x4879 then Some (PushAddress l) else if w = 0x2f39 then Some (PushFrom l)
         else if w = 0x4267 then Some ClearWord else if w = 0x42a7 then Some ClearLong
         else if w = 0x303c then Some (LoadD0 v) else if w = 0x301f then Some PopD0
         else if w = 0x4857 then Some PushSP else if w = 0x508f then Some DropRect
         else if w = 0x33fc then Some (StoreWord v (ReadMacInt32 m (pc + 4)))
         else if w = 0x4e75 then Some Rts
         else if w AND 0xf000 = 0xa000 then Some (Trap (ucast w)) else None)"

fun is_code :: "insn \<Rightarrow> bool" where
  "is_code (Trap t) \<longleftrightarrow> t AND 0xf000 = 0xa000"
| "is_code i \<longleftrightarrow> True"

subsection \<open>The machine\<close>

type_synonym trap_call = "u16 \<times> u16 \<times> u16 list"

record stack_cpu =
  stk :: "u16 list"
  low_d0 :: u16
  calls :: "trap_call list"
  word_stores :: "(u32 \<times> u16) list"

definition words :: "u32 \<Rightarrow> u16 list" where
  "words l = [ucast (drop_bit 16 l), ucast l]"

definition param_words :: "u16 \<Rightarrow> u16 \<Rightarrow> nat" where
  "param_words t selector =
     (if t = kTrap_DisplayDispatch then unat (drop_bit 8 selector)
      else if t = kTrap_SizeWindow \<or> t = kTrap_MoveWindow then 5
      else if t = kTrap_HiliteWindow then 3
      else 2)"

definition push :: "u16 list \<Rightarrow> stack_cpu \<Rightarrow> stack_cpu" where
  "push ws c = c\<lparr>stk := ws @ stk c\<rparr>"

definition stack_pointer :: "u32 \<Rightarrow> stack_cpu \<Rightarrow> u32" where
  "stack_pointer sp c = sp - of_nat (2 * length (stk c))"

type_synonym guest_memory = "nat \<Rightarrow> u32 \<Rightarrow> u32"

definition drop_words :: "nat \<Rightarrow> stack_cpu \<Rightarrow> stack_cpu option" where
  "drop_words n c = (if length (stk c) < n then None else Some (c\<lparr>stk := drop n (stk c)\<rparr>))"

definition call_trap :: "u16 \<Rightarrow> stack_cpu \<Rightarrow> stack_cpu option" where
  "call_trap t c =
     (let selector = (if t = kTrap_DisplayDispatch then low_d0 c else 0)
      in drop_words (param_words t selector) (c\<lparr>calls := calls c @ [(t, selector, stk c)]\<rparr>))"

fun exec :: "guest_memory \<Rightarrow> u32 \<Rightarrow> insn \<Rightarrow> stack_cpu \<Rightarrow> stack_cpu option" where
  "exec look sp (PushLong v) c = Some (push (words v) c)"
| "exec look sp (PushWord v) c = Some (push [v] c)"
| "exec look sp (PushAddress a) c = Some (push (words a) c)"
| "exec look sp (PushFrom a) c = Some (push (words (look (length (calls c)) a)) c)"
| "exec look sp ClearWord c = Some (push [0] c)"
| "exec look sp ClearLong c = Some (push [0, 0] c)"
| "exec look sp (LoadD0 v) c = Some (c\<lparr>low_d0 := v\<rparr>)"
| "exec look sp PopD0 c = (case stk c of [] \<Rightarrow> None | w # ws \<Rightarrow> Some (c\<lparr>low_d0 := w, stk := ws\<rparr>))"
| "exec look sp PushSP c = Some (push (words (stack_pointer sp c)) c)"
| "exec look sp DropRect c = drop_words 4 c"
| "exec look sp (StoreWord v a) c = Some (c\<lparr>word_stores := word_stores c @ [(a, v)]\<rparr>)"
| "exec look sp Rts c = Some c"
| "exec look sp (Trap t) c = call_trap t c"

fun run :: "nat \<Rightarrow> guest_memory \<Rightarrow> u32 \<Rightarrow> mac \<Rightarrow> u32 \<Rightarrow> stack_cpu \<Rightarrow> stack_cpu option" where
  "run 0 look sp m pc c = None"
| "run (Suc n) look sp m pc c =
     (case decode m pc of
        None \<Rightarrow> None
      | Some i \<Rightarrow>
          if i = Rts then Some c
          else (case exec look sp i c of None \<Rightarrow> None | Some c' \<Rightarrow> run n look sp m (pc + of_nat (length (encode i))) c'))"

fun exec_list :: "guest_memory \<Rightarrow> u32 \<Rightarrow> insn list \<Rightarrow> stack_cpu \<Rightarrow> stack_cpu option" where
  "exec_list look sp [] c = Some c"
| "exec_list look sp (i # is) c = (case exec look sp i c of None \<Rightarrow> None | Some c' \<Rightarrow> exec_list look sp is c')"

lemma exec_list_append:
  "exec_list look sp (is @ js) c = (case exec_list look sp is c of None \<Rightarrow> None | Some c' \<Rightarrow> exec_list look sp js c')"
  by (induction "is" arbitrary: c) (auto split: option.splits)

lemma length_encode: "2 \<le> length (encode i)" "length (encode i) \<le> 8"
  by (cases i; simp)+

subsection \<open>Decoding what was encoded\<close>

lemma begins_read16:
  assumes "begins m pc (be16 w @ bs)" "plain m pc"
  shows "ReadMacInt16 m pc = ucast w"
  using begins_nth [OF assms(1), of 0] begins_nth [OF assms(1), of 1] assms(2)
  by (simp add: mac_frame be16_def of_be16_be16)

lemma begins_read32:
  assumes "begins m pc (be32 l @ bs)" "plain m pc"
  shows "ReadMacInt32 m pc = l"
  using begins_nth [OF assms(1), of 0] begins_nth [OF assms(1), of 1] begins_nth [OF assms(1), of 2] begins_nth [OF assms(1), of 3] assms(2)
  by (simp add: mac_frame be32_def of_be32_be32)

lemma ucast_ucast16: "(ucast (ucast (x :: u16) :: u32) :: u16) = x"
  by (rule bit_word_eqI) (simp add: bit_simps)

lemma decode_encode:
  assumes "begins m pc (encode i @ bs)" "is_code i" "plain_block m pc 8"
  shows "decode m pc = Some i"
proof -
  have p: "plain m pc" "plain m (pc + 2)" "plain m (pc + 4)"
    using plain_blockD [OF assms(3), of 0] plain_blockD [OF assms(3), of 2] plain_blockD [OF assms(3), of 4] by simp_all
  show ?thesis
  proof (cases i)
    case (Trap t)
    have t: "t AND 0xf000 = 0xa000" using assms(2) Trap by simp
    have w: "ReadMacInt16 m pc = ucast t" using begins_read16 [OF _ p(1), of t bs] assms(1) Trap by simp
    have u: "(ucast t :: u32) AND 0xf000 = 0xa000"
    proof -
      have "(ucast t :: u32) AND 0xf000 = ucast (t AND 0xf000)" by (rule bit_word_eqI) (auto simp: bit_simps dest: bit_imp_le_length)
      then show ?thesis by (simp add: t)
    qed
    have "(ucast t :: u32) \<noteq> c" if "c AND 0xf000 \<noteq> 0xa000" for c using u that by auto
    then show ?thesis using u w Trap by (simp add: decode_def ucast_ucast16)
  qed (use assms(1) p begins_read16 [of m pc _ "[]"] begins_read16 [of m "pc + 2" _ "[]"] begins_read32 [of m "pc + 2" _ "[]"]
      begins_read32 [of m "pc + 4" _ "[]"] in \<open>auto simp: decode_def begins_append ucast_ucast16 add.commute [of 4 pc]\<close>)
qed

subsection \<open>Running what was written\<close>

abbreviation code :: "insn list \<Rightarrow> u8 list" where
  "code is \<equiv> concat (map encode is)"

lemma plain_block_shift: "plain_block m a n \<Longrightarrow> i + k \<le> n \<Longrightarrow> plain_block m (a + of_nat i) k"
  unfolding plain_block_def
proof (intro allI impI)
  fix j assume "\<forall>i < n. plain m (a + of_nat i)" "i + k \<le> n" "j < k"
  then have "plain m (a + of_nat (i + j))" by (metis add_less_cancel_left order_less_le_trans)
  then show "plain m (a + of_nat i + of_nat j)" by (simp add: add.assoc)
qed

lemma run_code:
  assumes "begins m pc (code is @ encode Rts @ bs)" "plain_block m pc (length (code is) + 10)" "list_all is_code is"
    "Rts \<notin> set is" "exec_list look sp is c = Some c'" "length is < n"
  shows "run n look sp m pc c = Some c'"
  using assms
proof (induction "is" arbitrary: n pc c)
  case Nil
  then obtain k where n: "n = Suc k" by (cases n) auto
  have "decode m pc = Some Rts" by (rule decode_encode [of m pc Rts bs]) (use Nil plain_block_shift [of m pc 10 0 8] in auto)
  then show ?case using Nil n by simp
next
  case (Cons i js)
  obtain k where n: "n = Suc k" using Cons.prems(6) by (cases n) auto
  obtain d where d: "exec look sp i c = Some d" "exec_list look sp js d = Some c'"
    using Cons.prems(5) by (auto split: option.splits)
  have b: "begins m pc (encode i @ code js @ encode Rts @ bs)" using Cons.prems(1) by (simp add: append_assoc)
  have "decode m pc = Some i"
    by (rule decode_encode [OF b]) (use Cons.prems(2,3) plain_block_shift [of m pc _ 0 8] in auto)
  moreover have "run k look sp m (pc + of_nat (length (encode i))) d = Some c'"
  proof (rule Cons.IH [OF _ _ _ _ d(2)])
    show "begins m (pc + of_nat (length (encode i))) (code js @ encode Rts @ bs)" using b by (simp only: begins_append)
    show "plain_block m (pc + of_nat (length (encode i))) (length (code js) + 10)"
      by (rule plain_block_shift [OF Cons.prems(2)]) simp
  qed (use Cons.prems n in auto)
  ultimately show ?case using n d(1) Cons.prems(4) by auto
qed

subsection \<open>What the bridge writes\<close>

definition written :: "u32 \<Rightarrow> insn list \<Rightarrow> code_at \<Rightarrow> bool" where
  "written start is c \<longleftrightarrow> begins (snd c) start (code is) \<and> fst c = start + of_nat (length (code is)) \<and> plain_block (snd c) start 180"

lemma written_plain: "written start is c \<Longrightarrow> length (code is) + k < 180 \<Longrightarrow> plain (snd c) (fst c + of_nat k)"
  using plain_blockD [of "snd c" start 180 "length (code is) + k"] by (simp add: written_def ac_simps)

lemma written_w:
  assumes "written start is c" "encode i = be16 (ucast w)" "length (code is) + 2 \<le> 180"
  shows "written start (is @ [i]) (emit_w w c)"
  using assms begins_write16 [of "snd c" start "code is" "fst c" w] written_plain [OF assms(1), of 0]
  by (simp add: written_def emit_w_def)

lemma written_wl:
  assumes "written start is c" "encode i = be16 (ucast w) @ be32 l" "length (code is) + 6 \<le> 180"
  shows "written start (is @ [i]) (emit_wl w l c)"
proof -
  have a: "begins (WriteMacInt16 (fst c) w (snd c)) start (code is @ be16 (ucast w))"
    by (rule begins_write16) (use assms written_plain [OF assms(1), of 0] in \<open>simp_all add: written_def\<close>)
  have "begins (WriteMacInt32 (fst c + 2) l (WriteMacInt16 (fst c) w (snd c))) start ((code is @ be16 (ucast w)) @ be32 l)"
    by (rule begins_write32 [OF a]) (use assms written_plain [OF assms(1), of 2] in \<open>simp_all add: written_def\<close>)
  then show ?thesis using assms by (simp add: written_def emit_wl_def)
qed

lemma written_ww:
  assumes "written start is c" "encode i = be16 (ucast w) @ be16 (ucast v)" "length (code is) + 4 \<le> 180"
  shows "written start (is @ [i]) (emit_ww w v c)"
proof -
  have a: "begins (WriteMacInt16 (fst c) w (snd c)) start (code is @ be16 (ucast w))"
    by (rule begins_write16) (use assms written_plain [OF assms(1), of 0] in \<open>simp_all add: written_def\<close>)
  have "begins (WriteMacInt16 (fst c + 2) v (WriteMacInt16 (fst c) w (snd c))) start ((code is @ be16 (ucast w)) @ be16 (ucast v))"
    by (rule begins_write16 [OF a]) (use assms written_plain [OF assms(1), of 2] in \<open>simp_all add: written_def\<close>)
  then show ?thesis using assms by (simp add: written_def emit_ww_def)
qed

lemma written_calls:
  "written start is c \<Longrightarrow> length (code is) + 6 \<le> 180 \<Longrightarrow> written start (is @ [PushLong v]) (PUSH_L v c)"
  "written start is c \<Longrightarrow> length (code is) + 4 \<le> 180 \<Longrightarrow> written start (is @ [PushWord x]) (PUSH_W x c)"
  "written start is c \<Longrightarrow> length (code is) + 2 \<le> 180 \<Longrightarrow> written start (is @ [Trap t]) (TRAP t c)"
  unfolding PUSH_L_def PUSH_W_def TRAP_def by (auto intro!: written_wl written_ww written_w simp: ucast_ucast16)

definition invalidate_insns :: "u32 \<Rightarrow> u32 \<Rightarrow> insn list" where
  "invalidate_insns saved win =
     [PushAddress saved, Trap kTrap_GetPort, PushLong win, Trap kTrap_SetPort,
      PushLong (win + kPort_PortRect), Trap kTrap_InvalRect, PushFrom saved, Trap kTrap_SetPort]"

definition display_insns :: "u32 \<Rightarrow> window_op \<Rightarrow> insn list" where
  "display_insns base op =
     [ClearWord, PushAddress (base + kCode_DMState), LoadD0 0x0206, Trap kTrap_DisplayDispatch, PopD0,
      ClearWord, PushFrom LM_TheGDevice, PushLong (op_window op), PushAddress (base + kCode_DMDepth), ClearLong,
      PushFrom (base + kCode_DMState), LoadD0 0x0a11, Trap kTrap_DisplayDispatch, PopD0,
      ClearWord, PushFrom (base + kCode_DMState), LoadD0 0x0207, Trap kTrap_DisplayDispatch, PopD0,
      PushWord (op_a op), PushWord (op_b op), PushWord 0, PushWord 0, PushSP, LoadD0 0x0202, Trap kTrap_DisplayDispatch, DropRect]"

definition window_insns :: "u16 \<Rightarrow> window_op \<Rightarrow> u16 list \<Rightarrow> insn list" where
  "window_insns t op ws = PushLong (op_window op) # map PushWord ws @ [Trap t]"

definition op_insns :: "u32 \<Rightarrow> u32 \<Rightarrow> window_op \<Rightarrow> insn list" where
  "op_insns saved base op =
     (case op_type op of
        OpSelect \<Rightarrow> window_insns kTrap_SelectWindow op []
      | OpBringFront \<Rightarrow> window_insns kTrap_BringToFront op []
      | OpHilite \<Rightarrow> window_insns kTrap_HiliteWindow op [op_a op]
      | OpSize \<Rightarrow> window_insns kTrap_SizeWindow op [op_a op, op_b op, 1]
      | OpSizeNoUpd \<Rightarrow> window_insns kTrap_SizeWindow op [op_a op, op_b op, 0]
      | OpMove \<Rightarrow> window_insns kTrap_MoveWindow op [op_a op, op_b op, 0]
      | OpClose \<Rightarrow> window_insns kTrap_CloseWindow op []
      | OpInvalidate \<Rightarrow> invalidate_insns saved (op_window op)
      | OpScreenResized \<Rightarrow> display_insns base op)"

fun op_bytes :: "window_op_type \<Rightarrow> nat" where
  "op_bytes OpHilite = 12" | "op_bytes OpSize = 20" | "op_bytes OpSizeNoUpd = 20" | "op_bytes OpMove = 20"
| "op_bytes OpInvalidate = 32" | "op_bytes OpScreenResized = 94"
| "op_bytes OpSelect = 8" | "op_bytes OpBringFront = 8" | "op_bytes OpClose = 8"

lemmas op_insns_defs = op_insns_def window_insns_def invalidate_insns_def display_insns_def

lemma op_code_length: "length (code (op_insns saved base op)) = op_bytes (op_type op)"
  by (cases "op_type op"; simp only: op_insns_defs window_op_type.case list.map append.simps map_append concat.simps encode.simps
      length_append length_be16 length_be32 list.size op_bytes.simps; simp)

lemma op_is_code: "list_all is_code (op_insns saved base op)" "Rts \<notin> set (op_insns saved base op)" "length (op_insns saved base op) \<le> 27"
  by (cases "op_type op"; simp add: op_insns_defs window_traps)+

lemma written_window:
  assumes "written start is c" "length (code is) \<le> 40"
  shows "written start (is @ window_insns t op []) (TRAP t (PUSH_L (op_window op) c))"
    "written start (is @ window_insns t op [x]) (TRAP t (PUSH_W x (PUSH_L (op_window op) c)))"
    "written start (is @ window_insns t op [x, y, z]) (TRAP t (PUSH_W z (PUSH_W y (PUSH_W x (PUSH_L (op_window op) c)))))"
proof -
  have "written start ((is @ [PushLong (op_window op)]) @ [Trap t]) (TRAP t (PUSH_L (op_window op) c))"
    by (intro written_calls assms(1)) (use assms(2) in simp_all)
  then show "written start (is @ window_insns t op []) (TRAP t (PUSH_L (op_window op) c))" by (simp add: window_insns_def)
  have "written start (((is @ [PushLong (op_window op)]) @ [PushWord x]) @ [Trap t]) (TRAP t (PUSH_W x (PUSH_L (op_window op) c)))"
    by (intro written_calls assms(1)) (use assms(2) in simp_all)
  then show "written start (is @ window_insns t op [x]) (TRAP t (PUSH_W x (PUSH_L (op_window op) c)))" by (simp add: window_insns_def)
  have "written start (((((is @ [PushLong (op_window op)]) @ [PushWord x]) @ [PushWord y]) @ [PushWord z]) @ [Trap t])
      (TRAP t (PUSH_W z (PUSH_W y (PUSH_W x (PUSH_L (op_window op) c)))))"
    by (intro written_calls assms(1)) (use assms(2) in simp_all)
  then show "written start (is @ window_insns t op [x, y, z]) (TRAP t (PUSH_W z (PUSH_W y (PUSH_W x (PUSH_L (op_window op) c)))))"
    by (simp add: window_insns_def)
qed

lemma written_op:
  assumes "written start is c" "length (code is) \<le> 40"
  shows "written start (is @ op_insns (saved_port s) (code_base s) op) (emit_op s op c)"
proof (cases "op_type op")
  case OpInvalidate
  have "written start ((((((((is @ [PushAddress (saved_port s)]) @ [Trap kTrap_GetPort]) @ [PushLong (op_window op)]) @ [Trap kTrap_SetPort]) @
      [PushLong (op_window op + kPort_PortRect)]) @ [Trap kTrap_InvalRect]) @ [PushFrom (saved_port s)]) @ [Trap kTrap_SetPort]) (emit_op s op c)"
    unfolding emit_op_def OpInvalidate window_op_type.case emit_invalidate_def Let_def
    by (intro written_calls written_wl assms(1)) (use assms(2) in simp_all)
  then show ?thesis using OpInvalidate by (simp add: op_insns_defs)
next
  case OpScreenResized
  let ?st = "code_base s + kCode_DMState" and ?d = "code_base s + kCode_DMDepth"
  have "written start (((((((((((((((((((((((((((is @ [ClearWord]) @ [PushAddress ?st]) @ [LoadD0 0x0206]) @ [Trap kTrap_DisplayDispatch]) @ [PopD0]) @
      [ClearWord]) @ [PushFrom LM_TheGDevice]) @ [PushLong (op_window op)]) @ [PushAddress ?d]) @ [ClearLong]) @ [PushFrom ?st]) @ [LoadD0 0x0a11]) @
      [Trap kTrap_DisplayDispatch]) @ [PopD0]) @ [ClearWord]) @ [PushFrom ?st]) @ [LoadD0 0x0207]) @ [Trap kTrap_DisplayDispatch]) @ [PopD0]) @
      [PushWord (op_a op)]) @ [PushWord (op_b op)]) @ [PushWord 0]) @ [PushWord 0]) @ [PushSP]) @ [LoadD0 0x0202]) @ [Trap kTrap_DisplayDispatch]) @ [DropRect])
      (emit_op s op c)"
    unfolding emit_op_def OpScreenResized window_op_type.case emit_screen_resized_def emit_display_def Let_def
    by (intro written_calls written_wl written_w written_ww assms(1)) (use assms(2) in simp_all)
  then show ?thesis using OpScreenResized by (simp add: op_insns_defs)
qed (use written_window [OF assms] in \<open>simp_all add: emit_op_def op_insns_def\<close>)

subsection \<open>The calls of an operation\<close>

definition op_calls :: "guest_memory \<Rightarrow> u32 \<Rightarrow> u32 \<Rightarrow> u32 \<Rightarrow> nat \<Rightarrow> window_op \<Rightarrow> trap_call list" where
  "op_calls look sp saved base n op =
     (let win = words (op_window op); a = op_a op; b = op_b op; st = base + kCode_DMState
      in case op_type op of
           OpSelect \<Rightarrow> [(kTrap_SelectWindow, 0, win)]
         | OpBringFront \<Rightarrow> [(kTrap_BringToFront, 0, win)]
         | OpHilite \<Rightarrow> [(kTrap_HiliteWindow, 0, a # win)]
         | OpSize \<Rightarrow> [(kTrap_SizeWindow, 0, 1 # b # a # win)]
         | OpSizeNoUpd \<Rightarrow> [(kTrap_SizeWindow, 0, 0 # b # a # win)]
         | OpMove \<Rightarrow> [(kTrap_MoveWindow, 0, 0 # b # a # win)]
         | OpClose \<Rightarrow> [(kTrap_CloseWindow, 0, win)]
         | OpInvalidate \<Rightarrow>
             [(kTrap_GetPort, 0, words saved), (kTrap_SetPort, 0, win),
              (kTrap_InvalRect, 0, words (op_window op + kPort_PortRect)), (kTrap_SetPort, 0, words (look (n + 3) saved))]
         | OpScreenResized \<Rightarrow>
             [(kTrap_DisplayDispatch, 0x0206, words st @ [0]),
              (kTrap_DisplayDispatch, 0x0a11, words (look (n + 1) st) @ [0, 0] @ words (base + kCode_DMDepth) @ win @
                 words (look (n + 1) LM_TheGDevice) @ [0]),
              (kTrap_DisplayDispatch, 0x0207, words (look (n + 2) st) @ [0]),
              (kTrap_DisplayDispatch, 0x0202, words (sp - 8) @ [0, 0, b, a])])"

fun routine_calls :: "guest_memory \<Rightarrow> u32 \<Rightarrow> u32 \<Rightarrow> u32 \<Rightarrow> nat \<Rightarrow> window_op list \<Rightarrow> trap_call list" where
  "routine_calls look sp saved base n [] = []"
| "routine_calls look sp saved base n (op # ops) =
     (let cs = op_calls look sp saved base n op in cs @ routine_calls look sp saved base (n + length cs) ops)"

lemmas exec_simps = push_def words_def call_trap_def drop_words_def stack_pointer_def

lemma display_params:
  "param_words kTrap_DisplayDispatch 0x0206 = 2" "param_words kTrap_DisplayDispatch 0x0a11 = 10"
  "param_words kTrap_DisplayDispatch 0x0207 = 2" "param_words kTrap_DisplayDispatch 0x0202 = 2"
  by code_simp+

lemma exec_op:
  assumes "stk c = []"
  shows "\<exists>d. exec_list look sp (op_insns saved base op) c =
    Some (c\<lparr>low_d0 := d, calls := calls c @ op_calls look sp saved base (length (calls c)) op\<rparr>)"
proof (cases "op_type op")
  case OpScreenResized
  then show ?thesis using assms by (cases c) (simp add: op_insns_defs exec_simps op_calls_def display_params Let_def)
next
  case OpInvalidate
  then show ?thesis using assms by (cases c) (simp add: op_insns_defs exec_simps param_words_def op_calls_def window_traps Let_def numeral_3_eq_3)
qed (use assms in \<open>cases c, simp add: op_insns_defs exec_simps param_words_def op_calls_def window_traps\<close>)+

lemma exec_ops:
  assumes "stk c = []"
  shows "\<exists>d. exec_list look sp (concat (map (op_insns saved base) ops)) c =
    Some (c\<lparr>low_d0 := d, calls := calls c @ routine_calls look sp saved base (length (calls c)) ops\<rparr>)"
  using assms
proof (induction ops arbitrary: c)
  case Nil
  then show ?case by (cases c) simp
next
  case (Cons op ops)
  obtain d where d: "exec_list look sp (op_insns saved base op) c =
      Some (c\<lparr>low_d0 := d, calls := calls c @ op_calls look sp saved base (length (calls c)) op\<rparr>)"
    using exec_op [OF Cons.prems] by blast
  show ?case using Cons.IH [of "c\<lparr>low_d0 := d, calls := calls c @ op_calls look sp saved base (length (calls c)) op\<rparr>"] Cons.prems
    by (auto simp: exec_list_append d Let_def)
qed

subsection \<open>Assembling\<close>

text \<open>
  The operations that get into the routine: those whose window is still known, as long as the
  code before them takes at most 40 bytes.
\<close>

fun fitting :: "nat \<Rightarrow> window_op list \<Rightarrow> window_op list" where
  "fitting used [] = []"
| "fitting used (op # ops) = (if used > 40 then [] else op # fitting (used + op_bytes (op_type op)) ops)"

definition kept_ops :: "window_state \<Rightarrow> window_op list \<Rightarrow> window_op list" where
  "kept_ops s ops = fitting 0 (filter (\<lambda>op. \<not> op_gone s op) ops)"

abbreviation routine :: "window_state \<Rightarrow> window_op list \<Rightarrow> insn list" where
  "routine s ops \<equiv> concat (map (op_insns (saved_port s) (code_base s)) ops)"

lemma op_bytes_le: "op_bytes t \<le> 94"
  by (cases t) simp_all

lemma assemble_fitting:
  assumes "written (scratch s) is c" "length (code is) \<le> 134" "unat (scratch s) < 0xf0000000"
  shows "\<exists>c'. assemble_ops s (scratch s + kCode_ScratchMax - 12) ops n c =
      (n + length (fitting (length (code is)) (filter (\<lambda>op. \<not> op_gone s op) ops)), c') \<and>
    written (scratch s) (is @ routine s (fitting (length (code is)) (filter (\<lambda>op. \<not> op_gone s op) ops))) c' \<and>
    length (code (is @ routine s (fitting (length (code is)) (filter (\<lambda>op. \<not> op_gone s op) ops)))) \<le> 134"
  using assms(1,2)
proof (induction ops arbitrary: "is" c n)
  case (Cons op ops)
  let ?len = "length (code is)"
  have full: "fst c + 128 > scratch s + kCode_ScratchMax - 12 \<longleftrightarrow> ?len > 40"
  proof -
    have "unat (fst c + 128) = unat (scratch s) + ?len + 128"
    proof -
      have "fst c + 128 = scratch s + of_nat (?len + 128)" using Cons.prems(1) by (simp add: written_def)
      moreover have "unat (of_nat (?len + 128) :: u32) = ?len + 128" using Cons.prems(2) by (intro unat_of_nat_small) simp
      moreover have "unat (scratch s + of_nat (?len + 128)) = unat (scratch s) + unat (of_nat (?len + 128) :: u32)"
        by (rule unat_plus_no_wrap) (use assms(3) Cons.prems(2) calculation(2) in simp)
      ultimately show ?thesis by (simp only: add.assoc)
    qed
    moreover have "unat (scratch s + kCode_ScratchMax - 12) = unat (scratch s) + 168"
    proof -
      have e: "scratch s + kCode_ScratchMax - 12 = scratch s + 168" by (simp add: kCode_ScratchMax_def)
      have "unat (scratch s + 168) = unat (scratch s) + unat (168 :: u32)" using assms(3) by (intro unat_plus_no_wrap) simp
      then show ?thesis unfolding e by simp
    qed
    ultimately show ?thesis by (simp add: word_less_nat_alt)
  qed
  consider "op_gone s op" | "\<not> op_gone s op" "?len > 40" | "\<not> op_gone s op" "?len \<le> 40" by linarith
  then show ?case
  proof cases
    case 3
    let ?is = "is @ op_insns (saved_port s) (code_base s) op"
    have l: "length (code ?is) = ?len + op_bytes (op_type op)" by (simp add: op_code_length)
    have w: "written (scratch s) ?is (emit_op s op c)" by (rule written_op [OF Cons.prems(1) 3(2)])
    show ?thesis using Cons.IH [OF w, of "n + 1"] 3 full op_bytes_le [of "op_type op"] l by simp
  qed (use Cons full in simp_all)
qed simp

lemma written_store:
  assumes "written start is (pc, m)" "length (code is) + 8 \<le> 180"
  shows "written start (is @ [StoreWord v a]) (pc + 8, WriteMacInt32 (pc + 4) a (WriteMacInt16 (pc + 2) (ucast v) (WriteMacInt16 pc 0x33fc m)))"
proof -
  have p: "plain m pc" "plain m (pc + 2)" "plain m (pc + 4)"
    using written_plain [OF assms(1), of 0] written_plain [OF assms(1), of 2] written_plain [OF assms(1), of 4] assms(2) by simp_all
  have "begins (WriteMacInt16 pc 0x33fc m) start (code is @ be16 (ucast (0x33fc :: u32)))"
    by (rule begins_write16) (use assms p in \<open>simp_all add: written_def\<close>)
  then have a: "begins (WriteMacInt16 pc 0x33fc m) start (code is @ be16 0x33fc)" by simp
  have b: "begins (WriteMacInt16 (pc + 2) (ucast v) (WriteMacInt16 pc 0x33fc m)) start ((code is @ be16 0x33fc) @ be16 (ucast (ucast v :: u32)))"
    by (rule begins_write16 [OF a]) (use assms p in \<open>simp_all add: written_def\<close>)
  have "begins (WriteMacInt32 (pc + 4) a (WriteMacInt16 (pc + 2) (ucast v) (WriteMacInt16 pc 0x33fc m))) start
      (((code is @ be16 0x33fc) @ be16 (ucast (ucast v :: u32))) @ be32 a)"
    by (rule begins_write32 [OF b]) (use assms p in \<open>simp_all add: written_def\<close>)
  then show ?thesis using assms by (simp add: written_def ucast_ucast16)
qed

lemma insn_count: "2 * length is \<le> length (code is)"
proof (induction "is")
  case (Cons i js)
  then show ?case using length_encode(1) [of i] by simp
qed simp

definition fresh_cpu :: stack_cpu where
  "fresh_cpu = \<lparr>stk = [], low_d0 = 0, calls = [], word_stores = []\<rparr>"

lemma assembled_routine:
  assumes "assemble_window_calls ops s = (True, t)" "plain_block (dmem s) (scratch s) 180" "unat (scratch s) < 0xf0000000"
  shows "\<exists>d. run 80 look sp (dmem t) (scratch s) fresh_cpu =
      Some \<lparr>stk = [], low_d0 = d, calls = routine_calls look sp (saved_port s) (code_base s) 0 (kept_ops s ops),
            word_stores = [(done_addr s, scratch_seq t)]\<rparr>"
    "kept_ops s ops \<noteq> []" "\<exists>n \<le> 144. invalidated t = invalidated s @ [(scratch s, of_nat n)]"
proof -
  let ?k = "kept_ops s ops" and ?sq = "scratch_seq s + 1"
  have w0: "written (scratch s) [] (scratch s, dmem s)" using assms(2) by (simp add: written_def begins_Nil)
  obtain c where c: "assemble_ops s (scratch s + kCode_ScratchMax - 12) ops 0 (scratch s, dmem s) = (length ?k, c)"
    "written (scratch s) (routine s ?k) c" "length (code (routine s ?k)) \<le> 134"
    using assemble_fitting [OF w0 _ assms(3), of ops 0] by (auto simp: kept_ops_def)
  have k: "?k \<noteq> []" using assms(1) c(1) by (auto simp: assemble_window_calls_def Let_def split: if_splits)
  then show "kept_ops s ops \<noteq> []" .
  define c1 where "c1 = (fst c + 8, WriteMacInt32 (fst c + 4) (done_addr s) (WriteMacInt16 (fst c + 2) (ucast ?sq) (WriteMacInt16 (fst c) 0x33fc (snd c))))"
  have w1: "written (scratch s) (routine s ?k @ [StoreWord ?sq (done_addr s)]) c1"
    unfolding c1_def by (rule written_store) (use c in simp_all)
  have w2: "written (scratch s) ((routine s ?k @ [StoreWord ?sq (done_addr s)]) @ [Rts]) (emit_w 0x4e75 c1)"
    by (rule written_w [OF w1]) (use c(3) in simp_all)
  have t: "t = s\<lparr>dmem := snd (emit_w 0x4e75 c1), scratch_seq := ?sq, invalidated := invalidated s @ [(scratch s, fst (emit_w 0x4e75 c1) - scratch s)]\<rparr>"
    using assms(1) c(1) k by (simp add: assemble_window_calls_def Let_def c1_def split: if_splits)
  have n: "fst (emit_w 0x4e75 c1) - scratch s = of_nat (length (code (routine s ?k)) + 10)" using w2 by (simp add: written_def)
  show "\<exists>n \<le> 144. invalidated t = invalidated s @ [(scratch s, of_nat n)]"
    by (rule exI [of _ "length (code (routine s ?k)) + 10"]) (use c(3) n in \<open>simp add: t\<close>)
  obtain d where d: "exec_list look sp (routine s ?k) fresh_cpu =
      Some (fresh_cpu\<lparr>low_d0 := d, calls := routine_calls look sp (saved_port s) (code_base s) 0 ?k\<rparr>)"
    using exec_ops [of fresh_cpu look sp "saved_port s" "code_base s" ?k] by (auto simp: fresh_cpu_def)
  have "run 80 look sp (dmem t) (scratch s) fresh_cpu =
      Some (fresh_cpu\<lparr>low_d0 := d, calls := routine_calls look sp (saved_port s) (code_base s) 0 ?k, word_stores := [(done_addr s, ?sq)]\<rparr>)"
  proof (rule run_code [of _ _ "routine s ?k @ [StoreWord ?sq (done_addr s)]" "[]"])
    show "begins (dmem t) (scratch s) (code (routine s ?k @ [StoreWord ?sq (done_addr s)]) @ encode Rts @ [])"
      using w2 by (simp add: written_def t)
    show "plain_block (dmem t) (scratch s) (length (code (routine s ?k @ [StoreWord ?sq (done_addr s)])) + 10)"
      using w2 c(3) plain_block_shift [of "dmem t" "scratch s" 180 0] by (simp add: written_def t)
    show "list_all is_code (routine s ?k @ [StoreWord ?sq (done_addr s)])" using op_is_code(1) by (auto simp: list_all_iff)
    show "Rts \<notin> set (routine s ?k @ [StoreWord ?sq (done_addr s)])" using op_is_code(2) by auto
    show "exec_list look sp (routine s ?k @ [StoreWord ?sq (done_addr s)]) fresh_cpu =
      Some (fresh_cpu\<lparr>low_d0 := d, calls := routine_calls look sp (saved_port s) (code_base s) 0 ?k, word_stores := [(done_addr s, ?sq)]\<rparr>)"
      unfolding exec_list_append d by (simp add: fresh_cpu_def)
    show "length (routine s ?k @ [StoreWord ?sq (done_addr s)]) < 80" using insn_count [of "routine s ?k"] c(3) by simp
  qed
  then show "\<exists>d. run 80 look sp (dmem t) (scratch s) fresh_cpu =
      Some \<lparr>stk = [], low_d0 = d, calls = routine_calls look sp (saved_port s) (code_base s) 0 (kept_ops s ops),
            word_stores = [(done_addr s, scratch_seq t)]\<rparr>" by (auto simp: fresh_cpu_def t)
qed

lemma assembles_what_fits:
  assumes "plain_block (dmem s) (scratch s) 180" "unat (scratch s) < 0xf0000000" "kept_ops s ops \<noteq> []"
  shows "\<exists>t. assemble_window_calls ops s = (True, t) \<and> scratch_seq t = scratch_seq s + 1"
proof -
  have w0: "written (scratch s) [] (scratch s, dmem s)" using assms(1) by (simp add: written_def begins_Nil)
  obtain c where "assemble_ops s (scratch s + kCode_ScratchMax - 12) ops 0 (scratch s, dmem s) = (length (kept_ops s ops), c)"
    using assemble_fitting [OF w0 _ assms(2), of ops 0] by (auto simp: kept_ops_def)
  then show ?thesis using assms(3) by (simp add: assemble_window_calls_def Let_def)
qed

lemma assemble_keeps_queue: "pending_ops (snd (assemble_window_calls ops s)) = pending_ops s"
  by (simp add: assemble_window_calls_def Let_def split_def)

end
