(* ===== verification/Window_Properties.thy ===== *)
theory Window_Properties
  imports Window_Routine Toolbox_Properties Video_Properties
begin

section \<open>Properties of mirrored windows\<close>

text \<open>
  The buffers of all reachable states are apart, the routine for the guest makes the queued calls,
  a redirected port addresses its buffer, host input arrives in order, and the host mirrors the
  windows of the last walk. A bridge at start-up (\<open>fresh_bridge\<close>) is the state of the examples.
\<close>

definition no_mappings :: memory_map where
  "no_mappings = \<lparr>host_base = 0x10000, page_size = 0x1000, pages_granted = (\<lambda>a n. True), mapped_ranges = [(0, 0xffffffff)],
     flat_dummy_window = True, guard_depth = 0, guest_fault_addr = 0\<rparr>"

definition fresh_bridge :: "mac \<Rightarrow> window_state" where
  "fresh_bridge m = menu_state.extend (no_menus m)
     (window_state.fields no_video no_mappings False False False None [] [] [] (\<lambda>p. 0) 0 [] 0 0 [] 0 0 0 0 0 0 0 0 0 0
        False False 0 0 0 [] [] 0 0 0 (- 1) False False 0 0 None)"

subsection \<open>Reachable states\<close>

text \<open>
  What happens to a running bridge: the guest runs, the interrupt, the safe point, the hooks, and
  the calls of the host and of the other components.
\<close>

inductive window_step :: "mac_os \<Rightarrow> sdl \<Rightarrow> window_state \<Rightarrow> window_state \<Rightarrow> bool" for os sdl where
  step_guest: "window_step os sdl s (s\<lparr>dmem := m\<rparr>)"
| step_interrupt: "window_step os sdl s (window_interrupt s)"
| step_safe_point: "Toolbox_WindowSafePoint os sdl r s = Some t \<Longrightarrow> window_step os sdl s t"
| step_hook: "window_step os sdl s (snd (snd (window_call i n r orig s)))"
| step_request: "window_step os sdl s (queue_window_op t win a b s)"
| step_notify: "window_step os sdl s (Toolbox_NotifyScreenResized w h s)"
| step_input: "window_step os sdl s (Toolbox_ForwardGuestInput win kind x y key s)"
| step_click: "window_step os sdl s (Toolbox_ClickDialogItem win item s)"
| step_present: "window_step os sdl s (Toolbox_PresentWindows s)"
| step_callbacks: "window_step os sdl s (ToolboxWindow_SetCallbacks cb s)"
| step_register: "window_step os sdl s (ToolboxWindow_RegisterTraps s)"
| step_reset: "window_step os sdl s (ToolboxWindow_Reset s)"

abbreviation window_reach :: "mac_os \<Rightarrow> sdl \<Rightarrow> window_state \<Rightarrow> window_state \<Rightarrow> bool" where
  "window_reach os sdl \<equiv> (window_step os sdl)\<^sup>*\<^sup>*"

definition window_start :: "window_state \<Rightarrow> bool" where
  "window_start s \<longleftrightarrow> redirected s = [] \<and> code_base s = 0 \<and> arena_base s = 0 \<and> arena_frees s = [] \<and> unat (MacFrameSize (screen s)) \<le> 0x10000000"

lemma buffers_start: "window_start s \<Longrightarrow> buffers_ok s"
  by (simp add: window_start_def buffers_ok_def held_def arena_ok_def MacFrameBaseMac_def)

lemma buffers_interrupt:
  assumes "buffers_ok s"
  shows "buffers_ok (window_interrupt s)"
proof -
  have e: "buffers_ok (Toolbox_EnableSafePoint t)" if "buffers_ok t" for t
  proof -
    have "buffers_ok (t\<lparr>safepoint_wanted := True\<rparr>)" using that buffers_cong [OF held_simps(8)] by blast
    then show ?thesis using that buffers_filter by (simp add: Toolbox_EnableSafePoint_def)
  qed
  have m: "buffers_ok (snd (with_menu f t))" if "buffers_ok t" for f t using that buffers_cong [OF held_menu] by blast
  show ?thesis unfolding window_interrupt_def Let_def using assms by (simp add: e m buffers_sync)
qed

lemma buffers_step: "window_step os sdl s t \<Longrightarrow> buffers_ok s \<Longrightarrow> buffers_ok t"
proof (induction rule: window_step.induct)
  case (step_safe_point r s t)
  then show ?case using buffers_cong [OF held_safe_point [OF step_safe_point(1)]] by simp
next
  case (step_notify s w h)
  let ?ops = "case find_index (\<lambda>op. op_type op = OpScreenResized) (pending_ops s) of
      Some i \<Rightarrow> (pending_ops s)[i := (pending_ops s ! i)\<lparr>op_a := w, op_b := h\<rparr>]
    | None \<Rightarrow> pending_ops s @ [\<lparr>op_type = OpScreenResized, op_window = 0, op_a = w, op_b = h\<rparr>]"
  have n: "Toolbox_NotifyScreenResized w h s = ensure_gne_filter (s\<lparr>screen_resize_pending := True, safepoint_wanted := True, pending_ops := ?ops\<rparr>)"
    by (simp add: Toolbox_NotifyScreenResized_def Let_def split: option.split)
  have "held_part (s\<lparr>screen_resize_pending := True, safepoint_wanted := True, pending_ops := ?ops\<rparr>) = held_part s"
    by (simp add: window_frame)
  then show ?case unfolding n using step_notify buffers_filter buffers_cong by blast
next
  case (step_input s win kind x y key)
  have "held_part (Toolbox_ForwardGuestInput win kind x y key s) = held_part s"
    by (simp add: Toolbox_ForwardGuestInput_def window_frame split: option.split)
  then show ?case using step_input buffers_cong by blast
next
  case (step_click s win item)
  have "held_part (Toolbox_ClickDialogItem win item s) = held_part s"
    by (simp add: Toolbox_ClickDialogItem_def window_frame split: option.split)
  then show ?case using step_click buffers_cong by blast
next
  case (step_present s)
  have "held_part (present_window px w t) = held_part t" for px w t by (simp add: present_window_def window_frame split: option.split)
  then have "held_part (fold (present_window px) ws s) = held_part s" for px ws by (rule fold_keeps)
  then have "held_part (Toolbox_PresentWindows s) = held_part s" by (simp add: Toolbox_PresentWindows_def Let_def)
  then show ?case using step_present buffers_cong by blast
next
  case (step_register s)
  have r: "held_part (register_hook n name i t) = held_part t" for n name i t
    by (simp add: register_hook_def ToolboxTrap_Register_def window_frame split: option.split)
  have "held_part (ToolboxWindow_RegisterTraps s) = held_part s" by (simp add: ToolboxWindow_RegisterTraps_def Let_def window_frame r)
  then show ?case using step_register buffers_cong by blast
qed (auto simp: ToolboxWindow_SetCallbacks_def buffers_interrupt buffers_hooks buffers_reset
    dest: buffers_cong [OF held_simps(1), THEN iffD2] buffers_cong [OF held_queue, THEN iffD2] buffers_cong [OF held_simps(26), THEN iffD2])

text \<open>
  C14. Whatever the guest does with its memory and in whatever order interrupts, safe points, hooks, requests of the host,
  resizes of the screen and resets come, the pixel buffers of the redirected windows and the block with the guest code are
  pairwise disjoint, lie behind the memory reserved for the screen and end within the arena.\<close>
theorem window_buffers_never_overlap:
  assumes "window_reach os sdl s t" "window_start s"
  shows "separate (held t) \<and>
    (\<forall>b \<in> set (held t). unat MacFrameBaseMac + unat (MacFrameSize (screen t)) \<le> unat (fst b) \<and> unat (fst b) + unat (snd b) \<le> 0xb400ffff)"
proof -
  have ok: "buffers_ok t" using assms by (induction rule: rtranclp_induct) (auto intro: buffers_start buffers_step)
  then have "arena_ok (held t) t" by (simp add: buffers_ok_def)
  then show ?thesis using arena.owns_separate arena_okD by blast
qed

lemma fresh_start: "window_start (fresh_bridge bare_mac)"
  by (simp add: window_start_def fresh_bridge_def window_state.defs menu_state.defs no_menus_def no_video_def)

definition notified :: window_state where
  "notified = Toolbox_NotifyScreenResized 640 480 (fresh_bridge bare_mac)"

lemma notified_block: "held notified = [(0xa0000000, 0x100)]"
proof -
  have r: "arena_round kCode_Size = 0x100" by code_simp
  have c: "memory_commit_range 0xa0000000 0x100 no_mappings = no_mappings \<and> memory_is_mapped 0xa0000000 0x100 no_mappings" by code_simp
  have a: "arena_alloc kCode_Size t = (0xa0000000, t\<lparr>arena_base := 0xa0000000, arena_cursor := 0xa0000100\<rparr>)"
    if "arena_frees t = []" "arena_base t = 0" "screen t = no_video" "memmap t = no_mappings" for t
    using that c
    by (cases t) (simp add: arena_alloc_def r find_index_def arena_start_def MacFrameBaseMac_def kArenaAlign_def kArenaLimit_def no_video_def Let_def)
  show ?thesis
    by (simp add: notified_def Toolbox_NotifyScreenResized_def ensure_gne_filter_def ensure_guest_code_def arena_alloc_exec_def fresh_bridge_def
        window_state.defs menu_state.defs no_menus_def find_index_def a Let_def install_gne_filter_def set_code_addresses_def held_def r)
qed

lemma window_buffers_never_overlap_witness:
  "separate (held notified) \<and> held notified = [(0xa0000000, 0x100)] \<and>
   unat MacFrameBaseMac + unat (MacFrameSize (screen notified)) \<le> unat (fst (hd (held notified)))"
proof -
  have "window_reach no_guest any_mode (fresh_bridge bare_mac) notified"
    unfolding notified_def by (rule r_into_rtranclp) (rule step_notify)
  from window_buffers_never_overlap [OF this fresh_start] show ?thesis by (simp add: notified_block)
qed

subsection \<open>The routine\<close>

text \<open>A Boolean argument takes a word and has its value in the high byte (\<open>toolbox_menu.cpp\<close>, 245).\<close>

definition pascal_boolean :: "u16 \<Rightarrow> bool" where
  "pascal_boolean w \<longleftrightarrow> drop_bit 8 w \<noteq> 0"

lemma size_reads_false:
  "op_type op = OpSize \<Longrightarrow>
    \<exists>w args. op_calls look sp saved base n op = [(kTrap_SizeWindow, 0, w # args)] \<and> \<not> pascal_boolean w"
  by (intro exI [of _ 1]) (simp add: op_calls_def Let_def pascal_boolean_def drop_bit_eq_div)

text \<open>
  C15. The routine assembled for the safe point makes, in the order of the queue, the Window Manager, QuickDraw and Display
  Manager calls of the operations that fit, each with exactly the words the source pushes on the stack and nothing below
  them; it leaves the stack as it found it, stores its sequence number and returns, and it takes at most 144 of
  the 180 bytes reserved for it. The words are those of the source, not what the documentation wants of the Boolean arguments: a resize pushes the word 1 for
  \<open>fUpdate\<close> (true in \<open>docs/guest-window-mirroring.md\<close>), a highlight the word it was queued with, 1 in the self-test; a Pascal Boolean is the high byte of its word
  (\<open>toolbox_menu.cpp\<close>), so both read as false, which the last conjunct states of every resize. The routine lies in plain guest memory.\<close>
theorem routine_makes_the_queued_calls:
  assumes "assemble_window_calls ops s = (True, t)" "plain_block (dmem s) (scratch s) 180" "unat (scratch s) < 0xf0000000"
  shows "(\<exists>d. run 80 look sp (dmem t) (scratch s) fresh_cpu =
      Some \<lparr>stk = [], low_d0 = d, calls = routine_calls look sp (saved_port s) (code_base s) 0 (kept_ops s ops),
            word_stores = [(done_addr s, scratch_seq t)]\<rparr>) \<and>
    (\<exists>n \<le> 144. invalidated t = invalidated s @ [(scratch s, of_nat n)]) \<and>
    (op_type op = OpSize \<longrightarrow>
      (\<exists>w args. op_calls look sp (saved_port s) (code_base s) n op = [(kTrap_SizeWindow, 0, w # args)] \<and> \<not> pascal_boolean w))"
  using assembled_routine [OF assms] size_reads_false [of op look sp "saved_port s" "code_base s" n] by blast

definition some_window :: window_snapshot where
  "some_window = \<lparr>window_ptr = 0x20000, layer_ptr = 0, title = [], content = zero_rect, struc = zero_rect, window_kind = 8, variant = 0,
     go_away = True, is_dialog = False, visible = True, hilited = True, z_order = 0\<rparr>"

definition queued :: "window_op list" where
  "queued = [\<lparr>op_type = OpSelect, op_window = 0x20000, op_a = 0, op_b = 0\<rparr>, \<lparr>op_type = OpMove, op_window = 0x20000, op_a = 40, op_b = 30\<rparr>]"

definition ready :: window_state where
  "ready = (fresh_bridge bare_mac)\<lparr>code_base := 0x30000, scratch := 0x3004c, saved_port := 0x30048, done_addr := 0x30042,
     last_snapshot := [some_window]\<rparr>"

lemma routine_makes_the_queued_calls_witness:
  "\<exists>(t :: window_state) d. run 80 (\<lambda>n a. 0) 0x8000 (dmem t) 0x3004c fresh_cpu =
     Some \<lparr>stk = [], low_d0 = d, calls = [(0xa91f, 0, [2, 0]), (0xa91b, 0, [0, 30, 40, 2, 0])], word_stores = [(0x30042, 1)]\<rparr>"
proof -
  have r: "scratch ready = 0x3004c" "saved_port ready = 0x30048" "code_base ready = 0x30000" "done_addr ready = 0x30042"
    "last_snapshot ready = [some_window]" "scratch_seq ready = 0"
    by (simp_all add: ready_def fresh_bridge_def window_state.defs menu_state.defs)
  have g: "filter (\<lambda>op. \<not> op_gone ready op) queued = queued"
    by (simp add: queued_def op_gone_def find_window_def find_index_def r some_window_def)
  have k: "kept_ops ready queued = queued" unfolding kept_ops_def g by (simp add: queued_def)
  have "dmem ready = bare_mac"
    by (simp add: ready_def fresh_bridge_def window_state.defs menu_state.defs no_menus_def)
  then have p: "plain_block (dmem ready) (scratch ready) 180" by (simp add: plain_bare r bare_mac_def)
  have sm: "unat (scratch ready) < 0xf0000000" by (simp add: r)
  have "kept_ops ready queued \<noteq> []" unfolding k by (simp add: queued_def)
  then obtain t where t: "assemble_window_calls queued ready = (True, t)" and "scratch_seq t = 1"
    using assembles_what_fits [OF p sm] by (auto simp: r)
  have "words 0x20000 = [2, 0]" by code_simp
  with \<open>scratch_seq t = 1\<close> have "\<exists>d. run 80 (\<lambda>n a. 0) 0x8000 (dmem t) 0x3004c fresh_cpu =
     Some \<lparr>stk = [], low_d0 = d, calls = [(0xa91f, 0, [2, 0]), (0xa91b, 0, [0, 30, 40, 2, 0])], word_stores = [(0x30042, 1)]\<rparr>" using routine_makes_the_queued_calls [OF t p sm, of "\<lambda>n a. 0" "0x8000"] unfolding k r
    by (simp add: queued_def op_calls_def window_traps)
  then show ?thesis by blast
qed

text \<open>The code for three windows to be redrawn does not fit: the third request is dropped, though the queue is emptied.\<close>

lemma third_invalidation_is_lost:
  assumes "op_type a = OpInvalidate" "op_type b = OpInvalidate" "\<not> op_gone s a" "\<not> op_gone s b" "\<not> op_gone s c"
  shows "kept_ops s [a, b, c] = [a, b]"
  using assms by (simp add: kept_ops_def)

lemma queue_is_emptied:
  assumes "assemble_pending os sdl s = Some t" "wanted_geometry (pending_ops s) = (0, 0)"
  shows "pending_ops t = []"
proof -
  let ?s = "s\<lparr>stalled := 0, pending_ops := [], screen_resize_pending := False\<rparr>"
  have "resize_screen os sdl (pending_ops s) ?s = Some (pending_ops s, ?s)" using assms(2) by (simp add: resize_screen_def)
  then show ?thesis using assms(1) assemble_keeps_queue [of "pending_ops s" ?s]
    by (auto simp: assemble_pending_def Let_def split_def wr8_def)
qed

text \<open>
  When the vector is found changed, the filter now in it becomes the one the stub chains to. If that filter
  itself chains to the stub, the two call each other.\<close>

lemma reinstalled_filter_chains_to_the_new_one:
  assumes "safepoint_wanted s" "code_base s \<noteq> 0" "ReadMacInt32 (dmem s) LM_JGNEFilter = other" "other \<noteq> gne_stub s"
    "plain_block (dmem s) LM_JGNEFilter 4" "plain_block (dmem s) (gne_old_filter s) 4" "unat (gne_old_filter s) \<ge> 0x1000" "unat (gne_old_filter s) < 0xf0000000"
  shows "ReadMacInt32 (dmem (ensure_gne_filter s)) LM_JGNEFilter = gne_stub s \<and>
         ReadMacInt32 (dmem (ensure_gne_filter s)) (gne_old_filter s) = other"
proof -
  let ?o = "gne_old_filter s" and ?m = "dmem s"
  have e: "dmem (ensure_gne_filter s) = WriteMacInt32 LM_JGNEFilter (gne_stub s) (WriteMacInt32 ?o other ?m)"
    using assms(1-4) by (simp add: ensure_gne_filter_def ensure_guest_code_def install_gne_filter_def Let_def)
  have p: "plain ?m LM_JGNEFilter" "plain ?m ?o" using plain_blockD [OF assms(5), of 0] plain_blockD [OF assms(6), of 0] by simp_all
  have l: "unat LM_JGNEFilter = 0x29a" by (simp add: LM_JGNEFilter_def)
  have "begins (WriteMacInt32 ?o other ?m) ?o (be32 other)" using begins_write32 [OF begins_Nil, of ?o ?o ?m other] p by simp
  then have "begins (store LM_JGNEFilter (be32 (gne_stub s)) (WriteMacInt32 ?o other ?m)) ?o (be32 other)"
  proof (rule begins_store_other)
    fix i j assume "i < length (be32 other)" "j < length (be32 (gne_stub s))"
    then show "?o + of_nat i \<noteq> LM_JGNEFilter + of_nat j"
      using apart [of LM_JGNEFilter 4 ?o 4 j i] l assms(7,8) by fastforce
  qed
  then have b: "begins (dmem (ensure_gne_filter s)) ?o (be32 other @ [])" using p by (simp add: e write_stores)
  have "plain (dmem (ensure_gne_filter s)) ?o" using p by (simp add: e)
  from begins_read32 [OF b this] have "ReadMacInt32 (dmem (ensure_gne_filter s)) ?o = other" .
  moreover have "ReadMacInt32 (dmem (ensure_gne_filter s)) LM_JGNEFilter = gne_stub s"
    unfolding e by (rule ReadMacInt32_same) (simp add: p)
  ultimately show ?thesis by simp
qed

subsection \<open>Pixels\<close>

text \<open>Where QuickDraw finds the pixel at local \<open>(h, v)\<close> of a port with this PixMap.\<close>

definition quickdraw_pixel :: "mac \<Rightarrow> u32 \<Rightarrow> u16 \<Rightarrow> int \<Rightarrow> int \<Rightarrow> u32" where
  "quickdraw_pixel m pixmap px h v =
     (let b = read_rect m (pixmap + kPix_Bounds); row = ReadMacInt16 m (pixmap + kPix_RowBytes) AND 0x3fff
      in ReadMacInt32 m (pixmap + kPix_BaseAddr) + word_of_int (v - sint (top b)) * row + word_of_int (h - sint (left b)) * (ucast px div 8))"

lemma row_field_read: "unat (row :: u32) < 0x4000 \<Longrightarrow> (ucast (row_field row) :: u32) AND 0x3fff = row"
proof -
  assume r: "unat row < 0x4000"
  have "take_bit 14 row = row" using r by (simp add: word_unat_eq_iff unsigned_take_bit_eq take_bit_nat_eq_self)
  then have z: "bit row n \<Longrightarrow> n < 14" for n by (metis bit_take_bit_iff)
  have m: "(0x3fff :: u32) = mask 14" by (simp add: mask_eq_exp_minus_1)
  have f: "(ucast (row_field row) :: u32) = ucast (ucast row :: u16) OR 0x8000"
    by (simp add: row_field_def kPix_RowBytesFlag_def unsigned_or_eq)
  have "(ucast (ucast row :: u16) :: u32) AND 0x3fff = row"
    unfolding m by (rule bit_word_eqI) (auto simp: bit_simps dest: z)
  moreover have "(0x8000 :: u32) AND 0x3fff = 0" by simp
  ultimately show ?thesis unfolding f bit.conj_disj_distrib2 by simp
qed

lemma ucast16_masked: "(ucast (x :: u16) :: u32) AND 0xffff = ucast x"
  unfolding mask_16_u32 by (rule bit_word_eqI) (auto simp: bit_simps dest: bit_imp_le_length)

lemma pointed_port:
  assumes "plain_block m (pixmap_addr rec) 14"
  shows "ReadMacInt32 (point_port rec m) (pixmap_addr rec + kPix_BaseAddr) =
      redirected_base_addr m (pixmap_addr rec) (buffer_addr rec) (row_bytes rec) (pixel_size rec)"
    "ReadMacInt16 (point_port rec m) (pixmap_addr rec + kPix_RowBytes) = ucast (row_field (row_bytes rec))"
    "read_rect (point_port rec m) (pixmap_addr rec + kPix_Bounds) = read_rect m (pixmap_addr rec + kPix_Bounds)"
proof -
  have p: "plain m (pixmap_addr rec + of_nat k)" if "k < 14" for k using plain_blockD [OF assms that] .
  have q: "plain m (pixmap_addr rec)" "plain m (pixmap_addr rec + 4)" "plain m (pixmap_addr rec + 6)" "plain m (pixmap_addr rec + 8)"
    "plain m (pixmap_addr rec + 10)" "plain m (pixmap_addr rec + 12)"
    using p [of 0] p [of 4] p [of 6] p [of 8] p [of 10] p [of 12] by simp_all
  show "ReadMacInt32 (point_port rec m) (pixmap_addr rec + kPix_BaseAddr) =
      redirected_base_addr m (pixmap_addr rec) (buffer_addr rec) (row_bytes rec) (pixel_size rec)"
    using q by (simp add: point_port_def mac_frame pixmap_fields of_be32_be32)
  show "ReadMacInt16 (point_port rec m) (pixmap_addr rec + kPix_RowBytes) = ucast (row_field (row_bytes rec))"
    unfolding point_port_def by (subst ReadMacInt16_same) (use q in \<open>simp_all add: pixmap_fields ucast16_masked\<close>)
  have "plain m (8 + pixmap_addr rec)" "plain m (10 + pixmap_addr rec)" "plain m (12 + pixmap_addr rec)"
    using q(4-6) by (simp_all only: add.commute)
  then show "read_rect (point_port rec m) (pixmap_addr rec + kPix_Bounds) = read_rect m (pixmap_addr rec + kPix_Bounds)"
    using q by (simp add: point_port_def mac_frame read_rect_def pixmap_fields region_fields)
qed

text \<open>
  C16. A redirected port addresses its own buffer: when the row length fits the fourteen bits QuickDraw has for it, the pixel
  at local \<open>(h, v)\<close> is where row \<open>v\<close> and column \<open>h\<close> of the buffer are, inside the buffer for every pixel of
  a port whose local coordinates start at the origin, and the bounds that place the window on the screen are left as they were.\<close>
theorem redirected_port_draws_into_its_buffer:
  assumes "rec = new_record m0 port pixmap p px buffer" "px \<in> {8, 16, 32}" "0 < rect_width p" "unat (row_bytes rec) < 0x4000"
    "plain_block m pixmap 14" "0 \<le> v" "v < rect_height p" "0 \<le> h" "h < rect_width p"
  shows "quickdraw_pixel (point_port rec m) pixmap px h v = buffer + word_of_int (v * uint (row_bytes rec) + h * (uint px div 8)) \<and>
    0 \<le> v * uint (row_bytes rec) + h * (uint px div 8) \<and>
    v * uint (row_bytes rec) + (h + 1) * (uint px div 8) \<le> uint (row_bytes rec) * rect_height p \<and>
    read_rect (point_port rec m) (pixmap + kPix_Bounds) = read_rect m (pixmap + kPix_Bounds)"
proof -
  have rec: "pixmap_addr rec = pixmap" "buffer_addr rec = buffer" "pixel_size rec = px" "row_bytes rec = buffer_row (rect_width p) px"
    using assms(1) by (simp_all add: new_record_def Let_def)
  have P: "plain_block m (pixmap_addr rec) 14" using assms(5) rec by simp
  note R = pointed_port [OF P, unfolded rec(1-3)]
  let ?row = "row_bytes rec" and ?b = "read_rect m (pixmap + kPix_Bounds)"
  have bpp: "uint px div 8 \<in> {1, 2, 4}" "(ucast px div 8 :: u32) = word_of_int (uint px div 8)" "sint px = uint px" "uint px = 8 * (uint px div 8)"
    using assms(2) by auto
  have "quickdraw_pixel (point_port rec m) pixmap px h v =
      buffer + (scast (top ?b) * ?row + scast (left ?b) * (ucast px div 8)) + word_of_int (v - sint (top ?b)) * ?row
        + word_of_int (h - sint (left ?b)) * (ucast px div 8)"
    unfolding quickdraw_pixel_def R row_field_read [OF assms(4)] by (simp add: redirected_base_addr_def Let_def)
  also have "\<dots> = buffer + (word_of_int v * ?row + word_of_int h * (ucast px div 8))"
  proof -
    have e: "word_of_int (v - sint (top ?b)) = (word_of_int v - scast (top ?b) :: u32)"
      "word_of_int (h - sint (left ?b)) = (word_of_int h - scast (left ?b) :: u32)" by (simp_all only: scast_eq of_int_diff)
    have alg: "B + (T * r + L * q) + (V - T) * r + (H - L) * q = B + (V * r + H * q)" for B T L V H r q :: u32
      by (simp add: algebra_simps)
    show ?thesis unfolding e by (rule alg)
  qed
  also have "\<dots> = buffer + word_of_int (v * uint ?row + h * (uint px div 8))" by (simp add: bpp(2))
  finally have q: "quickdraw_pixel (point_port rec m) pixmap px h v = buffer + word_of_int (v * uint ?row + h * (uint px div 8))" .
  have row: "rect_width p * (uint px div 8) \<le> uint ?row"
  proof -
    define k where "k = uint px div 8"
    have k: "k \<in> {1, 2, 4}" "sint px = 8 * k" using bpp unfolding k_def by simp_all
    have w: "rect_width p < 65536"
      using sint_range_size [of "right p"] sint_range_size [of "left p"] by (simp add: rect_width_def word_size)
    define n where "n = (rect_width p * sint px + 31) div 32 * 4"
    have n: "rect_width p * k \<le> n" "n < 4294967296" "0 \<le> n" using k w assms(3) unfolding n_def by auto
    have "uint ?row = n" unfolding rec(4) buffer_row_def n_def [symmetric] using n by (simp add: uint_word_of_int)
    then show ?thesis using n(1) unfolding k_def by simp
  qed
  have "v * uint ?row + (h + 1) * (uint px div 8) \<le> v * uint ?row + uint ?row"
  proof -
    have "(h + 1) * (uint px div 8) \<le> rect_width p * (uint px div 8)" using assms(9) bpp(1) by (intro mult_right_mono) auto
    then show ?thesis using row by linarith
  qed
  also have "\<dots> \<le> uint ?row * rect_height p"
    using assms(7) mult_left_mono [of "v + 1" "rect_height p" "uint ?row"] by (simp add: algebra_simps)
  finally have "v * uint ?row + (h + 1) * (uint px div 8) \<le> uint ?row * rect_height p" .
  moreover have "0 \<le> v * uint ?row + h * (uint px div 8)" using assms(6,8) bpp(1) by (intro add_nonneg_nonneg mult_nonneg_nonneg) auto
  ultimately show ?thesis using q R(3) by simp
qed

text \<open>Local coordinates that start further down, after a scroll, leave the buffer.\<close>

lemma scrolled_port_leaves_the_buffer:
  "rect_height p \<le> v \<Longrightarrow> 0 \<le> h \<Longrightarrow> uint (row_bytes rec) * rect_height p \<le> v * uint (row_bytes rec) + h * (uint px div 8)"
proof -
  assume a: "rect_height p \<le> v" "0 \<le> h"
  have "uint (row_bytes rec) * rect_height p \<le> uint (row_bytes rec) * v" using a(1) by (rule mult_left_mono) simp
  moreover have "0 \<le> h * (uint px div 8)" using a(2) by (intro mult_nonneg_nonneg) (simp_all add: pos_imp_zdiv_nonneg_iff)
  ultimately show ?thesis by (simp add: mult.commute)
qed

definition small_port :: rect where "small_port = \<lparr>top = 0, left = 0, bottom = 20, right = 30\<rparr>"

lemma redirected_port_draws_into_its_buffer_witness:
  "quickdraw_pixel (point_port (new_record bare_mac 0x20000 0x21000 small_port 8 0xa0000000) bare_mac) 0x21000 8 5 3 = 0xa0000065"
proof -
  let ?rec = "new_record bare_mac 0x20000 0x21000 small_port 8 0xa0000000"
  have r: "row_bytes ?rec = 32" by (simp add: new_record_def Let_def small_port_def rect_width_def buffer_row_def)
  have "plain_block bare_mac 0x21000 14" by (rule plain_bare) (simp_all add: bare_mac_def)
  from redirected_port_draws_into_its_buffer [OF refl _ _ _ this, where px = 8 and p = small_port and h = 5 and v = 3 and buffer = "0xa0000000"
      and port = "0x20000" and ?m0.0 = bare_mac]
  show ?thesis by (simp add: r) (simp add: small_port_def rect_width_def rect_height_def)
qed

subsection \<open>Input\<close>

text \<open>
  C17. When the host adds nothing more, every queued mouse and key event reaches the ADB driver exactly once and in the order
  in which it was queued, a press or release right after the move to its point; the queue is empty after at most six
  ticks for each event and the delay that was running.\<close>
theorem host_input_arrives_in_order:
  "\<exists>n. n \<le> input_delay s + 6 * length (input_queue s) \<and> input_queue (input_ticks n s) = [] \<and>
     adb_calls (input_ticks n s) = adb_calls s @ concat (map event_calls (input_queue s))"
  using input_arrives [of s] by blast

subsection \<open>The host's windows\<close>

text \<open>
  C18. While the host listens (both callbacks set), the windows it was told about and not told to remove are exactly those of
  the last snapshot, each of which is in it once. The comparison with a new walk of the guest's window list keeps this, and then the host
  has every window of the walk and no other than those it had. This is shown for a list whose next links do not
  lead back to an earlier record within the 128 the walk follows; in a list that does, a window the walk repeats can stay in the
  snapshot after the host was told to remove it (\<open>repeated_window_outlives_its_removal\<close>). A window
  the hooks see closed keeps it as well, and a reset leaves the host without windows.\<close>
theorem host_mirrors_the_windows:
  assumes "mirrored s" "distinct (window_chain kMaxWindows (ReadMacInt32 (dmem s) LM_WindowList) s)"
    and "Toolbox_SnapshotWindowList s = (walked, t)"
  shows "mirrored (diff_windows walked t) \<and> set (pointers walked) \<subseteq> host_windows (host_calls (diff_windows walked t)) \<and>
    host_windows (host_calls (diff_windows walked t)) \<subseteq> set (pointers walked) \<union> host_windows (host_calls s) \<and>
    mirrored (snd (snd (Handle_WindowTeardown r s))) \<and>
    mirrored (ToolboxWindow_Reset s) \<and> host_windows (host_calls (ToolboxWindow_Reset s)) = {}"
proof -
  note w = walked_once [OF assms(3,2)]
  have "mirrored t" using assms(1) mirrored_cong [OF w(2)] by simp
  moreover have "host_calls t = host_calls s" using host_partD [OF w(2)] by blast
  ultimately show ?thesis using mirrored_diff [OF _ w(1)] mirrored_teardown [OF assms(1)] mirrored_reset [OF assms(1)] by metis
qed

definition hosted :: window_state where
  "hosted = (fresh_bridge bare_mac)\<lparr>callbacks := Some \<lparr>cb_added = True, cb_changed = True, cb_removed = True, cb_present = True\<rparr>,
     last_snapshot := [some_window], host_calls := [WindowAdded some_window]\<rparr>"

lemma hosted_empty: "mirrored hosted" "host_windows (host_calls hosted) = {0x20000}"
  by (simp_all add: mirrored_def listening_def hosted_def fresh_bridge_def window_state.defs menu_state.defs host_windows_def some_window_def)

lemma host_mirrors_the_windows_witness:
  "mirrored (diff_windows (fst (Toolbox_SnapshotWindowList hosted)) (snd (Toolbox_SnapshotWindowList hosted))) \<and>
    host_windows (host_calls (ToolboxWindow_Reset hosted)) = {}"
proof -
  have m: "dmem hosted = bare_mac" "RAMSize hosted = RAMSize (fresh_bridge bare_mac)" by (simp_all add: hosted_def fresh_bridge_def window_state.defs menu_state.defs no_menus_def)
  have z: "ReadMacInt32 bare_mac LM_WindowList = 0" by code_simp
  have "\<not> valid_guest_ptr 0 hosted" by (simp add: valid_guest_ptr_def)
  then have "distinct (window_chain kMaxWindows (ReadMacInt32 (dmem hosted) LM_WindowList) hosted)" unfolding m z kMaxWindows_def
    by (simp add: numeral_eq_Suc)
  from host_mirrors_the_windows [OF hosted_empty(1) this surjective_pairing] show ?thesis by blast
qed

end
