(* ===== verification/Spec2Isabelle.thy ===== *)
theory Spec2Isabelle
  imports SCC_Properties CD_Properties Bus_Properties Timer_Properties Drive_Properties ADB_Properties Prefs_Properties Video_Properties Toolbox_Menu_Properties Ether_Properties Audio_Properties Xpram Window_Properties
begin

text \<open>
  A verification development for Cockatrice III (a 68k Macintosh emulator, the C++ code under
  \<open>src/BasiliskII\<close>).

  The program. The guest, Mac OS on an emulated 68040, sees memory (\<open>include/cpu_emulation.h\<close>,
  \<open>memory.cpp\<close>) with devices behind it, and calls the emulator through patched system traps: the
  SCSI Manager (\<open>scsi.cpp\<close>) over emulated SCSI targets (\<open>dummy/scsi_dummy.cpp\<close>: disk images and
  CD-ROM images with cue sheets), the disk and floppy drivers (\<open>disk.cpp\<close>, \<open>sony.cpp\<close>) over host
  files (\<open>SDL/sys_unix_sdl.cpp\<close>), the Time Manager (\<open>timer.cpp\<close>), the Apple Desktop Bus
  (\<open>adb.cpp\<close>), the video driver (\<open>video.cpp\<close>, \<open>SDL/video_sdl.cpp\<close>) with the declaration ROM that
  announces it (\<open>slot_rom.cpp\<close>), the Z8530 serial controller with LocalTalk over UDP (\<open>scc.cpp\<close>),
  the Ethernet driver (\<open>ether.cpp\<close>, \<open>SDL/sdl_pcap.cpp\<close>), the sound output component (\<open>audio.cpp\<close>,
  \<open>SDL/audio_sdl.cpp\<close>) and the parameter RAM (\<open>xpram.cpp\<close>). Traps of the running system can be hooked
  (\<open>toolbox_traps.cpp\<close>), which the bridges between the host and the guest's menu bar
  (\<open>toolbox_menu.cpp\<close>) and windows (\<open>toolbox_window.cpp\<close>) use. The preferences (\<open>prefs.cpp\<close>) name the images and devices.

  Theories. \<open>Prelude\<close> holds the shared lemmas on lists, words and stores.

  Memory: \<open>Mac_Memory\<close> has the guest memory as a map of bytes with ROM bounds and device
  regions, typed reads and writes in the order of the code, and the log of device accesses;
  \<open>Mac_Blocks\<close> the facts on blocks of it, \<open>M68k\<close> the registers and the machine without devices of the examples,
  \<open>Memory_Map\<close> the table of committed ranges and the faults in its holes.

  Serial controller: \<open>SCC\<close> follows \<open>scc.cpp\<close>, \<open>SCC_Facts\<close> and \<open>SCC_Frames\<close> have the
  interrupt invariant, the buffer bounds and the path of a frame; \<open>SCC_Properties\<close> the properties.

  SCSI: \<open>Host_Files\<close> (stdio streams over named files), \<open>SCSI_Device\<close> (state, buffer),
  \<open>CD_Image\<close> and \<open>Cue_Sheet\<close> (disc model), \<open>SCSI_Blocks\<close>, \<open>SCSI_Mode\<close>, \<open>SCSI_CD\<close>
  (commands), \<open>SCSI_Emulation\<close> (attaching, dispatch), \<open>SCSI_Manager\<close> (phases, transfer
  instruction blocks, guest entry points), \<open>SCSI_Dispatch\<close> (the trap with its stack frame, and the requests
  a guest can make with the stack they are pushed as, which it serves). Over them: \<open>SCSI_Facts\<close>, \<open>SCSI_Bounds\<close>,
  \<open>SCSI_Disk\<close>, \<open>SCSI_Ownership\<close>, \<open>SCSI_Safety\<close>, \<open>CD_Facts\<close>, \<open>SCSI_Machine\<close>,
  \<open>SCSI_Transaction\<close> with the invariants (a transfer stays in the buffer, every open file
  belongs to exactly one target, phases match the transfer state), and \<open>SCSI_Properties\<close>,
  \<open>CD_Properties\<close>, \<open>Bus_Properties\<close>.

  Time Manager: \<open>Time_Manager\<close>; \<open>Timer_Facts\<close> and \<open>Timer_Schedule\<close> show that the
  table of descriptors implements a set of tasks and what an interrupt fires;
  \<open>Timer_Properties\<close>.

  Drives: \<open>Device_Manager\<close>, \<open>Sys_Files\<close>, \<open>Disk_Driver\<close>, \<open>Sony_Driver\<close>; \<open>Drive_Facts\<close> and
  \<open>Drive_Images\<close> show that a drive is a block store (\<open>seekable_store\<close>, up to the position the host can
  seek to, 4 GB on Linux) and that protected images keep their
  contents; \<open>Drive_Properties\<close>.

  ADB: \<open>ADB\<close>, \<open>ADB_Facts\<close> (the calls an interrupt makes of the entries of the handler table), \<open>ADB_Properties\<close>. Preferences: \<open>C_Text\<close> (C text functions, shared
  with the cue sheets), \<open>Prefs\<close>, \<open>Prefs_Facts\<close>, \<open>Prefs_Properties\<close>.

  Video: \<open>Video_Modes\<close>, \<open>Slot_ROM\<close> (the builder and the patches of the declaration ROM),
  \<open>Video\<close> (resolutions, mode switch), \<open>Video_Driver\<close> (Open, Control, Status,
  start-up). \<open>Slot_Image\<close> has a reader of declaration ROMs and shows what it finds in what was
  built (the date has 11 characters, so the image has 1350 bytes) and patched, \<open>Slot_Modes\<close> what
  mode switches do to it; \<open>Video_Facts\<close> the invariant of the screen over runs of the
  driver (\<open>video_step\<close>), \<open>Video_Status\<close> the list of resolutions and mode parameters,
  \<open>Video_Resize\<close> a size the host asks for; \<open>Video_Properties\<close>.

  Toolbox: \<open>M68k\<close> (registers and guest code), \<open>Toolbox_Traps\<close> (registry, trampolines in guest
  memory, installation, dispatch), \<open>Toolbox_Menu\<close> (the decoder of the menu list, hooks, the choice made on
  the host). \<open>Toolbox_Facts\<close> states what Mac OS must provide (\<open>trap_manager\<close>: a trap table that can be set
  and read, a system heap) and what one installation does, \<open>Toolbox_Hooks\<close> the states a registry can
  reach, \<open>Toolbox_Bar\<close> that the decoder inverts an encoding of menus and the way of a
  choice; \<open>Toolbox_Properties\<close>, \<open>Toolbox_Menu_Properties\<close>. The item loop has \<open>ITEM_ROUNDS\<close>, 700 rounds: an
  item takes at least six bytes of the 4096 a menu may have.

  Windows: \<open>Window_Bridge\<close> has the state of \<open>toolbox_window.cpp\<close>, the arena of pixel buffers behind the
  frame buffer, the walk of the guest's window list, the queue of window operations, the 68k code the safe point
  writes for them and the resize of the screen; \<open>Window_Mirror\<close> the redirection of a port into a buffer,
  presentation, input, the comparison of two walks, hooks and reset. The state extends that of the menu bar.
  \<open>Window_Facts\<close> states what the arena owes its clients as a locale (\<open>block_arena\<close>) and shows which blocks are held,
  that input is delivered in order and which windows the host knows; \<open>Window_Routine\<close> decodes the written code and
  runs it on a stack machine with 80 steps (the code has at most 144 bytes, each instruction at least two);
  \<open>Window_Properties\<close> has the steps of a running bridge and the properties.

  Ethernet: \<open>Packet_Queue\<close> (the ring of received packets, which is a bounded queue), \<open>Ether\<close>,
  \<open>Ether_Facts\<close> (order of service, the protocol table, successive reads), \<open>Ether_Thread\<close> (the moves of the
  reception thread, \<open>rx_step\<close>, interleaved with those of everything else, \<open>world_step\<close>, among them the 60 Hz interrupt, which
  serves the network once Mac OS has started, and the invariant); \<open>Ether_Properties\<close>.

  Sound: \<open>Audio\<close> (component, routines, device, callback), \<open>Audio_Thread\<close> (the callback interleaved with
  the interrupt, the calls and resets, and the handshake between them); \<open>Audio_Properties\<close>. Parameter
  RAM: \<open>Xpram\<close>.

  Correspondence. A C struct or the static variables of a file are a record, a class hierarchy or
  tagged union a datatype, machine integers words of their width; a definition has the name of
  the function it models, and a part of a long function has a name of its own which the manifest
  maps to its lines. Operations take the state and return it updated. Reads outside an
  allocated buffer and other undefined behaviour are explicit: \<open>None\<close>, or a flag of the
  state that the safety properties show to stay off.

  Parameters. The guest's own code is not in the repository: Mac OS traps (\<open>mac_os\<close>), task
  routines (\<open>guest_prog\<close>), ADB handlers (\<open>adb_handler\<close>), protocol handlers and the mixer (\<open>guest_code\<close>) are functions on guest memory given
  as arguments. So are the host's answers: devices behind ioctl, the UDP socket (a queue of
  arriving and a list of sent datagrams), slirp and pcap, the clock, \<open>rand\<close>, whether SDL sets a mode (\<open>sdl\<close>)
  or opens the sound device (\<open>sdl_audio\<close>), the
  date of the build. The theorems hold for each of them, or for
  those that satisfy the premises the statement names.

  Fuel. Loops that may not end in the code return \<open>None\<close> when they do not
  (\<open>partial_function (option)\<close>): the transfer interpreter, the write loop of a read-only image,
  the walk over the drive queue; termination is a property of its own. The key loop of \<open>ADB\<close> has
  fuel 16, the distance of two pointers into a buffer of 16. Everything else is structural or
  has a measure.

  Not modelled, and why: the 68k engines are vendored or generated; ROM and resource patches search and
  change images that are not part of the repository; SDL events and redrawing, the host's
  windows (callbacks, recorded with their arguments) and the platform layers are host calls; the self-test of the window
  bridge, its dump of pixels to files and all log output are diagnostics; \<open>cdrom.cpp\<close> is compiled out; slirp and the pcap
  library are third-party code behind the Ethernet driver. The external file system, the clipboard and the
  serial driver only hand calls to the host. Allocation failures are not modelled.
\<close>

end
